(* ===== verification/Prelude.thy ===== *)
theory Prelude
  imports Main "HOL-Library.Word"
begin

text \<open>
  Shared vocabulary of the development: the status, element and allocation enumerations of the
  TensorFlow Lite C API, the arithmetic of \<open>size_t\<close> (64 bits on the aarch64 and x86-64 targets the
  plugin is built for), the early-return discipline of the \<open>TF_LITE_ENSURE\<close> macros, and generic
  lemmas on lists that several components use.
\<close>

section \<open>Enumerations of the C API\<close>

datatype TfLiteStatus =
    kTfLiteOk
  | kTfLiteError
  | kTfLiteDelegateError
  | kTfLiteApplicationError
  | kTfLiteDelegateDataNotFound
  | kTfLiteDelegateDataWriteError
  | kTfLiteDelegateDataReadError
  | kTfLiteUnresolvedOps
  | kTfLiteCancelled
  | kTfLiteOutputShapeNotKnown

datatype TfLiteAllocationType =
    kTfLiteMemNone
  | kTfLiteMmapRo
  | kTfLiteArenaRw
  | kTfLiteArenaRwPersistent
  | kTfLiteDynamic
  | kTfLitePersistentRo
  | kTfLiteCustom
  | kTfLiteVariantObject
  | kTfLiteNonCpu

datatype TfLiteType =
    kTfLiteNoType
  | kTfLiteFloat32
  | kTfLiteInt32
  | kTfLiteUInt8
  | kTfLiteInt64
  | kTfLiteString
  | kTfLiteBool
  | kTfLiteInt16
  | kTfLiteComplex64
  | kTfLiteInt8
  | kTfLiteFloat16
  | kTfLiteFloat64
  | kTfLiteComplex128
  | kTfLiteUInt64
  | kTfLiteResource
  | kTfLiteVariant
  | kTfLiteUInt32
  | kTfLiteUInt16
  | kTfLiteInt4
  | kTfLiteBFloat16
  | kTfLiteInt2
  | kTfLiteUInt4

type_synonym byte = "8 word"

section \<open>Arithmetic of size_t\<close>

text \<open>
  A \<open>size_t\<close> value is a natural number below \<open>2 ^ 64\<close>; every operation that can leave the range
  wraps, as in C++.
\<close>

abbreviation size_mod :: nat where
  "size_mod \<equiv> 18446744073709551616"

definition size_max :: nat where
  "size_max = 18446744073709551615"

definition size_add :: "nat \<Rightarrow> nat \<Rightarrow> nat" where
  "size_add a b = (a + b) mod size_mod"

definition size_sub :: "nat \<Rightarrow> nat \<Rightarrow> nat" where
  "size_sub a b = (a + size_mod - b mod size_mod) mod size_mod"

definition size_mul :: "nat \<Rightarrow> nat \<Rightarrow> nat" where
  "size_mul a b = (a * b) mod size_mod"

text \<open>Conversion of a signed integer to \<open>size_t\<close>.\<close>

definition size_of_int :: "int \<Rightarrow> nat" where
  "size_of_int i = nat (i mod 18446744073709551616)"

text \<open>Two's complement wrap of a 32-bit signed integer.\<close>

definition wrap_i32 :: "int \<Rightarrow> int" where
  "wrap_i32 i = (i + 2147483648) mod 4294967296 - 2147483648"

abbreviation i32_min :: int where
  "i32_min \<equiv> -2147483648"

abbreviation i32_max :: int where
  "i32_max \<equiv> 2147483647"

definition in_i32 :: "int \<Rightarrow> bool" where
  "in_i32 i \<longleftrightarrow> i32_min \<le> i \<and> i \<le> i32_max"

section \<open>Early return on a status\<close>

text \<open>
  \<open>TF_LITE_ENSURE_STATUS(a)\<close> evaluates \<open>a\<close> and leaves the function with its status unless the
  status is \<open>kTfLiteOk\<close>. A stateful function returns its status with the state it leaves behind, so
  the effects made before the failure stay.
\<close>

definition ensure_status :: "TfLiteStatus \<times> 's \<Rightarrow> ('s \<Rightarrow> TfLiteStatus \<times> 's) \<Rightarrow> TfLiteStatus \<times> 's" where
  "ensure_status r f = (case r of (st, s) \<Rightarrow> if st = kTfLiteOk then f s else (st, s))"

text \<open>A loop whose body may return early with a status.\<close>

fun ensure_each :: "('a \<Rightarrow> 's \<Rightarrow> TfLiteStatus \<times> 's) \<Rightarrow> 'a list \<Rightarrow> 's \<Rightarrow> TfLiteStatus \<times> 's" where
  "ensure_each f [] s = (kTfLiteOk, s)"
| "ensure_each f (x # xs) s = ensure_status (f x s) (ensure_each f xs)"

section \<open>Lemmas on size_t\<close>

named_theorems size_simps

lemma size_add_exact [size_simps]: "a + b < size_mod \<Longrightarrow> size_add a b = a + b"
  by (simp add: size_add_def)

lemma size_sub_exact [size_simps]: "b \<le> a \<Longrightarrow> a < size_mod \<Longrightarrow> size_sub a b = a - b"
proof -
  assume ba: "b \<le> a" and am: "a < size_mod"
  then have "a + size_mod - b mod size_mod = (a - b) + size_mod" by simp
  moreover have "((a - b) + size_mod) mod size_mod = a - b" using am by simp
  ultimately show ?thesis by (simp add: size_sub_def)
qed

lemma size_mul_exact [size_simps]: "a * b < size_mod \<Longrightarrow> size_mul a b = a * b"
  by (simp add: size_mul_def)

lemma size_add_less [simp]: "size_add a b < size_mod"
  by (simp add: size_add_def)

lemma size_sub_less [simp]: "size_sub a b < size_mod"
  by (simp add: size_sub_def)

lemma size_mul_less [simp]: "size_mul a b < size_mod"
  by (simp add: size_mul_def)

lemma size_of_int_nonneg [simp]: "0 \<le> i \<Longrightarrow> i < 18446744073709551616 \<Longrightarrow> size_of_int i = nat i"
  by (simp add: size_of_int_def)

lemma wrap_i32_id [simp]: "in_i32 i \<Longrightarrow> wrap_i32 i = i"
  by (auto simp: in_i32_def wrap_i32_def)

lemma wrap_i32_in [simp]: "in_i32 (wrap_i32 i)"
proof -
  have "0 \<le> (i + 2147483648) mod 4294967296" "(i + 2147483648) mod 4294967296 < 4294967296"
    by simp_all
  then show ?thesis unfolding in_i32_def wrap_i32_def by linarith
qed

section \<open>Lemmas on early returns\<close>

lemma ensure_status_ok [simp]: "ensure_status (kTfLiteOk, s) f = f s"
  by (simp add: ensure_status_def)

lemma ensure_status_OkD:
  assumes "ensure_status r f = (kTfLiteOk, t)"
  obtains s where "r = (kTfLiteOk, s)" and "f s = (kTfLiteOk, t)"
  using assms by (auto simp: ensure_status_def split: prod.splits if_splits)

lemma ensure_each_append:
  "ensure_each f (xs @ ys) s = ensure_status (ensure_each f xs s) (ensure_each f ys)"
  by (induction xs arbitrary: s) (auto simp: ensure_status_def split: prod.splits if_splits)

text \<open>Whatever the status, a loop keeps what its body keeps.\<close>

lemma ensure_each_invariant:
  assumes "\<And>x s. x \<in> set xs \<Longrightarrow> P s \<Longrightarrow> P (snd (f x s))" and "P s"
  shows "P (snd (ensure_each f xs s))"
  using assms
proof (induction xs arbitrary: s)
  case (Cons x xs)
  have step: "P (snd (f x s))" using Cons.prems by simp
  then show ?case
    using Cons.IH [of "snd (f x s)"] Cons.prems(1)
    by (auto simp: ensure_status_def split: prod.splits)
qed simp

lemma ensure_each_ok:
  assumes "\<And>x s. x \<in> set xs \<Longrightarrow> P s \<Longrightarrow> \<exists>t. f x s = (kTfLiteOk, t) \<and> P t" and "P s"
  shows "\<exists>t. ensure_each f xs s = (kTfLiteOk, t) \<and> P t"
  using assms
proof (induction xs arbitrary: s)
  case (Cons x xs)
  from Cons.prems obtain t where "f x s = (kTfLiteOk, t)" "P t" by (metis list.set_intros(1))
  with Cons.IH [of t] Cons.prems(1) show ?case by simp
qed simp

section \<open>Lemmas on lists\<close>

lemma list_all_update:
  "list_all P xs \<Longrightarrow> P x \<Longrightarrow> list_all P (xs[i := x])"
  by (auto simp: list_all_iff dest!: subsetD [OF set_update_subset_insert])

lemma map_update_same: "f x = f (xs ! i) \<Longrightarrow> map f (xs[i := x]) = map f xs"
proof (cases "i < length xs")
  case True
  assume "f x = f (xs ! i)"
  with True show ?thesis by (metis list_update_id map_update nth_map)
qed (simp add: list_update_beyond)

section \<open>Frames\<close>

text \<open>
  What an operation leaves alone is a preorder between the state before and after it. Early returns and
  loops stay within every frame that their parts stay within.
\<close>

locale frame =
  fixes R :: "'s \<Rightarrow> 's \<Rightarrow> bool"
  assumes frame_refl: "R s s" and frame_trans: "R s t \<Longrightarrow> R t u \<Longrightarrow> R s u"
begin

lemma ensure_status_frame:
  assumes "R s (snd r)" and "\<And>t. R t (snd (f t))"
  shows "R s (snd (ensure_status r f))"
  using assms by (cases r) (auto simp: ensure_status_def intro: frame_trans)

lemma ensure_each_frame: "(\<And>x t. R t (snd (f x t))) \<Longrightarrow> R s (snd (ensure_each f xs s))"
proof (induction xs arbitrary: s)
  case (Cons x xs)
  then show ?case by (simp add: ensure_status_frame)
qed (simp add: frame_refl)

lemma fold_frame: "(\<And>x t. R t (f x t)) \<Longrightarrow> R s (fold f xs s)"
  by (induction xs arbitrary: s) (auto intro: frame_refl frame_trans)

end

section \<open>Rounding\<close>

text \<open>The natural number nearest to a quotient, ties to even.\<close>

definition round_quotient :: "nat \<Rightarrow> nat \<Rightarrow> nat" where
  "round_quotient n d =
     (let q = n div d; r = n mod d
      in if 2 * r < d \<or> 2 * r = d \<and> even q then q else q + 1)"

lemma round_quotient_exact: "d dvd n \<Longrightarrow> 0 < d \<Longrightarrow> round_quotient n d * d = n"
  by (auto simp: round_quotient_def Let_def)

lemma round_quotient_close:
  assumes "0 < d" shows "2 * (round_quotient n d * d) \<le> 2 * n + d \<and> 2 * n \<le> 2 * (round_quotient n d * d) + d"
proof -
  define p r where "p = n div d * d" and "r = n mod d"
  have n: "n = p + r" "r < d" using assms by (simp_all add: p_def r_def)
  have "round_quotient n d * d = (if 2 * r < d \<or> 2 * r = d \<and> even (n div d) then p else p + d)"
    by (simp add: round_quotient_def Let_def p_def r_def)
  then show ?thesis using n by (auto simp: not_less)
qed

section \<open>Reachable states\<close>

text \<open>
  The states that a component can be in: those it starts in and those its operations lead to. A property
  of the start states that every operation keeps holds in all of them; the components below are
  instances of this contract.
\<close>

inductive reachable :: "('s \<Rightarrow> bool) \<Rightarrow> ('s \<Rightarrow> 's \<Rightarrow> bool) \<Rightarrow> 's \<Rightarrow> bool" for init and step where
  reachable_init: "init s \<Longrightarrow> reachable init step s"
| reachable_step: "reachable init step s \<Longrightarrow> step s t \<Longrightarrow> reachable init step t"

locale transition_system =
  fixes init :: "'s \<Rightarrow> bool" and step :: "'s \<Rightarrow> 's \<Rightarrow> bool" and inv :: "'s \<Rightarrow> bool"
  assumes init_inv: "init s \<Longrightarrow> inv s"
    and step_inv: "inv s \<Longrightarrow> step s t \<Longrightarrow> inv t"
begin

lemma reachable_inv: "reachable init step s \<Longrightarrow> inv s"
  by (induction rule: reachable.induct) (auto intro: init_inv step_inv)

lemma steps_inv: "step\<^sup>*\<^sup>* s t \<Longrightarrow> inv s \<Longrightarrow> inv t"
  by (induction rule: rtranclp_induct) (auto intro: step_inv)

end

end
