(* ===== verification/Arena.thy ===== *)
theory Arena
  imports Prelude "HOL-Library.Multiset"
begin

text \<open>
  The memory arena of the runtime (\<open>lite/simple_memory_arena.h\<close>, \<open>lite/simple_memory_arena.cc\<close>):
  the aligned, resizable buffer and \<open>SimpleMemoryArena\<close>, which places every tensor at an offset of
  one buffer so that tensors whose usage intervals meet never share a byte.
  Offsets and sizes are \<open>size_t\<close> values with their wrap-around; node and tensor indices are
  \<open>int32_t\<close> values, only compared and copied here.
\<close>

section \<open>Allocations\<close>

record ArenaAllocWithUsageInterval =
  al_offset :: nat
  al_size :: nat
  al_tensor :: int
  al_first_node :: int
  al_last_node :: int

definition alloc_reset :: ArenaAllocWithUsageInterval where
  "alloc_reset = \<lparr>al_offset = 0, al_size = 0, al_tensor = -1, al_first_node = -1, al_last_node = -1\<rparr>"

definition alloc_less :: "ArenaAllocWithUsageInterval \<Rightarrow> ArenaAllocWithUsageInterval \<Rightarrow> bool" where
  "alloc_less a b \<longleftrightarrow> al_offset a < al_offset b"

section \<open>The aligned buffer\<close>

text \<open>
  The buffer holds the pointer returned by the allocator, the aligned pointer into the block (0 is
  the null pointer), the bytes behind the aligned pointer, and the size asked for.
\<close>

record ResizableAlignedBuffer =
  buf_pointer :: nat
  buf_aligned_pointer :: nat
  buf_bytes :: "byte list"
  data_size :: nat
  alignment :: nat

definition AlignTo :: "nat \<Rightarrow> nat \<Rightarrow> nat" where
  "AlignTo al offset =
     (if offset mod al = 0 then offset else size_add offset (al - offset mod al))"

text \<open>
  \<open>aligned_alloc\<close> of the C library is given by the block it returns: its address and its
  indeterminate first bytes. \<open>AlignedAlloc\<close> only computes the size it asks for.
\<close>

definition AlignedAlloc_size :: "nat \<Rightarrow> nat \<Rightarrow> nat" where
  "AlignedAlloc_size sz al = AlignTo al (size_sub (size_add sz al) 1)"

definition AlignedAlloc :: "(nat \<Rightarrow> nat \<Rightarrow> nat \<times> byte list) \<Rightarrow> nat \<Rightarrow> nat \<Rightarrow> nat \<times> nat \<times> byte list" where
  "AlignedAlloc aligned_alloc sz al =
     (let (p, bytes) = aligned_alloc al (AlignedAlloc_size sz al) in (p, p, take sz bytes))"

definition AlignedRealloc ::
    "(nat \<Rightarrow> nat \<Rightarrow> nat \<times> byte list) \<Rightarrow> byte list \<Rightarrow> nat \<Rightarrow> nat \<Rightarrow> nat \<Rightarrow> nat \<times> nat \<times> byte list" where
  "AlignedRealloc aligned_alloc old_bytes old_size new_size al =
     (let (p, q, bytes) = AlignedAlloc aligned_alloc new_size al in
      if 0 < new_size \<and> 0 < old_size
      then (let n = min new_size old_size in (p, q, take n old_bytes @ drop n bytes))
      else (p, q, bytes))"

definition Resize ::
    "(nat \<Rightarrow> nat \<Rightarrow> nat \<times> byte list) \<Rightarrow> nat \<Rightarrow> ResizableAlignedBuffer \<Rightarrow> bool \<times> ResizableAlignedBuffer" where
  "Resize aligned_alloc new_size b =
     (if new_size \<le> data_size b then (False, b)
      else (let (p, q, bytes) =
                  AlignedRealloc aligned_alloc (buf_bytes b) (data_size b) new_size (alignment b);
                reallocated = (q \<noteq> buf_aligned_pointer b)
            in (reallocated, b\<lparr>buf_pointer := p, buf_aligned_pointer := q, buf_bytes := bytes,
                               data_size := new_size\<rparr>)))"

definition Release :: "ResizableAlignedBuffer \<Rightarrow> ResizableAlignedBuffer" where
  "Release b =
     (if buf_pointer b = 0 then b
      else b\<lparr>buf_pointer := 0, buf_aligned_pointer := 0, buf_bytes := [], data_size := 0\<rparr>)"

definition new_buffer :: "nat \<Rightarrow> ResizableAlignedBuffer" where
  "new_buffer al =
     \<lparr>buf_pointer = 0, buf_aligned_pointer = 0, buf_bytes = [], data_size = 0, alignment = al\<rparr>"

section \<open>The arena\<close>

record SimpleMemoryArena =
  committed :: bool
  high_water_mark :: nat
  underlying_buffer :: ResizableAlignedBuffer
  active_allocs :: "ArenaAllocWithUsageInterval list"

definition new_arena :: "nat \<Rightarrow> SimpleMemoryArena" where
  "new_arena arena_alignment =
     \<lparr>committed = False, high_water_mark = 0, underlying_buffer = new_buffer arena_alignment,
      active_allocs = []\<rparr>"

text \<open>
  The two purges mark the allocs to delete with tensor \<open>-1\<close> and erase every marked alloc.
\<close>

definition erase_marked :: "ArenaAllocWithUsageInterval list \<Rightarrow> ArenaAllocWithUsageInterval list" where
  "erase_marked as = filter (\<lambda>a. al_tensor a \<noteq> -1) as"

definition PurgeAfter :: "int \<Rightarrow> SimpleMemoryArena \<Rightarrow> SimpleMemoryArena" where
  "PurgeAfter node s = s\<lparr>active_allocs :=
     erase_marked (map (\<lambda>a. if al_first_node a > node then a\<lparr>al_tensor := -1\<rparr> else a) (active_allocs s))\<rparr>"

definition PurgeActiveAllocs :: "int \<Rightarrow> SimpleMemoryArena \<Rightarrow> SimpleMemoryArena" where
  "PurgeActiveAllocs node s = s\<lparr>active_allocs :=
     erase_marked (map (\<lambda>a. if al_last_node a < node then a\<lparr>al_tensor := -1\<rparr> else a) (active_allocs s))\<rparr>"

definition CalculateActiveAllocs ::
    "ArenaAllocWithUsageInterval list \<Rightarrow> int \<Rightarrow> SimpleMemoryArena \<Rightarrow> SimpleMemoryArena" where
  "CalculateActiveAllocs allocs node s = s\<lparr>active_allocs :=
     sort_key al_offset (filter (\<lambda>a. al_first_node a \<le> node \<and> al_last_node a \<ge> node) allocs)\<rparr>"

definition ResetAllocs :: "SimpleMemoryArena \<Rightarrow> SimpleMemoryArena" where
  "ResetAllocs s = s\<lparr>active_allocs := []\<rparr>"

text \<open>
  The scan over the sorted allocs. The state is \<open>(best_offset, best_offset_fit, current_offset)\<close>;
  an alloc whose usage interval does not meet \<open>[fn, ln]\<close> is skipped.
\<close>

fun gap_scan ::
    "nat \<Rightarrow> nat \<Rightarrow> int \<Rightarrow> int \<Rightarrow> ArenaAllocWithUsageInterval list \<Rightarrow> nat \<times> nat \<times> nat \<Rightarrow> nat \<times> nat \<times> nat" where
  "gap_scan al sz fn ln [] st = st"
| "gap_scan al sz fn ln (a # as) (best_offset, best_offset_fit, current_offset) =
     (if al_last_node a < fn \<or> al_first_node a > ln
      then gap_scan al sz fn ln as (best_offset, best_offset_fit, current_offset)
      else
        (let aligned_current_offset = AlignTo al current_offset;
             found = (size_add aligned_current_offset sz \<le> al_offset a \<and>
                      size_sub (al_offset a) aligned_current_offset < best_offset_fit);
             best_offset' = (if found then aligned_current_offset else best_offset);
             best_offset_fit' = (if found then size_sub (al_offset a) current_offset
                                 else best_offset_fit);
             current_offset' = max current_offset (size_add (al_offset a) (al_size a))
         in if best_offset_fit' = 0 then (best_offset', best_offset_fit', current_offset')
            else gap_scan al sz fn ln as (best_offset', best_offset_fit', current_offset')))"

text \<open>\<open>std::upper_bound\<close> followed by \<open>insert\<close>: before the first alloc with a greater offset.\<close>

fun insert_alloc ::
    "ArenaAllocWithUsageInterval \<Rightarrow> ArenaAllocWithUsageInterval list \<Rightarrow> ArenaAllocWithUsageInterval list" where
  "insert_alloc x [] = [x]"
| "insert_alloc x (y # ys) = (if alloc_less x y then x # y # ys else y # insert_alloc x ys)"

text \<open>
  \<open>Allocate\<close> writes through its \<open>new_alloc\<close> pointer: the alloc is an argument and a result.
\<close>

definition Allocate ::
    "nat \<Rightarrow> nat \<Rightarrow> int \<Rightarrow> int \<Rightarrow> int \<Rightarrow> ArenaAllocWithUsageInterval \<Rightarrow> SimpleMemoryArena \<Rightarrow>
     TfLiteStatus \<times> ArenaAllocWithUsageInterval \<times> SimpleMemoryArena" where
  "Allocate al sz tensor first_node last_node new_alloc s =
     (if \<not> al \<le> alignment (underlying_buffer s) then (kTfLiteError, new_alloc, s)
      else
        (let na = new_alloc\<lparr>al_tensor := tensor, al_first_node := first_node,
                            al_last_node := last_node, al_size := sz\<rparr>
         in if sz = 0 then (kTfLiteOk, na\<lparr>al_offset := 0\<rparr>, s)
            else
              (let kOffsetNotAssigned = size_max;
                   (best_offset0, best_offset_fit, current_offset) =
                     gap_scan al sz first_node last_node (active_allocs s)
                       (kOffsetNotAssigned, kOffsetNotAssigned, 0);
                   best_offset = (if best_offset0 = kOffsetNotAssigned
                                  then AlignTo al current_offset else best_offset0);
                   na' = na\<lparr>al_offset := best_offset\<rparr>
               in (kTfLiteOk, na',
                   s\<lparr>high_water_mark := max (high_water_mark s) (size_add best_offset sz),
                     active_allocs := insert_alloc na' (active_allocs s)\<rparr>))))"

definition Commit ::
    "(nat \<Rightarrow> nat \<Rightarrow> nat \<times> byte list) \<Rightarrow> SimpleMemoryArena \<Rightarrow> TfLiteStatus \<times> bool \<times> SimpleMemoryArena" where
  "Commit aligned_alloc s =
     (let (arena_reallocated, b) = Resize aligned_alloc (high_water_mark s) (underlying_buffer s)
      in (kTfLiteOk, arena_reallocated, s\<lparr>underlying_buffer := b, committed := True\<rparr>))"

text \<open>
  The output pointer of \<open>ResolveAlloc\<close> is the address of a field in all callers, never null.
  The result is the pointer written, \<open>None\<close> when nothing is written.
\<close>

definition ResolveAlloc ::
    "ArenaAllocWithUsageInterval \<Rightarrow> SimpleMemoryArena \<Rightarrow> TfLiteStatus \<times> nat option" where
  "ResolveAlloc a s =
     (if \<not> committed s then (kTfLiteError, None)
      else if \<not> data_size (underlying_buffer s) \<ge> size_add (al_offset a) (al_size a)
           then (kTfLiteError, None)
      else if al_size a = 0 then (kTfLiteOk, Some 0)
      else (kTfLiteOk, Some (size_add (buf_aligned_pointer (underlying_buffer s)) (al_offset a))))"

definition ClearPlan :: "SimpleMemoryArena \<Rightarrow> TfLiteStatus \<times> SimpleMemoryArena" where
  "ClearPlan s = (kTfLiteOk, s\<lparr>committed := False, high_water_mark := 0, active_allocs := []\<rparr>)"

definition ReleaseBuffer :: "SimpleMemoryArena \<Rightarrow> TfLiteStatus \<times> SimpleMemoryArena" where
  "ReleaseBuffer s =
     (kTfLiteOk, s\<lparr>committed := False, underlying_buffer := Release (underlying_buffer s)\<rparr>)"

definition GetBufferSize :: "SimpleMemoryArena \<Rightarrow> nat" where
  "GetBufferSize s = data_size (underlying_buffer s)"

definition BasePointer :: "SimpleMemoryArena \<Rightarrow> nat" where
  "BasePointer s = buf_aligned_pointer (underlying_buffer s)"

text \<open>A client's sequence of requests: each is placed in turn, stopping at the first failure.\<close>

fun request_all ::
    "('r \<Rightarrow> 's \<Rightarrow> TfLiteStatus \<times> 'a \<times> 's) \<Rightarrow> 'r list \<Rightarrow> 's \<Rightarrow> TfLiteStatus \<times> 'a list \<times> 's" where
  "request_all place [] s = (kTfLiteOk, [], s)"
| "request_all place (r # rs) s =
     (case place r s of (st, a, s') \<Rightarrow>
        if st \<noteq> kTfLiteOk then (st, [], s')
        else (case request_all place rs s' of (st', as, s'') \<Rightarrow> (st', a # as, s'')))"

text \<open>A request of the planner: size, tensor and usage interval, placed into a reset alloc.\<close>

definition arena_place ::
    "nat \<Rightarrow> nat \<times> int \<times> int \<times> int \<Rightarrow> SimpleMemoryArena \<Rightarrow>
     TfLiteStatus \<times> ArenaAllocWithUsageInterval \<times> SimpleMemoryArena" where
  "arena_place al r s = (case r of (sz, t, fn, ln) \<Rightarrow> Allocate al sz t fn ln alloc_reset s)"

section \<open>Specification\<close>

text \<open>Two usage intervals meet; two allocs occupy disjoint bytes.\<close>

definition usage_meets :: "int \<Rightarrow> int \<Rightarrow> ArenaAllocWithUsageInterval \<Rightarrow> bool" where
  "usage_meets fn ln a \<longleftrightarrow> \<not> (al_last_node a < fn \<or> al_first_node a > ln)"

definition alloc_end :: "ArenaAllocWithUsageInterval \<Rightarrow> nat" where
  "alloc_end a = al_offset a + al_size a"

definition bytes_disjoint :: "ArenaAllocWithUsageInterval \<Rightarrow> ArenaAllocWithUsageInterval \<Rightarrow> bool" where
  "bytes_disjoint a b \<longleftrightarrow> alloc_end a \<le> al_offset b \<or> alloc_end b \<le> al_offset a"

definition alloc_compatible :: "ArenaAllocWithUsageInterval \<Rightarrow> ArenaAllocWithUsageInterval \<Rightarrow> bool" where
  "alloc_compatible a b \<longleftrightarrow>
     (usage_meets (al_first_node a) (al_last_node a) b \<longrightarrow> bytes_disjoint a b)"

text \<open>
  The invariant of an arena: the active allocs are sorted by offset, pairwise compatible, and end
  at or below the high water mark, which is a \<open>size_t\<close> value below \<open>kOffsetNotAssigned\<close>.
\<close>

definition arena_inv :: "SimpleMemoryArena \<Rightarrow> bool" where
  "arena_inv s \<longleftrightarrow>
     sorted (map al_offset (active_allocs s)) \<and>
     (\<forall>a\<in>set (active_allocs s). alloc_end a \<le> high_water_mark s) \<and>
     high_water_mark s < size_max \<and>
     sorted_wrt alloc_compatible (active_allocs s)"

section \<open>Alignment\<close>

lemma AlignTo_exact:
  assumes "0 < al" and "offset + al < size_mod"
  shows "AlignTo al offset = al * ((offset + al - 1) div al)"
proof (cases "offset mod al = 0")
  case True
  then obtain q where q: "offset = al * q" by (auto simp: dvd_def mod_eq_0_iff_dvd)
  have "(al * q + al - 1) div al = q"
  proof (rule div_nat_eqI)
    show "al * q \<le> al * q + al - 1" using assms(1) by simp
    show "al * q + al - 1 < al * Suc q" using assms(1) by simp
  qed
  then show ?thesis using True q by (simp add: AlignTo_def)
next
  case False
  define q r where "q = offset div al" and "r = offset mod al"
  have off: "offset = al * q + r" and r: "0 < r" "r < al"
    using False assms(1) by (simp_all add: q_def r_def)
  have "(al * q + r + al - 1) div al = Suc q"
  proof (rule div_nat_eqI)
    show "al * Suc q \<le> al * q + r + al - 1" using r by simp
    show "al * q + r + al - 1 < al * Suc (Suc q)" using r by simp
  qed
  then have "al * ((offset + al - 1) div al) = al * Suc q" using off by simp
  moreover have "AlignTo al offset = offset + (al - r)"
    using False assms(2) by (simp add: AlignTo_def size_simps r_def)
  ultimately show ?thesis using off r by simp
qed

lemma AlignTo_props:
  assumes "0 < al" and "offset + al < size_mod"
  shows "al dvd AlignTo al offset" "offset \<le> AlignTo al offset" "AlignTo al offset < offset + al"
proof -
  show "al dvd AlignTo al offset" using AlignTo_exact [OF assms] by simp
  have "AlignTo al offset = (if offset mod al = 0 then offset else offset + (al - offset mod al))"
    using assms by (simp add: AlignTo_def size_simps)
  moreover have "offset mod al < al" using assms(1) by simp
  ultimately have "offset \<le> AlignTo al offset \<and> AlignTo al offset < offset + al"
    using assms(1) by (auto split: if_splits simp del: mod_less_divisor)
  then show "offset \<le> AlignTo al offset" and "AlignTo al offset < offset + al" by simp_all
qed

section \<open>Compatibility of allocs\<close>

lemma usage_meets_sym:
  "usage_meets (al_first_node a) (al_last_node a) b \<longleftrightarrow>
   usage_meets (al_first_node b) (al_last_node b) a"
  by (auto simp: usage_meets_def)

lemma alloc_compatible_sym: "alloc_compatible a b \<longleftrightarrow> alloc_compatible b a"
  by (auto simp: alloc_compatible_def bytes_disjoint_def usage_meets_sym [of a b])

lemma set_insert_alloc [simp]: "set (insert_alloc x ys) = insert x (set ys)"
  by (induction ys) auto

lemma sorted_insert_alloc:
  "sorted (map al_offset ys) \<Longrightarrow> sorted (map al_offset (insert_alloc x ys))"
  by (induction ys) (auto simp: alloc_less_def)

lemma sorted_wrt_insert_alloc:
  assumes "\<And>a b. P a b \<longleftrightarrow> P b a" and "sorted_wrt P ys" and "\<forall>y\<in>set ys. P x y"
  shows "sorted_wrt P (insert_alloc x ys)"
  using assms(2,3) by (induction ys) (auto simp: assms(1) [of _ x])

section \<open>The gap scan\<close>

text \<open>
  A place is good for \<open>sz\<close> bytes used in \<open>[fn, ln]\<close> when it is aligned, ends at or below \<open>B\<close>, and meets no
  alloc of the list that is used at the same time.
\<close>

definition good_place ::
    "nat \<Rightarrow> nat \<Rightarrow> int \<Rightarrow> int \<Rightarrow> ArenaAllocWithUsageInterval list \<Rightarrow> nat \<Rightarrow> nat \<Rightarrow> bool" where
  "good_place al sz fn ln L B p \<longleftrightarrow>
     al dvd p \<and> p + sz \<le> B \<and>
     (\<forall>a\<in>set L. usage_meets fn ln a \<longrightarrow> p + sz \<le> al_offset a \<or> alloc_end a \<le> p)"

text \<open>
  The scan keeps: the best place so far is unassigned or good for the whole list, and the current
  offset is past the end of every alloc already seen that is used at the same time.
\<close>

lemma gap_scan_sound:
  assumes "gap_scan al sz fn ln as (bo, bf, cur) = (bo', bf', cur')"
    and "0 < al" "0 < sz" "B + al + sz < size_mod"
    and "L = ps @ as" "sorted (map al_offset L)" "\<forall>a\<in>set L. alloc_end a \<le> B"
    and "\<forall>p\<in>set ps. usage_meets fn ln p \<longrightarrow> alloc_end p \<le> cur" "cur \<le> B"
    and "bo = size_max \<or> good_place al sz fn ln L B bo" "0 < bf"
  shows "(bo' = size_max \<or> good_place al sz fn ln L B bo') \<and> 0 < bf' \<and>
         (\<forall>p\<in>set L. usage_meets fn ln p \<longrightarrow> alloc_end p \<le> cur') \<and> cur' \<le> B"
  using assms
proof (induction as arbitrary: ps bo bf cur)
  case Nil
  then show ?case by simp
next
  case (Cons a as)
  have ends: "alloc_end a \<le> B" using Cons.prems(5,7) by simp
  have later: "\<forall>b\<in>set as. al_offset a \<le> al_offset b"
    using Cons.prems(5,6) by (auto simp: sorted_append)
  show ?case
  proof (cases "usage_meets fn ln a")
    case False
    show ?thesis
      by (rule Cons.IH [of bo bf cur "ps @ [a]"]) (use Cons.prems False in \<open>auto simp: usage_meets_def\<close>)
  next
    case True
    define p where "p = AlignTo al cur"
    have p: "al dvd p" "cur \<le> p" "p < cur + al"
      using AlignTo_props [of al cur] Cons.prems(2-4,9) by (simp_all add: p_def)
    have adds: "size_add p sz = p + sz" "size_add (al_offset a) (al_size a) = alloc_end a"
      using p Cons.prems(3,4,9) ends by (simp_all add: size_simps alloc_end_def)
    define found where "found \<longleftrightarrow> p + sz \<le> al_offset a \<and> size_sub (al_offset a) p < bf"
    define bo1 where "bo1 = (if found then p else bo)"
    define bf1 where "bf1 = (if found then size_sub (al_offset a) cur else bf)"
    define cur1 where "cur1 = max cur (alloc_end a)"
    have good: "good_place al sz fn ln L B p" if "p + sz \<le> al_offset a"
      unfolding good_place_def
    proof (intro conjI ballI impI)
      show "p + sz \<le> B" using that ends by (simp add: alloc_end_def)
      fix b assume "b \<in> set L" "usage_meets fn ln b"
      then show "p + sz \<le> al_offset b \<or> alloc_end b \<le> p"
        using Cons.prems(5,8) later that p by fastforce
    qed (rule p)
    have bf1: "0 < bf1"
    proof (cases found)
      case True
      then have "cur < al_offset a" using p Cons.prems(3) by (simp add: found_def)
      then have "size_sub (al_offset a) cur = al_offset a - cur"
        using ends Cons.prems(4) by (simp add: size_simps alloc_end_def)
      then show ?thesis using True \<open>cur < al_offset a\<close> by (simp add: bf1_def)
    next
      case False
      then show ?thesis using Cons.prems(11) by (simp add: bf1_def)
    qed
    have "gap_scan al sz fn ln as (bo1, bf1, cur1) = (bo', bf', cur')"
      using Cons.prems(1) True bf1 unfolding usage_meets_def
      by (simp add: Let_def adds p_def [symmetric] bo1_def bf1_def cur1_def found_def split: if_splits)
    then show ?thesis
      by (rule Cons.IH [of bo1 bf1 cur1 "ps @ [a]"])
        (use Cons.prems True bf1 good ends in \<open>auto simp: bo1_def found_def cur1_def\<close>)
  qed
qed

section \<open>Allocate\<close>

abbreviation placed ::
    "ArenaAllocWithUsageInterval \<Rightarrow> int \<Rightarrow> int \<Rightarrow> int \<Rightarrow> nat \<Rightarrow> nat \<Rightarrow> ArenaAllocWithUsageInterval" where
  "placed na t fn ln sz p \<equiv>
     na\<lparr>al_tensor := t, al_first_node := fn, al_last_node := ln, al_size := sz, al_offset := p\<rparr>"

lemma Allocate_place:
  assumes "arena_inv s" and "0 < al" and "0 < sz" and "al \<le> alignment (underlying_buffer s)"
    and "high_water_mark s + al + sz < size_max"
  obtains p where
    "Allocate al sz t fn ln na s =
       (kTfLiteOk, placed na t fn ln sz p,
        s\<lparr>high_water_mark := max (high_water_mark s) (p + sz),
          active_allocs := insert_alloc
            (placed na t fn ln sz p)
            (active_allocs s)\<rparr>)"
    and "good_place al sz fn ln (active_allocs s) (high_water_mark s + al + sz) p"
proof -
  let ?B = "high_water_mark s"
  obtain bo bf cur where scan:
    "gap_scan al sz fn ln (active_allocs s) (size_max, size_max, 0) = (bo, bf, cur)"
    by (metis prod_cases3)
  have B: "?B + al + sz < size_mod" using assms(5) by (simp add: size_max_def)
  have res: "bo = size_max \<or> good_place al sz fn ln (active_allocs s) ?B bo"
    "\<forall>q\<in>set (active_allocs s). usage_meets fn ln q \<longrightarrow> alloc_end q \<le> cur" "cur \<le> ?B"
    using gap_scan_sound [OF scan, of ?B "active_allocs s" "[]"] assms(1-3) B
    by (auto simp: arena_inv_def size_max_def)
  define p where "p = (if bo = size_max then AlignTo al cur else bo)"
  have good: "good_place al sz fn ln (active_allocs s) (?B + al + sz) p"
  proof (cases "bo = size_max")
    case True
    have "al dvd p" "cur \<le> p" "p < cur + al"
      using AlignTo_props [of al cur] assms(2) B res(3) True by (simp_all add: p_def)
    then show ?thesis using res(2,3) by (auto simp: good_place_def)
  next
    case False
    then show ?thesis using res(1) by (auto simp: good_place_def p_def)
  qed
  then have "size_add p sz = p + sz" using B by (simp add: good_place_def size_simps)
  with good show thesis
    using assms(3,4) scan by (intro that [of p]) (simp_all add: Allocate_def Let_def p_def [symmetric])
qed

lemma good_place_compatible:
  assumes "good_place al sz fn ln L B p" and "a \<in> set L"
    and "al_first_node na = fn" "al_last_node na = ln" "al_size na = sz" "al_offset na = p"
  shows "alloc_compatible na a"
  using assms by (auto simp: alloc_compatible_def bytes_disjoint_def good_place_def alloc_end_def)

lemma Allocate_zero:
  assumes "al \<le> alignment (underlying_buffer s)"
  shows "Allocate al 0 t fn ln na s =
     (kTfLiteOk, na\<lparr>al_tensor := t, al_first_node := fn, al_last_node := ln, al_size := 0, al_offset := 0\<rparr>, s)"
  using assms by (simp add: Allocate_def)

lemma Allocate_inv:
  assumes "arena_inv s" and "0 < al" and "al \<le> alignment (underlying_buffer s)"
    and "high_water_mark s + al + sz < size_max"
    and "Allocate al sz t fn ln na s = (st, na', s')"
  shows "arena_inv s'" and "st = kTfLiteOk"
    and "al_tensor na' = t" "al_first_node na' = fn" "al_last_node na' = ln" "al_size na' = sz"
    and "al dvd al_offset na'"
    and "alloc_end na' \<le> high_water_mark s'"
    and "high_water_mark s \<le> high_water_mark s'" "high_water_mark s' \<le> high_water_mark s + al + sz"
    and "underlying_buffer s' = underlying_buffer s"
    and "set (active_allocs s') = (if sz = 0 then set (active_allocs s) else insert na' (set (active_allocs s)))"
    and "0 < sz \<Longrightarrow> \<forall>a\<in>set (active_allocs s). alloc_compatible na' a"
proof -
  have "arena_inv s' \<and> st = kTfLiteOk \<and> al_tensor na' = t \<and> al_first_node na' = fn \<and>
    al_last_node na' = ln \<and> al_size na' = sz \<and> al dvd al_offset na' \<and>
    alloc_end na' \<le> high_water_mark s' \<and> high_water_mark s \<le> high_water_mark s' \<and>
    high_water_mark s' \<le> high_water_mark s + al + sz \<and> underlying_buffer s' = underlying_buffer s \<and>
    set (active_allocs s') = (if sz = 0 then set (active_allocs s) else insert na' (set (active_allocs s))) \<and>
    (0 < sz \<longrightarrow> (\<forall>a\<in>set (active_allocs s). alloc_compatible na' a))"
  proof (cases "sz = 0")
    case True
    then show ?thesis using assms Allocate_zero [OF assms(3)] by (auto simp: alloc_end_def)
  next
    case False
    then have sz: "0 < sz" by simp
    obtain p where alc: "Allocate al sz t fn ln na s =
        (kTfLiteOk, placed na t fn ln sz p,
         s\<lparr>high_water_mark := max (high_water_mark s) (p + sz),
           active_allocs := insert_alloc
             (placed na t fn ln sz p)
             (active_allocs s)\<rparr>)"
      and good: "good_place al sz fn ln (active_allocs s) (high_water_mark s + al + sz) p"
      using Allocate_place [OF assms(1,2) sz assms(3,4)] .
    let ?na = "placed na t fn ln sz p"
    have eqs: "st = kTfLiteOk" "na' = ?na" "high_water_mark s' = max (high_water_mark s) (p + sz)"
      "active_allocs s' = insert_alloc ?na (active_allocs s)" "underlying_buffer s' = underlying_buffer s"
      using alc assms(5) by auto
    have comp: "\<forall>a\<in>set (active_allocs s). alloc_compatible ?na a"
      using good_place_compatible [OF good] by simp
    have p: "al dvd p" "p + sz \<le> high_water_mark s + al + sz" using good by (auto simp: good_place_def)
    have "arena_inv s'"
      using assms(1,4) comp p unfolding arena_inv_def eqs
      by (auto intro!: sorted_insert_alloc sorted_wrt_insert_alloc [OF alloc_compatible_sym]
            simp: alloc_end_def)
    then show ?thesis using eqs comp p False by (auto simp: alloc_end_def)
  qed
  then show "arena_inv s'" "st = kTfLiteOk"
    "al_tensor na' = t" "al_first_node na' = fn" "al_last_node na' = ln" "al_size na' = sz"
    "al dvd al_offset na'" "alloc_end na' \<le> high_water_mark s'"
    "high_water_mark s \<le> high_water_mark s'" "high_water_mark s' \<le> high_water_mark s + al + sz"
    "underlying_buffer s' = underlying_buffer s"
    "set (active_allocs s') = (if sz = 0 then set (active_allocs s) else insert na' (set (active_allocs s)))"
    "0 < sz \<Longrightarrow> \<forall>a\<in>set (active_allocs s). alloc_compatible na' a"
    by simp_all
qed

section \<open>The other operations keep the invariant\<close>

lemma arena_inv_new: "arena_inv (new_arena al)"
  by (simp add: arena_inv_def new_arena_def size_max_def)

lemma sorted_map_filter: "sorted (map f xs) \<Longrightarrow> sorted (map f (filter P xs))"
  by (induction xs) auto

lemma arena_inv_filter:
  "arena_inv s \<Longrightarrow> arena_inv (s\<lparr>active_allocs := filter P (active_allocs s)\<rparr>)"
  by (auto simp: arena_inv_def sorted_map_filter sorted_wrt_filter)

lemma erase_marked_mark:
  "erase_marked (map (\<lambda>a. if P a then a\<lparr>al_tensor := -1\<rparr> else a) as) =
   filter (\<lambda>a. \<not> P a \<and> al_tensor a \<noteq> -1) as"
  by (induction as) (auto simp: erase_marked_def)

lemma PurgeAfter_eq: "PurgeAfter n s =
    s\<lparr>active_allocs := filter (\<lambda>a. al_first_node a \<le> n \<and> al_tensor a \<noteq> -1) (active_allocs s)\<rparr>"
  by (simp add: PurgeAfter_def erase_marked_mark not_less)

lemma PurgeActiveAllocs_eq: "PurgeActiveAllocs n s =
    s\<lparr>active_allocs := filter (\<lambda>a. n \<le> al_last_node a \<and> al_tensor a \<noteq> -1) (active_allocs s)\<rparr>"
  by (simp add: PurgeActiveAllocs_def erase_marked_mark not_less)

lemma PurgeAfter_inv: "arena_inv s \<Longrightarrow> arena_inv (PurgeAfter n s)"
  by (simp add: PurgeAfter_eq arena_inv_filter)

lemma PurgeActiveAllocs_inv: "arena_inv s \<Longrightarrow> arena_inv (PurgeActiveAllocs n s)"
  by (simp add: PurgeActiveAllocs_eq arena_inv_filter)

lemma ResetAllocs_inv: "arena_inv s \<Longrightarrow> arena_inv (ResetAllocs s)"
  by (simp add: arena_inv_def ResetAllocs_def)

lemma Commit_inv: "arena_inv s \<Longrightarrow> arena_inv (snd (snd (Commit m s)))"
  by (auto simp: Commit_def arena_inv_def split: prod.splits)

lemma ClearPlan_inv: "arena_inv (snd (ClearPlan s))"
  by (simp add: arena_inv_def ClearPlan_def size_max_def)

lemma ReleaseBuffer_inv: "arena_inv s \<Longrightarrow> arena_inv (snd (ReleaseBuffer s))"
  by (simp add: arena_inv_def ReleaseBuffer_def)

text \<open>
  The active allocs recomputed at a node are a sorted, compatible part of the allocs they come from.
\<close>

lemma sorted_wrt_set_sym:
  assumes "\<And>a b. P a b \<longleftrightarrow> P b a" and "mset xs = mset ys" and "sorted_wrt P xs"
  shows "sorted_wrt P ys"
  using assms(2,3)
proof (induction ys arbitrary: xs)
  case (Cons y ys)
  then obtain us vs where xs: "xs = us @ y # vs"
    by (metis in_set_conv_decomp list.set_intros(1) mset_eq_setD)
  then have "mset (us @ vs) = mset ys" using Cons.prems(1) by simp
  moreover have "sorted_wrt P (us @ vs)" using Cons.prems(2) xs by (auto simp: sorted_wrt_append)
  ultimately have "sorted_wrt P ys" by (rule Cons.IH)
  moreover have "\<forall>z\<in>set ys. P y z"
    using Cons.prems(2) xs \<open>mset (us @ vs) = mset ys\<close> [THEN mset_eq_setD] assms(1)
    by (auto simp: sorted_wrt_append)
  ultimately show ?case by simp
qed simp

lemma CalculateActiveAllocs_inv:
  assumes "sorted_wrt alloc_compatible allocs" and "\<forall>a\<in>set allocs. alloc_end a \<le> high_water_mark s"
    and "high_water_mark s < size_max"
  shows "arena_inv (CalculateActiveAllocs allocs n s)"
proof -
  let ?live = "filter (\<lambda>a. al_first_node a \<le> n \<and> al_last_node a \<ge> n) allocs"
  have "sorted_wrt alloc_compatible (sort_key al_offset ?live)"
    by (rule sorted_wrt_set_sym [OF alloc_compatible_sym, of ?live])
      (simp_all add: assms(1) sorted_wrt_filter)
  then show ?thesis using assms(2,3) by (simp add: arena_inv_def CalculateActiveAllocs_def)
qed

section \<open>Commit and resolution\<close>

text \<open>What the code relies on of the C library's \<open>aligned_alloc\<close>: it succeeds with a block of the size asked for.\<close>

definition allocator_ok :: "(nat \<Rightarrow> nat \<Rightarrow> nat \<times> byte list) \<Rightarrow> bool" where
  "allocator_ok m \<longleftrightarrow> (\<forall>al n. fst (m al n) \<noteq> 0 \<and> length (snd (m al n)) = n)"

text \<open>A buffer is well formed when its bytes are as many as its size.\<close>

definition buffer_ok :: "ResizableAlignedBuffer \<Rightarrow> bool" where
  "buffer_ok b \<longleftrightarrow> length (buf_bytes b) = data_size b \<and> (0 < data_size b \<longrightarrow> buf_aligned_pointer b \<noteq> 0)"

lemma AlignedAlloc_size_ge:
  assumes "0 < al" and "sz + 2 * al < size_mod"
  shows "sz \<le> AlignedAlloc_size sz al" and "al dvd AlignedAlloc_size sz al"
proof -
  have "size_sub (size_add sz al) 1 = sz + al - 1" using assms by (simp add: size_simps)
  then have eq: "AlignedAlloc_size sz al = AlignTo al (sz + al - 1)" by (simp add: AlignedAlloc_size_def)
  have "sz + al - 1 + al < size_mod" using assms by simp
  note props = AlignTo_props(1,2) [OF assms(1) this]
  then show "sz \<le> AlignedAlloc_size sz al" using assms(1) unfolding eq by linarith
  show "al dvd AlignedAlloc_size sz al" using props unfolding eq by simp
qed

lemma Resize_grow:
  assumes "allocator_ok m" and "buffer_ok b" and "0 < alignment b" and "data_size b < n"
    and "n + 2 * alignment b < size_mod"
  shows "buffer_ok (snd (Resize m n b))" and "data_size (snd (Resize m n b)) = n"
    and "take (data_size b) (buf_bytes (snd (Resize m n b))) = buf_bytes b"
    and "alignment (snd (Resize m n b)) = alignment b"
proof -
  obtain p bytes where blk: "m (alignment b) (AlignedAlloc_size n (alignment b)) = (p, bytes)"
    by (cases "m (alignment b) (AlignedAlloc_size n (alignment b))")
  have len: "n \<le> length bytes" and p: "p \<noteq> 0"
    using assms(1) blk AlignedAlloc_size_ge(1) [OF assms(3,5)]
    unfolding allocator_ok_def by (metis snd_conv, metis fst_conv)
  have old: "length (buf_bytes b) = data_size b" using assms(2) by (simp add: buffer_ok_def)
  define new where "new = buf_bytes b @ drop (data_size b) (take n bytes)"
  have "snd (Resize m n b) = b\<lparr>buf_pointer := p, buf_aligned_pointer := p, buf_bytes := new, data_size := n\<rparr>"
    using assms(4) blk old
    by (cases "data_size b = 0") (auto simp: Resize_def AlignedRealloc_def AlignedAlloc_def new_def Let_def)
  moreover have "length new = n" using len old assms(4) by (simp add: new_def)
  ultimately show "buffer_ok (snd (Resize m n b))" "data_size (snd (Resize m n b)) = n"
    "take (data_size b) (buf_bytes (snd (Resize m n b))) = buf_bytes b"
    "alignment (snd (Resize m n b)) = alignment b"
    using p old by (auto simp: buffer_ok_def new_def)
qed

lemma Resize_shrink: "n \<le> data_size b \<Longrightarrow> Resize m n b = (False, b)"
  by (simp add: Resize_def)

lemma Resize_not_moved:
  "fst (Resize m n b) = False \<Longrightarrow> buf_aligned_pointer (snd (Resize m n b)) = buf_aligned_pointer b"
  by (auto simp: Resize_def split: prod.splits if_splits)

lemma Commit_size:
  assumes "Commit m s = (st, moved, s')"
  shows "st = kTfLiteOk" "committed s'" "high_water_mark s \<le> data_size (underlying_buffer s')"
    "high_water_mark s' = high_water_mark s" "active_allocs s' = active_allocs s"
  using assms by (auto simp: Commit_def Resize_def split: prod.splits if_splits)

lemma ResolveAlloc_ok:
  assumes "committed s" and "alloc_end a \<le> data_size (underlying_buffer s)"
    and "data_size (underlying_buffer s) < size_mod"
  shows "ResolveAlloc a s =
    (kTfLiteOk, Some (if al_size a = 0 then 0
                      else size_add (buf_aligned_pointer (underlying_buffer s)) (al_offset a)))"
  using assms by (auto simp: ResolveAlloc_def alloc_end_def size_simps)

section \<open>The interface the planner relies on\<close>

text \<open>
  What a client of an allocator relies on: a request within the limit succeeds, the placed object
  is in order with every live one and becomes live (or is in order with everything), and the space
  used grows by at most the cost of the request.
\<close>

locale placing_allocator =
  fixes inv :: "'s \<Rightarrow> bool"
    and live :: "'s \<Rightarrow> 'a set"
    and used :: "'s \<Rightarrow> nat"
    and cost :: "'r \<Rightarrow> nat"
    and limit :: nat
    and place :: "'r \<Rightarrow> 's \<Rightarrow> TfLiteStatus \<times> 'a \<times> 's"
    and in_order :: "'a \<Rightarrow> 'a \<Rightarrow> bool"
    and fits :: "'s \<Rightarrow> 'a \<Rightarrow> bool"
  assumes in_order_sym: "in_order a b \<Longrightarrow> in_order b a"
    and place_law: "inv s \<Longrightarrow> used s + cost r < limit \<Longrightarrow> place r s = (st, a, s') \<Longrightarrow>
      st = kTfLiteOk \<and> inv s' \<and> used s' \<le> used s + cost r \<and> fits s' a \<and>
      (\<forall>b\<in>live s. in_order a b) \<and> live s \<subseteq> live s' \<and> (a \<in> live s' \<or> (\<forall>b. in_order a b))"
    and fits_mono: "inv s \<Longrightarrow> used s + cost r < limit \<Longrightarrow> place r s = (st, a, s') \<Longrightarrow> fits s b \<Longrightarrow> fits s' b"
begin

lemma request_all_fits:
  "inv s \<Longrightarrow> used s + sum_list (map cost rs) < limit \<Longrightarrow> fits s b \<Longrightarrow>
   fits (snd (snd (request_all place rs s))) b"
proof (induction rs arbitrary: s)
  case (Cons r rs)
  obtain st a s' where pl: "place r s = (st, a, s')" by (metis prod_cases3)
  have lim: "used s + cost r < limit" using Cons.prems(2) by simp
  note law = place_law [OF Cons.prems(1) lim pl] fits_mono [OF Cons.prems(1) lim pl Cons.prems(3)]
  then show ?case using Cons.IH [of s'] Cons.prems(2) pl by (simp add: case_prod_beta)
qed simp

lemma request_all_law:
  assumes "inv s" and "used s + sum_list (map cost rs) < limit"
    and "request_all place rs s = (st, as, s')"
  shows "st = kTfLiteOk \<and> inv s' \<and> length as = length rs \<and> used s' \<le> used s + sum_list (map cost rs) \<and>
    (\<forall>a\<in>set as. fits s' a) \<and> (\<forall>a\<in>set as. \<forall>b\<in>live s. in_order a b) \<and> sorted_wrt in_order as"
  using assms
proof (induction rs arbitrary: s st as)
  case (Cons r rs)
  obtain st1 a s1 where pl: "place r s = (st1, a, s1)" by (metis prod_cases3)
  obtain st2 as2 s2 where rest: "request_all place rs s1 = (st2, as2, s2)" by (metis prod_cases3)
  have lim: "used s + cost r < limit" using Cons.prems(2) by simp
  note law = place_law [OF Cons.prems(1) lim pl]
  have lim1: "used s1 + sum_list (map cost rs) < limit" using law Cons.prems(2) by simp
  have eqs: "st = st2" "as = a # as2" "s' = s2" using Cons.prems(3) pl rest law by auto
  have ih: "st2 = kTfLiteOk \<and> inv s2 \<and> length as2 = length rs \<and>
      used s2 \<le> used s1 + sum_list (map cost rs) \<and> (\<forall>a\<in>set as2. fits s2 a) \<and>
      (\<forall>a\<in>set as2. \<forall>b\<in>live s1. in_order a b) \<and> sorted_wrt in_order as2"
    using Cons.IH [OF _ lim1, of st2 as2] law rest eqs by simp
  have "fits s2 a" using request_all_fits [OF _ lim1, of a] law rest by simp
  moreover have "\<forall>b\<in>set as2. in_order a b" using law ih in_order_sym by blast
  ultimately show ?case using ih law eqs by auto
qed simp

end

lemma alloc_compatible_empty: "al_offset a = 0 \<Longrightarrow> al_size a = 0 \<Longrightarrow> alloc_compatible a b"
  by (simp add: alloc_compatible_def bytes_disjoint_def alloc_end_def)

definition aligned_arena_inv :: "nat \<Rightarrow> SimpleMemoryArena \<Rightarrow> bool" where
  "aligned_arena_inv al s \<longleftrightarrow> arena_inv s \<and> 0 < al \<and> al \<le> alignment (underlying_buffer s) \<and>
     data_size (underlying_buffer s) < size_mod"

definition alloc_fits :: "nat \<Rightarrow> SimpleMemoryArena \<Rightarrow> ArenaAllocWithUsageInterval \<Rightarrow> bool" where
  "alloc_fits al s a \<longleftrightarrow> al dvd al_offset a \<and> alloc_end a \<le> high_water_mark s"

interpretation arena: placing_allocator
  "aligned_arena_inv al" "\<lambda>s. set (active_allocs s)" high_water_mark "\<lambda>r. al + fst r" size_max
  "arena_place al" alloc_compatible "alloc_fits al"
proof
  fix a b assume "alloc_compatible a b" then show "alloc_compatible b a"
    by (simp add: alloc_compatible_sym)
next
  fix s r st a s'
  assume inv: "aligned_arena_inv al s" and lim: "high_water_mark s + (al + fst r) < size_max"
    and pl: "arena_place al r s = (st, a, s')"
  obtain sz t fn ln where r: "r = (sz, t, fn, ln)" by (metis prod_cases4)
  have al: "arena_inv s" "0 < al" "al \<le> alignment (underlying_buffer s)"
    using inv by (simp_all add: aligned_arena_inv_def)
  have alc: "Allocate al sz t fn ln alloc_reset s = (st, a, s')" using pl r by (simp add: arena_place_def)
  have lim': "high_water_mark s + al + sz < size_max" using lim r by simp
  note inv' = Allocate_inv [OF al lim' alc]
  have zero: "sz = 0 \<Longrightarrow> al_offset a = 0 \<and> al_size a = 0"
    using alc Allocate_zero [OF al(3)] by auto
  show "st = kTfLiteOk \<and> aligned_arena_inv al s' \<and> high_water_mark s' \<le> high_water_mark s + (al + fst r) \<and>
    alloc_fits al s' a \<and> (\<forall>b\<in>set (active_allocs s). alloc_compatible a b) \<and>
    set (active_allocs s) \<subseteq> set (active_allocs s') \<and>
    (a \<in> set (active_allocs s') \<or> (\<forall>b. alloc_compatible a b))"
    using inv inv' al r alloc_compatible_empty zero by (cases "sz = 0") (auto simp: aligned_arena_inv_def alloc_fits_def)
  fix b assume "alloc_fits al s b"
  then show "alloc_fits al s' b" using inv'(9) by (auto simp: alloc_fits_def)
qed

section \<open>Properties\<close>

text \<open>
  Claim C7. Placing a tensor in an arena in order always succeeds when there is address space left,
  and the place is aligned, lies below the new high water mark, and shares no byte with any active
  allocation whose usage interval meets the tensor's; the arena stays in order.
\<close>

theorem arena_allocate_no_overlap:
  assumes "arena_inv s" and "0 < al" and "al \<le> alignment (underlying_buffer s)" and "0 < sz"
    and "high_water_mark s + al + sz < size_max"
    and "Allocate al sz t fn ln na s = (st, na', s')"
  shows "st = kTfLiteOk \<and> arena_inv s' \<and> al dvd al_offset na' \<and> al_size na' = sz \<and>
    al_offset na' + sz \<le> high_water_mark s' \<and> na' \<in> set (active_allocs s') \<and>
    (\<forall>a\<in>set (active_allocs s). al_last_node a < fn \<or> ln < al_first_node a \<or>
       al_offset na' + sz \<le> al_offset a \<or> al_offset a + al_size a \<le> al_offset na')"
proof -
  note inv = Allocate_inv [OF assms(1,2,3,5,6)]
  have "\<forall>a\<in>set (active_allocs s). alloc_compatible na' a" using inv(13) assms(4) by simp
  then show ?thesis
    using inv assms(4)
    by (auto simp: alloc_compatible_def usage_meets_def bytes_disjoint_def alloc_end_def)
qed

lemmas arena_eval = Allocate_def Let_def new_arena_def new_buffer_def alloc_reset_def AlignTo_def
  size_add_def size_sub_def size_max_def

definition w_arena :: SimpleMemoryArena where
  "w_arena = snd (snd (Allocate 4 10 0 0 2 alloc_reset (new_arena 64)))"

theorem arena_allocate_no_overlap_witness:
  "arena_inv w_arena \<and>
   al_offset (fst (snd (Allocate 4 6 1 1 3 alloc_reset w_arena))) = 12 \<and>
   arena_inv (snd (snd (Allocate 4 6 1 1 3 alloc_reset w_arena)))"
proof -
  have w: "w_arena = (new_arena 64)\<lparr>high_water_mark := 10,
      active_allocs := [\<lparr>al_offset = 0, al_size = 10, al_tensor = 0, al_first_node = 0, al_last_node = 2\<rparr>]\<rparr>"
    by (simp add: w_arena_def arena_eval)
  have inv: "arena_inv w_arena" by (simp add: w arena_inv_def alloc_end_def size_max_def)
  obtain st na' s' where r: "Allocate 4 6 1 1 3 alloc_reset w_arena = (st, na', s')" by (metis prod_cases3)
  have "arena_inv s'"
    using arena_allocate_no_overlap [OF inv _ _ _ _ r] by (simp add: w new_arena_def new_buffer_def size_max_def)
  moreover have "al_offset na' = 12"
    using r by (auto simp: w arena_eval)
  ultimately show ?thesis using inv r by simp
qed

text \<open>
  A whole plan: from a fresh arena every list of requests whose sizes (each with its
  alignment slack) fit the address space is placed, two placed tensors used at the same time never
  share a byte, and after \<open>Commit\<close> every one of them resolves, inside the committed buffer.
\<close>

lemma arena_plan_commit_resolve:
  assumes "0 < al" and "al \<le> arena_alignment"
    and "sum_list (map (\<lambda>r. al + fst r) rs) < size_max"
    and "request_all (arena_place al) rs (new_arena arena_alignment) = (st, as, s)"
    and "Commit m s = (st', moved, s')"
  shows "st = kTfLiteOk \<and> st' = kTfLiteOk \<and> length as = length rs \<and> sorted_wrt alloc_compatible as \<and>
    (\<forall>a\<in>set as. al dvd al_offset a \<and> alloc_end a \<le> GetBufferSize s' \<and>
       ResolveAlloc a s' = (kTfLiteOk, Some (if al_size a = 0 then 0 else size_add (BasePointer s') (al_offset a))))"
proof -
  have start: "aligned_arena_inv al (new_arena arena_alignment)"
    using assms(1,2) arena_inv_new [of arena_alignment]
    by (simp add: aligned_arena_inv_def) (simp add: new_arena_def new_buffer_def)
  have "high_water_mark (new_arena arena_alignment) = 0" by (simp add: new_arena_def)
  note run = arena.request_all_law [OF start _ assms(4), unfolded this] assms(3)
  then have run': "st = kTfLiteOk" "aligned_arena_inv al s" "length as = length rs"
    "\<forall>a\<in>set as. alloc_fits al s a" "sorted_wrt alloc_compatible as" "high_water_mark s < size_max"
    by (auto simp: aligned_arena_inv_def arena_inv_def)
  note com = Commit_size [OF assms(5)]
  have "data_size (underlying_buffer s') < size_mod"
    using assms(5) run'(2,6)
    by (auto simp: Commit_def Resize_def aligned_arena_inv_def size_max_def split: prod.splits if_splits)
  then show ?thesis
    using run' com ResolveAlloc_ok [of s']
    by (auto simp: alloc_fits_def GetBufferSize_def BasePointer_def)
qed

text \<open>A concrete allocator: the block is at address 4096 and zeroed.\<close>

definition zero_alloc :: "nat \<Rightarrow> nat \<Rightarrow> nat \<times> byte list" where
  "zero_alloc al n = (4096, replicate n 0)"

lemma arena_plan_commit_resolve_witness:
  "\<exists>as s s'. request_all (arena_place 4) [(10, 0, 0, 2), (6, 1, 1, 3), (8, 2, 3, 4)] (new_arena 64) = (kTfLiteOk, as, s) \<and>
     Commit zero_alloc s = (kTfLiteOk, True, s') \<and> map al_offset as = [0, 12, 0] \<and>
     sorted_wrt alloc_compatible as"
proof -
  let ?rs = "[(10, 0, 0, 2), (6, 1, 1, 3), (8, 2, 3, 4)] :: (nat \<times> int \<times> int \<times> int) list"
  obtain st as s where r: "request_all (arena_place 4) ?rs (new_arena 64) = (st, as, s)" by (metis prod_cases3)
  obtain st' moved s' where c: "Commit zero_alloc s = (st', moved, s')" by (metis prod_cases3)
  have "st = kTfLiteOk \<and> st' = kTfLiteOk \<and> sorted_wrt alloc_compatible as"
    using arena_plan_commit_resolve [OF _ _ _ r c] by (simp add: size_max_def)
  moreover have "map al_offset as = [0, 12, 0]" and "moved = True"
    using r c by (auto simp: arena_place_def alloc_less_def Commit_def Resize_def AlignedRealloc_def AlignedAlloc_def
        zero_alloc_def AlignedAlloc_size_def arena_eval)
  ultimately show ?thesis using r c by auto
qed

text \<open>
  Growing the aligned buffer keeps its contents: after \<open>Resize\<close> to a larger size the old bytes are
  the prefix of the new ones, the buffer has the new size and is backed by a block, and the call reports a move
  whenever the aligned pointer changed.
\<close>

lemma buffer_resize_keeps_data:
  assumes "allocator_ok m" and "buffer_ok b" and "0 < alignment b" and "data_size b < n"
    and "n + 2 * alignment b < size_mod" and "Resize m n b = (moved, b')"
  shows "buffer_ok b' \<and> data_size b' = n \<and> take (data_size b) (buf_bytes b') = buf_bytes b \<and>
    (moved \<longleftrightarrow> buf_aligned_pointer b' \<noteq> buf_aligned_pointer b)"
proof -
  have "moved \<longleftrightarrow> buf_aligned_pointer b' \<noteq> buf_aligned_pointer b"
    using assms(4,6) by (auto simp: Resize_def split: prod.splits)
  then show ?thesis using Resize_grow [OF assms(1-5)] assms(6) by simp
qed

lemma buffer_resize_keeps_data_witness:
  "Resize zero_alloc 3 (snd (Resize zero_alloc 1 (new_buffer 64))) =
     (False, \<lparr>buf_pointer = 4096, buf_aligned_pointer = 4096, buf_bytes = [0, 0, 0], data_size = 3, alignment = 64\<rparr>) \<and>
   buffer_ok (snd (Resize zero_alloc 3 (snd (Resize zero_alloc 1 (new_buffer 64)))))"
proof -
  let ?b = "\<lparr>buf_pointer = 4096, buf_aligned_pointer = 4096, buf_bytes = [0], data_size = 1, alignment = 64\<rparr>"
  have b: "Resize zero_alloc 1 (new_buffer 64) = (True, ?b)"
    by (simp add: Resize_def AlignedRealloc_def AlignedAlloc_def zero_alloc_def AlignedAlloc_size_def arena_eval)
  have three: "replicate 2 (0::byte) = [0, 0]" by (simp add: numeral_eq_Suc)
  have b': "Resize zero_alloc 3 ?b =
     (False, \<lparr>buf_pointer = 4096, buf_aligned_pointer = 4096, buf_bytes = [0, 0, 0], data_size = 3, alignment = 64\<rparr>)"
    by (simp add: Resize_def AlignedRealloc_def AlignedAlloc_def zero_alloc_def AlignedAlloc_size_def arena_eval
        three)
  have "allocator_ok zero_alloc" "buffer_ok ?b"
    by (simp_all add: allocator_ok_def zero_alloc_def buffer_ok_def)
  from buffer_resize_keeps_data [OF this _ _ _ b'] show ?thesis unfolding b snd_conv b' by simp
qed

end
