(* ===== verification/Tensor.thy ===== *)
theory Tensor
  imports Prelude
begin

text \<open>
  Tensors and their memory: \<open>lite/core/c/common.cc\<close> (owned arrays, freeing, cloning, copying and
  resizing of tensors, the classification of allocation types), the size computation of
  \<open>lite/util.cc\<close> and the buffer accessors of \<open>lite/core/c/c_api.cc\<close>.
  The C heap is explicit: a map from addresses to blocks, with a flag that records an invalid free.
  What the C library answers to a request of \<open>n\<close> bytes is a parameter \<open>mem\<close>: \<open>None\<close> for the null
  pointer, \<open>Some\<close> of the block's first contents otherwise.
\<close>

section \<open>The C heap\<close>

record heap =
  hp_blocks :: "nat \<Rightarrow> byte list option"
  hp_next :: nat
  hp_bad :: bool

definition empty_heap :: heap where
  "empty_heap = \<lparr>hp_blocks = (\<lambda>_. None), hp_next = 1, hp_bad = False\<rparr>"

definition malloc :: "(nat \<Rightarrow> byte list option) \<Rightarrow> nat \<Rightarrow> heap \<Rightarrow> nat \<times> heap" where
  "malloc mem n h = (case mem n of
     None \<Rightarrow> (0, h)
   | Some bs \<Rightarrow> (hp_next h, h\<lparr>hp_blocks := (hp_blocks h)(hp_next h := Some bs), hp_next := Suc (hp_next h)\<rparr>))"

definition free :: "nat \<Rightarrow> heap \<Rightarrow> heap" where
  "free p h = (if p = 0 then h
     else if hp_blocks h p = None then h\<lparr>hp_bad := True\<rparr>
     else h\<lparr>hp_blocks := (hp_blocks h)(p := None)\<rparr>)"

definition realloc :: "(nat \<Rightarrow> byte list option) \<Rightarrow> nat \<Rightarrow> nat \<Rightarrow> heap \<Rightarrow> nat \<times> heap" where
  "realloc mem p n h = (case hp_blocks h p of
     None \<Rightarrow> (0, h\<lparr>hp_bad := True\<rparr>)
   | Some old \<Rightarrow> (case mem n of
       None \<Rightarrow> (0, h)
     | Some bs \<Rightarrow>
        (hp_next h,
         free p (h\<lparr>hp_blocks := (hp_blocks h)(hp_next h := Some (take n old @ drop (length old) bs)),
                   hp_next := Suc (hp_next h)\<rparr>))))"

text \<open>\<open>memcpy\<close> of \<open>n\<close> bytes between blocks; an access outside a live block is flagged.\<close>

definition memcpy :: "nat \<Rightarrow> nat \<Rightarrow> nat \<Rightarrow> heap \<Rightarrow> heap" where
  "memcpy dst src n h = (case (hp_blocks h dst, hp_blocks h src) of
     (Some d, Some s) \<Rightarrow>
       (if n \<le> length d \<and> n \<le> length s
        then h\<lparr>hp_blocks := (hp_blocks h)(dst := Some (take n s @ drop n d))\<rparr>
        else h\<lparr>hp_bad := True\<rparr>)
   | _ \<Rightarrow> (if n = 0 then h else h\<lparr>hp_bad := True\<rparr>))"

section \<open>Integer arrays\<close>

text \<open>
  A \<open>TfLiteIntArray*\<close> is \<open>None\<close> for null and the list of its elements otherwise. The size in bytes is
  computed in \<open>size_t\<close> from a signed element count, 4 bytes of header and 4 bytes an element.
\<close>

definition TfLiteIntArrayGetSizeInBytes :: "int \<Rightarrow> nat" where
  "TfLiteIntArrayGetSizeInBytes n = size_add 4 (size_mul 4 (size_of_int n))"

definition TfLiteIntArrayEqualsArray :: "int list option \<Rightarrow> int \<Rightarrow> int list \<Rightarrow> bool" where
  "TfLiteIntArrayEqualsArray a b_size b_data = (case a of
     None \<Rightarrow> b_size = 0
   | Some xs \<Rightarrow> (if int (length xs) \<noteq> b_size then False else xs = take (length xs) b_data))"

text \<open>The pointer comparison that goes first makes two null arrays equal; equal pointers have equal contents.\<close>

definition TfLiteIntArrayEqual :: "int list option \<Rightarrow> int list option \<Rightarrow> bool" where
  "TfLiteIntArrayEqual a b = (case (a, b) of
     (None, None) \<Rightarrow> True
   | (Some xs, Some ys) \<Rightarrow> TfLiteIntArrayEqualsArray a (int (length ys)) ys
   | _ \<Rightarrow> False)"

definition TfLiteIntArrayCreate :: "(nat \<Rightarrow> bool) \<Rightarrow> (nat \<Rightarrow> int) \<Rightarrow> int \<Rightarrow> int list option" where
  "TfLiteIntArrayCreate malloc_ok junk n =
     (let alloc_size = TfLiteIntArrayGetSizeInBytes n
      in if alloc_size \<le> 0 then None
         else if \<not> malloc_ok alloc_size then None
         else Some (map junk [0..<nat n]))"

definition TfLiteIntArrayCopy :: "(nat \<Rightarrow> bool) \<Rightarrow> int list option \<Rightarrow> int list option" where
  "TfLiteIntArrayCopy malloc_ok src = (case src of
     None \<Rightarrow> None
   | Some xs \<Rightarrow> (case TfLiteIntArrayCreate malloc_ok (\<lambda>_. 0) (int (length xs)) of
       None \<Rightarrow> None
     | Some _ \<Rightarrow> Some xs))"

section \<open>Tensors\<close>

text \<open>
  Floats are only copied here: a \<open>float\<close> is its 32-bit pattern. Quantization and sparsity are owned
  values; \<open>data\<close>, \<open>allocation\<close>, \<open>delegate\<close> are addresses, 0 for null.
\<close>

type_synonym float32 = "32 word"

record TfLiteQuantizationParams =
  qp_scale :: float32
  qp_zero_point :: int

datatype TfLiteQuantization =
    kTfLiteNoQuantization
  | kTfLiteAffineQuantization "float32 list option" "int list option" int
  | kTfLiteBlockwiseQuantization int int int int

text \<open>The format of a dimension is dense or compressed; arrays that are not set are null.\<close>

datatype TfLiteDimensionType = kTfLiteDimDense | kTfLiteDimSparseCSR

record TfLiteDimensionMetadata =
  dm_format :: TfLiteDimensionType
  dm_dense_size :: int
  dm_array_segments :: "int list option"
  dm_array_indices :: "int list option"

record TfLiteSparsity =
  sp_traversal_order :: "int list option"
  sp_block_map :: "int list option"
  sp_dim_metadata :: "TfLiteDimensionMetadata list"

record TfLiteTensor =
  t_type :: TfLiteType
  t_data :: nat
  t_dims :: "int list option"
  t_params :: TfLiteQuantizationParams
  t_allocation_type :: TfLiteAllocationType
  t_bytes :: nat
  t_allocation :: nat
  t_name :: string
  t_delegate :: nat
  t_buffer_handle :: int
  t_data_is_stale :: bool
  t_is_variable :: bool
  t_quantization :: TfLiteQuantization
  t_sparsity :: "TfLiteSparsity option"
  t_dims_signature :: "int list option"

definition TfLiteTensorDataFree :: "TfLiteTensor \<Rightarrow> heap \<Rightarrow> TfLiteTensor \<times> heap" where
  "TfLiteTensorDataFree t h =
     (let h' = (if t_allocation_type t = kTfLiteVariantObject \<and> t_data t \<noteq> 0 then free (t_data t) h
                else if t_allocation_type t = kTfLiteDynamic \<or> t_allocation_type t = kTfLitePersistentRo
                then (if t_data t \<noteq> 0 then free (t_data t) h else h)
                else h)
      in (t\<lparr>t_data := 0\<rparr>, h'))"

definition TfLiteTensorFree :: "TfLiteTensor \<Rightarrow> heap \<Rightarrow> TfLiteTensor \<times> heap" where
  "TfLiteTensorFree t h =
     (let (t1, h1) = TfLiteTensorDataFree t h
      in (t1\<lparr>t_dims := None, t_dims_signature := None, t_quantization := kTfLiteNoQuantization,
             t_sparsity := None\<rparr>, h1))"

definition TfLiteTensorReset ::
    "TfLiteType \<Rightarrow> string \<Rightarrow> int list option \<Rightarrow> TfLiteQuantizationParams \<Rightarrow> nat \<Rightarrow> nat \<Rightarrow>
     TfLiteAllocationType \<Rightarrow> nat \<Rightarrow> bool \<Rightarrow> TfLiteTensor \<Rightarrow> heap \<Rightarrow> TfLiteTensor \<times> heap" where
  "TfLiteTensorReset type name dims quantization buffer sz allocation_type allocation is_variable t h =
     (let (t1, h1) = TfLiteTensorFree t h
      in (t1\<lparr>t_type := type, t_name := name, t_dims := dims, t_params := quantization, t_data := buffer,
             t_bytes := sz, t_allocation_type := allocation_type, t_allocation := allocation,
             t_is_variable := is_variable, t_quantization := kTfLiteNoQuantization\<rparr>, h1))"

datatype TfLiteAllocationStrategy =
    kTfLiteAllocationStrategyUnknown
  | kTfLiteAllocationStrategyNone
  | kTfLiteAllocationStrategyMMap
  | kTfLiteAllocationStrategyArena
  | kTfLiteAllocationStrategyMalloc
  | kTfLiteAllocationStrategyNew

datatype TfLiteRunStability =
    kTfLiteRunStabilityUnknown
  | kTfLiteRunStabilityUnstable
  | kTfLiteRunStabilitySingleRun
  | kTfLiteRunStabilityAcrossRuns

datatype TfLiteRunStep =
    kTfLiteRunStepUnknown
  | kTfLiteRunStepInit
  | kTfLiteRunStepPrepare
  | kTfLiteRunStepEval

fun TfLiteTensorGetAllocationStrategy :: "TfLiteAllocationType \<Rightarrow> TfLiteAllocationStrategy" where
  "TfLiteTensorGetAllocationStrategy kTfLiteMemNone = kTfLiteAllocationStrategyNone"
| "TfLiteTensorGetAllocationStrategy kTfLiteMmapRo = kTfLiteAllocationStrategyMMap"
| "TfLiteTensorGetAllocationStrategy kTfLiteArenaRw = kTfLiteAllocationStrategyArena"
| "TfLiteTensorGetAllocationStrategy kTfLiteArenaRwPersistent = kTfLiteAllocationStrategyArena"
| "TfLiteTensorGetAllocationStrategy kTfLiteDynamic = kTfLiteAllocationStrategyMalloc"
| "TfLiteTensorGetAllocationStrategy kTfLitePersistentRo = kTfLiteAllocationStrategyMalloc"
| "TfLiteTensorGetAllocationStrategy kTfLiteCustom = kTfLiteAllocationStrategyUnknown"
| "TfLiteTensorGetAllocationStrategy kTfLiteVariantObject = kTfLiteAllocationStrategyNew"
| "TfLiteTensorGetAllocationStrategy kTfLiteNonCpu = kTfLiteAllocationStrategyUnknown"

fun TfLiteTensorGetBufferAddressStability :: "TfLiteAllocationType \<Rightarrow> TfLiteRunStability" where
  "TfLiteTensorGetBufferAddressStability kTfLiteMemNone = kTfLiteRunStabilityAcrossRuns"
| "TfLiteTensorGetBufferAddressStability kTfLiteMmapRo = kTfLiteRunStabilityAcrossRuns"
| "TfLiteTensorGetBufferAddressStability kTfLiteArenaRw = kTfLiteRunStabilityUnstable"
| "TfLiteTensorGetBufferAddressStability kTfLiteArenaRwPersistent = kTfLiteRunStabilityUnstable"
| "TfLiteTensorGetBufferAddressStability kTfLiteDynamic = kTfLiteRunStabilitySingleRun"
| "TfLiteTensorGetBufferAddressStability kTfLitePersistentRo = kTfLiteRunStabilitySingleRun"
| "TfLiteTensorGetBufferAddressStability kTfLiteCustom = kTfLiteRunStabilityUnknown"
| "TfLiteTensorGetBufferAddressStability kTfLiteVariantObject = kTfLiteRunStabilityAcrossRuns"
| "TfLiteTensorGetBufferAddressStability kTfLiteNonCpu = kTfLiteRunStabilityUnknown"

fun TfLiteTensorGetDataStability :: "TfLiteAllocationType \<Rightarrow> TfLiteRunStability" where
  "TfLiteTensorGetDataStability kTfLiteMemNone = kTfLiteRunStabilityAcrossRuns"
| "TfLiteTensorGetDataStability kTfLiteMmapRo = kTfLiteRunStabilityAcrossRuns"
| "TfLiteTensorGetDataStability kTfLiteArenaRw = kTfLiteRunStabilitySingleRun"
| "TfLiteTensorGetDataStability kTfLiteArenaRwPersistent = kTfLiteRunStabilityAcrossRuns"
| "TfLiteTensorGetDataStability kTfLiteDynamic = kTfLiteRunStabilitySingleRun"
| "TfLiteTensorGetDataStability kTfLitePersistentRo = kTfLiteRunStabilitySingleRun"
| "TfLiteTensorGetDataStability kTfLiteCustom = kTfLiteRunStabilityUnknown"
| "TfLiteTensorGetDataStability kTfLiteVariantObject = kTfLiteRunStabilitySingleRun"
| "TfLiteTensorGetDataStability kTfLiteNonCpu = kTfLiteRunStabilityUnknown"

fun TfLiteTensorGetDataKnownStep :: "TfLiteAllocationType \<Rightarrow> TfLiteRunStep" where
  "TfLiteTensorGetDataKnownStep kTfLiteMemNone = kTfLiteRunStepInit"
| "TfLiteTensorGetDataKnownStep kTfLiteMmapRo = kTfLiteRunStepInit"
| "TfLiteTensorGetDataKnownStep kTfLiteArenaRw = kTfLiteRunStepEval"
| "TfLiteTensorGetDataKnownStep kTfLiteArenaRwPersistent = kTfLiteRunStepEval"
| "TfLiteTensorGetDataKnownStep kTfLiteDynamic = kTfLiteRunStepEval"
| "TfLiteTensorGetDataKnownStep kTfLitePersistentRo = kTfLiteRunStepPrepare"
| "TfLiteTensorGetDataKnownStep kTfLiteCustom = kTfLiteRunStepUnknown"
| "TfLiteTensorGetDataKnownStep kTfLiteVariantObject = kTfLiteRunStepEval"
| "TfLiteTensorGetDataKnownStep kTfLiteNonCpu = kTfLiteRunStepUnknown"

fun TfLiteTensorGetShapeKnownStep :: "TfLiteAllocationType \<Rightarrow> TfLiteRunStep" where
  "TfLiteTensorGetShapeKnownStep kTfLiteMemNone = kTfLiteRunStepInit"
| "TfLiteTensorGetShapeKnownStep kTfLiteMmapRo = kTfLiteRunStepInit"
| "TfLiteTensorGetShapeKnownStep kTfLiteArenaRw = kTfLiteRunStepPrepare"
| "TfLiteTensorGetShapeKnownStep kTfLiteArenaRwPersistent = kTfLiteRunStepPrepare"
| "TfLiteTensorGetShapeKnownStep kTfLiteDynamic = kTfLiteRunStepEval"
| "TfLiteTensorGetShapeKnownStep kTfLitePersistentRo = kTfLiteRunStepPrepare"
| "TfLiteTensorGetShapeKnownStep kTfLiteCustom = kTfLiteRunStepUnknown"
| "TfLiteTensorGetShapeKnownStep kTfLiteVariantObject = kTfLiteRunStepEval"
| "TfLiteTensorGetShapeKnownStep kTfLiteNonCpu = kTfLiteRunStepUnknown"

text \<open>
  The clone of block-wise parameters has \<open>quantized_dimension\<close> 0: the structure is zeroed and the field is not copied.
\<close>

definition TfLiteFloatArrayCopy :: "(nat \<Rightarrow> bool) \<Rightarrow> float32 list option \<Rightarrow> float32 list option" where
  "TfLiteFloatArrayCopy malloc_ok src = (case src of
     None \<Rightarrow> None
   | Some xs \<Rightarrow> (if malloc_ok (TfLiteIntArrayGetSizeInBytes (int (length xs))) then Some xs else None))"

definition TfLiteQuantizationClone :: "(nat \<Rightarrow> bool) \<Rightarrow> TfLiteQuantization \<Rightarrow> TfLiteQuantization" where
  "TfLiteQuantizationClone malloc_ok src = (case src of
     kTfLiteNoQuantization \<Rightarrow> kTfLiteNoQuantization
   | kTfLiteAffineQuantization scale zero_point quantized_dimension \<Rightarrow>
       kTfLiteAffineQuantization (TfLiteFloatArrayCopy malloc_ok scale) (TfLiteIntArrayCopy malloc_ok zero_point) quantized_dimension
   | kTfLiteBlockwiseQuantization scale zero_point blocksize quantized_dimension \<Rightarrow>
       kTfLiteBlockwiseQuantization scale zero_point blocksize 0)"

definition TfLiteSparsityClone :: "(nat \<Rightarrow> bool) \<Rightarrow> TfLiteSparsity \<Rightarrow> TfLiteSparsity" where
  "TfLiteSparsityClone malloc_ok src =
     \<lparr>sp_traversal_order = TfLiteIntArrayCopy malloc_ok (sp_traversal_order src),
      sp_block_map = TfLiteIntArrayCopy malloc_ok (sp_block_map src),
      sp_dim_metadata = map (\<lambda>m. m\<lparr>dm_array_segments := TfLiteIntArrayCopy malloc_ok (dm_array_segments m),
        dm_array_indices := TfLiteIntArrayCopy malloc_ok (dm_array_indices m)\<rparr>) (sp_dim_metadata src)\<rparr>"

text \<open>
  Cloning copies the owned data. \<open>CloneTo src dst\<close> is the virtual method of variant objects, whose
  classes are the clients'; it returns the address of the clone.
\<close>

definition TfLiteTensorClone ::
    "(nat \<Rightarrow> byte list option) \<Rightarrow> (nat \<Rightarrow> bool) \<Rightarrow> (nat \<Rightarrow> nat \<Rightarrow> heap \<Rightarrow> nat \<times> heap) \<Rightarrow>
     TfLiteTensor \<Rightarrow> heap \<Rightarrow> TfLiteTensor \<times> heap" where
  "TfLiteTensorClone mem malloc_ok CloneTo src h =
     (let (dst, h1) =
        (if t_data src = 0 then (src, h)
         else (case TfLiteTensorGetAllocationStrategy (t_allocation_type src) of
             kTfLiteAllocationStrategyUnknown \<Rightarrow> (src, h)
           | kTfLiteAllocationStrategyNone \<Rightarrow> (src, h)
           | kTfLiteAllocationStrategyMMap \<Rightarrow> (src, h)
           | kTfLiteAllocationStrategyArena \<Rightarrow> (src, h)
           | kTfLiteAllocationStrategyMalloc \<Rightarrow>
               (let (p, h') = malloc mem (t_bytes src) h
                in (src\<lparr>t_data := p\<rparr>, memcpy p (t_data src) (t_bytes src) h'))
           | kTfLiteAllocationStrategyNew \<Rightarrow>
               (if t_allocation_type src = kTfLiteVariantObject
                then (let (p, h') = CloneTo (t_data src) 0 h in (src\<lparr>t_data := p\<rparr>, h'))
                else (let (p, h') = malloc mem (t_bytes src) h
                      in (src\<lparr>t_data := p\<rparr>, memcpy p (t_data src) (t_bytes src) h')))))
      in (dst\<lparr>t_dims := TfLiteIntArrayCopy malloc_ok (t_dims src),
              t_dims_signature := TfLiteIntArrayCopy malloc_ok (t_dims_signature src),
              t_quantization := TfLiteQuantizationClone malloc_ok (t_quantization src),
              t_sparsity := map_option (TfLiteSparsityClone malloc_ok) (t_sparsity src)\<rparr>, h1))"

text \<open>
  \<open>TfLiteTensorCopy\<close> on two distinct non-null tensors; copying a tensor to itself or with a null
  pointer returns \<open>kTfLiteOk\<close> and does nothing.
\<close>

definition TfLiteTensorCopy ::
    "(nat \<Rightarrow> bool) \<Rightarrow> (nat \<Rightarrow> nat \<Rightarrow> heap \<Rightarrow> nat \<times> heap) \<Rightarrow> TfLiteTensor \<Rightarrow> TfLiteTensor \<Rightarrow> heap \<Rightarrow>
     TfLiteStatus \<times> TfLiteTensor \<times> heap" where
  "TfLiteTensorCopy malloc_ok CloneTo src dst h =
     (if t_bytes src \<noteq> t_bytes dst then (kTfLiteError, dst, h)
      else
        (let dst1 = dst\<lparr>t_type := t_type src, t_dims := TfLiteIntArrayCopy malloc_ok (t_dims src)\<rparr>;
             (dst2, h2) =
               (if t_allocation_type src = kTfLiteVariantObject
                then (let (d, h1) = (if t_allocation_type dst1 \<noteq> kTfLiteVariantObject
                                     then (let (d1, h1) = TfLiteTensorDataFree dst1 h
                                           in (d1\<lparr>t_allocation_type := kTfLiteVariantObject\<rparr>, h1))
                                     else (dst1, h));
                          (p, h2) = CloneTo (t_data src) (t_data d) h1
                      in (d\<lparr>t_data := p\<rparr>, h2))
                else (dst1, memcpy (t_data dst1) (t_data src) (t_bytes src) h))
         in (kTfLiteOk,
             dst2\<lparr>t_buffer_handle := t_buffer_handle src, t_data_is_stale := t_data_is_stale src,
                  t_delegate := t_delegate src\<rparr>, h2)))"

definition TfLiteTensorResizeMaybeCopy ::
    "(nat \<Rightarrow> byte list option) \<Rightarrow> nat \<Rightarrow> bool \<Rightarrow> TfLiteTensor \<Rightarrow> heap \<Rightarrow> TfLiteStatus \<times> TfLiteTensor \<times> heap" where
  "TfLiteTensorResizeMaybeCopy mem num_bytes preserve_data t h =
     (if t_allocation_type t \<noteq> kTfLiteDynamic \<and> t_allocation_type t \<noteq> kTfLitePersistentRo
      then (kTfLiteOk, t, h)
      else
        (let alloc_bytes = size_add num_bytes 16;
             (p, h1) =
               (if t_data t = 0 then malloc mem alloc_bytes h
                else if t_bytes t < num_bytes
                     then (if preserve_data then realloc mem (t_data t) alloc_bytes h
                           else malloc mem alloc_bytes (free (t_data t) h))
                else (t_data t, h));
             t1 = t\<lparr>t_data := p, t_bytes := num_bytes\<rparr>
         in if p = 0 \<and> num_bytes \<noteq> 0 then (kTfLiteError, t1, h1) else (kTfLiteOk, t1, h1)))"

definition TfLiteTensorRealloc ::
    "(nat \<Rightarrow> byte list option) \<Rightarrow> nat \<Rightarrow> TfLiteTensor \<Rightarrow> heap \<Rightarrow> TfLiteStatus \<times> TfLiteTensor \<times> heap" where
  "TfLiteTensorRealloc mem num_bytes t h = TfLiteTensorResizeMaybeCopy mem num_bytes True t h"

definition TfLiteTensorGetDimsSignature :: "TfLiteTensor \<Rightarrow> int list option" where
  "TfLiteTensorGetDimsSignature t = (case t_dims_signature t of
     None \<Rightarrow> t_dims t
   | Some xs \<Rightarrow> (if length xs \<noteq> 0 then Some xs else t_dims t))"

fun TfLiteTypeGetName :: "TfLiteType \<Rightarrow> string" where
  "TfLiteTypeGetName kTfLiteNoType = ''NOTYPE''"
| "TfLiteTypeGetName kTfLiteFloat32 = ''FLOAT32''"
| "TfLiteTypeGetName kTfLiteUInt16 = ''UINT16''"
| "TfLiteTypeGetName kTfLiteInt16 = ''INT16''"
| "TfLiteTypeGetName kTfLiteInt32 = ''INT32''"
| "TfLiteTypeGetName kTfLiteUInt32 = ''UINT32''"
| "TfLiteTypeGetName kTfLiteUInt8 = ''UINT8''"
| "TfLiteTypeGetName kTfLiteInt8 = ''INT8''"
| "TfLiteTypeGetName kTfLiteInt64 = ''INT64''"
| "TfLiteTypeGetName kTfLiteUInt64 = ''UINT64''"
| "TfLiteTypeGetName kTfLiteBool = ''BOOL''"
| "TfLiteTypeGetName kTfLiteComplex64 = ''COMPLEX64''"
| "TfLiteTypeGetName kTfLiteComplex128 = ''COMPLEX128''"
| "TfLiteTypeGetName kTfLiteString = ''STRING''"
| "TfLiteTypeGetName kTfLiteFloat16 = ''FLOAT16''"
| "TfLiteTypeGetName kTfLiteBFloat16 = ''BFLOAT16''"
| "TfLiteTypeGetName kTfLiteFloat64 = ''FLOAT64''"
| "TfLiteTypeGetName kTfLiteResource = ''RESOURCE''"
| "TfLiteTypeGetName kTfLiteVariant = ''VARIANT''"
| "TfLiteTypeGetName kTfLiteInt4 = ''INT4''"
| "TfLiteTypeGetName kTfLiteInt2 = ''INT2''"
| "TfLiteTypeGetName kTfLiteUInt4 = ''UINT4''"

section \<open>Sizes\<close>

fun GetSizeOfType :: "TfLiteType \<Rightarrow> nat option" where
  "GetSizeOfType kTfLiteFloat32 = Some 4"
| "GetSizeOfType kTfLiteInt32 = Some 4"
| "GetSizeOfType kTfLiteUInt32 = Some 4"
| "GetSizeOfType kTfLiteUInt8 = Some 1"
| "GetSizeOfType kTfLiteInt64 = Some 8"
| "GetSizeOfType kTfLiteUInt64 = Some 8"
| "GetSizeOfType kTfLiteBool = Some 1"
| "GetSizeOfType kTfLiteComplex64 = Some 8"
| "GetSizeOfType kTfLiteComplex128 = Some 16"
| "GetSizeOfType kTfLiteUInt16 = Some 2"
| "GetSizeOfType kTfLiteInt16 = Some 2"
| "GetSizeOfType kTfLiteInt8 = Some 1"
| "GetSizeOfType kTfLiteFloat16 = Some 2"
| "GetSizeOfType kTfLiteBFloat16 = Some 2"
| "GetSizeOfType kTfLiteFloat64 = Some 8"
| "GetSizeOfType kTfLiteUInt4 = Some 1"
| "GetSizeOfType kTfLiteInt4 = Some 1"
| "GetSizeOfType kTfLiteInt2 = Some 1"
| "GetSizeOfType _ = None"

text \<open>The product is written before the check; only the status tells whether it overflowed.\<close>

definition MultiplyAndCheckOverflow :: "nat \<Rightarrow> nat \<Rightarrow> TfLiteStatus \<times> nat" where
  "MultiplyAndCheckOverflow a b =
     (let product = size_mul a b
      in if drop_bit 32 (or a b) \<noteq> 0
         then (if a \<noteq> 0 \<and> product div a \<noteq> b then (kTfLiteError, product) else (kTfLiteOk, product))
         else (kTfLiteOk, product))"

fun count_elements :: "int list \<Rightarrow> nat \<Rightarrow> nat option" where
  "count_elements [] count = Some count"
| "count_elements (d # ds) count =
     (case MultiplyAndCheckOverflow count (size_of_int d) of (st, count') \<Rightarrow>
        if st = kTfLiteOk then count_elements ds count' else None)"

definition BytesRequired :: "TfLiteType \<Rightarrow> int list \<Rightarrow> nat option" where
  "BytesRequired type dims =
     (case count_elements dims 1 of
        None \<Rightarrow> None
      | Some count \<Rightarrow> (case GetSizeOfType type of
          None \<Rightarrow> None
        | Some type_size \<Rightarrow> (case MultiplyAndCheckOverflow type_size count of (st, bytes) \<Rightarrow>
            if st \<noteq> kTfLiteOk then None
            else if type = kTfLiteInt4 \<or> type = kTfLiteUInt4 then Some (size_add bytes 1 div 2)
            else if type = kTfLiteInt2 then Some (size_add bytes 3 div 4)
            else Some bytes)))"

definition EqualArrayAndTfLiteIntArray :: "int list option \<Rightarrow> int \<Rightarrow> int list \<Rightarrow> bool" where
  "EqualArrayAndTfLiteIntArray a b_size b = (case a of
     None \<Rightarrow> False
   | Some xs \<Rightarrow> (if int (length xs) \<noteq> b_size then False else list_all2 (=) xs (take (length xs) b)))"

definition IsResourceOrVariant :: "TfLiteTensor \<Rightarrow> bool" where
  "IsResourceOrVariant t \<longleftrightarrow> t_type t = kTfLiteResource \<or> t_type t = kTfLiteVariant"

section \<open>Buffer accessors of the C API\<close>

definition TfLiteTensorByteSize :: "TfLiteTensor \<Rightarrow> nat" where
  "TfLiteTensorByteSize t = t_bytes t"

definition TfLiteTensorData :: "TfLiteTensor \<Rightarrow> nat" where
  "TfLiteTensorData t = t_data t"

definition TfLiteTensorNumDims :: "TfLiteTensor \<Rightarrow> int" where
  "TfLiteTensorNumDims t = (case t_dims t of None \<Rightarrow> -1 | Some xs \<Rightarrow> int (length xs))"

definition TfLiteTensorCopyFromBuffer :: "TfLiteTensor \<Rightarrow> nat \<Rightarrow> nat \<Rightarrow> heap \<Rightarrow> TfLiteStatus \<times> heap" where
  "TfLiteTensorCopyFromBuffer t input_data input_data_size h =
     (if t_bytes t \<noteq> input_data_size then (kTfLiteError, h)
      else (kTfLiteOk, memcpy (t_data t) input_data input_data_size h))"

definition TfLiteTensorCopyToBuffer :: "TfLiteTensor \<Rightarrow> nat \<Rightarrow> nat \<Rightarrow> heap \<Rightarrow> TfLiteStatus \<times> heap" where
  "TfLiteTensorCopyToBuffer t output_data output_data_size h =
     (if t_bytes t \<noteq> output_data_size then (kTfLiteError, h)
      else (kTfLiteOk, memcpy output_data (t_data t) output_data_size h))"

section \<open>Specification of the sizes\<close>

text \<open>The bits of an element, of which several share a byte in the packed types, and the bytes that so many elements need.\<close>

definition element_bits :: "TfLiteType \<Rightarrow> nat option" where
  "element_bits type =
     (if type = kTfLiteInt4 \<or> type = kTfLiteUInt4 then Some 4 else if type = kTfLiteInt2 then Some 2
      else map_option (\<lambda>w. 8 * w) (GetSizeOfType type))"

definition packed_bytes :: "nat \<Rightarrow> nat \<Rightarrow> nat" where
  "packed_bytes bits n = (bits * n + 7) div 8"

lemma packed_bytes_least: "bits * n \<le> 8 * packed_bytes bits n" "bits * n \<le> 8 * b \<Longrightarrow> packed_bytes bits n \<le> b"
  by (simp_all add: packed_bytes_def)

text \<open>The number of elements of a packed type for which rounding up leaves the range of \<open>size_t\<close>.\<close>

definition rounding_wraps :: "nat \<Rightarrow> nat \<Rightarrow> bool" where
  "rounding_wraps bits n \<longleftrightarrow> bits < 8 \<and> size_mod \<le> n + (8 div bits - 1)"

definition prefix_products_fit :: "int list \<Rightarrow> bool" where
  "prefix_products_fit dims \<longleftrightarrow> (\<forall>k\<le>length dims. prod_list (map size_of_int (take k dims)) < size_mod)"

section \<open>Overflow check of the product\<close>

lemma or_high_bits:
  "drop_bit 32 (or a b) = (0::nat) \<longleftrightarrow> a < 4294967296 \<and> b < 4294967296"
proof -
  have "drop_bit 32 (or a b) = 0 \<longleftrightarrow> drop_bit 32 a = 0 \<and> drop_bit 32 b = 0"
    by (auto simp: bit_eq_iff bit_simps)
  then show ?thesis by (simp add: drop_bit_eq_div div_eq_0_iff)
qed

lemma MultiplyAndCheckOverflow_iff:
  assumes "a < size_mod" and "b < size_mod"
  shows "MultiplyAndCheckOverflow a b =
    (if a * b < size_mod then (kTfLiteOk, a * b) else (kTfLiteError, (a * b) mod size_mod))"
proof (cases "a * b < size_mod")
  case True
  then show ?thesis by (simp add: MultiplyAndCheckOverflow_def size_simps Let_def)
next
  case False
  then have a: "a \<noteq> 0" by (cases a) auto
  have high: "drop_bit 32 (or a b) \<noteq> 0"
  proof
    assume "drop_bit 32 (or a b) = 0"
    then have "a \<le> 4294967295" "b \<le> 4294967295" using or_high_bits [of a b] by simp_all
    then have "a * b \<le> 4294967295 * 4294967295" by (rule mult_le_mono)
    with False show False by simp
  qed
  have "(a * b) mod size_mod div a \<noteq> b"
  proof
    assume eq: "(a * b) mod size_mod div a = b"
    have "a * ((a * b) mod size_mod div a) \<le> (a * b) mod size_mod" by simp
    also have "\<dots> < size_mod" by simp
    finally show False using eq False by simp
  qed
  with False a high show ?thesis by (simp add: MultiplyAndCheckOverflow_def size_mul_def Let_def)
qed

lemma count_elements_spec:
  assumes "c < size_mod"
  shows "count_elements dims c =
    (if (\<forall>k\<le>length dims. c * prod_list (map size_of_int (take k dims)) < size_mod)
     then Some (c * prod_list (map size_of_int dims)) else None)"
  using assms
proof (induction dims arbitrary: c)
  case (Cons d ds)
  have d: "size_of_int d < size_mod" by (simp add: size_of_int_def nat_less_iff)
  have split: "(\<forall>k\<le>length (d # ds). c * prod_list (map size_of_int (take k (d # ds))) < size_mod) \<longleftrightarrow>
      (\<forall>k\<le>length ds. c * size_of_int d * prod_list (map size_of_int (take k ds)) < size_mod)"
    (is "?L \<longleftrightarrow> ?R")
  proof
    assume ?L
    then show ?R by (intro allI impI) (drule_tac x = "Suc k" in spec, simp add: mult.assoc)
  next
    assume R: ?R
    show ?L
    proof (intro allI impI)
      fix k assume "k \<le> length (d # ds)"
      then show "c * prod_list (map size_of_int (take k (d # ds))) < size_mod"
        using R Cons.prems by (cases k) (auto simp: mult.assoc)
    qed
  qed
  show ?case
  proof (cases "c * size_of_int d < size_mod")
    case True
    then show ?thesis
      using Cons.IH [OF True] Cons.prems d
      by (simp only: split) (simp add: MultiplyAndCheckOverflow_iff mult.assoc)
  next
    case False
    then have "\<not> (\<forall>k\<le>length ds. c * size_of_int d * prod_list (map size_of_int (take k ds)) < size_mod)"
      by (metis le0 take0 list.map(1) prod_list.Nil mult.right_neutral)
    then show ?thesis
      using False Cons.prems d by (simp only: split) (simp add: MultiplyAndCheckOverflow_iff)
  qed
qed simp

lemma GetSizeOfType_pos: "GetSizeOfType type = Some w \<Longrightarrow> 0 < w \<and> w \<le> 16"
  by (cases type) auto

section \<open>Heap lemmas\<close>

definition heap_ok :: "heap \<Rightarrow> bool" where
  "heap_ok h \<longleftrightarrow> 0 < hp_next h \<and> hp_blocks h 0 = None \<and> (\<forall>p\<ge>hp_next h. hp_blocks h p = None)"

text \<open>What is relied on of the C library: a granted request has the size asked for.\<close>

definition mem_ok :: "(nat \<Rightarrow> byte list option) \<Rightarrow> bool" where
  "mem_ok mem \<longleftrightarrow> (\<forall>n bs. mem n = Some bs \<longrightarrow> length bs = n)"

lemma mem_okD: "mem_ok mem \<Longrightarrow> mem n = Some bs \<Longrightarrow> length bs = n"
  by (simp add: mem_ok_def)

lemma heap_ok_empty: "heap_ok empty_heap"
  by (simp add: heap_ok_def empty_heap_def)

lemma free_heap_ok [intro]: "heap_ok h \<Longrightarrow> heap_ok (free p h)"
  by (auto simp: heap_ok_def free_def)

lemma malloc_heap_ok: "heap_ok h \<Longrightarrow> heap_ok (snd (malloc mem n h))"
  by (auto simp: heap_ok_def malloc_def split: option.splits)

lemma heap_ok_live: "heap_ok h \<Longrightarrow> hp_blocks h p = Some bs \<Longrightarrow> 0 < p \<and> p < hp_next h"
  by (metis heap_ok_def not_le option.distinct(1) neq0_conv)

text \<open>A tensor with malloc storage owns a block of at least its bytes, or has none.\<close>

definition malloc_storage :: "TfLiteTensor \<Rightarrow> bool" where
  "malloc_storage t \<longleftrightarrow> t_allocation_type t = kTfLiteDynamic \<or> t_allocation_type t = kTfLitePersistentRo"

definition owns_block :: "TfLiteTensor \<Rightarrow> heap \<Rightarrow> bool" where
  "owns_block t h \<longleftrightarrow> t_data t = 0 \<or> (\<exists>bs. hp_blocks h (t_data t) = Some bs \<and> t_bytes t \<le> length bs)"

definition tensor_bytes :: "TfLiteTensor \<Rightarrow> heap \<Rightarrow> byte list" where
  "tensor_bytes t h = (case hp_blocks h (t_data t) of None \<Rightarrow> [] | Some bs \<Rightarrow> take (t_bytes t) bs)"

lemma malloc_SomeE:
  assumes "mem_ok mem" and "heap_ok h"
  shows "malloc mem n h = (0, h) \<or>
    (\<exists>bs. length bs = n \<and> malloc mem n h = (hp_next h, h\<lparr>hp_blocks := (hp_blocks h)(hp_next h := Some bs), hp_next := Suc (hp_next h)\<rparr>))"
  using assms by (auto simp: malloc_def dest: mem_okD split: option.splits)

lemma free_live: "hp_blocks h p = Some bs \<Longrightarrow> heap_ok h \<Longrightarrow> free p h = h\<lparr>hp_blocks := (hp_blocks h)(p := None)\<rparr>"
  using heap_ok_live by (auto simp: free_def)

lemma realloc_live:
  assumes "mem_ok mem" and "heap_ok h" and "hp_blocks h p = Some old"
  shows "realloc mem p n h = (0, h) \<or>
    (\<exists>bs. length bs = n \<and> take (length old) bs = take n old \<and>
      realloc mem p n h = (hp_next h, h\<lparr>hp_blocks := (hp_blocks h)(hp_next h := Some bs, p := None), hp_next := Suc (hp_next h)\<rparr>))"
proof (cases "mem n")
  case None
  then show ?thesis using assms(3) by (simp add: realloc_def)
next
  case (Some bs)
  have p: "0 < p" "p < hp_next h" using heap_ok_live [OF assms(2,3)] by auto
  let ?new = "take n old @ drop (length old) bs"
  have "length ?new = n" "take (length old) ?new = take n old"
    using mem_okD [OF assms(1) Some] by (auto simp: min_def)
  moreover have "realloc mem p n h =
      (hp_next h, h\<lparr>hp_blocks := (hp_blocks h)(hp_next h := Some ?new, p := None), hp_next := Suc (hp_next h)\<rparr>)"
    using Some assms(3) p by (simp add: realloc_def free_def fun_upd_twist)
  ultimately show ?thesis by blast
qed

text \<open>The block a resize ends with, for each of the three ways it takes.\<close>

definition resize_block ::
    "(nat \<Rightarrow> byte list option) \<Rightarrow> nat \<Rightarrow> bool \<Rightarrow> TfLiteTensor \<Rightarrow> heap \<Rightarrow> nat \<times> heap" where
  "resize_block mem n preserve t h =
     (if t_data t = 0 then malloc mem (n + 16) h
      else if t_bytes t < n
           then (if preserve then realloc mem (t_data t) (n + 16) h
                 else malloc mem (n + 16) (free (t_data t) h))
      else (t_data t, h))"

lemma Resize_eq:
  assumes "malloc_storage t" and "n + 16 < size_mod"
  shows "TfLiteTensorResizeMaybeCopy mem n preserve t h =
    (case resize_block mem n preserve t h of (p, h1) \<Rightarrow>
      (if p = 0 \<and> n \<noteq> 0 then kTfLiteError else kTfLiteOk, t\<lparr>t_data := p, t_bytes := n\<rparr>, h1))"
proof -
  have "size_add n 16 = n + 16" using assms(2) by (simp add: size_simps)
  then show ?thesis
    using assms(1)
    by (auto simp: TfLiteTensorResizeMaybeCopy_def resize_block_def malloc_storage_def Let_def
        split: prod.splits if_splits)
qed

lemma malloc_block:
  assumes "heap_ok h" and "mem_ok mem" and "malloc mem (n + 16) h = (p, h1)"
  shows "hp_bad h1 = hp_bad h \<and> heap_ok h1 \<and>
    (p = 0 \<and> mem (n + 16) = None \<or> p \<noteq> 0 \<and> (\<exists>new. hp_blocks h1 p = Some new \<and> n \<le> length new))"
  using assms by (auto simp: malloc_def heap_ok_def dest: mem_okD split: option.splits)

lemma realloc_block:
  assumes "heap_ok h" and "mem_ok mem" and "hp_blocks h q = Some old" and "realloc mem q (n + 16) h = (p, h1)"
  shows "hp_bad h1 = hp_bad h \<and> heap_ok h1 \<and>
    (p = 0 \<and> mem (n + 16) = None \<or>
     p \<noteq> 0 \<and> (\<exists>new. hp_blocks h1 p = Some new \<and> n \<le> length new \<and> take (length old) new = take (n + 16) old))"
proof (cases "mem (n + 16)")
  case None
  then show ?thesis using assms by (simp add: realloc_def)
next
  case (Some bs)
  have q: "0 < q" "q < hp_next h" using heap_ok_live [OF assms(1,3)] by auto
  have r: "realloc mem q (n + 16) h \<noteq> (0, h)" using Some assms(1,3) by (auto simp: realloc_def heap_ok_def)
  from realloc_live [OF assms(2,1,3), of "n + 16"] r obtain new where
    "length new = n + 16" "take (length old) new = take (n + 16) old"
    "p = hp_next h" "h1 = h\<lparr>hp_blocks := (hp_blocks h)(hp_next h := Some new, q := None), hp_next := Suc (hp_next h)\<rparr>"
    using assms(4) by auto
  then show ?thesis using assms(1) q by (auto simp: heap_ok_def)
qed

lemma resize_block_ok:
  assumes "heap_ok h" and "mem_ok mem" and "owns_block t h" and "resize_block mem n preserve t h = (p, h1)"
  shows "hp_bad h1 = hp_bad h \<and> heap_ok h1 \<and>
    (p = 0 \<and> mem (n + 16) = None \<or>
     p \<noteq> 0 \<and> (\<exists>new. hp_blocks h1 p = Some new \<and> n \<le> length new \<and>
       (preserve \<and> t_data t \<noteq> 0 \<longrightarrow> take (min (t_bytes t) n) new = take n (tensor_bytes t h))))"
proof (cases "t_data t = 0")
  case True
  then show ?thesis using malloc_block [OF assms(1,2), of n p h1] assms(4) by (auto simp: resize_block_def)
next
  case False
  then obtain old where old: "hp_blocks h (t_data t) = Some old" and len: "t_bytes t \<le> length old"
    using assms(3) by (auto simp: owns_block_def)
  have tb: "tensor_bytes t h = take (t_bytes t) old" using old by (simp add: tensor_bytes_def)
  consider (keep) "n \<le> t_bytes t" | (move) "t_bytes t < n" "preserve" | (fresh) "t_bytes t < n" "\<not> preserve"
    by linarith
  then show ?thesis
  proof cases
    case keep
    then show ?thesis using False assms(1,4) old len tb by (auto simp: resize_block_def min_def)
  next
    case move
    then have "realloc mem (t_data t) (n + 16) h = (p, h1)" using False assms(4) by (simp add: resize_block_def)
    note res = realloc_block [OF assms(1,2) old this]
    have "take (t_bytes t) new = take (t_bytes t) old" if "take (length old) new = take (n + 16) old" for new
    proof -
      have "take (t_bytes t) new = take (t_bytes t) (take (length old) new)" using len by (simp add: min_absorb1)
      also have "\<dots> = take (t_bytes t) old" using that move by (simp add: min_absorb1)
      finally show ?thesis .
    qed
    then show ?thesis using res move tb by (auto simp: min_absorb1 min_absorb2)
  next
    case fresh
    have "hp_bad (free (t_data t) h) = hp_bad h" using free_live [OF old assms(1)] by simp
    then show ?thesis
      using fresh False assms(4) malloc_block [OF free_heap_ok [OF assms(1)] assms(2), of n "t_data t" p h1]
      by (auto simp: resize_block_def)
  qed
qed

section \<open>Properties\<close>

text \<open>
  The overflow check of a product is exact: with operands in the range of \<open>size_t\<close> the status is
  \<open>kTfLiteOk\<close> exactly when the mathematical product fits, and then the product is that value, although the
  check divides only when an operand has a bit in its upper half.
\<close>

lemma multiply_check_exact:
  assumes "a < size_mod" and "b < size_mod"
  shows "(fst (MultiplyAndCheckOverflow a b) = kTfLiteOk \<longleftrightarrow> a * b < size_mod) \<and>
    (fst (MultiplyAndCheckOverflow a b) = kTfLiteOk \<longrightarrow> snd (MultiplyAndCheckOverflow a b) = a * b)"
  using MultiplyAndCheckOverflow_iff [OF assms] by simp

lemma multiply_check_exact_witness:
  "MultiplyAndCheckOverflow 4294967296 4294967296 = (kTfLiteError, 0) \<and>
   MultiplyAndCheckOverflow 4294967296 4294967295 = (kTfLiteOk, 18446744069414584320)"
  using multiply_check_exact [of 4294967296 4294967296] multiply_check_exact [of 4294967296 4294967295]
  by (auto simp: MultiplyAndCheckOverflow_iff)

lemma packed_rounding:
  assumes "n < size_mod"
  shows "size_add n 1 div 2 = (if rounding_wraps 4 n then 0 else packed_bytes 4 n)"
    and "size_add n 3 div 4 = (if rounding_wraps 2 n then 0 else packed_bytes 2 n)"
proof -
  have "size_add n k div m = (if size_mod \<le> n + k then 0 else (n + k) div m)" if "k < m" "k \<le> 3" for k m
  proof (cases "size_mod \<le> n + k")
    case True
    then have "size_add n k = n + k - size_mod" using assms that(2) by (simp add: size_add_def mod_if)
    moreover have "n + k - size_mod < m" using assms that(1) by simp
    ultimately show ?thesis using True by simp
  qed (simp add: size_add_exact)
  moreover have "(4 * n + 7) div 8 = (n + 1) div 2" "(2 * n + 7) div 8 = (n + 3) div 4" by arith+
  ultimately show "size_add n 1 div 2 = (if rounding_wraps 4 n then 0 else packed_bytes 4 n)"
    "size_add n 3 div 4 = (if rounding_wraps 2 n then 0 else packed_bytes 2 n)"
    by (simp_all add: rounding_wraps_def packed_bytes_def)
qed

text \<open>
  Claim C9. \<open>BytesRequired\<close> returns a size exactly when the element type has one and every prefix product of the dimensions (each read as
  \<open>size_t\<close>) and the product of the number of elements and the size of an element, counted as one byte for packed types, fit in \<open>size_t\<close>. The size
  is the least number of bytes that holds the bits of all elements, except that for packed types with \<open>2 ^ 64 - 1\<close> elements (4 bits), or at
  least \<open>2 ^ 64 - 3\<close> (2 bits), the rounding up wraps, contrary to what the code says of it, and the size is 0.
\<close>

theorem bytes_required_spec:
  "BytesRequired type dims =
     (let n = prod_list (map size_of_int dims) in
      case element_bits type of
        None \<Rightarrow> None
      | Some bits \<Rightarrow>
          (if prefix_products_fit dims \<and> max 1 (bits div 8) * n < size_mod
           then Some (if rounding_wraps bits n then 0 else packed_bytes bits n) else None))"
proof (cases "GetSizeOfType type")
  case None
  then have "element_bits type = None" by (cases type) (simp_all add: element_bits_def)
  then show ?thesis using None by (simp add: BytesRequired_def split: option.splits)
next
  case (Some w)
  let ?p = "prod_list (map size_of_int dims)"
  have w: "0 < w" "w < size_mod" using GetSizeOfType_pos [OF Some] by simp_all
  have one: "type = kTfLiteInt4 \<or> type = kTfLiteUInt4 \<or> type = kTfLiteInt2 \<Longrightarrow> w = 1" using Some by auto
  have cnt: "count_elements dims 1 = (if prefix_products_fit dims then Some ?p else None)"
    using count_elements_spec [of 1 dims] by (simp add: prefix_products_fit_def)
  show ?thesis
  proof (cases "prefix_products_fit dims")
    case True
    then have "?p < size_mod" by (auto simp: prefix_products_fit_def dest: spec [of _ "length dims"])
    moreover have "packed_bytes (8 * w) ?p = w * ?p" by (simp add: packed_bytes_def)
    moreover have "\<not> rounding_wraps (8 * w) ?p" using w by (simp add: rounding_wraps_def)
    ultimately show ?thesis using cnt True Some w one packed_rounding [of ?p] MultiplyAndCheckOverflow_iff [of w ?p]
      by (auto simp: BytesRequired_def element_bits_def Let_def max_def)
  next
    case False
    then show ?thesis using cnt Some by (simp add: BytesRequired_def Let_def split: option.split)
  qed
qed

text \<open>
  The rounding of packed 4-bit sizes is not checked: a 4-bit tensor of \<open>2 ^ 64 - 1\<close> elements
  (dimensions 65535, 65537, 641 and 6700417) passes both overflow checks, and adding one before halving
  wraps, so it is said to need no memory at all.
\<close>

lemma bytes_required_int4_wraps:
  "BytesRequired kTfLiteInt4 [65535, 65537, 641, 6700417] = Some 0 \<and>
   BytesRequired kTfLiteInt8 [65535, 65537, 641, 6700417] = Some 18446744073709551615"
proof -
  have "count_elements [65535, 65537, 641, 6700417] 1 = Some 18446744073709551615"
    by (simp add: MultiplyAndCheckOverflow_iff)
  then show ?thesis by (simp add: BytesRequired_def MultiplyAndCheckOverflow_iff size_add_def)
qed

text \<open>
  Claim C10. Resizing a tensor that owns malloc storage never frees or touches memory it does not own. It succeeds exactly when the tensor is left with
  a block, or needs none since the new size is 0; the block of a tensor after success holds the new size, and with \<open>preserve_data\<close> the bytes
  common to the old and the new size are unchanged. It fails only when the C library gives no block for a non-empty tensor; then the tensor has a null
  pointer. (The size is at least 16 below the range of \<open>size_t\<close>.)
\<close>

theorem tensor_resize_preserves:
  assumes "heap_ok h" and "mem_ok mem" and "malloc_storage t" and "owns_block t h"
    and "num_bytes + 16 < size_mod"
    and "TfLiteTensorResizeMaybeCopy mem num_bytes preserve t h = (st, t', h')"
  shows "hp_bad h' = hp_bad h \<and> heap_ok h' \<and> t_bytes t' = num_bytes \<and> malloc_storage t' \<and>
    (st = kTfLiteOk \<longleftrightarrow> num_bytes = 0 \<or> t_data t' \<noteq> 0) \<and>
    (t_data t' = 0 \<longrightarrow> mem (num_bytes + 16) = None) \<and>
    (t_data t' \<noteq> 0 \<longrightarrow> (\<exists>block. hp_blocks h' (t_data t') = Some block \<and> num_bytes \<le> length block \<and>
       (preserve \<and> t_data t \<noteq> 0 \<longrightarrow> take (min (t_bytes t) num_bytes) block = take num_bytes (tensor_bytes t h))))"
proof -
  obtain p h1 where blk: "resize_block mem num_bytes preserve t h = (p, h1)" by (cases "resize_block mem num_bytes preserve t h")
  have eqs: "t' = t\<lparr>t_data := p, t_bytes := num_bytes\<rparr>" "h' = h1"
    "st = (if p = 0 \<and> num_bytes \<noteq> 0 then kTfLiteError else kTfLiteOk)"
    using assms(6) Resize_eq [OF assms(3,5)] blk by auto
  from resize_block_ok [OF assms(1,2,4) blk] show ?thesis
    using assms(3) by (auto simp: eqs malloc_storage_def)
qed

definition w_mem :: "nat \<Rightarrow> byte list option" where
  "w_mem n = Some (replicate n 0)"

definition w_heap :: heap where
  "w_heap = \<lparr>hp_blocks = [1 \<mapsto> [7, 9]], hp_next = 2, hp_bad = False\<rparr>"

definition w_tensor :: TfLiteTensor where
  "w_tensor = \<lparr>t_type = kTfLiteUInt8, t_data = 1, t_dims = Some [2], t_params = \<lparr>qp_scale = 0, qp_zero_point = 0\<rparr>,
     t_allocation_type = kTfLiteDynamic, t_bytes = 2, t_allocation = 0, t_name = ''w'', t_delegate = 0,
     t_buffer_handle = -1, t_data_is_stale = False, t_is_variable = False,
     t_quantization = kTfLiteNoQuantization, t_sparsity = None, t_dims_signature = None\<rparr>"

lemma w_ok: "heap_ok w_heap" "mem_ok w_mem" "malloc_storage w_tensor" "owns_block w_tensor w_heap"
  by (simp_all add: heap_ok_def w_heap_def mem_ok_def w_mem_def malloc_storage_def w_tensor_def owns_block_def)

theorem tensor_resize_preserves_witness:
  "\<exists>t' h'. TfLiteTensorResizeMaybeCopy w_mem 3 True w_tensor w_heap = (kTfLiteOk, t', h') \<and>
     (\<exists>block. hp_blocks h' (t_data t') = Some block \<and> take 2 block = [7, 9]) \<and> \<not> hp_bad h'"
proof -
  obtain st t' h' where r: "TfLiteTensorResizeMaybeCopy w_mem 3 True w_tensor w_heap = (st, t', h')"
    by (metis prod_cases3)
  have "w_mem (3 + 16) \<noteq> None" by (simp add: w_mem_def)
  moreover have "tensor_bytes w_tensor w_heap = [7, 9]" by (simp add: tensor_bytes_def w_tensor_def w_heap_def)
  moreover have "t_bytes w_tensor = 2" "t_data w_tensor = 1" "\<not> hp_bad w_heap" by (simp_all add: w_tensor_def w_heap_def)
  ultimately show ?thesis using tensor_resize_preserves [OF w_ok _ r] r by auto
qed

text \<open>
  The clone of a tensor with malloc storage has its own block with the same bytes: the source keeps
  its block and contents, and freeing the clone afterwards leaves the source's block as it was and is a valid free.
\<close>

lemma tensor_clone_independent:
  assumes "heap_ok h" and "mem_ok mem" and "malloc_storage src" and "hp_blocks h (t_data src) = Some bs"
    and "t_bytes src \<le> length bs" and "mem (t_bytes src) \<noteq> None"
    and "TfLiteTensorClone mem malloc_ok CloneTo src h = (dst, h')"
    and "TfLiteTensorFree dst h' = (dst', h'')"
  shows "t_data dst \<noteq> t_data src \<and> tensor_bytes dst h' = tensor_bytes src h \<and>
    hp_blocks h' (t_data src) = Some bs \<and> hp_blocks h'' (t_data src) = Some bs \<and>
    hp_blocks h'' (t_data dst) = None \<and> hp_bad h'' = hp_bad h"
proof -
  obtain new where new: "mem (t_bytes src) = Some new" using assms(6) by auto
  have len: "length new = t_bytes src" using mem_okD [OF assms(2) new] .
  have live: "0 < t_data src" "t_data src < hp_next h" using heap_ok_live [OF assms(1,4)] by auto
  have strat: "TfLiteTensorGetAllocationStrategy (t_allocation_type src) = kTfLiteAllocationStrategyMalloc"
    using assms(3) by (auto simp: malloc_storage_def)
  let ?h1 = "h\<lparr>hp_blocks := (hp_blocks h)(hp_next h := Some (take (t_bytes src) bs)), hp_next := Suc (hp_next h)\<rparr>"
  have cp: "memcpy (hp_next h) (t_data src) (t_bytes src)
      (h\<lparr>hp_blocks := (hp_blocks h)(hp_next h := Some new), hp_next := Suc (hp_next h)\<rparr>) = ?h1"
    using live assms(4,5) len by (simp add: memcpy_def)
  have d: "t_data dst = hp_next h" "t_bytes dst = t_bytes src" "t_allocation_type dst = t_allocation_type src" "h' = ?h1"
    using assms(7) live strat cp new by (auto simp: TfLiteTensorClone_def malloc_def Let_def)
  have nxt: "0 < hp_next h" using assms(1) by (simp add: heap_ok_def)
  have "h'' = free (t_data dst) h'"
    using assms(3,8) nxt d by (auto simp: TfLiteTensorFree_def TfLiteTensorDataFree_def malloc_storage_def Let_def)
  then show ?thesis
    using d live nxt assms(4) by (auto simp: free_def tensor_bytes_def)
qed

lemma tensor_clone_independent_witness:
  "t_data (fst (TfLiteTensorClone w_mem (\<lambda>_. True) (\<lambda>_ _ h. (0, h)) w_tensor w_heap)) \<noteq> t_data w_tensor \<and>
   tensor_bytes (fst (TfLiteTensorClone w_mem (\<lambda>_. True) (\<lambda>_ _ h. (0, h)) w_tensor w_heap))
     (snd (TfLiteTensorClone w_mem (\<lambda>_. True) (\<lambda>_ _ h. (0, h)) w_tensor w_heap)) = [7, 9]"
proof -
  have tb: "tensor_bytes w_tensor w_heap = [7, 9]" by (simp add: tensor_bytes_def w_tensor_def w_heap_def)
  have blk: "hp_blocks w_heap (t_data w_tensor) = Some [7, 9]" "t_bytes w_tensor \<le> length [7, 9::byte]"
    "w_mem (t_bytes w_tensor) \<noteq> None" by (simp_all add: w_heap_def w_tensor_def w_mem_def)
  show ?thesis
    using tensor_clone_independent [OF w_ok(1,2,3) blk, of "\<lambda>_. True" "\<lambda>_ _ h. (0, h)"] tb
    by (metis prod.collapse)
qed

text \<open>
  Copying a buffer into a tensor and back is the identity on the bytes, and each copy is refused
  exactly when the size given is not the tensor's size: a shorter buffer is refused as well as a longer one.
\<close>

lemma copy_buffer_roundtrip:
  assumes "hp_blocks h (t_data t) = Some data" and "t_bytes t \<le> length data"
    and "hp_blocks h src = Some input" and "n \<le> length input"
    and "hp_blocks h out = Some output" and "n \<le> length output"
    and "src \<noteq> t_data t" and "out \<noteq> t_data t"
    and "TfLiteTensorCopyFromBuffer t src n h = (st, h1)" and "TfLiteTensorCopyToBuffer t out n h1 = (st', h2)"
  shows "(st = kTfLiteOk \<longleftrightarrow> n = t_bytes t) \<and> st' = st \<and>
    (n = t_bytes t \<longrightarrow> hp_blocks h2 out = Some (take n input @ drop n output) \<and> hp_bad h2 = hp_bad h) \<and>
    (n \<noteq> t_bytes t \<longrightarrow> h2 = h)"
proof (cases "n = t_bytes t")
  case True
  let ?h1 = "h\<lparr>hp_blocks := (hp_blocks h)(t_data t := Some (take n input @ drop n data))\<rparr>"
  have h1: "st = kTfLiteOk" "h1 = ?h1"
    using assms True by (auto simp: TfLiteTensorCopyFromBuffer_def memcpy_def)
  have "st' = kTfLiteOk \<and> h2 = ?h1\<lparr>hp_blocks := (hp_blocks ?h1)(out := Some (take n input @ drop n output))\<rparr>"
    using assms True h1 by (auto simp: TfLiteTensorCopyToBuffer_def memcpy_def)
  then show ?thesis using True h1 by simp
next
  case False
  then show ?thesis using assms(9,10) by (auto simp: TfLiteTensorCopyFromBuffer_def TfLiteTensorCopyToBuffer_def)
qed

lemma copy_buffer_roundtrip_witness:
  "let h = w_heap\<lparr>hp_blocks := [1 \<mapsto> [7, 9], 5 \<mapsto> [1, 2], 6 \<mapsto> [0, 0]]\<rparr>;
       (st, h1) = TfLiteTensorCopyFromBuffer w_tensor 5 2 h;
       (st', h2) = TfLiteTensorCopyToBuffer w_tensor 6 2 h1
   in st = kTfLiteOk \<and> st' = kTfLiteOk \<and> hp_blocks h2 6 = Some [1, 2]"
proof -
  define h where "h = w_heap\<lparr>hp_blocks := [1 \<mapsto> [7, 9], 5 \<mapsto> [1, 2], 6 \<mapsto> [0, 0]]\<rparr>"
  obtain st h1 where c1: "TfLiteTensorCopyFromBuffer w_tensor 5 2 h = (st, h1)" by (metis surj_pair)
  obtain st' h2 where c2: "TfLiteTensorCopyToBuffer w_tensor 6 2 h1 = (st', h2)" by (metis surj_pair)
  have w: "t_data w_tensor = 1" "t_bytes w_tensor = 2" by (simp_all add: w_tensor_def)
  have "st = kTfLiteOk \<and> st' = kTfLiteOk \<and> hp_blocks h2 6 = Some [1, 2]"
    using copy_buffer_roundtrip [OF _ _ _ _ _ _ _ _ c1 c2, of "[7, 9]" "[1, 2]" "[0, 0]"]
    by (simp add: w h_def)
  then show ?thesis using c1 c2 by (simp add: h_def)
qed

end
