(* ===== verification/Graph.thy ===== *)
theory Graph
  imports Tensor "HOL-Library.Product_Lexorder" "HOL-Library.Multiset"
begin

text \<open>
  The view of a subgraph that planning and partitioning work on (\<open>lite/graph_info.h\<close>) and the
  partitioning of its execution plan into subsets of nodes of one kind (\<open>lite/graph_info.cc\<close>),
  which decides what a delegate replaces. Tensor and node indices are \<open>int\<close> with \<open>-1\<close> for an absent
  optional tensor; vectors are lists.
\<close>

section \<open>Nodes and graphs\<close>

abbreviation kTfLiteOptionalTensor :: int where
  "kTfLiteOptionalTensor \<equiv> -1"

record TfLiteNode =
  nd_inputs :: "int list"
  nd_outputs :: "int list"
  nd_intermediates :: "int list"
  nd_temporaries :: "int list"
  nd_user_data :: nat
  nd_builtin_data :: nat
  nd_custom_initial_data :: nat
  nd_custom_initial_data_size :: nat
  nd_delegate :: nat
  nd_might_have_side_effect :: bool

text \<open>A registration holds the addresses of the kernel's functions, 0 for a null pointer.\<close>

record TfLiteRegistration =
  rg_init :: nat
  rg_free :: nat
  rg_prepare :: nat
  rg_invoke :: nat
  rg_profiling_string :: nat
  rg_builtin_code :: int
  rg_custom_name :: "string option"
  rg_version :: int
  rg_registration_external :: nat
  rg_async_kernel :: nat
  rg_inplace_operator :: "64 word"

text \<open>
  A graph as \<open>GraphInfo\<close> shows it: the nodes of the execution plan in order, each with its registration and
  its original index.
\<close>

record GraphInfo =
  gi_num_tensors :: nat
  gi_nodes :: "TfLiteNode list"
  gi_registrations :: "TfLiteRegistration list"
  gi_node_index :: "int list"
  gi_num_total_nodes :: nat
  gi_inputs :: "int list"
  gi_outputs :: "int list"
  gi_variables :: "int list"

definition num_execution_nodes :: "GraphInfo \<Rightarrow> nat" where
  "num_execution_nodes info = length (gi_nodes info)"

section \<open>Node subsets\<close>

datatype NodeSubset_Type = kTfUnexplored | kTfPartition | kTfNonPartition

record NodeSubset =
  ns_type :: NodeSubset_Type
  ns_nodes :: "int list"
  ns_input_tensors :: "int list"
  ns_output_tensors :: "int list"

definition new_subset :: NodeSubset where
  "new_subset = \<lparr>ns_type = kTfUnexplored, ns_nodes = [], ns_input_tensors = [], ns_output_tensors = []\<rparr>"

type_synonym ControlEdge = "int \<times> int"

definition Uniquefy :: "'a::linorder list \<Rightarrow> 'a list" where
  "Uniquefy xs = remdups_adj (sort xs)"

abbreviation kEpochNotReady :: int where
  "kEpochNotReady \<equiv> -1"

abbreviation kEpochAlwaysReady :: int where
  "kEpochAlwaysReady \<equiv> -2"

text \<open>The fixed part of the partitioner and its working state.\<close>

record partition_config =
  pc_info :: GraphInfo
  pc_node_type :: "NodeSubset_Type list"
  pc_greedily :: bool
  pc_control_edges :: "ControlEdge list"
  pc_disable_node_fusion :: bool

record partition_state =
  ps_subsets :: "NodeSubset list"
  ps_tensor_epochs :: "int list"
  ps_node_epochs :: "int list"
  ps_num_incoming :: "int list"

definition new_partitioner ::
    "GraphInfo \<Rightarrow> int list \<Rightarrow> bool \<Rightarrow> ControlEdge list \<Rightarrow> bool \<Rightarrow> partition_config" where
  "new_partitioner info nodes_to_partition greedily control_edges disable_node_fusion =
     \<lparr>pc_info = info,
      pc_node_type = fold (\<lambda>n types. types[nat n := kTfPartition]) nodes_to_partition
                       (replicate (gi_num_total_nodes info) kTfNonPartition),
      pc_greedily = greedily, pc_control_edges = Uniquefy control_edges,
      pc_disable_node_fusion = disable_node_fusion\<rparr>"

text \<open>The edges out of a node: from \<open>lower_bound\<close> of \<open>(node, 0)\<close> while the first component is the node.\<close>

definition edges_from :: "partition_config \<Rightarrow> nat \<Rightarrow> ControlEdge list" where
  "edges_from c i = takeWhile (\<lambda>e. fst e = int i) (dropWhile (\<lambda>e. e < (int i, 0)) (pc_control_edges c))"

definition inputs_ready :: "partition_state \<Rightarrow> TfLiteNode \<Rightarrow> bool" where
  "inputs_ready s node \<longleftrightarrow>
     list_all (\<lambda>t. \<not> (t \<noteq> kTfLiteOptionalTensor \<and> ps_tensor_epochs s ! nat t = kEpochNotReady)) (nd_inputs node)"

definition assign_outputs :: "int \<Rightarrow> TfLiteNode \<Rightarrow> int list \<Rightarrow> int list" where
  "assign_outputs epoch node epochs =
     fold (\<lambda>t es. if t = kTfLiteOptionalTensor then es else es[nat t := epoch]) (nd_outputs node) epochs"

text \<open>
  Each input from another epoch becomes an input of the current subset and an output of the subset
  of its epoch, unless it is always ready.
\<close>

definition link_input :: "int list \<Rightarrow> nat \<Rightarrow> int \<Rightarrow> NodeSubset list \<Rightarrow> NodeSubset list" where
  "link_input tensor_epochs current t ss =
     (if t = kTfLiteOptionalTensor then ss
      else
        (let input_epoch = tensor_epochs ! nat t
         in if input_epoch \<noteq> int current
            then (let ss1 = ss[current := (ss ! current)\<lparr>ns_input_tensors := ns_input_tensors (ss ! current) @ [t]\<rparr>]
                  in if input_epoch \<ge> 0
                     then ss1[nat input_epoch := (ss1 ! nat input_epoch)
                                \<lparr>ns_output_tensors := ns_output_tensors (ss1 ! nat input_epoch) @ [t]\<rparr>]
                     else ss1)
            else ss))"

definition UpdateNode :: "partition_config \<Rightarrow> nat \<Rightarrow> partition_state \<Rightarrow> bool \<times> partition_state" where
  "UpdateNode c i s =
     (let info = pc_info c;
          node = gi_nodes info ! i;
          current = length (ps_subsets s) - 1;
          current_subset = ps_subsets s ! current
      in if pc_disable_node_fusion c \<and> ns_nodes current_subset \<noteq> [] then (False, s)
         else if ps_node_epochs s ! i \<noteq> kEpochNotReady then (False, s)
         else if \<not> inputs_ready s node then (False, s)
         else if ps_num_incoming s ! i \<noteq> 0 then (False, s)
         else
           (let original_node_idx = gi_node_index info ! i;
                node_type = pc_node_type c ! nat original_node_idx;
                subset1 = (if ns_type current_subset = kTfUnexplored
                           then current_subset\<lparr>ns_type := node_type\<rparr> else current_subset)
            in if ns_type subset1 = node_type
               then
                 (let subset2 = subset1\<lparr>ns_nodes := ns_nodes subset1 @ [original_node_idx]\<rparr>;
                      tensor_epochs = assign_outputs (int current) node (ps_tensor_epochs s);
                      subsets = fold (link_input tensor_epochs current) (nd_inputs node)
                                  ((ps_subsets s)[current := subset2]);
                      incoming = fold (\<lambda>e inc. inc[nat (snd e) := inc ! nat (snd e) - 1]) (edges_from c i)
                                   (ps_num_incoming s)
                  in (True, s\<lparr>ps_subsets := subsets, ps_tensor_epochs := tensor_epochs,
                              ps_node_epochs := (ps_node_epochs s)[i := int current],
                              ps_num_incoming := incoming\<rparr>))
               else (False, s\<lparr>ps_subsets := (ps_subsets s)[current := subset1]\<rparr>)))"

text \<open>
  One pass over the nodes. The result is whether the pass returned early (not greedy and a node was
  refused after one was taken), whether anything was done, and the state.
\<close>

fun update_pass ::
    "partition_config \<Rightarrow> nat list \<Rightarrow> bool \<Rightarrow> partition_state \<Rightarrow> bool \<times> bool \<times> partition_state" where
  "update_pass c [] did s = (False, did, s)"
| "update_pass c (i # is) did s =
     (case UpdateNode c i s of (updated, s') \<Rightarrow>
        if updated then update_pass c is True s'
        else if did \<and> \<not> pc_greedily c then (True, did, s')
        else update_pass c is did s')"

text \<open>
  The loop of \<open>BuildNodeSubset\<close>, with fuel for its passes. \<open>None\<close> means that the fuel ran out.
\<close>

fun build_loop :: "nat \<Rightarrow> partition_config \<Rightarrow> partition_state \<Rightarrow> partition_state option" where
  "build_loop 0 c s = None"
| "build_loop (Suc fuel) c s =
     (case update_pass c [0..<num_execution_nodes (pc_info c)] False s of (returned, did, s') \<Rightarrow>
        if returned then Some s'
        else if \<not> did then Some s'
        else build_loop fuel c s')"

definition BuildNodeSubset :: "nat \<Rightarrow> partition_config \<Rightarrow> partition_state \<Rightarrow> partition_state option" where
  "BuildNodeSubset fuel c s = build_loop fuel c (s\<lparr>ps_subsets := ps_subsets s @ [new_subset]\<rparr>)"

fun partition_loop :: "nat \<Rightarrow> partition_config \<Rightarrow> partition_state \<Rightarrow> partition_state option" where
  "partition_loop 0 c s = None"
| "partition_loop (Suc fuel) c s =
     (case BuildNodeSubset (Suc (num_execution_nodes (pc_info c))) c s of
        None \<Rightarrow> None
      | Some s' \<Rightarrow> (if ns_nodes (last (ps_subsets s')) = []
                     then Some (s'\<lparr>ps_subsets := butlast (ps_subsets s')\<rparr>)
                     else partition_loop fuel c s'))"

definition partition_start :: "partition_config \<Rightarrow> partition_state" where
  "partition_start c =
     (let info = pc_info c; n = num_execution_nodes info
      in \<lparr>ps_subsets = [],
          ps_tensor_epochs = fold (assign_outputs kEpochNotReady) (gi_nodes info)
                               (replicate (gi_num_tensors info) kEpochAlwaysReady),
          ps_node_epochs = replicate n kEpochNotReady,
          ps_num_incoming = fold (\<lambda>e inc. inc[nat (snd e) := inc ! nat (snd e) + 1]) (pc_control_edges c)
                              (replicate n 0)\<rparr>)"

text \<open>
  An output of the graph is recorded with the subset that computes it. The code looks up an absent output (-1) too, before the start of the array; here
  that reads the first entry.
\<close>

definition mark_output :: "int list \<Rightarrow> int \<Rightarrow> NodeSubset list \<Rightarrow> NodeSubset list" where
  "mark_output tensor_epochs t ss =
     (let output_epoch = tensor_epochs ! nat t
      in if output_epoch = kEpochAlwaysReady then ss
         else ss[nat output_epoch := (ss ! nat output_epoch)
                   \<lparr>ns_output_tensors := ns_output_tensors (ss ! nat output_epoch) @ [t]\<rparr>])"

definition uniquefy_subset :: "NodeSubset \<Rightarrow> NodeSubset" where
  "uniquefy_subset ss = ss\<lparr>ns_input_tensors := Uniquefy (ns_input_tensors ss),
                          ns_output_tensors := Uniquefy (ns_output_tensors ss)\<rparr>"

definition Partition :: "partition_config \<Rightarrow> NodeSubset list option" where
  "Partition c =
     (case partition_loop (Suc (num_execution_nodes (pc_info c))) c (partition_start c) of
        None \<Rightarrow> None
      | Some s \<Rightarrow> Some (map uniquefy_subset
          (fold (mark_output (ps_tensor_epochs s)) (gi_outputs (pc_info c)) (ps_subsets s))))"

text \<open>The dependency chain between ops with side effects, built when no control edges are given.\<close>

fun side_effect_edges :: "(nat \<times> TfLiteNode) list \<Rightarrow> int \<Rightarrow> ControlEdge list" where
  "side_effect_edges [] last_op = []"
| "side_effect_edges ((i, node) # rest) last_op =
     (if nd_might_have_side_effect node
      then (if last_op \<noteq> -1 then [(last_op, int i)] else []) @ side_effect_edges rest (int i)
      else side_effect_edges rest last_op)"

definition PartitionGraphIntoIndependentNodeSubsets ::
    "GraphInfo \<Rightarrow> int list \<Rightarrow> bool \<Rightarrow> ControlEdge list option \<Rightarrow> bool \<Rightarrow> NodeSubset list option" where
  "PartitionGraphIntoIndependentNodeSubsets info nodes_to_partition greedily control_edges disable_node_fusion =
     (let edges = (case control_edges of
                     Some es \<Rightarrow> es
                   | None \<Rightarrow> (if greedily
                              then side_effect_edges (zip [0..<num_execution_nodes info] (gi_nodes info)) (-1)
                              else []))
      in Partition (new_partitioner info nodes_to_partition greedily edges disable_node_fusion))"

section \<open>Specification of a partition\<close>

definition wf_graph :: "GraphInfo \<Rightarrow> bool" where
  "wf_graph info \<longleftrightarrow>
     length (gi_node_index info) = length (gi_nodes info) \<and>
     (\<forall>x\<in>set (gi_node_index info). 0 \<le> x \<and> x < int (gi_num_total_nodes info)) \<and>
     (\<forall>nd\<in>set (gi_nodes info). \<forall>t\<in>set (nd_inputs nd) \<union> set (nd_outputs nd).
        t = kTfLiteOptionalTensor \<or> 0 \<le> t \<and> t < int (gi_num_tensors info))"

definition wf_edges :: "GraphInfo \<Rightarrow> ControlEdge list \<Rightarrow> bool" where
  "wf_edges info es \<longleftrightarrow>
     (\<forall>e\<in>set es. 0 \<le> fst e \<and> fst e < int (length (gi_nodes info)) \<and>
                 0 \<le> snd e \<and> snd e < int (length (gi_nodes info)))"

definition produced :: "GraphInfo \<Rightarrow> int \<Rightarrow> bool" where
  "produced info t \<longleftrightarrow> (\<exists>nd\<in>set (gi_nodes info). t \<in> set (nd_outputs nd))"

text \<open>
  An order of execution indices respects the data when every input that some node produces comes after a
  producer, and the control edges when the source of each edge comes before its target.
\<close>

definition data_order :: "GraphInfo \<Rightarrow> nat list \<Rightarrow> bool" where
  "data_order info order \<longleftrightarrow>
     (\<forall>k<length order. \<forall>t\<in>set (nd_inputs (gi_nodes info ! (order ! k))).
        t \<noteq> kTfLiteOptionalTensor \<and> produced info t \<longrightarrow>
        (\<exists>j<k. t \<in> set (nd_outputs (gi_nodes info ! (order ! j)))))"

definition edge_order :: "ControlEdge list \<Rightarrow> nat list \<Rightarrow> bool" where
  "edge_order es order \<longleftrightarrow>
     (\<forall>k<length order. \<forall>e\<in>set es. snd e = int (order ! k) \<longrightarrow> (\<exists>j<k. int (order ! j) = fst e))"

definition partition_inv :: "partition_config \<Rightarrow> nat list \<Rightarrow> partition_state \<Rightarrow> bool" where
  "partition_inv c order s \<longleftrightarrow>
     (let info = pc_info c; n = length (gi_nodes info)
      in length (ps_node_epochs s) = n \<and> length (ps_tensor_epochs s) = gi_num_tensors info \<and>
         length (ps_num_incoming s) = n \<and> distinct order \<and> set order \<subseteq> {..<n} \<and>
         (\<forall>i<n. ps_node_epochs s ! i \<noteq> kEpochNotReady \<longleftrightarrow> i \<in> set order) \<and>
         concat (map ns_nodes (ps_subsets s)) = map (\<lambda>i. gi_node_index info ! i) order \<and>
         (\<forall>ss\<in>set (ps_subsets s). \<forall>x\<in>set (ns_nodes ss). pc_node_type c ! nat x = ns_type ss) \<and>
         (\<forall>t<gi_num_tensors info. ps_tensor_epochs s ! t = kEpochNotReady \<longleftrightarrow>
            produced info (int t) \<and> \<not> (\<exists>j\<in>set order. int t \<in> set (nd_outputs (gi_nodes info ! j)))) \<and>
         (\<forall>i<n. ps_num_incoming s ! i =
            int (card {e \<in> set (pc_control_edges c). snd e = int i \<and> nat (fst e) \<notin> set order})) \<and>
         data_order info order \<and> edge_order (pc_control_edges c) order)"

definition wf_config :: "partition_config \<Rightarrow> bool" where
  "wf_config c \<longleftrightarrow> wf_graph (pc_info c) \<and> wf_edges (pc_info c) (pc_control_edges c) \<and>
     sorted (pc_control_edges c) \<and> distinct (pc_control_edges c) \<and>
     kTfUnexplored \<notin> set (pc_node_type c) \<and> length (pc_node_type c) = gi_num_total_nodes (pc_info c)"

section \<open>Effects of the parts of a node update\<close>

lemma length_link_input [simp]: "length (link_input te cur t ss) = length ss"
  by (simp add: link_input_def Let_def)

lemma link_input_frame:
  "map ns_nodes (link_input te cur t ss) = map ns_nodes ss \<and> map ns_type (link_input te cur t ss) = map ns_type ss"
  by (simp add: link_input_def Let_def map_update_same)

lemma fold_link_input_frame:
  "map ns_nodes (fold (link_input te cur) ts ss) = map ns_nodes ss \<and>
   map ns_type (fold (link_input te cur) ts ss) = map ns_type ss \<and>
   length (fold (link_input te cur) ts ss) = length ss"
  by (induction ts arbitrary: ss) (simp_all add: link_input_frame)

lemma length_assign_outputs [simp]: "length (assign_outputs e nd es) = length es"
proof -
  have "length (fold (\<lambda>t es. if t = kTfLiteOptionalTensor then es else es[nat t := e]) ts es) = length es"
    for ts es by (induction ts arbitrary: es) auto
  then show ?thesis by (simp add: assign_outputs_def)
qed

lemma nth_assign_outputs:
  assumes "\<forall>t\<in>set (nd_outputs nd). t = kTfLiteOptionalTensor \<or> 0 \<le> t" and "t < length es"
  shows "assign_outputs e nd es ! t = (if int t \<in> set (nd_outputs nd) then e else es ! t)"
proof -
  have "fold (\<lambda>t es. if t = kTfLiteOptionalTensor then es else es[nat t := e]) ts es ! t =
      (if int t \<in> set ts then e else es ! t)"
    if "\<forall>t\<in>set ts. t = kTfLiteOptionalTensor \<or> 0 \<le> t" and "t < length es" for ts es
    using that
  proof (induction ts arbitrary: es)
    case (Cons u ts)
    then show ?case by (cases "u = -1") (auto simp: nth_list_update)
  qed simp
  then show ?thesis using assms by (simp add: assign_outputs_def)
qed

text \<open>Counting up or down one entry for each edge of a list.\<close>

lemma nth_fold_count:
  assumes "\<forall>e\<in>set es. 0 \<le> snd e \<and> nat (snd e) < length inc" and "i < length inc"
  shows "fold (\<lambda>e inc. inc[nat (snd e) := inc ! nat (snd e) + d]) es inc ! i =
         inc ! i + d * int (length (filter (\<lambda>e. snd e = int i) es)) \<and>
         length (fold (\<lambda>e inc. inc[nat (snd e) := inc ! nat (snd e) + d]) es inc) = length inc"
  using assms
proof (induction es arbitrary: inc)
  case (Cons e es)
  let ?inc = "inc[nat (snd e) := inc ! nat (snd e) + d]"
  have "fold (\<lambda>e inc. inc[nat (snd e) := inc ! nat (snd e) + d]) es ?inc ! i =
      ?inc ! i + d * int (length (filter (\<lambda>e. snd e = int i) es)) \<and>
      length (fold (\<lambda>e inc. inc[nat (snd e) := inc ! nat (snd e) + d]) es ?inc) = length ?inc"
    using Cons.prems by (intro Cons.IH) auto
  then show ?case using Cons.prems by (auto simp: nth_list_update algebra_simps)
qed simp

lemma edges_from_set:
  assumes "sorted (pc_control_edges c)" and "distinct (pc_control_edges c)"
    and "\<forall>e\<in>set (pc_control_edges c). 0 \<le> snd e"
  shows "set (edges_from c i) = {e \<in> set (pc_control_edges c). fst e = int i}" and "distinct (edges_from c i)"
proof -
  let ?es = "pc_control_edges c"
  let ?ds = "dropWhile (\<lambda>e. e < (int i, 0)) ?es"
  have srt: "sorted ?ds" using assms(1) by (simp add: sorted_dropWhile)
  show "distinct (edges_from c i)" using assms(2) by (simp add: edges_from_def)
  show "set (edges_from c i) = {e \<in> set ?es. fst e = int i}"
  proof (rule set_eqI, rule iffI)
    fix e assume "e \<in> set (edges_from c i)"
    then show "e \<in> {e \<in> set ?es. fst e = int i}"
      by (auto simp: edges_from_def dest!: set_takeWhileD set_dropWhileD)
  next
    fix e assume e: "e \<in> {e \<in> set ?es. fst e = int i}"
    obtain a b where ab: "e = (int i, b)" "0 \<le> b" using e assms(3) by (cases e) fastforce
    have "e \<in> set ?ds"
    proof (rule ccontr)
      assume "e \<notin> set ?ds"
      then have "e \<in> set (takeWhile (\<lambda>e. e < (int i, 0)) ?es)"
        using e set_append [of "takeWhile (\<lambda>e. e < (int i, 0)) ?es" ?ds] by simp
      then show False using ab by (auto dest: set_takeWhileD)
    qed
    then obtain k where k: "k < length ?ds" "?ds ! k = e" by (auto simp: in_set_conv_nth)
    have "fst (?ds ! j) = int i" if "j \<le> k" for j
    proof -
      have "0 < length ?ds" using k(1) by linarith
      then have ne: "?ds \<noteq> []" by (rule length_greater_0_conv [THEN iffD1])
      then have "\<not> hd ?ds < (int i, 0)" by (rule hd_dropWhile)
      then have hd: "\<not> ?ds ! 0 < (int i, 0)" using ne by (simp add: hd_conv_nth)
      have "?ds ! 0 \<le> ?ds ! j" "?ds ! j \<le> e" using srt that k by (auto intro: sorted_nth_mono)
      then show ?thesis using hd ab by (cases "?ds ! 0"; cases "?ds ! j") auto
    qed
    then have tw: "takeWhile (\<lambda>e. fst e = int i) (take (Suc k) ?ds) = take (Suc k) ?ds"
      using k(1) by (auto simp: takeWhile_eq_all_conv in_set_conv_nth) (metis fst_conv less_Suc_eq_le)
    have "e \<in> set (take (Suc k) ?ds)" using k by (auto simp: in_set_conv_nth)
    then have "e \<in> set (takeWhile (\<lambda>e. fst e = int i) (take (Suc k) ?ds @ drop (Suc k) ?ds))"
      using tw by (simp add: takeWhile_append2 takeWhile_eq_all_conv del: append_take_drop_id)
    then show "e \<in> set (edges_from c i)" by (simp add: edges_from_def)
  qed
qed

section \<open>A node update keeps the invariant\<close>

lemma nth_types_update:
  assumes "\<forall>ss\<in>set xs. \<forall>x\<in>set (ns_nodes ss). T x = ns_type ss"
    and "map ns_nodes ys = map ns_nodes xs" and "map ns_type ys = map ns_type xs"
  shows "\<forall>ss\<in>set ys. \<forall>x\<in>set (ns_nodes ss). T x = ns_type ss"
proof
  fix ss assume "ss \<in> set ys"
  then obtain k where k: "k < length ys" "ss = ys ! k" by (auto simp: in_set_conv_nth)
  have len: "length ys = length xs" using assms(2) by (metis length_map)
  have "ns_nodes ss = ns_nodes (xs ! k)" "ns_type ss = ns_type (xs ! k)"
    using k len assms(2,3) by (metis nth_map)+
  then show "\<forall>x\<in>set (ns_nodes ss). T x = ns_type ss" using assms(1) k len by simp
qed

lemma concat_last_append:
  assumes "xs \<noteq> []"
  shows "concat (map f (xs[length xs - 1 := y])) = concat (map f (butlast xs)) @ f y"
  using assms by (cases xs rule: rev_cases) (simp_all add: list_update_append)

lemma last_list_nth: "xs \<noteq> [] \<Longrightarrow> xs ! (length xs - 1) = last xs"
  by (simp add: last_conv_nth)

lemma data_order_snoc:
  assumes "data_order info order"
    and "\<forall>t\<in>set (nd_inputs (gi_nodes info ! i)). t \<noteq> kTfLiteOptionalTensor \<and> produced info t \<longrightarrow>
           (\<exists>j\<in>set order. t \<in> set (nd_outputs (gi_nodes info ! j)))"
  shows "data_order info (order @ [i])"
  unfolding data_order_def
proof (intro allI impI ballI)
  fix k t assume k: "k < length (order @ [i])" and t: "t \<in> set (nd_inputs (gi_nodes info ! ((order @ [i]) ! k)))"
    and p: "t \<noteq> kTfLiteOptionalTensor \<and> produced info t"
  show "\<exists>j<k. t \<in> set (nd_outputs (gi_nodes info ! ((order @ [i]) ! j)))"
  proof (cases "k < length order")
    case True
    then obtain j where "j < k" "t \<in> set (nd_outputs (gi_nodes info ! (order ! j)))"
      using assms(1) t p by (auto simp: data_order_def nth_append)
    then show ?thesis using True by (intro exI [of _ j]) (simp add: nth_append)
  next
    case False
    then have "k = length order" using k by simp
    then obtain x where "x \<in> set order" "t \<in> set (nd_outputs (gi_nodes info ! x))" using assms(2) t p by auto
    then show ?thesis using \<open>k = length order\<close> by (auto simp: in_set_conv_nth nth_append)
  qed
qed

lemma edge_order_snoc:
  assumes "edge_order es order" and "\<forall>e\<in>set es. snd e = int i \<longrightarrow> (\<exists>x\<in>set order. int x = fst e)"
  shows "edge_order es (order @ [i])"
  unfolding edge_order_def
proof (intro allI impI ballI)
  fix k e assume k: "k < length (order @ [i])" and e: "e \<in> set es" "snd e = int ((order @ [i]) ! k)"
  show "\<exists>j<k. int ((order @ [i]) ! j) = fst e"
  proof (cases "k < length order")
    case True
    then obtain j where "j < k" "int (order ! j) = fst e" using assms(1) e by (auto simp: edge_order_def nth_append)
    then show ?thesis using True by (intro exI [of _ j]) (simp add: nth_append)
  next
    case False
    then have "k = length order" using k by simp
    then obtain x where "x \<in> set order" "int x = fst e" using assms(2) e by auto
    then show ?thesis using \<open>k = length order\<close> by (auto simp: in_set_conv_nth nth_append)
  qed
qed

lemma wf_graph_node:
  assumes "wf_graph info" and "i < length (gi_nodes info)"
  shows "\<forall>t\<in>set (nd_outputs (gi_nodes info ! i)). t = kTfLiteOptionalTensor \<or> 0 \<le> t"
    and "\<forall>t\<in>set (nd_inputs (gi_nodes info ! i)). t = kTfLiteOptionalTensor \<or> 0 \<le> t \<and> t < int (gi_num_tensors info)"
  using assms by (auto simp: wf_graph_def)

lemma inputs_ready_produced:
  assumes "wf_config c" and "partition_inv c order s" and "i < length (gi_nodes (pc_info c))"
    and "inputs_ready s (gi_nodes (pc_info c) ! i)"
  shows "\<forall>t\<in>set (nd_inputs (gi_nodes (pc_info c) ! i)). t \<noteq> kTfLiteOptionalTensor \<and> produced (pc_info c) t \<longrightarrow>
           (\<exists>j\<in>set order. t \<in> set (nd_outputs (gi_nodes (pc_info c) ! j)))"
proof (intro ballI impI)
  fix t assume t: "t \<in> set (nd_inputs (gi_nodes (pc_info c) ! i))" "t \<noteq> kTfLiteOptionalTensor \<and> produced (pc_info c) t"
  have rng: "0 \<le> t" "nat t < gi_num_tensors (pc_info c)"
    using wf_graph_node(2) [OF _ assms(3)] assms(1) t by (auto simp: wf_config_def)
  have "ps_tensor_epochs s ! nat t \<noteq> kEpochNotReady" using assms(4) t by (auto simp: inputs_ready_def list_all_iff)
  then show "\<exists>j\<in>set order. t \<in> set (nd_outputs (gi_nodes (pc_info c) ! j))"
    using assms(2) rng t by (auto simp: partition_inv_def Let_def)
qed

lemma incoming_zero:
  assumes "wf_config c" and "partition_inv c order s" and "i < length (gi_nodes (pc_info c))"
    and "ps_num_incoming s ! i = 0"
  shows "\<forall>e\<in>set (pc_control_edges c). snd e = int i \<longrightarrow> (\<exists>x\<in>set order. int x = fst e)"
proof (intro ballI impI)
  fix e assume e: "e \<in> set (pc_control_edges c)" "snd e = int i"
  have "card {e \<in> set (pc_control_edges c). snd e = int i \<and> nat (fst e) \<notin> set order} = 0"
    using assms by (auto simp: partition_inv_def Let_def)
  then have "nat (fst e) \<in> set order" using e by (cases e) (auto simp: card_eq_0_iff)
  moreover have "0 \<le> fst e" using assms(1) e by (auto simp: wf_config_def wf_edges_def)
  ultimately show "\<exists>x\<in>set order. int x = fst e" by (intro bexI [of _ "nat (fst e)"]) auto
qed

lemma UpdateNode_False: "UpdateNode c i s = (False, s') \<Longrightarrow> s' = s"
  by (auto simp: UpdateNode_def Let_def split: if_splits)

lemma UpdateNode_True:
  assumes "UpdateNode c i s = (True, s')"
  defines "cur \<equiv> length (ps_subsets s) - 1" and "nd \<equiv> gi_nodes (pc_info c) ! i"
    and "x \<equiv> gi_node_index (pc_info c) ! i"
  shows "ps_node_epochs s ! i = kEpochNotReady" "inputs_ready s nd" "ps_num_incoming s ! i = 0"
    "ps_node_epochs s' = (ps_node_epochs s)[i := int cur]"
    "ps_tensor_epochs s' = assign_outputs (int cur) nd (ps_tensor_epochs s)"
    "ps_num_incoming s' = fold (\<lambda>e inc. inc[nat (snd e) := inc ! nat (snd e) - 1]) (edges_from c i) (ps_num_incoming s)"
    "\<exists>ss2. ns_nodes ss2 = ns_nodes (ps_subsets s ! cur) @ [x] \<and> ns_type ss2 = pc_node_type c ! nat x \<and>
       (ns_type (ps_subsets s ! cur) = kTfUnexplored \<or> ns_type (ps_subsets s ! cur) = ns_type ss2) \<and>
       ps_subsets s' = fold (link_input (assign_outputs (int cur) nd (ps_tensor_epochs s)) cur) (nd_inputs nd)
         ((ps_subsets s)[cur := ss2])"
  using assms(1) unfolding cur_def nd_def x_def
proof -
  let ?cs = "ps_subsets s ! (length (ps_subsets s) - 1)"
  let ?T = "pc_node_type c ! nat (gi_node_index (pc_info c) ! i)"
  let ?s1 = "if ns_type ?cs = kTfUnexplored then ?cs\<lparr>ns_type := ?T\<rparr> else ?cs"
  let ?s2 = "?s1\<lparr>ns_nodes := ns_nodes ?s1 @ [gi_node_index (pc_info c) ! i]\<rparr>"
  let ?te = "assign_outputs (int (length (ps_subsets s) - 1)) (gi_nodes (pc_info c) ! i) (ps_tensor_epochs s)"
  have ty: "ns_type ?s1 = ?T"
    and s': "s' = s\<lparr>ps_subsets := fold (link_input ?te (length (ps_subsets s) - 1)) (nd_inputs (gi_nodes (pc_info c) ! i))
            ((ps_subsets s)[length (ps_subsets s) - 1 := ?s2]),
       ps_tensor_epochs := ?te, ps_node_epochs := (ps_node_epochs s)[i := int (length (ps_subsets s) - 1)],
       ps_num_incoming := fold (\<lambda>e inc. inc[nat (snd e) := inc ! nat (snd e) - 1]) (edges_from c i) (ps_num_incoming s)\<rparr>"
    and pre: "ps_node_epochs s ! i = kEpochNotReady" "inputs_ready s (gi_nodes (pc_info c) ! i)" "ps_num_incoming s ! i = 0"
    using assms(1) unfolding UpdateNode_def by (simp_all add: Let_def split: if_splits)
  from pre s' show "ps_node_epochs s ! i = kEpochNotReady" "inputs_ready s (gi_nodes (pc_info c) ! i)"
    "ps_num_incoming s ! i = 0"
    "ps_node_epochs s' = (ps_node_epochs s)[i := int (length (ps_subsets s) - 1)]"
    "ps_tensor_epochs s' = ?te"
    "ps_num_incoming s' = fold (\<lambda>e inc. inc[nat (snd e) := inc ! nat (snd e) - 1]) (edges_from c i) (ps_num_incoming s)"
    by simp_all
  show "\<exists>ss2. ns_nodes ss2 = ns_nodes ?cs @ [gi_node_index (pc_info c) ! i] \<and> ns_type ss2 = ?T \<and>
       (ns_type ?cs = kTfUnexplored \<or> ns_type ?cs = ns_type ss2) \<and>
       ps_subsets s' = fold (link_input ?te (length (ps_subsets s) - 1)) (nd_inputs (gi_nodes (pc_info c) ! i))
         ((ps_subsets s)[length (ps_subsets s) - 1 := ss2])"
    using ty s' by (intro exI [of _ ?s2]) (auto split: if_splits)
qed

text \<open>The subset being filled is unexplored exactly while it is empty.\<close>

definition filling :: "partition_state \<Rightarrow> bool" where
  "filling s \<longleftrightarrow> ps_subsets s \<noteq> [] \<and>
     (ns_type (last (ps_subsets s)) = kTfUnexplored \<longrightarrow> ns_nodes (last (ps_subsets s)) = [])"

lemma UpdateNode_subsets:
  assumes "filling s" and "UpdateNode c i s = (True, s')"
    and "\<forall>ss\<in>set (ps_subsets s). \<forall>x\<in>set (ns_nodes ss). pc_node_type c ! nat x = ns_type ss"
  shows "length (ps_subsets s') = length (ps_subsets s)"
    "concat (map ns_nodes (ps_subsets s')) = concat (map ns_nodes (ps_subsets s)) @ [gi_node_index (pc_info c) ! i]"
    "\<forall>ss\<in>set (ps_subsets s'). \<forall>x\<in>set (ns_nodes ss). pc_node_type c ! nat x = ns_type ss"
    "ns_nodes (last (ps_subsets s')) \<noteq> []"
    "ns_type (last (ps_subsets s')) = pc_node_type c ! nat (gi_node_index (pc_info c) ! i)"
    "map ns_nodes (butlast (ps_subsets s')) = map ns_nodes (butlast (ps_subsets s))"
    "map ns_type (butlast (ps_subsets s')) = map ns_type (butlast (ps_subsets s))"
proof -
  let ?ss = "ps_subsets s" and ?x = "gi_node_index (pc_info c) ! i"
  have ne: "?ss \<noteq> []" using assms(1) by (simp add: filling_def)
  obtain ss2 te where ss2: "ns_nodes ss2 = ns_nodes (last ?ss) @ [?x]" "ns_type ss2 = pc_node_type c ! nat ?x"
      "ns_type (last ?ss) = kTfUnexplored \<or> ns_type (last ?ss) = ns_type ss2"
    and sub: "ps_subsets s' = fold (link_input te (length ?ss - 1)) (nd_inputs (gi_nodes (pc_info c) ! i))
      (?ss[length ?ss - 1 := ss2])"
    using UpdateNode_True(7) [OF assms(2)] unfolding last_list_nth [OF ne] by blast
  have s': "map ns_nodes (ps_subsets s') = map ns_nodes (?ss[length ?ss - 1 := ss2])"
      "map ns_type (ps_subsets s') = map ns_type (?ss[length ?ss - 1 := ss2])"
      "length (ps_subsets s') = length ?ss"
    unfolding sub by (simp_all add: fold_link_input_frame)
  show len: "length (ps_subsets s') = length ?ss" by (rule s')
  obtain xs x0 where xs: "?ss = xs @ [x0]" using ne by (cases ?ss rule: rev_cases) auto
  obtain ys y where ys: "ps_subsets s' = ys @ [y]" using ne len by (cases "ps_subsets s'" rule: rev_cases) auto
  have upd: "?ss[length ?ss - 1 := ss2] = xs @ [ss2]" by (simp add: xs list_update_append)
  have eqs: "map ns_nodes ys = map ns_nodes xs" "ns_nodes y = ns_nodes ss2"
    "map ns_type ys = map ns_type xs" "ns_type y = ns_type ss2"
    using s'(1,2) unfolding upd ys by simp_all
  show "concat (map ns_nodes (ps_subsets s')) = concat (map ns_nodes ?ss) @ [?x]"
    "map ns_nodes (butlast (ps_subsets s')) = map ns_nodes (butlast ?ss)"
    "map ns_type (butlast (ps_subsets s')) = map ns_type (butlast ?ss)"
    "ns_nodes (last (ps_subsets s')) \<noteq> []" "ns_type (last (ps_subsets s')) = pc_node_type c ! nat ?x"
    using eqs ss2 by (simp_all add: xs ys)
  have "\<forall>ss\<in>set (?ss[length ?ss - 1 := ss2]). \<forall>x\<in>set (ns_nodes ss). pc_node_type c ! nat x = ns_type ss"
    using assms(1,3) ss2 unfolding upd filling_def by (auto simp: xs)
  then show "\<forall>ss\<in>set (ps_subsets s'). \<forall>x\<in>set (ns_nodes ss). pc_node_type c ! nat x = ns_type ss"
    by (rule nth_types_update) (use s' in simp_all)
qed

lemma UpdateNode_incoming:
  assumes "wf_config c" and "partition_inv c order s" and "i < length (gi_nodes (pc_info c))" and "i \<notin> set order"
    and "k < length (gi_nodes (pc_info c))"
  shows "fold (\<lambda>e inc. inc[nat (snd e) := inc ! nat (snd e) - 1]) (edges_from c i) (ps_num_incoming s) ! k =
    int (card {e \<in> set (pc_control_edges c). snd e = int k \<and> nat (fst e) \<notin> set (order @ [i])}) \<and>
    length (fold (\<lambda>e inc. inc[nat (snd e) := inc ! nat (snd e) - 1]) (edges_from c i) (ps_num_incoming s)) =
    length (ps_num_incoming s)"
proof -
  let ?es = "pc_control_edges c"
  have wf: "sorted ?es" "distinct ?es" "\<forall>e\<in>set ?es. 0 \<le> fst e \<and> 0 \<le> snd e \<and> nat (snd e) < length (ps_num_incoming s)"
    using assms(1,2) by (auto simp: wf_config_def wf_edges_def partition_inv_def Let_def)
  have ef: "set (edges_from c i) = {e \<in> set ?es. fst e = int i}" "distinct (edges_from c i)"
    using edges_from_set [of c i] wf by auto
  have len: "length (ps_num_incoming s) = length (gi_nodes (pc_info c))" using assms(2) by (simp add: partition_inv_def Let_def)
  have all: "\<forall>e\<in>set (edges_from c i). 0 \<le> snd e \<and> nat (snd e) < length (ps_num_incoming s)" using ef wf by auto
  let ?A = "{e \<in> set ?es. snd e = int k \<and> nat (fst e) \<notin> set order}"
  let ?B = "{e \<in> set ?es. fst e = int i \<and> snd e = int k}"
  let ?C = "{e \<in> set ?es. snd e = int k \<and> nat (fst e) \<notin> set (order @ [i])}"
  have "length (filter (\<lambda>e. snd e = int k) (edges_from c i)) = card (set (filter (\<lambda>e. snd e = int k) (edges_from c i)))"
    by (rule distinct_card [symmetric]) (simp add: ef(2))
  also have "set (filter (\<lambda>e. snd e = int k) (edges_from c i)) = ?B" using ef(1) by auto
  finally have cnt: "length (filter (\<lambda>e. snd e = int k) (edges_from c i)) = card ?B" .
  have "?A = ?C \<union> ?B" "?C \<inter> ?B = {}" using wf(3) assms(4) by (auto simp: nat_eq_iff)
  then have "card ?A = card ?C + card ?B" by (simp add: card_Un_disjoint)
  moreover have "ps_num_incoming s ! k = int (card ?A)" using assms(2,5) by (auto simp: partition_inv_def Let_def)
  moreover have "fold (\<lambda>e inc. inc[nat (snd e) := inc ! nat (snd e) - 1]) (edges_from c i) (ps_num_incoming s) ! k =
      ps_num_incoming s ! k - int (card ?B) \<and>
      length (fold (\<lambda>e inc. inc[nat (snd e) := inc ! nat (snd e) - 1]) (edges_from c i) (ps_num_incoming s)) =
      length (ps_num_incoming s)"
    using nth_fold_count [OF all, of k "-1"] assms(5) len cnt by simp
  ultimately show ?thesis by simp
qed

lemma UpdateNode_inv:
  assumes "wf_config c" and "partition_inv c order s" and "filling s" and "i < length (gi_nodes (pc_info c))"
    and "UpdateNode c i s = (True, s')"
  shows "partition_inv c (order @ [i]) s'" and "filling s'" and "i \<notin> set order"
proof -
  let ?info = "pc_info c" and ?nd = "gi_nodes (pc_info c) ! i" and ?x = "gi_node_index (pc_info c) ! i"
  note T = UpdateNode_True [OF assms(5)]
  have wfg: "wf_graph ?info" using assms(1) by (simp add: wf_config_def)
  have I: "length (ps_node_epochs s) = length (gi_nodes ?info)" "length (ps_tensor_epochs s) = gi_num_tensors ?info"
    "length (ps_num_incoming s) = length (gi_nodes ?info)" "distinct order" "set order \<subseteq> {..<length (gi_nodes ?info)}"
    "\<forall>j<length (gi_nodes ?info). ps_node_epochs s ! j \<noteq> kEpochNotReady \<longleftrightarrow> j \<in> set order"
    "concat (map ns_nodes (ps_subsets s)) = map (\<lambda>i. gi_node_index ?info ! i) order"
    "\<forall>ss\<in>set (ps_subsets s). \<forall>x\<in>set (ns_nodes ss). pc_node_type c ! nat x = ns_type ss"
    "data_order ?info order" "edge_order (pc_control_edges c) order"
    using assms(2) by (simp_all add: partition_inv_def Let_def)
  have TE: "\<forall>t<gi_num_tensors ?info. ps_tensor_epochs s ! t = kEpochNotReady \<longleftrightarrow>
      produced ?info (int t) \<and> \<not> (\<exists>j\<in>set order. int t \<in> set (nd_outputs (gi_nodes ?info ! j)))"
    using assms(2) by (simp add: partition_inv_def Let_def)
  show new: "i \<notin> set order" using I(6) T(1) assms(4) by auto
  note sub = UpdateNode_subsets [OF assms(3,5) I(8)]
  have idx: "nat ?x < length (pc_node_type c)"
    using wfg assms(1,4) by (auto simp: wf_graph_def wf_config_def nat_less_iff)
  then have "ns_type (last (ps_subsets s')) \<noteq> kTfUnexplored"
    using assms(1) nth_mem [OF idx] unfolding sub(5) wf_config_def by metis
  then show "filling s'" using sub(1) assms(3) by (auto simp: filling_def)
  have epochs: "\<forall>j<length (gi_nodes ?info). ps_node_epochs s' ! j \<noteq> kEpochNotReady \<longleftrightarrow> j \<in> set (order @ [i])"
    using I(1,6) assms(4) by (auto simp: T(4) nth_list_update)
  have tens: "\<forall>t<gi_num_tensors ?info. ps_tensor_epochs s' ! t = kEpochNotReady \<longleftrightarrow>
      produced ?info (int t) \<and> \<not> (\<exists>j\<in>set (order @ [i]). int t \<in> set (nd_outputs (gi_nodes ?info ! j)))"
    using TE I(2) wf_graph_node(1) [OF wfg assms(4)] by (auto simp: T(5) nth_assign_outputs)
  have inc: "\<forall>k<length (gi_nodes ?info). ps_num_incoming s' ! k =
      int (card {e \<in> set (pc_control_edges c). snd e = int k \<and> nat (fst e) \<notin> set (order @ [i])})"
    "length (ps_num_incoming s') = length (gi_nodes ?info)"
    using UpdateNode_incoming [OF assms(1,2,4) new] I(3) assms(4) unfolding T(6) by auto
  have orders: "data_order ?info (order @ [i])" "edge_order (pc_control_edges c) (order @ [i])"
    using data_order_snoc [OF I(9) inputs_ready_produced [OF assms(1,2,4) T(2)]]
      edge_order_snoc [OF I(10) incoming_zero [OF assms(1,2,4) T(3)]] by simp_all
  show "partition_inv c (order @ [i]) s'"
    unfolding partition_inv_def Let_def
    using I sub epochs tens inc orders assms(4) new by (simp add: T(4,5))
qed

section \<open>The passes\<close>

text \<open>
  What a run of updates does: it extends the order, and it did something exactly when the order grew.
\<close>

definition pass_result :: "partition_config \<Rightarrow> nat list \<Rightarrow> bool \<Rightarrow> bool \<Rightarrow> partition_state \<Rightarrow> partition_state \<Rightarrow> bool" where
  "pass_result c order did did' s s' \<longleftrightarrow>
     (\<exists>new. partition_inv c (order @ new) s' \<and> filling s' \<and> (did' \<longleftrightarrow> did \<or> new \<noteq> []) \<and>
        (new = [] \<longrightarrow> s' = s) \<and> (new \<noteq> [] \<longrightarrow> ns_nodes (last (ps_subsets s')) \<noteq> []) \<and>
        length (ps_subsets s') = length (ps_subsets s))"

lemma update_pass_inv:
  assumes "wf_config c" and "partition_inv c order s" and "filling s"
    and "\<forall>i\<in>set is. i < length (gi_nodes (pc_info c))"
    and "update_pass c is did s = (returned, did', s')"
  shows "pass_result c order did did' s s'"
  using assms(2-5)
proof (induction "is" arbitrary: order did s)
  case Nil
  then show ?case by (auto simp: pass_result_def intro: exI [of _ "[]"])
next
  case (Cons i "is")
  obtain u s1 where u: "UpdateNode c i s = (u, s1)" by (cases "UpdateNode c i s")
  show ?case
  proof (cases u)
    case True
    have u1: "UpdateNode c i s = (True, s1)" using u True by simp
    have i: "i < length (gi_nodes (pc_info c))" using Cons.prems(3) by simp
    note step = UpdateNode_inv [OF assms(1) Cons.prems(1,2) i u1]
    have types: "\<forall>ss\<in>set (ps_subsets s). \<forall>x\<in>set (ns_nodes ss). pc_node_type c ! nat x = ns_type ss"
      using Cons.prems(1) unfolding partition_inv_def Let_def by (elim conjE)
    note ss = UpdateNode_subsets(1,4) [OF Cons.prems(2) u1 types]
    have "pass_result c (order @ [i]) True did' s1 s'"
      using Cons.IH [of "order @ [i]" s1 True] step Cons.prems(3,4) u True by simp
    then obtain new where "partition_inv c (order @ [i] @ new) s'" "filling s'" "did'"
      "new = [] \<longrightarrow> s' = s1" "new \<noteq> [] \<longrightarrow> ns_nodes (last (ps_subsets s')) \<noteq> []"
      "length (ps_subsets s') = length (ps_subsets s1)"
      by (auto simp: pass_result_def)
    then show ?thesis using ss by (auto simp: pass_result_def intro!: exI [of _ "i # new"])
  next
    case False
    then have "s1 = s" using UpdateNode_False [of c i s s1] u by simp
    then show ?thesis
      using Cons.IH [of order s did] Cons.prems u False
      by (auto simp: pass_result_def split: if_splits intro: exI [of _ "[]"])
  qed
qed

lemma update_pass_did: "update_pass c is True s = (r, d, s') \<Longrightarrow> d"
  by (induction "is" arbitrary: s) (auto split: prod.splits if_splits)

lemma update_pass_idle:
  "update_pass c is False s = (r, False, s') \<Longrightarrow> \<forall>i\<in>set is. UpdateNode c i s = (False, s)"
proof (induction "is")
  case (Cons i "is")
  obtain u s1 where u: "UpdateNode c i s = (u, s1)" by (cases "UpdateNode c i s")
  have "\<not> u" using Cons.prems u update_pass_did by (auto split: if_splits)
  then have "s1 = s" using UpdateNode_False [of c i s s1] u by simp
  then show ?case using Cons u \<open>\<not> u\<close> by simp
qed simp

lemma order_bound: "partition_inv c order s \<Longrightarrow> length order \<le> length (gi_nodes (pc_info c))"
proof -
  assume "partition_inv c order s"
  then have "distinct order" "set order \<subseteq> {..<length (gi_nodes (pc_info c))}" by (simp_all add: partition_inv_def Let_def)
  then show ?thesis by (metis card_lessThan card_mono distinct_card finite_lessThan)
qed

lemma build_loop_inv:
  assumes "wf_config c" and "partition_inv c order s" and "filling s"
    and "length (gi_nodes (pc_info c)) < fuel + length order"
  shows "\<exists>s' new. build_loop fuel c s = Some s' \<and> partition_inv c (order @ new) s' \<and> filling s' \<and>
    length (ps_subsets s') = length (ps_subsets s) \<and>
    (new \<noteq> [] \<longrightarrow> ns_nodes (last (ps_subsets s')) \<noteq> []) \<and>
    (new = [] \<longrightarrow> s' = s \<and> (\<forall>i<length (gi_nodes (pc_info c)). UpdateNode c i s = (False, s)))"
  using assms(2-4)
proof (induction fuel arbitrary: order s)
  case 0
  then show ?case using order_bound [OF "0.prems"(1)] by simp
next
  case (Suc fuel)
  let ?is = "[0..<num_execution_nodes (pc_info c)]"
  obtain r d s1 where p: "update_pass c ?is False s = (r, d, s1)" by (metis prod_cases3)
  have "pass_result c order False d s s1"
    using update_pass_inv [OF assms(1) Suc.prems(1,2) _ p] by (simp add: num_execution_nodes_def)
  then obtain new where new: "partition_inv c (order @ new) s1" "filling s1" "d \<longleftrightarrow> new \<noteq> []"
    "new = [] \<longrightarrow> s1 = s" "new \<noteq> [] \<longrightarrow> ns_nodes (last (ps_subsets s1)) \<noteq> []"
    "length (ps_subsets s1) = length (ps_subsets s)"
    by (auto simp: pass_result_def)
  show ?case
  proof (cases "r \<or> \<not> d")
    case True
    have "\<not> d \<Longrightarrow> \<forall>i<length (gi_nodes (pc_info c)). UpdateNode c i s = (False, s)"
      using update_pass_idle p by (fastforce simp: num_execution_nodes_def)
    then show ?thesis using True p new by (intro exI [of _ s1] exI [of _ new]) auto
  next
    case False
    then have "length (gi_nodes (pc_info c)) < fuel + length (order @ new)" using Suc.prems(3) new(3) by (cases new) auto
    from Suc.IH [OF new(1,2) this] obtain s2 new2 where
      "build_loop fuel c s1 = Some s2" "partition_inv c ((order @ new) @ new2) s2" "filling s2"
      "length (ps_subsets s2) = length (ps_subsets s1)" "new2 \<noteq> [] \<longrightarrow> ns_nodes (last (ps_subsets s2)) \<noteq> []"
      "new2 = [] \<longrightarrow> s2 = s1"
      by blast
    then show ?thesis using False p new by (intro exI [of _ s2] exI [of _ "new @ new2"]) (cases "new2 = []", auto)
  qed
qed

lemma partition_inv_add_subset:
  "partition_inv c order s \<Longrightarrow> partition_inv c order (s\<lparr>ps_subsets := ps_subsets s @ [new_subset]\<rparr>)"
  by (auto simp: partition_inv_def Let_def new_subset_def)

lemma partition_inv_drop_subset:
  assumes "partition_inv c order s" and "ps_subsets s \<noteq> []" and "ns_nodes (last (ps_subsets s)) = []"
  shows "partition_inv c order (s\<lparr>ps_subsets := butlast (ps_subsets s)\<rparr>)"
proof -
  obtain xs x where "ps_subsets s = xs @ [x]" using assms(2) by (cases "ps_subsets s" rule: rev_cases) auto
  then show ?thesis using assms(1,3) by (auto simp: partition_inv_def Let_def)
qed

text \<open>A state from which no new subset can be started.\<close>

definition stuck :: "partition_config \<Rightarrow> partition_state \<Rightarrow> bool" where
  "stuck c s \<longleftrightarrow> (\<forall>i<length (gi_nodes (pc_info c)).
     UpdateNode c i (s\<lparr>ps_subsets := ps_subsets s @ [new_subset]\<rparr>) =
     (False, s\<lparr>ps_subsets := ps_subsets s @ [new_subset]\<rparr>))"

lemma partition_loop_inv:
  assumes "wf_config c" and "partition_inv c order s" and "length (gi_nodes (pc_info c)) < fuel + length order"
  shows "\<exists>s' new. partition_loop fuel c s = Some s' \<and> partition_inv c (order @ new) s' \<and> stuck c s'"
  using assms(2,3)
proof (induction fuel arbitrary: order s)
  case 0
  then show ?case using order_bound [OF "0.prems"(1)] by simp
next
  case (Suc fuel)
  let ?s0 = "s\<lparr>ps_subsets := ps_subsets s @ [new_subset]\<rparr>"
  have inv0: "partition_inv c order ?s0" using partition_inv_add_subset Suc.prems(1) .
  have fill: "filling ?s0" by (simp add: filling_def new_subset_def)
  have "length (gi_nodes (pc_info c)) < Suc (num_execution_nodes (pc_info c)) + length order"
    by (simp add: num_execution_nodes_def)
  from build_loop_inv [OF assms(1) inv0 fill this] obtain s1 new where
    b: "BuildNodeSubset (Suc (num_execution_nodes (pc_info c))) c s = Some s1" and
    inv1: "partition_inv c (order @ new) s1" "filling s1" and
    ne: "new \<noteq> [] \<longrightarrow> ns_nodes (last (ps_subsets s1)) \<noteq> []" and
    idle: "new = [] \<longrightarrow> s1 = ?s0 \<and> (\<forall>i<length (gi_nodes (pc_info c)). UpdateNode c i ?s0 = (False, ?s0))"
    unfolding BuildNodeSubset_def by blast
  show ?case
  proof (cases "new = []")
    case True
    then have "partition_loop (Suc fuel) c s = Some s" using b idle by (simp add: new_subset_def)
    then show ?thesis using Suc.prems(1) idle True by (intro exI [of _ s] exI [of _ "[]"]) (simp add: stuck_def)
  next
    case False
    then have "length (gi_nodes (pc_info c)) < fuel + length (order @ new)" using Suc.prems(2) by (cases new) auto
    from Suc.IH [OF inv1(1) this] obtain s2 new2 where
      "partition_loop fuel c s1 = Some s2" "partition_inv c ((order @ new) @ new2) s2" "stuck c s2" by blast
    then show ?thesis using b ne False by (intro exI [of _ s2] exI [of _ "new @ new2"]) simp
  qed
qed

section \<open>The start state\<close>

lemma fold_assign_outputs:
  assumes "\<forall>nd\<in>set nds. \<forall>t\<in>set (nd_outputs nd). t = kTfLiteOptionalTensor \<or> 0 \<le> t" and "t < length es"
  shows "fold (assign_outputs e) nds es ! t = (if \<exists>nd\<in>set nds. int t \<in> set (nd_outputs nd) then e else es ! t)"
  using assms
proof (induction nds arbitrary: es)
  case (Cons nd nds)
  then have "fold (assign_outputs e) nds (assign_outputs e nd es) ! t =
      (if \<exists>nd\<in>set nds. int t \<in> set (nd_outputs nd) then e else assign_outputs e nd es ! t)" by simp
  then show ?case using Cons.prems by (simp add: nth_assign_outputs)
qed simp

lemma length_fold_assign_outputs: "length (fold (assign_outputs e) nds es) = length es"
  by (induction nds arbitrary: es) simp_all

lemma partition_start_inv:
  assumes "wf_config c"
  shows "partition_inv c [] (partition_start c)"
proof -
  let ?info = "pc_info c" and ?es = "pc_control_edges c" and ?n = "length (gi_nodes (pc_info c))"
  have wf: "wf_graph ?info" "wf_edges ?info ?es" "distinct ?es" using assms by (simp_all add: wf_config_def)
  have all: "\<forall>e\<in>set ?es. 0 \<le> snd e \<and> nat (snd e) < length (replicate ?n (0::int))"
    using wf(2) by (auto simp: wf_edges_def nat_less_iff)
  have inc: "ps_num_incoming (partition_start c) ! i = int (card {e \<in> set ?es. snd e = int i})"
    "length (ps_num_incoming (partition_start c)) = ?n" if "i < ?n" for i
  proof -
    have "length (filter (\<lambda>e. snd e = int i) ?es) = card (set (filter (\<lambda>e. snd e = int i) ?es))"
      by (rule distinct_card [symmetric]) (simp add: wf(3))
    then show "ps_num_incoming (partition_start c) ! i = int (card {e \<in> set ?es. snd e = int i})"
      "length (ps_num_incoming (partition_start c)) = ?n"
      using nth_fold_count [OF all, of i 1] that by (simp_all add: partition_start_def Let_def num_execution_nodes_def)
  qed
  have "length (ps_num_incoming (partition_start c)) = ?n"
  proof (cases "?n = 0")
    case True
    then have "?es = []" using wf(2) by (cases ?es) (auto simp: wf_edges_def)
    then show ?thesis using True by (simp add: partition_start_def Let_def num_execution_nodes_def)
  qed (use inc in blast)
  moreover have "\<forall>nd\<in>set (gi_nodes ?info). \<forall>t\<in>set (nd_outputs nd). t = kTfLiteOptionalTensor \<or> 0 \<le> t"
    using wf(1) by (auto simp: wf_graph_def)
  ultimately show ?thesis
    using inc(1) unfolding partition_inv_def Let_def
    by (auto simp: partition_start_def Let_def num_execution_nodes_def length_fold_assign_outputs fold_assign_outputs
        produced_def data_order_def edge_order_def)
qed

lemma set_Uniquefy [simp]: "set (Uniquefy xs) = set xs"
  by (simp add: Uniquefy_def)

lemma remdups_adj_sorted: "sorted xs \<Longrightarrow> sorted (remdups_adj xs) \<and> distinct (remdups_adj xs)"
proof (induction xs rule: remdups_adj.induct)
  case (3 x y xs)
  show ?case
  proof (cases "x = y")
    case False
    then have "x \<notin> set (y # xs)" using "3.prems" by auto
    then show ?thesis using 3 False by auto
  qed (use 3 in auto)
qed simp_all

lemma Uniquefy_sorted_distinct: "sorted (Uniquefy xs) \<and> distinct (Uniquefy xs)"
  by (simp add: Uniquefy_def remdups_adj_sorted)

lemma new_partitioner_types:
  assumes "\<forall>x\<in>set ntp. 0 \<le> x" and "k < n"
  shows "fold (\<lambda>x types. types[nat x := kTfPartition]) ntp (replicate n kTfNonPartition) ! k =
    (if int k \<in> set ntp then kTfPartition else kTfNonPartition) \<and>
    length (fold (\<lambda>x types. types[nat x := kTfPartition]) ntp (replicate n kTfNonPartition)) = n"
proof -
  have "fold (\<lambda>x types. types[nat x := kTfPartition]) ntp ts ! k = (if int k \<in> set ntp then kTfPartition else ts ! k) \<and>
      length (fold (\<lambda>x types. types[nat x := kTfPartition]) ntp ts) = length ts"
    if "k < length ts" and "\<forall>x\<in>set ntp. 0 \<le> x" for ts
    using that by (induction ntp arbitrary: ts) (auto simp: nth_list_update)
  from this [of "replicate n kTfNonPartition"] show ?thesis using assms by simp
qed

lemma new_partitioner_wf:
  assumes "wf_graph info" and "wf_edges info es" and "\<forall>x\<in>set ntp. 0 \<le> x"
  shows "wf_config (new_partitioner info ntp g es d)"
    and "x \<in> set (gi_node_index info) \<Longrightarrow>
      pc_node_type (new_partitioner info ntp g es d) ! nat x = (if x \<in> set ntp then kTfPartition else kTfNonPartition)"
proof -
  let ?types = "pc_node_type (new_partitioner info ntp g es d)"
  let ?n = "gi_num_total_nodes info"
  have len: "length ?types = ?n"
  proof -
    have "length (fold (\<lambda>x types. types[nat x := kTfPartition]) ntp ts) = length ts" for ts
      by (induction ntp arbitrary: ts) simp_all
    then show ?thesis by (simp add: new_partitioner_def)
  qed
  have nth: "?types ! k = (if int k \<in> set ntp then kTfPartition else kTfNonPartition)" if "k < ?n" for k
    using new_partitioner_types [OF assms(3) that] by (simp add: new_partitioner_def)
  then have "kTfUnexplored \<notin> set ?types" using len by (auto simp: in_set_conv_nth split: if_splits)
  then show "wf_config (new_partitioner info ntp g es d)"
    using assms(1,2) len Uniquefy_sorted_distinct [of es] unfolding wf_config_def
    by (simp add: new_partitioner_def wf_edges_def)
  show "?types ! nat x = (if x \<in> set ntp then kTfPartition else kTfNonPartition)" if "x \<in> set (gi_node_index info)"
    using that assms(1) nth [of "nat x"] by (auto simp: wf_graph_def nat_less_iff)
qed

lemma mark_output_frame:
  "map ns_nodes (mark_output te t ss) = map ns_nodes ss \<and> map ns_type (mark_output te t ss) = map ns_type ss"
  by (simp add: mark_output_def Let_def map_update_same)

lemma finish_frame:
  "map ns_nodes (map uniquefy_subset (fold (mark_output te) ts ss)) = map ns_nodes ss \<and>
   map ns_type (map uniquefy_subset (fold (mark_output te) ts ss)) = map ns_type ss"
proof -
  have "map ns_nodes (fold (mark_output te) ts ss) = map ns_nodes ss \<and>
      map ns_type (fold (mark_output te) ts ss) = map ns_type ss"
    by (induction ts arbitrary: ss) (simp_all add: mark_output_frame)
  then show ?thesis by (simp add: uniquefy_subset_def comp_def)
qed

text \<open>The graph is listed in an order of execution: producers and sources of edges come first.\<close>

definition plan_ordered :: "GraphInfo \<Rightarrow> ControlEdge list \<Rightarrow> bool" where
  "plan_ordered info es \<longleftrightarrow>
     data_order info [0..<length (gi_nodes info)] \<and> (\<forall>e\<in>set es. fst e < snd e)"

lemma stuck_complete:
  assumes "wf_config c" and "partition_inv c order s" and "stuck c s" and "plan_ordered (pc_info c) (pc_control_edges c)"
  shows "set order = {..<length (gi_nodes (pc_info c))}"
proof (rule ccontr)
  let ?n = "length (gi_nodes (pc_info c))" and ?s0 = "s\<lparr>ps_subsets := ps_subsets s @ [new_subset]\<rparr>"
  assume "set order \<noteq> {..<?n}"
  moreover have "set order \<subseteq> {..<?n}" using assms(2) by (simp add: partition_inv_def Let_def)
  ultimately have ex: "\<exists>i. i < ?n \<and> i \<notin> set order" by auto
  define i where "i = (LEAST i. i < ?n \<and> i \<notin> set order)"
  have i: "i < ?n" "i \<notin> set order" using LeastI_ex [OF ex] by (simp_all add: i_def)
  have below: "j \<in> set order" if "j < i" for j
    using not_less_Least [of j "\<lambda>i. i < ?n \<and> i \<notin> set order"] that i(1) by (auto simp: i_def)
  have "inputs_ready s (gi_nodes (pc_info c) ! i)"
    unfolding inputs_ready_def list_all_iff
  proof (intro ballI notI)
    fix t assume t: "t \<in> set (nd_inputs (gi_nodes (pc_info c) ! i))"
      and nr: "t \<noteq> kTfLiteOptionalTensor \<and> ps_tensor_epochs s ! nat t = kEpochNotReady"
    have rng: "0 \<le> t" "nat t < gi_num_tensors (pc_info c)"
      using wf_graph_node(2) [OF _ i(1)] assms(1) t nr by (auto simp: wf_config_def)
    then have un: "produced (pc_info c) t" "\<not> (\<exists>j\<in>set order. t \<in> set (nd_outputs (gi_nodes (pc_info c) ! j)))"
      using assms(2) nr by (auto simp: partition_inv_def Let_def)
    have "\<exists>j<i. t \<in> set (nd_outputs (gi_nodes (pc_info c) ! ([0..<?n] ! j)))"
      using assms(4) t nr i(1) un(1) unfolding plan_ordered_def data_order_def by simp
    then obtain j where "j < i" "t \<in> set (nd_outputs (gi_nodes (pc_info c) ! j))" using i(1) by auto
    then show False using below un(2) by blast
  qed
  moreover have "ps_num_incoming s ! i = 0"
  proof -
    have "nat (fst e) \<in> set order" if "e \<in> set (pc_control_edges c)" "snd e = int i" for e
      using below [of "nat (fst e)"] assms(1,4) that by (auto simp: plan_ordered_def wf_config_def wf_edges_def nat_less_iff)
    then have "{e \<in> set (pc_control_edges c). snd e = int i \<and> nat (fst e) \<notin> set order} = {}" by blast
    then show ?thesis using assms(2) i(1) by (simp add: partition_inv_def Let_def)
  qed
  moreover have "ps_node_epochs s ! i = kEpochNotReady" using assms(2) i by (auto simp: partition_inv_def Let_def)
  moreover have "inputs_ready ?s0 nd = inputs_ready s nd" for nd by (simp add: inputs_ready_def)
  ultimately have "fst (UpdateNode c i ?s0)"
    by (simp add: UpdateNode_def Let_def new_subset_def)
  then show False using assms(3) i(1) by (simp add: stuck_def)
qed

lemma partition_result:
  assumes "wf_graph info" and "wf_edges info es" and "\<forall>x\<in>set ntp. 0 \<le> x"
  shows "\<exists>subsets order.
    PartitionGraphIntoIndependentNodeSubsets info ntp greedily (Some es) disable_fusion = Some subsets \<and>
    concat (map ns_nodes subsets) = map (\<lambda>i. gi_node_index info ! i) order \<and>
    distinct order \<and> set order \<subseteq> {..<num_execution_nodes info} \<and>
    data_order info order \<and> edge_order es order \<and>
    (\<forall>ss\<in>set subsets. \<forall>x\<in>set (ns_nodes ss).
       ns_type ss = (if x \<in> set ntp then kTfPartition else kTfNonPartition)) \<and>
    (plan_ordered info es \<longrightarrow> set order = {..<num_execution_nodes info})"
proof -
  let ?c = "new_partitioner info ntp greedily es disable_fusion"
  have wf: "wf_config ?c" using new_partitioner_wf(1) [OF assms] .
  have pc: "pc_info ?c = info" "set (pc_control_edges ?c) = set es" by (simp_all add: new_partitioner_def)
  obtain s order where run: "partition_loop (Suc (num_execution_nodes info)) ?c (partition_start ?c) = Some s"
    and inv: "partition_inv ?c order s" and st: "stuck ?c s"
    using partition_loop_inv [OF wf partition_start_inv [OF wf], of "Suc (num_execution_nodes info)"] pc
    by (auto simp: num_execution_nodes_def)
  define subsets where "subsets = map uniquefy_subset (fold (mark_output (ps_tensor_epochs s)) (gi_outputs info) (ps_subsets s))"
  have frame: "map ns_nodes subsets = map ns_nodes (ps_subsets s)" "map ns_type subsets = map ns_type (ps_subsets s)"
    unfolding subsets_def using finish_frame by auto
  have I: "concat (map ns_nodes (ps_subsets s)) = map (\<lambda>i. gi_node_index info ! i) order" "distinct order"
    "set order \<subseteq> {..<length (gi_nodes info)}" "data_order info order" "edge_order es order"
    "\<forall>ss\<in>set (ps_subsets s). \<forall>x\<in>set (ns_nodes ss). pc_node_type ?c ! nat x = ns_type ss"
    using inv pc by (simp_all add: partition_inv_def Let_def edge_order_def)
  have types: "\<forall>ss\<in>set subsets. \<forall>x\<in>set (ns_nodes ss). pc_node_type ?c ! nat x = ns_type ss"
    by (rule nth_types_update [OF I(6) frame])
  have member: "x \<in> set (gi_node_index info)" if "ss \<in> set subsets" "x \<in> set (ns_nodes ss)" for ss x
  proof -
    have "x \<in> set (concat (map ns_nodes subsets))" using that by auto
    then have "x \<in> set (map (\<lambda>i. gi_node_index info ! i) order)" unfolding frame(1) I(1) .
    then show ?thesis using I(3) assms(1) by (auto simp: wf_graph_def)
  qed
  have "\<forall>ss\<in>set subsets. \<forall>x\<in>set (ns_nodes ss). ns_type ss = (if x \<in> set ntp then kTfPartition else kTfNonPartition)"
    using types member new_partitioner_wf(2) [OF assms] by metis
  moreover have "PartitionGraphIntoIndependentNodeSubsets info ntp greedily (Some es) disable_fusion = Some subsets"
    using run by (simp add: PartitionGraphIntoIndependentNodeSubsets_def Partition_def subsets_def pc
        del: partition_loop.simps)
  moreover have "plan_ordered info es \<longrightarrow> set order = {..<num_execution_nodes info}"
    using stuck_complete [OF wf inv st] pc by (simp add: plan_ordered_def num_execution_nodes_def)
  ultimately show ?thesis
    using I frame by (intro exI [of _ subsets] exI [of _ order]) (auto simp: num_execution_nodes_def)
qed

section \<open>Properties\<close>

text \<open>
  Claim C8. Partitioning always terminates, and its subsets list nodes of the plan, each at most once, in an
  order in which every node comes after a producer of each of its produced inputs and after the source of
  each control edge into it; a subset holds only nodes of its own kind: those asked for when it is a
  partition, the others otherwise.
\<close>

theorem partition_sound:
  assumes "wf_graph info" and "wf_edges info es" and "\<forall>x\<in>set ntp. 0 \<le> x"
  shows "\<exists>subsets order.
    PartitionGraphIntoIndependentNodeSubsets info ntp greedily (Some es) disable_fusion = Some subsets \<and>
    concat (map ns_nodes subsets) = map (\<lambda>i. gi_node_index info ! i) order \<and>
    distinct order \<and> set order \<subseteq> {..<num_execution_nodes info} \<and>
    data_order info order \<and> edge_order es order \<and>
    (\<forall>ss\<in>set subsets. \<forall>x\<in>set (ns_nodes ss).
       ns_type ss = (if x \<in> set ntp then kTfPartition else kTfNonPartition))"
  using partition_result [OF assms, of greedily disable_fusion] by blast

text \<open>A three-node chain whose middle node is delegated.\<close>

definition w_node :: "int list \<Rightarrow> int list \<Rightarrow> TfLiteNode" where
  "w_node ins outs = \<lparr>nd_inputs = ins, nd_outputs = outs, nd_intermediates = [], nd_temporaries = [],
     nd_user_data = 0, nd_builtin_data = 0, nd_custom_initial_data = 0, nd_custom_initial_data_size = 0,
     nd_delegate = 0, nd_might_have_side_effect = False\<rparr>"

definition w_registration :: TfLiteRegistration where
  "w_registration = \<lparr>rg_init = 0, rg_free = 0, rg_prepare = 0, rg_invoke = 1, rg_profiling_string = 0,
     rg_builtin_code = 3, rg_custom_name = None, rg_version = 1, rg_registration_external = 0,
     rg_async_kernel = 0, rg_inplace_operator = 0\<rparr>"

definition w_graph :: GraphInfo where
  "w_graph = \<lparr>gi_num_tensors = 4, gi_nodes = [w_node [0] [1], w_node [1] [2], w_node [2, -1] [3]],
     gi_registrations = replicate 3 w_registration,
     gi_node_index = [0, 1, 2], gi_num_total_nodes = 3, gi_inputs = [0], gi_outputs = [3], gi_variables = []\<rparr>"

lemma w_graph_wf: "wf_graph w_graph" "wf_edges w_graph []"
  by (simp_all add: wf_graph_def wf_edges_def w_graph_def w_node_def)

lemma w_graph_ordered: "plan_ordered w_graph []"
  by (auto simp: plan_ordered_def data_order_def w_graph_def w_node_def less_Suc_eq numeral_3_eq_3 nth_Cons'
      produced_def)

theorem partition_sound_witness:
  "\<exists>subsets order. PartitionGraphIntoIndependentNodeSubsets w_graph [1] True (Some []) False = Some subsets \<and>
     concat (map ns_nodes subsets) = map (\<lambda>i. gi_node_index w_graph ! i) order \<and> data_order w_graph order"
  using partition_sound [OF w_graph_wf, of "[1]" True False] by auto

text \<open>
  When the plan is in an order of execution (producers and the sources of control edges first), no
  node is lost: the subsets together list every node of the plan exactly once.
\<close>

lemma partition_complete:
  assumes "wf_graph info" and "wf_edges info es" and "\<forall>x\<in>set ntp. 0 \<le> x" and "plan_ordered info es"
  shows "\<exists>subsets. PartitionGraphIntoIndependentNodeSubsets info ntp greedily (Some es) disable_fusion = Some subsets \<and>
    mset (concat (map ns_nodes subsets)) = mset (gi_node_index info)"
proof -
  obtain subsets order where
    r: "PartitionGraphIntoIndependentNodeSubsets info ntp greedily (Some es) disable_fusion = Some subsets"
    and c: "concat (map ns_nodes subsets) = map (\<lambda>i. gi_node_index info ! i) order"
    and d: "distinct order" "set order = {..<num_execution_nodes info}"
    using partition_result [OF assms(1-3), of greedily disable_fusion] assms(4) by blast
  have "mset order = mset [0..<num_execution_nodes info]"
    using d by (subst set_eq_iff_mset_eq_distinct [symmetric]) (simp_all add: atLeast0LessThan)
  then have "mset (map (\<lambda>i. gi_node_index info ! i) order) = mset (map (\<lambda>i. gi_node_index info ! i) [0..<num_execution_nodes info])"
    by simp
  moreover have "map (\<lambda>i. gi_node_index info ! i) [0..<num_execution_nodes info] = gi_node_index info"
    using assms(1) by (metis map_nth num_execution_nodes_def wf_graph_def)
  ultimately show ?thesis using r c by auto
qed

lemma partition_complete_witness:
  "\<exists>subsets. PartitionGraphIntoIndependentNodeSubsets w_graph [1] True (Some []) False = Some subsets \<and>
     mset (concat (map ns_nodes subsets)) = {#0, 1, 2#}"
  using partition_complete [OF w_graph_wf _ w_graph_ordered, of "[1]" True False] by (simp add: w_graph_def)

end
