(* ===== verification/ArenaPlanner.thy ===== *)
theory ArenaPlanner
  imports Arena Graph
begin

text \<open>
  The memory planner of a subgraph (\<open>lite/arena_planner.h\<close>, \<open>lite/arena_planner.cc\<close>): it computes for every
  tensor the first and the last node that use it, lets an operator's output share the memory of an input
  where the operator allows it, and places the tensors in two arenas. The graph the planner looks at
  through \<open>graph_info_\<close> and its tensors are arguments; the tensors' data pointers are written, so
  operations that write them return the tensors. Indices are \<open>int32_t\<close> values as \<open>int\<close>.
  \<open>std::sort\<close> is a parameter: the order of elements that compare equal and the iteration order of
  \<open>std::unordered_set\<close> are not fixed by the language.
\<close>

section \<open>State\<close>

abbreviation kNodeNotAssigned :: int where
  "kNodeNotAssigned \<equiv> i32_max"

abbreviation kLastActiveNodeUndefined :: int where
  "kLastActiveNodeUndefined \<equiv> i32_max"

abbreviation kScalarTensorBytes :: nat where
  "kScalarTensorBytes \<equiv> 4"

abbreviation kDefaultArenaAlignment :: nat where
  "kDefaultArenaAlignment \<equiv> 64"

record ArenaPlanner =
  ap_allocs :: "ArenaAllocWithUsageInterval list"
  ap_nodes_to_tensors :: "int list list"
  ap_alloc_node :: "int list"
  ap_dealloc_node :: "int list"
  ap_arena :: SimpleMemoryArena
  ap_has_nonpersistent_memory :: bool
  ap_persistent_arena :: SimpleMemoryArena
  ap_preserve_all_tensors :: bool
  ap_tensor_alignment :: nat
  ap_last_active_node :: int
  ap_actual_tensor_id :: "int \<Rightarrow> int option"
  ap_refcounts :: "int list"

type_synonym std_sort = "(int \<Rightarrow> int \<Rightarrow> bool) \<Rightarrow> int list \<Rightarrow> int list"
type_synonym aligned_alloc = "nat \<Rightarrow> nat \<Rightarrow> nat \<times> byte list"

definition new_planner :: "bool \<Rightarrow> nat \<Rightarrow> ArenaPlanner" where
  "new_planner preserve_all_tensors tensor_alignment =
     \<lparr>ap_allocs = [], ap_nodes_to_tensors = [], ap_alloc_node = [], ap_dealloc_node = [],
      ap_arena = new_arena kDefaultArenaAlignment, ap_has_nonpersistent_memory = False,
      ap_persistent_arena = new_arena kDefaultArenaAlignment,
      ap_preserve_all_tensors = preserve_all_tensors, ap_tensor_alignment = tensor_alignment,
      ap_last_active_node = kLastActiveNodeUndefined, ap_actual_tensor_id = (\<lambda>_. None), ap_refcounts = []\<rparr>"

text \<open>The vector operations of the planner: \<open>resize\<close>, \<open>++v[i]\<close>, \<open>--v[i]\<close>, and insertion into a set.\<close>

definition vec_resize :: "nat \<Rightarrow> 'a \<Rightarrow> 'a list \<Rightarrow> 'a list" where
  "vec_resize n v xs = take n xs @ replicate (n - length xs) v"

definition vec_incr :: "int \<Rightarrow> int list \<Rightarrow> int list" where
  "vec_incr i xs = xs[nat i := xs ! nat i + 1]"

definition vec_decr :: "int \<Rightarrow> int list \<Rightarrow> int list" where
  "vec_decr i xs = xs[nat i := xs ! nat i - 1]"

definition set_insert :: "'a \<Rightarrow> 'a list \<Rightarrow> 'a list" where
  "set_insert x xs = (if x \<in> set xs then xs else xs @ [x])"

section \<open>Resetting\<close>

definition planner_BasePointer :: "TfLiteAllocationType \<Rightarrow> ArenaPlanner \<Rightarrow> nat" where
  "planner_BasePointer type p =
     (if type = kTfLiteArenaRwPersistent then BasePointer (ap_persistent_arena p)
      else if type = kTfLiteArenaRw then BasePointer (ap_arena p)
      else 0)"

definition ResetAllocations :: "GraphInfo \<Rightarrow> ArenaPlanner \<Rightarrow> TfLiteStatus \<times> ArenaPlanner" where
  "ResetAllocations info p =
     ensure_status (case ClearPlan (ap_arena p) of (st, a) \<Rightarrow> (st, p\<lparr>ap_arena := a\<rparr>)) (\<lambda>p.
     ensure_status (case ClearPlan (ap_persistent_arena p) of (st, a) \<Rightarrow> (st, p\<lparr>ap_persistent_arena := a\<rparr>)) (\<lambda>p.
     (kTfLiteOk, p\<lparr>ap_allocs := replicate (gi_num_tensors info) alloc_reset,
                   ap_last_active_node := kLastActiveNodeUndefined\<rparr>)))"

definition reset_alloc_after ::
    "int \<Rightarrow> nat \<Rightarrow> ArenaAllocWithUsageInterval list \<times> TfLiteTensor list \<Rightarrow>
     ArenaAllocWithUsageInterval list \<times> TfLiteTensor list" where
  "reset_alloc_after node i st = (case st of (allocs, tensors) \<Rightarrow>
     if al_first_node (allocs ! i) > node \<and> al_size (allocs ! i) > 0 \<and>
        t_allocation_type (tensors ! i) = kTfLiteArenaRw
     then (allocs[i := alloc_reset], tensors[i := (tensors ! i)\<lparr>t_data := 0\<rparr>])
     else (allocs, tensors))"

definition ResetAllocationsAfter ::
    "int \<Rightarrow> ArenaPlanner \<Rightarrow> TfLiteTensor list \<Rightarrow> TfLiteStatus \<times> ArenaPlanner \<times> TfLiteTensor list" where
  "ResetAllocationsAfter node p tensors =
     (let (allocs, tensors') =
            fold (reset_alloc_after node) [0..<length (ap_allocs p)] (ap_allocs p, tensors);
          arena = (if ap_last_active_node p > node then CalculateActiveAllocs allocs node (ap_arena p)
                   else PurgeAfter node (ap_arena p))
      in (kTfLiteOk, p\<lparr>ap_allocs := allocs, ap_arena := arena, ap_last_active_node := node\<rparr>, tensors'))"

section \<open>Sharing memory between tensors\<close>

definition FindSharedTensor :: "int \<Rightarrow> ArenaPlanner \<Rightarrow> int" where
  "FindSharedTensor tensor_index p = (case ap_actual_tensor_id p tensor_index of
     None \<Rightarrow> tensor_index | Some r \<Rightarrow> r)"

definition InputTensorCanBeShared ::
    "GraphInfo \<Rightarrow> TfLiteTensor \<Rightarrow> TfLiteTensor \<Rightarrow> int \<Rightarrow> int \<Rightarrow> bool \<Rightarrow> ArenaPlanner \<Rightarrow> bool" where
  "InputTensorCanBeShared info input_tensor output_tensor input_id output_id tensor_changed p =
     (if tensor_changed \<and>
         (t_bytes input_tensor \<noteq> t_bytes output_tensor \<or> t_bytes input_tensor \<le> kScalarTensorBytes)
      then False
      else if tensor_changed \<and> ap_refcounts p ! nat input_id > 1 then False
      else if input_id \<in> set (gi_inputs info) then False
      else if output_id \<in> set (gi_outputs info) then False
      else if t_allocation_type input_tensor \<noteq> t_allocation_type output_tensor \<and>
              t_allocation_type input_tensor \<noteq> kTfLiteArenaRw then False
      else if ap_preserve_all_tensors p then False
      else True)"

abbreviation kTfLiteMaxSharableOpInputs :: nat where
  "kTfLiteMaxSharableOpInputs \<equiv> 3"

text \<open>Bit 0 of the flags says that the data is unmodified; bit \<open>2 + i\<close> that input \<open>i\<close> may be shared.\<close>

definition input_shareable :: "TfLiteRegistration \<Rightarrow> nat \<Rightarrow> bool" where
  "input_shareable reg i \<longleftrightarrow> bit (rg_inplace_operator reg) (2 + i)"

definition data_unmodified :: "TfLiteRegistration \<Rightarrow> bool" where
  "data_unmodified reg \<longleftrightarrow> bit (rg_inplace_operator reg) 0"

text \<open>The loop over the first inputs of a node: the first input that may be shared, \<open>-1\<close> if there is none.\<close>

fun find_shareable ::
    "GraphInfo \<Rightarrow> TfLiteTensor list \<Rightarrow> TfLiteRegistration \<Rightarrow> TfLiteNode \<Rightarrow> ArenaPlanner \<Rightarrow> nat list \<Rightarrow> int" where
  "find_shareable info tensors reg node p [] = -1"
| "find_shareable info tensors reg node p (i # is) =
     (let t = nd_inputs node ! i; output_id = nd_outputs node ! 0
      in if t = kTfLiteOptionalTensor then find_shareable info tensors reg node p is
         else if input_shareable reg i \<and>
                 InputTensorCanBeShared info (tensors ! nat t) (tensors ! nat output_id) t output_id
                   (\<not> data_unmodified reg) p
              then t
         else find_shareable info tensors reg node p is)"

definition identify_node ::
    "GraphInfo \<Rightarrow> TfLiteTensor list \<Rightarrow> nat \<Rightarrow> ArenaPlanner \<Rightarrow> ArenaPlanner" where
  "identify_node info tensors i p =
     (let reg = gi_registrations info ! i; node = gi_nodes info ! i in
      if length (nd_outputs node) < 1 then p
      else if rg_inplace_operator reg = 0 then p
      else
        (let loop_end = min kTfLiteMaxSharableOpInputs (length (nd_inputs node));
             input_id = find_shareable info tensors reg node p [0..<loop_end]
         in if input_id = -1 then p
            else
              (let actual = FindSharedTensor input_id p
               in if \<not> data_unmodified reg \<and> ap_refcounts p ! nat actual > 1 then p
                  else p\<lparr>ap_actual_tensor_id := (ap_actual_tensor_id p)(nd_outputs node ! 0 := Some actual)\<rparr>)))"

definition IdentifyInPlaceTensors :: "GraphInfo \<Rightarrow> TfLiteTensor list \<Rightarrow> ArenaPlanner \<Rightarrow> ArenaPlanner" where
  "IdentifyInPlaceTensors info tensors p =
     fold (identify_node info tensors) [0..<num_execution_nodes info] (p\<lparr>ap_actual_tensor_id := (\<lambda>_. None)\<rparr>)"

section \<open>Planning\<close>

definition plan_allocate :: "int \<Rightarrow> int \<Rightarrow> ArenaPlanner \<Rightarrow> TfLiteStatus \<times> ArenaPlanner" where
  "plan_allocate node tensor p =
     (if ap_alloc_node p ! nat tensor \<noteq> kNodeNotAssigned then (kTfLiteOk, p)
      else if ap_dealloc_node p ! nat tensor \<noteq> kNodeNotAssigned then (kTfLiteError, p)
      else (kTfLiteOk, p\<lparr>ap_alloc_node := (ap_alloc_node p)[nat tensor := node]\<rparr>))"

definition plan_deallocate :: "int \<Rightarrow> int \<Rightarrow> ArenaPlanner \<Rightarrow> TfLiteStatus \<times> ArenaPlanner" where
  "plan_deallocate node tensor p =
     (if ap_alloc_node p ! nat tensor = kNodeNotAssigned then (kTfLiteOk, p)
      else if ap_dealloc_node p ! nat tensor \<noteq> kNodeNotAssigned then (kTfLiteError, p)
      else (kTfLiteOk, p\<lparr>ap_dealloc_node := (ap_dealloc_node p)[nat tensor := node]\<rparr>))"

definition queue_tensor :: "nat \<Rightarrow> int \<Rightarrow> ArenaPlanner \<Rightarrow> ArenaPlanner" where
  "queue_tensor node tensor p = p\<lparr>ap_nodes_to_tensors :=
     (ap_nodes_to_tensors p)[node := set_insert tensor (ap_nodes_to_tensors p ! node)]\<rparr>"

definition ref_tensor :: "int \<Rightarrow> ArenaPlanner \<Rightarrow> ArenaPlanner" where
  "ref_tensor t p = (if t \<noteq> kTfLiteOptionalTensor then p\<lparr>ap_refcounts := vec_incr t (ap_refcounts p)\<rparr> else p)"

text \<open>
  An index of \<open>-1\<close> in the list of variables increments \<open>refcounts_[-1]\<close>, outside the vector, before
  the check that refuses it; the model checks first, and the two agree on every list without \<open>-1\<close>.
\<close>

definition plan_variable :: "int \<Rightarrow> ArenaPlanner \<Rightarrow> TfLiteStatus \<times> ArenaPlanner" where
  "plan_variable t p =
     (if t = kTfLiteOptionalTensor then (kTfLiteError, p)
      else ensure_status (plan_allocate 0 t (p\<lparr>ap_refcounts := vec_incr t (ap_refcounts p)\<rparr>))
             (\<lambda>p. (kTfLiteOk, queue_tensor 0 t p)))"

definition plan_graph_input :: "int \<Rightarrow> ArenaPlanner \<Rightarrow> TfLiteStatus \<times> ArenaPlanner" where
  "plan_graph_input t p =
     (if t \<noteq> kTfLiteOptionalTensor
      then ensure_status (plan_allocate 0 t (p\<lparr>ap_refcounts := vec_incr t (ap_refcounts p)\<rparr>))
             (\<lambda>p. (kTfLiteOk, queue_tensor 0 t p))
      else (kTfLiteOk, p))"

text \<open>The local reference counts of \<open>PlanAllocations\<close>, with each reference to a shared tensor counted at its owner.\<close>

definition ref_shared :: "ArenaPlanner \<Rightarrow> int \<Rightarrow> int list \<Rightarrow> int list" where
  "ref_shared p t rc = (if t \<noteq> kTfLiteOptionalTensor then vec_incr (FindSharedTensor t p) rc else rc)"

definition plan_output :: "nat \<Rightarrow> int \<Rightarrow> ArenaPlanner \<Rightarrow> TfLiteStatus \<times> ArenaPlanner" where
  "plan_output i t p =
     (if t = kTfLiteOptionalTensor then (kTfLiteOk, p) else plan_allocate (int i) t (queue_tensor i t p))"

definition plan_input ::
    "nat \<Rightarrow> int \<Rightarrow> ArenaPlanner \<times> int list \<Rightarrow> TfLiteStatus \<times> ArenaPlanner \<times> int list" where
  "plan_input i t st = (case st of (p, rc) \<Rightarrow>
     if t \<noteq> kTfLiteOptionalTensor
     then (let r = FindSharedTensor t p; rc' = vec_decr r rc
           in if rc' ! nat r = 0 then (case plan_deallocate (int i) r p of (s, p') \<Rightarrow> (s, p', rc'))
              else (kTfLiteOk, p, rc'))
     else (kTfLiteOk, p, rc))"

definition plan_node ::
    "GraphInfo \<Rightarrow> nat \<Rightarrow> ArenaPlanner \<times> int list \<Rightarrow> TfLiteStatus \<times> ArenaPlanner \<times> int list" where
  "plan_node info i st = (case st of (p, rc) \<Rightarrow>
     (case ensure_each (plan_output i) (nd_outputs (gi_nodes info ! i)) p of (s, p') \<Rightarrow>
        if s \<noteq> kTfLiteOk then (s, p', rc)
        else if \<not> ap_preserve_all_tensors p'
             then ensure_each (plan_input i) (nd_inputs (gi_nodes info ! i)) (p', rc)
             else (kTfLiteOk, p', rc)))"

definition num_queues :: "GraphInfo \<Rightarrow> nat" where
  "num_queues info = max (num_execution_nodes info) 1"

definition plan_setup :: "GraphInfo \<Rightarrow> ArenaPlanner \<Rightarrow> ArenaPlanner" where
  "plan_setup info p =
     fold ref_tensor (gi_outputs info)
       (p\<lparr>ap_alloc_node := replicate (gi_num_tensors info) kNodeNotAssigned,
          ap_dealloc_node := replicate (gi_num_tensors info) kNodeNotAssigned,
          ap_nodes_to_tensors := replicate (num_queues info) [],
          ap_refcounts := replicate (gi_num_tensors info) 0\<rparr>)"

definition plan_nodes ::
    "GraphInfo \<Rightarrow> TfLiteTensor list \<Rightarrow> ArenaPlanner \<Rightarrow> TfLiteStatus \<times> ArenaPlanner" where
  "plan_nodes info tensors p =
     (let nodes = [0..<num_execution_nodes info];
          p1 = fold (\<lambda>i. fold ref_tensor (nd_inputs (gi_nodes info ! i))) nodes p;
          p2 = IdentifyInPlaceTensors info tensors p1;
          refcounts = fold (\<lambda>i. fold (ref_shared p2) (nd_inputs (gi_nodes info ! i))) nodes (ap_refcounts p)
      in case ensure_each (plan_node info) nodes (p2, refcounts) of (s, p3, _) \<Rightarrow> (s, p3))"

definition PlanAllocations ::
    "GraphInfo \<Rightarrow> TfLiteTensor list \<Rightarrow> ArenaPlanner \<Rightarrow> TfLiteStatus \<times> ArenaPlanner" where
  "PlanAllocations info tensors p =
     ensure_status (ResetAllocations info p) (\<lambda>p.
     ensure_status (ensure_each plan_variable (gi_variables info) (plan_setup info p)) (\<lambda>p.
     ensure_status (ensure_each plan_graph_input (gi_inputs info) p)
       (plan_nodes info tensors)))"

section \<open>Execution of the plan\<close>

definition plan_temporary :: "nat \<Rightarrow> int \<Rightarrow> ArenaPlanner \<Rightarrow> ArenaPlanner" where
  "plan_temporary i t p =
     (let p1 = queue_tensor i t (p\<lparr>ap_alloc_node := (ap_alloc_node p)[nat t := int i]\<rparr>)
      in if \<not> ap_preserve_all_tensors p1 then p1\<lparr>ap_dealloc_node := (ap_dealloc_node p1)[nat t := int i]\<rparr> else p1)"

definition planner_Commit :: "aligned_alloc \<Rightarrow> ArenaPlanner \<Rightarrow> TfLiteStatus \<times> bool \<times> ArenaPlanner" where
  "planner_Commit m p =
     (case Commit m (ap_arena p) of (st, arena_reallocated, a) \<Rightarrow>
        if st \<noteq> kTfLiteOk then (st, False, p\<lparr>ap_arena := a\<rparr>)
        else (case Commit m (ap_persistent_arena p) of (st', persistent_arena_reallocated, b) \<Rightarrow>
          (st', arena_reallocated \<or> persistent_arena_reallocated,
           p\<lparr>ap_arena := a, ap_has_nonpersistent_memory := True, ap_persistent_arena := b\<rparr>)))"

definition tensor_compare :: "ArenaPlanner \<Rightarrow> TfLiteTensor list \<Rightarrow> int \<Rightarrow> int \<Rightarrow> bool" where
  "tensor_compare p tensors idx1 idx2 =
     (let forever = (\<lambda>i. ap_alloc_node p ! nat i = 0 \<and> ap_dealloc_node p ! nat i = kNodeNotAssigned);
          size1 = t_bytes (tensors ! nat idx1); size2 = t_bytes (tensors ! nat idx2)
      in if forever idx1 then (if forever idx2 then idx1 < idx2 else True)
         else if forever idx2 then False
         else if size1 \<noteq> size2 then size1 > size2
         else ap_alloc_node p ! nat idx1 < ap_alloc_node p ! nat idx2)"

definition CreateTensorAllocationVector ::
    "std_sort \<Rightarrow> ArenaPlanner \<Rightarrow> TfLiteTensor list \<Rightarrow> int list \<Rightarrow> int list" where
  "CreateTensorAllocationVector std_sort p tensors tensors_to_allocate = std_sort (tensor_compare p tensors) tensors_to_allocate"

definition GetTensorsToAllocate :: "ArenaPlanner \<Rightarrow> int \<Rightarrow> int \<Rightarrow> int list" where
  "GetTensorsToAllocate p first_node last_node =
     concat (map (\<lambda>i. ap_nodes_to_tensors p ! nat i) [first_node..last_node])"

definition needs_allocation :: "ArenaPlanner \<Rightarrow> TfLiteTensor list \<Rightarrow> int \<Rightarrow> bool" where
  "needs_allocation p tensors t =
     (if t_allocation_type (tensors ! nat t) = kTfLiteArenaRw
      then al_size (ap_allocs p ! nat t) < t_bytes (tensors ! nat t)
      else t_allocation_type (tensors ! nat t) = kTfLiteArenaRwPersistent)"

text \<open>
  A tensor that shares another's memory is skipped, unless the owner is no longer in the arena or no
  longer of the same size: then it is on its own again.
\<close>

definition unshare :: "TfLiteTensor list \<Rightarrow> int \<Rightarrow> ArenaPlanner \<Rightarrow> bool \<times> ArenaPlanner" where
  "unshare tensors t p = (case ap_actual_tensor_id p t of
     None \<Rightarrow> (False, p)
   | Some r \<Rightarrow>
       (if t_allocation_type (tensors ! nat r) \<noteq> kTfLiteArenaRw \<or>
           t_bytes (tensors ! nat r) \<noteq> t_bytes (tensors ! nat t)
        then (False, p\<lparr>ap_actual_tensor_id := (ap_actual_tensor_id p)(t := None)\<rparr>)
        else (True, p)))"

definition allocate_rw :: "TfLiteTensor list \<Rightarrow> int \<Rightarrow> ArenaPlanner \<Rightarrow> TfLiteStatus \<times> ArenaPlanner" where
  "allocate_rw tensors t p =
     (if t_allocation_type (tensors ! nat t) = kTfLiteArenaRw
      then (case Allocate (ap_tensor_alignment p) (t_bytes (tensors ! nat t)) t (ap_alloc_node p ! nat t)
                   (ap_dealloc_node p ! nat t) (ap_allocs p ! nat t) (ap_arena p) of (st, a, arena) \<Rightarrow>
              (st, p\<lparr>ap_arena := arena, ap_allocs := (ap_allocs p)[nat t := a]\<rparr>))
      else (kTfLiteOk, p))"

definition allocate_persistent :: "TfLiteTensor list \<Rightarrow> int \<Rightarrow> ArenaPlanner \<Rightarrow> TfLiteStatus \<times> ArenaPlanner" where
  "allocate_persistent tensors t p =
     (if t_allocation_type (tensors ! nat t) = kTfLiteArenaRwPersistent \<and> al_size (ap_allocs p ! nat t) = 0 \<and>
         al_size (ap_allocs p ! nat t) < t_bytes (tensors ! nat t)
      then (case Allocate (ap_tensor_alignment p) (t_bytes (tensors ! nat t)) t (ap_alloc_node p ! nat t)
                   i32_max (ap_allocs p ! nat t) (ap_persistent_arena p) of (st, a, arena) \<Rightarrow>
              (st, p\<lparr>ap_persistent_arena := arena, ap_allocs := (ap_allocs p)[nat t := a]\<rparr>))
      else (kTfLiteOk, p))"

definition allocate_tensor :: "TfLiteTensor list \<Rightarrow> int \<Rightarrow> ArenaPlanner \<Rightarrow> TfLiteStatus \<times> ArenaPlanner" where
  "allocate_tensor tensors t p =
     (case unshare tensors t p of (shared, p1) \<Rightarrow>
        if shared then (kTfLiteOk, p1)
        else ensure_status (allocate_rw tensors t p1) (allocate_persistent tensors t))"

definition CalculateAllocations ::
    "std_sort \<Rightarrow> TfLiteTensor list \<Rightarrow> int \<Rightarrow> int \<Rightarrow> ArenaPlanner \<Rightarrow> TfLiteStatus \<times> int list \<times> ArenaPlanner" where
  "CalculateAllocations std_sort tensors first_node last_node p =
     (let allocated = filter (needs_allocation p tensors) (GetTensorsToAllocate p first_node last_node) in
      if allocated = [] then (kTfLiteOk, allocated, p\<lparr>ap_last_active_node := last_node\<rparr>)
      else
        (let p1 = (if first_node < ap_last_active_node p
                   then p\<lparr>ap_arena := ResetAllocs (ap_arena p), ap_last_active_node := first_node\<rparr>
                   else p\<lparr>ap_arena := PurgeActiveAllocs first_node (ap_arena p)\<rparr>);
             ordered = CreateTensorAllocationVector std_sort p1 tensors allocated
         in case ensure_each (allocate_tensor tensors) ordered p1 of (st, p2) \<Rightarrow>
              if st \<noteq> kTfLiteOk then (st, ordered, p2)
              else (kTfLiteOk, ordered, p2\<lparr>ap_last_active_node := last_node\<rparr>)))"

definition AreTensorsAllocatedInSameArena :: "int \<Rightarrow> int \<Rightarrow> TfLiteTensor list \<Rightarrow> bool" where
  "AreTensorsAllocatedInSameArena root_tensor_index tensor_index tensors \<longleftrightarrow>
     (t_allocation_type (tensors ! nat root_tensor_index) = kTfLiteArenaRw \<and>
      t_allocation_type (tensors ! nat tensor_index) = kTfLiteArenaRw) \<or>
     (t_allocation_type (tensors ! nat root_tensor_index) = kTfLiteArenaRwPersistent \<and>
      t_allocation_type (tensors ! nat tensor_index) = kTfLiteArenaRwPersistent)"

text \<open>\<open>ResolveAlloc\<close> writes through the pointer to the tensor's data only when it succeeds.\<close>

definition write_data :: "int \<Rightarrow> TfLiteStatus \<times> nat option \<Rightarrow> TfLiteTensor list \<Rightarrow> TfLiteStatus \<times> TfLiteTensor list" where
  "write_data t r tensors = (case r of
     (st, None) \<Rightarrow> (st, tensors)
   | (st, Some d) \<Rightarrow> (st, tensors[nat t := (tensors ! nat t)\<lparr>t_data := d\<rparr>]))"

definition resolve_own ::
    "ArenaPlanner \<Rightarrow> int \<Rightarrow> TfLiteTensor list \<Rightarrow> TfLiteStatus \<times> TfLiteTensor list" where
  "resolve_own p t tensors =
     (let type = t_allocation_type (tensors ! nat t); a = ap_allocs p ! nat t in
      if type = kTfLiteArenaRw \<and> al_size a \<noteq> 0 then write_data t (ResolveAlloc a (ap_arena p)) tensors
      else if type = kTfLiteArenaRwPersistent then write_data t (ResolveAlloc a (ap_persistent_arena p)) tensors
      else (kTfLiteOk, tensors))"

text \<open>
  The recursion follows the owners of shared memory. An owner is resolved when it is recorded, so a
  chain has one link; the fuel bounds the depth, and the call with none left does nothing.
\<close>

fun ResolveTensorAllocation ::
    "nat \<Rightarrow> ArenaPlanner \<Rightarrow> int \<Rightarrow> TfLiteTensor list \<Rightarrow> TfLiteStatus \<times> TfLiteTensor list" where
  "ResolveTensorAllocation 0 p t tensors = (kTfLiteError, tensors)"
| "ResolveTensorAllocation (Suc fuel) p t tensors =
     (let root = FindSharedTensor t p in
      if root \<noteq> t \<and> AreTensorsAllocatedInSameArena root t tensors
      then (case ResolveTensorAllocation fuel p root tensors of (_, tensors') \<Rightarrow>
              (kTfLiteOk, tensors'[nat t := (tensors' ! nat t)\<lparr>t_data := t_data (tensors' ! nat root)\<rparr>]))
      else resolve_own p t tensors)"

definition resolve_fuel :: "TfLiteTensor list \<Rightarrow> nat" where
  "resolve_fuel tensors = Suc (length tensors)"

text \<open>
  The vectors grow with the tensors that kernels added in \<open>prepare\<close>, and every temporary lives while its node runs.
\<close>

definition queue_temporaries :: "GraphInfo \<Rightarrow> int \<Rightarrow> int \<Rightarrow> ArenaPlanner \<Rightarrow> ArenaPlanner" where
  "queue_temporaries info first_node last_node p =
     (let num_tensors = gi_num_tensors info;
          p1 = p\<lparr>ap_alloc_node := vec_resize num_tensors kNodeNotAssigned (ap_alloc_node p),
                 ap_dealloc_node := vec_resize num_tensors kNodeNotAssigned (ap_dealloc_node p),
                 ap_allocs := vec_resize num_tensors alloc_reset (ap_allocs p)\<rparr>;
          nodes = filter (\<lambda>i. i < num_execution_nodes info) (map nat [first_node..last_node])
      in fold (\<lambda>i. fold (plan_temporary i) (nd_temporaries (gi_nodes info ! i))) nodes p1)"

definition ExecuteAllocations ::
    "std_sort \<Rightarrow> aligned_alloc \<Rightarrow> GraphInfo \<Rightarrow> int \<Rightarrow> int \<Rightarrow> ArenaPlanner \<Rightarrow> TfLiteTensor list \<Rightarrow>
     TfLiteStatus \<times> ArenaPlanner \<times> TfLiteTensor list" where
  "ExecuteAllocations std_sort m info first_node last_node p tensors =
     (if \<not> gi_num_tensors info \<ge> length (ap_allocs p) then (kTfLiteError, p, tensors)
      else
        (case CalculateAllocations std_sort tensors first_node last_node
                (queue_temporaries info first_node last_node p) of (st, tensors_allocated, p1) \<Rightarrow>
           if st \<noteq> kTfLiteOk then (st, p1, tensors)
           else (case planner_Commit m p1 of (st', arena_reallocated, p2) \<Rightarrow>
             if st' \<noteq> kTfLiteOk then (st', p2, tensors)
             else (let ts = (if arena_reallocated then map int [0..<gi_num_tensors info] else tensors_allocated)
                   in case ensure_each (ResolveTensorAllocation (resolve_fuel tensors) p2) ts tensors of
                        (st'', tensors') \<Rightarrow> (st'', p2, tensors')))))"

definition ReleaseNonPersistentMemory ::
    "ArenaPlanner \<Rightarrow> TfLiteTensor list \<Rightarrow> TfLiteStatus \<times> ArenaPlanner \<times> TfLiteTensor list" where
  "ReleaseNonPersistentMemory p tensors =
     (case ReleaseBuffer (ap_arena p) of (st, a) \<Rightarrow>
        if st \<noteq> kTfLiteOk then (st, p\<lparr>ap_arena := a\<rparr>, tensors)
        else (kTfLiteOk, p\<lparr>ap_arena := a, ap_has_nonpersistent_memory := False\<rparr>,
              map (\<lambda>t. if t_allocation_type t = kTfLiteArenaRw then t\<lparr>t_data := 0\<rparr> else t) tensors))"

definition AcquireNonPersistentMemory ::
    "aligned_alloc \<Rightarrow> ArenaPlanner \<Rightarrow> TfLiteTensor list \<Rightarrow> TfLiteStatus \<times> ArenaPlanner \<times> TfLiteTensor list" where
  "AcquireNonPersistentMemory m p tensors =
     (case Commit m (ap_arena p) of (st, _, a) \<Rightarrow>
        if st \<noteq> kTfLiteOk then (st, p\<lparr>ap_arena := a\<rparr>, tensors)
        else
          (let p1 = p\<lparr>ap_arena := a, ap_has_nonpersistent_memory := True\<rparr>;
               resolve = (\<lambda>i ts. if t_allocation_type (ts ! i) = kTfLiteArenaRw
                                 then ResolveTensorAllocation (resolve_fuel tensors) p1 (int i) ts
                                 else (kTfLiteOk, ts))
           in case ensure_each resolve [0..<length tensors] tensors of (st', tensors') \<Rightarrow> (st', p1, tensors')))"

definition HasNonPersistentMemory :: "ArenaPlanner \<Rightarrow> bool" where
  "HasNonPersistentMemory p = ap_has_nonpersistent_memory p"

definition GetAllocInfo :: "ArenaPlanner \<Rightarrow> nat \<times> nat" where
  "GetAllocInfo p = (GetBufferSize (ap_arena p), GetBufferSize (ap_persistent_arena p))"

section \<open>Specification of a plan\<close>

definition tensor_in :: "GraphInfo \<Rightarrow> int \<Rightarrow> bool" where
  "tensor_in info t \<longleftrightarrow> 0 \<le> t \<and> t < int (gi_num_tensors info)"

definition wf_plan :: "GraphInfo \<Rightarrow> bool" where
  "wf_plan info \<longleftrightarrow>
     int (num_execution_nodes info) < kNodeNotAssigned \<and>
     (\<forall>nd\<in>set (gi_nodes info). \<forall>t\<in>set (nd_inputs nd) \<union> set (nd_outputs nd).
        t = kTfLiteOptionalTensor \<or> tensor_in info t) \<and>
     (\<forall>t\<in>set (gi_inputs info) \<union> set (gi_outputs info). t = kTfLiteOptionalTensor \<or> tensor_in info t) \<and>
     (\<forall>t\<in>set (gi_variables info). tensor_in info t)"

text \<open>How often a list of inputs refers to the memory of tensor \<open>r\<close>.\<close>

definition uses :: "ArenaPlanner \<Rightarrow> int list \<Rightarrow> int \<Rightarrow> int" where
  "uses p ts r = int (length (filter (\<lambda>t. t \<noteq> kTfLiteOptionalTensor \<and> FindSharedTensor t p = r) ts))"

definition later_uses :: "GraphInfo \<Rightarrow> ArenaPlanner \<Rightarrow> nat \<Rightarrow> int \<Rightarrow> int" where
  "later_uses info p k r = (\<Sum>j = k..<num_execution_nodes info. uses p (nd_inputs (gi_nodes info ! j)) r)"

text \<open>Tensor \<open>t\<close> holds its memory while node \<open>i\<close> runs.\<close>

definition live_at :: "ArenaPlanner \<Rightarrow> nat \<Rightarrow> int \<Rightarrow> bool" where
  "live_at p i t \<longleftrightarrow> ap_alloc_node p ! nat t \<le> int i \<and> int i \<le> ap_dealloc_node p ! nat t"

definition roots_in :: "GraphInfo \<Rightarrow> ArenaPlanner \<Rightarrow> bool" where
  "roots_in info p \<longleftrightarrow> (\<forall>t r. ap_actual_tensor_id p t = Some r \<longrightarrow> tensor_in info r)"

section \<open>Reference counts\<close>

lemma tensor_in_nat: "tensor_in info t \<Longrightarrow> nat t < gi_num_tensors info \<and> int (nat t) = t"
  by (auto simp: tensor_in_def)

lemma length_vec_incr [simp]: "length (vec_incr i xs) = length xs"
  by (simp add: vec_incr_def)

lemma length_vec_decr [simp]: "length (vec_decr i xs) = length xs"
  by (simp add: vec_decr_def)

lemma vec_incr_nth: "0 \<le> i \<Longrightarrow> j < length xs \<Longrightarrow> vec_incr i xs ! j = xs ! j + (if i = int j then 1 else 0)"
  by (auto simp: vec_incr_def nth_list_update)

lemma vec_decr_nth: "0 \<le> i \<Longrightarrow> j < length xs \<Longrightarrow> vec_decr i xs ! j = xs ! j - (if i = int j then 1 else 0)"
  by (auto simp: vec_decr_def nth_list_update)

lemma FindSharedTensor_in: "roots_in info p \<Longrightarrow> tensor_in info t \<Longrightarrow> tensor_in info (FindSharedTensor t p)"
  by (auto simp: FindSharedTensor_def roots_in_def split: option.splits)

lemma uses_Nil [simp]: "uses p [] r = 0"
  by (simp add: uses_def)

lemma uses_Cons [simp]:
  "uses p (t # ts) r = (if t \<noteq> kTfLiteOptionalTensor \<and> FindSharedTensor t p = r then 1 else 0) + uses p ts r"
  by (simp add: uses_def)

lemma uses_nonneg [simp]: "0 \<le> uses p ts r"
  by (simp add: uses_def)

lemma uses_zero: "uses p ts r = 0 \<longleftrightarrow> (\<forall>t\<in>set ts. t = kTfLiteOptionalTensor \<or> FindSharedTensor t p \<noteq> r)"
  by (auto simp: uses_def filter_empty_conv)

lemma later_uses_nonneg [simp]: "0 \<le> later_uses info p k r"
  by (auto simp: later_uses_def intro: sum_nonneg)

lemma later_uses_step:
  "k < num_execution_nodes info \<Longrightarrow>
   later_uses info p k r = uses p (nd_inputs (gi_nodes info ! k)) r + later_uses info p (Suc k) r"
  by (simp add: later_uses_def sum.atLeast_Suc_lessThan)

lemma later_uses_zero:
  assumes "later_uses info p k r = 0" and "k \<le> j" and "j < num_execution_nodes info"
  shows "uses p (nd_inputs (gi_nodes info ! j)) r = 0"
proof -
  have "\<forall>j\<in>{k..<num_execution_nodes info}. uses p (nd_inputs (gi_nodes info ! j)) r = 0"
    using assms(1) unfolding later_uses_def by (subst (asm) sum_nonneg_eq_0_iff) auto
  then show ?thesis using assms(2,3) by simp
qed

lemma length_ref_shared [simp]: "length (ref_shared p t rc) = length rc"
  by (simp add: ref_shared_def)

lemma fold_ref_shared:
  assumes "roots_in info p" and "\<forall>t\<in>set ts. t = kTfLiteOptionalTensor \<or> tensor_in info t"
    and "r < length rc"
  shows "fold (ref_shared p) ts rc ! r = rc ! r + uses p ts (int r)"
    and "length (fold (ref_shared p) ts rc) = length rc"
proof -
  have "fold (ref_shared p) ts rc ! r = rc ! r + uses p ts (int r) \<and> length (fold (ref_shared p) ts rc) = length rc"
    using assms(2,3)
  proof (induction ts arbitrary: rc)
    case (Cons t ts)
    have "t \<noteq> kTfLiteOptionalTensor \<Longrightarrow> 0 \<le> FindSharedTensor t p"
      using FindSharedTensor_in [OF assms(1), of t] Cons.prems by (auto simp: tensor_in_def)
    then show ?case using Cons by (auto simp: ref_shared_def vec_incr_nth)
  qed simp
  then show "fold (ref_shared p) ts rc ! r = rc ! r + uses p ts (int r)"
    and "length (fold (ref_shared p) ts rc) = length rc" by simp_all
qed

lemma wf_plan_node:
  assumes "wf_plan info" and "i < num_execution_nodes info"
  shows "\<forall>t\<in>set (nd_inputs (gi_nodes info ! i)). t = kTfLiteOptionalTensor \<or> tensor_in info t"
    and "\<forall>t\<in>set (nd_outputs (gi_nodes info ! i)). t = kTfLiteOptionalTensor \<or> tensor_in info t"
  using assms nth_mem [of i "gi_nodes info"] by (auto simp: wf_plan_def num_execution_nodes_def)

lemma fold_ref_nodes:
  assumes "wf_plan info" and "roots_in info p" and "k \<le> num_execution_nodes info" and "r < length rc"
  shows "fold (\<lambda>i. fold (ref_shared p) (nd_inputs (gi_nodes info ! i))) [0..<k] rc ! r =
      rc ! r + (\<Sum>j = 0..<k. uses p (nd_inputs (gi_nodes info ! j)) (int r)) \<and>
    length (fold (\<lambda>i. fold (ref_shared p) (nd_inputs (gi_nodes info ! i))) [0..<k] rc) = length rc"
  using assms(3)
proof (induction k)
  case (Suc k)
  let ?f = "\<lambda>i. fold (ref_shared p) (nd_inputs (gi_nodes info ! i))"
  have k: "k < num_execution_nodes info" using Suc.prems by simp
  note IH = Suc.IH [OF less_imp_le [OF k]]
  then have r: "r < length (fold ?f [0..<k] rc)" using assms(4) by simp
  show ?case using IH fold_ref_shared [OF assms(2) wf_plan_node(1) [OF assms(1) k] r] by simp
qed simp

section \<open>Sharing\<close>

lemma find_shareable_in:
  "\<forall>i\<in>set is. i < length (nd_inputs node) \<Longrightarrow> find_shareable info tensors reg node p is \<noteq> -1 \<Longrightarrow>
   find_shareable info tensors reg node p is \<in> set (nd_inputs node)"
  by (induction "is") (auto simp: Let_def split: if_splits)

lemma identify_node_frame:
  "\<exists>f. identify_node info tensors i p = p\<lparr>ap_actual_tensor_id := f\<rparr>"
  by (rule exI [of _ "ap_actual_tensor_id (identify_node info tensors i p)"])
    (simp add: identify_node_def Let_def)

lemma identify_node_roots:
  assumes "wf_plan info" and "roots_in info p" and "i < num_execution_nodes info"
  shows "roots_in info (identify_node info tensors i p)"
proof -
  let ?node = "gi_nodes info ! i"
  define input_id where "input_id = find_shareable info tensors (gi_registrations info ! i) ?node p
    [0..<min kTfLiteMaxSharableOpInputs (length (nd_inputs ?node))]"
  have "input_id \<noteq> -1 \<Longrightarrow> tensor_in info (FindSharedTensor input_id p)"
    using find_shareable_in [of "[0..<min kTfLiteMaxSharableOpInputs (length (nd_inputs ?node))]" ?node]
      wf_plan_node(1) [OF assms(1,3)] FindSharedTensor_in [OF assms(2)]
    unfolding input_id_def by (metis atLeastLessThan_upt atLeastLessThan_iff min_less_iff_conj)
  then show ?thesis
    using assms(2) unfolding identify_node_def Let_def input_id_def [symmetric]
    by (auto simp: roots_in_def)
qed

lemma identify_nodes:
  assumes "wf_plan info" and "roots_in info p" and "\<forall>i\<in>set is. i < num_execution_nodes info"
  shows "roots_in info (fold (identify_node info tensors) is p) \<and>
    (\<exists>f. fold (identify_node info tensors) is p = p\<lparr>ap_actual_tensor_id := f\<rparr>)"
  using assms(2,3)
proof (induction "is" arbitrary: p)
  case Nil
  have "p = p\<lparr>ap_actual_tensor_id := ap_actual_tensor_id p\<rparr>" by simp
  then show ?case using Nil(1) by (metis fold_simps(1))
next
  case (Cons i "is")
  obtain f where f: "identify_node info tensors i p = p\<lparr>ap_actual_tensor_id := f\<rparr>"
    using identify_node_frame by blast
  then show ?case
    using Cons.IH [of "p\<lparr>ap_actual_tensor_id := f\<rparr>"] identify_node_roots [OF assms(1) Cons.prems(1), of i tensors]
      Cons.prems(2) by auto
qed

lemma IdentifyInPlaceTensors_roots:
  assumes "wf_plan info"
  shows "roots_in info (IdentifyInPlaceTensors info tensors p)"
    and "\<exists>f. IdentifyInPlaceTensors info tensors p = p\<lparr>ap_actual_tensor_id := f\<rparr>"
  using identify_nodes [OF assms, of "p\<lparr>ap_actual_tensor_id := \<lambda>_. None\<rparr>" "[0..<num_execution_nodes info]" tensors]
  by (auto simp: IdentifyInPlaceTensors_def roots_in_def)

section \<open>The invariant of planning\<close>

text \<open>
  While node \<open>k\<close> is planned, with the inputs \<open>todo\<close> of it left: a reference count is what pins the tensor
  plus the references still to come, and a tensor is deallocated only when none is left.
\<close>

definition plan_inv ::
    "GraphInfo \<Rightarrow> ArenaPlanner \<Rightarrow> int list \<Rightarrow> nat \<Rightarrow> int list \<Rightarrow> ArenaPlanner \<times> int list \<Rightarrow> bool" where
  "plan_inv info p0 base k todo st \<longleftrightarrow> (case st of (p, rc) \<Rightarrow>
     ap_actual_tensor_id p = ap_actual_tensor_id p0 \<and>
     ap_preserve_all_tensors p = ap_preserve_all_tensors p0 \<and>
     length (ap_alloc_node p) = gi_num_tensors info \<and> length (ap_dealloc_node p) = gi_num_tensors info \<and>
     length rc = gi_num_tensors info \<and>
     (\<not> ap_preserve_all_tensors p0 \<longrightarrow>
       (\<forall>r<gi_num_tensors info. rc ! r = base ! r + uses p0 todo (int r) + later_uses info p0 (Suc k) (int r))) \<and>
     (\<forall>r<gi_num_tensors info. ap_dealloc_node p ! r \<noteq> kNodeNotAssigned \<longrightarrow>
        ap_alloc_node p ! r \<noteq> kNodeNotAssigned \<and> \<not> ap_preserve_all_tensors p0 \<and> rc ! r = 0 \<and> base ! r = 0 \<and>
        (\<forall>j<num_execution_nodes info. ap_dealloc_node p ! r < int j \<longrightarrow>
           uses p0 (nd_inputs (gi_nodes info ! j)) (int r) = 0)))"

text \<open>What is queued up to node \<open>k\<close> and when it is allocated.\<close>

definition queue_inv :: "GraphInfo \<Rightarrow> nat \<Rightarrow> ArenaPlanner \<Rightarrow> bool" where
  "queue_inv info k p \<longleftrightarrow>
     length (ap_nodes_to_tensors p) = num_queues info \<and>
     length (ap_alloc_node p) = gi_num_tensors info \<and>
     (\<forall>r<gi_num_tensors info. ap_alloc_node p ! r \<noteq> kNodeNotAssigned \<longrightarrow>
        0 \<le> ap_alloc_node p ! r \<and> ap_alloc_node p ! r \<le> int k) \<and>
     (\<forall>i<length (ap_nodes_to_tensors p). \<forall>t\<in>set (ap_nodes_to_tensors p ! i).
        tensor_in info t \<and> ap_alloc_node p ! nat t \<noteq> kNodeNotAssigned \<and> ap_alloc_node p ! nat t \<le> int i)"

definition queued :: "ArenaPlanner \<Rightarrow> nat \<Rightarrow> int set" where
  "queued p i = set (ap_nodes_to_tensors p ! i)"

definition queues_grow :: "ArenaPlanner \<Rightarrow> ArenaPlanner \<Rightarrow> bool" where
  "queues_grow p p' \<longleftrightarrow> (\<forall>i. queued p i \<subseteq> queued p' i)"

text \<open>Before the nodes are planned: the tensors in \<open>S\<close> are pinned by a reference that is never dropped.\<close>

definition pin_inv :: "GraphInfo \<Rightarrow> int set \<Rightarrow> ArenaPlanner \<Rightarrow> bool" where
  "pin_inv info S p \<longleftrightarrow>
     queue_inv info 0 p \<and> ap_dealloc_node p = replicate (gi_num_tensors info) kNodeNotAssigned \<and>
     length (ap_refcounts p) = gi_num_tensors info \<and> (\<forall>r<gi_num_tensors info. 0 \<le> ap_refcounts p ! r) \<and>
     (\<forall>t\<in>S. tensor_in info t \<and> 1 \<le> ap_refcounts p ! nat t)"

lemma set_set_insert [simp]: "set (set_insert x xs) = insert x (set xs)"
  by (auto simp: set_insert_def)

lemma plan_inv_uses_zero:
  assumes "rc_r = base_r + uses p0 todo r + later_uses info p0 (Suc k) r" "0 \<le> base_r" "rc_r = 0"
    and "k < j" "j < num_execution_nodes info"
  shows "base_r = 0" and "uses p0 (nd_inputs (gi_nodes info ! j)) r = 0"
proof -
  have "0 \<le> uses p0 todo r" "0 \<le> later_uses info p0 (Suc k) r" by simp_all
  then have "base_r = 0" "later_uses info p0 (Suc k) r = 0" using assms(1-3) by linarith+
  then show "base_r = 0" and "uses p0 (nd_inputs (gi_nodes info ! j)) r = 0"
    using later_uses_zero [of info p0 "Suc k" r j] assms(4,5) by simp_all
qed

lemma num_queues_pos [simp]: "0 < num_queues info"
  by (simp add: num_queues_def)

lemma queues_grow_refl [simp]: "queues_grow p p"
  by (simp add: queues_grow_def)

lemma queues_grow_trans: "queues_grow p q \<Longrightarrow> queues_grow q r \<Longrightarrow> queues_grow p r"
  by (auto simp: queues_grow_def)

lemma plan_allocate_ok:
  assumes "ap_dealloc_node p ! nat t \<noteq> kNodeNotAssigned \<Longrightarrow> ap_alloc_node p ! nat t \<noteq> kNodeNotAssigned"
  shows "plan_allocate node t p = (kTfLiteOk, p\<lparr>ap_alloc_node :=
    (if ap_alloc_node p ! nat t = kNodeNotAssigned then (ap_alloc_node p)[nat t := node] else ap_alloc_node p)\<rparr>)"
  using assms by (auto simp: plan_allocate_def)

lemma queue_step:
  assumes "queue_inv info k p" and "tensor_in info t" and "k < num_queues info"
    and "int k < kNodeNotAssigned"
    and "p' = queue_tensor k t (p\<lparr>ap_alloc_node := (if ap_alloc_node p ! nat t = kNodeNotAssigned
       then (ap_alloc_node p)[nat t := int k] else ap_alloc_node p)\<rparr>)"
  shows "queue_inv info k p'" and "queues_grow p p'" and "t \<in> queued p' k"
proof -
  have t: "nat t < length (ap_alloc_node p)" and k: "k < length (ap_nodes_to_tensors p)"
    using assms(1,3) tensor_in_nat [OF assms(2)] by (simp_all add: queue_inv_def)
  show "queues_grow p p'" "t \<in> queued p' k"
    using k by (auto simp: assms(5) queues_grow_def queued_def queue_tensor_def nth_list_update)
  show "queue_inv info k p'"
    using assms(1,2,4) t k
    by (auto simp: assms(5) queue_inv_def queue_tensor_def nth_list_update)
qed

lemma queue_tensor_commute:
  "queue_tensor i t (p\<lparr>ap_alloc_node := x\<rparr>) = (queue_tensor i t p)\<lparr>ap_alloc_node := x\<rparr>"
  "ap_alloc_node (queue_tensor i t p) = ap_alloc_node p" "ap_dealloc_node (queue_tensor i t p) = ap_dealloc_node p"
  "ap_refcounts (queue_tensor i t p) = ap_refcounts p"
  "ap_actual_tensor_id (queue_tensor i t p) = ap_actual_tensor_id p"
  "ap_preserve_all_tensors (queue_tensor i t p) = ap_preserve_all_tensors p"
  by (simp_all add: queue_tensor_def)

lemma pin_step:
  assumes "pin_inv info S p" and "tensor_in info t"
  shows "\<exists>p'. ensure_status (plan_allocate 0 t (p\<lparr>ap_refcounts := vec_incr t (ap_refcounts p)\<rparr>))
      (\<lambda>p. (kTfLiteOk, queue_tensor 0 t p)) = (kTfLiteOk, p') \<and> pin_inv info (insert t S) p' \<and>
      queues_grow p p' \<and> t \<in> queued p' 0"
proof -
  let ?p = "p\<lparr>ap_refcounts := vec_incr t (ap_refcounts p)\<rparr>"
  have n: "nat t < gi_num_tensors info" using tensor_in_nat [OF assms(2)] by simp
  have q: "queue_inv info 0 ?p" using assms(1) by (simp add: pin_inv_def queue_inv_def)
  define p' where "p' = queue_tensor 0 t (?p\<lparr>ap_alloc_node := (if ap_alloc_node ?p ! nat t = kNodeNotAssigned
       then (ap_alloc_node ?p)[nat t := int 0] else ap_alloc_node ?p)\<rparr>)"
  note st = queue_step [OF q assms(2) _ _ p'_def]
  have "ap_dealloc_node ?p ! nat t = kNodeNotAssigned" using assms(1) n by (simp add: pin_inv_def)
  then have "plan_allocate 0 t ?p = (kTfLiteOk, ?p\<lparr>ap_alloc_node := (if ap_alloc_node ?p ! nat t = kNodeNotAssigned
       then (ap_alloc_node ?p)[nat t := int 0] else ap_alloc_node ?p)\<rparr>)"
    using plan_allocate_ok [of ?p t 0] by simp
  moreover have "pin_inv info (insert t S) p'"
    using assms st(1) n unfolding pin_inv_def
    by (auto simp: p'_def queue_tensor_commute vec_incr_nth tensor_in_def)
  moreover have "queues_grow p p'" using st(2) by (simp add: queues_grow_def queued_def)
  ultimately show ?thesis using st(3) by (simp add: p'_def)
qed

lemma plan_variables_ok:
  assumes "pin_inv info S p" and "\<forall>t\<in>set ts. tensor_in info t"
  shows "\<exists>p'. ensure_each plan_variable ts p = (kTfLiteOk, p') \<and> pin_inv info (S \<union> set ts) p' \<and> queues_grow p p' \<and>
    set ts \<subseteq> queued p' 0"
  using assms
proof (induction ts arbitrary: p S)
  case (Cons t ts)
  have "t \<noteq> kTfLiteOptionalTensor" using Cons.prems(2) by (auto simp: tensor_in_def)
  then obtain p1 where p1: "plan_variable t p = (kTfLiteOk, p1)" "pin_inv info (insert t S) p1" "queues_grow p p1"
      "t \<in> queued p1 0"
    using pin_step [OF Cons.prems(1)] Cons.prems(2) by (auto simp: plan_variable_def)
  moreover obtain p2 where p2: "ensure_each plan_variable ts p1 = (kTfLiteOk, p2)"
      "pin_inv info (insert t S \<union> set ts) p2" "queues_grow p1 p2" "set ts \<subseteq> queued p2 0"
    using Cons.IH [OF p1(2)] Cons.prems(2) by auto
  moreover have "queued p1 0 \<subseteq> queued p2 0" using p2(3) by (simp add: queues_grow_def)
  ultimately show ?case using queues_grow_trans [OF p1(3) p2(3)] by auto
qed simp

lemma plan_graph_inputs_ok:
  assumes "pin_inv info S p" and "\<forall>t\<in>set ts. t = kTfLiteOptionalTensor \<or> tensor_in info t"
  shows "\<exists>p'. ensure_each plan_graph_input ts p = (kTfLiteOk, p') \<and>
    pin_inv info (S \<union> (set ts - {kTfLiteOptionalTensor})) p' \<and> queues_grow p p' \<and>
    set ts - {kTfLiteOptionalTensor} \<subseteq> queued p' 0"
  using assms
proof (induction ts arbitrary: p S)
  case (Cons t ts)
  show ?case
  proof (cases "t = kTfLiteOptionalTensor")
    case True
    with Cons show ?thesis by (auto simp: plan_graph_input_def)
  next
    case False
    then obtain p1 where p1: "plan_graph_input t p = (kTfLiteOk, p1)" "pin_inv info (insert t S) p1" "queues_grow p p1"
        "t \<in> queued p1 0"
      using pin_step [OF Cons.prems(1)] Cons.prems(2) by (auto simp: plan_graph_input_def)
    moreover obtain p2 where p2: "ensure_each plan_graph_input ts p1 = (kTfLiteOk, p2)"
        "pin_inv info (insert t S \<union> (set ts - {kTfLiteOptionalTensor})) p2" "queues_grow p1 p2"
        "set ts - {kTfLiteOptionalTensor} \<subseteq> queued p2 0"
      using Cons.IH [OF p1(2)] Cons.prems(2) by auto
    moreover have "queued p1 0 \<subseteq> queued p2 0" using p2(3) by (simp add: queues_grow_def)
    ultimately show ?thesis using queues_grow_trans [OF p1(3) p2(3)] False by (auto simp: insert_Diff_if)
  qed
qed simp

section \<open>Planning the nodes\<close>

lemma plan_invI:
  assumes "ap_actual_tensor_id p = ap_actual_tensor_id p0" "ap_preserve_all_tensors p = ap_preserve_all_tensors p0"
    and "length (ap_alloc_node p) = gi_num_tensors info" "length (ap_dealloc_node p) = gi_num_tensors info"
    and "length rc = gi_num_tensors info"
    and "\<forall>r<gi_num_tensors info. rc ! r = base ! r + uses p0 todo (int r) + later_uses info p0 (Suc k) (int r)"
    and "\<forall>r<gi_num_tensors info. ap_dealloc_node p ! r \<noteq> kNodeNotAssigned \<longrightarrow>
      ap_alloc_node p ! r \<noteq> kNodeNotAssigned \<and> \<not> ap_preserve_all_tensors p0 \<and> rc ! r = 0 \<and> base ! r = 0 \<and>
      (\<forall>j<num_execution_nodes info. ap_dealloc_node p ! r < int j \<longrightarrow>
         uses p0 (nd_inputs (gi_nodes info ! j)) (int r) = 0)"
  shows "plan_inv info p0 base k todo (p, rc)"
  unfolding plan_inv_def prod.case by (intro conjI impI) (rule assms)+

lemma plan_inv_alloc:
  assumes "plan_inv info p0 base k todo (p, rc)" and "ap_dealloc_node p' = ap_dealloc_node p"
    and "ap_actual_tensor_id p' = ap_actual_tensor_id p" "ap_preserve_all_tensors p' = ap_preserve_all_tensors p"
    and "length (ap_alloc_node p') = length (ap_alloc_node p)"
    and "\<forall>r<gi_num_tensors info. ap_alloc_node p ! r \<noteq> kNodeNotAssigned \<longrightarrow> ap_alloc_node p' ! r \<noteq> kNodeNotAssigned"
  shows "plan_inv info p0 base k todo (p', rc)"
  using assms unfolding plan_inv_def by auto

lemma plan_output_ok:
  assumes "wf_plan info" and "k < num_execution_nodes info" and "plan_inv info p0 base k todo (p, rc)"
    and "queue_inv info k p" and "t = kTfLiteOptionalTensor \<or> tensor_in info t"
  shows "\<exists>p'. plan_output k t p = (kTfLiteOk, p') \<and> plan_inv info p0 base k todo (p', rc) \<and>
    queue_inv info k p' \<and> queues_grow p p' \<and> (t \<noteq> kTfLiteOptionalTensor \<longrightarrow> t \<in> queued p' k)"
proof (cases "t = kTfLiteOptionalTensor")
  case True
  then show ?thesis using assms by (simp add: plan_output_def)
next
  case False
  then have t: "tensor_in info t" using assms(5) by simp
  note n = tensor_in_nat [OF t]
  have k: "k < num_queues info" "int k < kNodeNotAssigned"
    using assms(1,2) by (auto simp: num_queues_def wf_plan_def)
  define p' where "p' = queue_tensor k t (p\<lparr>ap_alloc_node := (if ap_alloc_node p ! nat t = kNodeNotAssigned
       then (ap_alloc_node p)[nat t := int k] else ap_alloc_node p)\<rparr>)"
  note st = queue_step [OF assms(4) t k p'_def]
  have "ap_dealloc_node p ! nat t \<noteq> kNodeNotAssigned \<Longrightarrow> ap_alloc_node p ! nat t \<noteq> kNodeNotAssigned"
    using assms(3) n by (auto simp: plan_inv_def)
  then have "plan_output k t p = (kTfLiteOk, p')"
    using False plan_allocate_ok [of "queue_tensor k t p" t "int k"]
    by (simp add: plan_output_def queue_tensor_commute p'_def)
  moreover have "plan_inv info p0 base k todo (p', rc)"
    using k(2) n assms(4) by (intro plan_inv_alloc [OF assms(3)])
      (auto simp: p'_def queue_tensor_commute nth_list_update queue_inv_def)
  ultimately show ?thesis using st by simp
qed

lemma plan_outputs_ok:
  assumes "wf_plan info" and "k < num_execution_nodes info" and "plan_inv info p0 base k todo (p, rc)"
    and "queue_inv info k p" and "\<forall>t\<in>set ts. t = kTfLiteOptionalTensor \<or> tensor_in info t"
  shows "\<exists>p'. ensure_each (plan_output k) ts p = (kTfLiteOk, p') \<and> plan_inv info p0 base k todo (p', rc) \<and>
    queue_inv info k p' \<and> queues_grow p p' \<and> set ts - {kTfLiteOptionalTensor} \<subseteq> queued p' k"
  using assms(3-5)
proof (induction ts arbitrary: p)
  case (Cons t ts)
  obtain p1 where p1: "plan_output k t p = (kTfLiteOk, p1)" "plan_inv info p0 base k todo (p1, rc)"
      "queue_inv info k p1" "queues_grow p p1" "t \<noteq> kTfLiteOptionalTensor \<longrightarrow> t \<in> queued p1 k"
    using plan_output_ok [OF assms(1,2) Cons.prems(1,2)] Cons.prems(3) by auto
  moreover obtain p2 where p2: "ensure_each (plan_output k) ts p1 = (kTfLiteOk, p2)"
      "plan_inv info p0 base k todo (p2, rc)" "queue_inv info k p2" "queues_grow p1 p2"
      "set ts - {kTfLiteOptionalTensor} \<subseteq> queued p2 k"
    using Cons.IH [OF p1(2,3)] Cons.prems(3) by auto
  moreover have "queued p1 k \<subseteq> queued p2 k" using p2(4) by (simp add: queues_grow_def)
  ultimately show ?case using queues_grow_trans [OF p1(4) p2(4)] by auto
qed simp

text \<open>The table of last uses, when the one at \<open>i\<close> is entered at most.\<close>

lemma freed_update:
  assumes "\<forall>x<n. g ! x \<noteq> unset \<longrightarrow> D x (g ! x) (rc ! x)" and "\<forall>x<n. x \<noteq> i \<longrightarrow> rc' ! x = rc ! x" and "g ! i = unset" and "i < length g"
    and "\<not> c \<longrightarrow> D i k (rc' ! i)"
  shows "\<forall>x<n. (if c then g else g[i := k]) ! x \<noteq> unset \<longrightarrow> D x ((if c then g else g[i := k]) ! x) (rc' ! x)"
  using assms by (auto simp: nth_list_update)

lemma plan_input_last:
  assumes "plan_inv info p0 base k (t # todo) (p, rc)" and "t \<noteq> kTfLiteOptionalTensor" and "k < num_execution_nodes info" and "\<not> ap_preserve_all_tensors p0"
    and "\<forall>r<gi_num_tensors info. 0 \<le> base ! r" and rin: "tensor_in info r" and z: "rc' ! nat r = 0"
    and rc': "\<forall>x<gi_num_tensors info. rc' ! x = rc ! x - (if r = int x then 1 else 0)" "length rc' = gi_num_tensors info"
    and cnt: "\<forall>x<gi_num_tensors info. rc' ! x = base ! x + uses p0 todo (int x) + later_uses info p0 (Suc k) (int x)"
    and f: "f = (if ap_alloc_node p ! nat r = kNodeNotAssigned then ap_dealloc_node p else (ap_dealloc_node p)[nat r := int k])"
  shows "plan_inv info p0 base k todo (p\<lparr>ap_dealloc_node := f\<rparr>, rc')" "ap_dealloc_node p ! nat r = kNodeNotAssigned"
proof -
  note n = tensor_in_nat [OF rin]
  note I = assms(1) [unfolded plan_inv_def prod.case]
  let ?D = "\<lambda>x v c. ap_alloc_node p ! x \<noteq> kNodeNotAssigned \<and> \<not> ap_preserve_all_tensors p0 \<and> c = 0 \<and> base ! x = 0 \<and>
    (\<forall>j<num_execution_nodes info. v < int j \<longrightarrow> uses p0 (nd_inputs (gi_nodes info ! j)) (int x) = 0)"
  have dead: "\<forall>x<gi_num_tensors info. ap_dealloc_node p ! x \<noteq> kNodeNotAssigned \<longrightarrow> ?D x (ap_dealloc_node p ! x) (rc ! x)"
    using I by (elim conjE)
  have one: "rc ! nat r = 1" using z rc'(1) n by simp
  show na: "ap_dealloc_node p ! nat r = kNodeNotAssigned" using I n one by auto
  have base0: "base ! nat r = 0 \<and> (\<forall>j<num_execution_nodes info. int k < int j \<longrightarrow>
      uses p0 (nd_inputs (gi_nodes info ! j)) (int (nat r)) = 0)"
    using plan_inv_uses_zero [OF cnt [rule_format, of "nat r"] _ z] assms(3,5) n
    by (metis add_nonneg_eq_0_iff add_nonneg_nonneg cnt later_uses_nonneg of_nat_less_iff uses_nonneg z)
  have dead': "\<forall>x<gi_num_tensors info. f ! x \<noteq> kNodeNotAssigned \<longrightarrow> ?D x (f ! x) (rc' ! x)"
    unfolding f by (rule freed_update [where D = "?D", OF dead]) (use rc'(1) n na z base0 assms(4) I in auto)
  have "length f = gi_num_tensors info" using I by (simp add: f)
  then show "plan_inv info p0 base k todo (p\<lparr>ap_dealloc_node := f\<rparr>, rc')"
  proof (intro plan_invI)
    show "\<forall>x<gi_num_tensors info. ap_dealloc_node (p\<lparr>ap_dealloc_node := f\<rparr>) ! x \<noteq> kNodeNotAssigned \<longrightarrow>
      ap_alloc_node (p\<lparr>ap_dealloc_node := f\<rparr>) ! x \<noteq> kNodeNotAssigned \<and> \<not> ap_preserve_all_tensors p0 \<and> rc' ! x = 0 \<and>
      base ! x = 0 \<and> (\<forall>j<num_execution_nodes info. ap_dealloc_node (p\<lparr>ap_dealloc_node := f\<rparr>) ! x < int j \<longrightarrow>
        uses p0 (nd_inputs (gi_nodes info ! j)) (int x) = 0)"
      using dead' by simp
  qed (use I rc'(2) cnt in simp_all)
qed

lemma plan_input_ok:
  assumes "wf_plan info" and "k < num_execution_nodes info" and "roots_in info p0" and "\<not> ap_preserve_all_tensors p0"
    and "\<forall>r<gi_num_tensors info. 0 \<le> base ! r"
    and "plan_inv info p0 base k (t # todo) (p, rc)"
    and "t = kTfLiteOptionalTensor \<or> tensor_in info t"
  shows "\<exists>f rc'. plan_input k t (p, rc) = (kTfLiteOk, p\<lparr>ap_dealloc_node := f\<rparr>, rc') \<and>
    plan_inv info p0 base k todo (p\<lparr>ap_dealloc_node := f\<rparr>, rc')"
proof (cases "t = kTfLiteOptionalTensor")
  case True
  then show ?thesis using assms(6)
    by (intro exI [of _ "ap_dealloc_node p"] exI [of _ rc]) (auto simp: plan_input_def plan_inv_def)
next
  case False
  define r where "r = FindSharedTensor t p"
  have r0: "r = FindSharedTensor t p0"
    using assms(6) by (simp add: r_def FindSharedTensor_def plan_inv_def)
  have rin: "tensor_in info r" using FindSharedTensor_in [OF assms(3)] assms(7) False r0 by simp
  note n = tensor_in_nat [OF rin]
  have r_pos: "0 \<le> r" using rin by (simp add: tensor_in_def)
  note I = assms(6) [unfolded plan_inv_def prod.case]
  have len: "length rc = gi_num_tensors info" using I by simp
  define rc' where "rc' = vec_decr r rc"
  have rc': "\<forall>x<gi_num_tensors info. rc' ! x = rc ! x - (if r = int x then 1 else 0)" "length rc' = gi_num_tensors info"
    using len r_pos by (auto simp: rc'_def vec_decr_nth)
  have cnt: "\<forall>x<gi_num_tensors info. rc' ! x = base ! x + uses p0 todo (int x) + later_uses info p0 (Suc k) (int x)"
    using rc' I assms(4) False r0 by auto
  show ?thesis
  proof (cases "rc' ! nat r = 0")
    case nz: False
    have "ap_dealloc_node p ! nat r = kNodeNotAssigned"
    proof (rule ccontr)
      assume "ap_dealloc_node p ! nat r \<noteq> kNodeNotAssigned"
      then have "rc ! nat r = 0" using I n by blast
      then show False using rc' n cnt assms(5) nz
        by (metis add_nonneg_nonneg uses_nonneg later_uses_nonneg diff_0 neg_0_le_iff_le not_one_le_zero)
    qed
    then have "plan_inv info p0 base k todo (p, rc')"
      using I rc' cnt n unfolding plan_inv_def prod.case by auto
    then show ?thesis using False nz
      by (intro exI [of _ "ap_dealloc_node p"] exI [of _ rc'])
        (simp add: plan_input_def Let_def r_def [symmetric] rc'_def [symmetric])
  next
    case z: True
    define f where "f = (if ap_alloc_node p ! nat r = kNodeNotAssigned then ap_dealloc_node p
      else (ap_dealloc_node p)[nat r := int k])"
    note l = plan_input_last [OF assms(6) False assms(2,4,5) rin z rc' cnt f_def]
    have "plan_input k t (p, rc) = (kTfLiteOk, p\<lparr>ap_dealloc_node := f\<rparr>, rc')"
      using False z l(2)
      by (auto simp: plan_input_def Let_def r_def [symmetric] rc'_def [symmetric] plan_deallocate_def f_def)
    then show ?thesis using l(1) by blast
  qed
qed

lemma plan_inputs_ok:
  assumes "wf_plan info" and "k < num_execution_nodes info" and "roots_in info p0" and "\<not> ap_preserve_all_tensors p0"
    and "\<forall>r<gi_num_tensors info. 0 \<le> base ! r"
    and "plan_inv info p0 base k ts (p, rc)"
    and "\<forall>t\<in>set ts. t = kTfLiteOptionalTensor \<or> tensor_in info t"
  shows "\<exists>f rc'. ensure_each (plan_input k) ts (p, rc) = (kTfLiteOk, p\<lparr>ap_dealloc_node := f\<rparr>, rc') \<and>
    plan_inv info p0 base k [] (p\<lparr>ap_dealloc_node := f\<rparr>, rc')"
  using assms(6,7)
proof (induction ts arbitrary: p rc)
  case Nil
  then show ?case by (intro exI [of _ "ap_dealloc_node p"] exI [of _ rc]) simp
next
  case (Cons t ts)
  obtain f rc' where 1: "plan_input k t (p, rc) = (kTfLiteOk, p\<lparr>ap_dealloc_node := f\<rparr>, rc')"
      "plan_inv info p0 base k ts (p\<lparr>ap_dealloc_node := f\<rparr>, rc')"
    using plan_input_ok [OF assms(1-5) Cons.prems(1)] Cons.prems(2) by auto
  then show ?case using Cons.IH [OF 1(2)] Cons.prems(2) by auto
qed

definition node_inputs :: "GraphInfo \<Rightarrow> nat \<Rightarrow> int list" where
  "node_inputs info k = (if k < num_execution_nodes info then nd_inputs (gi_nodes info ! k) else [])"

lemma later_uses_at: "uses p (node_inputs info k) r + later_uses info p (Suc k) r = later_uses info p k r"
  by (cases "k < num_execution_nodes info") (auto simp: node_inputs_def later_uses_step, simp add: later_uses_def)

lemma plan_inv_next:
  "plan_inv info p0 base k [] st \<Longrightarrow> plan_inv info p0 base (Suc k) (node_inputs info (Suc k)) st"
  using later_uses_at [of p0 info "Suc k"] unfolding plan_inv_def by (auto simp: add.assoc)

lemma plan_inv_preserve:
  "ap_preserve_all_tensors p0 \<Longrightarrow> plan_inv info p0 base k ts st \<Longrightarrow> plan_inv info p0 base k ts' st"
  unfolding plan_inv_def by auto

lemma queue_inv_mono: "queue_inv info k p \<Longrightarrow> k \<le> k' \<Longrightarrow> queue_inv info k' p"
  by (fastforce simp: queue_inv_def)

lemma plan_node_ok:
  assumes "wf_plan info" and "k < num_execution_nodes info" and "roots_in info p0"
    and "\<forall>r<gi_num_tensors info. 0 \<le> base ! r"
    and "plan_inv info p0 base k (node_inputs info k) (p, rc)" and "queue_inv info k p"
  shows "\<exists>p' rc'. plan_node info k (p, rc) = (kTfLiteOk, p', rc') \<and>
    plan_inv info p0 base (Suc k) (node_inputs info (Suc k)) (p', rc') \<and> queue_inv info (Suc k) p' \<and>
    queues_grow p p' \<and> set (nd_outputs (gi_nodes info ! k)) - {kTfLiteOptionalTensor} \<subseteq> queued p' k"
proof -
  obtain p1 where p1: "ensure_each (plan_output k) (nd_outputs (gi_nodes info ! k)) p = (kTfLiteOk, p1)"
      "plan_inv info p0 base k (node_inputs info k) (p1, rc)" "queue_inv info k p1" "queues_grow p p1"
      "set (nd_outputs (gi_nodes info ! k)) - {kTfLiteOptionalTensor} \<subseteq> queued p1 k"
    using plan_outputs_ok [OF assms(1,2,5,6) wf_plan_node(2) [OF assms(1,2)]] by auto
  have pres: "ap_preserve_all_tensors p1 = ap_preserve_all_tensors p0" using p1(2) by (simp add: plan_inv_def)
  show ?thesis
  proof (cases "ap_preserve_all_tensors p0")
    case True
    then show ?thesis
      using p1 pres plan_inv_next [OF plan_inv_preserve [OF True p1(2)]] queue_inv_mono [OF p1(3), of "Suc k"]
      by (simp add: plan_node_def)
  next
    case False
    obtain f rc' where 2: "ensure_each (plan_input k) (node_inputs info k) (p1, rc) =
        (kTfLiteOk, p1\<lparr>ap_dealloc_node := f\<rparr>, rc')"
        "plan_inv info p0 base k [] (p1\<lparr>ap_dealloc_node := f\<rparr>, rc')"
      using plan_inputs_ok [OF assms(1-3) False assms(4) p1(2)] wf_plan_node(1) [OF assms(1,2)] assms(2)
      by (auto simp: node_inputs_def)
    let ?p = "p1\<lparr>ap_dealloc_node := f\<rparr>"
    have "queue_inv info (Suc k) ?p" "queues_grow p ?p" "queued ?p k = queued p1 k"
      using queue_inv_mono [OF p1(3), of "Suc k"] p1(4)
      by (simp_all add: queue_inv_def queues_grow_def queued_def)
    moreover have "plan_node info k (p, rc) = (kTfLiteOk, ?p, rc')"
      using p1(1) 2(1) pres False assms(2) by (simp add: plan_node_def node_inputs_def)
    ultimately show ?thesis using plan_inv_next [OF 2(2)] p1(5) by blast
  qed
qed

lemma plan_all_nodes_ok:
  assumes "wf_plan info" and "roots_in info p0" and "\<forall>r<gi_num_tensors info. 0 \<le> base ! r"
    and "plan_inv info p0 base 0 (node_inputs info 0) (p, rc)" and "queue_inv info 0 p"
    and "k \<le> num_execution_nodes info"
  shows "\<exists>p' rc'. ensure_each (plan_node info) [0..<k] (p, rc) = (kTfLiteOk, p', rc') \<and>
    plan_inv info p0 base k (node_inputs info k) (p', rc') \<and> queue_inv info k p' \<and> queues_grow p p' \<and>
    (\<forall>j<k. set (nd_outputs (gi_nodes info ! j)) - {kTfLiteOptionalTensor} \<subseteq> queued p' j)"
  using assms(6)
proof (induction k)
  case (Suc k)
  then obtain p1 rc1 where 1: "ensure_each (plan_node info) [0..<k] (p, rc) = (kTfLiteOk, p1, rc1)"
      "plan_inv info p0 base k (node_inputs info k) (p1, rc1)" "queue_inv info k p1" "queues_grow p p1"
      "\<forall>j<k. set (nd_outputs (gi_nodes info ! j)) - {kTfLiteOptionalTensor} \<subseteq> queued p1 j" by auto
  have k: "k < num_execution_nodes info" using Suc.prems by simp
  obtain p2 rc2 where 2: "plan_node info k (p1, rc1) = (kTfLiteOk, p2, rc2)"
      "plan_inv info p0 base (Suc k) (node_inputs info (Suc k)) (p2, rc2)" "queue_inv info (Suc k) p2"
      "queues_grow p1 p2" "set (nd_outputs (gi_nodes info ! k)) - {kTfLiteOptionalTensor} \<subseteq> queued p2 k"
    using plan_node_ok [OF assms(1) k assms(2,3) 1(2,3)] by blast
  have "ensure_each (plan_node info) [0..<Suc k] (p, rc) = (kTfLiteOk, p2, rc2)"
    using 1(1) 2(1) by (simp add: ensure_each_append)
  moreover have "\<forall>j<Suc k. set (nd_outputs (gi_nodes info ! j)) - {kTfLiteOptionalTensor} \<subseteq> queued p2 j"
    using 1(5) 2(4,5) unfolding queues_grow_def less_Suc_eq by blast
  ultimately show ?case using 2(2,3) queues_grow_trans [OF 1(4) 2(4)] by blast
qed (use assms(4,5) in simp)

section \<open>Planning as a whole\<close>

definition planner_arenas where
  "planner_arenas p = (ap_arena p, ap_persistent_arena p, ap_allocs p, ap_has_nonpersistent_memory p,
     ap_tensor_alignment p, ap_last_active_node p)"

lemma planner_arenas_frame:
  "planner_arenas (ref_tensor t p) = planner_arenas p"
  "planner_arenas (queue_tensor i t p) = planner_arenas p"
  "planner_arenas (snd (plan_allocate node t p)) = planner_arenas p"
  "planner_arenas (snd (plan_deallocate node t p)) = planner_arenas p"
  "planner_arenas (p\<lparr>ap_actual_tensor_id := f\<rparr>) = planner_arenas p"
  "planner_arenas (p\<lparr>ap_refcounts := rcs\<rparr>) = planner_arenas p"
  by (simp_all add: planner_arenas_def ref_tensor_def queue_tensor_def plan_allocate_def plan_deallocate_def)

lemma ensure_queue_frame:
  assumes "planner_arenas p' = planner_arenas p"
  shows "planner_arenas (snd (ensure_status (plan_allocate node t p') (\<lambda>p. (kTfLiteOk, queue_tensor i t p)))) =
    planner_arenas p"
  using assms planner_arenas_frame(3) [of node t p']
  by (simp add: ensure_status_def planner_arenas_frame case_prod_beta)

lemma plan_variable_frame: "planner_arenas (snd (plan_variable t p)) = planner_arenas p"
  by (simp add: plan_variable_def ensure_queue_frame planner_arenas_frame)

lemma plan_graph_input_frame: "planner_arenas (snd (plan_graph_input t p)) = planner_arenas p"
  by (simp add: plan_graph_input_def ensure_queue_frame planner_arenas_frame)

lemma plan_output_frame: "planner_arenas (snd (plan_output i t p)) = planner_arenas p"
  by (simp add: plan_output_def planner_arenas_frame)

lemma plan_input_frame: "planner_arenas (fst (snd (plan_input i t st))) = planner_arenas (fst st)"
  using planner_arenas_frame(4) by (auto simp: plan_input_def Let_def case_prod_beta)

lemma plan_node_frame: "planner_arenas (fst (snd (plan_node info i st))) = planner_arenas (fst st)"
proof -
  obtain p rc where st: "st = (p, rc)" by (cases st)
  obtain s p1 where o: "ensure_each (plan_output i) (nd_outputs (gi_nodes info ! i)) p = (s, p1)"
    by (cases "ensure_each (plan_output i) (nd_outputs (gi_nodes info ! i)) p")
  have 1: "planner_arenas p1 = planner_arenas p"
    using ensure_each_invariant [of "nd_outputs (gi_nodes info ! i)" "\<lambda>q. planner_arenas q = planner_arenas p"
        "plan_output i" p] o by (simp add: plan_output_frame)
  have "planner_arenas (fst (snd (ensure_each (plan_input i) (nd_inputs (gi_nodes info ! i)) (p1, rc)))) = planner_arenas p"
    using 1 by (intro ensure_each_invariant [of _ "\<lambda>q. planner_arenas (fst q) = planner_arenas p"])
      (simp_all add: plan_input_frame)
  then show ?thesis using 1 o st by (simp add: plan_node_def)
qed

lemma fold_ref_tensor:
  "ap_actual_tensor_id (fold ref_tensor ts p) = ap_actual_tensor_id p \<and>
   ap_preserve_all_tensors (fold ref_tensor ts p) = ap_preserve_all_tensors p \<and>
   ap_alloc_node (fold ref_tensor ts p) = ap_alloc_node p \<and> ap_dealloc_node (fold ref_tensor ts p) = ap_dealloc_node p \<and>
   ap_nodes_to_tensors (fold ref_tensor ts p) = ap_nodes_to_tensors p \<and>
   planner_arenas (fold ref_tensor ts p) = planner_arenas p"
  by (induction ts arbitrary: p) (auto simp: ref_tensor_def planner_arenas_def)

lemma fold_ref_all:
  "ap_actual_tensor_id (fold (\<lambda>i. fold ref_tensor (f i)) is p) = ap_actual_tensor_id p \<and>
   ap_preserve_all_tensors (fold (\<lambda>i. fold ref_tensor (f i)) is p) = ap_preserve_all_tensors p \<and>
   ap_alloc_node (fold (\<lambda>i. fold ref_tensor (f i)) is p) = ap_alloc_node p \<and>
   ap_dealloc_node (fold (\<lambda>i. fold ref_tensor (f i)) is p) = ap_dealloc_node p \<and>
   ap_nodes_to_tensors (fold (\<lambda>i. fold ref_tensor (f i)) is p) = ap_nodes_to_tensors p \<and>
   planner_arenas (fold (\<lambda>i. fold ref_tensor (f i)) is p) = planner_arenas p"
  by (induction "is" arbitrary: p) (auto simp: fold_ref_tensor)

lemma pin_outputs:
  assumes "pin_inv info S p" and "\<forall>t\<in>set ts. t = kTfLiteOptionalTensor \<or> tensor_in info t"
  shows "pin_inv info (S \<union> (set ts - {kTfLiteOptionalTensor})) (fold ref_tensor ts p)"
  using assms
proof (induction ts arbitrary: p S)
  case (Cons t ts)
  have "pin_inv info (S \<union> ({t} - {kTfLiteOptionalTensor})) (ref_tensor t p)"
    using Cons.prems tensor_in_nat [of info t]
    by (auto simp: pin_inv_def ref_tensor_def queue_inv_def vec_incr_nth tensor_in_def)
  from Cons.IH [OF this] Cons.prems(2) show ?case by (auto simp: insert_Diff_if Un_assoc)
qed simp

lemma plan_setup_inv:
  assumes "wf_plan info"
  shows "pin_inv info (set (gi_outputs info) - {kTfLiteOptionalTensor}) (plan_setup info p)"
    and "planner_arenas (plan_setup info p) = planner_arenas p"
    and "ap_preserve_all_tensors (plan_setup info p) = ap_preserve_all_tensors p"
proof -
  let ?p = "p\<lparr>ap_alloc_node := replicate (gi_num_tensors info) kNodeNotAssigned,
          ap_dealloc_node := replicate (gi_num_tensors info) kNodeNotAssigned,
          ap_nodes_to_tensors := replicate (num_queues info) [],
          ap_refcounts := replicate (gi_num_tensors info) 0\<rparr>"
  have "pin_inv info {} ?p" by (auto simp: pin_inv_def queue_inv_def)
  from pin_outputs [OF this, of "gi_outputs info"] assms
  show "pin_inv info (set (gi_outputs info) - {kTfLiteOptionalTensor}) (plan_setup info p)"
    by (auto simp: plan_setup_def wf_plan_def)
  show "planner_arenas (plan_setup info p) = planner_arenas p"
    and "ap_preserve_all_tensors (plan_setup info p) = ap_preserve_all_tensors p"
    using fold_ref_tensor [of "gi_outputs info" ?p] by (simp_all add: plan_setup_def planner_arenas_def)
qed

text \<open>
  A plan covers the graph: a tensor is allocated no later than the node that writes it, its memory is
  kept at least until the last node that reads it, directly or through a tensor that shares it, and
  the inputs, outputs and variables of the graph keep theirs for good.
\<close>

definition plan_covers :: "GraphInfo \<Rightarrow> ArenaPlanner \<Rightarrow> bool" where
  "plan_covers info p \<longleftrightarrow>
     (\<forall>i<num_execution_nodes info. \<forall>t\<in>set (nd_outputs (gi_nodes info ! i)) - {kTfLiteOptionalTensor}.
        t \<in> queued p i \<and> 0 \<le> ap_alloc_node p ! nat t \<and> ap_alloc_node p ! nat t \<le> int i) \<and>
     (\<forall>t\<in>(set (gi_inputs info) \<union> set (gi_variables info)) - {kTfLiteOptionalTensor}.
        t \<in> queued p 0 \<and> ap_alloc_node p ! nat t = 0) \<and>
     (\<forall>i<num_execution_nodes info. \<forall>t\<in>set (nd_inputs (gi_nodes info ! i)) - {kTfLiteOptionalTensor}.
        int i \<le> ap_dealloc_node p ! nat (FindSharedTensor t p)) \<and>
     (\<forall>t\<in>(set (gi_inputs info) \<union> set (gi_outputs info) \<union> set (gi_variables info)) - {kTfLiteOptionalTensor}.
        ap_dealloc_node p ! nat t = kNodeNotAssigned)"

lemma plan_inv_covers:
  assumes "wf_plan info" and "roots_in info p0" and "plan_inv info p0 base k todo (p, rc)"
  shows "\<forall>i<num_execution_nodes info. \<forall>t\<in>set (nd_inputs (gi_nodes info ! i)) - {kTfLiteOptionalTensor}.
        int i \<le> ap_dealloc_node p ! nat (FindSharedTensor t p)"
    and "\<forall>t. tensor_in info t \<and> 1 \<le> base ! nat t \<longrightarrow> ap_dealloc_node p ! nat t = kNodeNotAssigned"
proof -
  note I = assms(3) [unfolded plan_inv_def prod.case]
  show "\<forall>t. tensor_in info t \<and> 1 \<le> base ! nat t \<longrightarrow> ap_dealloc_node p ! nat t = kNodeNotAssigned"
    using I tensor_in_nat by fastforce
  show "\<forall>i<num_execution_nodes info. \<forall>t\<in>set (nd_inputs (gi_nodes info ! i)) - {kTfLiteOptionalTensor}.
        int i \<le> ap_dealloc_node p ! nat (FindSharedTensor t p)"
  proof (intro allI impI ballI)
    fix i t assume i: "i < num_execution_nodes info" and t: "t \<in> set (nd_inputs (gi_nodes info ! i)) - {kTfLiteOptionalTensor}"
    let ?r = "FindSharedTensor t p0"
    have r: "FindSharedTensor t p = ?r" using I by (simp add: FindSharedTensor_def)
    have "tensor_in info t" using wf_plan_node(1) [OF assms(1) i] t by auto
    note n = tensor_in_nat [OF FindSharedTensor_in [OF assms(2) this], THEN conjunct1]
      tensor_in_nat [OF FindSharedTensor_in [OF assms(2) this], THEN conjunct2]
    have "uses p0 (nd_inputs (gi_nodes info ! i)) (int (nat ?r)) \<noteq> 0"
      using t n(2) by (auto simp: uses_zero)
    then have "ap_dealloc_node p ! nat ?r \<noteq> kNodeNotAssigned \<longrightarrow> \<not> ap_dealloc_node p ! nat ?r < int i"
      using I i n(1) by blast
    then show "int i \<le> ap_dealloc_node p ! nat (FindSharedTensor t p)"
      using r i assms(1) by (cases "ap_dealloc_node p ! nat ?r = kNodeNotAssigned") (auto simp: wf_plan_def)
  qed
qed

lemma plan_nodes_ok:
  assumes "wf_plan info" and "pin_inv info S p"
  shows "\<exists>p' rc' p0. plan_nodes info tensors p = (kTfLiteOk, p') \<and> roots_in info p0 \<and>
    plan_inv info p0 (ap_refcounts p) (num_execution_nodes info) [] (p', rc') \<and>
    queue_inv info (num_execution_nodes info) p' \<and> queues_grow p p' \<and> planner_arenas p' = planner_arenas p \<and>
    ap_preserve_all_tensors p' = ap_preserve_all_tensors p \<and>
    (\<forall>j<num_execution_nodes info. set (nd_outputs (gi_nodes info ! j)) - {kTfLiteOptionalTensor} \<subseteq> queued p' j)"
proof -
  let ?N = "num_execution_nodes info" and ?base = "ap_refcounts p"
  define p1 where "p1 = fold (\<lambda>i. fold ref_tensor (nd_inputs (gi_nodes info ! i))) [0..<?N] p"
  define p2 where "p2 = IdentifyInPlaceTensors info tensors p1"
  define rc where "rc = fold (\<lambda>i. fold (ref_shared p2) (nd_inputs (gi_nodes info ! i))) [0..<?N] ?base"
  note f1 = fold_ref_all [of "\<lambda>i. nd_inputs (gi_nodes info ! i)" "[0..<?N]" p, folded p1_def]
  obtain g where g: "p2 = p1\<lparr>ap_actual_tensor_id := g\<rparr>"
    using IdentifyInPlaceTensors_roots(2) [OF assms(1)] p2_def by blast
  have roots: "roots_in info p2" using IdentifyInPlaceTensors_roots(1) [OF assms(1)] p2_def by simp
  have len: "length ?base = gi_num_tensors info" using assms(2) by (simp add: pin_inv_def)
  have rc: "\<forall>r<gi_num_tensors info. rc ! r = ?base ! r + later_uses info p2 0 (int r) \<and> length rc = gi_num_tensors info"
    using fold_ref_nodes [OF assms(1) roots le_refl] len by (simp add: rc_def later_uses_def)
  have lenrc: "length rc = gi_num_tensors info"
  proof (cases "gi_num_tensors info")
    case 0
    then show ?thesis using len
      by (auto simp: rc_def intro!: fold_invariant [of _ "\<lambda>_. True" "\<lambda>x. x = []"] simp: ref_shared_def vec_incr_def)
  qed (use rc in auto)
  have "plan_inv info p2 ?base 0 (node_inputs info 0) (p2, rc)"
    using assms(2) rc lenrc f1 later_uses_at [of p2 info 0] unfolding g
    by (intro plan_invI) (auto simp: pin_inv_def queue_inv_def add.assoc)
  moreover have "queue_inv info 0 p2" using assms(2) f1 by (simp add: g pin_inv_def queue_inv_def)
  ultimately obtain p' rc' where r: "ensure_each (plan_node info) [0..<?N] (p2, rc) = (kTfLiteOk, p', rc')"
      "plan_inv info p2 ?base ?N (node_inputs info ?N) (p', rc')" "queue_inv info ?N p'" "queues_grow p2 p'"
      "\<forall>j<?N. set (nd_outputs (gi_nodes info ! j)) - {kTfLiteOptionalTensor} \<subseteq> queued p' j"
    using plan_all_nodes_ok [OF assms(1) roots, of ?base p2 rc ?N] assms(2) by (auto simp: pin_inv_def)
  have "planner_arenas p' = planner_arenas p2"
    using ensure_each_invariant [of "[0..<?N]" "\<lambda>q. planner_arenas (fst q) = planner_arenas p2" "plan_node info" "(p2, rc)"]
      r(1) by (simp add: plan_node_frame)
  then have "planner_arenas p' = planner_arenas p" using f1 by (simp add: g planner_arenas_frame)
  moreover have "plan_nodes info tensors p = (kTfLiteOk, p')"
    using r(1) by (simp add: plan_nodes_def Let_def p1_def [symmetric] p2_def [symmetric] rc_def [symmetric])
  moreover have "queues_grow p p'" using r(4) f1 by (simp add: g queues_grow_def queued_def)
  moreover have "ap_preserve_all_tensors p' = ap_preserve_all_tensors p" using r(2) f1 by (simp add: plan_inv_def g)
  ultimately show ?thesis using r roots by (auto simp: node_inputs_def)
qed

lemma plan_covers_intro:
  assumes "wf_plan info" and "roots_in info p0" and "plan_inv info p0 base k todo (p, rc)"
    and "queue_inv info k' p"
    and "\<forall>j<num_execution_nodes info. set (nd_outputs (gi_nodes info ! j)) - {kTfLiteOptionalTensor} \<subseteq> queued p j"
    and "(set (gi_inputs info) \<union> set (gi_variables info)) - {kTfLiteOptionalTensor} \<subseteq> queued p 0"
    and "\<forall>t\<in>(set (gi_inputs info) \<union> set (gi_outputs info) \<union> set (gi_variables info)) - {kTfLiteOptionalTensor}.
      tensor_in info t \<and> 1 \<le> base ! nat t"
  shows "plan_covers info p"
proof -
  have at: "i < num_queues info \<Longrightarrow> t \<in> queued p i \<Longrightarrow> 0 \<le> ap_alloc_node p ! nat t \<and> ap_alloc_node p ! nat t \<le> int i" for i t
    using assms(4) tensor_in_nat [of info t] by (auto simp: queue_inv_def queued_def)
  have "\<forall>i<num_execution_nodes info. \<forall>t\<in>set (nd_outputs (gi_nodes info ! i)) - {kTfLiteOptionalTensor}.
      t \<in> queued p i \<and> 0 \<le> ap_alloc_node p ! nat t \<and> ap_alloc_node p ! nat t \<le> int i"
    using assms(5) at by (fastforce simp: num_queues_def)
  moreover have "\<forall>t\<in>(set (gi_inputs info) \<union> set (gi_variables info)) - {kTfLiteOptionalTensor}.
      t \<in> queued p 0 \<and> ap_alloc_node p ! nat t = 0"
    using assms(6) at [of 0] by fastforce
  ultimately show ?thesis
    using plan_inv_covers [OF assms(1-3)] assms(7) unfolding plan_covers_def by blast
qed

lemma PlanAllocations_result:
  assumes "wf_plan info"
  obtains p' where "PlanAllocations info tensors p = (kTfLiteOk, p')" and "plan_covers info p'"
    and "queue_inv info (num_execution_nodes info) p'" and "length (ap_dealloc_node p') = gi_num_tensors info"
    and "planner_arenas p' = (snd (ClearPlan (ap_arena p)), snd (ClearPlan (ap_persistent_arena p)),
      replicate (gi_num_tensors info) alloc_reset, ap_has_nonpersistent_memory p, ap_tensor_alignment p,
      kLastActiveNodeUndefined)"
    and "ap_preserve_all_tensors p' = ap_preserve_all_tensors p"
proof -
  obtain p1 where p1: "ResetAllocations info p = (kTfLiteOk, p1)"
      "planner_arenas p1 = (snd (ClearPlan (ap_arena p)), snd (ClearPlan (ap_persistent_arena p)),
      replicate (gi_num_tensors info) alloc_reset, ap_has_nonpersistent_memory p, ap_tensor_alignment p,
      kLastActiveNodeUndefined)"
    by (simp add: ResetAllocations_def ClearPlan_def planner_arenas_def)
  let ?A = "planner_arenas p1"
  note su = plan_setup_inv [OF assms, of p1]
  have vars: "\<forall>t\<in>set (gi_variables info). tensor_in info t"
    and ins: "\<forall>t\<in>set (gi_inputs info). t = kTfLiteOptionalTensor \<or> tensor_in info t"
    using assms by (auto simp: wf_plan_def)
  obtain p2 where p2: "ensure_each plan_variable (gi_variables info) (plan_setup info p1) = (kTfLiteOk, p2)"
      "pin_inv info (set (gi_outputs info) - {kTfLiteOptionalTensor} \<union> set (gi_variables info)) p2"
      "set (gi_variables info) \<subseteq> queued p2 0"
    using plan_variables_ok [OF su(1) vars] by blast
  obtain p3 where p3: "ensure_each plan_graph_input (gi_inputs info) p2 = (kTfLiteOk, p3)"
      "pin_inv info (set (gi_outputs info) - {kTfLiteOptionalTensor} \<union> set (gi_variables info) \<union>
         (set (gi_inputs info) - {kTfLiteOptionalTensor})) p3"
      "queues_grow p2 p3" "set (gi_inputs info) - {kTfLiteOptionalTensor} \<subseteq> queued p3 0"
    using plan_graph_inputs_ok [OF p2(2) ins] by blast
  obtain p' rc' p0 where r: "plan_nodes info tensors p3 = (kTfLiteOk, p')" "roots_in info p0"
      "plan_inv info p0 (ap_refcounts p3) (num_execution_nodes info) [] (p', rc')"
      "queue_inv info (num_execution_nodes info) p'" "queues_grow p3 p'" "planner_arenas p' = planner_arenas p3"
      "ap_preserve_all_tensors p' = ap_preserve_all_tensors p3"
      "\<forall>j<num_execution_nodes info. set (nd_outputs (gi_nodes info ! j)) - {kTfLiteOptionalTensor} \<subseteq> queued p' j"
    using plan_nodes_ok [OF assms p3(2)] by blast
  have "PlanAllocations info tensors p = (kTfLiteOk, p')"
    using p1(1) p2(1) p3(1) r(1) by (simp add: PlanAllocations_def)
  moreover have "plan_covers info p'"
  proof (rule plan_covers_intro [OF assms r(2,3,4,8)])
    show "(set (gi_inputs info) \<union> set (gi_variables info)) - {kTfLiteOptionalTensor} \<subseteq> queued p' 0"
      using p2(3) p3(3,4) r(5) unfolding queues_grow_def by blast
  qed (use p3(2) in \<open>auto simp: pin_inv_def\<close>)
  moreover have "planner_arenas p2 = ?A"
    using ensure_each_invariant [of "gi_variables info" "\<lambda>q. planner_arenas q = ?A" plan_variable "plan_setup info p1"]
      p2(1) su(2) by (simp add: plan_variable_frame)
  then have "planner_arenas p3 = ?A"
    using ensure_each_invariant [of "gi_inputs info" "\<lambda>q. planner_arenas q = ?A" plan_graph_input p2]
      p3(1) by (simp add: plan_graph_input_frame)
  moreover have pre: "\<And>t q. ap_preserve_all_tensors (snd (plan_variable t q)) = ap_preserve_all_tensors q"
    "\<And>t q. ap_preserve_all_tensors (snd (plan_graph_input t q)) = ap_preserve_all_tensors q"
    by (simp_all add: plan_variable_def plan_graph_input_def plan_allocate_def queue_tensor_def ensure_status_def)
  have "ap_preserve_all_tensors p2 = ap_preserve_all_tensors p1"
    using ensure_each_invariant [of "gi_variables info" "\<lambda>q. ap_preserve_all_tensors q = ap_preserve_all_tensors p1"
        plan_variable "plan_setup info p1"] p2(1) su(3) pre by simp
  then have "ap_preserve_all_tensors p3 = ap_preserve_all_tensors p1"
    using ensure_each_invariant [of "gi_inputs info" "\<lambda>q. ap_preserve_all_tensors q = ap_preserve_all_tensors p1"
        plan_graph_input p2] p3(1) pre by simp
  moreover have "ap_preserve_all_tensors p1 = ap_preserve_all_tensors p"
    using p1(1) by (auto simp: ResetAllocations_def ClearPlan_def)
  ultimately show thesis using that [of p'] r p1(2) by (simp add: plan_inv_def)
qed

end
