(* ===== verification/Subgraph.thy ===== *)
theory Subgraph
  imports ArenaPlanner
begin

text \<open>
  The executable graph of the runtime (\<open>lite/core/subgraph.h\<close>, \<open>lite/core/subgraph.cc\<close>): building it from tensors
  and nodes, preparing and allocating it, and invoking it. The code behind function pointers (the kernels of
  the operators, delegates, the cancellation callback), the C library's allocator and \<open>std::sort\<close> are
  fields of a parameter record; a kernel is any function of the subgraph it is called on, because it gets the
  whole context. Reporting, profiling and the reservation of vector capacity have no effect on the state
  and are left out. The arrays of a node are values; \<open>context_.tensors\<close> is the vector \<open>tensors_\<close> itself.
\<close>

section \<open>State\<close>

datatype State = kStateUninvokable | kStateInvokable | kStateInvokableAndImmutable

record TfLiteCustomAllocation =
  ca_data :: nat
  ca_bytes :: nat

text \<open>A name is given with its address, since names of operators are compared as pointers.\<close>

record TfLiteOperator =
  op_custom_name :: "(nat \<times> string) option"
  op_version :: int
  op_init :: nat
  op_free :: nat
  op_prepare :: nat
  op_invoke :: nat
  op_async_kernel :: nat
  op_builtin_code :: int
  op_node_index :: int
  op_user_data :: nat
  op_init_with_data :: nat
  op_free_with_data :: nat
  op_prepare_with_data :: nat
  op_invoke_with_data :: nat

text \<open>A delegate; its functions are addresses, 0 for null.\<close>

record TfLiteOpaqueDelegateBuilder =
  ob_Prepare :: nat
  ob_CopyFromBufferHandle :: nat
  ob_FreeBufferHandle :: nat
  ob_flags :: int

record TfLiteDelegate =
  dg_Prepare :: nat
  dg_CopyFromBufferHandle :: nat
  dg_FreeBufferHandle :: nat
  dg_flags :: int
  dg_opaque_delegate_builder :: "TfLiteOpaqueDelegateBuilder option"

record TfLiteDelegateParams =
  dp_delegate :: nat
  dp_nodes_to_replace :: "int list"
  dp_input_tensors :: "int list"
  dp_output_tensors :: "int list"

record InterpreterOptions =
  io_preserve_all_tensors :: bool
  io_ensure_dynamic_tensors_are_released :: bool
  io_dynamic_allocation_for_large_tensors :: int
  io_disable_delegate_clustering :: bool
  io_use_signature_tensor_names :: bool
  io_compress_quantization_zero_points :: bool

record Subgraph =
  sg_tensors :: "TfLiteTensor list"
  sg_nodes_and_registration :: "(TfLiteNode \<times> TfLiteRegistration) list"
  sg_inputs :: "int list"
  sg_outputs :: "int list"
  sg_variables :: "int list"
  sg_execution_plan :: "int list"
  sg_pre_delegation_execution_plan :: "int list"
  sg_state :: State
  sg_consistent :: bool
  sg_memory_planner :: "ArenaPlanner option"
  sg_next_execution_plan_index_to_prepare :: int
  sg_next_original_execution_plan_index_to_prepare :: int
  sg_next_execution_plan_index_to_plan_allocation :: int
  sg_has_dynamic_tensors :: bool
  sg_dynamic_tensor_index :: int
  sg_custom_allocations :: "(int \<times> TfLiteCustomAllocation) list"
  sg_delegates_applied :: "nat list"
  sg_delegates_undone :: bool
  sg_tensor_resized_since_op_invoke :: bool
  sg_check_cancelled_func :: nat
  sg_continue_invocation :: "bool option"
  sg_tensor_to_last_op_index :: "int \<Rightarrow> int option"
  sg_control_edges :: "ControlEdge list option"
  sg_options :: "InterpreterOptions option"
  sg_tensor_buffer_identifiers :: "int \<Rightarrow> nat option"
  sg_tensor_external_buffer_ids :: "int \<Rightarrow> nat option"
  sg_partitioning_preview_cache :: "TfLiteDelegateParams list"
  sg_delegate_context_switch_count :: int
  sg_delegate_params :: "nat \<Rightarrow> TfLiteDelegateParams option"
  sg_registration_externals :: "int \<times> nat option \<times> int \<Rightarrow> nat option"
  sg_is_delegation_skippable :: bool
  sg_recommended_num_threads :: int
  sg_metadata :: "(string \<Rightarrow> string option) option"
  sg_name :: string
  sg_heap :: heap

text \<open>
  The world outside the runtime. A function is named by its address; \<open>Some d\<close> is the user data that the
  functions with data of \<open>TfLiteOperator\<close> get as first argument. \<open>rt_suppress_denormals\<close> is the mode of floating-point arithmetic that kernels
  are invoked in, their first argument: whether denormal numbers are replaced by 0.
\<close>

record runtime =
  rt_malloc :: "nat \<Rightarrow> byte list option"
  rt_aligned_alloc :: aligned_alloc
  rt_sort :: std_sort
  rt_operator :: "nat \<Rightarrow> TfLiteOperator"
  rt_unresolved_invoke :: nat
  rt_init :: "nat \<Rightarrow> nat option \<Rightarrow> nat \<Rightarrow> nat \<Rightarrow> Subgraph \<Rightarrow> nat \<times> Subgraph"
  rt_free :: "nat \<Rightarrow> nat option \<Rightarrow> nat \<Rightarrow> Subgraph \<Rightarrow> Subgraph"
  rt_prepare :: "nat \<Rightarrow> nat option \<Rightarrow> nat \<Rightarrow> Subgraph \<Rightarrow> TfLiteStatus \<times> Subgraph"
  rt_suppress_denormals :: bool
  rt_invoke :: "bool \<Rightarrow> nat \<Rightarrow> nat option \<Rightarrow> nat \<Rightarrow> Subgraph \<Rightarrow> TfLiteStatus \<times> Subgraph"
  rt_delegate :: "nat \<Rightarrow> TfLiteDelegate"
  rt_delegate_prepare :: "nat \<Rightarrow> nat \<Rightarrow> Subgraph \<Rightarrow> TfLiteStatus \<times> Subgraph"
  rt_cancelled :: "nat \<Rightarrow> Subgraph \<Rightarrow> bool"
  rt_copy_from_buffer_handle :: "nat \<Rightarrow> nat \<Rightarrow> int \<Rightarrow> nat \<Rightarrow> Subgraph \<Rightarrow> TfLiteStatus \<times> Subgraph"
  rt_free_buffer_handle :: "nat \<Rightarrow> nat \<Rightarrow> int \<Rightarrow> Subgraph \<Rightarrow> int \<times> Subgraph"

abbreviation kTfLiteNullBufferHandle :: int where
  "kTfLiteNullBufferHandle \<equiv> -1"

abbreviation kTfLiteNoBufferIdentifier :: nat where
  "kTfLiteNoBufferIdentifier \<equiv> 18446744073709551615"

abbreviation TfLiteKernelInitFailed :: nat where
  "TfLiteKernelInitFailed \<equiv> 18446744073709551615"

abbreviation kTfLiteBuiltinDequantize :: int where "kTfLiteBuiltinDequantize \<equiv> 6"
abbreviation kTfLiteBuiltinReshape :: int where "kTfLiteBuiltinReshape \<equiv> 22"
abbreviation kTfLiteBuiltinCustom :: int where "kTfLiteBuiltinCustom \<equiv> 32"
abbreviation kTfLiteBuiltinDelegate :: int where "kTfLiteBuiltinDelegate \<equiv> 51"
abbreviation kTfLiteBuiltinIf :: int where "kTfLiteBuiltinIf \<equiv> 118"
abbreviation kTfLiteBuiltinWhile :: int where "kTfLiteBuiltinWhile \<equiv> 119"
abbreviation kTfLiteBuiltinCallOnce :: int where "kTfLiteBuiltinCallOnce \<equiv> 129"

definition new_subgraph :: Subgraph where
  "new_subgraph =
     \<lparr>sg_tensors = [], sg_nodes_and_registration = [], sg_inputs = [], sg_outputs = [], sg_variables = [],
      sg_execution_plan = [], sg_pre_delegation_execution_plan = [], sg_state = kStateUninvokable,
      sg_consistent = True, sg_memory_planner = None, sg_next_execution_plan_index_to_prepare = 0,
      sg_next_original_execution_plan_index_to_prepare = 0,
      sg_next_execution_plan_index_to_plan_allocation = 0, sg_has_dynamic_tensors = True,
      sg_dynamic_tensor_index = -1, sg_custom_allocations = [], sg_delegates_applied = [],
      sg_delegates_undone = False, sg_tensor_resized_since_op_invoke = False, sg_check_cancelled_func = 0,
      sg_continue_invocation = None, sg_tensor_to_last_op_index = (\<lambda>_. None), sg_control_edges = None,
      sg_options = None, sg_tensor_buffer_identifiers = (\<lambda>_. None),
      sg_tensor_external_buffer_ids = (\<lambda>_. None), sg_partitioning_preview_cache = [],
      sg_delegate_context_switch_count = 0, sg_delegate_params = (\<lambda>_. None),
      sg_registration_externals = (\<lambda>_. None), sg_is_delegation_skippable = False,
      sg_recommended_num_threads = -1, sg_metadata = None, sg_name = [], sg_heap = empty_heap\<rparr>"

section \<open>Accessors\<close>

definition sg_tensor :: "int \<Rightarrow> Subgraph \<Rightarrow> TfLiteTensor option" where
  "sg_tensor i s = (if i < 0 \<or> nat i \<ge> length (sg_tensors s) then None else Some (sg_tensors s ! nat i))"

definition put_tensor :: "int \<Rightarrow> TfLiteTensor \<Rightarrow> Subgraph \<Rightarrow> Subgraph" where
  "put_tensor i t s = s\<lparr>sg_tensors := (sg_tensors s)[nat i := t]\<rparr>"

definition sg_node :: "int \<Rightarrow> Subgraph \<Rightarrow> TfLiteNode" where
  "sg_node i s = fst (sg_nodes_and_registration s ! nat i)"

definition sg_registration :: "int \<Rightarrow> Subgraph \<Rightarrow> TfLiteRegistration" where
  "sg_registration i s = snd (sg_nodes_and_registration s ! nat i)"

definition ShouldPreserveAllTensors :: "Subgraph \<Rightarrow> bool" where
  "ShouldPreserveAllTensors s = (case sg_options s of None \<Rightarrow> False | Some o' \<Rightarrow> io_preserve_all_tensors o')"

definition ShouldReleaseDynamicTensors :: "Subgraph \<Rightarrow> bool" where
  "ShouldReleaseDynamicTensors s =
     (case sg_options s of None \<Rightarrow> False | Some o' \<Rightarrow> io_ensure_dynamic_tensors_are_released o')"

definition ShouldOptimizeMemoryForLargeTensors :: "Subgraph \<Rightarrow> bool" where
  "ShouldOptimizeMemoryForLargeTensors s =
     (case sg_options s of None \<Rightarrow> False | Some o' \<Rightarrow> io_dynamic_allocation_for_large_tensors o' > 0)"

definition DisableDelegateClustering :: "Subgraph \<Rightarrow> bool" where
  "DisableDelegateClustering s = (case sg_options s of None \<Rightarrow> False | Some o' \<Rightarrow> io_disable_delegate_clustering o')"

text \<open>\<open>InterpreterInfo\<close>: the graph information that planner and partitioner read.\<close>

definition InterpreterInfo :: "Subgraph \<Rightarrow> GraphInfo" where
  "InterpreterInfo s =
     \<lparr>gi_num_tensors = length (sg_tensors s),
      gi_nodes = map (\<lambda>i. sg_node i s) (sg_execution_plan s),
      gi_registrations = map (\<lambda>i. sg_registration i s) (sg_execution_plan s),
      gi_node_index = sg_execution_plan s,
      gi_num_total_nodes = length (sg_nodes_and_registration s),
      gi_inputs = sg_inputs s, gi_outputs = sg_outputs s, gi_variables = sg_variables s\<rparr>"

section \<open>Helpers\<close>

text \<open>The first dynamic tensor of a list, \<open>None\<close> if there is none.\<close>

fun HasDynamicTensorImpl :: "TfLiteTensor list \<Rightarrow> int list \<Rightarrow> int option" where
  "HasDynamicTensorImpl tensors [] = None"
| "HasDynamicTensorImpl tensors (i # is) =
     (if i = kTfLiteOptionalTensor then HasDynamicTensorImpl tensors is
      else if t_allocation_type (tensors ! nat i) = kTfLiteDynamic then Some i
      else HasDynamicTensorImpl tensors is)"

definition GetLegacyQuantization :: "TfLiteQuantization \<Rightarrow> TfLiteQuantizationParams" where
  "GetLegacyQuantization q = (case q of
     kTfLiteAffineQuantization (Some scale) (Some zero_point) _ \<Rightarrow>
       (if length scale \<noteq> 1 then \<lparr>qp_scale = 0, qp_zero_point = 0\<rparr>
        else \<lparr>qp_scale = scale ! 0, qp_zero_point = zero_point ! 0\<rparr>)
   | _ \<Rightarrow> \<lparr>qp_scale = 0, qp_zero_point = 0\<rparr>)"

definition VerifyCustomAllocationForTensor :: "int \<Rightarrow> Subgraph \<Rightarrow> TfLiteStatus" where
  "VerifyCustomAllocationForTensor tensor_idx s =
     (let tensor = sg_tensors s ! nat tensor_idx in
      if t_allocation_type tensor \<noteq> kTfLiteCustom then kTfLiteOk
      else (case map_of (sg_custom_allocations s) tensor_idx of
          None \<Rightarrow> kTfLiteError
        | Some alloc \<Rightarrow> (if ca_bytes alloc < t_bytes tensor then kTfLiteError else kTfLiteOk)))"

definition IsUnresolvedCustomOp :: "runtime \<Rightarrow> TfLiteRegistration \<Rightarrow> bool" where
  "IsUnresolvedCustomOp K reg \<longleftrightarrow>
     rg_builtin_code reg = kTfLiteBuiltinCustom \<and> rg_invoke reg = rt_unresolved_invoke K"

definition size_limited_type :: "TfLiteType \<Rightarrow> bool" where
  "size_limited_type type \<longleftrightarrow> type \<noteq> kTfLiteString \<and> type \<noteq> kTfLiteResource \<and> type \<noteq> kTfLiteVariant"

section \<open>Delegates\<close>

definition TfLiteDelegateIsOpaque :: "runtime \<Rightarrow> nat \<Rightarrow> bool" where
  "TfLiteDelegateIsOpaque K delegate \<longleftrightarrow>
     (let d = rt_delegate K delegate in
      delegate \<noteq> 0 \<and> dg_Prepare d = 0 \<and> dg_CopyFromBufferHandle d = 0 \<and> dg_FreeBufferHandle d = 0 \<and>
      dg_opaque_delegate_builder d \<noteq> None)"

definition opaque_builder :: "runtime \<Rightarrow> nat \<Rightarrow> TfLiteOpaqueDelegateBuilder" where
  "opaque_builder K delegate = the (dg_opaque_delegate_builder (rt_delegate K delegate))"

definition TfLiteDelegatePrepareInternal :: "runtime \<Rightarrow> nat \<Rightarrow> Subgraph \<Rightarrow> TfLiteStatus \<times> Subgraph" where
  "TfLiteDelegatePrepareInternal K delegate =
     (if TfLiteDelegateIsOpaque K delegate \<and> ob_Prepare (opaque_builder K delegate) \<noteq> 0
      then rt_delegate_prepare K (ob_Prepare (opaque_builder K delegate)) delegate
      else rt_delegate_prepare K (dg_Prepare (rt_delegate K delegate)) delegate)"

text \<open>The handle passed on is that of the tensor, as the callers pass it. \<open>i\<close> is the index of the tensor.\<close>

definition TfLiteDelegateCopyFromBufferHandleInternal ::
    "runtime \<Rightarrow> nat \<Rightarrow> int \<Rightarrow> Subgraph \<Rightarrow> TfLiteStatus \<times> Subgraph" where
  "TfLiteDelegateCopyFromBufferHandleInternal K delegate i s =
     (let handle = t_buffer_handle (sg_tensors s ! nat i) in
      if TfLiteDelegateIsOpaque K delegate \<and> ob_CopyFromBufferHandle (opaque_builder K delegate) \<noteq> 0
      then rt_copy_from_buffer_handle K (ob_CopyFromBufferHandle (opaque_builder K delegate)) delegate handle (nat i) s
      else if dg_CopyFromBufferHandle (rt_delegate K delegate) = 0 then (kTfLiteError, s)
      else rt_copy_from_buffer_handle K (dg_CopyFromBufferHandle (rt_delegate K delegate)) delegate handle (nat i) s)"

definition TfLiteDelegateFreeBufferHandleInternal ::
    "runtime \<Rightarrow> nat \<Rightarrow> int \<Rightarrow> Subgraph \<Rightarrow> TfLiteStatus \<times> int \<times> Subgraph" where
  "TfLiteDelegateFreeBufferHandleInternal K delegate handle s =
     (if TfLiteDelegateIsOpaque K delegate \<and> ob_FreeBufferHandle (opaque_builder K delegate) \<noteq> 0
      then (kTfLiteOk, rt_free_buffer_handle K (ob_FreeBufferHandle (opaque_builder K delegate)) delegate handle s)
      else if dg_FreeBufferHandle (rt_delegate K delegate) \<noteq> 0
      then (kTfLiteOk, rt_free_buffer_handle K (dg_FreeBufferHandle (rt_delegate K delegate)) delegate handle s)
      else (kTfLiteError, handle, s))"

definition TfLiteDelegateGetFlagsInternal :: "runtime \<Rightarrow> nat \<Rightarrow> int" where
  "TfLiteDelegateGetFlagsInternal K delegate =
     (if TfLiteDelegateIsOpaque K delegate then ob_flags (opaque_builder K delegate)
      else dg_flags (rt_delegate K delegate))"

section \<open>Building the graph\<close>

definition CheckTensorIndices :: "int list \<Rightarrow> Subgraph \<Rightarrow> TfLiteStatus \<times> Subgraph" where
  "CheckTensorIndices indices s =
     (if list_all (\<lambda>i. i = kTfLiteOptionalTensor \<or> \<not> (i < 0 \<or> nat i \<ge> length (sg_tensors s))) indices
      then (kTfLiteOk, s) else (kTfLiteError, s\<lparr>sg_consistent := False\<rparr>))"

definition CheckInputAndOutputForOverlap :: "int list \<Rightarrow> int list \<Rightarrow> Subgraph \<Rightarrow> TfLiteStatus \<times> Subgraph" where
  "CheckInputAndOutputForOverlap inputs outputs s =
     (if list_all (\<lambda>i. list_all (\<lambda>j. i \<noteq> j) outputs) inputs
      then (kTfLiteOk, s) else (kTfLiteError, s\<lparr>sg_consistent := False\<rparr>))"

definition SetInputs :: "int list \<Rightarrow> Subgraph \<Rightarrow> TfLiteStatus \<times> Subgraph" where
  "SetInputs inputs s =
     ensure_status (CheckTensorIndices inputs s) (\<lambda>s. (kTfLiteOk, s\<lparr>sg_inputs := inputs\<rparr>))"

definition SetOutputs :: "int list \<Rightarrow> Subgraph \<Rightarrow> TfLiteStatus \<times> Subgraph" where
  "SetOutputs outputs s =
     ensure_status (CheckTensorIndices outputs s) (\<lambda>s. (kTfLiteOk, s\<lparr>sg_outputs := outputs\<rparr>))"

definition SetVariables :: "int list \<Rightarrow> Subgraph \<Rightarrow> TfLiteStatus \<times> Subgraph" where
  "SetVariables variables s =
     ensure_status (CheckTensorIndices variables s) (\<lambda>s. (kTfLiteOk, s\<lparr>sg_variables := variables\<rparr>))"

text \<open>A tensor after \<open>memset\<close> to zero: no type, no data, no dimensions, \<open>kTfLiteMemNone\<close>.\<close>

definition zero_tensor :: TfLiteTensor where
  "zero_tensor =
     \<lparr>t_type = kTfLiteNoType, t_data = 0, t_dims = None, t_params = \<lparr>qp_scale = 0, qp_zero_point = 0\<rparr>,
      t_allocation_type = kTfLiteMemNone, t_bytes = 0, t_allocation = 0, t_name = [], t_delegate = 0,
      t_buffer_handle = kTfLiteNullBufferHandle, t_data_is_stale = False, t_is_variable = False,
      t_quantization = kTfLiteNoQuantization, t_sparsity = None, t_dims_signature = None\<rparr>"

text \<open>The result is the status and the index of the first new tensor.\<close>

definition AddTensors :: "int \<Rightarrow> Subgraph \<Rightarrow> TfLiteStatus \<times> int \<times> Subgraph" where
  "AddTensors tensors_to_add s =
     (let base_index = int (length (sg_tensors s)) in
      if tensors_to_add < 0 then (kTfLiteError, base_index, s)
      else (kTfLiteOk, base_index, s\<lparr>sg_tensors := sg_tensors s @ replicate (nat tensors_to_add) zero_tensor\<rparr>))"

definition OpInit :: "runtime \<Rightarrow> TfLiteRegistration \<Rightarrow> nat \<Rightarrow> nat \<Rightarrow> Subgraph \<Rightarrow> nat \<times> Subgraph" where
  "OpInit K reg buffer len s =
     (let ext = rt_operator K (rg_registration_external reg);
          own = (if rg_init reg = 0 then (0, s) else rt_init K (rg_init reg) None buffer len s)
      in if rg_registration_external reg \<noteq> 0
         then (if op_node_index ext \<noteq> -1
               then (let f = rg_init (sg_registration (op_node_index ext) s)
                     in if f = 0 then (0, s) else rt_init K f None buffer len s)
               else if op_init_with_data ext \<noteq> 0
                    then rt_init K (op_init_with_data ext) (Some (op_user_data ext)) buffer len s
               else if op_init ext \<noteq> 0 then rt_init K (op_init ext) None buffer len s
               else own)
         else own)"

definition AnyTensorOfTypeResource :: "TfLiteTensor list \<Rightarrow> int list \<Rightarrow> bool" where
  "AnyTensorOfTypeResource tensors indexes \<longleftrightarrow>
     list_ex (\<lambda>i. 0 \<le> i \<and> nat i < length tensors \<and> t_type (tensors ! nat i) = kTfLiteResource) indexes"

definition OpMightHaveSideEffect :: "TfLiteNode \<Rightarrow> TfLiteRegistration \<Rightarrow> Subgraph \<Rightarrow> bool" where
  "OpMightHaveSideEffect node reg s \<longleftrightarrow>
     AnyTensorOfTypeResource (sg_tensors s) (nd_inputs node) \<or>
     AnyTensorOfTypeResource (sg_tensors s) (nd_outputs node) \<or>
     rg_builtin_code reg = kTfLiteBuiltinIf \<or> rg_builtin_code reg = kTfLiteBuiltinWhile \<or>
     rg_builtin_code reg = kTfLiteBuiltinCallOnce"

text \<open>
  A new node is appended before its kernel is initialised. When the kernel fails, the node stays in the
  vector with the arrays it has freed; it is not in the execution plan. \<open>init_data\<close> and \<open>builtin_data\<close> are
  addresses, 0 for null; the arrays of a node freed this way are given as empty.
\<close>

definition empty_node :: TfLiteNode where
  "empty_node = \<lparr>nd_inputs = [], nd_outputs = [], nd_intermediates = [], nd_temporaries = [], nd_user_data = 0,
     nd_builtin_data = 0, nd_custom_initial_data = 0, nd_custom_initial_data_size = 0, nd_delegate = 0,
     nd_might_have_side_effect = False\<rparr>"

definition empty_registration :: TfLiteRegistration where
  "empty_registration = \<lparr>rg_init = 0, rg_free = 0, rg_prepare = 0, rg_invoke = 0, rg_profiling_string = 0,
     rg_builtin_code = 0, rg_custom_name = None, rg_version = 0, rg_registration_external = 0,
     rg_async_kernel = 0, rg_inplace_operator = 0\<rparr>"

definition put_node :: "int \<Rightarrow> TfLiteNode \<Rightarrow> Subgraph \<Rightarrow> Subgraph" where
  "put_node i node s = s\<lparr>sg_nodes_and_registration :=
     (sg_nodes_and_registration s)[nat i := (node, sg_registration i s)]\<rparr>"

definition add_node ::
    "runtime \<Rightarrow> int list \<Rightarrow> int list \<Rightarrow> int list \<Rightarrow> nat \<Rightarrow> nat \<Rightarrow> nat \<Rightarrow> TfLiteRegistration \<Rightarrow> Subgraph \<Rightarrow>
     TfLiteStatus \<times> int \<times> Subgraph" where
  "add_node K inputs outputs intermediates init_data init_data_size builtin_data reg s =
     (let i = int (length (sg_nodes_and_registration s));
          node = empty_node\<lparr>nd_inputs := inputs, nd_outputs := outputs, nd_intermediates := intermediates\<rparr>;
          s1 = s\<lparr>sg_nodes_and_registration := sg_nodes_and_registration s @ [(node, empty_registration)]\<rparr>;
          (user_data, s2) = (if init_data \<noteq> 0 then OpInit K reg init_data init_data_size s1
                             else OpInit K reg builtin_data 0 s1)
      in if user_data = TfLiteKernelInitFailed then (kTfLiteError, i, put_node i empty_node s2)
         else
           (let custom = (rg_builtin_code reg = kTfLiteBuiltinCustom);
                node1 = (sg_node i s2)\<lparr>nd_user_data := user_data, nd_builtin_data := builtin_data,
                  nd_custom_initial_data := (if custom then init_data else 0),
                  nd_custom_initial_data_size := (if custom then init_data_size else 0), nd_delegate := 0\<rparr>;
                node2 = node1\<lparr>nd_might_have_side_effect := OpMightHaveSideEffect node1 reg s2\<rparr>
            in (kTfLiteOk, i,
                s2\<lparr>sg_nodes_and_registration := (sg_nodes_and_registration s2)[nat i := (node2, reg)],
                   sg_execution_plan := sg_execution_plan s2 @ [i]\<rparr>)))"

definition AddNodeWithParameters ::
    "runtime \<Rightarrow> int list \<Rightarrow> int list \<Rightarrow> int list \<Rightarrow> nat \<Rightarrow> nat \<Rightarrow> nat \<Rightarrow> TfLiteRegistration \<Rightarrow> Subgraph \<Rightarrow>
     TfLiteStatus \<times> int option \<times> Subgraph" where
  "AddNodeWithParameters K inputs outputs intermediates init_data init_data_size builtin_data reg s =
     (if sg_state s = kStateInvokableAndImmutable then (kTfLiteError, None, s)
      else
        (let checks = ensure_status (CheckTensorIndices inputs (s\<lparr>sg_state := kStateUninvokable\<rparr>)) (\<lambda>s.
               ensure_status (CheckTensorIndices outputs s) (\<lambda>s.
               if builtin_data \<noteq> 0 then CheckInputAndOutputForOverlap inputs outputs s else (kTfLiteOk, s)))
         in case checks of (st, s1) \<Rightarrow>
              if st \<noteq> kTfLiteOk then (kTfLiteError, None, s1)
              else (case add_node K inputs outputs intermediates init_data init_data_size builtin_data reg s1 of
                     (st, i, s2) \<Rightarrow> (st, Some i, s2))))"

definition SetExecutionPlan :: "int list \<Rightarrow> Subgraph \<Rightarrow> TfLiteStatus \<times> Subgraph" where
  "SetExecutionPlan new_plan s =
     (if list_all (\<lambda>i. 0 \<le> i \<and> nat i < length (sg_nodes_and_registration s)) new_plan
      then (kTfLiteOk, s\<lparr>sg_execution_plan := new_plan\<rparr>) else (kTfLiteError, s))"

definition GetNodeAndRegistration :: "int \<Rightarrow> Subgraph \<Rightarrow> TfLiteStatus \<times> (TfLiteNode \<times> TfLiteRegistration) option" where
  "GetNodeAndRegistration i s =
     (if \<not> i \<ge> 0 then (kTfLiteError, None)
      else if \<not> nat i < length (sg_nodes_and_registration s) then (kTfLiteError, None)
      else (kTfLiteOk, Some (sg_nodes_and_registration s ! nat i)))"

section \<open>Setting and resizing tensors\<close>

definition tensor_index_in :: "int \<Rightarrow> Subgraph \<Rightarrow> bool" where
  "tensor_index_in i s \<longleftrightarrow> 0 \<le> i \<and> nat i < length (sg_tensors s)"

definition note_external_buffer :: "int \<Rightarrow> nat \<Rightarrow> Subgraph \<Rightarrow> Subgraph" where
  "note_external_buffer i external_buffer_id s =
     (if external_buffer_id \<noteq> kTfLiteNoBufferIdentifier \<and> external_buffer_id \<noteq> 0
      then s\<lparr>sg_tensor_external_buffer_ids := (sg_tensor_external_buffer_ids s)(i \<mapsto> external_buffer_id)\<rparr> else s)"

definition SetTensorParametersReadOnly ::
    "int \<Rightarrow> TfLiteType \<Rightarrow> string \<Rightarrow> int list \<Rightarrow> TfLiteQuantization \<Rightarrow> nat \<Rightarrow> nat \<Rightarrow> nat \<Rightarrow> TfLiteSparsity option \<Rightarrow> nat \<Rightarrow>
     nat \<Rightarrow> Subgraph \<Rightarrow> TfLiteStatus \<times> Subgraph" where
  "SetTensorParametersReadOnly i type name dims quantization buffer bytes allocation sparsity buffer_identifier
     external_buffer_id s =
     (if sg_state s = kStateInvokableAndImmutable then (kTfLiteError, s)
      else if \<not> tensor_index_in i s then (kTfLiteError, s)
      else
        (let has_external_buffer = (external_buffer_id \<noteq> 0 \<and> external_buffer_id \<noteq> kTfLiteNoBufferIdentifier);
             too_small = (size_limited_type type \<and> sparsity = None \<and> \<not> has_external_buffer \<and>
               (case BytesRequired type dims of None \<Rightarrow> True | Some required \<Rightarrow> \<not> required \<le> bytes))
         in if too_small then (kTfLiteError, s)
            else
              (let tensor = sg_tensors s ! nat i;
                   s1 = (if type = t_type tensor \<and> EqualArrayAndTfLiteIntArray (t_dims tensor) (int (length dims)) dims
                         then (case TfLiteTensorDataFree tensor (sg_heap s) of (t, h) \<Rightarrow>
                           (put_tensor i (t\<lparr>t_data := buffer,
                              t_dims := (case t_dims t of None \<Rightarrow> Some dims | Some d \<Rightarrow> Some d),
                              t_params := GetLegacyQuantization quantization, t_quantization := quantization,
                              t_sparsity := sparsity, t_allocation_type := kTfLiteMmapRo,
                              t_allocation := allocation\<rparr>) s)\<lparr>sg_heap := h\<rparr>)
                         else (case TfLiteTensorReset type name (Some dims) (GetLegacyQuantization quantization) buffer bytes
                                      kTfLiteMmapRo allocation False tensor (sg_heap s) of (t, h) \<Rightarrow>
                           (put_tensor i (t\<lparr>t_quantization := quantization, t_sparsity := sparsity\<rparr>) s)
                             \<lparr>sg_heap := h, sg_state := kStateUninvokable\<rparr>));
                   s2 = (if buffer_identifier \<noteq> kTfLiteNoBufferIdentifier
                         then s1\<lparr>sg_tensor_buffer_identifiers := (sg_tensor_buffer_identifiers s1)(i \<mapsto> buffer_identifier)\<rparr>
                         else s1)
               in (kTfLiteOk, note_external_buffer i external_buffer_id s2))))"

definition SetTensorParametersReadWrite ::
    "int \<Rightarrow> TfLiteType \<Rightarrow> string \<Rightarrow> int list \<Rightarrow> TfLiteQuantization \<Rightarrow> bool \<Rightarrow> int list \<Rightarrow> nat \<Rightarrow> Subgraph \<Rightarrow>
     TfLiteStatus \<times> Subgraph" where
  "SetTensorParametersReadWrite i type name dims quantization is_variable dims_signature external_buffer_id s =
     (if sg_state s = kStateInvokableAndImmutable then (kTfLiteError, s)
      else if \<not> tensor_index_in i s then (kTfLiteError, s)
      else
        (case (if size_limited_type type then BytesRequired type dims else Some 0) of
           None \<Rightarrow> (kTfLiteError, s)
         | Some required_bytes \<Rightarrow>
             if \<not> size_limited_type type \<and> is_variable then (kTfLiteError, s)
             else
               (let allocation_type = (if \<not> size_limited_type type then kTfLiteDynamic
                                       else if is_variable then kTfLiteArenaRwPersistent else kTfLiteArenaRw)
                in case TfLiteTensorReset type name (Some dims) (GetLegacyQuantization quantization) 0 required_bytes
                          allocation_type 0 is_variable (sg_tensors s ! nat i) (sg_heap s) of (t, h) \<Rightarrow>
                     (kTfLiteOk, note_external_buffer i external_buffer_id
                       ((put_tensor i (t\<lparr>t_quantization := quantization, t_dims_signature := Some dims_signature\<rparr>) s)
                          \<lparr>sg_heap := h\<rparr>)))))"

text \<open>The status of \<open>TfLiteTensorResizeMaybeCopy\<close> is not looked at: a failed \<open>malloc\<close> leaves a null data pointer.\<close>

definition ResizeTensorImpl :: "runtime \<Rightarrow> int \<Rightarrow> int list \<Rightarrow> Subgraph \<Rightarrow> TfLiteStatus \<times> Subgraph" where
  "ResizeTensorImpl K i new_size s =
     (let tensor = sg_tensors s ! nat i; type = t_allocation_type tensor in
      if type = kTfLiteArenaRw \<or> type = kTfLiteDynamic \<or> type = kTfLiteArenaRwPersistent \<or>
         type = kTfLitePersistentRo \<or> type = kTfLiteCustom \<or> type = kTfLiteNonCpu
      then
        (let s1 = s\<lparr>sg_tensor_resized_since_op_invoke :=
               sg_tensor_resized_since_op_invoke s \<or> \<not> TfLiteIntArrayEqual (t_dims tensor) (Some new_size)\<rparr>;
             finish = (\<lambda>t h. (kTfLiteOk, (put_tensor i (t\<lparr>t_dims := Some new_size,
               t_data := (if type = kTfLiteArenaRw \<or> type = kTfLiteArenaRwPersistent then 0 else t_data t)\<rparr>) s1)\<lparr>sg_heap := h\<rparr>))
         in if size_limited_type (t_type tensor)
            then (case BytesRequired (t_type tensor) new_size of
                None \<Rightarrow> (kTfLiteError, s1)
              | Some bytes_required \<Rightarrow>
                  (case TfLiteTensorResizeMaybeCopy (rt_malloc K) bytes_required False tensor (sg_heap s) of
                     (_, t, h) \<Rightarrow> finish (t\<lparr>t_bytes := bytes_required\<rparr>) h))
            else finish tensor (sg_heap s))
      else (kTfLiteError, s))"

definition ResizeTensor :: "runtime \<Rightarrow> int \<Rightarrow> int list \<Rightarrow> Subgraph \<Rightarrow> TfLiteStatus \<times> Subgraph" where
  "ResizeTensor K i new_size s =
     (let tensor = sg_tensors s ! nat i;
          can_reuse_allocation =
            (t_data tensor \<noteq> 0 \<and> EqualArrayAndTfLiteIntArray (t_dims tensor) (int (length new_size)) new_size \<and>
             (size_limited_type (t_type tensor) \<longrightarrow>
               (case t_dims tensor of None \<Rightarrow> False
                | Some dims \<Rightarrow> (case BytesRequired (t_type tensor) dims of
                    None \<Rightarrow> t_bytes tensor = 0 | Some new_bytes \<Rightarrow> new_bytes = t_bytes tensor))))
      in if can_reuse_allocation then (kTfLiteOk, put_tensor i (tensor\<lparr>t_dims := Some new_size\<rparr>) s)
         else ResizeTensorImpl K i new_size s)"

definition OptimizeMemoryForLargeTensors :: "int \<Rightarrow> Subgraph \<Rightarrow> Subgraph" where
  "OptimizeMemoryForLargeTensors threshold s =
     s\<lparr>sg_tensors := map (\<lambda>(i, t).
        if t_bytes t \<ge> size_of_int threshold \<and> t_allocation_type t = kTfLiteArenaRw \<and> int i \<notin> set (sg_inputs s)
        then t\<lparr>t_allocation_type := kTfLiteDynamic, t_data := 0\<rparr> else t)
        (enumerate 0 (sg_tensors s))\<rparr>"

fun insert_custom ::
    "int \<Rightarrow> TfLiteCustomAllocation \<Rightarrow> (int \<times> TfLiteCustomAllocation) list \<Rightarrow> (int \<times> TfLiteCustomAllocation) list" where
  "insert_custom i a [] = [(i, a)]"
| "insert_custom i a ((j, b) # xs) =
     (if i < j then (i, a) # (j, b) # xs else if i = j then (i, a) # xs else (j, b) # insert_custom i a xs)"

abbreviation kDefaultTensorAlignment :: nat where
  "kDefaultTensorAlignment \<equiv> 64"

definition SetCustomAllocationForTensor ::
    "int \<Rightarrow> TfLiteCustomAllocation \<Rightarrow> bool \<Rightarrow> Subgraph \<Rightarrow> TfLiteStatus \<times> Subgraph" where
  "SetCustomAllocationForTensor i allocation skip_align_check s =
     (let tensor = sg_tensors s ! nat i; type = t_allocation_type tensor in
      if \<not> (type = kTfLiteArenaRw \<or> type = kTfLiteArenaRwPersistent \<or> type = kTfLiteCustom \<or> type = kTfLiteNonCpu)
      then (kTfLiteError, s)
      else if \<not> ca_data allocation \<noteq> 0 then (kTfLiteError, s)
      else if \<not> skip_align_check \<and> \<not> ca_data allocation mod kDefaultTensorAlignment = 0 then (kTfLiteError, s)
      else (kTfLiteOk,
            (put_tensor i (tensor\<lparr>t_allocation_type := kTfLiteCustom, t_data := ca_data allocation\<rparr>) s)
              \<lparr>sg_custom_allocations := insert_custom i allocation (sg_custom_allocations s)\<rparr>))"

section \<open>Preparing the operators\<close>

text \<open>\<open>i\<close> is the index of the node whose kernel is called.\<close>

definition OpPrepare :: "runtime \<Rightarrow> TfLiteRegistration \<Rightarrow> nat \<Rightarrow> Subgraph \<Rightarrow> TfLiteStatus \<times> Subgraph" where
  "OpPrepare K reg i s =
     (let ext = rt_operator K (rg_registration_external reg);
          own = (if rg_prepare reg = 0
                 then (if IsUnresolvedCustomOp K reg then (kTfLiteUnresolvedOps, s) else (kTfLiteOk, s))
                 else rt_prepare K (rg_prepare reg) None i s)
      in if rg_registration_external reg \<noteq> 0
         then (if op_node_index ext \<noteq> -1
               then (let f = rg_prepare (sg_registration (op_node_index ext) s)
                     in if f = 0 then (if IsUnresolvedCustomOp K reg then (kTfLiteUnresolvedOps, s) else (kTfLiteOk, s))
                        else rt_prepare K f None i s)
               else if op_prepare_with_data ext \<noteq> 0
                    then rt_prepare K (op_prepare_with_data ext) (Some (op_user_data ext)) i s
               else if op_prepare ext \<noteq> 0 then rt_prepare K (op_prepare ext) None i s
               else own)
         else own)"

definition OpInvoke :: "runtime \<Rightarrow> TfLiteRegistration \<Rightarrow> nat \<Rightarrow> Subgraph \<Rightarrow> TfLiteStatus \<times> Subgraph" where
  "OpInvoke K reg i s =
     (let ext = rt_operator K (rg_registration_external reg);
          invoke = rt_invoke K (rt_suppress_denormals K);
          own = (if rg_invoke reg = 0 then (kTfLiteError, s) else invoke (rg_invoke reg) None i s)
      in if rg_registration_external reg \<noteq> 0
         then (if op_node_index ext \<noteq> -1
               then (let f = rg_invoke (sg_registration (op_node_index ext) s)
                     in if f = 0 then (kTfLiteError, s) else invoke f None i s)
               else if op_invoke_with_data ext \<noteq> 0
                    then invoke (op_invoke_with_data ext) (Some (op_user_data ext)) i s
               else if op_invoke ext \<noteq> 0 then invoke (op_invoke ext) None i s
               else own)
         else own)"

definition OpFree :: "runtime \<Rightarrow> TfLiteRegistration \<Rightarrow> nat \<Rightarrow> Subgraph \<Rightarrow> Subgraph" where
  "OpFree K reg buffer s =
     (let ext = rt_operator K (rg_registration_external reg);
          own = (if rg_free reg = 0 then s else if buffer \<noteq> 0 then rt_free K (rg_free reg) None buffer s else s)
      in if rg_registration_external reg \<noteq> 0 \<and> buffer \<noteq> 0
         then (if op_node_index ext \<noteq> -1
               then (let f = rg_free (sg_registration (op_node_index ext) s)
                     in if f = 0 then s else rt_free K f None buffer s)
               else if op_free_with_data ext \<noteq> 0
                    then rt_free K (op_free_with_data ext) (Some (op_user_data ext)) buffer s
               else if op_free ext \<noteq> 0 then rt_free K (op_free ext) None buffer s
               else own)
         else own)"

text \<open>
  The loop over the execution plan from an index on: the result is the status and the index of the last
  operator prepared. It stops early at an operator with a dynamic output.
\<close>

fun prepare_loop :: "runtime \<Rightarrow> int list \<Rightarrow> int list \<Rightarrow> int \<Rightarrow> Subgraph \<Rightarrow> TfLiteStatus \<times> int \<times> Subgraph" where
  "prepare_loop K plan [] prepared s = (kTfLiteOk, prepared, s)"
| "prepare_loop K plan (k # ks) prepared s =
     (let node_index = plan ! nat k in
      case OpPrepare K (sg_registration node_index s) (nat node_index) s of (st, s1) \<Rightarrow>
        if st \<noteq> kTfLiteOk \<and> st \<noteq> kTfLiteOutputShapeNotKnown then (st, prepared, s1)
        else (case HasDynamicTensorImpl (sg_tensors s1) (nd_outputs (sg_node node_index s1)) of
            Some d \<Rightarrow> (kTfLiteOk, k, s1\<lparr>sg_dynamic_tensor_index := d, sg_has_dynamic_tensors := True\<rparr>)
          | None \<Rightarrow> (if st = kTfLiteOutputShapeNotKnown then (kTfLiteOk, k, s1\<lparr>sg_has_dynamic_tensors := True\<rparr>)
                     else prepare_loop K plan ks k s1)))"

definition PrepareOpsStartingAt ::
    "runtime \<Rightarrow> int \<Rightarrow> int list \<Rightarrow> int \<Rightarrow> Subgraph \<Rightarrow> TfLiteStatus \<times> int \<times> Subgraph" where
  "PrepareOpsStartingAt K first plan prepared s =
     (let s1 = (if first = 0
                then (case HasDynamicTensorImpl (sg_tensors s) (sg_outputs s) of
                    None \<Rightarrow> s\<lparr>sg_has_dynamic_tensors := False\<rparr>
                  | Some d \<Rightarrow> s\<lparr>sg_has_dynamic_tensors := True, sg_dynamic_tensor_index := d\<rparr>)
                else s)
      in prepare_loop K plan [first..int (length plan) - 1] prepared s1)"

definition kTfLiteDelegateFlagsRequirePropagatedShapes :: "runtime \<Rightarrow> nat \<Rightarrow> bool" where
  "kTfLiteDelegateFlagsRequirePropagatedShapes K delegate = bit (TfLiteDelegateGetFlagsInternal K delegate) 1"

text \<open>The planner works on the tensors of the subgraph through \<open>InterpreterInfo\<close>.\<close>

definition with_planner ::
    "Subgraph \<Rightarrow> ArenaPlanner \<Rightarrow> (ArenaPlanner \<Rightarrow> TfLiteTensor list \<Rightarrow> TfLiteStatus \<times> ArenaPlanner \<times> TfLiteTensor list) \<Rightarrow>
     TfLiteStatus \<times> Subgraph" where
  "with_planner s p f = (case f p (sg_tensors s) of (st, p', tensors) \<Rightarrow>
     (st, s\<lparr>sg_memory_planner := Some p', sg_tensors := tensors\<rparr>))"

text \<open>
  The custom allocations are verified for the outputs of the operators just prepared. The loop runs over
  indices of the execution plan and uses them as indices of nodes.
\<close>

definition verify_custom_outputs :: "int \<Rightarrow> int \<Rightarrow> Subgraph \<Rightarrow> TfLiteStatus \<times> Subgraph" where
  "verify_custom_outputs first last_prepared s =
     (if sg_nodes_and_registration s = [] then (kTfLiteOk, s)
      else ensure_each (\<lambda>t s. if t = kTfLiteOptionalTensor then (kTfLiteOk, s) else (VerifyCustomAllocationForTensor t s, s))
             (concat (map (\<lambda>i. nd_outputs (sg_node i s)) [first..last_prepared])) s)"

definition verify_custom_inputs :: "Subgraph \<Rightarrow> TfLiteStatus \<times> Subgraph" where
  "verify_custom_inputs s =
     ensure_each (\<lambda>t s. if t = kTfLiteOptionalTensor then (kTfLiteOk, s) else (VerifyCustomAllocationForTensor t s, s))
       (sg_inputs s) s"

definition prepare_original_plan :: "runtime \<Rightarrow> Subgraph \<Rightarrow> TfLiteStatus \<times> Subgraph" where
  "prepare_original_plan K s =
     (if sg_pre_delegation_execution_plan s \<noteq> [] \<and>
         list_ex (kTfLiteDelegateFlagsRequirePropagatedShapes K) (sg_delegates_applied s)
      then (case PrepareOpsStartingAt K (sg_next_execution_plan_index_to_prepare s)
                   (sg_pre_delegation_execution_plan s) 0 s of (st, prepared, s1) \<Rightarrow>
              if st \<noteq> kTfLiteOk then (st, s1)
              else (kTfLiteOk, s1\<lparr>sg_next_original_execution_plan_index_to_prepare := prepared + 1\<rparr>))
      else (kTfLiteOk, s))"

definition ensure_planner :: "Subgraph \<Rightarrow> Subgraph" where
  "ensure_planner s = (case sg_memory_planner s of
     Some p \<Rightarrow> s
   | None \<Rightarrow> s\<lparr>sg_memory_planner := Some (snd (PlanAllocations (InterpreterInfo s) (sg_tensors s)
       (new_planner (ShouldPreserveAllTensors s) kDefaultTensorAlignment)))\<rparr>)"

definition execute_plan :: "runtime \<Rightarrow> int \<Rightarrow> Subgraph \<Rightarrow> TfLiteStatus \<times> Subgraph" where
  "execute_plan K last_prepared s = (case sg_memory_planner s of
     None \<Rightarrow> (kTfLiteOk, s)
   | Some p \<Rightarrow> with_planner s p (ExecuteAllocations (rt_sort K) (rt_aligned_alloc K) (InterpreterInfo s)
       (sg_next_execution_plan_index_to_plan_allocation s) last_prepared))"

definition PrepareOpsAndTensors :: "runtime \<Rightarrow> Subgraph \<Rightarrow> TfLiteStatus \<times> Subgraph" where
  "PrepareOpsAndTensors K s =
     ensure_status (prepare_original_plan K s) (\<lambda>s.
     case PrepareOpsStartingAt K (sg_next_execution_plan_index_to_prepare s) (sg_execution_plan s) 0 s of
       (st, prepared, s1) \<Rightarrow>
         if st \<noteq> kTfLiteOk then (st, s1)
         else
           ensure_status (execute_plan K prepared
             (ensure_planner (s1\<lparr>sg_next_execution_plan_index_to_prepare := prepared + 1\<rparr>))) (\<lambda>s.
           ensure_status
             (if sg_custom_allocations s = [] then (kTfLiteOk, s)
              else ensure_status (verify_custom_outputs (sg_next_execution_plan_index_to_plan_allocation s) prepared s) (\<lambda>s.
                   if sg_next_execution_plan_index_to_plan_allocation s = 0 then verify_custom_inputs s else (kTfLiteOk, s)))
             (\<lambda>s. (kTfLiteOk, s\<lparr>sg_next_execution_plan_index_to_plan_allocation := prepared + 1\<rparr>))))"

section \<open>Allocating\<close>

text \<open>
  \<open>ResetVariableTensor\<close> fills the tensor's bytes, which lie in the persistent arena, with zero or, for
  8-bit tensors, the zero point.
\<close>

definition ResetVariableTensor :: "TfLiteTensor \<Rightarrow> Subgraph \<Rightarrow> Subgraph" where
  "ResetVariableTensor t s = (case sg_memory_planner s of
     None \<Rightarrow> s
   | Some p \<Rightarrow>
      (let v = (if t_type t = kTfLiteInt8 then word_of_int (qp_zero_point (t_params t)) else 0 :: byte);
           a = ap_persistent_arena p; b = underlying_buffer a; o0 = t_data t - buf_aligned_pointer b;
           bytes = take o0 (buf_bytes b) @ replicate (t_bytes t) v @ drop (o0 + t_bytes t) (buf_bytes b)
       in if \<not> t_is_variable t then s
          else s\<lparr>sg_memory_planner := Some (p\<lparr>ap_persistent_arena :=
                 a\<lparr>underlying_buffer := b\<lparr>buf_bytes := bytes\<rparr>\<rparr>\<rparr>)\<rparr>))"

definition ResetVariableTensors :: "Subgraph \<Rightarrow> TfLiteStatus \<times> Subgraph" where
  "ResetVariableTensors s =
     ensure_each (\<lambda>t s.
       if \<not> t_is_variable t then (kTfLiteOk, s)
       else if t_allocation_type t = kTfLiteArenaRwPersistent
            then (if t_data t = 0 then (kTfLiteError, s) else (kTfLiteOk, ResetVariableTensor t s))
       else if t_allocation_type t = kTfLiteCustom then (kTfLiteOk, s) else (kTfLiteError, s)) (sg_tensors s) s"

text \<open>Every tensor is mapped to the last node of the plan that reads or writes it.\<close>

definition note_last_use :: "int \<Rightarrow> int \<Rightarrow> Subgraph \<Rightarrow> Subgraph" where
  "note_last_use node_index t s =
     (if sg_tensor t s = None then s
      else s\<lparr>sg_tensor_to_last_op_index := (sg_tensor_to_last_op_index s)(t \<mapsto> node_index)\<rparr>)"

definition InitializeTensorReleaseMap :: "Subgraph \<Rightarrow> Subgraph" where
  "InitializeTensorReleaseMap s =
     fold (\<lambda>i s. fold (note_last_use i) (nd_inputs (sg_node i s) @ nd_outputs (sg_node i s)) s) (sg_execution_plan s) s"

definition free_temporary :: "int \<Rightarrow> Subgraph \<Rightarrow> Subgraph" where
  "free_temporary t s = (case TfLiteTensorDataFree (sg_tensors s ! nat t) (sg_heap s) of
     (t', h) \<Rightarrow> (put_tensor t (t'\<lparr>t_bytes := 0\<rparr>) s)\<lparr>sg_heap := h\<rparr>)"

text \<open>The order in which the hash set of delegated nodes is visited is not fixed; the model takes that of the plan.\<close>

definition free_delegated_temporaries :: "Subgraph \<Rightarrow> Subgraph" where
  "free_delegated_temporaries s =
     (if sg_pre_delegation_execution_plan s = [] then s
      else fold (\<lambda>i s. fold free_temporary (nd_temporaries (sg_node i s)) s)
             (filter (\<lambda>i. i \<notin> set (sg_execution_plan s)) (remdups (sg_pre_delegation_execution_plan s))) s)"

definition acquire_memory :: "runtime \<Rightarrow> Subgraph \<Rightarrow> Subgraph" where
  "acquire_memory K s = (case sg_memory_planner s of
     None \<Rightarrow> s
   | Some p \<Rightarrow> (if HasNonPersistentMemory p then s
                else snd (with_planner s p (AcquireNonPersistentMemory (rt_aligned_alloc K)))))"

definition verify_custom_allocation :: "int \<times> TfLiteCustomAllocation \<Rightarrow> Subgraph \<Rightarrow> TfLiteStatus \<times> Subgraph" where
  "verify_custom_allocation x s = (case x of (i, _) \<Rightarrow>
     if t_allocation_type (sg_tensors s ! nat i) \<noteq> kTfLiteCustom then (kTfLiteError, s)
     else (VerifyCustomAllocationForTensor i s, s))"

definition reset_planner :: "Subgraph \<Rightarrow> TfLiteStatus \<times> Subgraph" where
  "reset_planner s = (case sg_memory_planner s of
     None \<Rightarrow> (kTfLiteOk, s)
   | Some p \<Rightarrow> (case ResetAllocations (InterpreterInfo s) p of (st, p') \<Rightarrow> (st, s\<lparr>sg_memory_planner := Some p'\<rparr>)))"

text \<open>
  \<open>AllocateTensors\<close> after the delegates are restored. When the graph is invokable and no input is dynamic,
  only released memory is acquired again and the custom allocations are verified.
\<close>

definition allocate_prepared :: "runtime \<Rightarrow> Subgraph \<Rightarrow> TfLiteStatus \<times> Subgraph" where
  "allocate_prepared K s0 =
     (let dyn = (if sg_state s0 \<noteq> kStateUninvokable then HasDynamicTensorImpl (sg_tensors s0) (sg_inputs s0) else None);
          s = (case dyn of None \<Rightarrow> s0 | Some d \<Rightarrow> s0\<lparr>sg_dynamic_tensor_index := d\<rparr>)
      in if sg_state s \<noteq> kStateUninvokable \<and> dyn = None
         then (let s1 = acquire_memory K s in ensure_each verify_custom_allocation (sg_custom_allocations s1) s1)
         else
           ensure_status (reset_planner (s\<lparr>sg_next_execution_plan_index_to_prepare := 0,
               sg_next_execution_plan_index_to_plan_allocation := 0,
               sg_next_original_execution_plan_index_to_prepare := 0\<rparr>)) (\<lambda>s.
           ensure_status (PrepareOpsAndTensors K s) (\<lambda>s.
           (kTfLiteOk, free_delegated_temporaries (InitializeTensorReleaseMap
              (snd (ResetVariableTensors (s\<lparr>sg_state := kStateInvokable\<rparr>))))))))"

section \<open>Invoking\<close>

definition EnsureTensorDataIsReadable :: "runtime \<Rightarrow> int \<Rightarrow> Subgraph \<Rightarrow> TfLiteStatus \<times> Subgraph" where
  "EnsureTensorDataIsReadable K i s =
     (let t = sg_tensors s ! nat i in
      if \<not> t_data_is_stale t then (kTfLiteOk, s)
      else if \<not> t_delegate t \<noteq> 0 then (kTfLiteError, s)
      else if \<not> t_buffer_handle t \<noteq> kTfLiteNullBufferHandle then (kTfLiteError, s)
      else (case TfLiteDelegateCopyFromBufferHandleInternal K (t_delegate t) i s of (st, s1) \<Rightarrow>
              (st, put_tensor i ((sg_tensors s1 ! nat i)\<lparr>t_data_is_stale := False\<rparr>) s1)))"

text \<open>Input number \<open>k\<close> of the node; the shape input of a reshape may have no data.\<close>

definition check_node_input :: "runtime \<Rightarrow> int \<Rightarrow> nat \<Rightarrow> Subgraph \<Rightarrow> TfLiteStatus \<times> Subgraph" where
  "check_node_input K node_index k s =
     (let node = sg_node node_index s; i = nd_inputs node ! k; t = sg_tensors s ! nat i in
      if i = kTfLiteOptionalTensor then (kTfLiteOk, s)
      else ensure_status
        (if t_delegate t \<noteq> 0 \<and> t_delegate t \<noteq> nd_delegate node \<and> t_data_is_stale t
         then EnsureTensorDataIsReadable K i s else (kTfLiteOk, s))
        (\<lambda>s. let t = sg_tensors s ! nat i in
             if t_data t = 0 \<and> t_bytes t > 0 \<and> t_allocation_type t \<noteq> kTfLiteNonCpu
             then (if rg_builtin_code (sg_registration node_index s) = kTfLiteBuiltinReshape \<and> k = 1 \<and>
                      (case t_dims t of None \<Rightarrow> False | Some d \<Rightarrow> length d \<noteq> 1)
                   then (kTfLiteOk, s) else (kTfLiteError, s))
             else (kTfLiteOk, s)))"

definition may_allocate_output :: "runtime \<Rightarrow> int \<Rightarrow> Subgraph \<Rightarrow> Subgraph" where
  "may_allocate_output K i s =
     (let t = sg_tensors s ! nat i in
      if i = kTfLiteOptionalTensor then s
      else if t_data t = 0 \<and> t_allocation_type t = kTfLiteDynamic
           then (case TfLiteTensorRealloc (rt_malloc K) (t_bytes t) t (sg_heap s) of
                   (_, t', h) \<Rightarrow> (put_tensor i t' s)\<lparr>sg_heap := h\<rparr>)
      else s)"

definition MayAllocateOpOutput :: "runtime \<Rightarrow> int \<Rightarrow> Subgraph \<Rightarrow> TfLiteStatus \<times> Subgraph" where
  "MayAllocateOpOutput K node_index s =
     (kTfLiteOk, if ShouldOptimizeMemoryForLargeTensors s
                 then fold (may_allocate_output K) (nd_outputs (sg_node node_index s)) s else s)"

definition may_release_tensor :: "int \<Rightarrow> int \<Rightarrow> Subgraph \<Rightarrow> Subgraph" where
  "may_release_tensor node_index i s = (case sg_tensor i s of
     None \<Rightarrow> s
   | Some t \<Rightarrow>
      (if t_allocation_type t \<noteq> kTfLiteDynamic \<or> t_type t = kTfLiteString \<or> t_type t = kTfLiteResource \<or>
          i \<in> set (sg_inputs s) \<or> i \<in> set (sg_outputs s) then s
       else if sg_tensor_to_last_op_index s i = Some node_index \<and> t_data t \<noteq> 0
            then (case TfLiteTensorDataFree t (sg_heap s) of (t', h) \<Rightarrow> (put_tensor i t' s)\<lparr>sg_heap := h\<rparr>)
       else s))"

definition MaybeReleaseDynamicTensors :: "int \<Rightarrow> Subgraph \<Rightarrow> Subgraph" where
  "MaybeReleaseDynamicTensors node_index s =
     (if \<not> ShouldReleaseDynamicTensors s then s
      else fold (may_release_tensor node_index)
             (nd_inputs (sg_node node_index s) @ nd_outputs (sg_node node_index s)) s)"

text \<open>
  The cancellation callback and the flag set by \<open>Cancel\<close>: \<open>test_and_set\<close> returns the old value and sets it.
\<close>

definition check_cancellation :: "runtime \<Rightarrow> Subgraph \<Rightarrow> TfLiteStatus \<times> Subgraph" where
  "check_cancellation K s =
     (if sg_check_cancelled_func s \<noteq> 0 \<and> rt_cancelled K (sg_check_cancelled_func s) s then (kTfLiteError, s)
      else (case sg_continue_invocation s of
          None \<Rightarrow> (kTfLiteOk, s)
        | Some go \<Rightarrow> (if go then kTfLiteOk else kTfLiteCancelled, s\<lparr>sg_continue_invocation := Some True\<rparr>)))"

text \<open>After an operator has resized a dynamic output, the operators after it are prepared and planned again.\<close>

definition replan_after :: "int \<Rightarrow> int \<Rightarrow> Subgraph \<Rightarrow> TfLiteStatus \<times> Subgraph" where
  "replan_after k node_index s =
     (if sg_tensor_resized_since_op_invoke s \<and>
         HasDynamicTensorImpl (sg_tensors s) (nd_outputs (sg_node node_index s)) \<noteq> None
      then (let s1 = s\<lparr>sg_next_execution_plan_index_to_prepare := k + 1\<rparr> in
            if sg_next_execution_plan_index_to_plan_allocation s1 > sg_next_execution_plan_index_to_prepare s1
            then (let s2 = s1\<lparr>sg_next_execution_plan_index_to_plan_allocation := sg_next_execution_plan_index_to_prepare s1\<rparr>
                  in case sg_memory_planner s2 of
                       None \<Rightarrow> (kTfLiteOk, s2)
                     | Some p \<Rightarrow> with_planner s2 p
                         (ResetAllocationsAfter (sg_next_execution_plan_index_to_plan_allocation s2 - 1)))
            else (kTfLiteOk, s1))
      else (kTfLiteOk, s))"

definition invoke_kernel :: "runtime \<Rightarrow> int \<Rightarrow> Subgraph \<Rightarrow> TfLiteStatus \<times> Subgraph" where
  "invoke_kernel K node_index s =
     (case OpInvoke K (sg_registration node_index s) (nat node_index) (s\<lparr>sg_tensor_resized_since_op_invoke := False\<rparr>) of
        (st, s1) \<Rightarrow> (if st = kTfLiteOk \<or> st = kTfLiteCancelled then st else kTfLiteError, s1))"

definition invoke_node :: "runtime \<Rightarrow> int \<Rightarrow> Subgraph \<Rightarrow> TfLiteStatus \<times> Subgraph" where
  "invoke_node K k s =
     ensure_status
       (if k = sg_next_execution_plan_index_to_prepare s
        then ensure_status (PrepareOpsAndTensors K s) (\<lambda>s.
          if sg_next_execution_plan_index_to_prepare s \<ge> k then (kTfLiteOk, s) else (kTfLiteError, s))
        else (kTfLiteOk, s)) (\<lambda>s.
     let node_index = sg_execution_plan s ! nat k in
     ensure_status (ensure_each (check_node_input K node_index) [0..<length (nd_inputs (sg_node node_index s))] s) (\<lambda>s.
     ensure_status (MayAllocateOpOutput K node_index s) (\<lambda>s.
     ensure_status (check_cancellation K s) (\<lambda>s.
     ensure_status (invoke_kernel K node_index s) (\<lambda>s.
     ensure_status (replan_after k node_index s) (\<lambda>s.
     (kTfLiteOk, MaybeReleaseDynamicTensors node_index s)))))))"

definition Invoke :: "runtime \<Rightarrow> Subgraph \<Rightarrow> TfLiteStatus \<times> Subgraph" where
  "Invoke K s =
     (if \<not> sg_consistent s then (kTfLiteError, s)
      else if sg_state s = kStateUninvokable then (kTfLiteError, s)
      else if (case sg_memory_planner s of None \<Rightarrow> False | Some p \<Rightarrow> \<not> HasNonPersistentMemory p) then (kTfLiteError, s)
      else ensure_each (invoke_node K) (map int [0..<length (sg_execution_plan s)]) s)"

section \<open>Cancellation and releasing memory\<close>

definition EnableCancellation :: "bool \<Rightarrow> Subgraph \<Rightarrow> TfLiteStatus \<times> Subgraph" where
  "EnableCancellation flag s = (kTfLiteOk, s\<lparr>sg_continue_invocation := Some flag\<rparr>)"

definition Cancel :: "Subgraph \<Rightarrow> TfLiteStatus \<times> Subgraph" where
  "Cancel s = (case sg_continue_invocation s of
     Some _ \<Rightarrow> (kTfLiteOk, s\<lparr>sg_continue_invocation := Some False\<rparr>)
   | None \<Rightarrow> (kTfLiteError, s))"

definition IsCancelled :: "runtime \<Rightarrow> Subgraph \<Rightarrow> bool" where
  "IsCancelled K s \<longleftrightarrow> sg_check_cancelled_func s \<noteq> 0 \<and> rt_cancelled K (sg_check_cancelled_func s) s"

definition sg_ReleaseNonPersistentMemory :: "Subgraph \<Rightarrow> TfLiteStatus \<times> Subgraph" where
  "sg_ReleaseNonPersistentMemory s =
     (let s1 = s\<lparr>sg_state := kStateUninvokable\<rparr> in
      case sg_memory_planner s1 of
        None \<Rightarrow> (kTfLiteOk, s1)
      | Some p \<Rightarrow> ensure_status (with_planner s1 p ReleaseNonPersistentMemory) (\<lambda>s. (kTfLiteOk, s)))"

definition free_dynamic_tensor :: "int \<Rightarrow> Subgraph \<Rightarrow> Subgraph" where
  "free_dynamic_tensor i s =
     (if i = kTfLiteOptionalTensor then s
      else (case sg_tensor i s of
          None \<Rightarrow> s
        | Some t \<Rightarrow> (if t_allocation_type t \<noteq> kTfLiteDynamic then s
                     else if t_data t \<noteq> 0
                          then (case TfLiteTensorDataFree t (sg_heap s) of (t', h) \<Rightarrow> (put_tensor i t' s)\<lparr>sg_heap := h\<rparr>)
                     else s)))"

definition ReleaseMemory :: "Subgraph \<Rightarrow> TfLiteStatus \<times> Subgraph" where
  "ReleaseMemory s =
     (let s1 = snd (sg_ReleaseNonPersistentMemory (s\<lparr>sg_state := kStateUninvokable\<rparr>))
      in (kTfLiteOk, fold free_dynamic_tensor (sg_outputs s1) (fold free_dynamic_tensor (sg_inputs s1) s1)))"

definition count_input :: "int \<Rightarrow> int list \<Rightarrow> int list" where
  "count_input i counts = (if i = kTfLiteOptionalTensor then counts else vec_incr i counts)"

definition GetInputTensorsCount :: "Subgraph \<Rightarrow> int list" where
  "GetInputTensorsCount s =
     fold vec_incr (sg_outputs s)
       (fold (\<lambda>i. fold count_input (nd_inputs (sg_node i s))) (sg_execution_plan s)
          (replicate (length (sg_tensors s)) 0))"

fun remove_unused :: "int list \<Rightarrow> int list \<Rightarrow> TfLiteTensor list \<Rightarrow> int list \<times> TfLiteTensor list" where
  "remove_unused counts [] tensors = ([], tensors)"
| "remove_unused counts (i # is) tensors =
     (if i = kTfLiteOptionalTensor \<or> counts ! nat i \<noteq> 0
      then (case remove_unused counts is tensors of (is', tensors') \<Rightarrow> (i # is', tensors'))
      else (case remove_unused counts is (tensors[nat i := (tensors ! nat i)\<lparr>t_bytes := 0\<rparr>]) of
              (is', tensors') \<Rightarrow> (kTfLiteOptionalTensor # is', tensors')))"

definition RemoveUnusedInputs :: "Subgraph \<Rightarrow> TfLiteStatus \<times> Subgraph" where
  "RemoveUnusedInputs s =
     (case remove_unused (GetInputTensorsCount s) (sg_inputs s) (sg_tensors s) of (inputs, tensors) \<Rightarrow>
        (kTfLiteOk, s\<lparr>sg_inputs := inputs, sg_tensors := tensors\<rparr>))"

section \<open>Name and options\<close>

definition SetName :: "string option \<Rightarrow> Subgraph \<Rightarrow> Subgraph" where
  "SetName name s = s\<lparr>sg_name := (case name of Some n \<Rightarrow> n | None \<Rightarrow> [])\<rparr>"

definition SetOptions :: "InterpreterOptions option \<Rightarrow> Subgraph \<Rightarrow> Subgraph" where
  "SetOptions options s =
     (let s1 = s\<lparr>sg_options := options\<rparr> in
      case options of
        Some opts \<Rightarrow> (if io_dynamic_allocation_for_large_tensors opts > 0
                      then OptimizeMemoryForLargeTensors (io_dynamic_allocation_for_large_tensors opts) s1 else s1)
      | None \<Rightarrow> s1)"

end
