(* ===== verification/Delegation.thy ===== *)
theory Delegation
  imports Subgraph
begin

text \<open>
  Delegation, resizing of inputs and tear-down of a subgraph (\<open>lite/core/subgraph.cc\<close>): a delegate replaces
  parts of the execution plan by nodes of its own, and the runtime can undo and redo that. Applying a delegate
  may allocate, allocating may redo delegates, and redoing applies them: the recursion is cut by fuel, counted
  in nested calls of \<open>RedoAllDelegates\<close>, whose exhaustion is \<open>None\<close>. Inlining of composite operators, an
  option that is off unless set, and the flags of other subgraphs are left out.
\<close>

section \<open>Early return with fuel\<close>

definition run_status ::
    "(TfLiteStatus \<times> 's) option \<Rightarrow> ('s \<Rightarrow> (TfLiteStatus \<times> 's) option) \<Rightarrow> (TfLiteStatus \<times> 's) option" where
  "run_status r f = (case r of
     None \<Rightarrow> None
   | Some (st, s) \<Rightarrow> (if st = kTfLiteOk then f s else Some (st, s)))"

fun run_each :: "('a \<Rightarrow> 's \<Rightarrow> (TfLiteStatus \<times> 's) option) \<Rightarrow> 'a list \<Rightarrow> 's \<Rightarrow> (TfLiteStatus \<times> 's) option" where
  "run_each f [] s = Some (kTfLiteOk, s)"
| "run_each f (x # xs) s = run_status (f x s) (run_each f xs)"

section \<open>Tear-down\<close>

text \<open>
  The arrays of a node are freed, here made empty, and so is its builtin data, which is dropped from the
  parameters of delegates when it is one of them.
\<close>

definition CleanupNode :: "runtime \<Rightarrow> int \<Rightarrow> Subgraph \<Rightarrow> Subgraph" where
  "CleanupNode K i s =
     (let node = sg_node i s;
          s1 = put_node i (node\<lparr>nd_inputs := [], nd_outputs := [], nd_temporaries := [], nd_intermediates := []\<rparr>) s;
          s2 = (if nd_builtin_data node \<noteq> 0
                then s1\<lparr>sg_delegate_params := (sg_delegate_params s1)(nd_builtin_data node := None)\<rparr> else s1);
          s3 = OpFree K (sg_registration i s) (nd_user_data node) s2
      in put_node i ((sg_node i s3)\<lparr>nd_user_data := 0, nd_builtin_data := 0\<rparr>) s3)"

definition free_tensor :: "runtime \<Rightarrow> nat \<Rightarrow> Subgraph \<Rightarrow> Subgraph" where
  "free_tensor K i s =
     (let t = sg_tensors s ! i;
          s1 = (if t_buffer_handle t \<noteq> kTfLiteNullBufferHandle
                then (case TfLiteDelegateFreeBufferHandleInternal K (t_delegate t) (t_buffer_handle t) s of
                        (_, handle, s1) \<Rightarrow> put_tensor (int i) ((sg_tensors s1 ! i)\<lparr>t_buffer_handle := handle\<rparr>) s1)
                else s)
      in case TfLiteTensorFree (sg_tensors s1 ! i) (sg_heap s1) of
           (t', h) \<Rightarrow> (put_tensor (int i) t' s1)\<lparr>sg_heap := h\<rparr>)"

definition delete_subgraph :: "runtime \<Rightarrow> Subgraph \<Rightarrow> Subgraph" where
  "delete_subgraph K s =
     (let s1 = fold (CleanupNode K) (map int [0..<length (sg_nodes_and_registration s)]) s
      in fold (free_tensor K) [0..<length (sg_tensors s1)] s1)"

section \<open>Replacing nodes by delegate kernels\<close>

definition CreateDelegateParams :: "runtime \<Rightarrow> nat \<Rightarrow> NodeSubset \<Rightarrow> Subgraph \<Rightarrow> nat \<times> Subgraph" where
  "CreateDelegateParams K delegate ss s =
     (let array_size = (\<lambda>xs. wrap_i32 (int (TfLiteIntArrayGetSizeInBytes (wrap_i32 (int (length xs))))));
          params_size = (if TfLiteDelegateIsOpaque K delegate then 40 else 32);
          allocation_size = wrap_i32 (params_size + array_size (ns_nodes ss) +
            array_size (ns_input_tensors ss) + array_size (ns_output_tensors ss));
          (p, h) = malloc (rt_malloc K) (size_of_int allocation_size) (sg_heap s);
          params = \<lparr>dp_delegate = delegate, dp_nodes_to_replace = ns_nodes ss,
                    dp_input_tensors = ns_input_tensors ss, dp_output_tensors = ns_output_tensors ss\<rparr>
      in if p = 0 then (0, s\<lparr>sg_heap := h\<lparr>hp_bad := True\<rparr>\<rparr>)
         else (p, s\<lparr>sg_heap := h, sg_delegate_params := (sg_delegate_params s)(p \<mapsto> params)\<rparr>))"

definition PartitionGraph :: "int list \<Rightarrow> Subgraph \<Rightarrow> NodeSubset list option" where
  "PartitionGraph nodes_to_replace s =
     PartitionGraphIntoIndependentNodeSubsets (InterpreterInfo s) nodes_to_replace
       (\<not> DisableDelegateClustering s) (sg_control_edges s) (ShouldPreserveAllTensors s)"

definition claim_output :: "nat \<Rightarrow> int \<Rightarrow> Subgraph \<Rightarrow> TfLiteStatus \<times> Subgraph" where
  "claim_output delegate i s =
     (let t = sg_tensors s ! nat i in
      if \<not> (t_delegate t = 0 \<or> t_delegate t = delegate) then (kTfLiteError, s)
      else (kTfLiteOk, put_tensor i (t\<lparr>t_delegate := delegate\<rparr>) s))"

definition replace_subset ::
    "runtime \<Rightarrow> TfLiteRegistration \<Rightarrow> nat \<Rightarrow> NodeSubset \<Rightarrow> Subgraph \<Rightarrow> TfLiteStatus \<times> Subgraph" where
  "replace_subset K reg delegate ss s = (case ns_type ss of
     kTfNonPartition \<Rightarrow> (kTfLiteOk, s\<lparr>sg_execution_plan := sg_execution_plan s @ ns_nodes ss\<rparr>)
   | kTfPartition \<Rightarrow>
      (case CreateDelegateParams K delegate ss s of (params, s1) \<Rightarrow>
       (case AddNodeWithParameters K (ns_input_tensors ss) (ns_output_tensors ss) [] 0 0 params reg s1 of
          (st, node_index, s2) \<Rightarrow>
            (if st \<noteq> kTfLiteOk then (st, s2)
             else ensure_status (ensure_each (claim_output delegate) (ns_output_tensors ss) s2) (\<lambda>s.
               (kTfLiteOk, put_node (the node_index) ((sg_node (the node_index) s)\<lparr>nd_delegate := delegate\<rparr>) s)))))
   | kTfUnexplored \<Rightarrow> (kTfLiteError, s))"

text \<open>
  The registration of the delegate's kernel is marked as a delegate operator. An opaque delegate must give an
  external operator, of which the subgraph keeps one for each code, address of the name and version. (The mark is also put
  on the external operator, where no part of the subgraph reads it.)
\<close>

definition adopt_registration ::
    "runtime \<Rightarrow> TfLiteRegistration \<Rightarrow> nat \<Rightarrow> Subgraph \<Rightarrow> TfLiteStatus \<times> TfLiteRegistration \<times> Subgraph" where
  "adopt_registration K reg0 delegate s =
     (let reg = reg0\<lparr>rg_builtin_code := kTfLiteBuiltinDelegate\<rparr>;
          ext = rg_registration_external reg;
          op_id = (kTfLiteBuiltinDelegate, map_option fst (op_custom_name (rt_operator K ext)), op_version (rt_operator K ext))
      in if \<not> TfLiteDelegateIsOpaque K delegate then (kTfLiteOk, reg, s)
         else if ext = 0 then (kTfLiteDelegateError, reg, s)
         else (case sg_registration_externals s op_id of
             None \<Rightarrow> (kTfLiteOk, reg, s\<lparr>sg_registration_externals := (sg_registration_externals s)(op_id \<mapsto> ext)\<rparr>)
           | Some cached \<Rightarrow> (kTfLiteOk, reg\<lparr>rg_registration_external := cached\<rparr>, s)))"

definition ReplaceNodeSubsetsWithDelegateKernels ::
    "runtime \<Rightarrow> TfLiteRegistration \<Rightarrow> int list \<Rightarrow> nat \<Rightarrow> Subgraph \<Rightarrow> TfLiteStatus \<times> Subgraph" where
  "ReplaceNodeSubsetsWithDelegateKernels K reg0 nodes_to_replace delegate s0 =
     (case adopt_registration K reg0 delegate s0 of (st, reg, s) \<Rightarrow>
        if st \<noteq> kTfLiteOk then (st, s)
        else if nodes_to_replace = [] then (kTfLiteOk, s)
        else (case PartitionGraph nodes_to_replace s of
            None \<Rightarrow> (kTfLiteError, s)
          | Some node_subsets \<Rightarrow>
              ensure_each (replace_subset K reg delegate) node_subsets (s\<lparr>sg_execution_plan := []\<rparr>)))"

definition FreeDelegatePartitioningData :: "Subgraph \<Rightarrow> Subgraph" where
  "FreeDelegatePartitioningData s = s\<lparr>sg_partitioning_preview_cache := []\<rparr>"

definition PopulatePreviewDelegateParams :: "NodeSubset \<Rightarrow> TfLiteDelegateParams" where
  "PopulatePreviewDelegateParams ss =
     \<lparr>dp_delegate = 0, dp_nodes_to_replace = ns_nodes ss, dp_input_tensors = ns_input_tensors ss,
      dp_output_tensors = ns_output_tensors ss\<rparr>"

text \<open>The array and the number of partitions are those of the cache that the call leaves.\<close>

definition PreviewDelegatePartitioning :: "int list \<Rightarrow> Subgraph \<Rightarrow> TfLiteStatus \<times> Subgraph" where
  "PreviewDelegatePartitioning nodes_to_replace s0 =
     (let s = FreeDelegatePartitioningData s0 in
      if nodes_to_replace = [] then (kTfLiteOk, s)
      else (case PartitionGraph nodes_to_replace s of
          None \<Rightarrow> (kTfLiteError, s)
        | Some node_subsets \<Rightarrow>
            (kTfLiteOk, s\<lparr>sg_partitioning_preview_cache :=
               map PopulatePreviewDelegateParams (filter (\<lambda>ss. ns_type ss = kTfPartition) node_subsets)\<rparr>)))"

section \<open>What a delegate may call\<close>

definition SwitchToDelegateContext :: "Subgraph \<Rightarrow> TfLiteStatus \<times> Subgraph" where
  "SwitchToDelegateContext s =
     (if \<not> sg_delegate_context_switch_count s \<ge> 0 then (kTfLiteError, s)
      else (kTfLiteOk, s\<lparr>sg_delegate_context_switch_count := sg_delegate_context_switch_count s + 1\<rparr>))"

definition SwitchToKernelContext :: "Subgraph \<Rightarrow> TfLiteStatus \<times> Subgraph" where
  "SwitchToKernelContext s =
     (if \<not> sg_delegate_context_switch_count s \<ge> 1 then (kTfLiteError, s)
      else (let s1 = (if sg_delegate_context_switch_count s = 1 then FreeDelegatePartitioningData s else s)
            in (kTfLiteOk, s1\<lparr>sg_delegate_context_switch_count := sg_delegate_context_switch_count s1 - 1\<rparr>)))"

text \<open>
  The functions of the context for delegates are replaced by \<open>ForbiddenContextFunction\<close> outside of the
  delegate context, that is when the count of switches is 0.
\<close>

definition context_call ::
    "(Subgraph \<Rightarrow> TfLiteStatus \<times> Subgraph) \<Rightarrow> Subgraph \<Rightarrow> TfLiteStatus \<times> Subgraph" where
  "context_call f s = (if sg_delegate_context_switch_count s > 0 then f s else (kTfLiteError, s))"

section \<open>Undoing delegates\<close>

definition fp16_entry :: "Subgraph \<Rightarrow> int \<Rightarrow> int list \<Rightarrow> int list" where
  "fp16_entry s i m =
     (let node = sg_node i s in
      if rg_builtin_code (sg_registration i s) = kTfLiteBuiltinDequantize \<and>
         length (nd_inputs node) = 1 \<and> length (nd_outputs node) = 1 \<and>
         t_type (sg_tensors s ! nat (nd_inputs node ! 0)) = kTfLiteFloat16
      then m[nat (nd_inputs node ! 0) := nd_outputs node ! 0] else m)"

definition remap_input :: "Subgraph \<Rightarrow> int list \<Rightarrow> int \<Rightarrow> int" where
  "remap_input s m i =
     (if i = kTfLiteOptionalTensor then i
      else if t_type (sg_tensors s ! nat i) = kTfLiteFloat16 then m ! nat i else i)"

definition remap_node :: "int list \<Rightarrow> int \<Rightarrow> Subgraph \<Rightarrow> Subgraph" where
  "remap_node m i s =
     (if rg_builtin_code (sg_registration i s) = kTfLiteBuiltinDequantize then s
      else put_node i ((sg_node i s)\<lparr>nd_inputs := map (remap_input s m) (nd_inputs (sg_node i s))\<rparr>) s)"

definition UndoAllDelegates :: "runtime \<Rightarrow> Subgraph \<Rightarrow> TfLiteStatus \<times> Subgraph" where
  "UndoAllDelegates K s =
     (if sg_pre_delegation_execution_plan s = [] then (kTfLiteOk, s)
      else
        (let s1 = fold (\<lambda>i s. if nd_delegate (sg_node i s) = 0 then s else CleanupNode K i s) (sg_execution_plan s) s;
             s2 = s1\<lparr>sg_execution_plan := sg_pre_delegation_execution_plan s1, sg_pre_delegation_execution_plan := []\<rparr>;
             m = fold (fp16_entry s2) (sg_execution_plan s2) (map int [0..<length (sg_tensors s2)]);
             s3 = fold (remap_node m) (sg_execution_plan s2) s2;
             max_retained_node_index = fold max (sg_execution_plan s3) 0
         in (kTfLiteOk,
             s3\<lparr>sg_nodes_and_registration := take (nat (max_retained_node_index + 1)) (sg_nodes_and_registration s3),
                sg_is_delegation_skippable := False, sg_state := kStateUninvokable, sg_delegates_undone := True\<rparr>)))"

section \<open>Allocating and applying delegates\<close>

definition IsFullyDelegated :: "Subgraph \<Rightarrow> bool" where
  "IsFullyDelegated s \<longleftrightarrow> list_all (\<lambda>i. nd_delegate (sg_node i s) \<noteq> 0) (sg_execution_plan s)"

definition HasDelegates :: "Subgraph \<Rightarrow> bool" where
  "HasDelegates s \<longleftrightarrow> sg_delegates_applied s \<noteq> []"

text \<open>\<open>redo\<close> stands for \<open>RedoAllDelegates\<close> with the fuel that is left.\<close>

type_synonym redo = "Subgraph \<Rightarrow> (TfLiteStatus \<times> Subgraph) option"

definition allocate_tensors :: "redo \<Rightarrow> runtime \<Rightarrow> Subgraph \<Rightarrow> (TfLiteStatus \<times> Subgraph) option" where
  "allocate_tensors redo K s =
     (if \<not> sg_consistent s then Some (kTfLiteError, s)
      else run_status (redo s) (\<lambda>s. Some (allocate_prepared K s)))"

definition plan_again :: "Subgraph \<Rightarrow> TfLiteStatus \<times> Subgraph" where
  "plan_again s = (case sg_memory_planner s of
     None \<Rightarrow> (kTfLiteOk, s)
   | Some p \<Rightarrow> (case PlanAllocations (InterpreterInfo s) (sg_tensors s) p of
       (st, p') \<Rightarrow> (st, s\<lparr>sg_state := kStateUninvokable, sg_memory_planner := Some p'\<rparr>)))"

definition ensure_memory_allocations :: "redo \<Rightarrow> runtime \<Rightarrow> Subgraph \<Rightarrow> (TfLiteStatus \<times> Subgraph) option" where
  "ensure_memory_allocations redo K s =
     run_status (Some (plan_again s)) (\<lambda>s.
     run_status (allocate_tensors redo K s) (\<lambda>s.
     Some (if sg_state s = kStateInvokable then kTfLiteOk else kTfLiteError, s)))"

definition remove_all_delegates :: "redo \<Rightarrow> runtime \<Rightarrow> Subgraph \<Rightarrow> (TfLiteStatus \<times> Subgraph) option" where
  "remove_all_delegates redo K s =
     run_status (Some (UndoAllDelegates K s)) (\<lambda>s.
     run_status (ensure_memory_allocations redo K (s\<lparr>sg_delegates_applied := [], sg_delegates_undone := False\<rparr>)) (\<lambda>s.
     Some (kTfLiteOk, s)))"

definition reset_delegation_if_not_ok ::
    "redo \<Rightarrow> runtime \<Rightarrow> (TfLiteStatus \<times> Subgraph) option \<Rightarrow> (TfLiteStatus \<times> Subgraph) option" where
  "reset_delegation_if_not_ok redo K r = (case r of
     None \<Rightarrow> None
   | Some (st, s) \<Rightarrow>
      (if st \<noteq> kTfLiteOk
       then run_status (remove_all_delegates redo K s) (\<lambda>s. Some (kTfLiteDelegateError, s))
       else Some (kTfLiteOk, s)))"

text \<open>The three steps of applying a delegate: verify the graph, let the delegate replace nodes, leave the graph consistent.\<close>

definition supports_dynamic_shapes :: "runtime \<Rightarrow> nat \<Rightarrow> bool" where
  "supports_dynamic_shapes K delegate = bit (TfLiteDelegateGetFlagsInternal K delegate) 0"

definition hint_fully_delegated :: "runtime \<Rightarrow> nat \<Rightarrow> bool" where
  "hint_fully_delegated K delegate = bit (TfLiteDelegateGetFlagsInternal K delegate) 3"

definition verify_for_delegation ::
    "redo \<Rightarrow> runtime \<Rightarrow> nat \<Rightarrow> Subgraph \<Rightarrow> (TfLiteStatus \<times> Subgraph) option" where
  "verify_for_delegation redo K delegate s =
     (if sg_state s = kStateInvokableAndImmutable then Some (kTfLiteOk, s\<lparr>sg_state := kStateUninvokable\<rparr>)
      else if \<not> supports_dynamic_shapes K delegate \<and> \<not> hint_fully_delegated K delegate
      then (case PrepareOpsStartingAt K 0 (sg_execution_plan s) 0 s of (st, _, s1) \<Rightarrow>
              if st \<noteq> kTfLiteOk then Some (st, s1)
              else if sg_has_dynamic_tensors s1
                   then run_status (ensure_memory_allocations redo K s1) (\<lambda>s. Some (kTfLiteApplicationError, s))
              else Some (kTfLiteOk, s1))
      else Some (kTfLiteOk, s))"

definition prepare_delegate :: "runtime \<Rightarrow> nat \<Rightarrow> Subgraph \<Rightarrow> TfLiteStatus \<times> Subgraph" where
  "prepare_delegate K delegate s =
     (let s1 = (if sg_delegates_applied s = []
                then s\<lparr>sg_pre_delegation_execution_plan := sg_execution_plan s\<rparr> else s);
          (st, s2) = TfLiteDelegatePrepareInternal K delegate (snd (SwitchToDelegateContext s1))
      in (st, snd (SwitchToKernelContext s2)))"

definition settle_delegation ::
    "redo \<Rightarrow> runtime \<Rightarrow> nat \<Rightarrow> State \<Rightarrow> Subgraph \<Rightarrow> (TfLiteStatus \<times> Subgraph) option" where
  "settle_delegation redo K delegate pre_delegation_state s =
     (if \<not> supports_dynamic_shapes K delegate
      then run_status
        (if hint_fully_delegated K delegate then Some (kTfLiteOk, s)
         else reset_delegation_if_not_ok redo K
                (ensure_memory_allocations redo K (s\<lparr>sg_state := kStateUninvokable\<rparr>)))
        (\<lambda>s. Some (kTfLiteOk, s\<lparr>sg_state := kStateInvokableAndImmutable\<rparr>))
      else if pre_delegation_state = kStateInvokableAndImmutable
      then run_status (reset_delegation_if_not_ok redo K
             (case PrepareOpsStartingAt K 0 (sg_execution_plan s) 0 s of (st, _, s1) \<Rightarrow> Some (st, s1))) (\<lambda>s.
           if sg_has_dynamic_tensors s
           then run_status (remove_all_delegates redo K s) (\<lambda>s. Some (kTfLiteApplicationError, s))
           else run_status (reset_delegation_if_not_ok redo K (ensure_memory_allocations redo K s)) (\<lambda>s.
                Some (kTfLiteOk, s\<lparr>sg_state := kStateInvokableAndImmutable\<rparr>)))
      else if pre_delegation_state = kStateInvokable
      then reset_delegation_if_not_ok redo K (ensure_memory_allocations redo K s)
      else Some (kTfLiteOk, s))"

definition modify_graph_with_delegate ::
    "redo \<Rightarrow> runtime \<Rightarrow> nat \<Rightarrow> Subgraph \<Rightarrow> (TfLiteStatus \<times> Subgraph) option" where
  "modify_graph_with_delegate redo K delegate s0 =
     (if delegate = 0 then Some (kTfLiteDelegateError, s0)
      else run_status (redo s0) (\<lambda>s.
        let pre_delegation_state = sg_state s in
        run_status (verify_for_delegation redo K delegate s) (\<lambda>s.
        run_status (reset_delegation_if_not_ok redo K (Some (prepare_delegate K delegate s))) (\<lambda>s.
        if hint_fully_delegated K delegate \<and> \<not> IsFullyDelegated s then Some (kTfLiteApplicationError, s)
        else run_status (settle_delegation redo K delegate pre_delegation_state s) (\<lambda>s.
          Some (kTfLiteOk, s\<lparr>sg_delegates_applied := sg_delegates_applied s @ [delegate]\<rparr>))))))"

fun RedoAllDelegates :: "nat \<Rightarrow> runtime \<Rightarrow> Subgraph \<Rightarrow> (TfLiteStatus \<times> Subgraph) option" where
  "RedoAllDelegates 0 K s = (if \<not> sg_delegates_undone s then Some (kTfLiteOk, s) else None)"
| "RedoAllDelegates (Suc fuel) K s =
     (if \<not> sg_delegates_undone s then Some (kTfLiteOk, s)
      else run_each (modify_graph_with_delegate (RedoAllDelegates fuel K) K) (sg_delegates_applied s)
             (s\<lparr>sg_delegates_undone := False, sg_delegates_applied := []\<rparr>))"

definition AllocateTensors :: "nat \<Rightarrow> runtime \<Rightarrow> Subgraph \<Rightarrow> (TfLiteStatus \<times> Subgraph) option" where
  "AllocateTensors fuel K = allocate_tensors (RedoAllDelegates fuel K) K"

definition EnsureMemoryAllocations :: "nat \<Rightarrow> runtime \<Rightarrow> Subgraph \<Rightarrow> (TfLiteStatus \<times> Subgraph) option" where
  "EnsureMemoryAllocations fuel K = ensure_memory_allocations (RedoAllDelegates fuel K) K"

definition RemoveAllDelegates :: "nat \<Rightarrow> runtime \<Rightarrow> Subgraph \<Rightarrow> (TfLiteStatus \<times> Subgraph) option" where
  "RemoveAllDelegates fuel K = remove_all_delegates (RedoAllDelegates fuel K) K"

definition ModifyGraphWithDelegate :: "nat \<Rightarrow> runtime \<Rightarrow> nat \<Rightarrow> Subgraph \<Rightarrow> (TfLiteStatus \<times> Subgraph) option" where
  "ModifyGraphWithDelegate fuel K = modify_graph_with_delegate (RedoAllDelegates fuel K) K"

section \<open>Resizing inputs\<close>

definition ResizeInputTensor :: "runtime \<Rightarrow> int \<Rightarrow> int list \<Rightarrow> Subgraph \<Rightarrow> TfLiteStatus \<times> Subgraph" where
  "ResizeInputTensor K i dims s =
     (let graph_is_immutable = (sg_state s = kStateInvokableAndImmutable) in
      if graph_is_immutable \<and> sg_delegates_applied s = [] then (kTfLiteError, s)
      else if \<not> tensor_index_in i s then (kTfLiteError, s)
      else (let tensor = sg_tensors s ! nat i in
        if t_data tensor \<noteq> 0 \<and> EqualArrayAndTfLiteIntArray (t_dims tensor) (int (length dims)) dims
        then (kTfLiteOk, s)
        else ensure_status (if graph_is_immutable then UndoAllDelegates K s else (kTfLiteOk, s)) (\<lambda>s.
          ResizeTensorImpl K i dims (s\<lparr>sg_state := kStateUninvokable\<rparr>))))"

definition ResizeInputTensorStrict :: "runtime \<Rightarrow> int \<Rightarrow> int list \<Rightarrow> Subgraph \<Rightarrow> TfLiteStatus \<times> Subgraph" where
  "ResizeInputTensorStrict K i dims s =
     (if \<not> tensor_index_in i s then (kTfLiteError, s)
      else (let tensor = sg_tensors s ! nat i;
                old = (case t_dims tensor of None \<Rightarrow> [] | Some d \<Rightarrow> d);
                signature = (case TfLiteTensorGetDimsSignature tensor of None \<Rightarrow> [] | Some d \<Rightarrow> d)
            in if length old \<noteq> length dims then (kTfLiteError, s)
               else if list_ex (\<lambda>k. signature ! k \<noteq> -1 \<and> signature ! k \<noteq> dims ! k) [0..<length dims]
               then (kTfLiteError, s)
               else ResizeInputTensor K i dims s))"

section \<open>Queries and setters\<close>

definition SetMetadata ::
    "(string \<Rightarrow> string option) option \<Rightarrow> ControlEdge list option \<Rightarrow> Subgraph \<Rightarrow> TfLiteStatus \<times> Subgraph" where
  "SetMetadata metadata control_edges s = (kTfLiteOk, s\<lparr>sg_metadata := metadata, sg_control_edges := control_edges\<rparr>)"

text \<open>The pointer and the size of the metadata are the string itself.\<close>

definition GetModelMetadata :: "string \<Rightarrow> Subgraph \<Rightarrow> TfLiteStatus \<times> string option" where
  "GetModelMetadata name s = (case sg_metadata s of
     None \<Rightarrow> (kTfLiteError, None)
   | Some m \<Rightarrow> (case m name of Some v \<Rightarrow> (kTfLiteOk, Some v) | None \<Rightarrow> (kTfLiteError, None)))"

definition SetCancellationFunction :: "nat \<Rightarrow> Subgraph \<Rightarrow> Subgraph" where
  "SetCancellationFunction f s = s\<lparr>sg_check_cancelled_func := f\<rparr>"

definition SetBufferHandleImpl ::
    "runtime \<Rightarrow> int \<Rightarrow> int \<Rightarrow> nat \<Rightarrow> bool \<Rightarrow> Subgraph \<Rightarrow> TfLiteStatus \<times> Subgraph" where
  "SetBufferHandleImpl K i buffer_handle delegate release_existing s =
     (let t = sg_tensors s ! nat i in
      if \<not> (t_delegate t = 0 \<or> t_delegate t = delegate) then (kTfLiteError, s)
      else
        (let s1 = put_tensor i (t\<lparr>t_delegate := delegate\<rparr>) s in
         ensure_status
           (if release_existing \<and> t_buffer_handle t \<noteq> kTfLiteNullBufferHandle
            then (case TfLiteDelegateFreeBufferHandleInternal K delegate (t_buffer_handle t) s1 of
                    (st, handle, s2) \<Rightarrow> (st, put_tensor i ((sg_tensors s2 ! nat i)\<lparr>t_buffer_handle := handle\<rparr>) s2))
            else (kTfLiteOk, s1))
           (\<lambda>s. (kTfLiteOk, put_tensor i ((sg_tensors s ! nat i)\<lparr>t_buffer_handle := buffer_handle\<rparr>) s))))"

end
