(* ===== verification/PlannerMemory.thy ===== *)
theory PlannerMemory
  imports ArenaPlanner
begin

text \<open>
  Correctness of executing a memory plan (\<open>lite/arena_planner.cc\<close>): the owners of shared memory, the placement
  of the tensors in the arenas, the resolution of their addresses, and the theorem that tensors in use
  at the same time never share a byte.
\<close>

section \<open>Owners of shared memory\<close>

text \<open>No operator writes a tensor that it, or an operator before it, has read.\<close>

definition writes_before_reads :: "GraphInfo \<Rightarrow> bool" where
  "writes_before_reads info \<longleftrightarrow>
     (\<forall>i<num_execution_nodes info. \<forall>j\<le>i. nd_outputs (gi_nodes info ! i) \<noteq> [] \<longrightarrow>
        nd_outputs (gi_nodes info ! i) ! 0 \<notin> set (nd_inputs (gi_nodes info ! j)))"

definition owners_flat :: "ArenaPlanner \<Rightarrow> bool" where
  "owners_flat p \<longleftrightarrow> (\<forall>t r. ap_actual_tensor_id p t = Some r \<longrightarrow> r \<noteq> t \<and> ap_actual_tensor_id p r = None)"

text \<open>After the first \<open>k\<close> nodes every owner is an input of one of them.\<close>

definition owners_read :: "GraphInfo \<Rightarrow> nat \<Rightarrow> ArenaPlanner \<Rightarrow> bool" where
  "owners_read info k p \<longleftrightarrow>
     (\<forall>t r. ap_actual_tensor_id p t = Some r \<longrightarrow> (\<exists>j<k. r \<in> set (nd_inputs (gi_nodes info ! j))))"

lemma identify_node_flat:
  assumes "writes_before_reads info" and "k < num_execution_nodes info" and "owners_flat p" and "owners_read info k p"
  shows "owners_flat (identify_node info tensors k p) \<and> owners_read info (Suc k) (identify_node info tensors k p)"
proof -
  let ?node = "gi_nodes info ! k" and ?ids = "ap_actual_tensor_id p"
  define input_id where "input_id = find_shareable info tensors (gi_registrations info ! k) ?node p
    [0..<min kTfLiteMaxSharableOpInputs (length (nd_inputs ?node))]"
  define v where "v = FindSharedTensor input_id p"
  have keep: "owners_read info (Suc k) p" using assms(4) by (auto simp: owners_read_def less_Suc_eq)
  have upd: "owners_flat (p\<lparr>ap_actual_tensor_id := ?ids(o0 := Some v)\<rparr>) \<and>
      owners_read info (Suc k) (p\<lparr>ap_actual_tensor_id := ?ids(o0 := Some v)\<rparr>)"
    if "input_id \<noteq> -1" and o0: "nd_outputs ?node \<noteq> []" "o0 = nd_outputs ?node ! 0" for o0
  proof -
    have "input_id \<in> set (nd_inputs ?node)"
      using find_shareable_in [of "[0..<min kTfLiteMaxSharableOpInputs (length (nd_inputs ?node))]" ?node] that(1)
      unfolding input_id_def by (metis atLeastLessThan_upt atLeastLessThan_iff min_less_iff_conj)
    then have v: "(\<exists>j<Suc k. v \<in> set (nd_inputs (gi_nodes info ! j))) \<and> ?ids v = None"
    proof (cases "?ids input_id")
      case None
      then have "v = input_id" by (simp add: v_def FindSharedTensor_def)
      then show ?thesis using None \<open>input_id \<in> _\<close> by auto
    next
      case (Some x)
      then have x: "v = x" by (simp add: v_def FindSharedTensor_def)
      obtain j where "j < k" "x \<in> set (nd_inputs (gi_nodes info ! j))"
        using Some assms(4) unfolding owners_read_def by blast
      then show ?thesis using Some assms(3) less_SucI [of j k] unfolding owners_flat_def x by blast
    qed
    have new: "\<And>j. j < Suc k \<Longrightarrow> o0 \<notin> set (nd_inputs (gi_nodes info ! j))"
      using assms(1,2) o0 by (auto simp: writes_before_reads_def)
    then have "v \<noteq> o0" "\<And>t r. ?ids t = Some r \<Longrightarrow> r \<noteq> o0"
      using v assms(4) less_SucI unfolding owners_read_def by blast+
    then show ?thesis using v keep assms(3) by (auto simp: owners_flat_def owners_read_def)
  qed
  show ?thesis
    using assms(3) keep upd unfolding identify_node_def Let_def input_id_def [symmetric] v_def [symmetric]
    by (auto simp: length_greater_0_conv [symmetric] simp del: length_greater_0_conv)
qed

lemma IdentifyInPlaceTensors_flat:
  assumes "writes_before_reads info"
  shows "owners_flat (IdentifyInPlaceTensors info tensors p)"
proof -
  have "k \<le> num_execution_nodes info \<Longrightarrow>
      owners_flat (fold (identify_node info tensors) [0..<k] (p\<lparr>ap_actual_tensor_id := \<lambda>_. None\<rparr>)) \<and>
      owners_read info k (fold (identify_node info tensors) [0..<k] (p\<lparr>ap_actual_tensor_id := \<lambda>_. None\<rparr>))" for k
  proof (induction k)
    case 0
    then show ?case by (simp add: owners_flat_def owners_read_def)
  next
    case (Suc k)
    then show ?case using identify_node_flat [OF assms, of k] by simp
  qed
  then show ?thesis by (simp add: IdentifyInPlaceTensors_def)
qed

lemma plan_ids_frame:
  "ap_actual_tensor_id (snd (plan_allocate node t p)) = ap_actual_tensor_id p"
  "ap_actual_tensor_id (snd (plan_output i t p)) = ap_actual_tensor_id p"
  "ap_actual_tensor_id (fst (snd (plan_input i t st))) = ap_actual_tensor_id (fst st)"
  by (auto simp: plan_allocate_def plan_output_def queue_tensor_def plan_input_def plan_deallocate_def Let_def
      split: prod.splits)

lemma plan_node_ids: "ap_actual_tensor_id (fst (snd (plan_node info i st))) = ap_actual_tensor_id (fst st)"
proof -
  obtain p rc where st: "st = (p, rc)" by (cases st)
  obtain s p1 where o: "ensure_each (plan_output i) (nd_outputs (gi_nodes info ! i)) p = (s, p1)"
    by (cases "ensure_each (plan_output i) (nd_outputs (gi_nodes info ! i)) p")
  have 1: "ap_actual_tensor_id p1 = ap_actual_tensor_id p"
    using ensure_each_invariant [of "nd_outputs (gi_nodes info ! i)" "\<lambda>q. ap_actual_tensor_id q = ap_actual_tensor_id p"
        "plan_output i" p] o by (simp add: plan_ids_frame)
  have "ap_actual_tensor_id (fst (snd (ensure_each (plan_input i) (nd_inputs (gi_nodes info ! i)) (p1, rc)))) =
      ap_actual_tensor_id p"
    using 1 by (intro ensure_each_invariant [of _ "\<lambda>q. ap_actual_tensor_id (fst q) = ap_actual_tensor_id p"])
      (simp_all add: plan_ids_frame)
  then show ?thesis using 1 o st by (simp add: plan_node_def)
qed

lemma PlanAllocations_nodes:
  assumes "PlanAllocations info tensors p = (kTfLiteOk, p')"
  shows "\<exists>q rc rc'. ensure_each (plan_node info) [0..<num_execution_nodes info]
      (IdentifyInPlaceTensors info tensors q, rc) = (kTfLiteOk, p', rc')"
proof -
  obtain q where "plan_nodes info tensors q = (kTfLiteOk, p')"
    using assms by (auto simp: PlanAllocations_def elim!: ensure_status_OkD)
  then show ?thesis unfolding plan_nodes_def Let_def by (auto split: prod.splits)
qed

lemma plan_nodes_ids:
  assumes "ensure_each (plan_node info) is (q, rc) = (kTfLiteOk, p', rc')"
  shows "ap_actual_tensor_id p' = ap_actual_tensor_id q"
  using ensure_each_invariant [of "is" "\<lambda>s. ap_actual_tensor_id (fst s) = ap_actual_tensor_id q" "plan_node info" "(q, rc)"]
    assms by (simp add: plan_node_ids)

lemma PlanAllocations_flat:
  assumes "writes_before_reads info" and "PlanAllocations info tensors p = (kTfLiteOk, p')"
  shows "owners_flat p'"
proof -
  obtain q1 rc rc' where r: "ensure_each (plan_node info) [0..<num_execution_nodes info]
      (IdentifyInPlaceTensors info tensors q1, rc) = (kTfLiteOk, p', rc')"
    using PlanAllocations_nodes [OF assms(2)] by blast
  show ?thesis
    using IdentifyInPlaceTensors_flat [OF assms(1)] plan_nodes_ids [OF r] by (simp add: owners_flat_def)
qed

section \<open>Placing the tensors\<close>

text \<open>
  What holds while the tensors are placed: the arenas are in order, every allocation lies in its arena,
  and a tensor in \<open>ready\<close> that owns its memory has an active allocation of its size and lifetime.
\<close>

definition own_arena :: "TfLiteTensor list \<Rightarrow> int \<Rightarrow> ArenaPlanner \<Rightarrow> SimpleMemoryArena" where
  "own_arena tensors t p =
     (if t_allocation_type (tensors ! nat t) = kTfLiteArenaRwPersistent then ap_persistent_arena p else ap_arena p)"

definition placed_as :: "TfLiteTensor list \<Rightarrow> int \<Rightarrow> ArenaPlanner \<Rightarrow> bool" where
  "placed_as tensors t p \<longleftrightarrow> (let a = ap_allocs p ! nat t in
     al_tensor a = t \<and> al_size a = t_bytes (tensors ! nat t) \<and> al_first_node a = ap_alloc_node p ! nat t \<and>
     al_last_node a = ap_dealloc_node p ! nat t \<and> a \<in> set (active_allocs (ap_arena p)))"

definition placed_inv :: "TfLiteTensor list \<Rightarrow> int set \<Rightarrow> ArenaPlanner \<Rightarrow> bool" where
  "placed_inv tensors ready p \<longleftrightarrow>
     aligned_arena_inv (ap_tensor_alignment p) (ap_arena p) \<and>
     aligned_arena_inv (ap_tensor_alignment p) (ap_persistent_arena p) \<and>
     length (ap_allocs p) = length tensors \<and>
     (\<forall>i<length tensors. alloc_end (ap_allocs p ! i) \<le> high_water_mark (own_arena tensors (int i) p)) \<and>
     (\<forall>t\<in>ready. t_allocation_type (tensors ! nat t) = kTfLiteArenaRw \<and> ap_actual_tensor_id p t = None \<and>
        0 < t_bytes (tensors ! nat t) \<longrightarrow> placed_as tensors t p)"

text \<open>What placing does not change.\<close>

definition plan_of where
  "plan_of p = (ap_alloc_node p, ap_dealloc_node p, ap_nodes_to_tensors p, ap_tensor_alignment p, ap_preserve_all_tensors p)"

definition request_cost :: "TfLiteTensor list \<Rightarrow> ArenaPlanner \<Rightarrow> int \<Rightarrow> nat" where
  "request_cost tensors p t = ap_tensor_alignment p + t_bytes (tensors ! nat t)"

definition room :: "nat \<Rightarrow> ArenaPlanner \<Rightarrow> bool" where
  "room c p \<longleftrightarrow> high_water_mark (ap_arena p) + c < size_max \<and> high_water_mark (ap_persistent_arena p) + c < size_max"

lemma placed_as_cong:
  assumes "ap_allocs p' ! nat t = ap_allocs p ! nat t" "ap_alloc_node p' = ap_alloc_node p"
    "ap_dealloc_node p' = ap_dealloc_node p"
    "set (active_allocs (ap_arena p)) \<subseteq> set (active_allocs (ap_arena p'))"
  shows "placed_as tensors t p \<Longrightarrow> placed_as tensors t p'"
  using assms by (auto simp: placed_as_def Let_def)

lemma allocate_rw_ok:
  assumes "placed_inv tensors ready p" and "0 \<le> t" and "nat t < length tensors"
    and "room (request_cost tensors p t + c) p" and "\<forall>u\<in>ready. 0 \<le> u"
  shows "\<exists>p'. allocate_rw tensors t p = (kTfLiteOk, p') \<and>
    placed_inv tensors (if t_allocation_type (tensors ! nat t) = kTfLiteArenaRw then insert t ready else ready) p' \<and>
    plan_of p' = plan_of p \<and> ap_actual_tensor_id p' = ap_actual_tensor_id p \<and>
    ap_persistent_arena p' = ap_persistent_arena p \<and>
    (t_allocation_type (tensors ! nat t) \<noteq> kTfLiteArenaRw \<longrightarrow> p' = p) \<and>
    high_water_mark (ap_arena p') \<le> high_water_mark (ap_arena p) + request_cost tensors p t"
proof (cases "t_allocation_type (tensors ! nat t) = kTfLiteArenaRw")
  case False
  then show ?thesis using assms(1) by (simp add: allocate_rw_def)
next
  case rw: True
  let ?al = "ap_tensor_alignment p" and ?b = "t_bytes (tensors ! nat t)"
  obtain st a s' where alc: "Allocate ?al ?b t (ap_alloc_node p ! nat t) (ap_dealloc_node p ! nat t)
      (ap_allocs p ! nat t) (ap_arena p) = (st, a, s')" by (metis prod_cases3)
  have inv: "arena_inv (ap_arena p)" "0 < ?al" "?al \<le> alignment (underlying_buffer (ap_arena p))"
    and size: "high_water_mark (ap_arena p) + ?al + ?b < size_max" and len: "length (ap_allocs p) = length tensors"
    using assms(1,4) by (simp_all add: placed_inv_def aligned_arena_inv_def room_def request_cost_def)
  note A = Allocate_inv [OF inv size alc]
  define p' where "p' = p\<lparr>ap_arena := s', ap_allocs := (ap_allocs p)[nat t := a]\<rparr>"
  have sub: "set (active_allocs (ap_arena p)) \<subseteq> set (active_allocs s')" using A(12) by auto
  have new: "0 < ?b \<Longrightarrow> placed_as tensors t p'"
    using A assms(3) len by (simp add: placed_as_def Let_def p'_def)
  have old: "placed_as tensors u p'" if "u \<in> ready" "u \<noteq> t" "placed_as tensors u p" for u
  proof (rule placed_as_cong [OF _ _ _ _ that(3)])
    have "nat u \<noteq> nat t" using that(1,2) assms(2,5) by (auto simp: nat_eq_iff)
    then show "ap_allocs p' ! nat u = ap_allocs p ! nat u" by (simp add: p'_def)
  qed (use sub in \<open>simp_all add: p'_def\<close>)
  have ends: "alloc_end (ap_allocs p' ! i) \<le> high_water_mark (own_arena tensors (int i) p')" if "i < length tensors" for i
  proof (cases "i = nat t")
    case True
    then show ?thesis using A(8) assms(2,3) rw len by (simp add: p'_def own_arena_def)
  next
    case False
    then have "ap_allocs p' ! i = ap_allocs p ! i" by (simp add: p'_def)
    moreover have "high_water_mark (own_arena tensors (int i) p) \<le> high_water_mark (own_arena tensors (int i) p')"
      using A(9) by (simp add: own_arena_def p'_def)
    ultimately show ?thesis using assms(1) that by (auto simp: placed_inv_def intro: le_trans)
  qed
  have "aligned_arena_inv ?al s'" using assms(1) A(1,11) by (simp add: placed_inv_def aligned_arena_inv_def)
  moreover have "placed_as tensors u p'" if "u \<in> insert t ready" "t_allocation_type (tensors ! nat u) = kTfLiteArenaRw"
      "ap_actual_tensor_id p u = None" "0 < t_bytes (tensors ! nat u)" for u
    using assms(1) old [of u] new that by (cases "u = t") (auto simp: placed_inv_def)
  ultimately have "placed_inv tensors (insert t ready) p'"
    using assms(1) ends unfolding placed_inv_def by (simp add: p'_def len)
  moreover have "allocate_rw tensors t p = (kTfLiteOk, p')" using alc A(2) rw by (simp add: allocate_rw_def p'_def)
  ultimately show ?thesis using rw A(10) by (simp add: plan_of_def p'_def request_cost_def)
qed

lemma allocate_persistent_ok:
  assumes "placed_inv tensors ready p" and "0 \<le> t" and "nat t < length tensors"
    and "room (request_cost tensors p t + c) p" and "\<forall>u\<in>ready. 0 \<le> u"
  shows "\<exists>p'. allocate_persistent tensors t p = (kTfLiteOk, p') \<and> placed_inv tensors ready p' \<and>
    plan_of p' = plan_of p \<and> ap_actual_tensor_id p' = ap_actual_tensor_id p \<and> ap_arena p' = ap_arena p \<and>
    (t_allocation_type (tensors ! nat t) \<noteq> kTfLiteArenaRwPersistent \<longrightarrow> p' = p) \<and>
    high_water_mark (ap_persistent_arena p') \<le> high_water_mark (ap_persistent_arena p) + request_cost tensors p t"
proof (cases "t_allocation_type (tensors ! nat t) = kTfLiteArenaRwPersistent \<and> al_size (ap_allocs p ! nat t) = 0 \<and>
    al_size (ap_allocs p ! nat t) < t_bytes (tensors ! nat t)")
  case False
  then show ?thesis using assms(1) by (auto simp: allocate_persistent_def)
next
  case per: True
  let ?al = "ap_tensor_alignment p" and ?b = "t_bytes (tensors ! nat t)"
  obtain st a s' where alc: "Allocate ?al ?b t (ap_alloc_node p ! nat t) i32_max
      (ap_allocs p ! nat t) (ap_persistent_arena p) = (st, a, s')" by (metis prod_cases3)
  have inv: "arena_inv (ap_persistent_arena p)" "0 < ?al" "?al \<le> alignment (underlying_buffer (ap_persistent_arena p))"
    and size: "high_water_mark (ap_persistent_arena p) + ?al + ?b < size_max" and len: "length (ap_allocs p) = length tensors"
    using assms(1,4) by (simp_all add: placed_inv_def aligned_arena_inv_def room_def request_cost_def)
  note A = Allocate_inv [OF inv size alc]
  define p' where "p' = p\<lparr>ap_persistent_arena := s', ap_allocs := (ap_allocs p)[nat t := a]\<rparr>"
  have old: "placed_as tensors u p'" if "u \<in> ready" "t_allocation_type (tensors ! nat u) = kTfLiteArenaRw"
    "placed_as tensors u p" for u
  proof (rule placed_as_cong [OF _ _ _ _ that(3)])
    have "nat u \<noteq> nat t" using that(2) per by auto
    then show "ap_allocs p' ! nat u = ap_allocs p ! nat u" by (simp add: p'_def)
  qed (simp_all add: p'_def)
  have ends: "alloc_end (ap_allocs p' ! i) \<le> high_water_mark (own_arena tensors (int i) p')" if "i < length tensors" for i
  proof (cases "i = nat t")
    case True
    then show ?thesis using A(8) assms(2,3) per len by (simp add: p'_def own_arena_def)
  next
    case False
    then have "ap_allocs p' ! i = ap_allocs p ! i" by (simp add: p'_def)
    moreover have "high_water_mark (own_arena tensors (int i) p) \<le> high_water_mark (own_arena tensors (int i) p')"
      using A(9) by (simp add: own_arena_def p'_def)
    ultimately show ?thesis using assms(1) that by (auto simp: placed_inv_def intro: le_trans)
  qed
  have "aligned_arena_inv ?al s'" using assms(1) A(1,11) by (simp add: placed_inv_def aligned_arena_inv_def)
  then have "placed_inv tensors ready p'"
    using assms(1) ends old unfolding placed_inv_def by (auto simp: p'_def len)
  moreover have "allocate_persistent tensors t p = (kTfLiteOk, p')" using alc A(2) per by (simp add: allocate_persistent_def p'_def)
  ultimately show ?thesis using per A(10) by (simp add: plan_of_def p'_def request_cost_def)
qed

definition ids_shrink :: "ArenaPlanner \<Rightarrow> ArenaPlanner \<Rightarrow> bool" where
  "ids_shrink p p' \<longleftrightarrow> (\<forall>t. ap_actual_tensor_id p' t = ap_actual_tensor_id p t \<or> ap_actual_tensor_id p' t = None)"

lemma ids_shrink_refl [simp]: "ids_shrink p p"
  by (simp add: ids_shrink_def)

lemma ids_shrink_trans: "ids_shrink p q \<Longrightarrow> ids_shrink q r \<Longrightarrow> ids_shrink p r"
  unfolding ids_shrink_def by metis

lemma ids_shrink_flat: "ids_shrink p p' \<Longrightarrow> owners_flat p \<Longrightarrow> owners_flat p'"
  unfolding ids_shrink_def owners_flat_def by (metis option.distinct(1))

lemma placed_inv_mono: "placed_inv tensors ready p \<Longrightarrow> d \<subseteq> ready \<Longrightarrow> placed_inv tensors d p"
  unfolding placed_inv_def by blast

lemma placed_inv_skip:
  assumes "placed_inv tensors (ready - {t}) p"
    and "t_allocation_type (tensors ! nat t) \<noteq> kTfLiteArenaRw \<or> ap_actual_tensor_id p t \<noteq> None"
  shows "placed_inv tensors (insert t ready) p"
  using assms unfolding placed_inv_def by auto

lemma unshare_ok:
  assumes "placed_inv tensors ready p" and "unshare tensors t p = (shared, p')"
  shows "placed_inv tensors (ready - {t}) p'" "plan_of p' = plan_of p" "ids_shrink p p'"
    "ap_arena p' = ap_arena p" "ap_persistent_arena p' = ap_persistent_arena p"
    "shared \<Longrightarrow> p' = p \<and> ap_actual_tensor_id p t \<noteq> None"
proof -
  have "shared \<and> p' = p \<and> ap_actual_tensor_id p t \<noteq> None \<or>
      \<not> shared \<and> (p' = p \<or> p' = p\<lparr>ap_actual_tensor_id := (ap_actual_tensor_id p)(t := None)\<rparr>)"
    using assms(2) by (auto simp: unshare_def split: option.splits if_splits)
  moreover have "placed_inv tensors (ready - {t}) (p\<lparr>ap_actual_tensor_id := (ap_actual_tensor_id p)(t := None)\<rparr>)"
    using assms(1) by (auto simp: placed_inv_def own_arena_def placed_as_def Let_def)
  moreover have "placed_inv tensors (ready - {t}) p" using placed_inv_mono [OF assms(1)] by auto
  ultimately show "placed_inv tensors (ready - {t}) p'" "plan_of p' = plan_of p" "ids_shrink p p'"
    "ap_arena p' = ap_arena p" "ap_persistent_arena p' = ap_persistent_arena p"
    "shared \<Longrightarrow> p' = p \<and> ap_actual_tensor_id p t \<noteq> None"
    by (auto simp: plan_of_def ids_shrink_def split: if_splits)
qed

lemma request_cost_plan: "plan_of p' = plan_of p \<Longrightarrow> request_cost tensors p' = request_cost tensors p"
  by (simp add: plan_of_def request_cost_def fun_eq_iff)

lemma allocate_tensor_ok:
  assumes "placed_inv tensors ready p" and "0 \<le> t" and "nat t < length tensors"
    and "room (request_cost tensors p t + c) p" and "\<forall>u\<in>ready. 0 \<le> u"
  shows "\<exists>p'. allocate_tensor tensors t p = (kTfLiteOk, p') \<and> placed_inv tensors (insert t ready) p' \<and>
    plan_of p' = plan_of p \<and> ids_shrink p p' \<and> room c p'"
proof -
  obtain shared p1 where u: "unshare tensors t p = (shared, p1)" by (cases "unshare tensors t p")
  note U = unshare_ok [OF assms(1) u]
  show ?thesis
  proof (cases shared)
    case True
    then show ?thesis
      using u U placed_inv_skip [OF U(1)] assms(4) by (auto simp: allocate_tensor_def room_def)
  next
    case False
    have r1: "room (request_cost tensors p1 t + c) p1"
      using assms(4) U(4,5) request_cost_plan [OF U(2)] by (simp add: room_def)
    have pos: "\<forall>u\<in>ready - {t}. 0 \<le> u" using assms(5) by auto
    obtain p2 where p2: "allocate_rw tensors t p1 = (kTfLiteOk, p2)"
        "placed_inv tensors (if t_allocation_type (tensors ! nat t) = kTfLiteArenaRw then insert t (ready - {t}) else ready - {t}) p2"
        "plan_of p2 = plan_of p1" "ap_actual_tensor_id p2 = ap_actual_tensor_id p1"
        "ap_persistent_arena p2 = ap_persistent_arena p1"
        "t_allocation_type (tensors ! nat t) \<noteq> kTfLiteArenaRw \<longrightarrow> p2 = p1"
        "high_water_mark (ap_arena p2) \<le> high_water_mark (ap_arena p1) + request_cost tensors p1 t"
      using allocate_rw_ok [OF U(1) assms(2,3) r1 pos] by blast
    have ids: "ids_shrink p p2" using U(3) p2(4) by (simp add: ids_shrink_def)
    show ?thesis
    proof (cases "t_allocation_type (tensors ! nat t) = kTfLiteArenaRw")
      case True
      then have "allocate_persistent tensors t p2 = (kTfLiteOk, p2)" by (simp add: allocate_persistent_def)
      then have "allocate_tensor tensors t p = (kTfLiteOk, p2)"
        using u False p2(1) by (simp add: allocate_tensor_def)
      moreover have "room c p2" using r1 p2(5,7) by (simp add: room_def)
      ultimately show ?thesis using p2(2,3) U(2) ids True by auto
    next
      case nrw: False
      then have eq: "p2 = p1" using p2(6) by simp
      obtain p3 where p3: "allocate_persistent tensors t p2 = (kTfLiteOk, p3)" "placed_inv tensors (ready - {t}) p3"
        "plan_of p3 = plan_of p2" "ap_actual_tensor_id p3 = ap_actual_tensor_id p2" "ap_arena p3 = ap_arena p2"
        "high_water_mark (ap_persistent_arena p3) \<le> high_water_mark (ap_persistent_arena p2) + request_cost tensors p2 t"
        using allocate_persistent_ok [OF U(1) assms(2,3) r1 pos] eq by blast
      have "allocate_tensor tensors t p = (kTfLiteOk, p3)"
        using u False p2(1) p3(1) by (simp add: allocate_tensor_def)
      moreover have "room c p3" using r1 p3(5,6) eq by (simp add: room_def)
      moreover have "ids_shrink p p3" using ids p3(4) by (simp add: ids_shrink_def)
      ultimately show ?thesis using placed_inv_skip [OF p3(2)] nrw p3(3) p2(3) U(2) by auto
    qed
  qed
qed

lemma allocate_tensors_ok:
  assumes "placed_inv tensors ready p" and "\<forall>t\<in>set ts. 0 \<le> t \<and> nat t < length tensors"
    and "room (sum_list (map (request_cost tensors p) ts)) p" and "\<forall>u\<in>ready. 0 \<le> u"
  shows "\<exists>p'. ensure_each (allocate_tensor tensors) ts p = (kTfLiteOk, p') \<and> placed_inv tensors (ready \<union> set ts) p' \<and>
    plan_of p' = plan_of p \<and> ids_shrink p p' \<and> room 0 p'"
  using assms
proof (induction ts arbitrary: ready p)
  case (Cons t ts)
  have t: "0 \<le> t" "nat t < length tensors" using Cons.prems(2) by simp_all
  have rm: "room (request_cost tensors p t + sum_list (map (request_cost tensors p) ts)) p" using Cons.prems(3) by simp
  obtain p1 where p1: "allocate_tensor tensors t p = (kTfLiteOk, p1)" "placed_inv tensors (insert t ready) p1"
      "plan_of p1 = plan_of p" "ids_shrink p p1" "room (sum_list (map (request_cost tensors p) ts)) p1"
    using allocate_tensor_ok [OF Cons.prems(1) t rm Cons.prems(4)] by blast
  have "room (sum_list (map (request_cost tensors p1) ts)) p1" using p1(5) by (simp add: request_cost_plan [OF p1(3)])
  moreover have "\<forall>u\<in>insert t ready. 0 \<le> u" using Cons.prems(2,4) by simp
  ultimately obtain p2 where "ensure_each (allocate_tensor tensors) ts p1 = (kTfLiteOk, p2)"
      "placed_inv tensors (insert t ready \<union> set ts) p2" "plan_of p2 = plan_of p1" "ids_shrink p1 p2" "room 0 p2"
    using Cons.IH [OF p1(2)] Cons.prems(2) by (meson list.set_intros(2))
  moreover have "ready \<union> set (t # ts) = insert t ready \<union> set ts" by auto
  ultimately show ?case using p1(1,3) ids_shrink_trans [OF p1(4)] by simp
qed simp

lemma placed_disjoint:
  assumes "placed_inv tensors ready p" and "a \<in> ready" "b \<in> ready" "a \<noteq> b"
    and "t_allocation_type (tensors ! nat a) = kTfLiteArenaRw" "t_allocation_type (tensors ! nat b) = kTfLiteArenaRw"
    and "ap_actual_tensor_id p a = None" "ap_actual_tensor_id p b = None"
    and "0 < t_bytes (tensors ! nat a)" "0 < t_bytes (tensors ! nat b)"
    and "live_at p i a" "live_at p i b"
  shows "bytes_disjoint (ap_allocs p ! nat a) (ap_allocs p ! nat b)"
proof -
  have A: "placed_as tensors a p" and B: "placed_as tensors b p" using assms by (auto simp: placed_inv_def)
  let ?a = "ap_allocs p ! nat a" and ?b = "ap_allocs p ! nat b"
  have "?a \<noteq> ?b" using A B assms(4) by (auto simp: placed_as_def Let_def)
  moreover have "sorted_wrt alloc_compatible (active_allocs (ap_arena p))"
    using assms(1) by (simp add: placed_inv_def aligned_arena_inv_def arena_inv_def)
  ultimately have "alloc_compatible ?a ?b"
    using A B alloc_compatible_sym unfolding placed_as_def Let_def
    by (metis in_set_conv_nth linorder_neqE_nat sorted_wrt_nth_less)
  moreover have "usage_meets (al_first_node ?a) (al_last_node ?a) ?b"
    using A B assms(11,12) by (auto simp: placed_as_def Let_def live_at_def usage_meets_def)
  ultimately show ?thesis by (simp add: alloc_compatible_def)
qed

text \<open>\<open>std::sort\<close> rearranges its range.\<close>

definition sorts :: "std_sort \<Rightarrow> bool" where
  "sorts std_sort \<longleftrightarrow> (\<forall>lt xs. mset (std_sort lt xs) = mset xs)"

lemma sum_list_perm: "mset xs = mset ys \<Longrightarrow> sum_list (map f xs) = sum_list (map (f :: _ \<Rightarrow> nat) ys)"
  by (metis mset_map sum_mset_sum_list)

lemma sum_list_filter_le: "sum_list (map f (filter P xs)) \<le> sum_list (map (f :: _ \<Rightarrow> nat) xs)"
  by (induction xs) auto

text \<open>The state in which a plan is executed for the first time.\<close>

definition fresh_plan :: "TfLiteTensor list \<Rightarrow> ArenaPlanner \<Rightarrow> bool" where
  "fresh_plan tensors p \<longleftrightarrow>
     aligned_arena_inv (ap_tensor_alignment p) (ap_arena p) \<and>
     aligned_arena_inv (ap_tensor_alignment p) (ap_persistent_arena p) \<and>
     high_water_mark (ap_arena p) = 0 \<and> high_water_mark (ap_persistent_arena p) = 0 \<and>
     ap_allocs p = replicate (length tensors) alloc_reset \<and> ap_last_active_node p = kLastActiveNodeUndefined"

lemma fresh_placed: "fresh_plan tensors p \<Longrightarrow> placed_inv tensors {} p"
  by (auto simp: fresh_plan_def placed_inv_def alloc_end_def alloc_reset_def)

lemma CalculateAllocations_fresh:
  assumes "sorts std_sort" and "fresh_plan tensors p" and "last_node < i32_max"
    and "\<forall>t\<in>set (GetTensorsToAllocate p 0 last_node). 0 \<le> t \<and> nat t < length tensors"
    and "sum_list (map (request_cost tensors p) (GetTensorsToAllocate p 0 last_node)) < size_max"
  shows "\<exists>ts p'. CalculateAllocations std_sort tensors 0 last_node p = (kTfLiteOk, ts, p') \<and>
    placed_inv tensors (set ts) p' \<and> plan_of p' = plan_of p \<and> ids_shrink p p' \<and> room 0 p' \<and>
    set ts = {t \<in> set (GetTensorsToAllocate p 0 last_node). needs_allocation p tensors t}"
proof -
  let ?all = "GetTensorsToAllocate p 0 last_node"
  define need where "need = filter (needs_allocation p tensors) ?all"
  have setneed: "set need = {t \<in> set ?all. needs_allocation p tensors t}" by (auto simp: need_def)
  show ?thesis
  proof (cases "need = []")
    case True
    let ?p = "p\<lparr>ap_last_active_node := last_node\<rparr>"
    have "CalculateAllocations std_sort tensors 0 last_node p = (kTfLiteOk, [], ?p)"
      using True by (simp add: CalculateAllocations_def Let_def need_def)
    moreover have "placed_inv tensors (set []) ?p"
      using fresh_placed [OF assms(2)] by (auto simp: placed_inv_def own_arena_def)
    moreover have "room 0 ?p" using assms(2) by (simp add: fresh_plan_def room_def size_max_def)
    ultimately show ?thesis using setneed True by (auto simp: plan_of_def ids_shrink_def)
  next
    case False
    define p1 where "p1 = p\<lparr>ap_arena := ResetAllocs (ap_arena p), ap_last_active_node := 0\<rparr>"
    define ts where "ts = CreateTensorAllocationVector std_sort p1 tensors need"
    have perm: "mset ts = mset need" using assms(1) by (simp add: ts_def CreateTensorAllocationVector_def sorts_def)
    then have set_ts: "set ts = set need" by (metis set_mset_mset)
    have "aligned_arena_inv (ap_tensor_alignment p) (ResetAllocs (ap_arena p))"
      using assms(2) ResetAllocs_inv by (simp add: fresh_plan_def aligned_arena_inv_def ResetAllocs_def arena_inv_def)
    then have pl: "placed_inv tensors {} p1"
      using fresh_placed [OF assms(2)] by (auto simp: placed_inv_def p1_def own_arena_def ResetAllocs_def)
    have plan1: "plan_of p1 = plan_of p" by (simp add: plan_of_def p1_def)
    have "sum_list (map (request_cost tensors p1) ts) \<le> sum_list (map (request_cost tensors p) ?all)"
      using sum_list_perm [OF perm] sum_list_filter_le request_cost_plan [OF plan1] unfolding need_def by metis
    then have rm: "room (sum_list (map (request_cost tensors p1) ts)) p1"
      using assms(2,5) by (simp add: room_def p1_def ResetAllocs_def fresh_plan_def)
    have rng: "\<forall>t\<in>set ts. 0 \<le> t \<and> nat t < length tensors" using assms(4) set_ts setneed by auto
    obtain p2 where p2: "ensure_each (allocate_tensor tensors) ts p1 = (kTfLiteOk, p2)" "placed_inv tensors ({} \<union> set ts) p2"
        "plan_of p2 = plan_of p1" "ids_shrink p1 p2" "room 0 p2"
      using allocate_tensors_ok [OF pl rng rm] by auto
    let ?p = "p2\<lparr>ap_last_active_node := last_node\<rparr>"
    have "CalculateAllocations std_sort tensors 0 last_node p = (kTfLiteOk, ts, ?p)"
      using False p2(1) assms(2)
      by (simp add: CalculateAllocations_def Let_def need_def [symmetric] fresh_plan_def p1_def [symmetric] ts_def [symmetric])
    moreover have "placed_inv tensors (set ts) ?p" "room 0 ?p"
      using p2(2,5) by (auto simp: placed_inv_def own_arena_def placed_as_def Let_def room_def)
    moreover have "ids_shrink p ?p" using p2(4) by (simp add: ids_shrink_def p1_def)
    moreover have "plan_of ?p = plan_of p" using p2(3) plan1 by (simp add: plan_of_def)
    ultimately show ?thesis using set_ts setneed by blast
  qed
qed

section \<open>Resolving the addresses\<close>

definition own_address :: "ArenaPlanner \<Rightarrow> TfLiteTensor list \<Rightarrow> int \<Rightarrow> nat" where
  "own_address p tensors t =
     (let a = ap_allocs p ! nat t; type = t_allocation_type (tensors ! nat t) in
      if type = kTfLiteArenaRw \<and> al_size a \<noteq> 0 then size_add (BasePointer (ap_arena p)) (al_offset a)
      else if type = kTfLiteArenaRwPersistent
           then (if al_size a = 0 then 0 else size_add (BasePointer (ap_persistent_arena p)) (al_offset a))
      else t_data (tensors ! nat t))"

definition final_address :: "ArenaPlanner \<Rightarrow> TfLiteTensor list \<Rightarrow> int \<Rightarrow> nat" where
  "final_address p tensors t =
     (let r = FindSharedTensor t p
      in own_address p tensors (if r \<noteq> t \<and> AreTensorsAllocatedInSameArena r t tensors then r else t))"

definition resolvable :: "TfLiteTensor list \<Rightarrow> ArenaPlanner \<Rightarrow> bool" where
  "resolvable tensors p \<longleftrightarrow>
     (\<forall>i<length tensors. committed (own_arena tensors (int i) p) \<and>
        alloc_end (ap_allocs p ! i) \<le> data_size (underlying_buffer (own_arena tensors (int i) p)) \<and>
        data_size (underlying_buffer (own_arena tensors (int i) p)) < size_mod)"

text \<open>While addresses are resolved: only data pointers change, to the final ones; those in \<open>ready\<close> are final.\<close>

definition resolving :: "ArenaPlanner \<Rightarrow> TfLiteTensor list \<Rightarrow> int set \<Rightarrow> TfLiteTensor list \<Rightarrow> bool" where
  "resolving p tensors0 ready tensors \<longleftrightarrow> length tensors = length tensors0 \<and>
     (\<forall>i<length tensors0. (\<exists>d. tensors ! i = (tensors0 ! i)\<lparr>t_data := d\<rparr> \<and>
        (d = t_data (tensors0 ! i) \<or> d = final_address p tensors0 (int i)) \<and>
        (int i \<in> ready \<longrightarrow> d = final_address p tensors0 (int i))))"

lemma resolving_fields:
  assumes "resolving p ts0 ready ts" and "nat t < length ts0"
  shows "t_allocation_type (ts ! nat t) = t_allocation_type (ts0 ! nat t)"
    and "t_data (ts ! nat t) = t_data (ts0 ! nat t) \<or> t_data (ts ! nat t) = final_address p ts0 (int (nat t))"
  using assms by (force simp: resolving_def)+

lemma resolving_update:
  assumes "resolving p ts0 ready ts" and "0 \<le> t" "nat t < length ts0" and "d = final_address p ts0 t"
  shows "resolving p ts0 (insert t ready) (ts[nat t := (ts ! nat t)\<lparr>t_data := d\<rparr>])"
  unfolding resolving_def
proof (intro conjI allI impI)
  fix i assume i: "i < length ts0"
  have len: "length ts = length ts0" using assms(1) by (simp add: resolving_def)
  obtain e where e: "ts ! i = (ts0 ! i)\<lparr>t_data := e\<rparr>" "e = t_data (ts0 ! i) \<or> e = final_address p ts0 (int i)"
      "int i \<in> ready \<longrightarrow> e = final_address p ts0 (int i)"
    using assms(1) i unfolding resolving_def by blast
  show "\<exists>d'. ts[nat t := (ts ! nat t)\<lparr>t_data := d\<rparr>] ! i = (ts0 ! i)\<lparr>t_data := d'\<rparr> \<and>
      (d' = t_data (ts0 ! i) \<or> d' = final_address p ts0 (int i)) \<and>
      (int i \<in> insert t ready \<longrightarrow> d' = final_address p ts0 (int i))"
  proof (cases "i = nat t")
    case True
    then show ?thesis using e assms len by (intro exI [of _ d]) simp
  next
    case False
    then have "int i \<noteq> t" using assms(2) by auto
    then show ?thesis using e False by (intro exI [of _ e]) simp
  qed
qed (use assms(1) in \<open>simp add: resolving_def\<close>)

lemma resolve_own_ok:
  assumes "resolvable ts0 p" and "resolving p ts0 ready ts" and "0 \<le> t" "nat t < length ts0"
    and "final_address p ts0 t = own_address p ts0 t"
  shows "\<exists>ts'. resolve_own p t ts = (kTfLiteOk, ts') \<and> resolving p ts0 (insert t ready) ts' \<and>
    t_data (ts' ! nat t) = own_address p ts0 t"
proof -
  let ?d = "own_address p ts0 t"
  have len: "length ts = length ts0" using assms(2) by (simp add: resolving_def)
  have ty: "t_allocation_type (ts ! nat t) = t_allocation_type (ts0 ! nat t)"
    using resolving_fields(1) [OF assms(2,4)] .
  have res: "ResolveAlloc (ap_allocs p ! nat t) (own_arena ts0 t p) = (kTfLiteOk, Some (if al_size (ap_allocs p ! nat t) = 0
      then 0 else size_add (BasePointer (own_arena ts0 t p)) (al_offset (ap_allocs p ! nat t))))"
    using assms(1,3,4) unfolding resolvable_def BasePointer_def by (intro ResolveAlloc_ok) auto
  have upd: "resolving p ts0 (insert t ready) (ts[nat t := (ts ! nat t)\<lparr>t_data := ?d\<rparr>])"
    using resolving_update [OF assms(2-4)] assms(5) by simp
  have same: "resolving p ts0 (insert t ready) ts" if "t_data (ts ! nat t) = ?d"
    using upd that by (metis TfLiteTensor.surjective TfLiteTensor.update_convs(2) list_update_id)
  consider (rw) "t_allocation_type (ts0 ! nat t) = kTfLiteArenaRw" "al_size (ap_allocs p ! nat t) \<noteq> 0"
    | (per) "t_allocation_type (ts0 ! nat t) = kTfLiteArenaRwPersistent"
    | (none) "t_allocation_type (ts0 ! nat t) \<noteq> kTfLiteArenaRwPersistent"
        "\<not> (t_allocation_type (ts0 ! nat t) = kTfLiteArenaRw \<and> al_size (ap_allocs p ! nat t) \<noteq> 0)" by blast
  then show ?thesis
  proof cases
    case rw
    then have "resolve_own p t ts = (kTfLiteOk, ts[nat t := (ts ! nat t)\<lparr>t_data := ?d\<rparr>])"
      using ty res by (simp add: resolve_own_def Let_def write_data_def own_address_def own_arena_def)
    then show ?thesis using upd assms(4) len by simp
  next
    case per
    then have "resolve_own p t ts = (kTfLiteOk, ts[nat t := (ts ! nat t)\<lparr>t_data := ?d\<rparr>])"
      using ty res by (simp add: resolve_own_def Let_def write_data_def own_address_def own_arena_def)
    then show ?thesis using upd assms(4) len by simp
  next
    case none
    then have "?d = t_data (ts0 ! nat t)" by (auto simp: own_address_def Let_def)
    then have "t_data (ts ! nat t) = ?d"
      using resolving_fields(2) [OF assms(2,4)] assms(3,5) by auto
    moreover have "resolve_own p t ts = (kTfLiteOk, ts)"
      using none ty by (auto simp: resolve_own_def Let_def)
    ultimately show ?thesis using same by simp
  qed
qed

definition owners_in :: "nat \<Rightarrow> ArenaPlanner \<Rightarrow> bool" where
  "owners_in n p \<longleftrightarrow> (\<forall>t r. ap_actual_tensor_id p t = Some r \<longrightarrow> 0 \<le> r \<and> nat r < n)"

lemma ResolveTensorAllocation_ok:
  assumes "owners_flat p" and "owners_in (length ts0) p" and "resolvable ts0 p"
    and "resolving p ts0 ready ts" and "0 \<le> t" "nat t < length ts0"
  shows "\<exists>ts'. ResolveTensorAllocation (Suc (Suc fuel)) p t ts = (kTfLiteOk, ts') \<and> resolving p ts0 (insert t ready) ts'"
proof -
  define r where "r = FindSharedTensor t p"
  have same: "AreTensorsAllocatedInSameArena r t ts = AreTensorsAllocatedInSameArena r t ts0" if "0 \<le> r" "nat r < length ts0"
    using resolving_fields(1) [OF assms(4)] assms(6) that by (simp add: AreTensorsAllocatedInSameArena_def)
  show ?thesis
  proof (cases "r \<noteq> t \<and> AreTensorsAllocatedInSameArena r t ts")
    case False
    have rin: "r \<noteq> t \<Longrightarrow> 0 \<le> r \<and> nat r < length ts0"
      using assms(2) by (auto simp: r_def FindSharedTensor_def owners_in_def split: option.splits)
    then have "final_address p ts0 t = own_address p ts0 t"
      using False same unfolding final_address_def r_def [symmetric] Let_def by auto
    from resolve_own_ok [OF assms(3-6) this]
    show ?thesis using False by (auto simp: r_def [symmetric])
  next
    case True
    then have s: "ap_actual_tensor_id p t = Some r"
      by (auto simp: r_def FindSharedTensor_def split: option.splits)
    then have rin: "0 \<le> r" "nat r < length ts0" and none: "ap_actual_tensor_id p r = None"
      using assms(1,2) by (auto simp: owners_in_def owners_flat_def)
    have fr: "FindSharedTensor r p = r" using none by (simp add: FindSharedTensor_def)
    then have "final_address p ts0 r = own_address p ts0 r" by (simp add: final_address_def Let_def)
    from resolve_own_ok [OF assms(3,4) rin this] obtain ts1 where
      ts1: "resolve_own p r ts = (kTfLiteOk, ts1)" "resolving p ts0 (insert r ready) ts1"
        "t_data (ts1 ! nat r) = own_address p ts0 r" by blast
    have "final_address p ts0 t = own_address p ts0 r"
      using True same [OF rin] unfolding final_address_def r_def [symmetric] Let_def by simp
    then have "resolving p ts0 (insert t (insert r ready)) (ts1[nat t := (ts1 ! nat t)\<lparr>t_data := t_data (ts1 ! nat r)\<rparr>])"
      using resolving_update [OF ts1(2) assms(5,6)] ts1(3) by simp
    then have "resolving p ts0 (insert t ready) (ts1[nat t := (ts1 ! nat t)\<lparr>t_data := t_data (ts1 ! nat r)\<rparr>])"
      unfolding resolving_def by blast
    moreover have "ResolveTensorAllocation (Suc fuel) p r ts = (kTfLiteOk, ts1)" using ts1(1) fr by simp
    ultimately show ?thesis using True
      by (subst ResolveTensorAllocation.simps(2)) (simp add: r_def [symmetric] Let_def del: ResolveTensorAllocation.simps)
  qed
qed

lemma resolve_all_ok:
  assumes "owners_flat p" and "owners_in (length ts0) p" and "resolvable ts0 p"
    and "resolving p ts0 ready ts" and "\<forall>t\<in>set xs. 0 \<le> t \<and> nat t < length ts0"
  shows "\<exists>ts'. ensure_each (ResolveTensorAllocation (Suc (Suc fuel)) p) xs ts = (kTfLiteOk, ts') \<and>
    resolving p ts0 (ready \<union> set xs) ts'"
  using assms(4,5)
proof (induction xs arbitrary: ready ts)
  case (Cons t xs)
  obtain ts1 where ts1: "ResolveTensorAllocation (Suc (Suc fuel)) p t ts = (kTfLiteOk, ts1)"
      "resolving p ts0 (insert t ready) ts1"
    using ResolveTensorAllocation_ok [OF assms(1-3) Cons.prems(1)] Cons.prems(2) by (meson list.set_intros(1))
  from Cons.IH [OF ts1(2)] Cons.prems(2) ts1(1) show ?case
    by (auto simp del: ResolveTensorAllocation.simps)
qed (simp del: ResolveTensorAllocation.simps)

lemma resolving_start: "resolving p ts {} ts"
  by (auto simp: resolving_def intro!: exI [of _ "t_data _"])

text \<open>The temporaries of the nodes join the queues.\<close>

definition queues_in :: "nat \<Rightarrow> ArenaPlanner \<Rightarrow> bool" where
  "queues_in n p \<longleftrightarrow> (\<forall>q\<in>set (ap_nodes_to_tensors p). \<forall>t\<in>set q. 0 \<le> t \<and> nat t < n)"

definition temp_frame where
  "temp_frame p = (planner_arenas p, ap_actual_tensor_id p, ap_preserve_all_tensors p, length (ap_nodes_to_tensors p))"

lemma plan_temporary_ok:
  assumes "queues_in n p" and "0 \<le> t" "nat t < n"
  shows "queues_in n (plan_temporary i t p)" and "temp_frame (plan_temporary i t p) = temp_frame p"
proof -
  let ?new = "set_insert t (ap_nodes_to_tensors p ! i)"
  have eq: "ap_nodes_to_tensors (plan_temporary i t p) = (ap_nodes_to_tensors p)[i := ?new]"
    by (simp add: plan_temporary_def queue_tensor_def Let_def)
  have "\<forall>u\<in>set q. 0 \<le> u \<and> nat u < n" if "q \<in> set ((ap_nodes_to_tensors p)[i := ?new])" for q
  proof (cases "i < length (ap_nodes_to_tensors p)")
    case True
    then have "q = ?new \<or> q \<in> set (ap_nodes_to_tensors p)" using that set_update_subset_insert by fastforce
    moreover have "\<forall>u\<in>set ?new. 0 \<le> u \<and> nat u < n"
      using assms nth_mem [OF True] unfolding queues_in_def set_set_insert by blast
    ultimately show ?thesis using assms(1) unfolding queues_in_def by blast
  next
    case False
    then show ?thesis using that assms(1) by (simp add: queues_in_def list_update_beyond)
  qed
  then show "queues_in n (plan_temporary i t p)" by (simp add: queues_in_def eq)
  show "temp_frame (plan_temporary i t p) = temp_frame p"
    by (simp add: temp_frame_def planner_arenas_def plan_temporary_def queue_tensor_def Let_def)
qed

lemma plan_temporaries_ok:
  assumes "queues_in n p" and "\<forall>i\<in>set is. \<forall>t\<in>set (f i). 0 \<le> t \<and> nat t < n"
  shows "queues_in n (fold (\<lambda>i. fold (plan_temporary i) (f i)) is p) \<and>
    temp_frame (fold (\<lambda>i. fold (plan_temporary i) (f i)) is p) = temp_frame p"
proof -
  have one: "queues_in n (fold (plan_temporary i) ts q) \<and> temp_frame (fold (plan_temporary i) ts q) = temp_frame q"
    if "queues_in n q" "\<forall>t\<in>set ts. 0 \<le> t \<and> nat t < n" for i ts q
    using that
  proof (induction ts arbitrary: q)
    case (Cons t ts)
    then show ?case using plan_temporary_ok [of n q t i] by simp
  qed simp
  show ?thesis using assms
  proof (induction "is" arbitrary: p)
    case (Cons i "is")
    then show ?case using one [of p "f i" i] by simp
  qed simp
qed

lemma GetTensorsToAllocate_in:
  assumes "queues_in n p" and "nat last_node < length (ap_nodes_to_tensors p)"
  shows "\<forall>t\<in>set (GetTensorsToAllocate p 0 last_node). 0 \<le> t \<and> nat t < n"
proof -
  have "\<And>i. 0 \<le> i \<Longrightarrow> i \<le> last_node \<Longrightarrow> ap_nodes_to_tensors p ! nat i \<in> set (ap_nodes_to_tensors p)"
    using assms(2) by (intro nth_mem) linarith
  then show ?thesis using assms(1) unfolding GetTensorsToAllocate_def queues_in_def by auto
qed

lemma planner_Commit_ok:
  assumes "placed_inv tensors ready p" and "room 0 p"
  shows "\<exists>moved p'. planner_Commit m p = (kTfLiteOk, moved, p') \<and> resolvable tensors p' \<and> plan_of p' = plan_of p \<and>
    ap_actual_tensor_id p' = ap_actual_tensor_id p \<and> ap_allocs p' = ap_allocs p \<and>
    active_allocs (ap_arena p') = active_allocs (ap_arena p)"
proof -
  obtain st1 mv1 a where a: "Commit m (ap_arena p) = (st1, mv1, a)" by (metis prod_cases3)
  obtain st2 mv2 b where b: "Commit m (ap_persistent_arena p) = (st2, mv2, b)" by (metis prod_cases3)
  note A = Commit_size [OF a] and B = Commit_size [OF b]
  have "data_size (underlying_buffer a) < size_mod" "data_size (underlying_buffer b) < size_mod"
    using a b assms by (auto simp: Commit_def Resize_def placed_inv_def aligned_arena_inv_def room_def size_max_def
        split: prod.splits if_splits)
  moreover have "\<forall>i<length tensors. alloc_end (ap_allocs p ! i) \<le> data_size (underlying_buffer
      (if t_allocation_type (tensors ! i) = kTfLiteArenaRwPersistent then b else a))"
  proof (intro allI impI)
    fix i assume that: "i < length tensors"
    have "alloc_end (ap_allocs p ! i) \<le> high_water_mark (own_arena tensors (int i) p)"
      using assms(1) that by (simp add: placed_inv_def)
    also have "\<dots> \<le> data_size (underlying_buffer (if t_allocation_type (tensors ! i) = kTfLiteArenaRwPersistent then b else a))"
      using A(3) B(3) by (simp add: own_arena_def)
    finally show "alloc_end (ap_allocs p ! i) \<le> data_size (underlying_buffer
      (if t_allocation_type (tensors ! i) = kTfLiteArenaRwPersistent then b else a))" .
  qed
  ultimately have "resolvable tensors (p\<lparr>ap_arena := a, ap_has_nonpersistent_memory := True, ap_persistent_arena := b\<rparr>)"
    using A(2) B(2) by (auto simp: resolvable_def own_arena_def)
  then show ?thesis using a b A(1,5) B(1) by (auto simp: planner_Commit_def plan_of_def)
qed

text \<open>A planner as it is created or reset: usable arenas and an alignment they can keep.\<close>

definition planner_ok :: "ArenaPlanner \<Rightarrow> bool" where
  "planner_ok p \<longleftrightarrow> 0 < ap_tensor_alignment p \<and>
     ap_tensor_alignment p \<le> alignment (underlying_buffer (ap_arena p)) \<and>
     ap_tensor_alignment p \<le> alignment (underlying_buffer (ap_persistent_arena p)) \<and>
     data_size (underlying_buffer (ap_arena p)) < size_mod \<and>
     data_size (underlying_buffer (ap_persistent_arena p)) < size_mod"

lemma planner_ok_new: "0 < al \<Longrightarrow> al \<le> kDefaultArenaAlignment \<Longrightarrow> planner_ok (new_planner preserve al)"
  by (simp add: planner_ok_def new_planner_def new_arena_def new_buffer_def)

lemma planned_fresh:
  assumes "planner_ok p" and "planner_arenas p' = (snd (ClearPlan (ap_arena p)), snd (ClearPlan (ap_persistent_arena p)),
      replicate (length tensors) alloc_reset, ap_has_nonpersistent_memory p, ap_tensor_alignment p,
      kLastActiveNodeUndefined)"
  shows "fresh_plan tensors p'"
  using assms by (auto simp: fresh_plan_def planner_ok_def planner_arenas_def aligned_arena_inv_def ClearPlan_inv)
    (auto simp: ClearPlan_def)

lemma plan_of_eqs:
  assumes "plan_of p' = plan_of p"
  shows "GetTensorsToAllocate p' a b = GetTensorsToAllocate p a b" and "live_at p' = live_at p"
  using assms by (simp_all add: plan_of_def GetTensorsToAllocate_def live_at_def fun_eq_iff)

text \<open>
  The result of executing a plan: every tensor that needs memory has an active allocation in an arena in
  order, and all data pointers of the allocated tensors are resolved.
\<close>

definition executed :: "TfLiteTensor list \<Rightarrow> int list \<Rightarrow> ArenaPlanner \<Rightarrow> TfLiteTensor list \<Rightarrow> bool" where
  "executed tensors ts p tensors' \<longleftrightarrow>
     (\<exists>q. placed_inv tensors (set ts) q \<and> plan_of p = plan_of q \<and>
        ap_actual_tensor_id p = ap_actual_tensor_id q \<and> ap_allocs p = ap_allocs q) \<and>
     resolvable tensors p \<and> resolving p tensors (set ts) tensors'"

lemma vec_resize_same: "length xs = n \<Longrightarrow> vec_resize n v xs = xs"
  by (simp add: vec_resize_def)

lemma queue_temporaries_ok:
  assumes "fresh_plan tensors p" and "queues_in (length tensors) p" and "length tensors = gi_num_tensors info"
    and "length (ap_alloc_node p) = gi_num_tensors info" "length (ap_dealloc_node p) = gi_num_tensors info"
    and "\<forall>nd\<in>set (gi_nodes info). \<forall>t\<in>set (nd_temporaries nd). tensor_in info t"
  shows "queues_in (length tensors) (queue_temporaries info a b p)"
    and "temp_frame (queue_temporaries info a b p) = temp_frame p"
proof -
  have len: "length (ap_allocs p) = gi_num_tensors info" using assms(1,3) by (simp add: fresh_plan_def)
  have rng: "\<forall>i\<in>set (filter (\<lambda>i. i < num_execution_nodes info) (map nat [a..b])).
      \<forall>t\<in>set (nd_temporaries (gi_nodes info ! i)). 0 \<le> t \<and> nat t < length tensors"
  proof (intro ballI)
    fix i t assume "i \<in> set (filter (\<lambda>i. i < num_execution_nodes info) (map nat [a..b]))"
      and t: "t \<in> set (nd_temporaries (gi_nodes info ! i))"
    then have "gi_nodes info ! i \<in> set (gi_nodes info)" by (auto simp: num_execution_nodes_def)
    then have "tensor_in info t" using t assms(6) by blast
    then show "0 \<le> t \<and> nat t < length tensors" using assms(3) by (auto simp: tensor_in_def)
  qed
  have eq: "queue_temporaries info a b p = fold (\<lambda>i. fold (plan_temporary i) (nd_temporaries (gi_nodes info ! i)))
      (filter (\<lambda>i. i < num_execution_nodes info) (map nat [a..b])) p"
    by (simp add: queue_temporaries_def Let_def vec_resize_same [OF len] vec_resize_same [OF assms(4)]
        vec_resize_same [OF assms(5)])
  show "queues_in (length tensors) (queue_temporaries info a b p)"
    and "temp_frame (queue_temporaries info a b p) = temp_frame p"
    unfolding eq using plan_temporaries_ok [OF assms(2) rng] by simp_all
qed

lemma fresh_needs:
  assumes "fresh_plan tensors p" and "nat t < length tensors"
  shows "needs_allocation p tensors t \<longleftrightarrow> t_allocation_type (tensors ! nat t) = kTfLiteArenaRw \<and>
      0 < t_bytes (tensors ! nat t) \<or> t_allocation_type (tensors ! nat t) = kTfLiteArenaRwPersistent"
  using assms by (auto simp: needs_allocation_def fresh_plan_def alloc_reset_def)

lemma ExecuteAllocations_fresh:
  assumes "sorts std_sort" and "fresh_plan tensors p" and "owners_flat p" and "owners_in (length tensors) p"
    and "queues_in (length tensors) p" and "length tensors = gi_num_tensors info"
    and "length (ap_alloc_node p) = gi_num_tensors info" "length (ap_dealloc_node p) = gi_num_tensors info"
    and "\<forall>nd\<in>set (gi_nodes info). \<forall>t\<in>set (nd_temporaries nd). tensor_in info t"
    and "last_node < i32_max" and "nat last_node < length (ap_nodes_to_tensors p)"
    and "q = queue_temporaries info 0 last_node p"
    and "sum_list (map (request_cost tensors q) (GetTensorsToAllocate q 0 last_node)) < size_max"
    and "ExecuteAllocations std_sort m info 0 last_node p tensors = (st, p', tensors')"
  shows "st = kTfLiteOk \<and> plan_of p' = plan_of q \<and> (\<exists>ts. executed tensors ts p' tensors' \<and>
    set ts = {t \<in> set (GetTensorsToAllocate q 0 last_node).
      t_allocation_type (tensors ! nat t) = kTfLiteArenaRw \<and> 0 < t_bytes (tensors ! nat t) \<or>
      t_allocation_type (tensors ! nat t) = kTfLiteArenaRwPersistent})"
proof -
  note Q = queue_temporaries_ok [OF assms(2,5,6,7,8,9), of 0 last_node, folded assms(12)]
  have frame: "planner_arenas q = planner_arenas p" "ap_actual_tensor_id q = ap_actual_tensor_id p"
      "length (ap_nodes_to_tensors q) = length (ap_nodes_to_tensors p)"
    using Q(2) by (simp_all add: temp_frame_def)
  have fresh: "fresh_plan tensors q" using assms(2) frame(1) by (simp add: fresh_plan_def planner_arenas_def)
  have rng: "\<forall>t\<in>set (GetTensorsToAllocate q 0 last_node). 0 \<le> t \<and> nat t < length tensors"
    using GetTensorsToAllocate_in [OF Q(1)] assms(11) frame(3) by simp
  obtain ts p1 where p1: "CalculateAllocations std_sort tensors 0 last_node q = (kTfLiteOk, ts, p1)"
      "placed_inv tensors (set ts) p1" "plan_of p1 = plan_of q" "ids_shrink q p1" "room 0 p1"
      "set ts = {t \<in> set (GetTensorsToAllocate q 0 last_node). needs_allocation q tensors t}"
    using CalculateAllocations_fresh [OF assms(1) fresh assms(10) rng assms(13)] by blast
  obtain moved p2 where p2: "planner_Commit m p1 = (kTfLiteOk, moved, p2)" "resolvable tensors p2" "plan_of p2 = plan_of p1"
      "ap_actual_tensor_id p2 = ap_actual_tensor_id p1" "ap_allocs p2 = ap_allocs p1"
    using planner_Commit_ok [OF p1(2,5)] by blast
  have ids: "ids_shrink p p2" using p1(4) p2(4) frame(2) by (simp add: ids_shrink_def)
  have flat: "owners_flat p2" using ids_shrink_flat [OF ids assms(3)] .
  have own: "owners_in (length tensors) p2"
    using ids assms(4) unfolding ids_shrink_def owners_in_def by (metis option.distinct(1))
  let ?xs = "if moved then map int [0..<gi_num_tensors info] else ts"
  have xs: "\<forall>t\<in>set ?xs. 0 \<le> t \<and> nat t < length tensors" "set ts \<subseteq> set ?xs"
    using rng p1(6) assms(6) by (auto intro!: image_eqI [of _ int "nat _"])
  obtain tensors2 where r: "ensure_each (ResolveTensorAllocation (resolve_fuel tensors) p2) ?xs tensors = (kTfLiteOk, tensors2)"
      "resolving p2 tensors (set ?xs) tensors2"
  proof (cases "tensors = []")
    case True
    then have "?xs = []" using xs(1) by (cases ?xs) auto
    then show ?thesis using that [of tensors] resolving_start by simp
  next
    case False
    then obtain f where "resolve_fuel tensors = Suc (Suc f)" by (cases tensors) (auto simp: resolve_fuel_def)
    then show ?thesis using that resolve_all_ok [OF flat own p2(2) resolving_start xs(1), of f] by auto
  qed
  have le: "gi_num_tensors info \<ge> length (ap_allocs p)" using assms(2,6) by (simp add: fresh_plan_def)
  have res: "st = kTfLiteOk" "p' = p2" "tensors' = tensors2"
    using assms(14) le p1(1) p2(1) r(1) by (simp_all add: ExecuteAllocations_def assms(12) [symmetric] Let_def)
  have "resolving p2 tensors (set ts) tensors2" using r(2) xs(2) unfolding resolving_def by blast
  then have "executed tensors ts p' tensors'"
    using p1(2) p2 res unfolding executed_def by blast
  moreover have "set ts = {t \<in> set (GetTensorsToAllocate q 0 last_node).
      t_allocation_type (tensors ! nat t) = kTfLiteArenaRw \<and> 0 < t_bytes (tensors ! nat t) \<or>
      t_allocation_type (tensors ! nat t) = kTfLiteArenaRwPersistent}"
    using p1(6) rng fresh_needs [OF fresh] by auto
  ultimately show ?thesis using res p2(3) p1(3) by auto
qed

lemma executed_address:
  assumes "executed tensors ts p tensors'" and "t \<in> set ts" and "0 \<le> t" "nat t < length tensors"
    and "t_allocation_type (tensors ! nat t) = kTfLiteArenaRw" "ap_actual_tensor_id p t = None"
    and "0 < t_bytes (tensors ! nat t)" and "BasePointer (ap_arena p) + GetBufferSize (ap_arena p) < size_mod"
  shows "t_data (tensors' ! nat t) = BasePointer (ap_arena p) + al_offset (ap_allocs p ! nat t)"
    and "al_size (ap_allocs p ! nat t) = t_bytes (tensors ! nat t)"
    and "alloc_end (ap_allocs p ! nat t) \<le> GetBufferSize (ap_arena p)"
    and "t_bytes (tensors' ! nat t) = t_bytes (tensors ! nat t)"
proof -
  obtain q where q: "placed_inv tensors (set ts) q" "ap_actual_tensor_id p = ap_actual_tensor_id q" "ap_allocs p = ap_allocs q"
    using assms(1) by (auto simp: executed_def)
  then have "placed_as tensors t q" using assms by (simp add: placed_inv_def)
  then show size: "al_size (ap_allocs p ! nat t) = t_bytes (tensors ! nat t)" using q(3) by (simp add: placed_as_def Let_def)
  show "alloc_end (ap_allocs p ! nat t) \<le> GetBufferSize (ap_arena p)"
    using assms(1,3-5) unfolding executed_def resolvable_def own_arena_def GetBufferSize_def by auto
  then have "size_add (BasePointer (ap_arena p)) (al_offset (ap_allocs p ! nat t)) =
      BasePointer (ap_arena p) + al_offset (ap_allocs p ! nat t)"
    using assms(8) by (simp add: alloc_end_def size_simps)
  then have "final_address p tensors t = BasePointer (ap_arena p) + al_offset (ap_allocs p ! nat t)"
    using assms(5-7) size by (simp add: final_address_def own_address_def FindSharedTensor_def Let_def)
  moreover have "resolving p tensors (set ts) tensors'" using assms(1) by (simp add: executed_def)
  ultimately show "t_data (tensors' ! nat t) = BasePointer (ap_arena p) + al_offset (ap_allocs p ! nat t)"
    and "t_bytes (tensors' ! nat t) = t_bytes (tensors ! nat t)"
    using assms(2-4) unfolding resolving_def by (metis (no_types) TfLiteTensor.select_convs(2,6) TfLiteTensor.surjective
        TfLiteTensor.update_convs(2) int_nat_eq)+
qed

lemma PlanAllocations_roots:
  assumes "wf_plan info" and "PlanAllocations info tensors p = (kTfLiteOk, p')"
  shows "roots_in info p'"
proof -
  obtain q1 rc rc' where r: "ensure_each (plan_node info) [0..<num_execution_nodes info]
      (IdentifyInPlaceTensors info tensors q1, rc) = (kTfLiteOk, p', rc')"
    using PlanAllocations_nodes [OF assms(2)] by blast
  show ?thesis
    using IdentifyInPlaceTensors_roots(1) [OF assms(1)] plan_nodes_ids [OF r] by (simp add: roots_in_def)
qed

section \<open>Safety of the memory plan\<close>

text \<open>Tensor \<open>t\<close> has memory of its own in the non-persistent arena.\<close>

definition owns_memory :: "ArenaPlanner \<Rightarrow> TfLiteTensor list \<Rightarrow> int \<Rightarrow> int \<Rightarrow> bool" where
  "owns_memory p tensors last_node t \<longleftrightarrow>
     t \<in> set (GetTensorsToAllocate p 0 last_node) \<and> t_allocation_type (tensors ! nat t) = kTfLiteArenaRw \<and>
     0 < t_bytes (tensors ! nat t) \<and> ap_actual_tensor_id p t = None"

lemma executed_disjoint:
  assumes "executed tensors ts p tensors'" and "a \<noteq> b"
    and "\<And>t. t \<in> {a, b} \<Longrightarrow> t \<in> set ts \<and> 0 \<le> t \<and> nat t < length tensors \<and>
      t_allocation_type (tensors ! nat t) = kTfLiteArenaRw \<and> 0 < t_bytes (tensors ! nat t) \<and>
      ap_actual_tensor_id p t = None \<and> live_at p i t"
    and "BasePointer (ap_arena p) + GetBufferSize (ap_arena p) < size_mod"
  shows "t_data (tensors' ! nat a) + t_bytes (tensors' ! nat a) \<le> t_data (tensors' ! nat b) \<or>
    t_data (tensors' ! nat b) + t_bytes (tensors' ! nat b) \<le> t_data (tensors' ! nat a)"
proof -
  obtain q where q: "placed_inv tensors (set ts) q" "plan_of p = plan_of q" "ap_actual_tensor_id p = ap_actual_tensor_id q"
      "ap_allocs p = ap_allocs q"
    using assms(1) by (auto simp: executed_def)
  note A = assms(3) [of a, simplified] and B = assms(3) [of b, simplified]
  have "bytes_disjoint (ap_allocs q ! nat a) (ap_allocs q ! nat b)"
    using placed_disjoint [OF q(1) _ _ assms(2), of i] A B q(3) plan_of_eqs(2) [OF q(2)] by simp
  moreover note executed_address [OF assms(1) _ _ _ _ _ _ assms(4), of a] executed_address [OF assms(1) _ _ _ _ _ _ assms(4), of b]
  ultimately show ?thesis using A B q(4) by (auto simp: bytes_disjoint_def alloc_end_def)
qed

lemma planned_ready:
  assumes "wf_plan info" and "writes_before_reads info" and "planner_ok p" and "length tensors = gi_num_tensors info"
    and "0 < num_execution_nodes info" and "PlanAllocations info tensors p = (st1, p1)"
  shows "st1 = kTfLiteOk" "fresh_plan tensors p1" "owners_flat p1" "owners_in (length tensors) p1" "queues_in (length tensors) p1"
    "length (ap_nodes_to_tensors p1) = num_execution_nodes info" "length (ap_alloc_node p1) = gi_num_tensors info"
    "length (ap_dealloc_node p1) = gi_num_tensors info"
proof -
  let ?N = "num_execution_nodes info"
  obtain p1' where P: "PlanAllocations info tensors p = (kTfLiteOk, p1')" "queue_inv info ?N p1'"
      "length (ap_dealloc_node p1') = gi_num_tensors info"
      "planner_arenas p1' = (snd (ClearPlan (ap_arena p)), snd (ClearPlan (ap_persistent_arena p)),
        replicate (gi_num_tensors info) alloc_reset, ap_has_nonpersistent_memory p, ap_tensor_alignment p,
        kLastActiveNodeUndefined)"
    using PlanAllocations_result [OF assms(1)] by blast
  have st1: "st1 = kTfLiteOk" "p1' = p1" using P(1) assms(6) by simp_all
  note P = P [unfolded st1(2)]
  have fresh: "fresh_plan tensors p1" using planned_fresh [OF assms(3)] P(4) assms(4) by simp
  have flat: "owners_flat p1" using PlanAllocations_flat [OF assms(2) P(1)] .
  have own: "owners_in (length tensors) p1"
    using PlanAllocations_roots [OF assms(1) P(1)] assms(4) by (fastforce simp: roots_in_def owners_in_def tensor_in_def)
  have que2: "length (ap_nodes_to_tensors p1) = ?N" "length (ap_alloc_node p1) = gi_num_tensors info"
    using P(2) assms(5) by (auto simp: queue_inv_def num_queues_def)
  have "0 \<le> t \<and> nat t < length tensors" if k: "k \<in> set (ap_nodes_to_tensors p1)" and t: "t \<in> set k" for k t
  proof -
    obtain i where "i < length (ap_nodes_to_tensors p1)" "k = ap_nodes_to_tensors p1 ! i"
      using k by (auto simp: in_set_conv_nth)
    then have "tensor_in info t" using P(2) t by (simp add: queue_inv_def)
    then show ?thesis using assms(4) by (auto simp: tensor_in_def)
  qed
  then have "queues_in (length tensors) p1" using que2 by (simp add: queues_in_def)
  with st1(1) fresh flat own que2 P(3) show "st1 = kTfLiteOk" "fresh_plan tensors p1" "owners_flat p1" "owners_in (length tensors) p1"
    "queues_in (length tensors) p1" "length (ap_nodes_to_tensors p1) = ?N" "length (ap_alloc_node p1) = gi_num_tensors info"
    "length (ap_dealloc_node p1) = gi_num_tensors info" by blast+
qed

text \<open>
  Claim C5. The memory plan is safe. For a well-formed graph planned and executed from a usable planner, with room in
  the address space, both steps succeed, every tensor that owns memory lies inside the committed arena, and no
  two of them that are live at the same node share a byte.
\<close>

theorem planner_memory_disjoint:
  assumes "wf_plan info" and "writes_before_reads info" and "sorts std_sort" and "planner_ok p"
    and "length tensors = gi_num_tensors info" and "0 < num_execution_nodes info"
    and "\<forall>nd\<in>set (gi_nodes info). \<forall>t\<in>set (nd_temporaries nd). tensor_in info t"
    and "last_node = int (num_execution_nodes info) - 1"
    and "PlanAllocations info tensors p = (st1, p1)"
    and "q = queue_temporaries info 0 last_node p1"
    and "sum_list (map (request_cost tensors q) (GetTensorsToAllocate q 0 last_node)) < size_max"
    and "ExecuteAllocations std_sort m info 0 last_node p1 tensors = (st2, p2, tensors')"
    and "BasePointer (ap_arena p2) + GetBufferSize (ap_arena p2) < size_mod"
  shows "st1 = kTfLiteOk \<and> st2 = kTfLiteOk \<and>
    (\<forall>t. owns_memory p2 tensors last_node t \<longrightarrow>
       BasePointer (ap_arena p2) \<le> t_data (tensors' ! nat t) \<and>
       t_data (tensors' ! nat t) + t_bytes (tensors' ! nat t) \<le> BasePointer (ap_arena p2) + GetBufferSize (ap_arena p2)) \<and>
    (\<forall>i a b. a \<noteq> b \<and> owns_memory p2 tensors last_node a \<and> owns_memory p2 tensors last_node b \<and>
       live_at p2 i a \<and> live_at p2 i b \<longrightarrow>
       t_data (tensors' ! nat a) + t_bytes (tensors' ! nat a) \<le> t_data (tensors' ! nat b) \<or>
       t_data (tensors' ! nat b) + t_bytes (tensors' ! nat b) \<le> t_data (tensors' ! nat a))"
proof -
  note P = planned_ready [OF assms(1,2,4,5,6,9)]
  have last: "last_node < i32_max" "nat last_node < length (ap_nodes_to_tensors p1)"
    using assms(1,6,8) P(6) by (auto simp: wf_plan_def)
  obtain ts where st2: "st2 = kTfLiteOk" "plan_of p2 = plan_of q" and ex: "executed tensors ts p2 tensors'" and
    ts: "set ts = {t \<in> set (GetTensorsToAllocate q 0 last_node).
      t_allocation_type (tensors ! nat t) = kTfLiteArenaRw \<and> 0 < t_bytes (tensors ! nat t) \<or>
      t_allocation_type (tensors ! nat t) = kTfLiteArenaRwPersistent}"
    using ExecuteAllocations_fresh [OF assms(3) P(2,3,4,5) assms(5) P(7,8) assms(7) last assms(10,11,12)] by blast
  have rng: "\<forall>t\<in>set (GetTensorsToAllocate p2 0 last_node). 0 \<le> t \<and> nat t < length tensors"
    using GetTensorsToAllocate_in [of "length tensors" q last_node] last(2) plan_of_eqs(1) [OF st2(2)] assms(10)
      queue_temporaries_ok [OF P(2,5) assms(5) P(7,8) assms(7), of 0 last_node] by (simp add: temp_frame_def)
  have own_ts: "t \<in> set ts \<and> 0 \<le> t \<and> nat t < length tensors \<and> t_allocation_type (tensors ! nat t) = kTfLiteArenaRw \<and>
      0 < t_bytes (tensors ! nat t) \<and> ap_actual_tensor_id p2 t = None" if "owns_memory p2 tensors last_node t" for t
    using that ts rng plan_of_eqs(1) [OF st2(2)] by (auto simp: owns_memory_def)
  have "BasePointer (ap_arena p2) \<le> t_data (tensors' ! nat t) \<and>
      t_data (tensors' ! nat t) + t_bytes (tensors' ! nat t) \<le> BasePointer (ap_arena p2) + GetBufferSize (ap_arena p2)"
    if "owns_memory p2 tensors last_node t" for t
    using executed_address [OF ex _ _ _ _ _ _ assms(13), of t] own_ts [OF that] by (auto simp: alloc_end_def)
  moreover have "t_data (tensors' ! nat a) + t_bytes (tensors' ! nat a) \<le> t_data (tensors' ! nat b) \<or>
      t_data (tensors' ! nat b) + t_bytes (tensors' ! nat b) \<le> t_data (tensors' ! nat a)"
    if ab: "a \<noteq> b" and o: "owns_memory p2 tensors last_node a" "owns_memory p2 tensors last_node b"
      and l: "live_at p2 i a" "live_at p2 i b" for i a b
  proof (rule executed_disjoint [OF ex ab _ assms(13), of i])
    fix t assume "t \<in> {a, b}"
    then have "owns_memory p2 tensors last_node t" "live_at p2 i t" using o l by auto
    then show "t \<in> set ts \<and> 0 \<le> t \<and> nat t < length tensors \<and> t_allocation_type (tensors ! nat t) = kTfLiteArenaRw \<and>
        0 < t_bytes (tensors ! nat t) \<and> ap_actual_tensor_id p2 t = None \<and> live_at p2 i t"
      using own_ts [of t] by simp
  qed
  ultimately show ?thesis using P(1) st2(1) by blast
qed

section \<open>A graph of three operators\<close>

text \<open>The second operator works in place: its output shares the memory of its input.\<close>

definition w_tensor :: "nat \<Rightarrow> TfLiteAllocationType \<Rightarrow> TfLiteTensor" where
  "w_tensor bytes type = \<lparr>t_type = kTfLiteFloat32, t_data = 0, t_dims = Some [int bytes div 4],
     t_params = \<lparr>qp_scale = 0, qp_zero_point = 0\<rparr>, t_allocation_type = type, t_bytes = bytes, t_allocation = 0,
     t_name = [], t_delegate = 0, t_buffer_handle = -1, t_data_is_stale = False, t_is_variable = False,
     t_quantization = kTfLiteNoQuantization, t_sparsity = None, t_dims_signature = None\<rparr>"

fun insort_by :: "('a \<Rightarrow> 'a \<Rightarrow> bool) \<Rightarrow> 'a \<Rightarrow> 'a list \<Rightarrow> 'a list" where
  "insort_by lt x [] = [x]"
| "insort_by lt x (y # ys) = (if lt y x then y # insort_by lt x ys else x # y # ys)"

definition insertion_sort :: "('a \<Rightarrow> 'a \<Rightarrow> bool) \<Rightarrow> 'a list \<Rightarrow> 'a list" where
  "insertion_sort lt xs = foldr (insort_by lt) xs []"

lemma insertion_sort_sorts: "sorts insertion_sort"
proof -
  have "mset (insort_by lt x ys) = add_mset x (mset ys)" for lt and x :: int and ys
    by (induction ys) auto
  then have "mset (foldr (insort_by lt) xs []) = mset xs" for lt and xs :: "int list"
    by (induction xs) auto
  then show ?thesis by (simp add: sorts_def insertion_sort_def)
qed

definition w_plan_graph :: GraphInfo where
  "w_plan_graph = \<lparr>gi_num_tensors = 4, gi_nodes = [w_node [0] [1], w_node [1] [2], w_node [2] [3]],
     gi_registrations = [w_registration, w_registration\<lparr>rg_inplace_operator := 4\<rparr>, w_registration],
     gi_node_index = [0, 1, 2], gi_num_total_nodes = 3, gi_inputs = [0], gi_outputs = [3], gi_variables = []\<rparr>"

definition w_plan_tensors :: "TfLiteTensor list" where
  "w_plan_tensors = [w_tensor 64 kTfLiteArenaRw, w_tensor 100 kTfLiteArenaRw, w_tensor 100 kTfLiteArenaRw, w_tensor 8 kTfLiteArenaRw]"

definition w_planned where "w_planned = snd (PlanAllocations w_plan_graph w_plan_tensors (new_planner False 64))"


lemmas plan_eval = PlanAllocations_def ResetAllocations_def ClearPlan_def new_planner_def new_arena_def new_buffer_def
  plan_setup_def num_queues_def num_execution_nodes_def ref_tensor_def vec_incr_def plan_variable_def
  plan_graph_input_def plan_allocate_def queue_tensor_def set_insert_def Let_def

lemma w_lists: "replicate 4 x = [x, x, x, x]" "replicate 3 x = [x, x, x]" "[0..<3] = [0, 1, 2]" "[0..2] = [0, 1, 2::int]"
  "[0..<4] = [0, 1, 2, 3]"
  by (simp_all add: numeral_eq_Suc upt_rec upto.simps)

definition w_plan :: ArenaPlanner where
  "w_plan = (new_planner False 64)\<lparr>ap_allocs := replicate 4 alloc_reset,
     ap_nodes_to_tensors := [[0, 1], [2], [3]], ap_alloc_node := [0, 0, 1, 2],
     ap_dealloc_node := [kNodeNotAssigned, 2, kNodeNotAssigned, kNodeNotAssigned],
     ap_actual_tensor_id := [2 \<mapsto> 1], ap_refcounts := [2, 1, 1, 1]\<rparr>"

lemmas w_plan_defs = w_plan_graph_def w_plan_tensors_def w_node_def w_tensor_def w_registration_def

lemma w_planned: "PlanAllocations w_plan_graph w_plan_tensors (new_planner False 64) = (kTfLiteOk, w_plan)"
  apply (simp add: w_plan_defs plan_eval w_lists)
  apply (simp add: plan_nodes_def Let_def num_execution_nodes_def w_lists ref_tensor_def vec_incr_def)
  apply (simp add: IdentifyInPlaceTensors_def num_execution_nodes_def w_lists identify_node_def Let_def
      input_shareable_def data_unmodified_def InputTensorCanBeShared_def FindSharedTensor_def upt_rec)
  apply (simp add: ref_shared_def FindSharedTensor_def vec_incr_def)
  apply (simp add: plan_node_def plan_output_def plan_input_def plan_deallocate_def plan_allocate_def queue_tensor_def
      set_insert_def Let_def FindSharedTensor_def vec_decr_def w_plan_def w_lists new_planner_def new_arena_def new_buffer_def)
  done

lemma w_queued: "queue_temporaries w_plan_graph 0 2 w_plan = w_plan"
  by (simp add: queue_temporaries_def Let_def w_plan_def w_plan_graph_def new_planner_def vec_resize_def w_lists w_node_def
      num_execution_nodes_def)

abbreviation w_alloc :: "nat \<Rightarrow> nat \<Rightarrow> int \<Rightarrow> int \<Rightarrow> int \<Rightarrow> ArenaAllocWithUsageInterval" where
  "w_alloc p n t f l \<equiv> \<lparr>al_offset = p, al_size = n, al_tensor = t, al_first_node = f, al_last_node = l\<rparr>"

definition w_calculated :: ArenaPlanner where
  "w_calculated = w_plan\<lparr>ap_last_active_node := 2,
     ap_allocs := [w_alloc 0 64 0 0 kNodeNotAssigned, w_alloc 64 100 1 0 2, alloc_reset, w_alloc 192 8 3 2 kNodeNotAssigned],
     ap_arena := (new_arena 64)\<lparr>high_water_mark := 200,
       active_allocs := [w_alloc 0 64 0 0 kNodeNotAssigned, w_alloc 64 100 1 0 2, w_alloc 192 8 3 2 kNodeNotAssigned]\<rparr>\<rparr>"

lemma w_need: "filter (needs_allocation w_plan w_plan_tensors) (GetTensorsToAllocate w_plan 0 2) = [0, 1, 2, 3]"
  by (simp add: GetTensorsToAllocate_def w_plan_def w_lists needs_allocation_def w_plan_tensors_def w_tensor_def alloc_reset_def)

lemma w_sorted:
  assumes "ap_alloc_node p = ap_alloc_node w_plan" and "ap_dealloc_node p = ap_dealloc_node w_plan"
  shows "CreateTensorAllocationVector insertion_sort p w_plan_tensors [0, 1, 2, 3] = [0, 1, 2, 3]"
  by (simp add: CreateTensorAllocationVector_def insertion_sort_def tensor_compare_def assms)
    (simp add: w_plan_def w_plan_tensors_def w_tensor_def)

lemmas allocate_eval = allocate_tensor_def unshare_def allocate_rw_def allocate_persistent_def alloc_less_def arena_eval

lemma w_calculate: "CalculateAllocations insertion_sort w_plan_tensors 0 2 w_plan = (kTfLiteOk, [0, 1, 2, 3], w_calculated)"
proof -
  let ?p = "w_plan\<lparr>ap_arena := ResetAllocs (ap_arena w_plan), ap_last_active_node := 0\<rparr>"
  have last: "0 < ap_last_active_node w_plan" by (simp add: w_plan_def new_planner_def)
  have sorted: "CreateTensorAllocationVector insertion_sort ?p w_plan_tensors [0, 1, 2, 3] = [0, 1, 2, 3]"
    by (rule w_sorted) simp_all
  have "ensure_each (allocate_tensor w_plan_tensors) [0, 1, 2, 3] ?p = (kTfLiteOk, w_calculated\<lparr>ap_last_active_node := 0\<rparr>)"
    by (simp add: w_plan_def new_planner_def ResetAllocs_def w_calculated_def w_plan_tensors_def w_tensor_def w_lists allocate_eval)
  then show ?thesis
    unfolding CalculateAllocations_def w_need Let_def
    using last sorted by (simp add: w_calculated_def del: ensure_each.simps)
qed

definition w_committed :: ArenaPlanner where
  "w_committed = w_calculated\<lparr>
      ap_arena := (ap_arena w_calculated)\<lparr>committed := True, underlying_buffer :=
        \<lparr>buf_pointer = 4096, buf_aligned_pointer = 4096, buf_bytes = replicate 200 0, data_size = 200, alignment = 64\<rparr>\<rparr>,
      ap_has_nonpersistent_memory := True,
      ap_persistent_arena := (ap_persistent_arena w_calculated)\<lparr>committed := True\<rparr>\<rparr>"

definition w_resolved :: "TfLiteTensor list" where
  "w_resolved = [(w_tensor 64 kTfLiteArenaRw)\<lparr>t_data := 4096\<rparr>, (w_tensor 100 kTfLiteArenaRw)\<lparr>t_data := 4160\<rparr>,
     (w_tensor 100 kTfLiteArenaRw)\<lparr>t_data := 4160\<rparr>, (w_tensor 8 kTfLiteArenaRw)\<lparr>t_data := 4288\<rparr>]"

lemma w_commit: "planner_Commit zero_alloc w_calculated = (kTfLiteOk, True, w_committed)"
  by (simp add: w_committed_def planner_Commit_def Commit_def Resize_def AlignedRealloc_def AlignedAlloc_def zero_alloc_def
      AlignedAlloc_size_def w_calculated_def w_plan_def new_planner_def arena_eval)

lemma w_resolve: "ensure_each (ResolveTensorAllocation 5 w_committed) [0, 1, 2, 3] w_plan_tensors = (kTfLiteOk, w_resolved)"
  by (simp add: ResolveTensorAllocation.simps(2) [of 4, simplified] ResolveTensorAllocation.simps(2) [of 3, simplified]
      w_committed_def w_calculated_def w_plan_def new_planner_def new_arena_def new_buffer_def FindSharedTensor_def Let_def
      AreTensorsAllocatedInSameArena_def resolve_own_def write_data_def ResolveAlloc_def w_plan_tensors_def w_tensor_def
      size_add_def w_resolved_def)

lemma w_execute: "ExecuteAllocations insertion_sort zero_alloc w_plan_graph 0 2 w_plan w_plan_tensors = (kTfLiteOk, w_committed, w_resolved)"
proof -
  have len: "gi_num_tensors w_plan_graph \<ge> length (ap_allocs w_plan)"
    by (simp add: w_plan_graph_def w_plan_def)
  have four: "map int [0..<gi_num_tensors w_plan_graph] = [0, 1, 2, 3]" "resolve_fuel w_plan_tensors = 5"
    by (simp_all add: w_plan_graph_def w_lists resolve_fuel_def w_plan_tensors_def)
  show ?thesis
    unfolding ExecuteAllocations_def w_queued w_calculate
    using len by (simp add: w_commit four Let_def w_resolve del: ensure_each.simps)
qed

theorem planner_memory_disjoint_witness:
  "ExecuteAllocations insertion_sort zero_alloc w_plan_graph 0 2 w_plan w_plan_tensors = (kTfLiteOk, w_committed, w_resolved) \<and>
   t_data (w_resolved ! 2) = t_data (w_resolved ! 1) \<and>
   (t_data (w_resolved ! nat 1) + t_bytes (w_resolved ! nat 1) \<le> t_data (w_resolved ! nat 3) \<or>
    t_data (w_resolved ! nat 3) + t_bytes (w_resolved ! nat 3) \<le> t_data (w_resolved ! nat 1))"
proof -
  have nodes: "num_execution_nodes w_plan_graph = 3" "gi_num_tensors w_plan_graph = 4"
    by (simp_all add: w_plan_graph_def num_execution_nodes_def)
  have wf: "wf_plan w_plan_graph" "writes_before_reads w_plan_graph"
    by (auto simp: wf_plan_def writes_before_reads_def w_plan_graph_def w_node_def tensor_in_def num_execution_nodes_def
        less_Suc_eq numeral_3_eq_3 nth_Cons' split: if_splits)
  have ok: "planner_ok (new_planner False 64)" by (rule planner_ok_new) simp_all
  have len: "length w_plan_tensors = gi_num_tensors w_plan_graph" "0 < num_execution_nodes w_plan_graph"
    "2 = int (num_execution_nodes w_plan_graph) - 1" by (simp_all add: nodes w_plan_tensors_def)
  have temps: "\<forall>nd\<in>set (gi_nodes w_plan_graph). \<forall>t\<in>set (nd_temporaries nd). tensor_in w_plan_graph t"
    by (simp add: w_plan_graph_def w_node_def)
  have bound: "sum_list (map (request_cost w_plan_tensors w_plan) (GetTensorsToAllocate w_plan 0 2)) < size_max"
    by (simp add: GetTensorsToAllocate_def w_plan_def new_planner_def w_lists request_cost_def w_plan_tensors_def w_tensor_def size_max_def)
  have base: "BasePointer (ap_arena w_committed) + GetBufferSize (ap_arena w_committed) < size_mod"
    by (simp add: w_committed_def BasePointer_def GetBufferSize_def)
  note safe = planner_memory_disjoint [OF wf insertion_sort_sorts ok len(1,2) temps len(3) w_planned w_queued [symmetric]
    bound w_execute base, THEN conjunct2, THEN conjunct2, THEN conjunct2, rule_format, of 1 3 2]
  have "owns_memory w_committed w_plan_tensors 2 1" "owns_memory w_committed w_plan_tensors 2 3"
    "live_at w_committed 2 1" "live_at w_committed 2 3"
    by (simp_all add: owns_memory_def live_at_def w_committed_def w_calculated_def w_plan_def new_planner_def
        GetTensorsToAllocate_def w_lists w_plan_tensors_def w_tensor_def)
  with safe w_execute show ?thesis by (simp add: w_resolved_def)
qed

text \<open>
  Claim C6. Planning a well-formed graph always succeeds, and the lifetimes it computes are safe: a tensor is
  allocated no later than the node that writes it, the memory a node reads (its inputs' own or the one
  they share) is not released before that node has run, and the memory of graph inputs, outputs and
  variables is never released.
\<close>

theorem planner_lifetimes_cover:
  assumes "wf_plan info"
  shows "\<exists>p'. PlanAllocations info tensors p = (kTfLiteOk, p') \<and> plan_covers info p'"
  using PlanAllocations_result [OF assms] by metis

theorem planner_lifetimes_cover_witness:
  "plan_covers w_plan_graph w_plan \<and> FindSharedTensor 2 w_plan = 1 \<and> ap_dealloc_node w_plan ! 1 = 2"
proof -
  have wf: "wf_plan w_plan_graph"
    by (auto simp: wf_plan_def w_plan_graph_def w_node_def tensor_in_def num_execution_nodes_def)
  show ?thesis using planner_lifetimes_cover [OF wf, of w_plan_tensors "new_planner False 64"]
    by (simp add: w_planned) (simp add: w_plan_def FindSharedTensor_def)
qed

end
