(* ===== verification/GraphExecution.thy ===== *)
theory GraphExecution
  imports Delegation PlannerMemory
begin

text \<open>
  Properties of the subgraph: every operation keeps the indices it holds valid, what
  allocating promises to invoking, and what invoking does on an allocated graph.
\<close>

section \<open>Shape of the graph\<close>

definition node_shape where
  "node_shape x = (nd_inputs (fst x), nd_outputs (fst x), nd_delegate (fst x), snd x)"

definition graph_shape where
  "graph_shape s = (map node_shape (sg_nodes_and_registration s), sg_inputs s, sg_outputs s, sg_variables s,
     sg_execution_plan s, sg_pre_delegation_execution_plan s)"

text \<open>\<open>s'\<close> is the same graph as \<open>s\<close>, with tensors added and their contents changed.\<close>

definition same_graph :: "Subgraph \<Rightarrow> Subgraph \<Rightarrow> bool" where
  "same_graph s s' \<longleftrightarrow> graph_shape s' = graph_shape s \<and> length (sg_tensors s) \<le> length (sg_tensors s')"

definition graph_options where
  "graph_options s = (sg_consistent s, sg_delegates_applied s, sg_delegates_undone s, sg_custom_allocations s,
     sg_check_cancelled_func s, sg_continue_invocation s, sg_options s, sg_delegate_context_switch_count s)"

definition graph_mode where
  "graph_mode s = (sg_state s, graph_options s, map_option HasNonPersistentMemory (sg_memory_planner s))"

definition plan_progress where
  "plan_progress s = (sg_next_execution_plan_index_to_prepare s, sg_next_execution_plan_index_to_plan_allocation s,
     sg_next_original_execution_plan_index_to_prepare s)"

text \<open>
  What a kernel may do through its context: add and resize tensors, change their contents and its own node's
  temporaries and data. It sees neither the plan nor the mode of the graph.
\<close>

definition kernel_frame :: "Subgraph \<Rightarrow> Subgraph \<Rightarrow> bool" where
  "kernel_frame s s' \<longleftrightarrow> same_graph s s' \<and> graph_mode s' = graph_mode s \<and> plan_progress s' = plan_progress s"

definition kernels_ok :: "runtime \<Rightarrow> bool" where
  "kernels_ok K \<longleftrightarrow>
     (\<forall>f d b n s. kernel_frame s (snd (rt_init K f d b n s))) \<and>
     (\<forall>f d b s. kernel_frame s (rt_free K f d b s)) \<and>
     (\<forall>f d i s. kernel_frame s (snd (rt_prepare K f d i s))) \<and>
     (\<forall>m f d i s. kernel_frame s (snd (rt_invoke K m f d i s))) \<and>
     (\<forall>f d h i s. kernel_frame s (snd (rt_copy_from_buffer_handle K f d h i s))) \<and>
     (\<forall>f d h s. kernel_frame s (snd (rt_free_buffer_handle K f d h s)))"

text \<open>Allocating also changes the state, the planner and the progress of preparation.\<close>

definition alloc_frame :: "Subgraph \<Rightarrow> Subgraph \<Rightarrow> bool" where
  "alloc_frame s s' \<longleftrightarrow> same_graph s s' \<and> graph_options s' = graph_options s"

lemma same_graph_refl [simp]: "same_graph s s"
  by (simp add: same_graph_def)

lemma same_graph_trans: "same_graph s t \<Longrightarrow> same_graph t u \<Longrightarrow> same_graph s u"
  by (auto simp: same_graph_def)

lemma kernel_frame_refl [simp]: "kernel_frame s s"
  by (simp add: kernel_frame_def)

lemma kernel_frame_trans: "kernel_frame s t \<Longrightarrow> kernel_frame t u \<Longrightarrow> kernel_frame s u"
  by (auto simp: kernel_frame_def intro: same_graph_trans)

interpretation same: frame same_graph
  by unfold_locales (auto intro: same_graph_trans)

interpretation alloc: frame alloc_frame
  by unfold_locales (auto simp: alloc_frame_def intro: same_graph_trans)

interpretation kernel: frame kernel_frame
  by unfold_locales (auto intro: kernel_frame_trans)

section \<open>Valid indices\<close>

definition tensor_ok :: "nat \<Rightarrow> int \<Rightarrow> bool" where
  "tensor_ok n i \<longleftrightarrow> i = kTfLiteOptionalTensor \<or> 0 \<le> i \<and> i < int n"

definition sg_wf :: "Subgraph \<Rightarrow> bool" where
  "sg_wf s \<longleftrightarrow>
     (\<forall>i\<in>set (sg_inputs s) \<union> set (sg_outputs s) \<union> set (sg_variables s). tensor_ok (length (sg_tensors s)) i) \<and>
     (\<forall>i\<in>set (sg_execution_plan s) \<union> set (sg_pre_delegation_execution_plan s).
        0 \<le> i \<and> i < int (length (sg_nodes_and_registration s))) \<and>
     (\<forall>x\<in>set (sg_nodes_and_registration s). \<forall>i\<in>set (nd_inputs (fst x)) \<union> set (nd_outputs (fst x)).
        tensor_ok (length (sg_tensors s)) i)"

lemma tensor_ok_mono: "tensor_ok n i \<Longrightarrow> n \<le> m \<Longrightarrow> tensor_ok m i"
  by (auto simp: tensor_ok_def)

lemma same_graph_nodes:
  assumes "same_graph s s'"
  shows "length (sg_nodes_and_registration s') = length (sg_nodes_and_registration s)"
    and "\<And>x'. x' \<in> set (sg_nodes_and_registration s') \<Longrightarrow>
      \<exists>x\<in>set (sg_nodes_and_registration s). node_shape x' = node_shape x"
proof -
  have m: "map node_shape (sg_nodes_and_registration s') = map node_shape (sg_nodes_and_registration s)"
    using assms by (simp add: same_graph_def graph_shape_def)
  then show "length (sg_nodes_and_registration s') = length (sg_nodes_and_registration s)"
    by (rule map_eq_imp_length_eq)
  fix x' assume "x' \<in> set (sg_nodes_and_registration s')"
  then have "node_shape x' \<in> node_shape ` set (sg_nodes_and_registration s)"
    using m by (metis imageI list.set_map)
  then show "\<exists>x\<in>set (sg_nodes_and_registration s). node_shape x' = node_shape x" by blast
qed

lemma same_graph_fields:
  assumes "same_graph s s'"
  shows "sg_inputs s' = sg_inputs s" "sg_outputs s' = sg_outputs s" "sg_variables s' = sg_variables s"
    "sg_execution_plan s' = sg_execution_plan s"
    "sg_pre_delegation_execution_plan s' = sg_pre_delegation_execution_plan s"
    "length (sg_tensors s) \<le> length (sg_tensors s')"
  using assms by (simp_all add: same_graph_def graph_shape_def)

lemma same_graph_wf: "same_graph s s' \<Longrightarrow> sg_wf s \<Longrightarrow> sg_wf s'"
proof -
  assume same: "same_graph s s'" and wf: "sg_wf s"
  note f = same_graph_fields [OF same] and n = same_graph_nodes [OF same]
  have "\<forall>x\<in>set (sg_nodes_and_registration s'). \<forall>i\<in>set (nd_inputs (fst x)) \<union> set (nd_outputs (fst x)).
        tensor_ok (length (sg_tensors s')) i"
  proof (intro ballI)
    fix x' i assume "x' \<in> set (sg_nodes_and_registration s')" and i: "i \<in> set (nd_inputs (fst x')) \<union> set (nd_outputs (fst x'))"
    then obtain x where "x \<in> set (sg_nodes_and_registration s)" "node_shape x' = node_shape x" using n(2) by blast
    then show "tensor_ok (length (sg_tensors s')) i"
      using wf i tensor_ok_mono [OF _ f(6)] by (auto simp: sg_wf_def node_shape_def)
  qed
  then show "sg_wf s'" using wf f n(1) tensor_ok_mono [OF _ f(6)] by (auto simp: sg_wf_def)
qed

section \<open>Operations that keep the graph\<close>

text \<open>An update of a field outside of the shape keeps the graph.\<close>

lemma same_graph_update:
  assumes "sg_nodes_and_registration s' = sg_nodes_and_registration s" "sg_inputs s' = sg_inputs s"
    "sg_outputs s' = sg_outputs s" "sg_variables s' = sg_variables s" "sg_execution_plan s' = sg_execution_plan s"
    "sg_pre_delegation_execution_plan s' = sg_pre_delegation_execution_plan s"
    "length (sg_tensors s) \<le> length (sg_tensors s')"
  shows "same_graph s s'"
  using assms by (simp add: same_graph_def graph_shape_def)

lemma put_tensor_same [simp]: "same_graph s (put_tensor i t s)"
  by (rule same_graph_update) (simp_all add: put_tensor_def)


lemma kernel_frame_update:
  assumes "same_graph s s'" "graph_mode s' = graph_mode s" "plan_progress s' = plan_progress s"
  shows "kernel_frame s s'"
  using assms by (simp add: kernel_frame_def)

lemma kernel_same: "kernel_frame s s' \<Longrightarrow> same_graph s s'"
  by (simp add: kernel_frame_def)

lemma put_tensor_kernel [simp]: "kernel_frame s (put_tensor i t s)"
  by (rule kernel_frame_update [OF put_tensor_same])
     (simp_all add: put_tensor_def graph_mode_def graph_options_def plan_progress_def)

lemma heap_kernel [simp]: "kernel_frame s (s\<lparr>sg_heap := h\<rparr>)"
  by (rule kernel_frame_update) (simp_all add: same_graph_def graph_shape_def graph_mode_def graph_options_def plan_progress_def)

lemma put_tensor_heap_kernel [simp]: "kernel_frame s ((put_tensor i t s)\<lparr>sg_heap := h\<rparr>)"
  by (rule kernel_frame_trans [OF put_tensor_kernel heap_kernel])

lemma OpPrepare_frame: "kernels_ok K \<Longrightarrow> kernel_frame s (snd (OpPrepare K reg i s))"
  by (simp add: OpPrepare_def Let_def kernels_ok_def)

lemma OpInvoke_frame: "kernels_ok K \<Longrightarrow> kernel_frame s (snd (OpInvoke K reg i s))"
  by (simp add: OpInvoke_def Let_def kernels_ok_def)

lemma OpInit_frame: "kernels_ok K \<Longrightarrow> kernel_frame s (snd (OpInit K reg b n s))"
  by (simp add: OpInit_def Let_def kernels_ok_def)

lemma OpFree_frame: "kernels_ok K \<Longrightarrow> kernel_frame s (OpFree K reg b s)"
  by (simp add: OpFree_def Let_def kernels_ok_def)

lemma copy_handle_frame: "kernels_ok K \<Longrightarrow> kernel_frame s (snd (TfLiteDelegateCopyFromBufferHandleInternal K d i s))"
  by (simp add: TfLiteDelegateCopyFromBufferHandleInternal_def Let_def kernels_ok_def)

text \<open>What preparing changes besides: which tensor is dynamic.\<close>

lemma dynamic_kernel [simp]:
  "kernel_frame s (s\<lparr>sg_has_dynamic_tensors := b\<rparr>)" "kernel_frame s (s\<lparr>sg_dynamic_tensor_index := d\<rparr>)"
  "kernel_frame s (s\<lparr>sg_dynamic_tensor_index := d, sg_has_dynamic_tensors := b\<rparr>)"
  "kernel_frame s (s\<lparr>sg_tensor_resized_since_op_invoke := b\<rparr>)"
  "kernel_frame s (s\<lparr>sg_tensor_to_last_op_index := m\<rparr>)"
  by (rule kernel_frame_update; simp add: same_graph_def graph_shape_def graph_mode_def graph_options_def plan_progress_def)+

lemma prepare_loop_frame:
  assumes "kernels_ok K"
  shows "kernel_frame s (snd (snd (prepare_loop K plan ks prepared s)))"
proof (induction ks arbitrary: prepared s)
  case (Cons k ks)
  obtain st s1 where p: "OpPrepare K (sg_registration (plan ! nat k) s) (nat (plan ! nat k)) s = (st, s1)"
    by (cases "OpPrepare K (sg_registration (plan ! nat k) s) (nat (plan ! nat k)) s")
  have 1: "kernel_frame s s1" using OpPrepare_frame [OF assms, of s "sg_registration (plan ! nat k) s"] p by (metis snd_conv)
  then show ?case using p kernel_frame_trans [OF 1] Cons.IH
    by (auto simp: Let_def split: option.splits)
qed simp

lemma PrepareOpsStartingAt_frame:
  assumes "kernels_ok K"
  shows "kernel_frame s (snd (snd (PrepareOpsStartingAt K first plan prepared s)))"
proof -
  let ?s1 = "if first = 0
             then (case HasDynamicTensorImpl (sg_tensors s) (sg_outputs s) of
                 None \<Rightarrow> s\<lparr>sg_has_dynamic_tensors := False\<rparr>
               | Some d \<Rightarrow> s\<lparr>sg_has_dynamic_tensors := True, sg_dynamic_tensor_index := d\<rparr>) else s"
  have "kernel_frame s ?s1"
    using kernel_frame_trans [OF dynamic_kernel(1) dynamic_kernel(2)] by (simp split: option.splits)
  then show ?thesis unfolding PrepareOpsStartingAt_def Let_def
    using prepare_loop_frame [OF assms] kernel_frame_trans by blast
qed

section \<open>Planner operations keep the number of tensors\<close>

lemma write_data_length [simp]: "length (snd (write_data t r ts)) = length ts"
  by (auto simp: write_data_def split: prod.splits option.splits)

lemma ResolveTensorAllocation_length [simp]: "length (snd (ResolveTensorAllocation fuel p t ts)) = length ts"
  by (induction fuel p t ts rule: ResolveTensorAllocation.induct)
     (auto simp: Let_def resolve_own_def ensure_status_def split: prod.splits if_splits option.splits)

lemma ExecuteAllocations_length:
  "length (snd (snd (ExecuteAllocations srt m info a b p ts))) = length ts"
proof -
  have "length (snd (ensure_each (ResolveTensorAllocation f q) xs ts)) = length ts" for f q xs
    by (rule ensure_each_invariant) auto
  then show ?thesis by (simp add: ExecuteAllocations_def Let_def case_prod_unfold)
qed

lemma AcquireNonPersistentMemory_length: "length (snd (snd (AcquireNonPersistentMemory m p ts))) = length ts"
proof -
  have "length (snd (ensure_each (\<lambda>i ts. if t_allocation_type (ts ! i) = kTfLiteArenaRw
      then ResolveTensorAllocation f q (int i) ts else (kTfLiteOk, ts)) xs ts)) = length ts" for f q xs
    by (rule ensure_each_invariant) auto
  then show ?thesis by (simp add: AcquireNonPersistentMemory_def Let_def case_prod_unfold)
qed

lemma ReleaseNonPersistentMemory_length:
  "length (snd (snd (ReleaseNonPersistentMemory p ts))) = length ts"
  by (simp add: ReleaseNonPersistentMemory_def split: prod.split)

lemma ResetAllocationsAfter_length: "length (snd (snd (ResetAllocationsAfter n p ts))) = length ts"
proof -
  have "length (snd (fold (reset_alloc_after n) is (as, ts))) = length ts" for "is" as
    by (induction "is" arbitrary: as ts) (auto simp: reset_alloc_after_def)
  then show ?thesis by (simp add: ResetAllocationsAfter_def Let_def case_prod_unfold)
qed

section \<open>Frames of preparing, allocating and invoking\<close>

lemma alloc_frame_update:
  assumes "graph_shape s' = graph_shape s" "length (sg_tensors s) \<le> length (sg_tensors s')"
    "graph_options s' = graph_options s"
  shows "alloc_frame s s'"
  using assms by (simp add: alloc_frame_def same_graph_def)

lemma kernel_alloc: "kernel_frame s s' \<Longrightarrow> alloc_frame s s'"
  by (simp add: kernel_frame_def alloc_frame_def graph_mode_def)

lemma alloc_same: "alloc_frame s s' \<Longrightarrow> same_graph s s'"
  by (simp add: alloc_frame_def)

lemma alloc_updates [simp]:
  "alloc_frame s (s\<lparr>sg_state := x\<rparr>)"
  "alloc_frame s (s\<lparr>sg_memory_planner := p\<rparr>)"
  "alloc_frame s (s\<lparr>sg_next_execution_plan_index_to_prepare := a\<rparr>)"
  "alloc_frame s (s\<lparr>sg_next_execution_plan_index_to_plan_allocation := a\<rparr>)"
  "alloc_frame s (s\<lparr>sg_next_original_execution_plan_index_to_prepare := a\<rparr>)"
  "alloc_frame s (s\<lparr>sg_dynamic_tensor_index := d\<rparr>)"
  by (rule alloc_frame_update; simp add: graph_shape_def graph_options_def)+

lemma with_planner_frame:
  assumes "length (snd (snd (f p (sg_tensors s)))) = length (sg_tensors s)"
  shows "alloc_frame s (snd (with_planner s p f))"
  by (rule alloc_frame_update)
     (use assms in \<open>auto simp: with_planner_def graph_shape_def graph_options_def split: prod.splits\<close>)

lemma execute_plan_frame: "alloc_frame s (snd (execute_plan K n s))"
  using with_planner_frame [of _ _ s] ExecuteAllocations_length
  by (auto simp: execute_plan_def alloc.frame_refl split: option.splits)

lemma ensure_planner_frame: "alloc_frame s (ensure_planner s)"
  by (auto simp: ensure_planner_def alloc.frame_refl split: option.splits)

lemma prepare_original_plan_frame:
  assumes "kernels_ok K" shows "alloc_frame s (snd (prepare_original_plan K s))"
  unfolding prepare_original_plan_def
  using kernel_alloc [OF PrepareOpsStartingAt_frame [OF assms, of s]] alloc.frame_trans [OF _ alloc_updates(5)]
  by (auto simp: alloc.frame_refl split: prod.splits) (metis snd_conv)+

lemma verify_frame: "snd (verify_custom_outputs a b s) = s" "snd (verify_custom_inputs s) = s"
proof -
  have "snd (ensure_each (\<lambda>t s. if t = kTfLiteOptionalTensor then (kTfLiteOk, s)
      else (VerifyCustomAllocationForTensor t s, s)) ts s) = s" for ts
    by (rule ensure_each_invariant) auto
  then show "snd (verify_custom_outputs a b s) = s" "snd (verify_custom_inputs s) = s"
    by (simp_all add: verify_custom_outputs_def verify_custom_inputs_def)
qed

lemma PrepareOpsAndTensors_frame:
  assumes "kernels_ok K" shows "alloc_frame s (snd (PrepareOpsAndTensors K s))"
proof -
  have verify: "alloc_frame t (snd (ensure_status
      (if sg_custom_allocations t = [] then (kTfLiteOk, t)
       else ensure_status (verify_custom_outputs a b t) (\<lambda>s.
         if sg_next_execution_plan_index_to_plan_allocation s = 0 then verify_custom_inputs s else (kTfLiteOk, s)))
      (\<lambda>s. (kTfLiteOk, s\<lparr>sg_next_execution_plan_index_to_plan_allocation := c\<rparr>))))" for a b c t
    by (intro alloc.ensure_status_frame) (auto simp: alloc.frame_refl verify_frame intro!: alloc.ensure_status_frame)
  show ?thesis unfolding PrepareOpsAndTensors_def
  proof (intro alloc.ensure_status_frame prepare_original_plan_frame [OF assms])
    fix t
    obtain st prepared s1 where p: "PrepareOpsStartingAt K (sg_next_execution_plan_index_to_prepare t) (sg_execution_plan t) 0 t = (st, prepared, s1)"
      by (metis prod_cases3)
    have 1: "alloc_frame t s1"
      using kernel_alloc [OF PrepareOpsStartingAt_frame [OF assms, of t]] p by (metis snd_conv)
    have 2: "alloc_frame t (ensure_planner (s1\<lparr>sg_next_execution_plan_index_to_prepare := prepared + 1\<rparr>))"
      using 1 alloc.frame_trans alloc_updates(3) ensure_planner_frame by metis
    show "alloc_frame t (snd (case PrepareOpsStartingAt K (sg_next_execution_plan_index_to_prepare t) (sg_execution_plan t) 0 t of
       (st, prepared, s1) \<Rightarrow>
         if st \<noteq> kTfLiteOk then (st, s1)
         else
           ensure_status (execute_plan K prepared
             (ensure_planner (s1\<lparr>sg_next_execution_plan_index_to_prepare := prepared + 1\<rparr>))) (\<lambda>s.
           ensure_status
             (if sg_custom_allocations s = [] then (kTfLiteOk, s)
              else ensure_status (verify_custom_outputs (sg_next_execution_plan_index_to_plan_allocation s) prepared s) (\<lambda>s.
                   if sg_next_execution_plan_index_to_plan_allocation s = 0 then verify_custom_inputs s else (kTfLiteOk, s)))
             (\<lambda>s. (kTfLiteOk, s\<lparr>sg_next_execution_plan_index_to_plan_allocation := prepared + 1\<rparr>)))))"
      using p 1 alloc.ensure_status_frame [OF alloc.frame_trans [OF 2 execute_plan_frame] verify] by simp
  qed
qed

lemma ResetVariableTensors_frame: "alloc_frame s (snd (ResetVariableTensors s))"
proof -
  have "alloc_frame t (ResetVariableTensor x t)" for x t
    by (auto simp: ResetVariableTensor_def Let_def alloc.frame_refl split: option.split)
  then show ?thesis unfolding ResetVariableTensors_def
    by (intro alloc.ensure_each_frame) (auto simp: alloc.frame_refl)
qed

lemma InitializeTensorReleaseMap_frame: "kernel_frame s (InitializeTensorReleaseMap s)"
  unfolding InitializeTensorReleaseMap_def by (intro kernel.fold_frame) (auto simp: note_last_use_def)

lemma free_delegated_temporaries_frame: "kernel_frame s (free_delegated_temporaries s)"
proof -
  have "kernel_frame t (free_temporary i t)" for i t
    by (auto simp: free_temporary_def split: prod.split)
  then show ?thesis unfolding free_delegated_temporaries_def
    by (auto intro!: kernel.fold_frame)
qed

lemma acquire_memory_frame: "alloc_frame s (acquire_memory K s)"
  using with_planner_frame AcquireNonPersistentMemory_length
  by (auto simp: acquire_memory_def alloc.frame_refl split: option.split)

lemma verify_custom_allocation_id: "snd (ensure_each verify_custom_allocation xs s) = s"
  by (rule ensure_each_invariant) (auto simp: verify_custom_allocation_def split: prod.split)

lemma reset_planner_frame: "alloc_frame s (snd (reset_planner s))"
  by (auto simp: reset_planner_def alloc.frame_refl split: option.split prod.split)

lemma finish_allocation_frame:
  "alloc_frame s (free_delegated_temporaries (InitializeTensorReleaseMap
     (snd (ResetVariableTensors (s\<lparr>sg_state := kStateInvokable\<rparr>)))))"
  using alloc.frame_trans [OF alloc.frame_trans [OF alloc_updates(1) ResetVariableTensors_frame]
      kernel_alloc [OF kernel_frame_trans [OF InitializeTensorReleaseMap_frame free_delegated_temporaries_frame]]]
  by blast

lemma allocate_prepared_frame:
  assumes "kernels_ok K" shows "alloc_frame s (snd (allocate_prepared K s))"
proof -
  define t where "t = (case (if sg_state s \<noteq> kStateUninvokable then HasDynamicTensorImpl (sg_tensors s) (sg_inputs s)
      else None) of None \<Rightarrow> s | Some d \<Rightarrow> s\<lparr>sg_dynamic_tensor_index := d\<rparr>)"
  have t: "alloc_frame s t" by (simp add: t_def alloc.frame_refl split: option.split)
  let ?u = "t\<lparr>sg_next_execution_plan_index_to_prepare := 0, sg_next_execution_plan_index_to_plan_allocation := 0,
      sg_next_original_execution_plan_index_to_prepare := 0\<rparr>"
  have u: "alloc_frame t ?u" by (rule alloc_frame_update) (simp_all add: graph_shape_def graph_options_def)
  have "alloc_frame s (snd (ensure_status (reset_planner ?u) (\<lambda>s. ensure_status (PrepareOpsAndTensors K s) (\<lambda>s.
           (kTfLiteOk, free_delegated_temporaries (InitializeTensorReleaseMap
              (snd (ResetVariableTensors (s\<lparr>sg_state := kStateInvokable\<rparr>)))))))))"
    by (intro alloc.ensure_status_frame alloc.frame_trans [OF alloc.frame_trans [OF t u]] reset_planner_frame
        PrepareOpsAndTensors_frame [OF assms]) (simp add: finish_allocation_frame)
  then show ?thesis
    using alloc.frame_trans [OF t acquire_memory_frame [of t K]] acquire_memory_frame [of s K]
    by (simp add: allocate_prepared_def Let_def t_def [symmetric] verify_custom_allocation_id)
qed

lemma EnsureTensorDataIsReadable_frame: "kernels_ok K \<Longrightarrow> kernel_frame s (snd (EnsureTensorDataIsReadable K i s))"
  using copy_handle_frame [of K s "t_delegate (sg_tensors s ! nat i)" i] kernel_frame_trans
  by (fastforce simp: EnsureTensorDataIsReadable_def Let_def case_prod_unfold)

lemma check_node_input_frame: "kernels_ok K \<Longrightarrow> kernel_frame s (snd (check_node_input K n k s))"
  unfolding check_node_input_def Let_def
  by (auto intro!: kernel.ensure_status_frame EnsureTensorDataIsReadable_frame)

lemma MayAllocateOpOutput_frame: "kernel_frame s (snd (MayAllocateOpOutput K n s))"
  unfolding MayAllocateOpOutput_def
  by (auto intro!: kernel.fold_frame simp: may_allocate_output_def Let_def split: prod.split)

lemma invoke_kernel_frame: "kernels_ok K \<Longrightarrow> kernel_frame s (snd (invoke_kernel K n s))"
  by (simp add: invoke_kernel_def case_prod_unfold kernel_frame_trans [OF dynamic_kernel(4) OpInvoke_frame])

lemma replan_after_frame: "alloc_frame s (snd (replan_after k n s))"
proof -
  have a: "alloc_frame t (snd (with_planner t p (ResetAllocationsAfter j)))" for t p j
    by (rule with_planner_frame) (rule ResetAllocationsAfter_length)
  have b: "alloc_frame t (t\<lparr>sg_next_execution_plan_index_to_prepare := x, sg_next_execution_plan_index_to_plan_allocation := y\<rparr>)" for t x y
    by (rule alloc_frame_update) (simp_all add: graph_shape_def graph_options_def)
  show ?thesis using alloc.frame_trans [OF b a]
    by (auto simp: replan_after_def Let_def alloc.frame_refl b split: option.split)
qed

lemma MaybeReleaseDynamicTensors_frame: "kernel_frame s (MaybeReleaseDynamicTensors n s)"
proof -
  have "kernel_frame t (may_release_tensor n i t)" for i t
    by (auto simp: may_release_tensor_def split: prod.split option.split)
  then show ?thesis by (simp add: MaybeReleaseDynamicTensors_def kernel.fold_frame del: fold_append)
qed

lemma check_cancellation_same: "same_graph s (snd (check_cancellation K s))"
  by (auto simp: check_cancellation_def intro!: same_graph_update split: option.split)

lemma invoke_node_same:
  assumes "kernels_ok K" shows "same_graph s (snd (invoke_node K k s))"
proof -
  note fr = alloc_same [OF PrepareOpsAndTensors_frame [OF assms]] kernel_same [OF check_node_input_frame [OF assms]]
    kernel_same [OF MayAllocateOpOutput_frame] check_cancellation_same kernel_same [OF invoke_kernel_frame [OF assms]]
    alloc_same [OF replan_after_frame] kernel_same [OF MaybeReleaseDynamicTensors_frame]
  show ?thesis unfolding invoke_node_def Let_def
    by (intro same.ensure_status_frame) (auto intro!: fr same.ensure_status_frame same.ensure_each_frame)
qed

lemma Invoke_same: "kernels_ok K \<Longrightarrow> same_graph s (snd (Invoke K s))"
  by (auto simp: Invoke_def intro!: same.ensure_each_frame invoke_node_same)

section \<open>The other operations\<close>

lemma SetTensorParametersReadOnly_same:
  "same_graph s (snd (SetTensorParametersReadOnly i type name dims q buffer bytes a sp bid eid s))"
proof -
  have n: "same_graph t (note_external_buffer i eid t)" for t
    by (simp add: note_external_buffer_def same_graph_def graph_shape_def)
  have b: "same_graph t (if c then t\<lparr>sg_tensor_buffer_identifiers := m\<rparr> else t)" for t c m
    by (simp add: same_graph_def graph_shape_def)
  have p: "same_graph t ((put_tensor j x t)\<lparr>sg_heap := h\<rparr>)"
    "same_graph t ((put_tensor j x t)\<lparr>sg_heap := h, sg_state := st\<rparr>)" for t j x h st
    by (simp_all add: put_tensor_def same_graph_def graph_shape_def)
  have c: "same_graph t (if c then (put_tensor j x t)\<lparr>sg_heap := h\<rparr> else (put_tensor k y t)\<lparr>sg_heap := h', sg_state := st\<rparr>)"
    for c t j x h k y h' st using p by simp
  have i: "same_graph t (snd (if c then x else y))" if "same_graph t (snd x)" "same_graph t (snd y)"
    for t c and x y :: "TfLiteStatus \<times> Subgraph" using that by simp
  have e: "same_graph t (snd (kTfLiteError, t))" for t by simp
  have k: "same_graph t (snd (kTfLiteOk, u))" if "same_graph t u" for t u using that by simp
  show ?thesis unfolding SetTensorParametersReadOnly_def Let_def case_prod_unfold
    by (intro i e k same_graph_trans [OF same_graph_trans [OF c b] n])
qed

lemma SetTensorParametersReadWrite_same:
  "same_graph s (snd (SetTensorParametersReadWrite i type name dims q v sig eid s))"
  by (simp add: SetTensorParametersReadWrite_def Let_def note_external_buffer_def put_tensor_def same_graph_def
      graph_shape_def case_prod_unfold split: option.split)

lemma resize_same: "same_graph s (snd (ResizeTensorImpl K i dims s))"
  by (auto simp: ResizeTensorImpl_def Let_def put_tensor_def intro!: same_graph_update split: prod.split option.split)

lemma SetCustomAllocationForTensor_same: "same_graph s (snd (SetCustomAllocationForTensor i a b s))"
  by (auto simp: SetCustomAllocationForTensor_def Let_def put_tensor_def intro!: same_graph_update)

lemma release_same:
  "same_graph s (snd (sg_ReleaseNonPersistentMemory s))" "same_graph s (snd (ReleaseMemory s))"
proof -
  have w: "same_graph t (snd (with_planner t p ReleaseNonPersistentMemory))" for t p
    by (rule alloc_same [OF with_planner_frame]) (rule ReleaseNonPersistentMemory_length)
  have u: "same_graph t (t\<lparr>sg_state := x\<rparr>)" for t x by (rule alloc_same) simp
  have r: "same_graph t (snd (sg_ReleaseNonPersistentMemory t))" for t
    unfolding sg_ReleaseNonPersistentMemory_def Let_def
    by (auto intro!: u same.ensure_status_frame same_graph_trans [OF u w] split: option.split)
  have f: "same_graph t (free_dynamic_tensor i t)" for i t
    by (auto simp: free_dynamic_tensor_def split: option.split prod.split intro: kernel_same)
  have ff: "same_graph t (fold free_dynamic_tensor xs t)" for xs t by (rule same.fold_frame) (rule f)
  show "same_graph s (snd (sg_ReleaseNonPersistentMemory s))" by (rule r)
  show "same_graph s (snd (ReleaseMemory s))"
    unfolding ReleaseMemory_def Let_def snd_conv
    by (intro same_graph_trans [OF same_graph_trans [OF u r] same_graph_trans [OF ff ff]])
qed

lemma cancel_same: "same_graph s (snd (Cancel s))" "same_graph s (snd (EnableCancellation b s))"
  by (auto simp: Cancel_def EnableCancellation_def intro!: same_graph_update split: option.split)

lemma index_setters_wf:
  assumes "sg_wf s"
  shows "sg_wf (snd (SetInputs xs s))" "sg_wf (snd (SetOutputs xs s))" "sg_wf (snd (SetVariables xs s))"
proof -
  have "list_all (\<lambda>i. i = kTfLiteOptionalTensor \<or> \<not> (i < 0 \<or> nat i \<ge> length (sg_tensors s))) xs \<Longrightarrow>
      \<forall>i\<in>set xs. tensor_ok (length (sg_tensors s)) i"
    by (auto simp: list_all_iff tensor_ok_def)
  then show "sg_wf (snd (SetInputs xs s))" "sg_wf (snd (SetOutputs xs s))" "sg_wf (snd (SetVariables xs s))"
    using assms by (auto simp: SetInputs_def SetOutputs_def SetVariables_def CheckTensorIndices_def ensure_status_def sg_wf_def)
qed

lemma AddTensors_same: "same_graph s (snd (snd (AddTensors n s)))"
  by (auto simp: AddTensors_def Let_def intro!: same_graph_update)

lemma SetExecutionPlan_wf: "sg_wf s \<Longrightarrow> sg_wf (snd (SetExecutionPlan p s))"
  by (auto simp: SetExecutionPlan_def sg_wf_def list_all_iff nat_less_iff)

lemma remove_unused_props:
  "remove_unused c xs ts = (ys, ts') \<Longrightarrow>
     length ts' = length ts \<and> set ys \<subseteq> insert kTfLiteOptionalTensor (set xs)"
  by (induction c xs ts arbitrary: ys ts' rule: remove_unused.induct) (auto split: if_splits prod.splits)

lemma RemoveUnusedInputs_wf: "sg_wf s \<Longrightarrow> sg_wf (snd (RemoveUnusedInputs s))"
proof -
  assume wf: "sg_wf s"
  obtain ys ts where r: "remove_unused (GetInputTensorsCount s) (sg_inputs s) (sg_tensors s) = (ys, ts)" by (cases "remove_unused (GetInputTensorsCount s) (sg_inputs s) (sg_tensors s)")
  have "tensor_ok n kTfLiteOptionalTensor" for n by (simp add: tensor_ok_def)
  then show "sg_wf (snd (RemoveUnusedInputs s))" using wf remove_unused_props [OF r] r
    by (auto simp: RemoveUnusedInputs_def sg_wf_def)
qed

lemma sg_wf_put_node:
  assumes "sg_wf s" and "\<forall>i\<in>set (nd_inputs node) \<union> set (nd_outputs node). tensor_ok (length (sg_tensors s)) i"
  shows "sg_wf (put_node i node s)"
proof -
  have "x \<in> set ((sg_nodes_and_registration s)[nat i := (node, sg_registration i s)]) \<Longrightarrow>
      x = (node, sg_registration i s) \<or> x \<in> set (sg_nodes_and_registration s)" for x
    using set_update_subset_insert [of "sg_nodes_and_registration s" "nat i"] by blast
  then show ?thesis using assms by (fastforce simp: sg_wf_def put_node_def)
qed

lemma checks_ok:
  assumes "CheckTensorIndices xs s = (kTfLiteOk, t)"
  shows "t = s" "\<forall>i\<in>set xs. tensor_ok (length (sg_tensors s)) i"
  using assms by (auto simp: CheckTensorIndices_def list_all_iff tensor_ok_def split: if_splits)

lemma check_wf:
  "sg_wf (snd (CheckTensorIndices xs s)) = sg_wf s" "sg_wf (snd (CheckInputAndOutputForOverlap xs ys s)) = sg_wf s"
  by (auto simp: CheckTensorIndices_def CheckInputAndOutputForOverlap_def sg_wf_def)

lemma add_node_wf:
  assumes "kernels_ok K" and "sg_wf s"
    and "\<forall>i\<in>set inputs \<union> set outputs. tensor_ok (length (sg_tensors s)) i"
  shows "sg_wf (snd (snd (add_node K inputs outputs mids d n b reg s)))"
proof -
  let ?n = "length (sg_nodes_and_registration s)"
  let ?node = "empty_node\<lparr>nd_inputs := inputs, nd_outputs := outputs, nd_intermediates := mids\<rparr>"
  let ?s1 = "s\<lparr>sg_nodes_and_registration := sg_nodes_and_registration s @ [(?node, empty_registration)]\<rparr>"
  obtain ud s2 where init: "(if d \<noteq> 0 then OpInit K reg d n ?s1 else OpInit K reg b 0 ?s1) = (ud, s2)"
    by (cases "if d \<noteq> 0 then OpInit K reg d n ?s1 else OpInit K reg b 0 ?s1")
  have fr: "same_graph ?s1 s2"
    using init kernel_same [OF OpInit_frame [OF assms(1)], of ?s1] by (metis snd_conv)
  have wf1: "sg_wf ?s1" using assms(2,3) by (simp add: sg_wf_def ball_Un empty_node_def) fastforce
  have wf2: "sg_wf s2" by (rule same_graph_wf [OF fr wf1])
  have len: "length (sg_nodes_and_registration s2) = Suc ?n" using same_graph_nodes(1) [OF fr] by simp
  have "sg_node (int ?n) s2 \<in> fst ` set (sg_nodes_and_registration s2)"
    using len by (auto simp: sg_node_def)
  then have ok: "\<forall>i\<in>set (nd_inputs (sg_node (int ?n) s2)) \<union> set (nd_outputs (sg_node (int ?n) s2)).
      tensor_ok (length (sg_tensors s2)) i"
    using wf2 by (auto simp: sg_wf_def)
  have e: "sg_wf (put_node (int ?n) empty_node s2)"
    by (rule sg_wf_put_node [OF wf2]) (simp add: empty_node_def)
  have p: "sg_wf (s2\<lparr>sg_nodes_and_registration := (sg_nodes_and_registration s2)[nat (int ?n) := (node, reg)],
        sg_execution_plan := sg_execution_plan s2 @ [int ?n]\<rparr>)"
    if "nd_inputs node = nd_inputs (sg_node (int ?n) s2)" "nd_outputs node = nd_outputs (sg_node (int ?n) s2)" for node
  proof -
    have "x \<in> set ((sg_nodes_and_registration s2)[?n := (node, reg)]) \<Longrightarrow>
      x = (node, reg) \<or> x \<in> set (sg_nodes_and_registration s2)" for x
      using set_update_subset_insert [of "sg_nodes_and_registration s2" "?n"] by blast
    then show ?thesis using wf2 ok that len by (simp add: sg_wf_def ball_Un) (metis fst_conv)
  qed
  show ?thesis unfolding add_node_def Let_def init prod.case using e p by simp
qed

lemma AddNodeWithParameters_wf:
  assumes "kernels_ok K" and "sg_wf s"
  shows "sg_wf (snd (snd (AddNodeWithParameters K inputs outputs mids d n b reg s)))"
proof (cases "sg_state s = kStateInvokableAndImmutable")
  case False
  let ?s0 = "s\<lparr>sg_state := kStateUninvokable\<rparr>"
  obtain st s1 where c: "ensure_status (CheckTensorIndices inputs ?s0) (\<lambda>s. ensure_status (CheckTensorIndices outputs s) (\<lambda>s.
      if b \<noteq> 0 then CheckInputAndOutputForOverlap inputs outputs s else (kTfLiteOk, s))) = (st, s1)" (is "?c = _")
    by (cases ?c)
  have wf0: "sg_wf ?s0" using assms(2) by (simp add: sg_wf_def)
  have wf1: "sg_wf s1" using c wf0 check_wf
    by (auto simp: ensure_status_def split: prod.splits if_splits) (metis snd_conv)+
  have "sg_wf (snd (snd (add_node K inputs outputs mids d n b reg s1)))" if ok: "st = kTfLiteOk"
  proof (rule add_node_wf [OF assms(1) wf1])
    from c ok obtain t where 1: "CheckTensorIndices inputs ?s0 = (kTfLiteOk, t)" and
      "ensure_status (CheckTensorIndices outputs t) (\<lambda>s.
        if b \<noteq> 0 then CheckInputAndOutputForOverlap inputs outputs s else (kTfLiteOk, s)) = (kTfLiteOk, s1)"
      by (auto elim: ensure_status_OkD)
    then obtain u where 2: "CheckTensorIndices outputs t = (kTfLiteOk, u)" and
      3: "(if b \<noteq> 0 then CheckInputAndOutputForOverlap inputs outputs u else (kTfLiteOk, u)) = (kTfLiteOk, s1)"
      by (auto elim: ensure_status_OkD)
    have "s1 = u" using 3 by (auto simp: CheckInputAndOutputForOverlap_def split: if_splits)
    then show "\<forall>i\<in>set inputs \<union> set outputs. tensor_ok (length (sg_tensors s1)) i"
      using checks_ok [OF 1] checks_ok [OF 2] by auto
  qed
  then show ?thesis using wf1 False c by (simp add: AddNodeWithParameters_def case_prod_unfold Let_def)
qed (simp add: AddNodeWithParameters_def assms)

section \<open>Delegation keeps indices valid\<close>

definition delegates_ok :: "runtime \<Rightarrow> bool" where
  "delegates_ok K \<longleftrightarrow> (\<forall>f d s. sg_wf s \<longrightarrow> sg_wf (snd (rt_delegate_prepare K f d s)))"

definition keeps_wf :: "Subgraph \<Rightarrow> Subgraph \<Rightarrow> bool" where
  "keeps_wf s t \<longleftrightarrow> (sg_wf s \<longrightarrow> sg_wf t)"

interpretation wf: frame keeps_wf
  by unfold_locales (auto simp: keeps_wf_def)

context frame
begin

definition runs :: "'s \<Rightarrow> (TfLiteStatus \<times> 's) option \<Rightarrow> bool" where
  "runs s r \<longleftrightarrow> (\<forall>st t. r = Some (st, t) \<longrightarrow> R s t)"

lemma runs_Some: "R s (snd x) \<Longrightarrow> runs s (Some x)"
  by (auto simp: runs_def)

lemma run_status_runs: "runs s r \<Longrightarrow> (\<And>t. runs t (f t)) \<Longrightarrow> runs s (run_status r f)"
  by (auto simp: runs_def run_status_def split: option.splits if_splits intro: frame_trans)

lemma runs_if: "(c \<Longrightarrow> runs s x) \<Longrightarrow> (\<not> c \<Longrightarrow> runs s y) \<Longrightarrow> runs s (if c then x else y)"
  by simp

lemma runs_ret: "runs s (Some (st, s))"
  by (simp add: runs_def frame_refl)

lemma run_each_runs: "(\<And>x t. runs t (f x t)) \<Longrightarrow> runs s (run_each f xs s)"
proof (induction xs arbitrary: s)
  case (Cons x xs)
  then show ?case by (simp add: run_status_runs)
qed (simp add: runs_def frame_refl)

end

lemma same_keeps: "same_graph s t \<Longrightarrow> keeps_wf s t"
  by (simp add: keeps_wf_def same_graph_wf)

lemma put_node_same:
  assumes "nat i < length (sg_nodes_and_registration s)"
    and "nd_inputs node = nd_inputs (sg_node i s)" "nd_outputs node = nd_outputs (sg_node i s)"
    "nd_delegate node = nd_delegate (sg_node i s)"
  shows "same_graph s (put_node i node s)"
  using assms map_update_same [of node_shape "(node, sg_registration i s)" "sg_nodes_and_registration s" "nat i"]
  by (simp add: same_graph_def graph_shape_def put_node_def node_shape_def sg_node_def sg_registration_def)

lemma CleanupNode_wf:
  assumes "kernels_ok K" shows "keeps_wf s (CleanupNode K i s)"
proof -
  let ?node = "sg_node i s"
  define s1 where "s1 = put_node i (?node\<lparr>nd_inputs := [], nd_outputs := [], nd_temporaries := [], nd_intermediates := []\<rparr>) s"
  define s2 where "s2 = (if nd_builtin_data ?node \<noteq> 0
      then s1\<lparr>sg_delegate_params := (sg_delegate_params s1)(nd_builtin_data ?node := None)\<rparr> else s1)"
  define s3 where "s3 = OpFree K (sg_registration i s) (nd_user_data ?node) s2"
  have 1: "keeps_wf s s1" unfolding s1_def keeps_wf_def by (auto intro: sg_wf_put_node)
  have 2: "same_graph s1 s2" unfolding s2_def by (simp add: same_graph_def graph_shape_def)
  have 3: "same_graph s2 s3" unfolding s3_def by (rule kernel_same [OF OpFree_frame [OF assms]])
  have 4: "keeps_wf s3 (put_node i ((sg_node i s3)\<lparr>nd_user_data := 0, nd_builtin_data := 0\<rparr>) s3)"
  proof (cases "nat i < length (sg_nodes_and_registration s3)")
    case True
    then show ?thesis by (intro same_keeps put_node_same) simp_all
  next
    case False
    then show ?thesis by (simp add: put_node_def list_update_beyond keeps_wf_def sg_wf_def)
  qed
  show ?thesis
    unfolding CleanupNode_def Let_def s1_def [symmetric] s2_def [symmetric] s3_def [symmetric]
    by (rule wf.frame_trans [OF 1 wf.frame_trans [OF same_keeps [OF 2] wf.frame_trans [OF same_keeps [OF 3] 4]]])
qed

text \<open>The map from half-precision constants to their dequantized copies has valid entries.\<close>

lemma fp16_map_ok:
  assumes "sg_wf s" and "set is \<subseteq> set (sg_execution_plan s)" and "\<forall>x\<in>set m. tensor_ok (length (sg_tensors s)) x"
  shows "length (fold (fp16_entry s) is m) = length m \<and> (\<forall>x\<in>set (fold (fp16_entry s) is m). tensor_ok (length (sg_tensors s)) x)"
  using assms(2,3)
proof (induction "is" arbitrary: m)
  case (Cons i "is")
  have "i \<in> set (sg_execution_plan s)" using Cons.prems by simp
  then have "sg_node i s \<in> fst ` set (sg_nodes_and_registration s)"
    using assms(1) unfolding sg_wf_def sg_node_def by (metis UnI1 imageI nat_less_iff nth_mem)
  then have out: "\<forall>t\<in>set (nd_outputs (sg_node i s)). tensor_ok (length (sg_tensors s)) t"
    using assms(1) by (auto simp: sg_wf_def)
  have "\<forall>x\<in>set (m[j := nd_outputs (sg_node i s) ! 0]). tensor_ok (length (sg_tensors s)) x"
    if "length (nd_outputs (sg_node i s)) = 1" for j
  proof -
    have "tensor_ok (length (sg_tensors s)) (nd_outputs (sg_node i s) ! 0)" using that out by simp
    then show ?thesis
      using list_all_update [of "tensor_ok (length (sg_tensors s))" m] Cons.prems(2) by (simp add: list_all_iff)
  qed
  then have "length (fp16_entry s i m) = length m \<and> (\<forall>x\<in>set (fp16_entry s i m). tensor_ok (length (sg_tensors s)) x)"
    using Cons.prems(2) by (simp add: fp16_entry_def Let_def)
  then show ?case using Cons.IH [of "fp16_entry s i m"] Cons.prems(1) by simp
qed simp

lemma remap_node_wf:
  assumes "sg_wf s" and "length m = length (sg_tensors s)" and "\<forall>x\<in>set m. tensor_ok (length (sg_tensors s)) x"
    and "0 \<le> i" "i < int (length (sg_nodes_and_registration s))"
  shows "sg_wf (remap_node m i s)"
proof (cases "rg_builtin_code (sg_registration i s) = kTfLiteBuiltinDequantize")
  case False
  have "sg_node i s \<in> fst ` set (sg_nodes_and_registration s)" using assms(4,5) by (auto simp: sg_node_def nat_less_iff)
  then have ok: "\<forall>t\<in>set (nd_inputs (sg_node i s)) \<union> set (nd_outputs (sg_node i s)). tensor_ok (length (sg_tensors s)) t"
    using assms(1) by (auto simp: sg_wf_def)
  have "tensor_ok (length (sg_tensors s)) (remap_input s m t)" if "tensor_ok (length (sg_tensors s)) t" for t
    using that assms(2,3) by (auto simp: remap_input_def tensor_ok_def nat_less_iff)
  then show ?thesis using ok False by (auto simp: remap_node_def intro!: sg_wf_put_node [OF assms(1)])
qed (simp add: remap_node_def assms(1))

lemma remap_node_frame:
  "sg_execution_plan (remap_node m i s) = sg_execution_plan s" "sg_tensors (remap_node m i s) = sg_tensors s"
  "length (sg_nodes_and_registration (remap_node m i s)) = length (sg_nodes_and_registration s)"
  "sg_pre_delegation_execution_plan (remap_node m i s) = sg_pre_delegation_execution_plan s"
  by (simp_all add: remap_node_def put_node_def)

lemma fold_remap_wf:
  assumes "sg_wf s" and "length m = length (sg_tensors s)" and "\<forall>x\<in>set m. tensor_ok (length (sg_tensors s)) x"
    and "\<forall>i\<in>set is. 0 \<le> i \<and> i < int (length (sg_nodes_and_registration s))"
  shows "sg_wf (fold (remap_node m) is s) \<and> sg_execution_plan (fold (remap_node m) is s) = sg_execution_plan s \<and>
    sg_pre_delegation_execution_plan (fold (remap_node m) is s) = sg_pre_delegation_execution_plan s"
  using assms
proof (induction "is" arbitrary: s)
  case (Cons i "is")
  have "sg_wf (remap_node m i s)" using Cons.prems by (intro remap_node_wf) auto
  then show ?case using Cons.IH [of "remap_node m i s"] Cons.prems by (simp add: remap_node_frame)
qed simp

lemma fold_max_bound: "(x::int) \<in> set xs \<Longrightarrow> x \<le> fold max xs a" "a \<le> fold max xs (a::int)"
  by (induction xs arbitrary: a) (auto intro: order_trans [OF max.cobounded2] order_trans [OF max.cobounded1] simp: max.commute)

lemma take_nodes_wf:
  assumes "sg_wf s" and "sg_pre_delegation_execution_plan s = []"
    and "\<forall>i\<in>set (sg_execution_plan s). i < int (length (take n (sg_nodes_and_registration s)))"
  shows "sg_wf (s\<lparr>sg_nodes_and_registration := take n (sg_nodes_and_registration s), sg_is_delegation_skippable := b,
    sg_state := x, sg_delegates_undone := c\<rparr>)"
proof -
  have "\<forall>x\<in>set (take n (sg_nodes_and_registration s)). \<forall>i\<in>set (nd_inputs (fst x)) \<union> set (nd_outputs (fst x)).
      tensor_ok (length (sg_tensors s)) i"
    using assms(1) unfolding sg_wf_def by (blast dest: in_set_takeD)
  then show ?thesis using assms by (simp add: sg_wf_def ball_Un)
qed

lemma UndoAllDelegates_wf:
  assumes "kernels_ok K" shows "keeps_wf s (snd (UndoAllDelegates K s))"
proof (cases "sg_pre_delegation_execution_plan s = []")
  case False
  define s1 where "s1 = fold (\<lambda>i s. if nd_delegate (sg_node i s) = 0 then s else CleanupNode K i s) (sg_execution_plan s) s"
  define s2 where "s2 = s1\<lparr>sg_execution_plan := sg_pre_delegation_execution_plan s1, sg_pre_delegation_execution_plan := []\<rparr>"
  define m where "m = fold (fp16_entry s2) (sg_execution_plan s2) (map int [0..<length (sg_tensors s2)])"
  define s3 where "s3 = fold (remap_node m) (sg_execution_plan s2) s2"
  have "sg_wf s3 \<and> sg_pre_delegation_execution_plan s3 = []" if wf: "sg_wf s"
  proof -
    have "keeps_wf s s1" unfolding s1_def by (rule wf.fold_frame) (simp add: wf.frame_refl CleanupNode_wf [OF assms])
    then have wf2: "sg_wf s2" using wf by (auto simp: keeps_wf_def s2_def sg_wf_def)
    have m: "length m = length (sg_tensors s2) \<and> (\<forall>x\<in>set m. tensor_ok (length (sg_tensors s2)) x)"
      unfolding m_def using fp16_map_ok [OF wf2 subset_refl, of "map int [0..<length (sg_tensors s2)]"]
      by (auto simp: tensor_ok_def)
    have "\<forall>i\<in>set (sg_execution_plan s2). 0 \<le> i \<and> i < int (length (sg_nodes_and_registration s2))"
      using wf2 by (auto simp: sg_wf_def)
    then show ?thesis unfolding s3_def using fold_remap_wf [OF wf2, of m "sg_execution_plan s2"] m
      by (simp add: s2_def)
  qed
  moreover have "i < int (length (take (nat (fold max (sg_execution_plan s3) 0 + 1)) (sg_nodes_and_registration s3)))"
    if i: "i \<in> set (sg_execution_plan s3)" and "sg_wf s3" for i
  proof -
    have "i < int (length (sg_nodes_and_registration s3))" using that by (auto simp: sg_wf_def)
    moreover have "i \<le> fold max (sg_execution_plan s3) 0" by (rule fold_max_bound(1) [OF i])
    ultimately show ?thesis using fold_max_bound(2) [of 0 "sg_execution_plan s3"] by simp
  qed
  ultimately show ?thesis using False
    unfolding UndoAllDelegates_def Let_def s1_def [symmetric] s2_def [symmetric] m_def [symmetric] s3_def [symmetric]
    by (simp add: keeps_wf_def take_nodes_wf del: length_take)
qed (simp add: UndoAllDelegates_def wf.frame_refl)

lemma plan_again_same: "alloc_frame s (snd (plan_again s))"
  by (rule alloc_frame_update)
     (auto simp: plan_again_def graph_shape_def graph_options_def split: option.split prod.split)

lemma mode_updates_wf [simp]:
  "keeps_wf s (s\<lparr>sg_state := x\<rparr>)" "keeps_wf s (s\<lparr>sg_delegates_applied := ds\<rparr>)"
  "keeps_wf s (s\<lparr>sg_delegates_applied := ds, sg_delegates_undone := b\<rparr>)"
  "keeps_wf s (s\<lparr>sg_delegates_undone := b, sg_delegates_applied := ds\<rparr>)"
  by (simp_all add: keeps_wf_def sg_wf_def)

lemma prepare_delegate_wf:
  assumes "delegates_ok K" shows "keeps_wf s (snd (prepare_delegate K d s))"
proof -
  have "sg_wf s \<Longrightarrow> sg_wf (s\<lparr>sg_pre_delegation_execution_plan := sg_execution_plan s\<rparr>)" by (simp add: sg_wf_def)
  moreover have "sg_wf t \<Longrightarrow> sg_wf (snd (SwitchToDelegateContext t))" "sg_wf t \<Longrightarrow> sg_wf (snd (SwitchToKernelContext t))" for t
    by (simp_all add: SwitchToDelegateContext_def SwitchToKernelContext_def FreeDelegatePartitioningData_def Let_def sg_wf_def)
  moreover have "sg_wf t \<Longrightarrow> sg_wf (snd (TfLiteDelegatePrepareInternal K d t))" for t
    using assms by (simp add: TfLiteDelegatePrepareInternal_def delegates_ok_def)
  ultimately show ?thesis by (simp add: prepare_delegate_def Let_def case_prod_unfold keeps_wf_def)
qed

text \<open>With any \<open>redo\<close> that keeps the indices valid, so do allocating and applying a delegate.\<close>

definition redo_ok :: "redo \<Rightarrow> bool" where
  "redo_ok redo \<longleftrightarrow> (\<forall>s. wf.runs s (redo s))"

lemma runs_trans: "keeps_wf s t \<Longrightarrow> wf.runs t r \<Longrightarrow> wf.runs s r"
  unfolding wf.runs_def using wf.frame_trans by blast

lemma allocate_tensors_runs: "redo_ok redo \<Longrightarrow> kernels_ok K \<Longrightarrow> wf.runs s (allocate_tensors redo K s)"
  unfolding allocate_tensors_def redo_ok_def
  by (auto intro!: wf.run_status_runs wf.runs_Some same_keeps [OF alloc_same [OF allocate_prepared_frame]] simp: wf.frame_refl)

lemma ensure_memory_allocations_runs:
  "redo_ok redo \<Longrightarrow> kernels_ok K \<Longrightarrow> wf.runs s (ensure_memory_allocations redo K s)"
  unfolding ensure_memory_allocations_def
  by (intro wf.run_status_runs allocate_tensors_runs wf.runs_Some same_keeps [OF alloc_same [OF plan_again_same]])
     (simp_all add: wf.frame_refl)

lemma remove_all_delegates_runs: "redo_ok redo \<Longrightarrow> kernels_ok K \<Longrightarrow> wf.runs s (remove_all_delegates redo K s)"
  unfolding remove_all_delegates_def
  by (intro wf.run_status_runs wf.runs_Some UndoAllDelegates_wf
      runs_trans [OF mode_updates_wf(3) ensure_memory_allocations_runs]) (simp_all add: wf.frame_refl)

lemma reset_delegation_runs:
  assumes "redo_ok redo" and "kernels_ok K" and r: "wf.runs s r"
  shows "wf.runs s (reset_delegation_if_not_ok redo K r)"
proof -
  have "wf.runs t (run_status (remove_all_delegates redo K t) (\<lambda>s. Some (kTfLiteDelegateError, s)))" for t
    by (intro wf.run_status_runs remove_all_delegates_runs [OF assms(1,2)] wf.runs_Some) (simp add: wf.frame_refl)
  then have "keeps_wf s t \<Longrightarrow> wf.runs s (run_status (remove_all_delegates redo K t) (\<lambda>s. Some (kTfLiteDelegateError, s)))" for t
    using runs_trans by blast
  then show ?thesis using r
    by (cases r) (auto simp: reset_delegation_if_not_ok_def wf.runs_def split: if_splits)
qed

lemma prepare_from_start_runs:
  assumes "kernels_ok K" and "\<And>st t. same_graph s t \<Longrightarrow> wf.runs t (f st t)"
  shows "wf.runs s (case PrepareOpsStartingAt K 0 (sg_execution_plan s) 0 s of (st, _, s1) \<Rightarrow> f st s1)"
proof -
  obtain st n s1 where p: "PrepareOpsStartingAt K 0 (sg_execution_plan s) 0 s = (st, n, s1)" by (metis prod_cases3)
  have "same_graph s s1"
    using kernel_same [OF PrepareOpsStartingAt_frame [OF assms(1), of s 0 "sg_execution_plan s" 0]] p by simp
  then show ?thesis using p runs_trans [OF same_keeps assms(2)] by simp
qed

lemma verify_for_delegation_runs:
  assumes "redo_ok redo" and "kernels_ok K" shows "wf.runs s (verify_for_delegation redo K d s)"
proof -
  have "wf.runs s (case PrepareOpsStartingAt K 0 (sg_execution_plan s) 0 s of (st, _, s1) \<Rightarrow>
      if st \<noteq> kTfLiteOk then Some (st, s1)
      else if sg_has_dynamic_tensors s1
           then run_status (ensure_memory_allocations redo K s1) (\<lambda>s. Some (kTfLiteApplicationError, s))
      else Some (kTfLiteOk, s1))"
    using assms by (intro prepare_from_start_runs)
      (auto intro!: wf.run_status_runs ensure_memory_allocations_runs wf.runs_Some simp: wf.frame_refl)
  then show ?thesis unfolding verify_for_delegation_def by (simp add: wf.runs_Some wf.frame_refl)
qed

lemma settle_delegation_runs:
  assumes "redo_ok redo" and "kernels_ok K" shows "wf.runs s (settle_delegation redo K d st s)"
proof -
  note r = reset_delegation_runs [OF assms] ensure_memory_allocations_runs [OF assms] remove_all_delegates_runs [OF assms]
    runs_trans [OF mode_updates_wf(1) ensure_memory_allocations_runs [OF assms]]
  have "wf.runs t (case PrepareOpsStartingAt K 0 (sg_execution_plan t) 0 t of (st, _, s1) \<Rightarrow> Some (st, s1))" for t
    by (intro prepare_from_start_runs [OF assms(2)] wf.runs_Some) (simp add: wf.frame_refl)
  then show ?thesis unfolding settle_delegation_def
    by (intro wf.runs_if wf.run_status_runs wf.runs_ret r wf.runs_Some) simp_all
qed

lemma modify_graph_runs:
  assumes "redo_ok redo" and "kernels_ok K" and "delegates_ok K"
  shows "wf.runs s (modify_graph_with_delegate redo K d s)"
proof -
  have "wf.runs t (redo t)" for t using assms(1) by (simp add: redo_ok_def)
  note r = this verify_for_delegation_runs [OF assms(1,2)] settle_delegation_runs [OF assms(1,2)]
    reset_delegation_runs [OF assms(1,2) wf.runs_Some [OF prepare_delegate_wf [OF assms(3)]]]
  show ?thesis unfolding modify_graph_with_delegate_def Let_def
    by (intro wf.runs_if wf.run_status_runs wf.runs_ret r wf.runs_Some) simp_all
qed

lemma RedoAllDelegates_ok:
  assumes "kernels_ok K" and "delegates_ok K" shows "redo_ok (RedoAllDelegates n K)"
proof (induction n)
  case 0
  show ?case by (auto simp: redo_ok_def wf.runs_def wf.frame_refl)
next
  case (Suc n)
  have "wf.runs s (run_each (modify_graph_with_delegate (RedoAllDelegates n K) K) ds
      (s\<lparr>sg_delegates_undone := False, sg_delegates_applied := []\<rparr>))" for ds s
    by (rule runs_trans [OF mode_updates_wf(4) wf.run_each_runs]) (rule modify_graph_runs [OF Suc assms])
  then show ?case by (simp add: redo_ok_def wf.runs_Some wf.frame_refl)
qed

lemmas delegation_runs =
  allocate_tensors_runs [OF RedoAllDelegates_ok] remove_all_delegates_runs [OF RedoAllDelegates_ok]
  modify_graph_runs [OF RedoAllDelegates_ok]

lemma ResizeInputTensor_wf: "kernels_ok K \<Longrightarrow> keeps_wf s (snd (ResizeInputTensor K i dims s))"
  unfolding ResizeInputTensor_def Let_def
  by (auto intro!: wf.ensure_status_frame UndoAllDelegates_wf wf.frame_trans [OF mode_updates_wf(1) same_keeps [OF resize_same]]
      simp: wf.frame_refl)

lemma InterpreterInfo_wf: "sg_wf s \<Longrightarrow> wf_graph (InterpreterInfo s)"
  unfolding sg_wf_def wf_graph_def InterpreterInfo_def sg_node_def
  by (auto simp: tensor_ok_def nat_less_iff)

section \<open>Reachable graphs\<close>

text \<open>One call of an operation of the subgraph, with any arguments.\<close>

inductive sg_step :: "runtime \<Rightarrow> Subgraph \<Rightarrow> Subgraph \<Rightarrow> bool" for K where
  step_AddTensors: "AddTensors n s = (st, i, t) \<Longrightarrow> sg_step K s t"
| step_SetInputs: "SetInputs xs s = (st, t) \<Longrightarrow> sg_step K s t"
| step_SetOutputs: "SetOutputs xs s = (st, t) \<Longrightarrow> sg_step K s t"
| step_SetVariables: "SetVariables xs s = (st, t) \<Longrightarrow> sg_step K s t"
| step_SetTensorParametersReadOnly:
    "SetTensorParametersReadOnly i type name dims q buffer bytes a sp bid eid s = (st, t) \<Longrightarrow> sg_step K s t"
| step_SetTensorParametersReadWrite:
    "SetTensorParametersReadWrite i type name dims q v sig eid s = (st, t) \<Longrightarrow> sg_step K s t"
| step_AddNodeWithParameters:
    "AddNodeWithParameters K inputs outputs mids d n b reg s = (st, i, t) \<Longrightarrow> sg_step K s t"
| step_SetExecutionPlan: "SetExecutionPlan plan s = (st, t) \<Longrightarrow> sg_step K s t"
| step_RemoveUnusedInputs: "RemoveUnusedInputs s = (st, t) \<Longrightarrow> sg_step K s t"
| step_SetCustomAllocationForTensor: "SetCustomAllocationForTensor i ca b s = (st, t) \<Longrightarrow> sg_step K s t"
| step_ResizeInputTensor: "ResizeInputTensor K i dims s = (st, t) \<Longrightarrow> sg_step K s t"
| step_AllocateTensors: "AllocateTensors n K s = Some (st, t) \<Longrightarrow> sg_step K s t"
| step_ModifyGraphWithDelegate: "ModifyGraphWithDelegate n K delegate s = Some (st, t) \<Longrightarrow> sg_step K s t"
| step_RemoveAllDelegates: "RemoveAllDelegates n K s = Some (st, t) \<Longrightarrow> sg_step K s t"
| step_Invoke: "Invoke K s = (st, t) \<Longrightarrow> sg_step K s t"
| step_ResetVariableTensors: "ResetVariableTensors s = (st, t) \<Longrightarrow> sg_step K s t"
| step_ReleaseNonPersistentMemory: "sg_ReleaseNonPersistentMemory s = (st, t) \<Longrightarrow> sg_step K s t"
| step_ReleaseMemory: "ReleaseMemory s = (st, t) \<Longrightarrow> sg_step K s t"
| step_EnableCancellation: "EnableCancellation b s = (st, t) \<Longrightarrow> sg_step K s t"
| step_Cancel: "Cancel s = (st, t) \<Longrightarrow> sg_step K s t"

lemma sg_step_wf:
  assumes "kernels_ok K" "delegates_ok K" and "sg_step K s t" shows "keeps_wf s t"
  using assms(3)
proof cases
  case (step_AllocateTensors n st)
  then show ?thesis using delegation_runs(1) [OF assms(1,2,1), of s n] by (simp add: AllocateTensors_def wf.runs_def)
next
  case (step_ModifyGraphWithDelegate n delegate st)
  then show ?thesis using delegation_runs(3) [OF assms(1,2,1,2), of s n delegate]
    by (simp add: ModifyGraphWithDelegate_def wf.runs_def)
next
  case (step_RemoveAllDelegates n st)
  then show ?thesis using delegation_runs(2) [OF assms(1,2,1), of s n] by (simp add: RemoveAllDelegates_def wf.runs_def)
next
  case (step_AddNodeWithParameters inputs outputs mids d n b reg st i)
  then show ?thesis using AddNodeWithParameters_wf [OF assms(1)] by (metis keeps_wf_def snd_conv)
qed (metis keeps_wf_def snd_conv same_graph_wf AddTensors_same index_setters_wf SetTensorParametersReadOnly_same
    SetTensorParametersReadWrite_same SetExecutionPlan_wf RemoveUnusedInputs_wf SetCustomAllocationForTensor_same
    ResizeInputTensor_wf [OF assms(1)] Invoke_same [OF assms(1)] alloc_same [OF ResetVariableTensors_frame]
    release_same cancel_same)+

section \<open>A runtime for the witnesses\<close>

text \<open>
  Kernels that succeed and log the index of the node they are invoked for, as a decimal digit of the next
  heap address; a delegate that replaces nothing.
\<close>

definition w_runtime :: runtime where
  "w_runtime = \<lparr>rt_malloc = (\<lambda>n. Some (replicate n 0)), rt_aligned_alloc = zero_alloc, rt_sort = insertion_sort,
     rt_operator = (\<lambda>_. \<lparr>op_custom_name = None, op_version = 1, op_init = 0, op_free = 0, op_prepare = 0, op_invoke = 0,
       op_async_kernel = 0, op_builtin_code = 0, op_node_index = -1, op_user_data = 0, op_init_with_data = 0, op_free_with_data = 0,
       op_prepare_with_data = 0, op_invoke_with_data = 0\<rparr>),
     rt_unresolved_invoke = 0, rt_init = (\<lambda>f d b n s. (0, s)), rt_free = (\<lambda>f d b s. s),
     rt_prepare = (\<lambda>f d i s. (kTfLiteOk, s)),
     rt_suppress_denormals = False, rt_invoke = (\<lambda>m f d i s. (kTfLiteOk, s\<lparr>sg_heap := (sg_heap s)\<lparr>hp_next := 10 * hp_next (sg_heap s) + i\<rparr>\<rparr>)),
     rt_delegate = (\<lambda>_. \<lparr>dg_Prepare = 1, dg_CopyFromBufferHandle = 0, dg_FreeBufferHandle = 0, dg_flags = 0,
       dg_opaque_delegate_builder = None\<rparr>),
     rt_delegate_prepare = (\<lambda>f d s. (kTfLiteOk, s)), rt_cancelled = (\<lambda>_ _. False),
     rt_copy_from_buffer_handle = (\<lambda>f d h i s. (kTfLiteOk, s)), rt_free_buffer_handle = (\<lambda>f d h s. (h, s))\<rparr>"

lemma w_runtime_ok: "kernels_ok w_runtime" "delegates_ok w_runtime"
  by (simp_all add: kernels_ok_def delegates_ok_def w_runtime_def)

definition w_kernel :: TfLiteRegistration where
  "w_kernel = empty_registration\<lparr>rg_invoke := 1, rg_prepare := 1\<rparr>"

text \<open>Two tensors and a node from the first to the second.\<close>

definition w_built :: Subgraph where
  "w_built = new_subgraph\<lparr>sg_tensors := [zero_tensor, zero_tensor],
     sg_nodes_and_registration := [(empty_node\<lparr>nd_inputs := [0], nd_outputs := [1]\<rparr>, w_kernel)],
     sg_execution_plan := [0]\<rparr>"

section \<open>Invoking an allocated graph\<close>

definition has_memory :: "Subgraph \<Rightarrow> bool" where
  "has_memory s \<longleftrightarrow> (case sg_memory_planner s of None \<Rightarrow> True | Some p \<Rightarrow> HasNonPersistentMemory p)"

lemma has_memory_mode: "map_option HasNonPersistentMemory (sg_memory_planner s') = map_option HasNonPersistentMemory (sg_memory_planner s) \<Longrightarrow>
    has_memory s' = has_memory s"
  by (auto simp: has_memory_def split: option.splits)

lemma kernel_frame_memory: "kernel_frame s s' \<Longrightarrow> has_memory s' = has_memory s"
  by (rule has_memory_mode) (simp add: kernel_frame_def graph_mode_def)

lemma Commit_status: "fst (Commit m a) = kTfLiteOk"
  by (simp add: Commit_def Let_def case_prod_unfold)

lemma ExecuteAllocations_memory:
  assumes "ExecuteAllocations srt m info a b p ts = (kTfLiteOk, p', ts')" shows "HasNonPersistentMemory p'"
proof -
  have "planner_Commit m q = (kTfLiteOk, r, q') \<Longrightarrow> HasNonPersistentMemory q'" for q r q'
    by (auto simp: planner_Commit_def HasNonPersistentMemory_def split: prod.splits if_splits)
  then show ?thesis using assms
    by (auto simp: ExecuteAllocations_def Let_def split: prod.splits if_splits)
qed

lemma AcquireNonPersistentMemory_memory: "HasNonPersistentMemory (fst (snd (AcquireNonPersistentMemory m p ts)))"
  using Commit_status [of m "ap_arena p"]
  by (simp add: AcquireNonPersistentMemory_def HasNonPersistentMemory_def Let_def case_prod_unfold)

lemma acquire_memory_has: "has_memory (acquire_memory K s)"
  using AcquireNonPersistentMemory_memory
  by (auto simp: has_memory_def acquire_memory_def with_planner_def case_prod_unfold split: option.split)

lemma PrepareOpsAndTensors_memory:
  assumes "PrepareOpsAndTensors K s = (kTfLiteOk, t)" shows "has_memory t"
proof -
  obtain s0 st prepared s1 where p: "PrepareOpsStartingAt K (sg_next_execution_plan_index_to_prepare s0) (sg_execution_plan s0) 0 s0 = (st, prepared, s1)"
    and rest: "(if st \<noteq> kTfLiteOk then (st, s1)
         else
           ensure_status (execute_plan K prepared
             (ensure_planner (s1\<lparr>sg_next_execution_plan_index_to_prepare := prepared + 1\<rparr>))) (\<lambda>s.
           ensure_status
             (if sg_custom_allocations s = [] then (kTfLiteOk, s)
              else ensure_status (verify_custom_outputs (sg_next_execution_plan_index_to_plan_allocation s) prepared s) (\<lambda>s.
                   if sg_next_execution_plan_index_to_plan_allocation s = 0 then verify_custom_inputs s else (kTfLiteOk, s)))
             (\<lambda>s. (kTfLiteOk, s\<lparr>sg_next_execution_plan_index_to_plan_allocation := prepared + 1\<rparr>)))) = (kTfLiteOk, t)"
    using assms unfolding PrepareOpsAndTensors_def by (elim ensure_status_OkD) (auto split: prod.splits)
  then have "st = kTfLiteOk" by (auto split: if_splits)
  with rest obtain u where u: "execute_plan K prepared (ensure_planner (s1\<lparr>sg_next_execution_plan_index_to_prepare := prepared + 1\<rparr>)) = (kTfLiteOk, u)"
    and v: "ensure_status
             (if sg_custom_allocations u = [] then (kTfLiteOk, u)
              else ensure_status (verify_custom_outputs (sg_next_execution_plan_index_to_plan_allocation u) prepared u) (\<lambda>s.
                   if sg_next_execution_plan_index_to_plan_allocation s = 0 then verify_custom_inputs s else (kTfLiteOk, s)))
             (\<lambda>s. (kTfLiteOk, s\<lparr>sg_next_execution_plan_index_to_plan_allocation := prepared + 1\<rparr>)) = (kTfLiteOk, t)"
    by (auto elim: ensure_status_OkD)
  have "has_memory u"
    using u ExecuteAllocations_memory
    by (fastforce simp: execute_plan_def ensure_planner_def with_planner_def has_memory_def split: option.splits prod.splits)
  moreover have "snd (if sg_custom_allocations u = [] then (kTfLiteOk, u)
              else ensure_status (verify_custom_outputs (sg_next_execution_plan_index_to_plan_allocation u) prepared u) (\<lambda>s.
                   if sg_next_execution_plan_index_to_plan_allocation s = 0 then verify_custom_inputs s else (kTfLiteOk, s))) = u"
    using verify_frame by (simp add: ensure_status_def case_prod_unfold)
  with v have "t = u\<lparr>sg_next_execution_plan_index_to_plan_allocation := prepared + 1\<rparr>"
    by (elim ensure_status_OkD) auto
  ultimately show ?thesis by (simp add: has_memory_def)
qed

lemma ResetVariableTensors_memory: "has_memory (snd (ResetVariableTensors s)) = has_memory s \<and>
    sg_state (snd (ResetVariableTensors s)) = sg_state s"
proof -
  have "has_memory (ResetVariableTensor x t) = has_memory t \<and> sg_state (ResetVariableTensor x t) = sg_state t" for x t
    by (auto simp: ResetVariableTensor_def has_memory_def HasNonPersistentMemory_def Let_def split: option.split)
  then show ?thesis unfolding ResetVariableTensors_def
    by (intro ensure_each_invariant [where P = "\<lambda>t. has_memory t = has_memory s \<and> sg_state t = sg_state s"]) simp_all
qed

lemma allocate_prepared_ok:
  assumes "allocate_prepared K s = (kTfLiteOk, t)"
  shows "has_memory t \<and> sg_state t \<noteq> kStateUninvokable"
proof -
  define dyn where "dyn = (if sg_state s \<noteq> kStateUninvokable then HasDynamicTensorImpl (sg_tensors s) (sg_inputs s) else None)"
  define u where "u = (case dyn of None \<Rightarrow> s | Some d \<Rightarrow> s\<lparr>sg_dynamic_tensor_index := d\<rparr>)"
  have u: "sg_state u = sg_state s" by (simp add: u_def split: option.split)
  show ?thesis
  proof (cases "sg_state u \<noteq> kStateUninvokable \<and> dyn = None")
    case True
    then have no: "sg_state s \<noteq> kStateUninvokable" "HasDynamicTensorImpl (sg_tensors s) (sg_inputs s) = None"
      using u by (auto simp: dyn_def split: if_splits)
    then have "ensure_each verify_custom_allocation (sg_custom_allocations (acquire_memory K s)) (acquire_memory K s) = (kTfLiteOk, t)"
      using assms by (simp add: allocate_prepared_def Let_def)
    then have "t = acquire_memory K s" using verify_custom_allocation_id by (metis snd_conv)
    moreover have "sg_state (acquire_memory K s) = sg_state s"
      by (auto simp: acquire_memory_def with_planner_def case_prod_unfold split: option.split)
    ultimately show ?thesis using acquire_memory_has no by simp
  next
    case False
    then have "ensure_status (reset_planner (u\<lparr>sg_next_execution_plan_index_to_prepare := 0,
               sg_next_execution_plan_index_to_plan_allocation := 0,
               sg_next_original_execution_plan_index_to_prepare := 0\<rparr>)) (\<lambda>s.
           ensure_status (PrepareOpsAndTensors K s) (\<lambda>s.
           (kTfLiteOk, free_delegated_temporaries (InitializeTensorReleaseMap
              (snd (ResetVariableTensors (s\<lparr>sg_state := kStateInvokable\<rparr>))))))) = (kTfLiteOk, t)"
      using assms unfolding allocate_prepared_def Let_def dyn_def [symmetric] u_def [symmetric] by (simp split: if_splits)
    then obtain v w where v: "PrepareOpsAndTensors K v = (kTfLiteOk, w)" and
      t: "t = free_delegated_temporaries (InitializeTensorReleaseMap (snd (ResetVariableTensors (w\<lparr>sg_state := kStateInvokable\<rparr>))))"
      by (auto elim!: ensure_status_OkD)
    have fr: "kernel_frame (snd (ResetVariableTensors (w\<lparr>sg_state := kStateInvokable\<rparr>))) t"
      unfolding t by (rule kernel_frame_trans [OF InitializeTensorReleaseMap_frame free_delegated_temporaries_frame])
    have "has_memory (w\<lparr>sg_state := kStateInvokable\<rparr>)"
      using PrepareOpsAndTensors_memory [OF v] by (simp add: has_memory_def)
    then show ?thesis
      using kernel_frame_memory [OF fr] ResetVariableTensors_memory [of "w\<lparr>sg_state := kStateInvokable\<rparr>"] fr
      by (simp add: kernel_frame_def graph_mode_def)
  qed
qed

text \<open>Nothing is left to prepare, nothing dynamic is written, and every input that a node reads has data.\<close>

definition input_ready :: "TfLiteTensor \<Rightarrow> bool" where
  "input_ready t \<longleftrightarrow> \<not> t_data_is_stale t \<and> (t_data t \<noteq> 0 \<or> t_bytes t = 0 \<or> t_allocation_type t = kTfLiteNonCpu)"

definition invoke_ready :: "Subgraph \<Rightarrow> bool" where
  "invoke_ready s \<longleftrightarrow>
     sg_consistent s \<and> sg_state s \<noteq> kStateUninvokable \<and> has_memory s \<and>
     int (length (sg_execution_plan s)) \<le> sg_next_execution_plan_index_to_prepare s \<and>
     sg_check_cancelled_func s = 0 \<and> sg_continue_invocation s \<noteq> Some False \<and> sg_options s = None \<and>
     (\<forall>i\<in>set (sg_execution_plan s).
        (\<forall>t\<in>set (nd_inputs (sg_node i s)). t = kTfLiteOptionalTensor \<or> input_ready (sg_tensors s ! nat t)) \<and>
        HasDynamicTensorImpl (sg_tensors s) (nd_outputs (sg_node i s)) = None)"

text \<open>Kernels of a static graph compute on the memory of the tensors and leave the tensors themselves alone.\<close>

definition kernels_static :: "runtime \<Rightarrow> bool" where
  "kernels_static K \<longleftrightarrow> kernels_ok K \<and> (\<forall>m f d i s. sg_tensors (snd (rt_invoke K m f d i s)) = sg_tensors s)"

lemma same_graph_node:
  assumes "same_graph s s'" and "nat i < length (sg_nodes_and_registration s)"
  shows "nd_inputs (sg_node i s') = nd_inputs (sg_node i s)" "nd_outputs (sg_node i s') = nd_outputs (sg_node i s)"
    "sg_registration i s' = sg_registration i s"
proof -
  have "map node_shape (sg_nodes_and_registration s') ! nat i = map node_shape (sg_nodes_and_registration s) ! nat i"
    using assms(1) by (simp add: same_graph_def graph_shape_def)
  then show "nd_inputs (sg_node i s') = nd_inputs (sg_node i s)" "nd_outputs (sg_node i s') = nd_outputs (sg_node i s)"
    "sg_registration i s' = sg_registration i s"
    using assms(2) same_graph_nodes(1) [OF assms(1)] by (simp_all add: node_shape_def sg_node_def sg_registration_def)
qed

lemma invoke_ready_frame:
  assumes "invoke_ready s" and "sg_wf s" and "kernel_frame s s'" and "sg_tensors s' = sg_tensors s"
  shows "invoke_ready s'"
proof -
  have f: "sg_execution_plan s' = sg_execution_plan s" using same_graph_fields kernel_same [OF assms(3)] by blast
  have n: "nd_inputs (sg_node i s') = nd_inputs (sg_node i s) \<and> nd_outputs (sg_node i s') = nd_outputs (sg_node i s)"
    if "i \<in> set (sg_execution_plan s)" for i
    using that assms(2) same_graph_node [OF kernel_same [OF assms(3)]] by (auto simp: sg_wf_def nat_less_iff)
  have "graph_mode s' = graph_mode s" "plan_progress s' = plan_progress s" using assms(3) by (simp_all add: kernel_frame_def)
  then show ?thesis using assms(1,4) f n kernel_frame_memory [OF assms(3)]
    by (simp add: invoke_ready_def graph_mode_def graph_options_def plan_progress_def)
qed

lemma invoke_kernel_static:
  assumes "kernels_static K" shows "sg_tensors (snd (invoke_kernel K i s)) = sg_tensors s"
  using assms by (simp add: invoke_kernel_def OpInvoke_def kernels_static_def Let_def case_prod_unfold)

lemma check_node_inputs:
  assumes "\<forall>t\<in>set (nd_inputs (sg_node i s)). t = kTfLiteOptionalTensor \<or> input_ready (sg_tensors s ! nat t)"
  shows "ensure_each (check_node_input K i) [0..<length (nd_inputs (sg_node i s))] s = (kTfLiteOk, s)"
proof -
  have "check_node_input K i k s = (kTfLiteOk, s)" if "k < length (nd_inputs (sg_node i s))" for k
  proof (cases "nd_inputs (sg_node i s) ! k = kTfLiteOptionalTensor")
    case False
    then have "input_ready (sg_tensors s ! nat (nd_inputs (sg_node i s) ! k))"
      using assms that by (metis nth_mem)
    then show ?thesis using False by (auto simp: check_node_input_def Let_def input_ready_def)
  qed (simp add: check_node_input_def)
  then have "\<forall>k\<in>set ks. k < length (nd_inputs (sg_node i s)) \<Longrightarrow> ensure_each (check_node_input K i) ks s = (kTfLiteOk, s)" for ks
    by (induction ks) auto
  then show ?thesis by simp
qed

lemma check_node_inputs_ready:
  assumes "invoke_ready s" and "i \<in> set (sg_execution_plan s)"
  shows "ensure_each (check_node_input K i) [0..<length (nd_inputs (sg_node i s))] s = (kTfLiteOk, s)"
  by (rule check_node_inputs) (use assms in \<open>simp add: invoke_ready_def\<close>)

text \<open>In a graph that is ready, invoking node number \<open>k\<close> is running its kernel.\<close>

lemma invoke_node_ready:
  assumes "kernels_static K" and "invoke_ready s" and "sg_wf s" and "k < length (sg_execution_plan s)"
  shows "invoke_node K (int k) s = invoke_kernel K (sg_execution_plan s ! k) s"
proof -
  let ?i = "sg_execution_plan s ! k"
  have i: "?i \<in> set (sg_execution_plan s)" using assms(4) by simp
  have prep: "int k \<noteq> sg_next_execution_plan_index_to_prepare s" using assms(2,4) by (auto simp: invoke_ready_def)
  have opt: "sg_options s = None" using assms(2) by (simp add: invoke_ready_def)
  have can: "check_cancellation K s = (kTfLiteOk, s)"
    using assms(2) by (auto simp: invoke_ready_def check_cancellation_def split: option.split)
  obtain st s1 where k: "invoke_kernel K ?i s = (st, s1)" by (cases "invoke_kernel K ?i s")
  have fr: "kernel_frame s s1"
    using k invoke_kernel_frame [of K s ?i] assms(1) by (simp add: kernels_static_def)
  have ts: "sg_tensors s1 = sg_tensors s" using invoke_kernel_static [OF assms(1), of ?i s] k by simp
  have out: "nd_outputs (sg_node ?i s1) = nd_outputs (sg_node ?i s)"
    using same_graph_node [OF kernel_same [OF fr], of ?i] assms(3) i by (auto simp: sg_wf_def nat_less_iff)
  have "HasDynamicTensorImpl (sg_tensors s) (nd_outputs (sg_node ?i s)) = None"
    using assms(2) i by (simp add: invoke_ready_def)
  then have re: "replan_after (int k) ?i s1 = (kTfLiteOk, s1)" by (simp add: replan_after_def ts out)
  have o1: "sg_options s1 = None"
    using fr opt by (simp add: kernel_frame_def graph_mode_def graph_options_def)
  have "check_cancellation K s = (kTfLiteOk, s)" by (rule can)
  moreover have "MayAllocateOpOutput K ?i s = (kTfLiteOk, s)"
    by (simp add: MayAllocateOpOutput_def ShouldOptimizeMemoryForLargeTensors_def opt)
  moreover have "MaybeReleaseDynamicTensors ?i s1 = s1"
    by (simp add: MaybeReleaseDynamicTensors_def ShouldReleaseDynamicTensors_def o1)
  ultimately show ?thesis
    using prep check_node_inputs_ready [OF assms(2) i] k re
    by (simp add: invoke_node_def Let_def ensure_status_def)
qed

lemma invoke_nodes_ready:
  assumes "kernels_static K"
  shows "invoke_ready s \<Longrightarrow> sg_wf s \<Longrightarrow> \<forall>k\<in>set ks. k < length (sg_execution_plan s) \<Longrightarrow>
    ensure_each (invoke_node K) (map int ks) s = ensure_each (invoke_kernel K) (map (\<lambda>k. sg_execution_plan s ! k) ks) s"
proof (induction ks arbitrary: s)
  case (Cons k ks)
  let ?i = "sg_execution_plan s ! k"
  obtain st s1 where k: "invoke_kernel K ?i s = (st, s1)" by (cases "invoke_kernel K ?i s")
  have fr: "kernel_frame s s1"
    using k invoke_kernel_frame [of K s ?i] assms(1) by (simp add: kernels_static_def)
  have ts: "sg_tensors s1 = sg_tensors s" using invoke_kernel_static [OF assms(1), of ?i s] k by simp
  have plan: "sg_execution_plan s1 = sg_execution_plan s" using same_graph_fields kernel_same [OF fr] by blast
  have "invoke_node K (int k) s = (st, s1)"
    using invoke_node_ready [OF assms Cons.prems(1,2), of k] Cons.prems(3) k by simp
  moreover have "ensure_each (invoke_node K) (map int ks) s1 = ensure_each (invoke_kernel K) (map (\<lambda>k. sg_execution_plan s ! k) ks) s1"
    using Cons.IH [OF invoke_ready_frame [OF Cons.prems(1,2) fr ts] same_graph_wf [OF kernel_same [OF fr] Cons.prems(2)]]
      Cons.prems(3) by (simp add: plan)
  ultimately show ?case using k by (simp add: ensure_status_def)
qed simp

text \<open>
  Claim C13. On an allocated static graph \<open>Invoke\<close> is the execution of the plan: it runs the kernel of every node of the
  execution plan exactly once and in the order of the plan, stops at the first that fails and returns its status
  (any failure but a cancellation as \<open>kTfLiteError\<close>).
\<close>

theorem invoke_runs_plan:
  assumes "kernels_static K" and "sg_wf s" and "invoke_ready s"
  shows "Invoke K s = ensure_each (invoke_kernel K) (sg_execution_plan s) s"
proof -
  have "sg_consistent s" "sg_state s \<noteq> kStateUninvokable" "has_memory s" using assms(3) by (simp_all add: invoke_ready_def)
  moreover have "map (\<lambda>k. sg_execution_plan s ! k) [0..<length (sg_execution_plan s)] = sg_execution_plan s"
    by (rule map_nth)
  ultimately show ?thesis using invoke_nodes_ready [OF assms(1,3,2), of "[0..<length (sg_execution_plan s)]"]
    by (auto simp: Invoke_def has_memory_def split: option.split)
qed

text \<open>A graph of three nodes over tensors with data, logged by the kernels of \<open>w_runtime\<close>.\<close>

definition w_ready :: Subgraph where
  "w_ready = new_subgraph\<lparr>
     sg_tensors := replicate 4 (zero_tensor\<lparr>t_data := 64, t_bytes := 4, t_allocation_type := kTfLiteMmapRo\<rparr>),
     sg_nodes_and_registration := map (\<lambda>(a, b). (empty_node\<lparr>nd_inputs := [a], nd_outputs := [b]\<rparr>, w_kernel)) [(0, 1), (2, 3), (1, 2)],
     sg_execution_plan := [0, 2, 1], sg_state := kStateInvokable, sg_next_execution_plan_index_to_prepare := 3\<rparr>"

lemma w_ready_ok: "invoke_ready w_ready"
  by (simp add: w_ready_def new_subgraph_def invoke_ready_def has_memory_def input_ready_def sg_node_def
        empty_node_def zero_tensor_def w_lists)

theorem invoke_runs_plan_witness:
  "Invoke w_runtime w_ready = ensure_each (invoke_kernel w_runtime) [0, 2, 1] w_ready \<and>
   fst (Invoke w_runtime w_ready) = kTfLiteOk \<and> hp_next (sg_heap (snd (Invoke w_runtime w_ready))) = 1021"
proof -
  have "kernels_static w_runtime" using w_runtime_ok by (simp add: kernels_static_def w_runtime_def)
  moreover have "sg_wf w_ready" by (simp add: w_ready_def new_subgraph_def sg_wf_def tensor_ok_def empty_node_def)
  moreover have "invoke_ready w_ready" by (rule w_ready_ok)
  ultimately have run: "Invoke w_runtime w_ready = ensure_each (invoke_kernel w_runtime) (sg_execution_plan w_ready) w_ready"
    by (rule invoke_runs_plan)
  have plan: "sg_execution_plan w_ready = [0, 2, 1]" by (simp add: w_ready_def)
  show ?thesis unfolding run plan
    by (simp add: w_ready_def new_subgraph_def invoke_kernel_def OpInvoke_def sg_registration_def w_runtime_def
        w_kernel_def empty_registration_def empty_heap_def)
qed

text \<open>
  Claim C14. A successful \<open>AllocateTensors\<close>, whether or not it has to apply delegates again that were undone, leaves a graph that is
  invokable and has its arena in memory: \<open>Invoke\<close> refuses it only if it is inconsistent, and otherwise runs the nodes of its plan. When no delegates had
  been undone, the graph is consistent and has the nodes, plan, inputs, outputs and options of before. (Applying delegates again may change nodes and plan;
  a delegate that adds nodes with wrong tensors and hides the error makes the graph inconsistent.)
\<close>

theorem allocate_enables_invoke:
  assumes "kernels_ok K" and "AllocateTensors fuel K s = Some (kTfLiteOk, t)"
  shows "sg_state t \<noteq> kStateUninvokable \<and> has_memory t \<and>
    Invoke K t = (if sg_consistent t then ensure_each (invoke_node K) (map int [0..<length (sg_execution_plan t)]) t else (kTfLiteError, t)) \<and>
    (\<not> sg_delegates_undone s \<longrightarrow> sg_consistent t \<and> alloc_frame s t)"
proof -
  obtain u where c: "sg_consistent s" and r: "RedoAllDelegates fuel K s = Some (kTfLiteOk, u)" and a: "allocate_prepared K u = (kTfLiteOk, t)"
    using assms(2) by (auto simp: AllocateTensors_def allocate_tensors_def run_status_def split: if_splits option.splits)
  have fr: "alloc_frame u t" using allocate_prepared_frame [OF assms(1), of u] a by simp
  have "u = s" if "\<not> sg_delegates_undone s" using that r by (cases fuel) simp_all
  then have "\<not> sg_delegates_undone s \<longrightarrow> sg_consistent t \<and> alloc_frame s t"
    using fr c by (auto simp: alloc_frame_def graph_options_def)
  then show ?thesis using allocate_prepared_ok [OF a]
    by (auto simp: Invoke_def has_memory_def split: option.split)
qed

text \<open>The graph of three operators that \<open>w_plan_graph\<close> describes, allocated and run.\<close>

definition w_static :: Subgraph where
  "w_static = new_subgraph\<lparr>sg_tensors := w_plan_tensors,
     sg_nodes_and_registration := zip (gi_nodes w_plan_graph) (gi_registrations w_plan_graph),
     sg_execution_plan := [0, 1, 2], sg_inputs := [0], sg_outputs := [3]\<rparr>"

lemma w_static_info: "InterpreterInfo w_static = w_plan_graph"
  by (simp add: InterpreterInfo_def w_static_def w_plan_graph_def sg_node_def sg_registration_def w_plan_tensors_def
      new_subgraph_def)

lemma InterpreterInfo_cong:
  "sg_nodes_and_registration s = sg_nodes_and_registration t \<Longrightarrow> length (sg_tensors s) = length (sg_tensors t) \<Longrightarrow>
   sg_execution_plan s = sg_execution_plan t \<Longrightarrow> sg_inputs s = sg_inputs t \<Longrightarrow> sg_outputs s = sg_outputs t \<Longrightarrow>
   sg_variables s = sg_variables t \<Longrightarrow> InterpreterInfo s = InterpreterInfo t"
  by (simp add: InterpreterInfo_def sg_node_def sg_registration_def)

lemma w_static_prepare:
  "PrepareOpsStartingAt w_runtime 0 [0, 1, 2] 0 w_static = (kTfLiteOk, 2, w_static\<lparr>sg_has_dynamic_tensors := False\<rparr>)"
  by (simp add: PrepareOpsStartingAt_def w_static_def w_plan_defs w_lists OpPrepare_def sg_registration_def sg_node_def
      w_runtime_def IsUnresolvedCustomOp_def new_subgraph_def)

definition w_allocated :: Subgraph where
  "w_allocated = w_static\<lparr>sg_has_dynamic_tensors := False, sg_next_execution_plan_index_to_prepare := 3,
     sg_memory_planner := Some w_committed, sg_tensors := w_resolved,
     sg_next_execution_plan_index_to_plan_allocation := 3\<rparr>"

lemma w_static_ops: "PrepareOpsAndTensors w_runtime w_static = (kTfLiteOk, w_allocated)"
proof -
  let ?s1 = "w_static\<lparr>sg_has_dynamic_tensors := False, sg_next_execution_plan_index_to_prepare := 3\<rparr>"
  let ?s2 = "?s1\<lparr>sg_memory_planner := Some w_plan\<rparr>"
  have i: "InterpreterInfo ?s1 = w_plan_graph" "InterpreterInfo ?s2 = w_plan_graph"
    using InterpreterInfo_cong [of ?s1 w_static] InterpreterInfo_cong [of ?s2 w_static] w_static_info by simp_all
  have f: "sg_tensors w_static = w_plan_tensors" "sg_execution_plan w_static = [0, 1, 2]"
    "sg_next_execution_plan_index_to_prepare w_static = 0" "sg_pre_delegation_execution_plan w_static = []"
    "sg_memory_planner w_static = None" "sg_options w_static = None" "sg_custom_allocations w_static = []"
    "sg_next_execution_plan_index_to_plan_allocation w_static = 0"
    by (simp_all add: w_static_def new_subgraph_def)
  have 2: "ensure_planner ?s1 = ?s2"
    by (simp add: ensure_planner_def f i ShouldPreserveAllTensors_def w_planned)
  have K: "rt_sort w_runtime = insertion_sort" "rt_aligned_alloc w_runtime = zero_alloc" by (simp_all add: w_runtime_def)
  have 3: "execute_plan w_runtime 2 ?s2 = (kTfLiteOk, ?s2\<lparr>sg_memory_planner := Some w_committed, sg_tensors := w_resolved\<rparr>)"
    by (simp add: execute_plan_def with_planner_def i f K w_execute)
  show ?thesis
    by (simp add: PrepareOpsAndTensors_def prepare_original_plan_def f w_static_prepare 2 [simplified] 3 [simplified])
       (simp add: w_allocated_def w_static_def new_subgraph_def)
qed

lemma w_static_alloc: "\<exists>t. AllocateTensors 0 w_runtime w_static = Some (kTfLiteOk, t)"
proof -
  have "w_static\<lparr>sg_next_execution_plan_index_to_prepare := 0, sg_next_execution_plan_index_to_plan_allocation := 0,
      sg_next_original_execution_plan_index_to_prepare := 0\<rparr> = w_static" by (simp add: w_static_def new_subgraph_def)
  moreover have "sg_state w_static = kStateUninvokable" "sg_consistent w_static" "\<not> sg_delegates_undone w_static"
    "reset_planner w_static = (kTfLiteOk, w_static)"
    by (simp_all add: w_static_def new_subgraph_def reset_planner_def)
  ultimately show ?thesis
    by (simp add: AllocateTensors_def allocate_tensors_def run_status_def allocate_prepared_def Let_def w_static_ops)
qed

theorem allocate_enables_invoke_witness:
  "\<exists>t. AllocateTensors 0 w_runtime w_static = Some (kTfLiteOk, t) \<and>
     Invoke w_runtime t = ensure_each (invoke_node w_runtime) [0, 1, 2] t"
proof -
  obtain t where t: "AllocateTensors 0 w_runtime w_static = Some (kTfLiteOk, t)" using w_static_alloc by blast
  have "\<not> sg_delegates_undone w_static" "map int [0..<length (sg_execution_plan w_static)] = [0, 1, 2]"
    by (simp_all add: w_static_def new_subgraph_def upt_rec)
  with allocate_enables_invoke [OF w_runtime_ok(1) t] show ?thesis
    using t same_graph_fields [OF alloc_same, of w_static t] by auto
qed

end
