(* ===== verification/Interpreter.thy ===== *)
theory Interpreter
  imports DelegationProps
begin

text \<open>
  The interpreter (\<open>lite/core/interpreter.h\<close>, \<open>interpreter.cc\<close>, \<open>interpreter_experimental.cc\<close>): a list of subgraphs,
  of which the first is the primary one, delegates applied to all of them, and cancellation. Profilers, telemetry and
  the contexts of other back ends have no effect on the graphs and are left out. The functions that
  create the default delegates are named by numbers and are a parameter \<open>create\<close>, 0 being the null pointer.
  Also the memory that the tensors of a graph point to, and the retry on the CPU (\<open>lite/delegates/interpreter_utils.cc\<close>).
\<close>

section \<open>The memory of a tensor\<close>

text \<open>
  The block that holds a tensor's bytes and the tensor's offset in it. The allocation type says which block it is; memory
  that the graph does not own (the model file, custom allocations, other devices) is outside of the model.
\<close>

definition arena_block :: "SimpleMemoryArena \<Rightarrow> TfLiteTensor \<Rightarrow> (byte list \<times> nat) option" where
  "arena_block a t =
     (let b = underlying_buffer a in
      if t_data t = 0 \<or> t_data t < buf_aligned_pointer b then None
      else Some (buf_bytes b, t_data t - buf_aligned_pointer b))"

definition tensor_block :: "TfLiteTensor \<Rightarrow> Subgraph \<Rightarrow> (byte list \<times> nat) option" where
  "tensor_block t s = (case t_allocation_type t of
     kTfLiteArenaRw \<Rightarrow> (case sg_memory_planner s of None \<Rightarrow> None | Some p \<Rightarrow> arena_block (ap_arena p) t)
   | kTfLiteArenaRwPersistent \<Rightarrow>
       (case sg_memory_planner s of None \<Rightarrow> None | Some p \<Rightarrow> arena_block (ap_persistent_arena p) t)
   | kTfLiteDynamic \<Rightarrow> map_option (\<lambda>bs. (bs, 0)) (hp_blocks (sg_heap s) (t_data t))
   | kTfLitePersistentRo \<Rightarrow> map_option (\<lambda>bs. (bs, 0)) (hp_blocks (sg_heap s) (t_data t))
   | _ \<Rightarrow> None)"

text \<open>\<open>n\<close> bytes from the start of the tensor.\<close>

definition read_tensor :: "TfLiteTensor \<Rightarrow> nat \<Rightarrow> Subgraph \<Rightarrow> byte list option" where
  "read_tensor t n s = (case tensor_block t s of
     None \<Rightarrow> None
   | Some (bs, k) \<Rightarrow> (if k + n \<le> length bs then Some (take n (drop k bs)) else None))"

definition put_arena_bytes :: "byte list \<Rightarrow> SimpleMemoryArena \<Rightarrow> SimpleMemoryArena" where
  "put_arena_bytes bs a = a\<lparr>underlying_buffer := (underlying_buffer a)\<lparr>buf_bytes := bs\<rparr>\<rparr>"

definition put_block :: "TfLiteTensor \<Rightarrow> byte list \<Rightarrow> Subgraph \<Rightarrow> Subgraph" where
  "put_block t bs s = (case t_allocation_type t of
     kTfLiteArenaRw \<Rightarrow> s\<lparr>sg_memory_planner :=
       map_option (\<lambda>p. p\<lparr>ap_arena := put_arena_bytes bs (ap_arena p)\<rparr>) (sg_memory_planner s)\<rparr>
   | kTfLiteArenaRwPersistent \<Rightarrow> s\<lparr>sg_memory_planner :=
       map_option (\<lambda>p. p\<lparr>ap_persistent_arena := put_arena_bytes bs (ap_persistent_arena p)\<rparr>) (sg_memory_planner s)\<rparr>
   | _ \<Rightarrow> s\<lparr>sg_heap := (sg_heap s)\<lparr>hp_blocks := (hp_blocks (sg_heap s))(t_data t \<mapsto> bs)\<rparr>\<rparr>)"

definition flag_access :: "Subgraph \<Rightarrow> Subgraph" where
  "flag_access s = s\<lparr>sg_heap := (sg_heap s)\<lparr>hp_bad := True\<rparr>\<rparr>"

text \<open>A write of bytes to the start of the tensor; one that does not fit in its block is flagged.\<close>

definition write_tensor :: "TfLiteTensor \<Rightarrow> byte list \<Rightarrow> Subgraph \<Rightarrow> Subgraph" where
  "write_tensor t vs s = (case tensor_block t s of
     None \<Rightarrow> (if vs = [] then s else flag_access s)
   | Some (bs, k) \<Rightarrow>
      (if k + length vs \<le> length bs then put_block t (take k bs @ vs @ drop (k + length vs) bs) s
       else flag_access s))"

section \<open>State\<close>

record SignatureDef =
  sd_inputs :: "(string \<times> int) list"
  sd_outputs :: "(string \<times> int) list"
  sd_signature_key :: string
  sd_subgraph_index :: int

record Interpreter =
  it_subgraphs :: "Subgraph list"
  it_owned_delegates :: "nat list"
  it_lazy_delegate_providers :: "nat list"
  it_allow_buffer_handle_output :: bool
  it_cancellation_enabled :: bool
  it_options :: "InterpreterOptions option"
  it_signature_defs :: "SignatureDef list"

definition AddSubgraphs :: "int \<Rightarrow> Interpreter \<Rightarrow> int \<times> Interpreter" where
  "AddSubgraphs n I =
     (int (length (it_subgraphs I)), I\<lparr>it_subgraphs := it_subgraphs I @ replicate (nat n) new_subgraph\<rparr>)"

definition new_interpreter :: Interpreter where
  "new_interpreter = snd (AddSubgraphs 1
     \<lparr>it_subgraphs = [], it_owned_delegates = [], it_lazy_delegate_providers = [], it_allow_buffer_handle_output = False,
      it_cancellation_enabled = False, it_options = None, it_signature_defs = []\<rparr>)"

definition primary_subgraph :: "Interpreter \<Rightarrow> Subgraph" where
  "primary_subgraph I = hd (it_subgraphs I)"

text \<open>
  The flag \<open>continue_invocation_\<close> is one object, to which every subgraph has a pointer once cancellation is enabled; the
  model keeps its value in each of them, so a change by one is copied to the others.
\<close>

definition share_flag :: "Subgraph \<Rightarrow> Subgraph \<Rightarrow> Subgraph" where
  "share_flag s t =
     (if sg_continue_invocation s = None \<or> sg_continue_invocation t = None then t
      else t\<lparr>sg_continue_invocation := sg_continue_invocation s\<rparr>)"

definition set_primary :: "Subgraph \<Rightarrow> Interpreter \<Rightarrow> Interpreter" where
  "set_primary s I = I\<lparr>it_subgraphs := s # map (share_flag s) (tl (it_subgraphs I))\<rparr>"

definition with_primary :: "(Subgraph \<Rightarrow> TfLiteStatus \<times> Subgraph) \<Rightarrow> Interpreter \<Rightarrow> TfLiteStatus \<times> Interpreter" where
  "with_primary f I = (case f (primary_subgraph I) of (st, s) \<Rightarrow> (st, set_primary s I))"

text \<open>The loop over the subgraphs that returns at the first failure.\<close>

fun each_subgraph ::
    "(Subgraph \<Rightarrow> (TfLiteStatus \<times> Subgraph) option) \<Rightarrow> Subgraph list \<Rightarrow> (TfLiteStatus \<times> Subgraph list) option" where
  "each_subgraph f [] = Some (kTfLiteOk, [])"
| "each_subgraph f (s # ss) = (case f s of
     None \<Rightarrow> None
   | Some (st, t) \<Rightarrow>
      (if st \<noteq> kTfLiteOk then Some (st, t # ss)
       else (case each_subgraph f ss of None \<Rightarrow> None | Some (st', ts) \<Rightarrow> Some (st', t # ts))))"

definition with_subgraphs ::
    "(Subgraph \<Rightarrow> (TfLiteStatus \<times> Subgraph) option) \<Rightarrow> Interpreter \<Rightarrow> (TfLiteStatus \<times> Interpreter) option" where
  "with_subgraphs f I = (case each_subgraph f (it_subgraphs I) of
     None \<Rightarrow> None
   | Some (st, ss) \<Rightarrow> Some (st, I\<lparr>it_subgraphs := ss\<rparr>))"

section \<open>Operations on the primary subgraph\<close>

definition it_SetInputs :: "int list \<Rightarrow> Interpreter \<Rightarrow> TfLiteStatus \<times> Interpreter" where
  "it_SetInputs xs = with_primary (SetInputs xs)"

definition it_SetOutputs :: "int list \<Rightarrow> Interpreter \<Rightarrow> TfLiteStatus \<times> Interpreter" where
  "it_SetOutputs xs = with_primary (SetOutputs xs)"

definition it_SetVariables :: "int list \<Rightarrow> Interpreter \<Rightarrow> TfLiteStatus \<times> Interpreter" where
  "it_SetVariables xs = with_primary (SetVariables xs)"

definition it_AddTensors :: "int \<Rightarrow> Interpreter \<Rightarrow> TfLiteStatus \<times> int \<times> Interpreter" where
  "it_AddTensors n I = (case AddTensors n (primary_subgraph I) of (st, i, s) \<Rightarrow> (st, i, set_primary s I))"

definition it_AddNodeWithParameters ::
    "runtime \<Rightarrow> int list \<Rightarrow> int list \<Rightarrow> nat \<Rightarrow> nat \<Rightarrow> nat \<Rightarrow> TfLiteRegistration \<Rightarrow> Interpreter \<Rightarrow>
     TfLiteStatus \<times> int option \<times> Interpreter" where
  "it_AddNodeWithParameters K inputs outputs init_data init_data_size builtin_data reg I =
     (case AddNodeWithParameters K inputs outputs [] init_data init_data_size builtin_data reg (primary_subgraph I) of
        (st, i, s) \<Rightarrow> (st, i, set_primary s I))"

definition it_SetExecutionPlan :: "int list \<Rightarrow> Interpreter \<Rightarrow> TfLiteStatus \<times> Interpreter" where
  "it_SetExecutionPlan plan = with_primary (SetExecutionPlan plan)"

definition it_ResizeInputTensor :: "runtime \<Rightarrow> int \<Rightarrow> int list \<Rightarrow> Interpreter \<Rightarrow> TfLiteStatus \<times> Interpreter" where
  "it_ResizeInputTensor K i dims = with_primary (ResizeInputTensor K i dims)"

definition it_ResizeInputTensorStrict :: "runtime \<Rightarrow> int \<Rightarrow> int list \<Rightarrow> Interpreter \<Rightarrow> TfLiteStatus \<times> Interpreter" where
  "it_ResizeInputTensorStrict K i dims = with_primary (ResizeInputTensorStrict K i dims)"

definition it_ReleaseNonPersistentMemory :: "Interpreter \<Rightarrow> TfLiteStatus \<times> Interpreter" where
  "it_ReleaseNonPersistentMemory = with_primary sg_ReleaseNonPersistentMemory"

definition it_SetCustomAllocationForTensor ::
    "int \<Rightarrow> TfLiteCustomAllocation \<Rightarrow> bool \<Rightarrow> Interpreter \<Rightarrow> TfLiteStatus \<times> Interpreter" where
  "it_SetCustomAllocationForTensor i ca skip_align_check = with_primary (SetCustomAllocationForTensor i ca skip_align_check)"

definition it_EnsureTensorDataIsReadable :: "runtime \<Rightarrow> int \<Rightarrow> Interpreter \<Rightarrow> TfLiteStatus \<times> Interpreter" where
  "it_EnsureTensorDataIsReadable K i = with_primary (EnsureTensorDataIsReadable K i)"

definition it_tensor :: "int \<Rightarrow> Interpreter \<Rightarrow> TfLiteTensor option" where
  "it_tensor i I = sg_tensor i (primary_subgraph I)"

section \<open>Threads, options and cancellation\<close>

definition SetNumThreads :: "int \<Rightarrow> Interpreter \<Rightarrow> TfLiteStatus \<times> Interpreter" where
  "SetNumThreads num_threads I =
     (if num_threads < -1 then (kTfLiteError, I)
      else (let n = (if num_threads = 0 then 1 else num_threads)
            in (kTfLiteOk, I\<lparr>it_subgraphs := map (\<lambda>s. s\<lparr>sg_recommended_num_threads := n\<rparr>) (it_subgraphs I)\<rparr>)))"

definition ApplyOptionsImpl :: "InterpreterOptions option \<Rightarrow> Interpreter \<Rightarrow> TfLiteStatus \<times> Interpreter" where
  "ApplyOptionsImpl options I =
     (if options = None then (kTfLiteOk, I)
      else (kTfLiteOk, I\<lparr>it_options := options, it_subgraphs := map (SetOptions options) (it_subgraphs I)\<rparr>))"

text \<open>The flag is clear until the first \<open>Invoke\<close> sets it, or keeps its value when cancellation is enabled again.\<close>

definition current_flag :: "Interpreter \<Rightarrow> bool" where
  "current_flag I = (case sg_continue_invocation (primary_subgraph I) of None \<Rightarrow> False | Some b \<Rightarrow> b)"

definition it_EnableCancellation :: "Interpreter \<Rightarrow> TfLiteStatus \<times> Interpreter" where
  "it_EnableCancellation I =
     (let I1 = I\<lparr>it_cancellation_enabled := True\<rparr>
      in case with_subgraphs (\<lambda>s. Some (EnableCancellation (current_flag I) s)) I1 of
           Some r \<Rightarrow> r | None \<Rightarrow> (kTfLiteError, I1))"

definition it_Cancel :: "Interpreter \<Rightarrow> TfLiteStatus \<times> Interpreter" where
  "it_Cancel = with_primary Cancel"

definition it_SetCancellationFunction :: "nat \<Rightarrow> Interpreter \<Rightarrow> Interpreter" where
  "it_SetCancellationFunction f I = I\<lparr>it_subgraphs := map (SetCancellationFunction f) (it_subgraphs I)\<rparr>"

definition it_IsCancelled :: "runtime \<Rightarrow> Interpreter \<Rightarrow> bool" where
  "it_IsCancelled K I = IsCancelled K (primary_subgraph I)"

definition it_ResetVariableTensors :: "Interpreter \<Rightarrow> (TfLiteStatus \<times> Interpreter) option" where
  "it_ResetVariableTensors = with_subgraphs (\<lambda>s. Some (ResetVariableTensors s))"

section \<open>Delegates\<close>

definition IsValidationSubgraph :: "string \<Rightarrow> bool" where
  "IsValidationSubgraph name \<longleftrightarrow> take 11 name = ''VALIDATION:''"

definition it_RemoveAllDelegates :: "nat \<Rightarrow> runtime \<Rightarrow> Interpreter \<Rightarrow> (TfLiteStatus \<times> Interpreter) option" where
  "it_RemoveAllDelegates n K = with_subgraphs (RemoveAllDelegates n K)"

definition delegate_subgraph :: "nat \<Rightarrow> runtime \<Rightarrow> nat \<Rightarrow> Subgraph \<Rightarrow> (TfLiteStatus \<times> Subgraph) option" where
  "delegate_subgraph n K delegate s =
     (if IsValidationSubgraph (sg_name s) \<or> sg_is_delegation_skippable s then Some (kTfLiteOk, s)
      else ModifyGraphWithDelegate n K delegate s)"

definition it_ModifyGraphWithDelegate ::
    "nat \<Rightarrow> runtime \<Rightarrow> nat \<Rightarrow> Interpreter \<Rightarrow> (TfLiteStatus \<times> Interpreter) option" where
  "it_ModifyGraphWithDelegate n K delegate I = (case with_subgraphs (delegate_subgraph n K delegate) I of
     None \<Rightarrow> None
   | Some (st, I1) \<Rightarrow>
      (if st = kTfLiteDelegateError
       then run_status (it_RemoveAllDelegates n K I1) (\<lambda>I. Some (st, I))
       else Some (st, I1)))"

definition it_HasDelegates :: "Interpreter \<Rightarrow> bool" where
  "it_HasDelegates I = HasDelegates (primary_subgraph I)"

text \<open>The default delegates, applied one after the other; a null pointer is skipped.\<close>

fun apply_providers ::
    "nat \<Rightarrow> runtime \<Rightarrow> (nat \<Rightarrow> Subgraph \<Rightarrow> nat) \<Rightarrow> nat list \<Rightarrow> Interpreter \<Rightarrow> (TfLiteStatus \<times> Interpreter) option" where
  "apply_providers n K create [] I = Some (kTfLiteOk, I)"
| "apply_providers n K create (p # ps) I =
     (let delegate = create p (primary_subgraph I) in
      if delegate = 0 then apply_providers n K create ps I
      else (case it_ModifyGraphWithDelegate n K delegate (I\<lparr>it_owned_delegates := it_owned_delegates I @ [delegate]\<rparr>) of
          None \<Rightarrow> None
        | Some (st, I1) \<Rightarrow> (case st of
              kTfLiteOk \<Rightarrow> apply_providers n K create ps I1
            | kTfLiteDelegateError \<Rightarrow> Some (kTfLiteDelegateError, I1)
            | kTfLiteApplicationError \<Rightarrow> Some (kTfLiteApplicationError, I1)
            | kTfLiteUnresolvedOps \<Rightarrow> Some (kTfLiteUnresolvedOps, I1)
            | _ \<Rightarrow> Some (kTfLiteError, I1))))"

definition ApplyLazyDelegateProviders ::
    "nat \<Rightarrow> runtime \<Rightarrow> (nat \<Rightarrow> Subgraph \<Rightarrow> nat) \<Rightarrow> Interpreter \<Rightarrow> (TfLiteStatus \<times> Interpreter) option" where
  "ApplyLazyDelegateProviders n K create I =
     (if it_lazy_delegate_providers I = [] \<or> IsFullyDelegated (primary_subgraph I) then Some (kTfLiteOk, I)
      else apply_providers n K create (it_lazy_delegate_providers I) (I\<lparr>it_lazy_delegate_providers := []\<rparr>))"

section \<open>Allocating and invoking\<close>

definition it_AllocateTensors ::
    "nat \<Rightarrow> runtime \<Rightarrow> (nat \<Rightarrow> Subgraph \<Rightarrow> nat) \<Rightarrow> Interpreter \<Rightarrow> (TfLiteStatus \<times> Interpreter) option" where
  "it_AllocateTensors n K create I = (case ApplyLazyDelegateProviders n K create I of
     None \<Rightarrow> None
   | Some (st, I1) \<Rightarrow>
      (if st = kTfLiteError then Some (kTfLiteError, I1)
       else (case AllocateTensors n K (primary_subgraph I1) of
           None \<Rightarrow> None | Some (st', s) \<Rightarrow> Some (st', set_primary s I1))))"

definition set_continue_flag :: "Interpreter \<Rightarrow> Interpreter" where
  "set_continue_flag I = I\<lparr>it_subgraphs :=
     map (\<lambda>s. s\<lparr>sg_continue_invocation := map_option (\<lambda>_. True) (sg_continue_invocation s)\<rparr>) (it_subgraphs I)\<rparr>"

text \<open>
  \<open>ruy::ScopedSuppressDenormals\<close> sets the mode of floating-point arithmetic for the rest of the function and restores it at the end, so
  it is passed on to the calls.
\<close>

definition suppress_denormals :: "runtime \<Rightarrow> runtime" where
  "suppress_denormals K = K\<lparr>rt_suppress_denormals := True\<rparr>"

definition it_Invoke :: "runtime \<Rightarrow> Interpreter \<Rightarrow> TfLiteStatus \<times> Interpreter" where
  "it_Invoke K I =
     (let I1 = (if it_cancellation_enabled I then set_continue_flag I else I);
          K1 = suppress_denormals K in
      ensure_status (with_primary (Invoke K1) I1) (\<lambda>I.
      if it_allow_buffer_handle_output I then (kTfLiteOk, I)
      else ensure_each (it_EnsureTensorDataIsReadable K1) (sg_outputs (primary_subgraph I)) I))"

section \<open>Destruction\<close>

definition delete_interpreter :: "runtime \<Rightarrow> Interpreter \<Rightarrow> Subgraph list" where
  "delete_interpreter K I = map (delete_subgraph K) (it_subgraphs I)"

section \<open>Retrying on the CPU\<close>

fun save_inputs :: "int list \<Rightarrow> Subgraph \<Rightarrow> byte list option" where
  "save_inputs [] s = Some []"
| "save_inputs (i # is) s = (case sg_tensor i s of
     None \<Rightarrow> None
   | Some t \<Rightarrow> (case (read_tensor t (t_bytes t) s, save_inputs is s) of
         (Some bs, Some rest) \<Rightarrow> Some (bs @ rest) | _ \<Rightarrow> None))"

fun restore_inputs :: "int list \<Rightarrow> byte list \<Rightarrow> Subgraph \<Rightarrow> Subgraph" where
  "restore_inputs [] buf s = s"
| "restore_inputs (i # is) buf s = (case sg_tensor i s of
     None \<Rightarrow> flag_access s
   | Some t \<Rightarrow>
      (if t_bytes t > length buf then flag_access s
       else restore_inputs is (drop (t_bytes t) buf) (write_tensor t (take (t_bytes t) buf) s)))"

text \<open>
  A failed invocation with delegates is tried again without them, on the same inputs. Inputs that cannot be read are an
  access to memory outside of the graph's blocks, which is flagged.
\<close>

definition InvokeWithCPUFallback :: "nat \<Rightarrow> runtime \<Rightarrow> Interpreter \<Rightarrow> (TfLiteStatus \<times> Interpreter) option" where
  "InvokeWithCPUFallback n K I = (case it_Invoke K I of (st, I1) \<Rightarrow>
     if st = kTfLiteOk \<or> it_IsCancelled K I1 \<or> \<not> it_HasDelegates I1 then Some (st, I1)
     else
       run_status (Some (ensure_each (it_EnsureTensorDataIsReadable K) (sg_inputs (primary_subgraph I1)) I1)) (\<lambda>I2.
       case save_inputs (sg_inputs (primary_subgraph I2)) (primary_subgraph I2) of
         None \<Rightarrow> Some (kTfLiteError, set_primary (flag_access (primary_subgraph I2)) I2)
       | Some buf \<Rightarrow>
           run_status (it_RemoveAllDelegates n K I2) (\<lambda>I3.
           let I4 = set_primary (restore_inputs (sg_inputs (primary_subgraph I3)) buf (primary_subgraph I3)) I3 in
           run_status (Some (it_Invoke K I4)) (\<lambda>I5. Some (kTfLiteDelegateError, I5)))))"

section \<open>Reading what was written\<close>

lemma tensor_block_put_block:
  assumes "tensor_block t s = Some (bs, k)" shows "tensor_block t (put_block t cs s) = Some (cs, k)"
  using assms
  by (auto simp: tensor_block_def put_block_def arena_block_def put_arena_bytes_def Let_def
      split: TfLiteAllocationType.splits option.splits if_splits)

lemma read_write_tensor:
  assumes "tensor_block t s = Some (bs, k)" and "k + length vs \<le> length bs"
  shows "read_tensor t (length vs) (write_tensor t vs s) = Some vs"
  using assms by (simp add: read_tensor_def write_tensor_def tensor_block_put_block)

lemma put_block_frame: "kernel_frame s (put_block t bs s)"
  by (rule kernel_frame_update)
     (auto simp: put_block_def same_graph_def graph_shape_def graph_mode_def graph_options_def plan_progress_def
      HasNonPersistentMemory_def [abs_def] option.map_comp comp_def split: TfLiteAllocationType.splits)

lemma flag_access_frame: "kernel_frame s (flag_access s)"
  by (simp add: flag_access_def)

lemma write_tensor_frame: "kernel_frame s (write_tensor t vs s)"
  by (auto simp: write_tensor_def put_block_frame flag_access_frame split: option.split)

lemma put_block_tensors [simp]: "sg_tensors (put_block t bs s) = sg_tensors s"
  by (simp add: put_block_def split: TfLiteAllocationType.split)

lemma write_tensor_tensors [simp]: "sg_tensors (write_tensor t vs s) = sg_tensors s"
  by (simp add: write_tensor_def flag_access_def split: option.split)

lemma restore_inputs_frame: "kernel_frame s (restore_inputs is buf s)"
proof (induction "is" arbitrary: buf s)
  case (Cons i "is")
  have "kernel_frame s (restore_inputs is b (write_tensor t vs s))" for t vs b
    by (rule kernel_frame_trans [OF write_tensor_frame Cons])
  then show ?case by (auto simp: flag_access_frame split: option.split)
qed simp

section \<open>Valid graphs\<close>

definition it_wf :: "Interpreter \<Rightarrow> bool" where
  "it_wf I \<longleftrightarrow> it_subgraphs I \<noteq> [] \<and> (\<forall>s\<in>set (it_subgraphs I). sg_wf s)"

definition it_keeps :: "Interpreter \<Rightarrow> Interpreter \<Rightarrow> bool" where
  "it_keeps I J \<longleftrightarrow> (it_wf I \<longrightarrow> it_wf J)"

interpretation it: frame it_keeps
  by unfold_locales (auto simp: it_keeps_def)

lemma share_flag_same: "same_graph t (share_flag s t)"
  by (simp add: share_flag_def same_graph_def graph_shape_def)

lemma primary_wf: "it_wf I \<Longrightarrow> sg_wf (primary_subgraph I)"
  by (simp add: it_wf_def primary_subgraph_def)

lemma set_primary_wf: "it_wf I \<Longrightarrow> sg_wf s \<Longrightarrow> it_wf (set_primary s I)"
  using same_graph_wf [OF share_flag_same] by (auto simp: it_wf_def set_primary_def dest: list.set_sel(2))

lemma set_primary_keeps: "keeps_wf (primary_subgraph I) s \<Longrightarrow> it_keeps I (set_primary s I)"
  by (simp add: it_keeps_def keeps_wf_def primary_wf set_primary_wf)

lemma with_primary_keeps: "(\<And>s. keeps_wf s (snd (f s))) \<Longrightarrow> it_keeps I (snd (with_primary f I))"
  by (simp add: with_primary_def case_prod_unfold set_primary_keeps)

lemma each_subgraph_wf:
  assumes "\<And>s. wf.runs s (f s)"
  shows "each_subgraph f ss = Some (st, ts) \<Longrightarrow> \<forall>s\<in>set ss. sg_wf s \<Longrightarrow> (\<forall>s\<in>set ts. sg_wf s) \<and> length ts = length ss"
proof (induction ss arbitrary: st ts)
  case (Cons s ss)
  obtain st1 t where t: "f s = Some (st1, t)" using Cons.prems(1) by (cases "f s") auto
  have wf: "sg_wf t" using assms [of s] t Cons.prems(2) by (simp add: wf.runs_def keeps_wf_def)
  show ?case
  proof (cases "st1 = kTfLiteOk")
    case True
    then obtain us where "each_subgraph f ss = Some (st, us)" "ts = t # us"
      using Cons.prems(1) t by (auto split: option.splits)
    then show ?thesis using Cons.IH Cons.prems(2) wf by simp
  next
    case False
    then show ?thesis using Cons.prems t wf by auto
  qed
qed simp

lemma with_subgraphs_keeps: "(\<And>s. wf.runs s (f s)) \<Longrightarrow> it.runs I (with_subgraphs f I)"
  using each_subgraph_wf [of f "it_subgraphs I"]
  by (fastforce simp: it.runs_def with_subgraphs_def it_keeps_def it_wf_def split: option.splits)

lemma map_subgraphs_keeps:
  assumes "\<And>s. keeps_wf s (f s)" shows "it_keeps I (I\<lparr>it_subgraphs := map f (it_subgraphs I)\<rparr>)"
  using assms by (auto simp: it_keeps_def it_wf_def keeps_wf_def)

lemma it_keeps_fields:
  "it_keeps I (I\<lparr>it_owned_delegates := ds\<rparr>)" "it_keeps I (I\<lparr>it_lazy_delegate_providers := ps\<rparr>)"
  "it_keeps I (I\<lparr>it_cancellation_enabled := b\<rparr>)" "it_keeps I (I\<lparr>it_options := opts\<rparr>)"
  by (simp_all add: it_keeps_def it_wf_def)

lemma wf_fields:
  "keeps_wf s (s\<lparr>sg_recommended_num_threads := n\<rparr>)" "keeps_wf s (s\<lparr>sg_continue_invocation := f\<rparr>)"
  "keeps_wf s (SetCancellationFunction c s)"
  by (simp_all add: keeps_wf_def sg_wf_def SetCancellationFunction_def)

lemma SetOptions_wf: "keeps_wf s (SetOptions options s)"
proof -
  have "same_graph s (SetOptions options s)"
    by (rule same_graph_update) (simp_all add: SetOptions_def OptimizeMemoryForLargeTensors_def Let_def split: option.split)
  then show ?thesis by (simp add: keeps_wf_def same_graph_wf)
qed

lemma RemoveAllDelegates_runs: "kernels_ok K \<Longrightarrow> delegates_ok K \<Longrightarrow> wf.runs s (RemoveAllDelegates n K s)"
  unfolding RemoveAllDelegates_def by (rule delegation_runs(2))

lemma delegate_subgraph_runs: "kernels_ok K \<Longrightarrow> delegates_ok K \<Longrightarrow> wf.runs s (delegate_subgraph n K d s)"
  unfolding delegate_subgraph_def ModifyGraphWithDelegate_def
  by (intro wf.runs_if wf.runs_ret delegation_runs(3))

lemma it_ModifyGraph_runs:
  assumes "kernels_ok K" "delegates_ok K" shows "it.runs I (it_ModifyGraphWithDelegate n K d I)"
proof -
  have w: "it.runs I (with_subgraphs (delegate_subgraph n K d) I)" for I
    by (rule with_subgraphs_keeps [OF delegate_subgraph_runs [OF assms]])
  have r: "it.runs I (run_status (it_RemoveAllDelegates n K I) (\<lambda>I. Some (st, I)))" for I st
    unfolding it_RemoveAllDelegates_def
    by (intro it.run_status_runs with_subgraphs_keeps RemoveAllDelegates_runs assms it.runs_ret)
  show ?thesis
  proof (cases "with_subgraphs (delegate_subgraph n K d) I")
    case (Some x)
    obtain st J where x: "x = (st, J)" by (cases x)
    have k: "it_keeps I J" using w [of I] Some x by (simp add: it.runs_def)
    have "it.runs I (run_status (it_RemoveAllDelegates n K J) (\<lambda>I. Some (e, I)))" for e
      using r [of J e] it.frame_trans [OF k] unfolding it.runs_def by blast
    then show ?thesis using Some x k by (simp add: it_ModifyGraphWithDelegate_def it.runs_Some)
  qed (simp add: it_ModifyGraphWithDelegate_def it.runs_def)
qed

lemma it_runs_trans: "it_keeps I J \<Longrightarrow> it.runs J r \<Longrightarrow> it.runs I r"
  unfolding it.runs_def using it.frame_trans by blast

lemma apply_providers_runs:
  assumes "kernels_ok K" "delegates_ok K" shows "it.runs I (apply_providers n K create ps I)"
proof (induction ps arbitrary: I)
  case (Cons p ps)
  define d where "d = create p (primary_subgraph I)"
  define I0 where "I0 = I\<lparr>it_owned_delegates := it_owned_delegates I @ [d]\<rparr>"
  have 0: "it_keeps I I0" unfolding I0_def by (rule it_keeps_fields)
  show ?case
  proof (cases "it_ModifyGraphWithDelegate n K d I0")
    case None
    then show ?thesis using Cons by (simp add: d_def [symmetric] I0_def [symmetric] Let_def it.runs_def)
  next
    case (Some x)
    obtain st J where x: "x = (st, J)" by (cases x)
    have "it_keeps I0 J" using it_ModifyGraph_runs [OF assms, of I0 n d] Some x by (simp add: it.runs_def)
    with 0 have k: "it_keeps I J" by (rule it.frame_trans)
    have "it.runs I (apply_providers n K create ps J)" by (rule it_runs_trans [OF k Cons])
    moreover have "it.runs I (Some (e, J))" for e using k by (simp add: it.runs_Some)
    ultimately show ?thesis using Some x Cons
      by (simp add: d_def [symmetric] I0_def [symmetric] Let_def split: TfLiteStatus.split)
  qed
qed (simp add: it.runs_ret)

lemma ApplyLazy_runs: "kernels_ok K \<Longrightarrow> delegates_ok K \<Longrightarrow> it.runs I (ApplyLazyDelegateProviders n K create I)"
  unfolding ApplyLazyDelegateProviders_def
  by (intro it.runs_if it.runs_ret it_runs_trans [OF it_keeps_fields(2) apply_providers_runs])

lemma it_AllocateTensors_runs:
  assumes "kernels_ok K" "delegates_ok K" shows "it.runs I (it_AllocateTensors n K create I)"
proof (cases "ApplyLazyDelegateProviders n K create I")
  case (Some x)
  obtain st J where x: "x = (st, J)" by (cases x)
  have k: "it_keeps I J" using ApplyLazy_runs [OF assms, of I n create] Some x by (simp add: it.runs_def)
  have "keeps_wf (primary_subgraph J) s" if "AllocateTensors n K (primary_subgraph J) = Some (e, s)" for e s
    using delegation_runs(1) [OF assms assms(1), of "primary_subgraph J" n] that
    by (simp add: AllocateTensors_def wf.runs_def)
  then show ?thesis using Some x k it.frame_trans [OF k set_primary_keeps]
    by (auto simp: it_AllocateTensors_def it.runs_def split: option.splits if_splits)
qed (simp add: it_AllocateTensors_def it.runs_def)

lemma it_EnsureTensorDataIsReadable_keeps: "kernels_ok K \<Longrightarrow> it_keeps I (snd (it_EnsureTensorDataIsReadable K i I))"
  unfolding it_EnsureTensorDataIsReadable_def
  by (rule with_primary_keeps) (rule same_keeps [OF kernel_same [OF EnsureTensorDataIsReadable_frame]])

lemma suppress_kernels_ok [simp]: "kernels_ok (suppress_denormals K) = kernels_ok K"
  by (simp add: suppress_denormals_def kernels_ok_def)

lemma it_Invoke_keeps:
  assumes "kernels_ok K" shows "it_keeps I (snd (it_Invoke K I))"
proof -
  have ok: "kernels_ok (suppress_denormals K)" using assms by simp
  have 1: "it_keeps I (if it_cancellation_enabled I then set_continue_flag I else I)"
    using map_subgraphs_keeps [OF wf_fields(2)] by (simp add: set_continue_flag_def it.frame_refl)
  have 2: "it_keeps J (snd (with_primary (Invoke (suppress_denormals K)) J))" for J
    by (rule with_primary_keeps [OF same_keeps [OF Invoke_same [OF ok]]])
  have 3: "it_keeps J (snd (if it_allow_buffer_handle_output J then (kTfLiteOk, J)
      else ensure_each (it_EnsureTensorDataIsReadable (suppress_denormals K)) (sg_outputs (primary_subgraph J)) J))" for J
    by (simp add: it.frame_refl it.ensure_each_frame [OF it_EnsureTensorDataIsReadable_keeps [OF ok]])
  show ?thesis unfolding it_Invoke_def Let_def
    by (rule it.ensure_status_frame [OF it.frame_trans [OF 1 2] 3])
qed

lemma InvokeWithCPUFallback_runs:
  assumes "kernels_ok K" "delegates_ok K" shows "it.runs I (InvokeWithCPUFallback n K I)"
proof -
  obtain st I1 where i: "it_Invoke K I = (st, I1)" by (cases "it_Invoke K I")
  have 1: "it_keeps I I1" using it_Invoke_keeps [OF assms(1), of I] i by simp
  have r: "it.runs J (Some (ensure_each (it_EnsureTensorDataIsReadable K) is J))" for J "is"
    by (rule it.runs_Some [OF it.ensure_each_frame [OF it_EnsureTensorDataIsReadable_keeps [OF assms(1)]]])
  have s: "it_keeps J (set_primary (f (primary_subgraph J)) J)" if "\<And>s. kernel_frame s (f s)" for f J
    by (rule set_primary_keeps [OF same_keeps [OF kernel_same [OF that]]])
  have again: "it.runs J (let I4 = set_primary (restore_inputs (sg_inputs (primary_subgraph J)) buf (primary_subgraph J)) J
      in run_status (Some (it_Invoke K I4)) (\<lambda>I5. Some (kTfLiteDelegateError, I5)))" for J buf
    unfolding Let_def
    by (rule it_runs_trans [OF s [of "\<lambda>p. restore_inputs (sg_inputs p) buf p", OF restore_inputs_frame]])
       (intro it.run_status_runs it.runs_Some it_Invoke_keeps [OF assms(1)] it.runs_ret)
  have retry: "it.runs J (case save_inputs (sg_inputs (primary_subgraph J)) (primary_subgraph J) of
         None \<Rightarrow> Some (kTfLiteError, set_primary (flag_access (primary_subgraph J)) J)
       | Some buf \<Rightarrow> run_status (it_RemoveAllDelegates n K J) (\<lambda>I3.
           let I4 = set_primary (restore_inputs (sg_inputs (primary_subgraph I3)) buf (primary_subgraph I3)) I3 in
           run_status (Some (it_Invoke K I4)) (\<lambda>I5. Some (kTfLiteDelegateError, I5))))" for J
    using s [of flag_access J] it.run_status_runs [OF with_subgraphs_keeps [OF RemoveAllDelegates_runs [OF assms]] again]
    by (auto simp: flag_access_frame it_RemoveAllDelegates_def it.runs_Some split: option.split)
  show ?thesis
    using i it_runs_trans [OF 1 it.run_status_runs [OF r retry]] it.runs_Some [of I "(st, I1)"] 1
    by (simp add: InvokeWithCPUFallback_def)
qed

section \<open>Reachable interpreters\<close>

text \<open>One call of an operation of the interpreter, with any arguments.\<close>

inductive it_step :: "runtime \<Rightarrow> Interpreter \<Rightarrow> Interpreter \<Rightarrow> bool" for K where
  "AddSubgraphs n I = (i, J) \<Longrightarrow> it_step K I J"
| "it_SetInputs xs I = (st, J) \<Longrightarrow> it_step K I J"
| "it_SetOutputs xs I = (st, J) \<Longrightarrow> it_step K I J"
| "it_SetVariables xs I = (st, J) \<Longrightarrow> it_step K I J"
| "it_AddTensors n I = (st, i, J) \<Longrightarrow> it_step K I J"
| "it_AddNodeWithParameters K inputs outputs d n b reg I = (st, k, J) \<Longrightarrow> it_step K I J"
| "it_SetExecutionPlan xs I = (st, J) \<Longrightarrow> it_step K I J"
| "it_ResizeInputTensor K i xs I = (st, J) \<Longrightarrow> it_step K I J"
| "it_ReleaseNonPersistentMemory I = (st, J) \<Longrightarrow> it_step K I J"
| "it_SetCustomAllocationForTensor i ca b I = (st, J) \<Longrightarrow> it_step K I J"
| "SetNumThreads i I = (st, J) \<Longrightarrow> it_step K I J"
| "ApplyOptionsImpl opts I = (st, J) \<Longrightarrow> it_step K I J"
| "it_Cancel I = (st, J) \<Longrightarrow> it_step K I J"
| "it_SetCancellationFunction n I = J \<Longrightarrow> it_step K I J"
| "it_EnableCancellation I = (st, J) \<Longrightarrow> it_step K I J"
| "it_ResetVariableTensors I = Some (st, J) \<Longrightarrow> it_step K I J"
| "it_ModifyGraphWithDelegate n K d I = Some (st, J) \<Longrightarrow> it_step K I J"
| "it_AllocateTensors n K create I = Some (st, J) \<Longrightarrow> it_step K I J"
| "it_Invoke K I = (st, J) \<Longrightarrow> it_step K I J"
| "InvokeWithCPUFallback n K I = Some (st, J) \<Longrightarrow> it_step K I J"

inductive interpreter_step :: "Interpreter \<Rightarrow> Interpreter \<Rightarrow> bool" where
  "kernels_ok K \<Longrightarrow> delegates_ok K \<Longrightarrow> it_step K I J \<Longrightarrow> interpreter_step I J"

lemma new_subgraph_wf [simp]: "sg_wf new_subgraph"
  by (simp add: new_subgraph_def sg_wf_def)

lemma primary_ops_keep:
  "it_keeps I (snd (it_SetInputs xs I))" "it_keeps I (snd (it_SetOutputs xs I))" "it_keeps I (snd (it_SetVariables xs I))"
  "it_keeps I (snd (it_SetExecutionPlan xs I))" "kernels_ok K \<Longrightarrow> it_keeps I (snd (it_ResizeInputTensor K i xs I))"
  "it_keeps I (snd (it_ReleaseNonPersistentMemory I))" "it_keeps I (snd (it_SetCustomAllocationForTensor i ca b I))"
  "it_keeps I (snd (it_Cancel I))"
  unfolding it_SetInputs_def it_SetOutputs_def it_SetVariables_def it_SetExecutionPlan_def it_ResizeInputTensor_def
    it_ReleaseNonPersistentMemory_def it_SetCustomAllocationForTensor_def it_Cancel_def
  by (intro with_primary_keeps; simp add: keeps_wf_def index_setters_wf SetExecutionPlan_wf
      same_graph_wf [OF release_same(1)] same_graph_wf [OF SetCustomAllocationForTensor_same]
      same_graph_wf [OF cancel_same(1)] ResizeInputTensor_wf [unfolded keeps_wf_def])+

lemma it_AddTensors_keeps: "it_keeps I (snd (snd (it_AddTensors n I)))"
  by (simp add: it_AddTensors_def case_prod_unfold set_primary_keeps same_keeps AddTensors_same)

lemma it_AddNode_keeps:
  "kernels_ok K \<Longrightarrow> it_keeps I (snd (snd (it_AddNodeWithParameters K inputs outputs d n b reg I)))"
  using AddNodeWithParameters_wf
  by (simp add: it_AddNodeWithParameters_def case_prod_unfold set_primary_keeps keeps_wf_def)

lemma settings_keep:
  "it_keeps I (snd (AddSubgraphs n I))" "it_keeps I (snd (SetNumThreads i I))" "it_keeps I (snd (ApplyOptionsImpl opts I))"
  "it_keeps I (it_SetCancellationFunction c I)"
  using wf_fields(1,3) SetOptions_wf
  by (auto simp: AddSubgraphs_def SetNumThreads_def ApplyOptionsImpl_def it_SetCancellationFunction_def
      keeps_wf_def it_keeps_def it_wf_def Let_def)

lemma it_EnableCancellation_keeps: "it_keeps I (snd (it_EnableCancellation I))"
proof -
  let ?I = "I\<lparr>it_cancellation_enabled := True\<rparr>"
  have "it.runs ?I (with_subgraphs (\<lambda>s. Some (EnableCancellation b s)) ?I)" for b
    by (intro with_subgraphs_keeps wf.runs_Some) (simp add: EnableCancellation_def wf_fields)
  then have "it_keeps ?I J" if "with_subgraphs (\<lambda>s. Some (EnableCancellation (current_flag I) s)) ?I = Some (st, J)" for st J
    using that by (simp add: it.runs_def)
  then have "it_keeps I J" if "with_subgraphs (\<lambda>s. Some (EnableCancellation (current_flag I) s)) ?I = Some (st, J)" for st J
    using that it.frame_trans [OF it_keeps_fields(3)] by blast
  then show ?thesis
    by (auto simp: it_EnableCancellation_def Let_def it_keeps_fields split: option.splits)
qed

lemma it_ResetVariableTensors_runs: "it.runs I (it_ResetVariableTensors I)"
  unfolding it_ResetVariableTensors_def
  by (intro with_subgraphs_keeps wf.runs_Some same_keeps alloc_same ResetVariableTensors_frame)

lemma it_step_keeps:
  assumes "kernels_ok K" "delegates_ok K" and "it_step K I J" shows "it_keeps I J"
  using assms(3)
  by (cases; metis snd_conv settings_keep primary_ops_keep(1-4,6-8) primary_ops_keep(5) [OF assms(1)] it_AddTensors_keeps
      it_AddNode_keeps [OF assms(1)] it_EnableCancellation_keeps it.runs_def it_ResetVariableTensors_runs
      it_ModifyGraph_runs [OF assms(1,2)] it_AllocateTensors_runs [OF assms(1,2)] it_Invoke_keeps [OF assms(1)]
      InvokeWithCPUFallback_runs [OF assms(1,2)])

lemma new_interpreter_wf: "it_wf new_interpreter"
  by (simp add: new_interpreter_def AddSubgraphs_def it_wf_def)

interpretation interp: transition_system "\<lambda>I. I = new_interpreter" interpreter_step it_wf
proof
  show "I = new_interpreter \<Longrightarrow> it_wf I" for I by (simp add: new_interpreter_wf)
  show "it_wf I \<Longrightarrow> interpreter_step I J \<Longrightarrow> it_wf J" for I J
    using it_step_keeps unfolding it_keeps_def by (auto elim!: interpreter_step.cases)
qed

section \<open>Properties of the interpreter\<close>

text \<open>
  Whatever operations are called on an interpreter, as long as kernels and delegates keep to the interface of the
  context: it has a primary subgraph, and in all its subgraphs every tensor and node index is valid.
\<close>

lemma interpreter_graphs_valid:
  assumes "reachable (\<lambda>I. I = new_interpreter) interpreter_step I"
  shows "it_subgraphs I \<noteq> [] \<and> (\<forall>s\<in>set (it_subgraphs I). sg_wf s)"
  using interp.reachable_inv [OF assms] by (simp add: it_wf_def)

lemma interpreter_graphs_valid_witness:
  "let J = snd (it_SetInputs [0, 7] (snd (snd (it_AddTensors 2 new_interpreter))))
   in it_subgraphs J \<noteq> [] \<and> (\<forall>s\<in>set (it_subgraphs J). sg_wf s) \<and> \<not> sg_consistent (primary_subgraph J)"
proof -
  let ?I = "snd (snd (it_AddTensors 2 new_interpreter))"
  let ?J = "snd (it_SetInputs [0, 7] ?I)"
  have "it_step w_runtime new_interpreter ?I" 
    by (rule it_step.intros(5) [of 2 _ "fst (it_AddTensors 2 new_interpreter)" "fst (snd (it_AddTensors 2 new_interpreter))"]) simp
  moreover have "it_step w_runtime ?I ?J" by (rule it_step.intros(2) [of "[0, 7]" _ "fst (it_SetInputs [0, 7] ?I)"]) simp
  ultimately have "reachable (\<lambda>I. I = new_interpreter) interpreter_step ?J"
    using w_runtime_ok by (blast intro: reachable.intros interpreter_step.intros)
  from interpreter_graphs_valid [OF this] show ?thesis
    by (simp add: Let_def it_SetInputs_def with_primary_def it_AddTensors_def AddTensors_def new_interpreter_def
        AddSubgraphs_def primary_subgraph_def set_primary_def SetInputs_def CheckTensorIndices_def new_subgraph_def
        ensure_status_def)
qed

lemma each_subgraph_returns: "(\<And>s. \<exists>st t. f s = Some (st, t)) \<Longrightarrow> \<exists>st ts. each_subgraph f ss = Some (st, ts)"
proof (induction ss)
  case (Cons s ss)
  obtain st t where "f s = Some (st, t)" using Cons.prems by blast
  moreover obtain st' ts where "each_subgraph f ss = Some (st', ts)" using Cons by blast
  ultimately show ?case by simp
qed simp

lemma with_subgraphs_returns: "(\<And>s. \<exists>st t. f s = Some (st, t)) \<Longrightarrow> \<exists>st J. with_subgraphs f I = Some (st, J)"
  using each_subgraph_returns [of f "it_subgraphs I"] by (auto simp: with_subgraphs_def)

lemma it_RemoveAllDelegates_returns: "kernels_ok K \<Longrightarrow> \<exists>st J. it_RemoveAllDelegates n K I = Some (st, J)"
  unfolding it_RemoveAllDelegates_def by (intro with_subgraphs_returns remove_returns)

lemma it_ModifyGraph_returns:
  assumes "kernels_ok K" "delegates_keep_flag K"
  shows "\<exists>st J. it_ModifyGraphWithDelegate (Suc n) K d I = Some (st, J)"
proof -
  have "\<exists>st t. delegate_subgraph (Suc n) K d s = Some (st, t)" for s
    using modify_returns [OF assms, of n d s] by (auto simp: delegate_subgraph_def)
  from with_subgraphs_returns [of "delegate_subgraph (Suc n) K d", OF this]
  obtain st J where "with_subgraphs (delegate_subgraph (Suc n) K d) I = Some (st, J)" by blast
  moreover obtain st' J' where "it_RemoveAllDelegates (Suc n) K J = Some (st', J')"
    using it_RemoveAllDelegates_returns [OF assms(1)] by blast
  ultimately show ?thesis by (simp add: it_ModifyGraphWithDelegate_def run_status_def)
qed

lemma it_ModifyGraph_providers:
  "it_ModifyGraphWithDelegate n K d I = Some (st, J) \<Longrightarrow> it_lazy_delegate_providers J = it_lazy_delegate_providers I"
  by (auto simp: it_ModifyGraphWithDelegate_def it_RemoveAllDelegates_def with_subgraphs_def run_status_def
      split: option.splits if_splits)

lemma apply_providers_returns:
  assumes "kernels_ok K" "delegates_keep_flag K"
  shows "\<exists>st J. apply_providers (Suc n) K create ps I = Some (st, J) \<and>
    it_lazy_delegate_providers J = it_lazy_delegate_providers I"
proof (induction ps arbitrary: I)
  case (Cons p ps)
  define d where "d = create p (primary_subgraph I)"
  define I0 where "I0 = I\<lparr>it_owned_delegates := it_owned_delegates I @ [d]\<rparr>"
  obtain st J where m: "it_ModifyGraphWithDelegate (Suc n) K d I0 = Some (st, J)"
    using it_ModifyGraph_returns [OF assms] by blast
  then have "it_lazy_delegate_providers J = it_lazy_delegate_providers I"
    using it_ModifyGraph_providers by (fastforce simp: I0_def)
  then show ?case using m Cons.IH [of J] Cons.IH [of I]
    by (auto simp: d_def [symmetric] I0_def [symmetric] Let_def split: TfLiteStatus.split)
qed simp

lemma ApplyLazy_returns:
  assumes "kernels_ok K" "delegates_keep_flag K"
  shows "\<exists>st J. ApplyLazyDelegateProviders (Suc n) K create I = Some (st, J)"
  using apply_providers_returns [OF assms] by (fastforce simp: ApplyLazyDelegateProviders_def)

lemma it_AllocateTensors_returns:
  assumes "kernels_ok K" "delegates_keep_flag K"
  shows "\<exists>st J. it_AllocateTensors (Suc n) K create I = Some (st, J)"
proof -
  obtain st J where "ApplyLazyDelegateProviders (Suc n) K create I = Some (st, J)" using ApplyLazy_returns [OF assms] by blast
  moreover obtain st' t where "AllocateTensors (Suc n) K (primary_subgraph J) = Some (st', t)"
    using allocate_returns [OF assms, of n "primary_subgraph J"] by blast
  ultimately show ?thesis by (simp add: it_AllocateTensors_def)
qed

text \<open>
  Default delegates are applied at most once and cannot make allocation fail unless one reports a plain error: applying
  them ends, a second application changes nothing, and \<open>AllocateTensors\<close> returns \<open>kTfLiteError\<close> at once when applying them
  returned it and otherwise allocates the primary graph, whatever other status they returned.
\<close>

lemma lazy_delegates_once:
  assumes "kernels_ok K" and "delegates_keep_flag K"
  shows "\<exists>st J. ApplyLazyDelegateProviders (Suc n) K create I = Some (st, J) \<and>
    ApplyLazyDelegateProviders (Suc n) K create J = Some (kTfLiteOk, J) \<and>
    it_AllocateTensors (Suc n) K create I =
      (if st = kTfLiteError then Some (kTfLiteError, J)
       else map_option (\<lambda>(st', s). (st', set_primary s J)) (AllocateTensors (Suc n) K (primary_subgraph J)))"
proof -
  obtain st J where a: "ApplyLazyDelegateProviders (Suc n) K create I = Some (st, J)"
    and p: "it_lazy_delegate_providers J = [] \<or> IsFullyDelegated (primary_subgraph J)"
    using apply_providers_returns [OF assms, of n create "it_lazy_delegate_providers I" "I\<lparr>it_lazy_delegate_providers := []\<rparr>"]
    by (cases "it_lazy_delegate_providers I = [] \<or> IsFullyDelegated (primary_subgraph I)")
       (auto simp: ApplyLazyDelegateProviders_def)
  have "ApplyLazyDelegateProviders (Suc n) K create J = Some (kTfLiteOk, J)"
    using p by (auto simp: ApplyLazyDelegateProviders_def)
  then show ?thesis using a by (auto simp: it_AllocateTensors_def split: option.split)
qed

lemma lazy_delegates_once_witness:
  "let I = new_interpreter\<lparr>it_subgraphs := [w_static], it_lazy_delegate_providers := [3, 4]\<rparr>;
       create = (\<lambda>p s. if p = 3 then 0 else p)
   in \<exists>st J. ApplyLazyDelegateProviders (Suc 0) w_runtime create I = Some (st, J) \<and>
        ApplyLazyDelegateProviders (Suc 0) w_runtime create J = Some (kTfLiteOk, J)"
proof -
  have "delegates_keep_flag w_runtime" by (simp add: delegates_keep_flag_def w_runtime_def)
  from lazy_delegates_once [OF w_runtime_ok(1) this] show ?thesis unfolding Let_def by blast
qed

section \<open>Cancellation\<close>

lemma cancelled_node:
  assumes "invoke_ready s" and "k < length (sg_execution_plan s)"
  shows "invoke_node K (int k) (s\<lparr>sg_continue_invocation := Some False\<rparr>) =
    (kTfLiteCancelled, s\<lparr>sg_continue_invocation := Some True\<rparr>)"
proof -
  let ?t = "s\<lparr>sg_continue_invocation := Some False\<rparr>" and ?i = "sg_execution_plan s ! k"
  have i: "?i \<in> set (sg_execution_plan s)" using assms(2) by simp
  have node: "sg_node ?i ?t = sg_node ?i s" by (simp add: sg_node_def)
  have "ensure_each (check_node_input K ?i) [0..<length (nd_inputs (sg_node ?i ?t))] ?t = (kTfLiteOk, ?t)"
    by (rule check_node_inputs) (use assms(1) i node in \<open>simp add: invoke_ready_def\<close>)
  moreover have "int k \<noteq> sg_next_execution_plan_index_to_prepare s" "sg_options s = None" "sg_check_cancelled_func s = 0"
    using assms by (auto simp: invoke_ready_def)
  ultimately show ?thesis
    by (simp add: invoke_node_def Let_def ensure_status_def MayAllocateOpOutput_def
        ShouldOptimizeMemoryForLargeTensors_def check_cancellation_def)
qed

lemma flag_set_again:
  fixes s t :: Subgraph
  defines "f \<equiv> \<lambda>s :: Subgraph. s\<lparr>sg_continue_invocation := map_option (\<lambda>_. True) (sg_continue_invocation s)\<rparr>"
  shows "f (share_flag s t) = f t" "f (snd (Cancel s)) = f s"
  by (cases "sg_continue_invocation s"; cases "sg_continue_invocation t"; simp add: f_def share_flag_def)
     (cases "sg_continue_invocation s"; simp add: f_def Cancel_def)

lemma set_continue_after_cancel:
  assumes "it_subgraphs I \<noteq> []" shows "set_continue_flag (snd (it_Cancel I)) = set_continue_flag I"
proof -
  obtain s ss where "it_subgraphs I = s # ss" using assms by (cases "it_subgraphs I") auto
  then show ?thesis
    by (simp add: set_continue_flag_def it_Cancel_def with_primary_def case_prod_unfold set_primary_def primary_subgraph_def
        flag_set_again)
qed

lemma it_Cancel_settings [simp]:
  "it_cancellation_enabled (snd (it_Cancel I)) = it_cancellation_enabled I"
  by (simp add: it_Cancel_def with_primary_def case_prod_unfold set_primary_def)

text \<open>
  \<open>Cancel\<close> between two nodes of a running invocation stops it: no kernel of the remaining nodes is run and the status is
  \<open>kTfLiteCancelled\<close>. A \<open>Cancel\<close> before \<open>Invoke\<close> has no effect, since \<open>Invoke\<close> sets the flag first.
\<close>

lemma cancel_stops_invoke:
  assumes "invoke_ready s" and "sg_continue_invocation s \<noteq> None" and "k < length (sg_execution_plan s)"
    and "it_subgraphs I \<noteq> []" and "it_cancellation_enabled I"
  shows "ensure_each (invoke_node K) (map int (k # ks)) (snd (Cancel s)) =
      (kTfLiteCancelled, s\<lparr>sg_continue_invocation := Some True\<rparr>) \<and>
    it_Invoke K (snd (it_Cancel I)) = it_Invoke K I"
proof -
  have "snd (Cancel s) = s\<lparr>sg_continue_invocation := Some False\<rparr>"
    using assms(2) by (auto simp: Cancel_def)
  then have "ensure_each (invoke_node K) (map int (k # ks)) (snd (Cancel s)) =
      (kTfLiteCancelled, s\<lparr>sg_continue_invocation := Some True\<rparr>)"
    using cancelled_node [OF assms(1,3)] by (simp add: ensure_status_def)
  moreover have "it_Invoke K (snd (it_Cancel I)) = it_Invoke K I"
    using assms(4,5) set_continue_after_cancel by (simp add: it_Invoke_def)
  ultimately show ?thesis by blast
qed

lemma cancel_stops_invoke_witness:
  "let s = w_ready\<lparr>sg_continue_invocation := Some True\<rparr>;
       I = new_interpreter\<lparr>it_subgraphs := [s], it_cancellation_enabled := True\<rparr>
   in ensure_each (invoke_node w_runtime) [1, 2] (snd (Cancel s)) = (kTfLiteCancelled, s) \<and>
      it_Invoke w_runtime (snd (it_Cancel I)) = it_Invoke w_runtime I"
proof -
  let ?s = "w_ready\<lparr>sg_continue_invocation := Some True\<rparr>"
  let ?I = "new_interpreter\<lparr>it_subgraphs := [?s], it_cancellation_enabled := True\<rparr>"
  have "invoke_ready w_ready" by (rule w_ready_ok)
  then have "invoke_ready ?s" by (simp add: invoke_ready_def has_memory_def sg_node_def)
  moreover have "sg_execution_plan w_ready = [0, 2, 1]" by (simp add: w_ready_def)
  ultimately show ?thesis
    using cancel_stops_invoke [of ?s 1 ?I w_runtime "[2]"] by (simp add: Let_def)
qed

section \<open>Falling back to the CPU\<close>

lemma run_status_not_ok:
  "run_status r (\<lambda>J. Some (kTfLiteDelegateError, J)) = Some (st, J) \<Longrightarrow> st \<noteq> kTfLiteOk"
  by (auto simp: run_status_def split: option.splits if_splits prod.splits)

text \<open>
  Invoking with a fallback to the CPU ends and reports success exactly when the first invocation succeeded: a successful
  retry without delegates is reported as \<open>kTfLiteDelegateError\<close>.
\<close>

lemma fallback_reports_failure:
  assumes "kernels_ok K"
  shows "\<exists>st J. InvokeWithCPUFallback n K I = Some (st, J) \<and> (st = kTfLiteOk \<longleftrightarrow> fst (it_Invoke K I) = kTfLiteOk)"
proof -
  obtain st I1 where i: "it_Invoke K I = (st, I1)" by (cases "it_Invoke K I")
  show ?thesis
  proof (cases "st = kTfLiteOk \<or> it_IsCancelled K I1 \<or> \<not> it_HasDelegates I1")
    case True
    then show ?thesis using i by (simp add: InvokeWithCPUFallback_def)
  next
    case False
    define again where "again J buf = (let I4 = set_primary (restore_inputs (sg_inputs (primary_subgraph J)) buf (primary_subgraph J)) J
      in run_status (Some (it_Invoke K I4)) (\<lambda>I5. Some (kTfLiteDelegateError, I5)))" for J buf
    have again: "\<exists>e L. again J buf = Some (e, L) \<and> e \<noteq> kTfLiteOk" for J buf
      by (auto simp: again_def Let_def run_status_def split: prod.split)
    have retry: "\<exists>e L. run_status (it_RemoveAllDelegates n K J) (\<lambda>J. again J buf) = Some (e, L) \<and> e \<noteq> kTfLiteOk" for J buf
      using it_RemoveAllDelegates_returns [OF assms, of n J] again by (auto simp: run_status_def)
    obtain e I2 where r: "ensure_each (it_EnsureTensorDataIsReadable K) (sg_inputs (primary_subgraph I1)) I1 = (e, I2)"
      by (cases "ensure_each (it_EnsureTensorDataIsReadable K) (sg_inputs (primary_subgraph I1)) I1")
    have "\<exists>e L. InvokeWithCPUFallback n K I = Some (e, L) \<and> e \<noteq> kTfLiteOk"
      using i r False retry [of I2, unfolded again_def]
      by (auto simp: InvokeWithCPUFallback_def run_status_def [of "Some (e, I2)"] split: option.split)
    then show ?thesis using i False by auto
  qed
qed

lemma fallback_reports_failure_witness:
  "let I = new_interpreter\<lparr>it_subgraphs := [w_static\<lparr>sg_delegates_applied := [7]\<rparr>]\<rparr>
   in \<exists>st J. InvokeWithCPUFallback 0 w_runtime I = Some (st, J) \<and> st \<noteq> kTfLiteOk"
proof -
  let ?I = "new_interpreter\<lparr>it_subgraphs := [w_static\<lparr>sg_delegates_applied := [7]\<rparr>]\<rparr>"
  have "fst (it_Invoke w_runtime ?I) = kTfLiteError"
    by (simp add: it_Invoke_def with_primary_def primary_subgraph_def new_interpreter_def AddSubgraphs_def Invoke_def
        w_static_def new_subgraph_def ensure_status_def)
  with fallback_reports_failure [OF w_runtime_ok(1), of 0 ?I] show ?thesis by (auto simp: Let_def)
qed

end
