(* ===== verification/OpResolver.thy ===== *)
theory OpResolver
  imports Subgraph
begin

text \<open>
  Resolution of operators to kernels (\<open>lite/mutable_op_resolver.h\<close>, \<open>mutable_op_resolver.cc\<close>, \<open>lite/core/api/op_resolver.cc\<close>,
  \<open>lite/core/c/c_api.cc\<close>): the registry that maps operator codes and names, each with a version, to registrations, and the
  resolver that forwards to callbacks. A registration is returned by value; the functions of other resolvers and the
  callbacks are parameters, that is fields of the records that hold them.
\<close>

section \<open>State\<close>

text \<open>The virtual functions of the class \<open>OpResolver\<close>.\<close>

record OpResolver =
  or_find_builtin :: "int \<Rightarrow> int \<Rightarrow> TfLiteRegistration option"
  or_find_custom :: "string \<Rightarrow> int \<Rightarrow> TfLiteRegistration option"
  or_may_contain_user_defined_ops :: bool

record MutableOpResolver =
  mr_builtins :: "int \<times> int \<Rightarrow> TfLiteRegistration option"
  mr_custom_ops :: "string \<times> int \<Rightarrow> TfLiteRegistration option"
  mr_other_op_resolvers :: "OpResolver list"
  mr_may_directly_contain_user_defined_ops :: bool

definition new_op_resolver :: MutableOpResolver where
  "new_op_resolver = \<lparr>mr_builtins = (\<lambda>_. None), mr_custom_ops = (\<lambda>_. None), mr_other_op_resolvers = [],
     mr_may_directly_contain_user_defined_ops = False\<rparr>"

section \<open>Lookup\<close>

text \<open>The first resolver of the chain that knows the operator.\<close>

fun find_chained :: "(OpResolver \<Rightarrow> TfLiteRegistration option) \<Rightarrow> OpResolver list \<Rightarrow> TfLiteRegistration option" where
  "find_chained f [] = None"
| "find_chained f (x # xs) = (case f x of Some reg \<Rightarrow> Some reg | None \<Rightarrow> find_chained f xs)"

definition FindOp_builtin :: "MutableOpResolver \<Rightarrow> int \<Rightarrow> int \<Rightarrow> TfLiteRegistration option" where
  "FindOp_builtin r op version = (case mr_builtins r (op, version) of
     Some reg \<Rightarrow> Some reg
   | None \<Rightarrow> find_chained (\<lambda>x. or_find_builtin x op version) (mr_other_op_resolvers r))"

definition FindOp_custom :: "MutableOpResolver \<Rightarrow> string \<Rightarrow> int \<Rightarrow> TfLiteRegistration option" where
  "FindOp_custom r op version = (case mr_custom_ops r (op, version) of
     Some reg \<Rightarrow> Some reg
   | None \<Rightarrow> find_chained (\<lambda>x. or_find_custom x op version) (mr_other_op_resolvers r))"

section \<open>Registration\<close>

text \<open>A null registration is ignored.\<close>

definition AddBuiltin :: "int \<Rightarrow> TfLiteRegistration option \<Rightarrow> int \<Rightarrow> MutableOpResolver \<Rightarrow> MutableOpResolver" where
  "AddBuiltin op registration version r = (case registration of
     None \<Rightarrow> r
   | Some reg \<Rightarrow> r\<lparr>mr_builtins := (mr_builtins r)((op, version) \<mapsto>
         reg\<lparr>rg_custom_name := None, rg_builtin_code := op, rg_version := version\<rparr>),
       mr_may_directly_contain_user_defined_ops := True\<rparr>)"

definition AddBuiltin_versions ::
    "int \<Rightarrow> TfLiteRegistration option \<Rightarrow> int \<Rightarrow> int \<Rightarrow> MutableOpResolver \<Rightarrow> MutableOpResolver" where
  "AddBuiltin_versions op registration min_version max_version r =
     fold (AddBuiltin op registration) [min_version..max_version] r"

definition AddCustom :: "string \<Rightarrow> TfLiteRegistration \<Rightarrow> int \<Rightarrow> MutableOpResolver \<Rightarrow> MutableOpResolver" where
  "AddCustom name reg version r =
     r\<lparr>mr_custom_ops := (mr_custom_ops r)((name, version) \<mapsto>
         reg\<lparr>rg_builtin_code := kTfLiteBuiltinCustom, rg_custom_name := Some name, rg_version := version\<rparr>),
       mr_may_directly_contain_user_defined_ops := True\<rparr>"

definition AddCustom_versions ::
    "string \<Rightarrow> TfLiteRegistration \<Rightarrow> int \<Rightarrow> int \<Rightarrow> MutableOpResolver \<Rightarrow> MutableOpResolver" where
  "AddCustom_versions name reg min_version max_version r = fold (AddCustom name reg) [min_version..max_version] r"

definition AddAll :: "MutableOpResolver \<Rightarrow> MutableOpResolver \<Rightarrow> MutableOpResolver" where
  "AddAll other r =
     r\<lparr>mr_builtins := mr_builtins r ++ mr_builtins other, mr_custom_ops := mr_custom_ops r ++ mr_custom_ops other,
       mr_other_op_resolvers := mr_other_op_resolvers other @ mr_other_op_resolvers r\<rparr>"

definition ChainOpResolver :: "OpResolver \<Rightarrow> MutableOpResolver \<Rightarrow> MutableOpResolver" where
  "ChainOpResolver other r = r\<lparr>mr_other_op_resolvers := mr_other_op_resolvers r @ [other]\<rparr>"

definition MayContainUserDefinedOps :: "MutableOpResolver \<Rightarrow> bool" where
  "MayContainUserDefinedOps r \<longleftrightarrow> mr_may_directly_contain_user_defined_ops r \<or>
     list_ex or_may_contain_user_defined_ops (mr_other_op_resolvers r)"

text \<open>A mutable resolver as an \<open>OpResolver\<close>.\<close>

definition as_op_resolver :: "MutableOpResolver \<Rightarrow> OpResolver" where
  "as_op_resolver r = \<lparr>or_find_builtin = FindOp_builtin r, or_find_custom = FindOp_custom r,
     or_may_contain_user_defined_ops = MayContainUserDefinedOps r\<rparr>"

section \<open>Operator codes of a model\<close>

record OperatorCode =
  oc_builtin_code :: int
  oc_deprecated_builtin_code :: int
  oc_custom_code :: "string option"
  oc_version :: int

definition BuiltinOperator_MAX :: int where
  "BuiltinOperator_MAX = 209"

definition GetBuiltinCode :: "OperatorCode \<Rightarrow> int" where
  "GetBuiltinCode oc = max (oc_builtin_code oc) (oc_deprecated_builtin_code oc)"

definition GetRegistrationFromOpCode :: "OperatorCode \<Rightarrow> OpResolver \<Rightarrow> TfLiteStatus \<times> TfLiteRegistration option" where
  "GetRegistrationFromOpCode opcode op_resolver =
     (let builtin_code = GetBuiltinCode opcode; version = oc_version opcode in
      if builtin_code > BuiltinOperator_MAX then (kTfLiteError, None)
      else if builtin_code \<noteq> kTfLiteBuiltinCustom
           then (case or_find_builtin op_resolver builtin_code version of
                   None \<Rightarrow> (kTfLiteError, None) | Some reg \<Rightarrow> (kTfLiteOk, Some reg))
      else (case oc_custom_code opcode of
          None \<Rightarrow> (kTfLiteError, None)
        | Some name \<Rightarrow> (case or_find_custom op_resolver name version of
              None \<Rightarrow> (kTfLiteError, None) | Some reg \<Rightarrow> (kTfLiteOk, Some reg))))"

section \<open>Resolution by callbacks\<close>

text \<open>
  The callbacks, \<open>None\<close> for one that is not set. A callback of the external interface returns the address of an operator, 0 for
  null; the callbacks of the older interfaces return registrations whose missing fields are zero.
\<close>

record TfLiteOpResolverCallbacks =
  cb_find_builtin_op :: "(int \<Rightarrow> int \<Rightarrow> TfLiteRegistration option) option"
  cb_find_custom_op :: "(string \<Rightarrow> int \<Rightarrow> TfLiteRegistration option) option"
  cb_find_builtin_op_v3 :: "(int \<Rightarrow> int \<Rightarrow> TfLiteRegistration option) option"
  cb_find_custom_op_v3 :: "(string \<Rightarrow> int \<Rightarrow> TfLiteRegistration option) option"
  cb_find_builtin_op_v2 :: "(int \<Rightarrow> int \<Rightarrow> TfLiteRegistration option) option"
  cb_find_custom_op_v2 :: "(string \<Rightarrow> int \<Rightarrow> TfLiteRegistration option) option"
  cb_find_builtin_op_v1 :: "(int \<Rightarrow> int \<Rightarrow> TfLiteRegistration option) option"
  cb_find_custom_op_v1 :: "(string \<Rightarrow> int \<Rightarrow> TfLiteRegistration option) option"
  cb_find_builtin_op_external :: "(int \<Rightarrow> int \<Rightarrow> nat) option"
  cb_find_custom_op_external :: "(string \<Rightarrow> int \<Rightarrow> nat) option"

record CallbackOpResolver =
  cr_callbacks :: TfLiteOpResolverCallbacks
  cr_temporary_builtin_registrations :: "TfLiteRegistration list"
  cr_temporary_custom_registrations :: "TfLiteRegistration list"

definition InitTfLiteRegistration :: "TfLiteOperator \<Rightarrow> nat \<Rightarrow> TfLiteRegistration \<Rightarrow> TfLiteRegistration" where
  "InitTfLiteRegistration op address reg =
     reg\<lparr>rg_builtin_code := op_builtin_code op, rg_custom_name := map_option snd (op_custom_name op),
         rg_version := op_version op, rg_registration_external := address\<rparr>"

definition OperatorToRegistration :: "(nat \<Rightarrow> TfLiteOperator) \<Rightarrow> nat \<Rightarrow> TfLiteRegistration" where
  "OperatorToRegistration ops address = InitTfLiteRegistration (ops address) address empty_registration"

definition BuildBuiltinOpFromLegacyRegistration ::
    "(int \<Rightarrow> int \<Rightarrow> TfLiteRegistration option) option \<Rightarrow> int \<Rightarrow> int \<Rightarrow> CallbackOpResolver \<Rightarrow>
     TfLiteRegistration option \<times> CallbackOpResolver" where
  "BuildBuiltinOpFromLegacyRegistration callback op version r =
     (case (case callback of None \<Rightarrow> None | Some f \<Rightarrow> f op version) of
        None \<Rightarrow> (None, r)
      | Some legacy \<Rightarrow>
          (let reg = legacy\<lparr>rg_registration_external := 0\<rparr>
           in (Some reg, r\<lparr>cr_temporary_builtin_registrations := cr_temporary_builtin_registrations r @ [reg]\<rparr>)))"

definition BuildCustomOpFromLegacyRegistration ::
    "(string \<Rightarrow> int \<Rightarrow> TfLiteRegistration option) option \<Rightarrow> string \<Rightarrow> int \<Rightarrow> CallbackOpResolver \<Rightarrow>
     TfLiteRegistration option \<times> CallbackOpResolver" where
  "BuildCustomOpFromLegacyRegistration callback op version r =
     (case (case callback of None \<Rightarrow> None | Some f \<Rightarrow> f op version) of
        None \<Rightarrow> (None, r)
      | Some legacy \<Rightarrow>
          (let reg = legacy\<lparr>rg_registration_external := 0\<rparr>
           in (Some reg, r\<lparr>cr_temporary_custom_registrations := cr_temporary_custom_registrations r @ [reg]\<rparr>)))"

text \<open>The first of the older callbacks that answers.\<close>

fun first_answer ::
    "('s \<Rightarrow> TfLiteRegistration option \<times> 's) list \<Rightarrow> 's \<Rightarrow> TfLiteRegistration option \<times> 's" where
  "first_answer [] r = (None, r)"
| "first_answer (f # fs) r = (case f r of (Some reg, r') \<Rightarrow> (Some reg, r') | (None, r') \<Rightarrow> first_answer fs r')"

definition cb_FindOp_builtin ::
    "(nat \<Rightarrow> TfLiteOperator) \<Rightarrow> int \<Rightarrow> int \<Rightarrow> CallbackOpResolver \<Rightarrow> TfLiteRegistration option \<times> CallbackOpResolver" where
  "cb_FindOp_builtin ops op version r =
     (let cb = cr_callbacks r;
          ext = (case cb_find_builtin_op_external cb of None \<Rightarrow> 0 | Some f \<Rightarrow> f op version)
      in case find (\<lambda>reg. rg_builtin_code reg = op \<and> rg_version reg = version) (cr_temporary_builtin_registrations r) of
           Some reg \<Rightarrow> (Some reg, r)
         | None \<Rightarrow>
             if ext \<noteq> 0 \<and> (op_init (ops ext) \<noteq> 0 \<or> op_free (ops ext) \<noteq> 0 \<or> op_invoke (ops ext) \<noteq> 0 \<or>
                 op_prepare (ops ext) \<noteq> 0 \<or> op_async_kernel (ops ext) \<noteq> 0)
             then (let reg = OperatorToRegistration ops ext
                   in (Some reg, r\<lparr>cr_temporary_builtin_registrations := cr_temporary_builtin_registrations r @ [reg]\<rparr>))
             else (case cb_find_builtin_op cb of
                 Some f \<Rightarrow> (f op version, r)
               | None \<Rightarrow> first_answer
                   [BuildBuiltinOpFromLegacyRegistration (cb_find_builtin_op_v3 cb) op version,
                    BuildBuiltinOpFromLegacyRegistration (cb_find_builtin_op_v2 cb) op version,
                    BuildBuiltinOpFromLegacyRegistration (cb_find_builtin_op_v1 cb) op version] r))"

definition cb_FindOp_custom ::
    "(nat \<Rightarrow> TfLiteOperator) \<Rightarrow> string \<Rightarrow> int \<Rightarrow> CallbackOpResolver \<Rightarrow> TfLiteRegistration option \<times> CallbackOpResolver" where
  "cb_FindOp_custom ops op version r =
     (let cb = cr_callbacks r;
          ext = (case cb_find_custom_op_external cb of None \<Rightarrow> 0 | Some f \<Rightarrow> f op version)
      in case find (\<lambda>reg. rg_custom_name reg = Some op \<and> rg_version reg = version) (cr_temporary_custom_registrations r) of
           Some reg \<Rightarrow> (Some reg, r)
         | None \<Rightarrow>
             if ext \<noteq> 0 \<and> (op_init (ops ext) \<noteq> 0 \<or> op_free (ops ext) \<noteq> 0 \<or> op_invoke (ops ext) \<noteq> 0 \<or> op_prepare (ops ext) \<noteq> 0)
             then (let reg = OperatorToRegistration ops ext
                   in (Some reg, r\<lparr>cr_temporary_builtin_registrations := cr_temporary_builtin_registrations r @ [reg]\<rparr>))
             else (case cb_find_custom_op cb of
                 Some f \<Rightarrow> (f op version, r)
               | None \<Rightarrow> first_answer
                   [BuildCustomOpFromLegacyRegistration (cb_find_custom_op_v3 cb) op version,
                    BuildCustomOpFromLegacyRegistration (cb_find_custom_op_v2 cb) op version,
                    BuildCustomOpFromLegacyRegistration (cb_find_custom_op_v1 cb) op version] r))"

section \<open>The contract of a registry\<close>

text \<open>
  Builtin and custom operators are two registries with one contract: what is added under a key and a version is found under
  exactly that key and version. Adding a range of versions follows from it.
\<close>

locale op_registry =
  fixes lookup :: "'r \<Rightarrow> 'k \<Rightarrow> int \<Rightarrow> TfLiteRegistration option"
    and add :: "'k \<Rightarrow> TfLiteRegistration \<Rightarrow> int \<Rightarrow> 'r \<Rightarrow> 'r"
    and stored :: "'k \<Rightarrow> TfLiteRegistration \<Rightarrow> int \<Rightarrow> TfLiteRegistration"
  assumes lookup_add: "lookup (add k reg v r) k' v' = (if k' = k \<and> v' = v then Some (stored k reg v) else lookup r k' v')"
begin

lemma lookup_adds:
  "lookup (fold (add k reg) vs r) k' v' = (if k' = k \<and> v' \<in> set vs then Some (stored k reg v') else lookup r k' v')"
  by (induction vs arbitrary: r) (auto simp: lookup_add)

lemma lookup_add_range:
  "lookup (fold (add k reg) [lo..hi] r) k' v' =
     (if k' = k \<and> lo \<le> v' \<and> v' \<le> hi then Some (stored k reg v') else lookup r k' v')"
  by (simp add: lookup_adds)

lemma add_again: "lookup (add k reg' v (add k reg v r)) = lookup (add k reg' v r)"
  by (intro ext) (simp add: lookup_add)

end

definition builtin_entry :: "int \<Rightarrow> TfLiteRegistration \<Rightarrow> int \<Rightarrow> TfLiteRegistration" where
  "builtin_entry op reg version = reg\<lparr>rg_custom_name := None, rg_builtin_code := op, rg_version := version\<rparr>"

definition custom_entry :: "string \<Rightarrow> TfLiteRegistration \<Rightarrow> int \<Rightarrow> TfLiteRegistration" where
  "custom_entry name reg version =
     reg\<lparr>rg_builtin_code := kTfLiteBuiltinCustom, rg_custom_name := Some name, rg_version := version\<rparr>"

interpretation builtins: op_registry FindOp_builtin "\<lambda>op reg. AddBuiltin op (Some reg)" builtin_entry
  by unfold_locales (simp add: FindOp_builtin_def AddBuiltin_def builtin_entry_def split: option.split)

interpretation customs: op_registry FindOp_custom AddCustom custom_entry
  by unfold_locales (simp add: FindOp_custom_def AddCustom_def custom_entry_def split: option.split)

lemma find_chained_append:
  "find_chained f (xs @ ys) = (case find_chained f xs of Some reg \<Rightarrow> Some reg | None \<Rightarrow> find_chained f ys)"
  by (induction xs) (auto split: option.split)

lemma AddBuiltin_keeps_custom: "FindOp_custom (fold (AddBuiltin op reg) vs r) = FindOp_custom r"
  by (induction vs arbitrary: r) (simp_all add: FindOp_custom_def AddBuiltin_def fun_eq_iff split: option.split)

lemma AddCustom_keeps_builtin: "FindOp_builtin (fold (AddCustom name reg) vs r) = FindOp_builtin r"
  by (induction vs arbitrary: r) (simp_all add: FindOp_builtin_def AddCustom_def fun_eq_iff split: option.split)

section \<open>Properties of the resolvers\<close>

text \<open>
  What is registered for a range of versions is found for exactly these versions, under the code or name it was
  registered with and with these set in the registration; every other lookup, of either kind, is as before, and a null
  registration changes nothing.
\<close>

lemma op_found_where_registered:
  "FindOp_builtin (AddBuiltin_versions op (Some reg) lo hi r) op' v =
     (if op' = op \<and> lo \<le> v \<and> v \<le> hi
      then Some (reg\<lparr>rg_custom_name := None, rg_builtin_code := op, rg_version := v\<rparr>) else FindOp_builtin r op' v) \<and>
   FindOp_custom (AddBuiltin_versions op (Some reg) lo hi r) name' v = FindOp_custom r name' v \<and>
   FindOp_custom (AddCustom_versions name reg lo hi r) name' v =
     (if name' = name \<and> lo \<le> v \<and> v \<le> hi
      then Some (reg\<lparr>rg_builtin_code := kTfLiteBuiltinCustom, rg_custom_name := Some name, rg_version := v\<rparr>)
      else FindOp_custom r name' v) \<and>
   FindOp_builtin (AddCustom_versions name reg lo hi r) op' v = FindOp_builtin r op' v \<and>
   AddBuiltin_versions op None lo hi r = r"
proof -
  have "AddBuiltin_versions op None lo hi r = r"
  proof -
    have "fold (AddBuiltin op None) vs r = r" for vs by (induction vs) (simp_all add: AddBuiltin_def)
    then show ?thesis by (simp add: AddBuiltin_versions_def)
  qed
  then show ?thesis
    using builtins.lookup_add_range [of op reg lo hi r op' v] customs.lookup_add_range [of name reg lo hi r name' v]
    by (simp add: AddBuiltin_versions_def AddCustom_versions_def AddBuiltin_keeps_custom AddCustom_keeps_builtin
        builtin_entry_def custom_entry_def)
qed

text \<open>
  After \<open>AddAll\<close> a lookup is answered by the first of: the added resolver's own registrations, the own registrations
  from before, the resolvers chained to the added one, those chained before. So own registrations come before chained
  ones, and the added ones before the old ones.
\<close>

lemma add_all_precedence:
  "FindOp_builtin (AddAll other r) op v =
     (case mr_builtins other (op, v) of Some x \<Rightarrow> Some x | None \<Rightarrow>
      case mr_builtins r (op, v) of Some x \<Rightarrow> Some x | None \<Rightarrow>
      case find_chained (\<lambda>x. or_find_builtin x op v) (mr_other_op_resolvers other) of Some x \<Rightarrow> Some x | None \<Rightarrow>
      find_chained (\<lambda>x. or_find_builtin x op v) (mr_other_op_resolvers r)) \<and>
   FindOp_custom (AddAll other r) name v =
     (case mr_custom_ops other (name, v) of Some x \<Rightarrow> Some x | None \<Rightarrow>
      case mr_custom_ops r (name, v) of Some x \<Rightarrow> Some x | None \<Rightarrow>
      case find_chained (\<lambda>x. or_find_custom x name v) (mr_other_op_resolvers other) of Some x \<Rightarrow> Some x | None \<Rightarrow>
      find_chained (\<lambda>x. or_find_custom x name v) (mr_other_op_resolvers r))"
  by (simp add: FindOp_builtin_def FindOp_custom_def AddAll_def map_add_def find_chained_append split: option.split)

text \<open>
  \<open>AddAll\<close> does not carry over the mark of user-defined operators: a resolver that got a custom operator by \<open>AddAll\<close>
  finds it, and still says that it contains no user-defined operators.
\<close>

lemma add_all_hides_user_defined:
  "FindOp_custom (AddAll (AddCustom name reg v new_op_resolver) new_op_resolver) name v =
     Some (reg\<lparr>rg_builtin_code := kTfLiteBuiltinCustom, rg_custom_name := Some name, rg_version := v\<rparr>) \<and>
   MayContainUserDefinedOps (AddCustom name reg v new_op_resolver) \<and>
   \<not> MayContainUserDefinedOps (AddAll (AddCustom name reg v new_op_resolver) new_op_resolver)"
  by (simp add: FindOp_custom_def AddAll_def AddCustom_def new_op_resolver_def MayContainUserDefinedOps_def)

text \<open>
  Resolving an operator code gives a registration exactly when it returns \<open>kTfLiteOk\<close>, and \<open>kTfLiteError\<close> otherwise:
  the larger of the two codes decides; beyond the last known operator nothing is looked up, a custom operator is looked
  up by its name, which it must have, and every other one by its code.
\<close>

lemma opcode_resolution:
  "GetRegistrationFromOpCode oc R = (case
     (if GetBuiltinCode oc > BuiltinOperator_MAX then None
      else if GetBuiltinCode oc = kTfLiteBuiltinCustom
           then Option.bind (oc_custom_code oc) (\<lambda>name. or_find_custom R name (oc_version oc))
      else or_find_builtin R (GetBuiltinCode oc) (oc_version oc)) of
       None \<Rightarrow> (kTfLiteError, None) | Some reg \<Rightarrow> (kTfLiteOk, Some reg)) \<and>
   GetBuiltinCode oc \<ge> oc_builtin_code oc \<and> GetBuiltinCode oc \<ge> oc_deprecated_builtin_code oc"
  by (auto simp: GetRegistrationFromOpCode_def GetBuiltinCode_def Let_def split: option.split)

lemma custom_external_lookup:
  assumes "cb_find_custom_op_external (cr_callbacks r) = Some f" and "f op v \<noteq> 0" and "op_invoke (ops (f op v)) \<noteq> 0"
    and "find (\<lambda>reg. rg_custom_name reg = Some op \<and> rg_version reg = v) (cr_temporary_custom_registrations r) = None"
  shows "cb_FindOp_custom ops op v r = (Some (OperatorToRegistration ops (f op v)),
    r\<lparr>cr_temporary_builtin_registrations :=
        cr_temporary_builtin_registrations r @ [OperatorToRegistration ops (f op v)]\<rparr>)"
  using assms by (simp add: cb_FindOp_custom_def Let_def)

text \<open>
  A custom operator found by the external callback is never found in the cache of custom registrations: every lookup
  asks the callback again and leaves one more registration, which it puts on the list of builtin operators instead.
\<close>

lemma custom_external_never_cached:
  assumes "cb_find_custom_op_external (cr_callbacks r) = Some f" and "f op v \<noteq> 0" and "op_invoke (ops (f op v)) \<noteq> 0"
    and "find (\<lambda>reg. rg_custom_name reg = Some op \<and> rg_version reg = v) (cr_temporary_custom_registrations r) = None"
  shows "((\<lambda>r. snd (cb_FindOp_custom ops op v r)) ^^ n) r = r\<lparr>cr_temporary_builtin_registrations :=
    cr_temporary_builtin_registrations r @ replicate n (OperatorToRegistration ops (f op v))\<rparr>"
proof (induction n)
  case (Suc n)
  then show ?case
    using custom_external_lookup [of _ f op v ops] assms by (simp add: replicate_append_same)
qed simp

definition w_callbacks :: TfLiteOpResolverCallbacks where
  "w_callbacks = \<lparr>cb_find_builtin_op = None, cb_find_custom_op = None, cb_find_builtin_op_v3 = None, cb_find_custom_op_v3 = None,
     cb_find_builtin_op_v2 = None, cb_find_custom_op_v2 = None, cb_find_builtin_op_v1 = None, cb_find_custom_op_v1 = None,
     cb_find_builtin_op_external = None, cb_find_custom_op_external = Some (\<lambda>_ _. 1)\<rparr>"

definition w_operator :: TfLiteOperator where
  "w_operator = \<lparr>op_custom_name = Some (9, ''Mfcc''), op_version = 1, op_init = 0, op_free = 0, op_prepare = 0, op_invoke = 5,
     op_async_kernel = 0, op_builtin_code = kTfLiteBuiltinCustom, op_node_index = -1, op_user_data = 0,
     op_init_with_data = 0, op_free_with_data = 0, op_prepare_with_data = 0, op_invoke_with_data = 0\<rparr>"

lemma custom_external_never_cached_witness:
  "let r = \<lparr>cr_callbacks = w_callbacks, cr_temporary_builtin_registrations = [], cr_temporary_custom_registrations = []\<rparr>
   in length (cr_temporary_builtin_registrations (((\<lambda>r. snd (cb_FindOp_custom (\<lambda>_. w_operator) ''Mfcc'' 1 r)) ^^ 3) r)) = 3"
  unfolding Let_def
  by (subst custom_external_never_cached [of _ "\<lambda>_ _. 1"]) (simp_all add: w_callbacks_def w_operator_def)

end
