(* ===== verification/CApi.thy ===== *)
theory CApi
  imports Interpreter OpResolver
begin

text \<open>
  The C interface of the runtime (\<open>lite/core/c/c_api.cc\<close>, \<open>lite/c/c_api_internal.h\<close>), which the plugin calls: models, options and
  interpreters are objects in stores, named by their addresses, created and deleted one by one. The data of a model is
  shared by the model object and the interpreters made from it, with a count of its users. A call with an address at which no
  object lives, other than the deletion of the null pointer, is flagged.

  Parameters of the model (record \<open>capi_env\<close>) are the kernels and delegates, the loading and verification of a model file,
  which gives the model's data or nothing, the construction of an interpreter from the data and a resolver of operators
  (\<open>InterpreterBuilder\<close>), the resolver with the builtin operators and the NNAPI delegate. Error reporters and telemetry are left out.
\<close>

section \<open>Objects\<close>

record TfLiteInterpreterOptions =
  opt_num_threads :: int
  opt_mutable_op_resolver :: MutableOpResolver
  opt_op_resolver_callbacks :: TfLiteOpResolverCallbacks
  opt_delegates :: "nat list"
  opt_use_nnapi :: bool
  opt_enable_delegate_fallback :: bool
  opt_op_registrations :: "nat list"
  opt_enable_cancellation :: bool

abbreviation kDefaultNumThreads :: int where
  "kDefaultNumThreads \<equiv> -1"

text \<open>A model and an interpreter refer to the model's data by its address.\<close>

record TfLiteInterpreter =
  ti_model :: nat
  ti_impl :: Interpreter
  ti_enable_delegate_fallback :: bool

record flatbuffer =
  fb_data :: nat
  fb_use_count :: nat

record capi =
  ca_next :: nat
  ca_flatbuffers :: "nat \<Rightarrow> flatbuffer option"
  ca_models :: "nat \<Rightarrow> nat option"
  ca_options :: "nat \<Rightarrow> TfLiteInterpreterOptions option"
  ca_interpreters :: "nat \<Rightarrow> TfLiteInterpreter option"
  ca_bad :: bool

definition new_capi :: capi where
  "new_capi = \<lparr>ca_next = 1, ca_flatbuffers = (\<lambda>_. None), ca_models = (\<lambda>_. None), ca_options = (\<lambda>_. None),
     ca_interpreters = (\<lambda>_. None), ca_bad = False\<rparr>"

datatype chosen_resolver = Use_mutable MutableOpResolver | Use_callbacks TfLiteOpResolverCallbacks

record capi_env =
  ce_runtime :: runtime
  ce_create_delegate :: "nat \<Rightarrow> Subgraph \<Rightarrow> nat"
  ce_load_file :: "string \<Rightarrow> nat option"
  ce_load_buffer :: "byte list \<Rightarrow> nat option"
  ce_op_resolver :: MutableOpResolver
  ce_build :: "nat \<Rightarrow> chosen_resolver \<Rightarrow> Interpreter option"
  ce_nnapi_delegate :: nat
  ce_fuel :: nat

definition flag_bad :: "capi \<Rightarrow> capi" where
  "flag_bad c = c\<lparr>ca_bad := True\<rparr>"

section \<open>Shared model data\<close>

definition share_data :: "nat \<Rightarrow> capi \<Rightarrow> capi" where
  "share_data a c = (case ca_flatbuffers c a of
     None \<Rightarrow> flag_bad c
   | Some fb \<Rightarrow> c\<lparr>ca_flatbuffers := (ca_flatbuffers c)(a \<mapsto> fb\<lparr>fb_use_count := fb_use_count fb + 1\<rparr>)\<rparr>)"

definition release_data :: "nat \<Rightarrow> capi \<Rightarrow> capi" where
  "release_data a c = (case ca_flatbuffers c a of
     None \<Rightarrow> flag_bad c
   | Some fb \<Rightarrow> c\<lparr>ca_flatbuffers := (ca_flatbuffers c)(a :=
       (if fb_use_count fb \<le> 1 then None else Some (fb\<lparr>fb_use_count := fb_use_count fb - 1\<rparr>)))\<rparr>)"

section \<open>Models\<close>

definition wrap_model :: "nat option \<Rightarrow> capi \<Rightarrow> nat \<times> capi" where
  "wrap_model data c = (case data of
     None \<Rightarrow> (0, c)
   | Some d \<Rightarrow>
      (let a = ca_next c; p = a + 1
       in (p, c\<lparr>ca_next := a + 2, ca_flatbuffers := (ca_flatbuffers c)(a \<mapsto> \<lparr>fb_data = d, fb_use_count = 1\<rparr>),
                ca_models := (ca_models c)(p \<mapsto> a)\<rparr>)))"

definition TfLiteModelCreate :: "capi_env \<Rightarrow> byte list \<Rightarrow> capi \<Rightarrow> nat \<times> capi" where
  "TfLiteModelCreate E model_data = wrap_model (ce_load_buffer E model_data)"

definition TfLiteModelCreateFromFile :: "capi_env \<Rightarrow> string \<Rightarrow> capi \<Rightarrow> nat \<times> capi" where
  "TfLiteModelCreateFromFile E model_path = wrap_model (ce_load_file E model_path)"

definition TfLiteModelDelete :: "nat \<Rightarrow> capi \<Rightarrow> capi" where
  "TfLiteModelDelete p c =
     (if p = 0 then c
      else (case ca_models c p of
          None \<Rightarrow> flag_bad c
        | Some a \<Rightarrow> release_data a (c\<lparr>ca_models := (ca_models c)(p := None)\<rparr>)))"

section \<open>Options\<close>

definition no_callbacks :: TfLiteOpResolverCallbacks where
  "no_callbacks = \<lparr>cb_find_builtin_op = None, cb_find_custom_op = None, cb_find_builtin_op_v3 = None,
     cb_find_custom_op_v3 = None, cb_find_builtin_op_v2 = None, cb_find_custom_op_v2 = None, cb_find_builtin_op_v1 = None,
     cb_find_custom_op_v1 = None, cb_find_builtin_op_external = None, cb_find_custom_op_external = None\<rparr>"

definition new_options :: TfLiteInterpreterOptions where
  "new_options = \<lparr>opt_num_threads = kDefaultNumThreads, opt_mutable_op_resolver = new_op_resolver,
     opt_op_resolver_callbacks = no_callbacks, opt_delegates = [], opt_use_nnapi = False,
     opt_enable_delegate_fallback = False, opt_op_registrations = [], opt_enable_cancellation = False\<rparr>"

definition add_options :: "TfLiteInterpreterOptions \<Rightarrow> capi \<Rightarrow> nat \<times> capi" where
  "add_options opts c =
     (ca_next c, c\<lparr>ca_next := ca_next c + 1, ca_options := (ca_options c)(ca_next c \<mapsto> opts)\<rparr>)"

definition TfLiteInterpreterOptionsCreate :: "capi \<Rightarrow> nat \<times> capi" where
  "TfLiteInterpreterOptionsCreate = add_options new_options"

definition TfLiteInterpreterOptionsCopy :: "nat \<Rightarrow> capi \<Rightarrow> nat \<times> capi" where
  "TfLiteInterpreterOptionsCopy from_options c = (case ca_options c from_options of
     None \<Rightarrow> (0, flag_bad c) | Some opts \<Rightarrow> add_options opts c)"

definition TfLiteInterpreterOptionsDelete :: "nat \<Rightarrow> capi \<Rightarrow> capi" where
  "TfLiteInterpreterOptionsDelete p c =
     (if p = 0 then c
      else if ca_options c p = None then flag_bad c
      else c\<lparr>ca_options := (ca_options c)(p := None)\<rparr>)"

definition set_options :: "(TfLiteInterpreterOptions \<Rightarrow> TfLiteInterpreterOptions) \<Rightarrow> nat \<Rightarrow> capi \<Rightarrow> capi" where
  "set_options f p c = (case ca_options c p of
     None \<Rightarrow> flag_bad c | Some opts \<Rightarrow> c\<lparr>ca_options := (ca_options c)(p \<mapsto> f opts)\<rparr>)"

definition TfLiteInterpreterOptionsSetNumThreads :: "nat \<Rightarrow> int \<Rightarrow> capi \<Rightarrow> capi" where
  "TfLiteInterpreterOptionsSetNumThreads p num_threads = set_options (\<lambda>opts. opts\<lparr>opt_num_threads := num_threads\<rparr>) p"

definition TfLiteInterpreterOptionsAddDelegate :: "nat \<Rightarrow> nat \<Rightarrow> capi \<Rightarrow> capi" where
  "TfLiteInterpreterOptionsAddDelegate p delegate =
     set_options (\<lambda>opts. opts\<lparr>opt_delegates := opt_delegates opts @ [delegate]\<rparr>) p"

definition TfLiteInterpreterOptionsAddOperator :: "nat \<Rightarrow> nat \<Rightarrow> capi \<Rightarrow> capi" where
  "TfLiteInterpreterOptionsAddOperator p registration =
     set_options (\<lambda>opts. opts\<lparr>opt_op_registrations := opt_op_registrations opts @ [registration]\<rparr>) p"

definition TfLiteInterpreterOptionsEnableCancellation :: "nat \<Rightarrow> bool \<Rightarrow> capi \<Rightarrow> TfLiteStatus \<times> capi" where
  "TfLiteInterpreterOptionsEnableCancellation p enable c =
     (kTfLiteOk, set_options (\<lambda>opts. opts\<lparr>opt_enable_cancellation := enable\<rparr>) p c)"

section \<open>Creating an interpreter\<close>

text \<open>
  The operators of the options are added to the resolver, unless the options have callbacks, which replace it. An operator
  without a name cannot be added (the code makes a string of the null pointer); the model leaves it out.
\<close>

definition add_operator :: "(nat \<Rightarrow> TfLiteOperator) \<Rightarrow> nat \<Rightarrow> MutableOpResolver \<Rightarrow> MutableOpResolver" where
  "add_operator ops address r = (case op_custom_name (ops address) of
     None \<Rightarrow> r
   | Some (_, name) \<Rightarrow>
       AddCustom name (InitTfLiteRegistration (ops address) address empty_registration) (op_version (ops address)) r)"

definition has_callbacks :: "TfLiteOpResolverCallbacks \<Rightarrow> bool" where
  "has_callbacks cb \<longleftrightarrow> cb_find_builtin_op cb \<noteq> None \<or> cb_find_custom_op cb \<noteq> None \<or> cb_find_builtin_op_v1 cb \<noteq> None \<or>
     cb_find_custom_op_v1 cb \<noteq> None \<or> cb_find_builtin_op_v2 cb \<noteq> None \<or> cb_find_custom_op_v2 cb \<noteq> None \<or>
     cb_find_builtin_op_v3 cb \<noteq> None \<or> cb_find_custom_op_v3 cb \<noteq> None \<or> cb_find_builtin_op_external cb \<noteq> None \<or>
     cb_find_custom_op_external cb \<noteq> None"

definition choose_resolver :: "capi_env \<Rightarrow> TfLiteInterpreterOptions option \<Rightarrow> chosen_resolver" where
  "choose_resolver E options = (case options of
     None \<Rightarrow> Use_mutable (ce_op_resolver E)
   | Some opts \<Rightarrow>
      (if has_callbacks (opt_op_resolver_callbacks opts) then Use_callbacks (opt_op_resolver_callbacks opts)
       else Use_mutable (fold (add_operator (rt_operator (ce_runtime E))) (opt_op_registrations opts)
              (AddAll (opt_mutable_op_resolver opts) (ce_op_resolver E)))))"

text \<open>Threads, NNAPI, delegates and cancellation; \<open>kTfLiteOk\<close> unless a delegate fails.\<close>

definition configure_interpreter ::
    "capi_env \<Rightarrow> TfLiteInterpreterOptions \<Rightarrow> Interpreter \<Rightarrow> (TfLiteStatus \<times> Interpreter) option" where
  "configure_interpreter E opts I =
     (let I1 = (if opt_num_threads opts \<noteq> kDefaultNumThreads then snd (SetNumThreads (opt_num_threads opts) I) else I) in
      run_status
        (if opt_use_nnapi opts
         then it_ModifyGraphWithDelegate (ce_fuel E) (ce_runtime E) (ce_nnapi_delegate E) I1 else Some (kTfLiteOk, I1)) (\<lambda>I.
      run_status (run_each (it_ModifyGraphWithDelegate (ce_fuel E) (ce_runtime E)) (opt_delegates opts) I) (\<lambda>I.
      Some (kTfLiteOk, if opt_enable_cancellation opts then snd (it_EnableCancellation I) else I))))"

definition add_interpreter :: "nat \<Rightarrow> Interpreter \<Rightarrow> bool \<Rightarrow> capi \<Rightarrow> nat \<times> capi" where
  "add_interpreter a I fallback c =
     (let c1 = share_data a c; p = ca_next c1
      in (p, c1\<lparr>ca_next := p + 1, ca_interpreters := (ca_interpreters c1)(p \<mapsto>
           \<lparr>ti_model = a, ti_impl = I, ti_enable_delegate_fallback = fallback\<rparr>)\<rparr>))"

text \<open>Addresses of a model and of options; \<open>None\<close> when the application of a delegate does not return.\<close>

definition InterpreterCreateWithOpResolver :: "capi_env \<Rightarrow> nat \<Rightarrow> nat \<Rightarrow> capi \<Rightarrow> (nat \<times> capi) option" where
  "InterpreterCreateWithOpResolver E model optional_options c =
     (if model = 0 then Some (0, c)
      else case ca_models c model of
        None \<Rightarrow> Some (0, flag_bad c)
      | Some a \<Rightarrow>
         if optional_options \<noteq> 0 \<and> ca_options c optional_options = None then Some (0, flag_bad c)
         else
           (let options = (if optional_options = 0 then None else ca_options c optional_options);
                data = (case ca_flatbuffers c a of None \<Rightarrow> 0 | Some fb \<Rightarrow> fb_data fb)
            in case ce_build E data (choose_resolver E options) of
                 None \<Rightarrow> Some (0, c)
               | Some I \<Rightarrow> (case options of
                     None \<Rightarrow> Some (add_interpreter a I False c)
                   | Some opts \<Rightarrow> (case configure_interpreter E opts I of
                         None \<Rightarrow> None
                       | Some (st, I1) \<Rightarrow>
                          (if st \<noteq> kTfLiteOk then Some (0, c)
                           else Some (add_interpreter a I1 (opt_enable_delegate_fallback opts) c))))))"

definition TfLiteInterpreterCreate :: "capi_env \<Rightarrow> nat \<Rightarrow> nat \<Rightarrow> capi \<Rightarrow> (nat \<times> capi) option" where
  "TfLiteInterpreterCreate = InterpreterCreateWithOpResolver"

definition TfLiteInterpreterDelete :: "nat \<Rightarrow> capi \<Rightarrow> capi" where
  "TfLiteInterpreterDelete p c =
     (if p = 0 then c
      else (case ca_interpreters c p of
          None \<Rightarrow> flag_bad c
        | Some ti \<Rightarrow> release_data (ti_model ti) (c\<lparr>ca_interpreters := (ca_interpreters c)(p := None)\<rparr>)))"

section \<open>Using an interpreter\<close>

definition put_interpreter :: "nat \<Rightarrow> Interpreter \<Rightarrow> capi \<Rightarrow> capi" where
  "put_interpreter p I c = c\<lparr>ca_interpreters := (ca_interpreters c)(p := map_option (\<lambda>ti. ti\<lparr>ti_impl := I\<rparr>) (ca_interpreters c p))\<rparr>"

definition on_interpreter ::
    "(TfLiteInterpreter \<Rightarrow> (TfLiteStatus \<times> Interpreter) option) \<Rightarrow> nat \<Rightarrow> capi \<Rightarrow> (TfLiteStatus \<times> capi) option" where
  "on_interpreter f p c = (case ca_interpreters c p of
     None \<Rightarrow> Some (kTfLiteError, flag_bad c)
   | Some ti \<Rightarrow> (case f ti of None \<Rightarrow> None | Some (st, I) \<Rightarrow> Some (st, put_interpreter p I c)))"

definition TfLiteInterpreterAllocateTensors :: "capi_env \<Rightarrow> nat \<Rightarrow> capi \<Rightarrow> (TfLiteStatus \<times> capi) option" where
  "TfLiteInterpreterAllocateTensors E =
     on_interpreter (\<lambda>ti. it_AllocateTensors (ce_fuel E) (ce_runtime E) (ce_create_delegate E) (ti_impl ti))"

definition TfLiteInterpreterInvoke :: "capi_env \<Rightarrow> nat \<Rightarrow> capi \<Rightarrow> (TfLiteStatus \<times> capi) option" where
  "TfLiteInterpreterInvoke E =
     on_interpreter (\<lambda>ti. if ti_enable_delegate_fallback ti
       then InvokeWithCPUFallback (ce_fuel E) (ce_runtime E) (ti_impl ti)
       else Some (it_Invoke (ce_runtime E) (ti_impl ti)))"

definition TfLiteInterpreterResizeInputTensor ::
    "capi_env \<Rightarrow> nat \<Rightarrow> nat \<Rightarrow> int list \<Rightarrow> capi \<Rightarrow> (TfLiteStatus \<times> capi) option" where
  "TfLiteInterpreterResizeInputTensor E p input_index dims =
     on_interpreter (\<lambda>ti. Some (it_ResizeInputTensor (ce_runtime E)
       (sg_inputs (primary_subgraph (ti_impl ti)) ! input_index) dims (ti_impl ti))) p"

definition TfLiteInterpreterCancel :: "nat \<Rightarrow> capi \<Rightarrow> (TfLiteStatus \<times> capi) option" where
  "TfLiteInterpreterCancel = on_interpreter (\<lambda>ti. Some (it_Cancel (ti_impl ti)))"

text \<open>
  Tensors are given by their index in the primary graph. The number of an input or output is not checked: outside of the
  vector the code reads past its end, for which the model has no tensor.
\<close>

definition graph_of :: "nat \<Rightarrow> capi \<Rightarrow> Subgraph option" where
  "graph_of p c = map_option (\<lambda>ti. primary_subgraph (ti_impl ti)) (ca_interpreters c p)"

definition TfLiteInterpreterGetInputTensorCount :: "nat \<Rightarrow> capi \<Rightarrow> int option" where
  "TfLiteInterpreterGetInputTensorCount p c = map_option (\<lambda>s. wrap_i32 (int (length (sg_inputs s)))) (graph_of p c)"

definition TfLiteInterpreterGetOutputTensorCount :: "nat \<Rightarrow> capi \<Rightarrow> int option" where
  "TfLiteInterpreterGetOutputTensorCount p c = map_option (\<lambda>s. wrap_i32 (int (length (sg_outputs s)))) (graph_of p c)"

definition nth_tensor :: "int list \<Rightarrow> nat \<Rightarrow> Subgraph \<Rightarrow> (int \<times> TfLiteTensor) option" where
  "nth_tensor xs k s =
     (if k < length xs then map_option (\<lambda>t. (xs ! k, t)) (sg_tensor (xs ! k) s) else None)"

definition TfLiteInterpreterGetInputTensor :: "nat \<Rightarrow> nat \<Rightarrow> capi \<Rightarrow> (int \<times> TfLiteTensor) option" where
  "TfLiteInterpreterGetInputTensor p k c = Option.bind (graph_of p c) (\<lambda>s. nth_tensor (sg_inputs s) k s)"

definition TfLiteInterpreterGetOutputTensor :: "nat \<Rightarrow> nat \<Rightarrow> capi \<Rightarrow> (int \<times> TfLiteTensor) option" where
  "TfLiteInterpreterGetOutputTensor p k c = Option.bind (graph_of p c) (\<lambda>s. nth_tensor (sg_outputs s) k s)"

definition TfLiteInterpreterGetTensor :: "nat \<Rightarrow> int \<Rightarrow> capi \<Rightarrow> TfLiteTensor option" where
  "TfLiteInterpreterGetTensor p i c = Option.bind (graph_of p c) (sg_tensor i)"

text \<open>The copy of a caller's bytes into a tensor of the interpreter, whose size must be theirs.\<close>

definition copy_to_tensor :: "nat \<Rightarrow> TfLiteTensor \<Rightarrow> byte list \<Rightarrow> capi \<Rightarrow> TfLiteStatus \<times> capi" where
  "copy_to_tensor p t input_data c =
     (if t_bytes t \<noteq> length input_data then (kTfLiteError, c)
      else (kTfLiteOk, (case ca_interpreters c p of
          None \<Rightarrow> flag_bad c
        | Some ti \<Rightarrow> put_interpreter p (set_primary (write_tensor t input_data (primary_subgraph (ti_impl ti))) (ti_impl ti)) c)))"

section \<open>Lifetimes\<close>

text \<open>How many objects of a store refer to the data at an address.\<close>

definition refs :: "(nat \<Rightarrow> nat option) \<Rightarrow> nat \<Rightarrow> nat" where
  "refs m a = card {p. m p = Some a}"

definition interpreter_data :: "capi \<Rightarrow> nat \<Rightarrow> nat option" where
  "interpreter_data c p = map_option ti_model (ca_interpreters c p)"

definition users :: "nat \<Rightarrow> capi \<Rightarrow> nat" where
  "users a c = refs (ca_models c) a + refs (interpreter_data c) a"

text \<open>Every object has an address below the next one, and the data of a model is counted exactly.\<close>

definition capi_ok :: "capi \<Rightarrow> bool" where
  "capi_ok c \<longleftrightarrow> 0 < ca_next c \<and>
     (\<forall>p\<in>dom (ca_models c) \<union> dom (ca_options c) \<union> dom (ca_interpreters c) \<union> dom (ca_flatbuffers c). 0 < p \<and> p < ca_next c) \<and>
     (\<forall>a. (case ca_flatbuffers c a of None \<Rightarrow> 0 | Some fb \<Rightarrow> fb_use_count fb) = users a c) \<and>
     (\<forall>a fb. ca_flatbuffers c a = Some fb \<longrightarrow> 0 < fb_use_count fb)"

lemma below_finite: "\<forall>p\<in>dom m. 0 < p \<and> p < (n :: nat) \<Longrightarrow> finite {p. m p = Some a}"
  by (rule finite_subset [of _ "{..<n}"]) auto

lemma capi_ok_finite:
  assumes "capi_ok c" shows "finite {p. ca_models c p = Some a}" "finite {p. interpreter_data c p = Some a}"
  using assms below_finite [of "ca_models c" "ca_next c"] below_finite [of "interpreter_data c" "ca_next c"]
  by (auto simp: capi_ok_def interpreter_data_def dom_def)

lemma refs_delete:
  assumes "finite {p. m p = Some a}" and "m q = Some b"
  shows "refs m a = refs (m(q := None)) a + (if a = b then 1 else 0)"
proof (cases "a = b")
  case True
  then have "{p. m p = Some a} = insert q {p. (m(q := None)) p = Some a}" using assms(2) by auto
  moreover have "finite {p. (m(q := None)) p = Some a}" by (rule finite_subset [OF _ assms(1)]) auto
  ultimately show ?thesis using True by (simp add: refs_def)
next
  case False
  then have "{p. m p = Some a} = {p. (m(q := None)) p = Some a}" using assms(2) by auto
  then show ?thesis using False by (simp add: refs_def)
qed

lemma refs_insert:
  assumes "finite {p. m p = Some a}" and "m q = None"
  shows "refs (m(q \<mapsto> b)) a = refs m a + (if a = b then 1 else 0)"
proof -
  have "m = (m(q \<mapsto> b))(q := None)" using assms(2) by (simp add: fun_eq_iff)
  moreover have "finite {p. (m(q \<mapsto> b)) p = Some a}"
    by (rule finite_subset [of _ "insert q {p. m p = Some a}"]) (use assms(1) in auto)
  ultimately show ?thesis using refs_delete [of "m(q \<mapsto> b)" a q b] by simp
qed

lemma capi_okD:
  assumes "capi_ok c"
  shows "ca_models c p = Some a \<Longrightarrow> 0 < p \<and> p < ca_next c" "ca_options c p = Some opts \<Longrightarrow> 0 < p \<and> p < ca_next c"
    "ca_interpreters c p = Some ti \<Longrightarrow> 0 < p \<and> p < ca_next c" "ca_flatbuffers c a = Some fb \<Longrightarrow> 0 < a \<and> a < ca_next c"
  using assms by (auto simp: capi_ok_def dom_def)

lemma capi_okI:
  assumes "0 < ca_next c" and "\<And>p. ca_models c p \<noteq> None \<Longrightarrow> 0 < p \<and> p < ca_next c"
    and "\<And>p. ca_options c p \<noteq> None \<Longrightarrow> 0 < p \<and> p < ca_next c" and "\<And>p. ca_interpreters c p \<noteq> None \<Longrightarrow> 0 < p \<and> p < ca_next c"
    and "\<And>a. ca_flatbuffers c a \<noteq> None \<Longrightarrow> 0 < a \<and> a < ca_next c"
    and "\<And>a. (case ca_flatbuffers c a of None \<Rightarrow> 0 | Some fb \<Rightarrow> fb_use_count fb) = users a c"
    and "\<And>a fb. ca_flatbuffers c a = Some fb \<Longrightarrow> 0 < fb_use_count fb"
  shows "capi_ok c"
  unfolding capi_ok_def using assms by blast

lemma capi_ok_count:
  assumes "capi_ok c"
  shows "0 < ca_next c" "(case ca_flatbuffers c a of None \<Rightarrow> 0 | Some fb \<Rightarrow> fb_use_count fb) = users a c"
    "ca_flatbuffers c a = Some fb \<Longrightarrow> fb_use_count fb = users a c" "ca_flatbuffers c a = Some fb \<Longrightarrow> 0 < users a c"
    "ca_flatbuffers c a = None \<Longrightarrow> users a c = 0"
proof -
  show n: "0 < ca_next c" and u: "(case ca_flatbuffers c a of None \<Rightarrow> 0 | Some fb \<Rightarrow> fb_use_count fb) = users a c"
    using assms by (simp_all add: capi_ok_def)
  show "ca_flatbuffers c a = Some fb \<Longrightarrow> fb_use_count fb = users a c" "ca_flatbuffers c a = None \<Longrightarrow> users a c = 0" using u by auto
  show "ca_flatbuffers c a = Some fb \<Longrightarrow> 0 < users a c" using u assms unfolding capi_ok_def by fastforce
qed

lemma users_pos:
  assumes "capi_ok c" shows "ca_models c p = Some a \<Longrightarrow> 0 < users a c" "interpreter_data c p = Some a \<Longrightarrow> 0 < users a c"
  using capi_ok_finite [OF assms, of a] by (auto simp: users_def refs_def card_gt_0_iff)

lemma used_data_live:
  assumes "capi_ok c" shows "ca_flatbuffers c a \<noteq> None \<longleftrightarrow> 0 < users a c"
proof -
  have "(case ca_flatbuffers c a of None \<Rightarrow> 0 | Some fb \<Rightarrow> fb_use_count fb) = users a c"
    and "\<And>fb. ca_flatbuffers c a = Some fb \<Longrightarrow> 0 < fb_use_count fb" using assms by (simp_all add: capi_ok_def)
  then show ?thesis by (cases "ca_flatbuffers c a") auto
qed

text \<open>Dropping one reference and releasing the data.\<close>

lemma release_data_ok:
  assumes "capi_ok c" and "\<And>b. users b c = users b c1 + (if b = a then 1 else 0)"
    and "ca_flatbuffers c1 = ca_flatbuffers c" "ca_next c1 = ca_next c" "ca_options c1 = ca_options c"
    and "dom (ca_models c1) \<subseteq> dom (ca_models c)" "dom (ca_interpreters c1) \<subseteq> dom (ca_interpreters c)"
  shows "capi_ok (release_data a c1) \<and> ca_bad (release_data a c1) = ca_bad c1"
proof -
  have "0 < users a c" using assms(2) by simp
  then obtain fb where fb: "ca_flatbuffers c a = Some fb" using used_data_live [OF assms(1)] by auto
  define c2 where "c2 = release_data a c1"
  have c2: "c2 = c1\<lparr>ca_flatbuffers := (ca_flatbuffers c1)(a :=
      (if fb_use_count fb \<le> 1 then None else Some (fb\<lparr>fb_use_count := fb_use_count fb - 1\<rparr>)))\<rparr>"
    using fb assms(3) by (simp add: c2_def release_data_def)
  have u: "users b c2 = users b c1" for b unfolding c2 by (simp add: users_def interpreter_data_def [abs_def])
  have old: "(case ca_flatbuffers c b of None \<Rightarrow> 0 | Some fb \<Rightarrow> fb_use_count fb) = users b c" for b
    using assms(1) by (simp add: capi_ok_def)
  have cnt: "(case ca_flatbuffers c2 b of None \<Rightarrow> 0 | Some fb \<Rightarrow> fb_use_count fb) = users b c2" for b
    using old [of b] old [of a] fb assms(2) [of b] assms(3) u [of b] by (auto simp: c2)
  have pos: "0 < fb_use_count f" if "ca_flatbuffers c2 b = Some f" for b f
    using that assms(1,3) by (auto simp: c2 capi_ok_def split: if_splits)
  have "\<forall>p\<in>dom (ca_models c2) \<union> dom (ca_options c2) \<union> dom (ca_interpreters c2) \<union> dom (ca_flatbuffers c2). 0 < p \<and> p < ca_next c2"
  proof
    fix p assume "p \<in> dom (ca_models c2) \<union> dom (ca_options c2) \<union> dom (ca_interpreters c2) \<union> dom (ca_flatbuffers c2)"
    then have "p \<in> dom (ca_models c) \<union> dom (ca_options c) \<union> dom (ca_interpreters c) \<union> dom (ca_flatbuffers c)"
      using assms(3,5-7) fb by (auto simp: c2 split: if_splits)
    then show "0 < p \<and> p < ca_next c2" using assms(1,4) by (auto simp: c2 capi_ok_def)
  qed
  moreover have "0 < ca_next c2" using assms(1,4) by (simp add: c2 capi_ok_def)
  ultimately have "capi_ok c2" unfolding capi_ok_def using cnt pos by blast
  then show ?thesis using c2 by (simp add: c2_def)
qed

lemma interpreter_data_delete:
  "interpreter_data (c\<lparr>ca_interpreters := (ca_interpreters c)(p := None)\<rparr>) = (interpreter_data c)(p := None)"
  by (simp add: interpreter_data_def fun_eq_iff)

lemma ModelDelete_ok:
  assumes "capi_ok c" and "ca_models c p \<noteq> None"
  shows "capi_ok (TfLiteModelDelete p c) \<and> ca_bad (TfLiteModelDelete p c) = ca_bad c"
proof -
  obtain a where a: "ca_models c p = Some a" using assms(2) by auto
  define c1 where "c1 = c\<lparr>ca_models := (ca_models c)(p := None)\<rparr>"
  have "users b c = users b c1 + (if b = a then 1 else 0)" for b
    using refs_delete [OF capi_ok_finite(1) [OF assms(1)] a]
    by (simp add: c1_def users_def interpreter_data_def [abs_def])
  from release_data_ok [OF assms(1) this] have "capi_ok (release_data a c1) \<and> ca_bad (release_data a c1) = ca_bad c1"
    by (auto simp: c1_def split: if_splits)
  then show ?thesis using a capi_okD(1) [OF assms(1) a] by (simp add: TfLiteModelDelete_def c1_def)
qed

lemma InterpreterDelete_ok:
  assumes "capi_ok c" and "ca_interpreters c p \<noteq> None"
  shows "capi_ok (TfLiteInterpreterDelete p c) \<and> ca_bad (TfLiteInterpreterDelete p c) = ca_bad c"
proof -
  obtain ti where ti: "ca_interpreters c p = Some ti" using assms(2) by auto
  define c1 where "c1 = c\<lparr>ca_interpreters := (ca_interpreters c)(p := None)\<rparr>"
  have "interpreter_data c p = Some (ti_model ti)" using ti by (simp add: interpreter_data_def)
  from refs_delete [OF capi_ok_finite(2) [OF assms(1)] this]
  have "users b c = users b c1 + (if b = ti_model ti then 1 else 0)" for b
    by (simp add: c1_def users_def interpreter_data_delete)
  from release_data_ok [OF assms(1) this]
  have "capi_ok (release_data (ti_model ti) c1) \<and> ca_bad (release_data (ti_model ti) c1) = ca_bad c1"
    by (auto simp: c1_def split: if_splits)
  then show ?thesis using ti capi_okD(3) [OF assms(1) ti] by (simp add: TfLiteInterpreterDelete_def c1_def)
qed

lemma capi_ok_options:
  assumes "capi_ok c" and "\<And>p. opts p \<noteq> None \<Longrightarrow> 0 < p \<and> p < n" and "ca_next c \<le> n"
  shows "capi_ok (c\<lparr>ca_next := n, ca_options := opts\<rparr>)"
proof (rule capi_okI; simp)
  have "users a (c\<lparr>ca_next := n, ca_options := opts\<rparr>) = users a c" for a
    by (simp add: users_def interpreter_data_def [abs_def])
  then show "(case ca_flatbuffers c a of None \<Rightarrow> 0 | Some fb \<Rightarrow> fb_use_count fb) = users a (c\<lparr>ca_next := n, ca_options := opts\<rparr>)" for a
    using capi_ok_count(2) [OF assms(1)] by simp
  show "0 < n" using capi_ok_count(1) [OF assms(1)] assms(3) by simp
  show "\<exists>y. opts p = Some y \<Longrightarrow> 0 < p \<and> p < n" for p using assms(2) by blast
  show "\<exists>y. ca_models c p = Some y \<Longrightarrow> 0 < p \<and> p < n" for p using capi_okD(1) [OF assms(1)] assms(3) by fastforce
  show "\<exists>y. ca_interpreters c p = Some y \<Longrightarrow> 0 < p \<and> p < n" for p using capi_okD(3) [OF assms(1)] assms(3) by fastforce
  show "\<exists>y. ca_flatbuffers c p = Some y \<Longrightarrow> 0 < p \<and> p < n" for p using capi_okD(4) [OF assms(1)] assms(3) by fastforce
  show "0 < fb_use_count fb" if "ca_flatbuffers c a = Some fb" for a fb
    using capi_ok_count(3,4) [OF assms(1) that] by simp
qed

lemma options_update_ok:
  assumes "capi_ok c" and "ca_options c p \<noteq> None" shows "capi_ok (c\<lparr>ca_options := (ca_options c)(p := x)\<rparr>)"
proof -
  have "capi_ok (c\<lparr>ca_next := ca_next c, ca_options := (ca_options c)(p := x)\<rparr>)"
  proof (rule capi_ok_options [OF assms(1)])
    fix q assume "((ca_options c)(p := x)) q \<noteq> None"
    then have "ca_options c q \<noteq> None" using assms(2) by (auto split: if_splits)
    then show "0 < q \<and> q < ca_next c" using capi_okD(2) [OF assms(1)] by blast
  qed simp
  then show ?thesis by simp
qed

lemma OptionsDelete_ok:
  assumes "capi_ok c" and "ca_options c p \<noteq> None"
  shows "capi_ok (TfLiteInterpreterOptionsDelete p c) \<and> ca_bad (TfLiteInterpreterOptionsDelete p c) = ca_bad c"
  using options_update_ok [OF assms, of None] assms by (auto simp: TfLiteInterpreterOptionsDelete_def)

lemma set_options_ok:
  assumes "capi_ok c" and "ca_options c p \<noteq> None"
  shows "capi_ok (set_options f p c) \<and> ca_bad (set_options f p c) = ca_bad c"
  using options_update_ok [OF assms] assms(2) by (auto simp: set_options_def)

lemma add_options_ok:
  assumes "capi_ok c"
  shows "capi_ok (snd (add_options opts c)) \<and> ca_bad (snd (add_options opts c)) = ca_bad c"
proof -
  have "capi_ok (c\<lparr>ca_next := ca_next c + 1, ca_options := (ca_options c)(ca_next c \<mapsto> opts)\<rparr>)"
    by (rule capi_ok_options [OF assms]) (use capi_okD(2) [OF assms] capi_ok_count(1) [OF assms] in \<open>fastforce split: if_splits\<close>)+
  then show ?thesis by (simp add: add_options_def)
qed

lemma wrap_model_ok:
  assumes "capi_ok c" shows "capi_ok (snd (wrap_model d c)) \<and> ca_bad (snd (wrap_model d c)) = ca_bad c"
proof (cases d)
  case (Some x)
  let ?n = "ca_next c"
  define c1 where "c1 = c\<lparr>ca_next := ?n + 2, ca_flatbuffers := (ca_flatbuffers c)(?n \<mapsto> \<lparr>fb_data = x, fb_use_count = 1\<rparr>),
      ca_models := (ca_models c)(?n + 1 \<mapsto> ?n)\<rparr>"
  have free: "ca_models c (?n + 1) = None" "ca_flatbuffers c ?n = None"
    using capi_okD(1) [OF assms, of "?n + 1"] capi_okD(4) [OF assms, of ?n]
    by (metis not_add_less1 option.exhaust, metis less_irrefl option.exhaust)
  have n0: "users ?n c = 0" by (rule capi_ok_count(5) [OF assms free(2)])
  have u: "users a c1 = users a c + (if a = ?n then 1 else 0)" for a
    using refs_insert [OF capi_ok_finite(1) [OF assms] free(1)] by (simp add: c1_def users_def interpreter_data_def [abs_def])
  have "capi_ok c1"
  proof (rule capi_okI)
    show "(case ca_flatbuffers c1 a of None \<Rightarrow> 0 | Some fb \<Rightarrow> fb_use_count fb) = users a c1" for a
      using capi_ok_count(2) [OF assms, of a] n0 by (simp add: u) (simp add: c1_def)
    show "0 < fb_use_count fb" if "ca_flatbuffers c1 a = Some fb" for a fb
      using that capi_ok_count(3,4) [OF assms, of a fb] by (auto simp: c1_def split: if_splits)
  qed (use capi_okD [OF assms] capi_ok_count(1) [OF assms] in \<open>fastforce simp: c1_def split: if_splits\<close>)+
  then show ?thesis using Some by (simp add: wrap_model_def c1_def Let_def)
qed (simp add: wrap_model_def assms)

lemma add_interpreter_ok:
  assumes "capi_ok c" and fb: "ca_flatbuffers c a = Some fb"
  shows "capi_ok (snd (add_interpreter a I b c)) \<and> ca_bad (snd (add_interpreter a I b c)) = ca_bad c"
proof -
  let ?n = "ca_next c" and ?ti = "\<lparr>ti_model = a, ti_impl = I, ti_enable_delegate_fallback = b\<rparr>"
  define c1 where "c1 = c\<lparr>ca_flatbuffers := (ca_flatbuffers c)(a \<mapsto> fb\<lparr>fb_use_count := fb_use_count fb + 1\<rparr>),
      ca_next := ?n + 1, ca_interpreters := (ca_interpreters c)(?n \<mapsto> ?ti)\<rparr>"
  have "ca_interpreters c ?n = None" using capi_okD(3) [OF assms(1), of ?n] by (metis less_irrefl option.exhaust)
  then have "interpreter_data c ?n = None" by (simp add: interpreter_data_def)
  moreover have "interpreter_data c1 = (interpreter_data c)(?n \<mapsto> a)" by (simp add: c1_def interpreter_data_def fun_eq_iff)
  ultimately have u: "users e c1 = users e c + (if e = a then 1 else 0)" for e
    using refs_insert [OF capi_ok_finite(2) [OF assms(1)], where q = ?n and b = a] by (simp add: users_def c1_def)
  have "capi_ok c1"
  proof (rule capi_okI)
    show "(case ca_flatbuffers c1 e of None \<Rightarrow> 0 | Some fb \<Rightarrow> fb_use_count fb) = users e c1" for e
      using capi_ok_count(2) [OF assms(1), of e] capi_ok_count(3) [OF assms] by (simp add: u) (simp add: c1_def)
    show "0 < fb_use_count f" if "ca_flatbuffers c1 e = Some f" for e f
      using that capi_ok_count(3,4) [OF assms(1), of e f] by (auto simp: c1_def split: if_splits)
    show "0 < e \<and> e < ca_next c1" if "ca_flatbuffers c1 e \<noteq> None" for e
      using that fb capi_okD(4) [OF assms(1), of e] by (fastforce simp: c1_def split: if_splits)
    show "0 < p \<and> p < ca_next c1" if "ca_interpreters c1 p \<noteq> None" for p
      using that capi_okD(3) [OF assms(1), of p] capi_ok_count(1) [OF assms(1)] by (fastforce simp: c1_def split: if_splits)
    show "0 < p \<and> p < ca_next c1" if "ca_models c1 p \<noteq> None" for p
      using that capi_okD(1) [OF assms(1), of p] by (fastforce simp: c1_def)
    show "0 < p \<and> p < ca_next c1" if "ca_options c1 p \<noteq> None" for p
      using that capi_okD(2) [OF assms(1), of p] by (fastforce simp: c1_def)
  qed (simp add: c1_def)
  moreover have "snd (add_interpreter a I b c) = c1"
    using fb by (simp add: add_interpreter_def share_data_def c1_def Let_def)
  ultimately show ?thesis by (simp add: c1_def)
qed

lemma put_interpreter_ok: "capi_ok (put_interpreter p I c) = capi_ok c" "ca_bad (put_interpreter p I c) = ca_bad c"
proof -
  have "interpreter_data (put_interpreter p I c) = interpreter_data c"
    by (auto simp: put_interpreter_def interpreter_data_def fun_eq_iff option.map_comp comp_def)
  moreover have "dom (ca_interpreters (put_interpreter p I c)) = dom (ca_interpreters c)"
    by (auto simp: put_interpreter_def split: if_splits)
  ultimately show "capi_ok (put_interpreter p I c) = capi_ok c"
    by (simp add: capi_ok_def users_def) (simp add: put_interpreter_def)
  show "ca_bad (put_interpreter p I c) = ca_bad c" by (simp add: put_interpreter_def)
qed

section \<open>The contract of an object store\<close>

text \<open>
  What a client of the interface relies on when it deletes an object: deleting the null pointer does nothing, deleting a live
  object removes that object only, is not an error and keeps the invariant of the stores.
\<close>

locale object_store =
  fixes live :: "'s \<Rightarrow> nat set" and bad :: "'s \<Rightarrow> bool" and inv :: "'s \<Rightarrow> bool" and del :: "nat \<Rightarrow> 's \<Rightarrow> 's"
  assumes del_null: "del 0 s = s"
    and del_live: "inv s \<Longrightarrow> p \<in> live s \<Longrightarrow> live (del p s) = live s - {p} \<and> bad (del p s) = bad s \<and> inv (del p s)"
begin

text \<open>A client that owns at most the one object whose address it keeps, 0 for none, leaves the store empty.\<close>

lemma del_owned:
  assumes "inv s" and "live s = {p} - {0}"
  shows "live (del p s) = {} \<and> bad (del p s) = bad s \<and> inv (del p s)"
proof (cases "p = 0")
  case True
  then show ?thesis using assms by (simp add: del_null)
next
  case False
  then have "p \<in> live s" using assms(2) by auto
  then show ?thesis using del_live [OF assms(1)] assms(2) by auto
qed

end

lemma release_data_stores [simp]:
  "ca_models (release_data a c) = ca_models c" "ca_options (release_data a c) = ca_options c"
  "ca_interpreters (release_data a c) = ca_interpreters c"
  by (simp_all add: release_data_def flag_bad_def split: option.split)

lemma delete_stores [simp]:
  "ca_options (TfLiteModelDelete p c) = ca_options c" "ca_interpreters (TfLiteModelDelete p c) = ca_interpreters c"
  "ca_models (TfLiteInterpreterOptionsDelete p c) = ca_models c"
  "ca_interpreters (TfLiteInterpreterOptionsDelete p c) = ca_interpreters c"
  "ca_models (TfLiteInterpreterDelete p c) = ca_models c" "ca_options (TfLiteInterpreterDelete p c) = ca_options c"
  by (simp_all add: TfLiteModelDelete_def TfLiteInterpreterOptionsDelete_def TfLiteInterpreterDelete_def flag_bad_def split: option.split)

interpretation models: object_store "\<lambda>c. dom (ca_models c)" ca_bad capi_ok TfLiteModelDelete
proof
  show "TfLiteModelDelete 0 c = c" for c by (simp add: TfLiteModelDelete_def)
  show "dom (ca_models (TfLiteModelDelete p c)) = dom (ca_models c) - {p} \<and> ca_bad (TfLiteModelDelete p c) = ca_bad c \<and>
      capi_ok (TfLiteModelDelete p c)" if "capi_ok c" "p \<in> dom (ca_models c)" for c p
    using that ModelDelete_ok [of c p] capi_okD(1) [OF that(1)] by (auto simp: TfLiteModelDelete_def split: if_splits)
qed

interpretation options: object_store "\<lambda>c. dom (ca_options c)" ca_bad capi_ok TfLiteInterpreterOptionsDelete
proof
  show "TfLiteInterpreterOptionsDelete 0 c = c" for c by (simp add: TfLiteInterpreterOptionsDelete_def)
  show "dom (ca_options (TfLiteInterpreterOptionsDelete p c)) = dom (ca_options c) - {p} \<and>
      ca_bad (TfLiteInterpreterOptionsDelete p c) = ca_bad c \<and> capi_ok (TfLiteInterpreterOptionsDelete p c)"
    if "capi_ok c" "p \<in> dom (ca_options c)" for c p
    using that OptionsDelete_ok [of c p] capi_okD(2) [OF that(1)]
    by (auto simp: TfLiteInterpreterOptionsDelete_def split: if_splits)
qed

interpretation interpreters: object_store "\<lambda>c. dom (ca_interpreters c)" ca_bad capi_ok TfLiteInterpreterDelete
proof
  show "TfLiteInterpreterDelete 0 c = c" for c by (simp add: TfLiteInterpreterDelete_def)
  show "dom (ca_interpreters (TfLiteInterpreterDelete p c)) = dom (ca_interpreters c) - {p} \<and>
      ca_bad (TfLiteInterpreterDelete p c) = ca_bad c \<and> capi_ok (TfLiteInterpreterDelete p c)"
    if "capi_ok c" "p \<in> dom (ca_interpreters c)" for c p
    using that InterpreterDelete_ok [of c p] capi_okD(3) [OF that(1)]
    by (auto simp: TfLiteInterpreterDelete_def split: if_splits)
qed

section \<open>Clients of the interface\<close>

definition ok_call :: "capi \<Rightarrow> capi \<Rightarrow> bool" where
  "ok_call c d \<longleftrightarrow> (capi_ok c \<longrightarrow> capi_ok d \<and> ca_bad d = ca_bad c)"

lemma InterpreterCreate_ok:
  assumes "model = 0 \<or> ca_models c model \<noteq> None" and "opts = 0 \<or> ca_options c opts \<noteq> None"
    and "TfLiteInterpreterCreate E model opts c = Some (p, d)"
  shows "ok_call c d"
  unfolding ok_call_def
proof
  assume ok: "capi_ok c"
  have "d = c \<or> (\<exists>a I b. ca_models c model = Some a \<and> d = snd (add_interpreter a I b c))"
  proof (cases "model = 0")
    case False
    then obtain a where a: "ca_models c model = Some a" using assms(1) by auto
    define options where "options = (if opts = 0 then None else ca_options c opts)"
    define data where "data = (case ca_flatbuffers c a of None \<Rightarrow> 0 | Some fb \<Rightarrow> fb_data fb)"
    have bad: "\<not> (opts \<noteq> 0 \<and> ca_options c opts = None)" using assms(2) by auto
    have r: "(case ce_build E data (choose_resolver E options) of
         None \<Rightarrow> Some (0, c)
       | Some I \<Rightarrow> (case options of
             None \<Rightarrow> Some (add_interpreter a I False c)
           | Some opts \<Rightarrow> (case configure_interpreter E opts I of
                 None \<Rightarrow> None
               | Some (st, I1) \<Rightarrow>
                  (if st \<noteq> kTfLiteOk then Some (0, c)
                   else Some (add_interpreter a I1 (opt_enable_delegate_fallback opts) c))))) = Some (p, d)"
      using assms(3) False a bad
      unfolding TfLiteInterpreterCreate_def InterpreterCreateWithOpResolver_def Let_def options_def data_def
      by (simp only: if_False not_False_eq_True simp_thms option.case refl)
    show ?thesis
    proof (cases "ce_build E data (choose_resolver E options)")
      case (Some I)
      have "d = c \<or> (\<exists>J b. add_interpreter a J b c = (p, d))"
        using r Some by (auto split: option.splits if_splits prod.splits)
      then show ?thesis using a by (metis snd_conv)
    qed (use r in simp)
  qed (use assms(3) in \<open>simp add: TfLiteInterpreterCreate_def InterpreterCreateWithOpResolver_def\<close>)
  then show "capi_ok d \<and> ca_bad d = ca_bad c"
  proof (elim disjE exE conjE)
    fix a I b assume a: "ca_models c model = Some a" and d: "d = snd (add_interpreter a I b c)"
    obtain fb where "ca_flatbuffers c a = Some fb" using used_data_live [OF ok] users_pos(1) [OF ok a] by auto
    then show ?thesis using add_interpreter_ok [OF ok] d by blast
  qed (simp add: ok)
qed

lemma on_interpreter_ok: "ca_interpreters c p \<noteq> None \<Longrightarrow> on_interpreter f p c = Some (st, d) \<Longrightarrow> ok_call c d"
  by (auto simp: on_interpreter_def ok_call_def put_interpreter_ok split: option.splits)

lemma copy_to_tensor_ok: "ca_interpreters c p \<noteq> None \<Longrightarrow> ok_call c (snd (copy_to_tensor p t bs c))"
  by (auto simp: copy_to_tensor_def ok_call_def put_interpreter_ok)

text \<open>One call of the interface, by a client that passes only the addresses of live objects, or null where it may.\<close>

inductive capi_step :: "capi \<Rightarrow> capi \<Rightarrow> bool" where
  "capi_step c (snd (TfLiteModelCreate E bs c))"
| "capi_step c (snd (TfLiteModelCreateFromFile E path c))"
| "p = 0 \<or> ca_models c p \<noteq> None \<Longrightarrow> capi_step c (TfLiteModelDelete p c)"
| "capi_step c (snd (TfLiteInterpreterOptionsCreate c))"
| "ca_options c p \<noteq> None \<Longrightarrow> capi_step c (snd (TfLiteInterpreterOptionsCopy p c))"
| "p = 0 \<or> ca_options c p \<noteq> None \<Longrightarrow> capi_step c (TfLiteInterpreterOptionsDelete p c)"
| "ca_options c p \<noteq> None \<Longrightarrow> capi_step c (TfLiteInterpreterOptionsSetNumThreads p n c)"
| "ca_options c p \<noteq> None \<Longrightarrow> capi_step c (TfLiteInterpreterOptionsAddDelegate p delegate c)"
| "ca_options c p \<noteq> None \<Longrightarrow> capi_step c (TfLiteInterpreterOptionsAddOperator p registration c)"
| "ca_options c p \<noteq> None \<Longrightarrow> capi_step c (snd (TfLiteInterpreterOptionsEnableCancellation p b c))"
| "model = 0 \<or> ca_models c model \<noteq> None \<Longrightarrow> opts = 0 \<or> ca_options c opts \<noteq> None \<Longrightarrow>
     TfLiteInterpreterCreate E model opts c = Some (p, d) \<Longrightarrow> capi_step c d"
| "p = 0 \<or> ca_interpreters c p \<noteq> None \<Longrightarrow> capi_step c (TfLiteInterpreterDelete p c)"
| "ca_interpreters c p \<noteq> None \<Longrightarrow> TfLiteInterpreterAllocateTensors E p c = Some (st, d) \<Longrightarrow> capi_step c d"
| "ca_interpreters c p \<noteq> None \<Longrightarrow> TfLiteInterpreterInvoke E p c = Some (st, d) \<Longrightarrow> capi_step c d"
| "ca_interpreters c p \<noteq> None \<Longrightarrow> TfLiteInterpreterResizeInputTensor E p k dims c = Some (st, d) \<Longrightarrow> capi_step c d"
| "ca_interpreters c p \<noteq> None \<Longrightarrow> TfLiteInterpreterCancel p c = Some (st, d) \<Longrightarrow> capi_step c d"
| "ca_interpreters c p \<noteq> None \<Longrightarrow> capi_step c (snd (copy_to_tensor p t bs c))"

lemma delete_ok:
  "p = 0 \<or> ca_models c p \<noteq> None \<Longrightarrow> ok_call c (TfLiteModelDelete p c)"
  "p = 0 \<or> ca_options c p \<noteq> None \<Longrightarrow> ok_call c (TfLiteInterpreterOptionsDelete p c)"
  "p = 0 \<or> ca_interpreters c p \<noteq> None \<Longrightarrow> ok_call c (TfLiteInterpreterDelete p c)"
  using models.del_null options.del_null interpreters.del_null ModelDelete_ok OptionsDelete_ok InterpreterDelete_ok
  by (auto simp: ok_call_def)

lemma create_ok:
  "ok_call c (snd (TfLiteModelCreate E bs c))" "ok_call c (snd (TfLiteModelCreateFromFile E path c))"
  "ok_call c (snd (TfLiteInterpreterOptionsCreate c))"
  "ca_options c p \<noteq> None \<Longrightarrow> ok_call c (snd (TfLiteInterpreterOptionsCopy p c))"
  by (auto simp: ok_call_def TfLiteModelCreate_def TfLiteModelCreateFromFile_def wrap_model_ok
      TfLiteInterpreterOptionsCreate_def TfLiteInterpreterOptionsCopy_def add_options_ok)

lemma setters_ok:
  assumes "ca_options c p \<noteq> None"
  shows "ok_call c (TfLiteInterpreterOptionsSetNumThreads p n c)" "ok_call c (TfLiteInterpreterOptionsAddDelegate p d c)"
    "ok_call c (TfLiteInterpreterOptionsAddOperator p d c)" "ok_call c (snd (TfLiteInterpreterOptionsEnableCancellation p b c))"
  using set_options_ok [OF _ assms]
  by (simp_all add: ok_call_def TfLiteInterpreterOptionsSetNumThreads_def TfLiteInterpreterOptionsAddDelegate_def
      TfLiteInterpreterOptionsAddOperator_def TfLiteInterpreterOptionsEnableCancellation_def)

lemma use_ok:
  assumes "ca_interpreters c p \<noteq> None"
  shows "TfLiteInterpreterAllocateTensors E p c = Some (st, d) \<Longrightarrow> ok_call c d"
    "TfLiteInterpreterInvoke E p c = Some (st, d) \<Longrightarrow> ok_call c d"
    "TfLiteInterpreterResizeInputTensor E p k dims c = Some (st, d) \<Longrightarrow> ok_call c d"
    "TfLiteInterpreterCancel p c = Some (st, d) \<Longrightarrow> ok_call c d"
  unfolding TfLiteInterpreterAllocateTensors_def TfLiteInterpreterInvoke_def TfLiteInterpreterResizeInputTensor_def
    TfLiteInterpreterCancel_def
  by (rule on_interpreter_ok [OF assms]; assumption)+

lemma capi_step_ok: "capi_step c d \<Longrightarrow> ok_call c d"
  by (induction rule: capi_step.induct)
     (blast intro: create_ok delete_ok setters_ok InterpreterCreate_ok use_ok copy_to_tensor_ok)+

interpretation capi: transition_system "\<lambda>c. c = new_capi" capi_step "\<lambda>c. capi_ok c \<and> \<not> ca_bad c"
proof
  have "capi_ok new_capi"
    by (rule capi_okI) (simp_all add: new_capi_def users_def refs_def interpreter_data_def)
  then show "c = new_capi \<Longrightarrow> capi_ok c \<and> \<not> ca_bad c" for c by (simp add: new_capi_def)
  show "capi_ok c \<and> \<not> ca_bad c \<Longrightarrow> capi_step c d \<Longrightarrow> capi_ok d \<and> \<not> ca_bad d" for c d
    using capi_step_ok by (auto simp: ok_call_def)
qed

section \<open>Properties of the interface\<close>

text \<open>
  Claim C18. Model data lives exactly as long as it is used: after any sequence of calls that pass live addresses, no call has
  touched a dead object, and the data at an address is held in memory if and only if a model or an interpreter that has not
  been deleted refers to it. A model may thus be deleted while interpreters made from it are in use.
\<close>

theorem model_data_lifetime:
  assumes "reachable (\<lambda>c. c = new_capi) capi_step c"
  shows "\<not> ca_bad c \<and> (ca_flatbuffers c a \<noteq> None \<longleftrightarrow>
    (\<exists>p. ca_models c p = Some a) \<or> (\<exists>p ti. ca_interpreters c p = Some ti \<and> ti_model ti = a))"
proof -
  have ok: "capi_ok c" and b: "\<not> ca_bad c" using capi.reachable_inv [OF assms] by auto
  have "0 < users a c \<longleftrightarrow> (\<exists>p. ca_models c p = Some a) \<or> (\<exists>p. interpreter_data c p = Some a)"
    using capi_ok_finite [OF ok, of a] by (auto simp: users_def refs_def card_gt_0_iff)
  then show ?thesis using used_data_live [OF ok, of a] b by (auto simp: interpreter_data_def)
qed

text \<open>An environment in which every named file holds a model whose graph is empty.\<close>

definition w_env :: capi_env where
  "w_env = \<lparr>ce_runtime = w_runtime, ce_create_delegate = (\<lambda>_ _. 0), ce_load_file = (\<lambda>path. if path = [] then None else Some 7),
     ce_load_buffer = (\<lambda>_. None), ce_op_resolver = new_op_resolver, ce_build = (\<lambda>_ _. Some new_interpreter),
     ce_nnapi_delegate = 0, ce_fuel = 1\<rparr>"

theorem model_data_lifetime_witness:
  "let c1 = snd (TfLiteModelCreateFromFile w_env ''m.tflite'' new_capi)
   in \<exists>c2. TfLiteInterpreterCreate w_env 2 0 c1 = Some (3, c2) \<and>
        ca_models (TfLiteModelDelete 2 c2) = (\<lambda>_. None) \<and> ca_flatbuffers (TfLiteModelDelete 2 c2) 1 \<noteq> None \<and>
        \<not> ca_bad (TfLiteModelDelete 2 c2)"
proof -
  define c1 where "c1 = snd (TfLiteModelCreateFromFile w_env ''m.tflite'' new_capi)"
  have c1: "c1 = new_capi\<lparr>ca_next := 3, ca_flatbuffers := [1 \<mapsto> \<lparr>fb_data = 7, fb_use_count = 1\<rparr>], ca_models := [2 \<mapsto> 1]\<rparr>"
    by (simp add: c1_def TfLiteModelCreateFromFile_def wrap_model_def w_env_def new_capi_def Let_def numeral_2_eq_2)
  define c2 where "c2 = snd (add_interpreter 1 new_interpreter False c1)"
  have create: "TfLiteInterpreterCreate w_env 2 0 c1 = Some (3, c2)"
    by (simp add: TfLiteInterpreterCreate_def InterpreterCreateWithOpResolver_def c1 c2_def w_env_def add_interpreter_def
        share_data_def new_capi_def Let_def)
  have i: "ca_models c2 = [2 \<mapsto> 1]" "ca_interpreters c2 3 = Some \<lparr>ti_model = 1, ti_impl = new_interpreter, ti_enable_delegate_fallback = False\<rparr>"
    by (simp_all add: c1 c2_def add_interpreter_def share_data_def new_capi_def Let_def)
  have m: "ca_models (TfLiteModelDelete 2 c2) = (\<lambda>_. None)" by (simp add: TfLiteModelDelete_def i fun_eq_iff)
  have "reachable (\<lambda>c. c = new_capi) capi_step c1"
    unfolding c1_def by (intro reachable_step [OF reachable_init [of _ new_capi]] capi_step.intros(2) refl)
  then have "reachable (\<lambda>c. c = new_capi) capi_step c2"
    by (rule reachable_step) (rule capi_step.intros(11) [OF _ _ create], simp_all add: c1)
  then have "reachable (\<lambda>c. c = new_capi) capi_step (TfLiteModelDelete 2 c2)"
    by (rule reachable_step) (rule capi_step.intros(3), simp add: i)
  from model_data_lifetime [OF this, of 1] have "ca_flatbuffers (TfLiteModelDelete 2 c2) 1 \<noteq> None \<and> \<not> ca_bad (TfLiteModelDelete 2 c2)"
    using i(2) by (metis TfLiteInterpreter.select_convs(1) delete_stores(2))
  then show ?thesis using create m by (auto simp: c1_def Let_def)
qed

end
