(* ===== verification/FfiPlugin.thy ===== *)
theory FfiPlugin
  imports CApi
begin

unbundle bit_operations_syntax

text \<open>
  The plugin through which the application classifies a voice command (\<open>plugins/ffi_plugin/src/ffi_plugin.cpp\<close>): three static
  pointers to a model, its options and an interpreter, and the operations \<open>load_model\<close>, \<open>run_inference\<close> and
  \<open>unload_model\<close>, as the exported functions have them. The state is the three pointers and the objects of the C interface.
  A read outside of a buffer, by the plugin itself or on its behalf, is flagged in \<open>pl_bad\<close>; messages that are printed are
  left out. The operations return \<open>None\<close> only where a call into the runtime does not return.
\<close>

section \<open>Samples and scores\<close>

text \<open>The bytes of 16-bit samples in memory, on the little-endian targets of the application.\<close>

definition sample_bytes :: "16 word \<Rightarrow> byte list" where
  "sample_bytes x = [ucast x, ucast (drop_bit 8 x)]"

definition pcm_bytes :: "16 word list \<Rightarrow> byte list" where
  "pcm_bytes xs = concat (map sample_bytes xs)"

text \<open>Reading bytes as numbers of type \<open>float\<close>, by their bit pattern.\<close>

fun floats :: "byte list \<Rightarrow> 32 word list" where
  "floats (a # b # c # d # bs) =
     (ucast a OR push_bit 8 (ucast b) OR push_bit 16 (ucast c) OR push_bit 24 (ucast d)) # floats bs"
| "floats bs = []"

definition float_exponent :: "32 word \<Rightarrow> nat" where
  "float_exponent x = unat (drop_bit 23 x AND 255)"

definition float_fraction :: "32 word \<Rightarrow> nat" where
  "float_fraction x = unat (x AND 8388607)"

definition float_isnan :: "32 word \<Rightarrow> bool" where
  "float_isnan x \<longleftrightarrow> float_exponent x = 255 \<and> float_fraction x \<noteq> 0"

text \<open>
  The number in units of \<open>2 ^ (-149)\<close>, the smallest positive \<open>float\<close>, in which every finite one is an integer; infinity is larger
  than all of them. A comparison with a NaN is false.
\<close>

definition float_magnitude :: "32 word \<Rightarrow> nat" where
  "float_magnitude x = (if float_exponent x = 0 then float_fraction x
     else (8388608 + float_fraction x) * 2 ^ (float_exponent x - 1))"

definition float_value :: "32 word \<Rightarrow> int" where
  "float_value x = (if bit x 31 then - int (float_magnitude x) else int (float_magnitude x))"

definition float_greater :: "32 word \<Rightarrow> 32 word \<Rightarrow> bool" where
  "float_greater x y \<longleftrightarrow> \<not> float_isnan x \<and> \<not> float_isnan y \<and> float_value y < float_value x"

section \<open>State\<close>

text \<open>The static pointers, 0 for null.\<close>

record plugin =
  pl_model :: nat
  pl_interpreter :: nat
  pl_options :: nat
  pl_capi :: capi
  pl_bad :: bool

definition new_plugin :: plugin where
  "new_plugin = \<lparr>pl_model = 0, pl_interpreter = 0, pl_options = 0, pl_capi = new_capi, pl_bad = False\<rparr>"

definition flag_unless :: "bool \<Rightarrow> plugin \<Rightarrow> plugin" where
  "flag_unless b s = (if b then s else s\<lparr>pl_bad := True\<rparr>)"

section \<open>Loading and unloading\<close>

definition delete_interpreter_ptr :: "plugin \<Rightarrow> plugin" where
  "delete_interpreter_ptr s = (if pl_interpreter s \<noteq> 0
     then s\<lparr>pl_capi := TfLiteInterpreterDelete (pl_interpreter s) (pl_capi s), pl_interpreter := 0\<rparr> else s)"

definition delete_options_ptr :: "plugin \<Rightarrow> plugin" where
  "delete_options_ptr s = (if pl_options s \<noteq> 0
     then s\<lparr>pl_capi := TfLiteInterpreterOptionsDelete (pl_options s) (pl_capi s), pl_options := 0\<rparr> else s)"

definition delete_model_ptr :: "plugin \<Rightarrow> plugin" where
  "delete_model_ptr s = (if pl_model s \<noteq> 0
     then s\<lparr>pl_capi := TfLiteModelDelete (pl_model s) (pl_capi s), pl_model := 0\<rparr> else s)"

definition unload_model :: "plugin \<Rightarrow> plugin" where
  "unload_model s = delete_model_ptr (delete_options_ptr (delete_interpreter_ptr s))"

text \<open>The second half of \<open>load_model\<close>, from the creation of the interpreter on.\<close>

definition load_interpreter :: "capi_env \<Rightarrow> plugin \<Rightarrow> (int \<times> plugin) option" where
  "load_interpreter E s = (case TfLiteInterpreterCreate E (pl_model s) (pl_options s) (pl_capi s) of
     None \<Rightarrow> None
   | Some (p, c) \<Rightarrow>
      (let s = s\<lparr>pl_interpreter := p, pl_capi := c\<rparr>
       in if p = 0 then Some (0, s)
          else (case TfLiteInterpreterAllocateTensors E p (pl_capi s) of
               None \<Rightarrow> None
             | Some (st, c) \<Rightarrow> Some (if st \<noteq> kTfLiteOk then 0 else 1, s\<lparr>pl_capi := c\<rparr>))))"

definition load_model :: "capi_env \<Rightarrow> string option \<Rightarrow> plugin \<Rightarrow> (int \<times> plugin) option" where
  "load_model E model_path s = (case model_path of
     None \<Rightarrow> Some (0, s)
   | Some path \<Rightarrow>
      (let s = delete_model_ptr (delete_options_ptr (delete_interpreter_ptr s));
           (m, c) = TfLiteModelCreateFromFile E path (pl_capi s);
           s = s\<lparr>pl_model := m, pl_capi := c\<rparr>
       in if m = 0 then Some (0, s)
          else
            (let (opts, c) = TfLiteInterpreterOptionsCreate (pl_capi s);
                 s = s\<lparr>pl_options := opts, pl_capi := TfLiteInterpreterOptionsSetNumThreads opts 2 c\<rparr>
             in load_interpreter E s)))"

section \<open>Classifying a recording\<close>

text \<open>Whether a count says that there is a first element to read.\<close>

definition has_first :: "int option \<Rightarrow> bool" where
  "has_first n = (case n of None \<Rightarrow> False | Some k \<Rightarrow> k \<noteq> 0)"

text \<open>The loop over the scores keeps the index and the value of the largest one.\<close>

definition keep_max :: "32 word list \<Rightarrow> nat \<Rightarrow> nat \<times> 32 word \<Rightarrow> nat \<times> 32 word" where
  "keep_max output_data i m = (if float_greater (output_data ! i) (snd m) then (i, output_data ! i) else m)"

definition argmax :: "32 word list \<Rightarrow> nat \<Rightarrow> nat" where
  "argmax output_data output_size = fst (fold (keep_max output_data) [1..<output_size] (0, output_data ! 0))"

text \<open>
  Reading the result: the first score is read even when there is none, the others up to \<open>output_size\<close>, which is converted to
  \<open>int\<close>. When the scores are not in readable memory the result is unspecified; the model flags it and returns 0.
\<close>

definition best_output :: "TfLiteTensor \<Rightarrow> Subgraph \<Rightarrow> plugin \<Rightarrow> int \<times> plugin" where
  "best_output output_tensor g s =
     (let output_size = wrap_i32 (int (t_bytes output_tensor div 4))
      in case read_tensor output_tensor (4 * max 1 (nat output_size)) g of
           None \<Rightarrow> (0, s\<lparr>pl_bad := True\<rparr>)
         | Some bs \<Rightarrow> (int (argmax (floats bs) (nat output_size)), s))"

text \<open>
  The memory at \<open>pcm_data\<close> is given by the samples in it, \<open>None\<close> for the null pointer; \<open>len\<close> is the parameter \<open>length\<close>.
  If there are fewer samples than \<open>len\<close>, copying them reads past the end, which is flagged; the model has zeros there.
\<close>

definition padded_pcm :: "int \<Rightarrow> 16 word list \<Rightarrow> 16 word list" where
  "padded_pcm len xs = take (nat len) xs @ replicate (nat len - length xs) 0"

text \<open>The part of \<open>run_inference\<close> from the invocation on.\<close>

definition invoke_and_classify :: "capi_env \<Rightarrow> plugin \<Rightarrow> (int \<times> plugin) option" where
  "invoke_and_classify E s = (case TfLiteInterpreterInvoke E (pl_interpreter s) (pl_capi s) of
     None \<Rightarrow> None
   | Some (st, c) \<Rightarrow>
      (let s = s\<lparr>pl_capi := c\<rparr>
       in if st \<noteq> kTfLiteOk then Some (-1, s)
          else case TfLiteInterpreterGetOutputTensor (pl_interpreter s) 0 (pl_capi s) of
            None \<Rightarrow> Some (-1, flag_unless (has_first (TfLiteInterpreterGetOutputTensorCount (pl_interpreter s) (pl_capi s))) s)
          | Some (_, output_tensor) \<Rightarrow>
              Some (best_output output_tensor (the (graph_of (pl_interpreter s) (pl_capi s))) s)))"

definition run_inference :: "capi_env \<Rightarrow> 16 word list option \<Rightarrow> int \<Rightarrow> plugin \<Rightarrow> (int \<times> plugin) option" where
  "run_inference E pcm_data len s =
     (if pl_interpreter s = 0 \<or> pcm_data = None \<or> len \<le> 0 then Some (-1, s)
      else case TfLiteInterpreterGetInputTensor (pl_interpreter s) 0 (pl_capi s) of
        None \<Rightarrow> Some (-1, flag_unless (has_first (TfLiteInterpreterGetInputTensorCount (pl_interpreter s) (pl_capi s))) s)
      | Some (_, input_tensor) \<Rightarrow>
          if size_mul (size_of_int len) 2 > t_bytes input_tensor then Some (-1, s)
          else
            (case copy_to_tensor (pl_interpreter s) input_tensor (pcm_bytes (padded_pcm len (the pcm_data))) (pl_capi s) of (st, c) \<Rightarrow>
               if st \<noteq> kTfLiteOk then Some (-1, s\<lparr>pl_capi := c\<rparr>)
               else invoke_and_classify E (flag_unless (nat len \<le> length (the pcm_data)) (s\<lparr>pl_capi := c\<rparr>))))"

section \<open>The largest score\<close>

text \<open>What the loop has found after the scores below \<open>n\<close>: NaNs are passed over, unless the first score is one.\<close>

definition first_max :: "32 word list \<Rightarrow> nat \<Rightarrow> nat \<Rightarrow> bool" where
  "first_max xs n r \<longleftrightarrow>
     (if float_isnan (xs ! 0) then r = 0
      else r < n \<and> \<not> float_isnan (xs ! r) \<and>
        (\<forall>i<n. \<not> float_isnan (xs ! i) \<longrightarrow> float_value (xs ! i) \<le> float_value (xs ! r)) \<and>
        (\<forall>i<r. \<not> float_isnan (xs ! i) \<longrightarrow> float_value (xs ! i) < float_value (xs ! r)))"

lemma first_max_unique: "first_max xs n r \<Longrightarrow> first_max xs n q \<Longrightarrow> r = q"
proof (cases "float_isnan (xs ! 0)")
  case False
  then show "first_max xs n r \<Longrightarrow> first_max xs n q \<Longrightarrow> r = q"
    unfolding first_max_def by (metis leD linorder_neqE_nat)
qed (simp add: first_max_def)

lemma keep_max_loop:
  assumes "0 < n"
  shows "\<exists>r. fold (keep_max xs) [1..<n] (0, xs ! 0) = (r, xs ! r) \<and> first_max xs n r"
  using assms
proof (induction n)
  case (Suc n)
  show ?case
  proof (cases "n = 0")
    case False
    with Suc.IH obtain r where r: "fold (keep_max xs) [1..<n] (0, xs ! 0) = (r, xs ! r)" "first_max xs n r" by blast
    have "first_max xs (Suc n) (if float_greater (xs ! n) (xs ! r) then n else r)"
      using r(2) unfolding first_max_def float_greater_def by (auto simp: less_Suc_eq split: if_splits; fastforce)
    moreover have "fold (keep_max xs) [1..<Suc n] (0, xs ! 0) = keep_max xs n (r, xs ! r)" using False r(1) by simp
    then have "fold (keep_max xs) [1..<Suc n] (0, xs ! 0) =
        (let q = (if float_greater (xs ! n) (xs ! r) then n else r) in (q, xs ! q))"
      by (simp only:) (simp add: keep_max_def)
    ultimately show ?thesis unfolding Let_def by blast
  qed (simp add: first_max_def)
qed simp

lemma argmax_first_max: "0 < n \<Longrightarrow> first_max xs n (argmax xs n)"
  using keep_max_loop [of n xs] by (auto simp: argmax_def)

lemma argmax_less: "0 < n \<Longrightarrow> argmax xs n < n"
  using argmax_first_max [of n xs] by (auto simp: first_max_def split: if_splits)

lemma argmax_none: "argmax xs 0 = 0"
  by (simp add: argmax_def)

section \<open>Samples in memory\<close>

lemma length_pcm_bytes [simp]: "length (pcm_bytes xs) = 2 * length xs"
  by (induction xs) (simp_all add: pcm_bytes_def sample_bytes_def)

lemma sample_size:
  assumes "0 < len" "in_i32 len" shows "size_mul (size_of_int len) 2 = 2 * nat len"
  using assms by (simp add: in_i32_def size_mul_def)

section \<open>Ownership\<close>

text \<open>
  The plugin owns what its pointers name and nothing else exists: no object is lost, none is named after its deletion, and
  no call went to a dead object. Its interpreters never fall back to the CPU on their own.
\<close>

definition owns :: "plugin \<Rightarrow> bool" where
  "owns s \<longleftrightarrow> capi_ok (pl_capi s) \<and> \<not> ca_bad (pl_capi s) \<and>
     dom (ca_models (pl_capi s)) = {pl_model s} - {0} \<and> dom (ca_options (pl_capi s)) = {pl_options s} - {0} \<and>
     dom (ca_interpreters (pl_capi s)) = {pl_interpreter s} - {0} \<and>
     (\<forall>p ti. ca_interpreters (pl_capi s) p = Some ti \<longrightarrow> \<not> ti_enable_delegate_fallback ti)"

definition holds_nothing :: "plugin \<Rightarrow> bool" where
  "holds_nothing s \<longleftrightarrow> pl_model s = 0 \<and> pl_options s = 0 \<and> pl_interpreter s = 0 \<and>
     ca_models (pl_capi s) = (\<lambda>_. None) \<and> ca_options (pl_capi s) = (\<lambda>_. None) \<and>
     ca_interpreters (pl_capi s) = (\<lambda>_. None) \<and> ca_flatbuffers (pl_capi s) = (\<lambda>_. None)"

lemma no_data_left:
  assumes "capi_ok c" and "ca_models c = (\<lambda>_. None)" and "ca_interpreters c = (\<lambda>_. None)"
  shows "ca_flatbuffers c = (\<lambda>_. None)"
proof
  fix a
  have "users a c = 0" using assms(2,3) by (simp add: users_def refs_def interpreter_data_def)
  then show "ca_flatbuffers c a = None" using used_data_live [OF assms(1), of a] by auto
qed

lemma unload_owned:
  assumes "owns s" shows "owns (unload_model s) \<and> holds_nothing (unload_model s) \<and> pl_bad (unload_model s) = pl_bad s"
proof -
  let ?c1 = "TfLiteInterpreterDelete (pl_interpreter s) (pl_capi s)"
  let ?c2 = "TfLiteInterpreterOptionsDelete (pl_options s) ?c1"
  let ?c3 = "TfLiteModelDelete (pl_model s) ?c2"
  have o: "capi_ok (pl_capi s)" "\<not> ca_bad (pl_capi s)" "dom (ca_models (pl_capi s)) = {pl_model s} - {0}"
    "dom (ca_options (pl_capi s)) = {pl_options s} - {0}" "dom (ca_interpreters (pl_capi s)) = {pl_interpreter s} - {0}"
    using assms by (auto simp: owns_def)
  have 1: "dom (ca_interpreters ?c1) = {} \<and> ca_bad ?c1 = ca_bad (pl_capi s) \<and> capi_ok ?c1"
    by (rule interpreters.del_owned [OF o(1,5)])
  have 2: "dom (ca_options ?c2) = {} \<and> ca_bad ?c2 = ca_bad ?c1 \<and> capi_ok ?c2"
    using 1 o(4) by (intro options.del_owned) simp_all
  have 3: "dom (ca_models ?c3) = {} \<and> ca_bad ?c3 = ca_bad ?c2 \<and> capi_ok ?c3"
    using 2 o(3) by (intro models.del_owned) simp_all
  have "unload_model s = s\<lparr>pl_model := 0, pl_options := 0, pl_interpreter := 0, pl_capi := ?c3\<rparr>"
    by (simp add: unload_model_def delete_model_ptr_def delete_options_ptr_def delete_interpreter_ptr_def
        models.del_null options.del_null interpreters.del_null)
  moreover have "ca_models ?c3 = (\<lambda>_. None)" "ca_options ?c3 = (\<lambda>_. None)" "ca_interpreters ?c3 = (\<lambda>_. None)"
    using 1 2 3 by simp_all
  ultimately show ?thesis
    using 1 2 3 o(2) no_data_left [of ?c3] by (simp add: owns_def holds_nothing_def)
qed

text \<open>The options with which the plugin creates its interpreter.\<close>

definition two_threads :: TfLiteInterpreterOptions where
  "two_threads = new_options\<lparr>opt_num_threads := 2\<rparr>"

lemma choose_two_threads: "choose_resolver E (Some two_threads) = Use_mutable (ce_op_resolver E)"
  by (simp add: choose_resolver_def two_threads_def new_options_def no_callbacks_def has_callbacks_def AddAll_def
      new_op_resolver_def)

lemma configure_two_threads: "configure_interpreter E two_threads I = Some (kTfLiteOk, snd (SetNumThreads 2 I))"
  by (simp add: configure_interpreter_def two_threads_def new_options_def run_status_def)

lemma two_threads_fallback: "\<not> opt_enable_delegate_fallback two_threads"
  by (simp add: two_threads_def new_options_def)

text \<open>The objects after the model and the options were created.\<close>

definition with_model_options :: "nat \<Rightarrow> capi \<Rightarrow> capi" where
  "with_model_options d c = c\<lparr>ca_next := ca_next c + 3,
     ca_flatbuffers := [ca_next c \<mapsto> \<lparr>fb_data = d, fb_use_count = 1\<rparr>],
     ca_models := [ca_next c + 1 \<mapsto> ca_next c], ca_options := [ca_next c + 2 \<mapsto> two_threads]\<rparr>"

definition with_interpreter :: "nat \<Rightarrow> Interpreter \<Rightarrow> capi \<Rightarrow> capi" where
  "with_interpreter d I c = (with_model_options d c)\<lparr>ca_next := ca_next c + 4,
     ca_flatbuffers := [ca_next c \<mapsto> \<lparr>fb_data = d, fb_use_count = 2\<rparr>],
     ca_interpreters := [ca_next c + 3 \<mapsto> \<lparr>ti_model = ca_next c, ti_impl = I, ti_enable_delegate_fallback = False\<rparr>]\<rparr>"

text \<open>Every branch of \<open>load_model\<close>, in terms of what the runtime answers.\<close>

lemma load_model_branches:
  assumes "owns s"
  defines "c \<equiv> pl_capi (unload_model s)"
  shows "load_model E (Some path) s = (case ce_load_file E path of
      None \<Rightarrow> Some (0, unload_model s)
    | Some d \<Rightarrow>
       (let s1 = (unload_model s)\<lparr>pl_model := ca_next c + 1, pl_options := ca_next c + 2\<rparr>
        in case ce_build E d (Use_mutable (ce_op_resolver E)) of
             None \<Rightarrow> Some (0, s1\<lparr>pl_capi := with_model_options d c\<rparr>)
           | Some I \<Rightarrow>
              (case it_AllocateTensors (ce_fuel E) (ce_runtime E) (ce_create_delegate E) (snd (SetNumThreads 2 I)) of
                 None \<Rightarrow> None
               | Some (st, J) \<Rightarrow> Some (if st \<noteq> kTfLiteOk then 0 else 1,
                    s1\<lparr>pl_interpreter := ca_next c + 3, pl_capi := with_interpreter d J c\<rparr>))))"
proof -
  have n: "ca_models c = (\<lambda>_. None)" "ca_options c = (\<lambda>_. None)" "ca_interpreters c = (\<lambda>_. None)" "ca_flatbuffers c = (\<lambda>_. None)"
    "pl_model (unload_model s) = 0" "pl_interpreter (unload_model s) = 0" "pl_options (unload_model s) = 0"
    using unload_owned [OF assms(1)] by (simp_all add: holds_nothing_def c_def)
  show ?thesis
  proof (cases "ce_load_file E path")
    case None
    then show ?thesis using n
      by (simp add: load_model_def TfLiteModelCreateFromFile_def wrap_model_def unload_model_def [symmetric] c_def [symmetric])
  next
    case (Some d)
    let ?s1 = "(unload_model s)\<lparr>pl_model := ca_next c + 1, pl_options := ca_next c + 2\<rparr>"
    let ?create = "TfLiteInterpreterCreate E (ca_next c + 1) (ca_next c + 2) (with_model_options d c)"
    have l: "load_model E (Some path) s = load_interpreter E (?s1\<lparr>pl_capi := with_model_options d c\<rparr>)"
    proof -
      let ?n = "ca_next c"
      let ?c1 = "c\<lparr>ca_next := ?n + 2, ca_flatbuffers := [?n \<mapsto> \<lparr>fb_data = d, fb_use_count = 1\<rparr>], ca_models := [?n + 1 \<mapsto> ?n]\<rparr>"
      let ?c2 = "?c1\<lparr>ca_next := ?n + 3, ca_options := [?n + 2 \<mapsto> new_options]\<rparr>"
      have "TfLiteModelCreateFromFile E path c = (?n + 1, ?c1)"
        using Some n by (simp add: TfLiteModelCreateFromFile_def wrap_model_def Let_def)
      moreover have "TfLiteInterpreterOptionsCreate ?c1 = (?n + 2, ?c2)"
        using n by (simp add: TfLiteInterpreterOptionsCreate_def add_options_def)
      moreover have "TfLiteInterpreterOptionsSetNumThreads (?n + 2) 2 ?c2 = with_model_options d c"
        by (simp add: TfLiteInterpreterOptionsSetNumThreads_def set_options_def with_model_options_def two_threads_def)
      ultimately show ?thesis
        unfolding load_model_def unload_model_def [symmetric] c_def by (simp add: Let_def)
    qed
    have cr: "?create = (case ce_build E d (Use_mutable (ce_op_resolver E)) of
        None \<Rightarrow> Some (0, with_model_options d c)
      | Some I \<Rightarrow> Some (ca_next c + 3, with_interpreter d (snd (SetNumThreads 2 I)) c))"
      using n
      by (simp add: TfLiteInterpreterCreate_def InterpreterCreateWithOpResolver_def with_model_options_def choose_two_threads
          configure_two_threads add_interpreter_def share_data_def with_interpreter_def Let_def two_threads_fallback numeral_2_eq_2
          split: option.split)
    have al: "TfLiteInterpreterAllocateTensors E (ca_next c + 3) (with_interpreter d I c) =
        map_option (\<lambda>(st, J). (st, with_interpreter d J c))
          (it_AllocateTensors (ce_fuel E) (ce_runtime E) (ce_create_delegate E) I)" for I
      by (simp add: TfLiteInterpreterAllocateTensors_def on_interpreter_def with_interpreter_def with_model_options_def
          put_interpreter_def split: option.split)
    show ?thesis using Some n(6) unfolding l load_interpreter_def
      by (simp add: cr [simplified] al [simplified] Let_def split: option.split)
  qed
qed

lemma refs_single: "refs [p \<mapsto> b] a = (if a = b then 1 else 0)" "refs (\<lambda>_. None) a = 0"
proof -
  have "{q. [p \<mapsto> b] q = Some a} = (if a = b then {p} else {})" by auto
  then show "refs [p \<mapsto> b] a = (if a = b then 1 else 0)" by (simp add: refs_def)
qed (simp add: refs_def)

lemma with_objects_ok:
  assumes "capi_ok c" and "ca_interpreters c = (\<lambda>_. None)"
  shows "capi_ok (with_model_options d c)" "capi_ok (with_interpreter d I c)"
proof -
  have n: "0 < ca_next c" by (rule capi_ok_count(1) [OF assms(1)])
  have u: "users a (with_model_options d c) = (if a = ca_next c then 1 else 0)"
    "users a (with_interpreter d I c) = (if a = ca_next c then 2 else 0)" for a
  proof -
    have "interpreter_data (with_interpreter d I c) = [ca_next c + 3 \<mapsto> ca_next c]"
      "interpreter_data (with_model_options d c) = (\<lambda>_. None)"
      using assms(2) by (auto simp: interpreter_data_def with_interpreter_def with_model_options_def)
    then show "users a (with_model_options d c) = (if a = ca_next c then 1 else 0)"
      "users a (with_interpreter d I c) = (if a = ca_next c then 2 else 0)"
      by (simp_all add: users_def refs_single) (simp_all add: with_interpreter_def with_model_options_def refs_single [simplified])
  qed
  show "capi_ok (with_model_options d c)"
    by (rule capi_okI) (use n assms(2) u in \<open>auto simp: with_model_options_def split: if_splits\<close>)
  show "capi_ok (with_interpreter d I c)"
    by (rule capi_okI) (use n u in \<open>auto simp: with_interpreter_def with_model_options_def split: if_splits\<close>)
qed

lemma load_model_owns: "owns s \<Longrightarrow> load_model E path s = Some (r, t) \<Longrightarrow> owns t"
proof (cases path)
  case (Some p)
  assume o: "owns s" and l: "load_model E path s = Some (r, t)"
  define u where "u = unload_model s"
  have u: "owns u" "holds_nothing u" using unload_owned [OF o] by (simp_all add: u_def)
  then have c: "capi_ok (pl_capi u)" "\<not> ca_bad (pl_capi u)" "ca_interpreters (pl_capi u) = (\<lambda>_. None)" "pl_interpreter u = 0"
    by (simp_all add: owns_def holds_nothing_def)
  have 1: "owns (u\<lparr>pl_model := ca_next (pl_capi u) + 1, pl_options := ca_next (pl_capi u) + 2, pl_capi := with_model_options d (pl_capi u)\<rparr>)" for d
    using c with_objects_ok(1) [OF c(1,3)] by (auto simp: owns_def) (auto simp: with_model_options_def split: if_splits)
  have 2: "owns (u\<lparr>pl_model := ca_next (pl_capi u) + 1, pl_options := ca_next (pl_capi u) + 2,
      pl_interpreter := ca_next (pl_capi u) + 3, pl_capi := with_interpreter d J (pl_capi u)\<rparr>)" for d J
    using c with_objects_ok(2) [OF c(1,3)] by (auto simp: owns_def) (auto simp: with_interpreter_def with_model_options_def split: if_splits)
  show "owns t"
    using l Some load_model_branches [OF o, of E p, folded u_def] u(1) 1 2
    by (auto simp: Let_def split: option.splits)
qed (simp add: load_model_def)

section \<open>Invocation\<close>

lemma put_put [simp]: "put_interpreter p J (put_interpreter p I c) = put_interpreter p J c"
  by (simp add: put_interpreter_def option.map_comp comp_def)

lemma put_interpreter_at [simp]:
  "ca_interpreters (put_interpreter p I c) p = map_option (\<lambda>ti. ti\<lparr>ti_impl := I\<rparr>) (ca_interpreters c p)"
  by (simp add: put_interpreter_def)

lemma graph_of_put: "ca_interpreters c p = Some ti \<Longrightarrow> graph_of p (put_interpreter p I c) = Some (primary_subgraph I)"
  by (simp add: graph_of_def)

lemma owns_put: "owns s \<Longrightarrow> owns (s\<lparr>pl_capi := put_interpreter p I (pl_capi s)\<rparr>)"
proof -
  assume "owns s"
  moreover have "dom (ca_interpreters (put_interpreter p I (pl_capi s))) = dom (ca_interpreters (pl_capi s))"
    "ca_models (put_interpreter p I (pl_capi s)) = ca_models (pl_capi s)"
    "ca_options (put_interpreter p I (pl_capi s)) = ca_options (pl_capi s)"
    by (auto simp: put_interpreter_def split: if_splits)
  moreover have "\<not> ti_enable_delegate_fallback ti"
    if "ca_interpreters (put_interpreter p I (pl_capi s)) q = Some ti" "owns s" for q ti
    using that by (auto simp: put_interpreter_def owns_def split: if_splits)
  ultimately show ?thesis by (auto simp: owns_def put_interpreter_ok)
qed

lemma owns_flag [simp]: "owns (flag_unless b s) = owns s" "pl_capi (flag_unless b s) = pl_capi s"
  "pl_interpreter (flag_unless b s) = pl_interpreter s" "pl_model (flag_unless b s) = pl_model s"
  "pl_options (flag_unless b s) = pl_options s"
  "(flag_unless b s)\<lparr>pl_capi := c\<rparr> = flag_unless b (s\<lparr>pl_capi := c\<rparr>)"
  by (simp_all add: flag_unless_def owns_def)

lemma owned_interpreter:
  assumes "owns s" and "pl_interpreter s \<noteq> 0"
  obtains ti where "ca_interpreters (pl_capi s) (pl_interpreter s) = Some ti" "\<not> ti_enable_delegate_fallback ti"
proof -
  have "pl_interpreter s \<in> dom (ca_interpreters (pl_capi s))" using assms by (simp add: owns_def)
  then obtain ti where "ca_interpreters (pl_capi s) (pl_interpreter s) = Some ti" by blast
  then show thesis using that assms(1) by (simp add: owns_def)
qed

text \<open>What is left to do when the recording has the size of the input: \<open>J\<close> is the interpreter after the invocation.\<close>

definition read_result :: "TfLiteStatus \<Rightarrow> Interpreter \<Rightarrow> plugin \<Rightarrow> int \<times> plugin" where
  "read_result st J s =
     (if st \<noteq> kTfLiteOk then (-1, s)
      else case nth_tensor (sg_outputs (primary_subgraph J)) 0 (primary_subgraph J) of
        None \<Rightarrow> (-1, flag_unless (has_first (Some (wrap_i32 (int (length (sg_outputs (primary_subgraph J))))))) s)
      | Some (_, t) \<Rightarrow> best_output t (primary_subgraph J) s)"

definition filled :: "TfLiteTensor \<Rightarrow> byte list \<Rightarrow> Interpreter \<Rightarrow> Interpreter" where
  "filled t bs I = set_primary (write_tensor t bs (primary_subgraph I)) I"

lemma length_padded_pcm [simp]: "length (padded_pcm len xs) = nat len"
  by (auto simp: padded_pcm_def)

lemma run_inference_branches:
  assumes "owns s" and ti: "ca_interpreters (pl_capi s) (pl_interpreter s) = Some ti"
    and t: "nth_tensor (sg_inputs (primary_subgraph (ti_impl ti))) 0 (primary_subgraph (ti_impl ti)) = Some (i, t)"
    and len: "0 < len" "in_i32 len"
  shows "run_inference E (Some xs) len s =
    (if t_bytes t \<noteq> 2 * nat len then Some (-1, s)
     else let (st, J) = it_Invoke (ce_runtime E) (filled t (pcm_bytes (padded_pcm len xs)) (ti_impl ti))
          in Some (read_result st J
               (flag_unless (nat len \<le> length xs) (s\<lparr>pl_capi := put_interpreter (pl_interpreter s) J (pl_capi s)\<rparr>))))"
proof -
  let ?p = "pl_interpreter s" and ?c = "pl_capi s"
  have p: "?p \<noteq> 0" using capi_okD(3) [OF _ ti] assms(1) by (simp add: owns_def)
  have fb: "\<not> ti_enable_delegate_fallback ti" using assms(1) ti by (auto simp: owns_def)
  have inp: "TfLiteInterpreterGetInputTensor ?p 0 ?c = Some (i, t)"
    using t ti by (simp add: TfLiteInterpreterGetInputTensor_def graph_of_def)
  show ?thesis
  proof (cases "t_bytes t = 2 * nat len")
    case False
    then show ?thesis using p inp len by (simp add: run_inference_def sample_size [OF len] copy_to_tensor_def)
  next
    case True
    let ?I = "filled t (pcm_bytes (padded_pcm len xs)) (ti_impl ti)"
    obtain st J where J: "it_Invoke (ce_runtime E) ?I = (st, J)" by (cases "it_Invoke (ce_runtime E) ?I")
    have "copy_to_tensor ?p t (pcm_bytes (padded_pcm len xs)) ?c = (kTfLiteOk, put_interpreter ?p ?I ?c)"
      using True ti by (simp add: copy_to_tensor_def filled_def)
    then have 1: "run_inference E (Some xs) len s =
        invoke_and_classify E (flag_unless (nat len \<le> length xs) (s\<lparr>pl_capi := put_interpreter ?p ?I ?c\<rparr>))"
      using True p inp len by (simp add: run_inference_def sample_size [OF len])
    have "TfLiteInterpreterInvoke E ?p (put_interpreter ?p ?I ?c) = Some (st, put_interpreter ?p J ?c)"
      using ti fb J by (simp add: TfLiteInterpreterInvoke_def on_interpreter_def)
    then have "invoke_and_classify E (flag_unless b (s\<lparr>pl_capi := put_interpreter ?p ?I ?c\<rparr>)) =
        Some (read_result st J (flag_unless b (s\<lparr>pl_capi := put_interpreter ?p J ?c\<rparr>)))" for b
      using graph_of_put [OF ti, of J]
      by (simp add: invoke_and_classify_def read_result_def TfLiteInterpreterGetOutputTensor_def
          TfLiteInterpreterGetOutputTensorCount_def Let_def split: option.split)
    then show ?thesis using True J 1 by simp
  qed
qed

lemma run_inference_no_input:
  assumes "owns s" and ti: "ca_interpreters (pl_capi s) (pl_interpreter s) = Some ti"
    and t: "nth_tensor (sg_inputs (primary_subgraph (ti_impl ti))) 0 (primary_subgraph (ti_impl ti)) = None"
  shows "\<exists>b. run_inference E pcm len s = Some (-1, flag_unless b s)"
proof -
  have "s = flag_unless True s" by (simp add: flag_unless_def)
  moreover have "TfLiteInterpreterGetInputTensor (pl_interpreter s) 0 (pl_capi s) = None"
    using t ti by (simp add: TfLiteInterpreterGetInputTensor_def graph_of_def)
  ultimately show ?thesis by (fastforce simp: run_inference_def)
qed

lemma read_result_state: "\<exists>b. snd (read_result st J s) = flag_unless b s"
proof -
  have "s = flag_unless True s" "s\<lparr>pl_bad := True\<rparr> = flag_unless False s" by (simp_all add: flag_unless_def)
  then show ?thesis
    by (auto simp: read_result_def best_output_def Let_def split: option.split prod.split intro: exI [of _ True] exI [of _ False])
qed

text \<open>The call returns, and leaves the plugin with the objects it had.\<close>

lemma run_inference_returns:
  assumes "owns s" "in_i32 len"
  shows "\<exists>r t. run_inference E pcm len s = Some (r, t) \<and> owns t \<and> (pl_model t, pl_options t, pl_interpreter t) = (pl_model s, pl_options s, pl_interpreter s)"
proof (cases "pl_interpreter s = 0 \<or> pcm = None \<or> len \<le> 0")
  case False
  obtain ti where ti: "ca_interpreters (pl_capi s) (pl_interpreter s) = Some ti"
    using owned_interpreter [OF assms(1)] False by blast
  show ?thesis
  proof (cases "nth_tensor (sg_inputs (primary_subgraph (ti_impl ti))) 0 (primary_subgraph (ti_impl ti))")
    case None
    obtain b where "run_inference E pcm len s = Some (-1, flag_unless b s)"
      using run_inference_no_input [OF assms(1) ti None] by blast
    then show ?thesis using assms(1) by simp
  next
    case (Some it)
    obtain xs where "pcm = Some xs" using False by auto
    moreover obtain st J where J: "it_Invoke (ce_runtime E) (filled (snd it) (pcm_bytes (padded_pcm len xs)) (ti_impl ti)) = (st, J)"
      by (cases "it_Invoke (ce_runtime E) (filled (snd it) (pcm_bytes (padded_pcm len xs)) (ti_impl ti))")
    let ?s1 = "flag_unless (nat len \<le> length xs) (s\<lparr>pl_capi := put_interpreter (pl_interpreter s) J (pl_capi s)\<rparr>)"
    have "owns ?s1" by (simp add: owns_put [OF assms(1)])
    moreover obtain b where "snd (read_result st J ?s1) = flag_unless b ?s1" using read_result_state by blast
    ultimately show ?thesis
      using run_inference_branches [OF assms(1) ti, of "fst it" "snd it" len E xs] Some False assms
      by (cases "read_result st J ?s1") (auto simp: J)
  qed
qed (use assms in \<open>auto simp: run_inference_def\<close>)

section \<open>Sequences of calls\<close>

text \<open>One call of an exported function, with any runtime answering.\<close>

inductive plugin_step :: "plugin \<Rightarrow> plugin \<Rightarrow> bool" where
  "load_model E path s = Some (r, t) \<Longrightarrow> plugin_step s t"
| "in_i32 len \<Longrightarrow> run_inference E pcm len s = Some (r, t) \<Longrightarrow> plugin_step s t"
| "plugin_step s (unload_model s)"

interpretation plugin: transition_system "\<lambda>s. s = new_plugin" plugin_step owns
proof
  have "capi_ok new_capi" by (rule capi_okI) (simp_all add: new_capi_def users_def refs_def interpreter_data_def)
  then show "s = new_plugin \<Longrightarrow> owns s" for s by (simp add: owns_def new_plugin_def) (simp add: new_capi_def)
  show "owns t" if "owns s" "plugin_step s t" for s t
    using that(2)
  proof cases
    case (1 E path r)
    then show ?thesis using load_model_owns that(1) by blast
  next
    case (2 len E pcm r)
    then show ?thesis using run_inference_returns [OF that(1), of len E pcm] by auto
  next
    case 3
    then show ?thesis using unload_owned that(1) by blast
  qed
qed

lemma one_call: "plugin_step new_plugin s \<Longrightarrow> reachable (\<lambda>s. s = new_plugin) plugin_step s"
  by (rule reachable_step [of _ _ new_plugin]) (simp add: reachable_init)

section \<open>Properties of the plugin\<close>

text \<open>
  Claim C1. No leak, no double deletion and no use after deletion: after any sequence of loads, inferences and unloads, failed ones
  included, no call of the plugin went to a dead object, every object of the C interface that is alive is the one that the
  plugin's pointer of its kind names, a pointer that is not null names a live object, and the data in memory is that of a live
  model or interpreter.
\<close>

theorem plugin_owns_objects:
  assumes "reachable (\<lambda>s. s = new_plugin) plugin_step s"
  shows "\<not> ca_bad (pl_capi s) \<and>
    dom (ca_models (pl_capi s)) = {pl_model s} - {0} \<and> dom (ca_options (pl_capi s)) = {pl_options s} - {0} \<and>
    dom (ca_interpreters (pl_capi s)) = {pl_interpreter s} - {0} \<and>
    (ca_flatbuffers (pl_capi s) a \<noteq> None \<longleftrightarrow>
       ca_models (pl_capi s) (pl_model s) = Some a \<or> interpreter_data (pl_capi s) (pl_interpreter s) = Some a)"
proof -
  have o: "owns s" by (rule plugin.reachable_inv [OF assms])
  then have c: "capi_ok (pl_capi s)" and d: "dom (ca_models (pl_capi s)) = {pl_model s} - {0}"
    "dom (ca_interpreters (pl_capi s)) = {pl_interpreter s} - {0}" by (simp_all add: owns_def)
  have "0 < users a (pl_capi s) \<longleftrightarrow>
      (\<exists>p. ca_models (pl_capi s) p = Some a) \<or> (\<exists>p. interpreter_data (pl_capi s) p = Some a)"
    using capi_ok_finite [OF c, of a] by (auto simp: users_def refs_def card_gt_0_iff)
  moreover have "ca_models (pl_capi s) p = Some a \<Longrightarrow> p = pl_model s" "interpreter_data (pl_capi s) p = Some a \<Longrightarrow> p = pl_interpreter s" for p
    using d by (auto simp: interpreter_data_def)
  ultimately have "ca_flatbuffers (pl_capi s) a \<noteq> None \<longleftrightarrow>
       ca_models (pl_capi s) (pl_model s) = Some a \<or> interpreter_data (pl_capi s) (pl_interpreter s) = Some a"
    using used_data_live [OF c, of a] by metis
  then show ?thesis using o by (simp add: owns_def)
qed

text \<open>
  Unloading frees everything: whatever was called before, after \<open>unload_model\<close> no model, options, interpreter or model
  data is left, all pointers are null, and calling it again changes nothing.
\<close>

lemma unload_frees_all:
  assumes "reachable (\<lambda>s. s = new_plugin) plugin_step s"
  shows "holds_nothing (unload_model s) \<and> \<not> ca_bad (pl_capi (unload_model s)) \<and> unload_model (unload_model s) = unload_model s"
proof -
  have "owns s" by (rule plugin.reachable_inv [OF assms])
  then have u: "owns (unload_model s)" "holds_nothing (unload_model s)" using unload_owned by simp_all
  then have "unload_model (unload_model s) = unload_model s"
    unfolding unload_model_def [of "unload_model s"]
    by (simp add: holds_nothing_def delete_model_ptr_def delete_options_ptr_def delete_interpreter_ptr_def)
  then show ?thesis using u by (simp add: owns_def)
qed

text \<open>
  Claim C3. Loading a model returns, whatever the runtime answers, and returns 1 exactly when the file holds a model, an interpreter
  could be built from it with the builtin operators and, with two threads set, the allocation of its tensors returned
  \<open>kTfLiteOk\<close>; then the plugin's interpreter is the allocated one. Otherwise it returns 0, and the plugin keeps what was created: the
  model and the options when the file was good, the interpreter when it could be built.
\<close>

theorem load_model_outcome:
  assumes "owns s" and "kernels_ok (ce_runtime E)" and "delegates_keep_flag (ce_runtime E)" and "ce_fuel E = Suc n"
  shows "\<exists>r t. load_model E (Some path) s = Some (r, t) \<and> owns t \<and>
    (case ce_load_file E path of
       None \<Rightarrow> r = 0 \<and> holds_nothing t
     | Some d \<Rightarrow> pl_model t \<noteq> 0 \<and> pl_options t \<noteq> 0 \<and>
        (case ce_build E d (Use_mutable (ce_op_resolver E)) of
           None \<Rightarrow> r = 0 \<and> pl_interpreter t = 0
         | Some I \<Rightarrow> pl_interpreter t \<noteq> 0 \<and>
            (\<exists>st J. it_AllocateTensors (ce_fuel E) (ce_runtime E) (ce_create_delegate E) (snd (SetNumThreads 2 I)) = Some (st, J) \<and>
               (r = (if st = kTfLiteOk then 1 else 0)) \<and>
               map_option ti_impl (ca_interpreters (pl_capi t) (pl_interpreter t)) = Some J)))"
proof -
  note br = load_model_branches [OF assms(1), of E path]
  have u: "owns (unload_model s)" "holds_nothing (unload_model s)" using unload_owned [OF assms(1)] by simp_all
  show ?thesis
  proof (cases "ce_load_file E path")
    case None
    then show ?thesis using br u by simp
  next
    case (Some d)
    show ?thesis
    proof (cases "ce_build E d (Use_mutable (ce_op_resolver E))")
      case None
      then obtain t where t: "load_model E (Some path) s = Some (0, t)" "pl_model t \<noteq> 0" "pl_options t \<noteq> 0" "pl_interpreter t = 0"
        using br Some u(2) by (simp add: Let_def holds_nothing_def)
      then show ?thesis using Some None load_model_owns [OF assms(1) t(1)] by simp
    next
      case I: (Some I)
      obtain st J where J: "it_AllocateTensors (ce_fuel E) (ce_runtime E) (ce_create_delegate E) (snd (SetNumThreads 2 I)) = Some (st, J)"
        using it_AllocateTensors_returns [OF assms(2,3)] assms(4) by metis
      then obtain t where t: "load_model E (Some path) s = Some (if st = kTfLiteOk then 1 else 0, t)"
        "pl_model t \<noteq> 0" "pl_options t \<noteq> 0" "pl_interpreter t \<noteq> 0"
        "map_option ti_impl (ca_interpreters (pl_capi t) (pl_interpreter t)) = Some J"
        using br Some I by (simp add: Let_def) (simp add: with_interpreter_def)
      then show ?thesis using Some I J load_model_owns [OF assms(1) t(1)] by simp
    qed
  qed
qed

text \<open>
  Claim C2. Classifying a recording whose size is that of the input: the kernels find exactly its samples, as little-endian bytes, in
  the input tensor; the result is -1 when the invocation fails, and otherwise the index of the first largest score, where the scores
  are the output tensor read as \<open>float\<close>s: it is below their number, no other score is greater, every earlier one is smaller,
  and NaNs count only if the first score is one. Nothing outside of the recording and of the tensors is read.
\<close>

theorem run_inference_classifies:
  assumes "owns s" and "ca_interpreters (pl_capi s) (pl_interpreter s) = Some ti"
    and "nth_tensor (sg_inputs (primary_subgraph (ti_impl ti))) 0 (primary_subgraph (ti_impl ti)) = Some (i, t)"
    and "tensor_block t (primary_subgraph (ti_impl ti)) = Some (block, k)" and "k + t_bytes t \<le> length block"
    and "t_bytes t = 2 * length xs" and "xs \<noteq> []" and "in_i32 (int (length xs))"
    and "it_Invoke (ce_runtime E) (filled t (pcm_bytes xs) (ti_impl ti)) = (st, J)"
    and "st = kTfLiteOk \<Longrightarrow> \<exists>j. nth_tensor (sg_outputs (primary_subgraph J)) 0 (primary_subgraph J) = Some (j, out)"
    and "st = kTfLiteOk \<Longrightarrow> read_tensor out (4 * n) (primary_subgraph J) = Some scores"
    and "n = t_bytes out div 4" and "0 < n" and "in_i32 (int n)"
  shows "read_tensor t (2 * length xs) (primary_subgraph (filled t (pcm_bytes xs) (ti_impl ti))) = Some (pcm_bytes xs) \<and>
    (\<exists>r u. run_inference E (Some xs) (int (length xs)) s = Some (r, u) \<and>
       pl_bad u = pl_bad s \<and> map_option ti_impl (ca_interpreters (pl_capi u) (pl_interpreter u)) = Some J \<and>
       (if st \<noteq> kTfLiteOk then r = -1 else 0 \<le> r \<and> nat r < n \<and> first_max (floats scores) n (nat r)))"
proof -
  have pad: "padded_pcm (int (length xs)) xs = xs" by (simp add: padded_pcm_def)
  have "read_tensor t (length (pcm_bytes xs)) (write_tensor t (pcm_bytes xs) (primary_subgraph (ti_impl ti))) = Some (pcm_bytes xs)"
    by (rule read_write_tensor [OF assms(4)]) (use assms(5,6) in simp)
  then have w: "read_tensor t (2 * length xs) (primary_subgraph (filled t (pcm_bytes xs) (ti_impl ti))) = Some (pcm_bytes xs)"
    by (simp add: filled_def set_primary_def primary_subgraph_def)
  let ?s1 = "s\<lparr>pl_capi := put_interpreter (pl_interpreter s) J (pl_capi s)\<rparr>"
  have run: "run_inference E (Some xs) (int (length xs)) s = Some (read_result st J ?s1)"
    using run_inference_branches [OF assms(1-3) _ assms(8), of E xs] assms(6,7,9) by (simp add: pad flag_unless_def)
  have J: "map_option ti_impl (ca_interpreters (pl_capi ?s1) (pl_interpreter ?s1)) = Some J" using assms(2) by simp
  have "read_result st J ?s1 = (if st \<noteq> kTfLiteOk then -1 else int (argmax (floats scores) n), ?s1)"
    using assms(10-14) by (auto simp: read_result_def best_output_def)
  then show ?thesis using w run J argmax_first_max [OF assms(13), of "floats scores"] argmax_less [OF assms(13), of "floats scores"]
    by simp
qed

text \<open>A model without operators that returns its input: a block of 8 bytes that is both.\<close>

definition w_echo :: Interpreter where
  "w_echo = new_interpreter\<lparr>it_subgraphs := [new_subgraph\<lparr>sg_state := kStateInvokable,
     sg_tensors := [zero_tensor\<lparr>t_data := 64, t_bytes := 8, t_allocation_type := kTfLiteDynamic\<rparr>],
     sg_inputs := [0], sg_outputs := [0],
     sg_heap := empty_heap\<lparr>hp_blocks := [64 \<mapsto> replicate 8 0]\<rparr>\<rparr>]\<rparr>"

text \<open>The plugin after a load that gave the interpreter \<open>I\<close>.\<close>

definition w_loaded :: "Interpreter \<Rightarrow> plugin" where
  "w_loaded I = \<lparr>pl_model = 2, pl_interpreter = 4, pl_options = 3, pl_capi = with_interpreter 7 I new_capi, pl_bad = False\<rparr>"

lemma w_loaded_owns: "owns (w_loaded I)"
proof -
  have "capi_ok (with_interpreter 7 I new_capi)"
    by (rule with_objects_ok(2)) (rule capi_okI, simp_all add: new_capi_def users_def refs_def interpreter_data_def)
  then show ?thesis
    by (auto simp: owns_def w_loaded_def) (auto simp: with_interpreter_def with_model_options_def new_capi_def split: if_splits)
qed

lemma w_loaded_interpreter: "ca_interpreters (pl_capi (w_loaded I)) (pl_interpreter (w_loaded I)) =
    Some \<lparr>ti_model = 1, ti_impl = I, ti_enable_delegate_fallback = False\<rparr>"
  by (simp add: w_loaded_def with_interpreter_def new_capi_def)

theorem run_inference_classifies_witness:
  "let xs = [0, 0x3f80, 0, 0x4000] in \<exists>u. run_inference w_env (Some xs) 4 (w_loaded w_echo) = Some (1, u)"
proof -
  let ?xs = "[0, 0x3f80, 0, 0x4000] :: 16 word list"
  let ?t = "zero_tensor\<lparr>t_data := 64, t_bytes := 8, t_allocation_type := kTfLiteDynamic\<rparr>"
  let ?ti = "\<lparr>ti_model = 1, ti_impl = w_echo, ti_enable_delegate_fallback = False\<rparr>"
  let ?scores = "[0, 0, 0x80, 0x3f, 0, 0, 0, 0x40] :: byte list"
  let ?J = "filled ?t (pcm_bytes ?xs) w_echo"
  have ti: "ca_interpreters (pl_capi (w_loaded w_echo)) (pl_interpreter (w_loaded w_echo)) = Some ?ti"
    by (rule w_loaded_interpreter)
  have t: "nth_tensor (sg_inputs (primary_subgraph (ti_impl ?ti))) 0 (primary_subgraph (ti_impl ?ti)) = Some (0, ?t)"
    by (simp add: nth_tensor_def primary_subgraph_def w_echo_def sg_tensor_def)
  have b: "tensor_block ?t (primary_subgraph (ti_impl ?ti)) = Some (replicate 8 0, 0)"
    by (simp add: tensor_block_def primary_subgraph_def w_echo_def)
  have p: "pcm_bytes ?xs = ?scores" by (simp add: pcm_bytes_def sample_bytes_def)
  let ?g = "(primary_subgraph w_echo)\<lparr>sg_heap := empty_heap\<lparr>hp_blocks := [64 \<mapsto> ?scores]\<rparr>\<rparr>"
  have "write_tensor ?t (pcm_bytes ?xs) (primary_subgraph w_echo) = ?g"
    using b by (simp add: write_tensor_def p put_block_def) (simp add: primary_subgraph_def w_echo_def)
  then have J: "?J = w_echo\<lparr>it_subgraphs := [?g]\<rparr>" by (simp add: filled_def set_primary_def) (simp add: w_echo_def)
  have "it_Invoke (ce_runtime w_env) ?J = (kTfLiteOk, ?J)"
    unfolding J by (simp add: it_Invoke_def with_primary_def primary_subgraph_def set_primary_def w_echo_def Invoke_def
        new_subgraph_def new_interpreter_def AddSubgraphs_def it_EnsureTensorDataIsReadable_def EnsureTensorDataIsReadable_def
        zero_tensor_def)
  then have inv: "it_Invoke (ce_runtime w_env) (filled ?t (pcm_bytes ?xs) (ti_impl ?ti)) = (kTfLiteOk, ?J)" by simp
  have out: "nth_tensor (sg_outputs (primary_subgraph ?J)) 0 (primary_subgraph ?J) = Some (0, ?t)"
    "read_tensor ?t (4 * 2) (primary_subgraph ?J) = Some ?scores"
    unfolding J by (simp_all add: nth_tensor_def primary_subgraph_def w_echo_def sg_tensor_def read_tensor_def tensor_block_def)
  obtain r u where r: "run_inference w_env (Some ?xs) (int (length ?xs)) (w_loaded w_echo) = Some (r, u)"
    "if kTfLiteOk \<noteq> kTfLiteOk then r = -1 else 0 \<le> r \<and> nat r < 2 \<and> first_max (floats ?scores) 2 (nat r)"
  proof -
    have "read_tensor ?t (2 * length ?xs) (primary_subgraph (filled ?t (pcm_bytes ?xs) (ti_impl ?ti))) = Some (pcm_bytes ?xs) \<and>
      (\<exists>r u. run_inference w_env (Some ?xs) (int (length ?xs)) (w_loaded w_echo) = Some (r, u) \<and>
        pl_bad u = pl_bad (w_loaded w_echo) \<and> map_option ti_impl (ca_interpreters (pl_capi u) (pl_interpreter u)) = Some ?J \<and>
        (if kTfLiteOk \<noteq> kTfLiteOk then r = -1 else 0 \<le> r \<and> nat r < 2 \<and> first_max (floats ?scores) 2 (nat r)))"
      by (rule run_inference_classifies [OF w_loaded_owns ti t b _ _ _ _ inv, where out = ?t])
         (rule exI [of _ 0] out | simp add: in_i32_def)+
    then show thesis using that by blast
  qed
  have "float_exponent 0x3f800000 = 127" "float_fraction 0x3f800000 = 0" "float_exponent 0x40000000 = 128"
    "float_fraction 0x40000000 = 0" by (simp_all add: float_exponent_def float_fraction_def)
  then have "float_magnitude 0x3f800000 < float_magnitude 0x40000000" "\<not> float_isnan 0x3f800000" "\<not> float_isnan 0x40000000"
    by (simp_all add: float_magnitude_def float_isnan_def)
  moreover have "floats ?scores = [0x3f800000, 0x40000000]" by simp
  ultimately have "first_max (floats ?scores) 2 1"
    by (auto simp: first_max_def less_2_cases_iff float_value_def)
  then have "nat r = 1" using r(2) first_max_unique by simp blast
  then show ?thesis using r by (simp add: nat_eq_iff)
qed

theorem plugin_owns_objects_witness:
  "\<exists>t. load_model w_env (Some []) new_plugin = Some (0, t) \<and> dom (ca_models (pl_capi t)) = {pl_model t} - {0} \<and> \<not> ca_bad (pl_capi t)"
proof -
  have "owns new_plugin" by (rule plugin.init_inv) simp
  from load_model_branches [OF this, of w_env "[]"] obtain t where t: "load_model w_env (Some []) new_plugin = Some (0, t)"
    by (simp add: w_env_def)
  have "reachable (\<lambda>s. s = new_plugin) plugin_step t"
    by (rule one_call) (rule plugin_step.intros(1) [OF t])
  from plugin_owns_objects [OF this] t show ?thesis by blast
qed

lemma unload_frees_all_witness: "holds_nothing (unload_model (unload_model new_plugin))"
proof -
  have "reachable (\<lambda>s. s = new_plugin) plugin_step (unload_model new_plugin)"
    by (rule one_call) (rule plugin_step.intros(3))
  from unload_frees_all [OF this] show ?thesis by blast
qed

theorem load_model_outcome_witness:
  "\<exists>r t. load_model w_env (Some ''m.tflite'') (w_loaded w_echo) = Some (r, t) \<and> owns t \<and> pl_interpreter t \<noteq> 0"
proof -
  have k: "ce_runtime w_env = w_runtime" "ce_fuel w_env = Suc 0" by (simp_all add: w_env_def)
  have "delegates_keep_flag w_runtime" by (simp add: delegates_keep_flag_def w_runtime_def)
  with load_model_outcome [OF w_loaded_owns, of w_env 0 "''m.tflite''"] show ?thesis
    unfolding k using w_runtime_ok(1) by (fastforce simp: w_env_def)
qed

text \<open>
  Claim C4. A recording of any other size is refused: unless there is an interpreter, the recording is not null and its size in bytes is exactly
  that of the input tensor, \<open>run_inference\<close> returns -1, runs nothing and changes nothing but possibly the flag for a model
  without inputs. The call always returns.
\<close>

theorem run_inference_refuses:
  assumes "owns s" and "in_i32 len"
  shows "(\<exists>r u. run_inference E pcm len s = Some (r, u)) \<and>
    (pl_interpreter s = 0 \<or> pcm = None \<or> len \<le> 0 \<or>
     (\<forall>j t. TfLiteInterpreterGetInputTensor (pl_interpreter s) 0 (pl_capi s) = Some (j, t) \<longrightarrow> int (t_bytes t) \<noteq> 2 * len) \<longrightarrow>
     (\<exists>b. run_inference E pcm len s = Some (-1, flag_unless b s)))"
proof (intro conjI impI)
  show "\<exists>r u. run_inference E pcm len s = Some (r, u)" using run_inference_returns [OF assms, of E pcm] by blast
  assume r: "pl_interpreter s = 0 \<or> pcm = None \<or> len \<le> 0 \<or>
     (\<forall>j t. TfLiteInterpreterGetInputTensor (pl_interpreter s) 0 (pl_capi s) = Some (j, t) \<longrightarrow> int (t_bytes t) \<noteq> 2 * len)"
  have id: "flag_unless True s = s" by (simp add: flag_unless_def)
  show "\<exists>b. run_inference E pcm len s = Some (-1, flag_unless b s)"
  proof (cases "pl_interpreter s = 0 \<or> pcm = None \<or> len \<le> 0")
    case True
    then show ?thesis using id by (intro exI [of _ True]) (auto simp: run_inference_def)
  next
    case False
    then obtain ti xs where ti: "ca_interpreters (pl_capi s) (pl_interpreter s) = Some ti" and xs: "pcm = Some xs"
      using owned_interpreter [OF assms(1)] by (metis not_None_eq)
    show ?thesis
    proof (cases "nth_tensor (sg_inputs (primary_subgraph (ti_impl ti))) 0 (primary_subgraph (ti_impl ti))")
      case None
      show ?thesis by (rule run_inference_no_input [OF assms(1) ti None])
    next
      case (Some jt)
      obtain j t where jt: "jt = (j, t)" by (cases jt)
      have "TfLiteInterpreterGetInputTensor (pl_interpreter s) 0 (pl_capi s) = Some (j, t)"
        using Some jt ti by (simp add: TfLiteInterpreterGetInputTensor_def graph_of_def)
      then have "t_bytes t \<noteq> 2 * nat len" using r False by auto
      then have "run_inference E pcm len s = Some (-1, s)"
        using run_inference_branches [OF assms(1) ti Some [unfolded jt] _ assms(2)] False xs by simp
      then show ?thesis using id by (intro exI [of _ True]) simp
    qed
  qed
qed

theorem run_inference_refuses_witness:
  "\<exists>b. run_inference w_env (Some [1, 2, 3]) 3 (w_loaded w_echo) = Some (-1, flag_unless b (w_loaded w_echo))"
proof -
  have "\<forall>j t. TfLiteInterpreterGetInputTensor (pl_interpreter (w_loaded w_echo)) 0 (pl_capi (w_loaded w_echo)) = Some (j, t) \<longrightarrow>
      int (t_bytes t) \<noteq> 2 * 3"
    by (simp add: TfLiteInterpreterGetInputTensor_def graph_of_def w_loaded_interpreter nth_tensor_def primary_subgraph_def
        w_echo_def sg_tensor_def)
  then show ?thesis using run_inference_refuses [OF w_loaded_owns, of 3 w_env "Some [1, 2, 3]"] by (simp add: in_i32_def)
qed

text \<open>
  The recordings of the application do not fit its model: the input of the shipped model, 1 x 128 x 32 x 1 numbers of type
  \<open>float\<close>, has 16384 bytes, and the 16000 samples that the application sends are 32000 bytes; \<open>run_inference\<close> returns -1 for them,
  whatever they are.
\<close>

lemma app_audio_refused:
  assumes "owns s" and "TfLiteInterpreterGetInputTensor (pl_interpreter s) 0 (pl_capi s) = Some (j, t)"
    and "BytesRequired kTfLiteFloat32 [1, 128, 32, 1] = Some (t_bytes t)"
  shows "run_inference E (Some xs) 16000 s = Some (-1, s)"
proof -
  have "BytesRequired kTfLiteFloat32 [1, 128, 32, 1] = Some 16384"
    by (simp add: BytesRequired_def MultiplyAndCheckOverflow_def size_mul_def Let_def)
  then show ?thesis using assms(2,3) by (simp add: run_inference_def size_mul_def)
qed

lemma app_audio_refused_witness:
  "let t = zero_tensor\<lparr>t_data := 64, t_bytes := 16384, t_allocation_type := kTfLiteArenaRw\<rparr>;
       s = w_loaded (w_echo\<lparr>it_subgraphs := [(primary_subgraph w_echo)\<lparr>sg_tensors := [t]\<rparr>]\<rparr>)
   in run_inference w_env (Some (replicate 16000 0)) 16000 s = Some (-1, s)"
proof -
  let ?t = "zero_tensor\<lparr>t_data := 64, t_bytes := 16384, t_allocation_type := kTfLiteArenaRw\<rparr>"
  let ?s = "w_loaded (w_echo\<lparr>it_subgraphs := [(primary_subgraph w_echo)\<lparr>sg_tensors := [?t]\<rparr>]\<rparr>)"
  have "BytesRequired kTfLiteFloat32 [1, 128, 32, 1] = Some (t_bytes ?t)"
    by (simp add: BytesRequired_def MultiplyAndCheckOverflow_def size_mul_def Let_def)
  moreover have "TfLiteInterpreterGetInputTensor (pl_interpreter ?s) 0 (pl_capi ?s) = Some (0, ?t)"
    by (simp add: TfLiteInterpreterGetInputTensor_def graph_of_def w_loaded_interpreter nth_tensor_def primary_subgraph_def
        w_echo_def sg_tensor_def)
  ultimately show ?thesis unfolding Let_def by (intro app_audio_refused [OF w_loaded_owns])
qed

text \<open>A model whose kernel cannot be prepared; its input has 8 bytes.\<close>

definition w_unprepared :: Subgraph where
  "w_unprepared = new_subgraph\<lparr>
     sg_tensors := [zero_tensor\<lparr>t_bytes := 8, t_allocation_type := kTfLiteArenaRw\<rparr>],
     sg_nodes_and_registration := [(empty_node\<lparr>nd_inputs := [0], nd_outputs := [0]\<rparr>, w_kernel)],
     sg_execution_plan := [0], sg_inputs := [0], sg_outputs := [0], sg_recommended_num_threads := 2\<rparr>"

definition w_failing_env :: capi_env where
  "w_failing_env = w_env\<lparr>ce_runtime := w_runtime\<lparr>rt_prepare := (\<lambda>f d i s. (kTfLiteError, s))\<rparr>,
     ce_build := (\<lambda>_ _. Some (new_interpreter\<lparr>it_subgraphs := [w_unprepared]\<rparr>))\<rparr>"

lemma w_unprepared_ops:
  "PrepareOpsAndTensors (ce_runtime w_failing_env) w_unprepared = (kTfLiteError, w_unprepared\<lparr>sg_has_dynamic_tensors := False\<rparr>)"
proof -
  have f: "sg_pre_delegation_execution_plan w_unprepared = []" "sg_next_execution_plan_index_to_prepare w_unprepared = 0"
    "sg_execution_plan w_unprepared = [0]" "HasDynamicTensorImpl (sg_tensors w_unprepared) (sg_outputs w_unprepared) = None"
    by (simp_all add: w_unprepared_def new_subgraph_def zero_tensor_def)
  have "OpPrepare (ce_runtime w_failing_env) (sg_registration 0 s) 0 s = (kTfLiteError, s)"
    if "sg_nodes_and_registration s = sg_nodes_and_registration w_unprepared" for s
    using that by (simp add: OpPrepare_def sg_registration_def w_unprepared_def w_failing_env_def w_env_def w_runtime_def w_kernel_def
        empty_registration_def IsUnresolvedCustomOp_def)
  then show ?thesis
    by (simp add: PrepareOpsAndTensors_def prepare_original_plan_def f PrepareOpsStartingAt_def)
qed

lemma w_unprepared_allocate:
  "it_AllocateTensors 1 (ce_runtime w_failing_env) create (new_interpreter\<lparr>it_subgraphs := [w_unprepared]\<rparr>) =
     Some (kTfLiteError, new_interpreter\<lparr>it_subgraphs := [w_unprepared\<lparr>sg_has_dynamic_tensors := False\<rparr>]\<rparr>)"
proof -
  let ?I = "new_interpreter\<lparr>it_subgraphs := [w_unprepared]\<rparr>"
  have "w_unprepared\<lparr>sg_next_execution_plan_index_to_prepare := 0, sg_next_execution_plan_index_to_plan_allocation := 0,
      sg_next_original_execution_plan_index_to_prepare := 0\<rparr> = w_unprepared" by (simp add: w_unprepared_def new_subgraph_def)
  moreover have "sg_state w_unprepared = kStateUninvokable" "sg_consistent w_unprepared" "\<not> sg_delegates_undone w_unprepared"
    "reset_planner w_unprepared = (kTfLiteOk, w_unprepared)"
    by (simp_all add: w_unprepared_def new_subgraph_def reset_planner_def)
  ultimately have "AllocateTensors 1 (ce_runtime w_failing_env) w_unprepared =
      Some (kTfLiteError, w_unprepared\<lparr>sg_has_dynamic_tensors := False\<rparr>)"
    by (simp add: AllocateTensors_def allocate_tensors_def run_status_def allocate_prepared_def Let_def w_unprepared_ops ensure_status_def)
  moreover have "ApplyLazyDelegateProviders 1 (ce_runtime w_failing_env) create ?I = Some (kTfLiteOk, ?I)"
    by (simp add: ApplyLazyDelegateProviders_def new_interpreter_def AddSubgraphs_def)
  ultimately show ?thesis
    by (simp add: it_AllocateTensors_def primary_subgraph_def set_primary_def)
qed

text \<open>
  A failed load is not seen by the next call: when the allocation of the tensors fails, here because a kernel cannot be
  prepared, \<open>load_model\<close> returns 0 and leaves the interpreter in place; \<open>run_inference\<close> then takes it for a loaded one and, for a
  recording of the size of the input, copies the samples to the tensor's null pointer.
\<close>

lemma failed_load_writes_null:
  "\<exists>s u J. load_model w_failing_env (Some ''m.tflite'') new_plugin = Some (0, s) \<and> pl_interpreter s \<noteq> 0 \<and>
     run_inference w_failing_env (Some [1, 2, 3, 4]) 4 s = Some (-1, u) \<and>
     map_option ti_impl (ca_interpreters (pl_capi u) (pl_interpreter u)) = Some J \<and> hp_bad (sg_heap (primary_subgraph J))"
proof -
  let ?t = "zero_tensor\<lparr>t_bytes := 8, t_allocation_type := kTfLiteArenaRw\<rparr>"
  let ?g = "w_unprepared\<lparr>sg_has_dynamic_tensors := False\<rparr>"
  let ?I = "new_interpreter\<lparr>it_subgraphs := [?g]\<rparr>"
  let ?J = "new_interpreter\<lparr>it_subgraphs := [flag_access ?g]\<rparr>"
  let ?ti = "\<lparr>ti_model = 1, ti_impl = ?I, ti_enable_delegate_fallback = False\<rparr>"
  have o: "owns new_plugin" by (rule plugin.init_inv) simp
  have u: "unload_model new_plugin = new_plugin"
    by (simp add: unload_model_def delete_model_ptr_def delete_options_ptr_def delete_interpreter_ptr_def new_plugin_def)
  have th: "snd (SetNumThreads 2 (new_interpreter\<lparr>it_subgraphs := [w_unprepared]\<rparr>)) = new_interpreter\<lparr>it_subgraphs := [w_unprepared]\<rparr>"
    by (simp add: SetNumThreads_def w_unprepared_def)
  have e: "ce_load_file w_failing_env ''m.tflite'' = Some 7" "ce_fuel w_failing_env = 1"
    "ce_build w_failing_env d r = Some (new_interpreter\<lparr>it_subgraphs := [w_unprepared]\<rparr>)" for d r
    by (simp_all add: w_failing_env_def w_env_def)
  have l: "load_model w_failing_env (Some ''m.tflite'') new_plugin = Some (0, w_loaded ?I)"
    using load_model_branches [OF o, of w_failing_env "''m.tflite''"] w_unprepared_allocate
    by (simp add: e u th Let_def) (simp add: w_loaded_def new_plugin_def new_capi_def)
  have t: "nth_tensor (sg_inputs (primary_subgraph (ti_impl ?ti))) 0 (primary_subgraph (ti_impl ?ti)) = Some (0, ?t)"
    by (simp add: nth_tensor_def primary_subgraph_def w_unprepared_def sg_tensor_def)
  have f: "filled ?t (pcm_bytes (padded_pcm 4 [1, 2, 3, 4])) ?I = ?J"
  proof -
    have "tensor_block ?t ?g = None"
      by (simp add: tensor_block_def w_unprepared_def new_subgraph_def)
    moreover have "pcm_bytes (padded_pcm 4 [1, 2, 3, 4]) \<noteq> []" by (simp add: padded_pcm_def pcm_bytes_def sample_bytes_def)
    ultimately show ?thesis by (simp add: filled_def primary_subgraph_def set_primary_def write_tensor_def)
  qed
  have i: "it_Invoke (ce_runtime w_failing_env) ?J = (kTfLiteError, ?J)"
    by (simp add: it_Invoke_def with_primary_def primary_subgraph_def set_primary_def new_interpreter_def AddSubgraphs_def
        Invoke_def flag_access_def w_unprepared_def new_subgraph_def ensure_status_def)
  have "run_inference w_failing_env (Some [1, 2, 3, 4]) 4 (w_loaded ?I) =
      Some (-1, (w_loaded ?I)\<lparr>pl_capi := put_interpreter 4 ?J (pl_capi (w_loaded ?I))\<rparr>)"
    using run_inference_branches [OF w_loaded_owns w_loaded_interpreter t, of 4 w_failing_env "[1, 2, 3, 4]"]
    by (simp add: in_i32_def f i read_result_def flag_unless_def) (simp add: w_loaded_def)
  moreover have "hp_bad (sg_heap (primary_subgraph ?J))" by (simp add: primary_subgraph_def flag_access_def)
  moreover have "pl_interpreter (w_loaded ?I) = 4" by (simp add: w_loaded_def)
  ultimately show ?thesis using l w_loaded_interpreter [of ?I] by auto
qed

end
