(* ===== verification/Win32Window.thy ===== *)
theory Win32Window
  imports Prelude "HOL-Library.Log_Nat" "HOL-Library.Monad_Syntax"
begin

text \<open>
  The window of the application on Windows (\<open>windows/runner/win32_window.cpp\<close>, \<open>flutter_window.cpp\<close>, \<open>utils.cpp\<close> and
  \<open>main.cpp\<close>). The objects are \<open>Win32Window\<close>s, at addresses, of which some are \<open>FlutterWindow\<close>s; an object that is being destroyed
  is a \<open>Win32Window\<close> again, so its virtual methods are those of the base class.

  The operating system and the Flutter engine are a parameter (record \<open>os\<close>): what a call returns, and which messages it
  sends to the windows before it returns, both depending on the calls made so far. All calls are logged. A call that sends a
  message runs \<open>WndProc\<close>, whose handlers make calls again, so the nesting of calls is bounded by a number \<open>n\<close> and the
  operations return \<open>None\<close> when it is exceeded. An access to an object that does not exist, or through a null pointer, is
  flagged in \<open>sh_bad\<close>.
\<close>

section \<open>The operating system and the engine\<close>

record RECT =
  r_left :: int
  r_top :: int
  r_right :: int
  r_bottom :: int

text \<open>A creation message carries the address of the object that the window is created for.\<close>

datatype message =
    WM_NCCREATE nat
  | WM_DESTROY
  | WM_DPICHANGED RECT
  | WM_SIZE
  | WM_ACTIVATE
  | WM_DWMCOLORIZATIONCOLORCHANGED
  | WM_FONTCHANGE
  | WM_other nat

datatype os_call =
    RegisterClass
  | UnregisterClass
  | FlutterDesktopGetDpiForMonitor int int
  | CreateWindow int int int int nat
  | DestroyWindow nat
  | ShowWindow nat
  | DefWindowProc nat message
  | LoadLibrary
  | GetProcAddress
  | EnableNonClientDpiScaling nat
  | FreeLibrary
  | PostQuitMessage int
  | SetWindowPos nat int int int int
  | MoveWindow nat int int int int
  | SetFocus nat
  | SetParent nat nat
  | RegGetValue
  | DwmSetWindowAttribute nat bool
  | CreateController int int "byte list list"
  | DeleteController nat
  | RegisterPlugins nat
  | SetNextFrameCallback nat
  | ForceRedraw nat
  | HandleTopLevelWindowProc nat nat message
  | ReloadSystemFonts nat
  | AttachConsole
  | IsDebuggerPresent
  | AllocConsole
  | Reopen nat
  | Dup2 nat nat
  | FlutterDesktopResyncOutputStreams
  | CoInitializeEx
  | CoUninitialize
  | GetMessage
  | DispatchMessage nat message

text \<open>
  Results of the calls: a number, 0 for null or false; the client area of a window; the theme setting, if it can be read;
  whether the engine has set up its parts; the result of the engine for a message, if it handles it; the next message of
  the queue; the words of the command line, if they can be told apart; the number of bytes, with the final zero, of the
  conversion of a string to UTF-8, 0 on failure; and the bytes of the conversion into a buffer, none on failure.
\<close>

record os =
  os_result :: "os_call \<Rightarrow> os_call list \<Rightarrow> int"
  os_client_rect :: "nat \<Rightarrow> os_call list \<Rightarrow> RECT"
  os_light_mode :: "os_call list \<Rightarrow> nat option"
  os_controller :: "os_call list \<Rightarrow> nat"
  os_engine_and_view :: "nat \<Rightarrow> os_call list \<Rightarrow> bool"
  os_native_window :: "nat \<Rightarrow> os_call list \<Rightarrow> nat"
  os_handles :: "nat \<Rightarrow> message \<Rightarrow> os_call list \<Rightarrow> int option"
  os_message :: "os_call list \<Rightarrow> nat \<times> message"
  os_argv :: "16 word list list option"
  os_utf8_size :: "16 word list \<Rightarrow> int"
  os_utf8 :: "16 word list \<Rightarrow> nat \<Rightarrow> byte list"
  os_sends :: "os_call \<Rightarrow> os_call list \<Rightarrow> (nat \<times> message) list"

section \<open>State\<close>

text \<open>
  A window object. \<open>w_flutter\<close> says that the object is, for now, a \<open>FlutterWindow\<close>; only then it has a project, of which the
  arguments of the Dart program are kept, and a controller, 0 for null.
\<close>

record Win32Window =
  quit_on_close :: bool
  window_handle :: nat
  child_content :: nat
  w_flutter :: bool
  w_project :: "byte list list"
  flutter_controller :: nat

text \<open>The statics, the objects, the user data that the code stores with window handles, and the log. The count of windows, an \<open>int\<close>, is unbounded here.\<close>

record shell =
  g_active_window_count :: int
  class_registered :: bool
  sh_objects :: "nat \<Rightarrow> Win32Window option"
  sh_userdata :: "nat \<Rightarrow> nat"
  sh_calls :: "os_call list"
  sh_bad :: bool

definition new_shell :: shell where
  "new_shell = \<lparr>g_active_window_count = 0, class_registered = False, sh_objects = (\<lambda>_. None), sh_userdata = (\<lambda>_. 0),
     sh_calls = [], sh_bad = False\<rparr>"

type_synonym syscall = "os_call \<Rightarrow> shell \<Rightarrow> shell option"

text \<open>Access to the object \<open>this\<close>.\<close>

definition on_this :: "nat \<Rightarrow> (Win32Window \<Rightarrow> shell option) \<Rightarrow> shell \<Rightarrow> shell option" where
  "on_this this f s = (case sh_objects s this of None \<Rightarrow> Some (s\<lparr>sh_bad := True\<rparr>) | Some w \<Rightarrow> f w)"

definition update_this :: "nat \<Rightarrow> (Win32Window \<Rightarrow> Win32Window) \<Rightarrow> shell \<Rightarrow> shell" where
  "update_this this f s = s\<lparr>sh_objects := (sh_objects s)(this := map_option f (sh_objects s this))\<rparr>"

section \<open>Theme and geometry\<close>

definition UpdateTheme :: "os \<Rightarrow> syscall \<Rightarrow> nat \<Rightarrow> shell \<Rightarrow> shell option" where
  "UpdateTheme W sys window s = (case os_light_mode W (sh_calls s) of
     None \<Rightarrow> sys RegGetValue s
   | Some light_mode \<Rightarrow> do { s \<leftarrow> sys RegGetValue s; sys (DwmSetWindowAttribute window (light_mode = 0)) s })"

text \<open>
  A positive \<open>double\<close> is a pair: the number \<open>m / 2 ^ e\<close>, with \<open>m\<close> of 53 bits. Quotients and products are rounded to
  the nearest one, ties to even.
\<close>

definition double_quotient :: "nat \<Rightarrow> nat \<Rightarrow> nat \<times> nat" where
  "double_quotient n d =
     (if n = 0 then (0, 0)
      else let e = 113 - floorlog 2 (n * 2 ^ 60 div d) in (round_quotient (n * 2 ^ e) d, e))"

definition double_times :: "nat \<Rightarrow> nat \<times> nat \<Rightarrow> nat \<times> nat" where
  "double_times a x =
     (let p = a * fst x; k = floorlog 2 p - 53 in (round_quotient p (2 ^ k) * 2 ^ k, snd x))"

definition Scale :: "int \<Rightarrow> nat \<times> nat \<Rightarrow> int" where
  "Scale source scale_factor =
     (let p = double_times (nat \<bar>source\<bar>) scale_factor in sgn source * int (fst p div 2 ^ snd p))"

section \<open>Destruction\<close>

definition FlutterWindow_OnDestroy :: "syscall \<Rightarrow> nat \<Rightarrow> shell \<Rightarrow> shell option" where
  "FlutterWindow_OnDestroy sys this s = on_this this (\<lambda>w.
     if flutter_controller w \<noteq> 0
     then sys (DeleteController (flutter_controller w)) (update_this this (\<lambda>w. w\<lparr>flutter_controller := 0\<rparr>) s)
     else Some s) s"

definition OnDestroy :: "syscall \<Rightarrow> nat \<Rightarrow> shell \<Rightarrow> shell option" where
  "OnDestroy sys this s = on_this this (\<lambda>w. if w_flutter w then FlutterWindow_OnDestroy sys this s else Some s) s"

definition UnregisterWindowClass :: "syscall \<Rightarrow> shell \<Rightarrow> shell option" where
  "UnregisterWindowClass sys s = do { s \<leftarrow> sys UnregisterClass s; Some (s\<lparr>class_registered := False\<rparr>) }"

definition Destroy :: "syscall \<Rightarrow> nat \<Rightarrow> shell \<Rightarrow> shell option" where
  "Destroy sys this s = do {
     s \<leftarrow> OnDestroy sys this s;
     s \<leftarrow> on_this this (\<lambda>w. if window_handle w \<noteq> 0
            then do { s \<leftarrow> sys (DestroyWindow (window_handle w)) s; Some (update_this this (\<lambda>w. w\<lparr>window_handle := 0\<rparr>) s) }
            else Some s) s;
     if g_active_window_count s = 0 then UnregisterWindowClass sys s else Some s }"

section \<open>Messages\<close>

text \<open>The client area; for a null handle the rectangle is not set, which is left to the parameter.\<close>

definition GetClientArea :: "os \<Rightarrow> Win32Window \<Rightarrow> shell \<Rightarrow> RECT" where
  "GetClientArea W w s = os_client_rect W (window_handle w) (sh_calls s)"

definition move_to_client_area :: "os \<Rightarrow> syscall \<Rightarrow> nat \<Rightarrow> RECT \<Rightarrow> shell \<Rightarrow> shell option" where
  "move_to_client_area W sys content r =
     sys (MoveWindow content (r_left r) (r_top r) (wrap_i32 (r_right r - r_left r)) (wrap_i32 (r_bottom r - r_top r)))"

definition Win32Window_MessageHandler ::
    "os \<Rightarrow> syscall \<Rightarrow> nat \<Rightarrow> nat \<Rightarrow> message \<Rightarrow> shell \<Rightarrow> shell option" where
  "Win32Window_MessageHandler W sys this hwnd msg s = on_this this (\<lambda>w. case msg of
     WM_DESTROY \<Rightarrow> do {
       s \<leftarrow> Destroy sys this (update_this this (\<lambda>w. w\<lparr>window_handle := 0\<rparr>) s);
       on_this this (\<lambda>w. if quit_on_close w then sys (PostQuitMessage 0) s else Some s) s }
   | WM_DPICHANGED r \<Rightarrow>
       sys (SetWindowPos hwnd (r_left r) (r_top r) (wrap_i32 (r_right r - r_left r)) (wrap_i32 (r_bottom r - r_top r))) s
   | WM_SIZE \<Rightarrow>
       (if child_content w \<noteq> 0 then move_to_client_area W sys (child_content w) (GetClientArea W w s) s else Some s)
   | WM_ACTIVATE \<Rightarrow> (if child_content w \<noteq> 0 then sys (SetFocus (child_content w)) s else Some s)
   | WM_DWMCOLORIZATIONCOLORCHANGED \<Rightarrow> UpdateTheme W sys hwnd s
   | _ \<Rightarrow> sys (DefWindowProc (window_handle w) msg) s) s"

definition FlutterWindow_MessageHandler ::
    "os \<Rightarrow> syscall \<Rightarrow> nat \<Rightarrow> nat \<Rightarrow> message \<Rightarrow> shell \<Rightarrow> shell option" where
  "FlutterWindow_MessageHandler W sys this hwnd msg s = on_this this (\<lambda>w.
     let rest = (\<lambda>s. do {
           s \<leftarrow> on_this this (\<lambda>w. if msg = WM_FONTCHANGE
                  then (if flutter_controller w = 0 then Some (s\<lparr>sh_bad := True\<rparr>)
                        else sys (ReloadSystemFonts (flutter_controller w)) s)
                  else Some s) s;
           Win32Window_MessageHandler W sys this hwnd msg s })
     in if flutter_controller w \<noteq> 0
        then do {
          t \<leftarrow> sys (HandleTopLevelWindowProc (flutter_controller w) hwnd msg) s;
          if os_handles W hwnd msg (sh_calls s) \<noteq> None then Some t else rest t }
        else rest s) s"

definition MessageHandler :: "os \<Rightarrow> syscall \<Rightarrow> nat \<Rightarrow> nat \<Rightarrow> message \<Rightarrow> shell \<Rightarrow> shell option" where
  "MessageHandler W sys this hwnd msg s = on_this this (\<lambda>w.
     if w_flutter w then FlutterWindow_MessageHandler W sys this hwnd msg s
     else Win32Window_MessageHandler W sys this hwnd msg s) s"

definition EnableFullDpiSupportIfAvailable :: "os \<Rightarrow> syscall \<Rightarrow> nat \<Rightarrow> shell \<Rightarrow> shell option" where
  "EnableFullDpiSupportIfAvailable W sys hwnd s = do {
     t \<leftarrow> sys LoadLibrary s;
     if os_result W LoadLibrary (sh_calls s) = 0 then Some t
     else do {
       u \<leftarrow> sys GetProcAddress t;
       u \<leftarrow> (if os_result W GetProcAddress (sh_calls t) \<noteq> 0 then sys (EnableNonClientDpiScaling hwnd) u else Some u);
       sys FreeLibrary u } }"

definition WndProc :: "os \<Rightarrow> syscall \<Rightarrow> nat \<times> message \<Rightarrow> shell \<Rightarrow> shell option" where
  "WndProc W sys hm s = (case hm of (window, msg) \<Rightarrow> (case msg of
     WM_NCCREATE this \<Rightarrow> do {
       s \<leftarrow> EnableFullDpiSupportIfAvailable W sys window (s\<lparr>sh_userdata := (sh_userdata s)(window := this)\<rparr>);
       s \<leftarrow> on_this this (\<lambda>_. Some (update_this this (\<lambda>w. w\<lparr>window_handle := window\<rparr>) s)) s;
       sys (DefWindowProc window msg) s }
   | _ \<Rightarrow>
      (if sh_userdata s window \<noteq> 0 then MessageHandler W sys (sh_userdata s window) window msg s
       else sys (DefWindowProc window msg) s)))"

text \<open>A call: it is logged, and its messages are handled one after the other.\<close>

fun deliver :: "(nat \<times> message \<Rightarrow> shell \<Rightarrow> shell option) \<Rightarrow> (nat \<times> message) list \<Rightarrow> shell \<Rightarrow> shell option" where
  "deliver proc [] s = Some s"
| "deliver proc (m # ms) s = do { s \<leftarrow> proc m s; deliver proc ms s }"

fun call_os :: "nat \<Rightarrow> os \<Rightarrow> syscall" where
  "call_os 0 W c s = None"
| "call_os (Suc n) W c s =
     deliver (WndProc W (call_os n W)) (os_sends W c (sh_calls s)) (s\<lparr>sh_calls := sh_calls s @ [c]\<rparr>)"

section \<open>Creation\<close>

text \<open>The constructors of a \<open>Win32Window\<close>, and of a \<open>FlutterWindow\<close> for a project.\<close>

definition new_window :: "byte list list option \<Rightarrow> Win32Window" where
  "new_window project = \<lparr>quit_on_close = False, window_handle = 0, child_content = 0, w_flutter = (project \<noteq> None),
     w_project = (case project of None \<Rightarrow> [] | Some args \<Rightarrow> args), flutter_controller = 0\<rparr>"

definition construct :: "nat \<Rightarrow> byte list list option \<Rightarrow> shell \<Rightarrow> shell" where
  "construct this project s = s\<lparr>g_active_window_count := g_active_window_count s + 1,
     sh_objects := (sh_objects s)(this \<mapsto> new_window project)\<rparr>"

text \<open>
  The destructors: the members of a \<open>FlutterWindow\<close> go first, with the pointer to the controller still set, then the
  \<open>Win32Window\<close> is left.
\<close>

definition destroy_members :: "syscall \<Rightarrow> nat \<Rightarrow> shell \<Rightarrow> shell option" where
  "destroy_members sys this s = on_this this (\<lambda>w. do {
     s \<leftarrow> (if w_flutter w \<and> flutter_controller w \<noteq> 0 then sys (DeleteController (flutter_controller w)) s else Some s);
     Some (update_this this (\<lambda>w. w\<lparr>w_flutter := False, flutter_controller := 0\<rparr>) s) }) s"

definition destruct :: "syscall \<Rightarrow> nat \<Rightarrow> shell \<Rightarrow> shell option" where
  "destruct sys this s = do {
     s \<leftarrow> destroy_members sys this s;
     s \<leftarrow> Destroy sys this (s\<lparr>g_active_window_count := g_active_window_count s - 1\<rparr>);
     Some (s\<lparr>sh_objects := (sh_objects s)(this := None)\<rparr>) }"

definition Show :: "os \<Rightarrow> syscall \<Rightarrow> nat \<Rightarrow> shell \<Rightarrow> shell option" where
  "Show W sys this s = on_this this (\<lambda>w. sys (ShowWindow (window_handle w)) s) s"

definition SetQuitOnClose :: "nat \<Rightarrow> bool \<Rightarrow> shell \<Rightarrow> shell" where
  "SetQuitOnClose this b = update_this this (\<lambda>w. w\<lparr>quit_on_close := b\<rparr>)"

definition SetChildContent :: "os \<Rightarrow> syscall \<Rightarrow> nat \<Rightarrow> nat \<Rightarrow> shell \<Rightarrow> shell option" where
  "SetChildContent W sys this content s = on_this this (\<lambda>w. do {
     s \<leftarrow> sys (SetParent content (window_handle w)) (update_this this (\<lambda>w. w\<lparr>child_content := content\<rparr>) s);
     s \<leftarrow> on_this this (\<lambda>w. move_to_client_area W sys content (GetClientArea W w s) s) s;
     on_this this (\<lambda>w. sys (SetFocus (child_content w)) s) s }) s"

text \<open>The old controller, if there is one, is deleted when the new one takes its place.\<close>

definition assign_controller :: "syscall \<Rightarrow> nat \<Rightarrow> nat \<Rightarrow> shell \<Rightarrow> shell option" where
  "assign_controller sys this c s = on_this this (\<lambda>w.
     let s = update_this this (\<lambda>w. w\<lparr>flutter_controller := c\<rparr>) s
     in if flutter_controller w \<noteq> 0 then sys (DeleteController (flutter_controller w)) s else Some s) s"

definition FlutterWindow_OnCreate :: "os \<Rightarrow> syscall \<Rightarrow> nat \<Rightarrow> shell \<Rightarrow> (bool \<times> shell) option" where
  "FlutterWindow_OnCreate W sys this s = (case sh_objects s this of
     None \<Rightarrow> Some (False, s\<lparr>sh_bad := True\<rparr>)
   | Some w \<Rightarrow>
      (let frame = GetClientArea W w s; c = os_controller W (sh_calls s) in do {
         s \<leftarrow> sys (CreateController (wrap_i32 (r_right frame - r_left frame)) (wrap_i32 (r_bottom frame - r_top frame)) (w_project w)) s;
         s \<leftarrow> assign_controller sys this c s;
         if \<not> os_engine_and_view W c (sh_calls s) then Some (False, s)
         else do {
           s \<leftarrow> sys (RegisterPlugins c) s;
           s \<leftarrow> SetChildContent W sys this (os_native_window W c (sh_calls s)) s;
           s \<leftarrow> sys (SetNextFrameCallback this) s;
           s \<leftarrow> sys (ForceRedraw c) s;
           Some (True, s) } }))"

definition OnCreate :: "os \<Rightarrow> syscall \<Rightarrow> nat \<Rightarrow> shell \<Rightarrow> (bool \<times> shell) option" where
  "OnCreate W sys this s = (case sh_objects s this of
     None \<Rightarrow> Some (False, s\<lparr>sh_bad := True\<rparr>)
   | Some w \<Rightarrow> (if w_flutter w then FlutterWindow_OnCreate W sys this s else Some (True, s)))"

definition GetWindowClass :: "syscall \<Rightarrow> shell \<Rightarrow> shell option" where
  "GetWindowClass sys s =
     (if class_registered s then Some s
      else do { s \<leftarrow> sys RegisterClass s; Some (s\<lparr>class_registered := True\<rparr>) })"

text \<open>Positions and sizes are unsigned; they are scaled by the resolution of the monitor, in units of 96 dots per inch.\<close>

definition Create :: "os \<Rightarrow> syscall \<Rightarrow> nat \<Rightarrow> int \<times> int \<Rightarrow> int \<times> int \<Rightarrow> shell \<Rightarrow> (bool \<times> shell) option" where
  "Create W sys this origin extent s = do {
     s \<leftarrow> Destroy sys this s;
     s \<leftarrow> GetWindowClass sys s;
     t \<leftarrow> sys (FlutterDesktopGetDpiForMonitor (wrap_i32 (fst origin)) (wrap_i32 (snd origin))) s;
     let dpi = nat (os_result W (FlutterDesktopGetDpiForMonitor (wrap_i32 (fst origin)) (wrap_i32 (snd origin))) (sh_calls s)
                    mod 4294967296);
     let scale = (\<lambda>x. Scale (wrap_i32 x) (double_quotient dpi 96));
     let create = CreateWindow (scale (fst origin)) (scale (snd origin)) (scale (fst extent)) (scale (snd extent)) this;
     u \<leftarrow> sys create t;
     let window = nat (os_result W create (sh_calls t));
     if window = 0 then Some (False, u)
     else do { u \<leftarrow> UpdateTheme W sys window u; OnCreate W sys this u } }"

section \<open>Command line\<close>

definition string_max_size :: nat where
  "string_max_size = 9223372036854775807"

text \<open>
  The conversion of one word; the second result is the number of bytes reserved for it. The length without the final zero is
  computed as an unsigned number. What the second conversion does not fill stays zero.
\<close>

definition Utf8FromUtf16 :: "os \<Rightarrow> 16 word list option \<Rightarrow> byte list \<times> nat" where
  "Utf8FromUtf16 W utf16_string = (case utf16_string of
     None \<Rightarrow> ([], 0)
   | Some xs \<Rightarrow>
      (let target_length = nat ((os_utf8_size W xs - 1) mod 4294967296)
       in if target_length = 0 \<or> target_length > string_max_size then ([], 0)
          else (let bs = os_utf8 W xs target_length
                in if bs = [] then ([], target_length)
                   else (bs @ replicate (target_length - length bs) 0, target_length))))"

definition GetCommandLineArguments :: "os \<Rightarrow> byte list list" where
  "GetCommandLineArguments W = (case os_argv W of
     None \<Rightarrow> []
   | Some argv \<Rightarrow> map (\<lambda>arg. fst (Utf8FromUtf16 W (Some arg))) (drop 1 argv))"

section \<open>The program\<close>

text \<open>The standard output is 1 and the standard error 2; a descriptor is copied where the stream could not be reopened.\<close>

definition reopen :: "os \<Rightarrow> syscall \<Rightarrow> nat \<Rightarrow> shell \<Rightarrow> shell option" where
  "reopen W sys fd s = do {
     t \<leftarrow> sys (Reopen fd) s;
     if os_result W (Reopen fd) (sh_calls s) \<noteq> 0 then sys (Dup2 1 fd) t else Some t }"

definition CreateAndAttachConsole :: "os \<Rightarrow> syscall \<Rightarrow> shell \<Rightarrow> shell option" where
  "CreateAndAttachConsole W sys s = do {
     t \<leftarrow> sys AllocConsole s;
     if os_result W AllocConsole (sh_calls s) \<noteq> 0
     then do { t \<leftarrow> reopen W sys 1 t; t \<leftarrow> reopen W sys 2 t; sys FlutterDesktopResyncOutputStreams t }
     else Some t }"

text \<open>A console is made when there is none and the program is being debugged.\<close>

definition attach_console :: "os \<Rightarrow> syscall \<Rightarrow> shell \<Rightarrow> shell option" where
  "attach_console W sys s = do {
     t \<leftarrow> sys AttachConsole s;
     if os_result W AttachConsole (sh_calls s) \<noteq> 0 then Some t
     else do {
       u \<leftarrow> sys IsDebuggerPresent t;
       if os_result W IsDebuggerPresent (sh_calls t) \<noteq> 0 then CreateAndAttachConsole W sys u else Some u } }"

definition EXIT_SUCCESS :: int where "EXIT_SUCCESS = 0"

definition EXIT_FAILURE :: int where "EXIT_FAILURE = 1"

text \<open>The loop over the messages of the queue, at most \<open>k\<close> of them.\<close>

fun message_loop :: "nat \<Rightarrow> nat \<Rightarrow> os \<Rightarrow> shell \<Rightarrow> shell option" where
  "message_loop n 0 W s = None"
| "message_loop n (Suc k) W s = do {
     t \<leftarrow> call_os n W GetMessage s;
     if os_result W GetMessage (sh_calls s) = 0 then Some t
     else
       let (window, msg) = os_message W (sh_calls s) in do {
         u \<leftarrow> call_os n W (DispatchMessage window msg) t;
         u \<leftarrow> WndProc W (call_os n W) (window, msg) u;
         message_loop n k W u } }"

definition wWinMain :: "nat \<Rightarrow> nat \<Rightarrow> os \<Rightarrow> nat \<Rightarrow> shell \<Rightarrow> (int \<times> shell) option" where
  "wWinMain n k W this s = (let sys = call_os n W in do {
     t \<leftarrow> attach_console W sys s;
     t \<leftarrow> sys CoInitializeEx t;
     r \<leftarrow> Create W sys this (10, 10) (1280, 720) (construct this (Some (GetCommandLineArguments W)) t);
     if \<not> fst r then do { t \<leftarrow> destruct sys this (snd r); Some (EXIT_FAILURE, t) }
     else do {
       t \<leftarrow> message_loop n k W (SetQuitOnClose this True (snd r));
       t \<leftarrow> sys CoUninitialize t;
       t \<leftarrow> destruct sys this t;
       Some (EXIT_SUCCESS, t) } })"

section \<open>What calls keep\<close>

text \<open>
  A relation between the states before and after an operation that is kept by what the handlers do to the state is kept by
  all calls, however their messages nest.
\<close>

locale shell_frame = frame R for R :: "shell \<Rightarrow> shell \<Rightarrow> bool" +
  assumes update_frame: "R s (update_this this f s)"
    and bad_frame: "R s (s\<lparr>sh_bad := True\<rparr>)"
    and class_frame: "R s (s\<lparr>class_registered := b\<rparr>)"
    and userdata_frame: "R s (s\<lparr>sh_userdata := u\<rparr>)"
    and calls_frame: "R s (s\<lparr>sh_calls := sh_calls s @ [c]\<rparr>)"
begin

definition ends :: "shell \<Rightarrow> shell option \<Rightarrow> bool" where
  "ends s r \<longleftrightarrow> (\<forall>t. r = Some t \<longrightarrow> R s t)"

lemma endsD: "ends s r \<Longrightarrow> r = Some t \<Longrightarrow> R s t"
  by (simp add: ends_def)

lemma ends_some: "R s t \<Longrightarrow> ends s (Some t)"
  by (simp add: ends_def)

lemma ends_bind: "ends s r \<Longrightarrow> (\<And>t. R s t \<Longrightarrow> ends s (f t)) \<Longrightarrow> ends s (Option.bind r f)"
  by (auto simp: ends_def bind_eq_Some_conv)

lemma ends_this: "R s t \<Longrightarrow> (\<And>w. ends s (f w)) \<Longrightarrow> ends s (on_this this f t)"
  by (auto simp: on_this_def ends_def split: option.split intro: frame_trans bad_frame)

lemma ends_if: "ends s r \<Longrightarrow> ends s r' \<Longrightarrow> ends s (if b then r else r')"
  by simp

lemmas after = frame_trans [OF _ update_frame] frame_trans [OF _ bad_frame] frame_trans [OF _ class_frame]
  frame_trans [OF _ userdata_frame] frame_trans [OF _ calls_frame]

lemmas ends_intros = ends_some ends_bind ends_this ends_if after frame_refl

end

text \<open>The same of the operations, for system calls that keep the relation.\<close>

locale shell_calls = shell_frame R for R :: "shell \<Rightarrow> shell \<Rightarrow> bool" +
  fixes sys :: syscall
  assumes sys: "R s t \<Longrightarrow> ends s (sys c t)"
begin

lemma UnregisterWindowClass_ends: "R s t \<Longrightarrow> ends s (UnregisterWindowClass sys t)"
  unfolding UnregisterWindowClass_def by (intro ends_intros sys)

lemma OnDestroy_ends: "R s t \<Longrightarrow> ends s (OnDestroy sys this t)"
  unfolding OnDestroy_def FlutterWindow_OnDestroy_def by (intro ends_intros sys)

lemma Destroy_ends: "R s t \<Longrightarrow> ends s (Destroy sys this t)"
  unfolding Destroy_def by (intro ends_intros sys OnDestroy_ends UnregisterWindowClass_ends)

lemma UpdateTheme_ends: "R s t \<Longrightarrow> ends s (UpdateTheme W sys h t)"
  unfolding UpdateTheme_def by (cases "os_light_mode W (sh_calls t)"; simp) (intro ends_intros sys; assumption)+

lemma Win32_MessageHandler_ends: "R s t \<Longrightarrow> ends s (Win32Window_MessageHandler W sys this hwnd msg t)"
  unfolding Win32Window_MessageHandler_def move_to_client_area_def
  by (cases msg; simp only: message.case; intro ends_intros sys Destroy_ends UpdateTheme_ends; assumption)

lemma Flutter_MessageHandler_ends: "R s t \<Longrightarrow> ends s (FlutterWindow_MessageHandler W sys this hwnd msg t)"
  unfolding FlutterWindow_MessageHandler_def Let_def by (intro ends_intros sys Win32_MessageHandler_ends)

lemma MessageHandler_ends: "R s t \<Longrightarrow> ends s (MessageHandler W sys this hwnd msg t)"
  unfolding MessageHandler_def by (intro ends_intros Flutter_MessageHandler_ends Win32_MessageHandler_ends)

lemma EnableFullDpi_ends: "R s t \<Longrightarrow> ends s (EnableFullDpiSupportIfAvailable W sys h t)"
  unfolding EnableFullDpiSupportIfAvailable_def by (intro ends_intros sys)

lemma WndProc_ends: "R s t \<Longrightarrow> ends s (WndProc W sys hm t)"
  unfolding WndProc_def
  by (cases hm; cases "snd hm"; simp only: prod.case message.case snd_conv)
     (intro ends_intros sys MessageHandler_ends EnableFullDpi_ends; assumption)+

lemma deliver_ends: "R s t \<Longrightarrow> ends s (deliver (WndProc W sys) ms t)"
proof (induction ms arbitrary: t)
  case (Cons m ms)
  then show ?case unfolding deliver.simps by (intro ends_bind WndProc_ends)
qed (simp add: ends_some)

end

context shell_frame
begin

lemma call_os_ends: "R s t \<Longrightarrow> ends s (call_os n W c t)"
proof (induction n arbitrary: c s t)
  case (Suc n)
  have "shell_calls R (call_os n W)" by unfold_locales (rule Suc.IH)
  then have "ends s (deliver (WndProc W (call_os n W)) ms u)" if "R s u" for ms u using that by (rule shell_calls.deliver_ends)
  then show ?case using after(5) [OF Suc.prems] by simp
qed (simp add: ends_def)

end

sublocale shell_frame \<subseteq> calls: shell_calls R "call_os n W" for n W
  by unfold_locales (rule call_os_ends)

context shell_frame
begin

text \<open>Operations that also return a truth value.\<close>

definition ends_with :: "shell \<Rightarrow> (bool \<times> shell) option \<Rightarrow> bool" where
  "ends_with s r \<longleftrightarrow> (\<forall>b t. r = Some (b, t) \<longrightarrow> R s t)"

lemma ends_with_some: "R s t \<Longrightarrow> ends_with s (Some (b, t))"
  by (simp add: ends_with_def)

lemma ends_with_bind: "ends s r \<Longrightarrow> (\<And>t. R s t \<Longrightarrow> ends_with s (f t)) \<Longrightarrow> ends_with s (Option.bind r f)"
  by (auto simp: ends_def ends_with_def bind_eq_Some_conv)

lemma ends_with_if: "ends_with s r \<Longrightarrow> ends_with s r' \<Longrightarrow> ends_with s (if b then r else r')"
  by simp

lemmas ends_with_intros = ends_with_some ends_with_bind ends_with_if

end

context shell_calls
begin

lemma SetChildContent_ends: "R s t \<Longrightarrow> ends s (SetChildContent W sys this content t)"
  unfolding SetChildContent_def move_to_client_area_def by (intro ends_intros sys)

lemma Show_ends: "R s t \<Longrightarrow> ends s (Show W sys this t)"
  unfolding Show_def by (intro ends_intros sys)

lemma OnCreate_ends: "R s t \<Longrightarrow> ends_with s (OnCreate W sys this t)"
proof -
  assume R: "R s t"
  have "ends_with s (FlutterWindow_OnCreate W sys this t)"
    unfolding FlutterWindow_OnCreate_def assign_controller_def Let_def using R
    by (cases "sh_objects t this"; simp only: option.case)
       (intro ends_with_intros ends_intros sys SetChildContent_ends; assumption)+
  then show ?thesis using R
    by (auto simp: OnCreate_def split: option.split intro!: ends_with_intros after)
qed

lemma Create_ends: "R s t \<Longrightarrow> ends_with s (Create W sys this origin extent t)"
  unfolding Create_def GetWindowClass_def Let_def
  by (intro ends_with_intros ends_intros sys Destroy_ends UpdateTheme_ends OnCreate_ends)

end

section \<open>The number of windows\<close>

definition same_windows :: "shell \<Rightarrow> shell \<Rightarrow> bool" where
  "same_windows s t \<longleftrightarrow> g_active_window_count t = g_active_window_count s \<and> dom (sh_objects t) = dom (sh_objects s)"

interpretation windows: shell_frame same_windows
  by unfold_locales (auto simp: same_windows_def update_this_def)

text \<open>
  One step of a program that uses windows: it makes and deletes window objects, calls their methods, and the system delivers a
  message to a window.
\<close>

inductive shell_step :: "shell \<Rightarrow> shell \<Rightarrow> bool" where
  "sh_objects s this = None \<Longrightarrow> shell_step s (construct this project s)"
| "sh_objects s this \<noteq> None \<Longrightarrow> destruct (call_os n W) this s = Some t \<Longrightarrow> shell_step s t"
| "Create W (call_os n W) this origin extent s = Some (b, t) \<Longrightarrow> shell_step s t"
| "Show W (call_os n W) this s = Some t \<Longrightarrow> shell_step s t"
| "Destroy (call_os n W) this s = Some t \<Longrightarrow> shell_step s t"
| "SetChildContent W (call_os n W) this content s = Some t \<Longrightarrow> shell_step s t"
| "shell_step s (SetQuitOnClose this b s)"
| "WndProc W (call_os n W) hm s = Some t \<Longrightarrow> shell_step s t"

definition counted :: "shell \<Rightarrow> bool" where
  "counted s \<longleftrightarrow> finite (dom (sh_objects s)) \<and> g_active_window_count s = int (card (dom (sh_objects s)))"

lemma same_windows_counted: "same_windows s t \<Longrightarrow> counted s \<Longrightarrow> counted t"
  by (simp add: same_windows_def counted_def)

lemma call_counted: "counted s \<Longrightarrow> (same_windows s s \<Longrightarrow> windows.ends s r) \<Longrightarrow> r = Some t \<Longrightarrow> counted t"
  using windows.endsD [of s r t] windows.frame_refl [of s] same_windows_counted [of s t] by simp

lemma destruct_counted:
  assumes "counted s" and "sh_objects s this \<noteq> None" and "destruct (call_os n W) this s = Some t"
  shows "counted t"
proof -
  obtain u v where u: "destroy_members (call_os n W) this s = Some u"
    and v: "Destroy (call_os n W) this (u\<lparr>g_active_window_count := g_active_window_count u - 1\<rparr>) = Some v"
    and t: "t = v\<lparr>sh_objects := (sh_objects v)(this := None)\<rparr>"
    using assms(3) by (auto simp: destruct_def bind_eq_Some_conv)
  have "windows.ends s (destroy_members (call_os n W) this s)"
    unfolding destroy_members_def by (intro windows.ends_intros windows.call_os_ends)
  then have su: "same_windows s u" using u by (rule windows.endsD)
  have "same_windows (u\<lparr>g_active_window_count := g_active_window_count u - 1\<rparr>) v"
    by (rule windows.endsD [OF windows.calls.Destroy_ends [OF windows.frame_refl] v])
  then have c: "g_active_window_count v = g_active_window_count s - 1" "dom (sh_objects v) = dom (sh_objects s)"
    using su by (simp_all add: same_windows_def)
  have "this \<in> dom (sh_objects s)" using assms(2) by auto
  then show ?thesis using assms(1) c card_Diff_singleton [of this "dom (sh_objects s)"] card_gt_0_iff [of "dom (sh_objects s)"]
    by (auto simp: counted_def t of_nat_diff)
qed

interpretation shell: transition_system "\<lambda>s. s = new_shell" shell_step counted
proof
  show "s = new_shell \<Longrightarrow> counted s" for s by (simp add: counted_def new_shell_def)
  show "counted t" if "counted s" "shell_step s t" for s t
    using that(2)
  proof cases
    case (1 this project)
    then have "this \<notin> dom (sh_objects s)" by auto
    then show ?thesis using that(1) 1 by (simp add: counted_def construct_def)
  next
    case (2 this n W)
    then show ?thesis using destruct_counted that(1) by blast
  next
    case (3 W n this origin extent b)
    have "same_windows s t" using windows.calls.Create_ends [OF windows.frame_refl] 3 by (auto simp: windows.ends_with_def)
    then show ?thesis using same_windows_counted that(1) by blast
  next
    case (7 this b)
    have "same_windows s t" using 7 windows.update_frame by (simp add: SetQuitOnClose_def)
    then show ?thesis using same_windows_counted that(1) by blast
  next
    case (4 W n this)
    show ?thesis by (rule call_counted [OF that(1) windows.calls.Show_ends 4])
  next
    case (5 n W this)
    show ?thesis by (rule call_counted [OF that(1) windows.calls.Destroy_ends 5])
  next
    case (6 W n this content)
    show ?thesis by (rule call_counted [OF that(1) windows.calls.SetChildContent_ends 6])
  next
    case (8 W n hm)
    show ?thesis by (rule call_counted [OF that(1) windows.calls.WndProc_ends 8])
  qed
qed

section \<open>Destruction of a window\<close>




































section \<open>The number of windows, and fonts\<close>

text \<open>
  Claim C40. A window object knows how many there are: after any program of constructors, destructors, method calls and messages, with
  calls and messages nested in each other in any way, \<open>g_active_window_count\<close> is the number of window objects; so the window
  class is unregistered only when no object is left.
\<close>

theorem window_count_exact:
  assumes "reachable (\<lambda>s. s = new_shell) shell_step s"
  shows "g_active_window_count s = int (card (dom (sh_objects s))) \<and>
    (g_active_window_count s = 0 \<longleftrightarrow> (\<forall>this. sh_objects s this = None))"
proof -
  have c: "counted s" by (rule shell.reachable_inv [OF assms])
  then have "g_active_window_count s = 0 \<longleftrightarrow> dom (sh_objects s) = {}" by (simp add: counted_def)
  then show ?thesis using c by (auto simp: counted_def)
qed

text \<open>
  A change of the fonts is handled through a null pointer whenever a \<open>FlutterWindow\<close> has no controller, as before it is created and
  after \<open>WM_DESTROY\<close>.
\<close>

lemma font_change_without_controller:
  assumes "sh_objects s this = Some w" and "w_flutter w" and "flutter_controller w = 0" and "sh_userdata s h = this" and "this \<noteq> 0"
    and "\<And>h l. os_sends W (DefWindowProc h WM_FONTCHANGE) l = []"
  shows "\<exists>t. WndProc W (call_os (Suc n) W) (h, WM_FONTCHANGE) s = Some t \<and> sh_bad t"
  using assms
  by (simp add: WndProc_def MessageHandler_def FlutterWindow_MessageHandler_def Win32Window_MessageHandler_def on_this_def Let_def)

text \<open>
  Words of the command line are converted to UTF-8: when the conversion of a word has \<open>n > 0\<close> bytes and both passes agree, the result is
  these bytes. When a word cannot be converted the result is empty, but only after the length, 0 minus 1, was taken for 4294967295
  and as many bytes were reserved.
\<close>

lemma utf8_conversion:
  assumes "os_utf8_size W xs = int (length bs) + 1" and "os_utf8 W xs (length bs) = bs" and "length bs < 4294967295"
    and "os_utf8_size W ys = 0" and "\<And>n. os_utf8 W ys n = []"
  shows "Utf8FromUtf16 W (Some xs) = (bs, length bs) \<and> Utf8FromUtf16 W (Some ys) = ([], 4294967295)"
  using assms by (simp add: Utf8FromUtf16_def string_max_size_def Let_def)

section \<open>Witnesses\<close>

text \<open>
  A system in which creation gives window 5 and every call succeeds, and a window object at address 1 with window 5 and the controller
  9. Deleting a controller notifies the parent of its view, destroying a window sends two messages.
\<close>

definition w_os :: os where
  "w_os = \<lparr>os_result = (\<lambda>_ _. 5), os_client_rect = (\<lambda>_ _. \<lparr>r_left = 0, r_top = 0, r_right = 640, r_bottom = 480\<rparr>),
     os_light_mode = (\<lambda>_. None), os_controller = (\<lambda>_. 9), os_engine_and_view = (\<lambda>_ _. True), os_native_window = (\<lambda>_ _. 6),
     os_handles = (\<lambda>_ _ _. None), os_message = (\<lambda>_. (5, WM_other 0)), os_argv = None,
     os_utf8_size = (\<lambda>xs. if xs = [0x44] then 2 else 0), os_utf8 = (\<lambda>xs n. if xs = [0x44] then [0x44] else []),
     os_sends = (\<lambda>c _. case c of DestroyWindow h \<Rightarrow> [(h, WM_DESTROY), (h, WM_other 130)] | DeleteController _ \<Rightarrow> [(5, WM_other 528)] | _ \<Rightarrow> [])\<rparr>"



definition w_window :: Win32Window where
  "w_window = (new_window (Some []))\<lparr>window_handle := 5, flutter_controller := 9, quit_on_close := True\<rparr>"

definition w_shell :: shell where
  "w_shell = new_shell\<lparr>g_active_window_count := 1, sh_objects := [1 \<mapsto> w_window], sh_userdata := (\<lambda>h. if h = 5 then 1 else 0)\<rparr>"

lemma w_shell_simps:
  "sh_objects w_shell 1 = Some w_window" "window_handle w_window = 5" "sh_userdata w_shell 5 = 1" "g_active_window_count w_shell = 1"
  "w_flutter w_window" "flutter_controller w_window = 9" "quit_on_close w_window" "sh_calls w_shell = []"
  by (simp_all add: w_shell_def w_window_def new_shell_def new_window_def)


text \<open>The calls that are made.\<close>

lemma w_destroy_calls: "map_option sh_calls (Destroy (call_os 3 w_os) 1 w_shell) =
  Some [DeleteController 9, DefWindowProc 5 (WM_other 528), DestroyWindow 5, PostQuitMessage 0, DefWindowProc 0 (WM_other 130)]"
  by code_simp

theorem window_count_exact_witness:
  "g_active_window_count (construct 2 None (construct 1 None new_shell)) =
     int (card (dom (sh_objects (construct 2 None (construct 1 None new_shell)))))"
proof -
  have 1: "shell_step new_shell (construct 1 None new_shell)" by (rule shell_step.intros(1)) (simp add: new_shell_def)
  have "reachable (\<lambda>s. s = new_shell) shell_step (construct 1 None new_shell)"
    by (rule reachable_step [of _ _ new_shell]) (simp add: reachable_init, rule 1)
  then have "reachable (\<lambda>s. s = new_shell) shell_step (construct 2 None (construct 1 None new_shell))"
    by (rule reachable_step) (rule shell_step.intros(1), simp add: new_shell_def construct_def)
  from window_count_exact [OF this] show ?thesis by simp
qed

lemma font_change_without_controller_witness:
  "\<exists>t. WndProc w_os (call_os 1 w_os) (5, WM_FONTCHANGE) (update_this 1 (\<lambda>w. w\<lparr>flutter_controller := 0\<rparr>) w_shell) = Some t \<and> sh_bad t"
proof -
  let ?s = "update_this 1 (\<lambda>w. w\<lparr>flutter_controller := 0\<rparr>) w_shell" and ?w = "w_window\<lparr>flutter_controller := 0\<rparr>"
  have "sh_objects ?s 1 = Some ?w" "w_flutter ?w" "flutter_controller ?w = 0" "sh_userdata ?s 5 = 1"
    using w_shell_simps(1) by (simp_all add: update_this_def w_shell_simps)
  moreover have "os_sends w_os (DefWindowProc h WM_FONTCHANGE) l = []" for h l by (simp add: w_os_def)
  ultimately show ?thesis using font_change_without_controller [of ?s 1 ?w 5 w_os 0] by (simp del: call_os.simps)
qed

lemma utf8_conversion_witness:
  "Utf8FromUtf16 w_os (Some [0x44]) = ([0x44], 1) \<and> Utf8FromUtf16 w_os (Some [0xd800]) = ([], 4294967295)"
  using utf8_conversion [of w_os "[0x44]" "[0x44]" "[0xd800]"] by (simp add: w_os_def)

section \<open>Scaling\<close>

text \<open>At 96 dots per inch positions and sizes are what the program asks for.\<close>

lemma floorlog_shift: "0 < a \<Longrightarrow> floorlog 2 (a * 2 ^ n) = floorlog 2 a + n"
  by (simp add: floorlog_power)

lemma double_quotient_self: "double_quotient 96 96 = (2 ^ 52, 52)"
proof -
  have "floorlog 2 (1 * 2 ^ 60) = floorlog 2 1 + 60" by (rule floorlog_shift) simp
  moreover have "floorlog 2 1 = 1" by (simp add: floorlog_def)
  ultimately have "floorlog 2 (2 ^ 60) = 61" by (simp del: power_numeral)
  moreover have "round_quotient (96 * 2 ^ 52) 96 = 2 ^ 52" by (simp add: round_quotient_def)
  ultimately show ?thesis by (simp add: double_quotient_def del: power_numeral)
qed

lemma double_times_exact:
  assumes "a < 2 ^ 32" shows "fst (double_times a (2 ^ 52, 52)) = a * 2 ^ 52"
proof (cases "a = 0")
  case False
  define k where "k = floorlog 2 (a * 2 ^ 52) - 53"
  have "floorlog 2 a \<le> 32" using assms by (simp add: floorlog_le_iff del: power_numeral)
  then have "k \<le> 52" using False by (simp add: k_def floorlog_shift del: power_numeral)
  then have "2 ^ k dvd a * 2 ^ 52" by (intro dvd_mult le_imp_power_dvd)
  then have "round_quotient (a * 2 ^ 52) (2 ^ k) * 2 ^ k = a * 2 ^ 52" by (rule round_quotient_exact) simp
  then show ?thesis unfolding double_times_def Let_def fst_conv k_def .
qed (simp add: double_times_def round_quotient_def)

lemma Scale_at_96:
  assumes "in_i32 x" shows "Scale x (double_quotient 96 96) = x"
proof -
  have "nat \<bar>x\<bar> < 2 ^ 32" using assms by (auto simp: in_i32_def)
  from double_times_exact [OF this] have "fst (double_times (nat \<bar>x\<bar>) (2 ^ 52, 52)) div 2 ^ 52 = nat \<bar>x\<bar>" by simp
  moreover have "snd (double_times (nat \<bar>x\<bar>) (2 ^ 52, 52)) = 52" by (simp add: double_times_def Let_def)
  ultimately show ?thesis unfolding Scale_def double_quotient_self Let_def by (simp add: sgn_if)
qed

end
