(* ===== verification/LinuxApp.thy ===== *)
theory LinuxApp
  imports Prelude
begin

text \<open>
  The program on Linux (\<open>linux/runner/my_application.cc\<close>, \<open>main.cc\<close>) and on Aurora (\<open>aurora/main.cpp\<close>). An application object has
  the arguments of the Dart program; GLib calls its virtual methods. Calls to GTK and Flutter are logged in the order of the code.

  GLib is a parameter (record \<open>desktop\<close>): whether the application can be registered, what the screen is, and which virtual methods
  it calls, while it registers and activates the application and while it runs it.
  Argument vectors are blocks of memory, as the code copies and frees them.
\<close>

section \<open>The application\<close>

datatype gtk_call =
    Gtk_application_window_new
  | Gtk_header_bar_new
  | Gtk_widget_show_header_bar
  | Gtk_header_bar_set_title string
  | Gtk_header_bar_set_show_close_button bool
  | Gtk_window_set_titlebar
  | Gtk_window_set_title string
  | Gtk_window_set_default_size int int
  | Gtk_widget_show_window
  | Fl_dart_project_new
  | Fl_dart_project_set_dart_entrypoint_arguments "string list option"
  | Fl_view_new
  | Gtk_widget_show_view
  | Gtk_container_add
  | Fl_register_plugins
  | Gtk_widget_grab_focus
  | Fl_dart_project_unref
  | G_warning
  | G_set_prgname string
  | Parent_startup
  | Parent_shutdown
  | Parent_dispose

text \<open>The virtual methods that GLib calls by itself.\<close>

datatype app_method = Activate | Startup | Shutdown

text \<open>
  After the calls made so far, \<open>dk_register\<close> is the result of \<open>g_application_register\<close> with the methods it calls before it returns, and
  \<open>dk_activate\<close> the methods that \<open>g_application_activate\<close> calls. \<open>dk_run\<close> are the methods that \<open>g_application_run\<close> calls after the local command
  line, given its result, and the status that it returns; \<open>dk_disposals\<close> is how often the object is disposed of when the last reference
  to it is released. The screen belongs to X or not, and its window manager may have no name. \<open>dk_x11_build\<close> says that GTK has its X11 backend.
\<close>

record desktop =
  dk_register :: "gtk_call list \<Rightarrow> bool \<times> app_method list"
  dk_activate :: "gtk_call list \<Rightarrow> app_method list"
  dk_run :: "bool \<times> int \<Rightarrow> app_method list \<times> int"
  dk_disposals :: nat
  dk_x11_build :: bool
  dk_is_x11_screen :: bool
  dk_window_manager_name :: "string option"
  dk_application_id :: string

text \<open>
  The object, with the address of its vector of arguments, 0 for null, and the vectors that are allocated. \<open>ap_bad\<close> records the use of a
  vector that is not allocated and a read behind the end of the arguments of the process.
\<close>

record MyApplication =
  dart_entrypoint_arguments :: nat
  ap_vectors :: "nat \<Rightarrow> string list option"
  ap_next :: nat
  ap_calls :: "gtk_call list"
  ap_bad :: bool

definition log_calls :: "gtk_call list \<Rightarrow> MyApplication \<Rightarrow> MyApplication" where
  "log_calls cs s = s\<lparr>ap_calls := ap_calls s @ cs\<rparr>"

definition flag_app :: "bool \<Rightarrow> MyApplication \<Rightarrow> MyApplication" where
  "flag_app bad s = s\<lparr>ap_bad := ap_bad s \<or> bad\<rparr>"

section \<open>Argument vectors\<close>

text \<open>The vector at an address; a null pointer has none, and neither has an address that is not allocated.\<close>

definition vector_at :: "nat \<Rightarrow> MyApplication \<Rightarrow> string list option" where
  "vector_at p s = (if p = 0 then None else ap_vectors s p)"

definition dangling :: "nat \<Rightarrow> MyApplication \<Rightarrow> bool" where
  "dangling p s \<longleftrightarrow> p \<noteq> 0 \<and> ap_vectors s p = None"

definition g_strdupv :: "string list \<Rightarrow> MyApplication \<Rightarrow> nat \<times> MyApplication" where
  "g_strdupv str_array s =
     (ap_next s, s\<lparr>ap_vectors := (ap_vectors s)(ap_next s \<mapsto> str_array), ap_next := ap_next s + 1\<rparr>)"

definition g_strfreev :: "nat \<Rightarrow> MyApplication \<Rightarrow> MyApplication" where
  "g_strfreev p s = (if p = 0 then s else flag_app (dangling p s) (s\<lparr>ap_vectors := (ap_vectors s)(p := None)\<rparr>))"

text \<open>\<open>g_clear_pointer\<close> sets the field to null and then frees what it pointed to.\<close>

definition g_clear_arguments :: "MyApplication \<Rightarrow> MyApplication" where
  "g_clear_arguments s = (let p = dart_entrypoint_arguments s
     in if p = 0 then s else g_strfreev p (s\<lparr>dart_entrypoint_arguments := 0\<rparr>))"

section \<open>The virtual methods\<close>

definition use_header_bar :: "desktop \<Rightarrow> bool" where
  "use_header_bar D \<longleftrightarrow> \<not> (dk_x11_build D \<and> dk_is_x11_screen D \<and> dk_window_manager_name D \<noteq> Some ''GNOME Shell'')"

definition fl_register_plugins :: "gtk_call list" where
  "fl_register_plugins = [Fl_register_plugins]"

definition my_application_activate :: "desktop \<Rightarrow> MyApplication \<Rightarrow> MyApplication" where
  "my_application_activate D s =
     (let title = (if use_header_bar D
        then [Gtk_header_bar_new, Gtk_widget_show_header_bar, Gtk_header_bar_set_title ''aurora_practice_project'',
              Gtk_header_bar_set_show_close_button True, Gtk_window_set_titlebar]
        else [Gtk_window_set_title ''aurora_practice_project'']);
          s1 = log_calls ([Gtk_application_window_new] @ title @
            [Gtk_window_set_default_size 1280 720, Gtk_widget_show_window, Fl_dart_project_new]) s;
          s2 = log_calls [Fl_dart_project_set_dart_entrypoint_arguments (vector_at (dart_entrypoint_arguments s1) s1)]
            (flag_app (dangling (dart_entrypoint_arguments s1) s1) s1)
      in log_calls ([Fl_view_new, Gtk_widget_show_view, Gtk_container_add] @ fl_register_plugins @
           [Gtk_widget_grab_focus, Fl_dart_project_unref]) s2)"

definition my_application_startup :: "MyApplication \<Rightarrow> MyApplication" where
  "my_application_startup s = log_calls [Parent_startup] s"

definition my_application_shutdown :: "MyApplication \<Rightarrow> MyApplication" where
  "my_application_shutdown s = log_calls [Parent_shutdown] s"

definition my_application_dispose :: "MyApplication \<Rightarrow> MyApplication" where
  "my_application_dispose s = log_calls [Parent_dispose] (g_clear_arguments s)"

text \<open>The methods that the class has for what GLib calls.\<close>

fun my_application_class :: "desktop \<Rightarrow> app_method \<Rightarrow> MyApplication \<Rightarrow> MyApplication" where
  "my_application_class D Activate s = my_application_activate D s"
| "my_application_class D Startup s = my_application_startup s"
| "my_application_class D Shutdown s = my_application_shutdown s"

text \<open>\<open>*arguments + 1\<close> points behind the terminator when there are no arguments at all.\<close>

definition my_application_local_command_line ::
    "desktop \<Rightarrow> string list \<Rightarrow> MyApplication \<Rightarrow> bool \<times> int \<times> MyApplication" where
  "my_application_local_command_line D arguments s =
     (case g_strdupv (tl arguments) (flag_app (arguments = []) s) of (p, s1) \<Rightarrow>
      let s2 = s1\<lparr>dart_entrypoint_arguments := p\<rparr> in
      case dk_register D (ap_calls s2) of (registered, methods) \<Rightarrow>
      let s3 = fold (my_application_class D) methods s2
      in if \<not> registered then (True, 1, log_calls [G_warning] s3)
         else (True, 0, fold (my_application_class D) (dk_activate D (ap_calls s3)) s3))"

definition my_application_new :: "desktop \<Rightarrow> MyApplication" where
  "my_application_new D = \<lparr>dart_entrypoint_arguments = 0, ap_vectors = (\<lambda>_. None), ap_next = 1,
     ap_calls = [G_set_prgname (dk_application_id D)], ap_bad = False\<rparr>"

text \<open>
  \<open>g_application_run\<close> has the object process the command line first, as GLib documents, and then calls methods as it sees fit. The reference
  that \<open>main\<close> holds is released at its end.
\<close>

definition linux_main :: "desktop \<Rightarrow> string list \<Rightarrow> int \<times> MyApplication" where
  "linux_main D argv = (case my_application_local_command_line D argv (my_application_new D) of (handled, exit_status, s) \<Rightarrow>
     case dk_run D (handled, exit_status) of (methods, status) \<Rightarrow>
       (status, (my_application_dispose ^^ dk_disposals D) (fold (my_application_class D) methods s)))"

section \<open>Aurora\<close>

datatype aurora_call = Aurora_Initialize "string list" | Aurora_RegisterPlugins | Aurora_Launch

definition aurora_main :: "string list \<Rightarrow> int \<times> aurora_call list" where
  "aurora_main argv = (0, [Aurora_Initialize argv, Aurora_RegisterPlugins, Aurora_Launch])"

section \<open>Methods in any order\<close>

lemmas app_defs = log_calls_def flag_app_def vector_at_def dangling_def g_strdupv_def g_strfreev_def g_clear_arguments_def
  my_application_activate_def my_application_startup_def my_application_shutdown_def my_application_dispose_def
  fl_register_plugins_def Let_def

text \<open>GLib may call the methods in any order, and dispose more than once.\<close>

inductive app_step :: "MyApplication \<Rightarrow> MyApplication \<Rightarrow> bool" where
  "arguments \<noteq> [] \<Longrightarrow> app_step s (snd (snd (my_application_local_command_line D arguments s)))"
| "app_step s (my_application_class D m s)"
| "app_step s (my_application_dispose s)"

inductive_cases app_stepE: "app_step s t"

text \<open>The field is null or an allocated vector, new addresses are free, and nothing went wrong.\<close>

definition owns_arguments :: "MyApplication \<Rightarrow> bool" where
  "owns_arguments s \<longleftrightarrow> \<not> ap_bad s \<and> \<not> dangling (dart_entrypoint_arguments s) s \<and>
     (\<forall>p. ap_next s \<le> p \<longrightarrow> ap_vectors s p = None) \<and> 0 < ap_next s"

lemma owns_new: "owns_arguments (my_application_new D)"
  by (simp add: owns_arguments_def my_application_new_def dangling_def)

lemma owns_method: "owns_arguments s \<Longrightarrow> owns_arguments (my_application_class D m s)"
  by (cases m) (auto simp: owns_arguments_def app_defs)

lemma owns_methods: "owns_arguments s \<Longrightarrow> owns_arguments (fold (my_application_class D) ms s)"
  by (induction ms arbitrary: s) (simp_all add: owns_method)

lemma owns_dispose: "owns_arguments s \<Longrightarrow> owns_arguments (my_application_dispose s)"
  by (auto simp: owns_arguments_def app_defs)

text \<open>The object with its copy of the arguments, before it is registered.\<close>

definition with_arguments :: "string list \<Rightarrow> MyApplication \<Rightarrow> MyApplication" where
  "with_arguments arguments s =
     s\<lparr>ap_vectors := (ap_vectors s)(ap_next s \<mapsto> tl arguments), ap_next := ap_next s + 1, dart_entrypoint_arguments := ap_next s\<rparr>"

lemma command_line_methods:
  assumes "arguments \<noteq> []"
  obtains ms cs where "my_application_local_command_line D arguments s =
      (True, if fst (dk_register D (ap_calls s)) then 0 else 1, log_calls cs (fold (my_application_class D) ms (with_arguments arguments s)))"
    "cs = [] \<or> cs = [G_warning]"
proof -
  let ?s2 = "with_arguments arguments s"
  obtain r ms where r: "dk_register D (ap_calls s) = (r, ms)" by (cases "dk_register D (ap_calls s)")
  have e: "my_application_local_command_line D arguments s = (let s3 = fold (my_application_class D) ms ?s2
      in if \<not> r then (True, 1, log_calls [G_warning] s3) else (True, 0, fold (my_application_class D) (dk_activate D (ap_calls s3)) s3))"
    using assms r by (simp add: my_application_local_command_line_def g_strdupv_def flag_app_def with_arguments_def Let_def)
  have l: "log_calls [] t = t" for t by (simp add: log_calls_def)
  show thesis
  proof (cases r)
    case True
    show ?thesis
      by (rule that [of "[]" "ms @ dk_activate D (ap_calls (fold (my_application_class D) ms ?s2))"])
         (simp_all add: e r True l Let_def)
  next
    case False
    show ?thesis by (rule that [of "[G_warning]" ms]) (simp_all add: e r False Let_def)
  qed
qed

lemma owns_command_line:
  assumes "owns_arguments s" "arguments \<noteq> []" shows "owns_arguments (snd (snd (my_application_local_command_line D arguments s)))"
proof -
  obtain ms cs where e: "my_application_local_command_line D arguments s =
      (True, if fst (dk_register D (ap_calls s)) then 0 else 1, log_calls cs (fold (my_application_class D) ms (with_arguments arguments s)))"
    by (rule command_line_methods [OF assms(2)])
  have "owns_arguments (with_arguments arguments s)" using assms(1) by (auto simp: owns_arguments_def with_arguments_def dangling_def)
  from owns_methods [OF this] show ?thesis by (simp add: e owns_arguments_def log_calls_def dangling_def)
qed

lemma owns_step: "owns_arguments s \<Longrightarrow> app_step s t \<Longrightarrow> owns_arguments t"
  by (erule app_stepE) (auto intro: owns_method owns_dispose owns_command_line)

interpretation app: transition_system "\<lambda>s. \<exists>D. s = my_application_new D" app_step owns_arguments
  by unfold_locales (auto simp: owns_new intro: owns_step)

text \<open>
  However GLib calls the methods of the application, on whatever arguments, the Dart arguments are never used after they are
  freed and never freed twice: the field is null or a vector that is allocated.
\<close>

lemma app_safe:
  assumes "app_step\<^sup>*\<^sup>* (my_application_new D) s"
  shows "\<not> ap_bad s \<and> (dart_entrypoint_arguments s = 0 \<or> ap_vectors s (dart_entrypoint_arguments s) \<noteq> None)"
  using app.steps_inv [OF assms owns_new] by (auto simp: owns_arguments_def dangling_def)

section \<open>A run of the program\<close>

definition sets_arguments :: "gtk_call \<Rightarrow> bool" where
  "sets_arguments c \<longleftrightarrow> (case c of Fl_dart_project_set_dart_entrypoint_arguments _ \<Rightarrow> True | _ \<Rightarrow> False)"

text \<open>
  The object holds the one vector that is allocated, and every window that was opened got the arguments it has.
\<close>

definition running :: "string list \<Rightarrow> MyApplication \<Rightarrow> bool" where
  "running args s \<longleftrightarrow> owns_arguments s \<and> dart_entrypoint_arguments s \<noteq> 0 \<and> ap_vectors s = [dart_entrypoint_arguments s \<mapsto> args] \<and>
     filter sets_arguments (ap_calls s) =
       replicate (count_list (ap_calls s) Gtk_application_window_new) (Fl_dart_project_set_dart_entrypoint_arguments (Some args))"

lemma running_start: "running (tl argv) (with_arguments argv (my_application_new D))"
  by (auto simp: running_def owns_arguments_def with_arguments_def my_application_new_def dangling_def sets_arguments_def)

lemma running_method:
  assumes "running args s" shows "running args (my_application_class D m s)"
proof -
  have o: "owns_arguments (my_application_class D m s)" using assms owns_method by (simp add: running_def)
  then show ?thesis using assms
    by (cases m) (auto simp: running_def app_defs sets_arguments_def replicate_append_same)
qed

lemma running_methods: "running args s \<Longrightarrow> running args (fold (my_application_class D) ms s)"
  by (induction ms arbitrary: s) (simp_all add: running_method)

lemma running_log: "running args s \<Longrightarrow> cs = [] \<or> cs = [G_warning] \<Longrightarrow> running args (log_calls cs s)"
  by (auto simp: running_def owns_arguments_def log_calls_def dangling_def sets_arguments_def)

lemma dispose_calls:
  "filter sets_arguments (ap_calls (my_application_dispose s)) = filter sets_arguments (ap_calls s) \<and>
   count_list (ap_calls (my_application_dispose s)) Gtk_application_window_new = count_list (ap_calls s) Gtk_application_window_new"
  by (auto simp: app_defs sets_arguments_def)

lemma dispose_again: "dart_entrypoint_arguments s = 0 \<Longrightarrow> my_application_dispose s = log_calls [Parent_dispose] s"
  by (simp add: my_application_dispose_def g_clear_arguments_def)

text \<open>After the object is disposed of, once or more often, nothing is allocated; the calls that were made remain.\<close>

lemma disposed:
  assumes "running args s" "0 < n"
  shows "let t = (my_application_dispose ^^ n) s in \<not> ap_bad t \<and> dart_entrypoint_arguments t = 0 \<and> ap_vectors t = (\<lambda>_. None) \<and>
    filter sets_arguments (ap_calls t) = replicate (count_list (ap_calls t) Gtk_application_window_new) (Fl_dart_project_set_dart_entrypoint_arguments (Some args))"
  using assms(2)
proof (induction n rule: nat_induct_non_zero)
  case 1
  then show ?case using assms(1) dispose_calls [of s] by (auto simp: running_def owns_arguments_def app_defs)
next
  case (Suc n)
  let ?t = "(my_application_dispose ^^ n) s"
  have "my_application_dispose ?t = log_calls [Parent_dispose] ?t"
    using Suc.IH by (intro dispose_again) (simp add: Let_def)
  then have "ap_bad (my_application_dispose ?t) = ap_bad ?t" "ap_vectors (my_application_dispose ?t) = ap_vectors ?t"
    "dart_entrypoint_arguments (my_application_dispose ?t) = dart_entrypoint_arguments ?t" by (simp_all add: log_calls_def)
  then show ?case using Suc.IH dispose_calls [of ?t] by (simp add: Let_def)
qed

text \<open>
  Claim C38. Whatever virtual methods GLib calls while it registers, activates and runs the application, and however often it disposes of the object at the end, a run of
  the program on Linux uses no vector of arguments that is not allocated, frees none twice and leaves none, and every window it opens is given
  exactly the arguments of the process without the name of the program. The local command line is handled, with exit status 0 exactly if GLib registers the application
  and 1 otherwise; the status of the process is what GLib makes of it. (The process has the name of the program as argument, and the release of the last reference disposes of the object
  at least once, as GObject documents.)
\<close>

theorem linux_run:
  assumes "argv \<noteq> []" and "0 < dk_disposals D"
  shows "case linux_main D argv of (status, s) \<Rightarrow>
    status = snd (dk_run D (True, if fst (dk_register D [G_set_prgname (dk_application_id D)]) then 0 else 1)) \<and>
    \<not> ap_bad s \<and> ap_vectors s = (\<lambda>_. None) \<and> dart_entrypoint_arguments s = 0 \<and>
    filter sets_arguments (ap_calls s) =
      replicate (count_list (ap_calls s) Gtk_application_window_new) (Fl_dart_project_set_dart_entrypoint_arguments (Some (tl argv)))"
proof -
  let ?new = "my_application_new D"
  let ?x = "if fst (dk_register D (ap_calls ?new)) then 0 else (1 :: int)"
  obtain ms cs where c: "my_application_local_command_line D argv ?new = (True, ?x, log_calls cs (fold (my_application_class D) ms (with_arguments argv ?new)))"
    "cs = [] \<or> cs = [G_warning]" by (rule command_line_methods [OF assms(1)])
  obtain ms' status where r: "dk_run D (True, ?x) = (ms', status)" by (cases "dk_run D (True, ?x)")
  have "running (tl argv) (fold (my_application_class D) ms' (log_calls cs (fold (my_application_class D) ms (with_arguments argv ?new))))"
    by (intro running_methods running_log running_start c(2))
  note d = disposed [OF this assms(2), unfolded Let_def]
  have n: "ap_calls ?new = [G_set_prgname (dk_application_id D)]" by (simp add: my_application_new_def)
  show ?thesis unfolding linux_main_def c(1) prod.case r using d r by (simp add: n)
qed

text \<open>GLib starts the application up when it registers it, activates it once and shuts it down at the end.\<close>

definition w_desktop :: desktop where
  "w_desktop = \<lparr>dk_register = (\<lambda>_. (True, [Startup])), dk_activate = (\<lambda>_. [Activate]), dk_run = (\<lambda>(handled, status). ([Shutdown], status)),
     dk_disposals = 1, dk_x11_build = True, dk_is_x11_screen = False, dk_window_manager_name = None, dk_application_id = ''com.example.app''\<rparr>"

lemma w_desktop_window: "count_list (ap_calls (snd (linux_main w_desktop [''app'', ''--verbose'']))) Gtk_application_window_new = 1"
  by code_simp

theorem linux_run_witness:
  "fst (linux_main w_desktop [''app'', ''--verbose'']) = 0 \<and>
   filter sets_arguments (ap_calls (snd (linux_main w_desktop [''app'', ''--verbose'']))) =
     [Fl_dart_project_set_dart_entrypoint_arguments (Some [''--verbose''])]"
proof -
  have "[''app'', ''--verbose''] \<noteq> []" "0 < dk_disposals w_desktop" by (simp_all add: w_desktop_def)
  note run = linux_run [OF this, unfolded case_prod_unfold]
  have "snd (dk_run w_desktop (True, if fst (dk_register w_desktop [G_set_prgname (dk_application_id w_desktop)]) then 0 else 1)) = 0"
    by (simp add: w_desktop_def)
  with run w_desktop_window show ?thesis by simp
qed

lemma app_safe_witness:
  "\<not> ap_bad (my_application_dispose (my_application_dispose (snd (snd (my_application_local_command_line w_desktop [''app''] (my_application_new w_desktop))))))"
  using app_safe [of w_desktop "my_application_dispose (my_application_dispose (snd (snd (my_application_local_command_line w_desktop [''app''] (my_application_new w_desktop)))))"]
  by (auto intro!: rtranclp.rtrancl_into_rtrancl [of app_step] app_step.intros)

text \<open>A second command line loses the vector of the first: it stays allocated after the object is disposed of.\<close>

lemma method_vectors:
  "ap_vectors (fold (my_application_class D) ms s) = ap_vectors s \<and>
   dart_entrypoint_arguments (fold (my_application_class D) ms s) = dart_entrypoint_arguments s"
proof (induction ms arbitrary: s)
  case (Cons m ms)
  then show ?case by (cases m) (simp_all add: app_defs)
qed simp

lemma second_command_line_leaks:
  assumes "owns_arguments s" "ap_vectors s (dart_entrypoint_arguments s) \<noteq> None" "dart_entrypoint_arguments s \<noteq> 0" "arguments \<noteq> []"
  shows "ap_vectors (my_application_dispose (snd (snd (my_application_local_command_line D arguments s)))) (dart_entrypoint_arguments s) \<noteq> None"
proof -
  obtain ms cs where e: "my_application_local_command_line D arguments s =
      (True, if fst (dk_register D (ap_calls s)) then 0 else 1, log_calls cs (fold (my_application_class D) ms (with_arguments arguments s)))"
    by (rule command_line_methods [OF assms(4)])
  have "dart_entrypoint_arguments s \<noteq> ap_next s" "ap_next s \<noteq> 0" using assms(1,2) by (auto simp: owns_arguments_def)
  with assms show ?thesis using method_vectors [of D ms "with_arguments arguments s"]
    by (simp add: e with_arguments_def my_application_dispose_def g_clear_arguments_def g_strfreev_def flag_app_def log_calls_def Let_def)
qed

text \<open>The title is set once, in the header bar unless the screen is one of X with another window manager than GNOME Shell.\<close>

definition sets_title :: "gtk_call \<Rightarrow> bool" where
  "sets_title c \<longleftrightarrow> (case c of Gtk_header_bar_set_title _ \<Rightarrow> True | Gtk_window_set_title _ \<Rightarrow> True | _ \<Rightarrow> False)"

lemma activate_title:
  "filter sets_title (ap_calls (my_application_activate D s)) = filter sets_title (ap_calls s) @
     [if dk_x11_build D \<and> dk_is_x11_screen D \<and> dk_window_manager_name D \<noteq> Some ''GNOME Shell''
      then Gtk_window_set_title ''aurora_practice_project'' else Gtk_header_bar_set_title ''aurora_practice_project'']"
  by (simp add: app_defs use_header_bar_def sets_title_def)

end
