(* ===== verification/InterpreterBuilder.thy ===== *)
theory InterpreterBuilder
  imports CApi "HOL-Library.Char_ord" "HOL-Library.List_Lexorder"
begin

text \<open>
  Building an interpreter from a model (\<open>lite/core/interpreter_builder.cc\<close>): operator codes are resolved to registrations, then
  every subgraph of the model gets its tensors, with their constant data, quantization and sparsity, its nodes, inputs,
  outputs and variables; signatures, metadata and delegates follow.

  A model is the tables of the file as the accessors of FlatBuffers show them: a field that may be missing is an option, a vector
  of bytes is its address and size. Parameters of the model (record \<open>build_env\<close>) are the options of builtin operators
  (\<open>ParseOpData\<close>), the control dependencies in the metadata, the delegate for TensorFlow operators and the default delegates of
  the resolver. Error messages, profilers and telemetry are left out, as is memory that is not freed on errors.
\<close>

section \<open>The tables of a model\<close>

datatype SparseIndexVector =
    SparseIndexVector_NONE
  | SparseIndexVector_Int32Vector "int list option"
  | SparseIndexVector_Uint16Vector "int list option"
  | SparseIndexVector_Uint8Vector "int list option"

record DimensionMetadata =
  fd_format :: int
  fd_dense_size :: int
  fd_array_segments :: SparseIndexVector
  fd_array_indices :: SparseIndexVector

record SparsityParameters =
  fp_traversal_order :: "int list option"
  fp_block_map :: "int list option"
  fp_dim_metadata :: "DimensionMetadata list option"

text \<open>Block-wise parameters: the tensors of scales and zero points and the size of a block.\<close>

record QuantizationParameters =
  fq_scale :: "float32 list option"
  fq_zero_point :: "int list option"
  fq_quantized_dimension :: int
  fq_blockwise :: "(int \<times> int \<times> int) option"

record Tensor =
  ft_shape :: "int list option"
  ft_type :: int
  ft_buffer :: nat
  ft_name :: "string option"
  ft_quantization :: "QuantizationParameters option"
  ft_is_variable :: bool
  ft_sparsity :: "SparsityParameters option"
  ft_shape_signature :: "int list option"
  ft_external_buffer :: nat

record Buffer =
  fb_array :: "(nat \<times> nat) option"
  fb_offset :: nat
  fb_size :: nat

record Operator =
  fo_opcode_index :: nat
  fo_inputs :: "int list option"
  fo_outputs :: "int list option"
  fo_intermediates :: "int list option"
  fo_custom_options :: "(nat \<times> nat) option"
  fo_large_custom_options_offset :: nat
  fo_large_custom_options_size :: nat

record SubGraph =
  fs_tensors :: "Tensor list option"
  fs_inputs :: "int list option"
  fs_outputs :: "int list option"
  fs_operators :: "Operator list option"
  fs_name :: "string option"

record SignatureDefTable =
  fg_inputs :: "(string option \<times> int) list option"
  fg_outputs :: "(string option \<times> int) list option"
  fg_signature_key :: "string option"
  fg_subgraph_index :: int

record Model =
  fm_version :: nat
  fm_operator_codes :: "OperatorCode list option"
  fm_subgraphs :: "SubGraph list option"
  fm_buffers :: "Buffer list option"
  fm_signature_defs :: "SignatureDefTable option list option"

section \<open>The builder\<close>

text \<open>The memory of the file is given by its address and size, if the model comes from a file or buffer.\<close>

record InterpreterBuilder =
  ib_model :: "Model option"
  ib_op_resolver :: OpResolver
  ib_delegates :: "nat list"
  ib_metadata :: "string \<Rightarrow> string option"
  ib_registrations :: "TfLiteRegistration list"
  ib_allocation :: "(nat \<times> nat) option"
  ib_has_flex_op :: bool
  ib_num_fp32_tensors :: nat
  ib_num_threads :: int
  ib_options :: InterpreterOptions

record build_env =
  be_parse_op_data :: "Operator \<Rightarrow> int \<Rightarrow> TfLiteStatus \<times> nat"
  be_control_dependencies :: "string \<Rightarrow> ControlEdge list list option"
  be_flex_delegate :: nat
  be_delegate_creators :: "nat list"

definition default_options :: InterpreterOptions where
  "default_options = \<lparr>io_preserve_all_tensors = False, io_ensure_dynamic_tensors_are_released = False,
     io_dynamic_allocation_for_large_tensors = 0, io_disable_delegate_clustering = False,
     io_use_signature_tensor_names = False, io_compress_quantization_zero_points = False\<rparr>"

definition new_builder ::
    "Model option \<Rightarrow> OpResolver \<Rightarrow> InterpreterOptions option \<Rightarrow> (string \<Rightarrow> string option) \<Rightarrow> (nat \<times> nat) option \<Rightarrow>
     InterpreterBuilder" where
  "new_builder model op_resolver options metadata allocation = \<lparr>ib_model = model, ib_op_resolver = op_resolver,
     ib_delegates = [], ib_metadata = metadata, ib_registrations = [], ib_allocation = allocation, ib_has_flex_op = False,
     ib_num_fp32_tensors = 0, ib_num_threads = -1,
     ib_options = (case options of None \<Rightarrow> default_options | Some opts \<Rightarrow> opts)\<rparr>"

definition ib_AddDelegate :: "nat \<Rightarrow> InterpreterBuilder \<Rightarrow> InterpreterBuilder" where
  "ib_AddDelegate delegate b = (if delegate = 0 then b else b\<lparr>ib_delegates := ib_delegates b @ [delegate]\<rparr>)"

definition ib_SetNumThreads :: "int \<Rightarrow> InterpreterBuilder \<Rightarrow> TfLiteStatus \<times> InterpreterBuilder" where
  "ib_SetNumThreads num_threads b =
     (if num_threads < -1 then (kTfLiteError, b) else (kTfLiteOk, b\<lparr>ib_num_threads := num_threads\<rparr>))"

section \<open>Registrations\<close>

definition CreateUnresolvedCustomOp :: "runtime \<Rightarrow> string \<Rightarrow> TfLiteRegistration" where
  "CreateUnresolvedCustomOp K name = empty_registration\<lparr>rg_invoke := rt_unresolved_invoke K,
     rg_builtin_code := kTfLiteBuiltinCustom, rg_custom_name := Some name, rg_version := 1\<rparr>"

definition IsFlexOp :: "string \<Rightarrow> bool" where
  "IsFlexOp custom_name \<longleftrightarrow> take 4 custom_name = ''Flex''"

fun map_opcodes :: "runtime \<Rightarrow> OperatorCode list \<Rightarrow> InterpreterBuilder \<Rightarrow> TfLiteStatus \<times> InterpreterBuilder" where
  "map_opcodes K [] b = (kTfLiteOk, b)"
| "map_opcodes K (opcode # opcodes) b =
     (case GetRegistrationFromOpCode opcode (ib_op_resolver b) of
        (kTfLiteOk, Some reg) \<Rightarrow> map_opcodes K opcodes (b\<lparr>ib_registrations := ib_registrations b @ [reg]\<rparr>)
      | (status, _) \<Rightarrow>
         (if GetBuiltinCode opcode \<noteq> kTfLiteBuiltinCustom then (status, b)
          else (case oc_custom_code opcode of
              None \<Rightarrow> (status, b)
            | Some name \<Rightarrow> map_opcodes K opcodes
                (b\<lparr>ib_registrations := ib_registrations b @ [CreateUnresolvedCustomOp K name],
                   ib_has_flex_op := ib_has_flex_op b \<or> IsFlexOp name\<rparr>))))"

definition BuildLocalIndexToRegistrationMapping ::
    "runtime \<Rightarrow> Model \<Rightarrow> InterpreterBuilder \<Rightarrow> TfLiteStatus \<times> InterpreterBuilder" where
  "BuildLocalIndexToRegistrationMapping K model b =
     (let b = b\<lparr>ib_registrations := []\<rparr>
      in case fm_operator_codes model of None \<Rightarrow> (kTfLiteOk, b) | Some opcodes \<Rightarrow> map_opcodes K opcodes b)"

section \<open>Nodes\<close>

definition FlatBufferIntArrayToVector :: "int list option \<Rightarrow> int list" where
  "FlatBufferIntArrayToVector flat_array = (case flat_array of None \<Rightarrow> [] | Some xs \<Rightarrow> xs)"

text \<open>The data for the initialization of a custom operator: in the file, or outside of the tables of the file.\<close>

definition custom_data :: "InterpreterBuilder \<Rightarrow> Operator \<Rightarrow> (nat \<times> nat) option" where
  "custom_data b op = (case fo_custom_options op of
     Some data \<Rightarrow> Some data
   | None \<Rightarrow> (case ib_allocation b of
       None \<Rightarrow> Some (0, 0)
     | Some (base, bytes) \<Rightarrow>
        (if fo_large_custom_options_offset op > 1
         then (if size_add (fo_large_custom_options_offset op) (fo_large_custom_options_size op) > bytes then None
               else Some (size_add base (fo_large_custom_options_offset op), fo_large_custom_options_size op))
         else Some (0, 0))))"

text \<open>The result of adding a node is not looked at.\<close>

definition add_operator_node ::
    "runtime \<Rightarrow> Operator \<Rightarrow> nat \<Rightarrow> nat \<Rightarrow> nat \<Rightarrow> TfLiteRegistration \<Rightarrow> Subgraph \<Rightarrow> Subgraph" where
  "add_operator_node K op init_data init_data_size builtin_data reg s =
     snd (snd (AddNodeWithParameters K (FlatBufferIntArrayToVector (fo_inputs op)) (FlatBufferIntArrayToVector (fo_outputs op))
       (FlatBufferIntArrayToVector (fo_intermediates op)) init_data init_data_size builtin_data reg s))"

fun ParseNodes ::
    "runtime \<Rightarrow> build_env \<Rightarrow> InterpreterBuilder \<Rightarrow> TfLiteStatus \<Rightarrow> Operator list \<Rightarrow> Subgraph \<Rightarrow> TfLiteStatus \<times> Subgraph" where
  "ParseNodes K B b status [] s = (status, s)"
| "ParseNodes K B b status (op # ops) s =
     (let index = wrap_i32 (int (fo_opcode_index op)) in
      if index < 0 \<or> nat index \<ge> length (ib_registrations b) then ParseNodes K B b kTfLiteError ops s
      else
        (let reg = ib_registrations b ! nat index in
         if rg_builtin_code reg = kTfLiteBuiltinCustom
         then (case custom_data b op of
             None \<Rightarrow> (kTfLiteError, s)
           | Some (init_data, init_data_size) \<Rightarrow>
               ParseNodes K B b status ops (add_operator_node K op init_data init_data_size 0 reg s))
         else (case be_parse_op_data B op (rg_builtin_code reg) of (st, builtin_data) \<Rightarrow>
             if st \<noteq> kTfLiteOk then (st, s)
             else ParseNodes K B b status ops (add_operator_node K op 0 0 builtin_data reg s))))"

section \<open>Quantization and sparsity\<close>

text \<open>The zero points of the file have 64 bits and are stored with 32.\<close>

definition affine_parameters :: "bool \<Rightarrow> float32 list \<Rightarrow> int list \<Rightarrow> int \<Rightarrow> TfLiteQuantization" where
  "affine_parameters compress scales zero_points quantized_dimension =
     (let zero_point = wrap_i32 (zero_points ! 0);
          all_zero_points_same = (compress \<and> zero_points \<noteq> [] \<and> list_all (\<lambda>z. z = zero_point) (tl zero_points))
      in kTfLiteAffineQuantization (Some scales)
           (Some (if all_zero_points_same then [zero_point] else map wrap_i32 zero_points)) quantized_dimension)"

definition ParseQuantization ::
    "InterpreterBuilder \<Rightarrow> QuantizationParameters option \<Rightarrow> int list \<Rightarrow> TfLiteStatus \<times> TfLiteQuantization" where
  "ParseQuantization b src dims = (case src of
     None \<Rightarrow> (kTfLiteOk, kTfLiteNoQuantization)
   | Some q \<Rightarrow> (case fq_blockwise q of
       Some (scales, zero_points, block_size) \<Rightarrow>
         (kTfLiteOk, kTfLiteBlockwiseQuantization scales zero_points block_size (fq_quantized_dimension q))
     | None \<Rightarrow> (case fq_scale q of
         None \<Rightarrow> (kTfLiteOk, kTfLiteNoQuantization)
       | Some scales \<Rightarrow>
          if scales = [] then (kTfLiteOk, kTfLiteNoQuantization)
          else (case fq_zero_point q of
            None \<Rightarrow> (kTfLiteError, kTfLiteNoQuantization)
          | Some zero_points \<Rightarrow>
             if length scales \<noteq> length zero_points then (kTfLiteError, kTfLiteNoQuantization)
             else if fq_quantized_dimension q < 0 \<or>
                     dims \<noteq> [] \<and> nat (fq_quantized_dimension q) \<ge> length dims then (kTfLiteError, kTfLiteNoQuantization)
             else if length scales \<noteq> 1 \<and> dims \<noteq> [] \<and>
                     length scales \<noteq> size_of_int (dims ! nat (fq_quantized_dimension q)) then (kTfLiteError, kTfLiteNoQuantization)
             else (kTfLiteOk, affine_parameters (io_compress_quantization_zero_points (ib_options b)) scales zero_points
                     (fq_quantized_dimension q))))))"

definition Copy_vector :: "SparseIndexVector \<Rightarrow> int list option" where
  "Copy_vector v = (case v of
     SparseIndexVector_NONE \<Rightarrow> None
   | SparseIndexVector_Int32Vector xs \<Rightarrow> xs
   | SparseIndexVector_Uint16Vector xs \<Rightarrow> xs
   | SparseIndexVector_Uint8Vector xs \<Rightarrow> xs)"

definition ParseSparseIndexVector ::
    "DimensionMetadata \<Rightarrow> TfLiteDimensionMetadata \<Rightarrow> TfLiteStatus \<times> TfLiteDimensionMetadata" where
  "ParseSparseIndexVector src tgt =
     (if fd_array_segments src = SparseIndexVector_NONE \<or> fd_array_indices src = SparseIndexVector_NONE then (kTfLiteError, tgt)
      else case Copy_vector (fd_array_segments src) of
        None \<Rightarrow> (kTfLiteError, tgt)
      | Some segments \<Rightarrow> (case Copy_vector (fd_array_indices src) of
          None \<Rightarrow> (kTfLiteError, tgt\<lparr>dm_array_segments := Some segments\<rparr>)
        | Some indices \<Rightarrow> (kTfLiteOk, tgt\<lparr>dm_array_segments := Some segments, dm_array_indices := Some indices\<rparr>)))"

definition no_metadata :: TfLiteDimensionMetadata where
  "no_metadata = \<lparr>dm_format = kTfLiteDimDense, dm_dense_size = 0, dm_array_segments = None, dm_array_indices = None\<rparr>"

text \<open>The dimensions parsed so far are in \<open>parsed\<close>; the rest of the array is zero when one of them is wrong.\<close>

fun parse_dimensions ::
    "TfLiteDimensionMetadata list \<Rightarrow> DimensionMetadata list \<Rightarrow> TfLiteStatus \<times> TfLiteDimensionMetadata list" where
  "parse_dimensions parsed [] = (kTfLiteOk, parsed)"
| "parse_dimensions parsed (src # srcs) =
     (let rest = replicate (length srcs) no_metadata in
      if fd_format src \<noteq> 0 \<and> fd_format src \<noteq> 1 then (kTfLiteError, parsed @ no_metadata # rest)
      else if fd_format src = 0 then parse_dimensions (parsed @ [no_metadata\<lparr>dm_dense_size := fd_dense_size src\<rparr>]) srcs
      else (case ParseSparseIndexVector src (no_metadata\<lparr>dm_format := kTfLiteDimSparseCSR\<rparr>) of (st, tgt) \<Rightarrow>
              if st \<noteq> kTfLiteOk then (kTfLiteError, parsed @ tgt # rest) else parse_dimensions (parsed @ [tgt]) srcs))"

definition ParseSparsity :: "SparsityParameters option \<Rightarrow> TfLiteStatus \<times> TfLiteSparsity option" where
  "ParseSparsity src_sparsity = (case src_sparsity of
     None \<Rightarrow> (kTfLiteOk, None)
   | Some src \<Rightarrow> (case (fp_traversal_order src, fp_dim_metadata src) of
       (Some order, Some metadata) \<Rightarrow> (case parse_dimensions [] metadata of (st, dims) \<Rightarrow>
          (st, Some \<lparr>sp_traversal_order = Some order, sp_block_map = fp_block_map src, sp_dim_metadata = dims\<rparr>))
     | _ \<Rightarrow> (kTfLiteError, None)))"

section \<open>Tensors\<close>

text \<open>The values of the enumeration of element types.\<close>

definition ConvertTensorType :: "int \<Rightarrow> TfLiteStatus \<times> TfLiteType" where
  "ConvertTensorType tensor_type =
     (let types = [kTfLiteFloat32, kTfLiteFloat16, kTfLiteInt32, kTfLiteUInt8, kTfLiteInt64, kTfLiteString, kTfLiteBool,
        kTfLiteInt16, kTfLiteComplex64, kTfLiteInt8, kTfLiteFloat64, kTfLiteComplex128, kTfLiteUInt64, kTfLiteResource,
        kTfLiteVariant, kTfLiteUInt32, kTfLiteUInt16, kTfLiteInt4, kTfLiteBFloat16, kTfLiteInt2, kTfLiteUInt4]
      in if 0 \<le> tensor_type \<and> nat tensor_type < length types then (kTfLiteOk, types ! nat tensor_type)
         else (kTfLiteError, kTfLiteNoType))"

text \<open>The address and size of a tensor's constant data; address 0 when it has none.\<close>

definition get_readonly_data :: "InterpreterBuilder \<Rightarrow> Buffer list \<Rightarrow> Tensor \<Rightarrow> TfLiteStatus \<times> nat \<times> nat" where
  "get_readonly_data b buffers tensor =
     (if ft_buffer tensor = 0 then (kTfLiteOk, 0, 0)
      else if ft_buffer tensor \<ge> length buffers then (kTfLiteError, 0, 0)
      else
        (let buffer = buffers ! ft_buffer tensor in
         case fb_array buffer of
           Some (address, n) \<Rightarrow> (kTfLiteOk, address, n)
         | None \<Rightarrow> (case ib_allocation b of
             None \<Rightarrow> (kTfLiteOk, 0, 0)
           | Some (base, bytes) \<Rightarrow>
              (if fb_offset buffer > 1
               then (if size_add (fb_offset buffer) (fb_size buffer) > bytes then (kTfLiteError, 0, 0)
                     else (kTfLiteOk, size_add base (fb_offset buffer), fb_size buffer))
               else (kTfLiteOk, 0, 0)))))"

definition worse :: "TfLiteStatus \<Rightarrow> TfLiteStatus \<Rightarrow> TfLiteStatus" where
  "worse status st = (if st \<noteq> kTfLiteOk then kTfLiteError else status)"

definition allocation_address :: "InterpreterBuilder \<Rightarrow> nat" where
  "allocation_address b = (case ib_allocation b of None \<Rightarrow> 0 | Some (base, _) \<Rightarrow> base)"

text \<open>The parameters of a tensor whose data, quantization and type are known.\<close>

definition set_tensor ::
    "InterpreterBuilder \<Rightarrow> int \<Rightarrow> Tensor \<Rightarrow> TfLiteType \<Rightarrow> TfLiteQuantization \<Rightarrow> nat \<Rightarrow> nat \<Rightarrow> Subgraph \<Rightarrow>
     TfLiteStatus \<times> Subgraph" where
  "set_tensor b i tensor type quantization buffer_ptr buffer_size s =
     (let name = (case ft_name tensor of None \<Rightarrow> [] | Some name \<Rightarrow> name);
          dims = FlatBufferIntArrayToVector (ft_shape tensor)
      in if buffer_ptr \<noteq> 0
         then (case ParseSparsity (ft_sparsity tensor) of (st, sparsity) \<Rightarrow>
               (case SetTensorParametersReadOnly i type name dims quantization buffer_ptr buffer_size (allocation_address b)
                       sparsity (ft_buffer tensor) (ft_external_buffer tensor) s of (st', s1) \<Rightarrow>
                 (worse (worse (if ft_is_variable tensor \<or> ft_external_buffer tensor \<noteq> 0 then kTfLiteError else kTfLiteOk) st) st',
                  s1)))
         else SetTensorParametersReadWrite i type name dims quantization (ft_is_variable tensor)
                (FlatBufferIntArrayToVector (ft_shape_signature tensor)) (ft_external_buffer tensor) s)"

fun parse_tensors ::
    "InterpreterBuilder \<Rightarrow> Buffer list \<Rightarrow> TfLiteStatus \<Rightarrow> int \<Rightarrow> Tensor list \<Rightarrow> Subgraph \<Rightarrow>
     TfLiteStatus \<times> InterpreterBuilder \<times> Subgraph" where
  "parse_tensors b buffers status i [] s = (status, b, s)"
| "parse_tensors b buffers status i (tensor # tensors) s =
     (case ConvertTensorType (ft_type tensor) of (st, type) \<Rightarrow>
       if st \<noteq> kTfLiteOk then parse_tensors b buffers kTfLiteError (i + 1) tensors s
       else
         (let b1 = (if type = kTfLiteFloat32 then b\<lparr>ib_num_fp32_tensors := ib_num_fp32_tensors b + 1\<rparr> else b) in
          case get_readonly_data b1 buffers tensor of (st, buffer_ptr, buffer_size) \<Rightarrow>
            if st \<noteq> kTfLiteOk then (st, b1, s)
            else (case ParseQuantization b1 (ft_quantization tensor) (FlatBufferIntArrayToVector (ft_shape tensor)) of
                (st1, quantization) \<Rightarrow>
                 (case set_tensor b1 i tensor type quantization buffer_ptr buffer_size s of (st2, s1) \<Rightarrow>
                    parse_tensors b1 buffers (worse (worse status st1) st2) (i + 1) tensors s1))))"

definition ParseTensors ::
    "InterpreterBuilder \<Rightarrow> Buffer list \<Rightarrow> Tensor list \<Rightarrow> Subgraph \<Rightarrow> TfLiteStatus \<times> InterpreterBuilder \<times> Subgraph" where
  "ParseTensors b buffers tensors s = parse_tensors (b\<lparr>ib_num_fp32_tensors := 0\<rparr>) buffers kTfLiteOk 0 tensors s"

section \<open>Subgraphs\<close>

definition find_variables :: "Subgraph \<Rightarrow> int list" where
  "find_variables s = map int (filter (\<lambda>i. t_is_variable (sg_tensors s ! i)) [0..<length (sg_tensors s)])"

text \<open>One subgraph; the results of setting inputs, outputs and variables are not looked at.\<close>

definition parse_subgraph ::
    "runtime \<Rightarrow> build_env \<Rightarrow> Buffer list \<Rightarrow> SubGraph \<Rightarrow> InterpreterBuilder \<Rightarrow> Subgraph \<Rightarrow>
     TfLiteStatus \<times> InterpreterBuilder \<times> Subgraph" where
  "parse_subgraph K B buffers graph b s = (case fs_tensors graph of
     None \<Rightarrow> (kTfLiteError, b, s)
   | Some tensors \<Rightarrow> (case AddTensors (int (length tensors)) s of (st, _, s) \<Rightarrow>
       if st \<noteq> kTfLiteOk then (kTfLiteError, b, s)
       else
         (let s = snd (SetInputs (FlatBufferIntArrayToVector (fs_inputs graph)) s);
              s = snd (SetOutputs (FlatBufferIntArrayToVector (fs_outputs graph)) s)
          in case ParseTensors b buffers tensors s of (st, b, s) \<Rightarrow>
               if st \<noteq> kTfLiteOk then (kTfLiteError, b, s)
               else (case (case fs_operators graph of None \<Rightarrow> (kTfLiteOk, s) | Some ops \<Rightarrow> ParseNodes K B b kTfLiteOk ops s) of
                 (st, s) \<Rightarrow>
                   if st \<noteq> kTfLiteOk then (kTfLiteError, b, s)
                   else
                     (let s = snd (SetVariables (find_variables s) s)
                      in (kTfLiteOk, b, case fs_name graph of None \<Rightarrow> s | Some name \<Rightarrow> SetName (Some name) s))))))"

fun parse_subgraphs ::
    "runtime \<Rightarrow> build_env \<Rightarrow> Buffer list \<Rightarrow> (SubGraph \<times> Subgraph) list \<Rightarrow> InterpreterBuilder \<Rightarrow>
     TfLiteStatus \<times> InterpreterBuilder \<times> Subgraph list" where
  "parse_subgraphs K B buffers [] b = (kTfLiteOk, b, [])"
| "parse_subgraphs K B buffers ((graph, s) # rest) b = (case parse_subgraph K B buffers graph b s of (st, b, t) \<Rightarrow>
     if st \<noteq> kTfLiteOk then (st, b, t # map snd rest)
     else (case parse_subgraphs K B buffers rest b of (st, b, ts) \<Rightarrow> (st, b, t # ts)))"

section \<open>Signatures and metadata\<close>

text \<open>A \<open>std::map\<close> is a list in the order of its keys.\<close>

fun map_insert :: "string \<Rightarrow> 'v \<Rightarrow> (string \<times> 'v) list \<Rightarrow> (string \<times> 'v) list" where
  "map_insert k v [] = [(k, v)]"
| "map_insert k v ((k', v') # m) =
     (if k < k' then (k, v) # (k', v') # m else if k = k' then (k, v) # m else (k', v') # map_insert k v m)"

definition GetMapFromTensorMap :: "(string option \<times> int) list option \<Rightarrow> (string \<times> int) list" where
  "GetMapFromTensorMap tensor_map = (case tensor_map of
     None \<Rightarrow> []
   | Some ts \<Rightarrow> fold (\<lambda>(name, index) m. case name of None \<Rightarrow> m | Some k \<Rightarrow> map_insert k index m) ts [])"

fun parse_signatures :: "SignatureDefTable option list \<Rightarrow> SignatureDef list option" where
  "parse_signatures [] = Some []"
| "parse_signatures (g # gs) = (case g of
     None \<Rightarrow> None
   | Some fg \<Rightarrow> (case fg_signature_key fg of
       None \<Rightarrow> None
     | Some key \<Rightarrow>
        (if fg_inputs fg = None \<or> fg_outputs fg = None then None
         else map_option (\<lambda>defs. \<lparr>sd_inputs = GetMapFromTensorMap (fg_inputs fg), sd_outputs = GetMapFromTensorMap (fg_outputs fg),
                sd_signature_key = key, sd_subgraph_index = fg_subgraph_index fg\<rparr> # defs) (parse_signatures gs))))"

definition ParseSignatureDefs :: "SignatureDefTable option list option \<Rightarrow> Interpreter \<Rightarrow> TfLiteStatus \<times> Interpreter" where
  "ParseSignatureDefs signature_def_list I = (case signature_def_list of
     None \<Rightarrow> (kTfLiteOk, I)
   | Some gs \<Rightarrow>
      (if gs = [] then (kTfLiteOk, I)
       else (case parse_signatures gs of
           None \<Rightarrow> (kTfLiteError, I) | Some defs \<Rightarrow> (kTfLiteOk, I\<lparr>it_signature_defs := defs\<rparr>))))"

text \<open>
  Names of the signatures for the tensors. Neither the subgraph nor the tensor is checked to exist: a null pointer would be
  written through, which is flagged.
\<close>

definition name_tensor :: "int \<Rightarrow> string \<times> int \<Rightarrow> Interpreter \<Rightarrow> Interpreter" where
  "name_tensor g name_index I =
     (let i = wrap_i32 (snd name_index) in
      if 0 \<le> g \<and> nat g < length (it_subgraphs I) \<and> tensor_index_in i (it_subgraphs I ! nat g)
      then I\<lparr>it_subgraphs := (it_subgraphs I)[nat g := put_tensor i
             ((sg_tensors (it_subgraphs I ! nat g) ! nat i)\<lparr>t_name := fst name_index\<rparr>) (it_subgraphs I ! nat g)]\<rparr>
      else set_primary (flag_access (primary_subgraph I)) I)"

definition use_signature_names :: "Interpreter \<Rightarrow> Interpreter" where
  "use_signature_names I = fold (\<lambda>d. fold (name_tensor (wrap_i32 (sd_subgraph_index d))) (sd_inputs d @ sd_outputs d))
     (it_signature_defs I) I"

text \<open>There may be fewer lists of control dependencies than subgraphs; the code reads past their end, which is flagged.\<close>

definition it_SetMetadata :: "build_env \<Rightarrow> (string \<Rightarrow> string option) \<Rightarrow> Interpreter \<Rightarrow> TfLiteStatus \<times> Interpreter" where
  "it_SetMetadata B metadata I =
     (let deps = (case metadata ''model_control_dependencies'' of
            None \<Rightarrow> [] | Some text \<Rightarrow> (case be_control_dependencies B text of None \<Rightarrow> [] | Some deps \<Rightarrow> deps));
          set_at = (\<lambda>i s.
            if deps = [] then snd (SetMetadata (Some metadata) None s)
            else if i < length deps then snd (SetMetadata (Some metadata) (Some (deps ! i)) s)
            else flag_access (snd (SetMetadata (Some metadata) None s)))
      in (kTfLiteOk, I\<lparr>it_subgraphs := map (\<lambda>(i, s). set_at i s) (enumerate 0 (it_subgraphs I))\<rparr>))"

section \<open>Building\<close>

definition ShouldCreateLazyDelegateProviders :: "nat \<Rightarrow> bool" where
  "ShouldCreateLazyDelegateProviders num_fp32_tensors \<longleftrightarrow> num_fp32_tensors > 0"

definition ApplyDelegates :: "nat \<Rightarrow> runtime \<Rightarrow> build_env \<Rightarrow> InterpreterBuilder \<Rightarrow> Interpreter \<Rightarrow> (TfLiteStatus \<times> Interpreter) option" where
  "ApplyDelegates n K B b I =
     run_status
       (if ib_has_flex_op b \<and> be_flex_delegate B \<noteq> 0
        then it_ModifyGraphWithDelegate n K (be_flex_delegate B)
               (I\<lparr>it_owned_delegates := it_owned_delegates I @ [be_flex_delegate B]\<rparr>)
        else Some (kTfLiteOk, I))
       (run_each (it_ModifyGraphWithDelegate n K) (ib_delegates b))"

text \<open>The interpreter after its subgraphs were made, and after they were filled.\<close>

definition fresh_interpreter :: "nat \<Rightarrow> InterpreterBuilder \<Rightarrow> Interpreter" where
  "fresh_interpreter n b =
     (let I = (if n > 1 then snd (AddSubgraphs (int n - 1) new_interpreter) else new_interpreter)
      in snd (ApplyOptionsImpl (Some (ib_options b)) (snd (SetNumThreads (ib_num_threads b) I))))"

definition describe_interpreter :: "build_env \<Rightarrow> InterpreterBuilder \<Rightarrow> Interpreter \<Rightarrow> Interpreter" where
  "describe_interpreter B b I =
     (let I = (if io_use_signature_tensor_names (ib_options b) then use_signature_names I else I);
          I = snd (it_SetMetadata B (ib_metadata b) I)
      in if ShouldCreateLazyDelegateProviders (ib_num_fp32_tensors b)
         then I\<lparr>it_lazy_delegate_providers := be_delegate_creators B\<rparr> else I)"

definition finish_interpreter ::
    "nat \<Rightarrow> runtime \<Rightarrow> build_env \<Rightarrow> Model \<Rightarrow> InterpreterBuilder \<Rightarrow> Interpreter \<Rightarrow> (TfLiteStatus \<times> Interpreter option) option" where
  "finish_interpreter n K B model b I = (case ParseSignatureDefs (fm_signature_defs model) I of (st, I) \<Rightarrow>
     if st \<noteq> kTfLiteOk then Some (kTfLiteError, None)
     else (case ApplyDelegates n K B b (describe_interpreter B b I) of
         None \<Rightarrow> None
       | Some (st, I) \<Rightarrow>
          (if st \<noteq> kTfLiteOk then Some (st, None)
           else Some (kTfLiteOk, Some (if io_dynamic_allocation_for_large_tensors (ib_options b) \<noteq> 0
                  then snd (ApplyOptionsImpl (Some (ib_options b)) I) else I)))))"

text \<open>
  The call operator. A model without the vector of subgraphs makes the code read through a null pointer: the last component is
  whether that happens.
\<close>

definition build ::
    "nat \<Rightarrow> runtime \<Rightarrow> build_env \<Rightarrow> InterpreterBuilder \<Rightarrow>
     ((TfLiteStatus \<times> Interpreter option) \<times> InterpreterBuilder \<times> bool) option" where
  "build n K B b = (case ib_model b of
     None \<Rightarrow> Some ((kTfLiteError, None), b, False)
   | Some model \<Rightarrow>
      if fm_version model \<noteq> 3 then Some ((kTfLiteError, None), b, False)
      else (case BuildLocalIndexToRegistrationMapping K model b of (st, b) \<Rightarrow>
        if st \<noteq> kTfLiteOk then Some ((kTfLiteError, None), b, False)
        else (case fm_subgraphs model of
            None \<Rightarrow> Some ((kTfLiteError, None), b, True)
          | Some subgraphs \<Rightarrow>
             if subgraphs = [] then Some ((kTfLiteError, None), b, False)
             else (case fm_buffers model of
                 None \<Rightarrow> Some ((kTfLiteError, None), b, False)
               | Some buffers \<Rightarrow>
                  (let I = fresh_interpreter (length subgraphs) b in
                   case parse_subgraphs K B buffers (zip subgraphs (it_subgraphs I)) b of (st, b, ss) \<Rightarrow>
                     if st \<noteq> kTfLiteOk then Some ((kTfLiteError, None), b, False)
                     else map_option (\<lambda>r. (r, b, False)) (finish_interpreter n K B model b (I\<lparr>it_subgraphs := ss\<rparr>)))))))"

definition build_with_threads ::
    "nat \<Rightarrow> runtime \<Rightarrow> build_env \<Rightarrow> int \<Rightarrow> InterpreterBuilder \<Rightarrow>
     ((TfLiteStatus \<times> Interpreter option) \<times> InterpreterBuilder \<times> bool) option" where
  "build_with_threads n K B num_threads b = (case ib_SetNumThreads num_threads b of (st, b) \<Rightarrow>
     if st \<noteq> kTfLiteOk then Some ((st, None), b, False) else build n K B b)"

section \<open>The graphs of a built interpreter\<close>

lemma add_operator_node_wf: "kernels_ok K \<Longrightarrow> keeps_wf s (add_operator_node K op d n b reg s)"
  by (simp add: keeps_wf_def add_operator_node_def AddNodeWithParameters_wf)

lemma ParseNodes_wf:
  assumes "kernels_ok K" shows "keeps_wf s (snd (ParseNodes K B b status ops s))"
proof (induction ops arbitrary: status s)
  case (Cons op ops)
  have "keeps_wf s (snd (ParseNodes K B b status ops (add_operator_node K op d n x reg s)))" for status d n x reg
    by (rule wf.frame_trans [OF add_operator_node_wf [OF assms] Cons])
  then show ?case using Cons by (simp add: Let_def wf.frame_refl split: option.split prod.split)
qed (simp add: wf.frame_refl)

lemma set_tensor_wf: "keeps_wf s (snd (set_tensor b i tensor type q p n s))"
  by (simp add: set_tensor_def Let_def case_prod_unfold same_keeps SetTensorParametersReadOnly_same
      SetTensorParametersReadWrite_same)

lemma parse_tensors_wf: "keeps_wf s (snd (snd (parse_tensors b buffers status i tensors s)))"
proof (induction tensors arbitrary: b status i s)
  case (Cons tensor tensors)
  have "keeps_wf s (snd (snd (parse_tensors b' buffers status' j tensors (snd (set_tensor b' i tensor type q p n s)))))"
    for b' status' j type q p n
    by (rule wf.frame_trans [OF set_tensor_wf Cons])
  then show ?case using Cons by (simp add: Let_def case_prod_unfold wf.frame_refl)
qed (simp add: wf.frame_refl)

lemma parse_subgraph_wf:
  assumes "kernels_ok K" shows "keeps_wf s (snd (snd (parse_subgraph K B buffers graph b s)))"
proof -
  have i: "keeps_wf t (snd (SetInputs xs t))" "keeps_wf t (snd (SetOutputs xs t))" "keeps_wf t (snd (SetVariables xs t))" for xs t
    by (simp_all add: keeps_wf_def index_setters_wf)
  have n: "keeps_wf t (SetName x t)" for x t by (simp add: keeps_wf_def sg_wf_def SetName_def)
  note steps = i n ParseNodes_wf [OF assms, unfolded keeps_wf_def] parse_tensors_wf [unfolded keeps_wf_def]
    same_graph_wf [OF AddTensors_same]
  show ?thesis unfolding keeps_wf_def
    by (auto simp: parse_subgraph_def ParseTensors_def Let_def case_prod_unfold split: option.split
        intro!: steps [unfolded keeps_wf_def, rule_format])
qed

lemma parse_subgraphs_wf:
  assumes "kernels_ok K"
  shows "\<forall>(g, s)\<in>set xs. sg_wf s \<Longrightarrow>
    (\<forall>s\<in>set (snd (snd (parse_subgraphs K B buffers xs b))). sg_wf s) \<and>
    length (snd (snd (parse_subgraphs K B buffers xs b))) = length xs"
proof (induction xs arbitrary: b)
  case (Cons x xs)
  obtain g s where x: "x = (g, s)" by (cases x)
  obtain st b1 t where p: "parse_subgraph K B buffers g b s = (st, b1, t)" by (cases "parse_subgraph K B buffers g b s")
  have t: "sg_wf t" using parse_subgraph_wf [OF assms, of s B buffers g b] p Cons.prems x by (simp add: keeps_wf_def)
  obtain st' b2 ts where q: "parse_subgraphs K B buffers xs b1 = (st', b2, ts)" by (cases "parse_subgraphs K B buffers xs b1")
  show ?case using Cons.IH [of b1] Cons.prems t q by (auto simp: x p)
qed simp

lemma name_tensor_keeps: "it_keeps I (name_tensor g x I)"
proof (cases "0 \<le> g \<and> nat g < length (it_subgraphs I) \<and> tensor_index_in (wrap_i32 (snd x)) (it_subgraphs I ! nat g)")
  case True
  have "sg_wf (put_tensor i y (it_subgraphs I ! nat g))" if "it_wf I" for i y
    using that True same_graph_wf [OF put_tensor_same] by (simp add: it_wf_def)
  then show ?thesis using True
    by (auto simp: name_tensor_def it_keeps_def it_wf_def Let_def dest: set_update_subset_insert [THEN subsetD])
next
  case False
  then have "name_tensor g x I = set_primary (flag_access (primary_subgraph I)) I"
    unfolding name_tensor_def Let_def by (rule if_not_P)
  then show ?thesis by (simp add: set_primary_keeps same_keeps kernel_same flag_access_frame)
qed

lemma use_signature_names_keeps: "it_keeps I (use_signature_names I)"
  unfolding use_signature_names_def by (intro it.fold_frame name_tensor_keeps)

lemma it_SetMetadata_keeps: "it_keeps I (snd (it_SetMetadata B metadata I))"
proof -
  have "keeps_wf s (snd (SetMetadata m e s))" "keeps_wf s (flag_access (snd (SetMetadata m e s)))" for m e s
    by (simp_all add: SetMetadata_def flag_access_def keeps_wf_def sg_wf_def)
  moreover have "enumerate 0 ss = [] \<longleftrightarrow> ss = []" for ss :: "Subgraph list"
    by (metis length_enumerate length_0_conv)
  ultimately show ?thesis
    by (auto simp: it_SetMetadata_def Let_def it_keeps_def it_wf_def keeps_wf_def in_set_enumerate_eq)
qed

lemma ParseSignatureDefs_keeps: "it_keeps I (snd (ParseSignatureDefs gs I))"
  by (simp add: ParseSignatureDefs_def it_keeps_def it_wf_def split: option.split)

lemma ApplyDelegates_runs:
  assumes "kernels_ok K" "delegates_ok K" shows "it.runs I (ApplyDelegates n K B b I)"
  unfolding ApplyDelegates_def
  by (intro it.run_status_runs it.runs_if it.runs_ret it.run_each_runs it_ModifyGraph_runs assms
      it_runs_trans [OF it_keeps_fields(1) it_ModifyGraph_runs])

lemma fresh_interpreter_wf: "it_wf (fresh_interpreter n b)"
proof -
  have "it_keeps new_interpreter (fresh_interpreter n b)"
    unfolding fresh_interpreter_def Let_def
    by (simp only: split: if_split)
      (meson it.frame_trans settings_keep(1,2,3))
  then show ?thesis by (simp add: it_keeps_def new_interpreter_wf)
qed

lemma fresh_interpreter_length: "n > 0 \<Longrightarrow> length (it_subgraphs (fresh_interpreter n b)) = n"
  by (simp add: fresh_interpreter_def Let_def new_interpreter_def AddSubgraphs_def SetNumThreads_def ApplyOptionsImpl_def
      nat_diff_distrib)

lemma describe_interpreter_keeps: "it_keeps I (describe_interpreter B b I)"
proof -
  have "it_keeps I (if c then use_signature_names I else I)" for c
    by (simp add: use_signature_names_keeps it.frame_refl)
  note 1 = it.frame_trans [OF this it_SetMetadata_keeps]
  show ?thesis unfolding describe_interpreter_def Let_def
    using 1 it.frame_trans [OF 1 it_keeps_fields(2)] by presburger
qed

lemma finish_interpreter_keeps:
  assumes "kernels_ok K" "delegates_ok K" and "finish_interpreter n K B model b I = Some (st, Some J)"
  shows "it_keeps I J"
proof -
  obtain st1 I1 where p: "ParseSignatureDefs (fm_signature_defs model) I = (st1, I1)"
    by (cases "ParseSignatureDefs (fm_signature_defs model) I")
  have 1: "it_keeps I I1" using ParseSignatureDefs_keeps [of I "fm_signature_defs model"] p by simp
  obtain st2 I2 where a: "ApplyDelegates n K B b (describe_interpreter B b I1) = Some (st2, I2)"
    and J: "J = (if io_dynamic_allocation_for_large_tensors (ib_options b) \<noteq> 0
      then snd (ApplyOptionsImpl (Some (ib_options b)) I2) else I2)"
    using assms(3) p by (auto simp: finish_interpreter_def split: if_splits option.splits)
  have 2: "it_keeps (describe_interpreter B b I1) I2"
    using ApplyDelegates_runs [OF assms(1,2), of "describe_interpreter B b I1" n B b] a by (simp add: it.runs_def)
  have "it_keeps I2 J" using J by (simp add: settings_keep it.frame_refl)
  with 1 2 show ?thesis by (meson it.frame_trans describe_interpreter_keeps)
qed

text \<open>
  Claim C19. Whatever the model file holds, as long as kernels and delegates keep to the interface of the context: the
  interpreter that the builder returns has at least one subgraph, and in each of them every tensor index in the inputs, outputs, variables
  and nodes is valid or the optional tensor and the execution plan names existing nodes.
\<close>

theorem build_valid_graphs:
  assumes "kernels_ok K" "delegates_ok K" and "build n K B b = Some ((st, Some I), b', f)"
  shows "it_subgraphs I \<noteq> [] \<and> (\<forall>s\<in>set (it_subgraphs I). sg_wf s \<and> wf_graph (InterpreterInfo s))"
proof -
  obtain model b1 subgraphs buffers b2 ss where
    sg: "subgraphs \<noteq> []" and
    p: "parse_subgraphs K B buffers (zip subgraphs (it_subgraphs (fresh_interpreter (length subgraphs) b1))) b1 =
      (kTfLiteOk, b2, ss)" and
    fin: "finish_interpreter n K B model b2 ((fresh_interpreter (length subgraphs) b1)\<lparr>it_subgraphs := ss\<rparr>) =
      Some (st, Some I)"
    using assms(3) by (auto simp: build_def Let_def split: option.splits if_splits prod.splits)
  let ?I = "fresh_interpreter (length subgraphs) b1"
  let ?xs = "zip subgraphs (it_subgraphs ?I)"
  have wf: "\<forall>s\<in>set (it_subgraphs ?I). sg_wf s" using fresh_interpreter_wf by (simp add: it_wf_def)
  then have "\<forall>(g, s)\<in>set ?xs. sg_wf s" by (auto dest: set_zip_rightD)
  from parse_subgraphs_wf [OF assms(1) this, of B buffers b1] p fresh_interpreter_length [of "length subgraphs" b1] sg
  have "it_wf (?I\<lparr>it_subgraphs := ss\<rparr>)" by (auto simp: it_wf_def)
  then have "it_wf I" using finish_interpreter_keeps [OF assms(1,2) fin] by (simp add: it_keeps_def)
  then show ?thesis by (simp add: it_wf_def InterpreterInfo_wf)
qed

section \<open>Operators and nodes\<close>

text \<open>The result of adding a node is ignored, but a node with wrong indices makes the graph inconsistent.\<close>

definition builds :: "Subgraph \<Rightarrow> Subgraph \<Rightarrow> bool" where
  "builds s t \<longleftrightarrow> graph_shape t = graph_shape s \<and> sg_consistent t = sg_consistent s \<and>
     (sg_state s \<noteq> kStateInvokableAndImmutable \<longrightarrow> sg_state t \<noteq> kStateInvokableAndImmutable)"

interpretation builds: frame builds
  by unfold_locales (auto simp: builds_def)

definition adds_nodes where
  "adds_nodes s ss t \<longleftrightarrow> shapes t = shapes s @ ss \<and>
     sg_execution_plan t = sg_execution_plan s @ map int [length (shapes s)..<length (shapes s) + length ss] \<and>
     sg_inputs t = sg_inputs s \<and> sg_outputs t = sg_outputs s \<and> sg_state t \<noteq> kStateInvokableAndImmutable"

lemma adds_nodes_trans: "adds_nodes s xs t \<Longrightarrow> adds_nodes t ys u \<Longrightarrow> adds_nodes s (xs @ ys) u"
  using upt_add_eq_append [of "length (shapes s)" "length (shapes s) + length xs" "length ys"]
  by (simp add: adds_nodes_def add.assoc)

definition inits_succeed :: "runtime \<Rightarrow> bool" where
  "inits_succeed K \<longleftrightarrow> (\<forall>f d b n s. fst (rt_init K f d b n s) \<noteq> TfLiteKernelInitFailed)"

lemma OpInit_succeeds: "inits_succeed K \<Longrightarrow> fst (OpInit K reg b n s) \<noteq> TfLiteKernelInitFailed"
  by (simp add: inits_succeed_def OpInit_def Let_def)

lemma kernel_frame_fields:
  "kernel_frame s t \<Longrightarrow> sg_consistent t = sg_consistent s \<and> sg_state t = sg_state s \<and> sg_inputs t = sg_inputs s \<and>
     sg_outputs t = sg_outputs s"
  by (simp add: kernel_frame_def graph_mode_def graph_options_def same_graph_def graph_shape_def)

lemma add_node_complete:
  assumes "kernels_ok K" "inits_succeed K" and "add_node K ins outs mids d n b reg s = (st, i, t)"
  shows "st = kTfLiteOk \<and> sg_consistent t = sg_consistent s \<and> sg_state t = sg_state s \<and> sg_inputs t = sg_inputs s \<and>
    sg_outputs t = sg_outputs s"
proof -
  let ?node = "empty_node\<lparr>nd_inputs := ins, nd_outputs := outs, nd_intermediates := mids\<rparr>"
  let ?s1 = "s\<lparr>sg_nodes_and_registration := sg_nodes_and_registration s @ [(?node, empty_registration)]\<rparr>"
  obtain ud s2 where init: "(if d \<noteq> 0 then OpInit K reg d n ?s1 else OpInit K reg b 0 ?s1) = (ud, s2)"
    by (cases "if d \<noteq> 0 then OpInit K reg d n ?s1 else OpInit K reg b 0 ?s1")
  have "kernel_frame ?s1 s2" using init OpInit_frame [OF assms(1), of ?s1] by (metis snd_conv)
  from kernel_frame_fields [OF this] have "sg_consistent s2 = sg_consistent s" "sg_state s2 = sg_state s"
    "sg_inputs s2 = sg_inputs s" "sg_outputs s2 = sg_outputs s" by simp_all
  moreover have "ud \<noteq> TfLiteKernelInitFailed" using init OpInit_succeeds [OF assms(2)] by (metis fst_conv)
  ultimately show ?thesis using assms(3) unfolding add_node_def Let_def init prod.case by auto
qed

lemma checks_state:
  "sg_state (snd (CheckTensorIndices xs s)) = sg_state s" "sg_state (snd (CheckInputAndOutputForOverlap xs ys s)) = sg_state s"
  by (simp_all add: CheckTensorIndices_def CheckInputAndOutputForOverlap_def)

lemma add_operator_node_state:
  assumes "kernels_ok K" "inits_succeed K" and "sg_state s \<noteq> kStateInvokableAndImmutable"
  shows "sg_state (add_operator_node K op d n x reg s) \<noteq> kStateInvokableAndImmutable"
proof -
  have "sg_state (snd (snd (add_node K ins outs mids d n x reg t))) = sg_state t" for ins outs mids t
    using add_node_complete [OF assms(1,2)] by (metis prod.collapse)
  then show ?thesis using assms(3)
    by (simp add: add_operator_node_def AddNodeWithParameters_def ensure_status_def Let_def case_prod_unfold checks_state)
qed

lemma AddNode_complete:
  assumes "kernels_ok K" "inits_succeed K" and "sg_state s \<noteq> kStateInvokableAndImmutable"
    and add: "AddNodeWithParameters K ins outs mids d n b reg s = (st, i, t)" and "sg_consistent t"
  shows "sg_consistent s \<and> adds_nodes s [(ins, outs, 0, reg)] t"
proof -
  let ?s0 = "s\<lparr>sg_state := kStateUninvokable\<rparr>"
  obtain st1 s1 where c: "ensure_status (CheckTensorIndices ins ?s0) (\<lambda>s. ensure_status (CheckTensorIndices outs s) (\<lambda>s.
      if b \<noteq> 0 then CheckInputAndOutputForOverlap ins outs s else (kTfLiteOk, s))) = (st1, s1)" (is "?c = _")
    by (cases ?c)
  have ok: "st1 = kTfLiteOk \<and> s1 = ?s0 \<or> st1 \<noteq> kTfLiteOk \<and> \<not> sg_consistent s1"
    using c by (auto simp: ensure_status_def CheckTensorIndices_def CheckInputAndOutputForOverlap_def split: if_splits)
  have 1: "st1 = kTfLiteOk"
  proof (rule ccontr)
    assume "st1 \<noteq> kTfLiteOk"
    then have "t = s1" using add c assms(3) by (simp add: AddNodeWithParameters_def)
    then show False using ok assms(5) \<open>st1 \<noteq> kTfLiteOk\<close> by simp
  qed
  with ok have s1: "s1 = ?s0" by simp
  obtain st2 j t2 where a: "add_node K ins outs mids d n b reg ?s0 = (st2, j, t2)"
    by (cases "add_node K ins outs mids d n b reg ?s0")
  have t2: "AddNodeWithParameters K ins outs mids d n b reg s = (st2, Some j, t2)"
    using c assms(3) a unfolding 1 s1 by (simp add: AddNodeWithParameters_def)
  from add_node_complete [OF assms(1,2) a] have f: "st2 = kTfLiteOk" "sg_consistent t2 = sg_consistent s"
    "sg_state t2 = kStateUninvokable" "sg_inputs t2 = sg_inputs s" "sg_outputs t2 = sg_outputs s" by simp_all
  from AddNode_shape [OF assms(1) t2 [unfolded f(1)]] f add t2 assms(5) show ?thesis
    by (simp add: adds_nodes_def)
qed

definition operator_registration :: "InterpreterBuilder \<Rightarrow> Operator \<Rightarrow> TfLiteRegistration" where
  "operator_registration b op = ib_registrations b ! nat (wrap_i32 (int (fo_opcode_index op)))"

definition operator_shape where
  "operator_shape b op = (FlatBufferIntArrayToVector (fo_inputs op), FlatBufferIntArrayToVector (fo_outputs op), 0 :: nat,
     operator_registration b op)"

lemma add_operator_node_complete:
  assumes "kernels_ok K" "inits_succeed K" and "sg_state s \<noteq> kStateInvokableAndImmutable"
    and "sg_consistent (add_operator_node K op d n x (operator_registration b op) s)"
  shows "sg_consistent s \<and> adds_nodes s [operator_shape b op] (add_operator_node K op d n x (operator_registration b op) s)"
proof -
  obtain st i t where a: "AddNodeWithParameters K (FlatBufferIntArrayToVector (fo_inputs op))
      (FlatBufferIntArrayToVector (fo_outputs op)) (FlatBufferIntArrayToVector (fo_intermediates op)) d n x
      (operator_registration b op) s = (st, i, t)" (is "?a = _") by (cases ?a)
  then have t: "add_operator_node K op d n x (operator_registration b op) s = t" by (simp add: add_operator_node_def)
  show ?thesis using AddNode_complete [OF assms(1-3) a] assms(4) by (simp add: t operator_shape_def)
qed

lemma ParseNodes_status: "status \<noteq> kTfLiteOk \<Longrightarrow> fst (ParseNodes K B b status ops s) \<noteq> kTfLiteOk"
  by (induction ops arbitrary: status s) (simp_all add: Let_def split: option.split prod.split)

lemma ParseNodes_cons:
  assumes "ParseNodes K B b status (op # ops) s = (kTfLiteOk, t)"
  obtains d n x where
    "ParseNodes K B b status ops (add_operator_node K op d n x (operator_registration b op) s) = (kTfLiteOk, t)"
  using assms ParseNodes_status [of kTfLiteError K B b ops s]
  by (fastforce simp: Let_def operator_registration_def [symmetric] split: if_splits option.splits prod.splits)

lemma ParseNodes_complete:
  assumes "kernels_ok K" "inits_succeed K"
  shows "ParseNodes K B b status ops s = (kTfLiteOk, t) \<Longrightarrow> sg_state s \<noteq> kStateInvokableAndImmutable \<Longrightarrow> sg_consistent t \<Longrightarrow>
    sg_consistent s \<and> adds_nodes s (map (operator_shape b) ops) t"
proof (induction ops arbitrary: s)
  case Nil
  then show ?case by (simp add: adds_nodes_def)
next
  case (Cons op ops)
  obtain d n x where p:
    "ParseNodes K B b status ops (add_operator_node K op d n x (operator_registration b op) s) = (kTfLiteOk, t)"
    using ParseNodes_cons [OF Cons.prems(1)] .
  let ?u = "add_operator_node K op d n x (operator_registration b op) s"
  have "sg_state ?u \<noteq> kStateInvokableAndImmutable"
    by (rule add_operator_node_state [OF assms Cons.prems(2)])
  from Cons.IH [OF p this Cons.prems(3)] have u: "sg_consistent ?u" "adds_nodes ?u (map (operator_shape b) ops) t" by simp_all
  from add_operator_node_complete [OF assms Cons.prems(2) u(1)] adds_nodes_trans [OF _ u(2)] show ?case by fastforce
qed

lemma set_tensor_builds: "builds s (snd (set_tensor b i tensor type q p n s))"
proof -
  have n: "builds t (note_external_buffer i eid t)" for i eid t
    by (simp add: note_external_buffer_def builds_def graph_shape_def)
  have b: "builds t (if c then t\<lparr>sg_tensor_buffer_identifiers := m\<rparr> else t)" for t c m
    by (simp add: builds_def graph_shape_def)
  have c: "builds t (if c then (put_tensor j x t)\<lparr>sg_heap := h\<rparr> else (put_tensor k y t)\<lparr>sg_heap := h', sg_state := kStateUninvokable\<rparr>)"
    for c t j x h k y h' by (simp add: put_tensor_def builds_def graph_shape_def)
  have i: "builds t (snd (if c then x else y))" if "builds t (snd x)" "builds t (snd y)"
    for t c and x y :: "TfLiteStatus \<times> Subgraph" using that by simp
  have e: "builds t (snd (kTfLiteError, t))" for t by (simp add: builds.frame_refl)
  have k: "builds t (snd (kTfLiteOk, u))" if "builds t u" for t u using that by simp
  have "builds s (snd (SetTensorParametersReadOnly i type name dims q p n a sp bid eid s))" for name dims a sp bid eid
    unfolding SetTensorParametersReadOnly_def Let_def case_prod_unfold
    by (intro i e k builds.frame_trans [OF builds.frame_trans [OF c b] n])
  moreover have "builds s (snd (SetTensorParametersReadWrite i type name dims q v sig eid s))" for name dims v sig eid
    by (simp add: SetTensorParametersReadWrite_def Let_def note_external_buffer_def put_tensor_def builds_def
        graph_shape_def case_prod_unfold split: option.split)
  ultimately show ?thesis by (simp add: set_tensor_def Let_def case_prod_unfold)
qed

lemma parse_tensors_builds:
  "builds s (snd (snd (parse_tensors b buffers status i tensors s))) \<and>
    ib_registrations (fst (snd (parse_tensors b buffers status i tensors s))) = ib_registrations b"
proof (induction tensors arbitrary: b status i s)
  case (Cons tensor tensors)
  have "builds s (snd (snd (parse_tensors b' buffers status' j tensors (snd (set_tensor b' i tensor type q p n s)))))"
    for b' status' j type q p n
    using builds.frame_trans [OF set_tensor_builds Cons [THEN conjunct1]] .
  then show ?case using Cons by (simp add: Let_def case_prod_unfold builds.frame_refl)
qed (simp add: builds.frame_refl)

definition model_operators :: "SubGraph \<Rightarrow> Operator list" where
  "model_operators graph = (case fs_operators graph of None \<Rightarrow> [] | Some ops \<Rightarrow> ops)"

lemma parse_subgraph_steps:
  assumes "parse_subgraph K B buffers graph b s = (kTfLiteOk, b', t)"
  obtains s1 s2 s3 s4 s5 tensors where
    "fs_tensors graph = Some tensors" "s1 = s\<lparr>sg_tensors := sg_tensors s @ replicate (length tensors) zero_tensor\<rparr>"
    "s2 = snd (SetInputs (FlatBufferIntArrayToVector (fs_inputs graph)) s1)"
    "s3 = snd (SetOutputs (FlatBufferIntArrayToVector (fs_outputs graph)) s2)"
    "ParseTensors b buffers tensors s3 = (kTfLiteOk, b', s4)"
    "ParseNodes K B b' kTfLiteOk (model_operators graph) s4 = (kTfLiteOk, s5)"
    "t = (case fs_name graph of None \<Rightarrow> snd (SetVariables (find_variables s5) s5)
       | Some name \<Rightarrow> SetName (Some name) (snd (SetVariables (find_variables s5) s5)))"
  using assms
  by (auto simp: parse_subgraph_def AddTensors_def model_operators_def Let_def split: option.splits if_splits prod.splits)

lemma setters_complete:
  "sg_consistent (snd (SetInputs xs s)) \<Longrightarrow> snd (SetInputs xs s) = s\<lparr>sg_inputs := xs\<rparr>"
  "sg_consistent (snd (SetOutputs xs s)) \<Longrightarrow> snd (SetOutputs xs s) = s\<lparr>sg_outputs := xs\<rparr>"
  "sg_consistent (snd (SetVariables xs s)) \<Longrightarrow> snd (SetVariables xs s) = s\<lparr>sg_variables := xs\<rparr>"
  by (simp_all add: SetInputs_def SetOutputs_def SetVariables_def CheckTensorIndices_def ensure_status_def split: if_splits)

lemma setters_state:
  "sg_state (snd (SetInputs xs s)) = sg_state s" "sg_state (snd (SetOutputs xs s)) = sg_state s"
  by (simp_all add: SetInputs_def SetOutputs_def CheckTensorIndices_def ensure_status_def)

lemma fresh_subgraphs:
  assumes "s \<in> set (it_subgraphs (fresh_interpreter n b))"
  shows "sg_nodes_and_registration s = []" "sg_execution_plan s = []" "sg_state s = kStateUninvokable" "sg_consistent s"
proof -
  have "set (it_subgraphs (fresh_interpreter n b)) \<subseteq>
    {SetOptions (Some (ib_options b)) (new_subgraph\<lparr>sg_recommended_num_threads := m\<rparr>) | m. True}"
    by (auto simp: fresh_interpreter_def Let_def new_interpreter_def AddSubgraphs_def SetNumThreads_def ApplyOptionsImpl_def
        intro: exI [of _ "-1"] exI [of _ 1])
      (auto intro: exI [of _ "sg_recommended_num_threads new_subgraph"])
  then obtain m where "s = SetOptions (Some (ib_options b)) (new_subgraph\<lparr>sg_recommended_num_threads := m\<rparr>)"
    using assms by blast
  then show "sg_nodes_and_registration s = []" "sg_execution_plan s = []" "sg_state s = kStateUninvokable" "sg_consistent s"
    by (simp_all add: SetOptions_def OptimizeMemoryForLargeTensors_def new_subgraph_def Let_def)
qed

lemma parsed_graph:
  assumes "kernels_ok K" "inits_succeed K" and "s \<in> set (it_subgraphs (fresh_interpreter m b0))"
    and "parse_subgraph K B buffers graph b s = (kTfLiteOk, b', t)" and "sg_consistent t"
  shows "sg_inputs t = FlatBufferIntArrayToVector (fs_inputs graph) \<and>
    sg_outputs t = FlatBufferIntArrayToVector (fs_outputs graph) \<and>
    map (\<lambda>(node, reg). (nd_inputs node, nd_outputs node, nd_delegate node, reg)) (sg_nodes_and_registration t) =
      map (\<lambda>op. (FlatBufferIntArrayToVector (fo_inputs op), FlatBufferIntArrayToVector (fo_outputs op), 0,
        ib_registrations b ! nat (wrap_i32 (int (fo_opcode_index op))))) (model_operators graph) \<and>
    sg_execution_plan t = map int [0..<length (model_operators graph)]"
proof -
  from assms(4) obtain s1 s2 s3 s4 s5 tensors where
    s1: "s1 = s\<lparr>sg_tensors := sg_tensors s @ replicate (length tensors) zero_tensor\<rparr>" and
    s2: "s2 = snd (SetInputs (FlatBufferIntArrayToVector (fs_inputs graph)) s1)" and
    s3: "s3 = snd (SetOutputs (FlatBufferIntArrayToVector (fs_outputs graph)) s2)" and
    s4: "ParseTensors b buffers tensors s3 = (kTfLiteOk, b', s4)" and
    s5: "ParseNodes K B b' kTfLiteOk (model_operators graph) s4 = (kTfLiteOk, s5)" and
    t: "t = (case fs_name graph of None \<Rightarrow> snd (SetVariables (find_variables s5) s5)
       | Some name \<Rightarrow> SetName (Some name) (snd (SetVariables (find_variables s5) s5)))"
    by (rule parse_subgraph_steps)
  have v: "sg_consistent (snd (SetVariables (find_variables s5) s5))" using assms(5) t by (simp add: SetName_def split: option.splits)
  from setters_complete(3) [OF v] v have c5: "sg_consistent s5" by simp
  have tt: "graph_shape t = graph_shape (s5\<lparr>sg_variables := find_variables s5\<rparr>)"
    unfolding t setters_complete(3) [OF v] by (simp add: SetName_def graph_shape_def split: option.split)
  have b4: "builds s3 s4" "ib_registrations b' = ib_registrations b"
    using parse_tensors_builds [of s3 "b\<lparr>ib_num_fp32_tensors := 0\<rparr>" buffers kTfLiteOk 0 tensors] s4
    by (simp_all add: ParseTensors_def)
  have st: "sg_state s3 \<noteq> kStateInvokableAndImmutable" by (simp add: s3 s2 s1 setters_state fresh_subgraphs [OF assms(3)])
  then have "sg_state s4 \<noteq> kStateInvokableAndImmutable" using b4 by (simp add: builds_def)
  from ParseNodes_complete [OF assms(1,2) s5 this c5]
  have n: "sg_consistent s4" "adds_nodes s4 (map (operator_shape b') (model_operators graph)) s5" by simp_all
  have c3: "sg_consistent s3" using n(1) b4 by (simp add: builds_def)
  from setters_complete(2) [of "FlatBufferIntArrayToVector (fs_outputs graph)" s2] c3 s3
  have 3: "s3 = s2\<lparr>sg_outputs := FlatBufferIntArrayToVector (fs_outputs graph)\<rparr>" by simp
  with c3 setters_complete(1) [of "FlatBufferIntArrayToVector (fs_inputs graph)" s1] s2
  have 2: "s2 = s1\<lparr>sg_inputs := FlatBufferIntArrayToVector (fs_inputs graph)\<rparr>" by simp
  have g: "graph_shape s4 = graph_shape s3" using b4 by (simp add: builds_def)
  then have "shapes s4 = []" "sg_execution_plan s4 = []" "sg_inputs s4 = FlatBufferIntArrayToVector (fs_inputs graph)"
    "sg_outputs s4 = FlatBufferIntArrayToVector (fs_outputs graph)"
    by (simp_all add: graph_shape_def 3 2 s1 fresh_subgraphs [OF assms(3)])
  with n(2) tt have "shapes t = map (operator_shape b') (model_operators graph) \<and>
      sg_inputs t = FlatBufferIntArrayToVector (fs_inputs graph) \<and> sg_outputs t = FlatBufferIntArrayToVector (fs_outputs graph) \<and>
      sg_execution_plan t = map int [0..<length (model_operators graph)]"
    by (simp add: adds_nodes_def graph_shape_def)
  moreover have f: "(\<lambda>(node, reg). (nd_inputs node, nd_outputs node, nd_delegate node, reg)) = node_shape"
    "(\<lambda>op. (FlatBufferIntArrayToVector (fo_inputs op), FlatBufferIntArrayToVector (fo_outputs op), 0,
        ib_registrations b ! nat (wrap_i32 (int (fo_opcode_index op))))) = operator_shape b'"
    by (simp_all add: fun_eq_iff node_shape_def operator_shape_def operator_registration_def b4(2))
  ultimately show ?thesis unfolding f by blast
qed

text \<open>
  Claim C20. The builder ignores the results of adding nodes and of setting inputs and outputs, and still loses nothing as long as no kernel
  fails to initialise: a subgraph it has built either cannot be allocated, or has the inputs and outputs of the
  model, one node per operator of the model, in the same order with the same tensors and with the registration that its
  operator code was resolved to, and a plan that runs all of them in that order.
\<close>

theorem built_graph_complete:
  assumes "kernels_ok K" "inits_succeed K" and "s \<in> set (it_subgraphs (fresh_interpreter m b0))"
    and "parse_subgraph K B buffers graph b s = (kTfLiteOk, b', t)"
  shows "\<not> sg_consistent t \<and> AllocateTensors n K t = Some (kTfLiteError, t) \<or>
    sg_inputs t = FlatBufferIntArrayToVector (fs_inputs graph) \<and>
    sg_outputs t = FlatBufferIntArrayToVector (fs_outputs graph) \<and>
    map (\<lambda>(node, reg). (nd_inputs node, nd_outputs node, nd_delegate node, reg)) (sg_nodes_and_registration t) =
      map (\<lambda>op. (FlatBufferIntArrayToVector (fo_inputs op), FlatBufferIntArrayToVector (fo_outputs op), 0,
        ib_registrations b ! nat (wrap_i32 (int (fo_opcode_index op))))) (model_operators graph) \<and>
    sg_execution_plan t = map int [0..<length (model_operators graph)]"
  using parsed_graph [OF assms] by (cases "sg_consistent t") (simp_all add: AllocateTensors_def allocate_tensors_def)

section \<open>A model for the witnesses\<close>

text \<open>A model of one graph: two tensors and a custom operator from the first to the second, which nothing resolves.\<close>

definition w_float :: Tensor where
  "w_float = \<lparr>ft_shape = Some [2], ft_type = 0, ft_buffer = 0, ft_name = Some ''x'', ft_quantization = None, ft_is_variable = False,
     ft_sparsity = None, ft_shape_signature = None, ft_external_buffer = 0\<rparr>"

definition w_custom_op :: Operator where
  "w_custom_op = \<lparr>fo_opcode_index = 0, fo_inputs = Some [0], fo_outputs = Some [1], fo_intermediates = None,
     fo_custom_options = None, fo_large_custom_options_offset = 0, fo_large_custom_options_size = 0\<rparr>"

definition w_graph :: SubGraph where
  "w_graph = \<lparr>fs_tensors = Some [w_float, w_float], fs_inputs = Some [0], fs_outputs = Some [1],
     fs_operators = Some [w_custom_op], fs_name = None\<rparr>"

definition w_model :: Model where
  "w_model = \<lparr>fm_version = 3,
     fm_operator_codes = Some [\<lparr>oc_builtin_code = 32, oc_deprecated_builtin_code = 32, oc_custom_code = Some ''FlexAdd'', oc_version = 1\<rparr>],
     fm_subgraphs = Some [w_graph], fm_buffers = Some [], fm_signature_defs = None\<rparr>"

definition w_build_env :: build_env where
  "w_build_env = \<lparr>be_parse_op_data = (\<lambda>op c. (kTfLiteOk, 1)), be_control_dependencies = (\<lambda>_. None), be_flex_delegate = 0,
     be_delegate_creators = [1]\<rparr>"

definition w_builder :: InterpreterBuilder where
  "w_builder = new_builder (Some w_model) (as_op_resolver new_op_resolver) None (\<lambda>_. None) None"

definition w_registered :: InterpreterBuilder where
  "w_registered = w_builder\<lparr>ib_registrations := [CreateUnresolvedCustomOp w_runtime ''FlexAdd''], ib_has_flex_op := True\<rparr>"

lemma w_registrations: "BuildLocalIndexToRegistrationMapping w_runtime w_model w_builder = (kTfLiteOk, w_registered)"
  by (simp add: BuildLocalIndexToRegistrationMapping_def w_model_def w_builder_def w_registered_def new_builder_def
      GetRegistrationFromOpCode_def GetBuiltinCode_def BuiltinOperator_MAX_def as_op_resolver_def FindOp_custom_def
      new_op_resolver_def IsFlexOp_def Let_def)

lemma w_set_tensor:
  assumes "sg_state s \<noteq> kStateInvokableAndImmutable" "0 \<le> i" "nat i < length (sg_tensors s)"
  shows "\<exists>x h. set_tensor b i w_float kTfLiteFloat32 q 0 n s = (kTfLiteOk, (put_tensor i x s)\<lparr>sg_heap := h\<rparr>)"
proof -
  have "BytesRequired kTfLiteFloat32 [2] = Some 8"
    by (simp add: BytesRequired_def MultiplyAndCheckOverflow_def size_mul_def Let_def)
  then show ?thesis using assms
    by (simp add: set_tensor_def SetTensorParametersReadWrite_def w_float_def FlatBufferIntArrayToVector_def tensor_index_in_def
        size_limited_type_def note_external_buffer_def split: prod.split)
      blast
qed

lemma w_parse_tensor:
  assumes "sg_state s \<noteq> kStateInvokableAndImmutable" "0 \<le> i" "nat i < length (sg_tensors s)"
  shows "\<exists>x h. parse_tensors b buffers kTfLiteOk i (w_float # ts) s =
    parse_tensors (b\<lparr>ib_num_fp32_tensors := Suc (ib_num_fp32_tensors b)\<rparr>) buffers kTfLiteOk (i + 1) ts
      ((put_tensor i x s)\<lparr>sg_heap := h\<rparr>)"
proof -
  let ?b = "b\<lparr>ib_num_fp32_tensors := Suc (ib_num_fp32_tensors b)\<rparr>"
  obtain x h where "set_tensor ?b i w_float kTfLiteFloat32 kTfLiteNoQuantization 0 0 s =
      (kTfLiteOk, (put_tensor i x s)\<lparr>sg_heap := h\<rparr>)"
    using w_set_tensor [OF assms] by blast
  moreover have "ConvertTensorType (ft_type w_float) = (kTfLiteOk, kTfLiteFloat32)"
    "get_readonly_data ?b buffers w_float = (kTfLiteOk, 0, 0)"
    "ParseQuantization ?b (ft_quantization w_float) dims = (kTfLiteOk, kTfLiteNoQuantization)" for dims
    by (simp_all add: w_float_def ConvertTensorType_def get_readonly_data_def ParseQuantization_def)
  ultimately have "parse_tensors b buffers kTfLiteOk i (w_float # ts) s =
      parse_tensors ?b buffers kTfLiteOk (i + 1) ts ((put_tensor i x s)\<lparr>sg_heap := h\<rparr>)"
    by (simp add: worse_def)
  then show ?thesis by blast
qed

lemma find_variables_set: "snd (SetVariables (find_variables s) s) = s\<lparr>sg_variables := find_variables s\<rparr>"
proof -
  have "list_all (\<lambda>i. i = kTfLiteOptionalTensor \<or> \<not> (i < 0 \<or> nat i \<ge> length (sg_tensors s))) (find_variables s)"
    by (auto simp: find_variables_def list_all_iff)
  then show ?thesis by (simp add: SetVariables_def CheckTensorIndices_def ensure_status_def)
qed

lemma w_parse_nodes:
  assumes "length (sg_tensors s) = 2" "sg_nodes_and_registration s = []" "sg_execution_plan s = []"
    and "sg_state s = kStateUninvokable" "ib_registrations b = [CreateUnresolvedCustomOp w_runtime ''FlexAdd'']" "ib_allocation b = None"
  shows "\<exists>nodes. ParseNodes w_runtime w_build_env b kTfLiteOk [w_custom_op] s =
    (kTfLiteOk, s\<lparr>sg_state := kStateUninvokable, sg_nodes_and_registration := nodes, sg_execution_plan := [0]\<rparr>)"
proof -
  have "rg_init (CreateUnresolvedCustomOp w_runtime ''FlexAdd'') = 0"
    "rg_registration_external (CreateUnresolvedCustomOp w_runtime ''FlexAdd'') = 0"
    "rg_builtin_code (CreateUnresolvedCustomOp w_runtime ''FlexAdd'') = kTfLiteBuiltinCustom"
    by (simp_all add: CreateUnresolvedCustomOp_def empty_registration_def)
  then show ?thesis
    using assms
    by (simp add: w_custom_op_def Let_def wrap_i32_def custom_data_def add_operator_node_def FlatBufferIntArrayToVector_def
        AddNodeWithParameters_def CheckTensorIndices_def ensure_status_def add_node_def OpInit_def)
      blast
qed

lemma w_parse_subgraph:
  assumes "sg_tensors s = []" "sg_nodes_and_registration s = []" "sg_execution_plan s = []"
    and "sg_state s = kStateUninvokable" "sg_consistent s"
  shows "\<exists>t. parse_subgraph w_runtime w_build_env [] w_graph w_registered s =
    (kTfLiteOk, w_registered\<lparr>ib_num_fp32_tensors := 2\<rparr>, t) \<and> sg_consistent t"
proof -
  let ?b = "w_registered\<lparr>ib_num_fp32_tensors := 0\<rparr>"
  let ?s3 = "s\<lparr>sg_tensors := [zero_tensor, zero_tensor], sg_inputs := [0], sg_outputs := [1]\<rparr>"
  obtain x h where 1: "parse_tensors ?b [] kTfLiteOk 0 [w_float, w_float] ?s3 =
      parse_tensors (?b\<lparr>ib_num_fp32_tensors := Suc 0\<rparr>) [] kTfLiteOk 1 [w_float] ((put_tensor 0 x ?s3)\<lparr>sg_heap := h\<rparr>)"
    using w_parse_tensor [of ?s3 0 ?b "[]" "[w_float]"] assms by auto
  let ?t = "(put_tensor 0 x ?s3)\<lparr>sg_heap := h\<rparr>"
  obtain y h' where 2: "parse_tensors (?b\<lparr>ib_num_fp32_tensors := Suc 0\<rparr>) [] kTfLiteOk 1 [w_float] ?t =
      (kTfLiteOk, w_registered\<lparr>ib_num_fp32_tensors := 2\<rparr>, (put_tensor 1 y ?t)\<lparr>sg_heap := h'\<rparr>)"
    using w_parse_tensor [of ?t 1 "?b\<lparr>ib_num_fp32_tensors := Suc 0\<rparr>" "[]" "[]"] assms
    by (auto simp: put_tensor_def numeral_2_eq_2)
  let ?u = "(put_tensor 1 y ?t)\<lparr>sg_heap := h'\<rparr>"
  have p: "ParseTensors w_registered [] [w_float, w_float] ?s3 = (kTfLiteOk, w_registered\<lparr>ib_num_fp32_tensors := 2\<rparr>, ?u)"
    unfolding ParseTensors_def using 1 2 by simp
  obtain nodes where n: "ParseNodes w_runtime w_build_env (w_registered\<lparr>ib_num_fp32_tensors := 2\<rparr>) kTfLiteOk [w_custom_op] ?u =
    (kTfLiteOk, ?u\<lparr>sg_state := kStateUninvokable, sg_nodes_and_registration := nodes, sg_execution_plan := [0]\<rparr>)"
    using w_parse_nodes [of ?u "w_registered\<lparr>ib_num_fp32_tensors := 2\<rparr>"] assms
    by (auto simp: put_tensor_def w_registered_def w_builder_def new_builder_def)
  have a: "AddTensors 2 s = (kTfLiteOk, 0, s\<lparr>sg_tensors := [zero_tensor, zero_tensor]\<rparr>)"
    using assms(1) by (simp add: AddTensors_def numeral_2_eq_2)
  have i: "snd (SetOutputs [1] (snd (SetInputs [0] (s\<lparr>sg_tensors := [zero_tensor, zero_tensor]\<rparr>)))) = ?s3"
    by (simp add: SetInputs_def SetOutputs_def CheckTensorIndices_def ensure_status_def)
  show ?thesis using assms a i p n
    by (simp add: parse_subgraph_def w_graph_def FlatBufferIntArrayToVector_def Let_def find_variables_set put_tensor_def)
qed

lemma w_fresh: "\<exists>s. it_subgraphs (fresh_interpreter (Suc 0) w_registered) = [s] \<and> sg_tensors s = []"
  by (simp add: fresh_interpreter_def new_interpreter_def AddSubgraphs_def SetNumThreads_def ApplyOptionsImpl_def Let_def
      w_registered_def w_builder_def new_builder_def default_options_def SetOptions_def new_subgraph_def)

lemma w_build: "\<exists>I. build 1 w_runtime w_build_env w_builder =
  Some ((kTfLiteOk, Some I), w_registered\<lparr>ib_num_fp32_tensors := 2\<rparr>, False)"
proof -
  obtain s where s: "it_subgraphs (fresh_interpreter (Suc 0) w_registered) = [s]" "sg_tensors s = []" using w_fresh by blast
  then have "s \<in> set (it_subgraphs (fresh_interpreter (Suc 0) w_registered))" by simp
  from fresh_subgraphs [OF this] w_parse_subgraph [OF s(2)] obtain t where
    "parse_subgraph w_runtime w_build_env [] w_graph w_registered s = (kTfLiteOk, w_registered\<lparr>ib_num_fp32_tensors := 2\<rparr>, t)"
    by blast
  moreover have "ApplyDelegates n w_runtime w_build_env (w_registered\<lparr>ib_num_fp32_tensors := 2\<rparr>) I = Some (kTfLiteOk, I)" for n I
    by (simp add: ApplyDelegates_def w_build_env_def w_registered_def w_builder_def new_builder_def run_status_def)
  moreover have "ib_model w_builder = Some w_model" "fm_version w_model = 3" "fm_subgraphs w_model = Some [w_graph]"
    "fm_buffers w_model = Some []" "fm_signature_defs w_model = None"
    by (simp_all add: w_builder_def new_builder_def w_model_def)
  ultimately show ?thesis using w_registrations s(1)
    by (simp add: build_def finish_interpreter_def ParseSignatureDefs_def Let_def)
qed

theorem build_valid_graphs_witness:
  "\<exists>st I b' f. build 1 w_runtime w_build_env w_builder = Some ((st, Some I), b', f) \<and> it_subgraphs I \<noteq> [] \<and>
     (\<forall>s\<in>set (it_subgraphs I). sg_wf s \<and> wf_graph (InterpreterInfo s))"
proof -
  obtain I b' where b: "build 1 w_runtime w_build_env w_builder = Some ((kTfLiteOk, Some I), b', False)" using w_build by blast
  from build_valid_graphs [OF w_runtime_ok b] b show ?thesis by blast
qed

theorem built_graph_complete_witness:
  "\<exists>s b' t. parse_subgraph w_runtime w_build_env [] w_graph w_registered s = (kTfLiteOk, b', t) \<and>
     sg_inputs t = [0] \<and> sg_outputs t = [1] \<and> sg_execution_plan t = [0] \<and> length (sg_nodes_and_registration t) = 1"
proof -
  obtain s where s: "it_subgraphs (fresh_interpreter (Suc 0) w_registered) = [s]" "sg_tensors s = []" using w_fresh by blast
  then have m: "s \<in> set (it_subgraphs (fresh_interpreter (Suc 0) w_registered))" by simp
  from fresh_subgraphs [OF this] w_parse_subgraph [OF s(2)] obtain b' t where
    p: "parse_subgraph w_runtime w_build_env [] w_graph w_registered s = (kTfLiteOk, b', t)" "sg_consistent t"
    by blast
  have i: "inits_succeed w_runtime" by (simp add: inits_succeed_def w_runtime_def)
  have o: "length (model_operators w_graph) = 1" "fs_inputs w_graph = Some [0]" "fs_outputs w_graph = Some [1]"
    by (simp_all add: model_operators_def w_graph_def)
  from built_graph_complete [OF w_runtime_ok(1) i m p(1)] p(2) have
    d: "sg_inputs t = [0]" "sg_outputs t = [1]" "sg_execution_plan t = [0]" and
    "map (\<lambda>(node, reg). (nd_inputs node, nd_outputs node, nd_delegate node, reg)) (sg_nodes_and_registration t) =
      map (\<lambda>op. (FlatBufferIntArrayToVector (fo_inputs op), FlatBufferIntArrayToVector (fo_outputs op), 0,
        ib_registrations w_registered ! nat (wrap_i32 (int (fo_opcode_index op))))) (model_operators w_graph)"
    by (simp_all add: o FlatBufferIntArrayToVector_def)
  from arg_cong [OF this(4), of length] have "length (sg_nodes_and_registration t) = 1" by (simp add: o)
  with p(1) d show ?thesis by blast
qed

section \<open>Building returns\<close>

lemma run_each_returns: "(\<And>x s. \<exists>st t. f x s = Some (st, t)) \<Longrightarrow> \<exists>st t. run_each f xs s = Some (st, t)"
proof (induction xs arbitrary: s)
  case (Cons x xs)
  obtain st t where "f x s = Some (st, t)" using Cons.prems by blast
  moreover obtain st' u where "run_each f xs t = Some (st', u)" using Cons by blast
  ultimately show ?case by (simp add: run_status_def)
qed simp

lemma ApplyDelegates_returns:
  assumes "kernels_ok K" "delegates_keep_flag K"
  shows "\<exists>st J. ApplyDelegates (Suc n) K B b I = Some (st, J)"
proof -
  note r = it_ModifyGraph_returns [OF assms]
  have e: "\<exists>st J. run_each (it_ModifyGraphWithDelegate (Suc n) K) ds I = Some (st, J)" for ds I
    by (rule run_each_returns) (rule r)
  obtain st J where "it_ModifyGraphWithDelegate (Suc n) K (be_flex_delegate B)
      (I\<lparr>it_owned_delegates := it_owned_delegates I @ [be_flex_delegate B]\<rparr>) = Some (st, J)" using r by blast
  then show ?thesis using e [of "ib_delegates b" I] e [of "ib_delegates b" J] by (auto simp: ApplyDelegates_def run_status_def)
qed

text \<open>
  With positive fuel and delegates that do not undo themselves, building returns for every model and every
  builder, and hands out an interpreter exactly when it reports success.
\<close>

lemma build_returns:
  assumes "kernels_ok K" "delegates_keep_flag K"
  shows "\<exists>st r b' f. build (Suc n) K B b = Some ((st, r), b', f) \<and> (st = kTfLiteOk \<longleftrightarrow> r \<noteq> None)"
proof -
  have fin: "\<exists>st r. finish_interpreter (Suc n) K B model c I = Some (st, r) \<and> (st = kTfLiteOk \<longleftrightarrow> r \<noteq> None)" for model c I
  proof -
    obtain st1 J where p: "ParseSignatureDefs (fm_signature_defs model) I = (st1, J)"
      by (cases "ParseSignatureDefs (fm_signature_defs model) I")
    obtain st2 I2 where "ApplyDelegates (Suc n) K B c (describe_interpreter B c J) = Some (st2, I2)"
      using ApplyDelegates_returns [OF assms] by blast
    then show ?thesis using p by (simp add: finish_interpreter_def)
  qed
  obtain st1 b1 model where p: "BuildLocalIndexToRegistrationMapping K model b = (st1, b1)" "ib_model b = None \<or> ib_model b = Some model"
    by (metis option.exhaust prod.exhaust)
  have "\<exists>st r b' f. map_option (\<lambda>r. (r, b2, False)) (finish_interpreter (Suc n) K B model b2 I) = Some ((st, r), b', f) \<and>
      (st = kTfLiteOk \<longleftrightarrow> r \<noteq> None)" for b2 I using fin [of model b2 I] by auto
  then show ?thesis using p by (auto simp: build_def Let_def case_prod_unfold split: option.split)
qed

lemma build_returns_witness:
  "\<exists>st r b' f. build 3 w_runtime w_build_env w_builder = Some ((st, r), b', f) \<and> (st = kTfLiteOk \<longleftrightarrow> r \<noteq> None)"
proof -
  have "delegates_keep_flag w_runtime" by (simp add: delegates_keep_flag_def w_runtime_def)
  from build_returns [OF w_runtime_ok(1) this, of 2] show ?thesis by (simp add: numeral_3_eq_3)
qed

section \<open>Constants\<close>

text \<open>
  A tensor whose data lies outside of the tables of the file is accepted when the end of the data, computed modulo
  \<open>2 ^ 64\<close>, is not behind the end of the file.
\<close>

lemma accepted_range:
  assumes "size_add offset n \<le> bytes" "offset < 2 ^ 64" "n < 2 ^ 64" "base + bytes < 2 ^ 64"
  shows "(base \<le> size_add base offset \<and> size_add base offset + n \<le> base + bytes) \<longleftrightarrow> offset + n < 2 ^ 64"
proof (cases "offset + n < 2 ^ 64")
  case True
  then show ?thesis using assms by (simp add: size_add_def)
next
  case False
  have "size_add base offset < base" if "base + offset \<ge> 2 ^ 64"
    using that assms(2,4) by (auto simp: size_add_def mod_if)
  moreover have "size_add base offset = base + offset" if "base + offset < 2 ^ 64" using that by (simp add: size_add_def)
  ultimately show ?thesis using False assms(4) by (cases "base + offset < 2 ^ 64") auto
qed

text \<open>
  Constant data that a model keeps outside of the tables of the file lies inside the memory of the file exactly
  when its offset and size do not overflow: the check against the end of the file does not catch an overflow,
  after which the tensor's data points outside of the file.
\<close>

lemma constant_in_file:
  assumes "get_readonly_data b buffers tensor = (kTfLiteOk, p, n)" and "ib_allocation b = Some (base, bytes)"
    and "ft_buffer tensor \<noteq> 0" and "fb_array (buffers ! ft_buffer tensor) = None" and "fb_offset (buffers ! ft_buffer tensor) > 1"
    and "fb_offset (buffers ! ft_buffer tensor) < 2 ^ 64" "fb_size (buffers ! ft_buffer tensor) < 2 ^ 64" "base + bytes < 2 ^ 64"
  shows "base \<le> p \<and> p + n \<le> base + bytes \<longleftrightarrow>
    fb_offset (buffers ! ft_buffer tensor) + fb_size (buffers ! ft_buffer tensor) < 2 ^ 64"
proof -
  let ?o = "fb_offset (buffers ! ft_buffer tensor)" and ?n = "fb_size (buffers ! ft_buffer tensor)"
  have "size_add ?o ?n \<le> bytes" "p = size_add base ?o" "n = ?n"
    using assms(1-5) by (auto simp: get_readonly_data_def Let_def split: if_splits)
  then show ?thesis using accepted_range [OF _ assms(6-8)] by simp
qed

text \<open>Four bytes at an offset of \<open>2 ^ 64 - 2\<close> in a file of a hundred bytes.\<close>

lemma constant_in_file_witness:
  "let b = w_builder\<lparr>ib_allocation := Some (4096, 100)\<rparr>; tensor = w_float\<lparr>ft_buffer := 1\<rparr>;
       buffers = [\<lparr>fb_array = None, fb_offset = 0, fb_size = 0\<rparr>,
         \<lparr>fb_array = None, fb_offset = 18446744073709551614, fb_size = 4\<rparr>]
   in get_readonly_data b buffers tensor = (kTfLiteOk, 4094, 4) \<and> \<not> (4096 \<le> (4094::nat) \<and> (4094::nat) + 4 \<le> 4096 + 100)"
proof -
  let ?b = "w_builder\<lparr>ib_allocation := Some (4096, 100)\<rparr>" and ?t = "w_float\<lparr>ft_buffer := 1\<rparr>"
  let ?bs = "[\<lparr>fb_array = None, fb_offset = 0, fb_size = 0\<rparr>, \<lparr>fb_array = None, fb_offset = 18446744073709551614, fb_size = 4\<rparr>]"
  have g: "get_readonly_data ?b ?bs ?t = (kTfLiteOk, 4094, 4)"
    by (simp add: get_readonly_data_def Let_def size_add_def)
  from constant_in_file [OF g, of 4096 100] g show ?thesis by (simp add: Let_def)
qed

section \<open>Quantization\<close>

lemma wrap_i32_idem: "wrap_i32 (wrap_i32 x) = wrap_i32 x"
  by (simp add: wrap_i32_def)

lemma size_of_int_negative:
  assumes "i32_min \<le> x" "x < 0" shows "2 ^ 31 \<le> size_of_int x"
proof -
  have "x mod 18446744073709551616 = x + 18446744073709551616"
    using assms mod_pos_pos_trivial [of "x + 18446744073709551616" 18446744073709551616] by simp
  then show ?thesis using assms by (simp add: size_of_int_def)
qed

text \<open>
  Claim C25. Affine parameters that are accepted have a zero point for every scale, which is that of the file cut to 32 bits, whether or not
  equal zero points are stored once;
  their dimension is one of the tensor's, and a tensor with more than one scale has one for every index
  along that dimension.
\<close>

theorem quantization_accepted:
  assumes "ParseQuantization b (Some q) dims = (kTfLiteOk, kTfLiteAffineQuantization (Some scales) (Some zs) d)"
    and "fq_zero_point q = Some zero_points" and "length zero_points < 2 ^ 31" "\<forall>x\<in>set dims. i32_min \<le> x \<and> x \<le> i32_max"
  shows "fq_scale q = Some scales \<and> length scales = length zero_points \<and> scales \<noteq> [] \<and>
    (\<forall>i<length zero_points. zs ! (if length zs = 1 then 0 else i) = wrap_i32 (zero_points ! i)) \<and>
    0 \<le> d \<and> (dims \<noteq> [] \<longrightarrow> nat d < length dims \<and> (length scales \<noteq> 1 \<longrightarrow> int (length scales) = dims ! nat d))"
proof -
  obtain ss where ss: "fq_scale q = Some ss" using assms(1) by (auto simp: ParseQuantization_def split: option.splits)
  have c: "length ss = length zero_points" "ss \<noteq> []" "0 \<le> fq_quantized_dimension q"
    "dims \<noteq> [] \<Longrightarrow> nat (fq_quantized_dimension q) < length dims"
    "dims \<noteq> [] \<Longrightarrow> length ss \<noteq> 1 \<Longrightarrow> length ss = size_of_int (dims ! nat (fq_quantized_dimension q))" and
    r: "affine_parameters (io_compress_quantization_zero_points (ib_options b)) ss zero_points (fq_quantized_dimension q) =
      kTfLiteAffineQuantization (Some scales) (Some zs) d"
    using assms(1,2) ss by (auto simp: ParseQuantization_def split: option.splits if_splits)
  then have d: "scales = ss" "d = fq_quantized_dimension q" by (simp_all add: affine_parameters_def Let_def)
  have "zs = map wrap_i32 zero_points \<or> zs = [wrap_i32 (zero_points ! 0)] \<and> (\<forall>z\<in>set (tl zero_points). z = wrap_i32 (zero_points ! 0))"
    using r by (simp add: affine_parameters_def Let_def list_all_iff split: if_splits)
  then have "zs ! (if length zs = 1 then 0 else i) = wrap_i32 (zero_points ! i)" if "i < length zero_points" for i
  proof (elim disjE conjE)
    assume "zs = [wrap_i32 (zero_points ! 0)]" "\<forall>z\<in>set (tl zero_points). z = wrap_i32 (zero_points ! 0)"
    moreover from this(2) have "zero_points ! i = wrap_i32 (zero_points ! 0)" if "i > 0"
      using \<open>i < length zero_points\<close> that nth_tl [of "i - 1" zero_points] nth_mem [of "i - 1" "tl zero_points"] by simp
    ultimately show ?thesis by (cases "i = 0") (simp_all add: wrap_i32_idem)
  qed (use that in \<open>auto simp: less_Suc_eq_0_disj\<close>)
  moreover have "int (length ss) = dims ! nat d" if "dims \<noteq> []" "length ss \<noteq> 1"
  proof -
    have "dims ! nat d \<in> set dims" using c(4) [OF that(1)] d(2) by simp
    then have b: "i32_min \<le> dims ! nat d" "dims ! nat d \<le> i32_max" using assms(4) by blast+
    have "size_of_int (dims ! nat d) < 2 ^ 31" using c(5) [OF that] c(1) assms(3) d(2) by simp
    then have "0 \<le> dims ! nat d" using size_of_int_negative [OF b(1)] by fastforce
    then show ?thesis using c(5) [OF that] d(2) b by (simp add: size_of_int_def)
  qed
  ultimately show ?thesis using ss c d by simp
qed

definition w_quantization :: QuantizationParameters where
  "w_quantization = \<lparr>fq_scale = Some [1, 2], fq_zero_point = Some [7, 7], fq_quantized_dimension = 0, fq_blockwise = None\<rparr>"

text \<open>Two scales with the same zero point, which is stored once.\<close>

theorem quantization_accepted_witness:
  "let b = w_builder\<lparr>ib_options := default_options\<lparr>io_compress_quantization_zero_points := True\<rparr>\<rparr>
   in ParseQuantization b (Some w_quantization) [2, 5] = (kTfLiteOk, kTfLiteAffineQuantization (Some [1, 2]) (Some [7]) 0) \<and>
      int (length [1, 2 :: float32]) = [2, 5] ! nat 0"
proof -
  let ?b = "w_builder\<lparr>ib_options := default_options\<lparr>io_compress_quantization_zero_points := True\<rparr>\<rparr>"
  have p: "ParseQuantization ?b (Some w_quantization) [2, 5] = (kTfLiteOk, kTfLiteAffineQuantization (Some [1, 2]) (Some [7]) 0)"
    by (simp add: ParseQuantization_def w_quantization_def affine_parameters_def size_of_int_def wrap_i32_def)
  have "fq_zero_point w_quantization = Some [7, 7]" by (simp add: w_quantization_def)
  from quantization_accepted [OF p this] p show ?thesis by (simp add: Let_def)
qed

section \<open>Default delegates\<close>

lemma ConvertTensorType_float: "ConvertTensorType t = (kTfLiteOk, kTfLiteFloat32) \<longleftrightarrow> t = 0"
proof
  assume "ConvertTensorType t = (kTfLiteOk, kTfLiteFloat32)"
  then have "0 \<le> t" "nat t < 21" "(kTfLiteFloat32 # tl [kTfLiteFloat32, kTfLiteFloat16, kTfLiteInt32, kTfLiteUInt8, kTfLiteInt64,
      kTfLiteString, kTfLiteBool, kTfLiteInt16, kTfLiteComplex64, kTfLiteInt8, kTfLiteFloat64, kTfLiteComplex128, kTfLiteUInt64,
      kTfLiteResource, kTfLiteVariant, kTfLiteUInt32, kTfLiteUInt16, kTfLiteInt4, kTfLiteBFloat16, kTfLiteInt2, kTfLiteUInt4])
      ! nat t = kTfLiteFloat32" (is "(_ # ?ts) ! _ = _")
    by (auto simp: ConvertTensorType_def Let_def split: if_splits)
  moreover have "?ts ! k \<noteq> kTfLiteFloat32" if "k < 20" for k
    using nth_mem [of k ?ts] that by auto
  ultimately show "t = 0" by (cases "nat t") auto
qed (simp add: ConvertTensorType_def)

lemma parse_tensors_status: "status \<noteq> kTfLiteOk \<Longrightarrow> fst (parse_tensors b buffers status i tensors s) \<noteq> kTfLiteOk"
  by (induction tensors arbitrary: b status i s) (simp_all add: Let_def case_prod_unfold worse_def)

lemma parse_tensors_floats:
  "parse_tensors b buffers status i tensors s = (kTfLiteOk, b', t) \<Longrightarrow>
    ib_num_fp32_tensors b' = ib_num_fp32_tensors b + length (filter (\<lambda>x. ft_type x = 0) tensors)"
proof (induction tensors arbitrary: b status i s)
  case (Cons x tensors)
  obtain st type where c: "ConvertTensorType (ft_type x) = (st, type)" by (cases "ConvertTensorType (ft_type x)")
  have st: "st = kTfLiteOk"
    using Cons.prems c parse_tensors_status [of kTfLiteError b buffers "i + 1" tensors s] by (auto split: if_splits)
  have f: "type = kTfLiteFloat32 \<longleftrightarrow> ft_type x = 0" using c st ConvertTensorType_float [of "ft_type x"] by auto
  let ?b = "if type = kTfLiteFloat32 then b\<lparr>ib_num_fp32_tensors := ib_num_fp32_tensors b + 1\<rparr> else b"
  obtain st1 p n where g: "get_readonly_data ?b buffers x = (st1, p, n)" by (cases "get_readonly_data ?b buffers x")
  obtain st2 q where q: "ParseQuantization ?b (ft_quantization x) (FlatBufferIntArrayToVector (ft_shape x)) = (st2, q)"
    by (cases "ParseQuantization ?b (ft_quantization x) (FlatBufferIntArrayToVector (ft_shape x))")
  obtain st3 u where u: "set_tensor ?b i x type q p n s = (st3, u)" by (cases "set_tensor ?b i x type q p n s")
  have "(if st1 \<noteq> kTfLiteOk then (st1, ?b, s)
      else parse_tensors ?b buffers (worse (worse status st2) st3) (i + 1) tensors u) = (kTfLiteOk, b', t)"
    using Cons.prems unfolding parse_tensors.simps c st Let_def prod.case g q u by simp
  then have "parse_tensors ?b buffers (worse (worse status st2) st3) (i + 1) tensors u = (kTfLiteOk, b', t)"
    by (cases "st1 = kTfLiteOk") simp_all
  from Cons.IH [OF this] f show ?case by simp
qed simp

lemma parse_subgraph_floats:
  assumes "parse_subgraph K B buffers graph b s = (kTfLiteOk, b', t)"
  shows "ib_num_fp32_tensors b' = length (filter (\<lambda>x. ft_type x = 0) (the (fs_tensors graph)))"
proof -
  from assms obtain tensors s3 s4 where t: "fs_tensors graph = Some tensors" and
    p: "ParseTensors b buffers tensors s3 = (kTfLiteOk, b', s4)"
    by (rule parse_subgraph_steps)
  from parse_tensors_floats [OF p [unfolded ParseTensors_def]] show ?thesis by (simp add: t)
qed

lemma parse_subgraphs_floats:
  "parse_subgraphs K B buffers xs b = (kTfLiteOk, b', ts) \<Longrightarrow> xs \<noteq> [] \<Longrightarrow>
    ib_num_fp32_tensors b' = length (filter (\<lambda>x. ft_type x = 0) (the (fs_tensors (fst (last xs)))))"
proof (induction xs arbitrary: b ts)
  case (Cons x xs)
  obtain g s where x: "x = (g, s)" by (cases x)
  obtain st b1 t where p: "parse_subgraph K B buffers g b s = (st, b1, t)" by (cases "parse_subgraph K B buffers g b s")
  obtain st' b2 us where q: "parse_subgraphs K B buffers xs b1 = (st', b2, us)" by (cases "parse_subgraphs K B buffers xs b1")
  have st: "st = kTfLiteOk" using Cons.prems p x by (auto split: if_splits)
  then have eq: "st' = kTfLiteOk" "b2 = b'" using Cons.prems p q x by simp_all
  show ?case
  proof (cases "xs = []")
    case True
    then show ?thesis using q eq parse_subgraph_floats [OF p [unfolded st]] x by simp
  next
    case False
    then show ?thesis using Cons.IH [OF q [unfolded eq]] by simp
  qed
qed simp

lemma it_keep_providers:
  "it_lazy_delegate_providers (snd (AddSubgraphs k I)) = it_lazy_delegate_providers I"
  "it_lazy_delegate_providers (snd (SetNumThreads m I)) = it_lazy_delegate_providers I"
  "it_lazy_delegate_providers (snd (ApplyOptionsImpl opts I)) = it_lazy_delegate_providers I"
  "it_lazy_delegate_providers (name_tensor g x I) = it_lazy_delegate_providers I"
  "it_lazy_delegate_providers (snd (it_SetMetadata B metadata I)) = it_lazy_delegate_providers I"
  by (simp_all add: AddSubgraphs_def SetNumThreads_def ApplyOptionsImpl_def name_tensor_def set_primary_def it_SetMetadata_def
      Let_def)

lemma fold_invariant: "(\<And>x s. P (f x s) = P s) \<Longrightarrow> P (fold f xs s) = P s"
  by (induction xs arbitrary: s) simp_all

lemma use_signature_names_providers: "it_lazy_delegate_providers (use_signature_names I) = it_lazy_delegate_providers I"
  unfolding use_signature_names_def
  by (intro fold_invariant [of it_lazy_delegate_providers] it_keep_providers)

lemma fresh_providers: "it_lazy_delegate_providers (fresh_interpreter n b) = []"
  by (simp add: fresh_interpreter_def Let_def it_keep_providers) (simp add: new_interpreter_def AddSubgraphs_def)

lemma run_each_providers:
  "run_each (it_ModifyGraphWithDelegate n K) ds I = Some (st, J) \<Longrightarrow> it_lazy_delegate_providers J = it_lazy_delegate_providers I"
proof (induction ds arbitrary: I)
  case (Cons d ds)
  then show ?case
    by (auto simp: run_status_def dest!: it_ModifyGraph_providers split: option.splits if_splits)
qed simp

lemma ApplyDelegates_providers:
  assumes "ApplyDelegates n K B b I = Some (st, J)" shows "it_lazy_delegate_providers J = it_lazy_delegate_providers I"
  using assms
  by (auto simp: ApplyDelegates_def run_status_def dest!: it_ModifyGraph_providers run_each_providers
      split: option.splits if_splits)

text \<open>
  The default delegates of an interpreter depend on the types of the tensors of its last subgraph only: it has those of the
  resolver if that subgraph has a tensor of floats, and otherwise none, whatever the other subgraphs hold.
\<close>

lemma default_delegates_from_last_subgraph:
  assumes "build n K B b = Some ((st, Some I), b', f)" and "ib_model b = Some model" "fm_subgraphs model = Some graphs"
  shows "it_lazy_delegate_providers I =
    (if \<exists>x\<in>set (the (fs_tensors (last graphs))). ft_type x = 0 then be_delegate_creators B else [])"
proof -
  obtain b1 buffers b2 ss where
    sg: "graphs \<noteq> []" and
    p: "parse_subgraphs K B buffers (zip graphs (it_subgraphs (fresh_interpreter (length graphs) b1))) b1 = (kTfLiteOk, b2, ss)" and
    fin: "finish_interpreter n K B model b2 ((fresh_interpreter (length graphs) b1)\<lparr>it_subgraphs := ss\<rparr>) = Some (st, Some I)"
    using assms by (auto simp: build_def Let_def split: option.splits if_splits prod.splits)
  let ?I = "(fresh_interpreter (length graphs) b1)\<lparr>it_subgraphs := ss\<rparr>"
  have l: "length (it_subgraphs (fresh_interpreter (length graphs) b1)) = length graphs"
    using sg by (simp add: fresh_interpreter_length)
  have ne: "zip graphs (it_subgraphs (fresh_interpreter (length graphs) b1)) \<noteq> []" using sg l by auto
  moreover have "fst (last (zip graphs (it_subgraphs (fresh_interpreter (length graphs) b1)))) = last graphs"
    using last_map [OF ne, of fst] l by (simp add: map_fst_zip)
  ultimately have fl: "ib_num_fp32_tensors b2 = length (filter (\<lambda>x. ft_type x = 0) (the (fs_tensors (last graphs))))"
    using parse_subgraphs_floats [OF p] by simp
  obtain st1 I1 where d: "ParseSignatureDefs (fm_signature_defs model) ?I = (st1, I1)"
    by (cases "ParseSignatureDefs (fm_signature_defs model) ?I")
  then have 1: "it_lazy_delegate_providers I1 = []"
    using fresh_providers [of "length graphs" b1] by (auto simp: ParseSignatureDefs_def split: option.splits if_splits)
  obtain st2 I2 where a: "ApplyDelegates n K B b2 (describe_interpreter B b2 I1) = Some (st2, I2)"
    and "I = (if io_dynamic_allocation_for_large_tensors (ib_options b2) \<noteq> 0
      then snd (ApplyOptionsImpl (Some (ib_options b2)) I2) else I2)"
    using fin d by (auto simp: finish_interpreter_def split: if_splits option.splits)
  then have "it_lazy_delegate_providers I = it_lazy_delegate_providers (describe_interpreter B b2 I1)"
    using ApplyDelegates_providers [OF a] by (simp add: it_keep_providers)
  also have "\<dots> = (if ib_num_fp32_tensors b2 > 0 then be_delegate_creators B else [])"
    using 1 by (simp add: describe_interpreter_def Let_def ShouldCreateLazyDelegateProviders_def it_keep_providers
        use_signature_names_providers)
  finally show ?thesis by (simp add: fl filter_empty_conv)
qed

lemma default_delegates_from_last_subgraph_witness:
  "\<exists>I b'. build 1 w_runtime w_build_env w_builder = Some ((kTfLiteOk, Some I), b', False) \<and> it_lazy_delegate_providers I = [1]"
proof -
  obtain I b' where b: "build 1 w_runtime w_build_env w_builder = Some ((kTfLiteOk, Some I), b', False)" using w_build by blast
  have "ib_model w_builder = Some w_model" "fm_subgraphs w_model = Some [w_graph]"
    by (simp_all add: w_builder_def new_builder_def w_model_def)
  from default_delegates_from_last_subgraph [OF b this] b show ?thesis
    by (simp add: w_graph_def w_float_def w_build_env_def)
qed

section \<open>Kernels that fail to initialise\<close>

text \<open>
  A kernel that fails to initialise goes unnoticed: for an operator whose tensors are valid, parsing the nodes reports
  success, the graph stays consistent, and the operator is not in the plan, so that it is never run.
\<close>

lemma failed_init_unnoticed:
  assumes "kernels_ok K" and "fo_opcode_index op < length (ib_registrations b)" "fo_opcode_index op < 2 ^ 31"
    and "rg_builtin_code (ib_registrations b ! fo_opcode_index op) \<noteq> kTfLiteBuiltinCustom"
    and "be_parse_op_data B op (rg_builtin_code (ib_registrations b ! fo_opcode_index op)) = (kTfLiteOk, data)"
    and "\<forall>s. fst (OpInit K (ib_registrations b ! fo_opcode_index op) data 0 s) = TfLiteKernelInitFailed"
    and "CheckTensorIndices (FlatBufferIntArrayToVector (fo_inputs op)) s = (kTfLiteOk, s)"
    and "CheckTensorIndices (FlatBufferIntArrayToVector (fo_outputs op)) s = (kTfLiteOk, s)"
    and "CheckInputAndOutputForOverlap (FlatBufferIntArrayToVector (fo_inputs op)) (FlatBufferIntArrayToVector (fo_outputs op)) s
      = (kTfLiteOk, s)"
    and "sg_state s \<noteq> kStateInvokableAndImmutable"
  shows "\<exists>t. ParseNodes K B b kTfLiteOk [op] s = (kTfLiteOk, t) \<and> sg_execution_plan t = sg_execution_plan s \<and>
    sg_consistent t = sg_consistent s"
proof -
  let ?reg = "ib_registrations b ! fo_opcode_index op"
  let ?ins = "FlatBufferIntArrayToVector (fo_inputs op)" and ?outs = "FlatBufferIntArrayToVector (fo_outputs op)"
  let ?mids = "FlatBufferIntArrayToVector (fo_intermediates op)"
  let ?s0 = "s\<lparr>sg_state := kStateUninvokable\<rparr>"
  let ?node = "empty_node\<lparr>nd_inputs := ?ins, nd_outputs := ?outs, nd_intermediates := ?mids\<rparr>"
  let ?s1 = "?s0\<lparr>sg_nodes_and_registration := sg_nodes_and_registration s @ [(?node, empty_registration)]\<rparr>"
  have c: "CheckTensorIndices ?ins ?s0 = (kTfLiteOk, ?s0)" "CheckTensorIndices ?outs ?s0 = (kTfLiteOk, ?s0)"
    "CheckInputAndOutputForOverlap ?ins ?outs ?s0 = (kTfLiteOk, ?s0)"
    using assms(7-9) by (simp_all add: CheckTensorIndices_def CheckInputAndOutputForOverlap_def split: if_splits)
  obtain s2 where i: "OpInit K ?reg data 0 ?s1 = (TfLiteKernelInitFailed, s2)"
    using assms(6) by (metis prod.collapse)
  have k: "kernel_frame ?s1 s2" using OpInit_frame [OF assms(1), of ?s1 ?reg data 0] i by simp
  have n: "add_node K ?ins ?outs ?mids 0 0 data ?reg ?s0 =
      (kTfLiteError, int (length (sg_nodes_and_registration s)), put_node (int (length (sg_nodes_and_registration s))) empty_node s2)"
    using i unfolding add_node_def Let_def by simp
  have a: "add_operator_node K op 0 0 data ?reg s = put_node (int (length (sg_nodes_and_registration s))) empty_node s2"
    using c n assms(10) by (cases "data = 0") (simp_all add: add_operator_node_def AddNodeWithParameters_def ensure_status_def)
  have "wrap_i32 (int (fo_opcode_index op)) = int (fo_opcode_index op)" using assms(3) by (simp add: wrap_i32_def)
  then have "ParseNodes K B b kTfLiteOk [op] s = (kTfLiteOk, add_operator_node K op 0 0 data ?reg s)"
    using assms(2,4,5) by simp
  moreover have "sg_execution_plan s2 = sg_execution_plan s" "sg_consistent s2 = sg_consistent s"
    using k by (simp_all add: kernel_frame_def same_graph_def graph_shape_def graph_mode_def graph_options_def)
  ultimately show ?thesis by (simp add: a put_node_def)
qed

definition w_failing_runtime :: runtime where
  "w_failing_runtime = w_runtime\<lparr>rt_init := (\<lambda>f d b n s. (TfLiteKernelInitFailed, s))\<rparr>"

lemma failed_init_unnoticed_witness:
  "let b = w_builder\<lparr>ib_registrations := [empty_registration\<lparr>rg_init := 1\<rparr>]\<rparr>;
       s = new_subgraph\<lparr>sg_tensors := [zero_tensor, zero_tensor]\<rparr>
   in \<exists>t. ParseNodes w_failing_runtime w_build_env b kTfLiteOk [w_custom_op] s = (kTfLiteOk, t) \<and> sg_execution_plan t = [] \<and>
      sg_consistent t"
proof -
  let ?b = "w_builder\<lparr>ib_registrations := [empty_registration\<lparr>rg_init := 1\<rparr>]\<rparr>"
  let ?s = "new_subgraph\<lparr>sg_tensors := [zero_tensor, zero_tensor]\<rparr>"
  have "\<exists>t. ParseNodes w_failing_runtime w_build_env ?b kTfLiteOk [w_custom_op] ?s = (kTfLiteOk, t) \<and>
      sg_execution_plan t = sg_execution_plan ?s \<and> sg_consistent t = sg_consistent ?s"
    by (rule failed_init_unnoticed [where data = 1])
      (use w_runtime_ok(1) in \<open>simp_all add: w_failing_runtime_def kernels_ok_def w_custom_op_def w_build_env_def empty_registration_def
        OpInit_def CheckTensorIndices_def CheckInputAndOutputForOverlap_def FlatBufferIntArrayToVector_def new_subgraph_def\<close>)
  then show ?thesis by (simp add: Let_def new_subgraph_def)
qed

end
