(* ===== verification/StringUtil.thy ===== *)
theory StringUtil
  imports Tensor
begin

text \<open>
  Tensors of strings (\<open>lite/string_util.cc\<close>, \<open>compiler/mlir/lite/utils/string_utils.cc\<close>): strings are collected in a
  dynamic buffer, written to one block of memory behind a header of 32-bit offsets, and read from there. Integers in
  memory are little-endian, as on the targets of the plugin.
\<close>

section \<open>Integers in memory\<close>

definition le32 :: "int \<Rightarrow> byte list" where
  "le32 i = [word_of_int i, word_of_int (i div 256), word_of_int (i div 65536), word_of_int (i div 16777216)]"

text \<open>The unsigned integer at a position; \<open>None\<close> for a read behind the end.\<close>

definition read_u32 :: "byte list \<Rightarrow> nat \<Rightarrow> nat option" where
  "read_u32 bs k =
     (if k + 4 \<le> length bs
      then Some (unat (bs ! k) + 256 * unat (bs ! (k + 1)) + 65536 * unat (bs ! (k + 2)) + 16777216 * unat (bs ! (k + 3)))
      else None)"

definition read_i32 :: "byte list \<Rightarrow> nat \<Rightarrow> int option" where
  "read_i32 bs k = map_option (\<lambda>n. wrap_i32 (int n)) (read_u32 bs k)"

definition write_at :: "nat \<Rightarrow> 'a list \<Rightarrow> 'a list \<Rightarrow> 'a list" where
  "write_at k vs bs = take k bs @ vs @ drop (k + length vs) bs"

text \<open>A write of bytes into a block; one that does not fit is flagged.\<close>

definition heap_write :: "nat \<Rightarrow> nat \<Rightarrow> byte list \<Rightarrow> heap \<Rightarrow> heap" where
  "heap_write p k vs h = (case hp_blocks h p of
     Some bs \<Rightarrow> (if k + length vs \<le> length bs then h\<lparr>hp_blocks := (hp_blocks h)(p := Some (write_at k vs bs))\<rparr>
                 else h\<lparr>hp_bad := True\<rparr>)
   | None \<Rightarrow> h\<lparr>hp_bad := True\<rparr>)"

section \<open>Collecting strings\<close>

text \<open>\<open>db_bad\<close> records a write outside of the vector \<open>data_\<close>.\<close>

record SimpleDynamicBuffer =
  db_data :: "byte list"
  db_offset :: "nat list"
  db_max_length :: nat
  db_bad :: bool

definition kDefaultMaxLength :: nat where
  "kDefaultMaxLength = 2147483647"

definition new_dynamic_buffer :: "nat \<Rightarrow> SimpleDynamicBuffer" where
  "new_dynamic_buffer max_length = \<lparr>db_data = [], db_offset = [0], db_max_length = max_length, db_bad = False\<rparr>"

definition put_string :: "byte list \<Rightarrow> byte list \<Rightarrow> nat \<Rightarrow> SimpleDynamicBuffer \<Rightarrow> SimpleDynamicBuffer" where
  "put_string str data next_offset b =
     (let fits = (last (db_offset b) + length str \<le> length data)
      in b\<lparr>db_data := (if fits then write_at (last (db_offset b)) str data else data),
           db_offset := db_offset b @ [next_offset], db_bad := db_bad b \<or> \<not> fits \<and> str \<noteq> []\<rparr>)"

definition simple_AddString :: "byte list \<Rightarrow> SimpleDynamicBuffer \<Rightarrow> bool \<times> SimpleDynamicBuffer" where
  "simple_AddString str b =
     (let len = length str in
      if len > db_max_length b \<or> length (db_data b) \<ge> db_max_length b - len then (False, b)
      else if len = 0 then (True, b\<lparr>db_offset := db_offset b @ [last (db_offset b)]\<rparr>)
      else (True, put_string str (db_data b @ replicate len 0) (last (db_offset b) + len) b))"

definition AddString :: "byte list \<Rightarrow> SimpleDynamicBuffer \<Rightarrow> TfLiteStatus \<times> SimpleDynamicBuffer" where
  "AddString str b = (case simple_AddString str b of (ok, b') \<Rightarrow> (if ok then kTfLiteOk else kTfLiteError, b'))"

fun joined :: "byte list \<Rightarrow> byte list list \<Rightarrow> byte list" where
  "joined separator [] = []"
| "joined separator [s] = s"
| "joined separator (s # t # ss) = s @ separator @ joined separator (t # ss)"

text \<open>The length is computed in \<open>size_t\<close> and kept in an \<open>int\<close>.\<close>

definition joined_length :: "byte list \<Rightarrow> byte list list \<Rightarrow> int" where
  "joined_length separator strings =
     fold (\<lambda>s total_len. wrap_i32 (int (size_add (size_of_int total_len) (length s)))) strings
       (wrap_i32 (int (size_mul (size_sub (length strings) 1) (length separator))))"

text \<open>\<open>None\<close> is the exception of \<open>std::vector::resize\<close> for a size above the maximum.\<close>

definition AddJoinedString :: "byte list list \<Rightarrow> byte list \<Rightarrow> SimpleDynamicBuffer \<Rightarrow> SimpleDynamicBuffer option" where
  "AddJoinedString strings separator b =
     (let total_len = joined_length separator strings;
          new_size = size_add (length (db_data b)) (size_of_int total_len)
      in if new_size > 9223372036854775807 then None
         else Some (put_string (joined separator strings)
                      (take new_size (db_data b) @ replicate (new_size - length (db_data b)) 0)
                      (size_add (last (db_offset b)) (size_of_int total_len)) b))"

section \<open>Writing\<close>

fun write_offsets :: "nat \<Rightarrow> int \<Rightarrow> nat \<Rightarrow> nat list \<Rightarrow> heap \<Rightarrow> heap" where
  "write_offsets p start i [] h = h"
| "write_offsets p start i (offset # offsets) h =
     write_offsets p start (Suc i) offsets
       (heap_write p (4 * (i + 1)) (le32 (wrap_i32 (int (size_add (size_of_int start) offset)))) h)"

text \<open>The number of bytes, or -1, and the address of the buffer, which is not set when the memory runs out.\<close>

definition WriteToBuffer :: "(nat \<Rightarrow> byte list option) \<Rightarrow> SimpleDynamicBuffer \<Rightarrow> heap \<Rightarrow> int \<times> nat \<times> heap" where
  "WriteToBuffer mem b h =
     (let num_strings = wrap_i32 (int (size_sub (length (db_offset b)) 1));
          header = size_mul 4 (size_of_int (wrap_i32 (num_strings + 2)));
          bytes = wrap_i32 (int (size_add (length (db_data b)) header))
      in case malloc mem (size_of_int bytes) h of (p, h) \<Rightarrow>
           if p = 0 then (-1, 0, h)
           else
             (let start = wrap_i32 (int header);
                  h = heap_write p 0 (le32 num_strings) h;
                  h = write_offsets p start 0 (db_offset b) h;
                  h = (if db_data b = [] then h else heap_write p (size_of_int start) (db_data b) h)
              in (bytes, p, h)))"

definition WriteToTensor ::
    "(nat \<Rightarrow> byte list option) \<Rightarrow> (nat \<Rightarrow> bool) \<Rightarrow> int list option \<Rightarrow> SimpleDynamicBuffer \<Rightarrow> TfLiteTensor \<Rightarrow> heap \<Rightarrow>
     TfLiteTensor \<times> heap" where
  "WriteToTensor mem malloc_ok new_shape b tensor h = (case WriteToBuffer mem b h of (bytes, tensor_buffer, h) \<Rightarrow>
     let new_shape = (case new_shape of None \<Rightarrow> TfLiteIntArrayCopy malloc_ok (t_dims tensor) | Some shape \<Rightarrow> Some shape)
     in TfLiteTensorReset (t_type tensor) (t_name tensor) new_shape (t_params tensor) tensor_buffer (size_of_int bytes)
          kTfLiteDynamic (t_allocation tensor) (t_is_variable tensor) tensor h)"

definition WriteToTensorAsVector ::
    "(nat \<Rightarrow> byte list option) \<Rightarrow> (nat \<Rightarrow> bool) \<Rightarrow> SimpleDynamicBuffer \<Rightarrow> TfLiteTensor \<Rightarrow> heap \<Rightarrow> TfLiteTensor \<times> heap" where
  "WriteToTensorAsVector mem malloc_ok b =
     WriteToTensor mem malloc_ok (Some [wrap_i32 (int (size_sub (length (db_offset b)) 1))]) b"

section \<open>Reading\<close>

text \<open>A reference to a string: its position in the buffer and its length.\<close>

record StringRef =
  sr_str :: int
  sr_len :: nat

definition GetStringCount :: "byte list \<Rightarrow> int option" where
  "GetStringCount raw_buffer = read_i32 raw_buffer 0"

definition GetString :: "byte list \<Rightarrow> nat \<Rightarrow> StringRef option" where
  "GetString raw_buffer string_index =
     (case (read_i32 raw_buffer (4 * (string_index + 1)), read_i32 raw_buffer (4 * (string_index + 2))) of
        (Some offset, Some next_offset) \<Rightarrow> Some \<lparr>sr_str = offset, sr_len = size_of_int (wrap_i32 (next_offset - offset))\<rparr>
      | _ \<Rightarrow> None)"

text \<open>The bytes that a reference points to; \<open>None\<close> if some of them are outside of the buffer.\<close>

definition string_bytes :: "byte list \<Rightarrow> StringRef \<Rightarrow> byte list option" where
  "string_bytes raw_buffer r =
     (if 0 \<le> sr_str r \<and> nat (sr_str r) + sr_len r \<le> length raw_buffer
      then Some (take (sr_len r) (drop (nat (sr_str r)) raw_buffer)) else None)"

section \<open>Integers and blocks\<close>

lemma le32_length [simp]: "length (le32 i) = 4"
  by (simp add: le32_def)

lemma le32_value:
  "int (unat (le32 i ! 0) + 256 * unat (le32 i ! 1) + 65536 * unat (le32 i ! 2) + 16777216 * unat (le32 i ! 3)) = i mod 4294967296"
proof -
  have split: "i mod k = m * (i div m mod 256) + i mod m" if "k = m * 256" for m k
    unfolding that by (rule zmod_zmult2_eq) simp
  have eq: "i mod 4294967296 = i mod 256 + 256 * (i div 256 mod 256) + 65536 * (i div 65536 mod 256) + 16777216 * (i div 16777216 mod 256)"
    by (simp only: split [of 4294967296 16777216, simplified] split [of 16777216 65536, simplified] split [of 65536 256, simplified] ac_simps)
  have b: "int (unat (le32 i ! 0)) = i mod 256" "int (unat (le32 i ! 1)) = i div 256 mod 256"
    "int (unat (le32 i ! 2)) = i div 65536 mod 256" "int (unat (le32 i ! 3)) = i div 16777216 mod 256"
    by (simp_all add: le32_def uint_word_of_int numeral_2_eq_2 numeral_3_eq_3)
  show ?thesis unfolding eq of_nat_add of_nat_mult b by (simp only: of_nat_numeral)
qed

lemma read_le32: "read_u32 (xs @ le32 i @ ys) (length xs) = Some (nat (i mod 4294967296))"
proof -
  have n: "(xs @ le32 i @ ys) ! (length xs + j) = le32 i ! j" if "j < 4" for j
    using that by (simp add: nth_append)
  have "unat (le32 i ! 0) + 256 * unat (le32 i ! 1) + 65536 * unat (le32 i ! 2) + 16777216 * unat (le32 i ! 3) =
      nat (i mod 4294967296)"
    using arg_cong [OF le32_value [of i], of nat] unfolding nat_int .
  then show ?thesis unfolding read_u32_def using n [of 0] n [of 1] n [of 2] n [of 3] by simp
qed

lemma read_u32_bound: "read_u32 bs k = Some n \<Longrightarrow> n < 4294967296"
proof -
  assume "read_u32 bs k = Some n"
  moreover have "unat (bs ! j) < 2 ^ LENGTH(8)" for j by (rule unsigned_less)
  note this [of k] this [of "k + 1"] this [of "k + 2"] this [of "k + 3"]
  ultimately show ?thesis by (simp add: read_u32_def split: if_splits)
qed

lemma wrap_i32_mod: "wrap_i32 (i mod 4294967296) = wrap_i32 i"
  by (simp add: wrap_i32_def mod_add_left_eq)

lemma wrap_i32_exact: "i32_min \<le> i \<Longrightarrow> i \<le> i32_max \<Longrightarrow> wrap_i32 i = i"
  by (simp add: wrap_i32_def)

lemma read_i32_le32: "read_i32 (xs @ le32 i @ ys) (length xs) = Some (wrap_i32 i)"
  by (simp add: read_i32_def read_le32 wrap_i32_mod)

lemma size_of_int_exact: "0 \<le> i \<Longrightarrow> i \<le> i32_max \<Longrightarrow> size_of_int i = nat i"
  by (simp add: size_of_int_def)

lemma header_length [simp]: "length (concat (map le32 xs)) = 4 * length xs"
  by (induction xs) simp_all

lemma read_header:
  assumes "k < length xs" shows "read_i32 (concat (map le32 xs) @ rest) (4 * k) = Some (wrap_i32 (xs ! k))"
proof -
  have "concat (map le32 xs) @ rest =
      concat (map le32 (take k xs)) @ le32 (xs ! k) @ concat (map le32 (drop (Suc k) xs)) @ rest"
    using id_take_nth_drop [OF assms] by (metis append.assoc concat.simps(2) concat_append list.simps(9) map_append)
  then show ?thesis using assms read_i32_le32 [of "concat (map le32 (take k xs))" "xs ! k"] by simp
qed

lemma heap_write_append:
  assumes "hp_blocks h p = Some (xs @ ys)" and "length vs \<le> length ys"
  shows "heap_write p (length xs) vs h = h\<lparr>hp_blocks := (hp_blocks h)(p := Some (xs @ vs @ drop (length vs) ys))\<rparr>"
  using assms by (simp add: heap_write_def write_at_def)

section \<open>The format\<close>

text \<open>The block that holds strings: their number, the offset of each, the length of the block, and their contents.\<close>

definition content_length :: "byte list list \<Rightarrow> nat \<Rightarrow> nat" where
  "content_length ss k = length (concat (take k ss))"

definition string_offset :: "byte list list \<Rightarrow> nat \<Rightarrow> nat" where
  "string_offset ss k = 4 * (length ss + 2) + content_length ss k"

definition string_header :: "byte list list \<Rightarrow> int list" where
  "string_header ss = int (length ss) # map (\<lambda>k. int (string_offset ss k)) [0..<Suc (length ss)]"

definition string_block :: "byte list list \<Rightarrow> byte list" where
  "string_block ss = concat (map le32 (string_header ss)) @ concat ss"

definition holds :: "byte list list \<Rightarrow> SimpleDynamicBuffer \<Rightarrow> bool" where
  "holds ss b \<longleftrightarrow> db_data b = concat ss \<and> db_offset b = map (content_length ss) [0..<Suc (length ss)]"

lemma string_header_length [simp]: "length (string_header ss) = length ss + 2"
  by (simp add: string_header_def)

lemma string_block_length: "length (string_block ss) = 4 * (length ss + 2) + length (concat ss)"
  by (simp add: string_block_def)

lemma content_length_all: "content_length ss (length ss) = length (concat ss)"
  by (simp add: content_length_def)

lemma content_length_mono: "j \<le> k \<Longrightarrow> content_length ss j \<le> content_length ss k"
proof -
  assume "j \<le> k"
  then have "take k ss = take j ss @ take (k - j) (drop j ss)" by (metis le_add_diff_inverse take_add)
  then show ?thesis by (simp add: content_length_def)
qed

lemma content_length_le: "content_length ss k \<le> length (concat ss)"
proof -
  have "concat ss = concat (take k ss) @ concat (drop k ss)" by (metis append_take_drop_id concat_append)
  then show ?thesis by (simp add: content_length_def)
qed

lemma holds_new: "holds [] (new_dynamic_buffer n)"
  by (simp add: holds_def new_dynamic_buffer_def content_length_def)

lemma holds_last: "holds ss b \<Longrightarrow> last (db_offset b) = length (db_data b)"
  by (simp add: holds_def content_length_all)

lemma holds_snoc:
  assumes "holds ss b" and "db_data b' = concat ss @ s" "db_offset b' = db_offset b @ [length (concat ss) + length s]"
  shows "holds (ss @ [s]) b'"
proof -
  have "content_length (ss @ [s]) k = content_length ss k" if "k \<le> length ss" for k
    using that by (simp add: content_length_def)
  then show ?thesis using assms by (simp add: holds_def content_length_def)
qed

lemma put_string_end:
  assumes "last (db_offset b) = length (db_data b)"
  shows "put_string s (db_data b @ replicate (length s) 0) n b = b\<lparr>db_data := db_data b @ s, db_offset := db_offset b @ [n]\<rparr>"
  using assms by (simp add: put_string_def write_at_def)

lemma AddString_result:
  assumes "last (db_offset b) = length (db_data b)"
  shows "AddString s b =
    (if length (db_data b) + length s < db_max_length b
     then (kTfLiteOk, b\<lparr>db_data := db_data b @ s, db_offset := db_offset b @ [length (db_data b) + length s]\<rparr>)
     else (kTfLiteError, b))"
proof -
  have "\<not> (length s > db_max_length b \<or> length (db_data b) \<ge> db_max_length b - length s) \<longleftrightarrow>
      length (db_data b) + length s < db_max_length b" by auto
  then show ?thesis using assms put_string_end [OF assms, of s]
    by (simp add: AddString_def simple_AddString_def Let_def) (use assms in auto)
qed

text \<open>Several strings added one after the other; \<open>None\<close> if one of them is refused.\<close>

fun AddStrings :: "byte list list \<Rightarrow> SimpleDynamicBuffer \<Rightarrow> SimpleDynamicBuffer option" where
  "AddStrings [] b = Some b"
| "AddStrings (s # ss) b = (case AddString s b of (st, b') \<Rightarrow> if st = kTfLiteOk then AddStrings ss b' else None)"

lemma AddStrings_holds:
  "holds ss b \<Longrightarrow> AddStrings ts b = Some b' \<Longrightarrow> holds (ss @ ts) b'"
proof (induction ts arbitrary: ss b)
  case (Cons t ts)
  let ?b = "b\<lparr>db_data := db_data b @ t, db_offset := db_offset b @ [length (db_data b) + length t]\<rparr>"
  have "AddStrings ts ?b = Some b'"
    using Cons.prems by (simp add: AddString_result [OF holds_last] split: if_splits)
  moreover have "holds (ss @ [t]) ?b" using Cons.prems(1) by (intro holds_snoc [OF Cons.prems(1)]) (simp_all add: holds_def)
  ultimately show ?case using Cons.IH [of "ss @ [t]"] by simp
qed simp

section \<open>Writing and reading back\<close>

lemma write_offsets_append:
  assumes "hp_blocks h p = Some (xs @ ys)" and "length xs = 4 * (i + 1)" and "4 * length os \<le> length ys"
  shows "write_offsets p start i os h = h\<lparr>hp_blocks := (hp_blocks h)(p := Some (xs @
    concat (map (\<lambda>k. le32 (wrap_i32 (int (size_add (size_of_int start) k)))) os) @ drop (4 * length os) ys))\<rparr>"
  using assms
proof (induction os arbitrary: i xs ys h)
  case Nil
  then show ?case by (simp add: fun_upd_idem)
next
  case (Cons k os)
  let ?v = "le32 (wrap_i32 (int (size_add (size_of_int start) k)))"
  let ?h = "h\<lparr>hp_blocks := (hp_blocks h)(p := Some (xs @ ?v @ drop 4 ys))\<rparr>"
  have w: "heap_write p (4 * (i + 1)) ?v h = ?h"
    using heap_write_append [OF Cons.prems(1), of ?v] Cons.prems(2,3) by simp
  have "write_offsets p start (Suc i) os ?h = ?h\<lparr>hp_blocks := (hp_blocks ?h)(p := Some ((xs @ ?v) @
      concat (map (\<lambda>k. le32 (wrap_i32 (int (size_add (size_of_int start) k)))) os) @ drop (4 * length os) (drop 4 ys)))\<rparr>"
    by (rule Cons.IH) (use Cons.prems in simp_all)
  then show ?case unfolding write_offsets.simps w by (simp add: add.commute; simp add: fun_upd_def)
qed

definition malloc_works :: "(nat \<Rightarrow> byte list option) \<Rightarrow> bool" where
  "malloc_works mem \<longleftrightarrow> (\<forall>n. \<exists>bs. mem n = Some bs \<and> length bs = n)"

lemma WriteToBuffer_block:
  assumes "holds ss b" and "length (string_block ss) \<le> nat i32_max" and "malloc_works mem" and "0 < hp_next h"
  shows "WriteToBuffer mem b h = (int (length (string_block ss)), hp_next h,
    h\<lparr>hp_blocks := (hp_blocks h)(hp_next h := Some (string_block ss)), hp_next := Suc (hp_next h)\<rparr>)"
proof -
  let ?n = "length ss" and ?p = "hp_next h"
  let ?N = "length (string_block ss)"
  have len: "?N = 4 * (?n + 2) + length (concat ss)" by (rule string_block_length)
  have small: "4 * (int ?n + 2) + int (length (concat ss)) \<le> i32_max" using assms(2) len by simp
  obtain bs where bs: "mem ?N = Some bs" "length bs = ?N" using assms(3) by (auto simp: malloc_works_def)
  have d: "db_data b = concat ss" "db_offset b = map (content_length ss) [0..<Suc ?n]" using assms(1) by (simp_all add: holds_def)
  have num: "wrap_i32 (int (size_sub (length (db_offset b)) 1)) = int ?n"
    using small by (simp add: d size_sub_exact wrap_i32_exact)
  have hdr: "size_mul 4 (size_of_int (wrap_i32 (int ?n + 2))) = 4 * (?n + 2)"
    using small by (simp add: wrap_i32_exact size_of_int_exact size_mul_exact)
  have bytes: "wrap_i32 (int (size_add (length (concat ss)) (4 * (?n + 2)))) = int ?N"
    using small by (simp add: len size_add_exact wrap_i32_exact)
  have sz: "size_of_int (int ?N) = ?N" using assms(2) by (simp add: size_of_int_exact)
  have st: "wrap_i32 (int (4 * (?n + 2))) = int (4 * (?n + 2))" "size_of_int (int (4 * (?n + 2))) = 4 * (?n + 2)"
    using small by (simp_all add: wrap_i32_exact size_of_int_exact)
  have off: "wrap_i32 (int (size_add (4 * (?n + 2)) (content_length ss k))) = int (string_offset ss k)" for k
    using small content_length_le [of ss k] by (simp add: size_add_exact wrap_i32_exact string_offset_def)
  let ?h1 = "h\<lparr>hp_blocks := (hp_blocks h)(?p := Some bs), hp_next := Suc ?p\<rparr>"
  let ?h2 = "?h1\<lparr>hp_blocks := (hp_blocks ?h1)(?p := Some (le32 (int ?n) @ drop 4 bs))\<rparr>"
  let ?os = "concat (map (\<lambda>k. le32 (int (string_offset ss k))) [0..<Suc ?n])"
  let ?h3 = "?h2\<lparr>hp_blocks := (hp_blocks ?h2)(?p := Some (le32 (int ?n) @ ?os @ drop (4 * (?n + 2)) bs))\<rparr>"
  have m: "malloc mem ?N h = (?p, ?h1)" using bs by (simp add: malloc_def)
  have 2: "heap_write ?p 0 (le32 (int ?n)) ?h1 = ?h2"
    using heap_write_append [of ?h1 ?p "[]" bs "le32 (int ?n)"] bs(2) len by simp
  have 3: "write_offsets ?p (int (4 * (?n + 2))) 0 (db_offset b) ?h2 = ?h3"
    using write_offsets_append [of ?h2 ?p "le32 (int ?n)" "drop 4 bs" 0 "db_offset b" "int (4 * (?n + 2))"] bs(2) len
    unfolding d(2) st(2) map_map comp_def off by (simp add: algebra_simps)
  have os: "length (le32 (int ?n) @ ?os) = 4 * (?n + 2)" by (simp add: length_concat comp_def sum_list_triv)
  have c: "(if cs = [] then ?h3 else heap_write ?p (4 * (?n + 2)) cs ?h3) =
      ?h3\<lparr>hp_blocks := (hp_blocks ?h3)(?p := Some (le32 (int ?n) @ ?os @ cs))\<rparr>" if "length bs = 4 * (?n + 2) + length cs" for cs
    using heap_write_append [of ?h3 ?p "le32 (int ?n) @ ?os" "drop (4 * (?n + 2)) bs" cs] that os by (cases "cs = []") simp_all
  have 4: "(if concat ss = [] then ?h3 else heap_write ?p (4 * (?n + 2)) (concat ss) ?h3) =
      ?h3\<lparr>hp_blocks := (hp_blocks ?h3)(?p := Some (le32 (int ?n) @ ?os @ concat ss))\<rparr>"
    by (rule c) (use bs(2) len in simp)
  have blk: "le32 (int ?n) @ ?os @ concat ss = string_block ss"
    by (simp add: string_block_def string_header_def comp_def)
  show ?thesis unfolding WriteToBuffer_def Let_def num hdr d(1) bytes sz m prod.case st 2 3 4 blk
    using assms(4) by simp
qed

lemma GetStringCount_block: "length (string_block ss) \<le> nat i32_max \<Longrightarrow> GetStringCount (string_block ss) = Some (int (length ss))"
  using read_header [of 0 "string_header ss" "concat ss"] string_block_length [of ss]
  by (simp add: GetStringCount_def string_block_def [symmetric] wrap_i32_exact) (simp add: string_header_def wrap_i32_exact)

lemma read_offset:
  assumes "length (string_block ss) \<le> nat i32_max" and "k \<le> length ss"
  shows "read_i32 (string_block ss) (4 * (k + 1)) = Some (int (string_offset ss k))"
proof -
  have "string_header ss ! (k + 1) = int (string_offset ss k)" using assms(2) by (simp add: string_header_def del: upt_Suc)
  moreover have "int (string_offset ss k) \<le> i32_max"
    using assms(1) content_length_le [of ss k] by (simp add: string_offset_def string_block_length)
  ultimately show ?thesis using read_header [of "k + 1" "string_header ss" "concat ss"] assms(2)
    by (simp add: string_block_def wrap_i32_exact)
qed

lemma GetString_block:
  assumes "length (string_block ss) \<le> nat i32_max" and "k < length ss"
  shows "\<exists>r. GetString (string_block ss) k = Some r \<and> string_bytes (string_block ss) r = Some (ss ! k)"
proof -
  have o: "string_offset ss (Suc k) = string_offset ss k + length (ss ! k)"
    using assms(2) by (simp add: string_offset_def content_length_def take_Suc_conv_app_nth)
  have le: "string_offset ss (Suc k) \<le> length (string_block ss)"
    using content_length_le [of ss "Suc k"] by (simp add: string_offset_def string_block_length)
  have "wrap_i32 (int (string_offset ss (Suc k)) - int (string_offset ss k)) = int (length (ss ! k))"
    "size_of_int (int (length (ss ! k))) = length (ss ! k)"
    using o le assms(1) by (simp_all add: wrap_i32_exact size_of_int_exact)
  then have g: "GetString (string_block ss) k = Some \<lparr>sr_str = int (string_offset ss k), sr_len = length (ss ! k)\<rparr>"
    using read_offset [OF assms(1), of k] read_offset [OF assms(1), of "Suc k"] assms(2) by (simp add: GetString_def)
  have "concat ss = concat (take k ss) @ ss ! k @ concat (drop (Suc k) ss)"
    using id_take_nth_drop [OF assms(2)] by (metis append.assoc concat.simps(2) concat_append)
  then have "string_block ss = (concat (map le32 (string_header ss)) @ concat (take k ss)) @ ss ! k @ concat (drop (Suc k) ss)"
    by (simp add: string_block_def)
  moreover have "length (concat (map le32 (string_header ss)) @ concat (take k ss)) = string_offset ss k"
    by (simp add: string_offset_def content_length_def)
  ultimately have "take (length (ss ! k)) (drop (string_offset ss k) (string_block ss)) = ss ! k"
    by (metis append_eq_conv_conj)
  then show ?thesis using g o le by (simp add: string_bytes_def)
qed

section \<open>Joining\<close>

lemma joined_length_sum: "ss \<noteq> [] \<Longrightarrow> length (joined sep ss) = (length ss - 1) * length sep + sum_list (map length ss)"
proof (induction sep ss rule: joined.induct)
  case (3 separator s t ss)
  then show ?case by (simp add: algebra_simps)
qed simp_all

lemma fold_lengths:
  "0 \<le> t \<Longrightarrow> t + int (sum_list (map length ss)) \<le> i32_max \<Longrightarrow>
    fold (\<lambda>s total_len. wrap_i32 (int (size_add (size_of_int total_len) (length s)))) ss t = t + int (sum_list (map length ss))"
proof (induction ss arbitrary: t)
  case (Cons s ss)
  have "wrap_i32 (int (size_add (size_of_int t) (length s))) = t + int (length s)"
    using Cons.prems by (simp add: size_of_int_exact size_add_exact wrap_i32_exact)
  then show ?case using Cons.IH [of "t + int (length s)"] Cons.prems by simp
qed simp

lemma joined_length_exact:
  assumes "ss \<noteq> []" "length ss < size_mod" and "int (length (joined sep ss)) \<le> i32_max"
  shows "joined_length sep ss = int (length (joined sep ss))"
proof -
  let ?k = "(length ss - 1) * length sep"
  have l: "length (joined sep ss) = ?k + sum_list (map length ss)" by (rule joined_length_sum [OF assms(1)])
  have "size_sub (length ss) 1 = length ss - 1" using assms(1,2) by (simp add: size_sub_exact Suc_le_eq)
  moreover have k: "int ?k \<le> i32_max" using l assms(3) by linarith
  then have "?k < size_mod" by linarith
  then have "size_mul (length ss - 1) (length sep) = ?k" by (rule size_mul_exact)
  moreover have "wrap_i32 (int ?k) = int ?k" by (rule wrap_i32_exact) (use k in linarith)+
  ultimately show ?thesis using fold_lengths [of "int ?k" ss] l assms(3) by (simp add: joined_length_def)
qed

text \<open>
  Adding joined strings is adding the string that they make together with the separators, if there is at least one of
  them and the result fits the buffer. When there is none, nothing is not what is added: with a separator of one byte the
  last byte of the buffer is cut off, and an empty buffer cannot be resized.
\<close>

lemma joined_string_added:
  assumes "last (db_offset b) = length (db_data b)" and "db_max_length b \<le> kDefaultMaxLength" and "length strings < size_mod"
    and "length (db_data b) + length (joined separator strings) < db_max_length b"
  shows "(strings \<noteq> [] \<longrightarrow> AddJoinedString strings separator b = Some (snd (AddString (joined separator strings) b))) \<and>
    AddJoinedString [] [c] b =
      (if db_data b = [] then None
       else Some (b\<lparr>db_data := butlast (db_data b), db_offset := db_offset b @ [length (db_data b) - 1],
         db_bad := db_bad b\<rparr>))"
proof
  let ?j = "joined separator strings" and ?n = "length (db_data b)"
  have small: "int (?n + length ?j) \<le> i32_max" using assms(2,4) by (simp add: kDefaultMaxLength_def)
  show "strings \<noteq> [] \<longrightarrow> AddJoinedString strings separator b = Some (snd (AddString ?j b))"
  proof
    assume "strings \<noteq> []"
    then have t: "joined_length separator strings = int (length ?j)" using joined_length_exact [OF _ assms(3)] small by simp
    have s: "size_of_int (int (length ?j)) = length ?j" "size_add ?n (length ?j) = ?n + length ?j"
      using small by (simp_all add: size_of_int_exact size_add_exact)
    have "AddJoinedString strings separator b = Some (put_string ?j (db_data b @ replicate (length ?j) 0) (?n + length ?j) b)"
      using small assms(1) unfolding AddJoinedString_def Let_def t s by (simp add: s)
    then show "AddJoinedString strings separator b = Some (snd (AddString ?j b))"
      using put_string_end [OF assms(1), of ?j] AddString_result [OF assms(1), of ?j] assms(4) by simp
  qed
  have t: "joined_length [c] [] = -1" by (simp add: joined_length_def size_sub_def size_mul_def wrap_i32_def)
  have m: "size_add ?n (size_of_int (-1)) = (if db_data b = [] then size_max else ?n - 1)"
  proof (cases "?n")
    case (Suc k)
    have "Suc k + 18446744073709551615 = k + size_mod" by simp
    moreover have "db_data b \<noteq> []" using Suc by auto
    ultimately show ?thesis using Suc small by (simp add: size_add_def size_of_int_def mod_if)
  qed (simp add: size_add_def size_of_int_def size_max_def)
  show "AddJoinedString [] [c] b = (if db_data b = [] then None
       else Some (b\<lparr>db_data := butlast (db_data b), db_offset := db_offset b @ [?n - 1], db_bad := db_bad b\<rparr>))"
    unfolding AddJoinedString_def Let_def t m assms(1) using small
    by (auto simp: put_string_def write_at_def size_max_def butlast_conv_take assms(1))
qed

lemma joined_string_added_witness:
  "let b = snd (AddString [1, 2] (new_dynamic_buffer kDefaultMaxLength))
   in AddJoinedString [[3], [4, 5]] [0] b = Some (snd (AddString [3, 0, 4, 5] b)) \<and>
      map_option db_data (AddJoinedString [] [0] b) = Some [1]"
proof -
  let ?b = "snd (AddString [1, 2] (new_dynamic_buffer kDefaultMaxLength))"
  have b: "?b = \<lparr>db_data = [1, 2], db_offset = [0, 2], db_max_length = kDefaultMaxLength, db_bad = False\<rparr>"
    by (simp add: AddString_result new_dynamic_buffer_def kDefaultMaxLength_def)
  from joined_string_added [of ?b "[[3], [4, 5]]" "[0]" 0] show ?thesis unfolding b Let_def
    by (simp add: kDefaultMaxLength_def)
qed

section \<open>Running out of memory\<close>

text \<open>
  When the memory for the strings of a tensor cannot be had, the tensor is reset nevertheless: it has no data and
  a size of \<open>2 ^ 64 - 1\<close> bytes.
\<close>

lemma string_write_failure:
  assumes "fst (snd (WriteToBuffer mem b h)) = 0" and "WriteToTensor mem malloc_ok new_shape b tensor h = (t, h')"
  shows "t_data t = 0 \<and> t_bytes t = size_max"
proof -
  obtain h1 where w: "WriteToBuffer mem b h = (-1, 0, h1)"
    using assms(1) by (auto simp: WriteToBuffer_def Let_def split: prod.splits if_splits)
  from assms(2) show ?thesis unfolding WriteToTensor_def w prod.case Let_def
    by (auto simp: TfLiteTensorReset_def case_prod_unfold Let_def size_of_int_def size_max_def)
qed

lemma string_write_failure_witness:
  "let b = snd (AddString [1, 2] (new_dynamic_buffer kDefaultMaxLength));
       t = fst (WriteToTensorAsVector (\<lambda>_. None) (\<lambda>_. True) b undefined empty_heap)
   in t_data t = 0 \<and> t_bytes t = 18446744073709551615"
  using string_write_failure [of "\<lambda>_. None" "snd (AddString [1, 2] (new_dynamic_buffer kDefaultMaxLength))" empty_heap "\<lambda>_. True"
      "Some [wrap_i32 (int (size_sub (length (db_offset (snd (AddString [1, 2] (new_dynamic_buffer kDefaultMaxLength))))) 1))]" undefined]
  by (simp add: WriteToTensorAsVector_def WriteToBuffer_def malloc_def Let_def size_max_def prod_eq_iff)

end
