(* ===== verification/Verifier.thy ===== *)
theory Verifier
  imports InterpreterBuilder StringUtil
begin

text \<open>
  The verification of a model before it is used (\<open>lite/core/tools/verifier.cc\<close>): the buffers of constant tensors, sparse tensors, and
  that every input of an operator is produced before. The memory of the file is a function \<open>mem\<close> from addresses to
  bytes; the verifier of the table format, which comes first, is a parameter that returns the model.
\<close>

section \<open>String tensors\<close>

definition buffer_bytes :: "(nat \<Rightarrow> byte) \<Rightarrow> nat \<times> nat \<Rightarrow> byte list" where
  "buffer_bytes mem region = map (\<lambda>k. mem (fst region + k)) [0..<snd region]"

abbreviation UINT_MAX :: nat where
  "UINT_MAX \<equiv> 4294967295"

definition kMaxNumString :: nat where
  "kMaxNumString = UINT_MAX div 4 - 2"

text \<open>The loop over the offsets compares every one with \<open>prev_ptr\<close>, which keeps its first value.\<close>

definition offset_fits :: "byte list \<Rightarrow> nat \<Rightarrow> nat \<Rightarrow> bool" where
  "offset_fits buffer prev_ptr offset = (case read_u32 buffer offset of
     None \<Rightarrow> False
   | Some n \<Rightarrow> (let string_offset = wrap_i32 (int n)
               in \<not> (string_offset < wrap_i32 (int prev_ptr) \<or> string_offset > wrap_i32 (int (length buffer)))))"

definition VerifyStringTensorBuffer :: "byte list \<Rightarrow> bool" where
  "VerifyStringTensorBuffer buffer =
     (let buffer_size = length buffer in
      if buffer_size < 4 then False
      else (case read_u32 buffer 0 of
          None \<Rightarrow> False
        | Some num_strings \<Rightarrow>
           if num_strings > kMaxNumString then False
           else
             (let header_offsets = (num_strings + 2) * 4 in
              if buffer_size < header_offsets then False
              else if read_u32 buffer 4 \<noteq> Some header_offsets then False
              else if \<not> list_all (\<lambda>i. offset_fits buffer header_offsets (4 * (i + 1))) [1..<Suc num_strings] then False
              else read_u32 buffer (4 * (num_strings + 1)) = Some buffer_size)))"

section \<open>Sparse tensors\<close>

definition CheckArraySegments :: "DimensionMetadata \<Rightarrow> bool" where
  "CheckArraySegments d \<longleftrightarrow> Copy_vector (fd_array_segments d) \<noteq> None"

definition CheckArrayIndices :: "DimensionMetadata \<Rightarrow> bool" where
  "CheckArrayIndices d \<longleftrightarrow> Copy_vector (fd_array_indices d) \<noteq> None"

definition segments :: "DimensionMetadata \<Rightarrow> int list" where
  "segments d = (case Copy_vector (fd_array_segments d) of None \<Rightarrow> [] | Some xs \<Rightarrow> xs)"

definition indices :: "DimensionMetadata \<Rightarrow> int list" where
  "indices d = (case Copy_vector (fd_array_indices d) of None \<Rightarrow> [] | Some xs \<Rightarrow> xs)"

text \<open>
  One level of the tree. An empty vector of segments makes the code read outside of it, at index -1; the model rejects the
  tensor there.
\<close>

definition count_level :: "DimensionMetadata \<Rightarrow> int \<Rightarrow> nat \<Rightarrow> nat option" where
  "count_level d dim_size num_elements =
     (if fd_format d = 0
      then (if fd_dense_size d \<noteq> dim_size then None else Some (size_mul num_elements (size_of_int (fd_dense_size d))))
      else if \<not> CheckArraySegments d \<or> \<not> CheckArrayIndices d then None
      else if \<not> list_all (\<lambda>j. \<not> (segments d ! j < 0 \<or> segments d ! (j + 1) < 0 \<or> segments d ! j > segments d ! (j + 1)))
                  [0..<length (segments d) - 1] then None
      else if wrap_i32 (int num_elements) \<noteq> int (length (segments d)) - 1 then None
      else if segments d = [] \<or> int (length (indices d)) \<noteq> last (segments d) then None
      else if \<not> list_all (\<lambda>i. \<not> (i < 0 \<or> i \<ge> dim_size)) (indices d) then None
      else Some (length (indices d)))"

fun count_levels :: "(int \<times> DimensionMetadata) list \<Rightarrow> int list \<Rightarrow> nat \<Rightarrow> nat option" where
  "count_levels [] dim_sizes num_elements = Some num_elements"
| "count_levels ((original_dim, d) # levels) dim_sizes num_elements =
     Option.bind (count_level d (dim_sizes ! nat original_dim) num_elements) (count_levels levels dim_sizes)"

definition VerifyAndCountElements :: "int list \<Rightarrow> DimensionMetadata list \<Rightarrow> int list \<Rightarrow> nat option" where
  "VerifyAndCountElements traversal_order dim_metadata dim_sizes = count_levels (zip traversal_order dim_metadata) dim_sizes 1"

text \<open>Division of \<open>int\<close> rounds towards zero.\<close>

definition int_quot :: "int \<Rightarrow> int \<Rightarrow> int" where
  "int_quot a b = (if a < 0 then - ((- a) div b) else a div b)"

fun expand_blocks :: "(int \<times> DimensionMetadata \<times> int) list \<Rightarrow> int list \<Rightarrow> int list option" where
  "expand_blocks [] sizes = Some sizes"
| "expand_blocks ((original_block_dim, d, mapped_block_dim) # blocks) sizes =
     (if original_block_dim < 0 \<or> original_block_dim \<ge> int (length sizes) then None
      else if fd_dense_size d \<le> 0 then None
      else
        (let sizes = sizes[nat original_block_dim := fd_dense_size d] in
         if mapped_block_dim < 0 \<or> mapped_block_dim \<ge> int (length sizes) then None
         else expand_blocks blocks
                (sizes[nat mapped_block_dim := int_quot (sizes ! nat mapped_block_dim) (fd_dense_size d)])))"

definition VerifyAndCountSparseElements :: "int list \<Rightarrow> SparsityParameters \<Rightarrow> nat option" where
  "VerifyAndCountSparseElements shape sparsity = (case (fp_traversal_order sparsity, fp_dim_metadata sparsity) of
     (Some order, Some metadata) \<Rightarrow>
       (let total_dims = length order; original_rank = length shape; block_rank = total_dims - original_rank in
        if total_dims < original_rank \<or> length metadata \<noteq> total_dims then None
        else if block_rank > 0 \<and> (case fp_block_map sparsity of None \<Rightarrow> True | Some m \<Rightarrow> length m \<noteq> block_rank) then None
        else if sort (take original_rank order) \<noteq> map int [0..<original_rank] then None
        else if sort (drop original_rank order) \<noteq> map int [original_rank..<total_dims] then None
        else
          (let block_map = (case fp_block_map sparsity of None \<Rightarrow> [] | Some m \<Rightarrow> m)
           in Option.bind (expand_blocks (zip (drop original_rank order) (zip (drop original_rank metadata) (take block_rank block_map)))
                (shape @ replicate block_rank 0))
                (VerifyAndCountElements order metadata)))
   | _ \<Rightarrow> None)"

section \<open>Numeric tensors\<close>

fun dense_elements :: "int list \<Rightarrow> nat \<Rightarrow> nat option" where
  "dense_elements [] n = Some n"
| "dense_elements (dim # dims) n =
     (let n = size_mul n (size_of_int dim) in if n > UINT_MAX then None else dense_elements dims n)"

definition type_bytes :: "int \<Rightarrow> nat \<Rightarrow> nat option" where
  "type_bytes tensor_type n =
     (if tensor_type \<in> {0, 2, 15} then Some (size_mul n 4)
      else if tensor_type \<in> {1, 18, 7, 16} then Some (size_mul n 2)
      else if tensor_type \<in> {10, 4, 12, 8} then Some (size_mul n 8)
      else if tensor_type = 19 then Some (size_add n 3 div 4)
      else if tensor_type \<in> {20, 17} then Some (size_add n 1 div 2)
      else if tensor_type \<in> {3, 9, 6} then Some (size_mul n 1)
      else if tensor_type = 11 then Some (size_mul n 16)
      else None)"

definition count_tensor_elements :: "int list \<Rightarrow> SparsityParameters option \<Rightarrow> nat option" where
  "count_tensor_elements shape sparsity = (case sparsity of
     Some sp \<Rightarrow> (case VerifyAndCountSparseElements shape sp of
         None \<Rightarrow> None | Some n \<Rightarrow> if n > UINT_MAX then None else Some n)
   | None \<Rightarrow> dense_elements shape 1)"

definition VerifyNumericTensorBuffer :: "Tensor \<Rightarrow> nat \<Rightarrow> bool" where
  "VerifyNumericTensorBuffer tensor buffer_size = (case ft_shape tensor of
     None \<Rightarrow> True
   | Some shape \<Rightarrow> (case count_tensor_elements shape (ft_sparsity tensor) of
       None \<Rightarrow> False
     | Some n \<Rightarrow> (case type_bytes (ft_type tensor) n of
         None \<Rightarrow> False
       | Some bytes_required \<Rightarrow> \<not> bytes_required > UINT_MAX \<and> bytes_required = buffer_size)))"

section \<open>Graphs\<close>

definition VerifyOperators :: "Operator list \<Rightarrow> bool" where
  "VerifyOperators operators = list_all (\<lambda>op. fo_inputs op \<noteq> None \<and> fo_outputs op \<noteq> None) operators"

definition IsConstantTensor :: "Tensor \<Rightarrow> Model \<Rightarrow> bool" where
  "IsConstantTensor tensor model = (case fm_buffers model of
     None \<Rightarrow> False
   | Some buffers \<Rightarrow> ft_buffer tensor > 0 \<and> ft_buffer tensor < length buffers \<and> fb_array (buffers ! ft_buffer tensor) \<noteq> None)"

definition constant_tensors :: "Model \<Rightarrow> Tensor list \<Rightarrow> int set" where
  "constant_tensors model tensors = set (map int (filter (\<lambda>i. IsConstantTensor (tensors ! i) model) [0..<length tensors]))"

definition variable_tensors :: "Model \<Rightarrow> Tensor list \<Rightarrow> int set" where
  "variable_tensors model tensors =
     set (map int (filter (\<lambda>i. \<not> IsConstantTensor (tensors ! i) model \<and> ft_is_variable (tensors ! i)) [0..<length tensors]))"

text \<open>The outputs of one operator; \<open>None\<close> if one of them is given already.\<close>

fun add_outputs :: "int set \<Rightarrow> int list \<Rightarrow> int set \<Rightarrow> int set option" where
  "add_outputs given [] output_tensors = Some output_tensors"
| "add_outputs given (output_idx # outputs) output_tensors =
     (if output_idx \<in> given then None
      else if output_idx \<in> output_tensors then None
      else add_outputs given outputs (insert output_idx output_tensors))"

fun check_operators :: "nat \<Rightarrow> int set \<Rightarrow> Operator list \<Rightarrow> int set \<Rightarrow> bool" where
  "check_operators num_codes given [] output_tensors = True"
| "check_operators num_codes given (op # ops) output_tensors =
     (if fo_opcode_index op \<ge> num_codes then False
      else if \<not> list_all (\<lambda>input_idx. input_idx = kTfLiteOptionalTensor \<or> input_idx \<in> given \<or> input_idx \<in> output_tensors)
                  (FlatBufferIntArrayToVector (fo_inputs op)) then False
      else (case add_outputs given (FlatBufferIntArrayToVector (fo_outputs op)) output_tensors of
          None \<Rightarrow> False | Some output_tensors \<Rightarrow> check_operators num_codes given ops output_tensors))"

text \<open>A missing vector of operator codes has no codes.\<close>

definition VerifySubGraphConsistency :: "Model \<Rightarrow> SubGraph \<Rightarrow> bool" where
  "VerifySubGraphConsistency model subgraph =
     (let tensors = (case fs_tensors subgraph of None \<Rightarrow> [] | Some ts \<Rightarrow> ts);
          given = constant_tensors model tensors \<union> variable_tensors model tensors \<union>
            set (FlatBufferIntArrayToVector (fs_inputs subgraph));
          num_codes = (case fm_operator_codes model of None \<Rightarrow> 0 | Some codes \<Rightarrow> length codes)
      in check_operators num_codes given (model_operators subgraph) {})"

definition VerifySubGraphs :: "Model \<Rightarrow> bool" where
  "VerifySubGraphs model = (case fm_subgraphs model of
     None \<Rightarrow> False
   | Some subgraphs \<Rightarrow> list_all (\<lambda>g. (case fs_operators g of
         None \<Rightarrow> False | Some ops \<Rightarrow> VerifyOperators ops \<and> VerifySubGraphConsistency model g)) subgraphs)"

section \<open>Models\<close>

definition VerifyTensor :: "(nat \<Rightarrow> byte) \<Rightarrow> Buffer list \<Rightarrow> Tensor \<Rightarrow> bool" where
  "VerifyTensor mem buffers tensor =
     (if ft_buffer tensor = 0 then True
      else if ft_buffer tensor \<ge> length buffers then False
      else (case fb_array (buffers ! ft_buffer tensor) of
          None \<Rightarrow> True
        | Some region \<Rightarrow>
           (if ft_type tensor = 5 then VerifyStringTensorBuffer (buffer_bytes mem region)
            else VerifyNumericTensorBuffer tensor (snd region))))"

definition VerifyTensors :: "(nat \<Rightarrow> byte) \<Rightarrow> Model \<Rightarrow> bool" where
  "VerifyTensors mem model = (case fm_subgraphs model of
     None \<Rightarrow> True
   | Some subgraphs \<Rightarrow> (case fm_buffers model of
       None \<Rightarrow> False
     | Some buffers \<Rightarrow> list_all (\<lambda>g. case fs_tensors g of
         None \<Rightarrow> True | Some tensors \<Rightarrow> list_all (VerifyTensor mem buffers) tensors) subgraphs))"

definition code_indices :: "bool \<Rightarrow> SubGraph list \<Rightarrow> nat set" where
  "code_indices validation subgraphs = set (map fo_opcode_index (concat (map model_operators
     (filter (\<lambda>g. (case fs_name g of None \<Rightarrow> False | Some name \<Rightarrow> IsValidationSubgraph name) = validation) subgraphs))))"

definition VerifyOpCode :: "SubGraph list \<Rightarrow> OpResolver \<Rightarrow> nat \<Rightarrow> OperatorCode \<Rightarrow> bool" where
  "VerifyOpCode subgraphs resolver i opcode =
     (let builtin_code = GetBuiltinCode opcode in
      if builtin_code < 0 \<or> builtin_code > BuiltinOperator_MAX then False
      else if builtin_code = kTfLiteBuiltinCustom
      then (case oc_custom_code opcode of
          None \<Rightarrow> False
        | Some name \<Rightarrow>
           (if name = [] then False
            else if or_find_custom resolver name (oc_version opcode) = None
            then \<not> (i \<in> code_indices False subgraphs \<or> i \<notin> code_indices True subgraphs)
            else True))
      else or_find_builtin resolver builtin_code (oc_version opcode) \<noteq> None)"

definition VerifyOps :: "Model \<Rightarrow> OpResolver \<Rightarrow> bool" where
  "VerifyOps model resolver = (case fm_operator_codes model of
     None \<Rightarrow> True
   | Some codes \<Rightarrow> (let subgraphs = (case fm_subgraphs model of None \<Rightarrow> [] | Some gs \<Rightarrow> gs)
       in list_all (\<lambda>(i, opcode). VerifyOpCode subgraphs resolver i opcode) (enumerate 0 codes)))"

definition VerifyModel :: "(nat \<Rightarrow> byte) \<Rightarrow> Model option \<Rightarrow> bool" where
  "VerifyModel mem model = (case model of
     None \<Rightarrow> False
   | Some m \<Rightarrow> (if fm_version m \<noteq> 3 then False else VerifySubGraphs m \<and> VerifyTensors mem m))"

definition Verify :: "(nat \<Rightarrow> byte) \<Rightarrow> (nat \<Rightarrow> nat \<Rightarrow> Model option) \<Rightarrow> nat \<Rightarrow> nat \<Rightarrow> bool" where
  "Verify mem verify_format buf len = VerifyModel mem (verify_format buf len)"

definition Verify_with_resolver ::
    "(nat \<Rightarrow> byte) \<Rightarrow> (nat \<Rightarrow> nat \<Rightarrow> Model option) \<Rightarrow> nat \<Rightarrow> nat \<Rightarrow> OpResolver \<Rightarrow> bool" where
  "Verify_with_resolver mem verify_format buf len resolver = (case verify_format buf len of
     None \<Rightarrow> False
   | Some m \<Rightarrow> VerifyModel mem (Some m) \<and> VerifyOps m resolver)"

section \<open>Strings\<close>

lemma read_header_u32:
  assumes "k < length xs" "0 \<le> xs ! k" "xs ! k \<le> i32_max"
  shows "read_u32 (concat (map le32 xs) @ rest) (4 * k) = Some (nat (xs ! k))"
proof -
  have "read_i32 (concat (map le32 xs) @ rest) (4 * k) = Some (xs ! k)"
    using read_header [OF assms(1), of rest] assms by (simp add: wrap_i32_exact)
  then obtain n where n: "read_u32 (concat (map le32 xs) @ rest) (4 * k) = Some n" and w: "wrap_i32 (int n) = xs ! k"
    by (auto simp: read_i32_def)
  have "int n = xs ! k"
  proof (cases "n < 2147483648")
    case True
    then show ?thesis using w by (simp add: wrap_i32_exact)
  next
    case False
    then have "wrap_i32 (int n) = int n - 4294967296"
      using read_u32_bound [OF n] wrap_i32_mod [of "int n - 4294967296"] by (simp add: wrap_i32_def mod_if)
    then show ?thesis using w assms(2) read_u32_bound [OF n] by simp
  qed
  then show ?thesis using n by auto
qed

lemma string_block_verified:
  assumes "length (string_block ss) \<le> nat i32_max"
  shows "VerifyStringTensorBuffer (string_block ss)"
proof -
  let ?b = "string_block ss" and ?n = "length ss"
  have len: "length ?b = (?n + 2) * 4 + length (concat ss)" by (simp add: string_block_length)
  have r: "read_u32 ?b (4 * (k + 1)) = Some (string_offset ss k)" if "k \<le> ?n" for k
  proof -
    have "string_header ss ! (k + 1) = int (string_offset ss k)" using that by (simp add: string_header_def del: upt_Suc)
    moreover have "int (string_offset ss k) \<le> i32_max"
      using assms content_length_le [of ss k] by (simp add: string_offset_def string_block_length)
    ultimately show ?thesis using read_header_u32 [of "k + 1" "string_header ss" "concat ss"] that
      by (simp add: string_block_def)
  qed
  have 0: "read_u32 ?b 0 = Some ?n"
    using read_header_u32 [of 0 "string_header ss" "concat ss"] assms len
    by (simp add: string_block_def [symmetric]) (simp add: string_header_def)
  have f: "offset_fits ?b ((?n + 2) * 4) (4 * (k + 1))" if "k \<le> ?n" for k
  proof -
    have "(?n + 2) * 4 \<le> string_offset ss k" "string_offset ss k \<le> length ?b"
      using content_length_le [of ss k] len by (simp_all add: string_offset_def)
    then show ?thesis using r [OF that] assms len unfolding offset_fits_def by (simp add: wrap_i32_exact Let_def)
  qed
  have l: "list_all (\<lambda>i. offset_fits ?b ((?n + 2) * 4) (4 * (i + 1))) [1..<Suc ?n]"
    using f by (auto simp: list_all_iff simp del: upt_Suc)
  have "string_offset ss 0 = (?n + 2) * 4" "string_offset ss ?n = length ?b"
    by (simp_all add: string_offset_def content_length_def len)
  then have "read_u32 ?b 4 = Some ((?n + 2) * 4)" "read_u32 ?b (4 * (?n + 1)) = Some (length ?b)"
    using r [of 0] r [of ?n] by simp_all
  moreover have "?n \<le> kMaxNumString" "\<not> length ?b < 4" "\<not> length ?b < (?n + 2) * 4" using assms len by (simp_all add: kMaxNumString_def)
  ultimately show ?thesis unfolding VerifyStringTensorBuffer_def Let_def 0 option.case using l by simp
qed

text \<open>
  Claim C28. Strings that a dynamic buffer accepts, as long as they fit in \<open>2 ^ 31 - 1\<close> bytes with their header, are written to one block of exactly
  the size returned, without a write outside of it; the block passes the verifier, has the number of strings, and each
  of them is read back from it unchanged.
\<close>

theorem string_tensor_roundtrip:
  assumes "AddStrings ss (new_dynamic_buffer kDefaultMaxLength) = Some b"
    and "4 * (length ss + 2) + length (concat ss) \<le> 2147483647" and "malloc_works mem" "0 < hp_next h"
    and "WriteToBuffer mem b h = (bytes, p, h')"
  shows "\<exists>raw. hp_blocks h' p = Some raw \<and> bytes = int (length raw) \<and> hp_bad h' = hp_bad h \<and> VerifyStringTensorBuffer raw \<and>
    GetStringCount raw = Some (int (length ss)) \<and>
    (\<forall>i<length ss. \<exists>r. GetString raw i = Some r \<and> string_bytes raw r = Some (ss ! i))"
proof -
  have h: "holds ss b" using AddStrings_holds [OF holds_new assms(1)] by simp
  have l: "length (string_block ss) \<le> nat i32_max" using assms(2) by (simp add: string_block_length)
  from WriteToBuffer_block [OF h l assms(3,4)] assms(5)
  have "hp_blocks h' p = Some (string_block ss)" "bytes = int (length (string_block ss))" "hp_bad h' = hp_bad h" by auto
  then show ?thesis using string_block_verified [OF l] GetStringCount_block [OF l] GetString_block [OF l] by blast
qed

theorem string_tensor_roundtrip_witness:
  "\<exists>b bytes p h' raw. AddStrings [[104, 105], [], [33]] (new_dynamic_buffer kDefaultMaxLength) = Some b \<and>
     WriteToBuffer (\<lambda>n. Some (replicate n 0)) b empty_heap = (bytes, p, h') \<and> hp_blocks h' p = Some raw \<and>
     VerifyStringTensorBuffer raw \<and> GetStringCount raw = Some 3 \<and>
     (\<exists>r. GetString raw 2 = Some r \<and> string_bytes raw r = Some [33])"
proof -
  let ?ss = "[[104, 105], [], [33]] :: byte list list"
  have "\<exists>b. AddStrings ?ss (new_dynamic_buffer kDefaultMaxLength) = Some b"
    by (simp add: AddString_result new_dynamic_buffer_def kDefaultMaxLength_def)
  then obtain b where b: "AddStrings ?ss (new_dynamic_buffer kDefaultMaxLength) = Some b" by blast
  obtain bytes p h' where w: "WriteToBuffer (\<lambda>n. Some (replicate n 0)) b empty_heap = (bytes, p, h')"
    by (metis prod.exhaust)
  have m: "malloc_works (\<lambda>n. Some (replicate n 0))" "0 < hp_next empty_heap"
    by (simp_all add: malloc_works_def empty_heap_def)
  have "4 * (length ?ss + 2) + length (concat ?ss) \<le> 2147483647" by simp
  from string_tensor_roundtrip [OF b this m w] obtain raw where
    r: "hp_blocks h' p = Some raw" "VerifyStringTensorBuffer raw" "GetStringCount raw = Some (int (length ?ss))"
    and "\<forall>i<length ?ss. \<exists>r. GetString raw i = Some r \<and> string_bytes raw r = Some (?ss ! i)" by blast
  from this(4) [rule_format, of 2] have "\<exists>r. GetString raw 2 = Some r \<and> string_bytes raw r = Some [33]" by simp
  moreover have "GetStringCount raw = Some 3" using r(3) by simp
  ultimately show ?thesis using b w r(1,2) by blast
qed

lemma verified_offset:
  assumes "VerifyStringTensorBuffer raw" "int (length raw) \<le> i32_max" "read_u32 raw 0 = Some n" "k \<le> n"
  shows "\<exists>off. read_i32 raw (4 * (k + 1)) = Some off \<and> int ((n + 2) * 4) \<le> off \<and> off \<le> int (length raw)"
proof -
  have v: "(n + 2) * 4 \<le> length raw" "read_u32 raw 4 = Some ((n + 2) * 4)"
    "list_all (\<lambda>i. offset_fits raw ((n + 2) * 4) (4 * (i + 1))) [1..<Suc n]"
    using assms(1,3) by (simp_all add: VerifyStringTensorBuffer_def Let_def split: if_splits)
  show ?thesis
  proof (cases "k = 0")
    case True
    then show ?thesis using v assms(2) by (simp add: read_i32_def wrap_i32_exact)
  next
    case False
    then have "k \<in> set [1..<Suc n]" using assms(4) by (simp del: upt_Suc)
    then have "offset_fits raw ((n + 2) * 4) (4 * (k + 1))" using v(3) by (simp add: list_all_iff del: upt_Suc)
    then obtain m where m: "read_u32 raw (4 * (k + 1)) = Some m"
      and "wrap_i32 (int ((n + 2) * 4)) \<le> wrap_i32 (int m)" "wrap_i32 (int m) \<le> wrap_i32 (int (length raw))"
      by (auto simp: offset_fits_def Let_def not_less split: option.splits)
    moreover have "wrap_i32 (int ((n + 2) * 4)) = int ((n + 2) * 4)" "wrap_i32 (int (length raw)) = int (length raw)"
      using v(1) assms(2) by (simp_all add: wrap_i32_exact)
    ultimately show ?thesis by (simp add: read_i32_def)
  qed
qed

text \<open>
  Claim C27. In a verified buffer of strings the offset of every string can be read and lies inside of the buffer. The string itself lies inside
  exactly when its offset is not behind that of the next one, which the verifier does not check: it compares every
  offset with the end of the header instead of the one before.
\<close>

theorem verified_string_access:
  assumes "VerifyStringTensorBuffer raw" and "int (length raw) \<le> i32_max"
  shows "\<exists>n. GetStringCount raw = Some (int n) \<and>
    (\<forall>i<n. \<exists>r off. GetString raw i = Some r \<and> read_i32 raw (4 * (i + 2)) = Some off \<and> 0 \<le> sr_str r \<and>
       sr_str r \<le> int (length raw) \<and> (string_bytes raw r \<noteq> None \<longleftrightarrow> sr_str r \<le> off))"
proof -
  obtain n where n: "read_u32 raw 0 = Some n" "n \<le> kMaxNumString"
    using assms(1) by (auto simp: VerifyStringTensorBuffer_def Let_def split: option.splits if_splits)
  have "\<exists>r off. GetString raw i = Some r \<and> read_i32 raw (4 * (i + 2)) = Some off \<and> 0 \<le> sr_str r \<and>
       sr_str r \<le> int (length raw) \<and> (string_bytes raw r \<noteq> None \<longleftrightarrow> sr_str r \<le> off)" if i: "i < n" for i
  proof -
    obtain a where a: "read_i32 raw (4 * (i + 1)) = Some a" "int ((n + 2) * 4) \<le> a" "a \<le> int (length raw)"
      using verified_offset [OF assms n(1) less_imp_le [OF i]] by blast
    obtain c where c: "read_i32 raw (4 * (i + 2)) = Some c" "int ((n + 2) * 4) \<le> c" "c \<le> int (length raw)"
      using verified_offset [OF assms n(1), of "i + 1"] i by (auto simp: Suc_le_eq)
    have w: "wrap_i32 (c - a) = c - a" using a c assms(2) by (simp add: wrap_i32_exact)
    have g: "GetString raw i = Some \<lparr>sr_str = a, sr_len = size_of_int (c - a)\<rparr>"
      unfolding GetString_def a(1) c(1) using w by simp
    have "string_bytes raw \<lparr>sr_str = a, sr_len = size_of_int (c - a)\<rparr> \<noteq> None \<longleftrightarrow> a \<le> c"
    proof (cases "a \<le> c")
      case True
      then show ?thesis using a c assms(2) by (simp add: string_bytes_def size_of_int_exact)
    next
      case False
      then have "2 ^ 31 \<le> size_of_int (c - a)" using a c assms(2) by (intro size_of_int_negative) simp_all
      then show ?thesis using False assms(2) by (simp add: string_bytes_def)
    qed
    then show ?thesis using g c(1) a by auto
  qed
  moreover have "GetStringCount raw = Some (int n)"
    using n by (simp add: GetStringCount_def read_i32_def kMaxNumString_def wrap_i32_exact)
  ultimately show ?thesis by blast
qed

text \<open>Three strings, of which the second begins at the end of the buffer and ends before its beginning.\<close>

definition w_reversed :: "byte list" where
  "w_reversed = concat (map le32 [3, 20, 24, 20, 24]) @ [1, 2, 3, 4]"

theorem verified_string_access_witness:
  "VerifyStringTensorBuffer w_reversed \<and> GetStringCount w_reversed = Some 3 \<and>
   (\<exists>r. GetString w_reversed 1 = Some r \<and> string_bytes w_reversed r = None)"
proof -
  have w: "w_reversed = [3, 0, 0, 0, 20, 0, 0, 0, 24, 0, 0, 0, 20, 0, 0, 0, 24, 0, 0, 0, 1, 2, 3, 4]"
    by (simp add: w_reversed_def le32_def)
  have v: "VerifyStringTensorBuffer w_reversed"
    by (simp add: w VerifyStringTensorBuffer_def read_u32_def kMaxNumString_def offset_fits_def wrap_i32_def Let_def upt_rec)
  have c: "GetStringCount w_reversed = Some 3" "read_i32 w_reversed 12 = Some 20"
    "map_option sr_str (GetString w_reversed 1) = Some 24"
    by (simp_all add: w GetStringCount_def GetString_def read_i32_def read_u32_def wrap_i32_def)
  have "int (length w_reversed) \<le> i32_max" by (simp add: w)
  from verified_string_access [OF v this] c obtain r where
    "GetString w_reversed 1 = Some r" "string_bytes w_reversed r \<noteq> None \<longleftrightarrow> sr_str r \<le> 20" by (fastforce dest: spec [of _ 1])
  then show ?thesis using v c by auto
qed

section \<open>Sizes\<close>

text \<open>Where no count goes over \<open>UINT_MAX\<close> the runtime counts the same elements without an overflow.\<close>

lemma dense_count:
  "dense_elements dims n = Some m \<Longrightarrow> n \<le> UINT_MAX \<Longrightarrow> \<forall>d\<in>set dims. 0 \<le> d \<and> d \<le> i32_max \<Longrightarrow>
    count_elements dims n = Some m \<and> m \<le> UINT_MAX"
proof (induction dims arbitrary: n)
  case (Cons d dims)
  have d: "size_of_int d = nat d" using Cons.prems(3) by (simp add: size_of_int_exact)
  have "nat d \<le> 2147483647" using Cons.prems(3) by (simp add: nat_le_iff)
  with Cons.prems(2) have "n * nat d \<le> UINT_MAX * 2147483647" by (rule mult_le_mono)
  then have k: "n * nat d < size_mod" by simp
  have m: "MultiplyAndCheckOverflow n (nat d) = (kTfLiteOk, n * nat d)"
    using MultiplyAndCheckOverflow_iff [of n "nat d"] k Cons.prems(2) \<open>nat d \<le> 2147483647\<close> by simp
  have "n * nat d \<le> UINT_MAX" "dense_elements dims (n * nat d) = Some m"
    using Cons.prems(1) k by (simp_all add: d size_mul_exact Let_def split: if_splits)
  then show ?case using Cons.IH [of "n * nat d"] Cons.prems(3) m d by simp
qed simp

lemma type_bytes_packed:
  assumes "n \<le> UINT_MAX" and "ConvertTensorType t = (kTfLiteOk, type)"
  shows "type_bytes t n = (case GetSizeOfType type of
    None \<Rightarrow> None
  | Some type_size \<Rightarrow> (case MultiplyAndCheckOverflow type_size n of (st, bytes) \<Rightarrow>
      if st \<noteq> kTfLiteOk then None
      else if type = kTfLiteInt4 \<or> type = kTfLiteUInt4 then Some (size_add bytes 1 div 2)
      else if type = kTfLiteInt2 then Some (size_add bytes 3 div 4)
      else Some bytes))"
proof -
  have m: "MultiplyAndCheckOverflow k n = (kTfLiteOk, k * n)" if "k \<le> 16" for k
  proof -
    have "k * n \<le> 16 * UINT_MAX" by (rule mult_le_mono) (use that assms(1) in simp_all)
    then show ?thesis using MultiplyAndCheckOverflow_iff [of k n] that assms(1) by simp
  qed
  have s: "size_mul n k = k * n" if "k \<le> 16" for k
  proof -
    have "k * n \<le> 16 * UINT_MAX" by (rule mult_le_mono) (use that assms(1) in simp_all)
    then show ?thesis by (simp add: size_mul_def mult.commute)
  qed
  have t: "0 \<le> t" "t < 21" using assms(2) by (auto simp: ConvertTensorType_def Let_def split: if_splits)
  then have "t = 0 \<or> t = 1 \<or> t = 2 \<or> t = 3 \<or> t = 4 \<or> t = 5 \<or> t = 6 \<or> t = 7 \<or> t = 8 \<or> t = 9 \<or> t = 10 \<or> t = 11 \<or> t = 12 \<or>
    t = 13 \<or> t = 14 \<or> t = 15 \<or> t = 16 \<or> t = 17 \<or> t = 18 \<or> t = 19 \<or> t = 20" by presburger
  then show ?thesis using assms(2)
    by (elim disjE) (simp_all add: ConvertTensorType_def Let_def type_bytes_def m s)
qed

lemma type_bytes_type: "type_bytes t n \<noteq> None \<Longrightarrow> \<exists>type. ConvertTensorType t = (kTfLiteOk, type)"
  by (auto simp: type_bytes_def ConvertTensorType_def Let_def split: if_splits)

lemma type_bytes_required:
  assumes "dense_elements dims 1 = Some n" and "\<forall>d\<in>set dims. 0 \<le> d \<and> d \<le> i32_max"
    and "ConvertTensorType t = (kTfLiteOk, type)"
  shows "BytesRequired type dims = type_bytes t n"
  using dense_count [OF assms(1) _ assms(2)] type_bytes_packed [OF _ assms(3), of n] by (simp add: BytesRequired_def)

text \<open>
  For a dense numeric tensor with a shape the verifier and the runtime compute the same size: the verifier accepts the
  buffer exactly when no product of leading dimensions is over \<open>UINT_MAX\<close>, the runtime knows the element type, and the
  number of bytes that it requires is that of the buffer, at most \<open>UINT_MAX\<close>.
\<close>

lemma verified_size_required:
  assumes "ft_shape tensor = Some dims" "ft_sparsity tensor = None" and "\<forall>d\<in>set dims. 0 \<le> d \<and> d \<le> i32_max"
  shows "VerifyNumericTensorBuffer tensor n \<longleftrightarrow>
    dense_elements dims 1 \<noteq> None \<and> n \<le> UINT_MAX \<and>
    (\<exists>type. ConvertTensorType (ft_type tensor) = (kTfLiteOk, type) \<and> BytesRequired type dims = Some n)"
proof (cases "dense_elements dims 1")
  case None
  then show ?thesis using assms by (simp add: VerifyNumericTensorBuffer_def count_tensor_elements_def)
next
  case (Some m)
  have v: "VerifyNumericTensorBuffer tensor n \<longleftrightarrow> type_bytes (ft_type tensor) m = Some n \<and> n \<le> UINT_MAX"
    using assms Some by (auto simp: VerifyNumericTensorBuffer_def count_tensor_elements_def split: option.split)
  show ?thesis
  proof (cases "\<exists>type. ConvertTensorType (ft_type tensor) = (kTfLiteOk, type)")
    case True
    then obtain type where t: "ConvertTensorType (ft_type tensor) = (kTfLiteOk, type)" by blast
    from type_bytes_required [OF Some assms(3) t] show ?thesis using v t Some by auto
  next
    case False
    then show ?thesis using v Some type_bytes_type [of "ft_type tensor" m] by auto
  qed
qed

lemma verified_size_required_witness:
  "VerifyNumericTensorBuffer w_float 8 \<and> BytesRequired kTfLiteFloat32 [2] = Some 8"
proof -
  have c: "ConvertTensorType (ft_type w_float) = (kTfLiteOk, kTfLiteFloat32)" by (simp add: w_float_def ConvertTensorType_def)
  have "BytesRequired kTfLiteFloat32 [2] = Some 8"
    by (simp add: BytesRequired_def MultiplyAndCheckOverflow_def size_mul_def Let_def)
  moreover have "dense_elements [2] 1 \<noteq> None" by (simp add: size_mul_def size_of_int_def Let_def)
  moreover have "ft_shape w_float = Some [2]" "ft_sparsity w_float = None" by (simp_all add: w_float_def)
  ultimately show ?thesis using verified_size_required [of w_float "[2]" 8] c by simp
qed

section \<open>The order of operators\<close>

abbreviation op_inputs :: "Operator \<Rightarrow> int list" where
  "op_inputs op \<equiv> FlatBufferIntArrayToVector (fo_inputs op)"

abbreviation op_outputs :: "Operator \<Rightarrow> int list" where
  "op_outputs op \<equiv> FlatBufferIntArrayToVector (fo_outputs op)"

lemma add_outputs_Some:
  "add_outputs given xs outs = Some outs' \<Longrightarrow> outs' = outs \<union> set xs \<and> set xs \<inter> (given \<union> outs) = {}"
  by (induction given xs outs rule: add_outputs.induct) (auto split: if_splits)

lemma check_operators_order:
  "check_operators n given ops outs \<Longrightarrow> k < length ops \<Longrightarrow>
    (\<forall>x\<in>set (op_inputs (ops ! k)). x = kTfLiteOptionalTensor \<or> x \<in> given \<or> x \<in> outs \<or> (\<exists>j<k. x \<in> set (op_outputs (ops ! j)))) \<and>
    set (op_outputs (ops ! k)) \<inter> (given \<union> outs) = {} \<and>
    (\<forall>j<k. set (op_outputs (ops ! j)) \<inter> set (op_outputs (ops ! k)) = {})"
proof (induction ops arbitrary: outs k)
  case (Cons op ops)
  obtain outs' where a: "add_outputs given (op_outputs op) outs = Some outs'" and c: "check_operators n given ops outs'"
    and i: "\<forall>x\<in>set (op_inputs op). x = kTfLiteOptionalTensor \<or> x \<in> given \<or> x \<in> outs"
    using Cons.prems(1) by (auto simp: list_all_iff split: if_splits option.splits)
  have o: "outs' = outs \<union> set (op_outputs op)" "set (op_outputs op) \<inter> (given \<union> outs) = {}"
    using add_outputs_Some [OF a] by simp_all
  show ?case
  proof (cases k)
    case 0
    then show ?thesis using i o by auto
  next
    case (Suc l)
    then have l: "l < length ops" using Cons.prems(2) by simp
    note IH = Cons.IH [OF c l]
    have 1: "\<exists>j<Suc l. x \<in> set (op_outputs ((op # ops) ! j))" if "x \<in> set (op_outputs op) \<or> (\<exists>j<l. x \<in> set (op_outputs (ops ! j)))" for x
      using that by (auto intro: exI [of _ 0] exI [of _ "Suc _"])
    have "set (op_outputs ((op # ops) ! j)) \<inter> set (op_outputs (ops ! l)) = {}" if "j < Suc l" for j
      using that IH o by (cases j) auto
    moreover have "\<forall>x\<in>set (op_inputs (ops ! l)). x = kTfLiteOptionalTensor \<or> x \<in> given \<or> x \<in> outs \<or>
        (\<exists>j<Suc l. x \<in> set (op_outputs ((op # ops) ! j)))"
      using IH 1 o(1) by blast
    ultimately show ?thesis using Suc IH o by auto
  qed
qed simp

lemma verified_operators:
  assumes "VerifyModel mem (Some m)" "fm_subgraphs m = Some graphs" "g \<in> set graphs"
  obtains n given where "check_operators n given (model_operators g) {}"
proof -
  have "VerifySubGraphs m" using assms(1) by (simp add: VerifyModel_def split: if_splits)
  then have "VerifySubGraphConsistency m g" using assms(2,3) by (auto simp: VerifySubGraphs_def list_all_iff split: option.splits)
  then show ?thesis unfolding VerifySubGraphConsistency_def Let_def by (rule that)
qed

lemma parsed_nodes:
  assumes "kernels_ok K" "inits_succeed K" and "s \<in> set (it_subgraphs (fresh_interpreter k b0))"
    and "parse_subgraph K B buffers g b s = (kTfLiteOk, b', t)" "sg_consistent t"
  shows "length (gi_nodes (InterpreterInfo t)) = length (model_operators g)"
    and "i < length (model_operators g) \<Longrightarrow> nd_inputs (gi_nodes (InterpreterInfo t) ! i) = op_inputs (model_operators g ! i) \<and>
      nd_outputs (gi_nodes (InterpreterInfo t) ! i) = op_outputs (model_operators g ! i)"
proof -
  let ?ops = "model_operators g"
  from parsed_graph [OF assms] have p: "sg_execution_plan t = map int [0..<length ?ops]" and
    n: "map (\<lambda>(node, reg). (nd_inputs node, nd_outputs node, nd_delegate node, reg)) (sg_nodes_and_registration t) =
      map (\<lambda>op. (op_inputs op, op_outputs op, 0, ib_registrations b ! nat (wrap_i32 (int (fo_opcode_index op))))) ?ops" by blast+
  show "length (gi_nodes (InterpreterInfo t)) = length ?ops" by (simp add: InterpreterInfo_def p)
  assume i: "i < length ?ops"
  have "length (sg_nodes_and_registration t) = length ?ops" using arg_cong [OF n, of length] by simp
  then have "(\<lambda>(node, reg). (nd_inputs node, nd_outputs node, nd_delegate node, reg)) (sg_nodes_and_registration t ! i) =
      (op_inputs (?ops ! i), op_outputs (?ops ! i), 0, ib_registrations b ! nat (wrap_i32 (int (fo_opcode_index (?ops ! i)))))"
    using arg_cong [OF n, of "\<lambda>xs. xs ! i"] i by simp
  then show "nd_inputs (gi_nodes (InterpreterInfo t) ! i) = op_inputs (?ops ! i) \<and>
      nd_outputs (gi_nodes (InterpreterInfo t) ! i) = op_outputs (?ops ! i)"
    using i by (simp add: InterpreterInfo_def p sg_node_def case_prod_unfold)
qed

text \<open>
  Claim C26. In a graph that the builder makes of a verified model every operator comes after the producers of its inputs, so that the
  partitioner loses no node; and, unless an operator has the optional tensor as an output, no operator writes a
  tensor that an operator before it or itself reads, which is what the planner needs to reuse memory.
\<close>

theorem verified_graph_ordered:
  assumes "VerifyModel mem (Some m)" "fm_subgraphs m = Some graphs" "g \<in> set graphs"
    and "kernels_ok K" "inits_succeed K" and "s \<in> set (it_subgraphs (fresh_interpreter k b0))"
    and "parse_subgraph K B buffers g b s = (kTfLiteOk, b', t)" "sg_consistent t"
  shows "plan_ordered (InterpreterInfo t) [] \<and>
    ((\<forall>op\<in>set (model_operators g). kTfLiteOptionalTensor \<notin> set (FlatBufferIntArrayToVector (fo_outputs op))) \<longrightarrow>
      writes_before_reads (InterpreterInfo t))"
proof
  let ?ops = "model_operators g" and ?I = "InterpreterInfo t"
  obtain n given where "check_operators n given ?ops {}" using verified_operators [OF assms(1-3)] .
  note c = check_operators_order [OF this]
  note nodes = parsed_nodes [OF assms(4-8)]
  have pr: "\<exists>i<length ?ops. x \<in> set (op_outputs (?ops ! i))" if p: "produced ?I x" for x
  proof -
    obtain nd where "nd \<in> set (gi_nodes ?I)" "x \<in> set (nd_outputs nd)" using p by (auto simp: produced_def)
    then obtain i where "i < length (gi_nodes ?I)" "x \<in> set (nd_outputs (gi_nodes ?I ! i))" by (metis in_set_conv_nth)
    then show ?thesis using nodes by auto
  qed
  have "\<exists>j<i. x \<in> set (op_outputs (?ops ! j))"
    if i: "i < length ?ops" "x \<in> set (op_inputs (?ops ! i))" "x \<noteq> kTfLiteOptionalTensor" "produced ?I x" for i x
    using c [OF i(1)] i pr [OF i(4)] c by blast
  moreover have "[0..<length (gi_nodes ?I)] ! j = j" if "j < i" "i < length ?ops" for i j using that nodes(1) by simp
  ultimately have "data_order ?I [0..<length (gi_nodes ?I)]" using nodes unfolding data_order_def by fastforce
  then show "plan_ordered ?I []" by (simp add: plan_ordered_def)
  show "(\<forall>op\<in>set ?ops. kTfLiteOptionalTensor \<notin> set (op_outputs op)) \<longrightarrow> writes_before_reads ?I"
  proof
    assume opt: "\<forall>op\<in>set ?ops. kTfLiteOptionalTensor \<notin> set (op_outputs op)"
    have "x \<notin> set (op_inputs (?ops ! j))" if i: "i < length ?ops" "j \<le> i" "x \<in> set (op_outputs (?ops ! i))" for i j x
    proof
      assume x: "x \<in> set (op_inputs (?ops ! j))"
      have "x \<noteq> kTfLiteOptionalTensor" using opt i(1,3) nth_mem [OF i(1)] by blast
      then obtain l where "l < j" "x \<in> set (op_outputs (?ops ! l))" using c [of j] c [OF i(1)] i x by auto
      moreover from this(1) i(2) have "l < i" by simp
      ultimately show False using c [OF i(1)] i(3) by blast
    qed
    then show "writes_before_reads ?I" using nodes by (simp add: writes_before_reads_def num_execution_nodes_def)
  qed
qed

theorem verified_graph_ordered_witness:
  "\<exists>s b' t. parse_subgraph w_runtime w_build_env [] w_graph w_registered s = (kTfLiteOk, b', t) \<and>
     VerifyModel (\<lambda>_. 0) (Some w_model) \<and> plan_ordered (InterpreterInfo t) [] \<and> writes_before_reads (InterpreterInfo t)"
proof -
  obtain s where s: "it_subgraphs (fresh_interpreter (Suc 0) w_registered) = [s]" "sg_tensors s = []" using w_fresh by blast
  then have m: "s \<in> set (it_subgraphs (fresh_interpreter (Suc 0) w_registered))" by simp
  from fresh_subgraphs [OF this] w_parse_subgraph [OF s(2)] obtain b' t where
    p: "parse_subgraph w_runtime w_build_env [] w_graph w_registered s = (kTfLiteOk, b', t)" "sg_consistent t" by blast
  have "variable_tensors w_model [w_float, w_float] = {}"
    by (auto simp: variable_tensors_def w_float_def less_Suc_eq)
  then have v: "VerifyModel (\<lambda>_. 0) (Some w_model)"
    by (simp add: VerifyModel_def w_model_def VerifySubGraphs_def w_graph_def VerifyOperators_def w_custom_op_def
        VerifySubGraphConsistency_def model_operators_def FlatBufferIntArrayToVector_def VerifyTensors_def VerifyTensor_def
        constant_tensors_def IsConstantTensor_def Let_def w_float_def)
  have i: "inits_succeed w_runtime" by (simp add: inits_succeed_def w_runtime_def)
  have g: "fm_subgraphs w_model = Some [w_graph]" "w_graph \<in> set [w_graph]" by (simp_all add: w_model_def)
  have o: "\<forall>op\<in>set (model_operators w_graph). kTfLiteOptionalTensor \<notin> set (FlatBufferIntArrayToVector (fo_outputs op))"
    by (simp add: model_operators_def w_graph_def w_custom_op_def FlatBufferIntArrayToVector_def)
  from verified_graph_ordered [OF v g w_runtime_ok(1) i m p] o v p(1) show ?thesis by blast
qed

end
