(* ===== verification/Signatures.thy ===== *)
theory Signatures
  imports InterpreterBuilder
begin

text \<open>
  Signatures of a model and their runners (\<open>lite/core/signature_runner.cc\<close>, the signatures in \<open>lite/core/interpreter.cc\<close> and
  \<open>lite/core/interpreter.h\<close>, and the functions of \<open>lite/core/c/c_api.cc\<close> on runners). A signature names the inputs and outputs of one subgraph;
  a runner looks tensors up by these names and operates on the subgraph, which it shares with the interpreter.
\<close>

section \<open>Signatures of an interpreter\<close>

definition uint32 :: "int \<Rightarrow> int" where
  "uint32 i = i mod 4294967296"

definition signature_keys :: "Interpreter \<Rightarrow> string list" where
  "signature_keys I = map sd_signature_key (it_signature_defs I)"

definition find_signature :: "string \<Rightarrow> Interpreter \<Rightarrow> SignatureDef option" where
  "find_signature key I = List.find (\<lambda>d. sd_signature_key d = key) (it_signature_defs I)"

definition GetSubgraphIndexFromSignature :: "string \<Rightarrow> Interpreter \<Rightarrow> int" where
  "GetSubgraphIndexFromSignature key I = (case find_signature key I of None \<Rightarrow> -1 | Some d \<Rightarrow> wrap_i32 (sd_subgraph_index d))"

definition signature_inputs :: "string \<Rightarrow> Interpreter \<Rightarrow> (string \<times> int) list" where
  "signature_inputs key I = (case find_signature key I of None \<Rightarrow> [] | Some d \<Rightarrow> sd_inputs d)"

definition signature_outputs :: "string \<Rightarrow> Interpreter \<Rightarrow> (string \<times> int) list" where
  "signature_outputs key I = (case find_signature key I of None \<Rightarrow> [] | Some d \<Rightarrow> sd_outputs d)"

definition GetTensorIndexFromSignature :: "string \<Rightarrow> string \<Rightarrow> bool \<Rightarrow> Interpreter \<Rightarrow> int" where
  "GetTensorIndexFromSignature name key is_input I = (case find_signature key I of
     None \<Rightarrow> -1
   | Some d \<Rightarrow> (case map_of (if is_input then sd_inputs d else sd_outputs d) name of
       None \<Rightarrow> -1 | Some i \<Rightarrow> wrap_i32 i))"

definition it_subgraph :: "int \<Rightarrow> Interpreter \<Rightarrow> Subgraph option" where
  "it_subgraph i I = (if i < 0 \<or> nat i \<ge> length (it_subgraphs I) then None else Some (it_subgraphs I ! nat i))"

text \<open>
  The tensor of a name; \<open>None\<close> outside stands for the use of a null pointer when the signature has a subgraph that does not
  exist, \<open>None\<close> inside for the null pointer that is returned.
\<close>

definition tensor_by_signature :: "bool \<Rightarrow> string \<Rightarrow> string \<Rightarrow> Interpreter \<Rightarrow> TfLiteTensor option option" where
  "tensor_by_signature is_input name key I =
     (let subgraph_index = GetSubgraphIndexFromSignature key I;
          tensor_index = GetTensorIndexFromSignature name key is_input I
      in if subgraph_index = -1 then Some None
         else if tensor_index = -1 then Some None
         else map_option (sg_tensor tensor_index) (it_subgraph subgraph_index I))"

definition input_tensor_by_signature :: "string \<Rightarrow> string \<Rightarrow> Interpreter \<Rightarrow> TfLiteTensor option option" where
  "input_tensor_by_signature = tensor_by_signature True"

definition output_tensor_by_signature :: "string \<Rightarrow> string \<Rightarrow> Interpreter \<Rightarrow> TfLiteTensor option option" where
  "output_tensor_by_signature = tensor_by_signature False"

section \<open>Runners\<close>

record SignatureRunner =
  sr_signature_def :: SignatureDef
  sr_subgraph :: nat
  sr_input_names :: "string list"
  sr_output_names :: "string list"
  sr_subgraph_input_names :: "string option list"
  sr_subgraph_output_names :: "string option list"
  sr_allow_buffer_handle_output :: bool

text \<open>The map from tensors to names; of several names of a tensor the last one stays.\<close>

definition reverse_map :: "(string \<times> int) list \<Rightarrow> int \<Rightarrow> string option" where
  "reverse_map m = fold (\<lambda>(name, index) r. r(index \<mapsto> name)) m (\<lambda>_. None)"

definition new_signature_runner :: "SignatureDef \<Rightarrow> nat \<Rightarrow> Subgraph \<Rightarrow> SignatureRunner" where
  "new_signature_runner signature_def i subgraph =
     \<lparr>sr_signature_def = signature_def, sr_subgraph = i,
      sr_input_names = map fst (sd_inputs signature_def), sr_output_names = map fst (sd_outputs signature_def),
      sr_subgraph_input_names = map (\<lambda>i. reverse_map (sd_inputs signature_def) (uint32 i)) (sg_inputs subgraph),
      sr_subgraph_output_names = map (\<lambda>i. reverse_map (sd_outputs signature_def) (uint32 i)) (sg_outputs subgraph),
      sr_allow_buffer_handle_output = False\<rparr>"

definition runner_graph :: "SignatureRunner \<Rightarrow> Interpreter \<Rightarrow> Subgraph" where
  "runner_graph r I = it_subgraphs I ! sr_subgraph r"

text \<open>The subgraph of a runner is changed in place; all subgraphs point to the same flag for cancellation.\<close>

definition set_subgraph :: "nat \<Rightarrow> Subgraph \<Rightarrow> Interpreter \<Rightarrow> Interpreter" where
  "set_subgraph k s I = I\<lparr>it_subgraphs := (map (share_flag s) (it_subgraphs I))[k := s]\<rparr>"

definition with_runner ::
    "SignatureRunner \<Rightarrow> (Subgraph \<Rightarrow> TfLiteStatus \<times> Subgraph) \<Rightarrow> Interpreter \<Rightarrow> TfLiteStatus \<times> Interpreter" where
  "with_runner r f I = (case f (runner_graph r I) of (st, s) \<Rightarrow> (st, set_subgraph (sr_subgraph r) s I))"

definition by_name ::
    "(string \<times> int) list \<Rightarrow> string \<Rightarrow> (int \<Rightarrow> Subgraph \<Rightarrow> TfLiteStatus \<times> Subgraph) \<Rightarrow> Subgraph \<Rightarrow> TfLiteStatus \<times> Subgraph" where
  "by_name m name f s = (case map_of m name of None \<Rightarrow> (kTfLiteError, s) | Some i \<Rightarrow> f (wrap_i32 i) s)"

definition sr_input_tensor :: "SignatureRunner \<Rightarrow> string \<Rightarrow> Interpreter \<Rightarrow> TfLiteTensor option" where
  "sr_input_tensor r input_name I = (case map_of (sd_inputs (sr_signature_def r)) input_name of
     None \<Rightarrow> None | Some i \<Rightarrow> sg_tensor (wrap_i32 i) (runner_graph r I))"

definition sr_output_tensor :: "SignatureRunner \<Rightarrow> string \<Rightarrow> Interpreter \<Rightarrow> TfLiteTensor option" where
  "sr_output_tensor r output_name I = (case map_of (sd_outputs (sr_signature_def r)) output_name of
     None \<Rightarrow> None | Some i \<Rightarrow> sg_tensor (wrap_i32 i) (runner_graph r I))"

text \<open>A null tensor is refused.\<close>

definition SetBufferHandle :: "runtime \<Rightarrow> int \<Rightarrow> nat \<Rightarrow> bool \<Rightarrow> int \<Rightarrow> Subgraph \<Rightarrow> TfLiteStatus \<times> Subgraph" where
  "SetBufferHandle K buffer_handle delegate release_existing i s =
     (if sg_tensor i s = None then (kTfLiteError, s) else SetBufferHandleImpl K i buffer_handle delegate release_existing s)"

definition sr_SetInputBufferHandle ::
    "runtime \<Rightarrow> SignatureRunner \<Rightarrow> string \<Rightarrow> int \<Rightarrow> nat \<Rightarrow> bool \<Rightarrow> Interpreter \<Rightarrow> TfLiteStatus \<times> Interpreter" where
  "sr_SetInputBufferHandle K r input_name buffer_handle delegate release_existing =
     with_runner r (by_name (sd_inputs (sr_signature_def r)) input_name (SetBufferHandle K buffer_handle delegate release_existing))"

definition sr_SetOutputBufferHandle ::
    "runtime \<Rightarrow> SignatureRunner \<Rightarrow> string \<Rightarrow> int \<Rightarrow> nat \<Rightarrow> bool \<Rightarrow> Interpreter \<Rightarrow> TfLiteStatus \<times> Interpreter" where
  "sr_SetOutputBufferHandle K r output_name buffer_handle delegate release_existing =
     with_runner r (by_name (sd_outputs (sr_signature_def r)) output_name (SetBufferHandle K buffer_handle delegate release_existing))"

definition sr_ResizeInputTensor ::
    "runtime \<Rightarrow> SignatureRunner \<Rightarrow> string \<Rightarrow> int list \<Rightarrow> Interpreter \<Rightarrow> TfLiteStatus \<times> Interpreter" where
  "sr_ResizeInputTensor K r input_name new_size =
     with_runner r (by_name (sd_inputs (sr_signature_def r)) input_name (\<lambda>i. ResizeInputTensor K i new_size))"

definition sr_ResizeInputTensorStrict ::
    "runtime \<Rightarrow> SignatureRunner \<Rightarrow> string \<Rightarrow> int list \<Rightarrow> Interpreter \<Rightarrow> TfLiteStatus \<times> Interpreter" where
  "sr_ResizeInputTensorStrict K r input_name new_size =
     with_runner r (by_name (sd_inputs (sr_signature_def r)) input_name (\<lambda>i. ResizeInputTensorStrict K i new_size))"

definition sr_AllocateTensors ::
    "nat \<Rightarrow> runtime \<Rightarrow> SignatureRunner \<Rightarrow> Interpreter \<Rightarrow> (TfLiteStatus \<times> Interpreter) option" where
  "sr_AllocateTensors n K r I =
     map_option (\<lambda>(st, s). (st, set_subgraph (sr_subgraph r) s I)) (AllocateTensors n K (runner_graph r I))"

definition sr_Invoke :: "runtime \<Rightarrow> SignatureRunner \<Rightarrow> Interpreter \<Rightarrow> TfLiteStatus \<times> Interpreter" where
  "sr_Invoke K r I =
     (let s = runner_graph r I;
          I1 = set_subgraph (sr_subgraph r) (s\<lparr>sg_continue_invocation := map_option (\<lambda>_. True) (sg_continue_invocation s)\<rparr>) I
      in ensure_status (with_runner r (Invoke K) I1) (\<lambda>I.
         if sr_allow_buffer_handle_output r then (kTfLiteOk, I)
         else ensure_each (\<lambda>i. with_runner r (EnsureTensorDataIsReadable K i)) (sg_outputs (runner_graph r I)) I))"

definition sr_Cancel :: "SignatureRunner \<Rightarrow> Interpreter \<Rightarrow> TfLiteStatus \<times> Interpreter" where
  "sr_Cancel r = with_runner r Cancel"

definition SetAllowBufferHandleOutput :: "bool \<Rightarrow> SignatureRunner \<Rightarrow> SignatureRunner" where
  "SetAllowBufferHandleOutput allow r = r\<lparr>sr_allow_buffer_handle_output := allow\<rparr>"

text \<open>The index of the tensor is not checked; a tensor that does not exist is flagged.\<close>

definition set_custom_allocation ::
    "TfLiteCustomAllocation \<Rightarrow> bool \<Rightarrow> int \<Rightarrow> Subgraph \<Rightarrow> TfLiteStatus \<times> Subgraph" where
  "set_custom_allocation allocation skip_align_check i s =
     (if sg_tensor i s = None then (kTfLiteError, flag_access s) else SetCustomAllocationForTensor i allocation skip_align_check s)"

definition SetCustomAllocationForInputTensor ::
    "SignatureRunner \<Rightarrow> string \<Rightarrow> TfLiteCustomAllocation \<Rightarrow> bool \<Rightarrow> Interpreter \<Rightarrow> TfLiteStatus \<times> Interpreter" where
  "SetCustomAllocationForInputTensor r input_name allocation skip_align_check =
     with_runner r (by_name (sd_inputs (sr_signature_def r)) input_name (set_custom_allocation allocation skip_align_check))"

definition SetCustomAllocationForOutputTensor ::
    "SignatureRunner \<Rightarrow> string \<Rightarrow> TfLiteCustomAllocation \<Rightarrow> bool \<Rightarrow> Interpreter \<Rightarrow> TfLiteStatus \<times> Interpreter" where
  "SetCustomAllocationForOutputTensor r output_name allocation skip_align_check =
     with_runner r (by_name (sd_outputs (sr_signature_def r)) output_name (set_custom_allocation allocation skip_align_check))"

section \<open>Finding and creating runners\<close>

definition kPlaceholderSignatureDefKey :: string where
  "kPlaceholderSignatureDefKey = ''<placeholder signature>''"

text \<open>\<open>std::to_string\<close>.\<close>

fun to_string :: "nat \<Rightarrow> string" where
  "to_string n = (if n < 10 then [char_of (48 + n)] else to_string (n div 10) @ [char_of (48 + n mod 10)])"

text \<open>
  Names for the tensors of a list when the model has no signatures. A tensor that never got its parameters has the empty name
  here and a null pointer in the code.
\<close>

definition placeholder_name :: "string \<Rightarrow> Subgraph \<Rightarrow> int list \<Rightarrow> nat \<Rightarrow> string" where
  "placeholder_name prefix s tensors i =
     (let name = t_name (sg_tensors s ! nat (tensors ! i)) in if name = [] then prefix @ to_string i else name)"

definition placeholder_map :: "string \<Rightarrow> Subgraph \<Rightarrow> int list \<Rightarrow> (string \<times> int) list" where
  "placeholder_map prefix s tensors =
     fold (\<lambda>i. map_insert (placeholder_name prefix s tensors i) (uint32 (tensors ! i))) [0..<length tensors] []"

definition CreatePlaceholderSignatureDef :: "Interpreter \<Rightarrow> SignatureDef" where
  "CreatePlaceholderSignatureDef I =
     (let s = primary_subgraph I
      in \<lparr>sd_inputs = placeholder_map ''input'' s (sg_inputs s), sd_outputs = placeholder_map ''output'' s (sg_outputs s),
          sd_signature_key = kPlaceholderSignatureDefKey, sd_subgraph_index = 0\<rparr>)"

definition ReplaceWithPlaceholderSignatureKeyIfNeeded :: "string option \<Rightarrow> Interpreter \<Rightarrow> string option \<times> bool" where
  "ReplaceWithPlaceholderSignatureKeyIfNeeded signature_key I = (case signature_key of
     Some key \<Rightarrow> (Some key, False)
   | None \<Rightarrow>
      (if it_signature_defs I = [] then (Some kPlaceholderSignatureDefKey, True)
       else (map_option sd_signature_key (List.find (\<lambda>d. sd_subgraph_index d = 0) (it_signature_defs I)), False)))"

text \<open>
  The runners of an interpreter, by the keys of their signatures; a key stands for the address of its runner. The names of inputs and
  outputs are read from tensors that need not exist, an optional input among them, and the subgraph of a signature need
  not exist either: both are flagged.
\<close>

record signature_state =
  ss_interpreter :: Interpreter
  ss_runner_map :: "(string \<times> SignatureRunner) list"

definition add_runner :: "string \<Rightarrow> SignatureRunner \<Rightarrow> signature_state \<Rightarrow> string option \<times> signature_state" where
  "add_runner key r S = (Some key, S\<lparr>ss_runner_map := map_insert key r (ss_runner_map S)\<rparr>)"

definition flag_state :: "signature_state \<Rightarrow> string option \<times> signature_state" where
  "flag_state S = (None, S\<lparr>ss_interpreter := set_primary (flag_access (primary_subgraph (ss_interpreter S))) (ss_interpreter S)\<rparr>)"

definition create_runner :: "string \<Rightarrow> bool \<Rightarrow> signature_state \<Rightarrow> string option \<times> signature_state" where
  "create_runner key empty_signature_fallback S =
     (let I = ss_interpreter S; s = primary_subgraph I in
      if empty_signature_fallback
      then (if list_all (\<lambda>i. tensor_index_in i s) (sg_inputs s @ sg_outputs s)
            then add_runner key (new_signature_runner (CreatePlaceholderSignatureDef I) 0 s) S
            else flag_state S)
      else (case find_signature key I of
          None \<Rightarrow> (None, S)
        | Some d \<Rightarrow> (case it_subgraph (wrap_i32 (sd_subgraph_index d)) I of
            None \<Rightarrow> flag_state S
          | Some g \<Rightarrow> add_runner key (new_signature_runner d (nat (wrap_i32 (sd_subgraph_index d))) g) S)))"

definition GetSignatureRunner ::
    "nat \<Rightarrow> runtime \<Rightarrow> (nat \<Rightarrow> Subgraph \<Rightarrow> nat) \<Rightarrow> string option \<Rightarrow> signature_state \<Rightarrow> (string option \<times> signature_state) option" where
  "GetSignatureRunner n K create signature_key S =
     (case ReplaceWithPlaceholderSignatureKeyIfNeeded signature_key (ss_interpreter S) of
        (None, _) \<Rightarrow> Some (None, S)
      | (Some key, empty_signature_fallback) \<Rightarrow>
         (if map_of (ss_runner_map S) key \<noteq> None then Some (Some key, S)
          else (case ApplyLazyDelegateProviders n K create (ss_interpreter S) of
              None \<Rightarrow> None
            | Some (st, I) \<Rightarrow>
               (if st = kTfLiteError then Some (None, S\<lparr>ss_interpreter := I\<rparr>)
                else Some (create_runner key empty_signature_fallback (S\<lparr>ss_interpreter := I\<rparr>))))))"

section \<open>The C interface of runners\<close>

definition TfLiteInterpreterGetSignatureCount :: "Interpreter \<Rightarrow> int" where
  "TfLiteInterpreterGetSignatureCount I = wrap_i32 (int (length (signature_keys I)))"

definition TfLiteInterpreterGetSignatureKey :: "Interpreter \<Rightarrow> int \<Rightarrow> string option" where
  "TfLiteInterpreterGetSignatureKey I signature_index =
     (if signature_index < 0 \<or> signature_index \<ge> TfLiteInterpreterGetSignatureCount I then None
      else Some (signature_keys I ! nat signature_index))"

definition TfLiteSignatureRunnerGetInputCount :: "SignatureRunner \<Rightarrow> Interpreter \<Rightarrow> nat" where
  "TfLiteSignatureRunnerGetInputCount r I = length (sg_inputs (runner_graph r I))"

definition TfLiteSignatureRunnerGetOutputCount :: "SignatureRunner \<Rightarrow> Interpreter \<Rightarrow> nat" where
  "TfLiteSignatureRunnerGetOutputCount r I = length (sg_outputs (runner_graph r I))"

text \<open>\<open>None\<close> outside is a read behind the end of the names, \<open>None\<close> inside the null pointer.\<close>

definition get_name :: "nat \<Rightarrow> string list \<Rightarrow> int \<Rightarrow> string option option" where
  "get_name n names i =
     (if i < 0 \<or> i \<ge> wrap_i32 (int n) then Some None
      else if nat i < length names then Some (Some (names ! nat i)) else None)"

definition TfLiteSignatureRunnerGetInputName :: "SignatureRunner \<Rightarrow> Interpreter \<Rightarrow> int \<Rightarrow> string option option" where
  "TfLiteSignatureRunnerGetInputName r I = get_name (TfLiteSignatureRunnerGetInputCount r I) (sr_input_names r)"

definition TfLiteSignatureRunnerGetOutputName :: "SignatureRunner \<Rightarrow> Interpreter \<Rightarrow> int \<Rightarrow> string option option" where
  "TfLiteSignatureRunnerGetOutputName r I = get_name (TfLiteSignatureRunnerGetOutputCount r I) (sr_output_names r)"

section \<open>Maps\<close>

lemma map_of_map_insert: "map_of (map_insert k v m) = (map_of m)(k \<mapsto> v)"
  by (induction m) auto

lemma map_insert_keys: "fst ` set (map_insert k v m) = insert k (fst ` set m)"
  by (simp add: dom_map_of_conv_image_fst [symmetric] map_of_map_insert)

lemma map_insert_sorted: "sorted_wrt (<) (map fst m) \<Longrightarrow> sorted_wrt (<) (map fst (map_insert k v m))"
proof (induction m)
  case (Cons a m)
  then have "\<forall>k'\<in>fst ` set (map_insert k v m). k' = k \<or> fst a < k'" by (auto simp: map_insert_keys)
  with Cons show ?case by (cases a) fastforce
qed simp

lemma sorted_keys_distinct: "sorted_wrt (<) (map fst m) \<Longrightarrow> distinct (map fst (m :: (string \<times> 'v) list))"
  by (simp add: strict_sorted_iff)

lemma fold_map_insert:
  "sorted_wrt (<) (map fst m) \<Longrightarrow>
    sorted_wrt (<) (map fst (fold (\<lambda>i. map_insert (f i) (g i)) xs m)) \<and>
    fst ` set (fold (\<lambda>i. map_insert (f i) (g i)) xs m) = fst ` set m \<union> f ` set xs"
proof (induction xs arbitrary: m)
  case (Cons x xs)
  from Cons.IH [OF map_insert_sorted [OF Cons.prems, of "f x" "g x"]] show ?case by (auto simp: map_insert_keys)
qed simp

lemma sorted_keys_length: "sorted_wrt (<) (map fst m) \<Longrightarrow> length m = card (fst ` set (m :: (string \<times> 'v) list))"
  using distinct_card [OF sorted_keys_distinct, of m] by simp

lemma GetMapFromTensorMap_sorted: "sorted_wrt (<) (map fst (GetMapFromTensorMap t))"
proof -
  have "sorted_wrt (<) (map fst m) \<Longrightarrow>
    sorted_wrt (<) (map fst (fold (\<lambda>(name, index) m. case name of None \<Rightarrow> m | Some k \<Rightarrow> map_insert k index m) ts m))" for ts and m :: "(string \<times> int) list"
    by (induction ts arbitrary: m) (auto simp: map_insert_sorted split: option.split)
  then show ?thesis by (simp add: GetMapFromTensorMap_def split: option.split)
qed

lemma parse_signatures_sorted:
  "parse_signatures gs = Some defs \<Longrightarrow> d \<in> set defs \<Longrightarrow>
    sorted_wrt (<) (map fst (sd_inputs d)) \<and> sorted_wrt (<) (map fst (sd_outputs d))"
  by (induction gs arbitrary: defs) (auto split: option.splits if_splits simp: GetMapFromTensorMap_sorted)

section \<open>Names of inputs and outputs\<close>

lemma uint32_back: "in_i32 i \<Longrightarrow> wrap_i32 (uint32 i) = i"
  unfolding uint32_def wrap_i32_def in_i32_def by (simp add: mod_simps)

lemma reverse_map_Some: "fold (\<lambda>(name, index) r. r(index \<mapsto> name)) m r i = Some name \<Longrightarrow> (name, i) \<in> set m \<or> r i = Some name"
proof (induction m arbitrary: r)
  case (Cons a m)
  from Cons.IH [of "r(snd a \<mapsto> fst a)"] Cons.prems show ?case by (cases a) (auto split: if_splits)
qed simp

lemma reverse_map_None:
  "fold (\<lambda>(name, index) r. r(index \<mapsto> name)) m r i = None \<longleftrightarrow> r i = None \<and> (\<forall>name. (name, i) \<notin> set m)"
proof (induction m arbitrary: r)
  case (Cons a m)
  from Cons.IH [of "r(snd a \<mapsto> fst a)"] show ?case by (cases a) (auto split: if_splits)
qed simp

lemma reverse_lookup:
  assumes "distinct (map fst m)"
  shows "case reverse_map m i of
      Some name \<Rightarrow> name \<in> fst ` set m \<and> map_of m name = Some i
    | None \<Rightarrow> \<forall>name. map_of m name \<noteq> Some i"
proof (cases "reverse_map m i")
  case None
  then show ?thesis using reverse_map_None [of m "\<lambda>_. None" i] by (auto simp: reverse_map_def dest: map_of_SomeD)
next
  case (Some name)
  then have "(name, i) \<in> set m" using reverse_map_Some [of m "\<lambda>_. None" i name] by (simp add: reverse_map_def)
  then show ?thesis using Some assms by force
qed

text \<open>
  In the runner of a signature of a model the name listed for the n-th input of the subgraph is a name of the
  signature, and looking it up gives the n-th input; there is none exactly if no name of the signature stands for that
  tensor. The same holds for outputs.
\<close>

lemma signature_names_roundtrip:
  assumes "parse_signatures gs = Some defs" "d \<in> set defs" and "g = it_subgraphs I ! k"
    and "\<forall>i\<in>set (sg_inputs g) \<union> set (sg_outputs g). in_i32 i"
  defines "r \<equiv> new_signature_runner d k g"
  shows "(\<forall>i<length (sg_inputs g). case sr_subgraph_input_names r ! i of
        Some name \<Rightarrow> name \<in> set (sr_input_names r) \<and> sr_input_tensor r name I = sg_tensor (sg_inputs g ! i) g
      | None \<Rightarrow> \<forall>name. map_of (sd_inputs d) name \<noteq> Some (uint32 (sg_inputs g ! i))) \<and>
    (\<forall>i<length (sg_outputs g). case sr_subgraph_output_names r ! i of
        Some name \<Rightarrow> name \<in> set (sr_output_names r) \<and> sr_output_tensor r name I = sg_tensor (sg_outputs g ! i) g
      | None \<Rightarrow> \<forall>name. map_of (sd_outputs d) name \<noteq> Some (uint32 (sg_outputs g ! i)))"
proof -
  have d: "distinct (map fst (sd_inputs d))" "distinct (map fst (sd_outputs d))"
    using parse_signatures_sorted [OF assms(1,2)] sorted_keys_distinct by blast+
  have "case sr_subgraph_input_names r ! i of
      Some name \<Rightarrow> name \<in> set (sr_input_names r) \<and> sr_input_tensor r name I = sg_tensor (sg_inputs g ! i) g
    | None \<Rightarrow> \<forall>name. map_of (sd_inputs d) name \<noteq> Some (uint32 (sg_inputs g ! i))" if i: "i < length (sg_inputs g)" for i
    using reverse_lookup [OF d(1), of "uint32 (sg_inputs g ! i)"] i assms(3,4)
    by (cases "reverse_map (sd_inputs d) (uint32 (sg_inputs g ! i))")
       (simp_all add: r_def new_signature_runner_def sr_input_tensor_def runner_graph_def uint32_back)
  moreover have "case sr_subgraph_output_names r ! i of
      Some name \<Rightarrow> name \<in> set (sr_output_names r) \<and> sr_output_tensor r name I = sg_tensor (sg_outputs g ! i) g
    | None \<Rightarrow> \<forall>name. map_of (sd_outputs d) name \<noteq> Some (uint32 (sg_outputs g ! i))" if i: "i < length (sg_outputs g)" for i
    using reverse_lookup [OF d(2), of "uint32 (sg_outputs g ! i)"] i assms(3,4)
    by (cases "reverse_map (sd_outputs d) (uint32 (sg_outputs g ! i))")
       (simp_all add: r_def new_signature_runner_def sr_output_tensor_def runner_graph_def uint32_back)
  ultimately show ?thesis by blast
qed

definition w_signature :: SignatureDefTable where
  "w_signature = \<lparr>fg_inputs = Some [(Some ''x'', 0)], fg_outputs = Some [(Some ''y'', 1), (Some ''score'', 1)],
     fg_signature_key = Some ''serve'', fg_subgraph_index = 0\<rparr>"

definition w_serve :: SignatureDef where
  "w_serve = \<lparr>sd_inputs = [(''x'', 0)], sd_outputs = [(''score'', 1), (''y'', 1)], sd_signature_key = ''serve'', sd_subgraph_index = 0\<rparr>"

definition w_named :: "string \<Rightarrow> string \<Rightarrow> Interpreter" where
  "w_named a b = new_interpreter\<lparr>it_subgraphs := [new_subgraph\<lparr>sg_tensors := [Tensor.w_tensor\<lparr>t_name := a\<rparr>, Tensor.w_tensor\<lparr>t_name := b\<rparr>], sg_inputs := [0, 1],
     sg_outputs := [1]\<rparr>]\<rparr>"

lemma w_signatures: "parse_signatures [Some w_signature] = Some [w_serve]"
  by (simp add: w_signature_def w_serve_def GetMapFromTensorMap_def)

lemma signature_names_roundtrip_witness:
  "let g = it_subgraphs (w_named ''a'' ''b'') ! 0; r = new_signature_runner w_serve 0 g
   in sr_subgraph_input_names r = [Some ''x'', None] \<and> sr_subgraph_output_names r = [Some ''y''] \<and>
      sr_input_tensor r ''x'' (w_named ''a'' ''b'') = sg_tensor 0 g \<and>
      sr_output_tensor r ''y'' (w_named ''a'' ''b'') = sg_tensor 1 g \<and> sg_tensor 0 g \<noteq> sg_tensor 1 g"
proof -
  let ?I = "w_named ''a'' ''b''" and ?g = "it_subgraphs (w_named ''a'' ''b'') ! 0"
  let ?r = "new_signature_runner w_serve 0 ?g"
  have g: "sg_inputs ?g = [0, 1]" "sg_outputs ?g = [1]" "sg_tensor 0 ?g \<noteq> sg_tensor 1 ?g" by (simp_all add: w_named_def sg_tensor_def Tensor.w_tensor_def)
  then have r: "sr_subgraph_input_names ?r = [Some ''x'', None]" "sr_subgraph_output_names ?r = [Some ''y'']"
    by (simp_all add: new_signature_runner_def w_serve_def reverse_map_def uint32_def)
  have "\<forall>i\<in>set (sg_inputs ?g) \<union> set (sg_outputs ?g). in_i32 i" by (simp add: g in_i32_def)
  note t = signature_names_roundtrip [OF w_signatures _ refl this]
  from t [of w_serve] have "sr_input_tensor ?r ''x'' ?I = sg_tensor 0 ?g" "sr_output_tensor ?r ''y'' ?I = sg_tensor 1 ?g"
    by (simp_all add: r g All_less_Suc2)
  with r g show ?thesis by (simp add: Let_def)
qed

section \<open>The runner of a model without signatures\<close>

lemma placeholder_runner:
  assumes "GetSignatureRunner n K create None S = Some (Some key, S')"
    and "it_signature_defs (ss_interpreter S) = []" and "map_of (ss_runner_map S) kPlaceholderSignatureDefKey = None"
  obtains st where "ApplyLazyDelegateProviders n K create (ss_interpreter S) = Some (st, ss_interpreter S')" "st \<noteq> kTfLiteError"
    and "map_of (ss_runner_map S') key =
      Some (new_signature_runner (CreatePlaceholderSignatureDef (ss_interpreter S')) 0 (primary_subgraph (ss_interpreter S')))"
proof -
  from assms obtain st I where a: "ApplyLazyDelegateProviders n K create (ss_interpreter S) = Some (st, I)" "st \<noteq> kTfLiteError"
    and c: "create_runner kPlaceholderSignatureDefKey True (S\<lparr>ss_interpreter := I\<rparr>) = (Some key, S')"
    by (auto simp: GetSignatureRunner_def ReplaceWithPlaceholderSignatureKeyIfNeeded_def split: option.splits if_splits)
  have s: "S' = S\<lparr>ss_interpreter := I, ss_runner_map := map_insert kPlaceholderSignatureDefKey
      (new_signature_runner (CreatePlaceholderSignatureDef I) 0 (primary_subgraph I)) (ss_runner_map S)\<rparr>" "key = kPlaceholderSignatureDefKey"
    using c by (simp_all add: create_runner_def add_runner_def flag_state_def Let_def split: if_splits)
  show ?thesis by (rule that) (use a s in \<open>simp_all add: map_of_map_insert\<close>)
qed

lemma set_subgraph_primary: "it_subgraphs I \<noteq> [] \<Longrightarrow> set_subgraph 0 s I = set_primary s I"
  by (cases "it_subgraphs I") (simp_all add: set_subgraph_def set_primary_def)

lemma with_runner_primary:
  assumes "it_subgraphs I \<noteq> []" "sr_subgraph r = 0" shows "with_runner r f I = with_primary f I"
  using assms by (simp add: with_runner_def with_primary_def runner_graph_def primary_subgraph_def hd_conv_nth set_subgraph_primary)

lemma with_primary_subgraphs: "it_subgraphs (snd (with_primary f I)) \<noteq> []"
  by (simp add: with_primary_def set_primary_def case_prod_unfold)

lemma ensure_each_equal:
  assumes "P s" and "\<And>x s. P s \<Longrightarrow> f x s = g x s \<and> P (snd (g x s))"
  shows "ensure_each f xs s = ensure_each g xs s"
  using assms(1)
proof (induction xs arbitrary: s)
  case (Cons x xs)
  then show ?case using assms(2) [OF Cons.prems, of x] by (cases "g x s") (simp add: ensure_status_def)
qed simp

text \<open>The pointer of the primary subgraph to the flag is set exactly if cancellation was enabled.\<close>

definition flag_known :: "Interpreter \<Rightarrow> bool" where
  "flag_known I \<longleftrightarrow> (it_cancellation_enabled I \<longleftrightarrow> sg_continue_invocation (primary_subgraph I) \<noteq> None)"

lemma no_flag: "sg_continue_invocation s = None \<Longrightarrow> s\<lparr>sg_continue_invocation := None\<rparr> = s"
  by (cases s) simp

lemma set_runner_flag:
  assumes "it_subgraphs I \<noteq> []" "flag_known I"
  defines "s \<equiv> primary_subgraph I"
  shows "set_primary (s\<lparr>sg_continue_invocation := map_option (\<lambda>_. True) (sg_continue_invocation s)\<rparr>) I =
    (if it_cancellation_enabled I then set_continue_flag I else I)"
proof -
  obtain ss where ss: "it_subgraphs I = s # ss" using assms(1) by (cases "it_subgraphs I") (simp_all add: s_def primary_subgraph_def)
  show ?thesis
  proof (cases "sg_continue_invocation s")
    case None
    then have "share_flag s = (\<lambda>t. t)" by (simp add: share_flag_def fun_eq_iff)
    then show ?thesis using None assms(2) ss
      by (simp add: flag_known_def s_def [symmetric] no_flag set_primary_def)
  next
    case (Some b)
    have "share_flag (s\<lparr>sg_continue_invocation := Some True\<rparr>) t = t\<lparr>sg_continue_invocation := map_option (\<lambda>_. True) (sg_continue_invocation t)\<rparr>" for t
      by (cases "sg_continue_invocation t") (simp_all add: share_flag_def no_flag)
    then show ?thesis using Some assms(2) ss
      by (simp add: flag_known_def s_def [symmetric] set_primary_def set_continue_flag_def)
  qed
qed

lemma runner_invoke:
  assumes "it_subgraphs I \<noteq> []" "flag_known I" and "sr_subgraph r = 0" "sr_allow_buffer_handle_output r = it_allow_buffer_handle_output I"
  shows "sr_Invoke (suppress_denormals K) r I = it_Invoke K I"
proof -
  let ?s = "primary_subgraph I" and ?I = "if it_cancellation_enabled I then set_continue_flag I else I"
  have s: "runner_graph r I = primary_subgraph I" if "it_subgraphs I \<noteq> []" for I
    using that assms(3) by (simp add: runner_graph_def primary_subgraph_def hd_conv_nth)
  have i: "set_subgraph (sr_subgraph r) (?s\<lparr>sg_continue_invocation := map_option (\<lambda>_. True) (sg_continue_invocation ?s)\<rparr>) I = ?I"
    using set_runner_flag [OF assms(1,2)] assms(1,3) by (simp add: set_subgraph_primary)
  have n: "it_subgraphs ?I \<noteq> []" using assms(1) by (simp add: set_continue_flag_def)
  obtain st J where J: "with_primary (Invoke (suppress_denormals K)) ?I = (st, J)" by (cases "with_primary (Invoke (suppress_denormals K)) ?I")
  have a: "it_allow_buffer_handle_output ?I = it_allow_buffer_handle_output I" by (simp add: set_continue_flag_def)
  have j: "it_subgraphs J \<noteq> []" "it_allow_buffer_handle_output J = it_allow_buffer_handle_output I"
    using with_primary_subgraphs [of "Invoke (suppress_denormals K)" ?I] J a by (auto simp: with_primary_def set_primary_def split: prod.splits)
  have e: "ensure_each (\<lambda>i. with_runner r (EnsureTensorDataIsReadable (suppress_denormals K) i)) xs J = ensure_each (it_EnsureTensorDataIsReadable (suppress_denormals K)) xs J" for xs
    by (rule ensure_each_equal [where P = "\<lambda>I. it_subgraphs I \<noteq> []"])
       (use j assms(3) with_runner_primary with_primary_subgraphs in \<open>auto simp: it_EnsureTensorDataIsReadable_def\<close>)
  show ?thesis
    unfolding sr_Invoke_def it_Invoke_def Let_def s [OF assms(1)] i with_runner_primary [OF n assms(3)] J
    using s [OF j(1)] j(2) assms(4) e by (simp add: ensure_status_def)
qed

text \<open>
  Claim C37. The runner of a model without signatures against the interpreter: when it is created the default delegates are applied, so that
  allocating tensors through it does what the interpreter does. In every valid state in which the interpreter does not allow outputs in buffers of
  delegates and its primary subgraph knows the flag for cancellation exactly if cancellation was enabled, invoking the interpreter is what the runner does when denormal numbers are suppressed, cancellation included; the runner itself does
  not suppress them, so for kernels whose results do not depend on that mode both are the same.
\<close>

theorem placeholder_runner_equiv:
  assumes "kernels_ok K" "delegates_ok K" and "it_wf (ss_interpreter S)"
    and "it_signature_defs (ss_interpreter S) = []" "map_of (ss_runner_map S) kPlaceholderSignatureDefKey = None"
    and "GetSignatureRunner n K create None S = Some (Some key, S')"
  shows "\<exists>r. map_of (ss_runner_map S') key = Some r \<and>
    sr_AllocateTensors n K r (ss_interpreter S') = it_AllocateTensors n K create (ss_interpreter S) \<and>
    (\<forall>J. it_wf J \<and> flag_known J \<and> \<not> it_allow_buffer_handle_output J \<longrightarrow> it_Invoke K J = sr_Invoke (suppress_denormals K) r J)"
proof -
  let ?r = "new_signature_runner (CreatePlaceholderSignatureDef (ss_interpreter S')) 0 (primary_subgraph (ss_interpreter S'))"
  obtain st where a: "ApplyLazyDelegateProviders n K create (ss_interpreter S) = Some (st, ss_interpreter S')" "st \<noteq> kTfLiteError"
    and r: "map_of (ss_runner_map S') key = Some ?r"
    using placeholder_runner [OF assms(6,4,5)] by blast
  have "it_wf (ss_interpreter S')"
    using ApplyLazy_runs [OF assms(1,2), of "ss_interpreter S" n create] a assms(3) by (simp add: it.runs_def it_keeps_def)
  then have n: "it_subgraphs (ss_interpreter S') \<noteq> []" by (simp add: it_wf_def)
  have f: "sr_subgraph ?r = 0" "\<not> sr_allow_buffer_handle_output ?r" by (simp_all add: new_signature_runner_def)
  have "sr_AllocateTensors n K ?r (ss_interpreter S') = it_AllocateTensors n K create (ss_interpreter S)"
    using a n f by (simp add: sr_AllocateTensors_def it_AllocateTensors_def runner_graph_def primary_subgraph_def hd_conv_nth
        set_subgraph_primary case_prod_unfold split: option.split)
  moreover have "it_Invoke K J = sr_Invoke (suppress_denormals K) ?r J" if "it_wf J" "flag_known J" "\<not> it_allow_buffer_handle_output J" for J
    using runner_invoke [of J ?r K] that f by (simp add: it_wf_def)
  ultimately show ?thesis using r by blast
qed

lemma w_named_runner:
  "GetSignatureRunner n w_runtime create None \<lparr>ss_interpreter = w_named a b, ss_runner_map = []\<rparr> =
     Some (Some kPlaceholderSignatureDefKey, \<lparr>ss_interpreter = w_named a b, ss_runner_map = [(kPlaceholderSignatureDefKey,
       new_signature_runner (CreatePlaceholderSignatureDef (w_named a b)) 0 (primary_subgraph (w_named a b)))]\<rparr>)"
proof -
  have "it_signature_defs (w_named a b) = []" "it_lazy_delegate_providers (w_named a b) = []"
    by (simp_all add: w_named_def new_interpreter_def AddSubgraphs_def)
  moreover have "list_all (\<lambda>i. tensor_index_in i (primary_subgraph (w_named a b)))
      (sg_inputs (primary_subgraph (w_named a b)) @ sg_outputs (primary_subgraph (w_named a b)))"
    by (simp add: w_named_def primary_subgraph_def tensor_index_in_def)
  ultimately show ?thesis
    by (simp add: GetSignatureRunner_def ReplaceWithPlaceholderSignatureKeyIfNeeded_def ApplyLazyDelegateProviders_def create_runner_def
        add_runner_def Let_def)
qed

lemma w_named_wf: "it_wf (w_named a b)"
  by (simp add: it_wf_def w_named_def sg_wf_def new_subgraph_def tensor_ok_def)

theorem placeholder_runner_equiv_witness:
  "\<exists>r. let J = snd (it_EnableCancellation (w_named ''a'' ''b'')) in
     sr_AllocateTensors 1 w_runtime r (w_named ''a'' ''b'') = it_AllocateTensors 1 w_runtime (\<lambda>_ _. 0) (w_named ''a'' ''b'') \<and>
     it_Invoke w_runtime J = sr_Invoke (suppress_denormals w_runtime) r J"
proof -
  let ?S = "\<lparr>ss_interpreter = w_named ''a'' ''b'', ss_runner_map = []\<rparr>"
  let ?J = "snd (it_EnableCancellation (w_named ''a'' ''b''))"
  have "it_signature_defs (w_named ''a'' ''b'') = []" by (simp add: w_named_def new_interpreter_def AddSubgraphs_def)
  then have "\<exists>r. sr_AllocateTensors 1 w_runtime r (w_named ''a'' ''b'') = it_AllocateTensors 1 w_runtime (\<lambda>_ _. 0) (w_named ''a'' ''b'') \<and>
    (\<forall>J. it_wf J \<and> flag_known J \<and> \<not> it_allow_buffer_handle_output J \<longrightarrow> it_Invoke w_runtime J = sr_Invoke (suppress_denormals w_runtime) r J)"
    using placeholder_runner_equiv [OF w_runtime_ok(1,2), of ?S, OF _ _ _ w_named_runner [of 1 "\<lambda>_ _. 0"]] w_named_wf by auto
  moreover have "it_wf ?J" using it_EnableCancellation_keeps [of "w_named ''a'' ''b''"] w_named_wf by (simp add: it_keeps_def)
  moreover have "flag_known ?J" "\<not> it_allow_buffer_handle_output ?J"
    by (simp_all add: flag_known_def it_EnableCancellation_def with_subgraphs_def w_named_def EnableCancellation_def new_interpreter_def
        AddSubgraphs_def primary_subgraph_def Let_def)
  ultimately show ?thesis unfolding Let_def by blast
qed

section \<open>Asking for the names\<close>

lemma get_name_inside:
  assumes "int n \<le> i32_max" shows "(\<forall>i. get_name n names i \<noteq> None) \<longleftrightarrow> n \<le> length names"
proof
  assume all: "\<forall>i. get_name n names i \<noteq> None"
  show "n \<le> length names"
  proof (rule ccontr)
    assume "\<not> n \<le> length names"
    then have "get_name n names (int (length names)) = None" using assms by (simp add: get_name_def in_i32_def)
    then show False using all by blast
  qed
qed (use assms in \<open>auto simp: get_name_def in_i32_def\<close>)

lemma placeholder_map_length:
  "length (placeholder_map prefix s tensors) = card (set (map (placeholder_name prefix s tensors) [0..<length tensors]))"
proof -
  let ?m = "placeholder_map prefix s tensors"
  have "sorted_wrt (<) (map fst ?m)" "fst ` set ?m = placeholder_name prefix s tensors ` set [0..<length tensors]"
    using fold_map_insert [of "[]" "placeholder_name prefix s tensors" "\<lambda>i. uint32 (tensors ! i)" "[0..<length tensors]"]
    by (simp_all add: placeholder_map_def)
  then show ?thesis using sorted_keys_length [of ?m] by simp
qed

lemma card_names: "n \<le> card (f ` {0..<n}) \<longleftrightarrow> inj_on f {0..<n}" for n :: nat
proof -
  have "card (f ` {0..<n}) \<le> n" using card_image_le [of "{0..<n}" f] by simp
  then have "n \<le> card (f ` {0..<n}) \<longleftrightarrow> card (f ` {0..<n}) = card {0..<n}" by auto
  then show ?thesis by (simp add: inj_on_iff_eq_card)
qed

text \<open>
  The C interface counts the inputs of the subgraph but reads the names of the signature. With the runner of a model without signatures
  no name is read behind the end of the names exactly if no two inputs, and no two outputs, have the same name.
\<close>

lemma placeholder_names_bounds:
  assumes "it_signature_defs (ss_interpreter S) = []" "map_of (ss_runner_map S) kPlaceholderSignatureDefKey = None"
    and "GetSignatureRunner n K create None S = Some (Some key, S')"
    and "it_subgraphs (ss_interpreter S') \<noteq> []"
  defines "s \<equiv> primary_subgraph (ss_interpreter S')"
  assumes "int (length (sg_inputs s)) \<le> i32_max" "int (length (sg_outputs s)) \<le> i32_max"
  shows "\<exists>r. map_of (ss_runner_map S') key = Some r \<and>
    ((\<forall>i. TfLiteSignatureRunnerGetInputName r (ss_interpreter S') i \<noteq> None) \<longleftrightarrow>
       inj_on (placeholder_name ''input'' s (sg_inputs s)) {0..<length (sg_inputs s)}) \<and>
    ((\<forall>i. TfLiteSignatureRunnerGetOutputName r (ss_interpreter S') i \<noteq> None) \<longleftrightarrow>
       inj_on (placeholder_name ''output'' s (sg_outputs s)) {0..<length (sg_outputs s)})"
proof -
  let ?r = "new_signature_runner (CreatePlaceholderSignatureDef (ss_interpreter S')) 0 s"
  have r: "map_of (ss_runner_map S') key = Some ?r"
    using placeholder_runner [OF assms(3,1,2)] unfolding s_def by blast
  have g: "runner_graph ?r (ss_interpreter S') = s"
    using assms(4) by (simp add: runner_graph_def new_signature_runner_def s_def primary_subgraph_def hd_conv_nth)
  have m: "sr_input_names ?r = map fst (placeholder_map ''input'' s (sg_inputs s))"
    "sr_output_names ?r = map fst (placeholder_map ''output'' s (sg_outputs s))"
    by (simp_all add: new_signature_runner_def CreatePlaceholderSignatureDef_def Let_def s_def)
  have "(\<forall>i. TfLiteSignatureRunnerGetInputName ?r (ss_interpreter S') i \<noteq> None) \<longleftrightarrow>
      inj_on (placeholder_name ''input'' s (sg_inputs s)) {0..<length (sg_inputs s)}"
    using get_name_inside [OF assms(6), of "sr_input_names ?r"] placeholder_map_length [of "''input''" s "sg_inputs s"]
    by (simp add: TfLiteSignatureRunnerGetInputName_def TfLiteSignatureRunnerGetInputCount_def g m card_names)
  moreover have "(\<forall>i. TfLiteSignatureRunnerGetOutputName ?r (ss_interpreter S') i \<noteq> None) \<longleftrightarrow>
      inj_on (placeholder_name ''output'' s (sg_outputs s)) {0..<length (sg_outputs s)}"
    using get_name_inside [OF assms(7), of "sr_output_names ?r"] placeholder_map_length [of "''output''" s "sg_outputs s"]
    by (simp add: TfLiteSignatureRunnerGetOutputName_def TfLiteSignatureRunnerGetOutputCount_def g m card_names)
  ultimately show ?thesis using r by blast
qed

lemma placeholder_names_bounds_witness:
  "\<exists>r I. sr_input_names r = [''x''] \<and> TfLiteSignatureRunnerGetInputCount r I = 2 \<and>
     (\<exists>i. TfLiteSignatureRunnerGetInputName r I i = None) \<and> (\<forall>i. TfLiteSignatureRunnerGetOutputName r I i \<noteq> None)"
proof -
  let ?I = "w_named ''x'' ''x''" and ?s = "primary_subgraph (w_named ''x'' ''x'')"
  let ?r = "new_signature_runner (CreatePlaceholderSignatureDef ?I) 0 ?s"
  have s: "sg_inputs ?s = [0, 1]" "sg_outputs ?s = [1]" "it_signature_defs ?I = []" "it_subgraphs ?I = [?s]"
    by (simp_all add: w_named_def primary_subgraph_def new_interpreter_def AddSubgraphs_def)
  have p: "placeholder_name prefix ?s [0, 1] i = ''x''" if "i < 2" for prefix i
    using that by (auto simp: placeholder_name_def w_named_def primary_subgraph_def less_2_cases_iff Let_def)
  have "\<not> inj_on (placeholder_name ''input'' ?s [0, 1]) {0..<2}"
    using inj_onD [of "placeholder_name ''input'' ?s [0, 1]" "{0..<2}" 0 1] p [of 0] p [of 1] by auto
  with placeholder_names_bounds [OF _ _ w_named_runner [of 1 "\<lambda>_ _. 0" "''x''" "''x''"]] s
  have b: "(\<exists>i. TfLiteSignatureRunnerGetInputName ?r ?I i = None) \<and> (\<forall>i. TfLiteSignatureRunnerGetOutputName ?r ?I i \<noteq> None)"
    by (simp add: numeral_2_eq_2)
  have "sr_input_names ?r = [''x'']"
    by (simp add: new_signature_runner_def CreatePlaceholderSignatureDef_def s placeholder_map_def p Let_def upt_rec)
  moreover have "TfLiteSignatureRunnerGetInputCount ?r ?I = 2"
    by (simp add: TfLiteSignatureRunnerGetInputCount_def runner_graph_def new_signature_runner_def s)
  ultimately show ?thesis using b by blast
qed

section \<open>Runners that cannot be created\<close>

text \<open>
  The subgraph of a signature is not checked when the model is built. Asking for the runner of a signature whose subgraph does not exist uses a null
  pointer.
\<close>

lemma missing_subgraph_flagged:
  assumes "find_signature key I = Some d" "it_subgraph (wrap_i32 (sd_subgraph_index d)) I = None"
    and "it_lazy_delegate_providers I = []"
  shows "GetSignatureRunner n K create (Some key) \<lparr>ss_interpreter = I, ss_runner_map = []\<rparr> =
    Some (None, \<lparr>ss_interpreter = set_primary (flag_access (primary_subgraph I)) I, ss_runner_map = []\<rparr>)"
  using assms by (simp add: GetSignatureRunner_def ReplaceWithPlaceholderSignatureKeyIfNeeded_def ApplyLazyDelegateProviders_def
      create_runner_def flag_state_def Let_def)

text \<open>Asking again for a runner gives the same one and changes nothing.\<close>

lemma runner_created_once:
  assumes "GetSignatureRunner n K create (Some key) S = Some (Some k, S')"
  shows "k = key \<and> GetSignatureRunner n' K' create' (Some key) S' = Some (Some key, S')"
proof -
  have "k = key \<and> map_of (ss_runner_map S') key \<noteq> None"
    using assms by (auto simp: GetSignatureRunner_def ReplaceWithPlaceholderSignatureKeyIfNeeded_def create_runner_def add_runner_def
        flag_state_def Let_def map_of_map_insert split: option.splits if_splits)
  then show ?thesis by (simp add: GetSignatureRunner_def ReplaceWithPlaceholderSignatureKeyIfNeeded_def)
qed

end
