(* ===== verification/ModelFiles.thy ===== *)
theory ModelFiles
  imports Verifier Signatures
begin

text \<open>
  Loading a model (\<open>compiler/mlir/lite/allocation.cc\<close>, \<open>mmap_allocation.cc\<close>, \<open>core/model_builder_base.cc\<close> and
  \<open>core/model_builder_base.h\<close>): the bytes of a model come from a mapping of the file, a copy of it or the caller's memory; a model
  is built from them after checks and owns them until it is deleted.

  The state is what the process holds: descriptors, mappings and blocks of memory. The operating system (record \<open>posix\<close>) and the
  FlatBuffers library (record \<open>flatbuffers\<close>) are parameters, with their documented behaviour in \<open>posix_ok\<close> and \<open>flatbuffers_ok\<close>.
  Files do not change while they are in use. Error messages are left out, and with them \<open>ValidateModelBuffers\<close>, which only warns.
\<close>

section \<open>The process and the operating system\<close>

record mapping_info =
  mp_file :: nat
  mp_offset :: nat
  mp_length :: nat
  mp_private :: bool

text \<open>\<open>ps_bad\<close> records a descriptor or mapping given back that is not held, and a read outside of the memory of the model.\<close>

record process =
  ps_fds :: "int \<Rightarrow> nat option"
  ps_maps :: "nat \<Rightarrow> mapping_info option"
  ps_blocks :: "nat \<Rightarrow> byte list option"
  ps_bad :: bool

text \<open>
  What the system answers: the file behind a name, its size and its bytes, the number of a new descriptor, the address of a new
  mapping or block, the bytes that \<open>fread\<close> delivers. \<open>None\<close> is a failure of the call. The last two fields tell how the library is
  built: with \<open>mmap_allocation.cc\<close> or \<open>mmap_allocation_disabled.cc\<close>, and for 32-bit ARM or not.
\<close>

record posix =
  px_lookup :: "process \<Rightarrow> string \<Rightarrow> nat option"
  px_fd :: "process \<Rightarrow> int option"
  px_fstat :: "nat \<Rightarrow> nat option"
  px_content :: "nat \<Rightarrow> byte list"
  px_mmap :: "process \<Rightarrow> nat \<Rightarrow> nat \<Rightarrow> nat \<Rightarrow> nat option"
  px_new :: "process \<Rightarrow> nat \<Rightarrow> nat option"
  px_fread :: "nat \<Rightarrow> nat \<Rightarrow> byte list"
  px_pagesize :: nat
  px_IsSupported :: bool
  px_arm :: bool

definition new_descriptor :: "posix \<Rightarrow> nat option \<Rightarrow> process \<Rightarrow> int \<times> process" where
  "new_descriptor P file s = (case file of
     None \<Rightarrow> (-1, s)
   | Some f \<Rightarrow> (case px_fd P s of
       None \<Rightarrow> (-1, s)
     | Some fd \<Rightarrow> (fd, s\<lparr>ps_fds := (ps_fds s)(fd \<mapsto> f)\<rparr>)))"

definition open_file :: "posix \<Rightarrow> string \<Rightarrow> process \<Rightarrow> int \<times> process" where
  "open_file P filename s = new_descriptor P (px_lookup P s filename) s"

definition dup_fd :: "posix \<Rightarrow> int \<Rightarrow> process \<Rightarrow> int \<times> process" where
  "dup_fd P fd s = new_descriptor P (ps_fds s fd) s"

definition close_fd :: "int \<Rightarrow> process \<Rightarrow> process" where
  "close_fd fd s = (if ps_fds s fd = None then s\<lparr>ps_bad := True\<rparr> else s\<lparr>ps_fds := (ps_fds s)(fd := None)\<rparr>)"

definition fstat_size :: "posix \<Rightarrow> int \<Rightarrow> process \<Rightarrow> nat option" where
  "fstat_size P fd s = Option.bind (ps_fds s fd) (px_fstat P)"

definition MAP_FAILED :: nat where
  "MAP_FAILED = size_max"

definition mmap_file :: "posix \<Rightarrow> nat \<Rightarrow> bool \<Rightarrow> int \<Rightarrow> nat \<Rightarrow> process \<Rightarrow> nat \<times> process" where
  "mmap_file P len map_private fd offset s = (case ps_fds s fd of
     None \<Rightarrow> (MAP_FAILED, s)
   | Some f \<Rightarrow> (case px_mmap P s f offset len of
       None \<Rightarrow> (MAP_FAILED, s)
     | Some a \<Rightarrow> (a, s\<lparr>ps_maps := (ps_maps s)(a \<mapsto>
         \<lparr>mp_file = f, mp_offset = offset, mp_length = len, mp_private = map_private\<rparr>)\<rparr>)))"

definition munmap :: "nat \<Rightarrow> nat \<Rightarrow> process \<Rightarrow> process" where
  "munmap a len s = (case ps_maps s a of
     None \<Rightarrow> s\<lparr>ps_bad := True\<rparr>
   | Some m \<Rightarrow> (if mp_length m = len then s\<lparr>ps_maps := (ps_maps s)(a := None)\<rparr> else s\<lparr>ps_bad := True\<rparr>))"

definition delete_array :: "nat \<Rightarrow> process \<Rightarrow> process" where
  "delete_array p s =
     (if p = 0 then s
      else if ps_blocks s p = None then s\<lparr>ps_bad := True\<rparr> else s\<lparr>ps_blocks := (ps_blocks s)(p := None)\<rparr>)"

text \<open>
  The bytes that can be read in a mapping: whole pages, the last page of the file filled up with zeros; nothing behind that page.
\<close>

definition page_up :: "posix \<Rightarrow> nat \<Rightarrow> nat" where
  "page_up P n = (n + px_pagesize P - 1) div px_pagesize P * px_pagesize P"

definition mapped_bytes :: "posix \<Rightarrow> mapping_info \<Rightarrow> byte list" where
  "mapped_bytes P m =
     (let data = take (page_up P (mp_length m)) (drop (mp_offset m) (px_content P (mp_file m)))
      in data @ replicate (page_up P (length data) - length data) 0)"

section \<open>Allocations\<close>

text \<open>The result of a call that may leave with the exception \<open>std::bad_alloc\<close>.\<close>

datatype 'a outcome = Throws | Returns 'a

record MMAPAllocation =
  ma_mmap_fd :: int
  ma_mmapped_buffer :: nat
  ma_buffer_size_bytes :: nat
  ma_offset_in_buffer :: nat
  ma_offset_of_buffer_in_file :: nat

record FileCopyAllocation =
  fc_copied_buffer :: nat
  fc_buffer_size_bytes :: nat

record MemoryAllocation =
  me_buffer :: nat
  me_buffer_size_bytes :: nat

datatype Allocation = kMMap MMAPAllocation | kFileCopy FileCopyAllocation | kMemory MemoryAllocation

subsection \<open>Mapped files\<close>

definition GetFdSizeBytes :: "posix \<Rightarrow> int \<Rightarrow> process \<Rightarrow> nat" where
  "GetFdSizeBytes P fd s =
     (if fd < 0 then 0 else (case fstat_size P fd s of None \<Rightarrow> 0 | Some n \<Rightarrow> n))"

definition map_owned_range :: "posix \<Rightarrow> int \<Rightarrow> nat \<Rightarrow> nat \<Rightarrow> bool \<Rightarrow> process \<Rightarrow> MMAPAllocation \<times> process" where
  "map_owned_range P owned_fd offset len map_private s =
     (let a = \<lparr>ma_mmap_fd = owned_fd, ma_mmapped_buffer = MAP_FAILED, ma_buffer_size_bytes = len, ma_offset_in_buffer = 0,
                ma_offset_of_buffer_in_file = 0\<rparr>
      in if owned_fd < 0 then (a, s)
         else
           (let offset_in_buffer = offset mod px_pagesize P;
                a1 = a\<lparr>ma_offset_in_buffer := offset_in_buffer, ma_offset_of_buffer_in_file := offset - offset_in_buffer\<rparr>;
                file_size = GetFdSizeBytes P owned_fd s
            in if size_add len offset > file_size then (a1, s)
               else (case mmap_file P (size_add len offset_in_buffer) map_private owned_fd (offset - offset_in_buffer) s of
                   (p, s1) \<Rightarrow> (a1\<lparr>ma_mmapped_buffer := p\<rparr>, s1))))"

definition map_owned :: "posix \<Rightarrow> int \<Rightarrow> bool \<Rightarrow> process \<Rightarrow> MMAPAllocation \<times> process" where
  "map_owned P owned_fd map_private s = map_owned_range P owned_fd 0 (GetFdSizeBytes P owned_fd s) map_private s"

definition MMAPAllocation_file :: "posix \<Rightarrow> string \<Rightarrow> bool \<Rightarrow> process \<Rightarrow> MMAPAllocation \<times> process" where
  "MMAPAllocation_file P filename map_private s = (case open_file P filename s of (fd, s1) \<Rightarrow> map_owned P fd map_private s1)"

definition MMAPAllocation_fd :: "posix \<Rightarrow> int \<Rightarrow> bool \<Rightarrow> process \<Rightarrow> MMAPAllocation \<times> process" where
  "MMAPAllocation_fd P fd map_private s = (case dup_fd P fd s of (fd', s1) \<Rightarrow> map_owned P fd' map_private s1)"

definition MMAPAllocation_file_range ::
    "posix \<Rightarrow> string \<Rightarrow> nat \<Rightarrow> nat \<Rightarrow> bool \<Rightarrow> process \<Rightarrow> MMAPAllocation \<times> process" where
  "MMAPAllocation_file_range P filename offset len map_private s =
     (case open_file P filename s of (fd, s1) \<Rightarrow> map_owned_range P fd offset len map_private s1)"

definition MMAPAllocation_fd_range ::
    "posix \<Rightarrow> int \<Rightarrow> nat \<Rightarrow> nat \<Rightarrow> bool \<Rightarrow> process \<Rightarrow> MMAPAllocation \<times> process" where
  "MMAPAllocation_fd_range P fd offset len map_private s =
     (case dup_fd P fd s of (fd', s1) \<Rightarrow> map_owned_range P fd' offset len map_private s1)"

definition MMAPAllocation_valid :: "MMAPAllocation \<Rightarrow> bool" where
  "MMAPAllocation_valid a \<longleftrightarrow> ma_mmapped_buffer a \<noteq> MAP_FAILED"

definition delete_MMAPAllocation :: "MMAPAllocation \<Rightarrow> process \<Rightarrow> process" where
  "delete_MMAPAllocation a s =
     (let s1 = (if MMAPAllocation_valid a
                then munmap (ma_mmapped_buffer a) (size_add (ma_buffer_size_bytes a) (ma_offset_in_buffer a)) s else s)
      in if ma_mmap_fd a \<ge> 0 then close_fd (ma_mmap_fd a) s1 else s1)"

definition mmapped_buffer_size :: "MMAPAllocation \<Rightarrow> nat" where
  "mmapped_buffer_size a = size_add (ma_buffer_size_bytes a) (ma_offset_in_buffer a)"

subsection \<open>Copied files\<close>

text \<open>
  The descriptor is that of the stream, which is closed on every way out. \<open>new\<close> reports a failure by an exception, so that the test
  for a null pointer behind it is never taken. A failed read leaves the size set and the pointer null.
\<close>

definition new_FileCopyAllocation :: "posix \<Rightarrow> string \<Rightarrow> process \<Rightarrow> FileCopyAllocation outcome \<times> process" where
  "new_FileCopyAllocation P filename s =
     (case open_file P filename s of (fd, s1) \<Rightarrow>
       if fd = -1 then (Returns \<lparr>fc_copied_buffer = 0, fc_buffer_size_bytes = 0\<rparr>, s1)
       else (case fstat_size P fd s1 of
           None \<Rightarrow> (Returns \<lparr>fc_copied_buffer = 0, fc_buffer_size_bytes = 0\<rparr>, close_fd fd s1)
         | Some n \<Rightarrow> (case px_new P s1 n of
             None \<Rightarrow> (Throws, close_fd fd s1)
           | Some p \<Rightarrow>
              (let data = (case ps_fds s1 fd of None \<Rightarrow> [] | Some f \<Rightarrow> take n (px_fread P f n));
                   s2 = s1\<lparr>ps_blocks := (ps_blocks s1)(p \<mapsto> data @ replicate (n - length data) 0)\<rparr>
               in if length data \<noteq> n
                  then (Returns \<lparr>fc_copied_buffer = 0, fc_buffer_size_bytes = n\<rparr>, close_fd fd (delete_array p s2))
                  else (Returns \<lparr>fc_copied_buffer = p, fc_buffer_size_bytes = n\<rparr>, close_fd fd s2)))))"

definition delete_FileCopyAllocation :: "FileCopyAllocation \<Rightarrow> process \<Rightarrow> process" where
  "delete_FileCopyAllocation a s = delete_array (fc_copied_buffer a) s"

subsection \<open>Memory of the caller\<close>

definition new_MemoryAllocation :: "posix \<Rightarrow> nat \<Rightarrow> nat \<Rightarrow> MemoryAllocation" where
  "new_MemoryAllocation P ptr num_bytes =
     (if px_arm P \<and> ptr mod 4 \<noteq> 0 then \<lparr>me_buffer = 0, me_buffer_size_bytes = 0\<rparr>
      else \<lparr>me_buffer = ptr, me_buffer_size_bytes = num_bytes\<rparr>)"

subsection \<open>The interface of allocations\<close>

fun allocation_base :: "Allocation \<Rightarrow> nat" where
  "allocation_base (kMMap a) = size_add (ma_mmapped_buffer a) (ma_offset_in_buffer a)"
| "allocation_base (kFileCopy a) = fc_copied_buffer a"
| "allocation_base (kMemory a) = me_buffer a"

fun allocation_bytes :: "Allocation \<Rightarrow> nat" where
  "allocation_bytes (kMMap a) = ma_buffer_size_bytes a"
| "allocation_bytes (kFileCopy a) = fc_buffer_size_bytes a"
| "allocation_bytes (kMemory a) = me_buffer_size_bytes a"

fun allocation_valid :: "Allocation \<Rightarrow> bool" where
  "allocation_valid (kMMap a) = MMAPAllocation_valid a"
| "allocation_valid (kFileCopy a) = (fc_copied_buffer a \<noteq> 0)"
| "allocation_valid (kMemory a) = (me_buffer a \<noteq> 0)"

fun delete_allocation :: "Allocation \<Rightarrow> process \<Rightarrow> process" where
  "delete_allocation (kMMap a) s = delete_MMAPAllocation a s"
| "delete_allocation (kFileCopy a) s = delete_FileCopyAllocation a s"
| "delete_allocation (kMemory a) s = s"

text \<open>The bytes that can be read from the base of an allocation on.\<close>

fun readable :: "posix \<Rightarrow> process \<Rightarrow> Allocation \<Rightarrow> byte list" where
  "readable P s (kMMap a) = (case ps_maps s (ma_mmapped_buffer a) of
     None \<Rightarrow> [] | Some m \<Rightarrow> drop (ma_offset_in_buffer a) (mapped_bytes P m))"
| "readable P s (kFileCopy a) = (case ps_blocks s (fc_copied_buffer a) of None \<Rightarrow> [] | Some data \<Rightarrow> data)"
| "readable P s (kMemory a) = (case ps_blocks s (me_buffer a) of None \<Rightarrow> [] | Some data \<Rightarrow> data)"

definition GetAllocationFromFile :: "posix \<Rightarrow> string \<Rightarrow> bool \<Rightarrow> process \<Rightarrow> Allocation outcome \<times> process" where
  "GetAllocationFromFile P filename allow_modifications s =
     (if px_IsSupported P
      then (case MMAPAllocation_file P filename allow_modifications s of (a, s1) \<Rightarrow> (Returns (kMMap a), s1))
      else (case new_FileCopyAllocation P filename s of
          (Throws, s1) \<Rightarrow> (Throws, s1)
        | (Returns a, s1) \<Rightarrow> (Returns (kFileCopy a), s1)))"

definition StrCat_int :: "string \<Rightarrow> int \<Rightarrow> string" where
  "StrCat_int prefix i = prefix @ (if i < 0 then ''-'' @ to_string (nat (- i)) else to_string (nat i))"

definition GetAllocationFromFd :: "posix \<Rightarrow> int \<Rightarrow> bool \<Rightarrow> process \<Rightarrow> Allocation outcome \<times> process" where
  "GetAllocationFromFd P fd allow_modifications s =
     (if px_IsSupported P
      then (case MMAPAllocation_fd P fd allow_modifications s of (a, s1) \<Rightarrow> (Returns (kMMap a), s1))
      else (case new_FileCopyAllocation P (StrCat_int ''/proc/self/fd/'' fd) s of
          (Throws, s1) \<Rightarrow> (Throws, s1)
        | (Returns a, s1) \<Rightarrow> (Returns (kFileCopy a), s1)))"


section \<open>Models and their metadata\<close>

text \<open>The tables of a model with the entries of its metadata, a name and the index of a buffer each.\<close>

record ModelRoot = Model +
  fm_metadata :: "(string option \<times> nat) list option"

definition tflite_metadata_buffer_location :: string where
  "tflite_metadata_buffer_location = ''buffer_location''"

definition tflite_metadata_min_runtime_version :: string where
  "tflite_metadata_min_runtime_version = ''min_runtime_version''"

definition string_of_bytes :: "byte list \<Rightarrow> string" where
  "string_of_bytes bs = map (\<lambda>b. char_of (unat b)) bs"

text \<open>The value of the entry, if the loop stores one.\<close>

definition metadata_value :: "(nat \<Rightarrow> byte) \<Rightarrow> Buffer list \<Rightarrow> string option \<times> nat \<Rightarrow> (string \<times> string) option" where
  "metadata_value mem buffers entry =
     (let (name, buf) = entry in
      if buf \<ge> length buffers then None
      else (case fb_array (buffers ! buf) of
          None \<Rightarrow> None
        | Some region \<Rightarrow>
           (let val = string_of_bytes (buffer_bytes mem region)
            in case name of None \<Rightarrow> None | Some key \<Rightarrow> if val = [] then None else Some (key, val))))"

fun read_metadata ::
    "(nat \<Rightarrow> byte) \<Rightarrow> Buffer list \<Rightarrow> (string option \<times> nat) list \<Rightarrow> (string \<Rightarrow> string option) \<Rightarrow> (string \<Rightarrow> string option)" where
  "read_metadata mem buffers [] keys_values = keys_values"
| "read_metadata mem buffers (entry # entries) keys_values = read_metadata mem buffers entries
     (case metadata_value mem buffers entry of None \<Rightarrow> keys_values | Some (key, val) \<Rightarrow> keys_values(key \<mapsto> val))"

definition ReadAllMetadata :: "(nat \<Rightarrow> byte) \<Rightarrow> ModelRoot option \<Rightarrow> (string \<Rightarrow> string option)" where
  "ReadAllMetadata mem model = (case model of
     None \<Rightarrow> (\<lambda>_. None)
   | Some m \<Rightarrow> (case (fm_metadata m, fm_buffers m) of
       (Some entries, Some buffers) \<Rightarrow> read_metadata mem buffers entries (\<lambda>_. None)
     | _ \<Rightarrow> (\<lambda>_. None)))"

text \<open>
  The first entry with the name decides. \<open>None\<close> is a null pointer or an index outside of the buffers, which the code follows
  without a check.
\<close>

definition runtime_version :: "(nat \<Rightarrow> byte) \<Rightarrow> Buffer list option \<Rightarrow> nat \<Rightarrow> string option" where
  "runtime_version mem buffers buf = (case buffers of
     None \<Rightarrow> None
   | Some bs \<Rightarrow>
      (if buf \<ge> length bs then None
       else (case fb_array (bs ! buf) of
           None \<Rightarrow> None
         | Some region \<Rightarrow>
            (let array = buffer_bytes mem region
             in if 0 \<in> set array then Some (string_of_bytes (takeWhile (\<lambda>b. b \<noteq> 0) array)) else Some []))))"

fun find_runtime :: "(nat \<Rightarrow> byte) \<Rightarrow> Buffer list option \<Rightarrow> (string option \<times> nat) list \<Rightarrow> string option" where
  "find_runtime mem buffers [] = Some []"
| "find_runtime mem buffers ((name, buf) # entries) = (case name of
     None \<Rightarrow> None
   | Some n \<Rightarrow> (if n = tflite_metadata_min_runtime_version then runtime_version mem buffers buf
               else find_runtime mem buffers entries))"

definition GetMinimumRuntime :: "(nat \<Rightarrow> byte) \<Rightarrow> ModelRoot option \<Rightarrow> string option" where
  "GetMinimumRuntime mem model = (case model of
     None \<Rightarrow> Some []
   | Some m \<Rightarrow> (case fm_metadata m of
       None \<Rightarrow> Some [] | Some entries \<Rightarrow> find_runtime mem (fm_buffers m) entries))"

fun find_location :: "(string option \<times> nat) list \<Rightarrow> bool option" where
  "find_location [] = Some False"
| "find_location ((name, buf) # entries) = (case name of
     None \<Rightarrow> None | Some n \<Rightarrow> (if n = tflite_metadata_buffer_location then Some True else find_location entries))"

definition CheckBufferOutsideModel :: "ModelRoot option \<Rightarrow> bool option" where
  "CheckBufferOutsideModel model = (case model of
     None \<Rightarrow> Some False
   | Some m \<Rightarrow> (case fm_metadata m of None \<Rightarrow> Some False | Some entries \<Rightarrow> find_location entries))"

section \<open>Byte order\<close>

text \<open>
  The conversion of constant data on a big-endian machine, where a 32-bit integer is read with its first byte as the highest.
  \<open>None\<close> is an access outside of the buffer, which the code makes for a header of strings that is longer than the buffer.
\<close>

fun swap_words :: "nat \<Rightarrow> nat \<Rightarrow> byte list \<Rightarrow> byte list" where
  "swap_words w 0 bs = bs"
| "swap_words w (Suc n) bs = rev (take w bs) @ swap_words w n (drop w bs)"

definition num_of_strings :: "bool \<Rightarrow> byte list \<Rightarrow> int option" where
  "num_of_strings from_big_endian buffer =
     (if length buffer < 4 then None
      else read_i32 (if from_big_endian then rev (take 4 buffer) else take 4 buffer) 0)"

text \<open>The types by their number in the enumeration of the schema.\<close>

definition element_width :: "int \<Rightarrow> nat" where
  "element_width tensor_type =
     (if tensor_type \<in> {1, 7, 16} then 2
      else if tensor_type \<in> {0, 2, 15, 8} then 4
      else if tensor_type \<in> {4, 10, 12, 11} then 8 else 0)"

definition ByteSwapBuffer :: "int \<Rightarrow> bool \<Rightarrow> byte list \<Rightarrow> byte list option" where
  "ByteSwapBuffer tensor_type from_big_endian buffer =
     (if tensor_type = 5
      then (case num_of_strings from_big_endian buffer of
          None \<Rightarrow> None
        | Some n \<Rightarrow> (let words = nat (n + 2)
                    in if 4 * words > length buffer then None else Some (swap_words 4 words buffer)))
      else
        (let w = element_width tensor_type
         in if w = 0 then Some buffer else Some (swap_words w (length buffer div w) buffer)))"

definition write_mem :: "nat \<Rightarrow> byte list \<Rightarrow> (nat \<Rightarrow> byte) \<Rightarrow> nat \<Rightarrow> byte" where
  "write_mem a bs mem x = (if a \<le> x \<and> x < a + length bs then bs ! (x - a) else mem x)"

fun swap_tensors ::
    "Buffer list \<Rightarrow> bool \<Rightarrow> Tensor list \<Rightarrow> bool list \<times> (nat \<Rightarrow> byte) \<Rightarrow> (bool list \<times> (nat \<Rightarrow> byte)) option" where
  "swap_tensors buffers from_big_endian [] st = Some st"
| "swap_tensors buffers from_big_endian (tensor # tensors) (swapped, mem) =
     (let i = ft_buffer tensor in
      if i > 0 \<and> i < length buffers \<and> \<not> swapped ! i
      then (case fb_array (buffers ! i) of
          None \<Rightarrow> swap_tensors buffers from_big_endian tensors (swapped, mem)
        | Some region \<Rightarrow> (case ByteSwapBuffer (ft_type tensor) from_big_endian (buffer_bytes mem region) of
            None \<Rightarrow> None
          | Some bs \<Rightarrow> swap_tensors buffers from_big_endian tensors (swapped[i := True], write_mem (fst region) bs mem)))
      else swap_tensors buffers from_big_endian tensors (swapped, mem))"

fun swap_subgraphs ::
    "Buffer list \<Rightarrow> bool \<Rightarrow> SubGraph list \<Rightarrow> bool list \<times> (nat \<Rightarrow> byte) \<Rightarrow> (bool list \<times> (nat \<Rightarrow> byte)) option" where
  "swap_subgraphs buffers from_big_endian [] st = Some st"
| "swap_subgraphs buffers from_big_endian (g # gs) st = (case fs_tensors g of
     None \<Rightarrow> None
   | Some tensors \<Rightarrow> Option.bind (swap_tensors buffers from_big_endian tensors st) (swap_subgraphs buffers from_big_endian gs))"

definition ByteSwapTFLiteModel :: "Model \<Rightarrow> bool \<Rightarrow> (nat \<Rightarrow> byte) \<Rightarrow> (nat \<Rightarrow> byte) option" where
  "ByteSwapTFLiteModel tfl_model from_big_endian mem = (case (fm_buffers tfl_model, fm_subgraphs tfl_model) of
     (Some buffers, Some subgraphs) \<Rightarrow>
       map_option snd (swap_subgraphs buffers from_big_endian subgraphs (replicate (length buffers) False, mem))
   | _ \<Rightarrow> None)"

text \<open>A model with its own copy of the data of every buffer; a missing vector is an empty one.\<close>

record ModelT =
  mt_tables :: ModelRoot
  mt_subgraphs :: "Tensor list list"
  mt_buffers :: "byte list list"

definition UnPackTo :: "(nat \<Rightarrow> byte) \<Rightarrow> ModelRoot \<Rightarrow> ModelT" where
  "UnPackTo mem m = \<lparr>mt_tables = m,
     mt_subgraphs = (case fm_subgraphs m of None \<Rightarrow> [] | Some gs \<Rightarrow>
       map (\<lambda>g. case fs_tensors g of None \<Rightarrow> [] | Some tensors \<Rightarrow> tensors) gs),
     mt_buffers = (case fm_buffers m of None \<Rightarrow> [] | Some bs \<Rightarrow>
       map (\<lambda>b. case fb_array b of None \<Rightarrow> [] | Some region \<Rightarrow> buffer_bytes mem region) bs)\<rparr>"

text \<open>An empty vector has no data.\<close>

fun swap_tensors_T :: "bool \<Rightarrow> Tensor list \<Rightarrow> bool list \<times> byte list list \<Rightarrow> (bool list \<times> byte list list) option" where
  "swap_tensors_T from_big_endian [] st = Some st"
| "swap_tensors_T from_big_endian (tensor # tensors) (swapped, buffers) =
     (let i = ft_buffer tensor in
      if i > 0 \<and> i < length buffers \<and> \<not> swapped ! i \<and> buffers ! i \<noteq> []
      then (case ByteSwapBuffer (ft_type tensor) from_big_endian (buffers ! i) of
          None \<Rightarrow> None
        | Some bs \<Rightarrow> swap_tensors_T from_big_endian tensors (swapped[i := True], buffers[i := bs]))
      else swap_tensors_T from_big_endian tensors (swapped, buffers))"

fun swap_subgraphs_T :: "bool \<Rightarrow> Tensor list list \<Rightarrow> bool list \<times> byte list list \<Rightarrow> (bool list \<times> byte list list) option" where
  "swap_subgraphs_T from_big_endian [] st = Some st"
| "swap_subgraphs_T from_big_endian (tensors # gs) st =
     Option.bind (swap_tensors_T from_big_endian tensors st) (swap_subgraphs_T from_big_endian gs)"

definition ByteSwapTFLiteModelT :: "bool \<Rightarrow> ModelT \<Rightarrow> ModelT option" where
  "ByteSwapTFLiteModelT from_big_endian m =
     map_option (\<lambda>(_, buffers). m\<lparr>mt_buffers := buffers\<rparr>)
       (swap_subgraphs_T from_big_endian (mt_subgraphs m) (replicate (length (mt_buffers m)) False, mt_buffers m))"

section \<open>Building a model\<close>

text \<open>
  FlatBuffers: whether the bytes from an address on carry a file identifier, whether they are a well-formed buffer, the tables they
  hold, and a buffer with the tables of a model. The last fields are the largest size of a buffer and the byte order of the machine.
\<close>

record flatbuffers =
  fl_BufferHasIdentifier :: "byte list \<Rightarrow> string \<Rightarrow> bool"
  fl_VerifyBuffer :: "byte list \<Rightarrow> string \<Rightarrow> bool"
  fl_GetRoot :: "nat \<Rightarrow> byte list \<Rightarrow> ModelRoot"
  fl_Pack :: "ModelT \<Rightarrow> string \<Rightarrow> byte list"
  fl_MAX_BUFFER_SIZE :: nat
  fl_LITTLEENDIAN :: bool

record FlatBufferModel =
  bm_model :: "ModelRoot option"
  bm_allocation :: "Allocation option"

definition ModelIdentifier :: string where
  "ModelIdentifier = ''TFL3''"

definition ModelBufferHasIdentifier :: "flatbuffers \<Rightarrow> byte list \<Rightarrow> bool" where
  "ModelBufferHasIdentifier F buf = fl_BufferHasIdentifier F buf ModelIdentifier"

definition VerifyModelBuffer :: "flatbuffers \<Rightarrow> byte list \<Rightarrow> bool" where
  "VerifyModelBuffer F buf = fl_VerifyBuffer F buf ModelIdentifier"

text \<open>The identifier is in the bytes 4 to 7; the last of them is read in the comparison or for the message.\<close>

definition CheckModelIdentifier :: "posix \<Rightarrow> flatbuffers \<Rightarrow> Allocation \<Rightarrow> process \<Rightarrow> bool \<times> process" where
  "CheckModelIdentifier P F a s =
     (if allocation_bytes a < 7 then (False, s)
      else (ModelBufferHasIdentifier F (readable P s a),
            if length (readable P s a) < 8 then s\<lparr>ps_bad := True\<rparr> else s))"

definition new_FlatBufferModel :: "posix \<Rightarrow> flatbuffers \<Rightarrow> Allocation \<Rightarrow> process \<Rightarrow> FlatBufferModel \<times> process" where
  "new_FlatBufferModel P F a s =
     (if \<not> allocation_valid a then (\<lparr>bm_model = None, bm_allocation = Some a\<rparr>, s)
      else (case CheckModelIdentifier P F a s of (ok, s1) \<Rightarrow>
        (\<lparr>bm_model = (if ok then Some (fl_GetRoot F (allocation_base a) (readable P s a)) else None),
          bm_allocation = Some a\<rparr>, s1)))"

definition delete_model :: "FlatBufferModel \<Rightarrow> process \<Rightarrow> process" where
  "delete_model m s = (case bm_allocation m of None \<Rightarrow> s | Some a \<Rightarrow> delete_allocation a s)"

definition initialized :: "FlatBufferModel \<Rightarrow> bool" where
  "initialized m \<longleftrightarrow> bm_model m \<noteq> None"

definition BuildFromAllocation :: "posix \<Rightarrow> flatbuffers \<Rightarrow> Allocation \<Rightarrow> process \<Rightarrow> FlatBufferModel option \<times> process" where
  "BuildFromAllocation P F a s = (case new_FlatBufferModel P F a s of (m, s1) \<Rightarrow>
     if \<not> initialized m then (None, delete_model m s1) else (Some m, s1))"

definition VerifyAndBuildFromAllocation ::
    "posix \<Rightarrow> flatbuffers \<Rightarrow> (byte list \<Rightarrow> bool) option \<Rightarrow> Allocation \<Rightarrow> process \<Rightarrow> FlatBufferModel option \<times> process" where
  "VerifyAndBuildFromAllocation P F extra_verifier a s =
     (if \<not> allocation_valid a then (None, delete_allocation a s)
      else
        (let allocation_size = min (allocation_bytes a) (fl_MAX_BUFFER_SIZE F - 1);
             data = take allocation_size (readable P s a)
         in if \<not> VerifyModelBuffer F data then (None, delete_allocation a s)
            else if (case extra_verifier of None \<Rightarrow> False | Some verify \<Rightarrow> \<not> verify data) then (None, delete_allocation a s)
            else BuildFromAllocation P F a s))"

definition BuildFromModel :: "ModelRoot option \<Rightarrow> FlatBufferModel option option" where
  "BuildFromModel caller_owned_model_spec = (case CheckBufferOutsideModel caller_owned_model_spec of
     None \<Rightarrow> None
   | Some outside \<Rightarrow>
      (if outside then Some None
       else (let m = \<lparr>bm_model = caller_owned_model_spec, bm_allocation = None\<rparr>
             in if initialized m then Some (Some m) else Some None)))"

definition BuildFromBuffer :: "posix \<Rightarrow> flatbuffers \<Rightarrow> nat \<Rightarrow> nat \<Rightarrow> process \<Rightarrow> FlatBufferModel option \<times> process" where
  "BuildFromBuffer P F caller_owned_buffer buffer_size s =
     BuildFromAllocation P F (kMemory (new_MemoryAllocation P caller_owned_buffer buffer_size)) s"

definition VerifyAndBuildFromBuffer ::
    "posix \<Rightarrow> flatbuffers \<Rightarrow> nat \<Rightarrow> nat \<Rightarrow> (byte list \<Rightarrow> bool) option \<Rightarrow> process \<Rightarrow> FlatBufferModel option \<times> process" where
  "VerifyAndBuildFromBuffer P F caller_owned_buffer buffer_size extra_verifier s =
     VerifyAndBuildFromAllocation P F extra_verifier (kMemory (new_MemoryAllocation P caller_owned_buffer buffer_size)) s"

subsection \<open>Conversion on big-endian machines\<close>

text \<open>The memory of a model: its bytes from the base of the allocation on.\<close>

definition memory_at :: "nat \<Rightarrow> byte list \<Rightarrow> nat \<Rightarrow> byte" where
  "memory_at base data x = (if base \<le> x \<and> x - base < length data then data ! (x - base) else 0)"

definition model_memory :: "posix \<Rightarrow> process \<Rightarrow> FlatBufferModel \<Rightarrow> nat \<Rightarrow> byte" where
  "model_memory P s m = (case bm_allocation m of
     None \<Rightarrow> (\<lambda>_. 0) | Some a \<Rightarrow> memory_at (allocation_base a) (readable P s a))"

text \<open>A model in a string at an address, converted in place.\<close>

definition ByteSwapSerializedModel :: "flatbuffers \<Rightarrow> nat \<Rightarrow> bool \<Rightarrow> byte list \<Rightarrow> byte list option" where
  "ByteSwapSerializedModel F a from_big_endian serialized_model =
     map_option (\<lambda>mem. buffer_bytes mem (a, length serialized_model))
       (ByteSwapTFLiteModel (Model.truncate (fl_GetRoot F a serialized_model)) from_big_endian (memory_at a serialized_model))"

text \<open>
  The old model is given up with its allocation, and the new one is built from the memory of a builder that is given up too:
  neither is ever deleted.
\<close>

definition ByteSwapFlatBufferModelBase ::
    "posix \<Rightarrow> flatbuffers \<Rightarrow> FlatBufferModel \<Rightarrow> ModelRoot \<Rightarrow> bool \<Rightarrow> process \<Rightarrow> FlatBufferModel option outcome \<times> process" where
  "ByteSwapFlatBufferModelBase P F modelp tflite_model from_big_endian s =
     (case ByteSwapTFLiteModelT from_big_endian (UnPackTo (model_memory P s modelp) tflite_model) of
        None \<Rightarrow> (Returns None, s\<lparr>ps_bad := True\<rparr>)
      | Some copied_model \<Rightarrow>
         (let packed = fl_Pack F copied_model ModelIdentifier in
          case px_new P s (length packed) of
            None \<Rightarrow> (Throws, s)
          | Some p \<Rightarrow>
             (case BuildFromBuffer P F p (length packed) (s\<lparr>ps_blocks := (ps_blocks s)(p \<mapsto> packed)\<rparr>) of
                (m, s1) \<Rightarrow> (Returns m, s1))))"

definition ByteConvertModel ::
    "posix \<Rightarrow> flatbuffers \<Rightarrow> FlatBufferModel option \<Rightarrow> bool \<Rightarrow> process \<Rightarrow> FlatBufferModel option outcome \<times> process" where
  "ByteConvertModel P F model from_big_endian s = (case model of
     None \<Rightarrow> (Returns None, s)
   | Some m \<Rightarrow> (case bm_model m of
       None \<Rightarrow> (Returns None, s\<lparr>ps_bad := True\<rparr>)
     | Some tfl_model \<Rightarrow> (case fm_subgraphs tfl_model of
         None \<Rightarrow> (Returns None, s\<lparr>ps_bad := True\<rparr>)
       | Some [] \<Rightarrow> (Returns (Some m), s)
       | Some (g # _) \<Rightarrow> (case fs_tensors g of
           None \<Rightarrow> (Returns None, s\<lparr>ps_bad := True\<rparr>)
         | Some [] \<Rightarrow> (Returns (Some m), s)
         | Some (_ # _) \<Rightarrow> (case fm_buffers tfl_model of
             None \<Rightarrow> (Returns None, s\<lparr>ps_bad := True\<rparr>)
           | Some buffers \<Rightarrow>
              (if length buffers < 2 then (Returns (Some m), s)
               else ByteSwapFlatBufferModelBase P F m tfl_model from_big_endian s))))))"

definition convert_result :: "posix \<Rightarrow> flatbuffers \<Rightarrow> FlatBufferModel option \<times> process \<Rightarrow> FlatBufferModel option outcome \<times> process" where
  "convert_result P F r = (case r of (m, s) \<Rightarrow> if fl_LITTLEENDIAN F then (Returns m, s) else ByteConvertModel P F m False s)"

subsection \<open>From files\<close>

text \<open>
  \<open>VerifyAndBuildFromFileDescriptor\<close> is left out: it declares its local model as a pointer to the base class, which does not convert to the
  declared result, so the template does not compile when it is instantiated.
\<close>

definition BuildFromFile :: "posix \<Rightarrow> flatbuffers \<Rightarrow> string \<Rightarrow> process \<Rightarrow> FlatBufferModel option outcome \<times> process" where
  "BuildFromFile P F filename s = (case GetAllocationFromFile P filename False s of
     (Throws, s1) \<Rightarrow> (Throws, s1)
   | (Returns a, s1) \<Rightarrow> convert_result P F (BuildFromAllocation P F a s1))"

definition VerifyAndBuildFromFile ::
    "posix \<Rightarrow> flatbuffers \<Rightarrow> string \<Rightarrow> (byte list \<Rightarrow> bool) option \<Rightarrow> process \<Rightarrow> FlatBufferModel option outcome \<times> process" where
  "VerifyAndBuildFromFile P F filename extra_verifier s = (case GetAllocationFromFile P filename False s of
     (Throws, s1) \<Rightarrow> (Throws, s1)
   | (Returns a, s1) \<Rightarrow> convert_result P F (VerifyAndBuildFromAllocation P F extra_verifier a s1))"

definition BuildFromFileDescriptor :: "posix \<Rightarrow> flatbuffers \<Rightarrow> int \<Rightarrow> process \<Rightarrow> FlatBufferModel option outcome \<times> process" where
  "BuildFromFileDescriptor P F fd s = (case GetAllocationFromFd P fd False s of
     (Throws, s1) \<Rightarrow> (Throws, s1)
   | (Returns a, s1) \<Rightarrow> convert_result P F (BuildFromAllocation P F a s1))"

text \<open>The builder of interpreters for a model.\<close>

definition builder_of_model :: "(nat \<Rightarrow> byte) \<Rightarrow> FlatBufferModel \<Rightarrow> OpResolver \<Rightarrow> InterpreterOptions option \<Rightarrow> InterpreterBuilder" where
  "builder_of_model mem m op_resolver options =
     new_builder (map_option Model.truncate (bm_model m)) op_resolver options (ReadAllMetadata mem (bm_model m))
       (map_option (\<lambda>a. (allocation_base a, allocation_bytes a)) (bm_allocation m))"


section \<open>The documented behaviour of the parameters\<close>

text \<open>
  A new descriptor, mapping or block is one that the process does not hold yet; \<open>fstat\<close> tells the length of the file;
  \<open>fread\<close> delivers the bytes of the file from its start.
\<close>

definition posix_ok :: "posix \<Rightarrow> bool" where
  "posix_ok P \<longleftrightarrow>
     8 \<le> px_pagesize P \<and> px_pagesize P < 2 ^ 31 \<and>
     (\<forall>s fd. px_fd P s = Some fd \<longrightarrow> 0 \<le> fd \<and> ps_fds s fd = None) \<and>
     (\<forall>f. length (px_content P f) < 2 ^ 63) \<and> (\<forall>f n. px_fstat P f = Some n \<longrightarrow> n = length (px_content P f)) \<and>
     (\<forall>s f offset n a. px_mmap P s f offset n = Some a \<longrightarrow> 0 < n \<and> a + n < 2 ^ 64 \<and> ps_maps s a = None) \<and>
     (\<forall>s n p. px_new P s n = Some p \<longrightarrow> 0 < p \<and> p + n < 2 ^ 64 \<and> ps_blocks s p = None) \<and>
     (\<forall>f n. \<exists>k \<le> n. px_fread P f n = take k (px_content P f))"

text \<open>The identifier of a buffer is in its bytes 4 to 7, and a verified buffer has room for it and the expected one.\<close>

definition flatbuffers_ok :: "flatbuffers \<Rightarrow> bool" where
  "flatbuffers_ok F \<longleftrightarrow>
     (\<forall>bs ident. 8 \<le> length bs \<longrightarrow> length ident = 4 \<longrightarrow>
        fl_BufferHasIdentifier F bs ident = (string_of_bytes (take 4 (drop 4 bs)) = ident)) \<and>
     (\<forall>bs ident. fl_VerifyBuffer F bs ident \<longrightarrow> 8 \<le> length bs \<and> fl_BufferHasIdentifier F bs ident)"

lemma posix_okD:
  assumes "posix_ok P"
  shows "8 \<le> px_pagesize P" "px_pagesize P < 2 ^ 31"
    and "px_fd P s = Some fd \<Longrightarrow> 0 \<le> fd \<and> ps_fds s fd = None"
    and "px_fstat P f = Some n \<Longrightarrow> n = length (px_content P f) \<and> n < 2 ^ 63"
    and "px_mmap P s f offset k = Some a \<Longrightarrow> 0 < k \<and> a + k < 2 ^ 64 \<and> ps_maps s a = None"
    and "px_new P s k = Some p \<Longrightarrow> 0 < p \<and> p + k < 2 ^ 64 \<and> ps_blocks s p = None"
    and "length (px_content P f) < 2 ^ 63"
  using assms unfolding posix_ok_def by blast+

lemma same_identifier:
  assumes "flatbuffers_ok F" "take 4 (drop 4 as) = take 4 (drop 4 bs)" "8 \<le> length as" "8 \<le> length bs"
  shows "ModelBufferHasIdentifier F as = ModelBufferHasIdentifier F bs"
  using assms by (simp add: flatbuffers_ok_def ModelBufferHasIdentifier_def ModelIdentifier_def)

lemma verified_identifier:
  assumes "flatbuffers_ok F" "VerifyModelBuffer F bs"
  shows "8 \<le> length bs" "ModelBufferHasIdentifier F bs"
  using assms by (auto simp: flatbuffers_ok_def VerifyModelBuffer_def ModelBufferHasIdentifier_def)

section \<open>Pages\<close>

lemma page_up_ge: "0 < px_pagesize P \<Longrightarrow> n \<le> page_up P n"
proof -
  assume p: "0 < px_pagesize P"
  have "(n + px_pagesize P - 1) mod px_pagesize P < px_pagesize P" using p by simp
  moreover have "(n + px_pagesize P - 1) div px_pagesize P * px_pagesize P + (n + px_pagesize P - 1) mod px_pagesize P
      = n + px_pagesize P - 1" by simp
  ultimately show ?thesis unfolding page_up_def by linarith
qed

lemma page_up_less: "0 < px_pagesize P \<Longrightarrow> page_up P n < n + px_pagesize P"
  unfolding page_up_def using div_times_less_eq_dividend [of "n + px_pagesize P - 1" "px_pagesize P"] by linarith

lemma page_up_pos:
  assumes "0 < px_pagesize P" "0 < n" shows "px_pagesize P \<le> page_up P n"
proof -
  have "1 \<le> (n + px_pagesize P - 1) div px_pagesize P" using assms by (simp add: Suc_le_eq div_greater_zero_iff)
  then have "1 * px_pagesize P \<le> (n + px_pagesize P - 1) div px_pagesize P * px_pagesize P" by (rule mult_le_mono1)
  then show ?thesis by (simp add: page_up_def)
qed

text \<open>A mapping of bytes that the file has shows these bytes, in at least one page.\<close>

lemma mapped_bytes_prefix:
  assumes "0 < px_pagesize P" "mp_offset m + mp_length m \<le> length (px_content P (mp_file m))"
  shows "take (mp_length m) (mapped_bytes P m) = take (mp_length m) (drop (mp_offset m) (px_content P (mp_file m)))"
  using assms page_up_ge [of P "mp_length m"] by (simp add: mapped_bytes_def Let_def min_absorb1)

lemma mapped_bytes_length:
  assumes "0 < px_pagesize P"
  shows "length (mapped_bytes P m) =
    page_up P (min (page_up P (mp_length m)) (length (px_content P (mp_file m)) - mp_offset m))"
  using page_up_ge [OF assms] by (simp add: mapped_bytes_def Let_def min.commute)

section \<open>Allocations are given back\<close>

lemma close_new_descriptor:
  assumes "posix_ok P" "new_descriptor P file s = (fd, s1)"
  shows "fd \<noteq> -1 \<Longrightarrow> close_fd fd s1 = s \<and> 0 \<le> fd \<and> (\<exists>f. file = Some f \<and> ps_fds s1 fd = Some f)"
    and "fd = -1 \<Longrightarrow> s1 = s" "ps_maps s1 = ps_maps s" "ps_blocks s1 = ps_blocks s" "ps_bad s1 = ps_bad s"
  using assms posix_okD(3) [OF assms(1), of s fd]
  by (auto simp: new_descriptor_def close_fd_def fun_upd_idem_iff split: option.splits)

lemma mmap_file_failed:
  assumes "posix_ok P" "mmap_file P len w fd offset s = (MAP_FAILED, s1)" shows "s1 = s"
proof -
  have "a \<noteq> MAP_FAILED" if "px_mmap P s f offset len = Some a" for f a
    using posix_okD(5) [OF assms(1) that] by (auto simp: MAP_FAILED_def size_max_def)
  with assms(2) show ?thesis by (auto simp: mmap_file_def split: option.splits)
qed

text \<open>An allocation that holds what it should: deleting it gives back exactly that.\<close>

definition restores :: "Allocation \<Rightarrow> process \<Rightarrow> process \<Rightarrow> bool" where
  "restores a s1 s \<longleftrightarrow> delete_allocation a s1 = s \<and> ps_bad s1 = ps_bad s"

definition mapped_allocation :: "posix \<Rightarrow> int \<Rightarrow> nat \<Rightarrow> nat \<Rightarrow> nat \<Rightarrow> MMAPAllocation" where
  "mapped_allocation P fd offset len p = \<lparr>ma_mmap_fd = fd, ma_mmapped_buffer = p, ma_buffer_size_bytes = len,
     ma_offset_in_buffer = offset mod px_pagesize P, ma_offset_of_buffer_in_file = offset - offset mod px_pagesize P\<rparr>"

lemma map_owned_range_cases:
  assumes "posix_ok P" "0 \<le> fd" "map_owned_range P fd offset len map_private s = (a, s1)"
  obtains (Failed) "a = mapped_allocation P fd offset len MAP_FAILED" "s1 = s"
  | (Mapped) f p where "size_add len offset \<le> GetFdSizeBytes P fd s" "ps_fds s fd = Some f"
      "px_mmap P s f (offset - offset mod px_pagesize P) (size_add len (offset mod px_pagesize P)) = Some p"
      "a = mapped_allocation P fd offset len p" "p \<noteq> MAP_FAILED" "ps_maps s p = None"
      "s1 = s\<lparr>ps_maps := (ps_maps s)(p \<mapsto> \<lparr>mp_file = f, mp_offset = offset - offset mod px_pagesize P,
         mp_length = size_add len (offset mod px_pagesize P), mp_private = map_private\<rparr>)\<rparr>"
proof (cases "size_add len offset \<le> GetFdSizeBytes P fd s")
  case False
  then show ?thesis using assms(2,3) Failed by (simp add: map_owned_range_def Let_def mapped_allocation_def)
next
  case fits: True
  let ?d = "offset mod px_pagesize P"
  obtain p s' where mm: "mmap_file P (size_add len ?d) map_private fd (offset - ?d) s = (p, s')" by fastforce
  with assms(2,3) fits have a: "a = mapped_allocation P fd offset len p" "s1 = s'"
    by (auto simp: map_owned_range_def Let_def mapped_allocation_def)
  show ?thesis
  proof (cases "p = MAP_FAILED")
    case True
    with a mm mmap_file_failed [OF assms(1)] show ?thesis by (intro Failed) auto
  next
    case False
    with mm obtain f where f: "ps_fds s fd = Some f" "px_mmap P s f (offset - ?d) (size_add len ?d) = Some p"
      "s' = s\<lparr>ps_maps := (ps_maps s)(p \<mapsto> \<lparr>mp_file = f, mp_offset = offset - ?d, mp_length = size_add len ?d,
         mp_private = map_private\<rparr>)\<rparr>"
      by (auto simp: mmap_file_def split: option.splits)
    with posix_okD(5) [OF assms(1) f(2)] show ?thesis using fits a False by (intro Mapped) auto
  qed
qed

lemma map_owned_range_restores:
  assumes ok: "posix_ok P" and new: "new_descriptor P file s = (fd, s1)"
    and m: "map_owned_range P fd offset len map_private s1 = (a, s2)"
  shows "restores (kMMap a) s2 s"
proof (cases "fd = -1")
  case True
  then have "s2 = s" "ma_mmap_fd a = -1" "\<not> MMAPAllocation_valid a"
    using m close_new_descriptor(2) [OF ok new]
    by (auto simp: map_owned_range_def Let_def MMAPAllocation_valid_def)
  then show ?thesis by (simp add: restores_def delete_MMAPAllocation_def)
next
  case False
  note fd = close_new_descriptor(1) [OF ok new False] close_new_descriptor(3-5) [OF ok new]
  then have "0 \<le> fd" by simp
  from ok this m show ?thesis
  proof (cases rule: map_owned_range_cases)
    case Failed
    with fd show ?thesis
      by (simp add: restores_def delete_MMAPAllocation_def MMAPAllocation_valid_def mapped_allocation_def)
  next
    case (Mapped f p)
    then have "munmap p (size_add len (offset mod px_pagesize P)) s2 = s1" by (simp add: munmap_def fun_upd_idem_iff)
    with Mapped(4,5,7) fd show ?thesis
      by (simp add: restores_def delete_MMAPAllocation_def MMAPAllocation_valid_def mapped_allocation_def)
  qed
qed


lemma delete_new_block:
  assumes "ps_blocks s p = None" "p \<noteq> 0"
  shows "delete_array p (s\<lparr>ps_blocks := (ps_blocks s)(p \<mapsto> bs)\<rparr>) = s"
  using assms by (simp add: delete_array_def fun_upd_idem_iff)

lemma close_other [simp]:
  "close_fd fd (s\<lparr>ps_blocks := B\<rparr>) = (close_fd fd s)\<lparr>ps_blocks := B\<rparr>" "ps_blocks (close_fd fd s) = ps_blocks s"
  by (simp_all add: close_fd_def)

lemma copied_data:
  assumes "posix_ok P" "px_fstat P f = Some n" "length (take n (px_fread P f n)) = n"
  shows "take n (px_fread P f n) = px_content P f"
proof -
  obtain k where k: "k \<le> n" "px_fread P f n = take k (px_content P f)" using assms(1) unfolding posix_ok_def by blast
  with assms(3) have "k = n" by (simp add: min_def split: if_splits)
  with k posix_okD(4) [OF assms(1,2)] show ?thesis by simp
qed

lemma FileCopy_cases:
  assumes "posix_ok P" "new_FileCopyAllocation P filename s = (r, s1)"
  obtains (Throws) "r = Throws" "s1 = s"
  | (Failed) n where "r = Returns \<lparr>fc_copied_buffer = 0, fc_buffer_size_bytes = n\<rparr>" "s1 = s"
  | (Copied) f p where "px_lookup P s filename = Some f" "0 < p" "p + length (px_content P f) < 2 ^ 64" "ps_blocks s p = None"
      "r = Returns \<lparr>fc_copied_buffer = p, fc_buffer_size_bytes = length (px_content P f)\<rparr>"
      "s1 = s\<lparr>ps_blocks := (ps_blocks s)(p \<mapsto> px_content P f)\<rparr>"
proof -
  obtain fd s' where new: "new_descriptor P (px_lookup P s filename) s = (fd, s')" by fastforce
  note facts = close_new_descriptor [OF assms(1) new]
  show ?thesis
  proof (cases "fd = -1")
    case True
    with assms(2) new facts(2) show ?thesis by (intro Failed [of 0]) (auto simp: new_FileCopyAllocation_def open_file_def)
  next
    case False
    with facts(1) obtain f where f: "px_lookup P s filename = Some f" "ps_fds s' fd = Some f" "close_fd fd s' = s" by auto
    show ?thesis
    proof (cases "px_fstat P f")
      case None
      with assms(2) new False f show ?thesis
        by (intro Failed [of 0]) (auto simp: new_FileCopyAllocation_def open_file_def fstat_size_def)
    next
      case (Some n)
      note n = posix_okD(4) [OF assms(1) Some]
      show ?thesis
      proof (cases "px_new P s' n")
        case None
        with assms(2) new False f Some show ?thesis
          by (intro Throws) (auto simp: new_FileCopyAllocation_def open_file_def fstat_size_def)
      next
        case p: (Some p)
        note fresh = posix_okD(6) [OF assms(1) p]
        define data where "data = take n (px_fread P f n)"
        have e: "(r, s1) = (if length data \<noteq> n
            then (Returns \<lparr>fc_copied_buffer = 0, fc_buffer_size_bytes = n\<rparr>,
                  close_fd fd (delete_array p (s'\<lparr>ps_blocks := (ps_blocks s')(p \<mapsto> data @ replicate (n - length data) 0)\<rparr>)))
            else (Returns \<lparr>fc_copied_buffer = p, fc_buffer_size_bytes = n\<rparr>,
                  close_fd fd (s'\<lparr>ps_blocks := (ps_blocks s')(p \<mapsto> data @ replicate (n - length data) 0)\<rparr>)))"
          unfolding assms(2) [symmetric] data_def
          using new False f Some p by (simp add: new_FileCopyAllocation_def open_file_def fstat_size_def Let_def)
        show ?thesis
        proof (cases "length data = n")
          case True
          then have "data = px_content P f" using copied_data [OF assms(1) Some] by (simp add: data_def)
          with e True f n fresh facts(4) show ?thesis by (intro Copied [of f p]) auto
        next
          case short: False
          with e f(3) fresh delete_new_block [of s' p] show ?thesis by (intro Failed [of n]) auto
        qed
      qed
    qed
  qed
qed


section \<open>What an allocation shows\<close>

text \<open>The allocation holds all bytes of the file, at addresses that do not wrap.\<close>

definition shows_file :: "posix \<Rightarrow> process \<Rightarrow> Allocation \<Rightarrow> nat \<Rightarrow> bool" where
  "shows_file P s a f \<longleftrightarrow> allocation_bytes a = length (px_content P f) \<and>
     take (length (px_content P f)) (readable P s a) = px_content P f \<and> allocation_base a + length (px_content P f) < 2 ^ 64"

lemma shows_file_prefix:
  "shows_file P s a f \<Longrightarrow> n \<le> length (px_content P f) \<Longrightarrow> take n (readable P s a) = take n (px_content P f)"
  unfolding shows_file_def by (metis min_absorb1 take_take)

lemma shows_file_length: "shows_file P s a f \<Longrightarrow> length (px_content P f) \<le> length (readable P s a)"
  unfolding shows_file_def by (metis length_take min.cobounded1)

lemma map_owned_shows:
  assumes ok: "posix_ok P" and fd: "0 \<le> fd" and m: "map_owned P fd w s = (a, s1)" and v: "MMAPAllocation_valid a"
  obtains f p where "ps_fds s fd = Some f" "shows_file P s1 (kMMap a) f" "8 \<le> length (readable P s1 (kMMap a))"
      "px_fstat P f = Some (length (px_content P f))" "px_mmap P s f 0 (length (px_content P f)) = Some p"
      "a = mapped_allocation P fd 0 (length (px_content P f)) p"
      "s1 = s\<lparr>ps_maps := (ps_maps s)(p \<mapsto> \<lparr>mp_file = f, mp_offset = 0, mp_length = length (px_content P f), mp_private = w\<rparr>)\<rparr>"
proof -
  from ok fd m [unfolded map_owned_def] show thesis
  proof (cases rule: map_owned_range_cases)
    case Failed
    with v show thesis by (simp add: MMAPAllocation_valid_def mapped_allocation_def)
  next
    case (Mapped f p)
    let ?n = "length (px_content P f)"
    have pos: "0 < GetFdSizeBytes P fd s mod size_mod" using posix_okD(5) [OF ok Mapped(3)] by (simp add: size_add_def)
    have "GetFdSizeBytes P fd s \<noteq> 0" using pos by (rule contrapos_pn) simp
    then have st: "px_fstat P f = Some (GetFdSizeBytes P fd s)"
      using Mapped(2) by (auto simp: GetFdSizeBytes_def fstat_size_def split: if_splits option.splits)
    have n: "GetFdSizeBytes P fd s = ?n" "?n < 2 ^ 63" using posix_okD(4) [OF ok st] by auto
    have page: "8 \<le> px_pagesize P" by (rule posix_okD(1) [OF ok])
    define mp where "mp = \<lparr>mp_file = f, mp_offset = 0, mp_length = ?n, mp_private = w\<rparr>"
    have s1: "s1 = s\<lparr>ps_maps := (ps_maps s)(p \<mapsto> mp)\<rparr>" using Mapped(7) n by (simp add: size_add_def mp_def)
    have p: "px_mmap P s f 0 ?n = Some p" using Mapped(3) n by (simp add: size_add_def)
    note bounds = posix_okD(5) [OF ok p]
    have r: "readable P s1 (kMMap a) = mapped_bytes P mp" using Mapped(4) s1 by (simp add: mapped_allocation_def)
    have "take ?n (mapped_bytes P mp) = px_content P f" using mapped_bytes_prefix [of P mp] page by (simp add: mp_def)
    then have "shows_file P s1 (kMMap a) f"
      using Mapped(4) n bounds r by (simp add: shows_file_def mapped_allocation_def size_add_def)
    moreover have "8 \<le> length (readable P s1 (kMMap a))"
    proof -
      have "0 < min (page_up P ?n) ?n" using bounds page_up_ge [of P ?n] page by simp
      then have "px_pagesize P \<le> length (mapped_bytes P mp)"
        using page_up_pos [of P "min (page_up P ?n) ?n"] mapped_bytes_length [of P mp] page by (simp add: mp_def)
      with page r show ?thesis by simp
    qed
    ultimately show thesis using that [of f p] Mapped(2,4) st n p s1 by (simp add: mp_def)
  qed
qed

lemma map_new_shows:
  assumes "posix_ok P" "new_descriptor P file s = (fd, s1)" "map_owned P fd w s1 = (a, s2)" "MMAPAllocation_valid a"
  shows "\<exists>f. file = Some f \<and> shows_file P s2 (kMMap a) f \<and> 8 \<le> length (readable P s2 (kMMap a))"
proof (cases "fd = -1")
  case True
  with assms(3,4) show ?thesis by (auto simp: map_owned_def map_owned_range_def Let_def MMAPAllocation_valid_def)
next
  case False
  with close_new_descriptor(1) [OF assms(1,2)] obtain f where f: "0 \<le> fd" "file = Some f" "ps_fds s1 fd = Some f" by auto
  from assms(1) f(1) assms(3,4) show ?thesis by (rule map_owned_shows) (use f in auto)
qed

section \<open>Building a model from an allocation\<close>

text \<open>A verified build accepts the bytes that pass both verifiers, up to the largest size of a buffer.\<close>

definition accepted :: "flatbuffers \<Rightarrow> (byte list \<Rightarrow> bool) option \<Rightarrow> byte list \<Rightarrow> bool" where
  "accepted F extra_verifier content \<longleftrightarrow>
     (let data = take (fl_MAX_BUFFER_SIZE F - 1) content
      in VerifyModelBuffer F data \<and> (case extra_verifier of None \<Rightarrow> True | Some verify \<Rightarrow> verify data))"

definition model_of :: "posix \<Rightarrow> flatbuffers \<Rightarrow> Allocation \<Rightarrow> process \<Rightarrow> FlatBufferModel" where
  "model_of P F a s = \<lparr>bm_model = Some (fl_GetRoot F (allocation_base a) (readable P s a)), bm_allocation = Some a\<rparr>"

lemma BuildFromAllocation_eq:
  assumes "allocation_bytes a < 7 \<or> 8 \<le> length (readable P s a)"
  shows "BuildFromAllocation P F a s =
    (if allocation_valid a \<and> 7 \<le> allocation_bytes a \<and> ModelBufferHasIdentifier F (readable P s a)
     then (Some (model_of P F a s), s) else (None, delete_allocation a s))"
  using assms
  by (auto simp: BuildFromAllocation_def new_FlatBufferModel_def CheckModelIdentifier_def initialized_def model_of_def
      delete_model_def)

lemma VerifyAndBuildFromAllocation_eq:
  assumes "flatbuffers_ok F" "shows_file P s a f"
  shows "VerifyAndBuildFromAllocation P F extra_verifier a s =
    (if allocation_valid a \<and> accepted F extra_verifier (px_content P f)
     then (Some (model_of P F a s), s) else (None, delete_allocation a s))"
proof -
  let ?n = "min (allocation_bytes a) (fl_MAX_BUFFER_SIZE F - 1)" and ?c = "px_content P f"
  have len: "allocation_bytes a = length ?c" using assms(2) by (simp add: shows_file_def)
  have data: "take ?n (readable P s a) = take (fl_MAX_BUFFER_SIZE F - 1) ?c"
    using shows_file_prefix [OF assms(2), of ?n] by (simp add: len min_def)
  have build: "BuildFromAllocation P F a s = (Some (model_of P F a s), s)"
    if v: "allocation_valid a" "VerifyModelBuffer F (take (fl_MAX_BUFFER_SIZE F - 1) ?c)"
  proof -
    note verified = verified_identifier [OF assms(1) v(2)]
    have long: "8 \<le> length ?c" using verified(1) by simp
    have "8 \<le> length (readable P s a)" using long shows_file_length [OF assms(2)] by simp
    moreover have "take 8 (readable P s a) = take 8 (take (fl_MAX_BUFFER_SIZE F - 1) ?c)"
      using verified(1) shows_file_prefix [OF assms(2) long] by (simp add: min_absorb1)
    then have "take 4 (drop 4 (readable P s a)) = take 4 (drop 4 (take (fl_MAX_BUFFER_SIZE F - 1) ?c))"
      by (simp add: take_drop)
    ultimately have "ModelBufferHasIdentifier F (readable P s a)"
      using verified same_identifier [OF assms(1), of "readable P s a"] by simp
    with v(1) long len shows_file_length [OF assms(2)] show ?thesis by (simp add: BuildFromAllocation_eq)
  qed
  show ?thesis unfolding VerifyAndBuildFromAllocation_def Let_def data accepted_def
    using build by (cases extra_verifier) auto
qed


section \<open>Sources of allocations\<close>

text \<open>
  What the builders rely on: an allocation can be given back, nothing is held after an exception, and a valid allocation shows the
  file it comes from.
\<close>

locale allocation_source =
  fixes acquire :: "posix \<Rightarrow> 'k \<Rightarrow> process \<Rightarrow> Allocation outcome \<times> process"
    and origin :: "posix \<Rightarrow> 'k \<Rightarrow> process \<Rightarrow> nat option"
  assumes acquire_restores: "posix_ok P \<Longrightarrow> acquire P k s = (Returns a, s1) \<Longrightarrow> restores a s1 s"
    and acquire_throws: "posix_ok P \<Longrightarrow> acquire P k s = (Throws, s1) \<Longrightarrow> s1 = s"
    and acquire_shows: "posix_ok P \<Longrightarrow> acquire P k s = (Returns a, s1) \<Longrightarrow> allocation_valid a \<Longrightarrow>
      \<exists>f. origin P k s = Some f \<and> shows_file P s1 a f"
begin

lemma verified_build:
  assumes "posix_ok P" "flatbuffers_ok F" "acquire P k s = (Returns a, s1)"
  shows "VerifyAndBuildFromAllocation P F extra_verifier a s1 =
    (if allocation_valid a \<and> accepted F extra_verifier (px_content P (the (origin P k s)))
     then (Some (model_of P F a s1), s1) else (None, s))"
proof (cases "allocation_valid a")
  case True
  with acquire_shows [OF assms(1,3)] obtain f where f: "origin P k s = Some f" "shows_file P s1 a f" by blast
  with acquire_restores [OF assms(1,3)] VerifyAndBuildFromAllocation_eq [OF assms(2) f(2)] show ?thesis
    by (simp add: restores_def)
next
  case False
  with acquire_restores [OF assms(1,3)] show ?thesis by (simp add: VerifyAndBuildFromAllocation_def restores_def)
qed

end

text \<open>
  After a build the process is as it was before it when there is no model, and it is so again when the model is deleted.
\<close>

definition leaves :: "process \<Rightarrow> FlatBufferModel option outcome \<times> process \<Rightarrow> bool" where
  "leaves s r \<longleftrightarrow> (case r of
     (Returns (Some m), s1) \<Rightarrow> ps_bad s1 = ps_bad s \<and> delete_model m s1 = s
   | (_, s1) \<Rightarrow> s1 = s)"

lemma leaves_simps [simp]:
  "leaves s (Throws, s1) \<longleftrightarrow> s1 = s" "leaves s (Returns None, s1) \<longleftrightarrow> s1 = s"
  "leaves s (Returns (Some m), s1) \<longleftrightarrow> ps_bad s1 = ps_bad s \<and> delete_model m s1 = s"
  by (simp_all add: leaves_def)

lemma model_of_restores: "restores a s1 s \<Longrightarrow> leaves s (Returns (Some (model_of P F a s1)), s1)"
  by (simp add: restores_def model_of_def delete_model_def)

context allocation_source
begin

lemma verified_lifecycle:
  assumes "posix_ok P" "flatbuffers_ok F" "fl_LITTLEENDIAN F"
  shows "leaves s (case acquire P k s of
       (Throws, s1) \<Rightarrow> (Throws, s1)
     | (Returns a, s1) \<Rightarrow> convert_result P F (VerifyAndBuildFromAllocation P F extra_verifier a s1))"
proof (cases "acquire P k s")
  case (Pair r s1)
  show ?thesis
  proof (cases r)
    case Throws
    with Pair acquire_throws [OF assms(1)] show ?thesis by simp
  next
    case (Returns a)
    with Pair have a: "acquire P k s = (Returns a, s1)" by simp
    with verified_build [OF assms(1,2) a] acquire_restores [OF assms(1) a] assms(3) show ?thesis
      by (simp add: convert_result_def model_of_restores del: leaves_simps(3))
  qed
qed

end

lemma FileCopy_source:
  assumes ok: "posix_ok P" and r: "new_FileCopyAllocation P filename s = (r, s1)"
  shows "r = Throws \<Longrightarrow> s1 = s"
    and "r = Returns a \<Longrightarrow> restores (kFileCopy a) s1 s"
    and "r = Returns a \<Longrightarrow> allocation_valid (kFileCopy a) \<Longrightarrow>
      \<exists>f. px_lookup P s filename = Some f \<and> shows_file P s1 (kFileCopy a) f"
  using ok r
  by (cases rule: FileCopy_cases;
      auto simp: restores_def delete_FileCopyAllocation_def delete_new_block delete_array_def [of 0] shows_file_def)+

lemma MMAP_source:
  assumes ok: "posix_ok P" and r: "(case new_descriptor P file s of (fd, s1) \<Rightarrow> map_owned P fd w s1) = (a, s2)"
  shows "restores (kMMap a) s2 s"
    and "allocation_valid (kMMap a) \<Longrightarrow>
      \<exists>f. file = Some f \<and> shows_file P s2 (kMMap a) f \<and> 8 \<le> length (readable P s2 (kMMap a))"
  using r map_owned_range_restores [OF ok] map_new_shows [OF ok]
  by (auto simp: map_owned_def split: prod.splits)

text \<open>Both functions choose between a mapping of a descriptor and a copy of a file.\<close>

definition map_or_copy :: "posix \<Rightarrow> nat option \<Rightarrow> string \<Rightarrow> process \<Rightarrow> Allocation outcome \<times> process" where
  "map_or_copy P file filename s = (if px_IsSupported P
     then (case (case new_descriptor P file s of (fd, s1) \<Rightarrow> map_owned P fd False s1) of (a, s1) \<Rightarrow> (Returns (kMMap a), s1))
     else (case new_FileCopyAllocation P filename s of
         (Throws, s1) \<Rightarrow> (Throws, s1) | (Returns a, s1) \<Rightarrow> (Returns (kFileCopy a), s1)))"

lemma map_or_copy_laws:
  assumes ok: "posix_ok P" and r: "map_or_copy P file filename s = (r, s1)"
  shows "r = Returns a \<Longrightarrow> restores a s1 s" and "r = Throws \<Longrightarrow> s1 = s"
    and "r = Returns a \<Longrightarrow> allocation_valid a \<Longrightarrow>
      \<exists>f. (if px_IsSupported P then file else px_lookup P s filename) = Some f \<and> shows_file P s1 a f"
proof -
  obtain m s2 where m: "(case new_descriptor P file s of (fd, s1) \<Rightarrow> map_owned P fd False s1) = (m, s2)" by fastforce
  obtain c s3 where c: "new_FileCopyAllocation P filename s = (c, s3)" by fastforce
  note laws = MMAP_source [OF ok m] FileCopy_source [OF ok c]
  have e: "(r, s1) = (if px_IsSupported P then (Returns (kMMap m), s2)
      else (case c of Throws \<Rightarrow> (Throws, s3) | Returns a \<Rightarrow> (Returns (kFileCopy a), s3)))"
    unfolding r [symmetric] map_or_copy_def m c by (simp split: outcome.split)
  show "r = Returns a \<Longrightarrow> restores a s1 s" "r = Throws \<Longrightarrow> s1 = s"
    using laws e by (auto split: if_splits outcome.splits)
  show "r = Returns a \<Longrightarrow> allocation_valid a \<Longrightarrow>
      \<exists>f. (if px_IsSupported P then file else px_lookup P s filename) = Some f \<and> shows_file P s1 a f"
    using laws(2,5) e by (auto split: if_splits outcome.splits)
qed

lemma sources_map_or_copy:
  "GetAllocationFromFile P filename False s = map_or_copy P (px_lookup P s filename) filename s"
  "GetAllocationFromFd P fd False s = map_or_copy P (ps_fds s fd) (StrCat_int ''/proc/self/fd/'' fd) s"
  by (simp_all add: GetAllocationFromFile_def GetAllocationFromFd_def MMAPAllocation_file_def MMAPAllocation_fd_def open_file_def
      dup_fd_def map_or_copy_def)

interpretation file_source: allocation_source "\<lambda>P filename. GetAllocationFromFile P filename False" "\<lambda>P filename s. px_lookup P s filename"
  by unfold_locales (unfold sources_map_or_copy, auto dest: map_or_copy_laws)

definition fd_origin :: "posix \<Rightarrow> int \<Rightarrow> process \<Rightarrow> nat option" where
  "fd_origin P fd s = (if px_IsSupported P then ps_fds s fd else px_lookup P s (StrCat_int ''/proc/self/fd/'' fd))"

interpretation fd_source: allocation_source "\<lambda>P fd. GetAllocationFromFd P fd False" fd_origin
  by unfold_locales (unfold sources_map_or_copy fd_origin_def, auto dest: map_or_copy_laws)


section \<open>The life of a model\<close>

lemma mapped_build_leaves:
  assumes "posix_ok P" "(case new_descriptor P file s of (fd, s1) \<Rightarrow> map_owned P fd w s1) = (a, s2)" "fl_LITTLEENDIAN F"
  shows "leaves s (convert_result P F (BuildFromAllocation P F (kMMap a) s2))"
proof (cases "MMAPAllocation_valid a")
  case True
  with MMAP_source(2) [OF assms(1,2)] have "8 \<le> length (readable P s2 (kMMap a))" by auto
  with BuildFromAllocation_eq [of "kMMap a" P s2 F] MMAP_source(1) [OF assms(1,2)] assms(3) show ?thesis
    by (simp add: convert_result_def model_of_restores restores_def del: leaves_simps(3) readable.simps split: if_split)
next
  case False
  with MMAP_source(1) [OF assms(1,2)] assms(3) show ?thesis
    by (simp add: convert_result_def BuildFromAllocation_def new_FlatBufferModel_def initialized_def delete_model_def restores_def)
qed

lemma mapped_source:
  assumes "px_IsSupported P"
  obtains a s1 where "map_or_copy P file filename s = (Returns (kMMap a), s1)"
    "(case new_descriptor P file s of (fd, s1) \<Rightarrow> map_owned P fd False s1) = (a, s1)"
  using assms by (cases "case new_descriptor P file s of (fd, s1) \<Rightarrow> map_owned P fd False s1") (simp add: map_or_copy_def)

text \<open>
  Claim C21. On a little-endian machine, building a model from a file with verification leaves the process with exactly the descriptors,
  mappings and blocks it had when no model comes out, whichever check fails, and deleting a model gives back exactly what it holds; nothing is closed,
  unmapped or freed twice and nothing outside of the model is read. Without verification the same holds, also for a model from a descriptor, when files are mapped.
  (On a big-endian machine the model is converted after it is built, which loses the mapping.)
\<close>

theorem models_give_back:
  assumes "posix_ok P" "flatbuffers_ok F" "fl_LITTLEENDIAN F"
  shows "leaves s (VerifyAndBuildFromFile P F filename extra_verifier s) \<and>
    (px_IsSupported P \<longrightarrow> leaves s (BuildFromFile P F filename s) \<and> leaves s (BuildFromFileDescriptor P F fd s))"
proof (intro conjI impI)
  show "leaves s (VerifyAndBuildFromFile P F filename extra_verifier s)"
    using file_source.verified_lifecycle [OF assms] by (simp add: VerifyAndBuildFromFile_def)
  assume mapped: "px_IsSupported P"
  show "leaves s (BuildFromFile P F filename s)"
    by (rule mapped_source [OF mapped, of "px_lookup P s filename" filename s])
      (simp add: BuildFromFile_def sources_map_or_copy mapped_build_leaves [OF assms(1) _ assms(3)])
  show "leaves s (BuildFromFileDescriptor P F fd s)"
    by (rule mapped_source [OF mapped, of "ps_fds s fd" "StrCat_int ''/proc/self/fd/'' fd" s])
      (simp add: BuildFromFileDescriptor_def sources_map_or_copy mapped_build_leaves [OF assms(1) _ assms(3)])
qed

text \<open>A system with one file, a model of sixteen bytes.\<close>

definition w_content :: "byte list" where
  "w_content = [8, 0, 0, 0, 84, 70, 76, 51, 1, 2, 3, 4, 0, 0, 0, 0]"

definition w_posix :: posix where
  "w_posix = \<lparr>px_lookup = (\<lambda>s name. if name = ''m.tflite'' then Some 7 else None),
     px_fd = (\<lambda>s. if ps_fds s 3 = None then Some 3 else None), px_fstat = (\<lambda>f. if f = 7 then Some 16 else None),
     px_content = (\<lambda>f. if f = 7 then w_content else []),
     px_mmap = (\<lambda>s f offset n. if ps_maps s 4096 = None \<and> 0 < n \<and> n < 1000000 then Some 4096 else None),
     px_new = (\<lambda>s n. if ps_blocks s 8192 = None \<and> n < 1000000 then Some 8192 else None),
     px_fread = (\<lambda>f n. take n (if f = 7 then w_content else [])), px_pagesize = 4096, px_IsSupported = True, px_arm = False\<rparr>"

definition w_root :: ModelRoot where
  "w_root = \<lparr>fm_version = 3, fm_operator_codes = None, fm_subgraphs = None, fm_buffers = None, fm_signature_defs = None,
     fm_metadata = None\<rparr>"

definition w_flatbuffers :: flatbuffers where
  "w_flatbuffers = \<lparr>fl_BufferHasIdentifier = (\<lambda>bs ident. string_of_bytes (take 4 (drop 4 bs)) = ident),
     fl_VerifyBuffer = (\<lambda>bs ident. 8 \<le> length bs \<and> string_of_bytes (take 4 (drop 4 bs)) = ident),
     fl_GetRoot = (\<lambda>_ _. w_root), fl_Pack = (\<lambda>_ _. []), fl_MAX_BUFFER_SIZE = 2147483647, fl_LITTLEENDIAN = True\<rparr>"

definition w_process :: process where
  "w_process = \<lparr>ps_fds = (\<lambda>_. None), ps_maps = (\<lambda>_. None), ps_blocks = (\<lambda>_. None), ps_bad = False\<rparr>"

lemma w_posix_ok: "posix_ok w_posix"
  unfolding posix_ok_def by (auto simp: w_posix_def w_content_def split: if_splits)

lemma w_flatbuffers_ok: "flatbuffers_ok w_flatbuffers" "fl_LITTLEENDIAN w_flatbuffers"
  by (simp_all add: flatbuffers_ok_def w_flatbuffers_def)

theorem models_give_back_witness:
  "leaves w_process (VerifyAndBuildFromFile w_posix w_flatbuffers ''m.tflite'' None w_process)"
  using models_give_back [OF w_posix_ok w_flatbuffers_ok, of w_process "''m.tflite''" None 0] by simp


section \<open>When a model is built\<close>

text \<open>The system can open the file, tell its size and map all of it.\<close>

definition can_map :: "posix \<Rightarrow> process \<Rightarrow> nat option \<Rightarrow> nat \<Rightarrow> bool" where
  "can_map P s file f \<longleftrightarrow> file = Some f \<and> px_fstat P f \<noteq> None \<and>
     (\<exists>fd. px_fd P s = Some fd \<and> px_mmap P (s\<lparr>ps_fds := (ps_fds s)(fd \<mapsto> f)\<rparr>) f 0 (length (px_content P f)) \<noteq> None)"

lemma valid_can_map:
  assumes ok: "posix_ok P" and r: "(case new_descriptor P file s of (fd, s1) \<Rightarrow> map_owned P fd w s1) = (a, s2)"
  shows "MMAPAllocation_valid a \<longleftrightarrow> (\<exists>f. can_map P s file f)"
proof (cases "\<exists>f fd. file = Some f \<and> px_fd P s = Some fd")
  case False
  then have "new_descriptor P file s = (-1, s)" by (auto simp: new_descriptor_def split: option.splits)
  with r False show ?thesis
    by (auto simp: can_map_def map_owned_def map_owned_range_def Let_def MMAPAllocation_valid_def)
next
  case True
  then obtain f fd where f: "file = Some f" "px_fd P s = Some fd" by auto
  define s1 where "s1 = s\<lparr>ps_fds := (ps_fds s)(fd \<mapsto> f)\<rparr>"
  have fd: "0 \<le> fd" "ps_fds s1 fd = Some f" using posix_okD(3) [OF ok f(2)] by (simp_all add: s1_def)
  have m: "map_owned P fd w s1 = (a, s2)" using r f by (simp add: new_descriptor_def s1_def)
  let ?n = "length (px_content P f)"
  show ?thesis
  proof
    assume "MMAPAllocation_valid a"
    from ok fd(1) m this show "\<exists>f. can_map P s file f"
      by (rule map_owned_shows) (use f fd in \<open>auto simp: can_map_def s1_def\<close>)
  next
    assume "\<exists>f. can_map P s file f"
    then obtain p n where "px_fstat P f = Some n" and p: "px_mmap P s1 f 0 ?n = Some p"
      using f by (auto simp: can_map_def s1_def)
    then have st: "px_fstat P f = Some ?n" using posix_okD(4) [OF ok] by blast
    have "size_add ?n 0 = ?n" using posix_okD(4) [OF ok st] by (simp add: size_add_def)
    moreover have "GetFdSizeBytes P fd s1 = ?n" using fd st by (simp add: GetFdSizeBytes_def fstat_size_def)
    moreover have "mmap_file P ?n w fd 0 s1 = (p, snd (mmap_file P ?n w fd 0 s1))" using fd p by (simp add: mmap_file_def)
    ultimately have "ma_mmapped_buffer a = p"
      using m fd(1) by (auto simp: map_owned_def map_owned_range_def Let_def split: prod.splits)
    with posix_okD(5) [OF ok p] show "MMAPAllocation_valid a"
      by (auto simp: MMAPAllocation_valid_def MAP_FAILED_def size_max_def)
  qed
qed

lemma verified_cases:
  assumes "posix_ok P" "flatbuffers_ok F" "fl_LITTLEENDIAN F" "px_IsSupported P"
  shows "case VerifyAndBuildFromFile P F filename extra_verifier s of
      (Returns (Some m), s1) \<Rightarrow> (\<exists>f a. can_map P s (px_lookup P s filename) f \<and> accepted F extra_verifier (px_content P f) \<and>
        bm_model m = Some (fl_GetRoot F (allocation_base a) (readable P s1 a)) \<and> bm_allocation m = Some a \<and> shows_file P s1 a f)
    | (Returns None, s1) \<Rightarrow> (\<forall>f. \<not> (can_map P s (px_lookup P s filename) f \<and> accepted F extra_verifier (px_content P f)))
    | (Throws, s1) \<Rightarrow> False"
proof -
  let ?file = "px_lookup P s filename"
  obtain a s1 where a: "map_or_copy P ?file filename s = (Returns (kMMap a), s1)"
    and m: "(case new_descriptor P ?file s of (fd, s1) \<Rightarrow> map_owned P fd False s1) = (a, s1)"
    by (rule mapped_source [OF assms(4)])
  have src: "GetAllocationFromFile P filename False s = (Returns (kMMap a), s1)" by (simp add: sources_map_or_copy a)
  note valid = valid_can_map [OF assms(1) m] and build = file_source.verified_build [OF assms(1,2) src]
  have unique: "can_map P s ?file f \<Longrightarrow> f = the ?file" for f by (simp add: can_map_def)
  have result: "VerifyAndBuildFromFile P F filename extra_verifier s =
      (if MMAPAllocation_valid a \<and> accepted F extra_verifier (px_content P (the ?file))
       then (Returns (Some (model_of P F (kMMap a) s1)), s1) else (Returns None, s))"
    unfolding VerifyAndBuildFromFile_def src using build assms(3) by (simp add: convert_result_def)
  show ?thesis
  proof (cases "MMAPAllocation_valid a \<and> accepted F extra_verifier (px_content P (the ?file))")
    case True
    with valid obtain f where f: "can_map P s ?file f" by blast
    have "shows_file P s1 (kMMap a) f" using MMAP_source(2) [OF assms(1) m] True f by (auto simp: can_map_def)
    with True f unique show ?thesis unfolding result by (auto simp: model_of_def)
  next
    case False
    with valid unique show ?thesis unfolding result by auto
  qed
qed

text \<open>
  Claim C22. Where files are mapped, a verified build returns a model exactly when the system can open and map the file and its
  bytes pass the verifiers; the tables of the model are then read at the address of a mapping that shows all bytes of the file. In all
  other cases the result is a null pointer, never an exception.
\<close>

theorem verified_model_built:
  assumes "posix_ok P" "flatbuffers_ok F" "fl_LITTLEENDIAN F" "px_IsSupported P"
  shows "case VerifyAndBuildFromFile P F filename extra_verifier s of
      (Returns (Some m), s1) \<Rightarrow> (\<exists>f a. can_map P s (px_lookup P s filename) f \<and> accepted F extra_verifier (px_content P f) \<and>
        bm_model m = Some (fl_GetRoot F (allocation_base a) (readable P s1 a)) \<and> bm_allocation m = Some a \<and> shows_file P s1 a f)
    | (Returns None, s1) \<Rightarrow> (\<forall>f. \<not> (can_map P s (px_lookup P s filename) f \<and> accepted F extra_verifier (px_content P f)))
    | (Throws, s1) \<Rightarrow> False"
  by (rule verified_cases [OF assms])

theorem verified_model_built_witness:
  "\<exists>m s1. VerifyAndBuildFromFile w_posix w_flatbuffers ''m.tflite'' None w_process = (Returns (Some m), s1) \<and> bm_model m = Some w_root"
proof -
  have c: "can_map w_posix w_process (px_lookup w_posix w_process ''m.tflite'') 7 \<and> accepted w_flatbuffers None (px_content w_posix 7)"
    by (simp add: can_map_def w_posix_def w_process_def w_content_def accepted_def VerifyModelBuffer_def w_flatbuffers_def
        ModelIdentifier_def string_of_bytes_def char_of_def bit_Suc_0_iff)
  have "px_IsSupported w_posix" by (simp add: w_posix_def)
  from verified_model_built [OF w_posix_ok w_flatbuffers_ok this, of w_process "''m.tflite''" None] c show ?thesis
    by (auto simp: w_flatbuffers_def split: prod.splits outcome.splits option.splits)
qed


text \<open>The function that loads a file for the C interface.\<close>

definition file_loader :: "posix \<Rightarrow> flatbuffers \<Rightarrow> process \<Rightarrow> string \<Rightarrow> nat option" where
  "file_loader P F s path = (case fst (VerifyAndBuildFromFile P F path None s) of
     Returns (Some m) \<Rightarrow> map_option allocation_base (bm_allocation m)
   | _ \<Rightarrow> None)"

text \<open>
  \<open>TfLiteModelCreateFromFile\<close> on this loader gives the caller a model exactly when the system can map the file and
  its bytes are accepted by the verifier of FlatBuffers; the data of the model is at the address of a mapping of the file.
\<close>

lemma model_handle_iff:
  assumes "posix_ok P" "flatbuffers_ok F" "fl_LITTLEENDIAN F" "px_IsSupported P"
  shows "fst (TfLiteModelCreateFromFile (E\<lparr>ce_load_file := file_loader P F s\<rparr>) path c) \<noteq> 0 \<longleftrightarrow>
    (\<exists>f. can_map P s (px_lookup P s path) f \<and> accepted F None (px_content P f))"
proof -
  have "(\<exists>a. file_loader P F s path = Some a) \<longleftrightarrow> (\<exists>f. can_map P s (px_lookup P s path) f \<and> accepted F None (px_content P f))"
    using verified_cases [OF assms, of s path None]
    by (auto simp: file_loader_def split: prod.splits outcome.splits option.splits)
  moreover have "fst (TfLiteModelCreateFromFile (E\<lparr>ce_load_file := file_loader P F s\<rparr>) path c) \<noteq> 0 \<longleftrightarrow>
      (\<exists>a. file_loader P F s path = Some a)"
    by (cases "file_loader P F s path") (simp_all add: TfLiteModelCreateFromFile_def wrap_model_def Let_def)
  ultimately show ?thesis by simp
qed

lemma w_model_accepted:
  "can_map w_posix w_process (px_lookup w_posix w_process ''m.tflite'') 7" "accepted w_flatbuffers None (px_content w_posix 7)"
  "px_IsSupported w_posix"
  by (simp_all add: can_map_def w_posix_def w_process_def w_content_def accepted_def VerifyModelBuffer_def w_flatbuffers_def
      ModelIdentifier_def string_of_bytes_def char_of_def bit_Suc_0_iff)

lemma model_handle_iff_witness:
  "fst (TfLiteModelCreateFromFile (w_env\<lparr>ce_load_file := file_loader w_posix w_flatbuffers w_process\<rparr>) ''m.tflite'' new_capi) \<noteq> 0"
  unfolding model_handle_iff [OF w_posix_ok w_flatbuffers_ok w_model_accepted(3)] using w_model_accepted by blast

section \<open>Ranges of a file\<close>

lemma fd_size_le:
  assumes "posix_ok P" "ps_fds s fd = Some f"
  shows "GetFdSizeBytes P fd s \<le> length (px_content P f)"
proof -
  have "GetFdSizeBytes P fd s = 0 \<or> px_fstat P f = Some (GetFdSizeBytes P fd s)"
    using assms(2) by (auto simp: GetFdSizeBytes_def fstat_size_def split: option.splits)
  with posix_okD(4) [OF assms(1), of f "GetFdSizeBytes P fd s"] show ?thesis by auto
qed

lemma drop_take_split: "d \<le> k \<Longrightarrow> take n (drop d (take (n + d) (drop (k - d) xs))) = take n (drop k xs)"
  by (simp add: drop_take add.commute)

text \<open>A mapping that starts in the file has no more than a page behind the end of the file.\<close>

lemma mapped_bytes_bound:
  assumes "0 < px_pagesize P"
  shows "mapped_bytes P m = [] \<or> length (mapped_bytes P m) + mp_offset m < length (px_content P (mp_file m)) + px_pagesize P"
proof (cases "length (px_content P (mp_file m)) \<le> mp_offset m")
  case True
  then have "length (mapped_bytes P m) = page_up P 0" using mapped_bytes_length [OF assms, of m] by simp
  then show ?thesis using assms by (simp add: page_up_def)
next
  case False
  let ?k = "min (page_up P (mp_length m)) (length (px_content P (mp_file m)) - mp_offset m)"
  have "page_up P ?k < ?k + px_pagesize P" by (rule page_up_less [OF assms])
  with False mapped_bytes_length [OF assms, of m] show ?thesis by auto
qed

text \<open>
  A mapped range of a file whose offset and length do not overflow shows exactly these bytes of the file. When the sum
  of offset and length overflows, the comparison with the size of the file does not catch it, and the allocation claims more bytes than
  can be read.
\<close>

lemma mapped_range:
  assumes "posix_ok P" "map_owned_range P fd offset len w s = (a, s1)" "MMAPAllocation_valid a" "ps_fds s fd = Some f"
    and "offset < 2 ^ 64" "len < 2 ^ 64"
  shows "allocation_bytes (kMMap a) = len \<and>
    (if offset + len < 2 ^ 64
     then offset + len \<le> length (px_content P f) \<and> take len (readable P s1 (kMMap a)) = take len (drop offset (px_content P f))
     else length (readable P s1 (kMMap a)) < len)"
proof -
  have fd: "0 \<le> fd" using assms(2,3) by (auto simp: map_owned_range_def Let_def MMAPAllocation_valid_def split: if_splits)
  let ?d = "offset mod px_pagesize P" and ?c = "px_content P f"
  have page: "0 < px_pagesize P" "px_pagesize P < 2 ^ 31" using posix_okD(1,2) [OF assms(1)] by auto
  have d: "?d \<le> offset" by (rule mod_less_eq_dividend)
  from assms(1) fd assms(2) show ?thesis
  proof (cases rule: map_owned_range_cases)
    case Failed
    with assms(3) show ?thesis by (simp add: MMAPAllocation_valid_def mapped_allocation_def)
  next
    case (Mapped f' p)
    define m where "m = \<lparr>mp_file = f, mp_offset = offset - ?d, mp_length = size_add len ?d, mp_private = w\<rparr>"
    have r: "readable P s1 (kMMap a) = drop ?d (mapped_bytes P m)"
      using Mapped(2,4,7) assms(4) by (simp add: m_def mapped_allocation_def)
    have size: "size_add len offset \<le> length ?c" "length ?c < 2 ^ 63"
      using Mapped(1) fd_size_le [OF assms(1,4)] posix_okD(7) [OF assms(1)] by auto
    show ?thesis
    proof (cases "offset + len < 2 ^ 64")
      case True
      then have in_file: "offset + len \<le> length ?c" using size(1) by (simp add: size_add_def add.commute)
      have "len + ?d < size_mod" using le_less_trans [OF add_left_mono [OF d, of len]] True by (simp add: add.commute)
      then have "size_add len ?d = len + ?d" by (rule size_add_exact)
      then have "take (len + ?d) (mapped_bytes P m) = take (len + ?d) (drop (offset - ?d) ?c)"
        using mapped_bytes_prefix [of P m] page in_file d by (simp add: m_def)
      then have "take len (readable P s1 (kMMap a)) = take len (drop offset ?c)"
        using drop_take_split [OF d, of len ?c] by (metis r take_drop min.idem take_take)
      with True in_file Mapped(4) show ?thesis by (simp add: mapped_allocation_def)
    next
      case False
      from mapped_bytes_bound [OF page(1), of m] have "length (readable P s1 (kMMap a)) < len"
        using r False assms(5) d size(2) page(2) by (auto simp: m_def)
      with False Mapped(4) show ?thesis by (simp add: mapped_allocation_def)
    qed
  qed
qed


text \<open>A range of \<open>2 ^ 64 - 4\<close> bytes at offset 8 in a file of sixteen bytes.\<close>

lemma mapped_range_witness:
  "let s = w_process\<lparr>ps_fds := (ps_fds w_process)(3 \<mapsto> 7)\<rparr>; r = map_owned_range w_posix 3 8 18446744073709551612 False s
   in MMAPAllocation_valid (fst r) \<and> allocation_bytes (kMMap (fst r)) = 18446744073709551612 \<and>
      length (readable w_posix (snd r) (kMMap (fst r))) < 18446744073709551612"
proof -
  define s where "s = w_process\<lparr>ps_fds := (ps_fds w_process)(3 \<mapsto> 7)\<rparr>"
  define r where "r = map_owned_range w_posix 3 8 18446744073709551612 False s"
  have v: "MMAPAllocation_valid (fst r)" "ps_fds s 3 = Some 7"
    by (simp_all add: r_def s_def map_owned_range_def Let_def size_add_def mmap_file_def GetFdSizeBytes_def fstat_size_def w_posix_def
        w_process_def MMAPAllocation_valid_def MAP_FAILED_def size_max_def)
  have "map_owned_range w_posix 3 8 18446744073709551612 False s = (fst r, snd r)" by (simp add: r_def)
  from mapped_range [OF w_posix_ok this v] v(1) show ?thesis
    by (simp add: Let_def r_def s_def del: readable.simps allocation_bytes.simps)
qed

section \<open>Constant data\<close>

lemma verified_model_shows:
  assumes "posix_ok P" "flatbuffers_ok F" "fl_LITTLEENDIAN F"
    and r: "VerifyAndBuildFromFile P F filename extra_verifier s = (Returns (Some m), s1)"
  obtains f a where "px_lookup P s filename = Some f" "bm_allocation m = Some a" "shows_file P s1 a f"
proof (cases "GetAllocationFromFile P filename False s")
  case (Pair q s2)
  with r obtain a where q: "q = Returns a" by (cases q) (simp_all add: VerifyAndBuildFromFile_def)
  with Pair have src: "GetAllocationFromFile P filename False s = (Returns a, s2)" by simp
  have "allocation_valid a" "m = model_of P F a s2" "s1 = s2"
    using r file_source.verified_build [OF assms(1,2) src] assms(3) unfolding VerifyAndBuildFromFile_def src
    by (auto simp: convert_result_def split: if_splits)
  with file_source.acquire_shows [OF assms(1) src] that [of _ a] show thesis by (auto simp: model_of_def)
qed

lemma shown_bytes:
  assumes "shows_file P s a f" "offset + n \<le> length (px_content P f)"
  shows "buffer_bytes (memory_at (allocation_base a) (readable P s a)) (allocation_base a + offset, n) =
    take n (drop offset (px_content P f))"
proof (rule nth_equalityI)
  show "length (buffer_bytes (memory_at (allocation_base a) (readable P s a)) (allocation_base a + offset, n)) =
    length (take n (drop offset (px_content P f)))" using assms(2) by (simp add: buffer_bytes_def)
next
  fix i assume "i < length (buffer_bytes (memory_at (allocation_base a) (readable P s a)) (allocation_base a + offset, n))"
  then have i: "i < n" by (simp add: buffer_bytes_def)
  have "offset + i < length (readable P s a)" using i assms(2) shows_file_length [OF assms(1)] by simp
  moreover have "readable P s a ! (offset + i) = px_content P f ! (offset + i)"
    using assms i unfolding shows_file_def by (metis add_less_cancel_left nth_take order_less_le_trans)
  ultimately show "buffer_bytes (memory_at (allocation_base a) (readable P s a)) (allocation_base a + offset, n) ! i =
    take n (drop offset (px_content P f)) ! i"
    using i assms(2) by (simp add: buffer_bytes_def memory_at_def)
qed

text \<open>
  Claim C23. From the file to the tensor: when an interpreter is built from a model that was loaded and verified from a file, the data of a
  constant that the model keeps behind its tables is the bytes of the file at the offset that the model gives, as long as offset and size do
  not overflow.
\<close>

theorem constant_data_from_file:
  assumes "posix_ok P" "flatbuffers_ok F" "fl_LITTLEENDIAN F"
    and "VerifyAndBuildFromFile P F filename extra_verifier s = (Returns (Some m), s1)"
    and "get_readonly_data (builder_of_model mem m resolver options) buffers tensor = (kTfLiteOk, p, n)"
    and "ft_buffer tensor \<noteq> 0" "fb_array (buffers ! ft_buffer tensor) = None" "fb_offset (buffers ! ft_buffer tensor) > 1"
    and "fb_offset (buffers ! ft_buffer tensor) + fb_size (buffers ! ft_buffer tensor) < 2 ^ 64"
  shows "\<exists>f. px_lookup P s filename = Some f \<and> n = fb_size (buffers ! ft_buffer tensor) \<and>
    fb_offset (buffers ! ft_buffer tensor) + n \<le> length (px_content P f) \<and>
    buffer_bytes (model_memory P s1 m) (p, n) = take n (drop (fb_offset (buffers ! ft_buffer tensor)) (px_content P f))"
proof -
  obtain f a where f: "px_lookup P s filename = Some f" "bm_allocation m = Some a" "shows_file P s1 a f"
    by (rule verified_model_shows [OF assms(1-4)])
  let ?o = "fb_offset (buffers ! ft_buffer tensor)" and ?n = "fb_size (buffers ! ft_buffer tensor)"
  have "ib_allocation (builder_of_model mem m resolver options) = Some (allocation_base a, allocation_bytes a)"
    using f(2) by (simp add: builder_of_model_def new_builder_def)
  then have r: "size_add ?o ?n \<le> allocation_bytes a" "p = size_add (allocation_base a) ?o" "n = ?n"
    using assms(5-8) by (auto simp: get_readonly_data_def Let_def split: if_splits)
  have fits: "?o + n \<le> length (px_content P f)" using r(1,3) assms(9) f(3) by (simp add: size_add_exact shows_file_def)
  then have "p = allocation_base a + ?o" using r(2) f(3) by (simp add: size_add_exact shows_file_def)
  with shown_bytes [OF f(3) fits] f fits r(3) show ?thesis by (auto simp: model_memory_def)
qed


theorem constant_data_from_file_witness:
  "\<exists>m s1 p. VerifyAndBuildFromFile w_posix w_flatbuffers ''m.tflite'' None w_process = (Returns (Some m), s1) \<and>
     buffer_bytes (model_memory w_posix s1 m) (p, 4) = [1, 2, 3, 4]"
proof -
  let ?r = "VerifyAndBuildFromFile w_posix w_flatbuffers ''m.tflite'' None w_process"
  let ?bs = "[\<lparr>fb_array = None, fb_offset = 0, fb_size = 0\<rparr>, \<lparr>fb_array = None, fb_offset = 8, fb_size = 4\<rparr>]" and ?t = "w_float\<lparr>ft_buffer := 1\<rparr>"
  obtain m s1 f a where m: "?r = (Returns (Some m), s1)" "bm_allocation m = Some a" "shows_file w_posix s1 a f"
      "px_lookup w_posix w_process ''m.tflite'' = Some f"
    using verified_cases [OF w_posix_ok w_flatbuffers_ok w_model_accepted(3), of w_process "''m.tflite''" None] w_model_accepted(1,2)
    by (auto simp: can_map_def split: prod.splits outcome.splits option.splits)
  have f: "f = 7" using m(4) by (simp add: w_posix_def)
  then have "allocation_bytes a = 16" using m(3) by (simp add: shows_file_def w_posix_def w_content_def)
  then have g: "get_readonly_data (builder_of_model (\<lambda>_. 0) m (ib_op_resolver w_builder) None) ?bs ?t = (kTfLiteOk, size_add (allocation_base a) 8, 4)"
    using m(2) by (simp add: get_readonly_data_def builder_of_model_def new_builder_def Let_def size_add_def)
  have "buffer_bytes (model_memory w_posix s1 m) (size_add (allocation_base a) 8, 4) = take 4 (drop 8 (px_content w_posix 7))"
    using constant_data_from_file [OF w_posix_ok w_flatbuffers_ok m(1) g] m(4) f by simp
  with m(1) show ?thesis by (auto simp: w_posix_def w_content_def)
qed

section \<open>Conversion of byte order and back\<close>

lemma swap_words_length [simp]: "w * n \<le> length bs \<Longrightarrow> length (swap_words w n bs) = length bs"
  by (induction n arbitrary: bs) auto

lemma swap_words_twice: "w * n \<le> length bs \<Longrightarrow> swap_words w n (swap_words w n bs) = bs"
proof (induction n arbitrary: bs)
  case (Suc n)
  then have "length (rev (take w bs)) = w" by simp
  with Suc show ?case by (simp add: take_append drop_append)
qed simp

lemma swap_words_head: "0 < n \<Longrightarrow> w * n \<le> length bs \<Longrightarrow> take w (swap_words w n bs) = rev (take w bs)"
  by (cases n) auto

lemma num_of_strings_swapped:
  assumes "num_of_strings False bs = Some n" "-1 \<le> n" "4 * nat (n + 2) \<le> length bs"
  shows "num_of_strings True (swap_words 4 (nat (n + 2)) bs) = Some n"
proof -
  have "rev (take 4 (swap_words 4 (nat (n + 2)) bs)) = take 4 bs" using assms(2,3) by (simp add: swap_words_head)
  with assms show ?thesis by (simp add: num_of_strings_def split: if_splits)
qed

definition counted :: "int \<Rightarrow> byte list \<Rightarrow> bool" where
  "counted tensor_type bs \<longleftrightarrow> (tensor_type = 5 \<longrightarrow> (case num_of_strings False bs of None \<Rightarrow> False | Some n \<Rightarrow> -1 \<le> n))"

lemma ByteSwapBuffer_back:
  assumes "ByteSwapBuffer t False bs = Some cs" "counted t bs"
  shows "ByteSwapBuffer t True cs = Some bs \<and> length cs = length bs"
proof (cases "t = 5")
  case True
  with assms obtain n where n: "num_of_strings False bs = Some n" "-1 \<le> n" "4 * nat (n + 2) \<le> length bs"
    "cs = swap_words 4 (nat (n + 2)) bs"
    by (auto simp: counted_def ByteSwapBuffer_def Let_def split: option.splits if_splits)
  with True num_of_strings_swapped [OF n(1-3)] show ?thesis by (simp add: ByteSwapBuffer_def Let_def swap_words_twice)
next
  case False
  let ?w = "element_width t"
  have "?w * (length bs div ?w) \<le> length bs" by (simp add: mult.commute)
  with False assms show ?thesis by (auto simp: ByteSwapBuffer_def Let_def swap_words_twice split: if_splits)
qed

lemma swap_subgraphs_T_concat: "swap_subgraphs_T e gs = swap_tensors_T e (concat gs)"
proof -
  have app: "swap_tensors_T e (xs @ ys) st = Option.bind (swap_tensors_T e xs st) (swap_tensors_T e ys)" for xs ys st
    by (induction e xs st rule: swap_tensors_T.induct) (auto simp: Let_def split: option.splits)
  show ?thesis by (induction gs) (intro ext, simp add: app)+
qed

text \<open>What a pass leaves: buffers that were swapped before, that no tensor refers to or that are empty stay.\<close>

lemma swap_tensors_T_frame:
  assumes "swap_tensors_T e ts (sw, bufs) = Some (sw', fin)" "length sw = length bufs"
  shows "length fin = length bufs \<and> length sw' = length bufs \<and>
    (\<forall>i < length bufs. (sw ! i \<longrightarrow> sw' ! i \<and> fin ! i = bufs ! i) \<and> (bufs ! i = [] \<or> \<not> sw' ! i \<longrightarrow> fin ! i = bufs ! i))"
  using assms
proof (induction ts arbitrary: sw bufs)
  case (Cons t ts)
  let ?i = "ft_buffer t"
  show ?case
  proof (cases "?i > 0 \<and> ?i < length bufs \<and> \<not> sw ! ?i \<and> bufs ! ?i \<noteq> []")
    case True
    with Cons.prems obtain bs where bs: "swap_tensors_T e ts (sw[?i := True], bufs[?i := bs]) = Some (sw', fin)"
      by (auto simp: Let_def split: option.splits)
    have "length (sw[?i := True]) = length (bufs[?i := bs])" using Cons.prems(2) by simp
    note IH = Cons.IH [OF bs this]
    show ?thesis
    proof (intro conjI allI impI)
      fix i assume i: "i < length bufs"
      show "sw ! i \<Longrightarrow> sw' ! i" "sw ! i \<Longrightarrow> fin ! i = bufs ! i" "bufs ! i = [] \<or> \<not> sw' ! i \<Longrightarrow> fin ! i = bufs ! i"
        using IH True i Cons.prems(2) by (cases "i = ?i"; force simp: nth_list_update)+
    qed (use IH in auto)
  next
    case False
    with Cons show ?thesis by (auto simp: Let_def)
  qed
qed simp


text \<open>The second pass visits the tensors in the same order and undoes what the first one did to every buffer.\<close>

lemma swap_tensors_T_back:
  assumes "swap_tensors_T False ts (sw, bufs) = Some (sw', fin)" "length sw = length bufs" "length cur = length bufs"
    and "\<forall>i < length bufs. \<not> sw ! i \<longrightarrow> cur ! i = fin ! i"
    and "\<forall>t \<in> set ts. \<forall>i < length bufs. ft_buffer t = i \<longrightarrow> \<not> sw ! i \<longrightarrow> bufs ! i \<noteq> [] \<longrightarrow> counted (ft_type t) (bufs ! i)"
  shows "\<exists>cur'. swap_tensors_T True ts (sw, cur) = Some (sw', cur') \<and> length cur' = length bufs \<and>
    (\<forall>i < length bufs. cur' ! i = (if sw ! i then cur ! i else bufs ! i))"
  using assms
proof (induction ts arbitrary: sw bufs cur)
  case Nil
  then show ?case by auto
next
  case (Cons t ts)
  let ?i = "ft_buffer t"
  show ?case
  proof (cases "?i > 0 \<and> ?i < length bufs \<and> \<not> sw ! ?i \<and> bufs ! ?i \<noteq> []")
    case True
    with Cons.prems(1) obtain bs where bs: "ByteSwapBuffer (ft_type t) False (bufs ! ?i) = Some bs"
      and rest: "swap_tensors_T False ts (sw[?i := True], bufs[?i := bs]) = Some (sw', fin)"
      by (auto simp: Let_def split: option.splits)
    have "counted (ft_type t) (bufs ! ?i)" using Cons.prems(5) True by simp
    note undo = ByteSwapBuffer_back [OF bs this]
    have len: "length (sw[?i := True]) = length (bufs[?i := bs])" using Cons.prems(2) by simp
    have "fin ! ?i = bs" using swap_tensors_T_frame [OF rest len] True Cons.prems(2) by (auto simp: nth_list_update)
    then have cur: "cur ! ?i = bs" using Cons.prems(4) True by simp
    then have step: "swap_tensors_T True (t # ts) (sw, cur) = swap_tensors_T True ts (sw[?i := True], cur[?i := bufs ! ?i])"
      using True undo Cons.prems(3) by (auto simp: Let_def)
    have "\<exists>cur'. swap_tensors_T True ts (sw[?i := True], cur[?i := bufs ! ?i]) = Some (sw', cur') \<and> length cur' = length (bufs[?i := bs]) \<and>
        (\<forall>i < length (bufs[?i := bs]). cur' ! i = (if sw[?i := True] ! i then cur[?i := bufs ! ?i] ! i else bufs[?i := bs] ! i))"
      by (rule Cons.IH [OF rest len]) (use Cons.prems True in \<open>auto simp: nth_list_update\<close>)
    then obtain cur' where "swap_tensors_T True ts (sw[?i := True], cur[?i := bufs ! ?i]) = Some (sw', cur')" "length cur' = length bufs"
      "\<forall>i < length bufs. cur' ! i = (if sw[?i := True] ! i then cur[?i := bufs ! ?i] ! i else bufs[?i := bs] ! i)" by auto
    then show ?thesis unfolding step using True Cons.prems(2,3) by (auto simp: nth_list_update)
  next
    case False
    have "bufs ! ?i = [] \<Longrightarrow> ?i < length bufs \<Longrightarrow> \<not> sw ! ?i \<Longrightarrow> cur ! ?i = []"
      using Cons.prems(4) swap_tensors_T_frame [OF Cons.prems(1,2)] by auto
    with False Cons.prems(3) have "swap_tensors_T True (t # ts) (sw, cur) = swap_tensors_T True ts (sw, cur)" by (auto simp: Let_def)
    moreover have "swap_tensors_T False ts (sw, bufs) = Some (sw', fin)" using Cons.prems(1) False by (auto simp: Let_def)
    ultimately show ?thesis using Cons.IH [OF _ Cons.prems(2,3,4)] Cons.prems(5) by simp
  qed
qed

text \<open>
  Claim C24. The conversion of a model's constants to the byte order of a big-endian machine and the conversion back restore every buffer,
  also when several tensors of different types share a buffer, provided that the buffers of string tensors start with a count that is
  not negative. Each buffer is converted once, by the type of the first tensor that refers to it.
\<close>

theorem byte_swap_back:
  assumes "ByteSwapTFLiteModelT False m = Some m'"
    and "\<forall>t \<in> set (concat (mt_subgraphs m)). ft_type t = 5 \<longrightarrow> ft_buffer t < length (mt_buffers m) \<longrightarrow> mt_buffers m ! ft_buffer t \<noteq> [] \<longrightarrow>
      (\<exists>n. num_of_strings False (mt_buffers m ! ft_buffer t) = Some n \<and> 0 \<le> n)"
  shows "ByteSwapTFLiteModelT True m' = Some m"
proof -
  let ?sw = "replicate (length (mt_buffers m)) False"
  obtain sw' fin where f: "swap_tensors_T False (concat (mt_subgraphs m)) (?sw, mt_buffers m) = Some (sw', fin)" "m' = m\<lparr>mt_buffers := fin\<rparr>"
    using assms(1) by (auto simp: ByteSwapTFLiteModelT_def swap_subgraphs_T_concat)
  note len = swap_tensors_T_frame [OF f(1)]
  have "\<exists>cur'. swap_tensors_T True (concat (mt_subgraphs m)) (?sw, fin) = Some (sw', cur') \<and> length cur' = length (mt_buffers m) \<and>
      (\<forall>i < length (mt_buffers m). cur' ! i = (if ?sw ! i then fin ! i else mt_buffers m ! i))"
    by (rule swap_tensors_T_back [OF f(1)]) (use len assms(2) in \<open>fastforce simp: counted_def\<close>)+
  then obtain cur' where c: "swap_tensors_T True (concat (mt_subgraphs m)) (?sw, fin) = Some (sw', cur')" "length cur' = length (mt_buffers m)"
    "\<forall>i < length (mt_buffers m). cur' ! i = mt_buffers m ! i" by auto
  from c(2,3) have "cur' = mt_buffers m" by (simp add: nth_equalityI)
  with c(1) f(2) len show ?thesis by (simp add: ByteSwapTFLiteModelT_def swap_subgraphs_T_concat)
qed

theorem byte_swap_back_witness:
  "\<exists>m'. ByteSwapTFLiteModelT False \<lparr>mt_tables = w_root, mt_subgraphs = [[w_float\<lparr>ft_buffer := 1\<rparr>], [w_float\<lparr>ft_buffer := 2, ft_type := 5\<rparr>]],
     mt_buffers = [[], [1, 2, 3, 4], [0, 0, 0, 0, 8, 0, 0, 0]]\<rparr> = Some m' \<and> mt_buffers m' = [[], [4, 3, 2, 1], [0, 0, 0, 0, 0, 0, 0, 8]] \<and>
     ByteSwapTFLiteModelT True m' = Some \<lparr>mt_tables = w_root, mt_subgraphs = [[w_float\<lparr>ft_buffer := 1\<rparr>], [w_float\<lparr>ft_buffer := 2, ft_type := 5\<rparr>]],
     mt_buffers = [[], [1, 2, 3, 4], [0, 0, 0, 0, 8, 0, 0, 0]]\<rparr>"
proof -
  let ?m = "\<lparr>mt_tables = w_root, mt_subgraphs = [[w_float\<lparr>ft_buffer := 1\<rparr>], [w_float\<lparr>ft_buffer := 2, ft_type := 5\<rparr>]],
     mt_buffers = [[], [1, 2, 3, 4], [0, 0, 0, 0, 8, 0, 0, 0]]\<rparr>"
  let ?m' = "?m\<lparr>mt_buffers := [[], [4, 3, 2, 1], [0, 0, 0, 0, 0, 0, 0, 8]]\<rparr>"
  have n: "num_of_strings False [0, 0, 0, 0, 8, 0, 0, 0] = Some 0"
    by (simp add: num_of_strings_def read_i32_def read_u32_def wrap_i32_def)
  have s: "ByteSwapTFLiteModelT False ?m = Some ?m'"
    using n by (simp add: ByteSwapTFLiteModelT_def ByteSwapBuffer_def element_width_def w_float_def Let_def numeral_2_eq_2)
  have "ByteSwapTFLiteModelT True ?m' = Some ?m"
    by (rule byte_swap_back [OF s]) (use n in \<open>auto simp: w_float_def numeral_2_eq_2\<close>)
  with s show ?thesis by (intro exI [of _ ?m']) simp
qed


section \<open>Conversion in place\<close>

text \<open>The buffers of a model hold data at separate places in memory.\<close>

definition separate_buffers :: "Buffer list \<Rightarrow> bool" where
  "separate_buffers buffers \<longleftrightarrow>
     (\<forall>i < length buffers. \<forall>a n. fb_array (buffers ! i) = Some (a, n) \<longrightarrow> 0 < n \<and>
        (\<forall>j < length buffers. \<forall>b k. j \<noteq> i \<longrightarrow> fb_array (buffers ! j) = Some (b, k) \<longrightarrow> a + n \<le> b \<or> b + k \<le> a))"

definition buffer_contents :: "Buffer list \<Rightarrow> (nat \<Rightarrow> byte) \<Rightarrow> byte list list" where
  "buffer_contents buffers mem = map (\<lambda>b. case fb_array b of None \<Rightarrow> [] | Some region \<Rightarrow> buffer_bytes mem region) buffers"

lemma ByteSwapBuffer_length: "ByteSwapBuffer t e bs = Some cs \<Longrightarrow> length cs = length bs"
proof -
  have w: "element_width t * (length bs div element_width t) \<le> length bs" by (simp add: mult.commute)
  then show "ByteSwapBuffer t e bs = Some cs \<Longrightarrow> length cs = length bs"
    by (auto simp: ByteSwapBuffer_def Let_def split: if_splits option.splits)
qed

lemma write_mem_same: "length bs = n \<Longrightarrow> buffer_bytes (write_mem a bs mem) (a, n) = bs"
  by (rule nth_equalityI) (simp_all add: buffer_bytes_def write_mem_def)

lemma write_mem_other: "a + length bs \<le> b \<or> b + k \<le> a \<Longrightarrow> buffer_bytes (write_mem a bs mem) (b, k) = buffer_bytes mem (b, k)"
  by (auto simp: buffer_bytes_def write_mem_def)

lemma write_contents:
  assumes "separate_buffers buffers" "i < length buffers" "fb_array (buffers ! i) = Some (a, length bs)"
  shows "buffer_contents buffers (write_mem a bs mem) = (buffer_contents buffers mem)[i := bs]"
proof (rule nth_equalityI)
  fix j assume "j < length (buffer_contents buffers (write_mem a bs mem))"
  then have j: "j < length buffers" by (simp add: buffer_contents_def)
  show "buffer_contents buffers (write_mem a bs mem) ! j = (buffer_contents buffers mem)[i := bs] ! j"
  proof (cases "j = i")
    case True
    with assms show ?thesis by (simp add: buffer_contents_def write_mem_same)
  next
    case False
    have "a + length bs \<le> b \<or> b + k \<le> a" if "fb_array (buffers ! j) = Some (b, k)" for b k
      using assms j False that unfolding separate_buffers_def by blast
    with False j show ?thesis by (auto simp: buffer_contents_def write_mem_other split: option.split)
  qed
qed (simp add: buffer_contents_def)

lemma swap_tensors_contents:
  assumes "separate_buffers buffers" "length sw = length buffers"
  shows "map_option (map_prod id (buffer_contents buffers)) (swap_tensors buffers e ts (sw, mem)) =
    swap_tensors_T e ts (sw, buffer_contents buffers mem)"
  using assms(2)
proof (induction ts arbitrary: sw mem)
  case (Cons t ts)
  let ?i = "ft_buffer t" and ?c = "buffer_contents buffers mem"
  have len: "length ?c = length buffers" by (simp add: buffer_contents_def)
  show ?case
  proof (cases "?i > 0 \<and> ?i < length buffers \<and> \<not> sw ! ?i")
    case False
    with Cons len show ?thesis by (auto simp: Let_def)
  next
    case True
    show ?thesis
    proof (cases "fb_array (buffers ! ?i)")
      case None
      with True have "?c ! ?i = []" by (simp add: buffer_contents_def)
      with True None Cons len show ?thesis by (simp add: Let_def)
    next
      case (Some region)
      then obtain a n where r: "region = (a, n)" "fb_array (buffers ! ?i) = Some (a, n)" by (cases region) auto
      have "0 < n" using assms(1) True r(2) unfolding separate_buffers_def by blast
      then have c: "?c ! ?i = buffer_bytes mem (a, n)" "buffer_bytes mem (a, n) \<noteq> []"
        using True r by (simp_all add: buffer_contents_def buffer_bytes_def)
      show ?thesis
      proof (cases "ByteSwapBuffer (ft_type t) e (buffer_bytes mem (a, n))")
        case None
        with True c len r show ?thesis by (simp add: Let_def)
      next
        case bs: (Some bs)
        have "length bs = n" using ByteSwapBuffer_length [OF bs] by (simp add: buffer_bytes_def)
        then have "buffer_contents buffers (write_mem a bs mem) = ?c[?i := bs]"
          using write_contents [OF assms(1)] True r(2) by simp
        with Cons.IH [of "sw[?i := True]" "write_mem a bs mem"] True c len r bs Cons.prems show ?thesis by (simp add: Let_def)
      qed
    qed
  qed
qed simp

lemma swap_tensors_length:
  "swap_tensors buffers e ts (sw, mem) = Some (sw', mem') \<Longrightarrow> length sw' = length sw"
  by (induction ts arbitrary: sw mem) (auto simp: Let_def split: if_splits option.splits)

lemma swap_subgraphs_contents:
  assumes "separate_buffers buffers" "length sw = length buffers" "\<forall>g \<in> set gs. fs_tensors g \<noteq> None"
  shows "map_option (map_prod id (buffer_contents buffers)) (swap_subgraphs buffers e gs (sw, mem)) =
    swap_subgraphs_T e (map (\<lambda>g. case fs_tensors g of None \<Rightarrow> [] | Some ts \<Rightarrow> ts) gs) (sw, buffer_contents buffers mem)"
  using assms(2,3)
proof (induction gs arbitrary: sw mem)
  case (Cons g gs)
  then obtain ts where ts: "fs_tensors g = Some ts" by auto
  note sim = swap_tensors_contents [OF assms(1) Cons.prems(1), of e ts mem]
  show ?case
  proof (cases "swap_tensors buffers e ts (sw, mem)")
    case None
    with sim have "swap_tensors_T e ts (sw, buffer_contents buffers mem) = None" by simp
    with None ts show ?thesis by simp
  next
    case (Some st)
    obtain sw' mem' where st: "st = (sw', mem')" by fastforce
    from sim Some st have "swap_tensors_T e ts (sw, buffer_contents buffers mem) = Some (sw', buffer_contents buffers mem')" by simp
    moreover have "length sw' = length buffers" using swap_tensors_length Some st Cons.prems(1) by simp
    ultimately show ?thesis using Some st ts Cons by simp
  qed
qed simp

text \<open>
  Converting the byte order in the memory of a model agrees with converting the copies that an unpacked model has of its
  buffers, when the buffers lie apart in memory: one succeeds when the other does, and afterwards the memory holds the converted copies.
\<close>

lemma swap_in_place_refines:
  assumes "fm_buffers m = Some buffers" "fm_subgraphs m = Some gs" "\<forall>g \<in> set gs. fs_tensors g \<noteq> None" "separate_buffers buffers"
  shows "map_option (\<lambda>mem'. UnPackTo mem' m) (ByteSwapTFLiteModel (Model.truncate m) from_big_endian mem) =
    ByteSwapTFLiteModelT from_big_endian (UnPackTo mem m)"
proof -
  let ?r = "swap_subgraphs buffers from_big_endian gs (replicate (length buffers) False, mem)"
  have T: "swap_subgraphs_T from_big_endian (mt_subgraphs (UnPackTo mem m))
      (replicate (length (mt_buffers (UnPackTo mem m))) False, mt_buffers (UnPackTo mem m)) =
      map_option (map_prod id (buffer_contents buffers)) ?r"
    using swap_subgraphs_contents [OF assms(4) _ assms(3), of "replicate (length buffers) False" from_big_endian mem] assms(1,2)
    by (simp add: UnPackTo_def buffer_contents_def)
  have u: "(UnPackTo mem m)\<lparr>mt_buffers := buffer_contents buffers mem'\<rparr> = UnPackTo mem' m" for mem'
    using assms(1,2) by (simp add: UnPackTo_def buffer_contents_def)
  have "ByteSwapTFLiteModel (Model.truncate m) from_big_endian mem = map_option snd ?r"
    using assms(1,2) by (simp add: ByteSwapTFLiteModel_def Model.truncate_def)
  moreover have "ByteSwapTFLiteModelT from_big_endian (UnPackTo mem m) = map_option (\<lambda>mem'. UnPackTo mem' m) (map_option snd ?r)"
    unfolding ByteSwapTFLiteModelT_def T by (cases ?r) (auto simp: u)
  ultimately show ?thesis by (simp only:)
qed

text \<open>A model with one constant of four bytes.\<close>

lemma swap_in_place_refines_witness:
  "let m = w_root\<lparr>fm_buffers := Some [\<lparr>fb_array = None, fb_offset = 0, fb_size = 0\<rparr>, \<lparr>fb_array = Some (100, 4), fb_offset = 0, fb_size = 0\<rparr>],
       fm_subgraphs := Some [w_graph\<lparr>fs_tensors := Some [w_float\<lparr>ft_buffer := 1\<rparr>]\<rparr>]\<rparr>;
       mem = (\<lambda>x. if x = 100 then 1 else if x = 101 then 2 else if x = 102 then 3 else 4)
   in \<exists>mem'. ByteSwapTFLiteModel (Model.truncate m) False mem = Some mem' \<and> mt_buffers (UnPackTo mem' m) = [[], [4, 3, 2, 1]]"
proof -
  let ?bs = "[\<lparr>fb_array = None, fb_offset = 0, fb_size = 0\<rparr>, \<lparr>fb_array = Some (100, 4), fb_offset = 0, fb_size = 0\<rparr>]"
  let ?gs = "[w_graph\<lparr>fs_tensors := Some [w_float\<lparr>ft_buffer := 1\<rparr>]\<rparr>]"
  let ?m = "w_root\<lparr>fm_buffers := Some ?bs, fm_subgraphs := Some ?gs\<rparr>"
  let ?mem = "(\<lambda>x. if x = 100 then 1 else if x = 101 then 2 else if x = 102 then 3 else 4) :: nat \<Rightarrow> byte"
  have upt: "[0..<4] = [0, 1, 2, 3::nat]" by (simp add: upt_rec)
  have "separate_buffers ?bs" by (auto simp: separate_buffers_def less_Suc_eq)
  then have r: "map_option (\<lambda>mem'. UnPackTo mem' ?m) (ByteSwapTFLiteModel (Model.truncate ?m) False ?mem) =
      ByteSwapTFLiteModelT False (UnPackTo ?mem ?m)"
    by (intro swap_in_place_refines [of ?m ?bs ?gs]) (simp_all add: w_root_def)
  have "UnPackTo ?mem ?m = \<lparr>mt_tables = ?m, mt_subgraphs = [[w_float\<lparr>ft_buffer := 1\<rparr>]], mt_buffers = [[], [1, 2, 3, 4]]\<rparr>"
    by (simp add: UnPackTo_def buffer_bytes_def upt)
  then have "map_option mt_buffers (ByteSwapTFLiteModelT False (UnPackTo ?mem ?m)) = Some [[], [4, 3, 2, 1]]"
    by (simp add: ByteSwapTFLiteModelT_def ByteSwapBuffer_def element_width_def w_float_def Let_def)
  with r show ?thesis unfolding Let_def
    by (cases "ByteSwapTFLiteModel (Model.truncate ?m) False ?mem") (auto simp del: Model.truncate_def)
qed


section \<open>Reading metadata\<close>

lemma read_metadata_map:
  "read_metadata mem buffers entries kv = kv ++ map_of (rev (List.map_filter (metadata_value mem buffers) entries))"
proof (induction entries arbitrary: kv)
  case (Cons entry entries)
  show ?case
  proof (cases "metadata_value mem buffers entry")
    case None
    with Cons show ?thesis by (simp add: List.map_filter_simps)
  next
    case (Some v)
    obtain key val where v: "v = (key, val)" by fastforce
    with Some Cons show ?thesis by (simp add: List.map_filter_simps map_add_upd_left map_add_def fun_eq_iff split: option.split)
  qed
qed (simp add: List.map_filter_simps)

text \<open>
  The metadata of a model maps a name to the bytes of the buffer of the last entry with that name whose buffer exists and is not
  empty; entries without a name, with an index outside of the buffers or with an empty buffer count as missing.
\<close>

lemma metadata_last_entry:
  "ReadAllMetadata mem (Some m) key = (case (fm_metadata m, fm_buffers m) of
     (Some entries, Some buffers) \<Rightarrow>
       (let vals = [string_of_bytes (buffer_bytes mem region).
              (name, buf) \<leftarrow> entries, name = Some key, buf < length buffers,
              region \<leftarrow> (case fb_array (buffers ! buf) of None \<Rightarrow> [] | Some region \<Rightarrow> [region]), snd region \<noteq> 0]
        in if vals = [] then None else Some (last vals))
   | _ \<Rightarrow> None)"
proof -
  have *: "map_of (rev (List.map_filter (metadata_value mem buffers) entries)) key =
      (let vals = [string_of_bytes (buffer_bytes mem region).
              (name, buf) \<leftarrow> entries, name = Some key, buf < length buffers,
              region \<leftarrow> (case fb_array (buffers ! buf) of None \<Rightarrow> [] | Some region \<Rightarrow> [region]), snd region \<noteq> 0]
        in if vals = [] then None else Some (last vals))" for entries buffers
  proof (induction entries)
    case (Cons entry entries)
    obtain name buf where e: "entry = (name, buf)" by fastforce
    show ?case
      using Cons unfolding e
      by (auto simp: List.map_filter_simps metadata_value_def Let_def string_of_bytes_def buffer_bytes_def map_add_def
          split: option.splits if_splits)
  qed (simp add: List.map_filter_simps)
  show ?thesis by (auto simp: ReadAllMetadata_def read_metadata_map * split: option.split)
qed

text \<open>A version that is stored with a terminating zero is read back.\<close>

lemma minimum_runtime_read:
  assumes "fm_metadata m = Some (before @ (Some tflite_metadata_min_runtime_version, buf) # rest)"
    and "\<forall>(name, _) \<in> set before. \<exists>n. name = Some n \<and> n \<noteq> tflite_metadata_min_runtime_version"
    and "fm_buffers m = Some buffers" "buf < length buffers" "fb_array (buffers ! buf) = Some region"
    and "buffer_bytes mem region = version @ 0 # padding" "0 \<notin> set version"
  shows "GetMinimumRuntime mem (Some m) = Some (string_of_bytes version)"
proof -
  have "takeWhile (\<lambda>b. b \<noteq> 0) (version @ 0 # padding) = version" using assms(7) by (subst takeWhile_append2) auto
  then have "runtime_version mem (Some buffers) buf = Some (string_of_bytes version)"
    using assms(4-6) by (simp add: runtime_version_def Let_def)
  moreover have "find_runtime mem bs (before @ (Some tflite_metadata_min_runtime_version, buf) # rest) = runtime_version mem bs buf" for bs
    using assms(2) by (induction before) auto
  ultimately show ?thesis using assms(1,3) by (simp add: GetMinimumRuntime_def)
qed

section \<open>Memory of the caller\<close>

text \<open>
  Building a model from the caller's buffer without verification reads outside of the buffer exactly when the buffer has seven
  bytes: the check asks for seven bytes where the identifier ends with the eighth.
\<close>

lemma seven_byte_buffer:
  assumes "ps_blocks s p = Some data" "p \<noteq> 0" "\<not> px_arm P" "\<not> ps_bad s"
  shows "ps_bad (snd (BuildFromBuffer P F p (length data) s)) \<longleftrightarrow> length data = 7"
  using assms
  by (auto simp: BuildFromBuffer_def BuildFromAllocation_def new_FlatBufferModel_def CheckModelIdentifier_def new_MemoryAllocation_def
      delete_model_def)

lemma seven_byte_buffer_witness:
  "\<exists>data. length data = 7 \<and> ps_bad (snd (BuildFromBuffer w_posix w_flatbuffers 64 (length data) (w_process\<lparr>ps_blocks := [64 \<mapsto> data]\<rparr>)))"
proof -
  define data :: "byte list" where "data = [0, 0, 0, 0, 84, 70, 76]"
  have n: "length data = 7" by (simp add: data_def)
  have "ps_bad (snd (BuildFromBuffer w_posix w_flatbuffers 64 (length data) (w_process\<lparr>ps_blocks := [64 \<mapsto> data]\<rparr>))) \<longleftrightarrow> length data = 7"
    by (rule seven_byte_buffer) (simp_all add: w_posix_def w_process_def)
  with n show ?thesis by blast
qed

text \<open>The converted model of a big-endian machine does not give back what the loaded model holds.\<close>

lemma BuildFromBuffer_keeps:
  assumes "BuildFromBuffer P F p n s = (r, s1)"
  shows "ps_fds s1 = ps_fds s" "ps_maps s1 = ps_maps s" "ps_blocks s1 = ps_blocks s" "r = Some m \<Longrightarrow> delete_model m s2 = s2"
  using assms
  by (auto simp: BuildFromBuffer_def BuildFromAllocation_def new_FlatBufferModel_def CheckModelIdentifier_def delete_model_def
      split: if_splits prod.splits)

lemma converted_model_keeps:
  assumes "ByteSwapFlatBufferModelBase P F modelp tflite_model e s = (Returns (Some m), s1)"
  shows "ps_fds (delete_model m s1) = ps_fds s \<and> ps_maps (delete_model m s1) = ps_maps s \<and>
    (\<exists>p bs. ps_blocks (delete_model m s1) = (ps_blocks s)(p \<mapsto> bs))"
proof -
  obtain p bs where "BuildFromBuffer P F p (length bs) (s\<lparr>ps_blocks := (ps_blocks s)(p \<mapsto> bs)\<rparr>) = (Some m, s1)"
    using assms by (auto simp: ByteSwapFlatBufferModelBase_def Let_def split: option.splits prod.splits)
  from BuildFromBuffer_keeps [OF this] show ?thesis by auto
qed

end
