(* ===== verification/Shapes.thy ===== *)
theory Shapes
  imports Prelude
begin

text \<open>
  Shapes and indices of the operator kernels (\<open>lite/kernels/internal/runtime_shape.h\<close>, \<open>types.h\<close>, \<open>common.h\<close>, \<open>lite/kernels/kernel_util.cc\<close>,
  \<open>lite/kernels/padding.h\<close>, \<open>reference/binary_function.h\<close>): addressing the elements of a tensor, broadcasting, padding of windows, and the
  elementwise functions of two tensors. A shape is the list of its dimensions, wherever the class stores them; arithmetic of \<open>int\<close> wraps,
  where the code leaves an overflow undefined.
\<close>

section \<open>Loops over arrays\<close>

text \<open>An access outside of an array, or a return of the kernel, ends a loop.\<close>

datatype stop = Outside | Returned

definition bind_step :: "stop + 's \<Rightarrow> ('s \<Rightarrow> stop + 't) \<Rightarrow> stop + 't" where
  "bind_step r f = (case r of Inl e \<Rightarrow> Inl e | Inr s \<Rightarrow> f s)"

fun loop :: "('a \<Rightarrow> 's \<Rightarrow> stop + 's) \<Rightarrow> 'a list \<Rightarrow> 's \<Rightarrow> stop + 's" where
  "loop f [] s = Inr s"
| "loop f (x # xs) s = bind_step (f x s) (loop f xs)"

definition rd :: "'a list \<Rightarrow> int \<Rightarrow> stop + 'a" where
  "rd xs i = (if 0 \<le> i \<and> nat i < length xs then Inr (xs ! nat i) else Inl Outside)"

definition wr :: "int \<Rightarrow> 'a \<Rightarrow> 'a list \<Rightarrow> stop + 'a list" where
  "wr i v xs = (if 0 \<le> i \<and> nat i < length xs then Inr (xs[nat i := v]) else Inl Outside)"

text \<open>\<open>for (int i = 0; i < n; ++i)\<close>\<close>

definition upto0 :: "int \<Rightarrow> int list" where
  "upto0 n = [0..n - 1]"

section \<open>Shapes\<close>

type_synonym RuntimeShape = "int list"

definition FlatSize :: "RuntimeShape \<Rightarrow> int" where
  "FlatSize shape = fold (\<lambda>d buffer_size. wrap_i32 (buffer_size * d)) shape 1"

definition FlatSizeSkipDim :: "RuntimeShape \<Rightarrow> nat \<Rightarrow> int" where
  "FlatSizeSkipDim shape skip_dim =
     fold (\<lambda>i flat_size. wrap_i32 (flat_size * (if i = skip_dim then 1 else shape ! i))) [0..<length shape] 1"

definition MatchingDim :: "RuntimeShape \<Rightarrow> nat \<Rightarrow> RuntimeShape \<Rightarrow> nat \<Rightarrow> int" where
  "MatchingDim shape1 index1 shape2 index2 = min (shape1 ! index1) (shape2 ! index2)"

text \<open>A shape with more dimensions than asked for aborts the program.\<close>

definition ExtendedShape :: "nat \<Rightarrow> RuntimeShape \<Rightarrow> RuntimeShape option" where
  "ExtendedShape new_shape_size shape =
     (if new_shape_size < length shape then None else Some (replicate (new_shape_size - length shape) 1 @ shape))"

definition Offset :: "RuntimeShape \<Rightarrow> int \<Rightarrow> int \<Rightarrow> int \<Rightarrow> int \<Rightarrow> int" where
  "Offset shape i0 i1 i2 i3 = wrap_i32 (((i0 * shape ! 1 + i1) * shape ! 2 + i2) * shape ! 3 + i3)"

definition Offset5 :: "RuntimeShape \<Rightarrow> int \<Rightarrow> int \<Rightarrow> int \<Rightarrow> int \<Rightarrow> int \<Rightarrow> int" where
  "Offset5 shape i0 i1 i2 i3 i4 = wrap_i32 ((((i0 * shape ! 1 + i1) * shape ! 2 + i2) * shape ! 3 + i3) * shape ! 4 + i4)"

section \<open>Broadcasting\<close>

definition dim_from_back :: "int list \<Rightarrow> nat \<Rightarrow> int" where
  "dim_from_back dims i = (if i \<ge> length dims then 1 else dims ! (length dims - i - 1))"

definition broadcast_dim :: "int \<Rightarrow> int \<Rightarrow> int option" where
  "broadcast_dim d1 d2 =
     (if \<not> (d1 = d2 \<or> d1 = 1 \<or> d2 = 1) then None
      else if d1 = 0 \<or> d2 = 0 then Some 0 else Some (max d1 d2))"

definition broadcast_dim3 :: "int \<Rightarrow> int \<Rightarrow> int \<Rightarrow> int option" where
  "broadcast_dim3 d1 d2 d3 =
     (let min_value = min (min d1 d2) d3;
          max_value = (if min_value = 0 then 0 else max (max d1 d2) d3)
      in if \<not> (d1 = 1 \<or> d1 = max_value) \<or> \<not> (d2 = 1 \<or> d2 = max_value) \<or> \<not> (d3 = 1 \<or> d3 = max_value) then None
         else Some max_value)"

text \<open>The output shape is filled from its end; a pair of dimensions that do not fit is an error.\<close>

definition shape_from_back :: "int option list \<Rightarrow> TfLiteStatus \<times> RuntimeShape option" where
  "shape_from_back ds = (if None \<in> set ds then (kTfLiteError, None) else (kTfLiteOk, Some (rev (map the ds))))"

definition CalculateShapeForBroadcast :: "int list \<Rightarrow> int list \<Rightarrow> TfLiteStatus \<times> RuntimeShape option" where
  "CalculateShapeForBroadcast dims1 dims2 =
     shape_from_back (map (\<lambda>i. broadcast_dim (dim_from_back dims1 i) (dim_from_back dims2 i)) [0..<max (length dims1) (length dims2)])"

definition CalculateShapeForBroadcast3 :: "int list \<Rightarrow> int list \<Rightarrow> int list \<Rightarrow> TfLiteStatus \<times> RuntimeShape option" where
  "CalculateShapeForBroadcast3 dims1 dims2 dims3 =
     shape_from_back (map (\<lambda>i. broadcast_dim3 (dim_from_back dims1 i) (dim_from_back dims2 i) (dim_from_back dims3 i))
       [0..<max (max (length dims1) (length dims2)) (length dims3)])"

record NdArrayDesc =
  extents :: "int list"
  strides :: "int list"

definition CopyDimsToDesc :: "RuntimeShape \<Rightarrow> NdArrayDesc" where
  "CopyDimsToDesc input_shape =
     \<lparr>extents = input_shape,
      strides = fst (foldr (\<lambda>d (ss, desc_stride). (desc_stride # ss, wrap_i32 (desc_stride * d))) input_shape ([], 1))\<rparr>"

text \<open>One dimension of two descriptions: extents and strides.\<close>

definition broadcast_extent :: "int \<Rightarrow> int \<Rightarrow> int \<Rightarrow> int \<Rightarrow> (int \<times> int) \<times> (int \<times> int)" where
  "broadcast_extent extent0 stride0 extent1 stride1 =
     (if extent0 \<noteq> extent1
      then (if extent0 = 1 then ((extent1, 0), (extent1, stride1)) else ((extent0, stride0), (extent0, 0)))
      else ((extent0, stride0), (extent1, stride1)))"

definition NdArrayDescsForElementwiseBroadcast :: "nat \<Rightarrow> RuntimeShape \<Rightarrow> RuntimeShape \<Rightarrow> (NdArrayDesc \<times> NdArrayDesc) option" where
  "NdArrayDescsForElementwiseBroadcast n input0_shape input1_shape =
     (case (ExtendedShape n input0_shape, ExtendedShape n input1_shape) of
        (Some shape0, Some shape1) \<Rightarrow>
          (let desc0 = CopyDimsToDesc shape0; desc1 = CopyDimsToDesc shape1;
               ds = map (\<lambda>i. broadcast_extent (shape0 ! i) (strides desc0 ! i) (shape1 ! i) (strides desc1 ! i)) [0..<n]
           in Some (\<lparr>extents = map (fst \<circ> fst) ds, strides = map (snd \<circ> fst) ds\<rparr>,
                    \<lparr>extents = map (fst \<circ> snd) ds, strides = map (snd \<circ> snd) ds\<rparr>))
      | _ \<Rightarrow> None)"

definition SubscriptToIndex :: "NdArrayDesc \<Rightarrow> int list \<Rightarrow> int" where
  "SubscriptToIndex desc indexes = wrap_i32 (sum_list (map2 (*) indexes (strides desc)))"

text \<open>The index vectors in the order of the nested loops.\<close>

fun nd_indexes :: "int list \<Rightarrow> int list list" where
  "nd_indexes [] = [[]]"
| "nd_indexes (e # es) = concat (map (\<lambda>i. map ((#) i) (nd_indexes es)) (upto0 e))"

definition NDOpsHelper :: "NdArrayDesc \<Rightarrow> (int list \<Rightarrow> 's \<Rightarrow> stop + 's) \<Rightarrow> 's \<Rightarrow> stop + 's" where
  "NDOpsHelper output calc = loop calc (nd_indexes (extents output))"

section \<open>Elementwise functions\<close>

definition BinaryFunction ::
    "RuntimeShape \<Rightarrow> 'a list \<Rightarrow> 'b list \<Rightarrow> ('a \<Rightarrow> 'b \<Rightarrow> 'c) \<Rightarrow> 'c list \<Rightarrow> stop + 'c list" where
  "BinaryFunction input1_shape input1_data input2_data func =
     loop (\<lambda>i output_data. bind_step (rd input1_data i) (\<lambda>a. bind_step (rd input2_data i) (\<lambda>b. wr i (func a b) output_data)))
       (upto0 (FlatSize input1_shape))"

text \<open>The innermost loop carries the two indices along.\<close>

definition broadcast_row ::
    "'a list \<Rightarrow> 'b list \<Rightarrow> ('a \<Rightarrow> 'b \<Rightarrow> 'c) \<Rightarrow> int \<Rightarrow> int \<Rightarrow> int \<Rightarrow> int \<Rightarrow> 'c list \<times> int \<times> int \<Rightarrow> stop + 'c list \<times> int \<times> int" where
  "broadcast_row input1_data input2_data func out_idx_x stride1 stride2 c s = (case s of (output_data, in1_idx, in2_idx) \<Rightarrow>
     bind_step (rd input1_data in1_idx) (\<lambda>in1_val.
     bind_step (rd input2_data in2_idx) (\<lambda>in2_val.
     bind_step (wr (wrap_i32 (out_idx_x + c)) (func in1_val in2_val) output_data) (\<lambda>output_data.
     Inr (output_data, wrap_i32 (in1_idx + stride1), wrap_i32 (in2_idx + stride2))))))"

definition BroadcastBinaryFunction4DSlow ::
    "RuntimeShape \<Rightarrow> 'a list \<Rightarrow> RuntimeShape \<Rightarrow> 'b list \<Rightarrow> RuntimeShape \<Rightarrow> ('a \<Rightarrow> 'b \<Rightarrow> 'c) \<Rightarrow> 'c list \<Rightarrow> (stop + 'c list) option" where
  "BroadcastBinaryFunction4DSlow input1_shape input1_data input2_shape input2_data unextended_output_shape func output_data =
     (case (ExtendedShape 4 unextended_output_shape, NdArrayDescsForElementwiseBroadcast 4 input1_shape input2_shape) of
        (Some dims, Some (desc1, desc2)) \<Rightarrow>
          (let s1 = strides desc1; s2 = strides desc2 in
           Some (loop (\<lambda>b. loop (\<lambda>y. loop (\<lambda>x output_data.
             (let out_idx_b = wrap_i32 (b * dims ! 1);
                  in_idx1_b = wrap_i32 (s1 ! 0 * b); in_idx2_b = wrap_i32 (s2 ! 0 * b);
                  out_idx_y = wrap_i32 ((out_idx_b + y) * dims ! 2);
                  in_idx1_y = wrap_i32 (in_idx1_b + s1 ! 1 * y); in_idx2_y = wrap_i32 (in_idx2_b + s2 ! 1 * y);
                  out_idx_x = wrap_i32 ((out_idx_y + x) * dims ! 3);
                  in1_idx = wrap_i32 (in_idx1_y + s1 ! 2 * x); in2_idx = wrap_i32 (in_idx2_y + s2 ! 2 * x)
              in bind_step (loop (broadcast_row input1_data input2_data func out_idx_x (s1 ! 3) (s2 ! 3)) (upto0 (dims ! 3))
                    (output_data, in1_idx, in2_idx)) (\<lambda>s. Inr (fst s))))
             (upto0 (dims ! 2))) (upto0 (dims ! 1))) (upto0 (dims ! 0)) output_data))
      | _ \<Rightarrow> None)"

section \<open>Padding of windows\<close>

datatype TfLitePadding = kTfLitePaddingUnknown | kTfLitePaddingSame | kTfLitePaddingValid

text \<open>Division and remainder of \<open>int\<close> round towards zero.\<close>

definition quot_int :: "int \<Rightarrow> int \<Rightarrow> int" where
  "quot_int a b = sgn a * sgn b * (\<bar>a\<bar> div \<bar>b\<bar>)"

definition rem_int :: "int \<Rightarrow> int \<Rightarrow> int" where
  "rem_int a b = a - quot_int a b * b"

definition ComputePadding :: "int \<Rightarrow> int \<Rightarrow> int \<Rightarrow> int \<Rightarrow> int \<Rightarrow> int" where
  "ComputePadding stride dilation_rate in_size filter_size out_size =
     (let effective_filter_size = wrap_i32 ((filter_size - 1) * dilation_rate + 1);
          padding = quot_int (wrap_i32 ((out_size - 1) * stride + effective_filter_size - in_size)) 2
      in if padding > 0 then padding else 0)"

definition ComputePaddingWithOffset :: "int \<Rightarrow> int \<Rightarrow> int \<Rightarrow> int \<Rightarrow> int \<Rightarrow> int \<times> int" where
  "ComputePaddingWithOffset stride dilation_rate in_size filter_size out_size =
     (let effective_filter_size = wrap_i32 ((filter_size - 1) * dilation_rate + 1);
          total_padding = wrap_i32 ((out_size - 1) * stride + effective_filter_size - in_size);
          total_padding = (if total_padding > 0 then total_padding else 0)
      in (quot_int total_padding 2, rem_int total_padding 2))"

definition ComputeOutSize :: "TfLitePadding \<Rightarrow> int \<Rightarrow> int \<Rightarrow> int \<Rightarrow> int \<Rightarrow> int" where
  "ComputeOutSize padding image_size filter_size stride dilation_rate =
     (let effective_filter_size = wrap_i32 ((filter_size - 1) * dilation_rate + 1) in
      if stride = 0 then 0
      else (case padding of
          kTfLitePaddingSame \<Rightarrow> quot_int (wrap_i32 (image_size + stride - 1)) stride
        | kTfLitePaddingValid \<Rightarrow> quot_int (wrap_i32 (image_size + stride - effective_filter_size)) stride
        | kTfLitePaddingUnknown \<Rightarrow> 0))"

record TfLitePaddingValues =
  pv_width :: int
  pv_height :: int
  pv_width_offset :: int
  pv_height_offset :: int

definition ComputePaddingHeightWidth ::
    "int \<Rightarrow> int \<Rightarrow> int \<Rightarrow> int \<Rightarrow> int \<Rightarrow> int \<Rightarrow> int \<Rightarrow> int \<Rightarrow> TfLitePadding \<Rightarrow> TfLitePaddingValues \<times> int \<times> int" where
  "ComputePaddingHeightWidth stride_height stride_width dilation_rate_height dilation_rate_width in_height in_width
      filter_height filter_width padding =
     (let out_width = ComputeOutSize padding in_width filter_width stride_width dilation_rate_width;
          out_height = ComputeOutSize padding in_height filter_height stride_height dilation_rate_height;
          (height, height_offset) = ComputePaddingWithOffset stride_height dilation_rate_height in_height filter_height out_height;
          (width, width_offset) = ComputePaddingWithOffset stride_width dilation_rate_width in_width filter_width out_width
      in (\<lparr>pv_width = width, pv_height = height, pv_width_offset = width_offset, pv_height_offset = height_offset\<rparr>,
          out_height, out_width))"

section \<open>Wrapping\<close>

lemma mod_wrap_i32: "wrap_i32 a mod 4294967296 = a mod 4294967296"
  by (simp only: wrap_i32_def mod_diff_left_eq add_diff_cancel_right')

lemma wrap_i32_cong: "a mod 4294967296 = b mod 4294967296 \<Longrightarrow> wrap_i32 a = wrap_i32 b"
  unfolding wrap_i32_def by (drule mod_add_cong [OF _ refl, of _ _ _ 2147483648]) (simp only:)

lemma wrap_i32_simps [simp]:
  "wrap_i32 (wrap_i32 a + b) = wrap_i32 (a + b)" "wrap_i32 (a + wrap_i32 b) = wrap_i32 (a + b)"
  "wrap_i32 (wrap_i32 a * b) = wrap_i32 (a * b)" "wrap_i32 (a * wrap_i32 b) = wrap_i32 (a * b)"
  by (rule wrap_i32_cong, rule mod_add_cong mod_mult_cong; rule mod_wrap_i32 refl)+

section \<open>Addresses of elements\<close>

text \<open>The position of an element in the order of the nested loops over the dimensions.\<close>

fun flat_index :: "int list \<Rightarrow> int list \<Rightarrow> int \<Rightarrow> int" where
  "flat_index (d # ds) (i # is) acc = flat_index ds is (acc * d + i)"
| "flat_index _ _ acc = acc"

definition in_shape :: "int list \<Rightarrow> int list \<Rightarrow> bool" where
  "in_shape ds is \<longleftrightarrow> list_all2 (\<lambda>d i. 0 \<le> i \<and> i < d) ds is"

lemma in_shape_simps [simp]:
  "in_shape [] is \<longleftrightarrow> is = []" "in_shape (d # ds) (i # is) \<longleftrightarrow> 0 \<le> i \<and> i < d \<and> in_shape ds is"
  "in_shape (d # ds) is \<longleftrightarrow> (\<exists>j js. is = j # js \<and> 0 \<le> j \<and> j < d \<and> in_shape ds js)"
  by (auto simp: in_shape_def list_all2_Cons1)

lemma in_shape_pos: "in_shape ds is \<Longrightarrow> 0 < prod_list ds"
  by (induction ds arbitrary: "is") auto

lemma flat_index_bounds:
  "in_shape ds is \<Longrightarrow> 0 \<le> acc \<Longrightarrow> acc * prod_list ds \<le> flat_index ds is acc \<and> flat_index ds is acc < (acc + 1) * prod_list ds"
proof (induction ds arbitrary: "is" acc)
  case (Cons d ds)
  then obtain i js where j: "is = i # js" "0 \<le> i" "i < d" "in_shape ds js" by auto
  have p: "0 < prod_list ds" by (rule in_shape_pos [OF j(4)])
  have a: "acc * d \<le> acc * d + i" "acc * d + i + 1 \<le> (acc + 1) * d" "0 \<le> acc * d + i"
    using j Cons.prems(2) by (simp_all add: algebra_simps)
  have "acc * d * prod_list ds \<le> (acc * d + i) * prod_list ds" "(acc * d + i + 1) * prod_list ds \<le> (acc + 1) * d * prod_list ds"
    using mult_right_mono [OF a(1), of "prod_list ds"] mult_right_mono [OF a(2), of "prod_list ds"] p by simp_all
  with Cons.IH [OF j(4) a(3)] show ?case by (simp add: j(1) mult.assoc)
qed simp

lemma flat_index_inj:
  "in_shape ds is \<Longrightarrow> in_shape ds js \<Longrightarrow> flat_index ds is a = flat_index ds js b \<Longrightarrow> a = b \<and> is = js"
proof (induction ds arbitrary: "is" js a b)
  case (Cons d ds)
  then obtain i is' j js' where ij: "is = i # is'" "0 \<le> i" "i < d" "in_shape ds is'" "js = j # js'" "0 \<le> j" "j < d" "in_shape ds js'"
    by auto
  with Cons.IH [of is' js' "a * d + i" "b * d + j"] Cons.prems have e: "a * d + i = b * d + j" "is' = js'" by simp_all
  from e(1) have "(a * d + i) div d = (b * d + j) div d" "(a * d + i) mod d = (b * d + j) mod d" by simp_all
  then have "a = b" "i = j" using ij by (simp_all add: mod_pos_pos_trivial)
  with e ij show ?case by simp
qed simp

lemma flat_index_surj:
  "\<forall>d\<in>set ds. 0 \<le> d \<Longrightarrow> acc * prod_list ds \<le> k \<Longrightarrow> k < (acc + 1) * prod_list ds \<Longrightarrow> \<exists>is. in_shape ds is \<and> flat_index ds is acc = k"
proof (induction ds arbitrary: acc)
  case (Cons d ds)
  let ?p = "prod_list ds" and ?i = "k div prod_list ds - acc * d"
  have "acc * (d * ?p) < (acc + 1) * (d * ?p)" using Cons.prems(2,3) by simp
  then have "d * ?p > 0" by (simp add: algebra_simps)
  moreover have "0 \<le> ?p" using Cons.prems(1) by (induction ds) auto
  ultimately have p: "0 < ?p" "0 < d" using Cons.prems(1) by (auto simp: zero_less_mult_iff)
  have b: "acc * d * ?p \<le> k" "k < (acc + 1) * d * ?p" using Cons.prems(2,3) by (simp_all add: mult.assoc)
  have e: "k div ?p * ?p + k mod ?p = k" "0 \<le> k mod ?p" "k mod ?p < ?p" using p(1) by simp_all
  then have k: "k div ?p * ?p \<le> k" "k < (k div ?p + 1) * ?p" unfolding distrib_right by linarith+
  with b have "acc * d * ?p < (k div ?p + 1) * ?p" "k div ?p * ?p < (acc + 1) * d * ?p" by linarith+
  then have "acc * d < k div ?p + 1" "k div ?p < (acc + 1) * d" using p(1) by (simp_all add: mult_less_cancel_right)
  then have i: "0 \<le> ?i" "?i < d" by (simp_all add: algebra_simps)
  from k have "(acc * d + ?i) * ?p \<le> k" "k < (acc * d + ?i + 1) * ?p" by simp_all
  from Cons.IH [OF _ this] Cons.prems(1) obtain js where "in_shape ds js" "flat_index ds js (acc * d + ?i) = k" by auto
  then show ?case using i by (intro exI [of _ "?i # js"]) simp
qed simp

lemma FlatSize_wrap: "FlatSize shape = wrap_i32 (prod_list shape)"
proof -
  have "fold (\<lambda>d n. wrap_i32 (n * d)) shape (wrap_i32 n) = wrap_i32 (n * prod_list shape)" for n
    by (induction shape arbitrary: n) (simp_all add: mult.assoc)
  from this [of 1] show ?thesis by (simp add: FlatSize_def in_i32_def)
qed

lemma FlatSize_exact: "0 \<le> prod_list shape \<Longrightarrow> prod_list shape \<le> i32_max \<Longrightarrow> FlatSize shape = prod_list shape"
  by (simp add: FlatSize_wrap in_i32_def)

lemma prod_list_nonneg_int: "\<forall>d\<in>set ds. 0 \<le> (d :: int) \<Longrightarrow> 0 \<le> prod_list ds"
  by (induction ds) auto

lemma Offset_flat_index:
  assumes "in_shape [d0, d1, d2, d3] [i0, i1, i2, i3]" "d0 * d1 * d2 * d3 \<le> i32_max"
  shows "Offset [d0, d1, d2, d3] i0 i1 i2 i3 = flat_index [d0, d1, d2, d3] [i0, i1, i2, i3] 0"
proof -
  have "in_i32 (flat_index [d0, d1, d2, d3] [i0, i1, i2, i3] 0)"
    using flat_index_bounds [OF assms(1), of 0] assms(2) by (simp add: in_i32_def mult.assoc)
  then show ?thesis by (simp add: Offset_def)
qed

lemma Offset_bij:
  assumes "0 \<le> d0" "0 \<le> d1" "0 \<le> d2" "0 \<le> d3" and "d0 * d1 * d2 * d3 \<le> i32_max"
  shows "bij_betw (\<lambda>(i0, i1, i2, i3). Offset [d0, d1, d2, d3] i0 i1 i2 i3)
    ({0..<d0} \<times> {0..<d1} \<times> {0..<d2} \<times> {0..<d3}) {0..<FlatSize [d0, d1, d2, d3]}"
proof -
  let ?ds = "[d0, d1, d2, d3]" and ?g = "\<lambda>(i0, i1, i2, i3). flat_index [d0, d1, d2, d3] [i0, i1, i2, i3] 0"
  let ?I = "{0..<d0} \<times> {0..<d1} \<times> {0..<d2} \<times> {0..<d3}"
  have n: "FlatSize ?ds = prod_list ?ds" using assms by (intro FlatSize_exact prod_list_nonneg_int) (simp_all add: mult.assoc)
  have "inj_on ?g ?I"
    by (rule inj_onI) (auto dest!: flat_index_inj [of ?ds, rotated 2] simp del: flat_index.simps)
  moreover have "?g ` ?I = {0..<prod_list ?ds}"
  proof
    show "?g ` ?I \<subseteq> {0..<prod_list ?ds}" using flat_index_bounds [of ?ds _ 0] by (force simp del: flat_index.simps prod_list.Cons)
    show "{0..<prod_list ?ds} \<subseteq> ?g ` ?I"
    proof
      fix k assume "k \<in> {0..<prod_list ?ds}"
      with flat_index_surj [of ?ds 0 k] assms obtain i0 i1 i2 i3 where "in_shape ?ds [i0, i1, i2, i3]" "flat_index ?ds [i0, i1, i2, i3] 0 = k"
        by (auto simp del: flat_index.simps)
      then show "k \<in> ?g ` ?I" by (intro image_eqI [of _ _ "(i0, i1, i2, i3)"]) simp_all
    qed
  qed
  ultimately have "bij_betw ?g ?I {0..<FlatSize ?ds}" by (simp add: bij_betw_def n)
  moreover have "bij_betw (\<lambda>(i0, i1, i2, i3). Offset ?ds i0 i1 i2 i3) ?I J \<longleftrightarrow> bij_betw ?g ?I J" for J
    using Offset_flat_index [of d0 d1 d2 d3] assms(5) by (intro bij_betw_cong) (auto simp del: flat_index.simps)
  ultimately show ?thesis by blast
qed

text \<open>
  \<open>Offset\<close> addresses the elements of a tensor with four dimensions exactly: as long as their number fits an
  \<open>int\<close>, different index vectors have different addresses, these are the numbers below the number of elements, and
  every such number is the address of an element.
\<close>

lemma offset_addresses:
  assumes "0 \<le> d0" "0 \<le> d1" "0 \<le> d2" "0 \<le> d3" and "d0 * d1 * d2 * d3 \<le> i32_max"
  shows "bij_betw (\<lambda>(i0, i1, i2, i3). Offset [d0, d1, d2, d3] i0 i1 i2 i3)
    ({0..<d0} \<times> {0..<d1} \<times> {0..<d2} \<times> {0..<d3}) {0..<FlatSize [d0, d1, d2, d3]}"
  using assms by (rule Offset_bij)

lemma offset_addresses_witness:
  "bij_betw (\<lambda>(i0, i1, i2, i3). Offset [1, 49, 40, 1] i0 i1 i2 i3) ({0..<1} \<times> {0..<49} \<times> {0..<40} \<times> {0..<1}) {0..<1960}"
proof -
  have "FlatSize [1, 49, 40, 1] = 1960" by (simp add: FlatSize_def wrap_i32_def)
  with offset_addresses [of 1 49 40 1] show ?thesis by simp
qed

section \<open>Loops\<close>

lemma bind_step_simps [simp]: "bind_step (Inr s) f = f s" "bind_step (Inl e) f = Inl e"
  by (simp_all add: bind_step_def)

lemma bind_step_assoc: "bind_step (bind_step r f) g = bind_step r (\<lambda>s. bind_step (f s) g)"
  by (cases r) simp_all

lemma loop_append: "loop f (xs @ ys) s = bind_step (loop f xs s) (loop f ys)"
  by (induction xs arbitrary: s) (auto simp: bind_step_def split: sum.split)

lemma loop_map: "loop f (map g xs) s = loop (\<lambda>x. f (g x)) xs s"
  by (induction xs arbitrary: s) (auto simp: bind_step_def split: sum.split)

text \<open>Nested loops are one loop over the pairs of indices.\<close>

lemma loop_product: "loop (\<lambda>x. loop (f x) ys) xs s = loop (\<lambda>(x, y). f x y) (List.product xs ys) s"
proof (induction xs arbitrary: s)
  case (Cons x xs)
  have "loop (\<lambda>x. loop (f x) ys) xs = loop (\<lambda>(x, y). f x y) (List.product xs ys)" using Cons by blast
  then show ?case by (simp add: loop_append loop_map)
qed simp

text \<open>A loop that writes one element of an array at a time, each at a place of its own.\<close>

lemma loop_writes:
  assumes "\<And>x out. x \<in> set xs \<Longrightarrow> length out = n \<Longrightarrow> f x out = Inr (out[nat (g x) := v x])"
    and "\<And>x. x \<in> set xs \<Longrightarrow> 0 \<le> g x \<and> g x < int n" and "inj_on g (set xs)" and "length out = n"
  shows "\<exists>res. loop f xs out = Inr res \<and> length res = n \<and> (\<forall>x\<in>set xs. res ! nat (g x) = v x) \<and>
    (\<forall>k<n. int k \<notin> g ` set xs \<longrightarrow> res ! k = out ! k)"
  using assms
proof (induction xs arbitrary: out)
  case (Cons x xs)
  let ?out = "out[nat (g x) := v x]"
  have "\<exists>res. loop f xs ?out = Inr res \<and> length res = n \<and> (\<forall>x\<in>set xs. res ! nat (g x) = v x) \<and>
    (\<forall>k<n. int k \<notin> g ` set xs \<longrightarrow> res ! k = ?out ! k)"
    by (rule Cons.IH) (use Cons.prems in \<open>auto simp: inj_on_def\<close>)
  then obtain res where r: "loop f xs ?out = Inr res" "length res = n" "\<forall>x\<in>set xs. res ! nat (g x) = v x"
    "\<forall>k<n. int k \<notin> g ` set xs \<longrightarrow> res ! k = ?out ! k" by blast
  have x: "0 \<le> g x" "g x < int n" using Cons.prems(2) [of x] by simp_all
  have "res ! nat (g x) = v x"
  proof (cases "x \<in> set xs")
    case False
    then have "g x \<notin> g ` set xs" using Cons.prems(3) by (auto simp: inj_on_def)
    then show ?thesis using r(4) x Cons.prems(4) by (auto simp: nat_less_iff)
  qed (use r in blast)
  moreover have "res ! k = out ! k" if "k < n" "int k \<notin> g ` set (x # xs)" for k
  proof -
    have "k \<noteq> nat (g x)" using that(2) x by auto
    then show ?thesis using that r(4) by simp
  qed
  ultimately show ?case using r Cons.prems(1) [of x out] Cons.prems(4) by auto
qed simp

section \<open>Shapes of broadcasts\<close>

text \<open>For dimensions that are not negative the rule is the usual one: a dimension of 1 is stretched, others have to agree.\<close>

lemma broadcast_dim_rule:
  "0 \<le> d1 \<Longrightarrow> 0 \<le> d2 \<Longrightarrow> broadcast_dim d1 d2 = (if d1 = 1 then Some d2 else if d2 = 1 \<or> d1 = d2 then Some d1 else None)"
  by (auto simp: broadcast_dim_def)

lemma broadcast_dim3_rule:
  assumes "0 \<le> d1" "0 \<le> d2" "0 \<le> d3"
  shows "broadcast_dim3 d1 d2 d3 = Option.bind (broadcast_dim d1 d2) (\<lambda>d. broadcast_dim d d3)"
  using assms by (auto simp: broadcast_dim3_def broadcast_dim_def Let_def min_def max_def split: if_splits)

lemma dim_from_back_nonneg: "\<forall>d\<in>set dims. 0 \<le> d \<Longrightarrow> 0 \<le> dim_from_back dims i"
  by (simp add: dim_from_back_def)

lemma shape_from_back_ok:
  assumes "shape_from_back (map f [0..<n]) = (kTfLiteOk, Some out)"
  shows "length out = n" "i < n \<Longrightarrow> f i = Some (dim_from_back out i)"
proof -
  have o: "None \<notin> f ` {0..<n}" "out = rev (map (the \<circ> f) [0..<n])"
    using assms by (auto simp: shape_from_back_def split: if_splits)
  then show l: "length out = n" by simp
  assume i: "i < n"
  then have "n - i - 1 < n" "n - Suc (n - i - 1) = i" by simp_all
  then have "dim_from_back out i = the (f i)" using i l o(2) by (simp add: dim_from_back_def rev_nth)
  moreover have "f i \<noteq> None" using o(1) i by force
  ultimately show "f i = Some (dim_from_back out i)" by auto
qed

lemma broadcast_shape:
  assumes "CalculateShapeForBroadcast dims1 dims2 = (kTfLiteOk, Some out)"
  shows "length out = max (length dims1) (length dims2)"
    and "broadcast_dim (dim_from_back dims1 i) (dim_from_back dims2 i) = Some (dim_from_back out i)"
proof -
  note s = shape_from_back_ok [OF assms [unfolded CalculateShapeForBroadcast_def]]
  show l: "length out = max (length dims1) (length dims2)" by (rule s(1))
  show "broadcast_dim (dim_from_back dims1 i) (dim_from_back dims2 i) = Some (dim_from_back out i)"
  proof (cases "i < max (length dims1) (length dims2)")
    case False
    then have "length dims1 \<le> i" "length dims2 \<le> i" "length out \<le> i" using l by auto
    then show ?thesis by (simp add: dim_from_back_def broadcast_dim_def)
  qed (rule s(2))
qed

text \<open>
  The shape for three tensors, which has its own rule with a minimum and a maximum, is the shape of the third with that of the
  first two: both functions fail for the same shapes and otherwise return the same one.
\<close>

lemma broadcast3_equiv:
  assumes "\<forall>d\<in>set dims1 \<union> set dims2 \<union> set dims3. 0 \<le> d"
  shows "CalculateShapeForBroadcast3 dims1 dims2 dims3 =
    (case CalculateShapeForBroadcast dims1 dims2 of
       (st, None) \<Rightarrow> (st, None)
     | (st, Some dims) \<Rightarrow> CalculateShapeForBroadcast dims dims3)"
proof -
  let ?d = "\<lambda>i. broadcast_dim (dim_from_back dims1 i) (dim_from_back dims2 i)"
  let ?n = "max (length dims1) (length dims2)" and ?m = "max (max (length dims1) (length dims2)) (length dims3)"
  have r: "broadcast_dim3 (dim_from_back dims1 i) (dim_from_back dims2 i) (dim_from_back dims3 i) =
      Option.bind (?d i) (\<lambda>d. broadcast_dim d (dim_from_back dims3 i))" for i
    by (rule broadcast_dim3_rule) (use assms in \<open>simp_all add: dim_from_back_nonneg\<close>)
  show ?thesis
  proof (cases "None \<in> ?d ` {0..<?n}")
    case True
    then have "CalculateShapeForBroadcast dims1 dims2 = (kTfLiteError, None)"
      by (simp add: CalculateShapeForBroadcast_def shape_from_back_def)
    moreover obtain i where "i < ?n" "?d i = None" using True by force
    then have "None \<in> (\<lambda>i. Option.bind (?d i) (\<lambda>d. broadcast_dim d (dim_from_back dims3 i))) ` {0..<?m}"
      by (intro image_eqI [of _ _ i]) simp_all
    ultimately show ?thesis by (simp add: CalculateShapeForBroadcast3_def shape_from_back_def r)
  next
    case False
    then obtain dims where d: "CalculateShapeForBroadcast dims1 dims2 = (kTfLiteOk, Some dims)"
      by (auto simp: CalculateShapeForBroadcast_def shape_from_back_def)
    have "?d i = Some (dim_from_back dims i)" for i by (rule broadcast_shape(2) [OF d])
    then have "map (\<lambda>i. broadcast_dim3 (dim_from_back dims1 i) (dim_from_back dims2 i) (dim_from_back dims3 i)) [0..<?m] =
        map (\<lambda>i. broadcast_dim (dim_from_back dims i) (dim_from_back dims3 i)) [0..<max (length dims) (length dims3)]"
      by (simp add: r broadcast_shape(1) [OF d])
    then show ?thesis by (simp add: d CalculateShapeForBroadcast3_def CalculateShapeForBroadcast_def [of dims])
  qed
qed

lemma broadcast3_equiv_witness:
  "CalculateShapeForBroadcast3 [2, 1] [3] [1, 1] = (kTfLiteOk, Some [2, 3]) \<and>
   CalculateShapeForBroadcast3 [2, 1] [3] [4] = (kTfLiteError, None)"
proof -
  have "CalculateShapeForBroadcast [2, 1] [3] = (kTfLiteOk, Some [2, 3])" "CalculateShapeForBroadcast [2, 3] [1, 1] = (kTfLiteOk, Some [2, 3])"
    "CalculateShapeForBroadcast [2, 3] [4] = (kTfLiteError, None)"
    by (simp_all add: CalculateShapeForBroadcast_def shape_from_back_def broadcast_dim_def dim_from_back_def)
  with broadcast3_equiv [of "[2, 1]" "[3]" "[1, 1]"] broadcast3_equiv [of "[2, 1]" "[3]" "[4]"] show ?thesis by simp
qed

lemma extended_shape:
  assumes "ExtendedShape n shape = Some e"
  shows "length e = n" "k < n \<Longrightarrow> e ! k = dim_from_back shape (n - 1 - k)" "prod_list e = prod_list shape" "set e \<subseteq> insert 1 (set shape)"
proof -
  have e: "e = replicate (n - length shape) 1 @ shape" "length shape \<le> n"
    using assms by (auto simp: ExtendedShape_def split: if_splits)
  then show "length e = n" "prod_list e = prod_list shape" "set e \<subseteq> insert 1 (set shape)" by (auto simp: prod_list_replicate)
  assume "k < n"
  then show "e ! k = dim_from_back shape (n - 1 - k)" using e by (auto simp: dim_from_back_def nth_append add.commute)
qed

section \<open>Indices of broadcasts\<close>

text \<open>The element that a broadcast reads of a tensor for an index of the result.\<close>

definition stretch :: "int list \<Rightarrow> int list \<Rightarrow> int list" where
  "stretch ds is = map2 (\<lambda>d i. if d = 1 then 0 else i) ds is"

lemma strides_nth:
  assumes "i < length ds" "\<forall>d\<in>set ds. 0 < d" "prod_list ds \<le> i32_max"
  shows "strides (CopyDimsToDesc ds) ! i = prod_list (drop (Suc i) ds)"
proof -
  have f: "foldr (\<lambda>d (ss, n). (n # ss, wrap_i32 (n * d))) ds ([], 1) = (map (\<lambda>i. prod_list (drop (Suc i) ds)) [0..<length ds], prod_list ds)"
    using assms(2,3)
  proof (induction ds)
    case (Cons d ds)
    have p: "0 < prod_list ds" using Cons.prems(1) by (induction ds) auto
    have d: "0 < d" "d * prod_list ds \<le> i32_max" using Cons.prems by simp_all
    have "prod_list ds \<le> d * prod_list ds" using mult_right_mono [of 1 d "prod_list ds"] p d(1) by simp
    with d(2) have "prod_list ds \<le> i32_max" by linarith
    moreover have "in_i32 (d * prod_list ds)" unfolding in_i32_def using d(2) mult_pos_pos [OF d(1) p] by linarith
    then have "wrap_i32 (prod_list ds * d) = d * prod_list ds" by (simp add: mult.commute)
    ultimately show ?case using Cons by (simp add: upt_conv_Cons map_Suc_upt [symmetric] del: upt_Suc)
  qed simp
  show ?thesis unfolding CopyDimsToDesc_def using assms(1) by (simp add: f)
qed

lemma flat_index_sum:
  "length is = length ds \<Longrightarrow> flat_index ds is acc = acc * prod_list ds + (\<Sum>i<length ds. is ! i * prod_list (drop (Suc i) ds))"
proof (induction ds arbitrary: "is" acc)
  case (Cons d ds)
  then obtain i js where "is = i # js" "length js = length ds" by (cases "is") auto
  with Cons.IH [of js "acc * d + i"] show ?case by (simp add: sum.lessThan_Suc_shift distrib_right mult.assoc del: sum.lessThan_Suc)
qed simp

lemma SubscriptToIndex_sum:
  assumes "length is = length (strides desc)"
  shows "SubscriptToIndex desc is = wrap_i32 (\<Sum>i<length is. is ! i * strides desc ! i)"
proof -
  have "sum_list (map2 (*) is (strides desc)) = (\<Sum>i<length is. map2 (*) is (strides desc) ! i)"
    using assms by (simp add: sum_list_sum_nth atLeast0LessThan)
  also have "\<dots> = (\<Sum>i<length is. is ! i * strides desc ! i)" using assms by (intro sum.cong) simp_all
  finally show ?thesis by (simp add: SubscriptToIndex_def)
qed

lemma in_shape_nth: "in_shape ds is \<longleftrightarrow> length is = length ds \<and> (\<forall>k<length ds. 0 \<le> is ! k \<and> is ! k < ds ! k)"
  by (auto simp: in_shape_def list_all2_conv_all_nth)

lemma stretch_nth [simp]: "length is = length ds \<Longrightarrow> k < length ds \<Longrightarrow> stretch ds is ! k = (if ds ! k = 1 then 0 else is ! k)"
  by (simp add: stretch_def)

lemma stretched_index:
  assumes i: "in_shape eo is" and e: "length e = length eo" "\<And>k. k < length eo \<Longrightarrow> e ! k = 1 \<or> e ! k = eo ! k" "prod_list e \<le> i32_max"
    and st: "length (strides desc) = length e"
      "\<And>k. k < length e \<Longrightarrow> strides desc ! k = (if c k then 0 else strides (CopyDimsToDesc e) ! k)"
      "\<And>k. k < length e \<Longrightarrow> if c k then e ! k = 1 else e ! k = 1 \<longrightarrow> eo ! k = 1"
  shows "in_shape e (stretch e is) \<and> SubscriptToIndex desc is = flat_index e (stretch e is) 0"
proof
  have n: "length is = length e" "\<And>k. k < length e \<Longrightarrow> 0 \<le> is ! k \<and> is ! k < eo ! k" using i e(1) by (simp_all add: in_shape_nth)
  have "0 < e ! k" if "k < length e" for k using e(1) e(2) [of k] n(2) [of k] that by auto
  then have pos: "\<forall>d\<in>set e. 0 < d" by (simp add: all_set_conv_all_nth)
  have s: "0 \<le> stretch e is ! k \<and> stretch e is ! k < e ! k" if "k < length e" for k
    using e(1) e(2) [of k] n(2) [of k] n(1) that by auto
  have l: "length (stretch e is) = length e" using n(1) by (simp add: stretch_def)
  then show sh: "in_shape e (stretch e is)" using s by (simp add: in_shape_nth)
  have "is ! k * strides desc ! k = stretch e is ! k * prod_list (drop (Suc k) e)" if k: "k < length e" for k
  proof (cases "c k")
    case False
    then have "e ! k = 1 \<Longrightarrow> is ! k = 0" using st(3) [OF k] n(2) [OF k] by simp
    then show ?thesis using st(2) [OF k] False strides_nth [OF k pos e(3)] n(1) k by auto
  qed (use st(2,3) [OF k] n(1) k in simp)
  then have "(\<Sum>k<length e. is ! k * strides desc ! k) = flat_index e (stretch e is) 0" using l by (simp add: flat_index_sum)
  moreover have "in_i32 (flat_index e (stretch e is) 0)" using flat_index_bounds [OF sh, of 0] e(3) by (simp add: in_i32_def)
  ultimately show "SubscriptToIndex desc is = flat_index e (stretch e is) 0"
    using SubscriptToIndex_sum [of "is" desc] n(1) st(1) by simp
qed

lemma broadcast_dims:
  assumes "CalculateShapeForBroadcast shape0 shape1 = (kTfLiteOk, Some shape)"
    and "ExtendedShape n shape0 = Some e0" "ExtendedShape n shape1 = Some e1" "ExtendedShape n shape = Some e"
    and "\<forall>d\<in>set shape0 \<union> set shape1. 0 \<le> d" and "k < n"
  shows "(e0 ! k = 1 \<or> e1 ! k = 1 \<or> e0 ! k = e1 ! k) \<and> e ! k = (if e0 ! k = 1 then e1 ! k else e0 ! k)"
  using broadcast_shape(2) [OF assms(1), of "n - 1 - k"] broadcast_dim_rule [of "e0 ! k" "e1 ! k"]
    extended_shape(2) [OF assms(2,6)] extended_shape(2) [OF assms(3,6)] extended_shape(2) [OF assms(4,6)] assms(5)
  by (auto simp: dim_from_back_nonneg split: if_splits)

lemma broadcast_reads:
  assumes b: "CalculateShapeForBroadcast shape0 shape1 = (kTfLiteOk, Some shape)"
    and ex: "ExtendedShape n shape0 = Some e0" "ExtendedShape n shape1 = Some e1" "ExtendedShape n shape = Some e"
    and nn: "\<forall>d\<in>set shape0 \<union> set shape1. 0 \<le> d" and pr: "prod_list shape0 \<le> i32_max" "prod_list shape1 \<le> i32_max"
    and d: "NdArrayDescsForElementwiseBroadcast n shape0 shape1 = Some (desc0, desc1)" and i: "in_shape e is"
  shows "in_shape e0 (stretch e0 is) \<and> SubscriptToIndex desc0 is = flat_index e0 (stretch e0 is) 0"
    and "in_shape e1 (stretch e1 is) \<and> SubscriptToIndex desc1 is = flat_index e1 (stretch e1 is) 0"
proof -
  note l = extended_shape(1) [OF ex(1)] extended_shape(1) [OF ex(2)] extended_shape(1) [OF ex(3)]
  have pe: "prod_list e0 \<le> i32_max" "prod_list e1 \<le> i32_max" using extended_shape(3) [OF ex(1)] extended_shape(3) [OF ex(2)] pr by simp_all
  note dims = broadcast_dims [OF b ex nn]
  have s: "length (strides desc0) = n" "length (strides desc1) = n"
    "\<And>k. k < n \<Longrightarrow> strides desc0 ! k = (if e0 ! k \<noteq> e1 ! k \<and> e0 ! k = 1 then 0 else strides (CopyDimsToDesc e0) ! k)"
    "\<And>k. k < n \<Longrightarrow> strides desc1 ! k = (if e0 ! k \<noteq> e1 ! k \<and> e0 ! k \<noteq> 1 then 0 else strides (CopyDimsToDesc e1) ! k)"
    using d by (auto simp: NdArrayDescsForElementwiseBroadcast_def ex Let_def broadcast_extent_def)
  show "in_shape e0 (stretch e0 is) \<and> SubscriptToIndex desc0 is = flat_index e0 (stretch e0 is) 0"
    by (rule stretched_index [OF i, where c = "\<lambda>k. e0 ! k \<noteq> e1 ! k \<and> e0 ! k = 1"]) (use l pe s dims in auto)
  show "in_shape e1 (stretch e1 is) \<and> SubscriptToIndex desc1 is = flat_index e1 (stretch e1 is) 0"
    by (rule stretched_index [OF i, where c = "\<lambda>k. e0 ! k \<noteq> e1 ! k \<and> e0 ! k \<noteq> 1"]) (use l pe s dims in \<open>auto, metis\<close>)
qed

section \<open>Elementwise functions\<close>

lemma broadcast_row_loop:
  "bind_step (loop (broadcast_row data1 data2 func j s1 s2) [a..b] (out, wrap_i32 (i1 + s1 * a), wrap_i32 (i2 + s2 * a))) (\<lambda>s. Inr (fst s)) =
   loop (\<lambda>c out. bind_step (rd data1 (wrap_i32 (i1 + s1 * c))) (\<lambda>u. bind_step (rd data2 (wrap_i32 (i2 + s2 * c)))
     (\<lambda>v. wr (wrap_i32 (j + c)) (func u v) out))) [a..b] out"
proof (induction "nat (b - a + 1)" arbitrary: a out)
  case 0
  then show ?case by simp
next
  case (Suc n)
  have ab: "a \<le> b" "n = nat (b - (a + 1) + 1)" using Suc.hyps(2) by linarith+
  have w: "wrap_i32 (i + s * a + s) = wrap_i32 (i + s * (a + 1))" for i s by (simp add: algebra_simps)
  show ?case
  proof (cases "rd data1 (wrap_i32 (i1 + s1 * a))"; cases "rd data2 (wrap_i32 (i2 + s2 * a))")
    fix u v assume uv: "rd data1 (wrap_i32 (i1 + s1 * a)) = Inr u" "rd data2 (wrap_i32 (i2 + s2 * a)) = Inr v"
    then show ?case using Suc.hyps(1) [OF ab(2)] unfolding upto_rec1 [OF ab(1)]
      by (cases "wr (wrap_i32 (j + a)) (func u v) out") (simp_all add: broadcast_row_def w)
  qed (simp_all add: upto_rec1 [OF ab(1)] broadcast_row_def)
qed

lemma loop_product4:
  "loop (\<lambda>b. loop (\<lambda>y. loop (\<lambda>x. loop (f b y x) zs) ys) xs) ws s =
   loop (\<lambda>(b, y, x, c). f b y x c) (List.product ws (List.product xs (List.product ys zs))) s"
proof -
  have "loop (\<lambda>x. loop (f b y x) zs) ys = loop (\<lambda>(x, c). f b y x c) (List.product ys zs)" for b y
    by (rule ext) (rule loop_product)
  moreover have "loop (\<lambda>y. loop (\<lambda>(x, c). f b y x c) (List.product ys zs)) xs =
      loop (\<lambda>(y, x, c). f b y x c) (List.product xs (List.product ys zs))" for b
    by (rule ext) (rule loop_product)
  ultimately show ?thesis using loop_product [of "\<lambda>b (y, x, c). f b y x c" "List.product xs (List.product ys zs)" ws s] by simp
qed

lemma set_upto0 [simp]: "set (upto0 n) = {0..<n}"
  by (auto simp: upto0_def)

lemma rd_inside: "0 \<le> i \<Longrightarrow> i < int (length xs) \<Longrightarrow> rd xs i = Inr (xs ! nat i)"
  by (simp add: rd_def nat_less_iff)

lemma wr_inside: "0 \<le> i \<Longrightarrow> i < int (length xs) \<Longrightarrow> wr i v xs = Inr (xs[nat i := v])"
  by (simp add: wr_def nat_less_iff)

lemma list4: "length ds = 4 \<Longrightarrow> \<exists>a b c d. ds = [a, b, c, d]"
  by (auto simp: length_Suc_conv eval_nat_numeral)

text \<open>The nested loops with indices computed once are a loop over index vectors.\<close>

lemma broadcast_as_loop:
  assumes "ExtendedShape 4 shape = Some [d0, d1, d2, d3]" and "NdArrayDescsForElementwiseBroadcast 4 shape1 shape2 = Some (desc1, desc2)"
    and "length (strides desc1) = 4" "length (strides desc2) = 4"
  shows "BroadcastBinaryFunction4DSlow shape1 data1 shape2 data2 shape func out = Some (loop (\<lambda>(b, y, x, c) out.
      bind_step (rd data1 (SubscriptToIndex desc1 [b, y, x, c])) (\<lambda>u. bind_step (rd data2 (SubscriptToIndex desc2 [b, y, x, c]))
        (\<lambda>v. wr (Offset [d0, d1, d2, d3] b y x c) (func u v) out)))
      (List.product (upto0 d0) (List.product (upto0 d1) (List.product (upto0 d2) (upto0 d3)))) out)"
proof -
  obtain p0 p1 p2 p3 q0 q1 q2 q3 where s: "strides desc1 = [p0, p1, p2, p3]" "strides desc2 = [q0, q1, q2, q3]"
    using list4 [OF assms(3)] list4 [OF assms(4)] by blast
  have sub: "SubscriptToIndex desc1 [b, y, x, c] = wrap_i32 (p0 * b + p1 * y + p2 * x + p3 * c)"
    "SubscriptToIndex desc2 [b, y, x, c] = wrap_i32 (q0 * b + q1 * y + q2 * x + q3 * c)" for b y x c
    by (simp_all add: SubscriptToIndex_def s algebra_simps)
  have off: "Offset [d0, d1, d2, d3] b y x c = wrap_i32 (((b * d1 + y) * d2 + x) * d3 + c)" for b y x c
    by (simp add: Offset_def)
  have m: "wrap_i32 ((wrap_i32 a + b) * c) = wrap_i32 ((a + b) * c)" for a b c by (metis wrap_i32_simps(1,3))
  have row: "bind_step (loop (broadcast_row data1 data2 func (wrap_i32 (((b * d1 + y) * d2 + x) * d3)) p3 q3) (upto0 d3)
      (out, wrap_i32 (p0 * b + p1 * y + p2 * x), wrap_i32 (q0 * b + q1 * y + q2 * x))) (\<lambda>s. Inr (fst s)) =
    loop (\<lambda>c out. bind_step (rd data1 (SubscriptToIndex desc1 [b, y, x, c])) (\<lambda>u. bind_step (rd data2 (SubscriptToIndex desc2 [b, y, x, c]))
        (\<lambda>v. wr (Offset [d0, d1, d2, d3] b y x c) (func u v) out))) (upto0 d3) out" for b y x out
    using broadcast_row_loop [of data1 data2 func "wrap_i32 (((b * d1 + y) * d2 + x) * d3)" p3 q3 0 "d3 - 1" out
        "p0 * b + p1 * y + p2 * x" "q0 * b + q1 * y + q2 * x"]
    by (simp add: sub off upto0_def)
  show ?thesis
    unfolding BroadcastBinaryFunction4DSlow_def assms(1,2) prod.case option.case Let_def s loop_product4 [symmetric]
    by (simp add: m row)
qed

text \<open>A loop over the four dimensions of an output that computes one element at a time.\<close>

lemma output_loop:
  fixes out :: "'c list"
  assumes "d0 * d1 * d2 * d3 \<le> i32_max" and "int (length out) = d0 * d1 * d2 * d3"
    and "\<And>b y x c out :: 'c list. in_shape [d0, d1, d2, d3] [b, y, x, c] \<Longrightarrow> 
      f b y x c out = wr (Offset [d0, d1, d2, d3] b y x c) (v [b, y, x, c]) out"
  shows "\<exists>res. loop (\<lambda>(b, y, x, c). f b y x c) (List.product (upto0 d0) (List.product (upto0 d1) (List.product (upto0 d2) (upto0 d3)))) out = Inr res \<and>
    length res = length out \<and> (\<forall>i. in_shape [d0, d1, d2, d3] i \<longrightarrow> res ! nat (flat_index [d0, d1, d2, d3] i 0) = v i)"
proof -
  let ?xs = "List.product (upto0 d0) (List.product (upto0 d1) (List.product (upto0 d2) (upto0 d3)))"
  let ?g = "\<lambda>(b, y, x, c). Offset [d0, d1, d2, d3] b y x c" and ?v = "\<lambda>(b, y, x, c). v [b, y, x, c]"
  have xs: "(b, y, x, c) \<in> set ?xs \<longleftrightarrow> in_shape [d0, d1, d2, d3] [b, y, x, c]" for b y x c by auto
  have off: "Offset [d0, d1, d2, d3] b y x c = flat_index [d0, d1, d2, d3] [b, y, x, c] 0" "0 \<le> Offset [d0, d1, d2, d3] b y x c"
    "Offset [d0, d1, d2, d3] b y x c < int (length out)" if s: "in_shape [d0, d1, d2, d3] [b, y, x, c]" for b y x c
    using flat_index_bounds [OF s, of 0] Offset_flat_index [OF s assms(1)] assms(2) by (simp_all add: mult.assoc)
  have "\<exists>res. loop (\<lambda>(b, y, x, c). f b y x c) ?xs out = Inr res \<and> length res = length out \<and> (\<forall>i\<in>set ?xs. res ! nat (?g i) = ?v i) \<and>
      (\<forall>k<length out. int k \<notin> ?g ` set ?xs \<longrightarrow> res ! k = out ! k)"
  proof (rule loop_writes)
    fix i and out' :: "'c list" assume i: "i \<in> set ?xs" and l: "length out' = length out"
    obtain b y x c where bx: "i = (b, y, x, c)" by (cases i)
    with i have s: "in_shape [d0, d1, d2, d3] [b, y, x, c]" using xs by blast
    from off(2,3) [OF s] l show "(\<lambda>(b, y, x, c). f b y x c) i out' = Inr (out'[nat (?g i) := ?v i])"
      by (simp add: bx assms(3) [OF s] wr_inside)
  next
    fix i assume i: "i \<in> set ?xs"
    obtain b y x c where bx: "i = (b, y, x, c)" by (cases i)
    with i have s: "in_shape [d0, d1, d2, d3] [b, y, x, c]" using xs by blast
    from off(2,3) [OF s] show "0 \<le> ?g i \<and> ?g i < int (length out)" by (simp add: bx)
  next
    show "inj_on ?g (set ?xs)"
    proof (rule inj_onI)
      fix i j assume ij: "i \<in> set ?xs" "j \<in> set ?xs" "?g i = ?g j"
      obtain b y x c b' y' x' c' where [simp]: "i = (b, y, x, c)" "j = (b', y', x', c')" by (cases i; cases j)
      show "i = j" using ij flat_index_inj [of "[d0, d1, d2, d3]" "[b, y, x, c]" "[b', y', x', c']" 0 0] xs off(1)
        by (simp del: flat_index.simps set_product)
    qed
  qed simp
  then obtain res where res: "loop (\<lambda>(b, y, x, c). f b y x c) ?xs out = Inr res" "length res = length out" "\<forall>i\<in>set ?xs. res ! nat (?g i) = ?v i"
    by blast
  have "res ! nat (flat_index [d0, d1, d2, d3] i 0) = v i" if s: "in_shape [d0, d1, d2, d3] i" for i
  proof -
    obtain b y x c where i: "i = [b, y, x, c]" using s by auto
    then have "(b, y, x, c) \<in> set ?xs" using s xs by blast
    from bspec [OF res(3) this] show ?thesis using off(1) s i by simp
  qed
  with res show ?thesis by blast
qed

lemma descs_exist:
  assumes "ExtendedShape n shape1 = Some e1" "ExtendedShape n shape2 = Some e2"
  obtains desc1 desc2 where "NdArrayDescsForElementwiseBroadcast n shape1 shape2 = Some (desc1, desc2)"
    "length (strides desc1) = n" "length (strides desc2) = n"
  using assms by (simp add: NdArrayDescsForElementwiseBroadcast_def Let_def)

text \<open>
  Claim C36. A function of two tensors with broadcasting: when the shapes fit, all reads and writes are inside of the arrays, and the element
  of the result at an index is the function of the two elements at that index, dimensions of 1 being stretched.
\<close>

theorem broadcast_function_correct:
  fixes out :: "'c list"
  assumes b: "CalculateShapeForBroadcast shape1 shape2 = (kTfLiteOk, Some shape)"
    and e: "ExtendedShape 4 shape1 = Some e1" "ExtendedShape 4 shape2 = Some e2" "ExtendedShape 4 shape = Some e"
    and nn: "\<forall>d\<in>set shape1 \<union> set shape2. 0 \<le> d"
    and pr: "prod_list shape1 \<le> i32_max" "prod_list shape2 \<le> i32_max" "prod_list shape \<le> i32_max"
    and len: "int (length data1) = prod_list shape1" "int (length data2) = prod_list shape2" "int (length out) = prod_list shape"
  shows "\<exists>res. BroadcastBinaryFunction4DSlow shape1 data1 shape2 data2 shape func out = Some (Inr res) \<and> length res = length out \<and>
    (\<forall>i. in_shape e i \<longrightarrow> res ! nat (flat_index e i 0) =
      func (data1 ! nat (flat_index e1 (stretch e1 i) 0)) (data2 ! nat (flat_index e2 (stretch e2 i) 0)))"
proof -
  obtain d0 d1 d2 d3 where d: "e = [d0, d1, d2, d3]" using list4 [OF extended_shape(1) [OF e(3)]] by blast
  obtain desc1 desc2 where desc: "NdArrayDescsForElementwiseBroadcast 4 shape1 shape2 = Some (desc1, desc2)"
    "length (strides desc1) = 4" "length (strides desc2) = 4" using descs_exist [OF e(1,2)] by blast
  note p = extended_shape(3) [OF e(1)] extended_shape(3) [OF e(2)] extended_shape(3) [OF e(3)]
  let ?f = "\<lambda>b y x c (out :: 'c list).
      bind_step (rd data1 (SubscriptToIndex desc1 [b, y, x, c])) (\<lambda>u. bind_step (rd data2 (SubscriptToIndex desc2 [b, y, x, c]))
        (\<lambda>v. wr (Offset [d0, d1, d2, d3] b y x c) (func u v) out))"
  let ?v = "\<lambda>i. func (data1 ! nat (flat_index e1 (stretch e1 i) 0)) (data2 ! nat (flat_index e2 (stretch e2 i) 0))"
  have "?f b y x c out = wr (Offset [d0, d1, d2, d3] b y x c) (?v [b, y, x, c]) out" if s: "in_shape [d0, d1, d2, d3] [b, y, x, c]" for b y x c out
  proof -
    note r = broadcast_reads [OF assms(1-7) desc(1) s [folded d]]
    have "0 \<le> flat_index e1 (stretch e1 [b, y, x, c]) 0 \<and> flat_index e1 (stretch e1 [b, y, x, c]) 0 < int (length data1)"
      "0 \<le> flat_index e2 (stretch e2 [b, y, x, c]) 0 \<and> flat_index e2 (stretch e2 [b, y, x, c]) 0 < int (length data2)"
      using r flat_index_bounds [of e1 _ 0] flat_index_bounds [of e2 _ 0] p len by simp_all
    with r show ?thesis by (simp add: rd_inside)
  qed
  from output_loop [of d0 d1 d2 d3 out ?f ?v, OF _ _ this] show ?thesis
    using p(3) pr(3) len(3) broadcast_as_loop [OF e(3) [unfolded d] desc, of data1 data2 func out] unfolding d
    by (simp add: mult.assoc del: flat_index.simps)
qed

theorem broadcast_function_correct_witness:
  "\<exists>res. BroadcastBinaryFunction4DSlow [2, 1] [1, 2 :: int] [3] [10, 20, 30] [2, 3] (+) [0, 0, 0, 0, 0, 0] = Some (Inr res) \<and>
     res ! 1 = 21 \<and> res ! 5 = 32"
proof -
  have b: "CalculateShapeForBroadcast [2, 1] [3] = (kTfLiteOk, Some [2, 3])"
    by (simp add: CalculateShapeForBroadcast_def shape_from_back_def broadcast_dim_def dim_from_back_def)
  have e: "ExtendedShape 4 [2, 1] = Some [1, 1, 2, 1]" "ExtendedShape 4 [3] = Some [1, 1, 1, 3]" "ExtendedShape 4 [2, 3] = Some [1, 1, 2, 3]"
    by (simp_all add: ExtendedShape_def numeral_eq_Suc)
  obtain res where "BroadcastBinaryFunction4DSlow [2, 1] [1, 2 :: int] [3] [10, 20, 30] [2, 3] (+) [0, 0, 0, 0, 0, 0] = Some (Inr res)"
    and r: "\<forall>i. in_shape [1, 1, 2, 3] i \<longrightarrow> res ! nat (flat_index [1, 1, 2, 3] i 0) =
      [1, 2] ! nat (flat_index [1, 1, 2, 1] (stretch [1, 1, 2, 1] i) 0) + [10, 20, 30] ! nat (flat_index [1, 1, 1, 3] (stretch [1, 1, 1, 3] i) 0)"
    using broadcast_function_correct [OF b e, of "[1, 2 :: int]" "[10, 20, 30]" "[0, 0, 0, 0, 0, 0]" "(+)"] by auto
  moreover have "res ! 1 = 21" using spec [OF r, of "[0, 0, 0, 1]"] by (simp add: stretch_def)
  moreover have "res ! 5 = 32" using spec [OF r, of "[0, 0, 1, 2]"] by (simp add: stretch_def)
  ultimately show ?thesis by blast
qed

text \<open>Without broadcasting the elements are taken in the order of memory.\<close>

lemma binary_function_correct:
  fixes out :: "'c list"
  assumes "\<forall>d\<in>set shape. 0 \<le> d" "prod_list shape \<le> i32_max"
    and "int (length data1) = prod_list shape" "int (length data2) = prod_list shape" "int (length out) = prod_list shape"
  shows "\<exists>res. BinaryFunction shape data1 data2 func out = Inr res \<and> length res = length out \<and>
    (\<forall>k<length out. res ! k = func (data1 ! k) (data2 ! k))"
proof -
  let ?f = "\<lambda>i out. bind_step (rd data1 i) (\<lambda>a. bind_step (rd data2 i) (\<lambda>b. wr i (func a b) (out :: 'c list)))"
  have n: "FlatSize shape = int (length out)" using FlatSize_exact prod_list_nonneg_int [OF assms(1)] assms(2,5) by simp
  have "\<exists>res. loop ?f (upto0 (FlatSize shape)) out = Inr res \<and> length res = length out \<and>
    (\<forall>i\<in>set (upto0 (FlatSize shape)). res ! nat i = func (data1 ! nat i) (data2 ! nat i)) \<and>
    (\<forall>k<length out. int k \<notin> (\<lambda>i. i) ` set (upto0 (FlatSize shape)) \<longrightarrow> res ! k = out ! k)"
    by (rule loop_writes) (use assms(3-5) n in \<open>auto simp: rd_inside wr_inside\<close>)
  then obtain res where r: "loop ?f (upto0 (FlatSize shape)) out = Inr res" "length res = length out"
    "\<forall>i\<in>{0..<int (length out)}. res ! nat i = func (data1 ! nat i) (data2 ! nat i)" by (auto simp: n)
  have "res ! k = func (data1 ! k) (data2 ! k)" if "k < length out" for k using bspec [OF r(3), of "int k"] that by simp
  with r show ?thesis by (auto simp: BinaryFunction_def)
qed

section \<open>Windows\<close>

lemma quot_int_pos: "0 \<le> a \<Longrightarrow> 0 < b \<Longrightarrow> quot_int a b = a div b"
  by (cases "a = 0") (simp_all add: quot_int_def)

lemma rem_int_pos: "0 \<le> a \<Longrightarrow> 0 < b \<Longrightarrow> rem_int a b = a mod b"
  by (simp add: rem_int_def quot_int_pos minus_div_mult_eq_mod)

lemma quot_int_neg: "a < b \<Longrightarrow> 0 < b \<Longrightarrow> quot_int a b \<le> 0"
proof -
  assume ab: "a < b" "0 < b"
  show "quot_int a b \<le> 0"
  proof (cases "0 \<le> a")
    case True
    then show ?thesis using ab by (simp add: quot_int_pos)
  next
    case False
    then show ?thesis using ab by (simp add: quot_int_def pos_imp_zdiv_nonneg_iff)
  qed
qed

lemma div_bounds: "0 < b \<Longrightarrow> a div b * b \<le> a \<and> a < (a div b + 1) * b" for a b :: int
proof -
  assume b: "0 < b"
  have "a div b * b + a mod b = a" "0 \<le> a mod b" "a mod b < b" using b by simp_all
  then show ?thesis unfolding distrib_right by linarith
qed

lemma ComputeOutSize_same:
  assumes "0 < stride" "0 < img" "img + stride \<le> i32_max" and n: "n = ComputeOutSize kTfLitePaddingSame img filter_size stride dilation"
  shows "(n - 1) * stride < img \<and> img \<le> n * stride"
proof -
  have "in_i32 (img + stride - 1)" using assms(1-3) by (simp add: in_i32_def)
  then have "n = (img + stride - 1) div stride" using assms(1,2) by (simp add: n ComputeOutSize_def quot_int_pos Let_def)
  then show ?thesis using div_bounds [OF assms(1), of "img + stride - 1"] by (simp add: algebra_simps)
qed

lemma ComputeOutSize_valid:
  assumes "0 < stride" "0 < img" "0 < eff" "img + stride + eff \<le> i32_max" and "eff = (filter_size - 1) * dilation + 1"
    and o: "n = ComputeOutSize kTfLitePaddingValid img filter_size stride dilation" and "0 < n"
  shows "(n - 1) * stride + eff \<le> img"
proof -
  have "in_i32 eff" "in_i32 (img + stride - eff)" using assms(1-4) by (simp_all add: in_i32_def)
  then have n: "n = quot_int (img + stride - eff) stride" using assms(1,5) by (simp add: o ComputeOutSize_def Let_def)
  have "\<not> img + stride - eff < stride" using quot_int_neg [of "img + stride - eff" stride] assms(1,7) n by linarith
  then have "n = (img + stride - eff) div stride" using n assms(1) by (simp add: quot_int_pos)
  then show ?thesis using div_bounds [OF assms(1), of "img + stride - eff"] by (simp add: algebra_simps)
qed

lemma ComputePaddingWithOffset_exact:
  assumes "0 < eff" "0 < img" "img + eff \<le> i32_max" "eff = (filter_size - 1) * dilation + 1" and "0 \<le> (n - 1) * stride" "(n - 1) * stride < img"
  shows "fst (ComputePaddingWithOffset stride dilation img filter_size n) = max 0 ((n - 1) * stride + eff - img) div 2"
proof -
  have "in_i32 eff" "in_i32 ((n - 1) * stride + eff - img)" using assms by (simp_all add: in_i32_def)
  then show ?thesis using assms(4)
    by (auto simp: ComputePaddingWithOffset_def Let_def quot_int_pos max_def)
qed

lemma windows:
  assumes "0 < stride" "0 < filter_size" "0 < dilation" "0 < img" "padding \<noteq> kTfLitePaddingUnknown"
    and eff: "eff = (filter_size - 1) * dilation + 1" and "img + stride + eff \<le> i32_max"
    and n: "n = ComputeOutSize padding img filter_size stride dilation"
    and pad: "pad = fst (ComputePaddingWithOffset stride dilation img filter_size n)"
  shows "(padding = kTfLitePaddingSame \<longrightarrow> (n - 1) * stride < img \<and> img \<le> n * stride) \<and>
    (\<forall>k. 0 \<le> k \<and> k < n \<longrightarrow> k * stride - pad < img \<and> 0 < k * stride - pad + eff \<and>
       (padding = kTfLitePaddingValid \<longrightarrow> pad = 0 \<and> k * stride + eff \<le> img))"
proof (intro conjI impI allI)
  have e: "0 < eff" using assms(2,3) by (simp add: eff add_nonneg_pos)
  assume "padding = kTfLitePaddingSame"
  with ComputeOutSize_same [OF assms(1,4), of n filter_size dilation] e assms(7) n show "(n - 1) * stride < img" "img \<le> n * stride" by simp_all
next
  have e: "0 < eff" using assms(2,3) by (simp add: eff add_nonneg_pos)
  fix k assume k: "0 \<le> k \<and> k < n"
  have same: "(n - 1) * stride < img" if "padding = kTfLitePaddingSame"
    using ComputeOutSize_same [OF assms(1,4), of n filter_size dilation] e assms(7) n that by simp
  have valid: "(n - 1) * stride + eff \<le> img" if "padding = kTfLitePaddingValid"
    using ComputeOutSize_valid [OF assms(1,4) e assms(7) eff, of n] k n that by simp
  have a: "(n - 1) * stride < img" using same valid e assms(5) by (cases padding) auto
  have ks: "0 \<le> (n - 1) * stride" "0 \<le> k * stride" "k * stride \<le> (n - 1) * stride" using k assms(1) by (simp_all add: mult_right_mono)
  have p: "pad = max 0 ((n - 1) * stride + eff - img) div 2"
    using ComputePaddingWithOffset_exact [OF e assms(4) _ eff ks(1) a] assms(1,7) pad by simp
  then have "0 \<le> pad" "pad \<le> max 0 ((n - 1) * stride + eff - img)" by simp_all
  then show "k * stride - pad < img" "0 < k * stride - pad + eff" using a ks e by linarith+
  assume v: "padding = kTfLitePaddingValid"
  show "pad = 0" using p valid [OF v] by simp
  show "k * stride + eff \<le> img" using valid [OF v] ks(3) by linarith
qed

text \<open>
  Windows over an image of one dimension, for sizes that do not overflow. With the padding \<open>SAME\<close> there are as many as strides needed to
  cover the image, with \<open>VALID\<close> as many as fit. In both cases every window has a point in the image, and with \<open>VALID\<close> it lies inside
  of the image and nothing is padded.
\<close>

lemma windows_meet_image:
  assumes "0 < stride" "0 < filter_size" "0 < dilation" "0 < img" "padding \<noteq> kTfLitePaddingUnknown"
    and "eff = (filter_size - 1) * dilation + 1" "img + stride + eff \<le> i32_max"
    and "n = ComputeOutSize padding img filter_size stride dilation"
    and "pad = fst (ComputePaddingWithOffset stride dilation img filter_size n)"
  shows "(padding = kTfLitePaddingSame \<longrightarrow> (n - 1) * stride < img \<and> img \<le> n * stride) \<and>
    (\<forall>k. 0 \<le> k \<and> k < n \<longrightarrow> k * stride - pad < img \<and> 0 < k * stride - pad + eff \<and>
       (padding = kTfLitePaddingValid \<longrightarrow> pad = 0 \<and> k * stride + eff \<le> img))"
  by (rule windows) (use assms in simp_all)

lemma windows_meet_image_witness:
  "ComputeOutSize kTfLitePaddingSame 49 10 2 1 = 25 \<and> (\<forall>k. 0 \<le> k \<and> k < 25 \<longrightarrow> k * 2 - 4 < (49 :: int) \<and> 0 < k * 2 - 4 + (10 :: int))"
proof -
  have n: "ComputeOutSize kTfLitePaddingSame 49 10 2 1 = 25" by (simp add: ComputeOutSize_def wrap_i32_def quot_int_def Let_def)
  have "fst (ComputePaddingWithOffset 2 1 49 10 25) = 4" by (simp add: ComputePaddingWithOffset_def wrap_i32_def quot_int_def Let_def)
  with windows_meet_image [of 2 10 1 49 kTfLitePaddingSame 10 25 4] n show ?thesis by simp
qed

end
