(* ===== verification/Kernels.thy ===== *)
theory Kernels
  imports Shapes
begin

text \<open>
  Reference kernels for quantized tensors of 8 bits (\<open>lite/kernels/internal/reference/integer_ops/pooling.h\<close>, \<open>conv.h\<close>,
  \<open>depthwise_conv.h\<close>, \<open>fully_connected.h\<close>, \<open>lite/kernels/internal/common.cc\<close>): pooling, convolutions with one multiplier per channel, and fully connected layers. Elements are
  integers; an \<open>int8_t\<close> is one between -128 and 127. The two functions of the library \<open>gemmlowp\<close> that scale an accumulator are a
  parameter.
\<close>

section \<open>Scaling\<close>

definition wrap_i8 :: "int \<Rightarrow> int" where
  "wrap_i8 i = (i + 128) mod 256 - 128"

definition wrap_i16 :: "int \<Rightarrow> int" where
  "wrap_i16 i = (i + 32768) mod 65536 - 32768"

definition int8 :: "int \<Rightarrow> bool" where
  "int8 i \<longleftrightarrow> -128 \<le> i \<and> i \<le> 127"

record gemmlowp =
  gl_SaturatingRoundingDoublingHighMul :: "int \<Rightarrow> int \<Rightarrow> int"
  gl_RoundingDivideByPOT :: "int \<Rightarrow> int \<Rightarrow> int"

definition MultiplyByQuantizedMultiplier :: "gemmlowp \<Rightarrow> int \<Rightarrow> int \<Rightarrow> int \<Rightarrow> int" where
  "MultiplyByQuantizedMultiplier G x quantized_multiplier shift =
     (let left_shift = (if shift > 0 then shift else 0); right_shift = (if shift > 0 then 0 else - shift)
      in gl_RoundingDivideByPOT G (gl_SaturatingRoundingDoublingHighMul G (wrap_i32 (x * wrap_i32 (2 ^ nat left_shift))) quantized_multiplier)
           right_shift)"

text \<open>The variant for accumulators of 64 bits; shifts to the right round down.\<close>

definition wrap_i64 :: "int \<Rightarrow> int" where
  "wrap_i64 i = (i + 9223372036854775808) mod 18446744073709551616 - 9223372036854775808"

definition MultiplyByQuantizedMultiplier64 :: "int \<Rightarrow> int \<Rightarrow> int \<Rightarrow> int" where
  "MultiplyByQuantizedMultiplier64 x quantized_multiplier shift =
     (let reduced_multiplier = (if quantized_multiplier < 2147418112 then wrap_i32 (quantized_multiplier + 32768) div 65536 else 32767);
          total_shift = 15 - shift;
          x = wrap_i64 (x * reduced_multiplier + 2 ^ nat (total_shift - 1))
      in wrap_i32 (x div 2 ^ nat total_shift))"

section \<open>Pooling\<close>

record PoolParams =
  pl_padding_width :: int
  pl_padding_height :: int
  pl_stride_height :: int
  pl_stride_width :: int
  pl_filter_height :: int
  pl_filter_width :: int
  pl_quantized_activation_min :: int
  pl_quantized_activation_max :: int

text \<open>The positions of a filter, in one dimension, that lie in the image.\<close>

definition filter_range :: "int \<Rightarrow> int \<Rightarrow> int \<Rightarrow> int list" where
  "filter_range in_origin filter_size input_size = [max 0 (- in_origin)..min filter_size (input_size - in_origin) - 1]"

definition average_element ::
    "PoolParams \<Rightarrow> RuntimeShape \<Rightarrow> int list \<Rightarrow> RuntimeShape \<Rightarrow> int \<Rightarrow> int \<Rightarrow> int \<Rightarrow> int \<Rightarrow> int list \<Rightarrow> stop + int list" where
  "average_element params input_shape input_data output_shape batch out_y out_x channel output_data =
     (let in_x_origin = wrap_i32 (out_x * pl_stride_width params - pl_padding_width params);
          in_y_origin = wrap_i32 (out_y * pl_stride_height params - pl_padding_height params)
      in bind_step
           (loop (\<lambda>filter_y. loop (\<lambda>filter_x (acc, filter_count).
                bind_step (rd input_data (Offset input_shape batch (wrap_i32 (in_y_origin + filter_y)) (wrap_i32 (in_x_origin + filter_x)) channel))
                  (\<lambda>v. Inr (wrap_i32 (acc + v), wrap_i32 (filter_count + 1))))
              (filter_range in_x_origin (pl_filter_width params) (input_shape ! 2)))
            (filter_range in_y_origin (pl_filter_height params) (input_shape ! 1)) (0, 0))
           (\<lambda>(acc, filter_count).
              if filter_count = 0 then Inl Returned
              else
                (let acc = (if acc > 0 then quot_int (wrap_i32 (acc + quot_int filter_count 2)) filter_count
                            else quot_int (wrap_i32 (acc - quot_int filter_count 2)) filter_count);
                     acc = max acc (pl_quantized_activation_min params);
                     acc = min acc (pl_quantized_activation_max params)
                 in wr (Offset output_shape batch out_y out_x channel) (wrap_i8 acc) output_data)))"

text \<open>\<open>Returned\<close> stands for the result \<open>false\<close>.\<close>

definition AveragePool :: "PoolParams \<Rightarrow> RuntimeShape \<Rightarrow> int list \<Rightarrow> RuntimeShape \<Rightarrow> int list \<Rightarrow> stop + int list" where
  "AveragePool params input_shape input_data output_shape =
     loop (\<lambda>batch. loop (\<lambda>out_y. loop (\<lambda>out_x. loop (\<lambda>channel.
         average_element params input_shape input_data output_shape batch out_y out_x channel)
       (upto0 (MatchingDim input_shape 3 output_shape 3))) (upto0 (output_shape ! 2))) (upto0 (output_shape ! 1)))
       (upto0 (MatchingDim input_shape 0 output_shape 0))"

definition max_element ::
    "PoolParams \<Rightarrow> RuntimeShape \<Rightarrow> int list \<Rightarrow> RuntimeShape \<Rightarrow> int \<Rightarrow> int \<Rightarrow> int \<Rightarrow> int \<Rightarrow> int list \<Rightarrow> stop + int list" where
  "max_element params input_shape input_data output_shape batch out_y out_x channel output_data =
     (let in_x_origin = wrap_i32 (out_x * pl_stride_width params - pl_padding_width params);
          in_y_origin = wrap_i32 (out_y * pl_stride_height params - pl_padding_height params)
      in bind_step
           (loop (\<lambda>filter_y. loop (\<lambda>filter_x m.
                bind_step (rd input_data (Offset input_shape batch (wrap_i32 (in_y_origin + filter_y)) (wrap_i32 (in_x_origin + filter_x)) channel))
                  (\<lambda>v. Inr (max m v)))
              (filter_range in_x_origin (pl_filter_width params) (input_shape ! 2)))
            (filter_range in_y_origin (pl_filter_height params) (input_shape ! 1)) (-128))
           (\<lambda>m. let m = max m (wrap_i8 (pl_quantized_activation_min params));
                   m = min m (wrap_i8 (pl_quantized_activation_max params))
               in wr (Offset output_shape batch out_y out_x channel) m output_data))"

definition MaxPool :: "PoolParams \<Rightarrow> RuntimeShape \<Rightarrow> int list \<Rightarrow> RuntimeShape \<Rightarrow> int list \<Rightarrow> stop + int list" where
  "MaxPool params input_shape input_data output_shape =
     loop (\<lambda>batch. loop (\<lambda>out_y. loop (\<lambda>out_x. loop (\<lambda>channel.
         max_element params input_shape input_data output_shape batch out_y out_x channel)
       (upto0 (MatchingDim input_shape 3 output_shape 3))) (upto0 (output_shape ! 2))) (upto0 (output_shape ! 1)))
       (upto0 (MatchingDim input_shape 0 output_shape 0))"

text \<open>
  Preparing and evaluating a pooling operator on an input of four dimensions: the strides are checked, the padding and the shape of the output
  are computed, and the padding is stored in 16 bits.
\<close>

record TfLitePoolParams =
  tp_padding :: TfLitePadding
  tp_stride_width :: int
  tp_stride_height :: int
  tp_filter_width :: int
  tp_filter_height :: int

definition pool_prepare :: "TfLitePoolParams \<Rightarrow> int list \<Rightarrow> (TfLitePaddingValues \<times> RuntimeShape) option" where
  "pool_prepare params dims =
     (if length dims \<noteq> 4 then None
      else if \<not> tp_stride_height params > 0 then None
      else if \<not> tp_stride_width params > 0 then None
      else (case ComputePaddingHeightWidth (tp_stride_height params) (tp_stride_width params) 1 1 (dims ! 1) (dims ! 2)
                   (tp_filter_height params) (tp_filter_width params) (tp_padding params) of
          (padding, out_height, out_width) \<Rightarrow> Some (padding, [dims ! 0, out_height, out_width, dims ! 3])))"

definition pool_op_params :: "TfLitePoolParams \<Rightarrow> TfLitePaddingValues \<Rightarrow> int \<Rightarrow> int \<Rightarrow> PoolParams" where
  "pool_op_params params padding activation_min activation_max =
     \<lparr>pl_padding_width = wrap_i16 (pv_width padding), pl_padding_height = wrap_i16 (pv_height padding),
      pl_stride_height = tp_stride_height params, pl_stride_width = tp_stride_width params,
      pl_filter_height = tp_filter_height params, pl_filter_width = tp_filter_width params,
      pl_quantized_activation_min = activation_min, pl_quantized_activation_max = activation_max\<rparr>"

section \<open>Convolution\<close>

record ConvParams =
  cv_padding_width :: int
  cv_padding_height :: int
  cv_stride_width :: int
  cv_stride_height :: int
  cv_dilation_width_factor :: int
  cv_dilation_height_factor :: int
  cv_input_offset :: int
  cv_output_offset :: int
  cv_quantized_activation_min :: int
  cv_quantized_activation_max :: int

text \<open>The sum of products of one output element.\<close>

definition conv_accumulate ::
    "ConvParams \<Rightarrow> RuntimeShape \<Rightarrow> int list \<Rightarrow> RuntimeShape \<Rightarrow> int list \<Rightarrow> int \<Rightarrow> int \<Rightarrow> int \<Rightarrow> int \<Rightarrow> int \<Rightarrow> stop + int" where
  "conv_accumulate params input_shape input_data filter_shape filter_data filters_per_group batch out_y out_x out_channel =
     (let in_y_origin = wrap_i32 (out_y * cv_stride_height params - cv_padding_height params);
          in_x_origin = wrap_i32 (out_x * cv_stride_width params - cv_padding_width params);
          filter_input_depth = filter_shape ! 3;
          group = quot_int out_channel filters_per_group
      in loop (\<lambda>filter_y. loop (\<lambda>filter_x acc.
           (let in_y = wrap_i32 (in_y_origin + cv_dilation_height_factor params * filter_y);
                in_x = wrap_i32 (in_x_origin + cv_dilation_width_factor params * filter_x)
            in if \<not> (in_x \<ge> 0 \<and> in_x < input_shape ! 2 \<and> in_y \<ge> 0 \<and> in_y < input_shape ! 1) then Inr acc
               else loop (\<lambda>in_channel acc.
                   bind_step (rd input_data (Offset input_shape batch in_y in_x (wrap_i32 (in_channel + group * filter_input_depth)))) (\<lambda>input_val.
                   bind_step (rd filter_data (Offset filter_shape out_channel filter_y filter_x in_channel)) (\<lambda>filter_val.
                   Inr (wrap_i32 (acc + filter_val * (input_val + cv_input_offset params))))))
                 (upto0 filter_input_depth) acc))
           (upto0 (filter_shape ! 2))) (upto0 (filter_shape ! 1)) 0)"

definition conv_element ::
    "gemmlowp \<Rightarrow> ConvParams \<Rightarrow> int list \<Rightarrow> int list \<Rightarrow> RuntimeShape \<Rightarrow> int list \<Rightarrow> RuntimeShape \<Rightarrow> int list \<Rightarrow> int list option \<Rightarrow> RuntimeShape \<Rightarrow>
     int \<Rightarrow> int \<Rightarrow> int \<Rightarrow> int \<Rightarrow> int \<Rightarrow> int list \<Rightarrow> stop + int list" where
  "conv_element G params output_multiplier output_shift input_shape input_data filter_shape filter_data bias_data output_shape
      filters_per_group batch out_y out_x out_channel output_data =
     bind_step (conv_accumulate params input_shape input_data filter_shape filter_data filters_per_group batch out_y out_x out_channel) (\<lambda>acc.
     bind_step (case bias_data of None \<Rightarrow> Inr acc | Some bias \<Rightarrow> bind_step (rd bias out_channel) (\<lambda>b. Inr (wrap_i32 (acc + b)))) (\<lambda>acc.
     bind_step (rd output_multiplier out_channel) (\<lambda>multiplier.
     bind_step (rd output_shift out_channel) (\<lambda>shift.
       let acc = wrap_i32 (MultiplyByQuantizedMultiplier G acc multiplier shift + cv_output_offset params);
           acc = max acc (cv_quantized_activation_min params);
           acc = min acc (cv_quantized_activation_max params)
       in wr (Offset output_shape batch out_y out_x out_channel) (wrap_i8 acc) output_data))))"

definition ConvPerChannel ::
    "gemmlowp \<Rightarrow> ConvParams \<Rightarrow> int list \<Rightarrow> int list \<Rightarrow> RuntimeShape \<Rightarrow> int list \<Rightarrow> RuntimeShape \<Rightarrow> int list \<Rightarrow> int list option \<Rightarrow> RuntimeShape \<Rightarrow>
     int list \<Rightarrow> stop + int list" where
  "ConvPerChannel G params output_multiplier output_shift input_shape input_data filter_shape filter_data bias_data output_shape =
     (let output_depth = MatchingDim filter_shape 0 output_shape 3;
          groups = quot_int (input_shape ! 3) (filter_shape ! 3);
          filters_per_group = quot_int output_depth groups
      in loop (\<lambda>batch. loop (\<lambda>out_y. loop (\<lambda>out_x. loop (\<lambda>out_channel.
           conv_element G params output_multiplier output_shift input_shape input_data filter_shape filter_data bias_data output_shape
             filters_per_group batch out_y out_x out_channel)
           (upto0 output_depth)) (upto0 (output_shape ! 2))) (upto0 (output_shape ! 1))) (upto0 (MatchingDim input_shape 0 output_shape 0)))"

section \<open>Depthwise convolution\<close>

record DepthwiseParams =
  dw_padding_width :: int
  dw_padding_height :: int
  dw_stride_width :: int
  dw_stride_height :: int
  dw_dilation_width_factor :: int
  dw_dilation_height_factor :: int
  dw_depth_multiplier :: int
  dw_input_offset :: int
  dw_output_offset :: int
  dw_quantized_activation_min :: int
  dw_quantized_activation_max :: int

definition depthwise_accumulate ::
    "DepthwiseParams \<Rightarrow> RuntimeShape \<Rightarrow> int list \<Rightarrow> RuntimeShape \<Rightarrow> int list \<Rightarrow> int \<Rightarrow> int \<Rightarrow> int \<Rightarrow> int \<Rightarrow> int \<Rightarrow> stop + int" where
  "depthwise_accumulate params input_shape input_data filter_shape filter_data batch out_y out_x in_channel output_channel =
     (let in_x_origin = wrap_i32 (out_x * dw_stride_width params - dw_padding_width params);
          in_y_origin = wrap_i32 (out_y * dw_stride_height params - dw_padding_height params)
      in loop (\<lambda>filter_y. loop (\<lambda>filter_x acc.
           (let in_x = wrap_i32 (in_x_origin + dw_dilation_width_factor params * filter_x);
                in_y = wrap_i32 (in_y_origin + dw_dilation_height_factor params * filter_y)
            in if in_x \<ge> 0 \<and> in_x < input_shape ! 2 \<and> in_y \<ge> 0 \<and> in_y < input_shape ! 1
               then bind_step (rd input_data (Offset input_shape batch in_y in_x in_channel)) (\<lambda>input_val.
                    bind_step (rd filter_data (Offset filter_shape 0 filter_y filter_x output_channel)) (\<lambda>filter_val.
                    Inr (wrap_i32 (acc + filter_val * (input_val + dw_input_offset params)))))
               else Inr acc))
           (upto0 (filter_shape ! 2))) (upto0 (filter_shape ! 1)) 0)"

definition depthwise_element ::
    "gemmlowp \<Rightarrow> DepthwiseParams \<Rightarrow> int list \<Rightarrow> int list \<Rightarrow> RuntimeShape \<Rightarrow> int list \<Rightarrow> RuntimeShape \<Rightarrow> int list \<Rightarrow> int list option \<Rightarrow> RuntimeShape \<Rightarrow>
     int \<Rightarrow> int \<Rightarrow> int \<Rightarrow> int \<Rightarrow> int \<Rightarrow> int list \<Rightarrow> stop + int list" where
  "depthwise_element G params output_multiplier output_shift input_shape input_data filter_shape filter_data bias_data output_shape
      batch out_y out_x in_channel m output_data =
     (let output_channel = wrap_i32 (m + in_channel * dw_depth_multiplier params) in
      bind_step (depthwise_accumulate params input_shape input_data filter_shape filter_data batch out_y out_x in_channel output_channel) (\<lambda>acc.
      bind_step (case bias_data of None \<Rightarrow> Inr acc | Some bias \<Rightarrow> bind_step (rd bias output_channel) (\<lambda>b. Inr (wrap_i32 (acc + b)))) (\<lambda>acc.
      bind_step (rd output_multiplier output_channel) (\<lambda>multiplier.
      bind_step (rd output_shift output_channel) (\<lambda>shift.
        let acc = wrap_i32 (MultiplyByQuantizedMultiplier G acc multiplier shift + dw_output_offset params);
            acc = max acc (dw_quantized_activation_min params);
            acc = min acc (dw_quantized_activation_max params)
        in wr (Offset output_shape batch out_y out_x output_channel) (wrap_i8 acc) output_data)))))"

definition DepthwiseConvPerChannel ::
    "gemmlowp \<Rightarrow> DepthwiseParams \<Rightarrow> int list \<Rightarrow> int list \<Rightarrow> RuntimeShape \<Rightarrow> int list \<Rightarrow> RuntimeShape \<Rightarrow> int list \<Rightarrow> int list option \<Rightarrow> RuntimeShape \<Rightarrow>
     int list \<Rightarrow> stop + int list" where
  "DepthwiseConvPerChannel G params output_multiplier output_shift input_shape input_data filter_shape filter_data bias_data output_shape =
     loop (\<lambda>batch. loop (\<lambda>out_y. loop (\<lambda>out_x. loop (\<lambda>in_channel. loop (\<lambda>m.
         depthwise_element G params output_multiplier output_shift input_shape input_data filter_shape filter_data bias_data output_shape
           batch out_y out_x in_channel m)
         (upto0 (dw_depth_multiplier params))) (upto0 (input_shape ! 3))) (upto0 (output_shape ! 2))) (upto0 (output_shape ! 1)))
       (upto0 (MatchingDim input_shape 0 output_shape 0))"

section \<open>Fully connected layers\<close>

record FullyConnectedParams =
  fc_input_offset :: int
  fc_output_offset :: int
  fc_quantized_activation_min :: int
  fc_quantized_activation_max :: int

definition dot_product :: "int \<Rightarrow> int list \<Rightarrow> int list \<Rightarrow> int \<Rightarrow> int \<Rightarrow> int \<Rightarrow> stop + int" where
  "dot_product input_offset input_data filter_data accum_depth b out_c =
     loop (\<lambda>d acc.
       bind_step (rd input_data (wrap_i32 (b * accum_depth + d))) (\<lambda>input_val.
       bind_step (rd filter_data (wrap_i32 (out_c * accum_depth + d))) (\<lambda>filter_val.
       Inr (wrap_i32 (acc + filter_val * (input_val + input_offset))))))
     (upto0 accum_depth) 0"

definition fully_connected_element ::
    "gemmlowp \<Rightarrow> FullyConnectedParams \<Rightarrow> int list \<Rightarrow> int list \<Rightarrow> int list \<Rightarrow> int list \<Rightarrow> int list option \<Rightarrow> int \<Rightarrow> int \<Rightarrow>
     int \<Rightarrow> int \<Rightarrow> int list \<Rightarrow> stop + int list" where
  "fully_connected_element G params output_multiplier output_shift input_data filter_data bias_data accum_depth output_depth
      b out_c output_data =
     bind_step (dot_product (fc_input_offset params) input_data filter_data accum_depth b out_c) (\<lambda>acc.
     bind_step (case bias_data of None \<Rightarrow> Inr acc | Some bias \<Rightarrow> bind_step (rd bias out_c) (\<lambda>b. Inr (wrap_i32 (acc + b)))) (\<lambda>acc.
     bind_step (rd output_multiplier out_c) (\<lambda>multiplier.
     bind_step (rd output_shift out_c) (\<lambda>shift.
       let acc_scaled = wrap_i32 (MultiplyByQuantizedMultiplier G acc multiplier shift + fc_output_offset params);
           acc_scaled = max acc_scaled (fc_quantized_activation_min params);
           acc_scaled = min acc_scaled (fc_quantized_activation_max params)
       in wr (wrap_i32 (out_c + output_depth * b)) (wrap_i8 acc_scaled) output_data))))"

definition FullyConnectedPerChannel ::
    "gemmlowp \<Rightarrow> FullyConnectedParams \<Rightarrow> int list \<Rightarrow> int list \<Rightarrow> int list \<Rightarrow> RuntimeShape \<Rightarrow> int list \<Rightarrow> int list option \<Rightarrow> RuntimeShape \<Rightarrow>
     int list \<Rightarrow> stop + int list" where
  "FullyConnectedPerChannel G params output_multiplier output_shift input_data filter_shape filter_data bias_data output_shape =
     (let batches = FlatSizeSkipDim output_shape (length output_shape - 1);
          output_depth = last output_shape; accum_depth = last filter_shape
      in loop (\<lambda>b. loop (\<lambda>out_c.
           fully_connected_element G params output_multiplier output_shift input_data filter_data bias_data accum_depth output_depth b out_c)
           (upto0 output_depth)) (upto0 batches))"

section \<open>Loops that compute a value\<close>

lemma loop_fold: "(\<And>x s. x \<in> set xs \<Longrightarrow> f x s = Inr (h x s)) \<Longrightarrow> loop f xs s = Inr (fold h xs s)"
  by (induction xs arbitrary: s) simp_all

lemma fold_sum: "fold (\<lambda>x acc. wrap_i32 (acc + v x)) xs (wrap_i32 a) = wrap_i32 (a + sum_list (map v xs))"
  by (induction xs arbitrary: a) (simp_all add: add.assoc)

lemma fold_sum_count:
  "fold (\<lambda>x (acc, n). (wrap_i32 (acc + v x), wrap_i32 (n + 1))) xs (wrap_i32 a, wrap_i32 n) =
    (wrap_i32 (a + sum_list (map v xs)), wrap_i32 (n + int (length xs)))"
  by (induction xs arbitrary: a n) (simp_all add: ac_simps)

lemma wrap_i32_0 [simp]: "wrap_i32 0 = 0"
  by (simp add: in_i32_def)

lemma fold_max: "fold (\<lambda>x m. max m (v x)) xs m = Max (insert m (v ` set xs))" for m :: "'a :: linorder"
proof (induction xs arbitrary: m)
  case (Cons x xs)
  have "Max (insert (max m (v x)) (v ` set xs)) = Max (insert m (insert (v x) (v ` set xs)))"
    by (cases "v ` set xs = {}") (simp_all add: Max_insert max.assoc)
  with Cons show ?case by simp
qed simp

lemma sum_list_bound: "\<forall>x\<in>set xs. \<bar>v x\<bar> \<le> k \<Longrightarrow> \<bar>sum_list (map v xs)\<bar> \<le> k * int (length xs)" for k :: int
  by (induction xs) (auto simp: algebra_simps)

lemma wrap_i8_id: "int8 i \<Longrightarrow> wrap_i8 i = i"
  by (auto simp: wrap_i8_def int8_def)

section \<open>Windows of a pooling operator\<close>

text \<open>The coordinates of the image in a window that starts at an origin.\<close>

definition window :: "int \<Rightarrow> int \<Rightarrow> int \<Rightarrow> int list" where
  "window origin filter_size input_size = [max 0 origin..min input_size (origin + filter_size) - 1]"

lemma map_plus_upto: "map ((+) k) [i..j] = [k + i..k + j]" for k :: int
proof (induction "nat (j - i + 1)" arbitrary: i)
  case (Suc n)
  have ij: "i \<le> j" "n = nat (j - (i + 1) + 1)" using Suc.hyps(2) by linarith+
  have "map ((+) k) [i + 1..j] = [k + i + 1..k + j]" using Suc.hyps(1) [OF ij(2)] by (simp add: add.assoc)
  moreover have "[k + i..k + j] = (k + i) # [k + i + 1..k + j]" using upto_rec1 [of "k + i" "k + j"] ij(1) by simp
  ultimately show ?case using upto_rec1 [OF ij(1)] by simp
qed simp

lemma filter_range_window: "map ((+) origin) (filter_range origin f n) = window origin f n"
proof -
  have "origin + max 0 (- origin) = max 0 origin" "origin + (min f (n - origin) - 1) = min n (origin + f) - 1" by linarith+
  then show ?thesis by (simp only: filter_range_def window_def map_plus_upto)
qed

lemma set_window: "set (window origin f n) = {i. 0 \<le> i \<and> i < n \<and> origin \<le> i \<and> i < origin + f}"
  by (auto simp: window_def)

lemma length_window: "length (window origin f n) \<le> nat f"
  by (simp add: window_def)

lemma loop_shifted:
  "loop (\<lambda>fy. loop (\<lambda>fx. h (oy + fy) (ox + fx)) (filter_range ox fw iw)) (filter_range oy fh ih) s =
   loop (\<lambda>(y, x). h y x) (List.product (window oy fh ih) (window ox fw iw)) s"
proof -
  have a: "loop (\<lambda>fx. h y (ox + fx)) (filter_range ox fw iw) = loop (h y) (window ox fw iw)" for y
    by (rule ext) (simp add: filter_range_window [symmetric] loop_map)
  have "loop (\<lambda>fy. loop (h (oy + fy)) (window ox fw iw)) (filter_range oy fh ih) s = loop (\<lambda>y. loop (h y) (window ox fw iw)) (window oy fh ih) s"
    by (simp add: filter_range_window [of oy, symmetric] loop_map)
  then show ?thesis unfolding a loop_product [symmetric] .
qed

text \<open>The rounding of an average: half the number of elements is added, away from zero, before the division.\<close>

definition rounded_mean :: "int \<Rightarrow> int \<Rightarrow> int" where
  "rounded_mean s n = (if s > 0 then quot_int (s + quot_int n 2) n else quot_int (s - quot_int n 2) n)"

lemma rounded_mean_close:
  assumes "0 < n" shows "2 * \<bar>rounded_mean s n * n - s\<bar> \<le> n"
proof -
  define h where "h = n div 2"
  have h: "2 * h \<le> n" "n \<le> 2 * h + 1" "quot_int n 2 = h" "0 \<le> h" using assms by (simp_all add: h_def quot_int_pos)
  define p where "p = rounded_mean s n * n"
  have "p - s \<le> h \<and> s - p < n - h \<or> s - p \<le> h \<and> p - s < n - h"
  proof (cases "s > 0")
    case True
    then have "rounded_mean s n = (s + h) div n" using assms h by (simp add: rounded_mean_def quot_int_pos)
    then have "p \<le> s + h" "s + h < p + n" using div_bounds [OF assms, of "s + h"] by (simp_all add: p_def distrib_right)
    then show ?thesis by linarith
  next
    case False
    then have "rounded_mean s n = - ((h - s) div n)"
      using assms h by (cases "h = s") (auto simp: rounded_mean_def quot_int_def sgn_if abs_if)
    then have "- p \<le> h - s" "h - s < n - p" using div_bounds [OF assms, of "h - s"] by (simp_all add: p_def distrib_right)
    then show ?thesis by linarith
  qed
  then have "2 * (p - s) \<le> n" "2 * (s - p) \<le> n" using h(1,2) by presburger+
  then show ?thesis by (simp add: p_def abs_if)
qed

text \<open>The elements of the input in the window of an output element.\<close>

definition window_values :: "PoolParams \<Rightarrow> RuntimeShape \<Rightarrow> int list \<Rightarrow> int list \<Rightarrow> int list" where
  "window_values params input_shape input_data i =
     map (\<lambda>(y, x). input_data ! nat (flat_index input_shape [i ! 0, y, x, i ! 3] 0))
       (List.product (window (i ! 1 * pl_stride_height params - pl_padding_height params) (pl_filter_height params) (input_shape ! 1))
         (window (i ! 2 * pl_stride_width params - pl_padding_width params) (pl_filter_width params) (input_shape ! 2)))"

lemma read_point:
  assumes "in_shape [d0, d1, d2, d3] [b, y, x, c]" "d0 * d1 * d2 * d3 \<le> i32_max" "int (length xs) = d0 * d1 * d2 * d3"
  shows "rd xs (Offset [d0, d1, d2, d3] b y x c) = Inr (xs ! nat (flat_index [d0, d1, d2, d3] [b, y, x, c] 0))"
proof -
  have "flat_index [d0, d1, d2, d3] [b, y, x, c] 0 < int (length xs)" "0 \<le> flat_index [d0, d1, d2, d3] [b, y, x, c] 0"
    using flat_index_bounds [OF assms(1), of 0] assms(3) by (simp_all add: mult.assoc)
  then show ?thesis using Offset_flat_index [OF assms(1,2)] by (simp add: rd_inside)
qed

lemma window_loop:
  fixes s :: 's
  assumes "d0 * d1 * d2 * d3 \<le> i32_max" "int (length xs) = d0 * d1 * d2 * d3" and "0 \<le> b" "b < d0" "0 \<le> c" "c < d3"
    and "d1 \<le> i32_max" "d2 \<le> i32_max"
  shows "loop (\<lambda>fy. loop (\<lambda>fx s. bind_step (rd xs (Offset [d0, d1, d2, d3] b (wrap_i32 (oy + fy)) (wrap_i32 (ox + fx)) c)) (\<lambda>v. Inr (h v s)))
      (filter_range ox fw d2)) (filter_range oy fh d1) s =
    Inr (fold h (map (\<lambda>(y, x). xs ! nat (flat_index [d0, d1, d2, d3] [b, y, x, c] 0)) (List.product (window oy fh d1) (window ox fw d2))) s)"
proof -
  let ?r = "\<lambda>y x (s :: 's). bind_step (rd xs (Offset [d0, d1, d2, d3] b (wrap_i32 y) (wrap_i32 x) c)) (\<lambda>v. Inr (h v s))"
  have "(case p of (y, x) \<Rightarrow> ?r y x) s = Inr ((case p of (y, x) \<Rightarrow> h (xs ! nat (flat_index [d0, d1, d2, d3] [b, y, x, c] 0))) s)"
    if p: "p \<in> set (List.product (window oy fh d1) (window ox fw d2))" for p s
  proof -
    obtain y x where yx: "p = (y, x)" by (cases p)
    have i: "in_shape [d0, d1, d2, d3] [b, y, x, c]" using p assms(3-6) by (simp add: yx set_window)
    then have "in_i32 y" "in_i32 x" using assms(7,8) by (auto simp: in_i32_def)
    then show ?thesis using read_point [OF i assms(1,2)] by (simp add: yx del: flat_index.simps)
  qed
  then have "loop (\<lambda>(y, x). ?r y x) (List.product (window oy fh d1) (window ox fw d2)) s =
      Inr (fold (\<lambda>(y, x). h (xs ! nat (flat_index [d0, d1, d2, d3] [b, y, x, c] 0))) (List.product (window oy fh d1) (window ox fw d2)) s)"
    by (rule loop_fold)
  then show ?thesis unfolding loop_shifted [of "?r"]
    by (simp add: fold_map comp_def case_prod_unfold del: flat_index.simps)
qed

lemma window_nonempty:
  assumes "0 < stride" "0 < f" "f \<le> 32768" "0 < img" "padding \<noteq> kTfLitePaddingUnknown" "img + stride + f \<le> i32_max"
    and n: "n = ComputeOutSize padding img f stride 1" and pad: "pad = fst (ComputePaddingWithOffset stride 1 img f n)" and k: "0 \<le> k" "k < n"
  shows "wrap_i16 pad = pad \<and> in_i32 (k * stride - pad) \<and> window (k * stride - pad) f img \<noteq> []"
proof -
  have w: "j * stride - pad < img \<and> 0 < j * stride - pad + f" if "0 \<le> j" "j < n" for j
    using windows [OF assms(1,2) _ assms(4,5) _ _ n pad, of f] assms(6) that by simp
  have "0 \<le> pad" unfolding pad by (simp add: ComputePaddingWithOffset_def Let_def quot_int_pos)
  moreover have "pad < f" using w [of 0] k by simp
  ultimately have "wrap_i16 pad = pad" using assms(3) by (simp add: wrap_i16_def)
  moreover have "in_i32 (k * stride - pad)" using w [OF k] assms(1,4,6) \<open>pad < f\<close> \<open>0 \<le> pad\<close> by (auto simp: in_i32_def)
  moreover have "max 0 (k * stride - pad) \<le> min img (k * stride - pad + f) - 1" using w [OF k] assms(2,4) by linarith
  then have "window (k * stride - pad) f img \<noteq> []" unfolding window_def upto_Nil not_less .
  ultimately show ?thesis by blast
qed

text \<open>A pooling operator that is prepared for an input: sizes for which nothing overflows.\<close>

definition pool_sizes :: "TfLitePoolParams \<Rightarrow> int \<Rightarrow> int \<Rightarrow> bool" where
  "pool_sizes tp ih iw \<longleftrightarrow> tp_padding tp \<noteq> kTfLitePaddingUnknown \<and> 0 < ih \<and> 0 < iw \<and>
     0 < tp_filter_height tp \<and> tp_filter_height tp \<le> 32768 \<and> 0 < tp_filter_width tp \<and> tp_filter_width tp \<le> 32768 \<and>
     ih + tp_stride_height tp + tp_filter_height tp \<le> i32_max \<and> iw + tp_stride_width tp + tp_filter_width tp \<le> i32_max \<and>
     129 * (tp_filter_height tp * tp_filter_width tp) \<le> i32_max"

lemma pool_prepared:
  assumes p: "pool_prepare tp [n, ih, iw, ch] = Some (padding, osh)" and s: "pool_sizes tp ih iw"
  obtains oh ow where "osh = [n, oh, ow, ch]"
    and "\<And>k. 0 \<le> k \<Longrightarrow> k < oh \<Longrightarrow> wrap_i16 (pv_height padding) = pv_height padding \<and> in_i32 (k * tp_stride_height tp - pv_height padding) \<and>
      window (k * tp_stride_height tp - pv_height padding) (tp_filter_height tp) ih \<noteq> []"
    and "\<And>k. 0 \<le> k \<Longrightarrow> k < ow \<Longrightarrow> wrap_i16 (pv_width padding) = pv_width padding \<and> in_i32 (k * tp_stride_width tp - pv_width padding) \<and>
      window (k * tp_stride_width tp - pv_width padding) (tp_filter_width tp) iw \<noteq> []"
proof -
  let ?oh = "ComputeOutSize (tp_padding tp) ih (tp_filter_height tp) (tp_stride_height tp) 1"
  let ?ow = "ComputeOutSize (tp_padding tp) iw (tp_filter_width tp) (tp_stride_width tp) 1"
  have st: "0 < tp_stride_height tp" "0 < tp_stride_width tp" using p by (auto simp: pool_prepare_def split: if_splits)
  then have osh: "osh = [n, ?oh, ?ow, ch]"
    and pad: "pv_height padding = fst (ComputePaddingWithOffset (tp_stride_height tp) 1 ih (tp_filter_height tp) ?oh)"
      "pv_width padding = fst (ComputePaddingWithOffset (tp_stride_width tp) 1 iw (tp_filter_width tp) ?ow)"
    using p by (auto simp: pool_prepare_def ComputePaddingHeightWidth_def Let_def case_prod_unfold)
  show ?thesis
    by (rule that [OF osh])
       (use window_nonempty [OF st(1) _ _ _ _ _ refl pad(1)] window_nonempty [OF st(2) _ _ _ _ _ refl pad(2)] s in \<open>simp_all add: pool_sizes_def\<close>)
qed

text \<open>The clamping of a result to the range of the activation function.\<close>

abbreviation clamp :: "int \<Rightarrow> int \<Rightarrow> int \<Rightarrow> int" where
  "clamp lo hi v \<equiv> min (max v lo) hi"

lemma clamp_int8: "int8 lo \<Longrightarrow> int8 hi \<Longrightarrow> int8 (clamp lo hi v)"
  by (auto simp: int8_def)

lemma average_of_window:
  assumes "vals \<noteq> []" "\<forall>v\<in>set vals. int8 v" "129 * int (length vals) \<le> i32_max" and "int8 lo" "int8 hi"
  shows "(case fold (\<lambda>v (acc, n). (wrap_i32 (acc + v), wrap_i32 (n + 1))) vals (0, 0) of (acc, n) \<Rightarrow>
      if n = 0 then Inl Returned
      else (let acc = (if acc > 0 then quot_int (wrap_i32 (acc + quot_int n 2)) n else quot_int (wrap_i32 (acc - quot_int n 2)) n);
                acc = max acc lo; acc = min acc hi
            in wr j (wrap_i8 acc) out)) =
    wr j (clamp lo hi (rounded_mean (sum_list vals) (int (length vals)))) out"
proof -
  let ?s = "sum_list vals" and ?n = "int (length vals)"
  have "\<forall>v\<in>set vals. \<bar>v\<bar> \<le> 128" using assms(2) by (fastforce simp: int8_def)
  then have "\<bar>?s\<bar> \<le> 128 * ?n" using sum_list_bound [of vals "\<lambda>v. v" 128] by simp
  then have s: "- (128 * ?n) \<le> ?s" "?s \<le> 128 * ?n" by linarith+
  have n: "0 < ?n" "0 \<le> ?n div 2" "?n div 2 \<le> ?n" using assms(1) by simp_all
  have w: "in_i32 ?s" "in_i32 ?n" "in_i32 (?s + ?n div 2)" "in_i32 (?s - ?n div 2)"
    unfolding in_i32_def using s n assms(3) by linarith+
  have "fold (\<lambda>v (acc, n). (wrap_i32 (acc + v), wrap_i32 (n + 1))) vals (0, 0) = (?s, ?n)"
    using fold_sum_count [of "\<lambda>v. v" vals 0 0] w by simp
  then show ?thesis using n w wrap_i8_id [OF clamp_int8 [OF assms(4,5)]]
    by (simp add: rounded_mean_def Let_def quot_int_pos)
qed

lemma product_nonempty: "xs \<noteq> [] \<Longrightarrow> ys \<noteq> [] \<Longrightarrow> List.product xs ys \<noteq> []"
  by (cases xs; cases ys) simp_all

lemma pool_point:
  assumes p: "pool_prepare tp [n, ih, iw, ch] = Some (padding, osh)" and s: "pool_sizes tp ih iw"
    and "n * ih * iw * ch \<le> i32_max" "int (length xs) = n * ih * iw * ch" and i: "in_shape osh [b, y, x, c]"
    and params: "params = pool_op_params tp padding lo hi" and vals: "vals = window_values params [n, ih, iw, ch] xs [b, y, x, c]"
  shows "vals \<noteq> []" "int (length vals) \<le> tp_filter_height tp * tp_filter_width tp" "set vals \<subseteq> set xs"
    and "loop (\<lambda>fy. loop (\<lambda>fx s. bind_step (rd xs (Offset [n, ih, iw, ch] b (wrap_i32 (wrap_i32 (y * pl_stride_height params - pl_padding_height params) + fy))
        (wrap_i32 (wrap_i32 (x * pl_stride_width params - pl_padding_width params) + fx)) c)) (\<lambda>v. Inr (h v s)))
        (filter_range (wrap_i32 (x * pl_stride_width params - pl_padding_width params)) (pl_filter_width params) iw))
        (filter_range (wrap_i32 (y * pl_stride_height params - pl_padding_height params)) (pl_filter_height params) ih) t = Inr (fold h vals t)"
proof -
  obtain oh ow where osh: "osh = [n, oh, ow, ch]"
    and wy: "\<And>k. 0 \<le> k \<Longrightarrow> k < oh \<Longrightarrow> wrap_i16 (pv_height padding) = pv_height padding \<and> in_i32 (k * tp_stride_height tp - pv_height padding) \<and>
      window (k * tp_stride_height tp - pv_height padding) (tp_filter_height tp) ih \<noteq> []"
    and wx: "\<And>k. 0 \<le> k \<Longrightarrow> k < ow \<Longrightarrow> wrap_i16 (pv_width padding) = pv_width padding \<and> in_i32 (k * tp_stride_width tp - pv_width padding) \<and>
      window (k * tp_stride_width tp - pv_width padding) (tp_filter_width tp) iw \<noteq> []"
    using pool_prepared [OF p s] by blast
  have bc: "0 \<le> b" "b < n" "0 \<le> c" "c < ch" and y: "0 \<le> y" "y < oh" and x: "0 \<le> x" "x < ow" using i by (simp_all add: osh)
  let ?oy = "y * tp_stride_height tp - pv_height padding" and ?ox = "x * tp_stride_width tp - pv_width padding"
  note w = wy [OF y] wx [OF x]
  have pp: "pl_stride_height params = tp_stride_height tp" "pl_stride_width params = tp_stride_width tp" "pl_padding_height params = pv_height padding"
    "pl_padding_width params = pv_width padding" "pl_filter_height params = tp_filter_height tp" "pl_filter_width params = tp_filter_width tp"
    using w by (simp_all add: params pool_op_params_def)
  have v: "vals = map (\<lambda>(y, x). xs ! nat (flat_index [n, ih, iw, ch] [b, y, x, c] 0))
      (List.product (window ?oy (tp_filter_height tp) ih) (window ?ox (tp_filter_width tp) iw))"
    by (simp add: vals window_values_def pp del: flat_index.simps)
  show "vals \<noteq> []" using w by (simp add: v product_nonempty)
  have "length (window ?oy (tp_filter_height tp) ih) * length (window ?ox (tp_filter_width tp) iw) \<le> nat (tp_filter_height tp) * nat (tp_filter_width tp)"
    by (rule mult_le_mono) (rule length_window)+
  then have "int (length (window ?oy (tp_filter_height tp) ih) * length (window ?ox (tp_filter_width tp) iw)) \<le>
      int (nat (tp_filter_height tp) * nat (tp_filter_width tp))" by (rule zle_int [THEN iffD2])
  then show "int (length vals) \<le> tp_filter_height tp * tp_filter_width tp" using s by (simp add: v length_product pool_sizes_def)
  show "set vals \<subseteq> set xs"
  proof
    fix u assume "u \<in> set vals"
    then obtain yy xx where u: "yy \<in> set (window ?oy (tp_filter_height tp) ih)" "xx \<in> set (window ?ox (tp_filter_width tp) iw)"
      "u = xs ! nat (flat_index [n, ih, iw, ch] [b, yy, xx, c] 0)" by (auto simp: v simp del: flat_index.simps)
    then have "in_shape [n, ih, iw, ch] [b, yy, xx, c]" using bc by (simp add: set_window)
    from flat_index_bounds [OF this, of 0] assms(4) u(3) show "u \<in> set xs" by (auto simp: nat_less_iff mult.assoc simp del: flat_index.simps)
  qed
  have "ih \<le> i32_max" "iw \<le> i32_max" using s p by (auto simp: pool_sizes_def pool_prepare_def split: if_splits)
  then show "loop (\<lambda>fy. loop (\<lambda>fx s. bind_step (rd xs (Offset [n, ih, iw, ch] b (wrap_i32 (wrap_i32 (y * pl_stride_height params - pl_padding_height params) + fy))
        (wrap_i32 (wrap_i32 (x * pl_stride_width params - pl_padding_width params) + fx)) c)) (\<lambda>v. Inr (h v s)))
        (filter_range (wrap_i32 (x * pl_stride_width params - pl_padding_width params)) (pl_filter_width params) iw))
        (filter_range (wrap_i32 (y * pl_stride_height params - pl_padding_height params)) (pl_filter_height params) ih) t = Inr (fold h vals t)"
    unfolding v pp using window_loop [OF assms(3,4) bc] w by (simp del: flat_index.simps)
qed


text \<open>What the two kernels store at an output element.\<close>

lemma shape_nth: "[n, ih, iw, ch] ! 1 = ih" "[n, ih, iw, ch] ! 2 = iw"
  by simp_all

lemma pool_op_params_range [simp]:
  "pl_quantized_activation_min (pool_op_params tp padding lo hi) = lo" "pl_quantized_activation_max (pool_op_params tp padding lo hi) = hi"
  by (simp_all add: pool_op_params_def)

lemma average_element_value:
  assumes p: "pool_prepare tp [n, ih, iw, ch] = Some (padding, osh)" and s: "pool_sizes tp ih iw"
    and l: "n * ih * iw * ch \<le> i32_max" "int (length xs) = n * ih * iw * ch" and i: "in_shape osh [b, y, x, c]"
    and r: "\<forall>v\<in>set xs. int8 v" "int8 lo" "int8 hi" and vals: "vals = window_values (pool_op_params tp padding lo hi) [n, ih, iw, ch] xs [b, y, x, c]"
  shows "average_element (pool_op_params tp padding lo hi) [n, ih, iw, ch] xs osh b y x c out =
    wr (Offset osh b y x c) (clamp lo hi (rounded_mean (sum_list vals) (int (length vals)))) out"
proof -
  let ?h = "\<lambda>v (acc, n). (wrap_i32 (acc + v), wrap_i32 (n + 1))"
  note q = pool_point [OF p s l i refl vals]
  have k: "129 * int (length vals) \<le> i32_max" using q(2) s by (simp add: pool_sizes_def)
  have v: "\<forall>v\<in>set vals. int8 v" using q(3) r(1) by blast
  note a = average_of_window [OF q(1) v k r(2,3), unfolded case_prod_unfold Let_def]
  show ?thesis
    unfolding average_element_def Let_def shape_nth case_prod_unfold q(4) [of ?h, unfolded case_prod_unfold] bind_step_simps pool_op_params_range
    by (rule a)
qed

lemma max_element_value:
  assumes p: "pool_prepare tp [n, ih, iw, ch] = Some (padding, osh)" and s: "pool_sizes tp ih iw"
    and l: "n * ih * iw * ch \<le> i32_max" "int (length xs) = n * ih * iw * ch" and i: "in_shape osh [b, y, x, c]"
    and r: "\<forall>v\<in>set xs. int8 v" "int8 lo" "int8 hi" and vals: "vals = window_values (pool_op_params tp padding lo hi) [n, ih, iw, ch] xs [b, y, x, c]"
  shows "max_element (pool_op_params tp padding lo hi) [n, ih, iw, ch] xs osh b y x c out = wr (Offset osh b y x c) (clamp lo hi (Max (set vals))) out"
proof -
  note q = pool_point [OF p s l i refl vals]
  have "v \<ge> -128" if "v \<in> set vals" for v using q(3) r(1) that by (auto simp: int8_def)
  then have "Max (insert (-128) (set vals)) = Max (set vals)" using q(1) by (simp add: Max_insert Max_ge_iff) (metis Max_in finite_set max.absorb2 set_empty)
  then have f: "fold (\<lambda>v m. max m v) vals (-128) = Max (set vals)" using fold_max [of "\<lambda>v. v" vals "-128"] by simp
  show ?thesis
    unfolding max_element_def Let_def shape_nth q(4) [of "\<lambda>v m. max m v"] bind_step_simps pool_op_params_range f
      wrap_i8_id [OF r(2)] wrap_i8_id [OF r(3)] ..
qed

lemma pool_loops:
  assumes p: "pool_prepare tp [n, ih, iw, ch] = Some (padding, osh)" and s: "pool_sizes tp ih iw"
    and l: "prod_list osh \<le> i32_max" "int (length out) = prod_list osh"
    and e: "\<And>b y x c out :: int list. in_shape osh [b, y, x, c] \<Longrightarrow> f b y x c out = wr (Offset osh b y x c) (v [b, y, x, c]) out"
  shows "\<exists>res. loop (\<lambda>b. loop (\<lambda>y. loop (\<lambda>x. loop (\<lambda>c. f b y x c) (upto0 (MatchingDim [n, ih, iw, ch] 3 osh 3)))
      (upto0 (osh ! 2))) (upto0 (osh ! 1))) (upto0 (MatchingDim [n, ih, iw, ch] 0 osh 0)) out = Inr res \<and>
    length res = length out \<and> (\<forall>i. in_shape osh i \<longrightarrow> res ! nat (flat_index osh i 0) = v i)"
proof -
  obtain oh ow where osh: "osh = [n, oh, ow, ch]" using pool_prepared [OF p s] by blast
  then have m: "MatchingDim [n, ih, iw, ch] 3 osh 3 = ch" "MatchingDim [n, ih, iw, ch] 0 osh 0 = n" "osh ! 2 = ow" "osh ! 1 = oh"
    by (simp_all add: MatchingDim_def)
  show ?thesis unfolding m loop_product4 unfolding osh
    by (rule output_loop) (use l e in \<open>simp_all add: osh mult.assoc\<close>)
qed

lemma window_values_nonempty:
  assumes p: "pool_prepare tp [n, ih, iw, ch] = Some (padding, osh)" and s: "pool_sizes tp ih iw"
    and l: "n * ih * iw * ch \<le> i32_max" "int (length xs) = n * ih * iw * ch" and i: "in_shape osh i"
  shows "window_values (pool_op_params tp padding lo hi) [n, ih, iw, ch] xs i \<noteq> []"
proof -
  obtain oh ow where "osh = [n, oh, ow, ch]" using pool_prepared [OF p s] by blast
  with i obtain b y x c where "i = [b, y, x, c]" by auto
  with i show ?thesis using pool_point(1) [OF p s l _ refl refl] by blast
qed

text \<open>
  Claim C33. Average pooling of a prepared operator returns, with all reads and writes inside of the arrays: every window has an element of
  the image, and the result is the mean of its elements in the image, rounded to a nearest integer, within the range of the activation function.
\<close>

theorem average_pool_correct:
  assumes p: "pool_prepare tp [n, ih, iw, ch] = Some (padding, osh)" and s: "pool_sizes tp ih iw"
    and l: "n * ih * iw * ch \<le> i32_max" "int (length xs) = n * ih * iw * ch" "prod_list osh \<le> i32_max" "int (length out) = prod_list osh"
    and r: "\<forall>v\<in>set xs. int8 v" "int8 lo" "int8 hi"
  shows "\<exists>res. AveragePool (pool_op_params tp padding lo hi) [n, ih, iw, ch] xs osh out = Inr res \<and> length res = length out \<and>
    (\<forall>i. in_shape osh i \<longrightarrow>
      (let vals = window_values (pool_op_params tp padding lo hi) [n, ih, iw, ch] xs i; k = int (length vals)
       in 0 < k \<and> (\<exists>mean. 2 * \<bar>mean * k - sum_list vals\<bar> \<le> k \<and> res ! nat (flat_index osh i 0) = clamp lo hi mean)))"
proof -
  let ?w = "window_values (pool_op_params tp padding lo hi) [n, ih, iw, ch] xs"
  let ?m = "\<lambda>i. rounded_mean (sum_list (?w i)) (int (length (?w i)))"
  have e: "average_element (pool_op_params tp padding lo hi) [n, ih, iw, ch] xs osh b y x c out = wr (Offset osh b y x c) (clamp lo hi (?m [b, y, x, c])) out"
    if "in_shape osh [b, y, x, c]" for b y x c out
    using p s l(1,2) that r refl by (rule average_element_value)
  from pool_loops [OF p s l(3,4), where v = "\<lambda>i. clamp lo hi (?m i)", OF e]
  obtain res where res: "AveragePool (pool_op_params tp padding lo hi) [n, ih, iw, ch] xs osh out = Inr res" "length res = length out"
    "\<And>i. in_shape osh i \<Longrightarrow> res ! nat (flat_index osh i 0) = clamp lo hi (?m i)" unfolding AveragePool_def by blast
  have "0 < int (length (?w i)) \<and> 2 * \<bar>?m i * int (length (?w i)) - sum_list (?w i)\<bar> \<le> int (length (?w i))" if i: "in_shape osh i" for i
    using window_values_nonempty [OF p s l(1,2) i] rounded_mean_close [of "int (length (?w i))"] by simp
  with res show ?thesis unfolding Let_def by blast
qed

text \<open>
  Max pooling of a prepared operator returns, with all reads and writes inside of the arrays, and every result is the
  largest element of the image in its window, which is not empty, within the range of the activation function.
\<close>

lemma max_pool_correct:
  assumes p: "pool_prepare tp [n, ih, iw, ch] = Some (padding, osh)" and s: "pool_sizes tp ih iw"
    and l: "n * ih * iw * ch \<le> i32_max" "int (length xs) = n * ih * iw * ch" "prod_list osh \<le> i32_max" "int (length out) = prod_list osh"
    and r: "\<forall>v\<in>set xs. int8 v" "int8 lo" "int8 hi"
  shows "\<exists>res. MaxPool (pool_op_params tp padding lo hi) [n, ih, iw, ch] xs osh out = Inr res \<and> length res = length out \<and>
    (\<forall>i. in_shape osh i \<longrightarrow>
      (let vals = window_values (pool_op_params tp padding lo hi) [n, ih, iw, ch] xs i
       in vals \<noteq> [] \<and> res ! nat (flat_index osh i 0) = clamp lo hi (Max (set vals))))"
proof -
  let ?w = "window_values (pool_op_params tp padding lo hi) [n, ih, iw, ch] xs"
  have e: "max_element (pool_op_params tp padding lo hi) [n, ih, iw, ch] xs osh b y x c out =
      wr (Offset osh b y x c) (clamp lo hi (Max (set (?w [b, y, x, c])))) out" if "in_shape osh [b, y, x, c]" for b y x c out
    using p s l(1,2) that r refl by (rule max_element_value)
  from pool_loops [OF p s l(3,4), where v = "\<lambda>i. clamp lo hi (Max (set (?w i)))", OF e]
  obtain res where res: "MaxPool (pool_op_params tp padding lo hi) [n, ih, iw, ch] xs osh out = Inr res" "length res = length out"
    "\<And>i. in_shape osh i \<Longrightarrow> res ! nat (flat_index osh i 0) = clamp lo hi (Max (set (?w i)))" unfolding MaxPool_def by blast
  with window_values_nonempty [OF p s l(1,2)] show ?thesis unfolding Let_def by blast
qed

text \<open>A window of two by two elements on an image of three by three, with padding.\<close>

lemma pool_example:
  "pool_prepare \<lparr>tp_padding = kTfLitePaddingSame, tp_stride_width = 2, tp_stride_height = 2, tp_filter_width = 2, tp_filter_height = 2\<rparr> [1, 3, 3, 1] =
    Some (\<lparr>pv_width = 0, pv_height = 0, pv_width_offset = 1, pv_height_offset = 1\<rparr>, [1, 2, 2, 1])"
  "pool_sizes \<lparr>tp_padding = kTfLitePaddingSame, tp_stride_width = 2, tp_stride_height = 2, tp_filter_width = 2, tp_filter_height = 2\<rparr> 3 3"
  by code_simp+

theorem average_pool_correct_witness:
  "\<exists>res. AveragePool (pool_op_params \<lparr>tp_padding = kTfLitePaddingSame, tp_stride_width = 2, tp_stride_height = 2, tp_filter_width = 2, tp_filter_height = 2\<rparr>
      \<lparr>pv_width = 0, pv_height = 0, pv_width_offset = 1, pv_height_offset = 1\<rparr> (-128) 127)
      [1, 3, 3, 1] [1, 2, 3, 4, 5, 6, 7, 8, 9] [1, 2, 2, 1] [0, 0, 0, 0] = Inr res \<and> length res = length [0, 0, 0, 0 :: int]"
proof -
  have l: "(1 :: int) * 3 * 3 * 1 \<le> i32_max" "int (length [1, 2, 3, 4, 5, 6, 7, 8, 9 :: int]) = 1 * 3 * 3 * 1" "prod_list [1, 2, 2, 1 :: int] \<le> i32_max"
    "int (length [0, 0, 0, 0 :: int]) = prod_list [1, 2, 2, 1]" "\<forall>v\<in>set [1, 2, 3, 4, 5, 6, 7, 8, 9]. int8 v" "int8 (-128)" "int8 127" by (simp_all add: int8_def)
  from average_pool_correct [OF pool_example l] show ?thesis
    by (elim exE) (intro exI conjI, erule conjunct1, erule conjunct2 [THEN conjunct1])
qed

lemma max_pool_correct_witness:
  "\<exists>res. MaxPool (pool_op_params \<lparr>tp_padding = kTfLitePaddingSame, tp_stride_width = 2, tp_stride_height = 2, tp_filter_width = 2, tp_filter_height = 2\<rparr>
      \<lparr>pv_width = 0, pv_height = 0, pv_width_offset = 1, pv_height_offset = 1\<rparr> (-128) 127)
      [1, 3, 3, 1] [1, 2, 3, 4, 5, 6, 7, 8, 9] [1, 2, 2, 1] [0, 0, 0, 0] = Inr res \<and> length res = length [0, 0, 0, 0 :: int]"
proof -
  have l: "(1 :: int) * 3 * 3 * 1 \<le> i32_max" "int (length [1, 2, 3, 4, 5, 6, 7, 8, 9 :: int]) = 1 * 3 * 3 * 1" "prod_list [1, 2, 2, 1 :: int] \<le> i32_max"
    "int (length [0, 0, 0, 0 :: int]) = prod_list [1, 2, 2, 1]" "\<forall>v\<in>set [1, 2, 3, 4, 5, 6, 7, 8, 9]. int8 v" "int8 (-128)" "int8 127" by (simp_all add: int8_def)
  from max_pool_correct [OF pool_example l] show ?thesis
    by (elim exE) (intro exI conjI, erule conjunct1, erule conjunct2 [THEN conjunct1])
qed

lemma average_pool_example:
  "AveragePool (pool_op_params \<lparr>tp_padding = kTfLitePaddingSame, tp_stride_width = 2, tp_stride_height = 2, tp_filter_width = 2, tp_filter_height = 2\<rparr>
      \<lparr>pv_width = 0, pv_height = 0, pv_width_offset = 1, pv_height_offset = 1\<rparr> (-128) 127)
      [1, 3, 3, 1] [1, 2, 3, 4, 5, 6, 7, 8, 9] [1, 2, 2, 1] [0, 0, 0, 0] = Inr [3, 5, 8, 9]"
  by code_simp

section \<open>Sums of products\<close>

lemma loop_sum:
  assumes "\<And>x a. x \<in> set xs \<Longrightarrow> f x (wrap_i32 a) = Inr (wrap_i32 (a + v x))"
  shows "loop f xs (wrap_i32 a) = Inr (wrap_i32 (a + sum_list (map v xs)))"
  using assms by (induction xs arbitrary: a) (simp_all add: add.assoc)

lemma loop_sum_upto0:
  assumes "\<And>i a. 0 \<le> i \<Longrightarrow> i < n \<Longrightarrow> f i (wrap_i32 a) = Inr (wrap_i32 (a + v i))"
  shows "loop f (upto0 n) (wrap_i32 a) = Inr (wrap_i32 (a + (\<Sum>i\<in>{0..<n}. v i)))"
proof -
  have "distinct (upto0 n)" by (simp add: upto0_def)
  from sum.distinct_set_conv_list [OF this, of v] have "(\<Sum>i\<in>{0..<n}. v i) = sum_list (map v (upto0 n))" by simp
  then show ?thesis using loop_sum [of "upto0 n" f v a] assms by simp
qed

lemma sum_bound: "(\<And>i. i \<in> A \<Longrightarrow> \<bar>v i\<bar> \<le> k) \<Longrightarrow> \<bar>sum v A\<bar> \<le> int (card A) * k" for k :: int
  by (rule order_trans [OF sum_abs sum_bounded_above])

text \<open>
  The convolution at an output element: the products of the filter with the elements of the image it covers, in the channels of the
  group of the output channel.
\<close>

definition conv_product :: "ConvParams \<Rightarrow> RuntimeShape \<Rightarrow> int list \<Rightarrow> RuntimeShape \<Rightarrow> int list \<Rightarrow> int \<Rightarrow> int list \<Rightarrow> int \<Rightarrow> int \<Rightarrow> int \<Rightarrow> int" where
  "conv_product params ish xs fsh fs fpg i fy fx ic =
     (let y = i ! 1 * cv_stride_height params - cv_padding_height params + cv_dilation_height_factor params * fy;
          x = i ! 2 * cv_stride_width params - cv_padding_width params + cv_dilation_width_factor params * fx
      in if 0 \<le> x \<and> x < ish ! 2 \<and> 0 \<le> y \<and> y < ish ! 1
         then fs ! nat (flat_index fsh [i ! 3, fy, fx, ic] 0) *
           (xs ! nat (flat_index ish [i ! 0, y, x, ic + i ! 3 div fpg * fsh ! 3] 0) + cv_input_offset params) else 0)"

definition conv_sum :: "ConvParams \<Rightarrow> RuntimeShape \<Rightarrow> int list \<Rightarrow> RuntimeShape \<Rightarrow> int list \<Rightarrow> int \<Rightarrow> int list \<Rightarrow> int" where
  "conv_sum params ish xs fsh fs fpg i =
     (\<Sum>fy\<in>{0..<fsh ! 1}. \<Sum>fx\<in>{0..<fsh ! 2}. \<Sum>ic\<in>{0..<fsh ! 3}. conv_product params ish xs fsh fs fpg i fy fx ic)"

text \<open>Tensors and parameters of a convolution for which the code does not leave the range of \<open>int\<close>, with whole groups of channels.\<close>

definition conv_sizes :: "ConvParams \<Rightarrow> int \<Rightarrow> int \<Rightarrow> int \<Rightarrow> int \<Rightarrow> int \<Rightarrow> int \<Rightarrow> int \<Rightarrow> int \<Rightarrow> int \<Rightarrow> int \<Rightarrow> int list \<Rightarrow> int list \<Rightarrow> bool" where
  "conv_sizes params n ih iw groups fic fpg fh fw oh ow xs fs \<longleftrightarrow>
     0 < groups \<and> 0 < fic \<and> 0 < fpg \<and> ih \<le> i32_max \<and> iw \<le> i32_max \<and> 0 \<le> fh \<and> 0 \<le> fw \<and> groups * fic \<le> i32_max \<and>
     n * ih * iw * (groups * fic) \<le> i32_max \<and> int (length xs) = n * ih * iw * (groups * fic) \<and>
     groups * fpg * fh * fw * fic \<le> i32_max \<and> int (length fs) = groups * fpg * fh * fw * fic \<and>
     (\<forall>y\<in>{0..<oh}. \<forall>fy\<in>{0..<fh}. in_i32 (y * cv_stride_height params - cv_padding_height params + cv_dilation_height_factor params * fy)) \<and>
     (\<forall>x\<in>{0..<ow}. \<forall>fx\<in>{0..<fw}. in_i32 (x * cv_stride_width params - cv_padding_width params + cv_dilation_width_factor params * fx))"

lemma group_channel:
  assumes "0 \<le> c" "c < groups * fpg" "0 < fpg" "0 \<le> ic" "ic < fic"
  shows "0 \<le> ic + c div fpg * fic \<and> ic + c div fpg * fic < groups * (fic :: int)"
proof -
  have "c div fpg * fpg < groups * fpg" using div_bounds [OF assms(3), of c] assms(2) by linarith
  then have "c div fpg < groups" using assms(3) by (simp add: mult_less_cancel_right)
  then have "(c div fpg + 1) * fic \<le> groups * fic" using assms(4,5) by (intro mult_right_mono) simp_all
  moreover have "0 \<le> c div fpg * fic" using assms by (simp add: pos_imp_zdiv_nonneg_iff)
  ultimately show ?thesis using assms(4,5) by (simp add: distrib_right)
qed

lemma conv_accumulate_sum:
  assumes z: "conv_sizes params n ih iw groups fic fpg fh fw oh ow xs fs" and i: "in_shape [n, oh, ow, groups * fpg] [b, y, x, c]"
  shows "conv_accumulate params [n, ih, iw, groups * fic] xs [groups * fpg, fh, fw, fic] fs fpg b y x c =
    Inr (wrap_i32 (conv_sum params [n, ih, iw, groups * fic] xs [groups * fpg, fh, fw, fic] fs fpg [b, y, x, c]))"
proof -
  let ?ish = "[n, ih, iw, groups * fic]" and ?fsh = "[groups * fpg, fh, fw, fic]"
  let ?p = "conv_product params ?ish xs ?fsh fs fpg [b, y, x, c]"
  have nth: "?ish ! 1 = ih" "?ish ! 2 = iw" "?fsh ! 1 = fh" "?fsh ! 2 = fw" "?fsh ! 3 = fic" by simp_all
  have g: "quot_int c fpg = c div fpg" using z i by (simp add: quot_int_pos conv_sizes_def)
  have ch: "loop (\<lambda>in_channel acc.
      bind_step (rd xs (Offset ?ish b iy ix (wrap_i32 (in_channel + c div fpg * fic)))) (\<lambda>input_val.
      bind_step (rd fs (Offset ?fsh c fy fx in_channel)) (\<lambda>filter_val. Inr (wrap_i32 (acc + filter_val * (input_val + cv_input_offset params))))))
      (upto0 fic) (wrap_i32 a) = Inr (wrap_i32 (a + (\<Sum>ic\<in>{0..<fic}. ?p fy fx ic)))"
    if f: "0 \<le> fy" "fy < fh" "0 \<le> fx" "fx < fw" and iy: "iy = y * cv_stride_height params - cv_padding_height params + cv_dilation_height_factor params * fy" 
      and ix: "ix = x * cv_stride_width params - cv_padding_width params + cv_dilation_width_factor params * fx"
      and inside: "0 \<le> ix" "ix < iw" "0 \<le> iy" "iy < ih" for fy fx iy ix a
  proof (rule loop_sum_upto0)
    fix ic a assume ic: "0 \<le> ic" "ic < fic"
    have gc: "0 \<le> ic + c div fpg * fic" "ic + c div fpg * fic < groups * fic" using group_channel [of c groups fpg, OF _ _ _ ic] z i by (simp_all add: conv_sizes_def)
    then have "in_i32 (ic + c div fpg * fic)" using z by (simp add: in_i32_def conv_sizes_def)
    moreover have "in_shape ?ish [b, iy, ix, ic + c div fpg * fic]" "in_shape ?fsh [c, fy, fx, ic]" using i f inside gc ic by simp_all
    ultimately show "bind_step (rd xs (Offset ?ish b iy ix (wrap_i32 (ic + c div fpg * fic)))) (\<lambda>input_val.
      bind_step (rd fs (Offset ?fsh c fy fx ic)) (\<lambda>filter_val. Inr (wrap_i32 (wrap_i32 a + filter_val * (input_val + cv_input_offset params))))) =
      Inr (wrap_i32 (a + ?p fy fx ic))"
      using z inside by (simp add: read_point conv_sizes_def conv_product_def Let_def iy ix del: flat_index.simps in_shape_simps)
  qed
  have "conv_accumulate params ?ish xs ?fsh fs fpg b y x c = Inr (wrap_i32 (0 + (\<Sum>fy\<in>{0..<fh}. \<Sum>fx\<in>{0..<fw}. \<Sum>ic\<in>{0..<fic}. ?p fy fx ic)))"
    unfolding conv_accumulate_def Let_def nth g
  proof (subst wrap_i32_0 [symmetric], rule loop_sum_upto0, rule loop_sum_upto0)
    fix fy a fx a' assume f: "0 \<le> fy" "fy < fh" "0 \<le> fx" "fx < fw"
    let ?y = "y * cv_stride_height params - cv_padding_height params + cv_dilation_height_factor params * fy"
    let ?x = "x * cv_stride_width params - cv_padding_width params + cv_dilation_width_factor params * fx"
    let ?wy = "wrap_i32 (wrap_i32 (y * cv_stride_height params - cv_padding_height params) + cv_dilation_height_factor params * fy)"
    let ?wx = "wrap_i32 (wrap_i32 (x * cv_stride_width params - cv_padding_width params) + cv_dilation_width_factor params * fx)"
    have c: "?wy = ?y" "?wx = ?x" using z i f by (auto simp: conv_sizes_def)
    have o: "(\<Sum>ic\<in>{0..<fic}. ?p fy fx ic) = 0" if "\<not> (0 \<le> ?x \<and> ?x < iw \<and> 0 \<le> ?y \<and> ?y < ih)"
      using that by (intro sum.neutral ballI) (auto simp: conv_product_def Let_def simp del: flat_index.simps)
    show "(if \<not> (0 \<le> ?wx \<and> ?wx < iw \<and> 0 \<le> ?wy \<and> ?wy < ih) then Inr (wrap_i32 a') else loop (\<lambda>in_channel acc.
      bind_step (rd xs (Offset ?ish b ?wy ?wx (wrap_i32 (in_channel + c div fpg * fic)))) (\<lambda>input_val.
      bind_step (rd fs (Offset ?fsh c fy fx in_channel)) (\<lambda>filter_val. Inr (wrap_i32 (acc + filter_val * (input_val + cv_input_offset params))))))
      (upto0 fic) (wrap_i32 a')) = Inr (wrap_i32 (a' + (\<Sum>ic\<in>{0..<fic}. ?p fy fx ic)))"
      unfolding c using ch [OF f refl refl, of a'] o by (auto simp del: flat_index.simps)
  qed
  then show ?thesis by (simp add: conv_sum_def)
qed

lemma element_int8:
  assumes "in_shape [d0, d1, d2, d3] i" "int (length xs) = d0 * d1 * d2 * d3" "\<forall>v\<in>set xs. int8 v"
  shows "int8 (xs ! nat (flat_index [d0, d1, d2, d3] i 0))"
  using flat_index_bounds [OF assms(1), of 0] assms(2,3) by (simp add: nat_less_iff mult.assoc)

lemma int8_product:
  assumes "int8 f" "int8 v" "-127 \<le> offset" "offset \<le> 128" shows "\<bar>f * (v + offset)\<bar> \<le> 32640"
proof -
  have "\<bar>f\<bar> \<le> 128" "\<bar>v + offset\<bar> \<le> 255" using assms by (auto simp: int8_def)
  then have "\<bar>f\<bar> * \<bar>v + offset\<bar> \<le> 128 * 255" by (intro mult_mono) simp_all
  then show ?thesis by (simp add: abs_mult)
qed

lemma conv_product_bound:
  assumes z: "conv_sizes params n ih iw groups fic fpg fh fw oh ow xs fs" and i: "in_shape [n, oh, ow, groups * fpg] [b, y, x, c]"
    and r: "\<forall>v\<in>set xs. int8 v" "\<forall>v\<in>set fs. int8 v" "-127 \<le> cv_input_offset params" "cv_input_offset params \<le> 128"
    and f: "0 \<le> fy" "fy < fh" "0 \<le> fx" "fx < fw" "0 \<le> ic" "ic < fic"
  shows "\<bar>conv_product params [n, ih, iw, groups * fic] xs [groups * fpg, fh, fw, fic] fs fpg [b, y, x, c] fy fx ic\<bar> \<le> 32640"
proof -
  let ?y = "y * cv_stride_height params - cv_padding_height params + cv_dilation_height_factor params * fy"
  let ?x = "x * cv_stride_width params - cv_padding_width params + cv_dilation_width_factor params * fx"
  have g: "0 \<le> ic + c div fpg * fic" "ic + c div fpg * fic < groups * fic" using group_channel [of c groups fpg, OF _ _ _ f(5,6)] z i by (simp_all add: conv_sizes_def)
  have "int8 (fs ! nat (flat_index [groups * fpg, fh, fw, fic] [c, fy, fx, ic] 0))"
    by (rule element_int8) (use f i z r in \<open>simp_all add: conv_sizes_def\<close>)
  moreover have "int8 (xs ! nat (flat_index [n, ih, iw, groups * fic] [b, ?y, ?x, ic + c div fpg * fic] 0))" if "0 \<le> ?x" "?x < iw" "0 \<le> ?y" "?y < ih"
    by (rule element_int8) (use that g i z r in \<open>simp_all add: conv_sizes_def\<close>)
  ultimately show ?thesis using int8_product [OF _ _ r(3,4)] by (simp add: conv_product_def Let_def del: flat_index.simps)
qed

text \<open>
  The accumulator goes through sums of some of the products. None exceeds the number of products times the largest product.
\<close>

abbreviation filter_positions where
  "filter_positions fh fw fic \<equiv> {0..<fh :: int} \<times> {0..<fw :: int} \<times> {0..<fic :: int}"

lemma conv_sum_positions:
  "conv_sum params ish xs [k, fh, fw, fic] fs fpg i = (\<Sum>(fy, fx, ic)\<in>filter_positions fh fw fic. conv_product params ish xs [k, fh, fw, fic] fs fpg i fy fx ic)"
  by (simp add: conv_sum_def sum.cartesian_product)

lemma conv_partial_sum:
  assumes z: "conv_sizes params n ih iw groups fic fpg fh fw oh ow xs fs" and i: "in_shape [n, oh, ow, groups * fpg] i"
    and r: "\<forall>v\<in>set xs. int8 v" "\<forall>v\<in>set fs. int8 v" "-127 \<le> cv_input_offset params" "cv_input_offset params \<le> 128"
    and T: "T \<subseteq> filter_positions fh fw fic"
  shows "\<bar>\<Sum>(fy, fx, ic)\<in>T. conv_product params [n, ih, iw, groups * fic] xs [groups * fpg, fh, fw, fic] fs fpg i fy fx ic\<bar> \<le> fh * fw * fic * 32640"
proof -
  let ?p = "\<lambda>(fy, fx, ic). conv_product params [n, ih, iw, groups * fic] xs [groups * fpg, fh, fw, fic] fs fpg i fy fx ic"
  obtain b y x c where i4: "i = [b, y, x, c]" using i by auto
  have "\<bar>?p t\<bar> \<le> 32640" if "t \<in> T" for t
    using that T conv_product_bound [OF z i [unfolded i4] r] by (auto simp: i4 simp del: in_shape_simps)
  then have "\<bar>sum ?p T\<bar> \<le> int (card T) * 32640" by (rule sum_bound)
  also have "card T \<le> card (filter_positions fh fw fic)" by (rule card_mono [OF _ T]) simp
  then have "int (card T) * 32640 \<le> int (card (filter_positions fh fw fic)) * 32640"
    by (intro mult_right_mono) (simp_all only: of_nat_le_iff)
  also have "int (card (filter_positions fh fw fic)) = fh * fw * fic" using z by (simp add: conv_sizes_def card_cartesian_product)
  finally show ?thesis .
qed

text \<open>Scaling, offset and activation range of an accumulated value.\<close>

definition requantize :: "gemmlowp \<Rightarrow> ConvParams \<Rightarrow> int \<Rightarrow> int \<Rightarrow> int \<Rightarrow> int" where
  "requantize G params multiplier shift s =
     clamp (cv_quantized_activation_min params) (cv_quantized_activation_max params)
       (wrap_i32 (MultiplyByQuantizedMultiplier G s multiplier shift + cv_output_offset params))"

definition bias_of :: "int list option \<Rightarrow> int \<Rightarrow> int" where
  "bias_of bias c = (case bias of None \<Rightarrow> 0 | Some bs \<Rightarrow> bs ! nat c)"

lemma conv_total_exact:
  assumes z: "conv_sizes params n ih iw groups fic fpg fh fw oh ow xs fs" and i: "in_shape [n, oh, ow, groups * fpg] i"
    and r: "\<forall>v\<in>set xs. int8 v" "\<forall>v\<in>set fs. int8 v" "-127 \<le> cv_input_offset params" "cv_input_offset params \<le> 128"
    and b: "fh * fw * fic * 32640 + \<bar>k\<bar> \<le> i32_max"
  shows "in_i32 (conv_sum params [n, ih, iw, groups * fic] xs [groups * fpg, fh, fw, fic] fs fpg i)"
    "in_i32 (conv_sum params [n, ih, iw, groups * fic] xs [groups * fpg, fh, fw, fic] fs fpg i + k)"
proof -
  have "\<bar>conv_sum params [n, ih, iw, groups * fic] xs [groups * fpg, fh, fw, fic] fs fpg i\<bar> \<le> fh * fw * fic * 32640"
    using conv_partial_sum [OF z i r order_refl] by (simp add: conv_sum_positions)
  then show "in_i32 (conv_sum params [n, ih, iw, groups * fic] xs [groups * fpg, fh, fw, fic] fs fpg i)"
    "in_i32 (conv_sum params [n, ih, iw, groups * fic] xs [groups * fpg, fh, fw, fic] fs fpg i + k)"
    using b by (auto simp: in_i32_def abs_if split: if_splits)
qed

lemma conv_element_exact:
  assumes z: "conv_sizes params n ih iw groups fic fpg fh fw oh ow xs fs" and i: "in_shape [n, oh, ow, groups * fpg] [b, y, x, c]"
    and r: "\<forall>v\<in>set xs. int8 v" "\<forall>v\<in>set fs. int8 v" "-127 \<le> cv_input_offset params" "cv_input_offset params \<le> 128"
    and a: "int8 (cv_quantized_activation_min params)" "int8 (cv_quantized_activation_max params)"
    and l: "int (length ms) = groups * fpg" "int (length shs) = groups * fpg" "case bias of None \<Rightarrow> True | Some bs \<Rightarrow> int (length bs) = groups * fpg"
    and t: "fh * fw * fic * 32640 + \<bar>bias_of bias c\<bar> \<le> i32_max"
  shows "conv_element G params ms shs [n, ih, iw, groups * fic] xs [groups * fpg, fh, fw, fic] fs bias [n, oh, ow, groups * fpg] fpg b y x c out =
    wr (Offset [n, oh, ow, groups * fpg] b y x c) (requantize G params (ms ! nat c) (shs ! nat c)
      (conv_sum params [n, ih, iw, groups * fic] xs [groups * fpg, fh, fw, fic] fs fpg [b, y, x, c] + bias_of bias c)) out"
proof -
  have "0 \<le> c" "c < groups * fpg" using i by simp_all
  then show ?thesis using l conv_total_exact [OF z i r t]
    by (cases bias) (simp_all add: conv_element_def conv_accumulate_sum [OF z i] rd_inside Let_def requantize_def bias_of_def wrap_i8_id [OF clamp_int8 [OF a]])
qed

text \<open>
  Claim C32. A convolution of 8 bit tensors returns with all reads and writes inside of the arrays, when the output channels are whole groups,
  and its accumulator does not overflow: when the products of a filter window, of at most 32640 each, and the bias together fit in 32 bits, every sum of some of the
  products is in range, and every result is the mathematical convolution at its place, plus the bias, without any wrap-around. It is scaled, shifted
  by the offset of the output and kept within the range of the activation function. (Positions in the padded image are within the range of \<open>int\<close>, input zero points within 8 bits.)
\<close>

theorem conv_correct:
  assumes z: "conv_sizes params n ih iw groups fic fpg fh fw oh ow xs fs"
    and r: "\<forall>v\<in>set xs. int8 v" "\<forall>v\<in>set fs. int8 v" "-127 \<le> cv_input_offset params" "cv_input_offset params \<le> 128"
    and a: "int8 (cv_quantized_activation_min params)" "int8 (cv_quantized_activation_max params)"
    and o: "n * oh * ow * (groups * fpg) \<le> i32_max" "int (length out) = n * oh * ow * (groups * fpg)"
    and l: "int (length ms) = groups * fpg" "int (length shs) = groups * fpg" "case bias of None \<Rightarrow> True | Some bs \<Rightarrow> int (length bs) = groups * fpg"
    and t: "\<forall>c\<in>{0..<groups * fpg}. fh * fw * fic * 32640 + \<bar>bias_of bias c\<bar> \<le> i32_max"
  shows "\<exists>res. ConvPerChannel G params ms shs [n, ih, iw, groups * fic] xs [groups * fpg, fh, fw, fic] fs bias [n, oh, ow, groups * fpg] out = Inr res \<and>
    length res = length out \<and>
    (\<forall>i. in_shape [n, oh, ow, groups * fpg] i \<longrightarrow>
      res ! nat (flat_index [n, oh, ow, groups * fpg] i 0) = requantize G params (ms ! nat (i ! 3)) (shs ! nat (i ! 3))
        (conv_sum params [n, ih, iw, groups * fic] xs [groups * fpg, fh, fw, fic] fs fpg i + bias_of bias (i ! 3)) \<and>
      (\<forall>T\<subseteq>filter_positions fh fw fic. in_i32 (\<Sum>(fy, fx, ic)\<in>T.
        conv_product params [n, ih, iw, groups * fic] xs [groups * fpg, fh, fw, fic] fs fpg i fy fx ic)) \<and>
      in_i32 (conv_sum params [n, ih, iw, groups * fic] xs [groups * fpg, fh, fw, fic] fs fpg i + bias_of bias (i ! 3)))"
proof -
  let ?ish = "[n, ih, iw, groups * fic]" and ?fsh = "[groups * fpg, fh, fw, fic]" and ?osh = "[n, oh, ow, groups * fpg]"
  let ?s = "\<lambda>i. conv_sum params ?ish xs ?fsh fs fpg i + bias_of bias (i ! 3)"
  let ?v = "\<lambda>i. requantize G params (ms ! nat (i ! 3)) (shs ! nat (i ! 3)) (?s i)"
  have e: "conv_element G params ms shs ?ish xs ?fsh fs bias ?osh fpg b y x c out = wr (Offset ?osh b y x c) (?v [b, y, x, c]) out"
    if i: "in_shape ?osh [b, y, x, c]" for b y x c out
    using conv_element_exact [OF z i r a l] t i by simp
  have m: "MatchingDim ?fsh 0 ?osh 3 = groups * fpg" "MatchingDim ?ish 0 ?osh 0 = n" "?osh ! 2 = ow" "?osh ! 1 = oh" "?ish ! 3 = groups * fic" "?fsh ! 3 = fic"
    by (simp_all add: MatchingDim_def)
  have g: "quot_int (groups * fic) fic = groups" "quot_int (groups * fpg) groups = fpg" using z by (simp_all add: quot_int_pos conv_sizes_def)
  have "\<exists>res. ConvPerChannel G params ms shs ?ish xs ?fsh fs bias ?osh out = Inr res \<and> length res = length out \<and>
      (\<forall>i. in_shape ?osh i \<longrightarrow> res ! nat (flat_index ?osh i 0) = ?v i)"
    unfolding ConvPerChannel_def Let_def m g loop_product4 by (rule output_loop [where v = "?v", OF o(1,2) e])
  moreover have "in_i32 (\<Sum>(fy, fx, ic)\<in>T. conv_product params ?ish xs ?fsh fs fpg i fy fx ic)" "in_i32 (?s i)"
    if i: "in_shape ?osh i" and T: "T \<subseteq> filter_positions fh fw fic" for i T
  proof -
    have k: "fh * fw * fic * 32640 + \<bar>bias_of bias (i ! 3)\<bar> \<le> i32_max" using i t by auto
    then show "in_i32 (\<Sum>(fy, fx, ic)\<in>T. conv_product params ?ish xs ?fsh fs fpg i fy fx ic)"
      using conv_partial_sum [OF z i r T] by (auto simp: in_i32_def abs_if split: if_splits)
    show "in_i32 (?s i)" by (rule conv_total_exact(2) [OF z i r k])
  qed
  ultimately show ?thesis by blast
qed

text \<open>An image of two by two pixels with two channels in two groups, under a filter of one pixel.\<close>

definition plain_scale :: gemmlowp where
  "plain_scale = \<lparr>gl_SaturatingRoundingDoublingHighMul = (\<lambda>a b. a), gl_RoundingDivideByPOT = (\<lambda>a n. a div 2 ^ nat n)\<rparr>"

definition conv_example :: ConvParams where
  "conv_example = \<lparr>cv_padding_width = 0, cv_padding_height = 0, cv_stride_width = 1, cv_stride_height = 1, cv_dilation_width_factor = 1,
     cv_dilation_height_factor = 1, cv_input_offset = 1, cv_output_offset = 0, cv_quantized_activation_min = -128, cv_quantized_activation_max = 127\<rparr>"

lemma conv_example_sizes: "conv_sizes conv_example 1 2 2 2 1 1 1 1 2 2 [1, 2, 3, 4, 5, 6, 7, 8] [2, 3]"
  by (auto simp: conv_sizes_def conv_example_def in_i32_def)

theorem conv_correct_witness:
  "\<exists>res. ConvPerChannel plain_scale conv_example [0, 0] [0, 0] [1, 2, 2, 2 * 1] [1, 2, 3, 4, 5, 6, 7, 8] [2 * 1, 1, 1, 1] [2, 3] (Some [0, 1]) [1, 2, 2, 2 * 1]
      [0, 0, 0, 0, 0, 0, 0, 0] = Inr res \<and> length res = length [0, 0, 0, 0, 0, 0, 0, 0 :: int]"
proof -
  have l: "\<forall>v\<in>set [1, 2, 3, 4, 5, 6, 7, 8]. int8 v" "\<forall>v\<in>set [2, 3]. int8 v" "-127 \<le> cv_input_offset conv_example"
    "cv_input_offset conv_example \<le> 128" "int8 (cv_quantized_activation_min conv_example)" "int8 (cv_quantized_activation_max conv_example)"
    "(1 :: int) * 2 * 2 * (2 * 1) \<le> i32_max" "int (length [0, 0, 0, 0, 0, 0, 0, 0 :: int]) = 1 * 2 * 2 * (2 * 1)"
    "int (length [0, 0 :: int]) = 2 * 1" "int (length [0, 0 :: int]) = 2 * 1"
    "case Some [0, 1 :: int] of None \<Rightarrow> True | Some bs \<Rightarrow> int (length bs) = 2 * 1"
    by (simp_all add: int8_def conv_example_def)
  have t: "\<forall>c\<in>{0..<2 * 1}. 1 * 1 * 1 * 32640 + \<bar>bias_of (Some [0, 1]) c\<bar> \<le> i32_max"
  proof
    fix c :: int assume "c \<in> {0..<2 * 1}"
    then have "c = 0 \<or> c = 1" by auto
    then show "1 * 1 * 1 * 32640 + \<bar>bias_of (Some [0, 1]) c\<bar> \<le> i32_max" by (auto simp: bias_of_def)
  qed
  from conv_correct [where G = plain_scale, OF conv_example_sizes l t] show ?thesis
    by (elim exE) (intro exI conjI, erule conjunct1, erule conjunct2 [THEN conjunct1])
qed

lemma conv_example_result:
  "ConvPerChannel plain_scale conv_example [0, 0] [0, 0] [1, 2, 2, 2] [1, 2, 3, 4, 5, 6, 7, 8] [2, 1, 1, 1] [2, 3] (Some [0, 1]) [1, 2, 2, 2]
      [0, 0, 0, 0, 0, 0, 0, 0] = Inr [4, 10, 8, 16, 12, 22, 16, 28]"
  by code_simp

text \<open>
  With an output channel that is in no whole group, the code reads beyond the channels of the input: three output channels for two groups
  of one channel put the third in a group that does not exist.
\<close>

lemma conv_group_outside:
  "ConvPerChannel plain_scale conv_example [0, 0, 0] [0, 0, 0] [1, 1, 1, 2] [1, 2] [3, 1, 1, 1] [2, 3, 4] None [1, 1, 1, 3] [0, 0, 0] = Inl Outside"
  by code_simp

section \<open>A fully connected layer as a convolution\<close>

lemma loop_cong: "(\<And>x s. x \<in> set xs \<Longrightarrow> f x s = g x s) \<Longrightarrow> loop f xs s = loop g xs s"
  by (induction xs arbitrary: s) (auto simp: bind_step_def split: sum.split)

definition conv_params :: "FullyConnectedParams \<Rightarrow> ConvParams" where
  "conv_params params = \<lparr>cv_padding_width = 0, cv_padding_height = 0, cv_stride_width = 1, cv_stride_height = 1, cv_dilation_width_factor = 1,
     cv_dilation_height_factor = 1, cv_input_offset = fc_input_offset params, cv_output_offset = fc_output_offset params,
     cv_quantized_activation_min = fc_quantized_activation_min params, cv_quantized_activation_max = fc_quantized_activation_max params\<rparr>"

lemma loop_upto0_one: "loop f (upto0 1) s = f 0 s"
  by (cases "f 0 s") (simp_all add: upto0_def)

lemma dot_product_conv:
  assumes "0 \<le> c" "c < depth"
  shows "conv_accumulate (conv_params params) [n, 1, 1, ad] xs [depth, 1, 1, ad] fs depth b 0 0 c = dot_product (fc_input_offset params) xs fs ad b c"
proof -
  have "quot_int c depth = 0" using assms by (simp add: quot_int_pos)
  then show ?thesis by (simp add: conv_accumulate_def dot_product_def conv_params_def loop_upto0_one Offset_def Let_def)
qed

lemma fully_connected_conv_element:
  assumes "0 \<le> c" "c < depth"
  shows "fully_connected_element G params ms shs xs fs bias ad depth b c out =
    conv_element G (conv_params params) ms shs [n, 1, 1, ad] xs [depth, 1, 1, ad] fs bias [n, 1, 1, depth] depth b 0 0 c out"
  unfolding fully_connected_element_def conv_element_def dot_product_conv [OF assms]
  by (simp add: conv_params_def Offset_def ac_simps)

text \<open>
  Claim C35. A fully connected layer computes what a convolution does on images of a single pixel, whose channels are the inputs of the layer,
  with one filter of a single pixel for each output, for all data, including what is read and written outside of the arrays.
\<close>

theorem fully_connected_is_conv:
  assumes "0 \<le> n" "n \<le> i32_max" "0 < depth" "0 < ad"
  shows "FullyConnectedPerChannel G params ms shs xs [depth, ad] fs bias [n, depth] out =
    ConvPerChannel G (conv_params params) ms shs [n, 1, 1, ad] xs [depth, 1, 1, ad] fs bias [n, 1, 1, depth] out"
proof -
  have b: "FlatSizeSkipDim [n, depth] (length [n, depth] - 1) = n" using assms by (simp add: FlatSizeSkipDim_def upt_rec in_i32_def)
  have m: "MatchingDim [depth, 1, 1, ad] 0 [n, 1, 1, depth] 3 = depth" "MatchingDim [n, 1, 1, ad] 0 [n, 1, 1, depth] 0 = n"
    "last [n, depth] = depth" "last [depth, ad] = ad" "[n, 1, 1, depth] ! 1 = 1" "[n, 1, 1, depth] ! 2 = 1" "[n, 1, 1, ad] ! 3 = ad" "[depth, 1, 1, ad] ! 3 = ad"
    by (simp_all add: MatchingDim_def)
  have q: "quot_int ad ad = 1" "quot_int depth 1 = depth" using assms by (simp_all add: quot_int_pos)
  show ?thesis unfolding FullyConnectedPerChannel_def ConvPerChannel_def Let_def b m q loop_upto0_one
    by (intro loop_cong fully_connected_conv_element) simp_all
qed

theorem fully_connected_is_conv_witness:
  "FullyConnectedPerChannel plain_scale \<lparr>fc_input_offset = 1, fc_output_offset = 0, fc_quantized_activation_min = -128, fc_quantized_activation_max = 127\<rparr>
      [0, 0] [0, 0] [1, 2] [2, 2] [1, 2, 3, 4] None [1, 2] [0, 0] =
    ConvPerChannel plain_scale (conv_params \<lparr>fc_input_offset = 1, fc_output_offset = 0, fc_quantized_activation_min = -128, fc_quantized_activation_max = 127\<rparr>)
      [0, 0] [0, 0] [1, 1, 1, 2] [1, 2] [2, 1, 1, 2] [1, 2, 3, 4] None [1, 1, 1, 2] [0, 0]"
  by (rule fully_connected_is_conv) simp_all

section \<open>A depthwise convolution as one with a group for every channel\<close>

definition grouped_params :: "DepthwiseParams \<Rightarrow> ConvParams" where
  "grouped_params params = \<lparr>cv_padding_width = dw_padding_width params, cv_padding_height = dw_padding_height params,
     cv_stride_width = dw_stride_width params, cv_stride_height = dw_stride_height params,
     cv_dilation_width_factor = dw_dilation_width_factor params, cv_dilation_height_factor = dw_dilation_height_factor params,
     cv_input_offset = dw_input_offset params, cv_output_offset = dw_output_offset params,
     cv_quantized_activation_min = dw_quantized_activation_min params, cv_quantized_activation_max = dw_quantized_activation_max params\<rparr>"

text \<open>The same filter with the channels of the output in front.\<close>

definition channels_first :: "int \<Rightarrow> int \<Rightarrow> int \<Rightarrow> int list \<Rightarrow> int list \<Rightarrow> bool" where
  "channels_first fh fw oc fs gs \<longleftrightarrow> (\<forall>c\<in>{0..<oc}. \<forall>fy\<in>{0..<fh}. \<forall>fx\<in>{0..<fw}. rd gs (Offset [oc, fh, fw, 1] c fy fx 0) = rd fs (Offset [1, fh, fw, oc] 0 fy fx c))"

lemma upto0_append: "0 \<le> k \<Longrightarrow> 0 \<le> m \<Longrightarrow> upto0 (k + m) = upto0 k @ map ((+) k) (upto0 m)"
  unfolding upto0_def map_plus_upto using upto_split1 [of 0 k "k + m - 1"]
  by (cases "m = 0") (simp_all add: algebra_simps)

lemma upto0_product: "0 \<le> n \<Longrightarrow> 0 \<le> m \<Longrightarrow> upto0 (n * m) = map (\<lambda>(i, j). j + i * m) (List.product (upto0 n) (upto0 m))"
proof (induction n rule: int_ge_induct [of 0])
  case (step n)
  have "upto0 (n + 1) = upto0 n @ [n]" using step(1) by (simp add: upto0_append) (simp add: upto0_def)
  moreover have "upto0 ((n + 1) * m) = upto0 (n * m) @ map ((+) (n * m)) (upto0 m)"
    using upto0_append [of "n * m" m] step by (simp add: distrib_right)
  ultimately show ?case using step by (simp add: product_concat_map comp_def add.commute)
qed (simp_all add: upto0_def)

lemma depthwise_accumulate_conv:
  assumes "0 < dm" "0 \<le> ic" "ic \<le> i32_max" "0 \<le> m" "m < dm" and c: "m + ic * dm < oc" "channels_first fh fw oc fs gs"
  shows "depthwise_accumulate params [n, ih, iw, d] xs [1, fh, fw, oc] fs b y x ic (m + ic * dm) =
    conv_accumulate (grouped_params params) [n, ih, iw, d] xs [oc, fh, fw, 1] gs dm b y x (m + ic * dm)"
proof -
  have q: "quot_int (m + ic * dm) dm = ic" "in_i32 ic" using assms by (simp_all add: quot_int_pos in_i32_def)
  have f: "rd gs (Offset [oc, fh, fw, 1] (m + ic * dm) fy fx 0) = rd fs (Offset [1, fh, fw, oc] 0 fy fx (m + ic * dm))"
    if "fy \<in> set (upto0 fh)" "fx \<in> set (upto0 fw)" for fy fx
    using that assms by (auto simp: channels_first_def)
  have nth: "[1, fh, fw, oc] ! 1 = fh" "[1, fh, fw, oc] ! 2 = fw" "[oc, fh, fw, 1] ! 1 = fh" "[oc, fh, fw, 1] ! 2 = fw" "[oc, fh, fw, 1] ! 3 = 1" by simp_all
  show ?thesis unfolding depthwise_accumulate_def conv_accumulate_def Let_def nth loop_upto0_one
    by (intro loop_cong) (simp add: f q grouped_params_def)
qed

lemma depthwise_element_conv:
  assumes "0 < dm" "0 \<le> ic" "ic \<le> i32_max" "0 \<le> m" "m < dm" "m + ic * dm < oc" "oc \<le> i32_max" "channels_first fh fw oc fs gs"
    and "dw_depth_multiplier params = dm"
  shows "depthwise_element G params ms shs [n, ih, iw, d] xs [1, fh, fw, oc] fs bias osh b y x ic m out =
    conv_element G (grouped_params params) ms shs [n, ih, iw, d] xs [oc, fh, fw, 1] gs bias osh dm b y x (m + ic * dm) out"
proof -
  have "0 \<le> ic * dm" using assms(1,2) by simp
  then have "in_i32 (m + ic * dm)" using assms(4,6,7) unfolding in_i32_def by linarith
  then have w: "wrap_i32 (m + ic * dm) = m + ic * dm" by simp
  show ?thesis unfolding depthwise_element_def conv_element_def Let_def assms(9) w depthwise_accumulate_conv [OF assms(1-6,8)]
    by (simp add: grouped_params_def)
qed

text \<open>
  A depthwise convolution computes what a convolution does that has a group for every channel of the input, with the same filter stored
  channels first, for all data, including what is read and written outside of the arrays.
\<close>

lemma depthwise_is_grouped_conv:
  assumes "dw_depth_multiplier params = dm" "0 < dm" "0 < d" "oc = d * dm" "oc \<le> i32_max" "d \<le> i32_max" "channels_first fh fw oc fs gs"
  shows "DepthwiseConvPerChannel G params ms shs [n, ih, iw, d] xs [1, fh, fw, oc] fs bias [n, oh, ow, oc] out =
    ConvPerChannel G (grouped_params params) ms shs [n, ih, iw, d] xs [oc, fh, fw, 1] gs bias [n, oh, ow, oc] out"
proof -
  have m: "MatchingDim [oc, fh, fw, 1] 0 [n, oh, ow, oc] 3 = d * dm" "MatchingDim [n, ih, iw, d] 0 [n, oh, ow, oc] 0 = n"
    "[n, ih, iw, d] ! 3 = d" "[oc, fh, fw, 1] ! 3 = 1" by (simp_all add: MatchingDim_def assms(4))
  have q: "quot_int d 1 = d" "quot_int (d * dm) d = dm" using assms by (simp_all add: quot_int_pos)
  have ch: "loop (\<lambda>ic. loop (depthwise_element G params ms shs [n, ih, iw, d] xs [1, fh, fw, oc] fs bias [n, oh, ow, oc] b y x ic) (upto0 dm)) (upto0 d) s =
      loop (conv_element G (grouped_params params) ms shs [n, ih, iw, d] xs [oc, fh, fw, 1] gs bias [n, oh, ow, oc] dm b y x) (upto0 (d * dm)) s" for b y x s
  proof -
    have "m + ic * dm < oc" if "0 \<le> ic" "ic < d" "0 \<le> m" "m < dm" for ic m
      using mult_right_mono [of "ic + 1" d dm] that assms(2,4) by (simp add: distrib_right)
    then show ?thesis unfolding loop_product upto0_product [OF less_imp_le [OF assms(3)] less_imp_le [OF assms(2)]] loop_map
      by (intro loop_cong) (use assms in \<open>auto intro!: depthwise_element_conv\<close>)
  qed
  show ?thesis unfolding DepthwiseConvPerChannel_def ConvPerChannel_def Let_def m q assms(1) by (intro loop_cong) (rule ch)
qed

lemma depthwise_is_grouped_conv_witness:
  "DepthwiseConvPerChannel plain_scale \<lparr>dw_padding_width = 0, dw_padding_height = 0, dw_stride_width = 1, dw_stride_height = 1, dw_dilation_width_factor = 1,
      dw_dilation_height_factor = 1, dw_depth_multiplier = 2, dw_input_offset = 1, dw_output_offset = 0, dw_quantized_activation_min = -128,
      dw_quantized_activation_max = 127\<rparr> [0, 0] [0, 0] [1, 1, 2, 1] [3, 4] [1, 1, 2, 2] [1, 2, 3, 4] None [1, 1, 1, 2] [0, 0] =
    ConvPerChannel plain_scale (grouped_params \<lparr>dw_padding_width = 0, dw_padding_height = 0, dw_stride_width = 1, dw_stride_height = 1, dw_dilation_width_factor = 1,
      dw_dilation_height_factor = 1, dw_depth_multiplier = 2, dw_input_offset = 1, dw_output_offset = 0, dw_quantized_activation_min = -128,
      dw_quantized_activation_max = 127\<rparr>) [0, 0] [0, 0] [1, 1, 2, 1] [3, 4] [2, 1, 2, 1] [1, 3, 2, 4] None [1, 1, 1, 2] [0, 0]"
proof (rule depthwise_is_grouped_conv [where dm = 2 and d = 1])
  have "{0..<2 :: int} = {0, 1}" "{0..<1 :: int} = {0}" by auto
  then show "channels_first 1 2 2 [1, 2, 3, 4] [1, 3, 2, 4]" by (simp add: channels_first_def rd_def Offset_def wrap_i32_def)
qed simp_all

end
