(* ===== verification/ShapeOps.thy ===== *)
theory ShapeOps
  imports Kernels "HOL-Library.Log_Nat"
begin

unbundle bit_operations_syntax

text \<open>
  Operators that rearrange a tensor (\<open>lite/kernels/reshape.cc\<close>, \<open>squeeze.cc\<close>, \<open>strided_slice.cc\<close>,
  \<open>internal/strided_slice_logic.h\<close>, \<open>internal/reference/strided_slice.h\<close>): the shapes of their outputs, and the slices that a strided slice copies.
\<close>

section \<open>Reshape\<close>

text \<open>
  What sizing the output ends with: a shape, an error, or a division by zero. A shape component of -1 is computed from the others; the products are
  numbers of 64 bits.
\<close>

datatype sizing = Sized "int list" | Refused | Trap

definition GetOutputShapeFromParam :: "int list \<Rightarrow> int list" where
  "GetOutputShapeFromParam shape = (if shape = [0] then [] else shape)"

text \<open>The shape tensor, if there is one, is given with its dimensions, whether it is of type \<open>int32\<close>, and its data.\<close>

definition GetOutputShape :: "(int list \<times> bool \<times> int list) option \<Rightarrow> int list \<Rightarrow> int list" where
  "GetOutputShape shape params = (case shape of
     Some (dims, is_int32, xs) \<Rightarrow> if length dims = 1 \<and> is_int32 then take (nat (dims ! 0)) xs else GetOutputShapeFromParam params
   | None \<Rightarrow> GetOutputShapeFromParam params)"

definition count_input_elements :: "int list \<Rightarrow> int \<times> int" where
  "count_input_elements dims =
     fold (\<lambda>value (non_zero_num_input_elements, num_input_elements).
       (if value \<noteq> 0 then wrap_i64 (non_zero_num_input_elements * value) else non_zero_num_input_elements, wrap_i64 (num_input_elements * value)))
     dims (1, 1)"

fun count_output_elements :: "nat \<Rightarrow> int list \<Rightarrow> int \<times> int \<times> int \<Rightarrow> (int \<times> int \<times> int) option" where
  "count_output_elements i [] s = Some s"
| "count_output_elements i (value # shape) (non_zero_num_output_elements, num_output_elements, stretch_dim) =
     (if value = -1
      then (if stretch_dim \<noteq> -1 then None
            else count_output_elements (i + 1) shape (non_zero_num_output_elements, num_output_elements, int i))
      else count_output_elements (i + 1) shape
             (if value \<noteq> 0 then wrap_i64 (non_zero_num_output_elements * value) else non_zero_num_output_elements,
              wrap_i64 (num_output_elements * value), stretch_dim))"

definition reshape_ResizeOutput :: "int list \<Rightarrow> int list \<Rightarrow> sizing" where
  "reshape_ResizeOutput input_shape output_shape =
     (case count_input_elements input_shape of (non_zero_num_input_elements, num_input_elements) \<Rightarrow>
      (case count_output_elements 0 output_shape (1, 1, -1) of
         None \<Rightarrow> Refused
       | Some (non_zero_num_output_elements, num_output_elements, stretch_dim) \<Rightarrow>
           if stretch_dim = -1
           then (if num_input_elements \<noteq> num_output_elements then Refused else Sized output_shape)
           else if num_input_elements = 0 \<and> num_output_elements \<noteq> 0
           then (if num_input_elements \<noteq> wrap_i64 (num_output_elements * 0) then Refused else Sized (output_shape[nat stretch_dim := 0]))
           else if non_zero_num_output_elements = 0 then Trap
           else (let d = wrap_i32 (quot_int non_zero_num_input_elements non_zero_num_output_elements)
                 in if num_input_elements \<noteq> wrap_i64 (num_output_elements * d) then Refused else Sized (output_shape[nat stretch_dim := d]))))"

section \<open>Squeeze\<close>

text \<open>The dimensions to drop are marked; without a list of them all of size 1 are.\<close>

definition mark_squeezed :: "int list \<Rightarrow> int list \<Rightarrow> bool list option" where
  "mark_squeezed input_dims squeeze_dims =
     (if squeeze_dims = [] then Some (map (\<lambda>d. d = 1) input_dims)
      else fold (\<lambda>dim r. case r of None \<Rightarrow> None | Some should_squeeze \<Rightarrow>
          (let current = (if dim < 0 then dim + int (length input_dims) else dim)
           in if \<not> (current \<ge> 0 \<and> current < int (length input_dims) \<and> input_dims ! nat current = 1) then None
              else Some (should_squeeze[nat current := True])))
        squeeze_dims (Some (replicate (length input_dims) False)))"

definition squeeze_Prepare :: "int list \<Rightarrow> int list \<Rightarrow> int list option" where
  "squeeze_Prepare input_dims squeeze_dims =
     (if length input_dims > 8 then None
      else map_option (\<lambda>should_squeeze. map fst (filter (\<lambda>(d, s). \<not> s) (zip input_dims should_squeeze))) (mark_squeezed input_dims squeeze_dims))"

section \<open>Strided slices\<close>

text \<open>The masks for ellipsis and new axes, which the kernel resolves before, are zero here.\<close>

record StridedSliceParams =
  ss_start_indices :: "int list"
  ss_stop_indices :: "int list"
  ss_strides :: "int list"
  ss_begin_mask :: nat
  ss_end_mask :: nat
  ss_shrink_axis_mask :: nat
  ss_offset :: bool

definition Clamp :: "int \<Rightarrow> int \<Rightarrow> int \<Rightarrow> int" where
  "Clamp v lo hi = (if hi < v then hi else if v < lo then lo else v)"

text \<open>Indices for leading dimensions of size 1 are added; a failed check aborts the program.\<close>

definition StridedSlicePadIndices :: "StridedSliceParams \<Rightarrow> nat \<Rightarrow> StridedSliceParams option" where
  "StridedSlicePadIndices p dim_count =
     (if \<not> (dim_count \<le> 5 \<and> length (ss_start_indices p) \<le> dim_count \<and> length (ss_stop_indices p) = length (ss_start_indices p) \<and>
           length (ss_strides p) = length (ss_stop_indices p)) then None
      else (let pad_count = dim_count - length (ss_start_indices p);
                pad = (\<lambda>m. take_bit 16 (push_bit pad_count m))
            in Some (p\<lparr>ss_start_indices := replicate pad_count 0 @ ss_start_indices p, ss_stop_indices := replicate pad_count 1 @ ss_stop_indices p,
                 ss_strides := replicate pad_count 1 @ ss_strides p, ss_shrink_axis_mask := pad (ss_shrink_axis_mask p),
                 ss_begin_mask := pad (ss_begin_mask p) OR mask pad_count, ss_end_mask := pad (ss_end_mask p) OR mask pad_count\<rparr>)))"

definition StridedSliceStartForAxis :: "StridedSliceParams \<Rightarrow> RuntimeShape \<Rightarrow> nat \<Rightarrow> int" where
  "StridedSliceStartForAxis params input_shape axis =
     (let axis_size = input_shape ! axis; start = ss_start_indices params ! axis; stride = ss_strides params ! axis;
          start = (if start < 0 then start + axis_size else start);
          start = (if stride > 0 then Clamp start 0 axis_size else Clamp start (-1) (axis_size - 1))
      in if bit (ss_begin_mask params) axis then (if stride > 0 then 0 else axis_size - 1) else start)"

definition StridedSliceEndForAxis :: "StridedSliceParams \<Rightarrow> RuntimeShape \<Rightarrow> nat \<Rightarrow> int \<Rightarrow> int" where
  "StridedSliceEndForAxis params input_shape axis start =
     (let axis_size = input_shape ! axis in
      if bit (ss_shrink_axis_mask params) axis then (if start \<ge> axis_size then start else start + 1)
      else (let stop = ss_stop_indices params ! axis;
                stop = (if ss_offset params then wrap_i32 (stop + start) else stop);
                stride = ss_strides params ! axis;
                stop = (if stop < 0 then stop + axis_size else stop);
                stop = (if stride > 0 then Clamp stop 0 axis_size else Clamp stop (-1) (axis_size - 1))
            in if bit (ss_end_mask params) axis then (if stride > 0 then axis_size else -1) else stop))"

text \<open>
  The quotient of an \<open>int\<close> by a \<open>float\<close>, rounded up: both are rounded to 24 bits, and so is the quotient. The scaled quotient has
  as many bits as \<open>L\<close> says, of which 24 are kept.
\<close>

definition float_of_nat :: "nat \<Rightarrow> nat" where
  "float_of_nat n = (let k = floorlog 2 n - 24 in round_quotient n (2 ^ k) * 2 ^ k)"

definition float_quotient :: "nat \<Rightarrow> nat \<Rightarrow> nat" where
  "float_quotient n d = (let L = floorlog 2 (n * 2 ^ 32 div d) in round_quotient (n * 2 ^ 56) (d * 2 ^ L) * 2 ^ L)"

definition ceil_quotient :: "int \<Rightarrow> int \<Rightarrow> int" where
  "ceil_quotient a b =
     (let q = int (float_quotient (float_of_nat (nat \<bar>a\<bar>)) (float_of_nat (nat \<bar>b\<bar>)))
      in if (a < 0) \<noteq> (b < 0) then - (q div 2 ^ 56) else (q + 2 ^ 56 - 1) div 2 ^ 56)"

definition strided_dim :: "StridedSliceParams \<Rightarrow> RuntimeShape \<Rightarrow> int list \<Rightarrow> nat \<Rightarrow> int" where
  "strided_dim op_params input_shape end_data idx =
     (let begin = StridedSliceStartForAxis op_params input_shape idx;
          dim_shape = (if ss_offset op_params then end_data ! idx
                       else StridedSliceEndForAxis op_params input_shape idx begin - begin);
          dim_shape = ceil_quotient dim_shape (ss_strides op_params ! idx)
      in if dim_shape < 0 then 0 else dim_shape)"

definition ResizeOutputTensor :: "StridedSliceParams \<Rightarrow> RuntimeShape \<Rightarrow> int list \<Rightarrow> int list option" where
  "ResizeOutputTensor op_params effective_input_shape end_data =
     (if \<not> length effective_input_shape \<le> 5 then None
      else map_option rev (fold (\<lambda>idx r. case r of None \<Rightarrow> None | Some output_shape_vector \<Rightarrow>
          if ss_strides op_params ! idx = 0 then None
          else if bit (ss_shrink_axis_mask op_params) idx then Some output_shape_vector
          else Some (output_shape_vector @ [strided_dim op_params effective_input_shape end_data idx]))
        (rev [0..<length effective_input_shape]) (Some [])))"

text \<open>One loop of the kernel: the offsets that it goes through, if it ends.\<close>

partial_function (option) strided_offsets :: "int \<Rightarrow> int \<Rightarrow> int \<Rightarrow> int list option" where
  "strided_offsets stop stride offset =
     (if (if stride < 0 then offset > stop else offset < stop)
      then Option.bind (strided_offsets stop stride (wrap_i32 (offset + stride))) (\<lambda>os. Some (offset # os))
      else Some [])"

text \<open>The writer copies elements of the input to consecutive places of the output.\<close>

definition writer_Write :: "'a list \<Rightarrow> int \<Rightarrow> nat \<times> 'a list \<Rightarrow> stop + nat \<times> 'a list" where
  "writer_Write input_data position s = (case s of (k, output_data) \<Rightarrow>
     bind_step (rd input_data position) (\<lambda>v. bind_step (wr (int k) v output_data) (\<lambda>output_data. Inr (k + 1, output_data))))"

definition writer_WriteN :: "'a list \<Rightarrow> int \<Rightarrow> int \<Rightarrow> nat \<times> 'a list \<Rightarrow> stop + nat \<times> 'a list" where
  "writer_WriteN input_data position len = loop (\<lambda>j. writer_Write input_data (position + j)) (upto0 len)"

definition strided_index :: "RuntimeShape \<Rightarrow> int \<Rightarrow> int \<Rightarrow> int \<Rightarrow> int \<Rightarrow> int \<Rightarrow> int" where
  "strided_index shape offset_0 offset_1 offset_2 offset_3 offset_4 =
     wrap_i32 (offset_4 + offset_3 * shape ! 4 + offset_2 * shape ! 3 * shape ! 4 + offset_1 * shape ! 2 * shape ! 3 * shape ! 4 +
       offset_0 * shape ! 1 * shape ! 2 * shape ! 3 * shape ! 4)"

text \<open>
  No result stands for a program that aborts or does not return. The offsets of an axis do not depend on those of the others and are computed
  before the loops.
\<close>

definition StridedSlice ::
    "StridedSliceParams \<Rightarrow> RuntimeShape \<Rightarrow> 'a list \<Rightarrow> RuntimeShape \<Rightarrow> 'a list \<Rightarrow> (stop + nat \<times> 'a list) option" where
  "StridedSlice op_params unextended_input_shape input_data unextended_output_shape output_data =
     (case (ExtendedShape 5 unextended_input_shape, ExtendedShape 5 unextended_output_shape, StridedSlicePadIndices op_params 5) of
        (Some shape, Some _, Some params) \<Rightarrow>
          (let start = StridedSliceStartForAxis params shape; stop = (\<lambda>i. StridedSliceEndForAxis params shape i (start i));
               offsets = (\<lambda>i. strided_offsets (stop i) (ss_strides params ! i) (start i));
               inner = (if ss_strides params ! 4 = 1
                  then Some (\<lambda>o0 o1 o2 o3 s. if stop 4 - start 4 > 0
                         then writer_WriteN input_data (strided_index shape o0 o1 o2 o3 (start 4)) (stop 4 - start 4) s else Inr s)
                  else map_option (\<lambda>os o0 o1 o2 o3. loop (\<lambda>o4. writer_Write input_data (strided_index shape o0 o1 o2 o3 o4)) os) (offsets 4))
           in (case (offsets 0, offsets 1, offsets 2, offsets 3, inner) of
                 (Some os0, Some os1, Some os2, Some os3, Some write_row) \<Rightarrow>
                   Some (loop (\<lambda>o0. loop (\<lambda>o1. loop (\<lambda>o2. loop (\<lambda>o3. write_row o0 o1 o2 o3) os3) os2) os1) os0 (0, output_data))
               | _ \<Rightarrow> None))
      | _ \<Rightarrow> None)"


section \<open>Products of dimensions\<close>

abbreviation non_zero :: "int list \<Rightarrow> int" where
  "non_zero dims \<equiv> prod_list (filter (\<lambda>d. d \<noteq> 0) dims)"

lemma wrap_i64_id: "\<bar>i\<bar> \<le> i32_max * i32_max \<Longrightarrow> wrap_i64 i = i"
  by (auto simp: wrap_i64_def abs_if split: if_splits)

lemma prod_list_non_zero: "prod_list dims = (if 0 \<in> set dims then 0 else non_zero dims)" for dims :: "int list"
  by (induction dims) auto

lemma non_zero_pos: "\<forall>d\<in>set dims. 0 \<le> d \<Longrightarrow> 0 < non_zero dims"
  by (induction dims) (auto simp: order_le_less)

lemma prod_list_bounds: "\<forall>d\<in>set dims. 0 \<le> d \<Longrightarrow> 0 \<le> prod_list dims \<and> prod_list dims \<le> non_zero dims"
  using prod_list_non_zero [of dims] non_zero_pos [of dims] by auto

section \<open>Reshaping\<close>

lemma mult_le_i64: "0 \<le> a \<Longrightarrow> a \<le> i32_max \<Longrightarrow> 0 \<le> b \<Longrightarrow> b \<le> i32_max \<Longrightarrow> wrap_i64 (a * b) = a * b"
  by (rule wrap_i64_id) (use mult_mono [of a i32_max b i32_max] in \<open>simp add: abs_mult\<close>)

lemma product_step:
  assumes "1 \<le> a" "0 \<le> b" "b \<le> a" "0 < v" "1 \<le> k" "a * (v * k) \<le> i32_max"
  shows "wrap_i64 (a * v) = a * v" "wrap_i64 (b * v) = b * v" "1 \<le> a * v" "0 \<le> b * v" "b * v \<le> a * v" "a * v * k \<le> i32_max"
proof -
  have av: "1 \<le> a * v" using mult_mono [of 1 a 1 v] assms by simp
  have "a * v * 1 \<le> a * v * k" by (rule mult_left_mono) (use av assms(5) in simp_all)
  then have m: "a * v \<le> i32_max" using assms(6) by (simp add: mult.assoc)
  show "b * v \<le> a * v" "0 \<le> b * v" "1 \<le> a * v" "a * v * k \<le> i32_max" using assms av by (simp_all add: mult_right_mono mult.assoc)
  with m have "\<bar>a * v\<bar> \<le> i32_max * i32_max" "\<bar>b * v\<bar> \<le> i32_max * i32_max" by (simp_all add: abs_if)
  then show "wrap_i64 (a * v) = a * v" "wrap_i64 (b * v) = b * v" by (simp_all add: wrap_i64_id)
qed

lemma non_zero_ge_1: "\<forall>d\<in>set dims. 0 \<le> d \<Longrightarrow> 1 \<le> non_zero dims"
  using non_zero_pos [of dims] by simp

lemma count_input_elements_exact:
  assumes "\<forall>d\<in>set dims. 0 \<le> d" "non_zero dims \<le> i32_max"
  shows "count_input_elements dims = (non_zero dims, prod_list dims)"
proof -
  let ?f = "\<lambda>v (a, b). (if v \<noteq> 0 then wrap_i64 (a * v) else a, wrap_i64 (b * v))"
  have "fold ?f dims (a, b) = (a * non_zero dims, b * prod_list dims)" if "1 \<le> a" "0 \<le> b" "b \<le> a" "a * non_zero dims \<le> i32_max" for a b
    using assms(1) that
  proof (induction dims arbitrary: a b)
    case (Cons v dims)
    show ?case
    proof (cases "v = 0")
      case True
      then have "fold ?f dims (a, 0) = (a * non_zero dims, 0 * prod_list dims)" using Cons.prems by (intro Cons.IH) simp_all
      then show ?thesis using True by (simp add: wrap_i64_def)
    next
      case False
      then have "0 < v" "1 \<le> non_zero dims" using Cons.prems(1) non_zero_ge_1 [of dims] by (auto simp: order_le_less)
      note p = product_step [OF Cons.prems(2-4) this]
      have q: "a * (v * non_zero dims) \<le> i32_max" using Cons.prems(5) False by simp
      show ?thesis using Cons.IH [OF _ p(3,4,5,6)] Cons.prems(1) p(1,2) q False by (simp add: mult.assoc)
    qed
  qed simp
  from this [of 1 1] assms(2) show ?thesis by (simp add: count_input_elements_def)
qed

abbreviation given :: "int list \<Rightarrow> int list" where
  "given shape \<equiv> filter (\<lambda>v. v \<noteq> -1) shape"

lemma count_output_elements_exact:
  assumes "\<forall>v\<in>set shape. -1 \<le> v" "1 \<le> a" "0 \<le> b" "b \<le> a" "a * non_zero (given shape) \<le> i32_max"
  shows "count_output_elements i shape (a, b, st) =
    (if count_list shape (-1) > (if st = -1 then 1 else 0) then None
     else Some (a * non_zero (given shape), b * prod_list (given shape),
       if -1 \<in> set shape then int (i + length (takeWhile (\<lambda>v. v \<noteq> -1) shape)) else st))"
  using assms
proof (induction shape arbitrary: i a b st)
  case (Cons v shape)
  consider "v = -1" | "v = 0" | "0 < v" using Cons.prems(1) by fastforce
  then show ?case
  proof cases
    case 1
    have "count_output_elements (i + 1) shape (a, b, int i) = (if count_list shape (-1) > 0 then None
      else Some (a * non_zero (given shape), b * prod_list (given shape), if -1 \<in> set shape then int (i + 1 + length (takeWhile (\<lambda>v. v \<noteq> -1) shape)) else int i))"
      using Cons.IH [of a b "i + 1" "int i"] Cons.prems 1 by simp
    then show ?thesis using 1 by (auto simp: count_list_0_iff)
  next
    case 2
    have "count_output_elements (i + 1) shape (a, 0, st) = (if count_list shape (-1) > (if st = -1 then 1 else 0) then None
      else Some (a * non_zero (given shape), 0 * prod_list (given shape), if -1 \<in> set shape then int (i + 1 + length (takeWhile (\<lambda>v. v \<noteq> -1) shape)) else st))"
      by (rule Cons.IH) (use Cons.prems 2 in simp_all)
    then show ?thesis using 2 by (simp add: wrap_i64_def)
  next
    case 3
    have "1 \<le> non_zero (given shape)" by (rule non_zero_ge_1) (use Cons.prems(1) in \<open>auto simp: order_le_less\<close>)
    note p = product_step [OF Cons.prems(2-4) 3 this]
    have q: "a * (v * non_zero (given shape)) \<le> i32_max" using Cons.prems(5) 3 by simp
    show ?thesis using Cons.IH [OF _ p(3,4,5,6), of "i + 1" st] Cons.prems(1) p(1,2) q 3 by (simp add: mult.assoc)
  qed
qed simp

text \<open>A shape that is as asked for, with a size for a component of -1.\<close>

definition completes :: "int list \<Rightarrow> int list \<Rightarrow> bool" where
  "completes shape out \<longleftrightarrow> list_all2 (\<lambda>v w. if v = -1 then 0 \<le> w else w = v) shape out"

lemma completes_simps [simp]:
  "completes [] out \<longleftrightarrow> out = []"
  "completes (v # shape) out \<longleftrightarrow> (\<exists>w ws. out = w # ws \<and> (if v = -1 then 0 \<le> w else w = v) \<and> completes shape ws)"
  by (auto simp: completes_def list_all2_Cons1)

lemma completes_given: "-1 \<notin> set shape \<Longrightarrow> completes shape out \<longleftrightarrow> out = shape"
  by (induction shape arbitrary: out) auto

lemma completes_stretch: "-1 \<notin> set xs \<Longrightarrow> -1 \<notin> set ys \<Longrightarrow> completes (xs @ -1 # ys) out \<longleftrightarrow> (\<exists>d\<ge>0. out = xs @ d # ys)"
  by (induction xs arbitrary: out) (auto simp: completes_given)

lemma given_id: "-1 \<notin> set xs \<Longrightarrow> given xs = xs"
  by (induction xs) auto

lemma one_stretch: "count_list shape (-1) = Suc 0 \<Longrightarrow> \<exists>xs ys. shape = xs @ -1 # ys \<and> -1 \<notin> set xs \<and> -1 \<notin> set ys" for shape :: "int list"
proof -
  assume a: "count_list shape (-1) = Suc 0"
  then have "-1 \<in> set shape" by (metis count_notin nat.distinct(1))
  then obtain xs ys where "shape = xs @ -1 # ys" "-1 \<notin> set xs" by (meson split_list_first)
  with a show ?thesis by (auto simp: count_list_0_iff)
qed

text \<open>The size for the component of -1, in terms of the products of the input and of the other components.\<close>

lemma stretch_size:
  assumes "n = (if z then 0 else nz)" "q = (if z' then 0 else nq)" "0 < nz" "nz \<le> i32_max" "0 < nq" "nq \<le> i32_max"
    and d: "d = (if n = 0 \<and> q \<noteq> 0 then 0 else wrap_i32 (quot_int nz nq))"
  shows "0 \<le> d \<and> wrap_i64 (q * d) = q * d \<and> (n = q * d \<longleftrightarrow> (\<exists>e\<ge>0. n = q * e))"
proof -
  have "0 \<le> nz div nq" "nz div nq \<le> nz" using assms(3,5) zdiv_mono2 [of nz 1 nq] by (simp_all add: pos_imp_zdiv_nonneg_iff)
  then have "0 \<le> d" "d \<le> i32_max" and d': "d = (if n = 0 \<and> q \<noteq> 0 then 0 else nz div nq)"
    using assms(3-5) by (auto simp: d quot_int_pos in_i32_def)
  moreover have "0 \<le> q" "q \<le> i32_max" using assms(2,5,6) by simp_all
  moreover have "n = q * d" if "n = q * e" "0 \<le> e" for e
    using that assms(1,2,3,5) by (auto simp: d' split: if_splits)
  ultimately show ?thesis using mult_le_i64 [of q d] by blast
qed

text \<open>
  The shape of a reshaped tensor: with at most one component of -1 the output is sized exactly if some size for it keeps the number of
  elements, and then it is the shape asked for with such a size; two components of -1 are refused, and there is no division by zero.
\<close>

lemma reshape_sizes:
  assumes "\<forall>d\<in>set dims. 0 \<le> d" "\<forall>v\<in>set shape. -1 \<le> v" "non_zero dims \<le> i32_max" "non_zero (given shape) \<le> i32_max"
  shows "case reshape_ResizeOutput dims shape of
      Sized out \<Rightarrow> completes shape out \<and> prod_list out = prod_list dims
    | Refused \<Rightarrow> count_list shape (-1) > 1 \<or> (\<nexists>out. completes shape out \<and> prod_list out = prod_list dims)
    | Trap \<Rightarrow> False"
proof -
  have c: "count_output_elements 0 shape (1, 1, -1) = (if count_list shape (-1) > 1 then None
     else Some (non_zero (given shape), prod_list (given shape), if -1 \<in> set shape then int (length (takeWhile (\<lambda>v. v \<noteq> -1) shape)) else -1))"
    using count_output_elements_exact [of shape 1 1 0 "-1"] assms by simp
  note i = count_input_elements_exact [OF assms(1,3)]
  consider "count_list shape (-1) > 1" | "-1 \<notin> set shape" "count_list shape (-1) = 0" | "count_list shape (-1) = Suc 0"
    by (metis One_nat_def count_list_0_iff less_one linorder_neqE_nat)
  then show ?thesis
  proof cases
    case 1
    then show ?thesis by (simp add: reshape_ResizeOutput_def i c)
  next
    case 2
    then show ?thesis using completes_given [OF 2(1)] by (simp add: reshape_ResizeOutput_def i c given_id)
  next
    case 3
    then obtain xs ys where s: "shape = xs @ -1 # ys" "-1 \<notin> set xs" "-1 \<notin> set ys" using one_stretch by blast
    have t: "takeWhile (\<lambda>v. v \<noteq> -1) shape = xs" unfolding s(1) using s(2) by (induction xs) auto
    define q nq where "q = prod_list (given shape)" and "nq = non_zero (given shape)"
    have o: "prod_list (xs @ d # ys) = q * d" for d using s by (simp add: q_def given_id)
    define d where "d = (if prod_list dims = 0 \<and> q \<noteq> 0 then 0 else wrap_i32 (quot_int (non_zero dims) nq))"
    have "\<forall>v\<in>set (given shape). 0 \<le> v" using assms(2) by (auto simp: order_le_less)
    from non_zero_pos [OF assms(1)] non_zero_pos [OF this] have p: "0 < non_zero dims" "0 < nq" unfolding nq_def .
    note z = stretch_size [OF prod_list_non_zero prod_list_non_zero p(1) assms(3) p(2) [unfolded nq_def] assms(4), folded q_def nq_def, OF d_def]
    have c': "count_output_elements 0 shape (1, 1, -1) = Some (nq, q, int (length xs))"
      using c 3 t s(1) by (simp add: q_def nq_def)
    have u: "shape[length xs := e] = xs @ e # ys" for e by (simp add: s(1))
    have "reshape_ResizeOutput dims shape = (if prod_list dims \<noteq> q * d then Refused else Sized (xs @ d # ys))"
    proof (cases "prod_list dims = 0 \<and> q \<noteq> 0")
      case True
      then show ?thesis by (simp add: reshape_ResizeOutput_def i c' u d_def wrap_i64_def)
    next
      case False
      then have w: "wrap_i32 (quot_int (non_zero dims) nq) = d" by (auto simp: d_def)
      have "wrap_i64 (q * d) = q * d" using z by blast
      then show ?thesis using False p(2) by (auto simp: reshape_ResizeOutput_def i c' u w Let_def)
    qed
    moreover have "(\<exists>out. completes shape out \<and> prod_list out = prod_list dims) \<longleftrightarrow> (\<exists>e\<ge>0. prod_list dims = q * e)"
      unfolding s(1) completes_stretch [OF s(2,3)] by (metis o)
    ultimately show ?thesis using z s completes_stretch [OF s(2,3)] o by auto
  qed
qed

lemma reshape_sizes_witness:
  "case reshape_ResizeOutput [1, 49, 40, 1] [-1, 40] of Sized out \<Rightarrow> completes [-1, 40] out \<and> prod_list out = prod_list [1, 49, 40, 1]
    | Refused \<Rightarrow> count_list [-1, 40 :: int] (-1) > 1 \<or> (\<nexists>out. completes [-1, 40] out \<and> prod_list out = prod_list [1, 49, 40, 1]) | Trap \<Rightarrow> False"
  by (rule reshape_sizes) simp_all

text \<open>Negative components that are not -1 are not refused; and products of 64 bits may be zero, which traps.\<close>

lemma reshape_negative: "reshape_ResizeOutput [6] [-2, -3] = Sized [-2, -3]"
  by code_simp

lemma reshape_trap: "reshape_ResizeOutput [6] [65536, 65536, 65536, 65536, -1] = Trap"
  by code_simp

text \<open>Squeezing drops dimensions of size 1 only, so a reshape to the squeezed shape is accepted.\<close>

lemma mark_squeezed_ones:
  assumes "mark_squeezed dims sq = Some marks"
  shows "length marks = length dims \<and> (\<forall>i<length dims. marks ! i \<longrightarrow> dims ! i = 1)"
proof (cases "sq = []")
  case False
  define c where "c = (\<lambda>dim. if dim < 0 then dim + int (length dims) else dim)"
  define f where "f = (\<lambda>dim r. case r of None \<Rightarrow> None | Some should_squeeze \<Rightarrow>
      (let current = c dim in if \<not> (current \<ge> 0 \<and> current < int (length dims) \<and> dims ! nat current = 1) then None
       else Some (should_squeeze[nat current := True])))"
  have none: "fold f sq None = None" for sq by (induction sq) (simp_all add: f_def)
  have "fold f sq (Some ms) = Some marks \<Longrightarrow> length ms = length dims \<Longrightarrow> \<forall>i<length dims. ms ! i \<longrightarrow> dims ! i = 1 \<Longrightarrow>
      length marks = length dims \<and> (\<forall>i<length dims. marks ! i \<longrightarrow> dims ! i = 1)" for ms
  proof (induction sq arbitrary: ms)
    case (Cons x sq)
    have f: "f x (Some ms) = (if c x \<ge> 0 \<and> c x < int (length dims) \<and> dims ! nat (c x) = 1 then Some (ms[nat (c x) := True]) else None)"
      by (simp add: f_def Let_def)
    have c: "0 \<le> c x" "c x < int (length dims)" "dims ! nat (c x) = 1" using Cons.prems(1) none f by (auto split: if_splits)
    then have "fold f sq (Some (ms[nat (c x) := True])) = Some marks" using Cons.prems(1) f by simp
    then show ?case by (rule Cons.IH) (use Cons.prems(2,3) c in \<open>auto simp: nth_list_update\<close>)
  qed simp
  moreover have "mark_squeezed dims sq = fold f sq (Some (replicate (length dims) False))"
    by (simp only: mark_squeezed_def f_def c_def False if_False)
  ultimately show ?thesis using assms by simp
qed (use assms in \<open>auto simp: mark_squeezed_def\<close>)

lemma squeeze_keeps_elements:
  assumes "squeeze_Prepare dims sq = Some out"
  shows "prod_list out = prod_list dims \<and> filter (\<lambda>d. d \<noteq> 1) out = filter (\<lambda>d. d \<noteq> 1) dims"
proof -
  obtain marks where m: "mark_squeezed dims sq = Some marks" "out = map fst (filter (\<lambda>(d, s). \<not> s) (zip dims marks))"
    using assms by (auto simp: squeeze_Prepare_def split: if_splits)
  have "length ms = length ds \<Longrightarrow> \<forall>i<length ds. ms ! i \<longrightarrow> ds ! i = 1 \<Longrightarrow>
    prod_list (map fst (filter (\<lambda>(d, s). \<not> s) (zip ds ms))) = prod_list ds \<and>
    filter (\<lambda>d. d \<noteq> 1) (map fst (filter (\<lambda>(d, s). \<not> s) (zip ds ms))) = filter (\<lambda>d. d \<noteq> 1) ds" for ms and ds :: "int list"
    by (induction ms ds rule: list_induct2) (force simp: All_less_Suc2)+
  with mark_squeezed_ones [OF m(1)] m(2) show ?thesis by blast
qed

section \<open>Quotients of floating-point numbers\<close>

lemma float_of_nat_small: "n < 2 ^ 24 \<Longrightarrow> float_of_nat n = n"
proof -
  assume "n < 2 ^ 24"
  then have "floorlog 2 n - 24 = 0" by (simp add: floorlog_le_iff del: power_numeral)
  then show ?thesis by (simp add: float_of_nat_def round_quotient_def)
qed

lemma float_quotient_close:
  assumes "0 < n" "n < 2 ^ 24" "0 < d" "d < 2 ^ 24"
  shows "float_quotient n d * d < (n + 1) * 2 ^ 56" "n * 2 ^ 56 < (float_quotient n d * d) + 2 ^ 56"
proof -
  define L v where "L = floorlog 2 (n * 2 ^ 32 div d)" and "v = round_quotient (n * 2 ^ 56) (d * 2 ^ L)"
  have F: "float_quotient n d * d = v * (d * 2 ^ L)" by (simp add: float_quotient_def Let_def L_def v_def ac_simps)
  have "d \<le> n * 2 ^ 32" using assms mult_le_mono [of 1 n "2 ^ 24" "2 ^ 32"] by simp
  then have p: "0 < n * 2 ^ 32 div d" using assms(3) by (simp add: div_greater_zero_iff)
  then have L: "0 < L" by (simp add: L_def floorlog_def del: power_numeral)
  have "2 ^ (L - 1) \<le> n * 2 ^ 32 div d" using floorlog_bounds [of "n * 2 ^ 32 div d" 2] p by (simp add: L_def del: power_numeral)
  then have "2 ^ (L - 1) * d \<le> n * 2 ^ 32 div d * d" by (rule mult_le_mono1)
  also have "\<dots> \<le> n * 2 ^ 32" by (rule div_times_less_eq_dividend)
  finally have "2 * (2 ^ (L - 1) * d) \<le> 2 * (n * 2 ^ 32)" by (rule mult_le_mono2)
  moreover have "d * 2 ^ L = 2 * (2 ^ (L - 1) * d)" using L by (cases L) simp_all
  ultimately have D: "d * 2 ^ L \<le> 2 * (n * 2 ^ 32)" by (simp only:)
  have N: "n * 2 ^ 32 < 2 ^ 56" using assms(2) by simp
  have "0 < d * 2 ^ L" using assms(3) by simp
  from round_quotient_close [OF this, of "n * 2 ^ 56", folded v_def] D N
  have "v * (d * 2 ^ L) < n * 2 ^ 56 + 2 ^ 56 \<and> n * 2 ^ 56 < v * (d * 2 ^ L) + 2 ^ 56" by linarith
  then show "float_quotient n d * d < (n + 1) * 2 ^ 56" "n * 2 ^ 56 < (float_quotient n d * d) + 2 ^ 56" unfolding F by (simp_all add: distrib_right)
qed

lemma float_quotient_exact:
  assumes "0 < q" "q * d < 2 ^ 24" "0 < d" shows "float_quotient (q * d) d = q * 2 ^ 56"
proof -
  have e: "q * d * 2 ^ 32 div d = q * 2 ^ 32" using assms(3) by (simp add: ac_simps)
  have "q < 2 ^ 24" using assms mult_le_mono2 [of 1 d q] by linarith
  then have "q * 2 ^ 32 < 2 ^ 56" by simp
  then have L: "floorlog 2 (q * 2 ^ 32) \<le> 56" by (simp add: floorlog_le_iff del: power_numeral)
  define L where "L = floorlog 2 (q * 2 ^ 32)"
  have "(2 :: nat) ^ L dvd 2 ^ 56" using L by (simp add: L_def le_imp_power_dvd del: power_numeral)
  then have "d * 2 ^ L dvd q * d * 2 ^ 56" by (auto simp: dvd_def simp del: power_numeral)
  then have "round_quotient (q * d * 2 ^ 56) (d * 2 ^ L) * (d * 2 ^ L) = q * d * 2 ^ 56" using assms(3) by (intro round_quotient_exact) simp_all
  then show ?thesis using assms(3) unfolding float_quotient_def Let_def e L_def [symmetric] by (simp add: ac_simps)
qed

lemma float_quotient_rounds:
  assumes "n < 2 ^ 24" "0 < d" "d < 2 ^ 24"
  shows "float_quotient n d div 2 ^ 56 = n div d \<and> (float_quotient n d + 2 ^ 56 - 1) div 2 ^ 56 = (n + d - 1) div d"
proof -
  define q where "q = n div d"
  have n: "q * d \<le> n" "n < (q + 1) * d" using assms(2) by (simp_all add: q_def dividend_less_div_times)
  consider "n = 0" | "0 < n" "n = q * d" | "0 < n" "q * d < n" using n(1) by linarith
  then show ?thesis
  proof cases
    case 1
    then show ?thesis using assms(2) by (simp add: float_quotient_def round_quotient_def)
  next
    case 2
    then have "float_quotient n d = q * 2 ^ 56" using float_quotient_exact [of q d] assms by (cases "q = 0") simp_all
    moreover have "(q * d + d - 1) div d = q" using assms(2) by (simp add: div_nat_eqI algebra_simps)
    ultimately show ?thesis using assms(2) 2 by (simp add: div_nat_eqI)
  next
    case 3
    define F where "F = float_quotient n d"
    note c = float_quotient_close [OF 3(1) assms(1,2,3), folded F_def]
    have "F * d < (q + 1) * d * 2 ^ 56" using c(1) mult_le_mono1 [of "n + 1" "(q + 1) * d" "2 ^ 56"] n(2) by linarith
    then have "F * d < (q + 1) * 2 ^ 56 * d" by (simp only: ac_simps)
    then have u: "F < (q + 1) * 2 ^ 56" using assms(2) by (simp only: mult_less_cancel2)
    have "(q * d + 1) * 2 ^ 56 \<le> n * 2 ^ 56" using 3(2) by (intro mult_le_mono1) simp
    then have "q * d * 2 ^ 56 < F * d" using c(2) by (simp only: distrib_right)
    then have "q * 2 ^ 56 * d < F * d" by (simp only: ac_simps)
    then have l: "q * 2 ^ 56 < F" using assms(2) by (simp only: mult_less_cancel2)
    have "(n + d - 1) div d = q + 1" using 3(2) n assms(2) by (intro div_nat_eqI) (simp_all add: algebra_simps)
    moreover have "F div 2 ^ 56 = q" "(F + 2 ^ 56 - 1) div 2 ^ 56 = q + 1" using u l by (simp_all add: div_nat_eqI)
    ultimately show ?thesis by (simp only: F_def q_def)
  qed
qed

lemma ceil_quotient_exact:
  assumes "\<bar>a\<bar> < 2 ^ 24" "b \<noteq> 0" "\<bar>b\<bar> < 2 ^ 24" shows "ceil_quotient a b = - ((- a) div b)"
proof -
  define n d where "n = nat \<bar>a\<bar>" and "d = nat \<bar>b\<bar>"
  have nd: "n < 2 ^ 24" "0 < d" "d < 2 ^ 24" "int n = \<bar>a\<bar>" "int d = \<bar>b\<bar>" using assms by (simp_all add: n_def d_def nat_less_iff)
  define F where "F = float_quotient n d"
  have F: "F div 2 ^ 56 = n div d" "(F + 2 ^ 56 - 1) div 2 ^ 56 = (n + d - 1) div d" using float_quotient_rounds [OF nd(1-3)] by (simp_all only: F_def)
  have "(int F + 2 ^ 56 - 1) div 2 ^ 56 = int ((F + 2 ^ 56 - 1) div 2 ^ 56)" by (simp add: zdiv_int of_nat_diff)
  also have "\<dots> = int (n + d - 1) div int d" unfolding F(2) by (rule zdiv_int)
  also have "int (n + d - 1) = \<bar>a\<bar> + \<bar>b\<bar> - 1" using nd(2,4,5) by linarith
  finally have I: "(int F + 2 ^ 56 - 1) div 2 ^ 56 = (\<bar>a\<bar> + \<bar>b\<bar> - 1) div \<bar>b\<bar>" unfolding nd(5) .
  have "int F div 2 ^ 56 = int (F div 2 ^ 56)" by (simp add: zdiv_int)
  also have "\<dots> = int n div int d" unfolding F(1) by (rule zdiv_int)
  finally have I2: "int F div 2 ^ 56 = \<bar>a\<bar> div \<bar>b\<bar>" unfolding nd(4,5) .
  have c: "(x + y - 1) div y = - ((- x) div y)" if "0 < y" for x y :: int
  proof -
    define k m where "k = (- x) div y" and "m = (- x) mod y"
    have x: "- x = k * y + m" "0 \<le> m" "m < y" using that by (simp_all add: k_def m_def)
    then have "x + y - 1 = (- k) * y + (y - 1 - m)" by simp
    moreover have "((- k) * y + (y - 1 - m)) div y = - k + (y - 1 - m) div y" using that by (intro div_mult_self3) simp
    moreover have "(y - 1 - m) div y = 0" using x by (intro div_pos_pos_trivial) linarith+
    ultimately show ?thesis by (simp only: k_def)
  qed
  have q: "ceil_quotient a b = (if (a < 0) \<noteq> (b < 0) then - (int F div 2 ^ 56) else (int F + 2 ^ 56 - 1) div 2 ^ 56)"
    unfolding ceil_quotient_def Let_def n_def [symmetric] d_def [symmetric] float_of_nat_small [OF nd(1)] float_of_nat_small [OF nd(3)] F_def ..
  show ?thesis
  proof (cases "0 < b")
    case True
    then show ?thesis unfolding q I I2 using c [of b a] by (cases "a < 0") simp_all
  next
    case False
    then show ?thesis unfolding q I I2 using c [of "- b" "- a"] assms(2) by (cases "a < 0"; cases "a = 0") (simp_all add: div_minus_right)
  qed
qed

section \<open>The offsets of a loop\<close>

abbreviation slice_count :: "int \<Rightarrow> int \<Rightarrow> int \<Rightarrow> int" where
  "slice_count stop stride offset \<equiv> max 0 (- ((offset - stop) div stride))"

lemma slice_count_pos:
  assumes "stride \<noteq> 0" shows "(if stride < 0 then offset > stop else offset < stop) \<longleftrightarrow> 0 < slice_count stop stride offset"
proof (cases "0 < stride")
  case True
  then have "(offset - stop) div stride < 0 \<longleftrightarrow> offset - stop < 0" by (rule pos_imp_zdiv_neg_iff)
  then show ?thesis using True by auto
next
  case False
  then have "0 \<le> (offset - stop) div stride \<longleftrightarrow> offset - stop \<le> 0" using assms by (intro neg_imp_zdiv_nonneg_iff) simp
  then show ?thesis using False assms by auto
qed

lemma upto0_Cons: "0 < c \<Longrightarrow> upto0 c = 0 # map ((+) 1) (upto0 (c - 1))"
  unfolding upto0_def map_plus_upto using upto_rec1 [of 0 "c - 1"] by simp

lemma strided_offsets_exact:
  assumes "stride \<noteq> 0" and "if 0 < stride then i32_min \<le> offset \<and> stop + stride \<le> i32_max else offset \<le> i32_max \<and> i32_min \<le> stop + stride"
  shows "strided_offsets stop stride offset = Some (map (\<lambda>j. offset + j * stride) (upto0 (slice_count stop stride offset)))"
  using assms(2)
proof (induction "nat (slice_count stop stride offset)" arbitrary: offset)
  case 0
  then have "\<not> (if stride < 0 then offset > stop else offset < stop)" unfolding slice_count_pos [OF assms(1)] by simp
  then show ?case using 0 by (subst strided_offsets.simps) (auto simp: upto0_def)
next
  case (Suc c)
  then have "0 < slice_count stop stride offset" by simp
  then have l: "if stride < 0 then offset > stop else offset < stop" unfolding slice_count_pos [OF assms(1)] .
  have n: "slice_count stop stride (offset + stride) = slice_count stop stride offset - 1"
  proof -
    have "(offset + stride - stop) div stride = (offset - stop) div stride + 1"
      using div_add_self2 [OF assms(1), of "offset - stop"] by (simp add: algebra_simps)
    then show ?thesis using \<open>0 < slice_count stop stride offset\<close> by linarith
  qed
  have b: "if 0 < stride then i32_min \<le> offset + stride \<and> stop + stride \<le> i32_max else offset + stride \<le> i32_max \<and> i32_min \<le> stop + stride"
    "in_i32 (offset + stride)" using Suc.prems l assms(1) by (auto simp: in_i32_def split: if_splits)
  have "strided_offsets stop stride (offset + stride) = Some (map (\<lambda>j. offset + stride + j * stride) (upto0 (slice_count stop stride offset - 1)))"
    using Suc.hyps(1) [OF _ b(1)] Suc.hyps(2) unfolding n by simp
  moreover have "upto0 (slice_count stop stride offset) = 0 # map ((+) 1) (upto0 (slice_count stop stride offset - 1))"
    by (rule upto0_Cons) fact
  ultimately show ?case using l b(2) by (subst strided_offsets.simps) (simp add: comp_def distrib_right add.assoc)
qed

lemma slice_count_inside:
  assumes "stride \<noteq> 0" "0 \<le> j" "j < slice_count stop stride offset"
  shows "if 0 < stride then offset \<le> offset + j * stride \<and> offset + j * stride < stop else offset + j * stride \<le> offset \<and> stop < offset + j * stride"
proof -
  have "slice_count stop stride (offset + j * stride) = max 0 (- ((offset - stop) div stride) - j)"
    using div_mult_self1 [OF assms(1), of "offset - stop" j] by (simp add: algebra_simps)
  then have "0 < slice_count stop stride (offset + j * stride)" using assms(2,3) by linarith
  then have "if stride < 0 then offset + j * stride > stop else offset + j * stride < stop" unfolding slice_count_pos [OF assms(1)] .
  then show ?thesis using assms(1,2) by (auto simp: mult_nonneg_nonpos split: if_splits)
qed

section \<open>The axes of a slice\<close>

lemma Clamp_bounds: "lo \<le> hi \<Longrightarrow> lo \<le> Clamp v lo hi \<and> Clamp v lo hi \<le> hi"
  by (auto simp: Clamp_def)

lemma start_bounds:
  assumes "0 \<le> shape ! a"
  shows "if 0 < ss_strides p ! a then 0 \<le> StridedSliceStartForAxis p shape a \<and> StridedSliceStartForAxis p shape a \<le> shape ! a
    else -1 \<le> StridedSliceStartForAxis p shape a \<and> StridedSliceStartForAxis p shape a \<le> shape ! a - 1"
  using assms Clamp_bounds [of 0 "shape ! a"] Clamp_bounds [of "-1" "shape ! a - 1"] by (auto simp: StridedSliceStartForAxis_def Let_def)

lemma end_bounds:
  assumes "0 \<le> shape ! a" "\<not> bit (ss_shrink_axis_mask p) a"
  shows "if 0 < ss_strides p ! a then 0 \<le> StridedSliceEndForAxis p shape a s \<and> StridedSliceEndForAxis p shape a s \<le> shape ! a
    else -1 \<le> StridedSliceEndForAxis p shape a s \<and> StridedSliceEndForAxis p shape a s \<le> shape ! a - 1"
  using assms Clamp_bounds [of 0 "shape ! a"] Clamp_bounds [of "-1" "shape ! a - 1"] by (auto simp: StridedSliceEndForAxis_def Let_def)

text \<open>An axis with sizes below 2 to the 24: the size computed in floating point is the number of turns of the loop, which stays inside of the axis.\<close>

lemma strided_axis:
  assumes n: "0 \<le> shape ! a" "shape ! a < 2 ^ 24" and t: "ss_strides p ! a \<noteq> 0" "\<bar>ss_strides p ! a\<bar> < 2 ^ 24"
    and "\<not> bit (ss_shrink_axis_mask p) a" "\<not> ss_offset p" and S: "S = StridedSliceStartForAxis p shape a"
  shows "strided_offsets (StridedSliceEndForAxis p shape a S) (ss_strides p ! a) S = Some (map (\<lambda>j. S + j * ss_strides p ! a) (upto0 (strided_dim p shape ed a)))"
    and "0 \<le> j \<Longrightarrow> j < strided_dim p shape ed a \<Longrightarrow> 0 \<le> S + j * ss_strides p ! a \<and> S + j * ss_strides p ! a < shape ! a" and "0 \<le> strided_dim p shape ed a"
    and "ss_strides p ! a = 1 \<Longrightarrow> strided_dim p shape ed a = max 0 (StridedSliceEndForAxis p shape a S - S)"
proof -
  define E T where "E = StridedSliceEndForAxis p shape a S" and "T = ss_strides p ! a"
  note b = start_bounds [OF n(1), of p, folded S T_def] end_bounds [OF n(1) assms(5), of S, folded E_def T_def]
  have "\<bar>E - S\<bar> < 2 ^ 24" using b n(2) by (auto split: if_splits)
  then have c: "ceil_quotient (E - S) T = - ((S - E) div T)" using ceil_quotient_exact [of "E - S" T] t by (simp add: T_def)
  then have d: "strided_dim p shape ed a = slice_count E T S"
    using assms(6) by (simp add: strided_dim_def Let_def S [symmetric] E_def [symmetric] T_def [symmetric])
  have "if 0 < T then i32_min \<le> S \<and> E + T \<le> i32_max else S \<le> i32_max \<and> i32_min \<le> E + T"
    using b n(2) t(2) by (auto simp: T_def split: if_splits)
  from strided_offsets_exact [OF t(1) [folded T_def] this]
  show "strided_offsets (StridedSliceEndForAxis p shape a S) (ss_strides p ! a) S = Some (map (\<lambda>j. S + j * ss_strides p ! a) (upto0 (strided_dim p shape ed a)))"
    unfolding d E_def [symmetric] T_def [symmetric] .
  show "0 \<le> S + j * ss_strides p ! a \<and> S + j * ss_strides p ! a < shape ! a" if j: "0 \<le> j" "j < strided_dim p shape ed a"
    using slice_count_inside [OF t(1) [folded T_def] j(1) j(2) [unfolded d]] b unfolding T_def [symmetric] by (auto split: if_splits)
  show "0 \<le> strided_dim p shape ed a" unfolding d by simp
  show "ss_strides p ! a = 1 \<Longrightarrow> strided_dim p shape ed a = max 0 (StridedSliceEndForAxis p shape a S - S)"
    unfolding d T_def [symmetric] E_def [symmetric] by simp
qed

section \<open>Order of the elements\<close>

lemma concat_blocks:
  "\<forall>x\<in>set xs. length (f x) = m \<Longrightarrow> i < length xs \<Longrightarrow> j < m \<Longrightarrow> concat (map f xs) ! (i * m + j) = f (xs ! i) ! j"
proof (induction xs arbitrary: i)
  case (Cons x xs)
  then show ?case by (cases i) (simp_all add: nth_append add.assoc)
qed simp

lemma length_concat_blocks: "\<forall>x\<in>set xs. length (f x) = m \<Longrightarrow> length (concat (map f xs)) = length xs * m"
  by (induction xs) simp_all

lemma flat_index_acc: "in_shape ds is \<Longrightarrow> flat_index ds is a = a * prod_list ds + flat_index ds is 0"
proof (induction ds arbitrary: "is" a)
  case (Cons d ds)
  then obtain i js where i: "is = i # js" "in_shape ds js" by auto
  show ?case using Cons.IH [OF i(2), of "a * d + i"] Cons.IH [OF i(2), of i] by (simp add: i(1) algebra_simps)
qed simp

lemma length_nd_indexes: "\<forall>d\<in>set ds. 0 \<le> d \<Longrightarrow> int (length (nd_indexes ds)) = prod_list ds"
proof (induction ds)
  case (Cons d ds)
  have "length (nd_indexes (d # ds)) = nat d * length (nd_indexes ds)"
    unfolding nd_indexes.simps by (subst length_concat_blocks [where m = "length (nd_indexes ds)"]) (simp_all add: upto0_def)
  then show ?case using Cons by simp
qed simp

lemma nd_indexes_nth: "in_shape ds is \<Longrightarrow> nd_indexes ds ! nat (flat_index ds is 0) = is"
proof (induction ds arbitrary: "is")
  case (Cons d ds)
  then obtain i js where i: "is = i # js" "0 \<le> i" "i < d" "in_shape ds js" by auto
  have pos: "\<forall>d\<in>set ds. 0 \<le> d" using i(4) by (induction ds arbitrary: js) fastforce+
  have b: "0 \<le> flat_index ds js 0" "flat_index ds js 0 < int (length (nd_indexes ds))"
    using flat_index_bounds [OF i(4), of 0] length_nd_indexes [OF pos] by simp_all
  have "nat (flat_index (d # ds) is 0) = nat i * length (nd_indexes ds) + nat (flat_index ds js 0)"
    using flat_index_acc [OF i(4), of i, folded length_nd_indexes [OF pos]] i(2) b by (simp add: i(1) nat_add_distrib nat_mult_distrib)
  then have "nd_indexes (d # ds) ! nat (flat_index (d # ds) is 0) = map ((#) (upto0 d ! nat i)) (nd_indexes ds) ! nat (flat_index ds js 0)"
    using b i by (simp add: concat_blocks upto0_def nat_less_iff)
  moreover have "upto0 d ! nat i = i" using i by (simp add: upto0_def)
  ultimately show ?case using Cons.IH [OF i(4)] b by (simp add: i(1) nat_less_iff)
qed simp

section \<open>The kernel of a strided slice\<close>

lemma loop_concat_blocks: "loop f (concat (map (\<lambda>x. map ((#) x) ys) xs)) s = loop (\<lambda>x. loop (\<lambda>y. f (x # y)) ys) xs s"
proof (induction xs arbitrary: s)
  case (Cons x xs)
  have "loop f (concat (map (\<lambda>x. map ((#) x) ys) xs)) = loop (\<lambda>x. loop (\<lambda>y. f (x # y)) ys) xs" using Cons by blast
  then show ?case by (simp add: loop_append loop_map)
qed simp

lemma loop_product_lists:
  fixes f :: "'a list \<Rightarrow> 's \<Rightarrow> stop + 's"
  shows "loop f (product_lists [as, bs, cs, ds, es]) s =
   loop (\<lambda>a. loop (\<lambda>b. loop (\<lambda>c. loop (\<lambda>d. loop (\<lambda>e. f [a, b, c, d, e]) es) ds) cs) bs) as s"
proof -
  have e: "product_lists [] = [[]]" "product_lists (xs # xss) = concat (map (\<lambda>x. map ((#) x) (product_lists xss)) xs)" for xs :: "'a list" and xss
    by simp_all
  have l: "loop f (product_lists (xs # xss)) = loop (\<lambda>x. loop (\<lambda>y. f (x # y)) (product_lists xss)) xs" for f :: "'a list \<Rightarrow> 's \<Rightarrow> stop + 's" and xs xss
    by (rule ext) (simp only: e loop_concat_blocks)
  have n: "loop f (product_lists []) = f []" for f :: "'a list \<Rightarrow> 's \<Rightarrow> stop + 's" by (rule ext) (simp add: bind_step_def split: sum.split)
  show ?thesis by (simp only: l n)
qed

lemma loop_writer:
  assumes "\<forall>i\<in>set xs. 0 \<le> g i \<and> g i < int (length data)" "k + length xs \<le> length out"
  shows "loop (\<lambda>i. writer_Write data (g i)) xs (k, out) =
    Inr (k + length xs, take k out @ map (\<lambda>i. data ! nat (g i)) xs @ drop (k + length xs) out)"
  using assms
proof (induction xs arbitrary: k out)
  case (Cons x xs)
  have "writer_Write data (g x) (k, out) = Inr (k + 1, out[k := data ! nat (g x)])"
    using Cons.prems by (simp add: writer_Write_def rd_inside wr_inside)
  moreover have "take (k + 1) (out[k := data ! nat (g x)]) = take k out @ [data ! nat (g x)]"
    using Cons.prems(2) by (simp add: take_Suc_conv_app_nth)
  ultimately show ?case using Cons.IH [of "k + 1" "out[k := data ! nat (g x)]"] Cons.prems by simp
qed simp

lemma strided_index_flat:
  assumes "in_shape [d0, d1, d2, d3, d4] [o0, o1, o2, o3, o4]" "d0 * d1 * d2 * d3 * d4 \<le> i32_max"
  shows "strided_index [d0, d1, d2, d3, d4] o0 o1 o2 o3 o4 = flat_index [d0, d1, d2, d3, d4] [o0, o1, o2, o3, o4] 0"
proof -
  have "in_i32 (flat_index [d0, d1, d2, d3, d4] [o0, o1, o2, o3, o4] 0)"
    using flat_index_bounds [OF assms(1), of 0] assms(2) by (simp add: in_i32_def mult.assoc)
  moreover have "o4 + o3 * d4 + o2 * d3 * d4 + o1 * d2 * d3 * d4 + o0 * d1 * d2 * d3 * d4 = flat_index [d0, d1, d2, d3, d4] [o0, o1, o2, o3, o4] 0"
    by (simp add: algebra_simps)
  ultimately show ?thesis by (simp add: strided_index_def del: flat_index.simps)
qed

text \<open>The lists of offsets of all axes, in the order of the loops.\<close>

lemma product_lists_offsets:
  "product_lists (map (\<lambda>(s, t, c). map (\<lambda>j. s + j * t) (upto0 c)) axes) =
   map (\<lambda>i. map2 (\<lambda>(s, t, c) j. s + j * t) axes i) (nd_indexes (map (\<lambda>(s, t, c). c) axes))"
proof (induction axes)
  case (Cons x axes)
  obtain s t c where x: "x = (s, t, c)" by (cases x)
  show ?case using Cons by (simp add: x map_concat comp_def)
qed simp

lemma padded_flat_index: "in_shape ds is \<Longrightarrow> flat_index (replicate m 1 @ ds) (replicate m 0 @ is) 0 = flat_index ds is 0"
  by (induction m) simp_all

lemma padded_in_shape: "in_shape (replicate m 1 @ ds) (replicate m 0 @ is) \<longleftrightarrow> in_shape ds is"
  by (induction m) simp_all

text \<open>Parameters of a slice that shrinks no axis, with sizes that are exact in floating point.\<close>

definition slice_ok :: "StridedSliceParams \<Rightarrow> RuntimeShape \<Rightarrow> bool" where
  "slice_ok p shape \<longleftrightarrow> length (ss_start_indices p) = length shape \<and> length (ss_stop_indices p) = length shape \<and> length (ss_strides p) = length shape \<and>
     \<not> ss_offset p \<and> prod_list shape \<le> i32_max \<and>
     (\<forall>a<length shape. 0 \<le> shape ! a \<and> shape ! a < 2 ^ 24 \<and> ss_strides p ! a \<noteq> 0 \<and> \<bar>ss_strides p ! a\<bar> < 2 ^ 24 \<and> \<not> bit (ss_shrink_axis_mask p) a)"

text \<open>Where the elements of an axis start, their distance and their number.\<close>

definition slice_axes :: "StridedSliceParams \<Rightarrow> RuntimeShape \<Rightarrow> (int \<times> int \<times> int) list" where
  "slice_axes p shape = map (\<lambda>a. (StridedSliceStartForAxis p shape a, ss_strides p ! a, strided_dim p shape [] a)) [0..<length shape]"

definition axes_position :: "StridedSliceParams \<Rightarrow> RuntimeShape \<Rightarrow> int list \<Rightarrow> int list" where
  "axes_position p shape i = map2 (\<lambda>(s, t, c) j. s + j * t) (slice_axes p shape) i"

lemma slice_axis:
  assumes "slice_ok p shape" "a < length shape"
  shows "0 \<le> shape ! a" "shape ! a < 2 ^ 24" "ss_strides p ! a \<noteq> 0" "\<bar>ss_strides p ! a\<bar> < 2 ^ 24" "\<not> bit (ss_shrink_axis_mask p) a" "\<not> ss_offset p"
  using assms by (simp_all add: slice_ok_def)

lemma axes_position_inside:
  assumes "slice_ok p shape" "in_shape (map (strided_dim p shape []) [0..<length shape]) i"
  shows "in_shape shape (axes_position p shape i)"
proof -
  have i: "length i = length shape" "\<And>a. a < length shape \<Longrightarrow> 0 \<le> i ! a \<and> i ! a < strided_dim p shape [] a" using assms(2) by (simp_all add: in_shape_nth)
  have "0 \<le> axes_position p shape i ! a \<and> axes_position p shape i ! a < shape ! a" if a: "a < length shape" for a
    using strided_axis(2) [OF slice_axis [OF assms(1) a] refl, of "i ! a" "[]"] i a by (simp add: axes_position_def slice_axes_def)
  then show ?thesis using i(1) by (simp add: in_shape_nth axes_position_def slice_axes_def)
qed

lemma slice_row:
  assumes ok: "slice_ok p [d0, d1, d2, d3, d4]" and o: "in_shape [d0, d1, d2, d3] [o0, o1, o2, o3]"
    and S: "S = StridedSliceStartForAxis p [d0, d1, d2, d3, d4] 4" and E: "E = StridedSliceEndForAxis p [d0, d1, d2, d3, d4] 4 S" and "ss_strides p ! 4 = 1"
  shows "(if E - S > 0 then writer_WriteN data (strided_index [d0, d1, d2, d3, d4] o0 o1 o2 o3 S) (E - S) s else Inr s) =
    loop (\<lambda>o4. writer_Write data (strided_index [d0, d1, d2, d3, d4] o0 o1 o2 o3 o4)) (map (\<lambda>j. S + j * ss_strides p ! 4) (upto0 (strided_dim p [d0, d1, d2, d3, d4] [] 4))) s"
proof -
  let ?sh = "[d0, d1, d2, d3, d4]"
  have a: "4 < length ?sh" by simp
  note x = strided_axis [OF slice_axis [OF ok a] S, where ed = "[]"]
  have c: "strided_dim p ?sh [] 4 = max 0 (E - S)" using x(4) assms(5) by (simp add: E)
  have in5: "in_shape ?sh [o0, o1, o2, o3, S + j]" if "0 \<le> j" "j < E - S" for j using x(2) [of j] that o c assms(5) by simp
  have m: "d0 * d1 * d2 * d3 * d4 \<le> i32_max" using ok by (simp add: slice_ok_def mult.assoc)
  have f: "strided_index ?sh o0 o1 o2 o3 (S + j) = strided_index ?sh o0 o1 o2 o3 S + j" if "0 \<le> j" "j < E - S" for j
    using strided_index_flat [OF in5 [OF that] m] strided_index_flat [OF in5 [of 0] m] that by simp
  show ?thesis
  proof (cases "E - S > 0")
    case True
    then show ?thesis unfolding writer_WriteN_def loop_map c assms(5) by (auto intro!: loop_cong simp: f)
  qed (simp add: c upto0_def)
qed

lemma set_nd_indexes: "i \<in> set (nd_indexes ds) \<Longrightarrow> in_shape ds i"
  by (induction ds arbitrary: i) auto

text \<open>The kernel on an input of five dimensions.\<close>

lemma slice_kernel:
  assumes e: "ExtendedShape 5 ish = Some [d0, d1, d2, d3, d4]" "ExtendedShape 5 osh = Some osh5" "StridedSlicePadIndices p 5 = Some P"
    and ok: "slice_ok P [d0, d1, d2, d3, d4]" and l: "int (length data) = d0 * d1 * d2 * d3 * d4"
    and idx: "idx = map (axes_position P [d0, d1, d2, d3, d4]) (nd_indexes (map (strided_dim P [d0, d1, d2, d3, d4] []) [0..<5]))" and out: "length out = length idx"
  shows "StridedSlice p ish data osh out = Some (Inr (length out, map (\<lambda>i. data ! nat (flat_index [d0, d1, d2, d3, d4] i 0)) idx))"
proof -
  let ?sh = "[d0, d1, d2, d3, d4]"
  define S where "S = StridedSliceStartForAxis P ?sh"
  define V where "V = (\<lambda>a. map (\<lambda>j. S a + j * ss_strides P ! a) (upto0 (strided_dim P ?sh [] a)))"
  have V: "strided_offsets (StridedSliceEndForAxis P ?sh a (S a)) (ss_strides P ! a) (S a) = Some (V a)" if "a < 5" for a
  proof -
    have "a < length ?sh" using that by simp
    from strided_axis(1) [OF slice_axis [OF ok this] fun_cong [OF S_def], where ed = "[]"] show ?thesis by (simp add: V_def)
  qed
  have m: "d0 * d1 * d2 * d3 * d4 \<le> i32_max" using ok by (simp add: slice_ok_def mult.assoc)
  have five: "[0..<5] = [0, 1, 2, 3, 4]" by (simp add: upt_rec)
  have len: "length ?sh = 5" by simp
  have "idx = product_lists (map (\<lambda>(s, t, c). map (\<lambda>j. s + j * t) (upto0 c)) (slice_axes P ?sh))"
    unfolding product_lists_offsets idx axes_position_def [abs_def] unfolding slice_axes_def len by (simp add: comp_def)
  also have "map (\<lambda>(s, t, c). map (\<lambda>j. s + j * t) (upto0 c)) (slice_axes P ?sh) = map V [0..<5]"
    unfolding slice_axes_def len by (simp add: comp_def V_def S_def)
  finally have idx': "idx = product_lists [V 0, V 1, V 2, V 3, V 4]" unfolding five list.map .
  have in5: "in_shape ?sh i" if "i \<in> set idx" for i
  proof -
    from that obtain j where j: "j \<in> set (nd_indexes (map (strided_dim P ?sh []) [0..<5]))" "i = axes_position P ?sh j" unfolding idx set_map by (rule imageE)
    show ?thesis unfolding j(2) by (rule axes_position_inside [OF ok, unfolded len, OF set_nd_indexes [OF j(1)]])
  qed
  have r: "0 \<le> x \<and> x < ?sh ! a" if "a < 5" "x \<in> set (V a)" for a x
  proof -
    have "a < length ?sh" using that(1) by simp
    from strided_axis(2) [OF slice_axis [OF ok this] fun_cong [OF S_def], where ed = "[]"] that(2) show ?thesis by (auto simp: V_def)
  qed
  define row where "row = (\<lambda>o0 o1 o2 o3. loop (\<lambda>o4. writer_Write data (strided_index ?sh o0 o1 o2 o3 o4)) (V 4))"
  have "StridedSlice p ish data osh out = Some (loop (\<lambda>o0. loop (\<lambda>o1. loop (\<lambda>o2. loop (\<lambda>o3. row o0 o1 o2 o3) (V 3)) (V 2)) (V 1)) (V 0) (0, out))"
  proof (cases "ss_strides P ! 4 = 1")
    case True
    have "(if StridedSliceEndForAxis P ?sh 4 (S 4) - S 4 > 0 then writer_WriteN data (strided_index ?sh o0 o1 o2 o3 (S 4)) (StridedSliceEndForAxis P ?sh 4 (S 4) - S 4) s
        else Inr s) = row o0 o1 o2 o3 s"
      if "o0 \<in> set (V 0)" "o1 \<in> set (V 1)" "o2 \<in> set (V 2)" "o3 \<in> set (V 3)" for o0 o1 o2 o3 s
    proof -
      have "in_shape [d0, d1, d2, d3] [o0, o1, o2, o3]" using r [OF _ that(1)] r [OF _ that(2)] r [OF _ that(3)] r [OF _ that(4)] by simp
      from slice_row [OF ok this fun_cong [OF S_def] refl True] show ?thesis unfolding row_def V_def .
    qed
    then show ?thesis unfolding StridedSlice_def e Let_def option.case prod.case S_def [symmetric] if_P [OF True]
      by (simp add: V) (intro loop_cong, blast)
  next
    case False
    then show ?thesis unfolding StridedSlice_def e Let_def option.case prod.case S_def [symmetric] if_not_P [OF False] by (simp add: V row_def)
  qed
  also have "\<dots> = Some (loop (\<lambda>i. writer_Write data (strided_index ?sh (i ! 0) (i ! 1) (i ! 2) (i ! 3) (i ! 4))) idx (0, out))"
    unfolding idx' loop_product_lists row_def by simp
  also have "loop (\<lambda>i. writer_Write data (strided_index ?sh (i ! 0) (i ! 1) (i ! 2) (i ! 3) (i ! 4))) idx (0, out) =
      loop (\<lambda>i. writer_Write data (flat_index ?sh i 0)) idx (0, out)"
    by (rule loop_cong) (use in5 strided_index_flat [OF _ m] in \<open>force simp del: flat_index.simps\<close>)
  also have "\<dots> = Inr (length out, map (\<lambda>i. data ! nat (flat_index ?sh i 0)) idx)"
    using loop_writer [of idx "\<lambda>i. flat_index ?sh i 0" data 0 out] in5 flat_index_bounds [of ?sh _ 0] l out by (simp add: mult.assoc del: flat_index.simps in_shape_simps)
  finally show ?thesis .
qed

text \<open>The dimensions of size 1 that are added in front change nothing.\<close>

lemma pad_masks:
  fixes M :: nat
  assumes "m \<le> 5"
  shows "a < m \<Longrightarrow> bit (take_bit 16 (push_bit m M) OR mask m) a" "a < m \<Longrightarrow> \<not> bit (take_bit 16 (push_bit m M)) a"
    "b < 5 - m \<Longrightarrow> bit (take_bit 16 (push_bit m M) OR mask m) (m + b) = bit M b" "b < 5 - m \<Longrightarrow> bit (take_bit 16 (push_bit m M)) (m + b) = bit M b"
  using assms by (auto simp: bit_or_iff bit_mask_iff bit_take_bit_iff bit_push_bit_iff_nat)

lemma padded_params:
  assumes "slice_ok p ish" "length ish \<le> 5" "m = 5 - length ish"
  obtains P where "StridedSlicePadIndices p 5 = Some P" "slice_ok P (replicate m 1 @ ish)"
    "slice_axes P (replicate m 1 @ ish) = replicate m (0, 1, 1) @ slice_axes p ish"
proof -
  let ?pad = "\<lambda>M. take_bit 16 (push_bit m M)" and ?sh = "replicate m 1 @ ish"
  define P where "P = p\<lparr>ss_start_indices := replicate m 0 @ ss_start_indices p, ss_stop_indices := replicate m 1 @ ss_stop_indices p,
    ss_strides := replicate m 1 @ ss_strides p, ss_shrink_axis_mask := ?pad (ss_shrink_axis_mask p),
    ss_begin_mask := ?pad (ss_begin_mask p) OR mask m, ss_end_mask := ?pad (ss_end_mask p) OR mask m\<rparr>"
  have l: "length (ss_start_indices p) = length ish" "length (ss_stop_indices p) = length ish" "length (ss_strides p) = length ish" "\<not> ss_offset p"
    using assms(1) by (simp_all add: slice_ok_def)
  have P: "StridedSlicePadIndices p 5 = Some P" using assms(2,3) l by (simp add: StridedSlicePadIndices_def P_def Let_def)
  have sel: "ss_start_indices P = replicate m 0 @ ss_start_indices p" "ss_stop_indices P = replicate m 1 @ ss_stop_indices p" "ss_strides P = replicate m 1 @ ss_strides p"
    "ss_shrink_axis_mask P = ?pad (ss_shrink_axis_mask p)" "ss_begin_mask P = ?pad (ss_begin_mask p) OR mask m" "ss_end_mask P = ?pad (ss_end_mask p) OR mask m"
    "ss_offset P = ss_offset p" by (simp_all add: P_def)
  have m: "m \<le> 5" using assms(3) by simp
  have new_bits: "bit (ss_begin_mask P) a" "bit (ss_end_mask P) a" "\<not> bit (ss_shrink_axis_mask P) a" if "a < m" for a
    unfolding sel using pad_masks(1,2) [OF m that] by blast+
  have new: "StridedSliceStartForAxis P ?sh a = 0" "StridedSliceEndForAxis P ?sh a s = 1" "ss_strides P ! a = 1" "?sh ! a = 1" if "a < m" for a s
    using that by (simp_all add: StridedSliceStartForAxis_def StridedSliceEndForAxis_def Let_def new_bits sel(3) nth_append)
  have old_bits: "bit (ss_begin_mask P) (m + b) = bit (ss_begin_mask p) b" "bit (ss_end_mask P) (m + b) = bit (ss_end_mask p) b"
    "bit (ss_shrink_axis_mask P) (m + b) = bit (ss_shrink_axis_mask p) b" if "b < length ish" for b
    unfolding sel using pad_masks(3,4) [OF m, of b] that assms(2,3) by simp_all
  have old: "StridedSliceStartForAxis P ?sh (m + b) = StridedSliceStartForAxis p ish b" "StridedSliceEndForAxis P ?sh (m + b) s = StridedSliceEndForAxis p ish b s"
    "ss_strides P ! (m + b) = ss_strides p ! b" "?sh ! (m + b) = ish ! b" if "b < length ish" for b s
    using that by (simp_all add: StridedSliceStartForAxis_def StridedSliceEndForAxis_def Let_def old_bits sel(1,2,3,7) nth_append)
  have split: "Q a" if "a < m + length ish" "\<And>a. a < m \<Longrightarrow> Q a" "\<And>b. b < length ish \<Longrightarrow> Q (m + b)" for Q a
  proof (cases "a < m")
    case False
    then show ?thesis using that(1) that(3) [of "a - m"] by simp
  qed (rule that(2))
  have ok: "slice_ok P ?sh"
  proof -
    have "0 \<le> ?sh ! a \<and> ?sh ! a < 2 ^ 24 \<and> ss_strides P ! a \<noteq> 0 \<and> \<bar>ss_strides P ! a\<bar> < 2 ^ 24 \<and> \<not> bit (ss_shrink_axis_mask P) a" if "a < m + length ish" for a
      using that by (rule split) (use assms(1) in \<open>simp_all add: new new_bits old old_bits slice_ok_def\<close>)
    moreover have "prod_list (replicate m (1 :: int)) = 1" by (induction m) simp_all
    ultimately show ?thesis using assms(1) l by (simp add: slice_ok_def sel(1,2,3,7))
  qed
  have off: "\<not> ss_offset P" using l(4) by (simp add: sel)
  have one: "ceil_quotient 1 1 = 1" using ceil_quotient_exact [of 1 1] by simp
  have "[0..<m + length ish] = [0..<m] @ map ((+) m) [0..<length ish]" by (rule nth_equalityI) (simp_all add: nth_append)
  then have "slice_axes P ?sh = map (\<lambda>a. (StridedSliceStartForAxis P ?sh a, ss_strides P ! a, strided_dim P ?sh [] a)) [0..<m] @
      map (\<lambda>b. (StridedSliceStartForAxis P ?sh (m + b), ss_strides P ! (m + b), strided_dim P ?sh [] (m + b))) [0..<length ish]"
    by (simp add: slice_axes_def comp_def)
  also have "map (\<lambda>a. (StridedSliceStartForAxis P ?sh a, ss_strides P ! a, strided_dim P ?sh [] a)) [0..<m] = replicate m (0, 1, 1)"
    by (rule nth_equalityI) (simp_all add: new strided_dim_def Let_def off one)
  also have "map (\<lambda>b. (StridedSliceStartForAxis P ?sh (m + b), ss_strides P ! (m + b), strided_dim P ?sh [] (m + b))) [0..<length ish] = slice_axes p ish"
    unfolding slice_axes_def by (rule map_cong) (simp_all add: old strided_dim_def Let_def off l(4))
  finally have "slice_axes P ?sh = replicate m (0, 1, 1) @ slice_axes p ish" .
  from that [OF P ok this] show thesis .
qed

lemma padded_indexes: "nd_indexes (replicate m 1 @ ds) = map ((@) (replicate m 0)) (nd_indexes ds)"
  by (induction m) (simp_all add: upto0_def comp_def)

lemma ResizeOutputTensor_dims:
  assumes "slice_ok p ish" "ResizeOutputTensor p ish ed = Some osh"
  shows "osh = map (strided_dim p ish []) [0..<length ish]"
proof -
  let ?f = "\<lambda>idx r. case r of None \<Rightarrow> None | Some v \<Rightarrow> if ss_strides p ! idx = 0 then None else if bit (ss_shrink_axis_mask p) idx then Some v
    else Some (v @ [strided_dim p ish ed idx])"
  have "fold ?f xs (Some v) = Some (v @ map (strided_dim p ish ed) xs)" if "\<forall>a\<in>set xs. a < length ish" for xs v
    using that by (induction xs arbitrary: v) (use assms(1) in \<open>auto simp: slice_ok_def\<close>)
  from this [of "rev [0..<length ish]" "[]"] assms(2) have "osh = map (strided_dim p ish ed) [0..<length ish]"
    by (simp add: ResizeOutputTensor_def rev_map [symmetric] split: if_splits)
  moreover have "strided_dim p ish ed = strided_dim p ish []" using assms(1) by (auto simp: strided_dim_def slice_ok_def fun_eq_iff)
  ultimately show ?thesis by simp
qed

lemma list5: "length ds = 5 \<Longrightarrow> \<exists>a b c d e. ds = [a, b, c, d, e]"
  by (auto simp: numeral_eq_Suc length_Suc_conv)

lemma slice_copies:
  assumes ok: "slice_ok p ish" and k: "length ish \<le> 5" and r: "ResizeOutputTensor p ish ed = Some osh"
    and l: "int (length data) = prod_list ish" "int (length out) = prod_list osh"
  shows "\<exists>res. StridedSlice p ish data osh out = Some (Inr (length out, res)) \<and> length res = length out \<and>
    (\<forall>i. in_shape osh i \<longrightarrow> in_shape ish (axes_position p ish i) \<and>
      res ! nat (flat_index osh i 0) = data ! nat (flat_index ish (axes_position p ish i) 0))"
proof -
  note osh = ResizeOutputTensor_dims [OF ok r]
  define m where "m = 5 - length ish"
  obtain P where P: "StridedSlicePadIndices p 5 = Some P" "slice_ok P (replicate m 1 @ ish)"
    "slice_axes P (replicate m 1 @ ish) = replicate m (0, 1, 1) @ slice_axes p ish" using padded_params [OF ok k m_def] .
  have len: "length (replicate m 1 @ ish) = 5" using k by (simp add: m_def)
  then obtain d0 d1 d2 d3 d4 where sh: "replicate m 1 @ ish = [d0, d1, d2, d3, d4]" using list5 by blast
  have dims: "map (strided_dim P [d0, d1, d2, d3, d4] []) [0..<5] = replicate m 1 @ osh"
  proof -
    have "map (\<lambda>(s, t, c). c) (slice_axes P (replicate m 1 @ ish)) = map (strided_dim P [d0, d1, d2, d3, d4] []) [0..<5]"
      unfolding slice_axes_def len unfolding sh by (simp add: comp_def)
    then show ?thesis unfolding P(3) by (simp add: slice_axes_def osh comp_def)
  qed
  have pos: "axes_position P [d0, d1, d2, d3, d4] (replicate m 0 @ i) = replicate m 0 @ axes_position p ish i" for i
    unfolding axes_position_def P(3) [unfolded sh] by (simp add: map_replicate_trivial zip_replicate)
  define idx where "idx = map (axes_position P [d0, d1, d2, d3, d4]) (nd_indexes (map (strided_dim P [d0, d1, d2, d3, d4] []) [0..<5]))"
  have idx: "idx = map (\<lambda>i. replicate m 0 @ axes_position p ish i) (nd_indexes osh)" unfolding idx_def dims padded_indexes by (simp add: comp_def pos)
  have nonneg: "\<forall>d\<in>set osh. 0 \<le> d" using strided_axis(3) [OF slice_axis [OF ok] refl] by (auto simp: osh)
  have out: "length out = length idx" using l(2) length_nd_indexes [OF nonneg] by (simp add: idx)
  have "prod_list (replicate m 1 @ ish) = prod_list ish" by (induction m) simp_all
  then have data: "int (length data) = d0 * d1 * d2 * d3 * d4" using l(1) sh by (simp add: mult.assoc)
  have e: "ExtendedShape 5 ish = Some [d0, d1, d2, d3, d4]" "\<exists>o5. ExtendedShape 5 osh = Some o5"
    using k sh by (simp_all add: ExtendedShape_def m_def osh)
  then obtain o5 where e2: "ExtendedShape 5 osh = Some o5" by blast
  note K = slice_kernel [OF e(1) e2 P(1) P(2) [unfolded sh] data idx_def out]
  show ?thesis
  proof (intro exI conjI allI impI, rule K)
    fix i assume i: "in_shape osh i"
    show s: "in_shape ish (axes_position p ish i)" using axes_position_inside [OF ok] i by (simp add: osh)
    have b: "nat (flat_index osh i 0) < length (nd_indexes osh)"
      using flat_index_bounds [OF i, of 0] length_nd_indexes [OF nonneg] by (simp add: nat_less_iff)
    then show "map (\<lambda>i. data ! nat (flat_index [d0, d1, d2, d3, d4] i 0)) idx ! nat (flat_index osh i 0) = data ! nat (flat_index ish (axes_position p ish i) 0)"
      using padded_flat_index [OF s, of m] nd_indexes_nth [OF i] by (simp add: idx sh del: flat_index.simps)
  qed (simp add: out)
qed

text \<open>
  What a slice asks for, as in Python: a bound of an axis is absent or given, a negative one counts from the end, and bounds beyond the axis are
  moved to its ends, the stop in direction of the stride. The elements are those at start, start plus stride and so on before the stop.
\<close>

definition asked :: "nat \<Rightarrow> int list \<Rightarrow> nat \<Rightarrow> int option" where
  "asked skipped bounds a = (if bit skipped a then None else Some (bounds ! a))"

definition from_end :: "int \<Rightarrow> int \<Rightarrow> int" where
  "from_end n b = (if b < 0 then n + b else b)"

definition asked_start :: "int option \<Rightarrow> int \<Rightarrow> int \<Rightarrow> int" where
  "asked_start bound stride n = (case bound of
     None \<Rightarrow> (if 0 < stride then 0 else n - 1)
   | Some b \<Rightarrow> (if 0 < stride then max 0 (min n (from_end n b)) else max (-1) (min (n - 1) (from_end n b))))"

definition asked_stop :: "int option \<Rightarrow> int \<Rightarrow> int \<Rightarrow> int" where
  "asked_stop bound stride n = (case bound of
     None \<Rightarrow> (if 0 < stride then n else -1)
   | Some b \<Rightarrow> (if 0 < stride then max 0 (min n (from_end n b)) else max (-1) (min (n - 1) (from_end n b))))"

definition slice_start :: "StridedSliceParams \<Rightarrow> RuntimeShape \<Rightarrow> nat \<Rightarrow> int" where
  "slice_start p shape a = asked_start (asked (ss_begin_mask p) (ss_start_indices p) a) (ss_strides p ! a) (shape ! a)"

definition slice_stop :: "StridedSliceParams \<Rightarrow> RuntimeShape \<Rightarrow> nat \<Rightarrow> int" where
  "slice_stop p shape a = asked_stop (asked (ss_end_mask p) (ss_stop_indices p) a) (ss_strides p ! a) (shape ! a)"

definition slice_position :: "StridedSliceParams \<Rightarrow> RuntimeShape \<Rightarrow> int list \<Rightarrow> int list" where
  "slice_position p shape i = map (\<lambda>a. slice_start p shape a + i ! a * ss_strides p ! a) [0..<length shape]"

text \<open>The position is before the stop in the direction of the stride.\<close>

definition before_stop :: "int \<Rightarrow> int \<Rightarrow> int \<Rightarrow> bool" where
  "before_stop stride stop q \<longleftrightarrow> (if 0 < stride then q < stop else stop < q)"

lemma axis_bounds_asked:
  assumes "slice_ok p shape" "a < length shape"
  shows "StridedSliceStartForAxis p shape a = slice_start p shape a" "StridedSliceEndForAxis p shape a s = slice_stop p shape a"
  using slice_axis [OF assms]
  by (auto simp: StridedSliceStartForAxis_def StridedSliceEndForAxis_def Let_def slice_start_def slice_stop_def asked_start_def asked_stop_def
      asked_def from_end_def Clamp_def)

lemma axes_position_asked:
  assumes "slice_ok p shape" "length i = length shape" shows "axes_position p shape i = slice_position p shape i"
  using assms by (auto simp: axes_position_def slice_axes_def slice_position_def axis_bounds_asked intro!: nth_equalityI)

lemma dim_before_stop:
  assumes ok: "slice_ok p shape" and a: "a < length shape" and j: "0 \<le> j"
  shows "j < strided_dim p shape [] a \<longleftrightarrow> before_stop (ss_strides p ! a) (slice_stop p shape a) (slice_start p shape a + j * ss_strides p ! a)"
proof -
  define S E T where "S = slice_start p shape a" and "E = slice_stop p shape a" and "T = ss_strides p ! a"
  note x = slice_axis [OF ok a, folded T_def]
  have b: "StridedSliceStartForAxis p shape a = S" "StridedSliceEndForAxis p shape a s = E" for s
    using axis_bounds_asked [OF ok a] by (simp_all add: S_def E_def)
  have "\<bar>E - S\<bar> < 2 ^ 24"
    using start_bounds [OF x(1), of p, folded T_def] end_bounds [OF x(1,5), of 0, folded T_def] x(2) unfolding b by (auto split: if_splits)
  then have "ceil_quotient (E - S) T = - ((S - E) div T)" using ceil_quotient_exact [of "E - S" T] x(3,4) by simp
  then have d: "strided_dim p shape [] a = slice_count E T S" using x(6) by (simp add: strided_dim_def Let_def b T_def [symmetric])
  have "slice_count E T (S + j * T) = max 0 (- ((S - E) div T) - j)"
    using div_mult_self1 [OF x(3), of "S - E" j] by (simp add: algebra_simps)
  then have "j < slice_count E T S \<longleftrightarrow> 0 < slice_count E T (S + j * T)" using j by auto
  then show ?thesis unfolding d slice_count_pos [OF x(3), symmetric] before_stop_def S_def [symmetric] E_def [symmetric] T_def [symmetric]
    using x(3) by auto
qed

text \<open>
  Claim C34. A strided slice whose output was sized copies exactly the elements asked for: along every axis the output has as many elements as there are
  positions from the start on, in steps of the stride, before the stop; the kernel returns, reads and writes inside of the
  arrays only, fills the whole output, and the element at an index is the one of the input at start plus index times stride along every axis. Start and
  stop are those of the indices, with the masks, counted from the end when negative and moved to the ends of the axis. This is for at most five dimensions, with
  ellipsis and new axes resolved, when the indices are not offsets from the start and no axis is shrunk, with sizes and strides below 2 to the 24, up to which
  the size computed in floating point is right, and strides that are not 0.
\<close>

theorem strided_slice_correct:
  assumes ok: "slice_ok p ish" and k: "length ish \<le> 5" and r: "ResizeOutputTensor p ish ed = Some osh"
    and l: "int (length data) = prod_list ish" "int (length out) = prod_list osh"
  shows "length osh = length ish \<and>
    (\<forall>a<length ish. \<forall>j\<ge>0. j < osh ! a \<longleftrightarrow> before_stop (ss_strides p ! a) (slice_stop p ish a) (slice_start p ish a + j * ss_strides p ! a)) \<and>
    (\<exists>res. StridedSlice p ish data osh out = Some (Inr (length out, res)) \<and> length res = length out \<and>
    (\<forall>i. in_shape osh i \<longrightarrow> in_shape ish (slice_position p ish i) \<and>
      res ! nat (flat_index osh i 0) = data ! nat (flat_index ish (slice_position p ish i) 0)))"
proof (intro conjI)
  note osh = ResizeOutputTensor_dims [OF ok r]
  show "length osh = length ish" by (simp add: osh)
  show "\<forall>a<length ish. \<forall>j\<ge>0. j < osh ! a \<longleftrightarrow> before_stop (ss_strides p ! a) (slice_stop p ish a) (slice_start p ish a + j * ss_strides p ! a)"
    using dim_before_stop [OF ok] by (simp add: osh)
  have "length i = length ish" if "in_shape osh i" for i using that by (simp add: osh in_shape_nth)
  then show "\<exists>res. StridedSlice p ish data osh out = Some (Inr (length out, res)) \<and> length res = length out \<and>
    (\<forall>i. in_shape osh i \<longrightarrow> in_shape ish (slice_position p ish i) \<and>
      res ! nat (flat_index osh i 0) = data ! nat (flat_index ish (slice_position p ish i) 0))"
    using slice_copies [OF assms] axes_position_asked [OF ok] by metis
qed

definition slice_example :: StridedSliceParams where
  "slice_example = \<lparr>ss_start_indices = [0, 2], ss_stop_indices = [2, 0], ss_strides = [1, -1], ss_begin_mask = 0, ss_end_mask = 0, ss_shrink_axis_mask = 0, ss_offset = False\<rparr>"

lemma slice_example_ok: "slice_ok slice_example [2, 3]" "ResizeOutputTensor slice_example [2, 3] [2, 0] = Some [2, 2]"
proof -
  show "slice_ok slice_example [2, 3]" by (simp add: slice_ok_def slice_example_def less_Suc_eq)
  have "ceil_quotient 2 1 = 2" "ceil_quotient (-2) (-1) = 2" using ceil_quotient_exact [of 2 1] ceil_quotient_exact [of "-2" "-1"] by simp_all
  then show "ResizeOutputTensor slice_example [2, 3] [2, 0] = Some [2, 2]"
    by (simp add: ResizeOutputTensor_def strided_dim_def slice_example_def StridedSliceStartForAxis_def StridedSliceEndForAxis_def Clamp_def)
qed

theorem strided_slice_correct_witness:
  "\<exists>res. StridedSlice slice_example [2, 3] [1, 2, 3, 4, 5, 6 :: int] [2, 2] [0, 0, 0, 0] = Some (Inr (length [0, 0, 0, 0 :: int], res)) \<and> length res = length [0, 0, 0, 0 :: int]"
proof -
  have l: "length [2, 3 :: int] \<le> 5" "int (length [1, 2, 3, 4, 5, 6 :: int]) = prod_list [2, 3]" "int (length [0, 0, 0, 0 :: int]) = prod_list [2, 2]" by simp_all
  from strided_slice_correct [OF slice_example_ok(1) l(1) slice_example_ok(2) l(2,3)] show ?thesis by blast
qed

text \<open>
  An axis of more than 2 to the 24 elements: its size is rounded to 24 bits, and the output has one element less than the kernel writes. An axis
  that is shrunk with a negative stride has an element in the output, but the loop over it ends at once.
\<close>

definition one_axis :: "int \<Rightarrow> nat \<Rightarrow> StridedSliceParams" where
  "one_axis stride shrink = \<lparr>ss_start_indices = [2], ss_stop_indices = [0], ss_strides = [stride], ss_begin_mask = 1 - shrink, ss_end_mask = 1,
     ss_shrink_axis_mask = shrink, ss_offset = False\<rparr>"

lemma slice_size_rounded:
  "ResizeOutputTensor (one_axis 1 0) [16777217] [0] = Some [16777216]"
  "strided_offsets (StridedSliceEndForAxis (one_axis 1 0) [16777217] 0 0) 1 (StridedSliceStartForAxis (one_axis 1 0) [16777217] 0) = Some (upto0 16777217)"
proof -
  have "float_of_nat 16777217 = 16777216" "float_of_nat 1 = 1" "float_quotient 16777216 1 = 16777216 * 2 ^ 56"
    by (simp_all add: float_of_nat_def float_quotient_def round_quotient_def compute_floorlog)
  then have "ceil_quotient 16777217 1 = 16777216" by (simp add: ceil_quotient_def)
  then show "ResizeOutputTensor (one_axis 1 0) [16777217] [0] = Some [16777216]"
    by (simp add: ResizeOutputTensor_def strided_dim_def one_axis_def StridedSliceStartForAxis_def StridedSliceEndForAxis_def bit_0)
  have "StridedSliceEndForAxis (one_axis 1 0) [16777217] 0 0 = 16777217" "StridedSliceStartForAxis (one_axis 1 0) [16777217] 0 = 0"
    by (simp_all add: one_axis_def StridedSliceStartForAxis_def StridedSliceEndForAxis_def bit_0)
  then show "strided_offsets (StridedSliceEndForAxis (one_axis 1 0) [16777217] 0 0) 1 (StridedSliceStartForAxis (one_axis 1 0) [16777217] 0) = Some (upto0 16777217)"
    using strided_offsets_exact [of 1 0 16777217] by simp
qed

lemma shrunk_backwards:
  "ResizeOutputTensor (one_axis (-1) 1) [4] [0] = Some []"
  "strided_offsets (StridedSliceEndForAxis (one_axis (-1) 1) [4] 0 2) (-1) 2 = Some []" "StridedSliceStartForAxis (one_axis (-1) 1) [4] 0 = 2"
  by (simp_all add: ResizeOutputTensor_def one_axis_def StridedSliceStartForAxis_def StridedSliceEndForAxis_def bit_0 Clamp_def strided_offsets.simps)

end
