(* ===== verification/OwnedArrays.thy ===== *)
theory OwnedArrays
  imports Tensor
begin

text \<open>
  Arrays, sparsity and quantization parameters as they lie in memory (\<open>lite/core/c/common.cc\<close>): structures that own other blocks by pointers.
  The theory \<open>Tensor\<close> treats them as values; here cloning and freeing are modelled on a heap of typed blocks, and shown to implement the copy
  and the release of such values.

  \<open>ok n\<close> says that a request of \<open>n\<close> bytes succeeds. A free of a block that is not allocated, and the access to a block through a pointer
  that is null, dangling or of another type set \<open>ar_bad\<close>. Pointers have eight bytes.
\<close>

section \<open>Blocks\<close>

record metadata_block =
  mb_format :: TfLiteDimensionType
  mb_dense_size :: int
  mb_array_segments :: nat
  mb_array_indices :: nat

record sparsity_block =
  sb_traversal_order :: nat
  sb_block_map :: nat
  sb_dim_metadata :: nat
  sb_dim_metadata_size :: int

datatype cell =
    IntArray "int list"
  | FloatArray "float32 list"
  | AffineParams nat nat int
  | BlockwiseParams int int int int
  | MetadataBlock "metadata_block list"
  | SparsityBlock sparsity_block

record arrays =
  ar_cells :: "nat \<Rightarrow> cell option"
  ar_next :: nat
  ar_bad :: bool

definition alloc_cell :: "(nat \<Rightarrow> bool) \<Rightarrow> nat \<Rightarrow> cell \<Rightarrow> arrays \<Rightarrow> nat \<times> arrays" where
  "alloc_cell ok n c s =
     (if ok n then (ar_next s, s\<lparr>ar_cells := (ar_cells s)(ar_next s \<mapsto> c), ar_next := Suc (ar_next s)\<rparr>) else (0, s))"

definition free_cell :: "nat \<Rightarrow> arrays \<Rightarrow> arrays" where
  "free_cell p s = (if p = 0 then s
     else if ar_cells s p = None then s\<lparr>ar_bad := True\<rparr> else s\<lparr>ar_cells := (ar_cells s)(p := None)\<rparr>)"

definition bad_access :: "arrays \<Rightarrow> arrays" where
  "bad_access s = s\<lparr>ar_bad := True\<rparr>"

definition write_cell :: "nat \<Rightarrow> cell \<Rightarrow> arrays \<Rightarrow> arrays" where
  "write_cell p c s = (if ar_cells s p = None then bad_access s else s\<lparr>ar_cells := (ar_cells s)(p \<mapsto> c)\<rparr>)"

section \<open>Arrays\<close>

text \<open>
  The size of an array of four-byte elements behind its length. A negative length gives no block: -1 because the size is 0, smaller ones
  because the size is close to \<open>2 ^ 64\<close>.
\<close>

definition TfLiteVarArrayGetSizeInBytes :: "int \<Rightarrow> nat" where
  "TfLiteVarArrayGetSizeInBytes n = size_add 4 (size_mul 4 (size_of_int n))"

definition TfLiteVarArrayCreate :: "(nat \<Rightarrow> bool) \<Rightarrow> int \<Rightarrow> cell \<Rightarrow> arrays \<Rightarrow> nat \<times> arrays" where
  "TfLiteVarArrayCreate ok n contents s =
     (let alloc_size = TfLiteVarArrayGetSizeInBytes n
      in if alloc_size \<le> 0 then (0, s) else alloc_cell ok alloc_size contents s)"

definition TfLiteVarArrayCopy :: "(nat \<Rightarrow> bool) \<Rightarrow> nat \<Rightarrow> arrays \<Rightarrow> nat \<times> arrays" where
  "TfLiteVarArrayCopy ok src s =
     (if src = 0 then (0, s)
      else (case ar_cells s src of
          Some (IntArray xs) \<Rightarrow> TfLiteVarArrayCreate ok (int (length xs)) (IntArray xs) s
        | Some (FloatArray xs) \<Rightarrow> TfLiteVarArrayCreate ok (int (length xs)) (FloatArray xs) s
        | _ \<Rightarrow> (0, bad_access s)))"

section \<open>Sparsity\<close>

fun clone_metadata :: "(nat \<Rightarrow> bool) \<Rightarrow> metadata_block list \<Rightarrow> arrays \<Rightarrow> metadata_block list \<times> arrays" where
  "clone_metadata ok [] s = ([], s)"
| "clone_metadata ok (m # ms) s =
     (let (segments, s1) = TfLiteVarArrayCopy ok (mb_array_segments m) s;
          (indices, s2) = TfLiteVarArrayCopy ok (mb_array_indices m) s1;
          (rest, s3) = clone_metadata ok ms s2
      in (m\<lparr>mb_array_segments := segments, mb_array_indices := indices\<rparr> # rest, s3))"

text \<open>The first \<open>n\<close> entries of the metadata at an address; \<open>None\<close> for an access outside of it.\<close>

definition metadata_at :: "nat \<Rightarrow> int \<Rightarrow> arrays \<Rightarrow> metadata_block list option" where
  "metadata_at p n s = (case ar_cells s p of
     Some (MetadataBlock ms) \<Rightarrow> if nat n \<le> length ms then Some (take (nat n) ms) else None
   | _ \<Rightarrow> (if n \<le> 0 then Some [] else None))"

text \<open>Structures are requested zeroed and then assigned.\<close>

definition zero_metadata :: metadata_block where
  "zero_metadata = \<lparr>mb_format = kTfLiteDimDense, mb_dense_size = 0, mb_array_segments = 0, mb_array_indices = 0\<rparr>"

definition zero_sparsity :: sparsity_block where
  "zero_sparsity = \<lparr>sb_traversal_order = 0, sb_block_map = 0, sb_dim_metadata = 0, sb_dim_metadata_size = 0\<rparr>"

definition clone_dim_metadata :: "(nat \<Rightarrow> bool) \<Rightarrow> sparsity_block \<Rightarrow> arrays \<Rightarrow> nat \<times> arrays" where
  "clone_dim_metadata ok src s =
     (if sb_dim_metadata src = 0 then (0, s)
      else (case metadata_at (sb_dim_metadata src) (sb_dim_metadata_size src) s of
          None \<Rightarrow> (0, bad_access s)
        | Some ms \<Rightarrow>
           (let (p, s1) = alloc_cell ok (size_mul 24 (size_of_int (sb_dim_metadata_size src)))
                  (MetadataBlock (replicate (length ms) zero_metadata)) s;
                (copies, s2) = clone_metadata ok ms s1
            in (p, if ms = [] then s2 else write_cell p (MetadataBlock copies) s2))))"

definition SparsityClone_value :: "(nat \<Rightarrow> bool) \<Rightarrow> sparsity_block \<Rightarrow> arrays \<Rightarrow> sparsity_block \<times> arrays" where
  "SparsityClone_value ok src s =
     (let (traversal_order, s1) = TfLiteVarArrayCopy ok (sb_traversal_order src) s;
          (block_map, s2) = TfLiteVarArrayCopy ok (sb_block_map src) s1;
          (dim_metadata, s3) = clone_dim_metadata ok src s2
      in (src\<lparr>sb_traversal_order := traversal_order, sb_block_map := block_map, sb_dim_metadata := dim_metadata\<rparr>, s3))"

definition SparsityClone :: "(nat \<Rightarrow> bool) \<Rightarrow> nat \<Rightarrow> arrays \<Rightarrow> nat \<times> arrays" where
  "SparsityClone ok src s =
     (if src = 0 then (0, s)
      else (case ar_cells s src of
          Some (SparsityBlock b) \<Rightarrow>
            (let (dst, s1) = alloc_cell ok 32 (SparsityBlock zero_sparsity) s;
                 (copy, s2) = SparsityClone_value ok b s1
             in (dst, write_cell dst (SparsityBlock copy) s2))
        | _ \<Rightarrow> (0, bad_access s)))"

definition free_metadata :: "metadata_block \<Rightarrow> arrays \<Rightarrow> arrays" where
  "free_metadata m s =
     (if mb_format m = kTfLiteDimSparseCSR then free_cell (mb_array_indices m) (free_cell (mb_array_segments m) s) else s)"

definition SparsityFree :: "nat \<Rightarrow> arrays \<Rightarrow> arrays" where
  "SparsityFree p s =
     (if p = 0 then s
      else (case ar_cells s p of
          Some (SparsityBlock b) \<Rightarrow>
            (let s1 = free_cell (sb_block_map b) (free_cell (sb_traversal_order b) s);
                 s2 = (if sb_dim_metadata b = 0 then s1
                       else (case metadata_at (sb_dim_metadata b) (sb_dim_metadata_size b) s1 of
                           None \<Rightarrow> bad_access s1
                         | Some ms \<Rightarrow> free_cell (sb_dim_metadata b) (fold free_metadata ms s1)))
             in free_cell p s2)
        | _ \<Rightarrow> bad_access s))"

section \<open>Quantization\<close>

datatype quantization_type = NoQuantization | AffineQuantization | BlockwiseQuantization

text \<open>
  The clone of no quantization has parameters that are never set, here null. Block-wise parameters are zeroed first; their
  quantized dimension is not copied.
\<close>

definition QuantizationClone :: "(nat \<Rightarrow> bool) \<Rightarrow> quantization_type \<times> nat \<Rightarrow> arrays \<Rightarrow> (quantization_type \<times> nat) \<times> arrays" where
  "QuantizationClone ok src s = (case fst src of
     NoQuantization \<Rightarrow> ((NoQuantization, 0), s)
   | AffineQuantization \<Rightarrow> (case ar_cells s (snd src) of
       Some (AffineParams scale zero_point quantized_dimension) \<Rightarrow>
         (let (params, s1) = alloc_cell ok 24 (AffineParams 0 0 0) s;
              (scale', s2) = TfLiteVarArrayCopy ok scale s1;
              (zero_point', s3) = TfLiteVarArrayCopy ok zero_point s2
          in ((AffineQuantization, params), write_cell params (AffineParams scale' zero_point' quantized_dimension) s3))
     | _ \<Rightarrow> ((AffineQuantization, 0), bad_access s))
   | BlockwiseQuantization \<Rightarrow> (case ar_cells s (snd src) of
       Some (BlockwiseParams scale zero_point blocksize quantized_dimension) \<Rightarrow>
         (let (params, s1) = alloc_cell ok 16 (BlockwiseParams 0 0 0 0) s
          in ((BlockwiseQuantization, params), write_cell params (BlockwiseParams scale zero_point blocksize 0) s1))
     | _ \<Rightarrow> ((BlockwiseQuantization, 0), bad_access s)))"

definition QuantizationFree :: "quantization_type \<times> nat \<Rightarrow> arrays \<Rightarrow> (quantization_type \<times> nat) \<times> arrays" where
  "QuantizationFree q s = ((NoQuantization, 0),
     (case fst q of
        NoQuantization \<Rightarrow> s
      | AffineQuantization \<Rightarrow> (case ar_cells s (snd q) of
          Some (AffineParams scale zero_point _) \<Rightarrow> free_cell (snd q) (free_cell zero_point (free_cell scale s))
        | _ \<Rightarrow> bad_access s)
      | BlockwiseQuantization \<Rightarrow> free_cell (snd q) s))"

section \<open>The values in memory\<close>

definition int_array_at :: "arrays \<Rightarrow> nat \<Rightarrow> int list option" where
  "int_array_at s p = (if p = 0 then None else (case ar_cells s p of Some (IntArray xs) \<Rightarrow> Some xs | _ \<Rightarrow> None))"

definition float_array_at :: "arrays \<Rightarrow> nat \<Rightarrow> float32 list option" where
  "float_array_at s p = (if p = 0 then None else (case ar_cells s p of Some (FloatArray xs) \<Rightarrow> Some xs | _ \<Rightarrow> None))"

definition metadata_value_at :: "arrays \<Rightarrow> metadata_block \<Rightarrow> TfLiteDimensionMetadata" where
  "metadata_value_at s m = \<lparr>dm_format = mb_format m, dm_dense_size = mb_dense_size m,
     dm_array_segments = int_array_at s (mb_array_segments m), dm_array_indices = int_array_at s (mb_array_indices m)\<rparr>"

definition sparsity_at :: "arrays \<Rightarrow> nat \<Rightarrow> TfLiteSparsity option" where
  "sparsity_at s p = (if p = 0 then None else (case ar_cells s p of
     Some (SparsityBlock b) \<Rightarrow> Some \<lparr>sp_traversal_order = int_array_at s (sb_traversal_order b), sp_block_map = int_array_at s (sb_block_map b),
       sp_dim_metadata = (if sb_dim_metadata b = 0 then [] else
         (case metadata_at (sb_dim_metadata b) (sb_dim_metadata_size b) s of None \<Rightarrow> [] | Some ms \<Rightarrow> map (metadata_value_at s) ms))\<rparr>
   | _ \<Rightarrow> None))"

definition quantization_at :: "arrays \<Rightarrow> quantization_type \<times> nat \<Rightarrow> TfLiteQuantization" where
  "quantization_at s q = (case (fst q, ar_cells s (snd q)) of
     (AffineQuantization, Some (AffineParams scale zero_point d)) \<Rightarrow>
       kTfLiteAffineQuantization (float_array_at s scale) (int_array_at s zero_point) d
   | (BlockwiseQuantization, Some (BlockwiseParams scale zero_point blocksize d)) \<Rightarrow>
       kTfLiteBlockwiseQuantization scale zero_point blocksize d
   | _ \<Rightarrow> kTfLiteNoQuantization)"


section \<open>Allocation\<close>

text \<open>Addresses are given out in order; 0 is not one.\<close>

definition arrays_ok :: "arrays \<Rightarrow> bool" where
  "arrays_ok s \<longleftrightarrow> 0 < ar_next s \<and> ar_cells s 0 = None \<and> (\<forall>a \<ge> ar_next s. ar_cells s a = None)"

text \<open>What cloning does to the heap: it adds blocks at new addresses, all of them allocated, and leaves the others alone.\<close>

definition grows :: "arrays \<Rightarrow> arrays \<Rightarrow> bool" where
  "grows s s1 \<longleftrightarrow> ar_next s \<le> ar_next s1 \<and> (\<forall>a < ar_next s. ar_cells s1 a = ar_cells s a) \<and>
     (\<forall>a. ar_next s \<le> a \<and> a < ar_next s1 \<longrightarrow> ar_cells s1 a \<noteq> None) \<and> (\<forall>a \<ge> ar_next s1. ar_cells s1 a = None) \<and> ar_bad s1 = ar_bad s"

lemma grows_refl: "arrays_ok s \<Longrightarrow> grows s s"
  by (auto simp: grows_def arrays_ok_def)

lemma arrays_grow_trans:
  assumes "grows s t" "grows t u" shows "grows s u"
proof -
  have "ar_cells u a \<noteq> None" if "ar_next s \<le> a" "a < ar_next u" for a
    using assms that by (cases "a < ar_next t") (auto simp: grows_def)
  then show ?thesis using assms by (auto simp: grows_def)
qed

lemma grows_ok: "arrays_ok s \<Longrightarrow> grows s s1 \<Longrightarrow> arrays_ok s1"
  by (auto simp: grows_def arrays_ok_def)

lemma live_less: "arrays_ok s \<Longrightarrow> ar_cells s p = Some c \<Longrightarrow> 0 < p \<and> p < ar_next s"
  by (metis arrays_ok_def bot_nat_0.not_eq_extremum not_less option.simps(3))

lemma grows_same: "grows s s1 \<Longrightarrow> p < ar_next s \<Longrightarrow> ar_cells s1 p = ar_cells s p"
  by (simp add: grows_def)

lemma grows_live: "arrays_ok s \<Longrightarrow> grows s s1 \<Longrightarrow> ar_cells s p = Some c \<Longrightarrow> ar_cells s1 p = Some c"
  using live_less [of s p c] by (simp add: grows_same)

lemma alloc_grows:
  assumes "arrays_ok s" "ok n" "alloc_cell ok n c s = (p, s1)"
  shows "p = ar_next s" "grows s s1" "ar_next s1 = Suc (ar_next s)" "ar_cells s1 p = Some c"
  using assms by (auto simp: alloc_cell_def grows_def arrays_ok_def)

lemma write_grows:
  assumes "grows s s1" "ar_next s \<le> p" "p < ar_next s1"
  shows "grows s (write_cell p c s1)" "ar_next (write_cell p c s1) = ar_next s1"
    "ar_cells (write_cell p c s1) = (ar_cells s1)(p \<mapsto> c)"
  using assms by (auto simp: grows_def write_cell_def bad_access_def)

section \<open>Copies of arrays\<close>

definition int_ok :: "arrays \<Rightarrow> nat \<Rightarrow> bool" where
  "int_ok s p \<longleftrightarrow> p = 0 \<or> (\<exists>xs. ar_cells s p = Some (IntArray xs) \<and> length xs < 2 ^ 31)"

definition float_ok :: "arrays \<Rightarrow> nat \<Rightarrow> bool" where
  "float_ok s p \<longleftrightarrow> p = 0 \<or> (\<exists>xs. ar_cells s p = Some (FloatArray xs) \<and> length xs < 2 ^ 31)"

lemma array_size_pos: "n < 2 ^ 31 \<Longrightarrow> 0 < TfLiteVarArrayGetSizeInBytes (int n)"
proof -
  assume "n < 2 ^ 31"
  then have "size_of_int (int n) = n" by (simp add: size_of_int_def)
  with \<open>n < 2 ^ 31\<close> show ?thesis by (simp add: TfLiteVarArrayGetSizeInBytes_def size_mul_exact size_add_exact)
qed

lemma copy_array:
  assumes "arrays_ok s" "\<And>n. ok n" "int_ok s p \<or> float_ok s p" "TfLiteVarArrayCopy ok p s = (q, s1)"
  shows "grows s s1" "p = 0 \<longrightarrow> q = 0 \<and> s1 = s" "p \<noteq> 0 \<longrightarrow> q = ar_next s \<and> ar_next s1 = Suc (ar_next s) \<and> ar_cells s1 q = ar_cells s p"
proof -
  have "grows s s1 \<and> (p = 0 \<longrightarrow> q = 0 \<and> s1 = s) \<and> (p \<noteq> 0 \<longrightarrow> q = ar_next s \<and> ar_next s1 = Suc (ar_next s) \<and> ar_cells s1 q = ar_cells s p)"
  proof (cases "p = 0")
    case True
    with assms show ?thesis by (simp add: TfLiteVarArrayCopy_def grows_refl)
  next
    case False
    have create: "TfLiteVarArrayCreate ok (int n) c s = alloc_cell ok (TfLiteVarArrayGetSizeInBytes (int n)) c s" if "n < 2 ^ 31" for n c
      using array_size_pos [OF that] by (simp add: TfLiteVarArrayCreate_def Let_def)
    obtain c k where c: "ar_cells s p = Some c" "alloc_cell ok k c s = (q, s1)"
      using assms(3,4) False create by (auto simp: TfLiteVarArrayCopy_def int_ok_def float_ok_def)
    from False c(1) alloc_grows [OF assms(1,2) c(2)] show ?thesis by simp
  qed
  then show "grows s s1" "p = 0 \<longrightarrow> q = 0 \<and> s1 = s" "p \<noteq> 0 \<longrightarrow> q = ar_next s \<and> ar_next s1 = Suc (ar_next s) \<and> ar_cells s1 q = ar_cells s p"
    by blast+
qed

lemma int_array_grows: "arrays_ok s \<Longrightarrow> grows s s1 \<Longrightarrow> int_ok s p \<Longrightarrow> int_array_at s1 p = int_array_at s p \<and> int_ok s1 p"
  by (auto simp: int_ok_def int_array_at_def grows_live)

lemma copy_int_array:
  assumes "arrays_ok s" "\<And>n. ok n" "int_ok s p" "TfLiteVarArrayCopy ok p s = (q, s1)"
  shows "int_array_at s1 q = int_array_at s p" "int_ok s1 q"
proof -
  note c = copy_array [OF assms(1,2) disjI1 [OF assms(3)] assms(4)]
  have "0 < ar_next s" using assms(1) by (simp add: arrays_ok_def)
  with c assms(3) show "int_array_at s1 q = int_array_at s p" "int_ok s1 q"
    by (cases "p = 0"; auto simp: int_array_at_def int_ok_def)+
qed

text \<open>The addresses of the arrays of metadata, null pointers left out.\<close>

definition metadata_arrays :: "metadata_block list \<Rightarrow> nat list" where
  "metadata_arrays ms = filter (\<lambda>p. p \<noteq> 0) (concat (map (\<lambda>m. [mb_array_segments m, mb_array_indices m]) ms))"

definition metadata_ok :: "arrays \<Rightarrow> metadata_block list \<Rightarrow> bool" where
  "metadata_ok s ms \<longleftrightarrow> (\<forall>m \<in> set ms. int_ok s (mb_array_segments m) \<and> int_ok s (mb_array_indices m))"

lemma metadata_grows:
  assumes "arrays_ok s" "grows s s1" "metadata_ok s ms"
  shows "metadata_ok s1 ms" "map (metadata_value_at s1) ms = map (metadata_value_at s) ms"
  using assms int_array_grows [OF assms(1,2)] by (auto simp: metadata_ok_def metadata_value_at_def)

lemma upt_join: "i \<le> j \<Longrightarrow> j \<le> k \<Longrightarrow> [i..<j] @ [j..<k] = [i..<k]"
  using upt_add_eq_append [of i j "k - j"] by simp

lemma clone_metadata_copies:
  assumes "arrays_ok s" "\<And>n. ok n" "metadata_ok s ms" "clone_metadata ok ms s = (cs, s1)"
  shows "grows s s1 \<and> map (metadata_value_at s1) cs = map (metadata_value_at s) ms \<and> metadata_ok s1 cs \<and>
    metadata_arrays cs = [ar_next s..<ar_next s1] \<and>
    map (\<lambda>m. (mb_format m, mb_array_segments m = 0, mb_array_indices m = 0)) cs =
    map (\<lambda>m. (mb_format m, mb_array_segments m = 0, mb_array_indices m = 0)) ms"
  using assms(1,3,4)
proof (induction ms arbitrary: s cs)
  case Nil
  then show ?case by (simp add: grows_refl metadata_ok_def metadata_arrays_def)
next
  case (Cons m ms)
  obtain p sa where a: "TfLiteVarArrayCopy ok (mb_array_segments m) s = (p, sa)" by fastforce
  obtain q sb where b: "TfLiteVarArrayCopy ok (mb_array_indices m) sa = (q, sb)" by fastforce
  obtain rest where r: "clone_metadata ok ms sb = (rest, s1)" and cs: "cs = m\<lparr>mb_array_segments := p, mb_array_indices := q\<rparr> # rest"
    using Cons.prems(3) a b by (auto split: prod.splits)
  have i: "int_ok s (mb_array_segments m)" "int_ok s (mb_array_indices m)" "metadata_ok s ms"
    using Cons.prems(2) by (auto simp: metadata_ok_def)
  note pa = copy_array [OF Cons.prems(1) assms(2) disjI1 [OF i(1)] a] and va = copy_int_array [OF Cons.prems(1) assms(2) i(1) a]
  have oka: "arrays_ok sa" by (rule grows_ok [OF Cons.prems(1) pa(1)])
  note ia = int_array_grows [OF Cons.prems(1) pa(1) i(2)]
  note qb = copy_array [OF oka assms(2) disjI1 [OF conjunct2 [OF ia]] b] and vb = copy_int_array [OF oka assms(2) conjunct2 [OF ia] b]
  have okb: "arrays_ok sb" by (rule grows_ok [OF oka qb(1)])
  have gb: "grows s sb" by (rule arrays_grow_trans [OF pa(1) qb(1)])
  note mb = metadata_grows [OF Cons.prems(1) gb i(3)]
  note IH = Cons.IH [OF okb mb(1) r]
  note pb = int_array_grows [OF oka qb(1) va(2)]
  then have p1: "int_array_at s1 p = int_array_at s (mb_array_segments m) \<and> int_ok s1 p"
    using int_array_grows [OF okb conjunct1 [OF IH]] va(1) by simp
  have q1: "int_array_at s1 q = int_array_at s (mb_array_indices m) \<and> int_ok s1 q"
    using int_array_grows [OF okb conjunct1 [OF IH] vb(2)] vb(1) ia by simp
  have arrays: "metadata_arrays cs = [ar_next s..<ar_next s1]"
  proof -
    have "ar_next s \<le> ar_next sa" "ar_next sa \<le> ar_next sb" "ar_next sb \<le> ar_next s1" using pa(1) qb(1) IH by (auto simp: grows_def)
    moreover have "filter (\<lambda>x. x \<noteq> 0) [p] = [ar_next s..<ar_next sa]" "filter (\<lambda>x. x \<noteq> 0) [q] = [ar_next sa..<ar_next sb]"
      using pa(2,3) qb(2,3) Cons.prems(1) oka by (auto simp: arrays_ok_def)
    moreover have "metadata_arrays cs = filter (\<lambda>x. x \<noteq> 0) [p] @ filter (\<lambda>x. x \<noteq> 0) [q] @ metadata_arrays rest"
      by (simp add: metadata_arrays_def cs)
    ultimately show ?thesis using IH by (simp add: upt_join)
  qed
  have "(p = 0) = (mb_array_segments m = 0)" "(q = 0) = (mb_array_indices m = 0)"
    using pa(2,3) qb(2,3) Cons.prems(1) oka by (auto simp: arrays_ok_def)
  then show ?case using IH arrays_grow_trans [OF gb conjunct1 [OF IH]] p1 q1 arrays mb(2)
    by (simp add: cs metadata_value_at_def metadata_ok_def)
qed


section \<open>Releasing blocks\<close>

lemma fold_free_cells:
  assumes "distinct ps" "\<forall>p \<in> set ps. p \<noteq> 0 \<and> ar_cells s p \<noteq> None"
  shows "fold free_cell ps s = s\<lparr>ar_cells := (\<lambda>a. if a \<in> set ps then None else ar_cells s a)\<rparr>"
  using assms
proof (induction ps arbitrary: s)
  case (Cons p ps)
  let ?s = "s\<lparr>ar_cells := (ar_cells s)(p := None)\<rparr>"
  have "free_cell p s = ?s" using Cons.prems(2) by (auto simp: free_cell_def)
  moreover have "fold free_cell ps ?s = ?s\<lparr>ar_cells := (\<lambda>a. if a \<in> set ps then None else ar_cells ?s a)\<rparr>"
    by (rule Cons.IH) (use Cons.prems in auto)
  ultimately show ?case by (auto simp: fun_eq_iff)
qed simp

lemma fold_free_nonnull: "fold free_cell ps s = fold free_cell (filter (\<lambda>p. p \<noteq> 0) ps) s"
  by (induction ps arbitrary: s) (auto simp: free_cell_def)

text \<open>Dense dimensions have no arrays: this is how the builder makes metadata, and what freeing relies on.\<close>

definition dense_without_arrays :: "metadata_block list \<Rightarrow> bool" where
  "dense_without_arrays ms \<longleftrightarrow> (\<forall>m \<in> set ms. mb_format m = kTfLiteDimDense \<longrightarrow> mb_array_segments m = 0 \<and> mb_array_indices m = 0)"

lemma dense_map:
  "dense_without_arrays ms \<longleftrightarrow>
     (\<forall>(f, a, b) \<in> set (map (\<lambda>m. (mb_format m, mb_array_segments m = 0, mb_array_indices m = 0)) ms). f = kTfLiteDimDense \<longrightarrow> a \<and> b)"
  by (auto simp: dense_without_arrays_def)

lemma fold_free_metadata:
  "dense_without_arrays ms \<Longrightarrow> fold free_metadata ms s = fold free_cell (metadata_arrays ms) s"
proof (induction ms arbitrary: s)
  case (Cons m ms)
  then have IH: "fold free_metadata ms t = fold free_cell (metadata_arrays ms) t" for t by (simp add: dense_without_arrays_def)
  have "free_metadata m s = fold free_cell (filter (\<lambda>p. p \<noteq> 0) [mb_array_segments m, mb_array_indices m]) s"
    unfolding fold_free_nonnull [symmetric]
    using Cons.prems by (cases "mb_format m") (auto simp: free_metadata_def dense_without_arrays_def free_cell_def)
  then show ?case by (simp add: IH metadata_arrays_def)
qed (simp add: metadata_arrays_def)

text \<open>Blocks that were added and are all released again leave the heap as it was.\<close>

lemma release_new:
  assumes "arrays_ok s" "grows s s1" "distinct ps" "set ps = {ar_next s..<ar_next s1}"
  shows "ar_cells (fold free_cell ps s1) = ar_cells s" "ar_bad (fold free_cell ps s1) = ar_bad s"
proof -
  have "\<forall>p \<in> set ps. p \<noteq> 0 \<and> ar_cells s1 p \<noteq> None" using assms by (auto simp: arrays_ok_def grows_def)
  note r = fold_free_cells [OF assms(3) this]
  show "ar_cells (fold free_cell ps s1) = ar_cells s"
  proof
    fix a
    consider "a < ar_next s" | "ar_next s \<le> a" "a < ar_next s1" | "ar_next s1 \<le> a" by linarith
    then show "ar_cells (fold free_cell ps s1) a = ar_cells s a"
      using assms by cases (auto simp: r grows_def arrays_ok_def)
  qed
  show "ar_bad (fold free_cell ps s1) = ar_bad s" using assms(2) by (simp add: r grows_def)
qed

section \<open>Sparsity is cloned and released\<close>

definition sparsity_ok :: "arrays \<Rightarrow> sparsity_block \<Rightarrow> bool" where
  "sparsity_ok s b \<longleftrightarrow> int_ok s (sb_traversal_order b) \<and> int_ok s (sb_block_map b) \<and>
     (sb_dim_metadata b \<noteq> 0 \<longrightarrow> (\<exists>ms. ar_cells s (sb_dim_metadata b) = Some (MetadataBlock ms) \<and>
        sb_dim_metadata_size b = int (length ms) \<and> ms \<noteq> [] \<and> metadata_ok s ms \<and> dense_without_arrays ms))"

definition metadata_list :: "arrays \<Rightarrow> sparsity_block \<Rightarrow> metadata_block list" where
  "metadata_list s b = (if sb_dim_metadata b = 0 then [] else
     (case metadata_at (sb_dim_metadata b) (sb_dim_metadata_size b) s of None \<Rightarrow> [] | Some ms \<Rightarrow> ms))"

text \<open>The blocks that a sparsity structure owns, besides its own.\<close>

definition sparsity_parts :: "arrays \<Rightarrow> sparsity_block \<Rightarrow> nat list" where
  "sparsity_parts s b = filter (\<lambda>p. p \<noteq> 0) ([sb_traversal_order b, sb_block_map b] @ metadata_arrays (metadata_list s b) @ [sb_dim_metadata b])"

lemma metadata_at_whole [simp]:
  "ar_cells s p = Some (MetadataBlock ms) \<Longrightarrow> metadata_at p (int (length ms)) s = Some ms"
  by (simp add: metadata_at_def)

lemma clone_dim_metadata_copies:
  assumes "arrays_ok s" "\<And>n. ok n" "sparsity_ok s b" "clone_dim_metadata ok b s = (p, s1)"
  shows "grows s s1 \<and> (p = 0 \<longleftrightarrow> sb_dim_metadata b = 0) \<and> (p = 0 \<longrightarrow> s1 = s) \<and>
    (p \<noteq> 0 \<longrightarrow> (\<exists>cs. ar_cells s1 p = Some (MetadataBlock cs) \<and> sb_dim_metadata_size b = int (length cs) \<and> cs \<noteq> [] \<and> p = ar_next s \<and>
      map (metadata_value_at s1) cs = map (metadata_value_at s) (metadata_list s b) \<and> metadata_ok s1 cs \<and> dense_without_arrays cs \<and>
      metadata_arrays cs = [Suc (ar_next s)..<ar_next s1] \<and> ar_next s < ar_next s1))"
proof (cases "sb_dim_metadata b = 0")
  case True
  with assms show ?thesis by (simp add: clone_dim_metadata_def grows_refl)
next
  case False
  with assms(3) obtain ms where ms: "ar_cells s (sb_dim_metadata b) = Some (MetadataBlock ms)" "sb_dim_metadata_size b = int (length ms)" "ms \<noteq> []"
    "metadata_ok s ms" "dense_without_arrays ms" by (auto simp: sparsity_ok_def)
  obtain q sa where a: "alloc_cell ok (size_mul 24 (size_of_int (sb_dim_metadata_size b))) (MetadataBlock (replicate (length ms) zero_metadata)) s = (q, sa)"
    by fastforce
  obtain cs sb where c: "clone_metadata ok ms sa = (cs, sb)" by fastforce
  note qa = alloc_grows [OF assms(1,2) a]
  have oka: "arrays_ok sa" by (rule grows_ok [OF assms(1) qa(2)])
  note ma = metadata_grows [OF assms(1) qa(2) ms(4)]
  note cl = clone_metadata_copies [OF oka assms(2) ma(1) c]
  have r: "p = q" "s1 = write_cell q (MetadataBlock cs) sb" using assms(4) False ms a c by (auto simp: clone_dim_metadata_def)
  have gb: "grows s sb" using arrays_grow_trans qa(2) cl by blast
  have qr: "ar_next s \<le> q" "q < ar_next sb" using qa cl by (auto simp: grows_def)
  note w = write_grows [OF gb qr, of "MetadataBlock cs"]
  have gs1: "grows s s1" using w(1) r(2) by simp
  have same: "int_array_at s1 x = int_array_at sb x \<and> int_ok s1 x" if "int_ok sb x" "x \<noteq> q" for x
    using that w(3) r(2) by (auto simp: int_array_at_def int_ok_def)
  have notq: "mb_array_segments m \<noteq> q \<and> mb_array_indices m \<noteq> q" if "m \<in> set cs" for m
  proof -
    have "q \<notin> set (metadata_arrays cs)" using cl qa by auto
    moreover have "q \<noteq> 0" using qa(1) assms(1) by (simp add: arrays_ok_def)
    ultimately show ?thesis using that by (auto simp: metadata_arrays_def)
  qed
  have vals: "map (metadata_value_at s1) cs = map (metadata_value_at sb) cs" "metadata_ok s1 cs"
  proof -
    have ok: "int_ok sb (mb_array_segments m)" "int_ok sb (mb_array_indices m)" if "m \<in> set cs" for m
      using cl that by (auto simp: metadata_ok_def)
    show "map (metadata_value_at s1) cs = map (metadata_value_at sb) cs" using same notq ok by (simp add: metadata_value_at_def)
    show "metadata_ok s1 cs" using same notq ok by (simp add: metadata_ok_def)
  qed
  have len: "length cs = length ms" using cl by (metis length_map)
  have "dense_without_arrays cs" using ms(5) cl unfolding dense_map by auto
  then show ?thesis using gs1 qa r w vals len ms cl ma False qr assms(1)
    by (auto simp: metadata_list_def arrays_ok_def)
qed


text \<open>The clone of the structure by value: its parts are the new blocks, and they hold the values of the source.\<close>

definition sparsity_value :: "arrays \<Rightarrow> sparsity_block \<Rightarrow> TfLiteSparsity" where
  "sparsity_value s b = \<lparr>sp_traversal_order = int_array_at s (sb_traversal_order b), sp_block_map = int_array_at s (sb_block_map b),
     sp_dim_metadata = map (metadata_value_at s) (metadata_list s b)\<rparr>"

lemma sparsity_at_value: "p \<noteq> 0 \<Longrightarrow> ar_cells s p = Some (SparsityBlock b) \<Longrightarrow> sparsity_at s p = Some (sparsity_value s b)"
  by (simp add: sparsity_at_def sparsity_value_def metadata_list_def split: option.split)

lemma sparsity_grows:
  assumes "arrays_ok s" "grows s s1" "sparsity_ok s b"
  shows "sparsity_ok s1 b \<and> sparsity_value s1 b = sparsity_value s b \<and> metadata_list s1 b = metadata_list s b"
proof (cases "sb_dim_metadata b = 0")
  case True
  with assms int_array_grows [OF assms(1,2)] show ?thesis by (auto simp: sparsity_ok_def sparsity_value_def metadata_list_def)
next
  case False
  with assms(3) obtain ms where ms: "ar_cells s (sb_dim_metadata b) = Some (MetadataBlock ms)" "sb_dim_metadata_size b = int (length ms)" "ms \<noteq> []"
    "metadata_ok s ms" "dense_without_arrays ms" by (auto simp: sparsity_ok_def)
  have "ar_cells s1 (sb_dim_metadata b) = Some (MetadataBlock ms)" by (rule grows_live [OF assms(1,2) ms(1)])
  then show ?thesis using ms False assms(3) metadata_grows [OF assms(1,2) ms(4)] int_array_grows [OF assms(1,2)]
    by (simp add: sparsity_ok_def sparsity_value_def metadata_list_def)
qed

lemma join_new:
  assumes "a \<le> b" "b \<le> c" "c \<le> d" "distinct ps" "set ps = {c..<d}"
  shows "distinct ([a..<b] @ [b..<c] @ ps) \<and> set ([a..<b] @ [b..<c] @ ps) = {a..<d::nat}"
  using assms by auto

lemma cloned_dim_metadata_parts:
  assumes "arrays_ok s" "\<And>n. ok n" "sparsity_ok s b" "clone_dim_metadata ok b s = (d, s1)"
    and c: "sb_dim_metadata c = d" "sb_dim_metadata_size c = sb_dim_metadata_size b"
  shows "distinct (filter (\<lambda>x. x \<noteq> 0) (metadata_arrays (metadata_list s1 c) @ [d])) \<and>
    set (filter (\<lambda>x. x \<noteq> 0) (metadata_arrays (metadata_list s1 c) @ [d])) = {ar_next s..<ar_next s1} \<and>
    map (metadata_value_at s1) (metadata_list s1 c) = map (metadata_value_at s) (metadata_list s b) \<and>
    (d \<noteq> 0 \<longrightarrow> (\<exists>ms. ar_cells s1 d = Some (MetadataBlock ms) \<and> sb_dim_metadata_size b = int (length ms) \<and> ms \<noteq> [] \<and> metadata_ok s1 ms \<and>
      dense_without_arrays ms))"
proof (cases "d = 0")
  case True
  then have "s1 = s" "sb_dim_metadata b = 0" using clone_dim_metadata_copies [OF assms(1-4)] by auto
  with True show ?thesis by (simp add: metadata_list_def c metadata_arrays_def)
next
  case False
  then obtain cs where cs: "ar_cells s1 d = Some (MetadataBlock cs)" "sb_dim_metadata_size b = int (length cs)" "cs \<noteq> []" "d = ar_next s"
    "map (metadata_value_at s1) cs = map (metadata_value_at s) (metadata_list s b)" "metadata_ok s1 cs" "dense_without_arrays cs"
    "metadata_arrays cs = [Suc (ar_next s)..<ar_next s1]" "ar_next s < ar_next s1" using clone_dim_metadata_copies [OF assms(1-4)] by auto
  have L: "metadata_list s1 c = cs" using False cs(1,2) by (simp add: metadata_list_def c)
  have "filter (\<lambda>x. x \<noteq> 0) (metadata_arrays cs @ [d]) = [Suc (ar_next s)..<ar_next s1] @ [ar_next s]"
    using cs(4,8) False by (auto simp: filter_empty_conv intro!: filter_True)
  moreover have "{ar_next s..<ar_next s1} = insert (ar_next s) {Suc (ar_next s)..<ar_next s1}" using cs(9) by auto
  ultimately show ?thesis unfolding L using cs by auto
qed

lemma SparsityClone_value_copies:
  assumes "arrays_ok s" "\<And>n. ok n" "sparsity_ok s b" "SparsityClone_value ok b s = (c, s1)"
  shows "grows s s1 \<and> sparsity_value s1 c = sparsity_value s b \<and> sparsity_ok s1 c \<and>
    distinct (sparsity_parts s1 c) \<and> set (sparsity_parts s1 c) = {ar_next s..<ar_next s1}"
proof -
  obtain t sa where a: "TfLiteVarArrayCopy ok (sb_traversal_order b) s = (t, sa)" by fastforce
  obtain m sb where m: "TfLiteVarArrayCopy ok (sb_block_map b) sa = (m, sb)" by fastforce
  obtain d where d: "clone_dim_metadata ok b sb = (d, s1)"
    and c: "c = b\<lparr>sb_traversal_order := t, sb_block_map := m, sb_dim_metadata := d\<rparr>"
    using assms(4) a m by (auto simp: SparsityClone_value_def split: prod.splits)
  have i: "int_ok s (sb_traversal_order b)" "int_ok s (sb_block_map b)" using assms(3) by (auto simp: sparsity_ok_def)
  note ta = copy_array [OF assms(1,2) disjI1 [OF i(1)] a] and va = copy_int_array [OF assms(1,2) i(1) a]
  have oka: "arrays_ok sa" by (rule grows_ok [OF assms(1) ta(1)])
  note ia = int_array_grows [OF assms(1) ta(1) i(2)]
  note mb = copy_array [OF oka assms(2) disjI1 [OF conjunct2 [OF ia]] m] and vb = copy_int_array [OF oka assms(2) conjunct2 [OF ia] m]
  have okb: "arrays_ok sb" by (rule grows_ok [OF oka mb(1)])
  have gb: "grows s sb" by (rule arrays_grow_trans [OF ta(1) mb(1)])
  note sp = sparsity_grows [OF assms(1) gb assms(3)]
  note cd = clone_dim_metadata_copies [OF okb assms(2) conjunct1 [OF sp] d]
  have g1: "grows sb s1" using cd by blast
  have g: "grows s s1" by (rule arrays_grow_trans [OF gb g1])
  have t1: "int_array_at s1 t = int_array_at s (sb_traversal_order b) \<and> int_ok s1 t"
    using int_array_grows [OF oka arrays_grow_trans [OF mb(1) g1] va(2)] va(1) by simp
  have m1: "int_array_at s1 m = int_array_at s (sb_block_map b) \<and> int_ok s1 m"
    using int_array_grows [OF okb g1 vb(2)] vb(1) ia by simp
  have le: "ar_next s \<le> ar_next sa" "ar_next sa \<le> ar_next sb" "ar_next sb \<le> ar_next s1"
    using ta(1) mb(1) g1 by (auto simp: grows_def)
  have ft: "filter (\<lambda>x. x \<noteq> 0) [t] = [ar_next s..<ar_next sa]" "filter (\<lambda>x. x \<noteq> 0) [m] = [ar_next sa..<ar_next sb]"
    using ta(2,3) mb(2,3) assms(1) oka by (auto simp: arrays_ok_def)
  have parts: "sparsity_parts s1 c = filter (\<lambda>x. x \<noteq> 0) [t] @ filter (\<lambda>x. x \<noteq> 0) [m] @
      filter (\<lambda>x. x \<noteq> 0) (metadata_arrays (metadata_list s1 c) @ [d])" by (simp add: sparsity_parts_def c)
  have "sp_dim_metadata (sparsity_value sb b) = sp_dim_metadata (sparsity_value s b)" using sp by simp
  then have old: "map (metadata_value_at sb) (metadata_list sb b) = map (metadata_value_at s) (metadata_list s b)"
    by (simp only: sparsity_value_def TfLiteSparsity.select_convs)
  note rest = cloned_dim_metadata_parts [OF okb assms(2) conjunct1 [OF sp] d, of c, unfolded old]
  have "distinct (sparsity_parts s1 c) \<and> set (sparsity_parts s1 c) = {ar_next s..<ar_next s1}"
    unfolding parts ft by (rule join_new [OF le]) (use rest c in simp_all)
  moreover have "sparsity_value s1 c = sparsity_value s b" using t1 m1 rest by (simp add: sparsity_value_def c)
  moreover have "sparsity_ok s1 c" using t1 m1 rest by (simp add: sparsity_ok_def c)
  ultimately show ?thesis using g by blast
qed


lemma set_sparsity_parts:
  "set (sparsity_parts s c) =
     {p. p \<noteq> 0 \<and> (p \<in> {sb_traversal_order c, sb_block_map c, sb_dim_metadata c} \<or> p \<in> set (metadata_arrays (metadata_list s c)))}"
  by (simp only: sparsity_parts_def set_filter set_append) auto

text \<open>Assigning the structure itself does not change its parts.\<close>

lemma overwritten_sparsity:
  assumes cells: "ar_cells t = (ar_cells s)(d \<mapsto> SparsityBlock e)" and "d \<noteq> 0" "d \<notin> set (sparsity_parts s c)" "sparsity_ok s c"
  shows "sparsity_ok t c \<and> sparsity_value t c = sparsity_value s c \<and> sparsity_parts t c = sparsity_parts s c"
proof -
  have arr: "int_array_at t x = int_array_at s x \<and> int_ok t x" if "int_ok s x" "x \<noteq> d" for x
    using that cells by (auto simp: int_array_at_def int_ok_def)
  have nd: "sb_traversal_order c \<noteq> d" "sb_block_map c \<noteq> d" "sb_dim_metadata c \<noteq> d" "d \<notin> set (metadata_arrays (metadata_list s c))"
    using assms(2,3) by (auto simp: set_sparsity_parts)
  have i: "int_ok s (sb_traversal_order c)" "int_ok s (sb_block_map c)" using assms(4) by (auto simp: sparsity_ok_def)
  show ?thesis
  proof (cases "sb_dim_metadata c = 0")
    case True
    with arr nd i show ?thesis by (auto simp: sparsity_ok_def sparsity_value_def metadata_list_def sparsity_parts_def)
  next
    case False
    with assms(4) obtain ms where ms: "ar_cells s (sb_dim_metadata c) = Some (MetadataBlock ms)" "sb_dim_metadata_size c = int (length ms)"
      "ms \<noteq> []" "metadata_ok s ms" "dense_without_arrays ms" by (auto simp: sparsity_ok_def)
    have ct: "ar_cells t (sb_dim_metadata c) = Some (MetadataBlock ms)" using ms(1) nd(3) cells by simp
    have L: "metadata_list s c = ms" "metadata_list t c = ms" using False ms(1,2) ct by (simp_all add: metadata_list_def)
    have m: "mb_array_segments x \<noteq> d" "mb_array_indices x \<noteq> d" if "x \<in> set ms" for x
      using nd(4) assms(2) that L(1) by (auto simp: metadata_arrays_def)
    have "metadata_ok t ms" "map (metadata_value_at t) ms = map (metadata_value_at s) ms"
      using ms(4) arr m by (simp_all add: metadata_ok_def metadata_value_at_def)
    then show ?thesis using ms ct L arr nd i False by (simp add: sparsity_ok_def sparsity_value_def sparsity_parts_def)
  qed
qed

text \<open>Freeing the structure frees its parts and itself.\<close>

lemma SparsityFree_parts:
  assumes "ar_cells s q = Some (SparsityBlock c)" "q \<noteq> 0" "sparsity_ok s c" "distinct (q # sparsity_parts s c)"
    and "\<forall>p \<in> set (sparsity_parts s c). ar_cells s p \<noteq> None"
  shows "SparsityFree q s = fold free_cell (sparsity_parts s c @ [q]) s"
proof -
  define first where "first = free_cell (sb_block_map c) (free_cell (sb_traversal_order c) s)"
  have goal: "fold free_cell (sparsity_parts s c @ [q]) s =
      free_cell q (free_cell (sb_dim_metadata c) (fold free_cell (metadata_arrays (metadata_list s c)) first))"
    unfolding sparsity_parts_def fold_append o_apply fold_free_nonnull [symmetric] by (simp add: first_def)
  show ?thesis
  proof (cases "sb_dim_metadata c = 0")
    case True
    then show ?thesis unfolding goal using assms(1,2)
      by (simp add: SparsityFree_def first_def metadata_list_def metadata_arrays_def Let_def free_cell_def [of 0])
  next
    case False
    with assms(3) obtain ms where ms: "ar_cells s (sb_dim_metadata c) = Some (MetadataBlock ms)" "sb_dim_metadata_size c = int (length ms)"
      "dense_without_arrays ms" by (auto simp: sparsity_ok_def)
    have L: "metadata_list s c = ms" using False ms(1,2) by (simp add: metadata_list_def)
    let ?ps = "filter (\<lambda>p. p \<noteq> 0) [sb_traversal_order c, sb_block_map c]"
    have d: "distinct (?ps @ filter (\<lambda>p. p \<noteq> 0) (metadata_arrays ms @ [sb_dim_metadata c]))"
      using assms(4) by (simp only: sparsity_parts_def L filter_append [symmetric] append.assoc [symmetric] append_Cons append_Nil distinct.simps)
    have "first = fold free_cell ?ps s" unfolding fold_free_nonnull [symmetric] by (simp add: first_def)
    also have "\<dots> = s\<lparr>ar_cells := (\<lambda>a. if a \<in> set ?ps then None else ar_cells s a)\<rparr>"
    proof (rule fold_free_cells)
      show "distinct ?ps" using d by (simp only: distinct_append)
      show "\<forall>p \<in> set ?ps. p \<noteq> 0 \<and> ar_cells s p \<noteq> None" using assms(5) by (auto simp: set_sparsity_parts)
    qed
    finally have "ar_cells first (sb_dim_metadata c) = Some (MetadataBlock ms)"
      using d ms(1) False by (auto simp: distinct_append)
    then have at: "metadata_at (sb_dim_metadata c) (sb_dim_metadata_size c) first = Some ms" using ms(2) by simp
    show ?thesis unfolding goal L using assms(1,2) False at fold_free_metadata [OF ms(3)]
      by (simp add: SparsityFree_def first_def Let_def)
  qed
qed

text \<open>
  Cloning the sparsity parameters of a tensor, when memory suffices, makes a structure with the same value that shares no block
  with the original, which stays as it is; freeing the clone releases exactly the blocks that cloning made: nothing is lost and
  nothing is freed twice, as long as dense dimensions have no arrays.
\<close>

lemma sparsity_clone_owned:
  assumes "arrays_ok s" "\<And>n. ok n" "p \<noteq> 0" "ar_cells s p = Some (SparsityBlock b)" "sparsity_ok s b"
    and clone: "SparsityClone ok p s = (q, s1)"
  shows "sparsity_at s1 q = sparsity_at s p \<and> sparsity_at s1 p = sparsity_at s p \<and> (\<forall>a < ar_next s. ar_cells s1 a = ar_cells s a) \<and>
    ar_cells (SparsityFree q s1) = ar_cells s \<and> ar_bad (SparsityFree q s1) = ar_bad s"
proof -
  obtain d sa where a: "alloc_cell ok 32 (SparsityBlock zero_sparsity) s = (d, sa)" by fastforce
  obtain c sb where c: "SparsityClone_value ok b sa = (c, sb)" by fastforce
  have r: "q = d" "s1 = write_cell d (SparsityBlock c) sb" using clone assms(3,4) a c by (auto simp: SparsityClone_def)
  note da = alloc_grows [OF assms(1,2) a]
  have oka: "arrays_ok sa" by (rule grows_ok [OF assms(1) da(2)])
  note sp = sparsity_grows [OF assms(1) da(2) assms(5)]
  note cl = SparsityClone_value_copies [OF oka assms(2) conjunct1 [OF sp] c]
  have gb: "grows s sb" using arrays_grow_trans da(2) cl by blast
  have dr: "ar_next s \<le> d" "d < ar_next sb" using da cl by (auto simp: grows_def)
  note w = write_grows [OF gb dr, of "SparsityBlock c"]
  have cells: "ar_cells s1 = (ar_cells sb)(d \<mapsto> SparsityBlock c)" using w(3) r by simp
  have d0: "d \<noteq> 0" "d \<notin> set (sparsity_parts sb c)" using da cl assms(1) by (auto simp: arrays_ok_def)
  note keep = overwritten_sparsity [OF cells d0(1,2) conjunct1 [OF conjunct2 [OF conjunct2 [OF cl]]]]
  have val: "sparsity_at s1 q = Some (sparsity_value s b)"
    using sparsity_at_value [OF d0(1), of s1 c] cells r(1) keep cl sp by simp
  have g1: "grows s s1" using w(1) r by simp
  have src: "sparsity_at s1 p = Some (sparsity_value s b)"
    using sparsity_at_value [OF assms(3) grows_live [OF assms(1) g1 assms(4)]] sparsity_grows [OF assms(1) g1 assms(5)] by simp
  have parts: "distinct (q # sparsity_parts s1 c)" "set (sparsity_parts s1 c @ [q]) = {ar_next s..<ar_next s1}"
    using keep cl d0 r(1,2) w(2) da dr by auto
  have "x \<in> {ar_next s..<ar_next s1}" if "x \<in> set (sparsity_parts s1 c)" for x using that parts(2) by auto
  then have "\<forall>x \<in> set (sparsity_parts s1 c). ar_cells s1 x \<noteq> None" using g1 by (auto simp: grows_def)
  then have "SparsityFree q s1 = fold free_cell (sparsity_parts s1 c @ [q]) s1"
    using SparsityFree_parts [of s1 q c] cells r(1) d0(1) keep parts(1) by simp
  moreover have "distinct (sparsity_parts s1 c @ [q])" using parts(1) by auto
  ultimately have "ar_cells (SparsityFree q s1) = ar_cells s" "ar_bad (SparsityFree q s1) = ar_bad s"
    using release_new [OF assms(1) g1 _ parts(2)] by simp_all
  with val src sparsity_at_value [OF assms(3,4)] grows_same [OF g1] show ?thesis by simp
qed


text \<open>A structure with a traversal order, one dense dimension and one compressed one.\<close>

definition w_sparsity :: sparsity_block where
  "w_sparsity = \<lparr>sb_traversal_order = 1, sb_block_map = 0, sb_dim_metadata = 2, sb_dim_metadata_size = 2\<rparr>"

definition w_metadata :: "metadata_block list" where
  "w_metadata = [\<lparr>mb_format = kTfLiteDimDense, mb_dense_size = 4, mb_array_segments = 0, mb_array_indices = 0\<rparr>,
     \<lparr>mb_format = kTfLiteDimSparseCSR, mb_dense_size = 0, mb_array_segments = 3, mb_array_indices = 4\<rparr>]"

definition w_arrays :: arrays where
  "w_arrays = \<lparr>ar_cells = [1 \<mapsto> IntArray [0, 1], 2 \<mapsto> MetadataBlock w_metadata, 3 \<mapsto> IntArray [0, 2], 4 \<mapsto> IntArray [1, 3], 5 \<mapsto> SparsityBlock w_sparsity],
     ar_next = 6, ar_bad = False\<rparr>"

lemma sparsity_clone_owned_witness:
  "ar_cells (SparsityFree (fst (SparsityClone (\<lambda>_. True) 5 w_arrays)) (snd (SparsityClone (\<lambda>_. True) 5 w_arrays))) = ar_cells w_arrays"
proof -
  have "arrays_ok w_arrays" "sparsity_ok w_arrays w_sparsity" "ar_cells w_arrays 5 = Some (SparsityBlock w_sparsity)"
    by (auto simp: arrays_ok_def w_arrays_def sparsity_ok_def w_sparsity_def w_metadata_def int_ok_def metadata_ok_def dense_without_arrays_def)
  from sparsity_clone_owned [OF this(1) _ _ this(3,2), of "\<lambda>_. True"] show ?thesis by simp
qed

text \<open>Arrays of a dense dimension are cloned but not freed.\<close>

lemma dense_arrays_leak:
  assumes "mb_format m = kTfLiteDimDense" shows "free_metadata m s = s"
  using assms by (simp add: free_metadata_def)

section \<open>Quantization is cloned and released\<close>

definition quantization_ok :: "arrays \<Rightarrow> quantization_type \<times> nat \<Rightarrow> bool" where
  "quantization_ok s q \<longleftrightarrow> (case fst q of
     NoQuantization \<Rightarrow> True
   | AffineQuantization \<Rightarrow> (\<exists>scale zero_point d. ar_cells s (snd q) = Some (AffineParams scale zero_point d) \<and> float_ok s scale \<and> int_ok s zero_point)
   | BlockwiseQuantization \<Rightarrow> (\<exists>scale zero_point n d. ar_cells s (snd q) = Some (BlockwiseParams scale zero_point n d)))"

lemma float_array_grows: "arrays_ok s \<Longrightarrow> grows s s1 \<Longrightarrow> float_ok s p \<Longrightarrow> float_array_at s1 p = float_array_at s p \<and> float_ok s1 p"
  by (auto simp: float_ok_def float_array_at_def grows_live)

lemma value_array_copy:
  "int_ok s p \<Longrightarrow> TfLiteIntArrayCopy (\<lambda>_. True) (int_array_at s p) = int_array_at s p"
  "float_ok s p \<Longrightarrow> TfLiteFloatArrayCopy (\<lambda>_. True) (float_array_at s p) = float_array_at s p"
proof -
  show "int_ok s p \<Longrightarrow> TfLiteIntArrayCopy (\<lambda>_. True) (int_array_at s p) = int_array_at s p"
    using array_size_pos [unfolded TfLiteVarArrayGetSizeInBytes_def]
    by (auto simp: TfLiteIntArrayCopy_def TfLiteIntArrayCreate_def TfLiteIntArrayGetSizeInBytes_def int_ok_def int_array_at_def Let_def)
  show "float_ok s p \<Longrightarrow> TfLiteFloatArrayCopy (\<lambda>_. True) (float_array_at s p) = float_array_at s p"
    by (auto simp: TfLiteFloatArrayCopy_def float_ok_def float_array_at_def)
qed

lemma affine_clone_owned:
  assumes "arrays_ok s" "\<And>n. ok n" "ar_cells s p = Some (AffineParams scale zero_point d)" "float_ok s scale" "int_ok s zero_point"
    and clone: "QuantizationClone ok (AffineQuantization, p) s = (q, s1)"
  shows "quantization_at s1 q = quantization_at s (AffineQuantization, p) \<and> grows s s1 \<and>
    ar_cells (snd (QuantizationFree q s1)) = ar_cells s \<and> ar_bad (snd (QuantizationFree q s1)) = ar_bad s"
proof -
  obtain r sa where a: "alloc_cell ok 24 (AffineParams 0 0 0) s = (r, sa)" by fastforce
  obtain f sb where b: "TfLiteVarArrayCopy ok scale sa = (f, sb)" by fastforce
  obtain z sc where c: "TfLiteVarArrayCopy ok zero_point sb = (z, sc)" by fastforce
  have r: "q = (AffineQuantization, r)" "s1 = write_cell r (AffineParams f z d) sc"
    using clone assms(3) a b c by (auto simp: QuantizationClone_def)
  note ra = alloc_grows [OF assms(1,2) a]
  have oka: "arrays_ok sa" by (rule grows_ok [OF assms(1) ra(2)])
  note fa = float_array_grows [OF assms(1) ra(2) assms(4)] and za = int_array_grows [OF assms(1) ra(2) assms(5)]
  note fb = copy_array [OF oka assms(2) disjI2 [OF conjunct2 [OF fa]] b]
  have okb: "arrays_ok sb" by (rule grows_ok [OF oka fb(1)])
  note zb = int_array_grows [OF oka fb(1) conjunct2 [OF za]]
  note zc = copy_array [OF okb assms(2) disjI1 [OF conjunct2 [OF zb]] c] and vc = copy_int_array [OF okb assms(2) conjunct2 [OF zb] c]
  have fcopy: "float_array_at sb f = float_array_at sa scale \<and> float_ok sb f"
    using fb(2,3) fa oka by (cases "scale = 0") (auto simp: float_array_at_def float_ok_def arrays_ok_def)
  note fc = float_array_grows [OF okb zc(1) conjunct2 [OF fcopy]]
  have gc: "grows s sc" by (rule arrays_grow_trans [OF ra(2) arrays_grow_trans [OF fb(1) zc(1)]])
  have rr: "ar_next s \<le> r" "r < ar_next sc" using ra fb(1) zc(1) by (auto simp: grows_def)
  note w = write_grows [OF gc rr, of "AffineParams f z d"]
  have pos: "0 < ar_next s" "r = ar_next s" "ar_next sa = Suc r" using assms(1) ra by (auto simp: arrays_ok_def)
  have "ar_next sa \<le> ar_next sb" using fb(1) by (simp add: grows_def)
  then have ne: "f \<noteq> r" "z \<noteq> r" using fb(2,3) zc(2,3) pos by (cases "scale = 0"; cases "zero_point = 0"; simp)+
  have val: "quantization_at s1 q = quantization_at s (AffineQuantization, p)"
  proof -
    have "float_array_at s1 f = float_array_at sc f" "int_array_at s1 z = int_array_at sc z"
      using r(2) w(3) ne by (simp_all add: float_array_at_def int_array_at_def)
    then have "float_array_at s1 f = float_array_at s scale" "int_array_at s1 z = int_array_at s zero_point"
      using fa fc fcopy vc(1) za zb by simp_all
    then show ?thesis using r w(3) assms(3) by (simp add: quantization_at_def)
  qed
  have set: "set (filter (\<lambda>x. x \<noteq> 0) [f, z, r]) = {ar_next s..<ar_next s1}" "distinct (filter (\<lambda>x. x \<noteq> 0) [f, z, r])"
  proof -
    have "filter (\<lambda>x. x \<noteq> 0) [f] = [ar_next sa..<ar_next sb]" "filter (\<lambda>x. x \<noteq> 0) [z] = [ar_next sb..<ar_next sc]"
      "filter (\<lambda>x. x \<noteq> 0) [r] = [r]" using fb(2,3) zc(2,3) oka okb pos by (auto simp: arrays_ok_def)
    moreover have "filter (\<lambda>x. x \<noteq> 0) [f, z, r] = filter (\<lambda>x. x \<noteq> 0) [f] @ filter (\<lambda>x. x \<noteq> 0) [z] @ filter (\<lambda>x. x \<noteq> 0) [r]" by simp
    moreover have "ar_next sa \<le> ar_next sb" "ar_next sb \<le> ar_next sc" using fb(1) zc(1) by (auto simp: grows_def)
    ultimately show "set (filter (\<lambda>x. x \<noteq> 0) [f, z, r]) = {ar_next s..<ar_next s1}" "distinct (filter (\<lambda>x. x \<noteq> 0) [f, z, r])"
      using pos r(2) w(2) by (simp_all only: set_append distinct_append) auto
  qed
  have "snd (QuantizationFree q s1) = fold free_cell (filter (\<lambda>x. x \<noteq> 0) [f, z, r]) s1"
    unfolding fold_free_nonnull [symmetric] using r w(3) by (simp add: QuantizationFree_def)
  then show ?thesis using val w(1) r(2) release_new [OF assms(1) _ set(2,1)] by simp
qed


text \<open>
  Cloning quantization parameters on the heap, when memory suffices, implements the clone of values that the model of tensors
  uses: affine parameters keep their value, block-wise ones lose their quantized dimension, which becomes 0. The original stays as it is, and
  freeing the clone releases exactly the blocks that cloning made.
\<close>

lemma quantization_clone_refines:
  assumes "arrays_ok s" "\<And>n. ok n" "quantization_ok s q" and clone: "QuantizationClone ok q s = (q', s1)"
  shows "quantization_at s1 q' = TfLiteQuantizationClone (\<lambda>_. True) (quantization_at s q) \<and>
    (\<forall>a < ar_next s. ar_cells s1 a = ar_cells s a) \<and>
    ar_cells (snd (QuantizationFree q' s1)) = ar_cells s \<and> ar_bad (snd (QuantizationFree q' s1)) = ar_bad s"
proof (cases "fst q")
  case NoQuantization
  with clone show ?thesis by (auto simp: QuantizationClone_def QuantizationFree_def quantization_at_def TfLiteQuantizationClone_def)
next
  case AffineQuantization
  then obtain x scale zero_point d where q: "q = (AffineQuantization, x)"
    and p: "ar_cells s x = Some (AffineParams scale zero_point d)" "float_ok s scale" "int_ok s zero_point"
    using assms(3) by (cases q) (auto simp: quantization_ok_def)
  have x: "QuantizationClone ok (AffineQuantization, x) s = (q', s1)" using clone q by simp
  have c: "quantization_at s1 q' = quantization_at s q \<and> grows s s1 \<and>
      ar_cells (snd (QuantizationFree q' s1)) = ar_cells s \<and> ar_bad (snd (QuantizationFree q' s1)) = ar_bad s"
    using affine_clone_owned [OF assms(1) _ p x] assms(2) q by simp
  have "quantization_at s q = kTfLiteAffineQuantization (float_array_at s scale) (int_array_at s zero_point) d"
    using p(1) q by (simp add: quantization_at_def)
  then have "TfLiteQuantizationClone (\<lambda>_. True) (quantization_at s q) = quantization_at s q"
    using value_array_copy(1) [OF p(3)] value_array_copy(2) [OF p(2)] by (simp add: TfLiteQuantizationClone_def)
  then show ?thesis using c by (simp add: grows_def)
next
  case BlockwiseQuantization
  then obtain scale zero_point n d where p: "ar_cells s (snd q) = Some (BlockwiseParams scale zero_point n d)"
    using assms(3) by (auto simp: quantization_ok_def)
  obtain r sa where a: "alloc_cell ok 16 (BlockwiseParams 0 0 0 0) s = (r, sa)" by fastforce
  have r: "q' = (BlockwiseQuantization, r)" "s1 = write_cell r (BlockwiseParams scale zero_point n 0) sa"
    using clone BlockwiseQuantization p a by (auto simp: QuantizationClone_def)
  note ra = alloc_grows [OF assms(1,2) a]
  note w = write_grows [OF ra(2), of r "BlockwiseParams scale zero_point n 0"]
  have g: "grows s s1" "ar_cells s1 r = Some (BlockwiseParams scale zero_point n 0)" "ar_next s1 = Suc r" using w ra r by auto
  have "set [r] = {ar_next s..<ar_next s1}" using g(3) ra(1) by auto
  from release_new [OF assms(1) g(1) _ this] r g(2) show ?thesis
    using BlockwiseQuantization p g(1) by (simp add: quantization_at_def TfLiteQuantizationClone_def QuantizationFree_def grows_def)
qed

text \<open>
  Claim C11. Cloning quantization parameters, when every allocation succeeds, gives a copy in blocks of its own exactly when the parameters are
  not block-wise with a quantized dimension other than 0: the header promises a copy, but the dimension of block-wise parameters is not
  copied and becomes 0, all else being kept. The original stays as it is, and freeing the clone releases exactly the blocks that cloning made,
  without a bad access.
\<close>

theorem quantization_clone_copies:
  assumes "arrays_ok s" "\<And>n. ok n" "quantization_ok s q" and clone: "QuantizationClone ok q s = (q', s1)"
  shows "(quantization_at s1 q' = quantization_at s q \<longleftrightarrow>
      (\<forall>scale zero_point n d. quantization_at s q = kTfLiteBlockwiseQuantization scale zero_point n d \<longrightarrow> d = 0)) \<and>
    (\<forall>scale zero_point n d. quantization_at s q = kTfLiteBlockwiseQuantization scale zero_point n d \<longrightarrow>
      quantization_at s1 q' = kTfLiteBlockwiseQuantization scale zero_point n 0) \<and>
    (\<forall>a < ar_next s. ar_cells s1 a = ar_cells s a) \<and>
    ar_cells (snd (QuantizationFree q' s1)) = ar_cells s \<and> ar_bad (snd (QuantizationFree q' s1)) = ar_bad s"
proof -
  have "TfLiteQuantizationClone (\<lambda>_. True) (quantization_at s q) = quantization_at s q"
    if "\<forall>scale zero_point n d. quantization_at s q \<noteq> kTfLiteBlockwiseQuantization scale zero_point n d"
    using that assms(3) value_array_copy
    by (cases "ar_cells s (snd q)"; cases "fst q")
       (auto simp: quantization_at_def quantization_ok_def TfLiteQuantizationClone_def split: cell.splits)
  with quantization_clone_refines [OF assms] show ?thesis
    by (cases "quantization_at s q") (auto simp: TfLiteQuantizationClone_def)
qed

theorem quantization_clone_copies_witness:
  "let s = \<lparr>ar_cells = [1 \<mapsto> BlockwiseParams 7 8 32 1], ar_next = 2, ar_bad = False\<rparr>;
       r = QuantizationClone (\<lambda>_. True) (BlockwiseQuantization, 1) s
   in quantization_at s (BlockwiseQuantization, 1) = kTfLiteBlockwiseQuantization 7 8 32 1 \<and>
      quantization_at (snd r) (fst r) = kTfLiteBlockwiseQuantization 7 8 32 0 \<and> ar_cells (snd (QuantizationFree (fst r) (snd r))) = ar_cells s"
proof -
  define s where "s = \<lparr>ar_cells = [1 \<mapsto> BlockwiseParams 7 8 32 1], ar_next = 2, ar_bad = False\<rparr>"
  have "arrays_ok s" "quantization_ok s (BlockwiseQuantization, 1)" and q: "quantization_at s (BlockwiseQuantization, 1) = kTfLiteBlockwiseQuantization 7 8 32 1"
    by (auto simp: arrays_ok_def quantization_ok_def quantization_at_def s_def)
  from quantization_clone_copies [OF this(1) _ this(2), of "\<lambda>_. True"] q show ?thesis
    unfolding Let_def s_def [symmetric] by simp
qed

end
