(* ===== verification/QuantizationUtil.thy ===== *)
theory QuantizationUtil
  imports Prelude "HOL-Library.Log_Nat"
begin

unbundle bit_operations_syntax

text \<open>
  Quantized multipliers (\<open>lite/kernels/internal/quantization_util.cc\<close>): a floating-point factor becomes a 32-bit integer and a power of two.
  A \<open>double\<close> is its bit pattern of 64 bits, on which the code works directly: \<open>IntegerFrExp\<close> and the functions around it replace the floating-point
  unit on small machines. Scaling by powers of two and rounding are exact on doubles, so \<open>frexp\<close> and \<open>round\<close> are modelled by integer arithmetic.
\<close>

section \<open>The parts of a double\<close>

type_synonym double = "64 word"

definition kSignMask :: double where
  "kSignMask = 0x8000000000000000"

definition kExponentMask :: double where
  "kExponentMask = 0x7ff0000000000000"

definition kExponentShift :: nat where
  "kExponentShift = 52"

definition kExponentBias :: int where
  "kExponentBias = 1023"

definition kExponentIsBadNum :: nat where
  "kExponentIsBadNum = 0x7ff"

definition kFractionMask :: double where
  "kFractionMask = 0x000fffffffc00000"

definition kFractionShift :: nat where
  "kFractionShift = 22"

definition kFractionRoundingMask :: double where
  "kFractionRoundingMask = 0x003fffff"

definition kFractionRoundingThreshold :: double where
  "kFractionRoundingThreshold = 0x00200000"

section \<open>Integer arithmetic on doubles\<close>

text \<open>The fraction with its fixed point at bit 31, and the power of two.\<close>

definition IntegerFrExp :: "double \<Rightarrow> int \<times> int" where
  "IntegerFrExp u =
     (if u AND NOT kSignMask = 0 then (0, 0)
      else
        (let exponent_part = unat (drop_bit kExponentShift (u AND kExponentMask)) in
         if exponent_part = kExponentIsBadNum
         then (if u AND kFractionMask \<noteq> 0 then 0
               else if u AND kSignMask \<noteq> 0 then -9223372036854775808 else 9223372036854775807, i32_max)
         else
           (let shift = int exponent_part - kExponentBias + 1;
                fraction = 0x40000000 + uint (drop_bit kFractionShift (u AND kFractionMask));
                fraction1 = (if u AND kFractionRoundingMask > kFractionRoundingThreshold then fraction + 1 else fraction)
            in (if u AND kSignMask \<noteq> 0 then - fraction1 else fraction1, shift))))"

text \<open>The two loops that bring a positive fraction into the range of a normalized one.\<close>

function scale_up :: "int \<Rightarrow> int \<Rightarrow> int \<times> int" where
  "scale_up encoded_fraction encoded_shift =
     (if 0 < encoded_fraction \<and> encoded_fraction < 0x40000000 then scale_up (encoded_fraction * 2) (encoded_shift - 1)
      else (encoded_fraction, encoded_shift))"
  by pat_completeness auto
termination by (relation "measure (\<lambda>(f, _). nat (0x40000000 - f))") auto

function scale_down :: "int \<Rightarrow> int \<Rightarrow> int \<times> int" where
  "scale_down encoded_fraction encoded_shift =
     (if encoded_fraction > 0x80000000 then scale_down (encoded_fraction div 2) (encoded_shift + 1)
      else (encoded_fraction, encoded_shift))"
  by pat_completeness auto
termination by (relation "measure (\<lambda>(f, _). nat f)") auto

declare scale_up.simps [simp del] scale_down.simps [simp del]

definition DoubleFromFractionAndShift :: "int \<Rightarrow> int \<Rightarrow> double" where
  "DoubleFromFractionAndShift fraction shift =
     (if shift = i32_max
      then (if fraction = 0 then 0x7ff8000000000000 else if fraction > 0 then 0x7ff0000000000000 else 0xfff0000000000000)
      else if fraction = 0 then 0
      else
        (let is_negative = fraction < 0;
             (f1, s1) = scale_up (if is_negative then - fraction else fraction) (shift - 1);
             (f2, s2) = scale_down f1 s1;
             encoded_fraction = f2 - 0x40000000;
             encoded_shift = (if s2 < -1022 then -1023 else if s2 > 1022 then 1023 else s2) + kExponentBias
         in (if is_negative then kSignMask else 0) OR push_bit kExponentShift (word_of_int encoded_shift) OR
            push_bit kFractionShift (word_of_int encoded_fraction)))"

definition IntegerDoubleMultiply :: "double \<Rightarrow> double \<Rightarrow> double" where
  "IntegerDoubleMultiply a b =
     (let (a_fraction, a_shift) = IntegerFrExp a;
          (b_fraction, b_shift) = IntegerFrExp b
      in if a_shift = i32_max \<or> b_shift = i32_max then 0x7ff8000000000000
         else DoubleFromFractionAndShift ((a_fraction * b_fraction) div 2 ^ 32) (a_shift + b_shift + 1))"

definition IntegerDoubleCompare :: "double \<Rightarrow> double \<Rightarrow> int" where
  "IntegerDoubleCompare a b =
     (let (a_fraction, a_shift) = IntegerFrExp a;
          (b_fraction, b_shift) = IntegerFrExp b
      in if a_shift = i32_max \<or> b_shift = i32_max then 1
         else if a_fraction = 0 \<and> b_fraction < 0 then 1
         else if a_fraction < 0 \<and> b_fraction = 0 then -1
         else if a_shift < b_shift then -1
         else if a_shift > b_shift then 1
         else if a_fraction < b_fraction then -1
         else if a_fraction > b_fraction then 1 else 0)"

section \<open>Quantized multipliers\<close>

text \<open>
  What the standard library computes for a finite double that is not zero: \<open>frexp\<close> gives a fraction of at least a half and below one and a power
  of two; the fraction times \<open>2 ^ 31\<close> is rounded to the nearest integer, halves away from zero. The significand is an integer.
\<close>

definition exponent_field :: "double \<Rightarrow> nat" where
  "exponent_field u = unat u div 2 ^ 52 mod 2 ^ 11"

definition fraction_field :: "double \<Rightarrow> nat" where
  "fraction_field u = unat u mod 2 ^ 52"

definition is_negative :: "double \<Rightarrow> bool" where
  "is_negative u \<longleftrightarrow> 2 ^ 63 \<le> unat u"

definition significand :: "double \<Rightarrow> nat" where
  "significand u = (if exponent_field u = 0 then fraction_field u else 2 ^ 52 + fraction_field u)"

definition round_shift :: "nat \<Rightarrow> nat \<Rightarrow> nat" where
  "round_shift m k = (if k = 0 then m else (m + 2 ^ (k - 1)) div 2 ^ k)"

definition frexp_round :: "double \<Rightarrow> int \<times> int" where
  "frexp_round u =
     (let m = significand u; bits = floorlog 2 m;
          q = (if bits \<le> 31 then m * 2 ^ (31 - bits) else round_shift m (bits - 31))
      in (if is_negative u then - int q else int q, int (max 1 (exponent_field u)) - 1075 + int bits))"

text \<open>
  \<open>None\<close> is an abort in a check, or the conversion to an integer of a number that is not finite. \<open>emulate\<close> and \<open>single_rounding\<close> are the build
  options \<open>TFLITE_EMULATE_FLOAT\<close> and \<open>TFLITE_SINGLE_ROUNDING\<close>.
\<close>

definition QuantizeMultiplier :: "bool \<Rightarrow> bool \<Rightarrow> double \<Rightarrow> (int \<times> int) option" where
  "QuantizeMultiplier emulate single_rounding double_multiplier =
     (if double_multiplier AND NOT kSignMask = 0 then Some (0, 0)
      else if \<not> emulate \<and> exponent_field double_multiplier = kExponentIsBadNum then None
      else
        (let (q_fixed, shift) = (if emulate then IntegerFrExp double_multiplier else frexp_round double_multiplier) in
         if q_fixed > 2 ^ 31 then None
         else
           (let (q1, s1) = (if q_fixed = 2 ^ 31 then (q_fixed div 2, shift + 1) else (q_fixed, shift));
                (q2, s2) = (if s1 < -31 then (0, 0) else (q1, s1));
                (q3, s3) = (if single_rounding \<and> s2 > 30 then (2 ^ 31 - 1, 30) else (q2, s2))
            in Some (wrap_i32 q3, s3))))"

text \<open>The comparisons with 0 and 1 are those of doubles.\<close>

definition one :: double where
  "one = 0x3ff0000000000000"

definition is_nan :: "double \<Rightarrow> bool" where
  "is_nan u \<longleftrightarrow> exponent_field u = kExponentIsBadNum \<and> fraction_field u \<noteq> 0"

definition greater_than_one :: "double \<Rightarrow> bool" where
  "greater_than_one u \<longleftrightarrow> \<not> is_nan u \<and> \<not> is_negative u \<and> one < u"

definition QuantizeMultiplierGreaterThanOne :: "bool \<Rightarrow> bool \<Rightarrow> double \<Rightarrow> (int \<times> int) option" where
  "QuantizeMultiplierGreaterThanOne emulate single_rounding m =
     (if \<not> greater_than_one m then None
      else (case QuantizeMultiplier emulate single_rounding m of
          None \<Rightarrow> None
        | Some (q, left_shift) \<Rightarrow> (if left_shift < 0 then None else Some (q, left_shift))))"

definition QuantizeMultiplierSmallerThanOneExp :: "bool \<Rightarrow> bool \<Rightarrow> double \<Rightarrow> (int \<times> int) option" where
  "QuantizeMultiplierSmallerThanOneExp emulate single_rounding m =
     (if is_negative m \<or> \<not> m < one \<or> m = 0 then None
      else (case QuantizeMultiplier emulate single_rounding m of
          None \<Rightarrow> None
        | Some (q, shift) \<Rightarrow> (if shift > 0 then None else Some (q, shift))))"

fun QuantizeMultiplierArray :: "bool \<Rightarrow> bool \<Rightarrow> double list \<Rightarrow> (int \<times> int) list option" where
  "QuantizeMultiplierArray emulate single_rounding [] = Some []"
| "QuantizeMultiplierArray emulate single_rounding (m # ms) = (case QuantizeMultiplier emulate single_rounding m of
     None \<Rightarrow> None
   | Some r \<Rightarrow> map_option (\<lambda>rs. r # rs) (QuantizeMultiplierArray emulate single_rounding ms))"

text \<open>
  The radius of the inputs that do not overflow when they are rescaled. The variant on doubles is exact: an integer of at most 31 bits is scaled by powers
  of two and rounded down. Its conversion to \<open>int\<close> is defined only for results in the range of \<open>int\<close>, and
  the shifts of both only for at most 30 integer bits, no more of them than \<open>total_signed_bits\<close>, and for amounts below 63.
\<close>

definition CalculateInputRadius :: "bool \<Rightarrow> nat \<Rightarrow> nat \<Rightarrow> nat \<Rightarrow> int" where
  "CalculateInputRadius emulate input_integer_bits input_left_shift total_signed_bits =
     (if emulate
      then (let result = 2 ^ input_integer_bits - 1;
                result1 = push_bit (total_signed_bits - input_integer_bits) result
            in wrap_i32 (drop_bit input_left_shift result1))
      else \<lfloor>of_int (2 ^ input_integer_bits - 1) * 2 ^ (total_signed_bits - input_integer_bits) / (2 ^ input_left_shift :: rat)\<rfloor>)"


section \<open>Masks\<close>

lemma masks:
  "kExponentMask = push_bit 52 (mask 11)" "kFractionMask = push_bit 22 (mask 30)" "kFractionRoundingMask = mask 22" "kSignMask = 2 ^ 63"
  by (simp_all add: kExponentMask_def kFractionMask_def kFractionRoundingMask_def kSignMask_def mask_eq_exp_minus_1 push_bit_eq_mult)

lemma and_shifted_mask: "drop_bit n (u AND push_bit n (mask m)) = take_bit m (drop_bit n (u :: double))"
  by (rule bit_word_eqI) (auto simp: bit_simps dest: bit_imp_le_length)

lemma unat_field: "unat (take_bit m (drop_bit n (u :: double))) = unat u div 2 ^ n mod 2 ^ m"
proof -
  have "unat u mod 2 ^ 64 = unat u" using unsigned_less [of u, where ?'a = nat] by simp
  then show ?thesis
    by (simp only: unsigned_take_bit_eq unsigned_drop_bit_eq) (simp add: take_bit_eq_mod drop_bit_eq_div)
qed

lemma exponent_part: "unat (drop_bit kExponentShift (u AND kExponentMask)) = exponent_field u"
  by (simp only: masks kExponentShift_def and_shifted_mask unat_field exponent_field_def)

lemma mod_div_field: "0 < a \<Longrightarrow> n mod (a * b) div a = n div a mod (b :: nat)"
  by (simp add: mod_mult2_eq)

lemma fraction_part: "uint (drop_bit kFractionShift (u AND kFractionMask)) = int (fraction_field u div 2 ^ 22)"
proof -
  have "unat (drop_bit kFractionShift (u AND kFractionMask)) = unat u div 2 ^ 22 mod 2 ^ 30"
    by (simp only: masks kFractionShift_def and_shifted_mask unat_field)
  also have "\<dots> = fraction_field u div 2 ^ 22" using mod_div_field [of "2 ^ 22" "unat u" "2 ^ 30"] by (simp add: fraction_field_def)
  finally show ?thesis by (metis uint_nat)
qed

lemma rounding_part: "kFractionRoundingThreshold < u AND kFractionRoundingMask \<longleftrightarrow> 2 ^ 21 < fraction_field u mod 2 ^ 22"
proof -
  have "unat (u AND kFractionRoundingMask) = unat u mod 2 ^ 22"
    using unat_field [of 22 0 u] by (simp add: masks take_bit_eq_mask)
  moreover have "unat u mod 2 ^ 52 mod 2 ^ 22 = unat u mod 2 ^ 22" by (rule mod_mod_cancel) simp
  ultimately show ?thesis by (simp add: word_less_nat_alt kFractionRoundingThreshold_def fraction_field_def)
qed

lemma sign_part: "u AND kSignMask = 0 \<longleftrightarrow> \<not> is_negative u"
proof -
  have "unat u < 2 ^ 64" using unsigned_less [of u, where ?'a = nat] by simp
  then have "unat u div 2 ^ 63 = (if 2 ^ 63 \<le> unat u then 1 else 0)"
    by (auto simp: div_nat_eqI)
  then have "bit (unat u) 63 \<longleftrightarrow> 2 ^ 63 \<le> unat u" by (simp add: bit_iff_odd split: if_splits)
  then have "bit u 63 \<longleftrightarrow> is_negative u" by (simp add: is_negative_def bit_unsigned_iff)
  then show ?thesis by (simp only: masks and_exp_eq_0_iff_not_bit)
qed

lemma zero_part: "u AND NOT kSignMask = 0 \<longleftrightarrow> exponent_field u = 0 \<and> fraction_field u = 0"
proof -
  have "NOT kSignMask = mask 63" by (simp add: kSignMask_def not_eq_complement mask_eq_exp_minus_1)
  then have "u AND NOT kSignMask = take_bit 63 u" by (simp add: take_bit_eq_mask)
  then have "u AND NOT kSignMask = 0 \<longleftrightarrow> unat u mod 2 ^ 63 = 0"
    using unat_field [of 63 0 u] by (simp add: unat_eq_zero [symmetric])
  also have "unat u mod 2 ^ 63 = 2 ^ 52 * exponent_field u + fraction_field u"
    using mod_mult2_eq [of "unat u" "2 ^ 52" "2 ^ 11"] by (simp add: exponent_field_def fraction_field_def)
  finally show ?thesis by simp
qed

lemma field_bounds: "exponent_field u < 2048" "fraction_field u < 2 ^ 52"
  by (simp_all add: exponent_field_def fraction_field_def)

text \<open>In terms of its fields.\<close>

lemma IntegerFrExp_fields:
  "IntegerFrExp u =
     (if exponent_field u = 0 \<and> fraction_field u = 0 then (0, 0)
      else if exponent_field u = 2047
      then (if fraction_field u div 2 ^ 22 \<noteq> 0 then 0 else if is_negative u then -9223372036854775808 else 9223372036854775807, i32_max)
      else (let f = 2 ^ 30 + int (fraction_field u div 2 ^ 22) + (if 2 ^ 21 < fraction_field u mod 2 ^ 22 then 1 else 0)
            in (if is_negative u then - f else f, int (exponent_field u) - 1022)))"
proof -
  have "u AND kFractionMask \<noteq> 0 \<longleftrightarrow> fraction_field u div 2 ^ 22 \<noteq> 0"
  proof -
    have "u AND kFractionMask = push_bit 22 (drop_bit 22 (u AND kFractionMask))"
      by (rule bit_word_eqI) (auto simp: masks bit_simps)
    then have "u AND kFractionMask = 0 \<longleftrightarrow> drop_bit kFractionShift (u AND kFractionMask) = 0"
      by (metis kFractionShift_def push_bit_of_0 drop_bit_of_0)
    also have "\<dots> \<longleftrightarrow> uint (drop_bit kFractionShift (u AND kFractionMask)) = 0" by (metis uint_0_iff)
    finally show ?thesis unfolding fraction_part by simp
  qed
  then show ?thesis
    unfolding IntegerFrExp_def Let_def exponent_part fraction_part rounding_part sign_part zero_part
    by (simp add: kExponentIsBadNum_def kExponentBias_def)
qed


section \<open>Agreement with the standard library\<close>

text \<open>A normal double has an implicit high bit.\<close>

definition normal :: "double \<Rightarrow> bool" where
  "normal u \<longleftrightarrow> 0 < exponent_field u \<and> exponent_field u < 2047"

lemma floorlog_53: "2 ^ 52 \<le> m \<Longrightarrow> m < 2 ^ 53 \<Longrightarrow> floorlog 2 m = 53"
  using floorlog_leI [of m 2 53] floorlog_ge_SucI [of 2 52 m] by simp

lemma round_22: "(n + 2 ^ 21) div 2 ^ 22 = n div 2 ^ 22 + (if 2 ^ 21 \<le> n mod 2 ^ 22 then 1 else (0 :: nat))"
proof -
  define q r where "q = n div 2 ^ 22" and "r = n mod 2 ^ 22"
  have n: "n = q * 2 ^ 22 + r" "r < 2 ^ 22" by (simp_all add: q_def r_def)
  have "(n + 2 ^ 21) div 2 ^ 22 = q + (r + 2 ^ 21) div 2 ^ 22" unfolding n(1) by simp
  also have "(r + 2 ^ 21) div 2 ^ 22 = (if 2 ^ 21 \<le> r then 1 else 0)" using n(2) by (auto simp: div_nat_eqI)
  finally show ?thesis by (simp add: q_def r_def)
qed

lemma frexp_round_normal:
  assumes "normal u"
  shows "frexp_round u =
    (let q = 2 ^ 30 + int (fraction_field u div 2 ^ 22) + (if 2 ^ 21 \<le> fraction_field u mod 2 ^ 22 then 1 else 0)
     in (if is_negative u then - q else q, int (exponent_field u) - 1022))"
proof -
  let ?m = "2 ^ 52 + fraction_field u"
  have m: "significand u = ?m" using assms by (simp add: significand_def normal_def)
  have bits: "floorlog 2 ?m = 53" by (rule floorlog_53) (use field_bounds(2) [of u] in simp_all)
  have "round_shift ?m 22 = (?m + 2 ^ 21) div 2 ^ 22" by (simp add: round_shift_def)
  also have "\<dots> = 2 ^ 30 + (fraction_field u + 2 ^ 21) div 2 ^ 22"
    using div_mult_self1 [of "2 ^ 22" "fraction_field u + 2 ^ 21" "2 ^ 30"] by (simp add: ac_simps)
  finally have "round_shift ?m 22 = 2 ^ 30 + fraction_field u div 2 ^ 22 + (if 2 ^ 21 \<le> fraction_field u mod 2 ^ 22 then 1 else 0)"
    unfolding round_22 by simp
  moreover have "max 1 (exponent_field u) = exponent_field u" using assms by (simp add: normal_def)
  ultimately show ?thesis unfolding frexp_round_def Let_def m bits by simp
qed

lemma IntegerFrExp_normal:
  assumes "normal u"
  shows "IntegerFrExp u =
    (let q = 2 ^ 30 + int (fraction_field u div 2 ^ 22) + (if 2 ^ 21 < fraction_field u mod 2 ^ 22 then 1 else 0)
     in (if is_negative u then - q else q, int (exponent_field u) - 1022))"
  using assms by (simp add: IntegerFrExp_fields normal_def)

text \<open>
  For every normal double the integer version of \<open>frexp\<close> gives the fraction and the power of two of the standard library, rounded to 31 bits,
  exactly when the discarded bits are not just one half: in that case the standard library rounds away from zero and the integer version towards it.
\<close>

lemma frexp_emulated:
  assumes "normal u"
  shows "IntegerFrExp u = frexp_round u \<longleftrightarrow> fraction_field u mod 2 ^ 22 \<noteq> 2 ^ 21"
  unfolding IntegerFrExp_normal [OF assms] frexp_round_normal [OF assms] by (auto simp: Let_def)

lemma frexp_emulated_witness: "IntegerFrExp 0x3ff8000000000000 = frexp_round 0x3ff8000000000000"
proof -
  have "normal 0x3ff8000000000000" "fraction_field 0x3ff8000000000000 mod 2 ^ 22 \<noteq> 2 ^ 21"
    by (simp_all add: normal_def exponent_field_def fraction_field_def)
  with frexp_emulated show ?thesis by blast
qed

lemma half_rounded_down: "fst (IntegerFrExp 0x3ff0000000200000) + 1 = fst (frexp_round 0x3ff0000000200000)"
proof -
  have "normal 0x3ff0000000200000" "fraction_field 0x3ff0000000200000 = 2 ^ 21" "\<not> is_negative 0x3ff0000000200000"
    by (simp_all add: normal_def exponent_field_def fraction_field_def is_negative_def)
  then show ?thesis by (simp add: IntegerFrExp_normal frexp_round_normal Let_def)
qed

section \<open>The error of a quantized multiplier\<close>

text \<open>The rounded fraction of a normal double, whichever way halves are rounded.\<close>

lemma rounded_close:
  fixes f :: nat
  assumes "f < 2 ^ 52" "up = 0 \<or> up = (1 :: int)" "up = 0 \<longrightarrow> f mod 2 ^ 22 \<le> 2 ^ 21" "up = 1 \<longrightarrow> 2 ^ 21 \<le> f mod 2 ^ 22"
  shows "2 ^ 30 \<le> 2 ^ 30 + int (f div 2 ^ 22) + up \<and> 2 ^ 30 + int (f div 2 ^ 22) + up \<le> 2 ^ 31 \<and>
    \<bar>(2 ^ 30 + int (f div 2 ^ 22) + up) * 2 ^ 22 - (2 ^ 52 + int f)\<bar> \<le> 2 ^ 21"
proof -
  define q r where "q = f div 2 ^ 22" and "r = f mod 2 ^ 22"
  have f: "f = q * 2 ^ 22 + r" "r < 2 ^ 22" by (simp_all add: q_def r_def)
  then have "q < 2 ^ 30" using assms(1) by simp
  with f assms(2-4) show ?thesis unfolding q_def [symmetric] r_def [symmetric] by (auto simp: f(1) abs_le_iff)
qed

lemma fraction_close:
  assumes "normal u" "\<not> is_negative u" and r: "(if emulate then IntegerFrExp u else frexp_round u) = (q, s)"
  shows "2 ^ 30 \<le> q \<and> q \<le> 2 ^ 31 \<and> \<bar>q * 2 ^ 22 - int (significand u)\<bar> \<le> 2 ^ 21 \<and> s = int (exponent_field u) - 1022"
proof -
  let ?f = "fraction_field u"
  define up where "up = (if emulate then if 2 ^ 21 < ?f mod 2 ^ 22 then 1 else 0 else if 2 ^ 21 \<le> ?f mod 2 ^ 22 then 1 else (0 :: int))"
  have q: "q = 2 ^ 30 + int (?f div 2 ^ 22) + up" "s = int (exponent_field u) - 1022"
    using r assms(1,2) by (auto simp: IntegerFrExp_normal frexp_round_normal up_def Let_def split: if_splits)
  have m: "int (significand u) = 2 ^ 52 + int ?f" using assms(1) by (simp add: significand_def normal_def)
  have "up = 0 \<or> up = 1" "up = 0 \<longrightarrow> ?f mod 2 ^ 22 \<le> 2 ^ 21" "up = 1 \<longrightarrow> 2 ^ 21 \<le> ?f mod 2 ^ 22" by (auto simp: up_def)
  from rounded_close [OF field_bounds(2) this] show ?thesis unfolding m q by simp
qed

lemma QuantizeMultiplier_normal:
  assumes "normal u" "\<not> is_negative u" and r: "(if emulate then IntegerFrExp u else frexp_round u) = (q, s)"
  shows "QuantizeMultiplier emulate False u = Some
    (if q = 2 ^ 31 then if s + 1 < -31 then (0, 0) else (2 ^ 30, s + 1) else if s < -31 then (0, 0) else (q, s))"
proof -
  have start: "\<not> (u AND NOT kSignMask = 0)" "exponent_field u \<noteq> kExponentIsBadNum"
    using assms(1) by (simp_all add: zero_part normal_def kExponentIsBadNum_def)
  have w: "wrap_i32 x = x" if "0 \<le> x" "x < 2 ^ 31" for x using that by (intro wrap_i32_id) (simp add: in_i32_def)
  from fraction_close [OF assms] show ?thesis using start r w by (auto simp: QuantizeMultiplier_def Let_def)
qed

text \<open>
  A positive normal factor, which is its significand times a power of two, becomes a multiplier of 31 significant bits within half a unit of
  its last place, with the exponent of the factor or the next one; only factors below \<open>2 ^ -31\<close> become 0. There is no overflow and no check fails, with
  and without emulation of floating-point arithmetic.
\<close>

lemma multiplier_close:
  assumes "normal u" "\<not> is_negative u"
  shows "\<exists>q s. QuantizeMultiplier emulate False u = Some (q, s) \<and>
    (let e = int (exponent_field u) - 1022 in
     q = 0 \<and> s = 0 \<and> e < -31 \<or>
     2 ^ 30 \<le> q \<and> q < 2 ^ 31 \<and> -31 \<le> s \<and> (s = e \<or> s = e + 1) \<and> \<bar>q * 2 ^ nat (s - e) * 2 ^ 22 - int (significand u)\<bar> \<le> 2 ^ 21)"
proof -
  obtain q s where r: "(if emulate then IntegerFrExp u else frexp_round u) = (q, s)" by fastforce
  from fraction_close [OF assms r] show ?thesis unfolding QuantizeMultiplier_normal [OF assms r] by (auto simp: Let_def)
qed

section \<open>Factors below and above one\<close>

lemma fraction_full: "f < 2 ^ 52 \<Longrightarrow> f div 2 ^ 22 = 2 ^ 30 - 1 \<and> 2 ^ 21 + k \<le> f mod 2 ^ 22 \<longleftrightarrow> 2 ^ 52 - 2 ^ 21 + k \<le> (f :: nat)"
proof -
  assume f: "f < 2 ^ 52"
  define q r where "q = f div 2 ^ 22" and "r = f mod 2 ^ 22"
  have "f = q * 2 ^ 22 + r" "r < 2 ^ 22" by (simp_all add: q_def r_def)
  moreover from f have "q < 2 ^ 30" by (simp add: q_def less_mult_imp_div_less)
  then have "q = 2 ^ 30 - 1 \<or> q \<le> 2 ^ 30 - 2" by auto
  ultimately show ?thesis unfolding q_def [symmetric] r_def [symmetric] by auto
qed

lemma fraction_rounds_up:
  assumes "normal u" "\<not> is_negative u"
  shows "fst (if emulate then IntegerFrExp u else frexp_round u) = 2 ^ 31 \<longleftrightarrow>
    2 ^ 52 - 2 ^ 21 + (if emulate then 1 else 0) \<le> fraction_field u"
proof -
  have "fraction_field u div 2 ^ 22 < 2 ^ 30" using field_bounds(2) [of u] by (simp add: less_mult_imp_div_less)
  then show ?thesis unfolding fraction_full [OF field_bounds(2), symmetric] using assms
    by (auto simp: IntegerFrExp_normal frexp_round_normal Let_def)
qed

text \<open>The order of positive doubles is the one of their bit patterns.\<close>

lemma positive_fields: "\<not> is_negative u \<Longrightarrow> unat u = exponent_field u * 2 ^ 52 + fraction_field u"
proof -
  assume "\<not> is_negative u"
  then have "unat u div 2 ^ 52 < 2 ^ 11" unfolding is_negative_def by simp
  then show ?thesis by (simp add: exponent_field_def fraction_field_def)
qed

lemma below_one: "\<not> is_negative u \<Longrightarrow> u < one \<longleftrightarrow> exponent_field u < 1023"
  using positive_fields [of u] field_bounds(2) [of u] by (auto simp: word_less_nat_alt one_def)

text \<open>
  Claim C30. A normal factor between 0 and 1 is turned into a multiplier that is not shifted to the left, unless it is so close to 1, by \<open>2 ^ -32\<close>
  or less, that rounding makes it 1: then the check on the shift fails and the program ends.
\<close>

theorem smaller_than_one_outcome:
  assumes "normal m" "\<not> is_negative m" "m < one"
  shows "case QuantizeMultiplierSmallerThanOneExp emulate False m of
      None \<Rightarrow> exponent_field m = 1022 \<and> 2 ^ 52 - 2 ^ 21 + (if emulate then 1 else 0) \<le> fraction_field m
    | Some (q, shift) \<Rightarrow> QuantizeMultiplier emulate False m = Some (q, shift) \<and> shift \<le> 0 \<and>
        (exponent_field m < 1022 \<or> fraction_field m < 2 ^ 52 - 2 ^ 21 + (if emulate then 1 else 0))"
proof -
  obtain q s where r: "(if emulate then IntegerFrExp m else frexp_round m) = (q, s)" by fastforce
  have up: "q = 2 ^ 31 \<longleftrightarrow> 2 ^ 52 - 2 ^ 21 + (if emulate then 1 else 0) \<le> fraction_field m"
    using fraction_rounds_up [OF assms(1,2), of emulate] unfolding r by simp
  have s: "s = int (exponent_field m) - 1022" using fraction_close [OF assms(1,2) r] by simp
  have e: "0 < exponent_field m" "exponent_field m \<le> 1022" using assms by (simp_all add: normal_def below_one)
  then have "m \<noteq> 0" by (auto simp: exponent_field_def)
  then have "QuantizeMultiplierSmallerThanOneExp emulate False m = (case QuantizeMultiplier emulate False m of
      None \<Rightarrow> None | Some (q, shift) \<Rightarrow> if shift > 0 then None else Some (q, shift))"
    using assms(2,3) by (simp add: QuantizeMultiplierSmallerThanOneExp_def)
  then show ?thesis
    unfolding QuantizeMultiplier_normal [OF assms(1,2) r] up [symmetric] linorder_not_le [symmetric] using e s
    by (auto split: if_splits)
qed

theorem smaller_than_one_outcome_witness:
  "QuantizeMultiplierSmallerThanOneExp False False 0x3fefffffffffffff = None \<and>
   QuantizeMultiplierSmallerThanOneExp False False 0x3fe8000000000000 \<noteq> None"
proof -
  have m: "normal 0x3fefffffffffffff" "\<not> is_negative 0x3fefffffffffffff" "0x3fefffffffffffff < one"
    "exponent_field 0x3fefffffffffffff = 1022" "fraction_field 0x3fefffffffffffff = 2 ^ 52 - 1"
    by (simp_all add: normal_def is_negative_def exponent_field_def fraction_field_def one_def)
  have n: "normal 0x3fe8000000000000" "\<not> is_negative 0x3fe8000000000000" "0x3fe8000000000000 < one"
    "exponent_field 0x3fe8000000000000 = 1022" "fraction_field 0x3fe8000000000000 = 2 ^ 51"
    by (simp_all add: normal_def is_negative_def exponent_field_def fraction_field_def one_def)
  show ?thesis using smaller_than_one_outcome [OF m(1-3), of False] smaller_than_one_outcome [OF n(1-3), of False] m(4,5) n(4,5)
    by (auto split: option.splits)
qed

lemma greater_than_one_succeeds:
  assumes "normal m" "\<not> is_negative m" "one < m"
  shows "\<exists>q s. QuantizeMultiplierGreaterThanOne emulate False m = Some (q, s) \<and> QuantizeMultiplier emulate False m = Some (q, s) \<and> 0 < s"
proof -
  obtain q s where r: "(if emulate then IntegerFrExp m else frexp_round m) = (q, s)" by fastforce
  have "\<not> m < one" using assms(3) by simp
  then have e: "1023 \<le> exponent_field m" using below_one [OF assms(2)] by simp
  have "s = int (exponent_field m) - 1022" using fraction_close [OF assms(1,2) r] by simp
  moreover have "greater_than_one m" using assms by (simp add: greater_than_one_def is_nan_def normal_def kExponentIsBadNum_def)
  ultimately show ?thesis
    unfolding QuantizeMultiplierGreaterThanOne_def QuantizeMultiplier_normal [OF assms(1,2) r] using e by auto
qed


section \<open>Building a double back\<close>

lemma bit_small: "n < 2 ^ m \<Longrightarrow> bit (n :: nat) k \<Longrightarrow> k < m"
  by (metis bit_take_bit_iff take_bit_nat_eq_self)

lemma or_plus: "(\<And>n. bit a n \<Longrightarrow> bit b n \<Longrightarrow> False) \<Longrightarrow> a OR b = a + (b :: double)"
  by (rule disjunctive_add_eq_or [symmetric], rule bit_word_eqI) (auto simp: bit_and_iff)

lemma assembled:
  assumes "e < 2 ^ 11" "g < 2 ^ 30"
  shows "unat ((if neg then kSignMask else 0) OR push_bit 52 (word_of_nat e) OR push_bit 22 (word_of_nat g :: double)) =
    (if neg then 2 ^ 63 else 0) + e * 2 ^ 52 + g * 2 ^ 22"
proof -
  let ?s = "if neg then kSignMask else 0" and ?e = "push_bit 52 (word_of_nat e) :: double" and ?g = "push_bit 22 (word_of_nat g) :: double"
  have e: "bit ?e n \<Longrightarrow> 52 \<le> n \<and> n < 63" and g: "bit ?g n \<Longrightarrow> n < 52" and s: "bit ?s n \<Longrightarrow> n = 63" for n
    using bit_small [OF assms(1), of "n - 52"] bit_small [OF assms(2), of "n - 22"]
    by (auto simp del: power_numeral simp: bit_push_bit_iff bit_of_nat_iff masks bit_exp_iff split: if_splits)
  define n :: nat where "n = (if neg then 2 ^ 63 else 0) + e * 2 ^ 52 + g * 2 ^ 22"
  have "?e OR ?g = ?e + ?g" by (rule or_plus) (auto dest!: e g)
  moreover have "?s OR ?e OR ?g = ?s + (?e OR ?g)" by (rule or_plus) (auto simp: bit_or_iff dest!: s e g)
  ultimately have "?s OR ?e OR ?g = word_of_nat n" by (simp add: masks push_bit_eq_mult n_def)
  moreover have "n < 2 ^ 64" using assms by (auto simp: n_def)
  then have "unat (word_of_nat n :: double) = n" by (simp add: unsigned_of_nat take_bit_nat_eq_self)
  ultimately show ?thesis by (simp only: n_def)
qed

lemma assembled_fields:
  assumes "e < 2 ^ 11" "g < 2 ^ 30" "unat u = (if neg then 2 ^ 63 else 0) + e * 2 ^ 52 + g * 2 ^ 22"
  shows "exponent_field u = e" "fraction_field u = g * 2 ^ 22" "is_negative u \<longleftrightarrow> neg"
proof -
  define s :: nat where "s = (if neg then 1 else 0)"
  have u: "unat u = (s * 2 ^ 11 + e) * 2 ^ 52 + g * 2 ^ 22" using assms(3) by (simp add: s_def)
  have g: "g * 2 ^ 22 < 2 ^ 52" using assms(2) by simp
  then have q: "unat u div 2 ^ 52 = s * 2 ^ 11 + e" and r: "unat u mod 2 ^ 52 = g * 2 ^ 22"
    unfolding u by (simp_all only: div_mult_self3 mod_mult_self3 mod_less div_less)
  show "exponent_field u = e" unfolding exponent_field_def q using assms(1) by simp
  show "fraction_field u = g * 2 ^ 22" unfolding fraction_field_def r ..
  have "e * 2 ^ 52 + g * 2 ^ 22 < 2 ^ 63" using assms(1) g by simp
  then show "is_negative u \<longleftrightarrow> neg" unfolding is_negative_def assms(3) by auto
qed

lemma DoubleFromFractionAndShift_normalized:
  assumes "2 ^ 30 \<le> \<bar>f\<bar>" "\<bar>f\<bar> < 2 ^ 31" "-1021 \<le> s" "s \<le> 1024"
  shows "unat (DoubleFromFractionAndShift f s) =
    (if f < 0 then 2 ^ 63 else 0) + nat (s + 1022) * 2 ^ 52 + nat (\<bar>f\<bar> - 2 ^ 30) * 2 ^ 22"
proof -
  have abs: "(if f < 0 then - f else f) = \<bar>f\<bar>" by simp
  have up: "scale_up \<bar>f\<bar> (s - 1) = (\<bar>f\<bar>, s - 1)" and down: "scale_down \<bar>f\<bar> (s - 1) = (\<bar>f\<bar>, s - 1)"
    using assms(1,2) by (simp_all add: scale_up.simps scale_down.simps)
  have clamp: "(if s - 1 < -1022 then -1023 else if s - 1 > 1022 then 1023 else s - 1) + kExponentBias = int (nat (s + 1022))"
    using assms(3,4) by (auto simp: kExponentBias_def)
  have g: "\<bar>f\<bar> - 0x40000000 = int (nat (\<bar>f\<bar> - 2 ^ 30))" using assms(1) by simp
  have start: "s \<noteq> i32_max" "f \<noteq> 0" using assms by auto
  show ?thesis
    unfolding DoubleFromFractionAndShift_def Let_def abs up down prod.case clamp g of_int_of_nat_eq
    by (simp only: start if_False kExponentShift_def kFractionShift_def, rule assembled) (use assms in simp_all)
qed

text \<open>
  Claim C31. \<open>DoubleFromFractionAndShift\<close> undoes \<open>IntegerFrExp\<close>: of the double it builds from a fraction of 31 significant bits, of either sign, and a
  power of two in the range of a normal double, the fraction and the power come back unchanged.
\<close>

theorem frexp_roundtrip:
  assumes "2 ^ 30 \<le> \<bar>f\<bar>" "\<bar>f\<bar> < 2 ^ 31" "-1021 \<le> s" "s \<le> 1024"
  shows "IntegerFrExp (DoubleFromFractionAndShift f s) = (f, s)"
proof -
  have "nat (s + 1022) < 2 ^ 11" "nat (\<bar>f\<bar> - 2 ^ 30) < 2 ^ 30" using assms by simp_all
  note fields = assembled_fields [OF this DoubleFromFractionAndShift_normalized [OF assms]]
  have "0 < nat (s + 1022)" "nat (s + 1022) < 2047" using assms(3,4) by simp_all
  then show ?thesis using assms by (auto simp: IntegerFrExp_normal normal_def fields Let_def)
qed

theorem frexp_roundtrip_witness: "IntegerFrExp (DoubleFromFractionAndShift (-1610612736) 1) = (-1610612736, 1)"
  by (rule frexp_roundtrip) simp_all

text \<open>
  A fraction of \<open>2 ^ 31\<close>, to which \<open>IntegerFrExp\<close> may round up, is not scaled down, since the loop compares with \<open>>\<close>: its high bit is
  joined with the exponent instead of being carried into it, and is lost when the exponent is odd. The double built from 2 is 1.
\<close>

lemma carry_lost: "DoubleFromFractionAndShift 0x80000000 1 = one"
  by (simp add: DoubleFromFractionAndShift_def scale_up.simps scale_down.simps kExponentBias_def kExponentShift_def
      kFractionShift_def one_def push_bit_eq_mult)

section \<open>Comparison\<close>

text \<open>
  Of positive normal doubles that fit into 31 significant bits the comparison gives the order, which is the one of the bit patterns.
\<close>

lemma compare_positive:
  assumes "normal a" "normal b" "\<not> is_negative a" "\<not> is_negative b"
    "fraction_field a = f * 2 ^ 22" "fraction_field b = g * 2 ^ 22"
  shows "IntegerDoubleCompare a b = (if a < b then -1 else if a = b then 0 else 1)"
proof -
  let ?ea = "exponent_field a" and ?eb = "exponent_field b"
  have fg: "f * 2 ^ 22 < 2 ^ 52" "g * 2 ^ 22 < 2 ^ 52" using field_bounds(2) [of a] field_bounds(2) [of b] assms(5,6) by simp_all
  have fr: "IntegerFrExp a = (2 ^ 30 + int f, int ?ea - 1022)" "IntegerFrExp b = (2 ^ 30 + int g, int ?eb - 1022)"
    using assms by (simp_all add: IntegerFrExp_normal Let_def)
  have less: "a < b \<longleftrightarrow> ?ea * 2 ^ 52 + f * 2 ^ 22 < ?eb * 2 ^ 52 + g * 2 ^ 22"
    and eq: "a = b \<longleftrightarrow> ?ea * 2 ^ 52 + f * 2 ^ 22 = ?eb * 2 ^ 52 + g * 2 ^ 22"
    using positive_fields [OF assms(3)] positive_fields [OF assms(4)] assms(5,6) by (simp_all add: word_less_nat_alt word_unat_eq_iff)
  have "?ea < 2047" "?eb < 2047" using assms(1,2) by (simp_all add: normal_def)
  then show ?thesis
    unfolding IntegerDoubleCompare_def fr prod.case Let_def less eq using fg by auto
qed

text \<open>Negative numbers come out in the order of their absolute values, and 0 above the positive numbers below one half.\<close>

lemma compare_negative: "IntegerDoubleCompare 0xc000000000000000 0xbff0000000000000 = 1"
  by (simp add: IntegerDoubleCompare_def IntegerFrExp_fields exponent_field_def fraction_field_def is_negative_def)

lemma compare_zero: "IntegerDoubleCompare 0 0x3fd0000000000000 = 1"
  by (simp add: IntegerDoubleCompare_def IntegerFrExp_fields exponent_field_def fraction_field_def is_negative_def)

section \<open>The radius of inputs\<close>

text \<open>With arguments for which the shifts and the result fit, the variant for machines without floating point computes the same radius.\<close>

lemma input_radius_emulated:
  assumes "in_i32 (CalculateInputRadius False b l t)" "b \<le> t"
  shows "CalculateInputRadius True b l t = CalculateInputRadius False b l t"
proof -
  have "\<lfloor>of_int (2 ^ b - 1) * 2 ^ (t - b) / (2 ^ l :: rat)\<rfloor> = (2 ^ b - 1) * 2 ^ (t - b) div 2 ^ l"
    using floor_divide_of_int_eq [of "(2 ^ b - 1) * 2 ^ (t - b)" "2 ^ l", where ?'a = rat] by simp
  then show ?thesis
    using assms by (simp add: CalculateInputRadius_def Let_def push_bit_eq_mult drop_bit_eq_div wrap_i32_id)
qed

end
