(* ===== verification/Requantization.thy ===== *)
theory Requantization
  imports Kernels QuantizationUtil
begin

text \<open>
  Applying a quantized multiplier (\<open>lite/kernels/internal/common.cc\<close> and \<open>common.h\<close>): the kernels multiply an accumulator with the integer and shift that
  \<open>QuantizeMultiplier\<close> made of a floating-point factor. The theory composes the two: the result is next to the product with the factor itself.
\<close>

section \<open>The variants\<close>

text \<open>Of a build with single rounding; the debug checks are hypotheses of the lemmas.\<close>

definition MultiplyByQuantizedMultiplierSingle :: "int \<Rightarrow> int \<Rightarrow> int \<Rightarrow> int" where
  "MultiplyByQuantizedMultiplierSingle x quantized_multiplier shift =
     (let total_shift = 31 - shift;
          round = 2 ^ nat (total_shift - 1);
          result = wrap_i64 (x * quantized_multiplier + round)
      in wrap_i32 (result div 2 ^ nat total_shift))"

definition MultiplyByQuantizedMultiplierSmallerThanOneExp :: "gemmlowp \<Rightarrow> int \<Rightarrow> int \<Rightarrow> int \<Rightarrow> int" where
  "MultiplyByQuantizedMultiplierSmallerThanOneExp G x quantized_multiplier left_shift =
     gl_RoundingDivideByPOT G (gl_SaturatingRoundingDoublingHighMul G x quantized_multiplier) (- left_shift)"

definition MultiplyByQuantizedMultiplierGreaterThanOne :: "gemmlowp \<Rightarrow> int \<Rightarrow> int \<Rightarrow> int \<Rightarrow> int" where
  "MultiplyByQuantizedMultiplierGreaterThanOne G x quantized_multiplier left_shift =
     gl_SaturatingRoundingDoublingHighMul G (wrap_i32 (x * wrap_i32 (2 ^ nat left_shift))) quantized_multiplier"

section \<open>Rounding to the nearest integer\<close>

text \<open>
  What the library \<open>gemmlowp\<close> documents of its two functions: the high half of the doubled product and the quotient by a power of two, both rounded to
  a nearest integer. The product saturates only for twice the least number.
\<close>

definition gemmlowp_rounds :: "gemmlowp \<Rightarrow> bool" where
  "gemmlowp_rounds G \<longleftrightarrow>
     (\<forall>a b. in_i32 a \<and> in_i32 b \<and> (a \<noteq> i32_min \<or> b \<noteq> i32_min) \<longrightarrow>
        2 * \<bar>gl_SaturatingRoundingDoublingHighMul G a b * 2 ^ 31 - a * b\<bar> \<le> 2 ^ 31) \<and>
     (\<forall>a n. in_i32 a \<and> 0 \<le> n \<and> n \<le> 31 \<longrightarrow> 2 * \<bar>gl_RoundingDivideByPOT G a n * 2 ^ nat n - a\<bar> \<le> 2 ^ nat n)"

lemma rounds_mul: "gemmlowp_rounds G \<Longrightarrow> in_i32 a \<Longrightarrow> in_i32 b \<Longrightarrow> 0 \<le> b \<Longrightarrow>
    2 * \<bar>gl_SaturatingRoundingDoublingHighMul G a b * 2 ^ 31 - a * b\<bar> \<le> 2 ^ 31"
  unfolding gemmlowp_rounds_def by auto

lemma rounds_div: "gemmlowp_rounds G \<Longrightarrow> in_i32 a \<Longrightarrow> n \<le> 31 \<Longrightarrow>
    2 * \<bar>gl_RoundingDivideByPOT G a (int n) * 2 ^ n - a\<bar> \<le> 2 ^ n"
  unfolding gemmlowp_rounds_def by (metis nat_int of_nat_0_le_iff of_nat_le_iff of_nat_numeral)

lemma real_of_int_mono: "a \<le> b \<Longrightarrow> real_of_int a \<le> real_of_int b"
  by simp

lemma rounded_product_in_range:
  assumes "in_i32 a" "0 \<le> b" "b < 2 ^ 31" "2 * \<bar>y * 2 ^ 31 - a * b\<bar> \<le> 2 ^ 31"
  shows "in_i32 y"
proof -
  have "\<bar>a * b\<bar> \<le> 2 ^ 31 * (2 ^ 31 - 1)"
    unfolding abs_mult using assms(1-3) by (intro mult_mono) (auto simp: in_i32_def)
  with assms(4) show ?thesis by (auto simp: in_i32_def abs_le_iff)
qed

section \<open>The value of a double\<close>

definition double_value :: "double \<Rightarrow> real" where
  "double_value u = (if is_negative u then -1 else 1) * real (significand u) * 2 powi (int (max 1 (exponent_field u)) - 1075)"

lemma value_normal: "normal u \<Longrightarrow> \<not> is_negative u \<Longrightarrow> double_value u = real (significand u) * 2 powi (int (exponent_field u) - 1075)"
  by (simp add: double_value_def normal_def)

text \<open>Below \<open>2 ^ -32\<close> the multiplier is 0; else it is the factor up to a relative error of \<open>2 ^ -31\<close>.\<close>

lemma multiplier_value:
  assumes "normal m" "\<not> is_negative m" "QuantizeMultiplier emulate False m = Some (q, s)"
  shows "q = 0 \<and> s = 0 \<and> 0 \<le> double_value m \<and> double_value m \<le> 1 / 2 ^ 32 \<or>
    -31 \<le> s \<and> 0 \<le> q \<and> q < 2 ^ 31 \<and> \<bar>of_int q * 2 powi s / 2 ^ 31 - double_value m\<bar> \<le> 2 powi s / 2 ^ 32"
proof -
  define e where "e = int (exponent_field m) - 1022"
  have v: "double_value m = real (significand m) * 2 powi (e - 53)" using assms(1,2) by (simp add: value_normal e_def)
  have sig: "significand m < 2 ^ 53" using field_bounds(2) [of m] by (simp add: significand_def)
  from multiplier_close [OF assms(1,2), of emulate] assms(3)
  consider "q = 0" "s = 0" "e < -31" |
    "0 \<le> q" "q < 2 ^ 31" "-31 \<le> s" "s = e \<or> s = e + 1" "\<bar>q * 2 ^ nat (s - e) * 2 ^ 22 - int (significand m)\<bar> \<le> 2 ^ 21"
    by (auto simp: Let_def e_def)
  then show ?thesis
  proof cases
    case 1
    have "(2 :: real) powi (e - 53) \<le> 2 powi (-85)" using 1(3) by (intro power_int_increasing) simp_all
    then have "double_value m \<le> 2 ^ 53 * 2 powi (-85)" unfolding v using sig by (intro mult_mono) simp_all
    with 1 show ?thesis by (simp add: v power_int_minus)
  next
    case 2
    define d where "d = nat (s - e)"
    have s: "s = e + int d" "e \<le> s" using 2(4) by (auto simp: d_def)
    have p: "(2 :: real) powi s = 2 powi (e - 53) * 2 ^ d * 2 ^ 53"
      unfolding s(1) by (simp add: power_int_add power_int_diff)
    have "\<bar>real_of_int (q * 2 ^ d * 2 ^ 22 - int (significand m))\<bar> \<le> 2 ^ 21"
      using 2(5) unfolding d_def [symmetric] of_int_abs [symmetric] by (metis of_int_le_iff of_int_numeral of_int_power)
    then have "2 powi (e - 53) * \<bar>of_int q * 2 ^ d * 2 ^ 22 - real (significand m)\<bar> \<le> 2 powi (e - 53) * 2 ^ 21"
      by (intro mult_left_mono) simp_all
    moreover have "of_int q * 2 powi s / 2 ^ 31 - double_value m =
        2 powi (e - 53) * (of_int q * 2 ^ d * 2 ^ 22 - real (significand m))"
      unfolding p v by (simp add: field_simps)
    ultimately have "\<bar>of_int q * 2 powi s / 2 ^ 31 - double_value m\<bar> \<le> 2 powi (e - 53) * 2 ^ 21"
      by (simp only: abs_mult) simp
    also have "\<dots> = 2 powi e / 2 ^ 32" by (simp add: power_int_diff)
    also have "\<dots> \<le> 2 powi s / 2 ^ 32" using s(2) by (intro divide_right_mono power_int_increasing) simp_all
    finally show ?thesis using 2(1-3) by simp
  qed
qed

section \<open>The error of a scaled accumulator\<close>

lemma power_in_range: "s \<le> 30 \<Longrightarrow> in_i32 (2 ^ nat s)"
proof -
  assume "s \<le> 30"
  then have "(2 :: int) ^ nat s \<le> 2 ^ 30" by (intro power_increasing) simp_all
  moreover have "i32_min \<le> 2 ^ nat s" by (rule order_trans [of _ 0]) simp_all
  ultimately show ?thesis unfolding in_i32_def by simp
qed

text \<open>The two roundings together, relative to the multiplier.\<close>

lemma scaled_close:
  assumes "gemmlowp_rounds G" "in_i32 (x * 2 ^ nat s)" "0 \<le> q" "q < 2 ^ 31" "-31 \<le> s" "s \<le> 30"
  shows "\<bar>real_of_int (MultiplyByQuantizedMultiplier G x q s) - of_int x * (of_int q * 2 powi s / 2 ^ 31)\<bar> \<le>
    1 / 2 + (if s < 0 then 2 powi s / 2 else 0)"
proof -
  define y where "y = gl_SaturatingRoundingDoublingHighMul G (x * 2 ^ nat s) q"
  define n where "n = nat (- s)"
  define r where "r = gl_RoundingDivideByPOT G y (int n)"
  have "wrap_i32 (2 ^ nat s) = 2 ^ nat s" by (rule wrap_i32_id [OF power_in_range [OF assms(6)]])
  moreover have "nat (if 0 < s then s else 0) = nat s" "(if 0 < s then 0 else - s) = int n" by (auto simp: n_def)
  ultimately have r: "MultiplyByQuantizedMultiplier G x q s = r"
    using wrap_i32_id [OF assms(2)] by (simp only: MultiplyByQuantizedMultiplier_def Let_def r_def y_def)
  have q: "in_i32 q" using assms(3,4) by (simp add: in_i32_def)
  have y: "2 * \<bar>y * 2 ^ 31 - x * 2 ^ nat s * q\<bar> \<le> 2 ^ 31"
    unfolding y_def by (rule rounds_mul [OF assms(1,2) q assms(3)])
  have n: "n \<le> 31" using assms(5) by (simp add: n_def)
  have "in_i32 y" by (rule rounded_product_in_range [OF assms(2-4) y])
  then have z: "2 * \<bar>r * 2 ^ n - y\<bar> \<le> 2 ^ n" unfolding r_def by (rule rounds_div [OF assms(1) _ n])
  have yr: "\<bar>of_int y - of_int x * 2 ^ nat s * (of_int q / 2 ^ 31)\<bar> \<le> (1 / 2 :: real)"
    using real_of_int_mono [OF y] by (simp add: abs_le_iff field_simps)
  show ?thesis
  proof (cases "s < 0")
    case True
    then have w: "(2 :: real) powi s = 1 / 2 ^ n" "nat s = 0" by (simp_all add: n_def power_int_def field_simps)
    have zr: "\<bar>of_int r - of_int y / 2 ^ n\<bar> \<le> (1 / 2 :: real)"
      using real_of_int_mono [OF z] by (simp add: abs_le_iff field_simps)
    have "\<bar>of_int y / 2 ^ n - of_int x * (of_int q / 2 ^ 31) / 2 ^ n\<bar> \<le> (1 / 2 :: real) / 2 ^ n"
      using divide_right_mono [OF yr, of "2 ^ n"] unfolding w diff_divide_distrib [symmetric] abs_divide by simp
    moreover have "of_int x * (of_int q * (1 / 2 ^ n) / 2 ^ 31) = of_int x * (of_int q / 2 ^ 31) / (2 ^ n :: real)" by simp
    moreover have "(1 / 2 ^ n / 2 :: real) = 1 / 2 / 2 ^ n" by simp
    ultimately show ?thesis using zr True unfolding r w by (simp only: if_True)
  next
    case False
    then have w: "(2 :: real) powi s = 2 ^ nat s" "n = 0" by (simp_all add: n_def power_int_def)
    then have "r = y" using z by (simp add: abs_if split: if_splits)
    then show ?thesis using yr False unfolding r w by (simp add: ac_simps)
  qed
qed

lemma accumulator_bound:
  assumes "in_i32 (x * 2 ^ nat s)"
  shows "\<bar>of_int x\<bar> * (2 powi s / 2 ^ 32) \<le> (if s < 0 then 2 powi s / 2 else (1 / 2 :: real))"
proof (cases "s < 0")
  case True
  then have "\<bar>real_of_int x\<bar> \<le> 2 ^ 31" using assms by (simp add: in_i32_def abs_le_iff)
  then have "\<bar>real_of_int x\<bar> * (2 powi s / 2 ^ 32) \<le> 2 ^ 31 * (2 powi s / 2 ^ 32)" by (intro mult_right_mono) simp_all
  with True show ?thesis by simp
next
  case False
  have "\<bar>x * 2 ^ nat s\<bar> \<le> 2 ^ 31" using assms by (simp add: in_i32_def abs_le_iff)
  then have "\<bar>real_of_int (x * 2 ^ nat s)\<bar> \<le> 2 ^ 31" unfolding of_int_abs [symmetric] by (metis of_int_le_iff of_int_numeral of_int_power)
  with False show ?thesis by (simp add: abs_mult power_int_def)
qed

text \<open>
  Claim C29. Scaling an accumulator by a quantized multiplier is exact up to one unit: for every positive normal double that \<open>QuantizeMultiplier\<close> turned
  into an integer and a shift of at most 30, with and without emulation of floating-point arithmetic, and every accumulator that is not too large for
  the shift to the left, the result differs from the product of the accumulator and the double by at most 1, if the library rounds as it documents.
\<close>

theorem requantization_error:
  assumes "gemmlowp_rounds G" "normal m" "\<not> is_negative m" "QuantizeMultiplier emulate False m = Some (q, s)" "s \<le> 30"
    "in_i32 (x * 2 ^ nat s)"
  shows "\<bar>real_of_int (MultiplyByQuantizedMultiplier G x q s) - of_int x * double_value m\<bar> \<le> 1"
  using multiplier_value [OF assms(2-4)]
proof (elim disjE conjE)
  assume z: "q = 0" "s = 0" "0 \<le> double_value m" "double_value m \<le> 1 / 2 ^ 32"
  then have "\<bar>real_of_int (MultiplyByQuantizedMultiplier G x q s)\<bar> \<le> 1 / 2"
    using scaled_close [OF assms(1,6), of q] by simp
  moreover have "\<bar>of_int x * double_value m\<bar> \<le> 2 ^ 31 * (1 / 2 ^ 32)"
    unfolding abs_mult using z assms(6) by (intro mult_mono) (simp_all add: in_i32_def abs_le_iff)
  then have "\<bar>of_int x * double_value m\<bar> \<le> 1 / 2" by simp
  ultimately show ?thesis by linarith
next
  assume q: "-31 \<le> s" "0 \<le> q" "q < 2 ^ 31" "\<bar>of_int q * 2 powi s / 2 ^ 31 - double_value m\<bar> \<le> 2 powi s / 2 ^ 32"
  let ?r = "real_of_int (MultiplyByQuantizedMultiplier G x q s)" and ?p = "of_int x * (of_int q * 2 powi s / 2 ^ 31)"
  define c :: real where "c = (if s < 0 then 2 powi s / 2 else 0)"
  have "(2 :: real) powi s \<le> 2 powi (-1)" if "s < 0" using that by (intro power_int_increasing) simp_all
  then have c: "c + (if s < 0 then 2 powi s / 2 else 1 / 2) \<le> 1 / 2" by (auto simp: c_def)
  have "\<bar>?p - of_int x * double_value m\<bar> \<le> \<bar>of_int x\<bar> * (2 powi s / 2 ^ 32)"
    unfolding right_diff_distrib [symmetric] abs_mult using q(4) by (intro mult_left_mono) simp_all
  also note accumulator_bound [OF assms(6)]
  finally have "\<bar>?p - of_int x * double_value m\<bar> \<le> 1 / 2 - c" using c by linarith
  moreover have "\<bar>?r - ?p\<bar> \<le> 1 / 2 + c" unfolding c_def by (rule scaled_close [OF assms(1,6) q(2,3,1) assms(5)])
  ultimately show ?thesis using abs_triangle_ineq [of "?r - ?p" "?p - of_int x * double_value m"] by simp
qed

text \<open>An instance of the library: halves are rounded up.\<close>

definition nearest :: gemmlowp where
  "nearest = \<lparr>gl_SaturatingRoundingDoublingHighMul = (\<lambda>a b. (2 * (a * b) + 2 ^ 31) div (2 * 2 ^ 31)),
     gl_RoundingDivideByPOT = (\<lambda>a n. (2 * a + 2 ^ nat n) div (2 * 2 ^ nat n))\<rparr>"

lemma round_div: "0 < (p :: int) \<Longrightarrow> 2 * \<bar>(2 * a + p) div (2 * p) * p - a\<bar> \<le> p"
proof -
  assume p: "0 < p"
  define k r where "k = (2 * a + p) div (2 * p)" and "r = (2 * a + p) mod (2 * p)"
  have "2 * a + p = 2 * (k * p) + r" unfolding k_def r_def using mult_div_mod_eq [of "2 * p" "2 * a + p"] by (simp add: ac_simps)
  moreover have "0 \<le> r" "r < 2 * p" unfolding r_def using p by simp_all
  ultimately show ?thesis unfolding k_def [symmetric] by (simp add: abs_if)
qed

lemma nearest_rounds: "gemmlowp_rounds nearest"
  unfolding gemmlowp_rounds_def nearest_def gemmlowp.simps by (intro conjI allI impI round_div) simp_all

theorem requantization_error_witness:
  "\<exists>q s. QuantizeMultiplier False False 0x3fe8000000000000 = Some (q, s) \<and>
     \<bar>real_of_int (MultiplyByQuantizedMultiplier nearest 100 q s) - of_int 100 * double_value 0x3fe8000000000000\<bar> \<le> 1"
proof -
  have m: "normal 0x3fe8000000000000" "\<not> is_negative 0x3fe8000000000000" and
    f: "fraction_field 0x3fe8000000000000 = 2 ^ 51" "exponent_field 0x3fe8000000000000 = 1022"
    by (simp_all add: normal_def is_negative_def exponent_field_def fraction_field_def)
  have "(if False then IntegerFrExp 0x3fe8000000000000 else frexp_round 0x3fe8000000000000) = (2 ^ 30 + 2 ^ 29, 0)"
    using m f by (simp add: frexp_round_normal Let_def)
  from QuantizeMultiplier_normal [OF m this] have q: "QuantizeMultiplier False False 0x3fe8000000000000 = Some (2 ^ 30 + 2 ^ 29, 0)"
    by simp
  with requantization_error [OF nearest_rounds m q, of 100] show ?thesis by (simp add: in_i32_def)
qed

section \<open>Agreement of the variants\<close>

lemma smaller_than_one_variant:
  "in_i32 x \<Longrightarrow> s \<le> 0 \<Longrightarrow> MultiplyByQuantizedMultiplierSmallerThanOneExp G x q s = MultiplyByQuantizedMultiplier G x q s"
  by (simp add: MultiplyByQuantizedMultiplierSmallerThanOneExp_def MultiplyByQuantizedMultiplier_def wrap_i32_id in_i32_def Let_def)

lemma greater_than_one_variant:
  assumes "gemmlowp_rounds G" "in_i32 (x * 2 ^ nat s)" "0 \<le> q" "q < 2 ^ 31" "0 \<le> s" "s \<le> 30"
  shows "MultiplyByQuantizedMultiplierGreaterThanOne G x q s = MultiplyByQuantizedMultiplier G x q s"
proof -
  let ?y = "gl_SaturatingRoundingDoublingHighMul G (x * 2 ^ nat s) q"
  have "in_i32 q" using assms(3,4) by (simp add: in_i32_def)
  then have "in_i32 ?y" using rounded_product_in_range [OF assms(2-4) rounds_mul [OF assms(1,2) _ assms(3)]] by blast
  then have "2 * \<bar>gl_RoundingDivideByPOT G ?y 0 - ?y\<bar> \<le> 1" using rounds_div [OF assms(1), of ?y 0] by simp
  then have "gl_RoundingDivideByPOT G ?y 0 = ?y" by (simp add: abs_if split: if_splits)
  moreover have "in_i32 (2 ^ nat s)" by (rule power_in_range [OF assms(6)])
  moreover have "nat (if 0 < s then s else 0) = nat s" "(if 0 < s then 0 else - s) = 0" using assms(5) by auto
  ultimately show ?thesis using assms(2)
    unfolding MultiplyByQuantizedMultiplierGreaterThanOne_def MultiplyByQuantizedMultiplier_def Let_def by (simp only: wrap_i32_id)
qed

text \<open>Rounding once, the result is a nearest integer of the product with the multiplier. The sum of 64 bits does not overflow.\<close>

lemma single_rounding_close:
  assumes "in_i32 x" "0 \<le> q" "q < 2 ^ 31" "-31 \<le> s" "s \<le> 30" "in_i32 ((2 * (x * q) + 2 ^ nat (31 - s)) div (2 * 2 ^ nat (31 - s)))"
  shows "2 * \<bar>MultiplyByQuantizedMultiplierSingle x q s * 2 ^ nat (31 - s) - x * q\<bar> \<le> 2 ^ nat (31 - s)"
proof -
  define t where "t = nat (30 - s)"
  have t: "nat (31 - s) = Suc t" "nat (31 - s - 1) = t" "t \<le> 61" using assms(4,5) by (simp_all add: t_def)
  have "\<bar>x * q\<bar> \<le> 2 ^ 31 * 2 ^ 31"
    unfolding abs_mult using assms(1-3) by (intro mult_mono) (auto simp: in_i32_def)
  moreover have "(2 :: int) ^ t \<le> 2 ^ 61" using t(3) by (intro power_increasing) simp_all
  ultimately have "-9223372036854775808 \<le> x * q" "x * q + 2 ^ t < 9223372036854775808" by (auto simp: abs_le_iff)
  moreover from this(1) have "-9223372036854775808 \<le> x * q + 2 ^ t" by (rule order_trans) simp
  ultimately have "-9223372036854775808 \<le> x * q + 2 ^ t" "x * q + 2 ^ t < 9223372036854775808" by blast+
  then have w: "wrap_i64 (x * q + 2 ^ t) = x * q + 2 ^ t" by (simp add: wrap_i64_def)
  have d: "(x * q + 2 ^ t) div 2 ^ Suc t = (2 * (x * q) + 2 ^ Suc t) div (2 * 2 ^ Suc t)"
    using div_mult_mult1 [of 2 "x * q + 2 ^ t" "2 ^ Suc t"] by (simp add: algebra_simps)
  have "MultiplyByQuantizedMultiplierSingle x q s = (2 * (x * q) + 2 ^ Suc t) div (2 * 2 ^ Suc t)"
    using wrap_i32_id [OF assms(6)] unfolding MultiplyByQuantizedMultiplierSingle_def Let_def t w d .
  then show ?thesis unfolding t(1) using round_div [of "2 ^ Suc t" "x * q"] by simp
qed

end
